(* ===== verification/Gem_Prelude.thy ===== *)
theory Gem_Prelude
  imports Main "HOL-Library.Word"
begin

unbundle bit_operations_syntax

text \<open>
  Shared vocabulary of the GEM development: the fixed-width integer types of the C sources,
  checked unsigned arithmetic, the outcome type of code that may stop early, little-endian
  byte encodings, and the generic lemmas on words and lists that the component theories use.
\<close>

section \<open>Types and collections\<close>

type_synonym u8 = "8 word"
type_synonym u16 = "16 word"
type_synonym u32 = "32 word"
type_synonym u64 = "64 word"

text \<open>The runtime is built for a 64-bit host only (context.h asserts it): \<open>size_t\<close> is 64 bits wide.\<close>

type_synonym size_t = "64 word"

type_synonym byte_string = "u8 list"

named_theorems le_simps \<open>little-endian encoders and decoders\<close>
named_theorems span_simps \<open>checked arithmetic and containment of spans\<close>
named_theorems ctx_defs \<open>definitions of the thread-context operations\<close>
named_theorems mem_defs \<open>definitions of the guest-memory operations\<close>
named_theorems mem_frame \<open>what a guest-memory operation leaves unchanged\<close>

section \<open>Outcomes of code that can stop early\<close>

text \<open>
  A sequence of C statements in which every step may return a status early is a chain of
  \<open>rbind\<close>: the first \<open>Inl\<close> ends it.
\<close>

definition rbind :: "'e + 'a \<Rightarrow> ('a \<Rightarrow> 'e + 'b) \<Rightarrow> 'e + 'b" where
  "rbind r f = (case r of Inl e \<Rightarrow> Inl e | Inr a \<Rightarrow> f a)"

definition guard_that :: "bool \<Rightarrow> 'e \<Rightarrow> 'e + unit" where
  "guard_that c e = (if c then Inr () else Inl e)"

lemma rbind_simps [simp]:
  "rbind (Inl e) f = Inl e"
  "rbind (Inr a) f = f a"
  by (simp_all add: rbind_def)

lemma rbind_Inr_iff: "rbind r f = Inr b \<longleftrightarrow> (\<exists>a. r = Inr a \<and> f a = Inr b)"
  by (cases r) auto

lemma rbind_InrE [elim!]:
  assumes "rbind r f = Inr b"
  obtains a where "r = Inr a" and "f a = Inr b"
  using assms by (auto simp: rbind_Inr_iff)

lemma rbind_Inl_iff: "rbind r f = Inl e \<longleftrightarrow> r = Inl e \<or> (\<exists>a. r = Inr a \<and> f a = Inl e)"
  by (cases r) auto

lemma guard_that_Inr_iff [simp]: "guard_that c e = Inr u \<longleftrightarrow> c"
  by (simp add: guard_that_def)

lemma guard_that_Inl_iff [simp]: "guard_that c e = Inl e' \<longleftrightarrow> \<not> c \<and> e = e'"
  by (auto simp: guard_that_def)

section \<open>Checked unsigned arithmetic\<close>

text \<open>
  \<open>if (a > MAX - b) return false; *out = a + b;\<close> at any width: the sum, or nothing when it
  would wrap.
\<close>

definition checked_add :: "'w::len word \<Rightarrow> 'w word \<Rightarrow> 'w word option" where
  "checked_add a b = (if a > - 1 - b then None else Some (a + b))"

definition checked_mul :: "'w::len word \<Rightarrow> 'w word \<Rightarrow> 'w word option" where
  "checked_mul a b = (if a \<noteq> 0 \<and> b > (- 1) div a then None else Some (a * b))"

lemma unat_all_ones: "unat (- 1 :: 'w::len word) = 2 ^ LENGTH('w) - 1"
  by (simp add: unsigned_minus_1_eq_mask mask_eq_exp_minus_1)

lemma unat_minus_one_diff:
  fixes b :: "'w::len word"
  shows "unat (- 1 - b) = 2 ^ LENGTH('w) - 1 - unat b"
proof -
  have "b \<le> - 1" by simp
  then have "unat (- 1 - b) = unat (- 1 :: 'w word) - unat b"
    by (rule unat_sub)
  then show ?thesis by (simp add: unat_all_ones)
qed

lemma no_wrap_iff:
  fixes a b :: "'w::len word"
  shows "a \<le> - 1 - b \<longleftrightarrow> unat a + unat b < 2 ^ LENGTH('w)"
proof -
  have "unat b < 2 ^ LENGTH('w)" by (rule unsigned_less)
  then show ?thesis
    by (simp add: word_le_nat_alt unat_minus_one_diff del: unsigned_less) linarith
qed

lemma unat_add_no_wrap:
  fixes a b :: "'w::len word"
  assumes "unat a + unat b < 2 ^ LENGTH('w)"
  shows "unat (a + b) = unat a + unat b"
  using assms by (simp add: unat_word_ariths)

lemma checked_add_Some_iff:
  fixes a b c :: "'w::len word"
  shows "checked_add a b = Some c \<longleftrightarrow> unat c = unat a + unat b"
proof
  assume "checked_add a b = Some c"
  then have "a \<le> - 1 - b" and "c = a + b"
    by (auto simp: checked_add_def not_less split: if_splits)
  then show "unat c = unat a + unat b"
    by (simp add: no_wrap_iff unat_add_no_wrap)
next
  assume c: "unat c = unat a + unat b"
  have "unat c < 2 ^ LENGTH('w)" by (rule unsigned_less)
  with c have lt: "unat a + unat b < 2 ^ LENGTH('w)" by simp
  then have "unat (a + b) = unat c" by (simp add: c unat_add_no_wrap)
  then have "c = a + b" by (simp add: word_unat_eq_iff)
  moreover have "a \<le> - 1 - b" using lt by (simp add: no_wrap_iff)
  ultimately show "checked_add a b = Some c"
    by (simp add: checked_add_def)
qed

lemma checked_add_None_iff:
  fixes a b :: "'w::len word"
  shows "checked_add a b = None \<longleftrightarrow> 2 ^ LENGTH('w) \<le> unat a + unat b"
  using no_wrap_iff [of a b] by (auto simp: checked_add_def not_le)

lemma checked_mul_Some:
  fixes a b c :: "'w::len word"
  assumes "checked_mul a b = Some c"
  shows "unat c = unat a * unat b"
proof (cases "a = 0")
  case True
  with assms show ?thesis by (auto simp: checked_mul_def)
next
  case False
  with assms have "b \<le> (- 1) div a" and c: "c = a * b"
    by (auto simp: checked_mul_def not_less split: if_splits)
  then have "unat b \<le> (2 ^ LENGTH('w) - 1) div unat a"
    by (simp add: word_le_nat_alt unat_div unat_all_ones)
  then have "unat b * unat a \<le> 2 ^ LENGTH('w) - 1"
    by (metis div_times_less_eq_dividend le_trans mult_le_mono1)
  moreover have "(0::nat) < 2 ^ LENGTH('w)" by simp
  ultimately have "unat b * unat a < 2 ^ LENGTH('w)" by linarith
  then show ?thesis by (simp add: c unat_word_ariths mult.commute)
qed

lemmas checked_simps = checked_add_Some_iff checked_add_None_iff

section \<open>Little-endian encodings\<close>

text \<open>
  \<open>le_bytes k v\<close> is the loop \<open>for (i = 0; i < k; ++i) *p++ = (uint8_t)(v >> (i * 8))\<close>;
  \<open>le_word\<close> is \<open>v |= (uintN_t)p[i] << (i * 8)\<close> over the whole byte string.
\<close>

definition le_bytes :: "nat \<Rightarrow> 'w::len word \<Rightarrow> byte_string" where
  "le_bytes k v = map (\<lambda>i. ucast (drop_bit (8 * i) v)) [0..<k]"

fun le_word :: "byte_string \<Rightarrow> 'w::len word" where
  "le_word [] = 0"
| "le_word (b # bs) = ucast b OR push_bit 8 (le_word bs)"

lemma length_le_bytes [simp]: "length (le_bytes k v) = k"
  by (simp add: le_bytes_def)

lemma le_bytes_Suc: "le_bytes (Suc k) v = ucast v # le_bytes k (drop_bit 8 v)"
proof -
  have "[0..<Suc k] = 0 # map Suc [0..<k]"
    by (simp only: upt_conv_Cons map_Suc_upt zero_less_Suc)
  then show ?thesis
    by (simp add: le_bytes_def comp_def add.commute del: upt_Suc)
qed

lemma bit_le_word_iff:
  "bit (le_word bs :: 'w::len word) n \<longleftrightarrow>
     n < LENGTH('w) \<and> n div 8 < length bs \<and> bit (bs ! (n div 8)) (n mod 8)"
proof (induction bs arbitrary: n)
  case Nil
  then show ?case by simp
next
  case (Cons b bs)
  show ?case
  proof (cases "n < 8")
    case True
    then show ?thesis
      by (auto simp: bit_or_iff bit_push_bit_iff bit_ucast_iff dest: bit_imp_le_length)
  next
    case False
    then have div: "n div 8 = Suc ((n - 8) div 8)" and mod: "(n - 8) mod 8 = n mod 8"
      by (auto simp: le_div_geq le_mod_geq)
    have "\<not> bit b n" using False by (auto dest: bit_imp_le_length)
    with False show ?thesis
      by (auto simp: bit_or_iff bit_push_bit_iff bit_ucast_iff Cons.IH div mod)
  qed
qed

lemma bit_le_bytes_nth:
  assumes "i < k" and "j < 8"
  shows "bit (le_bytes k v ! i) j \<longleftrightarrow> bit v (8 * i + j)"
  using assms by (simp add: le_bytes_def bit_ucast_iff bit_drop_bit_eq)

theorem le_word_le_bytes:
  fixes v :: "'w::len word"
  assumes "LENGTH('w) \<le> 8 * k"
  shows "le_word (le_bytes k v) = v"
proof (rule bit_word_eqI)
  fix n assume "n < LENGTH('w)"
  with assms have "n div 8 < k" by auto
  then show "bit (le_word (le_bytes k v) :: 'w word) n \<longleftrightarrow> bit v n"
    using \<open>n < LENGTH('w)\<close> by (simp add: bit_le_word_iff bit_le_bytes_nth)
qed

lemma le_bytes_le_word:
  fixes bs :: byte_string
  assumes "8 * length bs \<le> LENGTH('w)"
  shows "le_bytes (length bs) (le_word bs :: 'w::len word) = bs"
proof (rule nth_equalityI)
  fix i assume "i < length (le_bytes (length bs) (le_word bs :: 'w word))"
  then have i: "i < length bs" by simp
  show "le_bytes (length bs) (le_word bs :: 'w word) ! i = bs ! i"
  proof (rule bit_word_eqI)
    fix j assume "j < LENGTH(8)"
    then have j: "j < 8" by simp
    then have "(8 * i + j) div 8 = i" and "(8 * i + j) mod 8 = j" by auto
    moreover have "8 * i + j < LENGTH('w)" using i j assms by linarith
    ultimately show "bit (le_bytes (length bs) (le_word bs :: 'w word) ! i) j \<longleftrightarrow> bit (bs ! i) j"
      using i j by (simp add: bit_le_bytes_nth bit_le_word_iff)
  qed
qed simp

text \<open>Every byte string of the right length is an encoding.\<close>

lemma le_bytes_surj:
  assumes "length bs = k" and "8 * k = LENGTH('w)"
  shows "\<exists>v :: 'w::len word. le_bytes k v = bs"
  using le_bytes_le_word [of bs, where ?'w = 'w] assms by auto

end
