(* ===== verification/Gem_Context.thy ===== *)
theory Gem_Context
  imports Gem_Prelude
begin

text \<open>
  The canonical thread context of include/metalsharp/gem/context.h and src/gem/context.c: the
  720-byte register file that the ARM64EC and x64 engines, the hybrid coordinator and the wire
  format share. C arrays are lists; \<open>gem_context_shape\<close> states their fixed lengths.
\<close>

datatype gem_isa = GEM_ISA_INVALID | GEM_ISA_ARM64EC | GEM_ISA_X64

fun isa_code :: "gem_isa \<Rightarrow> u32" where
  "isa_code GEM_ISA_INVALID = 0"
| "isa_code GEM_ISA_ARM64EC = 1"
| "isa_code GEM_ISA_X64 = 2"

datatype gem_stop_reason =
    GEM_STOP_NONE
  | GEM_STOP_SYSCALL
  | GEM_STOP_ARCH_TRANSITION
  | GEM_STOP_HOST_RETURN
  | GEM_STOP_MEMORY_FAULT
  | GEM_STOP_WINDOWS_EXCEPTION
  | GEM_STOP_ASYNC_REQUEST
  | GEM_STOP_UNSUPPORTED_INSTRUCTION
  | GEM_STOP_BUDGET_EXPIRED
  | GEM_STOP_INVARIANT_VIOLATION

fun stop_code :: "gem_stop_reason \<Rightarrow> u32" where
  "stop_code GEM_STOP_NONE = 0"
| "stop_code GEM_STOP_SYSCALL = 1"
| "stop_code GEM_STOP_ARCH_TRANSITION = 2"
| "stop_code GEM_STOP_HOST_RETURN = 3"
| "stop_code GEM_STOP_MEMORY_FAULT = 4"
| "stop_code GEM_STOP_WINDOWS_EXCEPTION = 5"
| "stop_code GEM_STOP_ASYNC_REQUEST = 6"
| "stop_code GEM_STOP_UNSUPPORTED_INSTRUCTION = 7"
| "stop_code GEM_STOP_BUDGET_EXPIRED = 8"
| "stop_code GEM_STOP_INVARIANT_VIOLATION = 9"

record gem_u128 =
  lo :: u64
  hi :: u64

record gem_thread_context =
  layout_version :: u32
  context_size :: u32
  x :: "u64 list"
  sp :: u64
  pc :: u64
  nzcv :: u32
  fpcr :: u32
  fpsr :: u32
  reserved0 :: u32
  v :: "gem_u128 list"
  x64_rflags :: u64
  x64_mxcsr :: u32
  x64_fcw :: u16
  x64_fsw :: u16
  x87 :: "gem_u128 list"
  teb :: u64
  original_x64_sp :: u64
  transition_cookie :: u64
  isa :: u32
  stop_reason :: u32

definition GEM_CONTEXT_LAYOUT_VERSION :: u32 where "GEM_CONTEXT_LAYOUT_VERSION = 1"
definition GEM_CONTEXT_SERIALIZATION_VERSION :: u32 where "GEM_CONTEXT_SERIALIZATION_VERSION = 1"
definition GEM_THREAD_CONTEXT_SIZE_V1 :: u32 where "GEM_THREAD_CONTEXT_SIZE_V1 = 720"

lemmas context_constants [ctx_defs] =
  GEM_CONTEXT_LAYOUT_VERSION_def GEM_CONTEXT_SERIALIZATION_VERSION_def
  GEM_THREAD_CONTEXT_SIZE_V1_def

text \<open>The array lengths the C type fixes.\<close>

definition gem_context_shape :: "gem_thread_context \<Rightarrow> bool" where
  "gem_context_shape c \<longleftrightarrow> length (x c) = 31 \<and> length (v c) = 16 \<and> length (x87 c) = 8"

definition zero_u128 :: gem_u128 where
  "zero_u128 = \<lparr>lo = 0, hi = 0\<rparr>"

text \<open>\<open>memset(context, 0, sizeof(*context))\<close> and the five assignments after it.\<close>

definition gem_context_initialize :: "u64 \<Rightarrow> gem_isa \<Rightarrow> gem_thread_context" where
  "gem_context_initialize t i =
    \<lparr>layout_version = GEM_CONTEXT_LAYOUT_VERSION,
     context_size = GEM_THREAD_CONTEXT_SIZE_V1,
     x = (replicate 31 0)[18 := t],
     sp = 0, pc = 0, nzcv = 0, fpcr = 0, fpsr = 0, reserved0 = 0,
     v = replicate 16 zero_u128,
     x64_rflags = 0, x64_mxcsr = 0, x64_fcw = 0, x64_fsw = 0,
     x87 = replicate 8 zero_u128,
     teb = t, original_x64_sp = 0, transition_cookie = 0,
     isa = isa_code i, stop_reason = 0\<rparr>"

definition gem_context_is_valid :: "gem_thread_context \<Rightarrow> bool" where
  "gem_context_is_valid c \<longleftrightarrow>
     \<not> (layout_version c \<noteq> GEM_CONTEXT_LAYOUT_VERSION \<or>
        context_size c \<noteq> GEM_THREAD_CONTEXT_SIZE_V1 \<or>
        teb c = 0 \<or> x c ! 18 \<noteq> teb c) \<and>
     (isa c = isa_code GEM_ISA_ARM64EC \<or> isa c = isa_code GEM_ISA_X64)"

text \<open>The pointer form: a null context is invalid.\<close>

definition gem_context_ptr_is_valid :: "gem_thread_context option \<Rightarrow> bool" where
  "gem_context_ptr_is_valid p = (case p of None \<Rightarrow> False | Some c \<Rightarrow> gem_context_is_valid c)"

definition stop_reason_names :: "string list" where
  "stop_reason_names =
    [''none'', ''syscall'', ''architecture-transition'', ''host-return'', ''memory-fault'',
     ''windows-exception'', ''async-request'', ''unsupported'', ''budget-expired'',
     ''invariant-violation'']"

text \<open>The argument is the enumerator as an \<open>unsigned int\<close>, so values outside the enum are covered.\<close>

definition gem_stop_reason_name :: "u32 \<Rightarrow> string" where
  "gem_stop_reason_name r =
    (if unat r \<ge> length stop_reason_names then ''invalid'' else stop_reason_names ! unat r)"

lemma stop_code_le: "stop_code r \<le> stop_code GEM_STOP_INVARIANT_VIOLATION"
  by (cases r) simp_all

lemma stop_code_inject: "stop_code r = stop_code s \<Longrightarrow> r = s"
  by (cases r; cases s) simp_all

lemma isa_code_inject [simp]: "isa_code i = isa_code j \<longleftrightarrow> i = j"
  by (cases i; cases j) simp_all

lemma initialize_shape: "gem_context_shape (gem_context_initialize t i)"
  by (simp add: gem_context_shape_def gem_context_initialize_def)

text \<open>
  A freshly initialised context is valid exactly for a non-zero TEB and one of the two
  executable instruction sets.
\<close>

lemma initialize_valid_iff:
  "gem_context_is_valid (gem_context_initialize t i) \<longleftrightarrow> t \<noteq> 0 \<and> i \<noteq> GEM_ISA_INVALID"
  by (cases i) (simp_all add: gem_context_is_valid_def gem_context_initialize_def)

end
