(* ===== verification/Gem_Serialization.thy ===== *)
theory Gem_Serialization
  imports Gem_Context
begin

text \<open>
  The portable wire format of src/gem/context_serialization.c: a twenty-byte header and every
  field of the thread context, little endian, 740 bytes in all. The C cursor \<open>uint8_t **p\<close> is the
  byte string written so far (encoders) or still to be read (decoders).
\<close>

section \<open>Cursor primitives\<close>

definition put16 :: "byte_string \<Rightarrow> u16 \<Rightarrow> byte_string" where
  "put16 p w = p @ le_bytes 2 w"
definition put32 :: "byte_string \<Rightarrow> u32 \<Rightarrow> byte_string" where
  "put32 p w = p @ le_bytes 4 w"
definition put64 :: "byte_string \<Rightarrow> u64 \<Rightarrow> byte_string" where
  "put64 p w = p @ le_bytes 8 w"
definition get16 :: "byte_string \<Rightarrow> u16 \<times> byte_string" where
  "get16 p = (le_word (take 2 p), drop 2 p)"
definition get32 :: "byte_string \<Rightarrow> u32 \<times> byte_string" where
  "get32 p = (le_word (take 4 p), drop 4 p)"
definition get64 :: "byte_string \<Rightarrow> u64 \<times> byte_string" where
  "get64 p = (le_word (take 8 p), drop 8 p)"
definition put128 :: "byte_string \<Rightarrow> gem_u128 \<Rightarrow> byte_string" where
  "put128 p w = put64 (put64 p (lo w)) (hi w)"

text \<open>
  \<open>struct gem_u128 v = {get64(p), get64(p)}\<close>: the two initialisers are evaluated left to right,
  the order Clang uses. ISO C leaves the order of initialiser side effects unspecified; \<open>get128_rtl\<close>
  is the other permitted order.
\<close>

definition get128 :: "byte_string \<Rightarrow> gem_u128 \<times> byte_string" where
  "get128 p = (let (l, p) = get64 p; (h, p) = get64 p in (\<lparr>lo = l, hi = h\<rparr>, p))"
definition get128_rtl :: "byte_string \<Rightarrow> gem_u128 \<times> byte_string" where
  "get128_rtl p = (let (h, p) = get64 p; (l, p) = get64 p in (\<lparr>lo = l, hi = h\<rparr>, p))"

text \<open>The counted loops over the register arrays.\<close>

fun put_all :: "(byte_string \<Rightarrow> 'a \<Rightarrow> byte_string) \<Rightarrow> byte_string \<Rightarrow> 'a list \<Rightarrow> byte_string" where
  "put_all put p [] = p"
| "put_all put p (w # ws) = put_all put (put p w) ws"

fun get_all :: "(byte_string \<Rightarrow> 'a \<times> byte_string) \<Rightarrow> nat \<Rightarrow> byte_string \<Rightarrow> 'a list \<times> byte_string" where
  "get_all get 0 p = ([], p)"
| "get_all get (Suc n) p = (let (w, p) = get p; (ws, p) = get_all get n p in (w # ws, p))"

section \<open>Encoding and decoding a context\<close>

definition GEM_CONTEXT_WIRE_MAGIC :: u32 where "GEM_CONTEXT_WIRE_MAGIC = 0x314d4547"
definition GEM_CONTEXT_WIRE_HEADER_SIZE_V1 :: u32 where "GEM_CONTEXT_WIRE_HEADER_SIZE_V1 = 20"
definition GEM_CONTEXT_WIRE_SIZE_V1 :: size_t where "GEM_CONTEXT_WIRE_SIZE_V1 = 740"

definition gem_context_serialized_size :: "u32 \<Rightarrow> size_t" where
  "gem_context_serialized_size version =
    (if version = GEM_CONTEXT_SERIALIZATION_VERSION then GEM_CONTEXT_WIRE_SIZE_V1 else 0)"

definition encode :: "byte_string \<Rightarrow> gem_thread_context \<Rightarrow> byte_string" where
  "encode p c =
    (let p = put32 p (layout_version c);
         p = put32 p (context_size c);
         p = put_all put64 p (x c);
         p = put64 p (sp c);
         p = put64 p (pc c);
         p = put32 p (nzcv c);
         p = put32 p (fpcr c);
         p = put32 p (fpsr c);
         p = put32 p (reserved0 c);
         p = put_all put128 p (v c);
         p = put64 p (x64_rflags c);
         p = put32 p (x64_mxcsr c);
         p = put16 p (x64_fcw c);
         p = put16 p (x64_fsw c);
         p = put_all put128 p (x87 c);
         p = put64 p (teb c);
         p = put64 p (original_x64_sp c);
         p = put64 p (transition_cookie c);
         p = put32 p (isa c)
     in put32 p (stop_reason c))"

definition decode :: "byte_string \<Rightarrow> gem_thread_context \<times> byte_string" where
  "decode p =
    (let (layout_version', p) = get32 p;
         (context_size', p) = get32 p;
         (x', p) = get_all get64 31 p;
         (sp', p) = get64 p;
         (pc', p) = get64 p;
         (nzcv', p) = get32 p;
         (fpcr', p) = get32 p;
         (fpsr', p) = get32 p;
         (reserved0', p) = get32 p;
         (v', p) = get_all get128 16 p;
         (x64_rflags', p) = get64 p;
         (x64_mxcsr', p) = get32 p;
         (x64_fcw', p) = get16 p;
         (x64_fsw', p) = get16 p;
         (x87', p) = get_all get128 8 p;
         (teb', p) = get64 p;
         (original_x64_sp', p) = get64 p;
         (transition_cookie', p) = get64 p;
         (isa', p) = get32 p;
         (stop_reason', p) = get32 p
     in (\<lparr>layout_version = layout_version', context_size = context_size', x = x', sp = sp',
          pc = pc', nzcv = nzcv', fpcr = fpcr', fpsr = fpsr', reserved0 = reserved0', v = v',
          x64_rflags = x64_rflags', x64_mxcsr = x64_mxcsr', x64_fcw = x64_fcw',
          x64_fsw = x64_fsw', x87 = x87', teb = teb', original_x64_sp = original_x64_sp',
          transition_cookie = transition_cookie', isa = isa', stop_reason = stop_reason'\<rparr>, p))"

text \<open>
  \<open>gem_context_serialize c b n\<close>: \<open>c\<close> and \<open>b\<close> may be null pointers; the result is the return value,
  the buffer afterwards, and \<open>*written\<close>.
\<close>

definition gem_context_serialize ::
  "gem_thread_context option \<Rightarrow> byte_string option \<Rightarrow> size_t \<Rightarrow> bool \<times> byte_string option \<times> size_t" where
  "gem_context_serialize cp b n =
    (case cp of
       None \<Rightarrow> (False, b, 0)
     | Some c \<Rightarrow>
        (case b of
           None \<Rightarrow> (False, b, 0)
         | Some buf \<Rightarrow>
            (if \<not> gem_context_is_valid c \<or> reserved0 c \<noteq> 0 \<or>
                stop_reason c > stop_code GEM_STOP_INVARIANT_VIOLATION \<or>
                n < GEM_CONTEXT_WIRE_SIZE_V1
             then (False, b, 0)
             else (let p = put32 [] GEM_CONTEXT_WIRE_MAGIC;
                       p = put32 p GEM_CONTEXT_SERIALIZATION_VERSION;
                       p = put32 p GEM_CONTEXT_WIRE_HEADER_SIZE_V1;
                       p = put32 p GEM_CONTEXT_LAYOUT_VERSION;
                       p = put32 p GEM_THREAD_CONTEXT_SIZE_V1;
                       p = encode p c
                   in (True, Some (p @ drop (length p) buf), of_nat (length p))))))"

text \<open>
  \<open>gem_context_deserialize c b n\<close>: the result is the return value, the destination context
  afterwards, and \<open>*read\<close>.
\<close>

definition gem_context_deserialize ::
  "gem_thread_context option \<Rightarrow> byte_string option \<Rightarrow> size_t
     \<Rightarrow> bool \<times> gem_thread_context option \<times> size_t" where
  "gem_context_deserialize cp b n =
    (if cp = None \<or> n \<noteq> GEM_CONTEXT_WIRE_SIZE_V1 then (False, cp, 0)
     else case b of
       None \<Rightarrow> (False, cp, 0)
     | Some p \<Rightarrow>
        (let (m, p1) = get32 p; (ver, p2) = get32 p1; (hs, p3) = get32 p2;
             (lv, p4) = get32 p3; (cs, p5) = get32 p4
         in if m \<noteq> GEM_CONTEXT_WIRE_MAGIC \<or> ver \<noteq> GEM_CONTEXT_SERIALIZATION_VERSION \<or>
               hs \<noteq> GEM_CONTEXT_WIRE_HEADER_SIZE_V1 \<or> lv \<noteq> GEM_CONTEXT_LAYOUT_VERSION \<or>
               cs \<noteq> GEM_THREAD_CONTEXT_SIZE_V1
            then (False, cp, 0)
            else (let (temporary, p6) = decode p5
                  in if \<not> gem_context_is_valid temporary \<or> reserved0 temporary \<noteq> 0 \<or>
                        stop_reason temporary > stop_code GEM_STOP_INVARIANT_VIOLATION
                     then (False, cp, 0)
                     else (True, Some temporary, of_nat (length p - length p6)))))"

lemmas wire_constants =
  GEM_CONTEXT_WIRE_MAGIC_def GEM_CONTEXT_WIRE_HEADER_SIZE_V1_def GEM_CONTEXT_WIRE_SIZE_V1_def

section \<open>Laws of the cursor primitives\<close>

lemma get_put_word [le_simps]:
  "get16 (le_bytes 2 w2 @ r) = (w2, r)"
  "get32 (le_bytes 4 w4 @ r) = (w4, r)"
  "get64 (le_bytes 8 w8 @ r) = (w8, r)"
  by (simp_all add: get16_def get32_def get64_def le_word_le_bytes)

definition u128_bytes :: "gem_u128 \<Rightarrow> byte_string" where
  "u128_bytes w = le_bytes 8 (lo w) @ le_bytes 8 (hi w)"

lemma length_u128_bytes [simp]: "length (u128_bytes w) = 16"
  by (simp add: u128_bytes_def)

lemma put128_eq: "put128 p w = p @ u128_bytes w"
  by (simp add: put128_def put64_def u128_bytes_def)

lemma get128_put [le_simps]: "get128 (u128_bytes w @ r) = (w, r)"
  by (simp add: get128_def u128_bytes_def le_simps)

text \<open>
  An array codec: an element writer that appends \<open>enc w\<close> and an element reader that takes it off
  again extend to the counted loops. The thread context uses it for the general registers and
  for the vector and x87 registers.
\<close>

locale element_codec =
  fixes put :: "byte_string \<Rightarrow> 'a \<Rightarrow> byte_string"
    and get :: "byte_string \<Rightarrow> 'a \<times> byte_string"
    and enc :: "'a \<Rightarrow> byte_string"
    and width :: nat
  assumes put_enc: "put p w = p @ enc w"
    and get_enc: "get (enc w @ r) = (w, r)"
    and width_enc: "length (enc w) = width"
begin

lemma put_all_eq: "put_all put p ws = p @ concat (map enc ws)"
  by (induction ws arbitrary: p) (simp_all add: put_enc)

lemma get_all_concat:
  "length ws = n \<Longrightarrow> get_all get n (concat (map enc ws) @ r) = (ws, r)"
proof (induction ws arbitrary: n)
  case Nil
  then show ?case by simp
next
  case (Cons w ws)
  then obtain m where "n = Suc m" and "length ws = m" by auto
  with Cons.IH [of m] show ?case by (simp add: get_enc)
qed

lemma length_concat_enc: "length (concat (map enc ws)) = width * length ws"
  by (induction ws) (simp_all add: width_enc)

end

interpretation reg64: element_codec put64 get64 "le_bytes 8" 8
  by unfold_locales (simp_all add: put64_def le_simps)

interpretation reg128: element_codec put128 get128 u128_bytes 16
  by unfold_locales (simp_all add: put128_eq le_simps)

text \<open>The bytes \<open>encode\<close> appends.\<close>

definition context_bytes :: "gem_thread_context \<Rightarrow> byte_string" where
  "context_bytes c =
    le_bytes 4 (layout_version c) @ le_bytes 4 (context_size c) @
    concat (map (le_bytes 8) (x c)) @ le_bytes 8 (sp c) @ le_bytes 8 (pc c) @
    le_bytes 4 (nzcv c) @ le_bytes 4 (fpcr c) @ le_bytes 4 (fpsr c) @ le_bytes 4 (reserved0 c) @
    concat (map u128_bytes (v c)) @ le_bytes 8 (x64_rflags c) @ le_bytes 4 (x64_mxcsr c) @
    le_bytes 2 (x64_fcw c) @ le_bytes 2 (x64_fsw c) @ concat (map u128_bytes (x87 c)) @
    le_bytes 8 (teb c) @ le_bytes 8 (original_x64_sp c) @ le_bytes 8 (transition_cookie c) @
    le_bytes 4 (isa c) @ le_bytes 4 (stop_reason c)"

lemma encode_eq: "encode p c = p @ context_bytes c"
  by (simp add: encode_def context_bytes_def put16_def put32_def put64_def
      reg64.put_all_eq reg128.put_all_eq)

lemma length_context_bytes: "gem_context_shape c \<Longrightarrow> length (context_bytes c) = 720"
  by (simp add: context_bytes_def gem_context_shape_def reg64.length_concat_enc
      reg128.length_concat_enc)

lemma decode_context_bytes:
  "gem_context_shape c \<Longrightarrow> decode (context_bytes c @ r) = (c, r)"
  by (simp add: decode_def context_bytes_def gem_context_shape_def le_simps
      reg64.get_all_concat reg128.get_all_concat)

section \<open>Every wire image is the encoding of what it decodes to\<close>

text \<open>
  A codec whose encodings exhaust the byte strings of its width: any long enough string starts
  with an encoding, and a string of \<open>k\<close> elements starts with \<open>k\<close> of them.
\<close>

locale surjective_codec = element_codec +
  assumes enc_surj: "length bs = width \<Longrightarrow> \<exists>w. enc w = bs"
begin

lemma peel:
  assumes "length p = width + n"
  obtains w r where "p = enc w @ r" and "length r = n"
proof -
  from assms have "length (take width p) = width" by simp
  then obtain w where "enc w = take width p" using enc_surj by blast
  with assms have "p = enc w @ drop width p" and "length (drop width p) = n" by simp_all
  then show ?thesis by (rule that)
qed

lemma peel_all:
  assumes "length p = width * k + n"
  obtains ws r where "p = concat (map enc ws) @ r" and "length ws = k" and "length r = n"
proof -
  have "length p = width * k + n \<Longrightarrow>
      \<exists>ws r. p = concat (map enc ws) @ r \<and> length ws = k \<and> length r = n"
  proof (induction k arbitrary: p)
    case 0
    then show ?case by simp
  next
    case (Suc k)
    then have "length p = width + (width * k + n)" by simp
    then obtain w q where w: "p = enc w @ q" and q: "length q = width * k + n" by (rule peel)
    from Suc.IH [OF q] obtain ws r where
      "q = concat (map enc ws) @ r" "length ws = k" "length r = n" by blast
    with w show ?case by (intro exI [of _ "w # ws"] exI [of _ r]) simp
  qed
  with assms that show ?thesis by blast
qed

end

interpretation reg16_surj: surjective_codec put16 get16 "le_bytes 2" 2
  by unfold_locales (simp_all add: put16_def le_simps le_bytes_surj)

interpretation reg32_surj: surjective_codec put32 get32 "le_bytes 4" 4
  by unfold_locales (simp_all add: put32_def le_simps le_bytes_surj)

interpretation reg64_surj: surjective_codec put64 get64 "le_bytes 8" 8
  by unfold_locales (simp add: le_bytes_surj)

interpretation reg128_surj: surjective_codec put128 get128 u128_bytes 16
proof unfold_locales
  fix bs :: byte_string
  assume "length bs = 16"
  then have "length bs = 8 + 8" by simp
  then obtain l :: u64 and r where l: "bs = le_bytes 8 l @ r" and r: "length r = 8" by (rule reg64_surj.peel)
  from reg64_surj.enc_surj [OF r] obtain h :: u64 where "le_bytes 8 h = r" by blast
  with l show "\<exists>w. u128_bytes w = bs"
    by (intro exI [of _ "\<lparr>lo = l, hi = h\<rparr>"]) (simp add: u128_bytes_def)
qed

lemma peel_head:
  assumes [simp]: "length p = 720"
  shows "\<exists>w1 w2 w3 w4 w5 w6 w7 w8 w9 r. length w3 = 31 \<and> length r = 432 \<and>
    p = le_bytes 4 (w1 :: u32) @ le_bytes 4 (w2 :: u32) @ concat (map (le_bytes 8) (w3 :: u64 list)) @
        le_bytes 8 (w4 :: u64) @ le_bytes 8 (w5 :: u64) @ le_bytes 4 (w6 :: u32) @
        le_bytes 4 (w7 :: u32) @ le_bytes 4 (w8 :: u32) @ le_bytes 4 (w9 :: u32) @ r"
proof -
  obtain w1 :: "u32" and p1 where [simp]: "p = le_bytes 4 w1 @ p1" "length p1 = 716"
    using reg32_surj.peel [of p 716] by auto
  obtain w2 :: "u32" and p2 where [simp]: "p1 = le_bytes 4 w2 @ p2" "length p2 = 712"
    using reg32_surj.peel [of p1 712] by auto
  obtain w3 :: "u64 list" and p3 where [simp]: "p2 = concat (map (le_bytes 8) w3) @ p3" "length w3 = 31" "length p3 = 464"
    using reg64_surj.peel_all [of p2 31 464] by auto
  obtain w4 :: "u64" and p4 where [simp]: "p3 = le_bytes 8 w4 @ p4" "length p4 = 456"
    using reg64_surj.peel [of p3 456] by auto
  obtain w5 :: "u64" and p5 where [simp]: "p4 = le_bytes 8 w5 @ p5" "length p5 = 448"
    using reg64_surj.peel [of p4 448] by auto
  obtain w6 :: "u32" and p6 where [simp]: "p5 = le_bytes 4 w6 @ p6" "length p6 = 444"
    using reg32_surj.peel [of p5 444] by auto
  obtain w7 :: "u32" and p7 where [simp]: "p6 = le_bytes 4 w7 @ p7" "length p7 = 440"
    using reg32_surj.peel [of p6 440] by auto
  obtain w8 :: "u32" and p8 where [simp]: "p7 = le_bytes 4 w8 @ p8" "length p8 = 436"
    using reg32_surj.peel [of p7 436] by auto
  obtain w9 :: "u32" and p9 where [simp]: "p8 = le_bytes 4 w9 @ p9" "length p9 = 432"
    using reg32_surj.peel [of p8 432] by auto
  have "p = le_bytes 4 w1 @ le_bytes 4 w2 @ concat (map (le_bytes 8) w3) @ le_bytes 8 w4 @
      le_bytes 8 w5 @ le_bytes 4 w6 @ le_bytes 4 w7 @ le_bytes 4 w8 @ le_bytes 4 w9 @ p9" by simp
  moreover have "length w3 = 31" and "length p9 = 432" by simp_all
  ultimately show ?thesis by blast
qed

lemma peel_tail:
  assumes [simp]: "length p9 = 432"
  shows "\<exists>wa wb wc wd we wf wg wh wi wj wk. length wa = 16 \<and> length wf = 8 \<and>
    p9 = concat (map u128_bytes wa) @ le_bytes 8 (wb :: u64) @ le_bytes 4 (wc :: u32) @
         le_bytes 2 (wd :: u16) @ le_bytes 2 (we :: u16) @ concat (map u128_bytes wf) @
         le_bytes 8 (wg :: u64) @ le_bytes 8 (wh :: u64) @ le_bytes 8 (wi :: u64) @
         le_bytes 4 (wj :: u32) @ le_bytes 4 (wk :: u32)"
proof -
  obtain wa :: "gem_u128 list" and pa where [simp]: "p9 = concat (map u128_bytes wa) @ pa" "length wa = 16" "length pa = 176"
    using reg128_surj.peel_all [of p9 16 176] by auto
  obtain wb :: "u64" and pb where [simp]: "pa = le_bytes 8 wb @ pb" "length pb = 168"
    using reg64_surj.peel [of pa 168] by auto
  obtain wc :: "u32" and pc' where [simp]: "pb = le_bytes 4 wc @ pc'" "length pc' = 164"
    using reg32_surj.peel [of pb 164] by auto
  obtain wd :: "u16" and pd where [simp]: "pc' = le_bytes 2 wd @ pd" "length pd = 162"
    using reg16_surj.peel [of pc' 162] by auto
  obtain we :: "u16" and pe where [simp]: "pd = le_bytes 2 we @ pe" "length pe = 160"
    using reg16_surj.peel [of pd 160] by auto
  obtain wf :: "gem_u128 list" and pf where [simp]: "pe = concat (map u128_bytes wf) @ pf" "length wf = 8" "length pf = 32"
    using reg128_surj.peel_all [of pe 8 32] by auto
  obtain wg :: "u64" and pg where [simp]: "pf = le_bytes 8 wg @ pg" "length pg = 24"
    using reg64_surj.peel [of pf 24] by auto
  obtain wh :: "u64" and ph where [simp]: "pg = le_bytes 8 wh @ ph" "length ph = 16"
    using reg64_surj.peel [of pg 16] by auto
  obtain wi :: "u64" and pi' where [simp]: "ph = le_bytes 8 wi @ pi'" "length pi' = 8"
    using reg64_surj.peel [of ph 8] by auto
  obtain wj :: "u32" and pj where [simp]: "pi' = le_bytes 4 wj @ pj" "length pj = 4"
    using reg32_surj.peel [of pi' 4] by auto
  obtain wk :: "u32" and pk where [simp]: "pj = le_bytes 4 wk @ pk" "pk = []"
    using reg32_surj.peel [of pj 0] by auto
  have "p9 = concat (map u128_bytes wa) @ le_bytes 8 wb @ le_bytes 4 wc @ le_bytes 2 wd @
      le_bytes 2 we @ concat (map u128_bytes wf) @ le_bytes 8 wg @ le_bytes 8 wh @
      le_bytes 8 wi @ le_bytes 4 wj @ le_bytes 4 wk" by simp
  moreover have "length wa = 16" and "length wf = 8" by simp_all
  ultimately show ?thesis by blast
qed

lemma context_bytes_surj:
  assumes "length p = 720"
  shows "\<exists>c. gem_context_shape c \<and> p = context_bytes c"
proof -
  from peel_head [OF assms] obtain w1 w2 :: u32 and w3 :: "u64 list" and
    w4 w5 :: u64 and w6 w7 w8 w9 :: u32 and r where
    hd: "length w3 = 31" and r: "length r = 432" and
    p: "p = le_bytes 4 w1 @ le_bytes 4 w2 @ concat (map (le_bytes 8) w3) @ le_bytes 8 w4 @
        le_bytes 8 w5 @ le_bytes 4 w6 @ le_bytes 4 w7 @ le_bytes 4 w8 @ le_bytes 4 w9 @ r"
    by blast
  from peel_tail [OF r] obtain wa wf :: "gem_u128 list" and
    wb wg wh wi :: u64 and wc wj wk :: u32 and wd we :: u16 where
    tl: "length wa = 16" "length wf = 8" and
    r: "r = concat (map u128_bytes wa) @ le_bytes 8 wb @ le_bytes 4 wc @ le_bytes 2 wd @
        le_bytes 2 we @ concat (map u128_bytes wf) @ le_bytes 8 wg @ le_bytes 8 wh @
        le_bytes 8 wi @ le_bytes 4 wj @ le_bytes 4 wk"
    by blast
  show ?thesis
    by (rule exI [of _ "\<lparr>layout_version = w1, context_size = w2, x = w3, sp = w4, pc = w5,
          nzcv = w6, fpcr = w7, fpsr = w8, reserved0 = w9, v = wa, x64_rflags = wb,
          x64_mxcsr = wc, x64_fcw = wd, x64_fsw = we, x87 = wf, teb = wg,
          original_x64_sp = wh, transition_cookie = wi, isa = wj, stop_reason = wk\<rparr>"])
       (simp add: context_bytes_def gem_context_shape_def p r hd tl)
qed

section \<open>The public operations\<close>

definition wire_header :: byte_string where
  "wire_header = le_bytes 4 GEM_CONTEXT_WIRE_MAGIC @ le_bytes 4 GEM_CONTEXT_SERIALIZATION_VERSION @
    le_bytes 4 GEM_CONTEXT_WIRE_HEADER_SIZE_V1 @ le_bytes 4 GEM_CONTEXT_LAYOUT_VERSION @
    le_bytes 4 GEM_THREAD_CONTEXT_SIZE_V1"

definition wire_accepts :: "gem_thread_context \<Rightarrow> bool" where
  "wire_accepts c \<longleftrightarrow> gem_context_is_valid c \<and> reserved0 c = 0 \<and>
     stop_reason c \<le> stop_code GEM_STOP_INVARIANT_VIOLATION"

lemma length_wire_header [simp]: "length wire_header = 20"
  by (simp add: wire_header_def)

lemma serialize_eq:
  "gem_context_serialize (Some c) (Some b) n =
    (if wire_accepts c \<and> GEM_CONTEXT_WIRE_SIZE_V1 \<le> n
     then (let p = wire_header @ context_bytes c
           in (True, Some (p @ drop (length p) b), of_nat (length p)))
     else (False, Some b, 0))"
  by (auto simp: gem_context_serialize_def wire_accepts_def wire_header_def encode_eq put32_def
      not_less not_le Let_def)

lemma deserialize_wire:
  assumes "gem_context_shape c" and "wire_accepts c"
  shows "gem_context_deserialize (Some d) (Some (wire_header @ context_bytes c)) 740 = (True, Some c, 740)"
  using assms decode_context_bytes [of c "[]"] length_context_bytes [of c]
  by (simp add: gem_context_deserialize_def wire_header_def le_simps wire_constants
      wire_accepts_def not_less)

lemma deserialize_True_header:
  assumes ok: "gem_context_deserialize (Some d) (Some b) n = (True, c', r)" and len: "length b = unat n"
  shows "\<exists>p. b = wire_header @ p \<and> length p = 720"
proof -
  from ok have n: "n = 740" by (auto simp: gem_context_deserialize_def wire_constants split: if_splits)
  with len have lb: "length b = 740" by simp
  obtain m :: u32 and p1 where 1: "b = le_bytes 4 m @ p1" "length p1 = 736"
    using reg32_surj.peel [of b 736] lb by auto
  obtain ver :: u32 and p2 where 2: "p1 = le_bytes 4 ver @ p2" "length p2 = 732"
    using reg32_surj.peel [of p1 732] 1 by auto
  obtain hs :: u32 and p3 where 3: "p2 = le_bytes 4 hs @ p3" "length p3 = 728"
    using reg32_surj.peel [of p2 728] 2 by auto
  obtain lv :: u32 and p4 where 4: "p3 = le_bytes 4 lv @ p4" "length p4 = 724"
    using reg32_surj.peel [of p3 724] 3 by auto
  obtain cs :: u32 and p5 where 5: "p4 = le_bytes 4 cs @ p5" "length p5 = 720"
    using reg32_surj.peel [of p4 720] 4 by auto
  from ok 1 2 3 4 5 have "b = wire_header @ p5"
    by (auto simp: gem_context_deserialize_def le_simps wire_header_def split: if_splits)
  with 5 show ?thesis by blast
qed

text \<open>
  (C37) a context that serialises is written as exactly 740 bytes, and deserialising those bytes
  gives back the same context, whatever the destination held before.
\<close>

theorem serialize_deserialize:
  assumes shape: "gem_context_shape c"
    and ok: "gem_context_serialize (Some c) (Some b) n = (True, Some b', w)"
  shows "w = gem_context_serialized_size GEM_CONTEXT_SERIALIZATION_VERSION \<and>
    gem_context_deserialize (Some d) (Some (take (unat w) b')) w = (True, Some c, w)"
proof -
  from ok have acc: "wire_accepts c" and b': "b' = (wire_header @ context_bytes c) @ drop 740 b"
    and w: "w = 740"
    using length_context_bytes [OF shape] by (auto simp: serialize_eq Let_def split: if_splits)
  from b' length_context_bytes [OF shape] have "take 740 b' = wire_header @ context_bytes c" by simp
  with w deserialize_wire [OF shape acc, of d] show ?thesis
    by (simp add: gem_context_serialized_size_def wire_constants)
qed

definition sample_context :: gem_thread_context where
  "sample_context = gem_context_initialize 4096 GEM_ISA_ARM64EC"

theorem serialize_deserialize_witness:
  "\<exists>b' w. gem_context_serialize (Some sample_context) (Some []) 740 = (True, Some b', w) \<and>
    w = gem_context_serialized_size GEM_CONTEXT_SERIALIZATION_VERSION \<and>
    gem_context_deserialize (Some sample_context) (Some (take (unat w) b')) w =
      (True, Some sample_context, w)"
proof -
  have shape: "gem_context_shape sample_context"
    by (simp add: sample_context_def initialize_shape)
  have "wire_accepts sample_context"
    by (simp add: wire_accepts_def sample_context_def gem_context_is_valid_def
        gem_context_initialize_def)
  then have "\<exists>b' w. gem_context_serialize (Some sample_context) (Some []) 740 = (True, Some b', w)"
    by (simp add: serialize_eq wire_constants Let_def)
  then show ?thesis using serialize_deserialize [OF shape] by blast
qed

text \<open>
  (C38) the wire format is canonical. Whenever deserialisation accepts a buffer it consumed all 740
  bytes, the resulting context is valid with a known stop reason, and serialising that context into
  any buffer of that length, whatever it holds, leaves the accepted bytes there. No two buffers decode to the same context.
\<close>

theorem deserialize_canonical:
  assumes ok: "gem_context_deserialize (Some d) (Some b) n = (True, Some c, r)"
    and len: "length b = unat n"
  shows "r = n \<and> gem_context_shape c \<and> gem_context_is_valid c \<and>
    stop_reason c \<le> stop_code GEM_STOP_INVARIANT_VIOLATION \<and>
    (\<forall>b'. length b' = unat n \<longrightarrow> gem_context_serialize (Some c) (Some b') n = (True, Some b, n))"
proof -
  from ok have n: "n = 740" by (auto simp: gem_context_deserialize_def wire_constants split: if_splits)
  from deserialize_True_header [OF ok len] obtain p where b: "b = wire_header @ p" and p: "length p = 720"
    by blast
  from context_bytes_surj [OF p] obtain c0 where c0: "gem_context_shape c0" "p = context_bytes c0" by blast
  from ok b c0 decode_context_bytes [OF c0(1), of "[]"] length_context_bytes [OF c0(1)] have c: "c = c0" and acc: "wire_accepts c0" and r: "r = 740"
    by (auto simp: gem_context_deserialize_def wire_header_def le_simps wire_accepts_def n p
        wire_constants split: if_splits)
  show ?thesis using acc c c0 b n r p
    by (simp add: serialize_eq wire_constants wire_accepts_def Let_def)
qed

theorem deserialize_canonical_witness:
  "gem_context_serialize (Some sample_context) (Some (wire_header @ context_bytes sample_context)) 740 =
    (True, Some (wire_header @ context_bytes sample_context), 740)"
proof -
  have shape: "gem_context_shape sample_context"
    by (simp add: sample_context_def initialize_shape)
  have "wire_accepts sample_context"
    by (simp add: wire_accepts_def sample_context_def gem_context_is_valid_def
        gem_context_initialize_def)
  from deserialize_canonical [OF deserialize_wire [OF shape this, of sample_context]] show ?thesis
    using length_context_bytes [OF shape] by simp
qed

text \<open>
  Read right to left, as ISO C also permits for the initialiser of \<open>get128\<close>, the two halves of a
  vector register come back exchanged, so the round trip would be lost.
\<close>

lemma get128_rtl_swaps:
  "get128_rtl (put128 [] \<lparr>lo = a, hi = b\<rparr>) = (\<lparr>lo = b, hi = a\<rparr>, [])"
  by (simp add: get128_rtl_def put128_def put64_def le_simps
      get_put_word(3) [of b "[]", simplified])

end
