(* ===== verification/Gem_Conversion.thy ===== *)
theory Gem_Conversion
  imports Gem_Context
begin

text \<open>
  The ARM64EC / x64 register correspondence of src/gem/context_conversion.c: condition flags
  (NZCV and RFLAGS), floating-point control (FPCR/FPSR and MXCSR), and the four functions that
  move a whole context across the instruction-set boundary. A null destination pointer is not
  modelled (every caller in the tree passes the address of a local); a \<open>false\<close> return is \<open>None\<close>,
  and then the destination is unchanged.
\<close>

section \<open>Single bits\<close>

definition tst :: "'w::len word \<Rightarrow> nat \<Rightarrow> bool" where
  "tst w n \<longleftrightarrow> w AND push_bit n 1 \<noteq> 0"

definition or_if :: "bool \<Rightarrow> nat \<Rightarrow> 'w::len word \<Rightarrow> 'w word" where
  "or_if c n w = (if c then w OR push_bit n 1 else w)"

lemma tst_iff_bit: "tst w n \<longleftrightarrow> bit w n"
  by (simp add: tst_def push_bit_eq_mult and_exp_eq_0_iff_not_bit)

lemma bit_or_if:
  "bit (or_if c n w :: 'w::len word) k \<longleftrightarrow> bit w k \<or> (c \<and> k = n \<and> n < LENGTH('w))"
  by (auto simp: or_if_def bit_or_iff bit_exp_iff dest: bit_imp_le_length)

section \<open>Condition flags\<close>

datatype gem_arithmetic_mode = GEM_ARITHMETIC_LOGICAL | GEM_ARITHMETIC_ADD | GEM_ARITHMETIC_SUBTRACT

definition RFLAGS_NZCV_MASK :: u64 where "RFLAGS_NZCV_MASK = 0x8c1"
definition NZCV_MASK :: u32 where "NZCV_MASK = 0xf0000000"

definition gem_rflags_from_nzcv_for_arithmetic ::
  "u32 \<Rightarrow> u64 \<Rightarrow> gem_arithmetic_mode \<Rightarrow> u64" where
  "gem_rflags_from_nzcv_for_arithmetic nz preserved_rflags mode =
    (let result = preserved_rflags AND NOT RFLAGS_NZCV_MASK;
         result = or_if (tst nz 29 \<noteq> (mode = GEM_ARITHMETIC_SUBTRACT)) 0 result;
         result = or_if (tst nz 30) 6 result;
         result = or_if (tst nz 31) 7 result
     in or_if (tst nz 28) 11 result)"

definition gem_rflags_from_nzcv :: "u32 \<Rightarrow> u64 \<Rightarrow> u64" where
  "gem_rflags_from_nzcv nz preserved_rflags =
    gem_rflags_from_nzcv_for_arithmetic nz preserved_rflags GEM_ARITHMETIC_LOGICAL"

definition gem_nzcv_from_rflags_for_arithmetic ::
  "u64 \<Rightarrow> u32 \<Rightarrow> gem_arithmetic_mode \<Rightarrow> u32" where
  "gem_nzcv_from_rflags_for_arithmetic rf preserved_nzcv mode =
    (let result = preserved_nzcv AND NOT NZCV_MASK;
         result = or_if (tst rf 0 \<noteq> (mode = GEM_ARITHMETIC_SUBTRACT)) 29 result;
         result = or_if (tst rf 6) 30 result;
         result = or_if (tst rf 7) 31 result
     in or_if (tst rf 11) 28 result)"

definition gem_nzcv_from_rflags :: "u64 \<Rightarrow> u32 \<Rightarrow> u32" where
  "gem_nzcv_from_rflags rf preserved_nzcv =
    gem_nzcv_from_rflags_for_arithmetic rf preserved_nzcv GEM_ARITHMETIC_LOGICAL"

section \<open>Floating-point control and status\<close>

definition arm_status :: "nat list" where "arm_status = [0, 7, 1, 2, 3, 4]"
definition x86_status :: "nat list" where "x86_status = [0, 1, 2, 3, 4, 5]"

text \<open>\<open>i == 1 ? 15 : 8 + (i > 1 ? i - 1 : i)\<close>\<close>

definition fpcr_enable_bit :: "nat \<Rightarrow> nat" where
  "fpcr_enable_bit i = (if i = 1 then 15 else 8 + (if i > 1 then i - 1 else i))"

definition swap_round :: "u32 \<Rightarrow> u32" where
  "swap_round r = (if r = 1 then 2 else if r = 2 then 1 else r)"

definition FPCR_MXCSR_MASK :: u32 where
  "FPCR_MXCSR_MASK = push_bit 8 0x1f OR push_bit 15 1 OR push_bit 22 3 OR push_bit 24 1"
definition FPSR_MXCSR_MASK :: u32 where "FPSR_MXCSR_MASK = 0x9f"

definition gem_mxcsr_from_fp :: "u32 \<Rightarrow> u32 \<Rightarrow> u32" where
  "gem_mxcsr_from_fp fc fs =
    (let result = fold (\<lambda>i r. or_if (tst fs (arm_status ! i)) (x86_status ! i) r) [0..<6] 0;
         result = fold (\<lambda>i r. or_if (\<not> tst fc (fpcr_enable_bit i)) (7 + i) r) [0..<6] result;
         arm_round = drop_bit 22 fc AND 3;
         x86_round = swap_round arm_round;
         result = result OR push_bit 13 x86_round
     in result OR push_bit 15 (drop_bit 24 fc AND 1))"

definition gem_fp_from_mxcsr_checked :: "u32 \<Rightarrow> (u32 \<times> u32) option" where
  "gem_fp_from_mxcsr_checked mx =
    (if tst mx 6 then None
     else (let (control, status) =
                 fold (\<lambda>i (c, s). (or_if (\<not> tst mx (7 + i)) (fpcr_enable_bit i) c,
                                   or_if (tst mx (x86_status ! i)) (arm_status ! i) s))
                      [0..<6] (0, 0);
               x86_round = drop_bit 13 mx AND 3;
               arm_round = swap_round x86_round;
               control = control OR push_bit 22 arm_round;
               control = control OR push_bit 24 (drop_bit 15 mx AND 1)
           in Some (control, status)))"

text \<open>
  \<open>gem_fp_from_mxcsr\<close> ignores the check's result: the two outputs keep their old values when the
  denormals-are-zero bit is set.
\<close>

definition gem_fp_from_mxcsr :: "u32 \<Rightarrow> u32 \<Rightarrow> u32 \<Rightarrow> u32 \<times> u32" where
  "gem_fp_from_mxcsr mx fc fs =
    (case gem_fp_from_mxcsr_checked mx of None \<Rightarrow> (fc, fs) | Some r \<Rightarrow> r)"

section \<open>Whole contexts\<close>

text \<open>\<open>enum gem_x64_gpr\<close> numbers the registers RAX, RCX, RDX, RBX, RSP, RBP, RSI, RDI, R8 .. R15 from 0.\<close>

record gem_x64_context =
  gpr :: "u64 list"
  rip :: u64
  rflags :: u64
  mxcsr :: u32
  fcw :: u16
  fsw :: u16
  xmm :: "gem_u128 list"
  xc_x87 :: "gem_u128 list"
  xc_teb :: u64

definition x64_shape :: "gem_x64_context \<Rightarrow> bool" where
  "x64_shape s \<longleftrightarrow> length (gpr s) = 16 \<and> length (xmm s) = 16 \<and> length (xc_x87 s) = 8"

definition x64_gprs :: "gem_thread_context \<Rightarrow> u64 list" where
  "x64_gprs c =
    [x c ! 8, x c ! 0, x c ! 1, x c ! 27, sp c, x c ! 29, x c ! 25, x c ! 26,
     x c ! 2, x c ! 3, x c ! 4, x c ! 5, x c ! 19, x c ! 20, x c ! 21, x c ! 22]"

definition gem_context_x64_materialize :: "gem_thread_context \<Rightarrow> gem_x64_context option" where
  "gem_context_x64_materialize c =
    (if \<not> gem_context_is_valid c \<or> isa c \<noteq> isa_code GEM_ISA_X64 then None
     else Some \<lparr>gpr = x64_gprs c, rip = pc c, rflags = x64_rflags c, mxcsr = x64_mxcsr c,
                fcw = x64_fcw c, fsw = x64_fsw c, xmm = v c, xc_x87 = x87 c, xc_teb = teb c\<rparr>)"

text \<open>The sixteen register assignments shared by \<open>commit\<close> and \<open>x64_to_arm64ec\<close>.\<close>

definition store_gprs :: "gem_x64_context \<Rightarrow> gem_thread_context \<Rightarrow> gem_thread_context" where
  "store_gprs s d = d\<lparr>
     x := (x d)[8 := gpr s ! 0, 0 := gpr s ! 1, 1 := gpr s ! 2, 27 := gpr s ! 3,
                29 := gpr s ! 5, 25 := gpr s ! 6, 26 := gpr s ! 7, 2 := gpr s ! 8,
                3 := gpr s ! 9, 4 := gpr s ! 10, 5 := gpr s ! 11, 19 := gpr s ! 12,
                20 := gpr s ! 13, 21 := gpr s ! 14, 22 := gpr s ! 15],
     sp := gpr s ! 4\<rparr>"

definition gem_context_x64_commit ::
  "gem_x64_context \<Rightarrow> gem_thread_context \<Rightarrow> gem_thread_context option" where
  "gem_context_x64_commit s d =
    (if \<not> gem_context_is_valid d \<or> isa d \<noteq> isa_code GEM_ISA_X64 \<or> xc_teb s \<noteq> teb d then None
     else (let r = store_gprs s d;
               r = r\<lparr>pc := rip s, x64_rflags := rflags s, x64_mxcsr := mxcsr s,
                     x64_fcw := fcw s, x64_fsw := fsw s, v := xmm s, x87 := xc_x87 s\<rparr>;
               r = r\<lparr>x := (x r)[18 := teb r]\<rparr>
           in if \<not> gem_context_is_valid r then None else Some r))"

definition gem_context_arm64ec_to_x64 :: "gem_thread_context \<Rightarrow> gem_x64_context option" where
  "gem_context_arm64ec_to_x64 c =
    (if \<not> gem_context_is_valid c \<or> isa c \<noteq> isa_code GEM_ISA_ARM64EC then None
     else Some \<lparr>gpr = x64_gprs c, rip = pc c,
                rflags = gem_rflags_from_nzcv (nzcv c) (x64_rflags c),
                mxcsr = gem_mxcsr_from_fp (fpcr c) (fpsr c),
                fcw = x64_fcw c, fsw = x64_fsw c, xmm = v c, xc_x87 = x87 c, xc_teb = teb c\<rparr>)"

definition gem_context_x64_to_arm64ec ::
  "gem_x64_context \<Rightarrow> gem_thread_context \<Rightarrow> gem_thread_context option" where
  "gem_context_x64_to_arm64ec s d0 =
    (if xc_teb s = 0 \<or> gem_fp_from_mxcsr_checked (mxcsr s) = None then None
     else if gem_context_is_valid d0 \<and> isa d0 \<noteq> isa_code GEM_ISA_ARM64EC then None
     else (let d = (if \<not> gem_context_is_valid d0
                    then gem_context_initialize (xc_teb s) GEM_ISA_ARM64EC else d0)
           in if teb d \<noteq> xc_teb s then None
              else (let d = store_gprs s d;
                        (converted_fpcr, converted_fpsr) = gem_fp_from_mxcsr (mxcsr s) 0 0;
                        d = d\<lparr>pc := rip s, x64_rflags := rflags s,
                              nzcv := gem_nzcv_from_rflags (rflags s) (nzcv d),
                              fpcr := (fpcr d AND NOT FPCR_MXCSR_MASK) OR converted_fpcr,
                              fpsr := (fpsr d AND NOT FPSR_MXCSR_MASK) OR converted_fpsr,
                              x64_mxcsr := mxcsr s, x64_fcw := fcw s, x64_fsw := fsw s,
                              v := xmm s, x87 := xc_x87 s\<rparr>
                    in Some (d\<lparr>x := (x d)[18 := teb d], isa := isa_code GEM_ISA_ARM64EC\<rparr>))))"

section \<open>Bit-level characterisations\<close>

lemma masks_as_bits:
  "RFLAGS_NZCV_MASK = or_if True 0 (or_if True 6 (or_if True 7 (or_if True 11 0)))"
  "NZCV_MASK = or_if True 28 (or_if True 29 (or_if True 30 (or_if True 31 0)))"
  "FPSR_MXCSR_MASK = or_if True 0 (or_if True 1 (or_if True 2 (or_if True 3 (or_if True 4 (or_if True 7 0)))))"
  "FPCR_MXCSR_MASK = or_if True 8 (or_if True 9 (or_if True 10 (or_if True 11 (or_if True 12
     (or_if True 15 (or_if True 22 (or_if True 23 (or_if True 24 0))))))))"
  by (simp_all add: RFLAGS_NZCV_MASK_def NZCV_MASK_def FPSR_MXCSR_MASK_def FPCR_MXCSR_MASK_def
      or_if_def)

lemma bit_masks:
  "bit RFLAGS_NZCV_MASK n \<longleftrightarrow> n = 0 \<or> n = 6 \<or> n = 7 \<or> n = 11"
  "bit NZCV_MASK n \<longleftrightarrow> n = 28 \<or> n = 29 \<or> n = 30 \<or> n = 31"
  "bit FPSR_MXCSR_MASK n \<longleftrightarrow> n = 0 \<or> n = 1 \<or> n = 2 \<or> n = 3 \<or> n = 4 \<or> n = 7"
  "bit FPCR_MXCSR_MASK n \<longleftrightarrow>
     n = 8 \<or> n = 9 \<or> n = 10 \<or> n = 11 \<or> n = 12 \<or> n = 15 \<or> n = 22 \<or> n = 23 \<or> n = 24"
  unfolding masks_as_bits by (auto simp: bit_or_if)

lemma bit_rflags:
  "bit (gem_rflags_from_nzcv_for_arithmetic w p mode) n \<longleftrightarrow>
    (if n = 0 then bit w 29 \<noteq> (mode = GEM_ARITHMETIC_SUBTRACT)
     else if n = 6 then bit w 30 else if n = 7 then bit w 31 else if n = 11 then bit w 28
     else bit p n)"
  by (auto simp: gem_rflags_from_nzcv_for_arithmetic_def bit_or_if tst_iff_bit bit_and_iff
      bit_not_iff bit_masks dest: bit_imp_le_length)

lemma bit_nzcv:
  "bit (gem_nzcv_from_rflags_for_arithmetic r p mode) n \<longleftrightarrow>
    (if n = 29 then bit r 0 \<noteq> (mode = GEM_ARITHMETIC_SUBTRACT)
     else if n = 30 then bit r 6 else if n = 31 then bit r 7 else if n = 28 then bit r 11
     else bit p n)"
  by (auto simp: gem_nzcv_from_rflags_for_arithmetic_def bit_or_if tst_iff_bit bit_and_iff
      bit_not_iff bit_masks dest: bit_imp_le_length)

text \<open>Exchanging the encodings 1 and 2 of the rounding mode exchanges its two bits.\<close>

lemma low_two_bits:
  fixes w :: u32
  shows "drop_bit k w AND 3 = or_if (bit w k) 0 (or_if (bit w (Suc k)) 1 0)"
proof (rule bit_word_eqI)
  fix n
  have three: "(3 :: u32) = or_if True 0 (or_if True 1 0)" by (simp add: or_if_def)
  show "bit (drop_bit k w AND 3) n \<longleftrightarrow> bit (or_if (bit w k) 0 (or_if (bit w (Suc k)) 1 0) :: u32) n"
    unfolding three by (auto simp: bit_and_iff bit_or_if bit_drop_bit_eq)
qed

lemma swap_round_eq:
  fixes w :: u32
  shows "swap_round (drop_bit k w AND 3) = or_if (bit w (Suc k)) 0 (or_if (bit w k) 1 0)"
  unfolding low_two_bits
  by (cases "bit w k"; cases "bit w (Suc k)") (simp_all add: swap_round_def or_if_def)

lemma low_bit: "drop_bit k w AND 1 = or_if (bit w k) 0 (0 :: u32)"
  by (rule bit_word_eqI) (auto simp: bit_and_iff bit_or_if bit_drop_bit_eq bit_1_iff)

lemma push_or_if: "push_bit k (or_if c n w) = (or_if c (k + n) (push_bit k w) :: 'w::len word)"
  by (rule bit_word_eqI) (auto simp: bit_push_bit_iff bit_or_if dest: bit_imp_le_length)

lemmas fp_bits =
  bit_or_if tst_iff_bit bit_or_iff upt_rec arm_status_def x86_status_def fpcr_enable_bit_def
  swap_round_eq low_bit push_or_if

lemma bit_mxcsr_from_fp:
  "bit (gem_mxcsr_from_fp c s) n \<longleftrightarrow>
    n = 0 \<and> bit s 0 \<or> n = 1 \<and> bit s 7 \<or> n = 2 \<and> bit s 1 \<or> n = 3 \<and> bit s 2 \<or>
    n = 4 \<and> bit s 3 \<or> n = 5 \<and> bit s 4 \<or>
    n = 7 \<and> \<not> bit c 8 \<or> n = 8 \<and> \<not> bit c 15 \<or> n = 9 \<and> \<not> bit c 9 \<or> n = 10 \<and> \<not> bit c 10 \<or>
    n = 11 \<and> \<not> bit c 11 \<or> n = 12 \<and> \<not> bit c 12 \<or>
    n = 13 \<and> bit c 23 \<or> n = 14 \<and> bit c 22 \<or> n = 15 \<and> bit c 24"
  by (simp add: gem_mxcsr_from_fp_def Let_def fp_bits disj_ac conj_commute cong: conj_cong)

lemma fp_from_mxcsr_None_iff: "gem_fp_from_mxcsr_checked m = None \<longleftrightarrow> bit m 6"
  by (simp add: gem_fp_from_mxcsr_checked_def tst_iff_bit split: prod.split)

lemma bit_fp_from_mxcsr:
  assumes "gem_fp_from_mxcsr_checked m = Some (c, s)"
  shows "bit c n \<longleftrightarrow>
      n = 8 \<and> \<not> bit m 7 \<or> n = 15 \<and> \<not> bit m 8 \<or> n = 9 \<and> \<not> bit m 9 \<or> n = 10 \<and> \<not> bit m 10 \<or>
      n = 11 \<and> \<not> bit m 11 \<or> n = 12 \<and> \<not> bit m 12 \<or>
      n = 22 \<and> bit m 14 \<or> n = 23 \<and> bit m 13 \<or> n = 24 \<and> bit m 15"
    and "bit s n \<longleftrightarrow>
      n = 0 \<and> bit m 0 \<or> n = 7 \<and> bit m 1 \<or> n = 1 \<and> bit m 2 \<or> n = 2 \<and> bit m 3 \<or>
      n = 3 \<and> bit m 4 \<or> n = 4 \<and> bit m 5"
  using assms
  by (simp_all add: gem_fp_from_mxcsr_checked_def Let_def fp_bits split: if_splits)
    (elim conjE; hypsubst; simp add: bit_or_if bit_or_iff disj_ac conj_commute cong: conj_cong)+

section \<open>Flag and floating-point round trips\<close>

lemma nzcv_rflags_nzcv:
  "gem_nzcv_from_rflags_for_arithmetic (gem_rflags_from_nzcv_for_arithmetic w p mode) q mode =
     (q AND NOT NZCV_MASK) OR (w AND NZCV_MASK)"
  by (rule bit_word_eqI) (auto simp: bit_nzcv bit_rflags bit_or_iff bit_and_iff bit_not_iff bit_masks)

lemma rflags_nzcv_rflags:
  "gem_rflags_from_nzcv_for_arithmetic (gem_nzcv_from_rflags_for_arithmetic r q mode) p mode =
     (p AND NOT RFLAGS_NZCV_MASK) OR (r AND RFLAGS_NZCV_MASK)"
  by (rule bit_word_eqI) (auto simp: bit_nzcv bit_rflags bit_or_iff bit_and_iff bit_not_iff bit_masks)

text \<open>
  For every arithmetic mode the two flag conversions are inverse on the four condition flags
  and leave every other bit of the destination as it was. Under subtraction the x64 carry is the
  complement of the ARM carry.
\<close>

theorem flag_conversion_roundtrip:
  "gem_nzcv_from_rflags_for_arithmetic (gem_rflags_from_nzcv_for_arithmetic w p mode) q mode =
     (q AND NOT NZCV_MASK) OR (w AND NZCV_MASK) \<and>
   gem_rflags_from_nzcv_for_arithmetic (gem_nzcv_from_rflags_for_arithmetic r q mode) p mode =
     (p AND NOT RFLAGS_NZCV_MASK) OR (r AND RFLAGS_NZCV_MASK) \<and>
   (bit (gem_rflags_from_nzcv_for_arithmetic w p GEM_ARITHMETIC_SUBTRACT) 0 \<longleftrightarrow> \<not> bit w 29)"
  by (simp add: nzcv_rflags_nzcv rflags_nzcv_rflags bit_rflags)

lemma low16_as_mask: "(0xffff :: u32) = mask 16"
  by (simp add: mask_eq_exp_minus_1)

lemma less16_cases:
  "(n::nat) < 16 \<longleftrightarrow> n = 0 \<or> n = 1 \<or> n = 2 \<or> n = 3 \<or> n = 4 \<or> n = 5 \<or> n = 6 \<or> n = 7 \<or> n = 8 \<or>
     n = 9 \<or> n = 10 \<or> n = 11 \<or> n = 12 \<or> n = 13 \<or> n = 14 \<or> n = 15"
  by arith

lemma mxcsr_fp_mxcsr:
  assumes "gem_fp_from_mxcsr_checked m = Some (c, s)"
  shows "gem_mxcsr_from_fp c s = m AND 0xffff"
proof (rule bit_word_eqI)
  fix n
  have "\<not> bit m 6" using assms fp_from_mxcsr_None_iff [of m] by auto
  then show "bit (gem_mxcsr_from_fp c s) n \<longleftrightarrow> bit (m AND 0xffff) n"
    unfolding low16_as_mask
    by (auto simp: bit_mxcsr_from_fp bit_fp_from_mxcsr [OF assms] bit_and_iff bit_mask_iff less16_cases)
qed

lemma fp_mxcsr_fp:
  "gem_fp_from_mxcsr_checked (gem_mxcsr_from_fp c s) = Some (c AND FPCR_MXCSR_MASK, s AND FPSR_MXCSR_MASK)"
proof -
  have "\<not> bit (gem_mxcsr_from_fp c s) 6" by (simp add: bit_mxcsr_from_fp)
  then obtain c' s' where r: "gem_fp_from_mxcsr_checked (gem_mxcsr_from_fp c s) = Some (c', s')"
    using fp_from_mxcsr_None_iff by fastforce
  have "c' = c AND FPCR_MXCSR_MASK"
    by (rule bit_word_eqI)
       (auto simp: bit_fp_from_mxcsr(1) [OF r] bit_mxcsr_from_fp bit_and_iff bit_masks)
  moreover have "s' = s AND FPSR_MXCSR_MASK"
    by (rule bit_word_eqI)
       (auto simp: bit_fp_from_mxcsr(2) [OF r] bit_mxcsr_from_fp bit_and_iff bit_masks)
  ultimately show ?thesis using r by simp
qed

text \<open>
  The floating-point conversion rejects exactly the MXCSR values with denormals-are-zero set,
  is undone by the reverse conversion on the sixteen architected MXCSR bits, and the reverse
  conversion always yields an accepted MXCSR whose image is the ARM state restricted to the bits
  that have an x64 counterpart.
\<close>

theorem fp_conversion_roundtrip:
  "(gem_fp_from_mxcsr_checked m = None \<longleftrightarrow> bit m 6) \<and>
   (case gem_fp_from_mxcsr_checked m of None \<Rightarrow> True
    | Some (c, s) \<Rightarrow> gem_mxcsr_from_fp c s = m AND 0xffff) \<and>
   gem_fp_from_mxcsr_checked (gem_mxcsr_from_fp fc fs) =
     Some (fc AND FPCR_MXCSR_MASK, fs AND FPSR_MXCSR_MASK)"
  using mxcsr_fp_mxcsr [of m] by (auto simp: fp_from_mxcsr_None_iff fp_mxcsr_fp split: option.split)

section \<open>Context round trips\<close>

lemma store_gprs_fields [simp]:
  "layout_version (store_gprs s d) = layout_version d" "context_size (store_gprs s d) = context_size d"
  "teb (store_gprs s d) = teb d" "isa (store_gprs s d) = isa d" "nzcv (store_gprs s d) = nzcv d"
  "fpcr (store_gprs s d) = fpcr d" "fpsr (store_gprs s d) = fpsr d"
  "length (x (store_gprs s d)) = length (x d)" "x (store_gprs s d) ! 18 = x d ! 18"
  by (simp_all add: store_gprs_def)

lemma store_own_gprs: "gpr s = x64_gprs c \<Longrightarrow> store_gprs s c = c"
  by (simp add: store_gprs_def x64_gprs_def)

lemma list16_nth:
  assumes "length ws = 16"
  shows "[ws ! 0, ws ! 1, ws ! 2, ws ! 3, ws ! 4, ws ! 5, ws ! 6, ws ! 7, ws ! 8, ws ! 9,
          ws ! 10, ws ! 11, ws ! 12, ws ! 13, ws ! 14, ws ! 15] = ws"
  using assms by (auto simp: length_Suc_conv numeral_eq_Suc)

lemma x64_gprs_store:
  assumes "length (x d) = 31" and "length (gpr s) = 16"
  shows "x64_gprs (store_gprs s d) = gpr s"
  using assms(1) list16_nth [OF assms(2)] by (simp add: x64_gprs_def store_gprs_def)

definition committed :: "gem_x64_context \<Rightarrow> gem_thread_context \<Rightarrow> gem_thread_context" where
  "committed s d = (let r = (store_gprs s d)\<lparr>pc := rip s, x64_rflags := rflags s,
       x64_mxcsr := mxcsr s, x64_fcw := fcw s, x64_fsw := fsw s, v := xmm s, x87 := xc_x87 s\<rparr>
     in r\<lparr>x := (x r)[18 := teb r]\<rparr>)"

lemma committed_valid:
  assumes "gem_context_is_valid d" and "gem_context_shape d"
  shows "gem_context_is_valid (committed s d)"
  using assms by (simp add: committed_def Let_def gem_context_is_valid_def gem_context_shape_def)

lemma commit_eq:
  assumes "gem_context_is_valid d" and "isa d = isa_code GEM_ISA_X64" and "gem_context_shape d"
  shows "gem_context_x64_commit s d = (if xc_teb s \<noteq> teb d then None else Some (committed s d))"
  using committed_valid [OF assms(1,3), of s] assms
  by (simp add: gem_context_x64_commit_def committed_def Let_def)

lemma x64_gprs_committed:
  assumes "length (x d) = 31" and "length (gpr s) = 16"
  shows "x64_gprs (committed s d) = gpr s"
  using x64_gprs_store [OF assms] assms(1)
  by (simp add: x64_gprs_def committed_def Let_def)

lemma committed_own:
  assumes "gpr s = x64_gprs d" and "x d ! 18 = teb d" and "rip s = pc d" and "rflags s = x64_rflags d"
    and "mxcsr s = x64_mxcsr d" and "fcw s = x64_fcw d" and "fsw s = x64_fsw d"
    and "xmm s = v d" and "xc_x87 s = x87 d"
  shows "committed s d = d"
proof -
  have "(x d)[18 := teb d] = x d" using assms(2) by (metis list_update_id)
  then show ?thesis using assms by (simp add: committed_def store_own_gprs Let_def)
qed

text \<open>
  Committing an x64 view to a context and materialising it again returns the view, and
  committing the view a context materialises to leaves the context as it was. The commit refuses
  a view of another thread and keeps the context valid.
\<close>

theorem x64_commit_materialize:
  assumes valid: "gem_context_is_valid d" and i: "isa d = isa_code GEM_ISA_X64"
    and shape: "gem_context_shape d" and s: "x64_shape s"
  shows "(gem_context_x64_commit s d = None \<longleftrightarrow> xc_teb s \<noteq> teb d) \<and>
    (\<forall>r. gem_context_x64_commit s d = Some r \<longrightarrow>
       gem_context_is_valid r \<and> gem_context_x64_materialize r = Some s) \<and>
    (\<exists>w. gem_context_x64_materialize d = Some w \<and> gem_context_x64_commit w d = Some d)"
proof (intro conjI)
  show "gem_context_x64_commit s d = None \<longleftrightarrow> xc_teb s \<noteq> teb d"
    by (simp add: commit_eq [OF valid i shape])
  have "x64_gprs (committed s d) = gpr s"
    using shape s by (simp add: x64_gprs_committed gem_context_shape_def x64_shape_def)
  then show "\<forall>r. gem_context_x64_commit s d = Some r \<longrightarrow>
       gem_context_is_valid r \<and> gem_context_x64_materialize r = Some s"
    using committed_valid [OF valid shape, of s] i
    by (auto simp: commit_eq [OF valid i shape] gem_context_x64_materialize_def)
       (simp_all add: committed_def Let_def)
  show "\<exists>w. gem_context_x64_materialize d = Some w \<and> gem_context_x64_commit w d = Some d"
    using valid i by (auto simp: gem_context_x64_materialize_def commit_eq [OF valid i shape]
        gem_context_is_valid_def intro!: committed_own)
qed

definition sample_x64_context :: gem_thread_context where
  "sample_x64_context = (gem_context_initialize 8192 GEM_ISA_X64)\<lparr>pc := 0x140001000, sp := 0x7fff0\<rparr>"

definition sample_x64_view :: gem_x64_context where
  "sample_x64_view = \<lparr>gpr = replicate 16 7, rip = 5, rflags = 0x246, mxcsr = 0x1f80, fcw = 0x37f,
     fsw = 0, xmm = replicate 16 zero_u128, xc_x87 = replicate 8 zero_u128, xc_teb = 8192\<rparr>"

lemmas sample_defs = sample_x64_context_def sample_x64_view_def gem_context_initialize_def
  gem_context_is_valid_def gem_context_shape_def x64_shape_def

theorem x64_commit_materialize_witness:
  "\<exists>r. gem_context_x64_commit sample_x64_view sample_x64_context = Some r \<and>
     gem_context_is_valid r \<and> gem_context_x64_materialize r = Some sample_x64_view"
proof -
  have "gem_context_is_valid sample_x64_context" and "isa sample_x64_context = isa_code GEM_ISA_X64"
    and "gem_context_shape sample_x64_context" and "x64_shape sample_x64_view"
    and "xc_teb sample_x64_view = teb sample_x64_context"
    by (simp_all add: sample_defs)
  with x64_commit_materialize [of sample_x64_context sample_x64_view] show ?thesis by auto
qed

lemma and_mask_or_split: "((w :: 'w::len word) AND NOT m) OR (w AND m) = w"
  by (rule bit_word_eqI) (auto simp: bit_or_iff bit_and_iff bit_not_iff)

lemma fp_from_mxcsr_Some: "gem_fp_from_mxcsr_checked m = Some r \<Longrightarrow> gem_fp_from_mxcsr m a b = r"
  by (simp add: gem_fp_from_mxcsr_def)

text \<open>
  (C39) a valid ARM64EC context always converts to an x64 view, and converting that view back onto
  the context changes nothing but the two x64 sidecar registers, which take the converted flags
  and MXCSR. In particular NZCV, FPCR and FPSR come back bit for bit, ARM-only bits included.
\<close>

theorem arm64ec_x64_arm64ec:
  assumes valid: "gem_context_is_valid c" and i: "isa c = isa_code GEM_ISA_ARM64EC"
  shows "\<exists>s. gem_context_arm64ec_to_x64 c = Some s \<and>
    gem_context_x64_to_arm64ec s c = Some (c\<lparr>x64_rflags := rflags s, x64_mxcsr := mxcsr s\<rparr>)"
proof -
  have teb: "teb c \<noteq> 0" "(x c)[18 := teb c] = x c"
    using valid list_update_id [of "x c" 18] by (auto simp: gem_context_is_valid_def)
  show ?thesis
    using valid i teb
    by (simp add: gem_context_arm64ec_to_x64_def gem_context_x64_to_arm64ec_def fp_mxcsr_fp
        fp_from_mxcsr_Some [OF fp_mxcsr_fp] store_own_gprs gem_nzcv_from_rflags_def
        gem_rflags_from_nzcv_def nzcv_rflags_nzcv and_mask_or_split Let_def)
qed

theorem arm64ec_x64_arm64ec_witness:
  "\<exists>s. gem_context_arm64ec_to_x64 (sample_x64_context\<lparr>isa := 1\<rparr>) = Some s \<and>
    gem_context_x64_to_arm64ec s (sample_x64_context\<lparr>isa := 1\<rparr>) =
      Some (sample_x64_context\<lparr>isa := 1, x64_rflags := rflags s, x64_mxcsr := mxcsr s\<rparr>)"
proof -
  have "gem_context_is_valid (sample_x64_context\<lparr>isa := 1\<rparr>)"
    and "isa (sample_x64_context\<lparr>isa := 1\<rparr>) = isa_code GEM_ISA_ARM64EC"
    by (simp_all add: sample_defs)
  from arm64ec_x64_arm64ec [OF this] show ?thesis by simp
qed

lemma mxcsr_from_merged_fp:
  assumes "gem_fp_from_mxcsr_checked m = Some (c, s)"
  shows "gem_mxcsr_from_fp ((f AND NOT FPCR_MXCSR_MASK) OR c) ((g AND NOT FPSR_MXCSR_MASK) OR s) =
    m AND 0xffff"
proof -
  have "gem_mxcsr_from_fp ((f AND NOT FPCR_MXCSR_MASK) OR c) ((g AND NOT FPSR_MXCSR_MASK) OR s) =
      gem_mxcsr_from_fp c s"
    by (rule bit_word_eqI)
       (simp add: bit_mxcsr_from_fp bit_or_iff bit_and_iff bit_not_iff bit_masks)
  with mxcsr_fp_mxcsr [OF assms] show ?thesis by simp
qed

lemma rflags_own: "gem_rflags_from_nzcv (gem_nzcv_from_rflags r q) r = r"
  by (simp add: gem_rflags_from_nzcv_def gem_nzcv_from_rflags_def rflags_nzcv_rflags and_mask_or_split)

text \<open>The context the conversion starts from: the destination, re-initialised when it is not valid.\<close>

definition x64_base :: "gem_x64_context \<Rightarrow> gem_thread_context \<Rightarrow> gem_thread_context" where
  "x64_base s d = (if \<not> gem_context_is_valid d
     then gem_context_initialize (xc_teb s) GEM_ISA_ARM64EC else d)"

definition x64_converted ::
  "gem_x64_context \<Rightarrow> gem_thread_context \<Rightarrow> u32 \<Rightarrow> u32 \<Rightarrow> gem_thread_context" where
  "x64_converted s e c t = (store_gprs s e)\<lparr>x := (x (store_gprs s e))[18 := teb e], pc := rip s,
      x64_rflags := rflags s, nzcv := gem_nzcv_from_rflags (rflags s) (nzcv e),
      fpcr := (fpcr e AND NOT FPCR_MXCSR_MASK) OR c, fpsr := (fpsr e AND NOT FPSR_MXCSR_MASK) OR t,
      x64_mxcsr := mxcsr s, x64_fcw := fcw s, x64_fsw := fsw s, v := xmm s, x87 := xc_x87 s,
      isa := isa_code GEM_ISA_ARM64EC\<rparr>"

lemma x64_base_props:
  assumes "gem_context_shape d" and "xc_teb s \<noteq> 0"
  shows "length (x (x64_base s d)) = 31" and "gem_context_is_valid (x64_base s d)"
  using assms initialize_shape [of "xc_teb s" GEM_ISA_ARM64EC]
  by (simp_all add: x64_base_def gem_context_shape_def initialize_valid_iff)

lemma x64_to_arm64ec_SomeD:
  assumes "gem_context_x64_to_arm64ec s d = Some r"
  shows "\<exists>c t. gem_fp_from_mxcsr_checked (mxcsr s) = Some (c, t) \<and> xc_teb s \<noteq> 0 \<and>
    teb (x64_base s d) = xc_teb s \<and> r = x64_converted s (x64_base s d) c t"
  using assms
  by (auto simp: gem_context_x64_to_arm64ec_def x64_base_def x64_converted_def gem_fp_from_mxcsr_def
      Let_def split: if_splits option.splits)

lemma x64_converted_props:
  assumes "length (x e) = 31" and "gem_context_is_valid e" and "x64_shape s" and "teb e = xc_teb s"
    and "gem_fp_from_mxcsr_checked (mxcsr s) = Some (c, t)"
  shows "gem_context_is_valid (x64_converted s e c t)"
    and "gem_context_arm64ec_to_x64 (x64_converted s e c t) = Some (s\<lparr>mxcsr := mxcsr s AND 0xffff\<rparr>)"
proof -
  let ?r = "x64_converted s e c t"
  have "x64_gprs ?r = gpr s"
    using x64_gprs_store [OF assms(1), of s] assms(1,3)
    by (simp add: x64_converted_def x64_gprs_def x64_shape_def)
  moreover show "gem_context_is_valid ?r"
    using assms(1,2) by (simp add: x64_converted_def gem_context_is_valid_def)
  ultimately show "gem_context_arm64ec_to_x64 ?r = Some (s\<lparr>mxcsr := mxcsr s AND 0xffff\<rparr>)"
    using assms(4) mxcsr_from_merged_fp [OF assms(5), of "fpcr e" "fpsr e"]
    by (simp add: gem_context_arm64ec_to_x64_def) (simp add: x64_converted_def rflags_own)
qed

text \<open>
  (C40) an x64 view that converts to ARM64EC yields a valid ARM64EC context of the same thread,
  whatever the destination held, and converting that context back gives the view again with
  MXCSR reduced to its sixteen architected bits. The conversion fails exactly on a zero TEB,
  denormals-are-zero, or a valid destination of another thread or of the x64 instruction set.
\<close>

theorem x64_arm64ec_x64:
  assumes s: "x64_shape s" and d: "gem_context_shape d"
  shows "(gem_context_x64_to_arm64ec s d = None \<longleftrightarrow>
       xc_teb s = 0 \<or> bit (mxcsr s) 6 \<or>
       gem_context_is_valid d \<and> (isa d \<noteq> isa_code GEM_ISA_ARM64EC \<or> teb d \<noteq> xc_teb s)) \<and>
    (\<forall>r. gem_context_x64_to_arm64ec s d = Some r \<longrightarrow>
       gem_context_is_valid r \<and> isa r = isa_code GEM_ISA_ARM64EC \<and> teb r = xc_teb s \<and>
       gem_context_arm64ec_to_x64 r = Some (s\<lparr>mxcsr := mxcsr s AND 0xffff\<rparr>))"
proof (intro conjI allI impI)
  show "gem_context_x64_to_arm64ec s d = None \<longleftrightarrow>
       xc_teb s = 0 \<or> bit (mxcsr s) 6 \<or>
       gem_context_is_valid d \<and> (isa d \<noteq> isa_code GEM_ISA_ARM64EC \<or> teb d \<noteq> xc_teb s)"
    by (auto simp: gem_context_x64_to_arm64ec_def fp_from_mxcsr_None_iff Let_def
        gem_context_initialize_def split: prod.splits)
  fix r assume "gem_context_x64_to_arm64ec s d = Some r"
  from x64_to_arm64ec_SomeD [OF this] obtain c t where
    fp: "gem_fp_from_mxcsr_checked (mxcsr s) = Some (c, t)" and t0: "xc_teb s \<noteq> 0" and
    teb: "teb (x64_base s d) = xc_teb s" and r: "r = x64_converted s (x64_base s d) c t" by blast
  note props = x64_converted_props [OF x64_base_props [OF d t0] s teb fp]
  show "gem_context_is_valid r" by (simp add: r props)
  show "gem_context_arm64ec_to_x64 r = Some (s\<lparr>mxcsr := mxcsr s AND 0xffff\<rparr>)" by (simp add: r props)
  show "isa r = isa_code GEM_ISA_ARM64EC" and "teb r = xc_teb s"
    using teb by (simp_all add: r x64_converted_def)
qed

theorem x64_arm64ec_x64_witness:
  "\<exists>r. gem_context_x64_to_arm64ec sample_x64_view (sample_x64_context\<lparr>isa := 1\<rparr>) = Some r \<and>
    gem_context_is_valid r \<and> gem_context_arm64ec_to_x64 r = Some sample_x64_view"
proof -
  have "x64_shape sample_x64_view" and "gem_context_shape (sample_x64_context\<lparr>isa := 1\<rparr>)"
    by (simp_all add: sample_defs)
  from x64_arm64ec_x64 [OF this] show ?thesis
    by (auto simp: sample_defs bit_iff_odd)
qed

end
