(* ===== verification/Gem_Memory.thy ===== *)
theory Gem_Memory
  imports Gem_Prelude
begin

text \<open>
  The page table of src/gem/memory.c: pages, reference-counted backings, the hashed page index,
  and the operations that change the mapping topology (the \<open>_locked\<close> functions, which run under
  the metadata lock; the lock protocol itself is in theory \<open>Gem_Locks\<close>).

  Pages and backings are heap objects with identity: several pages may share one backing
  (aliases), so the model keeps an explicit store for each kind, keyed by the block number the
  allocator returned. The intrusive chains \<open>next\<close> and \<open>hash_next\<close> are the lists \<open>pages\<close> and
  \<open>page_buckets\<close>. \<open>malloc\<close> and \<open>calloc\<close> may fail: \<open>heap_ok i\<close> says whether the i-th request
  succeeds, and \<open>heap_garbage i\<close> is the word found at the uninitialised \<open>generation\<close> field of that
  block. \<open>crashed\<close> records that the process has followed a null or dangling pointer or that the
  index was found corrupt; \<open>aborted\<close> that the 64-bit generation counter has wrapped and
  \<open>abort()\<close> was called.
\<close>

section \<open>Data\<close>

datatype gem_memory_error =
    GEM_MEMORY_OK
  | GEM_MEMORY_INVALID_ARGUMENT
  | GEM_MEMORY_OVERFLOW
  | GEM_MEMORY_NO_MEMORY
  | GEM_MEMORY_CONFLICT
  | GEM_MEMORY_NOT_RESERVED
  | GEM_MEMORY_NOT_COMMITTED
  | GEM_MEMORY_ACCESS_DENIED
  | GEM_MEMORY_GUARD_PAGE
  | GEM_MEMORY_NOT_FOUND

abbreviation GEM_PAGE_NOACCESS :: u32 where "GEM_PAGE_NOACCESS \<equiv> 0x01"
abbreviation GEM_PAGE_READONLY :: u32 where "GEM_PAGE_READONLY \<equiv> 0x02"
abbreviation GEM_PAGE_READWRITE :: u32 where "GEM_PAGE_READWRITE \<equiv> 0x04"
abbreviation GEM_PAGE_WRITECOPY :: u32 where "GEM_PAGE_WRITECOPY \<equiv> 0x08"
abbreviation GEM_PAGE_EXECUTE :: u32 where "GEM_PAGE_EXECUTE \<equiv> 0x10"
abbreviation GEM_PAGE_EXECUTE_READ :: u32 where "GEM_PAGE_EXECUTE_READ \<equiv> 0x20"
abbreviation GEM_PAGE_EXECUTE_READWRITE :: u32 where "GEM_PAGE_EXECUTE_READWRITE \<equiv> 0x40"
abbreviation GEM_PAGE_EXECUTE_WRITECOPY :: u32 where "GEM_PAGE_EXECUTE_WRITECOPY \<equiv> 0x80"
abbreviation GEM_PAGE_GUARD :: u32 where "GEM_PAGE_GUARD \<equiv> 0x100"

definition GEM_GUEST_PAGE_SIZE :: u64 where "GEM_GUEST_PAGE_SIZE = 4096"
definition GEM_KUSER_SHARED_DATA_ADDRESS :: u64 where "GEM_KUSER_SHARED_DATA_ADDRESS = 0x7ffe0000"
definition GEM_KUSER_CANONICAL_ADDRESS :: u64 where "GEM_KUSER_CANONICAL_ADDRESS = 0x1007ffe0000"
definition GEM_MEMORY_MAX_PAGES :: u64 where "GEM_MEMORY_MAX_PAGES = 1048576"
definition GEM_MEMORY_HASH_BUCKETS :: u64 where "GEM_MEMORY_HASH_BUCKETS = 65536"

type_synonym page_ref = nat
type_synonym backing_ref = nat

text \<open>\<open>uint8_t *data\<close>: a calloc'ed page of 4096 bytes, or an address in caller-owned host memory.\<close>

datatype backing_data = Owned "nat \<Rightarrow> u8" | Host u64

record backing =
  bk_data :: backing_data
  refs :: nat
  bk_generation :: u64
  external :: bool

record page =
  address :: u64
  reservation_base :: u64
  reservation_size :: u64
  page_backing :: "backing_ref option"
  protection :: u32
  generation :: u64

record gem_memory =
  pages :: "page_ref list"
  page_buckets :: "nat \<Rightarrow> page_ref list"
  next_generation :: u64
  page_heap :: "page_ref \<Rightarrow> page option"
  backing_heap :: "backing_ref \<Rightarrow> backing option"
  host_memory :: "u64 \<Rightarrow> u8"
  heap_ok :: "nat \<Rightarrow> bool"
  heap_garbage :: "nat \<Rightarrow> u64"
  heap_count :: nat
  crashed :: bool
  aborted :: bool

section \<open>Allocation and reference counts\<close>

text \<open>One \<open>malloc\<close> or \<open>calloc\<close> request; a successful one returns a block number never used before.\<close>

definition heap_alloc :: "gem_memory \<Rightarrow> nat option \<times> gem_memory" where
  "heap_alloc m = (let i = heap_count m in
     (if heap_ok m i then Some i else None, m\<lparr>heap_count := Suc i\<rparr>))"

definition crash :: "gem_memory \<Rightarrow> gem_memory" where
  "crash m = m\<lparr>crashed := True\<rparr>"

text \<open>\<open>++memory->next_generation\<close>, and \<open>abort()\<close> when it wraps to zero.\<close>

definition next_gen :: "gem_memory \<Rightarrow> u64 \<times> gem_memory" where
  "next_gen m = (let g = next_generation m + 1 in
     (g, m\<lparr>next_generation := g, aborted := aborted m \<or> g = 0\<rparr>))"

definition upd_page :: "gem_memory \<Rightarrow> page_ref \<Rightarrow> (page \<Rightarrow> page) \<Rightarrow> gem_memory" where
  "upd_page m r f = (case page_heap m r of
       None \<Rightarrow> crash m
     | Some p \<Rightarrow> m\<lparr>page_heap := (page_heap m)(r \<mapsto> f p)\<rparr>)"

definition upd_backing :: "gem_memory \<Rightarrow> backing_ref \<Rightarrow> (backing \<Rightarrow> backing) \<Rightarrow> gem_memory" where
  "upd_backing m b f = (case backing_heap m b of
       None \<Rightarrow> crash m
     | Some k \<Rightarrow> m\<lparr>backing_heap := (backing_heap m)(b \<mapsto> f k)\<rparr>)"

definition touch_page :: "gem_memory \<Rightarrow> page_ref \<Rightarrow> gem_memory" where
  "touch_page m r = (let (g, m) = next_gen m in upd_page m r (\<lambda>p. p\<lparr>generation := g\<rparr>))"

definition touch_backing :: "gem_memory \<Rightarrow> backing_ref \<Rightarrow> gem_memory" where
  "touch_backing m b = (let (g, m) = next_gen m in upd_backing m b (\<lambda>k. k\<lparr>bk_generation := g\<rparr>))"

definition incref :: "gem_memory \<Rightarrow> backing_ref \<Rightarrow> gem_memory" where
  "incref m b = upd_backing m b (\<lambda>k. k\<lparr>refs := Suc (refs k)\<rparr>)"

text \<open>\<open>drop\<close>: decrement, and free the data and the backing when the count reaches zero.\<close>

definition drop_backing :: "gem_memory \<Rightarrow> backing_ref option \<Rightarrow> gem_memory" where
  "drop_backing m bo = (case bo of None \<Rightarrow> m | Some b \<Rightarrow>
     (case backing_heap m b of
        None \<Rightarrow> crash m
      | Some k \<Rightarrow>
         (if refs k - 1 = 0 then m\<lparr>backing_heap := (backing_heap m)(b := None)\<rparr>
          else m\<lparr>backing_heap := (backing_heap m)(b \<mapsto> k\<lparr>refs := refs k - 1\<rparr>)\<rparr>)))"

text \<open>
  \<open>new_backing(data, external)\<close>: one block for the header and, for an owned page, a second zeroed
  one for the contents. The header comes from \<open>malloc\<close> and its \<open>generation\<close> is never assigned.
\<close>

definition new_backing :: "gem_memory \<Rightarrow> u64 option \<Rightarrow> backing_ref option \<times> gem_memory" where
  "new_backing m host = (case heap_alloc m of
       (None, m) \<Rightarrow> (None, m)
     | (Some b, m) \<Rightarrow>
        (case host of
           Some h \<Rightarrow> (Some b, m\<lparr>backing_heap := (backing_heap m)
             (b \<mapsto> \<lparr>bk_data = Host h, refs = 1, bk_generation = heap_garbage m b, external = True\<rparr>)\<rparr>)
         | None \<Rightarrow>
            (case heap_alloc m of
               (None, m) \<Rightarrow> (None, m)
             | (Some _, m) \<Rightarrow> (Some b, m\<lparr>backing_heap := (backing_heap m)
                 (b \<mapsto> \<lparr>bk_data = Owned (\<lambda>_. 0), refs = 1, bk_generation = heap_garbage m b,
                        external = False\<rparr>)\<rparr>))))"

section \<open>The page index\<close>

definition page_bucket :: "u64 \<Rightarrow> nat" where
  "page_bucket a =
    (let key = drop_bit 12 a;
         key = key XOR drop_bit 33 key;
         key = key * 0xff51afd7ed558ccd;
         key = key XOR drop_bit 33 key;
         key = key * 0xc4ceb9fe1a85ec53;
         key = key XOR drop_bit 33 key
     in unat (key AND (GEM_MEMORY_HASH_BUCKETS - 1)))"

definition at :: "gem_memory \<Rightarrow> u64 \<Rightarrow> page_ref option" where
  "at m a = find (\<lambda>r. map_option address (page_heap m r) = Some a) (page_buckets m (page_bucket a))"

text \<open>The page object \<open>at\<close> points to.\<close>

definition page_at :: "gem_memory \<Rightarrow> u64 \<Rightarrow> page option" where
  "page_at m a = Option.bind (at m a) (page_heap m)"

definition index_page :: "gem_memory \<Rightarrow> page_ref \<Rightarrow> gem_memory" where
  "index_page m r = (case page_heap m r of
       None \<Rightarrow> crash m
     | Some p \<Rightarrow> (let bucket = page_bucket (address p) in
         m\<lparr>page_buckets := (page_buckets m)(bucket := r # page_buckets m bucket)\<rparr>))"

definition unindex_page :: "gem_memory \<Rightarrow> page_ref \<Rightarrow> gem_memory" where
  "unindex_page m r = (case page_heap m r of
       None \<Rightarrow> crash m
     | Some p \<Rightarrow> (let bucket = page_bucket (address p); chain = page_buckets m bucket in
         if r \<notin> set chain then crash m
         else m\<lparr>page_buckets := (page_buckets m)(bucket := remove1 r chain)\<rparr>))"

section \<open>Argument checks\<close>

definition range_ok :: "u64 \<Rightarrow> u64 \<Rightarrow> bool" where
  "range_ok a n \<longleftrightarrow> n \<noteq> 0 \<and> a AND 4095 = 0 \<and> n AND 4095 = 0 \<and> a \<le> - 1 - n"

definition prot_ok :: "u32 \<Rightarrow> bool" where
  "prot_ok p =
    (let b = p AND NOT GEM_PAGE_GUARD in
     if p AND NOT (GEM_PAGE_GUARD OR 0xff) \<noteq> 0 then False
     else if p AND GEM_PAGE_GUARD \<noteq> 0 \<and> b = GEM_PAGE_NOACCESS then False
     else b = GEM_PAGE_NOACCESS \<or> b = GEM_PAGE_READONLY \<or> b = GEM_PAGE_READWRITE \<or>
          b = GEM_PAGE_WRITECOPY \<or> b = GEM_PAGE_EXECUTE \<or> b = GEM_PAGE_EXECUTE_READ \<or>
          b = GEM_PAGE_EXECUTE_READWRITE \<or> b = GEM_PAGE_EXECUTE_WRITECOPY)"

text \<open>\<open>a & ~UINT64_C(4095)\<close>\<close>

definition page_base :: "u64 \<Rightarrow> u64" where
  "page_base a = a AND NOT 4095"

text \<open>The page addresses visited by \<open>for (o = 0; o < n; o += 4096) ... a + o\<close>.\<close>

definition page_addrs :: "u64 \<Rightarrow> u64 \<Rightarrow> u64 list" where
  "page_addrs a n = map (\<lambda>k. a + of_nat (4096 * k)) [0..<(unat n + 4095) div 4096]"

fun check_pages :: "gem_memory \<Rightarrow> bool \<Rightarrow> u64 list \<Rightarrow> gem_memory_error" where
  "check_pages m committed [] = GEM_MEMORY_OK"
| "check_pages m committed (a # as) = (case page_at m a of
       None \<Rightarrow> GEM_MEMORY_NOT_RESERVED
     | Some p \<Rightarrow> if committed \<and> page_backing p = None then GEM_MEMORY_NOT_COMMITTED
                 else check_pages m committed as)"

definition check :: "gem_memory \<Rightarrow> u64 \<Rightarrow> u64 \<Rightarrow> bool \<Rightarrow> gem_memory_error" where
  "check m a n committed =
    (if \<not> range_ok a n then GEM_MEMORY_INVALID_ARGUMENT
     else check_pages m committed (page_addrs a n))"

section \<open>Removing and reserving pages\<close>

text \<open>\<open>unindex_page(m, p); drop(p->backing); free(p);\<close>\<close>

definition free_page :: "gem_memory \<Rightarrow> page_ref \<Rightarrow> page \<Rightarrow> gem_memory" where
  "free_page m r p = (let m = drop_backing (unindex_page m r) (page_backing p)
     in m\<lparr>page_heap := (page_heap m)(r := None)\<rparr>)"

fun remove_walk :: "u64 \<Rightarrow> u64 \<Rightarrow> page_ref list \<Rightarrow> gem_memory \<Rightarrow> page_ref list \<times> gem_memory" where
  "remove_walk a n [] m = ([], m)"
| "remove_walk a n (r # rs) m = (case page_heap m r of
       None \<Rightarrow> (r # rs, crash m)
     | Some p \<Rightarrow>
        (if address p \<ge> a \<and> address p < a + n then remove_walk a n rs (free_page m r p)
         else (let (l, m) = remove_walk a n rs m in (r # l, m))))"

definition remove_pages :: "gem_memory \<Rightarrow> u64 \<Rightarrow> u64 \<Rightarrow> gem_memory" where
  "remove_pages m a n = (let (l, m) = remove_walk a n (pages m) m in m\<lparr>pages := l\<rparr>)"

text \<open>
  \<open>while (at(m, b) && b <= UINT64_MAX - n - 4096) b += 4096;\<close> The last conjunct only makes the
  recursion well-founded for absurd \<open>n\<close>: lemma \<open>reserve_scan_loop\<close> shows that the C loop equation
  holds for every \<open>n\<close> that passes the page-count limit checked before it.
\<close>

function reserve_scan :: "gem_memory \<Rightarrow> u64 \<Rightarrow> u64 \<Rightarrow> u64" where
  "reserve_scan m n b =
    (if at m b \<noteq> None \<and> b \<le> - 1 - n - 4096 \<and> b \<le> - 1 - 4096 then reserve_scan m n (b + 4096) else b)"
  by pat_completeness auto
termination
proof (relation "measure (\<lambda>(m, n, b). 2 ^ 64 - unat b)")
  fix m n b
  assume "at m b \<noteq> None \<and> b \<le> - 1 - n - 4096 \<and> b \<le> - 1 - (4096 :: u64)"
  then have "unat b + 4096 < 2 ^ 64" using no_wrap_iff [of b 4096] by simp
  moreover then have "unat (b + 4096) = unat b + 4096"
    using unat_add_no_wrap [of b 4096] by simp
  ultimately show "((m, n, b + 4096), m, n, b) \<in> measure (\<lambda>(m, n, b). 2 ^ 64 - unat b)"
    by simp
qed simp

declare reserve_scan.simps [simp del]

text \<open>Allocating the page objects; a failure frees the ones built so far.\<close>

fun build_pages ::
  "(gem_memory \<Rightarrow> u64 \<Rightarrow> page \<times> gem_memory) \<Rightarrow> u64 list \<Rightarrow> gem_memory \<Rightarrow> (page_ref \<times> page) list
     \<Rightarrow> (page_ref \<times> page) list option \<times> (page_ref \<times> page) list \<times> gem_memory" where
  "build_pages mk [] m head = (Some head, [], m)"
| "build_pages mk (a # as) m head = (case heap_alloc m of
       (None, m) \<Rightarrow> (None, head, m)
     | (Some r, m) \<Rightarrow> (let (p, m) = mk m a; (g, m) = next_gen m
                       in build_pages mk as m ((r, p\<lparr>generation := g\<rparr>) # head)))"

text \<open>\<open>while (head) { head->next = m->pages; m->pages = head; index_page(m, head); }\<close>\<close>

fun publish_pages :: "gem_memory \<Rightarrow> (page_ref \<times> page) list \<Rightarrow> gem_memory" where
  "publish_pages m [] = m"
| "publish_pages m ((r, p) # head) =
    publish_pages (index_page (m\<lparr>page_heap := (page_heap m)(r \<mapsto> p), pages := r # pages m\<rparr>) r) head"

definition reserved_page :: "u64 \<Rightarrow> u64 \<Rightarrow> gem_memory \<Rightarrow> u64 \<Rightarrow> page \<times> gem_memory" where
  "reserved_page b n m a =
    (\<lparr>address = a, reservation_base = b, reservation_size = n, page_backing = None,
      protection = 0, generation = 0\<rparr>, m)"

text \<open>
  \<open>reserve_locked(m, a, n)\<close>: \<open>a\<close> points to the requested base (\<open>None\<close> is a null pointer), zero
  asks for any address above 4 GiB. The result is the status, \<open>*a\<close> afterwards and the memory.
\<close>

definition reserve_locked ::
  "gem_memory \<Rightarrow> u64 option \<Rightarrow> u64 \<Rightarrow> gem_memory_error \<times> u64 option \<times> gem_memory" where
  "reserve_locked m ap n = (case ap of
       None \<Rightarrow> (GEM_MEMORY_INVALID_ARGUMENT, ap, m)
     | Some a \<Rightarrow>
        (if n = 0 \<or> n div 4096 > GEM_MEMORY_MAX_PAGES \<or> n AND 4095 \<noteq> 0
         then (GEM_MEMORY_INVALID_ARGUMENT, ap, m)
         else (let b = (if a = 0 then reserve_scan m n 0x100000000 else a) in
           if \<not> range_ok b n then (GEM_MEMORY_OVERFLOW, ap, m)
           else if list_ex (\<lambda>x. at m x \<noteq> None) (page_addrs b n) then (GEM_MEMORY_CONFLICT, ap, m)
           else (case build_pages (reserved_page b n) (page_addrs b n) m [] of
               (None, _, m) \<Rightarrow> (GEM_MEMORY_NO_MEMORY, ap, m)
             | (Some head, _, m) \<Rightarrow> (GEM_MEMORY_OK, Some b, publish_pages m head)))))"

section \<open>Committing and decommitting\<close>

text \<open>
  New backings for the pages of the range that have none; the list runs parallel to the page
  addresses, \<open>None\<close> where the page keeps its backing. A failure drops the ones just made.
\<close>

fun commit_alloc :: "u64 list \<Rightarrow> gem_memory \<Rightarrow> backing_ref option list
    \<Rightarrow> backing_ref option list option \<times> backing_ref option list \<times> gem_memory" where
  "commit_alloc [] m bs = (Some (rev bs), bs, m)"
| "commit_alloc (a # as) m bs = (case page_at m a of
       None \<Rightarrow> (None, bs, crash m)
     | Some p \<Rightarrow>
        (case page_backing p of
           Some _ \<Rightarrow> commit_alloc as m (None # bs)
         | None \<Rightarrow> (case new_backing m None of
               (None, m) \<Rightarrow> (None, bs, m)
             | (Some b, m) \<Rightarrow> commit_alloc as m (Some b # bs))))"

text \<open>\<open>if (!p->backing) p->backing = bs[i]; p->protection = prot; touch_page(m, p);\<close>\<close>

definition commit_page :: "u32 \<Rightarrow> gem_memory \<Rightarrow> u64 \<times> backing_ref option \<Rightarrow> gem_memory" where
  "commit_page prot m ab = (case ab of (a, b) \<Rightarrow>
     (case at m a of
        None \<Rightarrow> crash m
      | Some r \<Rightarrow> touch_page (upd_page m r (\<lambda>p. p\<lparr>
            page_backing := (if page_backing p = None then b else page_backing p),
            protection := prot\<rparr>)) r))"

definition commit_locked :: "gem_memory \<Rightarrow> u64 \<Rightarrow> u64 \<Rightarrow> u32 \<Rightarrow> gem_memory_error \<times> gem_memory" where
  "commit_locked m a n prot =
    (let e = check m a n False in
     if e \<noteq> GEM_MEMORY_OK then (e, m)
     else if \<not> prot_ok prot then (GEM_MEMORY_INVALID_ARGUMENT, m)
     else (case heap_alloc m of
         (None, m) \<Rightarrow> (GEM_MEMORY_NO_MEMORY, m)
       | (Some _, m) \<Rightarrow>
          (case commit_alloc (page_addrs a n) m [] of
             (None, bs, m) \<Rightarrow> (GEM_MEMORY_NO_MEMORY, foldl drop_backing m (rev bs))
           | (Some bs, _, m) \<Rightarrow>
              (GEM_MEMORY_OK, foldl (commit_page prot) m (zip (page_addrs a n) bs)))))"

definition decommit_page :: "gem_memory \<Rightarrow> u64 \<Rightarrow> gem_memory" where
  "decommit_page m a = (case at m a of
       None \<Rightarrow> crash m
     | Some r \<Rightarrow>
        (case page_heap m r of
           None \<Rightarrow> crash m
         | Some p \<Rightarrow>
            touch_page (upd_page (drop_backing m (page_backing p)) r
              (\<lambda>p. p\<lparr>page_backing := None, protection := GEM_PAGE_NOACCESS\<rparr>)) r))"

definition decommit_locked :: "gem_memory \<Rightarrow> u64 \<Rightarrow> u64 \<Rightarrow> gem_memory_error \<times> gem_memory" where
  "decommit_locked m a n =
    (let e = check m a n False in
     if e \<noteq> GEM_MEMORY_OK then (e, m)
     else (GEM_MEMORY_OK, foldl decommit_page m (page_addrs a n)))"

section \<open>Releasing, unmapping and protecting\<close>

definition release_locked :: "gem_memory \<Rightarrow> u64 \<Rightarrow> u64 \<Rightarrow> gem_memory_error \<times> gem_memory" where
  "release_locked m a n =
    (let e = check m a n False in
     if e \<noteq> GEM_MEMORY_OK then (e, m)
     else (case page_at m a of
         None \<Rightarrow> (GEM_MEMORY_OK, crash m)
       | Some p \<Rightarrow>
          (if a \<noteq> reservation_base p \<or> n \<noteq> reservation_size p then (GEM_MEMORY_INVALID_ARGUMENT, m)
           else (GEM_MEMORY_OK, remove_pages m a n))))"

definition set_reservation :: "u64 \<Rightarrow> u64 \<Rightarrow> gem_memory \<Rightarrow> u64 \<Rightarrow> gem_memory" where
  "set_reservation base sz m a = (case at m a of
       None \<Rightarrow> crash m
     | Some r \<Rightarrow> upd_page m r (\<lambda>p. p\<lparr>reservation_base := base, reservation_size := sz\<rparr>))"

text \<open>
  \<open>unmap_locked\<close> removes part of one reservation and turns what is left on either side into
  reservations of their own.
\<close>

definition unmap_locked :: "gem_memory \<Rightarrow> u64 \<Rightarrow> u64 \<Rightarrow> gem_memory_error \<times> gem_memory" where
  "unmap_locked m a n =
    (let e = check m a n False in
     if e \<noteq> GEM_MEMORY_OK then (e, m)
     else (case page_at m a of
           None \<Rightarrow> (GEM_MEMORY_OK, crash m)
         | Some first \<Rightarrow>
            (let base = reservation_base first;
                 sz = reservation_size first;
                 reservation_end = base + sz;
                 range_end = a + n
             in if a < base \<or> range_end > reservation_end then (GEM_MEMORY_INVALID_ARGUMENT, m)
                else if list_ex (\<lambda>x. case page_at m x of
                         None \<Rightarrow> True
                       | Some p \<Rightarrow> reservation_base p \<noteq> base \<or> reservation_size p \<noteq> sz)
                     (page_addrs a n)
                then (GEM_MEMORY_INVALID_ARGUMENT, m)
                else (let m = foldl (set_reservation base (a - base)) m (page_addrs base (a - base));
                          m = foldl (set_reservation range_end (reservation_end - range_end)) m
                                (page_addrs range_end (reservation_end - range_end))
                      in (GEM_MEMORY_OK, remove_pages m a n)))))"

definition set_protection :: "u32 \<Rightarrow> gem_memory \<Rightarrow> u64 \<Rightarrow> gem_memory" where
  "set_protection prot m a = (case at m a of
       None \<Rightarrow> crash m | Some r \<Rightarrow> upd_page m r (\<lambda>p. p\<lparr>protection := prot\<rparr>))"

definition touch_at :: "gem_memory \<Rightarrow> u64 \<Rightarrow> gem_memory" where
  "touch_at m a = (case at m a of None \<Rightarrow> crash m | Some r \<Rightarrow> touch_page m r)"

text \<open>The result carries \<open>*old\<close>: the protection of the first page, when the call succeeds.\<close>

definition protect_locked ::
  "gem_memory \<Rightarrow> u64 \<Rightarrow> u64 \<Rightarrow> u32 \<Rightarrow> gem_memory_error \<times> u32 option \<times> gem_memory" where
  "protect_locked m a n prot =
    (let e = check m a n True in
     if e \<noteq> GEM_MEMORY_OK then (e, None, m)
     else if \<not> prot_ok prot then (GEM_MEMORY_INVALID_ARGUMENT, None, m)
     else (GEM_MEMORY_OK, map_option protection (page_at m a),
           foldl touch_at (foldl (set_protection prot) m (page_addrs a n)) (page_addrs a n)))"

section \<open>Aliases and caller-owned storage\<close>

definition alias_page :: "u64 \<Rightarrow> u64 \<Rightarrow> u64 \<Rightarrow> u32 \<Rightarrow> gem_memory \<Rightarrow> u64 \<Rightarrow> page \<times> gem_memory" where
  "alias_page a s n prot m x =
    (case Option.bind (page_at m (s + (x - a))) page_backing of
       None \<Rightarrow> (\<lparr>address = x, reservation_base = a, reservation_size = n, page_backing = None,
                 protection = prot, generation = 0\<rparr>, crash m)
     | Some b \<Rightarrow> (\<lparr>address = x, reservation_base = a, reservation_size = n, page_backing = Some b,
                   protection = prot, generation = 0\<rparr>, incref m b))"

definition alias_locked ::
  "gem_memory \<Rightarrow> u64 \<Rightarrow> u64 \<Rightarrow> u64 \<Rightarrow> u32 \<Rightarrow> gem_memory_error \<times> gem_memory" where
  "alias_locked m a s n prot =
    (if \<not> range_ok a n \<or> \<not> prot_ok prot then (GEM_MEMORY_INVALID_ARGUMENT, m)
     else (let e = check m s n True in
       if e \<noteq> GEM_MEMORY_OK then (e, m)
       else if list_ex (\<lambda>x. at m x \<noteq> None) (page_addrs a n) then (GEM_MEMORY_CONFLICT, m)
       else (case build_pages (alias_page a s n prot) (page_addrs a n) m [] of
           (None, head, m) \<Rightarrow>
             (GEM_MEMORY_NO_MEMORY, foldl drop_backing m (map (page_backing \<circ> snd) head))
         | (Some head, _, m) \<Rightarrow> (GEM_MEMORY_OK, publish_pages m head))))"

fun identity_pages :: "u64 \<Rightarrow> u64 \<Rightarrow> u32 \<Rightarrow> u64 list \<Rightarrow> gem_memory \<Rightarrow> bool \<times> gem_memory" where
  "identity_pages a h prot [] m = (True, m)"
| "identity_pages a h prot (x # xs) m = (case at m x of
       None \<Rightarrow> (False, crash m)
     | Some r \<Rightarrow>
        (case new_backing m (Some (h + (x - a))) of
           (None, m) \<Rightarrow> (False, m)
         | (Some b, m) \<Rightarrow>
            identity_pages a h prot xs
              (touch_page (upd_page m r (\<lambda>p. p\<lparr>page_backing := Some b, protection := prot\<rparr>)) r)))"

definition map_identity_locked ::
  "gem_memory \<Rightarrow> u64 \<Rightarrow> u64 \<Rightarrow> u64 \<Rightarrow> u32 \<Rightarrow> gem_memory_error \<times> gem_memory" where
  "map_identity_locked m a h n prot =
    (if h = 0 \<or> a < 0x100000000 \<or> a \<noteq> h \<or> \<not> range_ok a n \<or> \<not> prot_ok prot
     then (GEM_MEMORY_INVALID_ARGUMENT, m)
     else (case reserve_locked m (Some a) n of (e, _, m) \<Rightarrow>
       if e \<noteq> GEM_MEMORY_OK then (e, m)
       else (case identity_pages a h prot (page_addrs a n) m of
           (True, m) \<Rightarrow> (GEM_MEMORY_OK, m)
         | (False, m) \<Rightarrow> (GEM_MEMORY_NO_MEMORY, snd (release_locked m a n)))))"

text \<open>
  The validation loop of \<open>commit_external_locked\<close>: a page that already has a backing must have
  exactly this host page; the others get a new external backing.
\<close>

fun external_alloc :: "u64 \<Rightarrow> u64 \<Rightarrow> u64 list \<Rightarrow> gem_memory \<Rightarrow> backing_ref option list
    \<Rightarrow> gem_memory_error \<times> backing_ref option list \<times> gem_memory" where
  "external_alloc a h [] m bs = (GEM_MEMORY_OK, rev bs, m)"
| "external_alloc a h (x # xs) m bs = (case page_at m x of
       None \<Rightarrow> (GEM_MEMORY_NOT_RESERVED, rev bs, crash m)
     | Some p \<Rightarrow>
        (case page_backing p of
           Some b \<Rightarrow>
            (case backing_heap m b of
               None \<Rightarrow> (GEM_MEMORY_CONFLICT, rev bs, crash m)
             | Some k \<Rightarrow>
                (if \<not> external k \<or> bk_data k \<noteq> Host (h + (x - a)) then (GEM_MEMORY_CONFLICT, rev bs, m)
                 else external_alloc a h xs m (None # bs)))
         | None \<Rightarrow> (case new_backing m (Some (h + (x - a))) of
               (None, m) \<Rightarrow> (GEM_MEMORY_NO_MEMORY, rev bs, m)
             | (Some b, m) \<Rightarrow> external_alloc a h xs m (Some b # bs))))"

definition commit_external_locked ::
  "gem_memory \<Rightarrow> u64 \<Rightarrow> u64 \<Rightarrow> u64 \<Rightarrow> u32 \<Rightarrow> bool \<Rightarrow> gem_memory_error \<times> gem_memory" where
  "commit_external_locked m a h n prot require_identity =
    (if h = 0 \<or> h AND (GEM_GUEST_PAGE_SIZE - 1) \<noteq> 0 \<or>
        (require_identity \<and> (a < 0x100000000 \<or> a \<noteq> h)) \<or> \<not> range_ok a n \<or> \<not> prot_ok prot
     then (GEM_MEMORY_INVALID_ARGUMENT, m)
     else (let e = check m a n False in
       if e \<noteq> GEM_MEMORY_OK then (e, m)
       else (case heap_alloc m of
           (None, m) \<Rightarrow> (GEM_MEMORY_NO_MEMORY, m)
         | (Some _, m) \<Rightarrow>
            (case external_alloc a h (page_addrs a n) m [] of (e, bs, m) \<Rightarrow>
               if e \<noteq> GEM_MEMORY_OK then (e, foldl drop_backing m bs)
               else (GEM_MEMORY_OK, foldl (commit_page prot) m (zip (page_addrs a n) bs))))))"

definition bind_kuser_locked :: "gem_memory \<Rightarrow> u64 \<Rightarrow> gem_memory_error \<times> gem_memory" where
  "bind_kuser_locked m host_page =
    (if host_page = 0 \<or> host_page AND (GEM_GUEST_PAGE_SIZE - 1) \<noteq> 0
     then (GEM_MEMORY_INVALID_ARGUMENT, m)
     else (case (at m GEM_KUSER_CANONICAL_ADDRESS, at m GEM_KUSER_SHARED_DATA_ADDRESS) of
         (Some canonical, Some alias) \<Rightarrow>
          (case (Option.bind (page_heap m canonical) page_backing,
                 Option.bind (page_heap m alias) page_backing) of
             (Some old, Some old') \<Rightarrow>
              (if old \<noteq> old' then (GEM_MEMORY_CONFLICT, m)
               else (case new_backing m (Some host_page) of
                   (None, m) \<Rightarrow> (GEM_MEMORY_NO_MEMORY, m)
                 | (Some ext, m) \<Rightarrow>
                    (let m = upd_backing m ext (\<lambda>k. k\<lparr>refs := 2\<rparr>);
                         m = upd_page m canonical (\<lambda>p. p\<lparr>page_backing := Some ext\<rparr>);
                         m = upd_page m alias (\<lambda>p. p\<lparr>page_backing := Some ext\<rparr>);
                         m = touch_page m canonical;
                         m = touch_page m alias;
                         m = drop_backing m (Some old)
                     in (GEM_MEMORY_OK, drop_backing m (Some old)))))
           | _ \<Rightarrow> (GEM_MEMORY_CONFLICT, m))
       | _ \<Rightarrow> (GEM_MEMORY_CONFLICT, m)))"

end
