(* ===== verification/Gem_Page_Ranges.thy ===== *)
theory Gem_Page_Ranges
  imports Gem_Memory
begin

text \<open>
  Page arithmetic for src/gem/memory.c: alignment as a bit test and as divisibility, the addresses
  a \<open>for (o = 0; o < n; o += 4096)\<close> loop visits, and the scan for a free base address.
\<close>

section \<open>Alignment\<close>

abbreviation aligned :: "u64 \<Rightarrow> bool" where
  "aligned x \<equiv> x AND 4095 = 0"

lemma mask_12: "(4095 :: u64) = mask 12"
  by (simp add: mask_eq_exp_minus_1)

lemma unat_page_offset: "unat (x AND 4095 :: u64) = unat x mod 4096"
  unfolding mask_12 take_bit_eq_mask [symmetric] take_bit_eq_mod by (simp add: unat_mod)

lemma aligned_iff: "aligned x \<longleftrightarrow> unat x mod 4096 = 0"
  using unat_page_offset [of x] by (metis unat_eq_zero)

lemma page_base_eq: "page_base x = x - (x AND 4095)"
proof -
  have "(x AND NOT y) + (x AND y) = x" for y :: u64
    by (subst disjunctive_add) (auto simp: bit_simps intro!: bit_eqI)
  from this [of 4095] show ?thesis unfolding page_base_def by (simp only: eq_diff_eq)
qed

lemma unat_page_base: "unat (page_base x) = unat x - unat x mod 4096"
proof -
  have "x AND 4095 \<le> x" by (simp add: word_le_nat_alt unat_page_offset)
  then have "unat (x - (x AND 4095)) = unat x - unat (x AND 4095)" by (rule unat_sub)
  then show ?thesis by (simp add: page_base_eq unat_page_offset)
qed

lemma aligned_page_base [simp]: "aligned (page_base x)"
  unfolding aligned_iff unat_page_base by (simp add: minus_mod_eq_mult_div)

lemma page_base_aligned [simp]: "aligned x \<Longrightarrow> page_base x = x"
  by (simp add: page_base_eq)

section \<open>Ranges of pages\<close>

lemma range_ok_unat:
  "range_ok a n \<longleftrightarrow> 0 < unat n \<and> unat a mod 4096 = 0 \<and> unat n mod 4096 = 0 \<and> unat a + unat n < 2 ^ 64"
  unfolding range_ok_def aligned_iff no_wrap_iff by (auto simp: unat_gt_0)

lemma range_ok_end: "range_ok a n \<Longrightarrow> unat (a + n) = unat a + unat n"
  unfolding range_ok_def by (simp add: unat_add_no_wrap no_wrap_iff)

lemma unat_page_addr:
  assumes "range_ok a n" and "k < (unat n + 4095) div 4096"
  shows "unat (a + of_nat (4096 * k)) = unat a + 4096 * k" and "4096 * k < unat n"
proof -
  have n: "unat n mod 4096 = 0" "unat a + unat n < 2 ^ 64" using assms(1) by (auto simp: range_ok_unat)
  show k: "4096 * k < unat n" using assms(2) by linarith
  have "unat (of_nat (4096 * k) :: u64) = 4096 * k"
    by (rule of_nat_inverse [OF refl]) (use k n(2) in simp)
  then show "unat (a + of_nat (4096 * k)) = unat a + 4096 * k"
    using unat_add_no_wrap [of a "of_nat (4096 * k)"] k n(2) by simp
qed

lemma mem_page_addrs:
  assumes "range_ok a n"
  shows "x \<in> set (page_addrs a n) \<longleftrightarrow> aligned x \<and> a \<le> x \<and> x < a + n"
proof
  assume "x \<in> set (page_addrs a n)"
  then obtain k where k: "k < (unat n + 4095) div 4096" "x = a + of_nat (4096 * k)"
    by (auto simp: page_addrs_def)
  note u = unat_page_addr [OF assms k(1), folded k(2)]
  show "aligned x \<and> a \<le> x \<and> x < a + n"
    using u assms range_ok_end [OF assms]
    by (simp add: aligned_iff word_le_nat_alt word_less_nat_alt range_ok_unat)
next
  assume x: "aligned x \<and> a \<le> x \<and> x < a + n"
  define k where "k = (unat x - unat a) div 4096"
  have ux: "unat x mod 4096 = 0" "unat a \<le> unat x" "unat x < unat a + unat n"
    using x range_ok_end [OF assms] by (auto simp: aligned_iff word_le_nat_alt word_less_nat_alt)
  have ua: "unat a mod 4096 = 0" using assms by (simp add: range_ok_unat)
  then have "unat x - unat a = 4096 * k"
    unfolding k_def using ux by (metis dvd_diff_nat dvd_mult_div_cancel mod_eq_0_iff_dvd)
  then have eq: "unat x = unat a + 4096 * k" using ux by simp
  then have k: "k < (unat n + 4095) div 4096" using ux by linarith
  have "x = a + of_nat (4096 * k)"
    using unat_page_addr(1) [OF assms k] eq by (metis unsigned_word_eqI)
  then show "x \<in> set (page_addrs a n)" using k by (auto simp: page_addrs_def)
qed

lemma distinct_page_addrs:
  assumes "range_ok a n"
  shows "distinct (page_addrs a n)"
proof -
  have "inj_on (\<lambda>k. a + of_nat (4096 * k)) {0..<(unat n + 4095) div 4096}"
  proof (rule inj_onI)
    fix j k
    assume "j \<in> {0..<(unat n + 4095) div 4096}" "k \<in> {0..<(unat n + 4095) div 4096}"
      "a + of_nat (4096 * j) = a + of_nat (4096 * k)"
    then show "j = k"
      using unat_page_addr(1) [OF assms, of j] unat_page_addr(1) [OF assms, of k] by simp
  qed
  then show ?thesis by (simp add: page_addrs_def distinct_map)
qed

lemma page_addrs_zero [simp]: "page_addrs a 0 = []"
  by (simp add: page_addrs_def)

lemma first_page: "range_ok a n \<Longrightarrow> a \<in> set (page_addrs a n)"
  using mem_page_addrs [of a n a] range_ok_end [of a n]
  by (simp add: range_ok_def word_less_nat_alt unat_gt_0)

lemma length_page_addrs: "range_ok a n \<Longrightarrow> length (page_addrs a n) = unat n div 4096"
proof -
  assume "range_ok a n"
  then obtain q where "unat n = 4096 * q" by (auto simp: range_ok_unat mod_eq_0_iff_dvd elim: dvdE)
  then show ?thesis by (simp add: page_addrs_def)
qed

section \<open>The scan for a free base\<close>

text \<open>
  For every size that passes the page-count limit, \<open>reserve_scan\<close> satisfies the equation of the C
  loop, whose condition has no second bound.
\<close>

lemma scan_bound:
  assumes "n div 4096 \<le> GEM_MEMORY_MAX_PAGES" and "b \<le> - 1 - n - 4096"
  shows "b \<le> - 1 - 4096"
proof -
  have "unat n div 4096 \<le> 1048576"
    using assms by (simp add: word_le_nat_alt GEM_MEMORY_MAX_PAGES_def unat_div)
  then have n: "unat n < 4294971392" by linarith
  then have s: "unat (n + 4096) = unat n + 4096"
    by (subst unat_add_no_wrap) simp_all
  have "b \<le> - 1 - (n + 4096)" using assms(2) by (simp add: diff_diff_eq)
  then show ?thesis using s unfolding no_wrap_iff by simp
qed

lemma reserve_scan_loop:
  assumes "n div 4096 \<le> GEM_MEMORY_MAX_PAGES"
  shows "reserve_scan m n b =
    (if at m b \<noteq> None \<and> b \<le> - 1 - n - 4096 then reserve_scan m n (b + 4096) else b)"
  using scan_bound [OF assms] by (subst reserve_scan.simps) (meson if_cong)

text \<open>The scan stops at a free page, or where the range no longer fits.\<close>

lemma reserve_scan_result:
  assumes "n div 4096 \<le> GEM_MEMORY_MAX_PAGES"
  shows "at m (reserve_scan m n b) = None \<or> \<not> reserve_scan m n b \<le> - 1 - n - 4096"
  using assms
proof (induction m n b rule: reserve_scan.induct)
  case (1 m n b)
  show ?case
  proof (cases "at m b \<noteq> None \<and> b \<le> - 1 - n - 4096 \<and> b \<le> - 1 - 4096")
    case True
    then have "reserve_scan m n b = reserve_scan m n (b + 4096)"
      by (subst reserve_scan.simps) simp
    then show ?thesis using 1 True by simp
  next
    case False
    then have "reserve_scan m n b = b" by (subst reserve_scan.simps) (rule if_not_P)
    moreover have "\<not> (at m b \<noteq> None \<and> b \<le> - 1 - n - 4096)" if "at m b \<noteq> None"
      using False scan_bound [OF 1(2)] that by blast
    ultimately show ?thesis by metis
  qed
qed

end
