(* ===== verification/Gem_Memory_Inv.thy ===== *)
theory Gem_Memory_Inv
  imports Gem_Page_Ranges
begin

text \<open>
  The invariant of the page table and the primitive steps that keep it: the hashed index agrees
  with the page list, every backing's reference count is the number of pages that hold it plus the
  references in flight, reservations are whole, and no dangling pointer has been followed.

  A reference in flight is one that an operation has taken and not yet stored in a page, or that a
  transaction keeps; \<open>pins\<close> counts them. It is an integer because \<open>drop(p->backing)\<close> runs before
  \<open>p->backing = NULL\<close>: between the two the page holds a reference that has already been returned.
\<close>

section \<open>The invariant\<close>

definition index_on :: "page_ref list \<Rightarrow> gem_memory \<Rightarrow> bool" where
  "index_on l m \<longleftrightarrow> distinct l \<and> dom (page_heap m) = set l \<and>
     (\<forall>r p r' p'. page_heap m r = Some p \<longrightarrow> page_heap m r' = Some p' \<longrightarrow> address p = address p' \<longrightarrow> r = r') \<and>
     (\<forall>j. distinct (page_buckets m j) \<and>
          set (page_buckets m j) = {r. \<exists>p. page_heap m r = Some p \<and> page_bucket (address p) = j}) \<and>
     (\<forall>r. heap_count m \<le> r \<longrightarrow> page_heap m r = None)"

definition index_ok :: "gem_memory \<Rightarrow> bool" where
  "index_ok m = index_on (pages m) m"

text \<open>The pages that hold a reference to a backing, and the count stored in the backing.\<close>

definition holders :: "(page_ref \<Rightarrow> page option) \<Rightarrow> backing_ref \<Rightarrow> page_ref set" where
  "holders h b = {r. Option.bind (h r) page_backing = Some b}"

definition ref_count :: "gem_memory \<Rightarrow> backing_ref \<Rightarrow> nat" where
  "ref_count m b = (case backing_heap m b of None \<Rightarrow> 0 | Some k \<Rightarrow> refs k)"

definition refs_ok :: "(backing_ref \<Rightarrow> int) \<Rightarrow> gem_memory \<Rightarrow> bool" where
  "refs_ok pins m \<longleftrightarrow>
     (\<forall>b. int (ref_count m b) = int (card (holders (page_heap m) b)) + pins b) \<and>
     (\<forall>b k. backing_heap m b = Some k \<longrightarrow> 0 < refs k \<and> (external k \<longleftrightarrow> (\<exists>h. bk_data k = Host h))) \<and>
     (\<forall>b. heap_count m \<le> b \<longrightarrow> backing_heap m b = None)"

text \<open>Base and size of the reservation that each mapped page belongs to.\<close>

definition resv :: "gem_memory \<Rightarrow> u64 \<Rightarrow> (u64 \<times> u64) option" where
  "resv m a = map_option (\<lambda>p. (reservation_base p, reservation_size p)) (page_at m a)"

definition resv_wf :: "(u64 \<Rightarrow> (u64 \<times> u64) option) \<Rightarrow> bool" where
  "resv_wf R \<longleftrightarrow> (\<forall>a b n. R a = Some (b, n) \<longrightarrow>
     range_ok b n \<and> a \<in> set (page_addrs b n) \<and> (\<forall>x \<in> set (page_addrs b n). R x = Some (b, n)))"

definition mem_ok :: "(backing_ref \<Rightarrow> int) \<Rightarrow> gem_memory \<Rightarrow> bool" where
  "mem_ok pins m \<longleftrightarrow> index_ok m \<and> refs_ok pins m \<and> \<not> crashed m"

abbreviation no_pins :: "backing_ref \<Rightarrow> int" where
  "no_pins \<equiv> (\<lambda>_. 0)"

text \<open>The invariant between two public calls; \<open>pins\<close> are the references of open transactions.\<close>

definition memory_inv :: "(backing_ref \<Rightarrow> int) \<Rightarrow> gem_memory \<Rightarrow> bool" where
  "memory_inv pins m \<longleftrightarrow> mem_ok pins m \<and> (\<forall>b. 0 \<le> pins b) \<and> resv_wf (resv m)"

section \<open>The index is a map\<close>

lemma find_unique:
  assumes u: "\<And>y. y \<in> set xs \<Longrightarrow> P y \<Longrightarrow> y = x"
  shows "find P xs = Some x \<longleftrightarrow> x \<in> set xs \<and> P x"
proof
  assume x: "x \<in> set xs \<and> P x"
  then obtain y where y: "find P xs = Some y" by (metis find_None_iff not_Some_eq)
  then have "y \<in> set xs" "P y" by (auto simp: find_Some_iff)
  then have "y = x" by (rule u)
  then show "find P xs = Some x" using y by (simp only:)
next
  assume "find P xs = Some x"
  then show "x \<in> set xs \<and> P x" by (auto simp: find_Some_iff)
qed

text \<open>The facts of \<open>index_on\<close>, one by one.\<close>

lemma index_onD:
  assumes "index_on l m"
  shows index_on_distinct: "distinct l"
    and index_on_dom: "dom (page_heap m) = set l"
    and index_on_inj: "page_heap m r = Some p \<Longrightarrow> page_heap m r' = Some p' \<Longrightarrow> address p = address p' \<Longrightarrow> r = r'"
    and index_on_chain_distinct: "distinct (page_buckets m j)"
    and index_on_chain: "r \<in> set (page_buckets m j) \<longleftrightarrow>
          (\<exists>p. page_heap m r = Some p \<and> page_bucket (address p) = j)"
    and index_on_fresh: "heap_count m \<le> r \<Longrightarrow> page_heap m r = None"
  using assms unfolding index_on_def by (blast, blast, blast, blast, blast, blast)

lemma at_on_iff:
  assumes ix: "index_on l m"
  shows "at m a = Some r \<longleftrightarrow> (\<exists>p. page_heap m r = Some p \<and> address p = a)"
proof (cases "map_option address (page_heap m r) = Some a")
  case True
  then obtain p where p: "page_heap m r = Some p" "address p = a" by auto
  have u: "y = r" if "map_option address (page_heap m y) = Some a" for y
    using that p index_on_inj [OF ix, of y _ r p] by auto
  have "at m a = Some r \<longleftrightarrow>
      r \<in> set (page_buckets m (page_bucket a)) \<and> map_option address (page_heap m r) = Some a"
    unfolding at_def by (rule find_unique) (rule u)
  then show ?thesis using p index_on_chain [OF ix] by auto
next
  case False
  then have "at m a \<noteq> Some r" unfolding at_def by (auto simp: find_Some_iff)
  then show ?thesis using False by auto
qed

lemma at_iff:
  "index_ok m \<Longrightarrow> at m a = Some r \<longleftrightarrow> (\<exists>p. page_heap m r = Some p \<and> address p = a)"
  unfolding index_ok_def by (rule at_on_iff)

lemma page_at_iff:
  "index_ok m \<Longrightarrow> page_at m a = Some p \<longleftrightarrow> (\<exists>r. page_heap m r = Some p \<and> address p = a)"
  unfolding page_at_def using at_iff by (auto simp: bind_eq_Some_conv)

lemma page_at_atD:
  assumes "index_ok m" and "at m a = Some r"
  obtains p where "page_heap m r = Some p" "address p = a" "page_at m a = Some p"
  using assms at_iff [of m a r] by (auto simp: page_at_def)

lemma at_None_iff: "index_ok m \<Longrightarrow> at m a = None \<longleftrightarrow> page_at m a = None"
  by (cases "at m a") (auto simp: page_at_def elim: page_at_atD)

lemma page_at_eqI:
  assumes "index_ok m" and "index_ok m'"
    and "\<And>p. (\<exists>r. page_heap m' r = Some p \<and> address p = a) \<longleftrightarrow> q = Some p"
  shows "page_at m' a = q"
  using assms(3) page_at_iff [OF assms(2)] by (metis option.exhaust)

text \<open>The index only reads the addresses of the pages.\<close>

lemma index_on_cong:
  assumes "index_on l m" and "page_buckets m' = page_buckets m"
    and "\<And>r. map_option address (page_heap m' r) = map_option address (page_heap m r)"
    and "heap_count m \<le> heap_count m'"
  shows "index_on l m'"
proof -
  have dom: "dom (page_heap m') = dom (page_heap m)"
    unfolding dom_def using assms(3) by (metis option.map_disc_iff)
  have ex: "(\<exists>p. page_heap m' r = Some p \<and> page_bucket (address p) = j) \<longleftrightarrow>
      (\<exists>p. page_heap m r = Some p \<and> page_bucket (address p) = j)" for r j
    using assms(3) [of r] by (cases "page_heap m r"; cases "page_heap m' r") auto
  have inj: "r = r'" if "page_heap m' r = Some p" "page_heap m' r' = Some p'" "address p = address p'"
    for r p r' p'
  proof -
    have "\<exists>q. page_heap m r = Some q \<and> address q = address p"
      and "\<exists>q. page_heap m r' = Some q \<and> address q = address p"
      using assms(3) [of r] assms(3) [of r'] that
      by (metis map_option_eq_Some option.simps(9))+
    then show ?thesis using assms(1) unfolding index_on_def by metis
  qed
  have none: "page_heap m' r = None" if "heap_count m' \<le> r" for r
    using assms(1,3,4) that unfolding index_on_def by (metis le_trans option.map_disc_iff)
  show ?thesis
    unfolding index_on_def dom assms(2) ex
    using assms(1) inj none unfolding index_on_def by blast
qed

lemma index_ok_cong:
  assumes "index_ok m" and "pages m' = pages m" and "page_buckets m' = page_buckets m"
    and "\<And>r. map_option address (page_heap m' r) = map_option address (page_heap m r)"
    and "heap_count m \<le> heap_count m'"
  shows "index_ok m'"
  using assms index_on_cong unfolding index_ok_def by metis

lemma at_cong:
  assumes "page_buckets m' = page_buckets m"
    and "\<And>r. map_option address (page_heap m' r) = map_option address (page_heap m r)"
  shows "at m' = at m"
  unfolding at_def using assms by auto

section \<open>Views of the page table\<close>

text \<open>
  \<open>layout\<close> is the page table as a map from addresses to pages, without generations. \<open>byte_at\<close> is
  the guest's memory: the byte behind a committed address, read through the page's backing.
\<close>

definition layout :: "gem_memory \<Rightarrow> u64 \<Rightarrow> page option" where
  "layout m a = map_option (\<lambda>p. p\<lparr>generation := 0\<rparr>) (page_at m a)"

definition backing_byte :: "gem_memory \<Rightarrow> backing_ref \<Rightarrow> nat \<Rightarrow> u8 option" where
  "backing_byte m b i = map_option (\<lambda>k. case bk_data k of
       Owned d \<Rightarrow> d i | Host h \<Rightarrow> host_memory m (h + of_nat i)) (backing_heap m b)"

definition byte_at :: "gem_memory \<Rightarrow> u64 \<Rightarrow> u8 option" where
  "byte_at m a = Option.bind (Option.bind (page_at m (page_base a)) page_backing)
     (\<lambda>b. backing_byte m b (unat (a AND 4095)))"

text \<open>Backings that survive from one state to another keep their data; freed blocks are not reused.\<close>

definition bk_frame :: "gem_memory \<Rightarrow> gem_memory \<Rightarrow> bool" where
  "bk_frame m m' \<longleftrightarrow> host_memory m' = host_memory m \<and> heap_count m \<le> heap_count m' \<and>
     (\<forall>b < heap_count m. backing_heap m' b = None \<or>
        (\<exists>k k'. backing_heap m b = Some k \<and> backing_heap m' b = Some k' \<and> k'\<lparr>refs := 0\<rparr> = k\<lparr>refs := 0\<rparr>))"

lemma bk_frame_refl [simp]: "bk_frame m m"
  unfolding bk_frame_def by auto

lemma bk_frame_trans [trans]:
  assumes "bk_frame m m'" and "bk_frame m' m''"
  shows "bk_frame m m''"
proof -
  have "backing_heap m'' b = None \<or>
      (\<exists>k k'. backing_heap m b = Some k \<and> backing_heap m'' b = Some k' \<and> k'\<lparr>refs := 0\<rparr> = k\<lparr>refs := 0\<rparr>)"
    if "b < heap_count m" for b
  proof -
    have "b < heap_count m'" using that assms(1) unfolding bk_frame_def by simp
    then have "backing_heap m'' b = None \<or> (\<exists>k k'. backing_heap m' b = Some k \<and>
        backing_heap m'' b = Some k' \<and> k'\<lparr>refs := 0\<rparr> = k\<lparr>refs := 0\<rparr>)"
      using assms(2) unfolding bk_frame_def by blast
    moreover have "backing_heap m' b = None \<or> (\<exists>k k'. backing_heap m b = Some k \<and>
        backing_heap m' b = Some k' \<and> k'\<lparr>refs := 0\<rparr> = k\<lparr>refs := 0\<rparr>)"
      using that assms(1) unfolding bk_frame_def by blast
    ultimately show ?thesis by (metis option.distinct(1) option.inject)
  qed
  then show ?thesis using assms unfolding bk_frame_def by auto
qed

lemma resv_layout: "resv m a = map_option (\<lambda>p. (reservation_base p, reservation_size p)) (layout m a)"
  by (cases "page_at m a") (simp_all add: resv_def layout_def)

lemma resv_cong: "layout m' = layout m \<Longrightarrow> resv m' = resv m"
  by (simp add: resv_layout fun_eq_iff)

lemma layout_backing:
  "Option.bind (layout m a) page_backing = Option.bind (page_at m a) page_backing"
  by (cases "page_at m a") (simp_all add: layout_def)

section \<open>Reference counting\<close>

definition holds :: "page option \<Rightarrow> backing_ref \<Rightarrow> int" where
  "holds q b = (if Option.bind q page_backing = Some b then 1 else 0)"

lemma holds_simps [simp]:
  "holds None b = 0"
  "holds (Some p) b = (if page_backing p = Some b then 1 else 0)"
  by (simp_all add: holds_def)

lemma finite_holders: "finite (dom h) \<Longrightarrow> finite (holders h b)"
  by (rule finite_subset [of _ "dom h"]) (auto simp: holders_def bind_eq_Some_conv)

lemma card_holders_upd:
  assumes "finite (dom h)"
  shows "int (card (holders (h(r := q)) b)) = int (card (holders h b)) - holds (h r) b + holds q b"
proof -
  let ?H = "holders h b - {r}"
  have fin: "finite ?H" using finite_holders [OF assms] by simp
  have "int (card (if c then insert r H else H)) = int (card H) + (if c then 1 else 0)"
    if "finite H" "r \<notin> H" for c H using that by simp
  from this [OF fin] have add: "int (card (if c then insert r ?H else ?H)) =
      int (card ?H) + (if c then 1 else 0)" for c by blast
  have "holders h b = (if Option.bind (h r) page_backing = Some b then insert r ?H else ?H)"
    by (auto simp: holders_def)
  from arg_cong [OF this, of "\<lambda>s. int (card s)"] add [of "Option.bind (h r) page_backing = Some b"]
  have "int (card (holders h b)) = int (card ?H) + holds (h r) b" by (simp only: holds_def)
  moreover have "holders (h(r := q)) b = (if Option.bind q page_backing = Some b then insert r ?H else ?H)"
    by (auto simp: holders_def)
  from arg_cong [OF this, of "\<lambda>s. int (card s)"] add [of "Option.bind q page_backing = Some b"]
  have "int (card (holders (h(r := q)) b)) = int (card ?H) + holds q b" by (simp only: holds_def)
  ultimately show ?thesis by simp
qed

lemma index_on_finite: "index_on l m \<Longrightarrow> finite (dom (page_heap m))"
  by (simp add: index_on_dom)

lemma refs_okD:
  assumes "refs_ok pins m"
  shows refs_ok_count: "int (ref_count m b) = int (card (holders (page_heap m) b)) + pins b"
    and refs_ok_pos: "backing_heap m b = Some k \<Longrightarrow> 0 < refs k"
    and refs_ok_host: "backing_heap m b = Some k \<Longrightarrow> external k \<longleftrightarrow> (\<exists>h. bk_data k = Host h)"
    and refs_ok_fresh: "heap_count m \<le> b \<Longrightarrow> backing_heap m b = None"
  using assms unfolding refs_ok_def by (blast, blast, blast, blast)

lemma alive_lt: "refs_ok pins m \<Longrightarrow> backing_heap m b = Some k \<Longrightarrow> b < heap_count m"
  using refs_ok_fresh [of pins m b] by (cases "heap_count m \<le> b") auto

lemma backing_alive:
  assumes "refs_ok pins m" and "0 < int (card (holders (page_heap m) b)) + pins b"
  shows "\<exists>k. backing_heap m b = Some k"
  using refs_ok_count [OF assms(1), of b] assms(2) by (auto simp: ref_count_def split: option.splits)

lemma held_alive:
  assumes "refs_ok pins m" and "finite (dom (page_heap m))"
    and "page_heap m r = Some p" and "page_backing p = Some b" and "0 \<le> pins b"
  shows "\<exists>k. backing_heap m b = Some k"
proof (rule backing_alive [OF assms(1)])
  have "r \<in> holders (page_heap m) b" using assms(3,4) by (simp add: holders_def)
  then have "0 < card (holders (page_heap m) b)"
    using finite_holders [OF assms(2)] card_gt_0_iff by blast
  then show "0 < int (card (holders (page_heap m) b)) + pins b" using assms(5) by simp
qed

lemma holders_fresh:
  assumes "refs_ok pins m" and "\<And>b. 0 \<le> pins b" and "finite (dom (page_heap m))"
    and "heap_count m \<le> b"
  shows "holders (page_heap m) b = {}" and "pins b = 0"
proof -
  have "ref_count m b = 0" using refs_ok_fresh [OF assms(1,4)] by (simp add: ref_count_def)
  then have "int (card (holders (page_heap m) b)) + pins b = 0"
    using refs_ok_count [OF assms(1), of b] by simp
  then have "card (holders (page_heap m) b) = 0" "pins b = 0" using assms(2) [of b] by auto
  then show "holders (page_heap m) b = {}" "pins b = 0"
    using finite_holders [OF assms(3)] by auto
qed

lemma index_on_mem_ok: "mem_ok pins m \<Longrightarrow> index_ok m"
  by (simp add: mem_ok_def)

section \<open>Primitive steps\<close>

text \<open>Steps that change neither pages nor backings.\<close>

lemma mem_ok_same:
  assumes "mem_ok pins m" and "pages m' = pages m" "page_buckets m' = page_buckets m"
    "page_heap m' = page_heap m" "backing_heap m' = backing_heap m" "crashed m' = crashed m"
    "heap_count m \<le> heap_count m'"
  shows "mem_ok pins m'"
proof -
  have "index_ok m'" using assms index_ok_cong [of m m'] by (simp add: mem_ok_def)
  then show ?thesis using assms unfolding mem_ok_def refs_ok_def ref_count_def by auto
qed

lemma heap_alloc_cases:
  obtains "heap_alloc m = (Some (heap_count m), m\<lparr>heap_count := Suc (heap_count m)\<rparr>)"
  | "heap_alloc m = (None, m\<lparr>heap_count := Suc (heap_count m)\<rparr>)"
  by (cases "heap_ok m (heap_count m)") (auto simp: heap_alloc_def Let_def)

lemma mem_ok_heap_alloc: "mem_ok pins m \<Longrightarrow> mem_ok pins (m\<lparr>heap_count := Suc (heap_count m)\<rparr>)"
  by (erule mem_ok_same) simp_all

lemma mem_ok_next_gen: "mem_ok pins m \<Longrightarrow> mem_ok pins (snd (next_gen m))"
  by (erule mem_ok_same) (simp_all add: next_gen_def Let_def)

lemma next_gen_frame [simp]:
  "pages (snd (next_gen m)) = pages m" "page_buckets (snd (next_gen m)) = page_buckets m"
  "page_heap (snd (next_gen m)) = page_heap m" "backing_heap (snd (next_gen m)) = backing_heap m"
  "heap_count (snd (next_gen m)) = heap_count m" "host_memory (snd (next_gen m)) = host_memory m"
  "crashed (snd (next_gen m)) = crashed m" "at (snd (next_gen m)) = at m"
  "page_at (snd (next_gen m)) = page_at m" "layout (snd (next_gen m)) = layout m"
  by (auto simp: next_gen_def Let_def at_def page_at_def layout_def fun_eq_iff)

lemma heap_count_frame [simp]:
  "at (m\<lparr>heap_count := c\<rparr>) = at m" "page_at (m\<lparr>heap_count := c\<rparr>) = page_at m"
  "layout (m\<lparr>heap_count := c\<rparr>) = layout m"
  by (auto simp: at_def page_at_def layout_def fun_eq_iff)

text \<open>Rewriting one page object: the references it holds move between the page and \<open>pins\<close>.\<close>

lemma upd_page_eq:
  "page_heap m r = Some p \<Longrightarrow> upd_page m r f = m\<lparr>page_heap := (page_heap m)(r \<mapsto> f p)\<rparr>"
  by (simp add: upd_page_def)

lemma upd_page_step:
  assumes ok: "mem_ok pins m" and r: "at m a = Some r" and p: "page_at m a = Some p"
    and adr: "address (f p) = a"
    and pins: "\<And>b. pins' b = pins b + holds (Some p) b - holds (Some (f p)) b"
  shows "mem_ok pins' (upd_page m r f)" and "at (upd_page m r f) = at m"
    and "page_at (upd_page m r f) = (page_at m)(a \<mapsto> f p)" and "bk_frame m (upd_page m r f)"
    and "backing_heap (upd_page m r f) = backing_heap m"
    and "heap_count (upd_page m r f) = heap_count m"
    and "host_memory (upd_page m r f) = host_memory m"
proof -
  let ?m = "upd_page m r f"
  have ix: "index_ok m" using ok by (simp add: mem_ok_def)
  then have rp: "page_heap m r = Some p" "address p = a"
    using r p page_at_atD by (metis option.inject)+
  note eq = upd_page_eq [OF rp(1), of f]
  have cong: "map_option address (page_heap ?m r') = map_option address (page_heap m r')" for r'
    using rp adr by (simp add: eq)
  have ix': "index_ok ?m" by (rule index_ok_cong [OF ix]) (use cong in \<open>simp_all add: eq\<close>)
  show at: "at ?m = at m" by (rule at_cong) (use cong in \<open>simp_all add: eq\<close>)
  show "page_at ?m = (page_at m)(a \<mapsto> f p)"
  proof
    fix x
    show "page_at ?m x = ((page_at m)(a \<mapsto> f p)) x"
    proof (cases "at m x")
      case None
      then have "x \<noteq> a" using r by auto
      then show ?thesis using None by (simp add: page_at_def at)
    next
      case (Some r')
      show ?thesis
      proof (cases "x = a")
        case True
        then show ?thesis using r by (simp add: page_at_def at [unfolded eq] eq)
      next
        case False
        then have "r' \<noteq> r" using Some rp at_iff [OF ix, of x r'] by auto
        then show ?thesis using Some False by (simp add: page_at_def at [unfolded eq] eq)
      qed
    qed
  qed
  have fin: "finite (dom (page_heap m))" using ix index_on_finite unfolding index_ok_def by blast
  have ro: "refs_ok pins m" using ok by (simp add: mem_ok_def)
  have "int (card (holders (page_heap ?m) b)) + pins' b = int (card (holders (page_heap m) b)) + pins b" for b
    using card_holders_upd [OF fin, of r "Some (f p)" b] by (simp add: eq rp pins)
  then have "refs_ok pins' ?m" using ro unfolding refs_ok_def ref_count_def by (simp add: eq)
  then show "mem_ok pins' ?m" using ok ix' by (simp add: mem_ok_def eq)
  show "bk_frame m ?m" by (auto simp: bk_frame_def eq)
  show "backing_heap ?m = backing_heap m" "heap_count ?m = heap_count m" "host_memory ?m = host_memory m"
    by (simp_all add: eq)
qed

text \<open>Changing the backing heap alone.\<close>

lemma backing_heap_frame [simp]:
  "at (m\<lparr>backing_heap := B\<rparr>) = at m" "page_at (m\<lparr>backing_heap := B\<rparr>) = page_at m"
  "layout (m\<lparr>backing_heap := B\<rparr>) = layout m"
  by (auto simp: at_def page_at_def layout_def fun_eq_iff)

definition refs_of :: "backing option \<Rightarrow> int" where
  "refs_of k = (case k of None \<Rightarrow> 0 | Some k \<Rightarrow> int (refs k))"

lemma refs_of_simps [simp]: "refs_of None = 0" "refs_of (Some k) = int (refs k)"
  by (simp_all add: refs_of_def)

lemma backing_upd_step:
  assumes ok: "mem_ok pins m" and b: "b < heap_count m"
    and q: "\<And>k. q = Some k \<Longrightarrow> 0 < refs k \<and> (external k \<longleftrightarrow> (\<exists>h. bk_data k = Host h))"
    and pins: "\<And>x. pins' x = pins x + (if x = b then refs_of q - refs_of (backing_heap m b) else 0)"
  shows "mem_ok pins' (m\<lparr>backing_heap := (backing_heap m)(b := q)\<rparr>)"
proof -
  let ?m = "m\<lparr>backing_heap := (backing_heap m)(b := q)\<rparr>"
  have ro: "refs_ok pins m" and ix: "index_ok m" using ok by (simp_all add: mem_ok_def)
  have "index_ok ?m" by (rule index_ok_cong [OF ix]) simp_all
  moreover have "int (ref_count ?m x) = int (card (holders (page_heap ?m) x)) + pins' x" for x
    using refs_ok_count [OF ro, of x]
    by (auto simp: ref_count_def pins refs_of_def split: option.splits)
  then have "refs_ok pins' ?m" unfolding refs_ok_def
    using refs_ok_pos [OF ro] refs_ok_host [OF ro] refs_ok_fresh [OF ro] q b by auto
  ultimately show ?thesis using ok by (simp add: mem_ok_def)
qed

text \<open>\<open>drop\<close> gives one reference back and frees the backing with the last one.\<close>

lemma drop_backing_step:
  assumes ok: "mem_ok pins m" and k: "backing_heap m b = Some k"
    and pins: "\<And>x. pins' x = pins x - (if x = b then 1 else 0)"
  shows "mem_ok pins' (drop_backing m (Some b))" and "at (drop_backing m (Some b)) = at m"
    and "page_at (drop_backing m (Some b)) = page_at m" and "bk_frame m (drop_backing m (Some b))"
    and "heap_count (drop_backing m (Some b)) = heap_count m"
    and "page_heap (drop_backing m (Some b)) = page_heap m"
    and "pages (drop_backing m (Some b)) = pages m"
proof -
  have ro: "refs_ok pins m" using ok by (simp add: mem_ok_def)
  have b: "b < heap_count m" by (rule alive_lt [OF ro k])
  have pos: "0 < refs k" and host: "external k \<longleftrightarrow> (\<exists>h. bk_data k = Host h)"
    using refs_ok_pos [OF ro k] refs_ok_host [OF ro k] by auto
  define q where "q = (if refs k - 1 = 0 then None else Some (k\<lparr>refs := refs k - 1\<rparr>))"
  have eq: "drop_backing m (Some b) = m\<lparr>backing_heap := (backing_heap m)(b := q)\<rparr>"
    by (simp add: drop_backing_def k q_def)
  show "mem_ok pins' (drop_backing m (Some b))" unfolding eq
    by (rule backing_upd_step [OF ok b])
      (use pos host in \<open>auto simp: q_def k pins split: if_splits\<close>)
  show "at (drop_backing m (Some b)) = at m" "page_at (drop_backing m (Some b)) = page_at m"
    "heap_count (drop_backing m (Some b)) = heap_count m"
    "page_heap (drop_backing m (Some b)) = page_heap m"
    "pages (drop_backing m (Some b)) = pages m"
    by (simp_all add: eq)
  show "bk_frame m (drop_backing m (Some b))"
    by (auto simp: bk_frame_def eq q_def k)
qed

lemma incref_step:
  assumes ok: "mem_ok pins m" and k: "backing_heap m b = Some k"
    and pins: "\<And>x. pins' x = pins x + (if x = b then 1 else 0)"
  shows "mem_ok pins' (incref m b)" and "at (incref m b) = at m"
    and "page_at (incref m b) = page_at m" and "bk_frame m (incref m b)"
    and "heap_count (incref m b) = heap_count m" and "page_heap (incref m b) = page_heap m"
proof -
  have ro: "refs_ok pins m" using ok by (simp add: mem_ok_def)
  have b: "b < heap_count m" by (rule alive_lt [OF ro k])
  have host: "external k \<longleftrightarrow> (\<exists>h. bk_data k = Host h)" by (rule refs_ok_host [OF ro k])
  have eq: "incref m b = m\<lparr>backing_heap := (backing_heap m)(b := Some (k\<lparr>refs := Suc (refs k)\<rparr>))\<rparr>"
    by (simp add: incref_def upd_backing_def k)
  show "mem_ok pins' (incref m b)" unfolding eq
    by (rule backing_upd_step [OF ok b]) (use host in \<open>auto simp: k pins\<close>)
  show "at (incref m b) = at m" "page_at (incref m b) = page_at m"
    "heap_count (incref m b) = heap_count m" "page_heap (incref m b) = page_heap m"
    by (simp_all add: eq)
  show "bk_frame m (incref m b)" by (auto simp: bk_frame_def eq k)
qed

text \<open>A new backing starts with one reference in flight; failure changes nothing but the heap counter.\<close>

definition fresh_backing :: "u64 option \<Rightarrow> u64 \<Rightarrow> backing" where
  "fresh_backing host g = \<lparr>bk_data = (case host of None \<Rightarrow> Owned (\<lambda>_. 0) | Some h \<Rightarrow> Host h),
     refs = 1, bk_generation = g, external = (host \<noteq> None)\<rparr>"

lemma new_backing_cases:
  obtains c where "new_backing m host = (None, m\<lparr>heap_count := c\<rparr>)" "heap_count m \<le> c"
  | b c where "new_backing m host = (Some b, m\<lparr>heap_count := c,
        backing_heap := (backing_heap m)(b \<mapsto> fresh_backing host (heap_garbage m b))\<rparr>)"
      "b = heap_count m" "b < c"
proof -
  let ?c = "if host = None then Suc (Suc (heap_count m)) else Suc (heap_count m)"
  have eq: "new_backing m host = (if \<not> heap_ok m (heap_count m) then (None, m\<lparr>heap_count := Suc (heap_count m)\<rparr>)
      else if host = None \<and> \<not> heap_ok m (Suc (heap_count m)) then (None, m\<lparr>heap_count := Suc (Suc (heap_count m))\<rparr>)
      else (Some (heap_count m), m\<lparr>heap_count := ?c,
        backing_heap := (backing_heap m)(heap_count m \<mapsto> fresh_backing host (heap_garbage m (heap_count m)))\<rparr>))"
    by (cases host) (simp_all add: new_backing_def heap_alloc_def fresh_backing_def Let_def)
  show thesis
    by (cases "heap_ok m (heap_count m) \<and> (host = None \<longrightarrow> heap_ok m (Suc (heap_count m)))")
      (use that(1) [of "Suc (heap_count m)"] that(1) [of "Suc (Suc (heap_count m))"] that(2) [of "heap_count m" ?c] eq in \<open>auto split: if_splits\<close>)
qed

lemma new_backing_step:
  assumes ok: "mem_ok pins m" and nb: "new_backing m host = (bo, m')"
    and pins: "\<And>x. pins' x = pins x + (if bo = Some x then 1 else 0)"
  shows "mem_ok pins' m'" and "at m' = at m" and "page_at m' = page_at m" and "bk_frame m m'"
    and "page_heap m' = page_heap m"
    and "bo = Some b \<Longrightarrow> b = heap_count m"
    and "bo = Some b \<Longrightarrow> backing_heap m' b = Some (fresh_backing host (heap_garbage m b))"
    and "bo = Some b \<Longrightarrow> b < heap_count m'"
    and "bo = None \<Longrightarrow> backing_heap m' = backing_heap m"
    and "bo = Some b \<Longrightarrow> backing_heap m' = (backing_heap m)(b \<mapsto> fresh_backing host (heap_garbage m b))"
proof -
  have ro: "refs_ok pins m" using ok by (simp add: mem_ok_def)
  have "mem_ok pins' m' \<and> at m' = at m \<and> page_at m' = page_at m \<and> bk_frame m m' \<and>
    page_heap m' = page_heap m \<and>
    (case bo of None \<Rightarrow> backing_heap m' = backing_heap m
       | Some b \<Rightarrow> b = heap_count m \<and> b < heap_count m' \<and>
           backing_heap m' = (backing_heap m)(b \<mapsto> fresh_backing host (heap_garbage m b)))"
  proof (cases rule: new_backing_cases [of m host])
    case (1 c)
    then have m': "m' = m\<lparr>heap_count := c\<rparr>" "bo = None" using nb by auto
    have "mem_ok pins m'" by (rule mem_ok_same [OF ok]) (use 1 in \<open>simp_all add: m'\<close>)
    moreover have "pins' = pins" using pins by (simp add: m' fun_eq_iff)
    ultimately show ?thesis using 1 by (auto simp: m' bk_frame_def)
  next
    case (2 b c)
    let ?k = "fresh_backing host (heap_garbage m b)"
    have m': "m' = m\<lparr>heap_count := c, backing_heap := (backing_heap m)(b \<mapsto> ?k)\<rparr>" "bo = Some b"
      using nb 2 by auto
    have ok1: "mem_ok pins (m\<lparr>heap_count := c\<rparr>)"
      by (rule mem_ok_same [OF ok]) (use 2 in simp_all)
    have none: "backing_heap m b = None" using refs_ok_fresh [OF ro] 2 by simp
    have "m' = (m\<lparr>heap_count := c\<rparr>)\<lparr>backing_heap :=
        (backing_heap (m\<lparr>heap_count := c\<rparr>))(b := Some ?k)\<rparr>" by (simp add: m')
    moreover have "mem_ok pins' \<dots>"
      by (rule backing_upd_step [OF ok1])
        (use 2 none in \<open>auto simp: fresh_backing_def pins m' split: option.splits\<close>)
    ultimately have "mem_ok pins' m'" by simp
    then show ?thesis using 2 by (auto simp: m' bk_frame_def)
  qed
  then show "mem_ok pins' m'" "at m' = at m" "page_at m' = page_at m" "bk_frame m m'"
    "page_heap m' = page_heap m"
    "bo = Some b \<Longrightarrow> b = heap_count m"
    "bo = Some b \<Longrightarrow> backing_heap m' b = Some (fresh_backing host (heap_garbage m b))"
    "bo = Some b \<Longrightarrow> b < heap_count m'"
    "bo = None \<Longrightarrow> backing_heap m' = backing_heap m"
    "bo = Some b \<Longrightarrow> backing_heap m' = (backing_heap m)(b \<mapsto> fresh_backing host (heap_garbage m b))"
    by auto
qed

end
