(* ===== verification/Gem_Memory_Steps.thy ===== *)
theory Gem_Memory_Steps
  imports Gem_Memory_Inv
begin

text \<open>
  The compound steps of the page-table operations (touching, removing, building and publishing
  pages, and sweeping an operation over the pages of a range), each shown to keep the invariant of
  \<open>Gem_Memory_Inv\<close> and to have its effect on the views of that theory.
\<close>

lemma option_ext: "(\<And>r. x = Some r \<longleftrightarrow> y = Some r) \<Longrightarrow> x = y"
  by (cases x; cases y) auto

lemma bk_frame_same:
  "backing_heap m' = backing_heap m \<Longrightarrow> host_memory m' = host_memory m \<Longrightarrow>
    heap_count m \<le> heap_count m' \<Longrightarrow> bk_frame m m'"
  unfolding bk_frame_def by auto

section \<open>Touching a page\<close>

text \<open>\<open>touch_page\<close> only changes the generation.\<close>

lemma touch_page_step:
  assumes ok: "mem_ok pins m" and r: "at m a = Some r" and p: "page_at m a = Some p"
  shows "mem_ok pins (touch_page m r)" and "at (touch_page m r) = at m"
    and "page_at (touch_page m r) = (page_at m)(a \<mapsto> p\<lparr>generation := next_generation m + 1\<rparr>)"
    and "bk_frame m (touch_page m r)" and "backing_heap (touch_page m r) = backing_heap m"
    and "heap_count (touch_page m r) = heap_count m"
    and "host_memory (touch_page m r) = host_memory m"
    and "layout (touch_page m r) = layout m"
proof -
  have eq: "touch_page m r =
      upd_page (snd (next_gen m)) r (\<lambda>p. p\<lparr>generation := next_generation m + 1\<rparr>)"
    by (simp add: touch_page_def next_gen_def Let_def)
  have "address p = a"
    using ok p page_at_iff [of m a p] by (auto simp: mem_ok_def)
  note st = upd_page_step [OF mem_ok_next_gen [OF ok], of a r p
      "\<lambda>p. p\<lparr>generation := next_generation m + 1\<rparr>" pins, folded eq]
  have sides: "at (snd (next_gen m)) a = Some r" "page_at (snd (next_gen m)) a = Some p"
    "address (p\<lparr>generation := next_generation m + 1\<rparr>) = a"
    "\<And>b. pins b = pins b + holds (Some p) b - holds (Some (p\<lparr>generation := next_generation m + 1\<rparr>)) b"
    using r p \<open>address p = a\<close> by simp_all
  note st = st [OF sides]
  show "mem_ok pins (touch_page m r)" by (rule st)
  show "at (touch_page m r) = at m" using st by simp
  show pa: "page_at (touch_page m r) = (page_at m)(a \<mapsto> p\<lparr>generation := next_generation m + 1\<rparr>)"
    using st by simp
  show "bk_frame m (touch_page m r)" using st(4) by (simp add: bk_frame_def)
  show "backing_heap (touch_page m r) = backing_heap m"
    "heap_count (touch_page m r) = heap_count m" "host_memory (touch_page m r) = host_memory m"
    using st by simp_all
  show "layout (touch_page m r) = layout m"
    using p by (auto simp: layout_def pa fun_eq_iff)
qed

section \<open>Removing pages\<close>

lemma pages_frame [simp]:
  "at (m\<lparr>pages := l\<rparr>) = at m" "page_at (m\<lparr>pages := l\<rparr>) = page_at m"
  "layout (m\<lparr>pages := l\<rparr>) = layout m"
  by (auto simp: at_def page_at_def layout_def fun_eq_iff)

lemma index_on_pages [simp]: "index_on l (m\<lparr>pages := l'\<rparr>) = index_on l m"
  by (simp add: index_on_def)

lemma drop_backing_pages: "drop_backing (m\<lparr>pages := l\<rparr>) b = (drop_backing m b)\<lparr>pages := l\<rparr>"
  by (simp add: drop_backing_def crash_def split: option.splits)

lemma index_on_remove:
  assumes ix: "index_on (l1 @ r # l2) m" and r: "page_heap m r = Some p"
  shows "index_on (l1 @ l2) (m\<lparr>page_heap := (page_heap m)(r := None),
     page_buckets := (page_buckets m)(page_bucket (address p) :=
       remove1 r (page_buckets m (page_bucket (address p))))\<rparr>)"
proof -
  have "distinct (l1 @ l2)" and "dom ((page_heap m)(r := None)) = set (l1 @ l2)"
    using index_on_distinct [OF ix] index_on_dom [OF ix] by auto
  moreover have "set (remove1 r (page_buckets m j)) = set (page_buckets m j) - {r}" for j
    using index_on_chain_distinct [OF ix] by (rule set_remove1_eq)
  ultimately show ?thesis
    unfolding index_on_def
    using index_on_chain_distinct [OF ix] index_on_chain [OF ix] index_on_fresh [OF ix] r
      index_on_inj [OF ix]
    by (auto simp: distinct_remove1)
qed

lemma free_page_step:
  assumes ok: "mem_ok pins (m\<lparr>pages := l1 @ r # l2\<rparr>)" and r: "page_heap m r = Some p"
    and nn: "\<And>b. 0 \<le> pins b"
  shows "mem_ok pins ((free_page m r p)\<lparr>pages := l1 @ l2\<rparr>)"
    and "page_heap (free_page m r p) = (page_heap m)(r := None)"
    and "bk_frame m (free_page m r p)"
proof -
  let ?j = "page_bucket (address p)"
  let ?m0 = "m\<lparr>pages := l1 @ r # l2\<rparr>"
  let ?m1 = "m\<lparr>page_heap := (page_heap m)(r := None),
     page_buckets := (page_buckets m)(?j := remove1 r (page_buckets m ?j))\<rparr>"
  have ix: "index_on (l1 @ r # l2) ?m0" and ro: "refs_ok pins ?m0"
    using ok by (simp_all add: mem_ok_def index_ok_def)
  have chain: "r \<in> set (page_buckets m ?j)" using index_on_chain [OF ix, of r ?j] r by auto
  have eq: "free_page m r p = drop_backing ?m1 (page_backing p)"
    by (cases "page_backing p"; cases "backing_heap m (the (page_backing p))")
      (simp_all add: free_page_def unindex_page_def Let_def r chain drop_backing_def crash_def)
  define pins1 where "pins1 = (\<lambda>b. pins b + holds (Some p) b)"
  have "index_on (l1 @ r # l2) m" using ix by (simp only: index_on_pages)
  then have "index_on (l1 @ l2) ?m1" using r by (rule index_on_remove)
  moreover have fin: "finite (dom (page_heap m))" using index_on_finite [OF ix] by simp
  have "int (card (holders ((page_heap m)(r := None)) b)) + pins1 b =
      int (card (holders (page_heap m) b)) + pins b" for b
    using card_holders_upd [OF fin, of r None b] r by (simp add: pins1_def)
  then have "refs_ok pins1 (?m1\<lparr>pages := l1 @ l2\<rparr>)"
    using ro unfolding refs_ok_def ref_count_def by simp
  ultimately have ok1: "mem_ok pins1 (?m1\<lparr>pages := l1 @ l2\<rparr>)"
    using ok unfolding mem_ok_def index_ok_def by (simp only: index_on_pages gem_memory.simps) simp
  have "mem_ok pins (drop_backing (?m1\<lparr>pages := l1 @ l2\<rparr>) (page_backing p)) \<and>
      page_heap (drop_backing ?m1 (page_backing p)) = (page_heap m)(r := None) \<and>
      bk_frame m (drop_backing ?m1 (page_backing p))"
  proof (cases "page_backing p")
    case None
    then have "pins1 = pins" by (simp add: pins1_def)
    then show ?thesis using ok1 None by (simp add: drop_backing_def bk_frame_same)
  next
    case (Some b)
    have "\<exists>k. backing_heap ?m0 b = Some k"
      by (rule held_alive [OF ro]) (use fin r Some nn in auto)
    then obtain k where k: "backing_heap (?m1\<lparr>pages := l1 @ l2\<rparr>) b = Some k" by auto
    have "\<And>x. pins x = pins1 x - (if x = b then 1 else 0)" using Some by (simp add: pins1_def)
    note st = drop_backing_step [OF ok1 k this]
    then show ?thesis using Some by (simp add: drop_backing_pages bk_frame_def)
  qed
  then show "mem_ok pins ((free_page m r p)\<lparr>pages := l1 @ l2\<rparr>)"
    "page_heap (free_page m r p) = (page_heap m)(r := None)" "bk_frame m (free_page m r p)"
    by (simp_all add: eq drop_backing_pages)
qed

abbreviation in_range :: "u64 \<Rightarrow> u64 \<Rightarrow> u64 \<Rightarrow> bool" where
  "in_range a n x \<equiv> a \<le> x \<and> x < a + n"

lemma remove_walk_step:
  assumes "mem_ok pins (m\<lparr>pages := pre @ rs\<rparr>)" and "\<And>b. 0 \<le> pins b"
    and "remove_walk a n rs m = (l, m')"
  shows "mem_ok pins (m'\<lparr>pages := pre @ l\<rparr>) \<and> bk_frame m m' \<and>
    (\<forall>r. page_heap m' r = (if r \<in> set rs \<and> (\<exists>p. page_heap m r = Some p \<and> in_range a n (address p))
       then None else page_heap m r))"
  using assms
proof (induction rs arbitrary: m pre l m')
  case Nil
  then show ?case by simp
next
  case (Cons r rs)
  have ix: "index_on (pre @ r # rs) (m\<lparr>pages := pre @ r # rs\<rparr>)"
    using Cons.prems(1) by (simp add: mem_ok_def index_ok_def)
  have "r \<in> dom (page_heap m)" using index_on_dom [OF ix] by simp
  then obtain p where p: "page_heap m r = Some p" by blast
  have nr: "r \<notin> set rs" using index_on_distinct [OF ix] by simp
  show ?case
  proof (cases "in_range a n (address p)")
    case True
    note fr = free_page_step [OF Cons.prems(1) p Cons.prems(2)]
    have "remove_walk a n rs (free_page m r p) = (l, m')" using Cons.prems(3) p True by simp
    from Cons.IH [OF fr(1) Cons.prems(2) this]
    show ?thesis using fr p True nr bk_frame_trans by auto
  next
    case False
    then obtain l' where w: "remove_walk a n rs m = (l', m')" "l = r # l'"
      using Cons.prems(3) p by (auto split: prod.splits)
    have "mem_ok pins (m\<lparr>pages := (pre @ [r]) @ rs\<rparr>)" using Cons.prems(1) by simp
    from Cons.IH [OF this Cons.prems(2) w(1)] show ?thesis using w p False nr by auto
  qed
qed

lemma remove_pages_step:
  assumes ok: "mem_ok pins m" and nn: "\<And>b. 0 \<le> pins b"
  shows "mem_ok pins (remove_pages m a n)" and "bk_frame m (remove_pages m a n)"
    and "page_at (remove_pages m a n) x = (if in_range a n x then None else page_at m x)"
proof -
  obtain l m' where w: "remove_walk a n (pages m) m = (l, m')" by fastforce
  have "mem_ok pins (m\<lparr>pages := [] @ pages m\<rparr>)" using ok by simp
  note st = remove_walk_step [OF this nn w]
  have eq: "remove_pages m a n = m'\<lparr>pages := l\<rparr>" by (simp add: remove_pages_def w)
  show ok': "mem_ok pins (remove_pages m a n)" using st by (simp add: eq)
  show "bk_frame m (remove_pages m a n)" using st by (simp add: eq bk_frame_def)
  have ix: "index_ok m" and ix': "index_ok (remove_pages m a n)" using ok ok' by (simp_all add: mem_ok_def)
  have dom: "page_heap m r = Some p \<Longrightarrow> r \<in> set (pages m)" for r p
    using ix index_on_dom [of "pages m" m] unfolding index_ok_def by blast
  show "page_at (remove_pages m a n) x = (if in_range a n x then None else page_at m x)"
  proof (rule page_at_eqI [OF ix ix'])
    fix p
    have "page_heap (remove_pages m a n) r = Some p \<longleftrightarrow>
        page_heap m r = Some p \<and> \<not> in_range a n (address p)" for r
    proof -
      have "page_heap (remove_pages m a n) r = (if r \<in> set (pages m) \<and>
          (\<exists>p. page_heap m r = Some p \<and> in_range a n (address p)) then None else page_heap m r)"
        using st by (simp add: eq)
      then show ?thesis using dom by (cases "page_heap m r") auto
    qed
    then have "(\<exists>r. page_heap (remove_pages m a n) r = Some p \<and> address p = x) \<longleftrightarrow>
        (\<exists>r. page_heap m r = Some p \<and> address p = x) \<and> \<not> in_range a n x" by blast
    also have "\<dots> \<longleftrightarrow> (if in_range a n x then None else page_at m x) = Some p"
      using page_at_iff [OF ix, of x p] by auto
    finally show "(\<exists>r. page_heap (remove_pages m a n) r = Some p \<and> address p = x) \<longleftrightarrow>
        (if in_range a n x then None else page_at m x) = Some p" .
  qed
qed

section \<open>Building and publishing pages\<close>

text \<open>
  A list of new page objects may be published when their block numbers and addresses are new and
  distinct. The references they hold leave \<open>pins\<close>.
\<close>

definition pub_ok :: "gem_memory \<Rightarrow> (page_ref \<times> page) list \<Rightarrow> bool" where
  "pub_ok m head \<longleftrightarrow> distinct (map fst head) \<and> distinct (map (address \<circ> snd) head) \<and>
     (\<forall>(r, p) \<in> set head. page_heap m r = None \<and> r < heap_count m \<and> at m (address p) = None)"

definition head_refs :: "(page_ref \<times> page) list \<Rightarrow> backing_ref \<Rightarrow> int" where
  "head_refs head b = sum_list (map (\<lambda>(r, p). holds (Some p) b) head)"

lemma head_refs_simps [simp]:
  "head_refs [] b = 0"
  "head_refs ((r, p) # head) b = holds (Some p) b + head_refs head b"
  by (simp_all add: head_refs_def)

lemma head_refs_nonneg: "0 \<le> head_refs head b"
  by (induction head) auto

definition head_map :: "(page_ref \<times> page) list \<Rightarrow> u64 \<Rightarrow> page option" where
  "head_map head = map_of (map (\<lambda>(r, p). (address p, p)) head)"

lemma head_map_simps [simp]:
  "head_map [] = Map.empty"
  "head_map ((r, p) # head) = (head_map head)(address p \<mapsto> p)"
  by (simp_all add: head_map_def)

lemma index_on_insert:
  assumes ix: "index_on l m" and r: "page_heap m r = None" "r < heap_count m"
    and a: "at m (address p) = None"
  shows "index_on (r # l) (m\<lparr>page_heap := (page_heap m)(r \<mapsto> p),
     page_buckets := (page_buckets m)(page_bucket (address p) :=
       r # page_buckets m (page_bucket (address p)))\<rparr>)"
proof -
  have new: "address q \<noteq> address p" if "page_heap m r' = Some q" for r' q
    using at_on_iff [OF ix, of "address p" r'] a that by auto
  have nr: "r \<notin> set (page_buckets m j)" for j using index_on_chain [OF ix] r by simp
  have dom: "dom ((page_heap m)(r \<mapsto> p)) = set (r # l)" and dist: "distinct (r # l)"
    using index_on_distinct [OF ix] index_on_dom [OF ix] r(1) by auto
  have inj: "r1 = r2" if "((page_heap m)(r \<mapsto> p)) r1 = Some p1" "((page_heap m)(r \<mapsto> p)) r2 = Some p2"
    "address p1 = address p2" for r1 r2 p1 p2
    using that new index_on_inj [OF ix] by (auto split: if_splits)
  let ?B = "(page_buckets m)(page_bucket (address p) := r # page_buckets m (page_bucket (address p)))"
  have chain: "distinct (?B j) \<and>
      set (?B j) = {r'. \<exists>q. ((page_heap m)(r \<mapsto> p)) r' = Some q \<and> page_bucket (address q) = j}" for j
  proof -
    have "set (?B j) = (if page_bucket (address p) = j then {r} else {}) \<union> set (page_buckets m j)" by auto
    moreover have "distinct (?B j)" using nr index_on_chain_distinct [OF ix] by simp
    ultimately show ?thesis using index_on_chain [OF ix] r(1) by auto
  qed
  have fresh: "((page_heap m)(r \<mapsto> p)) r' = None" if "heap_count m \<le> r'" for r'
    using that r(2) index_on_fresh [OF ix] by auto
  show ?thesis unfolding index_on_def
    using dom dist inj chain fresh by (simp del: fun_upd_apply)
qed

lemma publish_one_step:
  assumes ok: "mem_ok pins m" and r: "page_heap m r = None" "r < heap_count m"
    and a: "at m (address p) = None" and pins: "\<And>b. pins' b = pins b - holds (Some p) b"
  defines "m' \<equiv> index_page (m\<lparr>page_heap := (page_heap m)(r \<mapsto> p), pages := r # pages m\<rparr>) r"
  shows "mem_ok pins' m'" and "page_at m' = (page_at m)(address p \<mapsto> p)"
    and "backing_heap m' = backing_heap m" and "host_memory m' = host_memory m"
    and "heap_count m' = heap_count m" and "page_heap m' = (page_heap m)(r \<mapsto> p)"
    and "at m' = (at m)(address p \<mapsto> r)"
proof -
  let ?j = "page_bucket (address p)"
  let ?m1 = "m\<lparr>page_heap := (page_heap m)(r \<mapsto> p),
     page_buckets := (page_buckets m)(?j := r # page_buckets m ?j)\<rparr>"
  have eq: "m' = ?m1\<lparr>pages := r # pages m\<rparr>"
    by (simp add: m'_def index_page_def Let_def)
  have ix: "index_ok m" and ro: "refs_ok pins m" using ok by (simp_all add: mem_ok_def)
  have "index_on (r # pages m) ?m1"
    using ix r a unfolding index_ok_def by (rule index_on_insert)
  then have ix': "index_ok m'" unfolding index_ok_def eq by simp
  have fin: "finite (dom (page_heap m))" using ix index_on_finite unfolding index_ok_def by blast
  have "int (card (holders ((page_heap m)(r \<mapsto> p)) b)) + pins' b =
      int (card (holders (page_heap m) b)) + pins b" for b
    using card_holders_upd [OF fin, of r "Some p" b] r by (simp add: pins)
  then have "refs_ok pins' m'" using ro unfolding refs_ok_def ref_count_def by (simp add: eq)
  then show ok': "mem_ok pins' m'" using ok ix' by (simp add: mem_ok_def eq)
  show "backing_heap m' = backing_heap m" "host_memory m' = host_memory m"
    "heap_count m' = heap_count m" and ph: "page_heap m' = (page_heap m)(r \<mapsto> p)"
    by (simp_all add: eq)
  have new: "address q \<noteq> address p" if "page_heap m r' = Some q" for r' q
    using at_iff [OF ix, of "address p" r'] a that by auto
  have "at m' x = Some r' \<longleftrightarrow> ((at m)(address p \<mapsto> r)) x = Some r'" for x r'
    using at_iff [OF ix', of x r'] at_iff [OF ix, of x r'] new r by (auto simp: ph)
  then show at: "at m' = (at m)(address p \<mapsto> r)" by (intro ext option_ext)
  show "page_at m' = (page_at m)(address p \<mapsto> p)"
  proof
    fix x
    have "at m x \<noteq> Some r" using at_iff [OF ix, of x r] r by simp
    then show "page_at m' x = ((page_at m)(address p \<mapsto> p)) x"
      by (cases "at m x") (auto simp: page_at_def at ph)
  qed
qed

lemma publish_pages_step:
  assumes "mem_ok pins m" and "pub_ok m head" and "\<And>b. pins' b = pins b - head_refs head b"
  shows "mem_ok pins' (publish_pages m head) \<and>
    page_at (publish_pages m head) = page_at m ++ head_map head \<and>
    backing_heap (publish_pages m head) = backing_heap m \<and>
    host_memory (publish_pages m head) = host_memory m \<and>
    heap_count (publish_pages m head) = heap_count m"
  using assms
proof (induction head arbitrary: m pins)
  case Nil
  then have "pins' = pins" by (simp add: fun_eq_iff)
  then show ?case using Nil by simp
next
  case (Cons rp head)
  obtain r p where rp: "rp = (r, p)" by fastforce
  let ?m = "index_page (m\<lparr>page_heap := (page_heap m)(r \<mapsto> p), pages := r # pages m\<rparr>) r"
  have pre: "page_heap m r = None" "r < heap_count m" "at m (address p) = None"
    using Cons.prems(2) by (auto simp: pub_ok_def rp)
  note st = publish_one_step [OF Cons.prems(1) pre, of "\<lambda>b. pins b - holds (Some p) b", OF refl]
  have "pub_ok ?m head"
    using Cons.prems(2) unfolding pub_ok_def rp by (auto simp: st image_iff split: prod.splits)
  moreover have "\<And>b. pins' b = pins b - holds (Some p) b - head_refs head b"
    using Cons.prems(3) by (simp add: rp)
  ultimately have ih: "mem_ok pins' (publish_pages ?m head) \<and>
    page_at (publish_pages ?m head) = page_at ?m ++ head_map head \<and>
    backing_heap (publish_pages ?m head) = backing_heap ?m \<and>
    host_memory (publish_pages ?m head) = host_memory ?m \<and>
    heap_count (publish_pages ?m head) = heap_count ?m"
    by (rule Cons.IH [OF st(1)])
  have "address p \<notin> dom (head_map head)"
    using Cons.prems(2) by (auto simp: pub_ok_def rp head_map_def dom_map_of_conv_image_fst image_iff)
  then have "page_at ?m ++ head_map head = page_at m ++ head_map ((r, p) # head)"
    by (simp add: st map_add_upd_left)
  with ih st show ?case unfolding rp publish_pages.simps by metis
qed

section \<open>References in flight\<close>

text \<open>The references held by a C array of backing pointers.\<close>

definition held :: "backing_ref option list \<Rightarrow> backing_ref \<Rightarrow> int" where
  "held bs b = int (count_list bs (Some b))"

lemma held_simps [simp]:
  "held [] b = 0" "held (None # bs) b = held bs b"
  "held (Some c # bs) b = (if c = b then 1 else 0) + held bs b"
  "held (bs @ cs) b = held bs b + held cs b" "held (rev bs) b = held bs b"
  by (simp_all add: held_def)

lemma held_nonneg [simp]: "0 \<le> held bs b"
  by (simp add: held_def)

text \<open>Dropping every entry of such an array gives all of them back.\<close>

lemma drop_list_step:
  assumes "mem_ok (\<lambda>b. pins b + held bs b) m" and "\<And>b. 0 \<le> pins b"
  shows "mem_ok pins (foldl drop_backing m bs) \<and> page_heap (foldl drop_backing m bs) = page_heap m \<and>
    at (foldl drop_backing m bs) = at m \<and> bk_frame m (foldl drop_backing m bs) \<and>
    heap_count (foldl drop_backing m bs) = heap_count m"
  using assms(1)
proof (induction bs arbitrary: m)
  case Nil
  then show ?case by simp
next
  case (Cons bo bs)
  show ?case
  proof (cases bo)
    case None
    then show ?thesis using Cons by (simp add: drop_backing_def)
  next
    case (Some b)
    have ro: "refs_ok (\<lambda>x. pins x + held (bo # bs) x) m" using Cons.prems by (simp add: mem_ok_def)
    have "0 < int (card (holders (page_heap m) b)) + (pins b + held (bo # bs) b)"
      using assms(2) [of b] held_nonneg [of bs b] by (simp add: Some del: held_nonneg)
    then obtain k where k: "backing_heap m b = Some k" using backing_alive [OF ro] by blast
    have "\<And>x. pins x + held bs x = pins x + held (bo # bs) x - (if x = b then 1 else 0)"
      by (simp add: Some)
    note st = drop_backing_step [OF Cons.prems k this]
    have eq: "foldl drop_backing m (bo # bs) = foldl drop_backing (drop_backing m (Some b)) bs"
      by (simp add: Some)
    note ih = Cons.IH [OF st(1)]
    show ?thesis unfolding eq using ih st bk_frame_trans [OF st(4)] by simp
  qed
qed

text \<open>
  The counts determine the backings: two states with the same pages, the same references in flight
  and a frame between them have the same backings.
\<close>

lemma backing_heap_determined:
  assumes ok: "mem_ok pins m" and ok': "mem_ok pins m'" and fr: "bk_frame m m'"
    and ph: "page_heap m' = page_heap m"
  shows "backing_heap m' = backing_heap m"
proof
  fix b
  have ro: "refs_ok pins m" "refs_ok pins m'" using ok ok' by (simp_all add: mem_ok_def)
  have rc: "ref_count m' b = ref_count m b"
    using refs_ok_count [OF ro(1), of b] refs_ok_count [OF ro(2), of b] by (simp add: ph)
  have alive: "backing_heap x b = None \<longleftrightarrow> ref_count x b = 0" if "refs_ok pins x" for x
    using refs_ok_pos [OF that, of b] by (auto simp: ref_count_def split: option.splits)
  show "backing_heap m' b = backing_heap m b"
  proof (cases "backing_heap m b")
    case None
    then show ?thesis using alive [OF ro(1)] alive [OF ro(2)] rc by simp
  next
    case (Some k)
    then obtain k' where k': "backing_heap m' b = Some k'"
      using alive [OF ro(1)] alive [OF ro(2)] rc by fastforce
    have "b < heap_count m" by (rule alive_lt [OF ro(1) Some])
    then have "k'\<lparr>refs := 0\<rparr> = k\<lparr>refs := 0\<rparr>"
      using fr Some k' unfolding bk_frame_def by fastforce
    moreover have "refs k' = refs k" using rc Some k' by (simp add: ref_count_def)
    ultimately have "k' = k" by (cases k; cases k') simp
    then show ?thesis using Some k' by simp
  qed
qed

section \<open>Sweeping an operation over a range\<close>

text \<open>
  Most operations apply one step to each page of a range. The interface: a step, applied to a mapped
  page that satisfies its precondition, rewrites that page alone and consumes \<open>cost\<close> references in
  flight. The client lemma lifts this to the whole range.
\<close>

locale page_sweep =
  fixes step :: "gem_memory \<Rightarrow> 'i \<Rightarrow> gem_memory"
    and key :: "'i \<Rightarrow> u64"
    and eff :: "'i \<Rightarrow> page \<Rightarrow> page"
    and pre :: "'i \<Rightarrow> page \<Rightarrow> bool"
    and cost :: "'i \<Rightarrow> backing_ref \<Rightarrow> int"
  assumes cost_nonneg: "0 \<le> cost i b"
    and step_ok: "mem_ok pins m \<Longrightarrow> (\<And>b. cost i b \<le> pins b) \<Longrightarrow> layout m (key i) = Some p \<Longrightarrow> pre i p \<Longrightarrow>
      mem_ok (\<lambda>b. pins b - cost i b) (step m i) \<and> layout (step m i) = (layout m)(key i \<mapsto> eff i p) \<and>
      bk_frame m (step m i)"
begin

lemma sweep:
  assumes "mem_ok pins m" and "\<And>b. sum_list (map (\<lambda>i. cost i b) is) \<le> pins b"
    and "distinct (map key is)" and "\<And>i. i \<in> set is \<Longrightarrow> \<exists>p. layout m (key i) = Some p \<and> pre i p"
  shows "mem_ok (\<lambda>b. pins b - sum_list (map (\<lambda>i. cost i b) is)) (foldl step m is)"
    and "layout (foldl step m is) x = (case find (\<lambda>i. key i = x) is of
           None \<Rightarrow> layout m x | Some i \<Rightarrow> map_option (eff i) (layout m x))"
    and "bk_frame m (foldl step m is)"
proof -
  have "mem_ok (\<lambda>b. pins b - sum_list (map (\<lambda>i. cost i b) is)) (foldl step m is) \<and>
    layout (foldl step m is) x = (case find (\<lambda>i. key i = x) is of
           None \<Rightarrow> layout m x | Some i \<Rightarrow> map_option (eff i) (layout m x)) \<and> bk_frame m (foldl step m is)"
    using assms
  proof (induction "is" arbitrary: m pins)
    case Nil
    then show ?case by simp
  next
    case (Cons i js)
    obtain p where p: "layout m (key i) = Some p" "pre i p" using Cons.prems(4) by fastforce
    have nn: "0 \<le> sum_list (map (\<lambda>i. cost i b) js)" for b
      by (rule sum_list_nonneg) (use cost_nonneg in auto)
    have "cost i b \<le> pins b" for b using Cons.prems(2) [of b] nn [of b] by simp
    from step_ok [OF Cons.prems(1) this p]
    have st: "mem_ok (\<lambda>b. pins b - cost i b) (step m i)"
      "layout (step m i) = (layout m)(key i \<mapsto> eff i p)" "bk_frame m (step m i)" by auto
    have le: "sum_list (map (\<lambda>i. cost i b) js) \<le> pins b - cost i b" for b
      using Cons.prems(2) [of b] by simp
    have ni: "key i \<notin> key ` set js" using Cons.prems(3) by simp
    have pre': "\<exists>p. layout (step m i) (key j) = Some p \<and> pre j p" if "j \<in> set js" for j
    proof -
      have "key j \<noteq> key i" using ni that by (metis imageI)
      then show ?thesis using Cons.prems(4) [of j] that by (simp add: st)
    qed
    have "distinct (map key js)" using Cons.prems(3) by simp
    note ih = Cons.IH [OF st(1) le this pre']
    have nk: "find (\<lambda>i. key i = x) js = None" if "x = key i"
      unfolding find_None_iff that using ni by (metis imageI)
    show ?case
    proof (intro conjI)
      show "mem_ok (\<lambda>b. pins b - sum_list (map (\<lambda>i. cost i b) (i # js))) (foldl step m (i # js))"
        using ih by (simp add: diff_diff_eq)
      show "bk_frame m (foldl step m (i # js))" using ih bk_frame_trans [OF st(3)] by simp
      show "layout (foldl step m (i # js)) x = (case find (\<lambda>i. key i = x) (i # js) of
          None \<Rightarrow> layout m x | Some i \<Rightarrow> map_option (eff i) (layout m x))"
        using ih nk p by (cases "x = key i") (auto simp: st split: option.splits)
    qed
  qed
  then show "mem_ok (\<lambda>b. pins b - sum_list (map (\<lambda>i. cost i b) is)) (foldl step m is)"
    and "layout (foldl step m is) x = (case find (\<lambda>i. key i = x) is of
           None \<Rightarrow> layout m x | Some i \<Rightarrow> map_option (eff i) (layout m x))"
    and "bk_frame m (foldl step m is)" by auto
qed

end

text \<open>The steps of the operations.\<close>

lemma layout_at:
  assumes "mem_ok pins m" and "layout m a = Some q"
  obtains r p where "at m a = Some r" "page_heap m r = Some p" "address p = a" "page_at m a = Some p"
    "q = p\<lparr>generation := 0\<rparr>"
proof -
  obtain p where p: "page_at m a = Some p" "q = p\<lparr>generation := 0\<rparr>"
    using assms(2) by (auto simp: layout_def)
  then obtain r where r: "at m a = Some r" "page_heap m r = Some p"
    by (auto simp: page_at_def bind_eq_Some_conv)
  moreover have "address p = a"
    using at_iff [of m a r] r assms(1) by (simp add: mem_ok_def)
  ultimately show ?thesis using p that by blast
qed

lemma layout_upd:
  "page_at m' = (page_at m)(a \<mapsto> p) \<Longrightarrow> layout m' = (layout m)(a \<mapsto> p\<lparr>generation := 0\<rparr>)"
  by (auto simp: layout_def)

lemma upd_page_layout:
  assumes ok: "mem_ok pins m" and p: "layout m a = Some q" "at m a = Some r"
    and f: "\<And>p. address (f p) = address p" "\<And>p g. (f p)\<lparr>generation := g\<rparr> = f (p\<lparr>generation := g\<rparr>)"
    and pins: "\<And>b. pins' b = pins b + holds (Some q) b - holds (Some (f q)) b"
  shows "mem_ok pins' (upd_page m r f)" and "layout (upd_page m r f) = (layout m)(a \<mapsto> f q)"
    and "bk_frame m (upd_page m r f)" and "at (upd_page m r f) = at m"
proof -
  obtain r' p where rp: "at m a = Some r'" "address p = a" "page_at m a = Some p"
    "q = p\<lparr>generation := 0\<rparr>" using layout_at [OF ok p(1)] by metis
  have fq: "page_backing (f q) = page_backing (f p)" proof -
    have "page_backing ((f p)\<lparr>generation := 0\<rparr>) = page_backing (f q)" by (simp only: f(2) rp(4))
    then show ?thesis by simp
  qed
  have "\<And>b. pins' b = pins b + holds (Some p) b - holds (Some (f p)) b"
    using pins rp(4) fq by simp
  note st = upd_page_step [of pins m a r p f pins', unfolded f(1), OF ok p(2) rp(3,2) this]
  show "mem_ok pins' (upd_page m r f)" "bk_frame m (upd_page m r f)" "at (upd_page m r f) = at m"
    using st by simp_all
  show "layout (upd_page m r f) = (layout m)(a \<mapsto> f q)"
    using layout_upd [OF st(3)] by (simp add: f(2) rp(4))
qed

lemma touch_layout:
  assumes ok: "mem_ok pins m" and "at m a = Some r"
  shows "mem_ok pins (touch_page m r)" and "layout (touch_page m r) = layout m"
    and "bk_frame m (touch_page m r)" and "at (touch_page m r) = at m"
proof -
  obtain p where "page_at m a = Some p"
    using page_at_atD [OF index_on_mem_ok [OF ok] assms(2)] by blast
  from touch_page_step [OF assms this]
  show "mem_ok pins (touch_page m r)" "layout (touch_page m r) = layout m"
    "bk_frame m (touch_page m r)" "at (touch_page m r) = at m" by simp_all
qed

interpretation protect_sweep: page_sweep "set_protection prot" "\<lambda>a. a"
  "\<lambda>_ p. p\<lparr>protection := prot\<rparr>" "\<lambda>_ _. True" "\<lambda>_ _. 0" for prot
proof
  fix pins m a p
  assume ok: "mem_ok pins m" and p: "layout m a = Some p"
  obtain r where r: "at m a = Some r" using layout_at [OF ok p] by blast
  have "set_protection prot m a = upd_page m r (\<lambda>p. p\<lparr>protection := prot\<rparr>)"
    by (simp add: set_protection_def r)
  then show "mem_ok (\<lambda>b. pins b - 0) (set_protection prot m a) \<and>
      layout (set_protection prot m a) = (layout m)(a \<mapsto> p\<lparr>protection := prot\<rparr>) \<and>
      bk_frame m (set_protection prot m a)"
    using upd_page_layout [OF ok p r, of "\<lambda>p. p\<lparr>protection := prot\<rparr>" pins] by simp
qed simp

interpretation reservation_sweep: page_sweep "set_reservation base sz" "\<lambda>a. a"
  "\<lambda>_ p. p\<lparr>reservation_base := base, reservation_size := sz\<rparr>" "\<lambda>_ _. True" "\<lambda>_ _. 0" for base sz
proof
  fix pins m a p
  assume ok: "mem_ok pins m" and p: "layout m a = Some p"
  obtain r where r: "at m a = Some r" using layout_at [OF ok p] by blast
  let ?f = "\<lambda>p. p\<lparr>reservation_base := base, reservation_size := sz\<rparr>"
  have "set_reservation base sz m a = upd_page m r ?f" by (simp add: set_reservation_def r)
  then show "mem_ok (\<lambda>b. pins b - 0) (set_reservation base sz m a) \<and>
      layout (set_reservation base sz m a) = (layout m)(a \<mapsto> ?f p) \<and>
      bk_frame m (set_reservation base sz m a)"
    using upd_page_layout [OF ok p r, of ?f pins] by simp
qed simp

interpretation touch_sweep: page_sweep touch_at "\<lambda>a. a" "\<lambda>_ p. p" "\<lambda>_ _. True" "\<lambda>_ _. 0"
proof
  fix pins m a p
  assume ok: "mem_ok pins m" and p: "layout m a = Some p"
  obtain r where r: "at m a = Some r" using layout_at [OF ok p] by blast
  show "mem_ok (\<lambda>b. pins b - 0) (touch_at m a) \<and> layout (touch_at m a) = (layout m)(a \<mapsto> p) \<and>
      bk_frame m (touch_at m a)"
    using touch_layout [OF ok r] p by (simp add: touch_at_def r fun_upd_idem)
qed simp

text \<open>A page takes a backing only if it has none: that is the reference the step consumes.\<close>

definition take_backing :: "backing_ref option \<Rightarrow> page \<Rightarrow> page" where
  "take_backing b p = p\<lparr>page_backing := (if page_backing p = None then b else page_backing p)\<rparr>"

interpretation commit_sweep: page_sweep "commit_page prot" fst
  "\<lambda>ab p. (take_backing (snd ab) p)\<lparr>protection := prot\<rparr>"
  "\<lambda>ab p. page_backing p = None \<or> snd ab = None"
  "\<lambda>ab b. if snd ab = Some b then 1 else 0" for prot
proof
  fix pins m and ab :: "u64 \<times> backing_ref option" and p
  assume ok: "mem_ok pins m" and p: "layout m (fst ab) = Some p"
    and pre: "page_backing p = None \<or> snd ab = None"
  obtain a bo where ab: "ab = (a, bo)" by fastforce
  have p': "layout m a = Some p" using p ab by simp
  obtain r where r: "at m a = Some r" using layout_at [OF ok p'] by blast
  let ?f = "\<lambda>p. p\<lparr>page_backing := (if page_backing p = None then bo else page_backing p), protection := prot\<rparr>"
  have eq: "commit_page prot m ab = touch_page (upd_page m r ?f) r"
    by (simp add: commit_page_def ab r)
  let ?pins = "\<lambda>b. pins b - (if snd ab = Some b then 1 else 0)"
  have pins: "\<And>b. ?pins b = pins b + holds (Some p) b - holds (Some (?f p)) b"
    using pre by (cases "page_backing p") (auto simp: ab)
  note st = upd_page_layout [OF ok p' r, of ?f ?pins, OF _ _ pins]
  have st: "mem_ok ?pins (upd_page m r ?f)" "layout (upd_page m r ?f) = (layout m)(a \<mapsto> ?f p)"
    "bk_frame m (upd_page m r ?f)" "at (upd_page m r ?f) = at m"
    by (rule st; simp)+
  note tl = touch_layout [OF st(1), of a r, unfolded st(4), OF r]
  show "mem_ok ?pins (commit_page prot m ab) \<and>
      layout (commit_page prot m ab) = (layout m)(fst ab \<mapsto> (take_backing (snd ab) p)\<lparr>protection := prot\<rparr>) \<and>
      bk_frame m (commit_page prot m ab)"
    unfolding eq using tl st bk_frame_trans [OF st(3) tl(3)] by (simp add: ab take_backing_def)
qed simp

text \<open>\<open>drop(p->backing)\<close> before \<open>p->backing = NULL\<close>: the page's own reference goes through \<open>pins\<close>.\<close>

interpretation decommit_sweep: page_sweep decommit_page "\<lambda>a. a"
  "\<lambda>_ p. p\<lparr>page_backing := None, protection := GEM_PAGE_NOACCESS\<rparr>" "\<lambda>_ _. True" "\<lambda>_ _. 0"
proof
  fix pins m a p
  assume ok: "mem_ok pins m" and nn: "\<And>b. 0 \<le> pins b" and p: "layout m a = Some p"
  obtain r q where r: "at m a = Some r" "page_heap m r = Some q" "p = q\<lparr>generation := 0\<rparr>"
    using layout_at [OF ok p] by metis
  let ?f = "\<lambda>p. p\<lparr>page_backing := None, protection := GEM_PAGE_NOACCESS\<rparr>"
  let ?m = "drop_backing m (page_backing q)"
  have eq: "decommit_page m a = touch_page (upd_page ?m r ?f) r"
    by (simp add: decommit_page_def r)
  let ?pins = "\<lambda>b. pins b - holds (Some p) b"
  have dr: "mem_ok ?pins ?m \<and> layout ?m = layout m \<and> at ?m = at m \<and> bk_frame m ?m"
  proof (cases "page_backing q")
    case None
    then show ?thesis using ok by (simp add: drop_backing_def r)
  next
    case (Some b)
    have "finite (dom (page_heap m))"
      using ok index_on_finite unfolding mem_ok_def index_ok_def by blast
    then obtain k where "backing_heap m b = Some k"
      using held_alive [of pins, OF _ _ r(2) Some nn] ok by (auto simp: mem_ok_def)
    note st = drop_backing_step [OF ok this, of ?pins]
    have "\<And>x. ?pins x = pins x - (if x = b then 1 else 0)" by (simp add: Some r)
    note st = st [OF this]
    then show ?thesis by (simp add: Some layout_def fun_eq_iff)
  qed
  then have p': "layout ?m a = Some p" and r': "at ?m a = Some r" using p r by simp_all
  have "mem_ok pins (upd_page ?m r ?f)" "layout (upd_page ?m r ?f) = (layout ?m)(a \<mapsto> ?f p)"
    "bk_frame ?m (upd_page ?m r ?f)" "at (upd_page ?m r ?f) = at ?m"
    by (rule upd_page_layout [OF _ p' r', of ?pins ?f pins]; use dr in simp)+
  note st = this touch_layout [OF this(1), of a r, unfolded this(4), OF r']
  show "mem_ok (\<lambda>b. pins b - 0) (decommit_page m a) \<and> layout (decommit_page m a) = (layout m)(a \<mapsto> ?f p) \<and>
      bk_frame m (decommit_page m a)"
    unfolding eq using dr st bk_frame_trans [OF _ bk_frame_trans [OF st(3) st(7)]] by simp
qed simp

end
