(* ===== verification/Gem_Memory_Ops.thy ===== *)
theory Gem_Memory_Ops
  imports Gem_Memory_Steps
begin

text \<open>
  What the operations of src/gem/memory.c on the mapping topology do, on every branch: the
  invariant is kept, a failed call leaves pages and backings as they were, and a successful one
  changes the layout of its range alone. Committed bytes that are not part of the range, and the
  bytes of pages that stay committed, keep their values.
\<close>

lemma page_at_cong: "at m' = at m \<Longrightarrow> page_heap m' = page_heap m \<Longrightarrow> page_at m' = page_at m"
  unfolding page_at_def by simp

lemma layout_cong: "page_at m' = page_at m \<Longrightarrow> layout m' = layout m"
  by (simp add: layout_def fun_eq_iff)

section \<open>Building pages\<close>

definition head_layout :: "(page_ref \<times> page) list \<Rightarrow> page list" where
  "head_layout head = map (\<lambda>(r, p). p\<lparr>generation := 0\<rparr>) head"

lemma head_layout_simps [simp]:
  "head_layout [] = []" "head_layout ((r, p) # head) = p\<lparr>generation := 0\<rparr> # head_layout head"
  by (simp_all add: head_layout_def)

lemma map_of_graph: "map_of (map (\<lambda>a. (a, f a)) xs) x = (if x \<in> set xs then Some (f x) else None)"
  by (induction xs) auto

lemma head_map_layout:
  "map_option (\<lambda>p. p\<lparr>generation := 0\<rparr>) (head_map h x) = map_of (map (\<lambda>p. (address p, p)) (head_layout h)) x"
  by (induction h) auto

lemma held_head_refs: "held (map (page_backing \<circ> snd) h) b = head_refs h b"
  by (induction h) (auto simp: held_def)

text \<open>
  \<open>reserve_locked\<close> and \<open>alias_locked\<close> build a private list of page objects before they publish it.
  The interface: making one page takes the references that page holds and changes nothing else.
\<close>

locale page_builder =
  fixes mk :: "gem_memory \<Rightarrow> u64 \<Rightarrow> page \<times> gem_memory"
    and m0 :: gem_memory
    and targets :: "u64 set"
    and proto :: "u64 \<Rightarrow> page"
  assumes mk_ok: "mem_ok pins m \<Longrightarrow> (\<And>b. 0 \<le> pins b) \<Longrightarrow> page_at m = page_at m0 \<Longrightarrow> x \<in> targets \<Longrightarrow>
      mk m x = (p, m1) \<Longrightarrow>
      mem_ok (\<lambda>b. pins b + holds (Some p) b) m1 \<and> page_heap m1 = page_heap m \<and> at m1 = at m \<and>
      heap_count m1 = heap_count m \<and> bk_frame m m1 \<and> p = proto x"
    and proto_address: "address (proto x) = x"
    and proto_generation: "generation (proto x) = 0"
begin

lemma build:
  assumes "mem_ok (\<lambda>b. pins b + head_refs head b) m" and "\<And>b. 0 \<le> pins b"
    and "page_at m = page_at m0" and "set as \<subseteq> targets" and "distinct as"
    and "pub_ok m head" and "\<And>x. x \<in> set as \<Longrightarrow> at m x = None"
    and "set as \<inter> address ` snd ` set head = {}"
    and "build_pages mk as m head = (ro, h, m')"
  defines "h' \<equiv> (case ro of None \<Rightarrow> h | Some l \<Rightarrow> l)"
  shows "mem_ok (\<lambda>b. pins b + head_refs h' b) m' \<and> page_heap m' = page_heap m \<and> at m' = at m \<and>
    bk_frame m m' \<and> pub_ok m' h' \<and>
    (\<exists>as'. head_layout h' = rev (map proto as') @ head_layout head \<and>
       (ro \<noteq> None \<longrightarrow> as' = as))"
  using assms(1-9) unfolding h'_def
proof (induction as arbitrary: m head)
  case Nil
  then have "ro = Some head" "m' = m" by auto
  then show ?case using Nil.prems by auto
next
  case (Cons a as)
  have nnh: "0 \<le> pins b + head_refs head b" for b
    using Cons.prems(2) [of b] head_refs_nonneg [of head b] by simp
  show ?case
  proof (cases rule: heap_alloc_cases [of m])
    case 2
    then have "ro = None" "h = head" and m': "m' = m\<lparr>heap_count := Suc (heap_count m)\<rparr>"
      using Cons.prems(9) by auto
    then show ?thesis
      using mem_ok_heap_alloc [OF Cons.prems(1)] Cons.prems(6)
      by (auto simp: m' bk_frame_same pub_ok_def exI [of _ "[]"] intro!: exI [of _ "[]"])
  next
    case 1
    let ?m1 = "m\<lparr>heap_count := Suc (heap_count m)\<rparr>"
    let ?r = "heap_count m"
    obtain p m2 where mk: "mk ?m1 a = (p, m2)" by fastforce
    have ix: "index_ok m" using Cons.prems(1) by (simp add: mem_ok_def)
    have ok1: "mem_ok (\<lambda>b. pins b + head_refs head b) ?m1" by (rule mem_ok_heap_alloc [OF Cons.prems(1)])
    have "page_at ?m1 = page_at m0" "a \<in> targets" using Cons.prems(3,4) by simp_all
    note mkr = mk_ok [OF ok1 nnh this mk]
    let ?p = "p\<lparr>generation := next_generation m2 + 1\<rparr>"
    let ?m3 = "snd (next_gen m2)"
    let ?head = "(?r, ?p) # head"
    have adr: "address p = a" using mkr proto_address by simp
    have "(\<lambda>b. pins b + head_refs head b + holds (Some p) b) = (\<lambda>b. pins b + head_refs ?head b)"
      by (auto simp: fun_eq_iff)
    then have ok3: "mem_ok (\<lambda>b. pins b + head_refs ?head b) ?m3"
      using mkr mem_ok_next_gen by metis
    have pm3: "page_at ?m3 = page_at m0"
      using mkr Cons.prems(3) page_at_cong [of ?m3 m] by simp
    have "r < heap_count m" if "(r, q) \<in> set head" for r q
      using Cons.prems(6) that by (auto simp: pub_ok_def)
    then have "?r \<notin> fst ` set head" by fastforce
    moreover have "page_heap m ?r = None"
      using ix index_on_fresh unfolding index_ok_def by blast
    ultimately have pub3: "pub_ok ?m3 ?head"
      using Cons.prems(6,7,8) mkr adr unfolding pub_ok_def by (auto simp: image_iff)
    have "set as \<inter> address ` snd ` set ?head = {}"
      using Cons.prems(5,8) adr by auto
    moreover have "build_pages mk as ?m3 ?head = (ro, h, m')"
      using Cons.prems(9) 1 mk by (simp add: next_gen_def Let_def)
    ultimately have ih: "mem_ok (\<lambda>b. pins b + head_refs (case ro of None \<Rightarrow> h | Some l \<Rightarrow> l) b) m' \<and>
      page_heap m' = page_heap ?m3 \<and> at m' = at ?m3 \<and> bk_frame ?m3 m' \<and>
      pub_ok m' (case ro of None \<Rightarrow> h | Some l \<Rightarrow> l) \<and>
      (\<exists>as'. head_layout (case ro of None \<Rightarrow> h | Some l \<Rightarrow> l) =
         rev (map proto as') @ head_layout ?head \<and> (ro \<noteq> None \<longrightarrow> as' = as))"
      using Cons.prems(2-5,7) mkr pm3 by (intro Cons.IH [OF ok3 _ _ _ _ pub3]) simp_all
    have "p\<lparr>generation := 0\<rparr> = proto a" using mkr proto_generation [of a] by (cases "proto a") simp
    moreover have "bk_frame m m'"
    proof -
      have "bk_frame m ?m1" and "bk_frame m2 ?m3" by (rule bk_frame_same; simp)+
      then show ?thesis using ih mkr by (meson bk_frame_trans)
    qed
    moreover obtain as' where "head_layout (case ro of None \<Rightarrow> h | Some l \<Rightarrow> l) =
         rev (map proto as') @ head_layout ?head" "ro \<noteq> None \<longrightarrow> as' = as"
      using ih by blast
    ultimately show ?thesis using ih mkr by (intro conjI exI [of _ "a # as'"]) simp_all
  qed
qed

lemma build_publish:
  assumes ok: "mem_ok pins m" and nn: "\<And>b. 0 \<le> pins b" and m0: "page_at m = page_at m0"
    and as: "set as \<subseteq> targets" "distinct as" "\<And>x. x \<in> set as \<Longrightarrow> at m x = None"
    and b: "build_pages mk as m [] = (Some h, h2, m1)"
  shows "mem_ok pins (publish_pages m1 h)" and "bk_frame m (publish_pages m1 h)"
    and "layout (publish_pages m1 h) x = (if x \<in> set as then Some (proto x) else layout m x)"
proof -
  have "mem_ok (\<lambda>b. pins b + head_refs [] b) m" using ok by simp
  note bu = build [OF this nn m0 as(1,2) _ as(3) _ b]
  have bu: "mem_ok (\<lambda>b. pins b + head_refs h b) m1" "page_heap m1 = page_heap m" "at m1 = at m"
    "bk_frame m m1" "pub_ok m1 h" "head_layout h = rev (map proto as)"
    using bu by (auto simp: pub_ok_def)
  note pu = publish_pages_step [OF bu(1,5), of pins]
  show "mem_ok pins (publish_pages m1 h)" using pu by simp
  have "bk_frame m1 (publish_pages m1 h)" by (rule bk_frame_same) (use pu in simp_all)
  then show "bk_frame m (publish_pages m1 h)" by (rule bk_frame_trans [OF bu(4)])
  have "map_option (\<lambda>p. p\<lparr>generation := 0\<rparr>) (head_map h x) = map_of (map (\<lambda>a. (a, proto a)) (rev as)) x"
    using head_map_layout [of h x] proto_address by (simp add: bu(6) rev_map comp_def)
  also have "\<dots> = (if x \<in> set as then Some (proto x) else None)" by (simp add: map_of_graph)
  finally have hm: "map_option (\<lambda>p. p\<lparr>generation := 0\<rparr>) (head_map h x) =
      (if x \<in> set as then Some (proto x) else None)" .
  have "layout (publish_pages m1 h) x = map_option (\<lambda>p. p\<lparr>generation := 0\<rparr>) ((page_at m ++ head_map h) x)"
    using pu page_at_cong [OF bu(3,2)] by (simp add: layout_def)
  also have "\<dots> = (if x \<in> set as then Some (proto x) else layout m x)"
    using hm by (auto simp: map_add_def layout_def split: option.splits if_splits)
  finally show "layout (publish_pages m1 h) x = (if x \<in> set as then Some (proto x) else layout m x)" .
qed

lemma build_fail:
  assumes ok: "mem_ok pins m" and nn: "\<And>b. 0 \<le> pins b" and m0: "page_at m = page_at m0"
    and as: "set as \<subseteq> targets" "distinct as" "\<And>x. x \<in> set as \<Longrightarrow> at m x = None"
    and b: "build_pages mk as m [] = (None, h, m1)"
  shows "mem_ok (\<lambda>b. pins b + held (map (page_backing \<circ> snd) h) b) m1" and "page_heap m1 = page_heap m"
    and "at m1 = at m" and "bk_frame m m1"
proof -
  have "mem_ok (\<lambda>b. pins b + head_refs [] b) m" using ok by simp
  note bu = build [OF this nn m0 as(1,2) _ as(3) _ b]
  then show "mem_ok (\<lambda>b. pins b + held (map (page_backing \<circ> snd) h) b) m1" "page_heap m1 = page_heap m"
    "at m1 = at m" "bk_frame m m1" unfolding held_head_refs by (auto simp: pub_ok_def)
qed

end

section \<open>Checking a range\<close>

lemma check_pages_OK_iff:
  "check_pages m c as = GEM_MEMORY_OK \<longleftrightarrow>
    (\<forall>a \<in> set as. \<exists>p. page_at m a = Some p \<and> (c \<longrightarrow> page_backing p \<noteq> None))"
  by (induction as) (auto split: option.splits)

lemma check_OK_iff:
  "check m a n c = GEM_MEMORY_OK \<longleftrightarrow> range_ok a n \<and>
    (\<forall>x \<in> set (page_addrs a n). \<exists>p. page_at m x = Some p \<and> (c \<longrightarrow> page_backing p \<noteq> None))"
  by (simp add: check_def check_pages_OK_iff)

lemma check_OK_layout:
  "check m a n c = GEM_MEMORY_OK \<Longrightarrow> x \<in> set (page_addrs a n) \<Longrightarrow> \<exists>p. layout m x = Some p"
  by (auto simp: check_OK_iff layout_def)

text \<open>A failed check is propagated; these are the only errors it gives.\<close>

lemma check_pages_errors:
  "check_pages m c as \<in> {GEM_MEMORY_OK, GEM_MEMORY_NOT_RESERVED, GEM_MEMORY_NOT_COMMITTED}"
  by (induction as) (auto split: option.splits)

section \<open>Unchanged page tables and unchanged bytes\<close>

definition same_map :: "gem_memory \<Rightarrow> gem_memory \<Rightarrow> bool" where
  "same_map m m' \<longleftrightarrow> page_heap m' = page_heap m \<and> at m' = at m \<and>
     backing_heap m' = backing_heap m \<and> host_memory m' = host_memory m"

lemma same_map_refl [simp]: "same_map m m"
  by (simp add: same_map_def)

lemma same_mapI:
  assumes "mem_ok pins m" and "mem_ok pins m'" and "bk_frame m m'"
    and "page_heap m' = page_heap m" and "at m' = at m"
  shows "same_map m m'"
  using assms backing_heap_determined [OF assms(1-4)] by (simp add: same_map_def bk_frame_def)

lemma same_map_views:
  assumes "same_map m m'"
  shows "page_at m' = page_at m" and "layout m' = layout m" and "resv m' = resv m" and "byte_at m' = byte_at m"
proof -
  show pa: "page_at m' = page_at m" using assms unfolding same_map_def by (blast intro: page_at_cong)
  then show la: "layout m' = layout m" by (rule layout_cong)
  then show "resv m' = resv m" by (rule resv_cong)
  have "backing_heap m' = backing_heap m" "host_memory m' = host_memory m"
    using assms by (simp_all add: same_map_def)
  then have "backing_byte m' = backing_byte m" by (intro ext) (simp only: backing_byte_def)
  then show "byte_at m' = byte_at m" by (intro ext) (simp only: byte_at_def pa)
qed

text \<open>A page that keeps its backing keeps its bytes.\<close>

lemma byte_at_frame:
  assumes ok: "mem_ok pins m" and ok': "mem_ok pins' m'" and fr: "bk_frame m m'"
    and nn: "\<And>b. 0 \<le> pins b" "\<And>b. 0 \<le> pins' b"
    and same: "Option.bind (layout m' (page_base x)) page_backing =
      Option.bind (layout m (page_base x)) page_backing"
  shows "byte_at m' x = byte_at m x"
proof (cases "Option.bind (page_at m (page_base x)) page_backing")
  case None
  then show ?thesis using same by (simp add: byte_at_def layout_backing)
next
  case (Some b)
  have alive: "\<exists>k. backing_heap n b = Some k"
    if n: "mem_ok ps n" "\<And>b. 0 \<le> ps b" "Option.bind (page_at n (page_base x)) page_backing = Some b" for n ps
  proof -
    obtain r p where "page_heap n r = Some p" "page_backing p = Some b"
      using n(3) by (auto simp: page_at_def bind_eq_Some_conv)
    moreover have "finite (dom (page_heap n))"
      using n(1) index_on_finite unfolding mem_ok_def index_ok_def by blast
    ultimately show ?thesis using held_alive [of ps n r p b] n(1,2) by (simp add: mem_ok_def)
  qed
  have Some': "Option.bind (page_at m' (page_base x)) page_backing = Some b"
    using same Some by (simp add: layout_backing)
  obtain k k' where k: "backing_heap m b = Some k" and k': "backing_heap m' b = Some k'"
    using alive [OF ok nn(1) Some] alive [OF ok' nn(2) Some'] by blast
  have "b < heap_count m" using ok k alive_lt unfolding mem_ok_def by blast
  then have "k'\<lparr>refs := 0\<rparr> = k\<lparr>refs := 0\<rparr>" and "host_memory m' = host_memory m"
    using fr k k' unfolding bk_frame_def by fastforce+
  moreover from this have "bk_data k' = bk_data k" by (metis backing.select_convs(1) backing.surjective backing.update_convs(2))
  ultimately show ?thesis using Some Some' k k'
    by (cases "bk_data k") (simp_all add: byte_at_def backing_byte_def)
qed

end
