(* ===== verification/Gem_Memory_Specs.thy ===== *)
theory Gem_Memory_Specs
  imports Gem_Memory_Ops
begin

text \<open>
  The contracts of \<open>reserve\<close>, \<open>commit\<close>, \<open>decommit\<close>, \<open>protect\<close>, \<open>release\<close>, \<open>unmap\<close>, \<open>alias\<close> and the
  operations on caller-owned storage, over the views of the page table.
\<close>

section \<open>Reservations\<close>

lemma memory_invD:
  assumes "memory_inv pins m"
  shows inv_mem_ok: "mem_ok pins m" and inv_pins: "0 \<le> pins b" and inv_resv: "resv_wf (resv m)"
    and inv_index: "index_ok m"
  using assms by (simp_all add: memory_inv_def mem_ok_def)

lemma resv_wfD:
  assumes "resv_wf R" and "R a = Some (b, n)"
  shows "range_ok b n" and "a \<in> set (page_addrs b n)" and "x \<in> set (page_addrs b n) \<Longrightarrow> R x = Some (b, n)"
  using assms unfolding resv_wf_def by blast+

lemma resv_wfI:
  assumes "\<And>a b n. R a = Some (b, n) \<Longrightarrow> range_ok b n"
    and "\<And>a b n. R a = Some (b, n) \<Longrightarrow> a \<in> set (page_addrs b n)"
    and "\<And>a b n x. R a = Some (b, n) \<Longrightarrow> x \<in> set (page_addrs b n) \<Longrightarrow> R x = Some (b, n)"
  shows "resv_wf R"
  using assms unfolding resv_wf_def by blast

lemma resv_wf_add:
  assumes wf: "resv_wf R" and b: "range_ok b n" and free: "\<And>x. x \<in> set (page_addrs b n) \<Longrightarrow> R x = None"
  shows "resv_wf (\<lambda>x. if x \<in> set (page_addrs b n) then Some (b, n) else R x)"
proof -
  have "x \<notin> set (page_addrs b n)" if "R a = Some (c, k)" "x \<in> set (page_addrs c k)" for a c k x
    using resv_wfD(3) [OF wf that] free [of x] by (metis option.distinct(1))
  note old = this
  show ?thesis
  proof (rule resv_wfI)
    fix a c k
    assume R: "(if a \<in> set (page_addrs b n) then Some (b, n) else R a) = Some (c, k)"
    show "range_ok c k" "a \<in> set (page_addrs c k)"
      using R b resv_wfD(1) [OF wf, of a] resv_wfD(2) [OF wf, of a]
      by (cases "a \<in> set (page_addrs b n)"; simp)+
    fix x
    assume "x \<in> set (page_addrs c k)"
    then show "(if x \<in> set (page_addrs b n) then Some (b, n) else R x) = Some (c, k)"
      using R old [of a c k x] resv_wfD(3) [OF wf, of a c k x]
      by (cases "a \<in> set (page_addrs b n)") simp_all
  qed
qed

lemma resv_wf_remove:
  assumes wf: "resv_wf R" and ab: "R a = Some (a, n)"
  shows "resv_wf (\<lambda>x. if in_range a n x then None else R x)"
proof -
  have ok: "range_ok a n" by (rule resv_wfD(1) [OF wf ab])
  have "\<not> in_range a n y"
    if "R x = Some (c, k)" "\<not> in_range a n x" "y \<in> set (page_addrs c k)" for x c k y
  proof
    assume "in_range a n y"
    moreover have "aligned y"
      using that(3) mem_page_addrs [OF resv_wfD(1) [OF wf that(1)]] by blast
    ultimately have "y \<in> set (page_addrs a n)" by (simp add: mem_page_addrs [OF ok])
    then have "R y = Some (a, n)" by (rule resv_wfD(3) [OF wf ab])
    then have "(c, k) = (a, n)" using resv_wfD(3) [OF wf that(1,3)] by simp
    then show False using resv_wfD(2) [OF wf that(1)] that(2) mem_page_addrs [OF ok] by simp
  qed
  note out = this
  show ?thesis
  proof (rule resv_wfI)
    fix x c k
    assume "(if in_range a n x then None else R x) = Some (c, k)"
    then have R: "R x = Some (c, k)" "\<not> in_range a n x" by (simp_all split: if_splits)
    show "range_ok c k" "x \<in> set (page_addrs c k)" using resv_wfD(1,2) [OF wf R(1)] .
    fix y
    assume y: "y \<in> set (page_addrs c k)"
    show "(if in_range a n y then None else R y) = Some (c, k)"
      using out [OF R y] resv_wfD(3) [OF wf R(1) y] by (simp only: if_False)
  qed
qed

lemma mapped_aligned:
  assumes "memory_inv pins m" and "page_at m a = Some p"
  shows "aligned a"
proof -
  have R: "resv m a = Some (reservation_base p, reservation_size p)" using assms(2) by (simp add: resv_def)
  note wf = resv_wfD [OF inv_resv [OF assms(1)] R]
  show ?thesis using wf(2) mem_page_addrs [OF wf(1)] by blast
qed

lemma layout_backing_alive:
  assumes "mem_ok pins m" and "\<And>b. 0 \<le> pins b" and "layout m x = Some p" and "page_backing p = Some b"
  shows "\<exists>k. backing_heap m b = Some k"
proof -
  obtain r q where "page_heap m r = Some q" "p = q\<lparr>generation := 0\<rparr>"
    using layout_at [OF assms(1,3)] by metis
  moreover have "finite (dom (page_heap m))"
    using assms(1) index_on_finite unfolding mem_ok_def index_ok_def by blast
  ultimately show ?thesis using held_alive [of pins m r q b] assms by (simp add: mem_ok_def)
qed

section \<open>Reserve\<close>

interpretation reserve_builder: page_builder "reserved_page b n" m0 UNIV
  "\<lambda>x. fst (reserved_page b n m0 x)" for b n m0
  by unfold_locales (auto simp: reserved_page_def)

lemma head_refs_zero: "\<forall>p \<in> set (head_layout h). page_backing p = None \<Longrightarrow> head_refs h b = 0"
  by (induction h) auto

lemma reserve_locked_cases:
  assumes "reserve_locked m (Some a) n = (e, r, m')"
  obtains (early) "e \<noteq> GEM_MEMORY_OK" "r = Some a" "m' = m"
  | (built) b ro h m1 where "range_ok b n" "a \<noteq> 0 \<longrightarrow> b = a" "\<forall>x \<in> set (page_addrs b n). at m x = None"
      "build_pages (reserved_page b n) (page_addrs b n) m [] = (ro, h, m1)"
      "case ro of None \<Rightarrow> e = GEM_MEMORY_NO_MEMORY \<and> r = Some a \<and> m' = m1
        | Some head \<Rightarrow> e = GEM_MEMORY_OK \<and> r = Some b \<and> m' = publish_pages m1 head"
proof -
  let ?b = "if a = 0 then reserve_scan m n 0x100000000 else a"
  obtain ro h m1 where bp: "build_pages (reserved_page ?b n) (page_addrs ?b n) m [] = (ro, h, m1)"
    by (metis prod_cases3)
  show ?thesis
  proof (cases "\<not> (n = 0 \<or> n div 4096 > GEM_MEMORY_MAX_PAGES \<or> n AND 4095 \<noteq> 0) \<and> range_ok ?b n \<and>
      \<not> list_ex (\<lambda>x. at m x \<noteq> None) (page_addrs ?b n)")
    case True
    then have "(case ro of None \<Rightarrow> e = GEM_MEMORY_NO_MEMORY \<and> r = Some a \<and> m' = m1
        | Some head \<Rightarrow> e = GEM_MEMORY_OK \<and> r = Some ?b \<and> m' = publish_pages m1 head)"
      using assms bp by (auto simp: reserve_locked_def Let_def split: option.splits)
    then show ?thesis using built [of ?b ro h m1] True bp by (simp add: list_ex_iff)
  next
    case False
    then show ?thesis using early assms by (auto simp: reserve_locked_def Let_def split: if_splits)
  qed
qed

lemma reserve_ok:
  assumes inv: "memory_inv pins m" and run: "reserve_locked m (Some a) n = (GEM_MEMORY_OK, r, m')"
  obtains b where "r = Some b" "range_ok b n" "a \<noteq> 0 \<longrightarrow> b = a"
    "\<forall>x \<in> set (page_addrs b n). page_at m x = None" "memory_inv pins m'" "bk_frame m m'"
    "layout m' = (\<lambda>x. if x \<in> set (page_addrs b n)
       then Some \<lparr>address = x, reservation_base = b, reservation_size = n, page_backing = None,
                  protection = 0, generation = 0\<rparr>
       else layout m x)"
  using run
proof (cases rule: reserve_locked_cases)
  case (built b ro h m1)
  then obtain head where head: "ro = Some head" "r = Some b" "m' = publish_pages m1 head"
    by (cases ro) auto
  have bp: "build_pages (reserved_page b n) (page_addrs b n) m [] = (Some head, h, m1)"
    using built(4) head(1) by simp
  note st = reserve_builder.build_publish [OF inv_mem_ok [OF inv] inv_pins [OF inv] refl
      subset_UNIV distinct_page_addrs [OF built(1)] _ bp, folded head(3)]
  have free: "\<forall>x \<in> set (page_addrs b n). page_at m x = None"
    using built(3) by (simp add: page_at_def)
  have la: "layout m' = (\<lambda>x. if x \<in> set (page_addrs b n)
       then Some \<lparr>address = x, reservation_base = b, reservation_size = n, page_backing = None,
                  protection = 0, generation = 0\<rparr>
       else layout m x)"
    using st(3) built(3) by (auto simp: reserved_page_def)
  then have "resv m' = (\<lambda>x. if x \<in> set (page_addrs b n) then Some (b, n) else resv m x)"
    by (auto simp: resv_layout)
  moreover have "resv_wf (\<lambda>x. if x \<in> set (page_addrs b n) then Some (b, n) else resv m x)"
    by (rule resv_wf_add [OF inv_resv [OF inv] built(1)]) (use free in \<open>simp add: resv_def\<close>)
  ultimately have "memory_inv pins m'"
    using st(1) built(3) inv_pins [OF inv] by (simp add: memory_inv_def)
  then show ?thesis using that [OF head(2) built(1,2) free _ st(2) la] built(3) by blast
qed simp

lemma reserve_fail:
  assumes inv: "memory_inv pins m" and run: "reserve_locked m (Some a) n = (e, r, m')" and e: "e \<noteq> GEM_MEMORY_OK"
  shows "same_map m m'" and "r = Some a" and "mem_ok pins m'" and "bk_frame m m'"
proof -
  have "same_map m m' \<and> r = Some a \<and> mem_ok pins m' \<and> bk_frame m m'"
    using run
  proof (cases rule: reserve_locked_cases)
    case early
    then show ?thesis using inv_mem_ok [OF inv] by simp
  next
    case (built b ro h m1)
    have ro: "ro = None" "r = Some a" "m' = m1" using built(5) e by (cases ro; simp)+
    then have bp: "build_pages (reserved_page b n) (page_addrs b n) m [] = (None, h, m1)"
      using built(4) by simp
    note bu = reserve_builder.build [of pins "[]" m m "page_addrs b n" b n None h m1]
    have bu: "mem_ok (\<lambda>c. pins c + head_refs h c) m1" "page_heap m1 = page_heap m" "at m1 = at m"
      "bk_frame m m1" "\<exists>as'. head_layout h = rev (map (\<lambda>x. fst (reserved_page b n m x)) as')"
      using bu inv_mem_ok [OF inv] inv_pins [OF inv] distinct_page_addrs [OF built(1)] built(3) bp
      by (auto simp: pub_ok_def)
    then have "head_refs h c = 0" for c by (auto intro!: head_refs_zero simp: reserved_page_def)
    then have ok1: "mem_ok pins m1" using bu(1) by simp
    then show ?thesis using same_mapI [OF inv_mem_ok [OF inv] ok1 bu(4,2,3)] ro bu(4) by simp
  qed
  then show "same_map m m'" "r = Some a" "mem_ok pins m'" "bk_frame m m'" by auto
qed

section \<open>Commit\<close>

text \<open>
  What the allocation phase of a commit produces, entry by entry: nothing where the page already
  has a backing, and otherwise a new one over the given host page (or zeroed, owned storage).
\<close>

definition alloc_entry :: "gem_memory \<Rightarrow> gem_memory \<Rightarrow> (u64 \<Rightarrow> u64 option) \<Rightarrow> u64 \<Rightarrow> backing_ref option \<Rightarrow> bool" where
  "alloc_entry m m' host a bo \<longleftrightarrow> (\<exists>p. page_at m a = Some p \<and>
     (case bo of None \<Rightarrow> page_backing p \<noteq> None
      | Some b \<Rightarrow> page_backing p = None \<and> heap_count m \<le> b \<and>
          (\<exists>g. backing_heap m' b = Some (fresh_backing (host a) g))))"

definition alloc_rel :: "gem_memory \<Rightarrow> gem_memory \<Rightarrow> (u64 \<Rightarrow> u64 option) \<Rightarrow> u64 list \<Rightarrow> backing_ref option list \<Rightarrow> bool" where
  "alloc_rel m m' host as news \<longleftrightarrow> list_all2 (alloc_entry m m' host) as news"

text \<open>What the allocation phase leaves alone.\<close>

definition grows :: "gem_memory \<Rightarrow> gem_memory \<Rightarrow> bool" where
  "grows m m' \<longleftrightarrow> page_heap m' = page_heap m \<and> at m' = at m \<and> host_memory m' = host_memory m \<and>
     heap_count m \<le> heap_count m' \<and> (\<forall>b < heap_count m. backing_heap m' b = backing_heap m b)"

lemma grows_refl [simp]: "grows m m"
  by (simp add: grows_def)

lemma grows_trans: "grows m m' \<Longrightarrow> grows m' m'' \<Longrightarrow> grows m m''"
  unfolding grows_def by (metis order.strict_trans2 order.trans)

lemma grows_frame: "grows m m' \<Longrightarrow> bk_frame m m'"
  unfolding grows_def bk_frame_def by auto

lemma grows_page_at: "grows m m' \<Longrightarrow> page_at m' = page_at m"
  by (rule page_at_cong) (simp_all add: grows_def)

lemma grows_heap_count [simp]: "heap_count m \<le> c \<Longrightarrow> grows m (m\<lparr>heap_count := c\<rparr>)"
  by (simp add: grows_def)

lemma new_backing_grows: "mem_ok pins m \<Longrightarrow> new_backing m host = (bo, m') \<Longrightarrow> grows m m'"
  by (cases rule: new_backing_cases [of m host]) (auto simp: grows_def)

lemma alloc_entry_grows:
  assumes "alloc_entry m1 m' host a bo" and "grows m m1" and "page_at m1 = page_at m"
  shows "alloc_entry m m' host a bo"
  using assms unfolding alloc_entry_def grows_def by (auto split: option.splits)

lemma commit_alloc_step:
  assumes "mem_ok (\<lambda>b. pins b + held bs b) m" and "\<And>b. 0 \<le> pins b"
    and "\<And>a. a \<in> set as \<Longrightarrow> \<exists>p. page_at m a = Some p" and "commit_alloc as m bs = (ro, bs', m')"
  shows "mem_ok (\<lambda>b. pins b + held (case ro of None \<Rightarrow> bs' | Some l \<Rightarrow> l) b) m' \<and> grows m m' \<and>
    (case ro of None \<Rightarrow> True
     | Some l \<Rightarrow> \<exists>news. l = rev bs @ news \<and> alloc_rel m m' (\<lambda>_. None) as news)"
  using assms(1,3,4)
proof (induction as arbitrary: m bs)
  case Nil
  then show ?case by (auto simp: alloc_rel_def)
next
  case (Cons a as)
  obtain p where p: "page_at m a = Some p" using Cons.prems(2) by auto
  show ?case
  proof (cases "page_backing p")
    case (Some c)
    then have "commit_alloc as m (None # bs) = (ro, bs', m')" using Cons.prems(3) p by simp
    from Cons.IH [OF _ _ this]
    have ih: "mem_ok (\<lambda>b. pins b + held (case ro of None \<Rightarrow> bs' | Some l \<Rightarrow> l) b) m' \<and> grows m m' \<and>
      (case ro of None \<Rightarrow> True
       | Some l \<Rightarrow> \<exists>news. l = rev (None # bs) @ news \<and> alloc_rel m m' (\<lambda>_. None) as news)"
      using Cons.prems(1,2) by simp
    have "alloc_entry m m' (\<lambda>_. None) a None" using p Some by (simp add: alloc_entry_def)
    then show ?thesis using ih unfolding alloc_rel_def by (cases ro) auto
  next
    case None
    obtain bo m1 where nb: "new_backing m None = (bo, m1)" by fastforce
    let ?pins = "\<lambda>x. pins x + held bs x + (if bo = Some x then 1 else 0)"
    note st = new_backing_step [OF Cons.prems(1) nb, of ?pins]
    have gr: "grows m m1" by (rule new_backing_grows [OF Cons.prems(1) nb])
    show ?thesis
    proof (cases bo)
      case None': None
      then have "ro = None" "bs' = bs" "m' = m1"
        using Cons.prems(3) p None nb by auto
      then show ?thesis using st(1) gr None' by simp
    next
      case (Some b)
      have "(\<lambda>x. pins x + held (Some b # bs) x) = ?pins" by (auto simp: Some fun_eq_iff)
      then have ok1: "mem_ok (\<lambda>x. pins x + held (Some b # bs) x) m1" using st(1) by simp
      have pm: "page_at m1 = page_at m" by (rule grows_page_at [OF gr])
      have "commit_alloc as m1 (Some b # bs) = (ro, bs', m')"
        using Cons.prems(3) p None nb Some by simp
      from Cons.IH [OF ok1 _ this]
      have ih: "mem_ok (\<lambda>b. pins b + held (case ro of None \<Rightarrow> bs' | Some l \<Rightarrow> l) b) m'" "grows m1 m'"
        "case ro of None \<Rightarrow> True
         | Some l \<Rightarrow> \<exists>news. l = rev (Some b # bs) @ news \<and> alloc_rel m1 m' (\<lambda>_. None) as news"
        using Cons.prems(2) by (auto simp: pm)
      have b: "b = heap_count m" "b < heap_count m1" "backing_heap m1 b = Some (fresh_backing None (heap_garbage m b))"
        using st(6-8) Some by simp_all
      then have "backing_heap m' b = Some (fresh_backing None (heap_garbage m b))"
        using ih(2) by (simp add: grows_def)
      then have "alloc_entry m m' (\<lambda>_. None) a (Some b)" using p None b by (auto simp: alloc_entry_def)
      moreover have "alloc_rel m m' (\<lambda>_. None) as news" if "alloc_rel m1 m' (\<lambda>_. None) as news" for news
        using that alloc_entry_grows [OF _ gr pm] unfolding alloc_rel_def by (rule list_all2_mono)
      ultimately show ?thesis using ih grows_trans [OF gr ih(2)] unfolding alloc_rel_def
        by (cases ro) auto
    qed
  qed
qed

lemma held_zip: "length as = length bs \<Longrightarrow>
    sum_list (map (\<lambda>i. if snd i = Some b then 1 else 0) (zip as bs)) = held bs b"
  by (induction as bs rule: list_induct2) (auto simp: held_def)

lemma find_zip:
  "list_all2 P as bs \<Longrightarrow> distinct as \<Longrightarrow>
    (case find (\<lambda>i. fst i = x) (zip as bs) of None \<Rightarrow> x \<notin> set as | Some i \<Rightarrow> fst i = x \<and> x \<in> set as \<and> P x (snd i))"
  by (induction as bs rule: list_all2_induct) (auto split: option.splits)

definition data_of :: "u64 option \<Rightarrow> backing_data" where
  "data_of host = (case host of None \<Rightarrow> Owned (\<lambda>_. 0) | Some h \<Rightarrow> Host h)"

text \<open>The second phase of a commit stores the new backings and the protection.\<close>

lemma commit_finish:
  assumes ok: "mem_ok (\<lambda>b. pins b + held news b) m1" and nn: "\<And>b. 0 \<le> pins b"
    and al: "alloc_rel m m1 host as news" and dist: "distinct as" and gr: "grows m m1"
    and m': "m' = foldl (commit_page prot) m1 (zip as news)"
  shows "mem_ok pins m'" and "bk_frame m m'" and "x \<notin> set as \<Longrightarrow> layout m' x = layout m x"
    and "x \<in> set as \<Longrightarrow> \<exists>p b. layout m x = Some p \<and>
       layout m' x = Some (p\<lparr>page_backing := Some b, protection := prot\<rparr>) \<and>
       (page_backing p = Some b \<or> page_backing p = None \<and>
         (\<exists>k. backing_heap m' b = Some k \<and> bk_data k = data_of (host x) \<and> external k = (host x \<noteq> None)))"
proof -
  have len: "length as = length news" using al unfolding alloc_rel_def by (rule list_all2_lengthD)
  have la: "layout m1 = layout m" using gr by (intro layout_cong grows_page_at)
  have pre: "\<exists>p. layout m1 (fst i) = Some p \<and> (page_backing p = None \<or> snd i = None)"
    if "i \<in> set (zip as news)" for i
  proof -
    have "alloc_entry m m1 host (fst i) (snd i)"
      using al that len unfolding alloc_rel_def list_all2_iff by (cases i) auto
    then show ?thesis by (auto simp: alloc_entry_def la layout_def split: option.splits)
  qed
  have keys: "distinct (map fst (zip as news))" using dist len by simp
  have cost: "sum_list (map (\<lambda>i. if snd i = Some b then 1 else 0) (zip as news)) \<le> pins b + held news b" for b
    using nn [of b] by (simp add: held_zip [OF len])
  note sw = commit_sweep.sweep [OF ok cost keys pre, of prot, folded m']
  show ok': "mem_ok pins m'" using sw(1) by (simp add: held_zip [OF len])
  show fr: "bk_frame m m'" using sw(3) by (rule bk_frame_trans [OF grows_frame [OF gr]])
  have fz: "case find (\<lambda>i. fst i = x) (zip as news) of None \<Rightarrow> x \<notin> set as
      | Some i \<Rightarrow> fst i = x \<and> x \<in> set as \<and> alloc_entry m m1 host x (snd i)"
    using find_zip [OF al [unfolded alloc_rel_def] dist] .
  show "x \<notin> set as \<Longrightarrow> layout m' x = layout m x"
    using sw(2) [of x] fz by (auto simp: la split: option.splits)
  assume x: "x \<in> set as"
  then obtain i where i: "find (\<lambda>i. fst i = x) (zip as news) = Some i" "alloc_entry m m1 host x (snd i)"
    using fz by (cases "find (\<lambda>i. fst i = x) (zip as news)") auto
  then obtain p where p: "page_at m x = Some p" by (auto simp: alloc_entry_def)
  let ?p = "p\<lparr>generation := 0\<rparr>"
  have lp: "layout m x = Some ?p" by (simp add: layout_def p)
  have lx: "layout m' x = Some ((take_backing (snd i) ?p)\<lparr>protection := prot\<rparr>)"
    using sw(2) [of x] i by (simp add: la lp)
  show "\<exists>p b. layout m x = Some p \<and>
       layout m' x = Some (p\<lparr>page_backing := Some b, protection := prot\<rparr>) \<and>
       (page_backing p = Some b \<or> page_backing p = None \<and>
         (\<exists>k. backing_heap m' b = Some k \<and> bk_data k = data_of (host x) \<and> external k = (host x \<noteq> None)))"
  proof (cases "page_backing p")
    case (Some c)
    then show ?thesis using lp lx by (intro exI [of _ ?p] exI [of _ c]) (simp add: take_backing_def)
  next
    case None
    then obtain b g where b: "snd i = Some b" "backing_heap m1 b = Some (fresh_backing (host x) g)"
      using i(2) p by (auto simp: alloc_entry_def split: option.splits)
    have lb: "layout m' x = Some (?p\<lparr>page_backing := Some b, protection := prot\<rparr>)"
      using lx b None by (simp add: take_backing_def)
    obtain k where k: "backing_heap m' b = Some k"
      using layout_backing_alive [OF ok' nn lb] by auto
    have "b < heap_count m1" using alive_lt [OF _ b(2)] ok by (auto simp: mem_ok_def)
    then have "k\<lparr>refs := 0\<rparr> = (fresh_backing (host x) g)\<lparr>refs := 0\<rparr>"
      using sw(3) b(2) k unfolding bk_frame_def by fastforce
    then have "bk_data k = data_of (host x)" "external k = (host x \<noteq> None)"
      by (cases k; simp add: fresh_backing_def data_of_def)+
    then show ?thesis using lp lb k None by (intro exI [of _ ?p] exI [of _ b]) simp
  qed
qed

end
