(* ===== verification/Gem_Memory_Contracts.thy ===== *)
theory Gem_Memory_Contracts
  imports Gem_Memory_Specs
begin

text \<open>
  The contracts of the remaining topology operations of src/gem/memory.c, over the lemmas of
  \<open>Gem_Memory_Specs\<close>.
\<close>

section \<open>Commit, decommit, protect\<close>

lemma resv_same:
  assumes "\<And>x. map_option (\<lambda>p. (reservation_base p, reservation_size p)) (layout m' x) =
      map_option (\<lambda>p. (reservation_base p, reservation_size p)) (layout m x)"
  shows "resv m' = resv m"
  using assms by (simp add: fun_eq_iff resv_layout)

lemma memory_inv_keep:
  assumes "memory_inv pins m" and "mem_ok pins m'" and "resv m' = resv m"
  shows "memory_inv pins m'"
  using assms by (simp add: memory_inv_def)

lemma same_map_inv: "memory_inv pins m \<Longrightarrow> mem_ok pins m' \<Longrightarrow> same_map m m' \<Longrightarrow> memory_inv pins m'"
  using memory_inv_keep same_map_views(3) by blast

lemma commit_locked_cases:
  assumes "commit_locked m a n prot = (e, m')"
  obtains (early) "e \<noteq> GEM_MEMORY_OK" "m' = m \<or> m' = m\<lparr>heap_count := Suc (heap_count m)\<rparr>"
  | (run) ro bs m1 where "check m a n False = GEM_MEMORY_OK" "prot_ok prot"
      "commit_alloc (page_addrs a n) (m\<lparr>heap_count := Suc (heap_count m)\<rparr>) [] = (ro, bs, m1)"
      "case ro of None \<Rightarrow> e = GEM_MEMORY_NO_MEMORY \<and> m' = foldl drop_backing m1 (rev bs)
       | Some l \<Rightarrow> e = GEM_MEMORY_OK \<and> m' = foldl (commit_page prot) m1 (zip (page_addrs a n) l)"
proof (cases "check m a n False = GEM_MEMORY_OK \<and> prot_ok prot")
  case False
  then show ?thesis using early assms by (auto simp: commit_locked_def Let_def split: if_splits)
next
  case True
  obtain ro bs m1 where ca: "commit_alloc (page_addrs a n) (m\<lparr>heap_count := Suc (heap_count m)\<rparr>) [] = (ro, bs, m1)"
    by (metis prod_cases3)
  show ?thesis
  proof (cases rule: heap_alloc_cases [of m])
    case 1
    then show ?thesis using True ca assms run [OF _ _ ca]
      by (cases ro) (simp_all add: commit_locked_def Let_def)
  next
    case 2
    then show ?thesis using True assms early by (simp add: commit_locked_def Let_def)
  qed
qed

lemma commit_ok:
  assumes inv: "memory_inv pins m" and run: "commit_locked m a n prot = (GEM_MEMORY_OK, m')"
  shows "range_ok a n" and "prot_ok prot" and "memory_inv pins m'" and "bk_frame m m'"
    and "x \<notin> set (page_addrs a n) \<Longrightarrow> layout m' x = layout m x"
    and "x \<in> set (page_addrs a n) \<Longrightarrow> \<exists>p b. layout m x = Some p \<and>
       layout m' x = Some (p\<lparr>page_backing := Some b, protection := prot\<rparr>) \<and>
       (page_backing p = Some b \<or> page_backing p = None \<and>
         (\<exists>k. backing_heap m' b = Some k \<and> bk_data k = Owned (\<lambda>_. 0) \<and> \<not> external k))"
proof -
  from run obtain l bs m1 where c: "check m a n False = GEM_MEMORY_OK" "prot_ok prot"
      "commit_alloc (page_addrs a n) (m\<lparr>heap_count := Suc (heap_count m)\<rparr>) [] = (Some l, bs, m1)"
      "m' = foldl (commit_page prot) m1 (zip (page_addrs a n) l)"
    by (cases rule: commit_locked_cases) (auto split: option.splits)
  let ?m0 = "m\<lparr>heap_count := Suc (heap_count m)\<rparr>"
  show ra: "range_ok a n" and "prot_ok prot" using c(1,2) by (auto simp: check_OK_iff)
  have ok0: "mem_ok (\<lambda>b. pins b + held [] b) ?m0"
    using mem_ok_heap_alloc [OF inv_mem_ok [OF inv]] by simp
  have "\<And>x. x \<in> set (page_addrs a n) \<Longrightarrow> \<exists>p. page_at ?m0 x = Some p"
    using c(1) by (auto simp: check_OK_iff)
  from commit_alloc_step [OF ok0 inv_pins [OF inv] this c(3)]
  have st: "mem_ok (\<lambda>b. pins b + held l b) m1" "grows ?m0 m1" "alloc_rel ?m0 m1 (\<lambda>_. None) (page_addrs a n) l"
    by auto
  note fin = commit_finish [OF st(1) inv_pins [OF inv] st(3) distinct_page_addrs [OF ra] st(2) c(4)]
  show fr: "bk_frame m m'"
    by (rule bk_frame_trans [OF _ fin(2)]) (simp add: grows_frame)
  show out: "layout m' x = layout m x" if "x \<notin> set (page_addrs a n)" for x
    using fin(3) [OF that] by simp
  show inn: "\<exists>p b. layout m x = Some p \<and>
       layout m' x = Some (p\<lparr>page_backing := Some b, protection := prot\<rparr>) \<and>
       (page_backing p = Some b \<or> page_backing p = None \<and>
         (\<exists>k. backing_heap m' b = Some k \<and> bk_data k = Owned (\<lambda>_. 0) \<and> \<not> external k))"
    if "x \<in> set (page_addrs a n)" for x
    using fin(4) [OF that] by (simp add: data_of_def)
  have "resv m' = resv m"
  proof (rule resv_same)
    fix x
    show "map_option (\<lambda>p. (reservation_base p, reservation_size p)) (layout m' x) =
      map_option (\<lambda>p. (reservation_base p, reservation_size p)) (layout m x)"
      using out [of x] inn [of x] by (cases "x \<in> set (page_addrs a n)") auto
  qed
  then show "memory_inv pins m'" by (rule memory_inv_keep [OF inv fin(1)])
qed

lemma commit_fail:
  assumes inv: "memory_inv pins m" and run: "commit_locked m a n prot = (e, m')" and e: "e \<noteq> GEM_MEMORY_OK"
  shows "same_map m m'" and "mem_ok pins m'"
proof -
  have "same_map m m' \<and> mem_ok pins m'" using run
  proof (cases rule: commit_locked_cases)
    case early
    then show ?thesis using inv_mem_ok [OF inv] mem_ok_heap_alloc by (auto simp: same_map_def)
  next
    case (run ro bs m1)
    let ?m0 = "m\<lparr>heap_count := Suc (heap_count m)\<rparr>"
    have ro: "ro = None" "m' = foldl drop_backing m1 (rev bs)" using run(4) e by (cases ro; simp)+
    have ok0: "mem_ok (\<lambda>b. pins b + held [] b) ?m0"
      using mem_ok_heap_alloc [OF inv_mem_ok [OF inv]] by simp
    have "\<And>x. x \<in> set (page_addrs a n) \<Longrightarrow> \<exists>p. page_at ?m0 x = Some p"
      using run(1) by (auto simp: check_OK_iff)
    from commit_alloc_step [OF ok0 inv_pins [OF inv] this run(3)]
    have "mem_ok (\<lambda>b. pins b + held (rev bs) b) m1" and gr: "grows ?m0 m1" by (auto simp: ro)
    from drop_list_step [OF this(1) inv_pins [OF inv], folded ro(2)]
    have "mem_ok pins m'" "page_heap m' = page_heap m" "at m' = at m" "bk_frame m1 m'"
      using gr by (simp_all add: grows_def)
    moreover have "bk_frame m m1"
      by (rule grows_frame, rule grows_trans [OF _ gr]) simp
    ultimately show ?thesis using same_mapI [OF inv_mem_ok [OF inv]] bk_frame_trans by blast
  qed
  then show "same_map m m'" "mem_ok pins m'" by auto
qed

lemma find_eq: "find (\<lambda>a. a = x) as = (if x \<in> set as then Some x else None)"
  by (induction as) auto

lemma decommit_ok:
  assumes inv: "memory_inv pins m" and run: "decommit_locked m a n = (GEM_MEMORY_OK, m')"
  shows "range_ok a n" and "memory_inv pins m'" and "bk_frame m m'"
    and "layout m' x = (if x \<in> set (page_addrs a n)
      then map_option (\<lambda>p. p\<lparr>page_backing := None, protection := GEM_PAGE_NOACCESS\<rparr>) (layout m x)
      else layout m x)"
proof -
  have c: "check m a n False = GEM_MEMORY_OK" "m' = foldl decommit_page m (page_addrs a n)"
    using run by (auto simp: decommit_locked_def Let_def split: if_splits)
  show ra: "range_ok a n" using c(1) by (simp add: check_OK_iff)
  have pre: "\<exists>p. layout m x = Some p \<and> True" if "x \<in> set (page_addrs a n)" for x
    using check_OK_layout [OF c(1) that] by simp
  have "sum_list (map (\<lambda>i. 0 :: int) (page_addrs a n)) \<le> pins b" for b using inv_pins [OF inv, of b] by simp
  note sw = decommit_sweep.sweep [OF inv_mem_ok [OF inv] this _ pre, folded c(2)]
  have dist: "distinct (map (\<lambda>a. a) (page_addrs a n))" using distinct_page_addrs [OF ra] by simp
  show la: "layout m' x = (if x \<in> set (page_addrs a n)
      then map_option (\<lambda>p. p\<lparr>page_backing := None, protection := GEM_PAGE_NOACCESS\<rparr>) (layout m x)
      else layout m x)" for x
    using sw(2) [OF dist, of x] by (auto simp: find_eq)
  show "bk_frame m m'" using sw(3) [OF dist] .
  have "resv m' = resv m" by (rule resv_same) (simp add: la option.map_comp comp_def)
  then show "memory_inv pins m'" using memory_inv_keep [OF inv] sw(1) [OF dist] by simp
qed

lemma decommit_fail: "decommit_locked m a n = (e, m') \<Longrightarrow> e \<noteq> GEM_MEMORY_OK \<Longrightarrow> m' = m"
  by (auto simp: decommit_locked_def Let_def split: if_splits)

lemma protect_ok:
  assumes inv: "memory_inv pins m" and run: "protect_locked m a n prot = (GEM_MEMORY_OK, old, m')"
  shows "range_ok a n" and "prot_ok prot" and "memory_inv pins m'" and "bk_frame m m'"
    and "old = map_option protection (layout m a)"
    and "layout m' x = (if x \<in> set (page_addrs a n) then map_option (\<lambda>p. p\<lparr>protection := prot\<rparr>) (layout m x)
      else layout m x)"
    and "x \<in> set (page_addrs a n) \<Longrightarrow> \<exists>p b. layout m x = Some p \<and> page_backing p = Some b"
proof -
  let ?as = "page_addrs a n"
  let ?m1 = "foldl (set_protection prot) m ?as"
  have c: "check m a n True = GEM_MEMORY_OK" "prot_ok prot" "m' = foldl touch_at ?m1 ?as"
    "old = map_option protection (page_at m a)"
    using run by (auto simp: protect_locked_def Let_def split: if_splits)
  show ra: "range_ok a n" and "prot_ok prot" using c(1,2) by (auto simp: check_OK_iff)
  show "old = map_option protection (layout m a)" by (simp add: c(4) layout_def option.map_comp comp_def)
  show "\<exists>p b. layout m x = Some p \<and> page_backing p = Some b" if "x \<in> set ?as"
    using c(1) that by (fastforce simp: check_OK_iff layout_def)
  have pre: "\<exists>p. layout m x = Some p \<and> True" if "x \<in> set ?as" for x
    using check_OK_layout [OF c(1) that] by simp
  have z: "sum_list (map (\<lambda>i. 0 :: int) ?as) \<le> pins b" for b using inv_pins [OF inv, of b] by simp
  have dist: "distinct (map (\<lambda>a. a) ?as)" using distinct_page_addrs [OF ra] by simp
  note sw = protect_sweep.sweep [OF inv_mem_ok [OF inv] z dist pre, of prot]
  have la1: "layout ?m1 x = (if x \<in> set ?as then map_option (\<lambda>p. p\<lparr>protection := prot\<rparr>) (layout m x)
      else layout m x)" for x using sw(2) [of x] by (auto simp: find_eq)
  have pre1: "\<exists>p. layout ?m1 x = Some p \<and> True" if "x \<in> set ?as" for x
    using pre [OF that] that by (auto simp: la1)
  have ok1: "mem_ok pins ?m1" using sw(1) by simp
  note tw = touch_sweep.sweep [OF ok1 z dist pre1, folded c(3)]
  show la: "layout m' x = (if x \<in> set ?as then map_option (\<lambda>p. p\<lparr>protection := prot\<rparr>) (layout m x)
      else layout m x)" for x
    using tw(2) [of x] la1 [of x] by (auto simp: find_eq option.map_ident)
  show "bk_frame m m'" using bk_frame_trans [OF sw(3) tw(3)] .
  have "resv m' = resv m" by (rule resv_same) (simp add: la option.map_comp comp_def)
  then show "memory_inv pins m'" using memory_inv_keep [OF inv] tw(1) by simp
qed

lemma protect_fail: "protect_locked m a n prot = (e, old, m') \<Longrightarrow> e \<noteq> GEM_MEMORY_OK \<Longrightarrow> m' = m \<and> old = None"
  by (auto simp: protect_locked_def Let_def split: if_splits)

section \<open>Release and unmap\<close>

text \<open>
  \<open>remove_pages\<close> compares addresses only; on the pages of a well-formed table that is the set of
  page addresses of the range.
\<close>

lemma remove_layout:
  assumes inv: "memory_inv pins m" and ra: "range_ok a n"
  shows "layout (remove_pages m a n) x = (if x \<in> set (page_addrs a n) then None else layout m x)"
proof -
  have pa: "page_at (remove_pages m a n) x = (if in_range a n x then None else page_at m x)"
    by (rule remove_pages_step [OF inv_mem_ok [OF inv] inv_pins [OF inv]])
  show ?thesis
  proof (cases "page_at m x")
    case None
    then show ?thesis using pa by (simp add: layout_def)
  next
    case (Some p)
    have "aligned x" by (rule mapped_aligned [OF inv Some])
    then show ?thesis using pa Some by (simp add: layout_def mem_page_addrs [OF ra])
  qed
qed

lemma release_ok:
  assumes inv: "memory_inv pins m" and run: "release_locked m a n = (GEM_MEMORY_OK, m')"
  shows "range_ok a n" and "resv m a = Some (a, n)" and "memory_inv pins m'" and "bk_frame m m'"
    and "layout m' x = (if x \<in> set (page_addrs a n) then None else layout m x)"
proof -
  have c: "check m a n False = GEM_MEMORY_OK" using run by (auto simp: release_locked_def Let_def split: if_splits)
  then show ra: "range_ok a n" by (simp add: check_OK_iff)
  obtain p where p: "page_at m a = Some p" using c first_page [OF ra] by (auto simp: check_OK_iff)
  have m': "m' = remove_pages m a n" and "a = reservation_base p" "n = reservation_size p"
    using run c p by (auto simp: release_locked_def split: if_splits)
  then show R: "resv m a = Some (a, n)" using p by (simp add: resv_def)
  note st = remove_pages_step [OF inv_mem_ok [OF inv] inv_pins [OF inv], of a n, folded m']
  show "bk_frame m m'" by (rule st)
  show "layout m' x = (if x \<in> set (page_addrs a n) then None else layout m x)"
    unfolding m' by (rule remove_layout [OF inv ra])
  have "resv m' = (\<lambda>x. if in_range a n x then None else resv m x)"
    by (simp add: fun_eq_iff resv_def st(3))
  then show "memory_inv pins m'"
    using resv_wf_remove [OF inv_resv [OF inv] R] st(1) inv_pins [OF inv] by (simp add: memory_inv_def)
qed

lemma release_fail:
  assumes "release_locked m a n = (e, m')" and "e \<noteq> GEM_MEMORY_OK"
  shows "m' = m"
  using assms by (auto simp: release_locked_def Let_def split: if_splits option.splits)

text \<open>The pages of a reservation in front of, inside and behind a sub-range.\<close>

lemma sub_range:
  assumes B: "range_ok b k" and A: "range_ok a n" and "b \<le> a" and "a + n \<le> b + k"
  shows "a - b = 0 \<or> range_ok b (a - b)" and "b + k - (a + n) = 0 \<or> range_ok (a + n) (b + k - (a + n))"
    and "unat (a - b) = unat a - unat b" and "unat (b + k - (a + n)) = unat b + unat k - (unat a + unat n)"
    and "b + (a - b) = a" and "(a + n) + (b + k - (a + n)) = b + k"
proof -
  note e = range_ok_end [OF A] range_ok_end [OF B]
  have le: "unat b \<le> unat a" "unat a + unat n \<le> unat b + unat k"
    using assms(3,4) e by (simp_all add: word_le_nat_alt)
  show u1: "unat (a - b) = unat a - unat b" using assms(3) by (rule unat_sub)
  show u2: "unat (b + k - (a + n)) = unat b + unat k - (unat a + unat n)"
    using unat_sub [OF assms(4)] e by simp
  note A' = A [unfolded range_ok_unat] and B' = B [unfolded range_ok_unat]
  have d: "(x - y) mod 4096 = 0" if "x mod 4096 = 0" "y mod 4096 = 0" for x y :: nat
    using that by (meson dvd_diff_nat mod_eq_0_iff_dvd)
  have s: "(x + y) mod 4096 = 0" if "x mod 4096 = 0" "y mod 4096 = 0" for x y :: nat
    using that by (meson dvd_add mod_eq_0_iff_dvd)
  have "unat (a - b) = 0 \<or> range_ok b (a - b)"
    unfolding range_ok_unat u1 using A' B' le d [of "unat a" "unat b"] by auto
  then show "a - b = 0 \<or> range_ok b (a - b)" by (simp add: unat_eq_zero)
  have "unat (b + k - (a + n)) = 0 \<or> range_ok (a + n) (b + k - (a + n))"
    unfolding range_ok_unat u2 e(1)
    using A' B' le d [OF s s, of "unat b" "unat k" "unat a" "unat n"] s [of "unat a" "unat n"] by auto
  then show "b + k - (a + n) = 0 \<or> range_ok (a + n) (b + k - (a + n))" by (simp add: unat_eq_zero)
  show "b + (a - b) = a" "(a + n) + (b + k - (a + n)) = b + k" by simp_all
qed

lemma page_addrs_split:
  assumes B: "range_ok b k" and A: "range_ok a n" and "b \<le> a" and "a + n \<le> b + k"
  shows "x \<in> set (page_addrs b (a - b)) \<longleftrightarrow> x \<in> set (page_addrs b k) \<and> x < a"
    and "x \<in> set (page_addrs (a + n) (b + k - (a + n))) \<longleftrightarrow> x \<in> set (page_addrs b k) \<and> a + n \<le> x"
proof -
  note sr = sub_range [OF assms]
  have ae: "a < a + n" using range_ok_end [OF A] A by (simp add: word_less_nat_alt range_ok_unat)
  show "x \<in> set (page_addrs b (a - b)) \<longleftrightarrow> x \<in> set (page_addrs b k) \<and> x < a"
  proof (cases "a - b = 0")
    case True
    then have "a = b" by simp
    then show ?thesis using mem_page_addrs [OF B, of x] by auto
  next
    case False
    then have "range_ok b (a - b)" using sr(1) by blast
    from mem_page_addrs [OF this, of x] mem_page_addrs [OF B, of x]
    show ?thesis using assms(4) ae by (auto simp: sr(5))
  qed
  show "x \<in> set (page_addrs (a + n) (b + k - (a + n))) \<longleftrightarrow> x \<in> set (page_addrs b k) \<and> a + n \<le> x"
  proof (cases "b + k - (a + n) = 0")
    case True
    then have "b + k = a + n" by simp
    then show ?thesis using mem_page_addrs [OF B, of x] True by auto
  next
    case False
    then have "range_ok (a + n) (b + k - (a + n))" using sr(2) by blast
    from mem_page_addrs [OF this, of x] mem_page_addrs [OF B, of x]
    show ?thesis using assms(3) ae by (auto simp: sr(6))
  qed
qed

lemma resv_wf_split:
  assumes wf: "resv_wf R" and R: "R a = Some (b, k)" and A: "range_ok a n" and le: "b \<le> a" "a + n \<le> b + k"
  shows "resv_wf (\<lambda>x. if x \<in> set (page_addrs a n) then None
    else if x \<in> set (page_addrs b k) then (if x < a then Some (b, a - b) else Some (a + n, b + k - (a + n)))
    else R x)" (is "resv_wf ?R")
proof -
  note B = resv_wfD(1) [OF wf R]
  note sr = sub_range [OF B A le] and sp = page_addrs_split [OF B A le]
  have mA: "x \<in> set (page_addrs a n) \<longleftrightarrow> x \<in> set (page_addrs b k) \<and> a \<le> x \<and> x < a + n" for x
    using mem_page_addrs [OF A, of x] mem_page_addrs [OF B, of x] le by auto
  have out: "y \<notin> set (page_addrs b k)"
    if "R x = Some (c, d)" "x \<notin> set (page_addrs b k)" "y \<in> set (page_addrs c d)" for x y c d
  proof
    assume "y \<in> set (page_addrs b k)"
    then have "R y = Some (b, k)" by (rule resv_wfD(3) [OF wf R])
    then have "(c, d) = (b, k)" using resv_wfD(3) [OF wf that(1,3)] by simp
    then show False using resv_wfD(2) [OF wf that(1)] that(2) by simp
  qed
  have "range_ok c d \<and> x \<in> set (page_addrs c d) \<and> (\<forall>y \<in> set (page_addrs c d). ?R y = Some (c, d))"
    if x: "?R x = Some (c, d)" for x c d
  proof (cases "x \<in> set (page_addrs b k)")
    case False
    then have Rx: "R x = Some (c, d)" using x mA by (auto split: if_splits)
    have "?R y = Some (c, d)" if "y \<in> set (page_addrs c d)" for y
      using out [OF Rx False that] resv_wfD(3) [OF wf Rx that] mA by simp
    then show ?thesis using resv_wfD(1,2) [OF wf Rx] by blast
  next
    case True
    show ?thesis
    proof (cases "x < a")
      case True': True
      then have cd: "c = b" "d = a - b" using x True mA by (auto split: if_splits)
      have "x \<in> set (page_addrs c d)" using sp(1) True True' cd by simp
      moreover have "range_ok c d" using sr(1) calculation cd by auto
      moreover have "?R y = Some (c, d)" if "y \<in> set (page_addrs c d)" for y
        using that sp(1) [of y] mA [of y] cd by auto
      ultimately show ?thesis by blast
    next
      case False
      then have cd: "c = a + n" "d = b + k - (a + n)" "a + n \<le> x"
        using x True mA [of x] by (auto split: if_splits)
      have "x \<in> set (page_addrs c d)" using sp(2) True cd by simp
      moreover have "range_ok c d" using sr(2) calculation cd by auto
      moreover have "?R y = Some (c, d)" if "y \<in> set (page_addrs c d)" for y
      proof -
        have "y \<in> set (page_addrs b k)" "a + n \<le> y" using that sp(2) [of y] cd by auto
        moreover have "a < a + n" using range_ok_end [OF A] A by (simp add: word_less_nat_alt range_ok_unat)
        ultimately show ?thesis using mA [of y] cd by auto
      qed
      ultimately show ?thesis by blast
    qed
  qed
  then show ?thesis unfolding resv_wf_def by blast
qed

text \<open>What \<open>unmap\<close> leaves of a page of the reservation \<open>b\<close>, \<open>k\<close>.\<close>

definition split_page :: "u64 \<Rightarrow> u64 \<Rightarrow> u64 \<Rightarrow> u64 \<Rightarrow> u64 \<Rightarrow> page \<Rightarrow> page" where
  "split_page b k a n x p =
    (if x < a then p\<lparr>reservation_base := b, reservation_size := a - b\<rparr>
     else p\<lparr>reservation_base := a + n, reservation_size := b + k - (a + n)\<rparr>)"

lemma unmap_ok:
  assumes inv: "memory_inv pins m" and run: "unmap_locked m a n = (GEM_MEMORY_OK, m')"
  obtains b k where "resv m a = Some (b, k)" "range_ok a n" "b \<le> a" "a + n \<le> b + k" "memory_inv pins m'" "bk_frame m m'"
    "layout m' = (\<lambda>x. if x \<in> set (page_addrs a n) then None
       else if x \<in> set (page_addrs b k) then map_option (split_page b k a n x) (layout m x) else layout m x)"
proof -
  have c: "check m a n False = GEM_MEMORY_OK" using run by (auto simp: unmap_locked_def Let_def split: if_splits)
  then have A: "range_ok a n" by (simp add: check_OK_iff)
  obtain p where p: "page_at m a = Some p" using c first_page [OF A] by (auto simp: check_OK_iff)
  define b k where "b = reservation_base p" and "k = reservation_size p"
  let ?lo = "page_addrs b (a - b)" and ?hi = "page_addrs (a + n) (b + k - (a + n))"
  let ?m1 = "foldl (set_reservation b (a - b)) m ?lo"
  let ?m2 = "foldl (set_reservation (a + n) (b + k - (a + n))) ?m1 ?hi"
  have m': "m' = remove_pages ?m2 a n" and le: "b \<le> a" "a + n \<le> b + k"
    using run c p by (auto simp: unmap_locked_def Let_def b_def k_def not_less split: if_splits)
  have R: "resv m a = Some (b, k)" by (simp add: resv_def p b_def k_def)
  note wf = inv_resv [OF inv]
  note B = resv_wfD(1) [OF wf R]
  note sr = sub_range [OF B A le] and sp = page_addrs_split [OF B A le]
  have mapped: "\<exists>q. layout m x = Some q" if "x \<in> set (page_addrs b k)" for x
    using resv_wfD(3) [OF wf R that] by (auto simp: resv_layout)
  have dist: "distinct (map (\<lambda>a. a) ?lo)" "distinct (map (\<lambda>a. a) ?hi)"
    using sr(1,2) distinct_page_addrs by auto
  have z: "sum_list (map (\<lambda>i. 0 :: int) l) \<le> pins c" for l :: "u64 list" and c
    using inv_pins [OF inv, of c] by simp
  have "\<exists>q. layout m x = Some q \<and> True" if "x \<in> set ?lo" for x using mapped that by (simp add: sp)
  note s1 = reservation_sweep.sweep [OF inv_mem_ok [OF inv] z dist(1) this, of b "a - b"]
  have ok1: "mem_ok pins ?m1" using s1(1) by simp
  have la1: "layout ?m1 x = (if x \<in> set ?lo
      then map_option (\<lambda>p. p\<lparr>reservation_base := b, reservation_size := a - b\<rparr>) (layout m x) else layout m x)" for x
    using s1(2) [of x] by (auto simp: find_eq)
  have "\<exists>q. layout ?m1 x = Some q \<and> True" if "x \<in> set ?hi" for x
    using mapped [of x] that by (auto simp: sp la1)
  note s2 = reservation_sweep.sweep [OF ok1 z dist(2) this, of "a + n" "b + k - (a + n)"]
  have ok2: "mem_ok pins ?m2" using s2(1) by simp
  have ae: "a < a + n" using range_ok_end [OF A] A by (simp add: word_less_nat_alt range_ok_unat)
  have la2: "layout ?m2 x = (if x \<in> set ?lo \<or> x \<in> set ?hi then map_option (split_page b k a n x) (layout m x)
      else layout m x)" for x
  proof -
    have "\<not> (x < a \<and> a + n \<le> x)" using ae by auto
    then show ?thesis using s2(2) [of x] ae
      by (cases "layout m x") (auto simp: la1 find_eq sp split_page_def)
  qed
  note rp = remove_pages_step [OF ok2 inv_pins [OF inv], of a n, folded m']
  have la: "layout m' = (\<lambda>x. if x \<in> set (page_addrs a n) then None
       else if x \<in> set (page_addrs b k) then map_option (split_page b k a n x) (layout m x) else layout m x)"
  proof
    fix x
    have "layout m' x = (if in_range a n x then None else layout ?m2 x)" using rp(3) [of x] by (simp add: layout_def)
    moreover have "aligned x" if "layout m x = Some q" for q
      using that mapped_aligned [OF inv] by (auto simp: layout_def)
    then have "in_range a n x \<longleftrightarrow> x \<in> set (page_addrs a n)" if "layout m x = Some q" for q
      using that mem_page_addrs [OF A] by blast
    moreover have "x \<in> set ?lo \<or> x \<in> set ?hi \<longleftrightarrow> x \<in> set (page_addrs b k) \<and> x \<notin> set (page_addrs a n)"
      using sp mem_page_addrs [OF A, of x] mem_page_addrs [OF B, of x] by auto
    ultimately show "layout m' x = (if x \<in> set (page_addrs a n) then None
       else if x \<in> set (page_addrs b k) then map_option (split_page b k a n x) (layout m x) else layout m x)"
      by (cases "layout m x") (auto simp: la2)
  qed
  have "resv m' = (\<lambda>x. if x \<in> set (page_addrs a n) then None
    else if x \<in> set (page_addrs b k) then (if x < a then Some (b, a - b) else Some (a + n, b + k - (a + n)))
    else resv m x)"
    using mapped by (fastforce simp: fun_eq_iff resv_layout la split_page_def)
  then have "memory_inv pins m'"
    using resv_wf_split [OF wf R A le] rp(1) inv_pins [OF inv] by (simp add: memory_inv_def)
  moreover have "bk_frame m m'" using s1(3) s2(3) rp(2) bk_frame_trans by blast
  ultimately show ?thesis using that [OF R A le _ _ la] by blast
qed

lemma unmap_fail:
  assumes "unmap_locked m a n = (e, m')" and "e \<noteq> GEM_MEMORY_OK"
  shows "m' = m"
  using assms by (auto simp: unmap_locked_def Let_def split: if_splits option.splits)

end
