(* ===== verification/Gem_Memory_Shared.thy ===== *)
theory Gem_Memory_Shared
  imports Gem_Memory_Contracts
begin

text \<open>
  Contracts of the operations of src/gem/memory.c that share storage: \<open>alias\<close>, \<open>map_identity\<close>,
  \<open>commit_external\<close> (also called for identity commits) and \<open>bind_kuser\<close>.
\<close>

section \<open>Alias\<close>

definition source_backing :: "gem_memory \<Rightarrow> u64 \<Rightarrow> u64 \<Rightarrow> u64 \<Rightarrow> backing_ref option" where
  "source_backing m a s x = Option.bind (page_at m (s + (x - a))) page_backing"

definition aliased_page :: "gem_memory \<Rightarrow> u64 \<Rightarrow> u64 \<Rightarrow> u64 \<Rightarrow> u32 \<Rightarrow> u64 \<Rightarrow> page" where
  "aliased_page m a s n prot x = \<lparr>address = x, reservation_base = a, reservation_size = n,
     page_backing = source_backing m a s x, protection = prot, generation = 0\<rparr>"

interpretation alias_builder: page_builder "alias_page a s n prot" m0
  "{x. source_backing m0 a s x \<noteq> None}" "aliased_page m0 a s n prot" for a s n prot m0
proof unfold_locales
  fix pins m x p m1
  assume ok: "mem_ok pins m" and nn: "\<And>b. 0 \<le> pins b" and pm: "page_at m = page_at m0"
    and x: "x \<in> {x. source_backing m0 a s x \<noteq> None}" and mk: "alias_page a s n prot m x = (p, m1)"
  obtain b where b: "source_backing m0 a s x = Some b" using x by auto
  then have b': "Option.bind (page_at m (s + (x - a))) page_backing = Some b"
    by (simp add: source_backing_def pm)
  then have p: "p = aliased_page m0 a s n prot x" and m1: "m1 = incref m b"
    using mk b by (auto simp: alias_page_def aliased_page_def)
  obtain q where "layout m (s + (x - a)) = Some q" "page_backing q = Some b"
    using b' by (auto simp: layout_def bind_eq_Some_conv)
  then obtain k where k: "backing_heap m b = Some k" using layout_backing_alive [OF ok nn] by blast
  have "\<And>c. pins c + holds (Some p) c = pins c + (if c = b then 1 else 0)"
    by (simp add: p aliased_page_def b)
  note st = incref_step [OF ok k this]
  show "mem_ok (\<lambda>b. pins b + holds (Some p) b) m1 \<and> page_heap m1 = page_heap m \<and> at m1 = at m \<and>
      heap_count m1 = heap_count m \<and> bk_frame m m1 \<and> p = aliased_page m0 a s n prot x"
    unfolding m1 using st p by blast
qed (simp_all add: aliased_page_def)

lemma alias_sources:
  assumes A: "range_ok a n" and c: "check m s n True = GEM_MEMORY_OK"
  shows "set (page_addrs a n) \<subseteq> {x. source_backing m a s x \<noteq> None}"
proof
  fix x
  assume "x \<in> set (page_addrs a n)"
  then obtain j where "j < (unat n + 4095) div 4096" "x = a + of_nat (4096 * j)"
    by (auto simp: page_addrs_def)
  then have "s + (x - a) \<in> set (page_addrs s n)" by (auto simp: page_addrs_def)
  then show "x \<in> {x. source_backing m a s x \<noteq> None}"
    using c by (fastforce simp: check_OK_iff source_backing_def)
qed

lemma alias_locked_cases:
  assumes "alias_locked m a s n prot = (e, m')"
  obtains (early) "e \<noteq> GEM_MEMORY_OK" "m' = m"
  | (built) ro h m1 where "range_ok a n" "prot_ok prot" "check m s n True = GEM_MEMORY_OK"
      "\<forall>x \<in> set (page_addrs a n). at m x = None"
      "build_pages (alias_page a s n prot) (page_addrs a n) m [] = (ro, h, m1)"
      "case ro of None \<Rightarrow> e = GEM_MEMORY_NO_MEMORY \<and> m' = foldl drop_backing m1 (map (page_backing \<circ> snd) h)
        | Some head \<Rightarrow> e = GEM_MEMORY_OK \<and> m' = publish_pages m1 head"
proof (cases "range_ok a n \<and> prot_ok prot \<and> check m s n True = GEM_MEMORY_OK \<and>
    \<not> list_ex (\<lambda>x. at m x \<noteq> None) (page_addrs a n)")
  case False
  then show ?thesis using early assms by (auto simp: alias_locked_def Let_def split: if_splits)
next
  case True
  obtain ro h m1 where "build_pages (alias_page a s n prot) (page_addrs a n) m [] = (ro, h, m1)"
    by (metis prod_cases3)
  then show ?thesis using True assms built [of ro h m1]
    by (cases ro) (simp_all add: alias_locked_def list_ex_iff)
qed

lemma alias_ok:
  assumes inv: "memory_inv pins m" and run: "alias_locked m a s n prot = (GEM_MEMORY_OK, m')"
  shows "range_ok a n" and "prot_ok prot" and "memory_inv pins m'" and "bk_frame m m'"
    and "\<forall>x \<in> set (page_addrs a n). page_at m x = None"
    and "layout m' x = (if x \<in> set (page_addrs a n) then Some (aliased_page m a s n prot x) else layout m x)"
    and "x \<in> set (page_addrs a n) \<Longrightarrow> source_backing m a s x \<noteq> None"
proof -
  from run obtain head h m1 where c: "range_ok a n" "prot_ok prot" "check m s n True = GEM_MEMORY_OK"
      "\<forall>x \<in> set (page_addrs a n). at m x = None"
      "build_pages (alias_page a s n prot) (page_addrs a n) m [] = (Some head, h, m1)"
      "m' = publish_pages m1 head"
    by (cases rule: alias_locked_cases) (auto split: option.splits)
  show "range_ok a n" "prot_ok prot" by (rule c)+
  have free: "\<And>x. x \<in> set (page_addrs a n) \<Longrightarrow> at m x = None" using c(4) by blast
  note src = alias_sources [OF c(1,3)]
  show "x \<in> set (page_addrs a n) \<Longrightarrow> source_backing m a s x \<noteq> None" using src by blast
  note st = alias_builder.build_publish [OF inv_mem_ok [OF inv] inv_pins [OF inv] refl src
      distinct_page_addrs [OF c(1)] free c(5), folded c(6)]
  show fr: "\<forall>x \<in> set (page_addrs a n). page_at m x = None" using free by (simp add: page_at_def)
  show la: "layout m' x = (if x \<in> set (page_addrs a n) then Some (aliased_page m a s n prot x) else layout m x)" for x
    by (rule st(3))
  show "bk_frame m m'" by (rule st(2))
  have "resv m' = (\<lambda>x. if x \<in> set (page_addrs a n) then Some (a, n) else resv m x)"
    by (auto simp: resv_layout la aliased_page_def)
  moreover have "resv_wf (\<lambda>x. if x \<in> set (page_addrs a n) then Some (a, n) else resv m x)"
    by (rule resv_wf_add [OF inv_resv [OF inv] c(1)]) (use fr in \<open>simp add: resv_def\<close>)
  ultimately show "memory_inv pins m'" using st(1) inv_pins [OF inv] by (simp add: memory_inv_def)
qed

lemma alias_fail:
  assumes inv: "memory_inv pins m" and run: "alias_locked m a s n prot = (e, m')" and e: "e \<noteq> GEM_MEMORY_OK"
  shows "same_map m m'" and "mem_ok pins m'"
proof -
  have "same_map m m' \<and> mem_ok pins m'" using run
  proof (cases rule: alias_locked_cases)
    case early
    then show ?thesis using inv_mem_ok [OF inv] by simp
  next
    case (built ro h m1)
    have ro: "ro = None" "m' = foldl drop_backing m1 (map (page_backing \<circ> snd) h)"
      using built(6) e by (cases ro; simp)+
    have bp: "build_pages (alias_page a s n prot) (page_addrs a n) m [] = (None, h, m1)"
      using built(5) ro(1) by simp
    have free: "\<And>x. x \<in> set (page_addrs a n) \<Longrightarrow> at m x = None" using built(4) by blast
    note st = alias_builder.build_fail [OF inv_mem_ok [OF inv] inv_pins [OF inv] refl
        alias_sources [OF built(1,3)] distinct_page_addrs [OF built(1)] free bp]
    from drop_list_step [OF st(1) inv_pins [OF inv], folded ro(2)]
    have "mem_ok pins m'" "page_heap m' = page_heap m" "at m' = at m" "bk_frame m1 m'" using st by simp_all
    then show ?thesis using same_mapI [OF inv_mem_ok [OF inv]] bk_frame_trans [OF st(4)] by blast
  qed
  then show "same_map m m'" "mem_ok pins m'" by auto
qed

section \<open>External storage\<close>

lemma external_alloc_step:
  assumes "mem_ok (\<lambda>b. pins b + held bs b) m" and "\<And>b. 0 \<le> pins b"
    and "\<And>x. x \<in> set xs \<Longrightarrow> \<exists>p. page_at m x = Some p" and "external_alloc a h xs m bs = (e, l, m')"
  shows "mem_ok (\<lambda>b. pins b + held l b) m' \<and> grows m m' \<and>
    (e = GEM_MEMORY_OK \<longrightarrow> (\<exists>news. l = rev bs @ news \<and> alloc_rel m m' (\<lambda>x. Some (h + (x - a))) xs news)) \<and>
    (e = GEM_MEMORY_OK \<longrightarrow> (\<forall>x \<in> set xs. \<forall>p b. page_at m x = Some p \<longrightarrow> page_backing p = Some b \<longrightarrow>
       (\<exists>k. backing_heap m b = Some k \<and> bk_data k = Host (h + (x - a)) \<and> external k)))"
  using assms(1,3,4)
proof (induction xs arbitrary: m bs)
  case Nil
  then show ?case by (auto simp: alloc_rel_def)
next
  case (Cons x xs)
  let ?H = "\<lambda>x. Some (h + (x - a))"
  obtain p where p: "page_at m x = Some p" using Cons.prems(2) by auto
  have nn: "\<And>b. 0 \<le> pins b + held bs b" using assms(2) held_nonneg by (simp add: add_nonneg_nonneg)
  show ?case
  proof (cases "page_backing p")
    case (Some c)
    have "layout m x = Some (p\<lparr>generation := 0\<rparr>)" by (simp add: layout_def p)
    then obtain k where k: "backing_heap m c = Some k"
      using layout_backing_alive [OF Cons.prems(1) nn] Some by fastforce
    show ?thesis
    proof (cases "external k \<and> bk_data k = Host (h + (x - a))")
      case False
      then have "e = GEM_MEMORY_CONFLICT" "l = rev bs" "m' = m"
        using Cons.prems(3) p Some k by (auto split: if_splits)
      then show ?thesis using Cons.prems(1) by simp
    next
      case True
      then have "external_alloc a h xs m (None # bs) = (e, l, m')" using Cons.prems(3) p Some k by simp
      from Cons.IH [OF _ _ this]
      have ih: "mem_ok (\<lambda>b. pins b + held l b) m' \<and> grows m m' \<and>
        (e = GEM_MEMORY_OK \<longrightarrow> (\<exists>news. l = rev (None # bs) @ news \<and> alloc_rel m m' ?H xs news)) \<and>
        (e = GEM_MEMORY_OK \<longrightarrow> (\<forall>x \<in> set xs. \<forall>p b. page_at m x = Some p \<longrightarrow> page_backing p = Some b \<longrightarrow>
           (\<exists>k. backing_heap m b = Some k \<and> bk_data k = Host (h + (x - a)) \<and> external k)))"
        using Cons.prems(1,2) by simp
      have "alloc_entry m m' ?H x None" using p Some by (simp add: alloc_entry_def)
      then show ?thesis using ih p Some k True unfolding alloc_rel_def by auto
    qed
  next
    case None
    obtain bo m1 where nb: "new_backing m (?H x) = (bo, m1)" by fastforce
    let ?pins = "\<lambda>c. pins c + held bs c + (if bo = Some c then 1 else 0)"
    note st = new_backing_step [OF Cons.prems(1) nb, of ?pins]
    have gr: "grows m m1" by (rule new_backing_grows [OF Cons.prems(1) nb])
    show ?thesis
    proof (cases bo)
      case None': None
      then have "e = GEM_MEMORY_NO_MEMORY" "l = rev bs" "m' = m1"
        using Cons.prems(3) p None nb by auto
      then show ?thesis using st(1) gr None' by simp
    next
      case (Some b)
      have "(\<lambda>c. pins c + held (Some b # bs) c) = ?pins" by (auto simp: Some fun_eq_iff)
      then have ok1: "mem_ok (\<lambda>c. pins c + held (Some b # bs) c) m1" using st(1) by simp
      have pm: "page_at m1 = page_at m" by (rule grows_page_at [OF gr])
      have "external_alloc a h xs m1 (Some b # bs) = (e, l, m')"
        using Cons.prems(3) p None nb Some by simp
      from Cons.IH [OF ok1 _ this]
      have ih: "mem_ok (\<lambda>b. pins b + held l b) m'" "grows m1 m'"
        "e = GEM_MEMORY_OK \<Longrightarrow> \<exists>news. l = rev (Some b # bs) @ news \<and> alloc_rel m1 m' ?H xs news"
        "e = GEM_MEMORY_OK \<Longrightarrow> (\<forall>x \<in> set xs. \<forall>p b. page_at m x = Some p \<longrightarrow> page_backing p = Some b \<longrightarrow>
           (\<exists>k. backing_heap m1 b = Some k \<and> bk_data k = Host (h + (x - a)) \<and> external k))"
        using Cons.prems(2) by (auto simp: pm)
      have b: "b = heap_count m" "b < heap_count m1"
        "backing_heap m1 b = Some (fresh_backing (?H x) (heap_garbage m b))"
        using st(6-8) Some by simp_all
      then have "backing_heap m' b = Some (fresh_backing (?H x) (heap_garbage m b))"
        using ih(2) by (simp add: grows_def)
      then have en: "alloc_entry m m' ?H x (Some b)" using p None b by (auto simp: alloc_entry_def)
      have al: "alloc_rel m m' ?H xs news" if "alloc_rel m1 m' ?H xs news" for news
        using that alloc_entry_grows [OF _ gr pm] unfolding alloc_rel_def by (rule list_all2_mono)
      have "\<exists>news. l = rev bs @ news \<and> alloc_rel m m' ?H (x # xs) news" if "e = GEM_MEMORY_OK"
        using ih(3) [OF that] al en unfolding alloc_rel_def by auto
      moreover have "\<exists>k. backing_heap m c = Some k \<and> bk_data k = Host (h + (y - a)) \<and> external k"
        if y: "e = GEM_MEMORY_OK" "y \<in> set (x # xs)" "page_at m y = Some q" "page_backing q = Some c" for y q c
      proof -
        have "y \<noteq> x" using y p None by auto
        then obtain k where k: "backing_heap m1 c = Some k" "bk_data k = Host (h + (y - a))" "external k"
          using ih(4) [OF y(1)] y by force
        have "layout m y = Some (q\<lparr>generation := 0\<rparr>)" by (simp add: layout_def y)
        then obtain k' where k': "backing_heap m c = Some k'"
          using layout_backing_alive [OF Cons.prems(1) nn] y(4) by fastforce
        then have "c < heap_count m" using alive_lt Cons.prems(1) unfolding mem_ok_def by blast
        then show ?thesis using k k' gr by (simp add: grows_def)
      qed
      ultimately show ?thesis using ih(1) grows_trans [OF gr ih(2)] by blast
    qed
  qed
qed

lemma commit_external_cases:
  assumes "commit_external_locked m a h n prot ident = (e, m')"
  obtains (early) "e \<noteq> GEM_MEMORY_OK" "m' = m \<or> m' = m\<lparr>heap_count := Suc (heap_count m)\<rparr>"
  | (run) e1 bs m1 where "h \<noteq> 0" "aligned h" "ident \<longrightarrow> 0x100000000 \<le> a \<and> a = h"
      "check m a n False = GEM_MEMORY_OK" "prot_ok prot"
      "external_alloc a h (page_addrs a n) (m\<lparr>heap_count := Suc (heap_count m)\<rparr>) [] = (e1, bs, m1)"
      "e = e1"
      "m' = (if e1 \<noteq> GEM_MEMORY_OK then foldl drop_backing m1 bs
             else foldl (commit_page prot) m1 (zip (page_addrs a n) bs))"
proof -
  let ?pre = "h \<noteq> 0 \<and> aligned h \<and> (ident \<longrightarrow> 0x100000000 \<le> a \<and> a = h) \<and> range_ok a n \<and> prot_ok prot"
  have al: "h AND (GEM_GUEST_PAGE_SIZE - 1) \<noteq> 0 \<longleftrightarrow> \<not> aligned h" by (simp add: GEM_GUEST_PAGE_SIZE_def)
  show ?thesis
  proof (cases "?pre \<and> check m a n False = GEM_MEMORY_OK")
    case False
    then show ?thesis using early assms
      by (auto simp: commit_external_locked_def al Let_def not_less split: if_splits)
  next
    case True
    obtain e1 bs m1 where ex: "external_alloc a h (page_addrs a n) (m\<lparr>heap_count := Suc (heap_count m)\<rparr>) [] = (e1, bs, m1)"
      by (metis prod_cases3)
    show ?thesis
    proof (cases rule: heap_alloc_cases [of m])
      case 1
      then show ?thesis using True ex assms run [OF _ _ _ _ _ ex]
        by (auto simp: commit_external_locked_def al not_less split: if_splits)
    next
      case 2
      then show ?thesis using True assms early by (auto simp: commit_external_locked_def al not_less split: if_splits)
    qed
  qed
qed

lemma external_ok:
  assumes inv: "memory_inv pins m" and run: "commit_external_locked m a h n prot ident = (GEM_MEMORY_OK, m')"
  shows "range_ok a n" and "prot_ok prot" and "h \<noteq> 0" and "aligned h" and "ident \<longrightarrow> 0x100000000 \<le> a \<and> a = h"
    and "memory_inv pins m'" and "bk_frame m m'"
    and "x \<notin> set (page_addrs a n) \<Longrightarrow> layout m' x = layout m x"
    and "x \<in> set (page_addrs a n) \<Longrightarrow> \<exists>p b k. layout m x = Some p \<and>
       layout m' x = Some (p\<lparr>page_backing := Some b, protection := prot\<rparr>) \<and>
       (page_backing p = Some b \<or> page_backing p = None) \<and>
       backing_heap m' b = Some k \<and> bk_data k = Host (h + (x - a)) \<and> external k"
proof -
  let ?m0 = "m\<lparr>heap_count := Suc (heap_count m)\<rparr>" and ?H = "\<lambda>x. Some (h + (x - a))"
  from run obtain bs m1 where c: "h \<noteq> 0" "aligned h" "ident \<longrightarrow> 0x100000000 \<le> a \<and> a = h"
      "check m a n False = GEM_MEMORY_OK" "prot_ok prot"
      "external_alloc a h (page_addrs a n) ?m0 [] = (GEM_MEMORY_OK, bs, m1)"
      "m' = foldl (commit_page prot) m1 (zip (page_addrs a n) bs)"
    by (cases rule: commit_external_cases) auto
  show ra: "range_ok a n" and "prot_ok prot" "h \<noteq> 0" "aligned h" "ident \<longrightarrow> 0x100000000 \<le> a \<and> a = h"
    using c(4) by (simp add: check_OK_iff) (rule c)+
  note nn = inv_pins [OF inv]
  have ok0: "mem_ok (\<lambda>b. pins b + held [] b) ?m0" using mem_ok_heap_alloc [OF inv_mem_ok [OF inv]] by simp
  have mapped: "\<And>x. x \<in> set (page_addrs a n) \<Longrightarrow> \<exists>p. page_at ?m0 x = Some p" using c(4) by (auto simp: check_OK_iff)
  from external_alloc_step [OF ok0 nn mapped c(6)]
  have st: "mem_ok (\<lambda>b. pins b + held bs b) m1" "grows ?m0 m1" "alloc_rel ?m0 m1 ?H (page_addrs a n) bs"
    and old: "\<And>x p b. x \<in> set (page_addrs a n) \<Longrightarrow> page_at m x = Some p \<Longrightarrow> page_backing p = Some b \<Longrightarrow>
       \<exists>k. backing_heap m b = Some k \<and> bk_data k = Host (h + (x - a)) \<and> external k" by auto
  note fin = commit_finish [OF st(1) nn st(3) distinct_page_addrs [OF ra] st(2) c(7)]
  show fr: "bk_frame m m'" by (rule bk_frame_trans [OF _ fin(2)]) (simp add: grows_frame)
  show out: "layout m' x = layout m x" if "x \<notin> set (page_addrs a n)" for x using fin(3) [OF that] by simp
  show inn: "\<exists>p b k. layout m x = Some p \<and>
       layout m' x = Some (p\<lparr>page_backing := Some b, protection := prot\<rparr>) \<and>
       (page_backing p = Some b \<or> page_backing p = None) \<and>
       backing_heap m' b = Some k \<and> bk_data k = Host (h + (x - a)) \<and> external k"
    if x: "x \<in> set (page_addrs a n)" for x
  proof -
    obtain p b where pb: "layout m x = Some p" "layout m' x = Some (p\<lparr>page_backing := Some b, protection := prot\<rparr>)"
      "page_backing p = Some b \<or> page_backing p = None \<and>
         (\<exists>k. backing_heap m' b = Some k \<and> bk_data k = data_of (?H x) \<and> external k = (?H x \<noteq> None))"
      using fin(4) [OF x] by auto
    have "\<exists>k. backing_heap m' b = Some k \<and> bk_data k = Host (h + (x - a)) \<and> external k" if sb: "page_backing p = Some b"
    proof -
      obtain q where q: "page_at m x = Some q" "p = q\<lparr>generation := 0\<rparr>" using pb(1) by (auto simp: layout_def)
      obtain k where k: "backing_heap m b = Some k" "bk_data k = Host (h + (x - a))" "external k"
        using old [OF x q(1), of b] sb q(2) by auto
      obtain k' where k': "backing_heap m' b = Some k'"
        using layout_backing_alive [OF fin(1) nn pb(2)] by auto
      have "b < heap_count m" using alive_lt [OF _ k(1)] inv_mem_ok [OF inv] by (auto simp: mem_ok_def)
      then have "k'\<lparr>refs := 0\<rparr> = k\<lparr>refs := 0\<rparr>" using fr k(1) k' unfolding bk_frame_def by fastforce
      then show ?thesis using k k' by (cases k; cases k') simp
    qed
    then show ?thesis using pb by (fastforce simp: data_of_def)
  qed
  have "resv m' = resv m"
  proof (rule resv_same)
    fix x
    show "map_option (\<lambda>p. (reservation_base p, reservation_size p)) (layout m' x) =
      map_option (\<lambda>p. (reservation_base p, reservation_size p)) (layout m x)"
      using out [of x] inn [of x] by (cases "x \<in> set (page_addrs a n)") auto
  qed
  then show "memory_inv pins m'" by (rule memory_inv_keep [OF inv fin(1)])
qed

lemma external_fail:
  assumes inv: "memory_inv pins m" and run: "commit_external_locked m a h n prot ident = (e, m')"
    and e: "e \<noteq> GEM_MEMORY_OK"
  shows "same_map m m'" and "mem_ok pins m'"
proof -
  have "same_map m m' \<and> mem_ok pins m'" using run
  proof (cases rule: commit_external_cases)
    case early
    then show ?thesis using inv_mem_ok [OF inv] mem_ok_heap_alloc by (auto simp: same_map_def)
  next
    case (run e1 bs m1)
    let ?m0 = "m\<lparr>heap_count := Suc (heap_count m)\<rparr>"
    have m': "m' = foldl drop_backing m1 bs" using run(7,8) e by simp
    have ok0: "mem_ok (\<lambda>b. pins b + held [] b) ?m0"
      using mem_ok_heap_alloc [OF inv_mem_ok [OF inv]] by simp
    have "\<And>x. x \<in> set (page_addrs a n) \<Longrightarrow> \<exists>p. page_at ?m0 x = Some p"
      using run(4) by (auto simp: check_OK_iff)
    from external_alloc_step [OF ok0 inv_pins [OF inv] this run(6)]
    have "mem_ok (\<lambda>b. pins b + held bs b) m1" and gr: "grows ?m0 m1" by auto
    from drop_list_step [OF this(1) inv_pins [OF inv], folded m']
    have "mem_ok pins m'" "page_heap m' = page_heap m" "at m' = at m" "bk_frame m1 m'"
      using gr by (simp_all add: grows_def)
    moreover have "bk_frame m m1" by (rule grows_frame, rule grows_trans [OF _ gr]) simp
    ultimately show ?thesis using same_mapI [OF inv_mem_ok [OF inv]] bk_frame_trans by blast
  qed
  then show "same_map m m'" "mem_ok pins m'" by auto
qed

section \<open>Identity mappings\<close>

lemma identity_step:
  fixes prot :: u32
  assumes ok: "mem_ok pins m" and nn: "\<And>b. 0 \<le> pins b" and p: "layout m x = Some p" "page_backing p = None"
    and r: "at m x = Some r" and nb: "new_backing m (Some g) = (Some b, m1)"
  defines "m2 \<equiv> touch_page (upd_page m1 r (\<lambda>p. p\<lparr>page_backing := Some b, protection := prot\<rparr>)) r"
  shows "mem_ok pins m2" and "layout m2 = (layout m)(x \<mapsto> p\<lparr>page_backing := Some b, protection := prot\<rparr>)"
    and "bk_frame m m2" and "b < heap_count m1" and "bk_frame m1 m2"
    and "\<exists>g'. backing_heap m1 b = Some (fresh_backing (Some g) g')"
proof -
  let ?pins = "\<lambda>c. pins c + (if Some b = Some c then 1 else 0)"
  note st = new_backing_step [OF ok nb, of ?pins, OF refl]
  have la: "layout m1 = layout m" using st(3) by (rule layout_cong)
  obtain q where q: "page_heap m r = Some q" "p = q\<lparr>generation := 0\<rparr>"
    using layout_at [OF ok p(1)] r by (metis option.inject)
  then have q1: "page_heap m1 r = Some q" "page_backing q = None" using st(5) p(2) by simp_all
  have r1: "at m1 x = Some r" using r by (simp add: st(2))
  have eq: "m2 = commit_page prot m1 (x, Some b)"
    by (simp add: m2_def commit_page_def r1 upd_page_def q1)
  have p1: "layout m1 (fst (x, Some b)) = Some p" by (simp add: la p)
  have "mem_ok (\<lambda>c. ?pins c - (if snd (x, Some b) = Some c then 1 else 0)) m2 \<and>
      layout m2 = (layout m1)(fst (x, Some b) \<mapsto> (take_backing (snd (x, Some b)) p)\<lparr>protection := prot\<rparr>) \<and>
      bk_frame m1 m2"
    unfolding eq by (rule commit_sweep.step_ok [OF st(1) _ p1]) (use nn p(2) in auto)
  then show "mem_ok pins m2" "layout m2 = (layout m)(x \<mapsto> p\<lparr>page_backing := Some b, protection := prot\<rparr>)"
    "bk_frame m1 m2" "bk_frame m m2"
    using p(2) bk_frame_trans [OF st(4)] by (simp_all add: la take_backing_def cong: if_cong)
  show "b < heap_count m1" "\<exists>g'. backing_heap m1 b = Some (fresh_backing (Some g) g')"
    using st(7,8) by auto
qed

lemma identity_pages_step:
  assumes "mem_ok pins m" and "\<And>b. 0 \<le> pins b" and "distinct xs"
    and "\<And>x. x \<in> set xs \<Longrightarrow> \<exists>p. layout m x = Some p \<and> page_backing p = None"
    and "identity_pages a h prot xs m = (okay, m')"
  shows "mem_ok pins m' \<and> bk_frame m m' \<and> resv m' = resv m \<and> (\<forall>x. x \<notin> set xs \<longrightarrow> layout m' x = layout m x) \<and>
    (okay \<longrightarrow> (\<forall>x \<in> set xs. \<exists>p b k. layout m x = Some p \<and>
       layout m' x = Some (p\<lparr>page_backing := Some b, protection := prot\<rparr>) \<and>
       backing_heap m' b = Some k \<and> bk_data k = Host (h + (x - a)) \<and> external k))"
  using assms(1,3-5)
proof (induction xs arbitrary: m)
  case Nil
  then show ?case by simp
next
  case (Cons x xs)
  obtain p where p: "layout m x = Some p" "page_backing p = None" using Cons.prems(3) by auto
  obtain r where r: "at m x = Some r" using layout_at [OF Cons.prems(1) p(1)] by blast
  obtain bo m1 where nb: "new_backing m (Some (h + (x - a))) = (bo, m1)" by fastforce
  show ?case
  proof (cases bo)
    case None
    then have "okay = False" "m' = m1" using Cons.prems(4) r nb by auto
    moreover note st = new_backing_step [OF Cons.prems(1) nb, of pins]
    ultimately show ?thesis using None layout_cong [OF st(3)] resv_cong [OF layout_cong [OF st(3)]] by simp
  next
    case (Some b)
    let ?m2 = "touch_page (upd_page m1 r (\<lambda>p. p\<lparr>page_backing := Some b, protection := prot\<rparr>)) r"
    let ?p = "p\<lparr>page_backing := Some b, protection := prot\<rparr>"
    note pre = Cons.prems(1) assms(2) p r nb [unfolded Some]
    note st = identity_step(1-3) [where prot = prot, OF pre] identity_step(4) [OF pre]
      identity_step(5) [where prot = prot, OF pre] identity_step(6) [OF pre]
    have run: "identity_pages a h prot xs ?m2 = (okay, m')" using Cons.prems(4) r nb Some by simp
    have pre': "\<exists>p. layout ?m2 y = Some p \<and> page_backing p = None" if "y \<in> set xs" for y
      using Cons.prems(2,3) that by (auto simp: st(2))
    have dist: "distinct xs" using Cons.prems(2) by simp
    have ih: "mem_ok pins m' \<and> bk_frame ?m2 m' \<and> resv m' = resv ?m2 \<and>
      (\<forall>x. x \<notin> set xs \<longrightarrow> layout m' x = layout ?m2 x) \<and>
      (okay \<longrightarrow> (\<forall>x \<in> set xs. \<exists>p b k. layout ?m2 x = Some p \<and>
         layout m' x = Some (p\<lparr>page_backing := Some b, protection := prot\<rparr>) \<and>
         backing_heap m' b = Some k \<and> bk_data k = Host (h + (x - a)) \<and> external k))"
      by (rule Cons.IH [OF st(1) dist _ run]) (rule pre')
    have "resv ?m2 = resv m" by (rule resv_same) (simp add: st(2) p)
    moreover have "x \<notin> set xs" using Cons.prems(2) by simp
    then have lx: "layout m' x = Some ?p" using ih st(2) by simp
    have "\<exists>k. backing_heap m' b = Some k"
      by (rule layout_backing_alive [of pins, OF _ assms(2) lx]) (use ih in simp_all)
    then obtain k where k: "backing_heap m' b = Some k" by blast
    obtain g where "backing_heap m1 b = Some (fresh_backing (Some (h + (x - a))) g)" using st(6) by blast
    moreover have "bk_frame m1 m'" using ih bk_frame_trans [OF st(5)] by blast
    ultimately have "k\<lparr>refs := 0\<rparr> = (fresh_backing (Some (h + (x - a))) g)\<lparr>refs := 0\<rparr>"
      using st(4) k unfolding bk_frame_def by fastforce
    then have kd: "bk_data k = Host (h + (x - a))" "external k"
      by (cases k; simp add: fresh_backing_def)+
    have "\<exists>p b k. layout m y = Some p \<and> layout m' y = Some (p\<lparr>page_backing := Some b, protection := prot\<rparr>) \<and>
       backing_heap m' b = Some k \<and> bk_data k = Host (h + (y - a)) \<and> external k"
      if "okay" "y \<in> set (x # xs)" for y
    proof (cases "y = x")
      case True
      then show ?thesis using lx k kd p by blast
    next
      case False
      then have "y \<in> set xs" "layout ?m2 y = layout m y" using that(2) by (simp_all add: st(2))
      then show ?thesis using ih that(1) by metis
    qed
    moreover have "layout m' y = layout m y" if "y \<notin> set (x # xs)" for y
      using ih that by (simp add: st(2))
    moreover have "mem_ok pins m'" "bk_frame m m'" "resv m' = resv m"
      using ih \<open>resv ?m2 = resv m\<close> bk_frame_trans [OF st(3)] by auto
    ultimately show ?thesis by blast
  qed
qed

lemma identity_fail_release:
  assumes inv: "memory_inv pins m" and R: "resv m a = Some (a, n)"
  shows "fst (release_locked m a n) = GEM_MEMORY_OK"
proof -
  note wf = resv_wfD [OF inv_resv [OF inv] R]
  have "check m a n False = GEM_MEMORY_OK"
    using wf(1,3) by (fastforce simp: check_OK_iff resv_def)
  moreover obtain p where "page_at m a = Some p" "reservation_base p = a" "reservation_size p = n"
    using R by (auto simp: resv_def)
  ultimately show ?thesis by (simp add: release_locked_def)
qed

lemma map_identity_cases:
  assumes "map_identity_locked m a h n prot = (e, m')"
  obtains (invalid) "e \<noteq> GEM_MEMORY_OK" "m' = m"
  | (unreserved) r where "range_ok a n" "reserve_locked m (Some a) n = (e, r, m')" "e \<noteq> GEM_MEMORY_OK"
  | (reserved) r m1 okay m2 where "h = a" "0x100000000 \<le> a" "range_ok a n" "prot_ok prot"
      "reserve_locked m (Some a) n = (GEM_MEMORY_OK, r, m1)"
      "identity_pages a h prot (page_addrs a n) m1 = (okay, m2)"
      "if okay then e = GEM_MEMORY_OK \<and> m' = m2 else e = GEM_MEMORY_NO_MEMORY \<and> m' = snd (release_locked m2 a n)"
proof (cases "h = 0 \<or> a < 0x100000000 \<or> a \<noteq> h \<or> \<not> range_ok a n \<or> \<not> prot_ok prot")
  case True
  then have "map_identity_locked m a h n prot = (GEM_MEMORY_INVALID_ARGUMENT, m)"
    unfolding map_identity_locked_def by (rule if_P)
  then show ?thesis using invalid assms by simp
next
  case False
  obtain e1 r m1 where rl: "reserve_locked m (Some a) n = (e1, r, m1)" by (metis prod_cases3)
  obtain okay m2 where ip: "identity_pages a h prot (page_addrs a n) m1 = (okay, m2)" by fastforce
  show ?thesis
  proof (cases "e1 = GEM_MEMORY_OK")
    case True
    then show ?thesis using False rl ip assms reserved [of r m1 okay m2]
      by (cases okay) (auto simp: map_identity_locked_def)
  next
    case F: False
    then show ?thesis using False rl assms unreserved [of r] by (auto simp: map_identity_locked_def)
  qed
qed

lemma reserve_identity:
  assumes inv: "memory_inv pins m" and run: "reserve_locked m (Some a) n = (GEM_MEMORY_OK, r, m')"
    and a: "0x100000000 \<le> a"
  shows "(\<forall>x \<in> set (page_addrs a n). page_at m x = None) \<and> memory_inv pins m' \<and> bk_frame m m' \<and>
    layout m' = (\<lambda>x. if x \<in> set (page_addrs a n)
       then Some \<lparr>address = x, reservation_base = a, reservation_size = n, page_backing = None,
                  protection = 0, generation = 0\<rparr> else layout m x)"
proof (rule reserve_ok [OF inv run])
  fix b
  assume b: "a \<noteq> 0 \<longrightarrow> b = a" "\<forall>x \<in> set (page_addrs b n). page_at m x = None"
    "memory_inv pins m'" "bk_frame m m'"
    "layout m' = (\<lambda>x. if x \<in> set (page_addrs b n)
       then Some \<lparr>address = x, reservation_base = b, reservation_size = n, page_backing = None,
                  protection = 0, generation = 0\<rparr> else layout m x)"
  have "a \<noteq> 0" using a by auto
  then have "b = a" using b(1) by blast
  then show ?thesis using b(2-) by blast
qed

lemma map_identity_ok:
  assumes inv: "memory_inv pins m" and run: "map_identity_locked m a h n prot = (GEM_MEMORY_OK, m')"
  shows "range_ok a n" and "prot_ok prot" and "a = h" and "0x100000000 \<le> a" and "memory_inv pins m'" and "bk_frame m m'"
    and "x \<notin> set (page_addrs a n) \<Longrightarrow> layout m' x = layout m x"
    and "x \<in> set (page_addrs a n) \<Longrightarrow> page_at m x = None \<and> (\<exists>b k. layout m' x =
       Some \<lparr>address = x, reservation_base = a, reservation_size = n, page_backing = Some b,
             protection = prot, generation = 0\<rparr> \<and>
       backing_heap m' b = Some k \<and> bk_data k = Host x \<and> external k)"
proof -
  from run obtain r m1 where c: "h = a" "0x100000000 \<le> a" "range_ok a n" "prot_ok prot"
      "reserve_locked m (Some a) n = (GEM_MEMORY_OK, r, m1)"
      "identity_pages a h prot (page_addrs a n) m1 = (True, m')"
    by (cases rule: map_identity_cases) (auto split: if_splits)
  show "range_ok a n" "prot_ok prot" "0x100000000 \<le> a" by (rule c)+
  show "a = h" using c(1) by simp
  note rs = reserve_identity [OF inv c(5,2)]
  have inv1: "memory_inv pins m1" and fr: "bk_frame m m1" using rs by blast+
  have la: "layout m1 = (\<lambda>x. if x \<in> set (page_addrs a n)
       then Some \<lparr>address = x, reservation_base = a, reservation_size = n, page_backing = None,
                  protection = 0, generation = 0\<rparr> else layout m x)"
    using rs by blast
  have pre: "\<exists>p. layout m1 x = Some p \<and> page_backing p = None" if "x \<in> set (page_addrs a n)" for x
    using that by (simp add: la)
  note st = identity_pages_step [OF inv_mem_ok [OF inv1] inv_pins [OF inv] distinct_page_addrs [OF c(3)] pre c(6)]
  show "memory_inv pins m'" using memory_inv_keep [OF inv1] st by blast
  show "bk_frame m m'" using st bk_frame_trans [OF fr] by blast
  show "x \<notin> set (page_addrs a n) \<Longrightarrow> layout m' x = layout m x" using st by (simp add: la)
  assume x: "x \<in> set (page_addrs a n)"
  then obtain p b k where pbk: "layout m1 x = Some p"
      "layout m' x = Some (p\<lparr>page_backing := Some b, protection := prot\<rparr>)"
      "backing_heap m' b = Some k" "bk_data k = Host (h + (x - a))" "external k"
    using st by blast
  have "h + (x - a) = x" using c(1) by simp
  then show "page_at m x = None \<and> (\<exists>b k. layout m' x =
       Some \<lparr>address = x, reservation_base = a, reservation_size = n, page_backing = Some b,
             protection = prot, generation = 0\<rparr> \<and>
       backing_heap m' b = Some k \<and> bk_data k = Host x \<and> external k)"
    using pbk rs x by (auto simp: la)
qed

lemma map_identity_fail:
  assumes inv: "memory_inv pins m" and run: "map_identity_locked m a h n prot = (e, m')" and e: "e \<noteq> GEM_MEMORY_OK"
  shows "memory_inv pins m'" and "layout m' = layout m" and "bk_frame m m'"
proof -
  have "memory_inv pins m' \<and> layout m' = layout m \<and> bk_frame m m'" using run
  proof (cases rule: map_identity_cases)
    case invalid
    then show ?thesis using inv by simp
  next
    case (unreserved r)
    note rf = reserve_fail [OF inv unreserved(2) e]
    then show ?thesis using same_map_inv [OF inv rf(3,1)] same_map_views(2) [OF rf(1)] by blast
  next
    case (reserved r m1 okay m2)
    have okay: "\<not> okay" "m' = snd (release_locked m2 a n)" using reserved(7) e by (auto split: if_splits)
    note rs = reserve_identity [OF inv reserved(5,2)]
    have free: "\<forall>x \<in> set (page_addrs a n). page_at m x = None"
      and inv1: "memory_inv pins m1" and fr: "bk_frame m m1" using rs by blast+
    have la: "layout m1 = (\<lambda>x. if x \<in> set (page_addrs a n)
       then Some \<lparr>address = x, reservation_base = a, reservation_size = n, page_backing = None,
                  protection = 0, generation = 0\<rparr> else layout m x)"
      using rs by blast
    have pre: "\<exists>p. layout m1 x = Some p \<and> page_backing p = None" if "x \<in> set (page_addrs a n)" for x
      using that by (simp add: la)
    note st = identity_pages_step [OF inv_mem_ok [OF inv1] inv_pins [OF inv] distinct_page_addrs [OF reserved(3)] pre reserved(6)]
    have inv2: "memory_inv pins m2" using memory_inv_keep [OF inv1] st by blast
    have "resv m1 a = Some (a, n)" by (simp add: resv_layout la first_page [OF reserved(3)])
    then have "resv m2 a = Some (a, n)" using st by simp
    from identity_fail_release [OF inv2 this]
    have rel: "release_locked m2 a n = (GEM_MEMORY_OK, m')" using okay(2) by (cases "release_locked m2 a n") simp
    note ro = release_ok [OF inv2 rel]
    have "layout m' x = layout m x" for x
      using ro(5) [of x] st free by (auto simp: la layout_def)
    then show ?thesis using ro(3,4) st fr bk_frame_trans by blast
  qed
  then show "memory_inv pins m'" "layout m' = layout m" "bk_frame m m'" by auto
qed

section \<open>The shared user data page\<close>

lemma kuser_addresses: "GEM_KUSER_CANONICAL_ADDRESS \<noteq> GEM_KUSER_SHARED_DATA_ADDRESS"
  by (simp add: GEM_KUSER_CANONICAL_ADDRESS_def GEM_KUSER_SHARED_DATA_ADDRESS_def)

lemma bind_kuser_cases:
  assumes "bind_kuser_locked m g = (e, m')"
  obtains (early) "e \<noteq> GEM_MEMORY_OK" "m' = m"
  | (nomem) c where "e \<noteq> GEM_MEMORY_OK" "m' = m\<lparr>heap_count := c\<rparr>" "heap_count m \<le> c"
  | (run) r1 r2 p1 p2 old ext m1 where "g \<noteq> 0" "aligned g" "e = GEM_MEMORY_OK"
      "at m GEM_KUSER_CANONICAL_ADDRESS = Some r1" "at m GEM_KUSER_SHARED_DATA_ADDRESS = Some r2"
      "page_heap m r1 = Some p1" "page_backing p1 = Some old"
      "page_heap m r2 = Some p2" "page_backing p2 = Some old" "new_backing m (Some g) = (Some ext, m1)"
      "m' = drop_backing (drop_backing (touch_page (touch_page
              (upd_page (upd_page (upd_backing m1 ext (\<lambda>k. k\<lparr>refs := 2\<rparr>)) r1 (\<lambda>p. p\<lparr>page_backing := Some ext\<rparr>))
                 r2 (\<lambda>p. p\<lparr>page_backing := Some ext\<rparr>)) r1) r2) (Some old)) (Some old)"
proof -
  have al: "g AND (GEM_GUEST_PAGE_SIZE - 1) \<noteq> 0 \<longleftrightarrow> \<not> aligned g" by (simp add: GEM_GUEST_PAGE_SIZE_def)
  consider (bad) "e \<noteq> GEM_MEMORY_OK" "m' = m"
    | (go) r1 r2 p1 p2 old where "g \<noteq> 0" "aligned g"
      "at m GEM_KUSER_CANONICAL_ADDRESS = Some r1" "at m GEM_KUSER_SHARED_DATA_ADDRESS = Some r2"
      "page_heap m r1 = Some p1" "page_backing p1 = Some old"
      "page_heap m r2 = Some p2" "page_backing p2 = Some old"
    using assms unfolding bind_kuser_locked_def al
    by (auto simp: bind_eq_Some_conv split: if_splits option.splits)
  then show ?thesis
  proof cases
    case bad
    then show ?thesis by (rule early)
  next
    case (go r1 r2 p1 p2 old)
    note eq = assms [unfolded bind_kuser_locked_def al, simplified go, simplified]
    show ?thesis
    proof (cases rule: new_backing_cases [of m "Some g"])
      case (1 c)
      then show ?thesis using nomem [of c] assms go by (simp add: bind_kuser_locked_def al)
    next
      case (2 ext c)
      then show ?thesis using run [OF go(1,2) _ go(3-8) 2(1)] assms go
        by (simp add: bind_kuser_locked_def al Let_def)
    qed
  qed
qed

lemma bind_kuser_ok:
  assumes inv: "memory_inv pins m" and run: "bind_kuser_locked m g = (GEM_MEMORY_OK, m')"
  shows "memory_inv pins m'" and "bk_frame m m'"
    and "\<exists>p1 p2 old ext k. layout m GEM_KUSER_CANONICAL_ADDRESS = Some p1 \<and> page_backing p1 = Some old \<and>
      layout m GEM_KUSER_SHARED_DATA_ADDRESS = Some p2 \<and> page_backing p2 = Some old \<and>
      backing_heap m' ext = Some k \<and> bk_data k = Host g \<and> external k \<and>
      layout m' = (layout m)(GEM_KUSER_CANONICAL_ADDRESS \<mapsto> p1\<lparr>page_backing := Some ext\<rparr>,
         GEM_KUSER_SHARED_DATA_ADDRESS \<mapsto> p2\<lparr>page_backing := Some ext\<rparr>)"
proof -
  let ?A = GEM_KUSER_CANONICAL_ADDRESS and ?B = GEM_KUSER_SHARED_DATA_ADDRESS
  from run obtain r1 r2 p1 p2 old ext m1 where c: "at m ?A = Some r1" "at m ?B = Some r2"
      "page_heap m r1 = Some p1" "page_backing p1 = Some old"
      "page_heap m r2 = Some p2" "page_backing p2 = Some old" "new_backing m (Some g) = (Some ext, m1)"
    and m': "m' = drop_backing (drop_backing (touch_page (touch_page
              (upd_page (upd_page (upd_backing m1 ext (\<lambda>k. k\<lparr>refs := 2\<rparr>)) r1 (\<lambda>p. p\<lparr>page_backing := Some ext\<rparr>))
                 r2 (\<lambda>p. p\<lparr>page_backing := Some ext\<rparr>)) r1) r2) (Some old)) (Some old)"
    by (cases rule: bind_kuser_cases) auto
  let ?f = "\<lambda>p. p\<lparr>page_backing := Some ext\<rparr> :: page"
  let ?p1 = "p1\<lparr>generation := 0\<rparr>" and ?p2 = "p2\<lparr>generation := 0\<rparr>"
  note nn = inv_pins [OF inv] and ok = inv_mem_ok [OF inv]
  have lp: "layout m ?A = Some ?p1" "layout m ?B = Some ?p2" by (simp_all add: layout_def page_at_def c)
  obtain ko where ko: "backing_heap m old = Some ko"
    using layout_backing_alive [OF ok nn lp(1)] c(4) by auto
  have old_lt: "old < heap_count m" using alive_lt [OF _ ko] ok by (auto simp: mem_ok_def)
  let ?one = "\<lambda>z (x :: nat). if z = x then 1 else 0 :: int"
  note s1 = new_backing_step [OF ok c(7), of "\<lambda>x. pins x + (if Some ext = Some x then 1 else 0)", OF refl]
  have ok1: "mem_ok (\<lambda>x. pins x + ?one ext x) m1" using s1(1) by simp
  have "ext \<noteq> old" using s1(6) old_lt by auto
  define m2 where "m2 = upd_backing m1 ext (\<lambda>k. k\<lparr>refs := 2\<rparr>)"
  obtain k1 where k1: "backing_heap m1 ext = Some k1" "refs k1 = 1" "bk_data k1 = Host g" "external k1"
    using s1(7) [of ext] by (auto simp: fresh_backing_def)
  have m2: "m2 = m1\<lparr>backing_heap := (backing_heap m1)(ext := Some (k1\<lparr>refs := 2\<rparr>))\<rparr>"
    by (simp add: m2_def upd_backing_def k1)
  have ok2: "mem_ok (\<lambda>x. pins x + 2 * ?one ext x) m2" unfolding m2
    by (rule backing_upd_step [OF ok1]) (use s1(8) k1 in auto)
  have v2: "at m2 = at m" "layout m2 = layout m" "bk_frame m m2"
    using s1(2) layout_cong [OF s1(3)] s1(4) k1 s1(6) by (auto simp: m2 bk_frame_def)
  define m3 where "m3 = upd_page m2 r1 ?f"
  have s3: "mem_ok (\<lambda>x. pins x + ?one ext x + ?one old x) m3" "layout m3 = (layout m2)(?A \<mapsto> ?f ?p1)"
      "bk_frame m2 m3" "at m3 = at m2"
    unfolding m3_def by (rule upd_page_layout [OF ok2, of ?A ?p1]; simp add: v2 lp c)+
  define m4 where "m4 = upd_page m3 r2 ?f"
  have s4: "mem_ok (\<lambda>x. pins x + 2 * ?one old x) m4" "layout m4 = (layout m3)(?B \<mapsto> ?f ?p2)"
      "bk_frame m3 m4" "at m4 = at m3"
    unfolding m4_def by (rule upd_page_layout [OF s3(1), of ?B ?p2]; simp add: v2 lp c s3 kuser_addresses [symmetric])+
  note s5 = touch_layout [OF s4(1), of ?A r1]
  note s6 = touch_layout [OF s5(1), of ?B r2]
  have a: "at m4 ?A = Some r1" "at m4 ?B = Some r2" by (simp_all add: s4 s3 v2 c)
  define m6 where "m6 = touch_page (touch_page m4 r1) r2"
  have s6: "mem_ok (\<lambda>x. pins x + 2 * ?one old x) m6" "layout m6 = layout m4" "bk_frame m4 m6"
    unfolding m6_def using s6 s5 a bk_frame_trans [OF s5(3) s6(3)] by simp_all
  have m'6: "m' = foldl drop_backing m6 [Some old, Some old]"
    by (simp add: m' m6_def m4_def m3_def m2_def)
  have "mem_ok (\<lambda>x. pins x + held [Some old, Some old] x) m6" using s6(1) by simp
  note s7 = drop_list_step [OF this nn, folded m'6]
  have ok': "mem_ok pins m'" and fr6: "bk_frame m6 m'" and "page_heap m' = page_heap m6" "at m' = at m6"
    using s7 by simp_all
  then have "page_at m' = page_at m6" by (intro page_at_cong)
  then have "layout m' = layout m6" by (rule layout_cong)
  then have la: "layout m' = (layout m)(?A \<mapsto> ?f ?p1, ?B \<mapsto> ?f ?p2)"
    by (simp add: s6(2) s4(2) s3(2) v2(2))
  have fr2: "bk_frame m2 m'"
    by (rule bk_frame_trans [OF bk_frame_trans [OF s3(3) s4(3)] bk_frame_trans [OF s6(3) fr6]])
  then show "bk_frame m m'" by (rule bk_frame_trans [OF v2(3)])
  have "\<exists>k. backing_heap m' ext = Some k"
    by (rule layout_backing_alive [of pins, OF ok' nn, of ?B "?f ?p2"]) (simp_all add: la)
  then obtain k where k: "backing_heap m' ext = Some k" by blast
  have "ext < heap_count m2" "backing_heap m2 ext = Some (k1\<lparr>refs := 2\<rparr>)" using s1(8) [of ext] by (simp_all add: m2)
  then have "k\<lparr>refs := 0\<rparr> = k1\<lparr>refs := 0\<rparr>" using fr2 k unfolding bk_frame_def by fastforce
  then have "bk_data k = Host g" "external k" using k1 by (cases k; cases k1; simp)+
  then show "\<exists>p1 p2 old ext k. layout m ?A = Some p1 \<and> page_backing p1 = Some old \<and>
      layout m ?B = Some p2 \<and> page_backing p2 = Some old \<and>
      backing_heap m' ext = Some k \<and> bk_data k = Host g \<and> external k \<and>
      layout m' = (layout m)(?A \<mapsto> p1\<lparr>page_backing := Some ext\<rparr>, ?B \<mapsto> p2\<lparr>page_backing := Some ext\<rparr>)"
    using lp c(4,6) k la by (intro exI [of _ ?p1] exI [of _ ?p2] exI [of _ old] exI [of _ ext] exI [of _ k]) simp
  have "resv m' = resv m" by (rule resv_same) (use lp in \<open>auto simp: la\<close>)
  then show "memory_inv pins m'" by (rule memory_inv_keep [OF inv ok'])
qed

lemma bind_kuser_fail:
  assumes inv: "memory_inv pins m" and run: "bind_kuser_locked m g = (e, m')" and e: "e \<noteq> GEM_MEMORY_OK"
  shows "same_map m m'" and "mem_ok pins m'"
proof -
  have "same_map m m' \<and> mem_ok pins m'" using run
  proof (cases rule: bind_kuser_cases)
    case (nomem c)
    have "mem_ok pins m'" by (rule mem_ok_same [OF inv_mem_ok [OF inv]]) (use nomem in simp_all)
    then show ?thesis using nomem by (simp add: same_map_def)
  qed (use inv_mem_ok [OF inv] e in simp_all)
  then show "same_map m m'" "mem_ok pins m'" by auto
qed

end
