(* ===== verification/Gem_Access.thy ===== *)
theory Gem_Access
  imports Gem_Memory_Shared
begin

text \<open>
  Guest accesses of src/gem/memory.c: \<open>access_memory_locked\<close> (read, write, fetch and query with
  guard pages and copy-on-write), \<open>peek_locked\<close>, \<open>gem_memory_create\<close>, \<open>gem_memory_destroy\<close> and the
  public \<open>gem_memory_*\<close> entry points. A null \<open>struct gem_memory *\<close> is \<open>None\<close>. The entry points are
  modelled as one atomic step each: they hold the metadata lock throughout.

  A C buffer is a byte list, \<open>None\<close> for a null pointer; the result of a call carries the buffer
  afterwards.
\<close>

section \<open>Page contents\<close>

definition data_bytes :: "gem_memory \<Rightarrow> backing \<Rightarrow> nat \<Rightarrow> u8" where
  "data_bytes m k i = (case bk_data k of Owned d \<Rightarrow> d i | Host h \<Rightarrow> host_memory m (h + of_nat i))"

text \<open>\<open>memcpy(backing->data + off, bytes, n)\<close> and \<open>memcpy(buffer, backing->data + off, n)\<close>\<close>

definition write_backing :: "gem_memory \<Rightarrow> backing_ref \<Rightarrow> nat \<Rightarrow> byte_string \<Rightarrow> gem_memory" where
  "write_backing m b off bytes = (case backing_heap m b of
       None \<Rightarrow> crash m
     | Some k \<Rightarrow>
        (case bk_data k of
           Owned d \<Rightarrow> m\<lparr>backing_heap := (backing_heap m)(b \<mapsto> k\<lparr>bk_data :=
             Owned (\<lambda>i. if off \<le> i \<and> i - off < length bytes then bytes ! (i - off) else d i)\<rparr>)\<rparr>
         | Host h \<Rightarrow> m\<lparr>host_memory := (\<lambda>x. if unat (x - (h + of_nat off)) < length bytes
             then bytes ! unat (x - (h + of_nat off)) else host_memory m x)\<rparr>))"

definition read_backing :: "gem_memory \<Rightarrow> backing_ref \<Rightarrow> nat \<Rightarrow> nat \<Rightarrow> byte_string option" where
  "read_backing m b off n =
    map_option (\<lambda>k. map (\<lambda>i. data_bytes m k (off + i)) [0..<n]) (backing_heap m b)"

definition splice :: "byte_string \<Rightarrow> nat \<Rightarrow> byte_string \<Rightarrow> byte_string" where
  "splice buf i bytes = take i buf @ bytes @ drop (i + length bytes) buf"

section \<open>Validation\<close>

definition allowed :: "u32 \<Rightarrow> bool \<Rightarrow> bool \<Rightarrow> bool" where
  "allowed p w x =
    (let b = p AND NOT GEM_PAGE_GUARD in
     if x then b = 16 \<or> b = 32 \<or> b = 64 \<or> b = 128
     else if w then b = 4 \<or> b = 8 \<or> b = 64 \<or> b = 128
     else b \<noteq> 1 \<and> b \<noteq> 16)"

text \<open>
  One round of the access loops: the page address \<open>q\<close>, the offset in the page, the bytes done so
  far and the size \<open>z\<close> of the piece.
\<close>

type_synonym piece = "u64 \<times> nat \<times> nat \<times> nat"

fun access_pieces :: "nat \<Rightarrow> u64 \<Rightarrow> nat \<Rightarrow> nat \<Rightarrow> piece list" where
  "access_pieces 0 a n done = []"
| "access_pieces (Suc i) a n done =
    (let p = a + of_nat done;
         off = unat (p AND 4095);
         z = (if 4096 - off > n - done then n - done else 4096 - off)
     in (page_base p, off, done, z) # access_pieces i a n (done + z))"

text \<open>The page table entries \<open>ps[i]\<close>, or the first failure.\<close>

fun access_check :: "gem_memory \<Rightarrow> bool \<Rightarrow> bool \<Rightarrow> piece list \<Rightarrow> gem_memory_error + page_ref list" where
  "access_check m w x [] = Inr []"
| "access_check m w x ((q, _) # cs) = (case at m q of
       None \<Rightarrow> Inl GEM_MEMORY_NOT_RESERVED
     | Some r \<Rightarrow>
        (case page_heap m r of
           None \<Rightarrow> Inl GEM_MEMORY_NOT_RESERVED
         | Some p \<Rightarrow>
            (if page_backing p = None then Inl GEM_MEMORY_NOT_COMMITTED
             else if \<not> allowed (protection p) w x then Inl GEM_MEMORY_ACCESS_DENIED
             else rbind (access_check m w x cs) (\<lambda>ps. Inr (r # ps)))))"

definition guarded :: "gem_memory \<Rightarrow> page_ref \<Rightarrow> bool" where
  "guarded m r = (case page_heap m r of None \<Rightarrow> False | Some p \<Rightarrow> protection p AND GEM_PAGE_GUARD \<noteq> 0)"

definition clear_guard :: "page \<Rightarrow> page" where
  "clear_guard p = p\<lparr>protection := protection p AND NOT GEM_PAGE_GUARD\<rparr>"

definition writecopy :: "page \<Rightarrow> bool" where
  "writecopy p \<longleftrightarrow> protection p AND NOT GEM_PAGE_GUARD = GEM_PAGE_WRITECOPY \<or>
                  protection p AND NOT GEM_PAGE_GUARD = GEM_PAGE_EXECUTE_WRITECOPY"

definition written_protection :: "page \<Rightarrow> u32" where
  "written_protection p = (if protection p AND NOT GEM_PAGE_GUARD = GEM_PAGE_WRITECOPY
     then GEM_PAGE_READWRITE else GEM_PAGE_EXECUTE_READWRITE)"

section \<open>Copy on write\<close>

text \<open>The private copies of the write-copy pages; \<open>None\<close> where the page is written in place.\<close>

fun copy_alloc :: "page_ref list \<Rightarrow> gem_memory \<Rightarrow> backing_ref option list
    \<Rightarrow> backing_ref option list option \<times> backing_ref option list \<times> gem_memory" where
  "copy_alloc [] m cs = (Some (rev cs), cs, m)"
| "copy_alloc (r # rs) m cs = (case page_heap m r of
       None \<Rightarrow> (None, cs, crash m)
     | Some p \<Rightarrow>
        (case Option.bind (page_backing p) (backing_heap m) of
           None \<Rightarrow> (None, cs, crash m)
         | Some k \<Rightarrow>
            (if writecopy p \<and> \<not> external k
             then (case new_backing m None of
                 (None, m) \<Rightarrow> (None, cs, m)
               | (Some b, m) \<Rightarrow> copy_alloc rs
                   (upd_backing m b (\<lambda>k'. k'\<lparr>bk_data := Owned (data_bytes m k)\<rparr>)) (Some b # cs))
             else copy_alloc rs m (None # cs))))"

text \<open>One page of the loop that installs the copies.\<close>

definition install_copy :: "gem_memory \<Rightarrow> page_ref \<times> backing_ref option \<Rightarrow> gem_memory" where
  "install_copy m rc = (case rc of (r, c) \<Rightarrow>
     (case page_heap m r of
        None \<Rightarrow> crash m
      | Some p \<Rightarrow>
         (case c of
            Some b \<Rightarrow> touch_page (upd_page (drop_backing m (page_backing p)) r
               (\<lambda>p. p\<lparr>page_backing := Some b, protection := written_protection p\<rparr>)) r
          | None \<Rightarrow>
             (case Option.bind (page_backing p) (backing_heap m) of
                None \<Rightarrow> crash m
              | Some k \<Rightarrow>
                 (if external k \<and> writecopy p
                  then upd_page m r (\<lambda>p. p\<lparr>protection := written_protection p\<rparr>) else m)))))"

section \<open>The access\<close>

text \<open>The data loop, for a write and for a read into a buffer.\<close>

definition write_piece :: "byte_string \<Rightarrow> gem_memory \<Rightarrow> page_ref \<times> piece \<Rightarrow> gem_memory" where
  "write_piece buf m rc = (case rc of (r, q, off, done, z) \<Rightarrow>
     (case Option.bind (page_heap m r) page_backing of
        None \<Rightarrow> crash m
      | Some b \<Rightarrow> touch_page (touch_backing (write_backing m b off (take z (drop done buf))) b) r))"

definition read_piece :: "gem_memory \<Rightarrow> byte_string option \<Rightarrow> page_ref \<times> piece \<Rightarrow> byte_string option" where
  "read_piece m buf rc = (case rc of (r, q, off, done, z) \<Rightarrow>
     Option.bind buf (\<lambda>buf. Option.bind (Option.bind (page_heap m r) page_backing) (\<lambda>b.
       map_option (splice buf done) (read_backing m b off z))))"

text \<open>The last two phases of an access whose pages are valid and unguarded.\<close>

definition access_finish :: "gem_memory \<Rightarrow> byte_string option \<Rightarrow> bool \<Rightarrow> page_ref list \<Rightarrow> backing_ref option list
    \<Rightarrow> piece list \<Rightarrow> gem_memory_error \<times> byte_string option \<times> gem_memory" where
  "access_finish m b w ps copies cs =
    (let m = foldl (\<lambda>m r. upd_page m r clear_guard) m ps;
         m = foldl install_copy m (zip ps copies)
     in if w then (case b of
            None \<Rightarrow> (GEM_MEMORY_OK, b, crash m)
          | Some buf \<Rightarrow> (GEM_MEMORY_OK, b, foldl (write_piece buf) m (zip ps cs)))
        else (case b of
            None \<Rightarrow> (GEM_MEMORY_OK, b, m)
          | Some buf \<Rightarrow> (case foldl (read_piece m) b (zip ps cs) of
                None \<Rightarrow> (GEM_MEMORY_OK, b, crash m)
              | Some buf' \<Rightarrow> (GEM_MEMORY_OK, Some buf', m))))"

definition access_memory_locked ::
  "gem_memory \<Rightarrow> u64 \<Rightarrow> byte_string option \<Rightarrow> size_t \<Rightarrow> bool \<Rightarrow> bool \<Rightarrow> bool \<Rightarrow> bool
     \<Rightarrow> gem_memory_error \<times> byte_string option \<times> gem_memory" where
  "access_memory_locked m a b n w x query consume_guard =
    (if (n \<noteq> 0 \<and> b = None \<and> \<not> x) \<or> a > - 1 - n then (GEM_MEMORY_INVALID_ARGUMENT, b, m)
     else if n = 0 then (GEM_MEMORY_OK, b, m)
     else (let first_offset = a AND 4095 in
       if n > - 1 - first_offset - 4095 then (GEM_MEMORY_OVERFLOW, b, m)
       else (let pages = unat ((n + first_offset + 4095) div 4096);
                 cs = access_pieces pages a (unat n) 0
             in (case heap_alloc m of
                 (None, m) \<Rightarrow> (GEM_MEMORY_NO_MEMORY, b, m)
               | (Some _, m) \<Rightarrow>
                  (case access_check m w x cs of
                     Inl e \<Rightarrow> (e, b, m)
                   | Inr ps \<Rightarrow>
                      (if query then (GEM_MEMORY_OK, b, m)
                       else (case find (guarded m) ps of
                           Some r \<Rightarrow> (GEM_MEMORY_GUARD_PAGE, b,
                             if consume_guard then touch_page (upd_page m r clear_guard) r else m)
                         | None \<Rightarrow>
                            (if w then (case heap_alloc m of
                                 (None, m) \<Rightarrow> (GEM_MEMORY_NO_MEMORY, b, m)
                               | (Some _, m) \<Rightarrow>
                                  (case copy_alloc ps m [] of
                                     (None, copies, m) \<Rightarrow>
                                       (GEM_MEMORY_NO_MEMORY, b, foldl drop_backing m copies)
                                   | (Some copies, _, m) \<Rightarrow> access_finish m b w ps copies cs))
                             else access_finish m b w ps (map (\<lambda>_. None) ps) cs))))))))"

text \<open>
  \<open>peek_locked\<close>: a read that ignores protections and guards. \<open>accessible h z\<close> stands for
  \<open>external_range_accessible\<close>, a query to the host's virtual memory system.
\<close>

function peek_pieces :: "u64 \<Rightarrow> nat \<Rightarrow> nat \<Rightarrow> piece list" where
  "peek_pieces a n done =
    (if done < n then
       (let p = a + of_nat done;
            off = unat (p AND 4095);
            z = (if 4096 - off > n - done then n - done else 4096 - off)
        in (page_base p, off, done, z) # peek_pieces a n (done + z))
     else [])"
  by pat_completeness auto
termination
proof (relation "measure (\<lambda>(a, n, done). n - done)")
  fix a :: u64 and n d z p off
  assume "d < n" "p = a + of_nat d" "off = unat (p AND 4095)"
    "z = (if 4096 - off > n - d then n - d else 4096 - off)"
  moreover have "unat (p AND 4095) < 4096" by (simp add: unat_page_offset)
  ultimately have "0 < z" by auto
  then show "((a, n, d + z), a, n, d) \<in> measure (\<lambda>(a, n, done). n - done)" using \<open>d < n\<close> by simp
qed simp

declare peek_pieces.simps [simp del]

fun peek_check :: "(u64 \<Rightarrow> nat \<Rightarrow> bool) \<Rightarrow> gem_memory \<Rightarrow> piece list \<Rightarrow> gem_memory_error" where
  "peek_check accessible m [] = GEM_MEMORY_OK"
| "peek_check accessible m ((q, off, done, z) # cs) = (case page_at m q of
       None \<Rightarrow> GEM_MEMORY_NOT_RESERVED
     | Some p \<Rightarrow>
        (case Option.bind (page_backing p) (backing_heap m) of
           None \<Rightarrow> GEM_MEMORY_NOT_COMMITTED
         | Some k \<Rightarrow>
            (case bk_data k of
               Host h \<Rightarrow> if external k \<and> \<not> accessible (h + of_nat off) z then GEM_MEMORY_NOT_COMMITTED
                         else peek_check accessible m cs
             | Owned _ \<Rightarrow> peek_check accessible m cs)))"

definition peek_piece :: "gem_memory \<Rightarrow> byte_string option \<Rightarrow> piece \<Rightarrow> byte_string option" where
  "peek_piece m buf c = (case c of (q, off, done, z) \<Rightarrow>
     Option.bind buf (\<lambda>buf. Option.bind (Option.bind (page_at m q) page_backing) (\<lambda>b.
       map_option (splice buf done) (read_backing m b off z))))"

definition peek_locked :: "(u64 \<Rightarrow> nat \<Rightarrow> bool) \<Rightarrow> gem_memory \<Rightarrow> u64 \<Rightarrow> byte_string option \<Rightarrow> size_t
    \<Rightarrow> gem_memory_error \<times> byte_string option \<times> gem_memory" where
  "peek_locked accessible m a b n =
    (if (n \<noteq> 0 \<and> b = None) \<or> a > - 1 - n then (GEM_MEMORY_INVALID_ARGUMENT, b, m)
     else if n = 0 then (GEM_MEMORY_OK, b, m)
     else (let cs = peek_pieces a (unat n) 0; e = peek_check accessible m cs in
       if e \<noteq> GEM_MEMORY_OK then (e, b, m)
       else (case foldl (peek_piece m) b cs of
           None \<Rightarrow> (GEM_MEMORY_OK, b, crash m)
         | Some buf \<Rightarrow> (GEM_MEMORY_OK, Some buf, m))))"

end
