(* ===== verification/Gem_Memory_Api.thy ===== *)
theory Gem_Memory_Api
  imports Gem_Access
begin

text \<open>
  The public entry points of src/gem/memory.c: creation, destruction, and the \<open>gem_memory_*\<close> calls.
  Every call tests its handle for null (\<open>None\<close>), takes the metadata lock and the stripes of its
  range, runs the \<open>_locked\<close> function and releases the locks; the lock protocol is not visible in the
  result and is the subject of \<open>Gem_Locks\<close>.
\<close>

section \<open>Creation and destruction\<close>

definition empty_memory :: "(nat \<Rightarrow> bool) \<Rightarrow> (nat \<Rightarrow> u64) \<Rightarrow> (u64 \<Rightarrow> u8) \<Rightarrow> nat \<Rightarrow> gem_memory" where
  "empty_memory ok garbage host c = \<lparr>pages = [], page_buckets = (\<lambda>_. []), next_generation = 0,
     page_heap = Map.empty, backing_heap = Map.empty, host_memory = host, heap_ok = ok,
     heap_garbage = garbage, heap_count = c, crashed = False, aborted = False\<rparr>"

text \<open>
  \<open>lock_init\<close> and \<open>stripe_init\<close> are the results of initialising the operating system's locks. The
  first two heap requests are the memory object and its bucket table.
\<close>

definition gem_memory_create ::
  "(nat \<Rightarrow> bool) \<Rightarrow> (nat \<Rightarrow> u64) \<Rightarrow> (u64 \<Rightarrow> u8) \<Rightarrow> bool \<Rightarrow> (nat \<Rightarrow> bool) \<Rightarrow> gem_memory option" where
  "gem_memory_create ok garbage host lock_init stripe_init =
    (if \<not> ok 0 then None
     else if \<not> ok 1 then None
     else if \<not> lock_init then None
     else if \<not> list_all stripe_init [0..<256] then None
     else (case reserve_locked (empty_memory ok garbage host 2) (Some GEM_KUSER_CANONICAL_ADDRESS)
                  GEM_GUEST_PAGE_SIZE of (e1, canonical, m) \<Rightarrow>
       if e1 \<noteq> GEM_MEMORY_OK then None
       else (case commit_locked m (the canonical) GEM_GUEST_PAGE_SIZE GEM_PAGE_READWRITE of (e2, m) \<Rightarrow>
         if e2 \<noteq> GEM_MEMORY_OK then None
         else (case alias_locked m GEM_KUSER_SHARED_DATA_ADDRESS (the canonical) GEM_GUEST_PAGE_SIZE
                      GEM_PAGE_READWRITE of (e3, m) \<Rightarrow>
           if e3 \<noteq> GEM_MEMORY_OK then None else Some m))))"

text \<open>The pages and backings that are left when \<open>gem_memory_destroy\<close> frees the object itself.\<close>

definition gem_memory_destroy :: "gem_memory option \<Rightarrow> gem_memory option" where
  "gem_memory_destroy mo = map_option (\<lambda>m. remove_pages m 0 (- 1)) mo"

section \<open>Entry points\<close>

text \<open>A call on a handle: the status and the memory afterwards.\<close>

definition on_memory :: "gem_memory option \<Rightarrow> (gem_memory \<Rightarrow> gem_memory_error \<times> gem_memory)
    \<Rightarrow> gem_memory_error \<times> gem_memory option" where
  "on_memory mo f = (case mo of
       None \<Rightarrow> (GEM_MEMORY_INVALID_ARGUMENT, None)
     | Some m \<Rightarrow> (case f m of (e, m') \<Rightarrow> (e, Some m')))"

definition gem_memory_reserve ::
  "gem_memory option \<Rightarrow> u64 option \<Rightarrow> u64 \<Rightarrow> gem_memory_error \<times> u64 option \<times> gem_memory option" where
  "gem_memory_reserve mo a n = (case mo of
       None \<Rightarrow> (GEM_MEMORY_INVALID_ARGUMENT, a, None)
     | Some m \<Rightarrow> (case reserve_locked m a n of (e, r, m') \<Rightarrow> (e, r, Some m')))"

definition gem_memory_commit :: "gem_memory option \<Rightarrow> u64 \<Rightarrow> u64 \<Rightarrow> u32 \<Rightarrow> gem_memory_error \<times> gem_memory option" where
  "gem_memory_commit mo a n prot = on_memory mo (\<lambda>m. commit_locked m a n prot)"

definition gem_memory_commit_identity ::
  "gem_memory option \<Rightarrow> u64 \<Rightarrow> u64 \<Rightarrow> u64 \<Rightarrow> u32 \<Rightarrow> gem_memory_error \<times> gem_memory option" where
  "gem_memory_commit_identity mo a h n prot = on_memory mo (\<lambda>m. commit_external_locked m a h n prot True)"

definition gem_memory_commit_external ::
  "gem_memory option \<Rightarrow> u64 \<Rightarrow> u64 \<Rightarrow> u64 \<Rightarrow> u32 \<Rightarrow> gem_memory_error \<times> gem_memory option" where
  "gem_memory_commit_external mo a h n prot = on_memory mo (\<lambda>m. commit_external_locked m a h n prot False)"

definition gem_memory_decommit :: "gem_memory option \<Rightarrow> u64 \<Rightarrow> u64 \<Rightarrow> gem_memory_error \<times> gem_memory option" where
  "gem_memory_decommit mo a n = on_memory mo (\<lambda>m. decommit_locked m a n)"

definition gem_memory_release :: "gem_memory option \<Rightarrow> u64 \<Rightarrow> u64 \<Rightarrow> gem_memory_error \<times> gem_memory option" where
  "gem_memory_release mo a n = on_memory mo (\<lambda>m. release_locked m a n)"

definition gem_memory_unmap :: "gem_memory option \<Rightarrow> u64 \<Rightarrow> u64 \<Rightarrow> gem_memory_error \<times> gem_memory option" where
  "gem_memory_unmap mo a n = on_memory mo (\<lambda>m. unmap_locked m a n)"

definition gem_memory_protect ::
  "gem_memory option \<Rightarrow> u64 \<Rightarrow> u64 \<Rightarrow> u32 \<Rightarrow> gem_memory_error \<times> u32 option \<times> gem_memory option" where
  "gem_memory_protect mo a n prot = (case mo of
       None \<Rightarrow> (GEM_MEMORY_INVALID_ARGUMENT, None, None)
     | Some m \<Rightarrow> (case protect_locked m a n prot of (e, old, m') \<Rightarrow> (e, old, Some m')))"

definition gem_memory_alias ::
  "gem_memory option \<Rightarrow> u64 \<Rightarrow> u64 \<Rightarrow> u64 \<Rightarrow> u32 \<Rightarrow> gem_memory_error \<times> gem_memory option" where
  "gem_memory_alias mo a s n prot = on_memory mo (\<lambda>m. alias_locked m a s n prot)"

definition gem_memory_map_identity ::
  "gem_memory option \<Rightarrow> u64 \<Rightarrow> u64 \<Rightarrow> u64 \<Rightarrow> u32 \<Rightarrow> gem_memory_error \<times> gem_memory option" where
  "gem_memory_map_identity mo a h n prot = on_memory mo (\<lambda>m. map_identity_locked m a h n prot)"

definition gem_memory_bind_kuser :: "gem_memory option \<Rightarrow> u64 \<Rightarrow> gem_memory_error \<times> gem_memory option" where
  "gem_memory_bind_kuser mo g = on_memory mo (\<lambda>m. bind_kuser_locked m g)"

text \<open>The accesses also return the buffer.\<close>

definition on_buffer :: "gem_memory option \<Rightarrow> byte_string option
    \<Rightarrow> (gem_memory \<Rightarrow> gem_memory_error \<times> byte_string option \<times> gem_memory)
    \<Rightarrow> gem_memory_error \<times> byte_string option \<times> gem_memory option" where
  "on_buffer mo b f = (case mo of
       None \<Rightarrow> (GEM_MEMORY_INVALID_ARGUMENT, b, None)
     | Some m \<Rightarrow> (case f m of (e, b', m') \<Rightarrow> (e, b', Some m')))"

definition gem_memory_read where
  "gem_memory_read mo a b n = on_buffer mo b (\<lambda>m. access_memory_locked m a b n False False False True)"

definition gem_memory_write where
  "gem_memory_write mo a b n = on_buffer mo b (\<lambda>m. access_memory_locked m a b n True False False True)"

definition gem_memory_fetch where
  "gem_memory_fetch mo a b n = on_buffer mo b (\<lambda>m. access_memory_locked m a b n False True False True)"

definition gem_memory_peek where
  "gem_memory_peek accessible mo a b n = on_buffer mo b (\<lambda>m. peek_locked accessible m a b n)"

definition gem_memory_read_deferred_guard where
  "gem_memory_read_deferred_guard mo a b n =
    on_buffer mo b (\<lambda>m. access_memory_locked m a b n False False False False)"

definition gem_memory_write_deferred_guard where
  "gem_memory_write_deferred_guard mo a b n =
    on_buffer mo b (\<lambda>m. access_memory_locked m a b n True False False False)"

definition gem_memory_is_executable :: "gem_memory option \<Rightarrow> u64 \<Rightarrow> size_t \<Rightarrow> bool \<times> gem_memory option" where
  "gem_memory_is_executable mo a n = (case mo of
       None \<Rightarrow> (False, None)
     | Some m \<Rightarrow> (case access_memory_locked m a None n False True True True of
         (e, _, m') \<Rightarrow> (e = GEM_MEMORY_OK, Some m')))"

fun gem_memory_error_name :: "gem_memory_error \<Rightarrow> string" where
  "gem_memory_error_name GEM_MEMORY_OK = ''ok''"
| "gem_memory_error_name GEM_MEMORY_INVALID_ARGUMENT = ''invalid-argument''"
| "gem_memory_error_name GEM_MEMORY_OVERFLOW = ''overflow''"
| "gem_memory_error_name GEM_MEMORY_NO_MEMORY = ''no-memory''"
| "gem_memory_error_name GEM_MEMORY_CONFLICT = ''conflict''"
| "gem_memory_error_name GEM_MEMORY_NOT_RESERVED = ''not-reserved''"
| "gem_memory_error_name GEM_MEMORY_NOT_COMMITTED = ''not-committed''"
| "gem_memory_error_name GEM_MEMORY_ACCESS_DENIED = ''access-denied''"
| "gem_memory_error_name GEM_MEMORY_GUARD_PAGE = ''guard-page''"
| "gem_memory_error_name GEM_MEMORY_NOT_FOUND = ''not-found''"

end
