(* ===== verification/Gem_Access_Write.thy ===== *)
theory Gem_Access_Write
  imports Gem_Access
begin

text \<open>
  The storage behind guest addresses as cells, and the effect of a guest write on them: the
  page-by-page \<open>memcpy\<close> of src/gem/memory.c is a byte-by-byte store, in address order, into the cells
  the range denotes after copy-on-write.
\<close>

section \<open>Cells\<close>

text \<open>Two addresses alias exactly when they denote the same cell.\<close>

datatype cell = Owned_cell backing_ref nat | Host_cell u64

definition cell_of :: "gem_memory \<Rightarrow> backing_ref \<Rightarrow> nat \<Rightarrow> cell option" where
  "cell_of m b i = map_option (\<lambda>k. case bk_data k of Owned _ \<Rightarrow> Owned_cell b i | Host h \<Rightarrow> Host_cell (h + of_nat i))
     (backing_heap m b)"

definition cell :: "gem_memory \<Rightarrow> u64 \<Rightarrow> cell option" where
  "cell m y = Option.bind (Option.bind (page_at m (page_base y)) page_backing)
     (\<lambda>b. cell_of m b (unat (y AND 4095)))"

definition contents :: "gem_memory \<Rightarrow> cell \<Rightarrow> u8 option" where
  "contents m c = (case c of
       Owned_cell b i \<Rightarrow> Option.bind (backing_heap m b) (\<lambda>k. case bk_data k of Owned d \<Rightarrow> Some (d i) | Host _ \<Rightarrow> None)
     | Host_cell h \<Rightarrow> Some (host_memory m h))"

lemma byte_at_contents: "byte_at m y = Option.bind (cell m y) (contents m)"
proof (cases "Option.bind (page_at m (page_base y)) page_backing")
  case (Some b)
  show ?thesis
  proof (cases "backing_heap m b")
    case None
    then show ?thesis using Some by (simp add: byte_at_def cell_def backing_byte_def cell_of_def)
  next
    case (Some k)
    then show ?thesis using \<open>Option.bind (page_at m (page_base y)) page_backing = Some b\<close>
      by (cases "bk_data k") (simp_all add: byte_at_def cell_def backing_byte_def cell_of_def contents_def)
  qed
qed (simp add: byte_at_def cell_def)

text \<open>Where a backing's bytes live; a write changes the bytes and not this.\<close>

definition shape :: "gem_memory \<Rightarrow> backing_ref \<Rightarrow> u64 option option" where
  "shape m b = map_option (\<lambda>k. case bk_data k of Owned _ \<Rightarrow> None | Host h \<Rightarrow> Some h) (backing_heap m b)"

lemma cell_of_shape:
  "cell_of m b i = map_option (\<lambda>s. case s of None \<Rightarrow> Owned_cell b i | Some h \<Rightarrow> Host_cell (h + of_nat i)) (shape m b)"
proof (cases "backing_heap m b")
  case (Some k)
  then show ?thesis by (cases "bk_data k") (simp_all add: cell_of_def shape_def)
qed (simp add: cell_of_def shape_def)

lemma cell_cong:
  assumes "Option.bind (layout m' (page_base y)) page_backing = Option.bind (layout m (page_base y)) page_backing"
    and "shape m' = shape m"
  shows "cell m' y = cell m y"
proof -
  have "cell_of m' = cell_of m" by (intro ext) (simp add: cell_of_shape assms(2))
  then show ?thesis using assms(1) by (simp add: cell_def layout_backing)
qed

section \<open>One piece\<close>

lemma of_nat_offset_inj:
  assumes "i < 4096" and "j < 4096" and "h + of_nat i = h + (of_nat j :: u64)"
  shows "i = j"
proof -
  have "of_nat i = (of_nat j :: u64)" using assms(3) by simp
  then have "unat (of_nat i :: u64) = unat (of_nat j :: u64)" by simp
  moreover have "unat (of_nat i :: u64) = i" "unat (of_nat j :: u64) = j"
    using assms(1,2) by (auto intro: of_nat_inverse [OF refl])
  ultimately show ?thesis by simp
qed

lemma cell_of_inj:
  "cell_of m b i = Some c \<Longrightarrow> cell_of m b j = Some c \<Longrightarrow> i < 4096 \<Longrightarrow> j < 4096 \<Longrightarrow> i = j"
  by (cases "shape m b"; cases "the (shape m b)")
    (auto simp: cell_of_shape dest: of_nat_offset_inj)

lemma write_backing_shape:
  assumes "backing_heap m b = Some k"
  shows "shape (write_backing m b off bytes) = shape m"
  by (cases "bk_data k") (auto simp: write_backing_def shape_def assms fun_eq_iff)

lemma write_backing_frame:
  assumes ok: "mem_ok pins m" and k: "backing_heap m b = Some k"
  shows "mem_ok pins (write_backing m b off bytes)" and "page_heap (write_backing m b off bytes) = page_heap m"
    and "at (write_backing m b off bytes) = at m" and "heap_count (write_backing m b off bytes) = heap_count m"
    and "\<exists>k'. backing_heap (write_backing m b off bytes) b = Some k'"
    and "map_option external (backing_heap (write_backing m b off bytes) x) = map_option external (backing_heap m x)"
proof -
  have ro: "refs_ok pins m" using ok by (simp add: mem_ok_def)
  note lt = alive_lt [OF ro k] and pos = refs_ok_pos [OF ro k] and host = refs_ok_host [OF ro k]
  show "mem_ok pins (write_backing m b off bytes)"
  proof (cases "bk_data k")
    case (Owned d)
    let ?k = "k\<lparr>bk_data := Owned (\<lambda>i. if off \<le> i \<and> i - off < length bytes then bytes ! (i - off) else d i)\<rparr>"
    have eq: "write_backing m b off bytes = m\<lparr>backing_heap := (backing_heap m)(b := Some ?k)\<rparr>"
      by (simp add: write_backing_def k Owned)
    show ?thesis unfolding eq
      by (rule backing_upd_step [OF ok lt]) (use pos host in \<open>auto simp: Owned k\<close>)
  next
    case (Host h)
    show ?thesis by (rule mem_ok_same [OF ok]) (simp_all add: write_backing_def k Host)
  qed
  show "page_heap (write_backing m b off bytes) = page_heap m"
    "heap_count (write_backing m b off bytes) = heap_count m"
    "\<exists>k'. backing_heap (write_backing m b off bytes) b = Some k'"
    "map_option external (backing_heap (write_backing m b off bytes) x) = map_option external (backing_heap m x)"
    by (cases "bk_data k"; simp add: write_backing_def k)+
  show "at (write_backing m b off bytes) = at m"
    by (rule at_cong) (cases "bk_data k"; simp add: write_backing_def k)+
qed

lemma write_backing_contents:
  assumes k: "backing_heap m b = Some k" and fit: "off + length bytes \<le> 4096"
  shows "i < length bytes \<Longrightarrow> cell_of m b (off + i) = Some c \<Longrightarrow>
      contents (write_backing m b off bytes) c = Some (bytes ! i)"
    and "(\<And>i. i < length bytes \<Longrightarrow> cell_of m b (off + i) \<noteq> Some c) \<Longrightarrow>
      contents (write_backing m b off bytes) c = contents m c"
proof -
  show "contents (write_backing m b off bytes) c = Some (bytes ! i)"
    if "i < length bytes" "cell_of m b (off + i) = Some c"
  proof (cases "bk_data k")
    case (Owned d)
    then show ?thesis using that by (auto simp: cell_of_def k contents_def write_backing_def)
  next
    case (Host h)
    have "unat (of_nat i :: u64) = i"
      by (rule of_nat_inverse [OF refl]) (use that(1) fit in simp)
    then show ?thesis using Host that by (auto simp: cell_of_def k contents_def write_backing_def algebra_simps)
  qed
  show "contents (write_backing m b off bytes) c = contents m c"
    if none: "\<And>i. i < length bytes \<Longrightarrow> cell_of m b (off + i) \<noteq> Some c"
  proof (cases "bk_data k")
    case (Owned d)
    show ?thesis
    proof (cases c)
      case (Owned_cell b' j)
      then show ?thesis using Owned none [of "j - off"]
        by (auto simp: cell_of_def k contents_def write_backing_def)
    qed (simp add: Owned contents_def write_backing_def k)
  next
    case (Host h)
    show ?thesis
    proof (cases c)
      case (Host_cell x)
      have "\<not> unat (x - (h + of_nat off)) < length bytes"
        using none [of "unat (x - (h + of_nat off))"] Host_cell Host by (auto simp: cell_of_def k)
      then show ?thesis using Host_cell Host by (simp add: contents_def write_backing_def k)
    qed (simp add: Host contents_def write_backing_def k)
  qed
qed

text \<open>The specification: bytes are stored one after the other.\<close>

definition store_byte :: "gem_memory \<Rightarrow> u64 \<Rightarrow> byte_string \<Rightarrow> (cell \<Rightarrow> u8 option) \<Rightarrow> nat \<Rightarrow> cell \<Rightarrow> u8 option" where
  "store_byte m a buf v i = (case cell m (a + of_nat i) of None \<Rightarrow> v | Some c \<Rightarrow> v(c \<mapsto> buf ! i))"

definition store_bytes :: "gem_memory \<Rightarrow> u64 \<Rightarrow> byte_string \<Rightarrow> nat list \<Rightarrow> (cell \<Rightarrow> u8 option) \<Rightarrow> cell \<Rightarrow> u8 option" where
  "store_bytes m a buf is v = foldl (store_byte m a buf) v is"

lemma store_bytes_eq:
  "store_bytes m a buf is v c = (case find (\<lambda>i. cell m (a + of_nat i) = Some c) (rev is) of
     None \<Rightarrow> v c | Some i \<Rightarrow> Some (buf ! i))"
  unfolding store_bytes_def
  by (induction "is" rule: rev_induct) (auto simp: store_byte_def split: option.splits)

lemma store_bytes_append: "store_bytes m a buf (is @ js) v = store_bytes m a buf js (store_bytes m a buf is v)"
  by (simp add: store_bytes_def)

lemma store_bytes_cong: "cell m' = cell m \<Longrightarrow> store_bytes m' a buf is v = store_bytes m a buf is v"
  by (simp add: store_bytes_eq fun_eq_iff)

lemma page_step:
  fixes p :: u64
  assumes "unat (p AND 4095) + i < 4096"
  shows "page_base (p + of_nat i) = page_base p" and "unat ((p + of_nat i) AND 4095) = unat (p AND 4095) + i"
proof -
  have off: "unat p mod 4096 + i < 4096" using assms by (simp add: unat_page_offset)
  have top: "unat p - unat p mod 4096 \<le> 18446744073709547520"
  proof -
    obtain q where q: "unat p = 4096 * q + unat p mod 4096" by (metis mult_div_mod_eq)
    have "unat p < 2 ^ 64" using unsigned_less [of p] by simp
    then have "q < 2 ^ 52" using q by simp
    then show ?thesis using q by simp
  qed
  have i: "unat (of_nat i :: u64) = i" by (rule of_nat_inverse [OF refl]) (use off in simp)
  have "unat p mod 4096 \<le> unat p" by simp
  then have "unat p + i < 18446744073709551616" using off top by linarith
  then have u: "unat (p + of_nat i) = unat p + i" using unat_add_no_wrap [of p "of_nat i"] i by simp
  have md: "(unat p + i) mod 4096 = unat p mod 4096 + i" using off by (metis mod_add_left_eq mod_less)
  show "unat ((p + of_nat i) AND 4095) = unat (p AND 4095) + i" by (simp add: unat_page_offset u md)
  have "unat (page_base (p + of_nat i)) = unat (page_base p)" by (simp add: unat_page_base u md)
  then show "page_base (p + of_nat i) = page_base p" by (rule unsigned_word_eqI)
qed

lemma touch_backing_step:
  assumes ok: "mem_ok pins m" and k: "backing_heap m b = Some k"
  shows "mem_ok pins (touch_backing m b)" and "page_heap (touch_backing m b) = page_heap m"
    and "at (touch_backing m b) = at m" and "heap_count (touch_backing m b) = heap_count m"
    and "shape (touch_backing m b) = shape m" and "contents (touch_backing m b) = contents m"
    and "map_option external (backing_heap (touch_backing m b) x) = map_option external (backing_heap m x)"
proof -
  let ?n = "snd (next_gen m)" and ?k = "k\<lparr>bk_generation := next_generation m + 1\<rparr>"
  have eq: "touch_backing m b = ?n\<lparr>backing_heap := (backing_heap ?n)(b := Some ?k)\<rparr>"
    by (simp add: touch_backing_def next_gen_def Let_def upd_backing_def k)
  have ro: "refs_ok pins m" using ok by (simp add: mem_ok_def)
  show "mem_ok pins (touch_backing m b)" unfolding eq
    by (rule backing_upd_step [OF mem_ok_next_gen [OF ok]])
      (use alive_lt [OF ro k] refs_ok_pos [OF ro k] refs_ok_host [OF ro k] k in auto)
  show "page_heap (touch_backing m b) = page_heap m" "at (touch_backing m b) = at m"
    "heap_count (touch_backing m b) = heap_count m"
    "map_option external (backing_heap (touch_backing m b) x) = map_option external (backing_heap m x)"
    by (simp_all add: eq k)
  show "shape (touch_backing m b) = shape m" by (auto simp: eq shape_def k fun_eq_iff)
  show "contents (touch_backing m b) = contents m"
    by (auto simp: eq contents_def k fun_eq_iff split: cell.splits backing_data.splits)
qed

lemma touch_page_contents:
  assumes "mem_ok pins m" and "at m q = Some r" and "page_at m q = Some p"
  shows "shape (touch_page m r) = shape m" and "contents (touch_page m r) = contents m"
  using touch_page_step(5,7) [OF assms] by (auto simp: shape_def contents_def fun_eq_iff split: cell.splits)

definition externals :: "gem_memory \<Rightarrow> backing_ref \<Rightarrow> bool option" where
  "externals m b = map_option external (backing_heap m b)"

lemma write_piece_step:
  assumes ok: "mem_ok pins m" and nn: "\<And>b. 0 \<le> pins b"
    and q: "q = page_base (a + of_nat d)" and off: "off = unat ((a + of_nat d) AND 4095)"
    and r: "at m q = Some r" and p: "page_at m q = Some p" "page_backing p = Some b"
    and z: "off + z \<le> 4096" "d + z \<le> length buf"
  defines "m' \<equiv> write_piece buf m (r, q, off, d, z)"
  shows "mem_ok pins m'" and "at m' = at m" and "layout m' = layout m" and "shape m' = shape m"
    and "contents m' = store_bytes m a buf [d..<d + z] (contents m)" and "externals m' = externals m"
    and "heap_count m' = heap_count m"
proof -
  have ix: "index_ok m" using ok by (simp add: mem_ok_def)
  have ph: "page_heap m r = Some p" using r p by (simp add: page_at_def)
  have "layout m q = Some (p\<lparr>generation := 0\<rparr>)" by (simp add: layout_def p)
  then obtain k where k: "backing_heap m b = Some k"
    using layout_backing_alive [OF ok nn, of q] p(2) by fastforce
  let ?bytes = "take z (drop d buf)"
  let ?m1 = "write_backing m b off ?bytes"
  let ?m2 = "touch_backing ?m1 b"
  have m': "m' = touch_page ?m2 r" by (simp add: m'_def write_piece_def ph p(2))
  note w = write_backing_frame [OF ok k, of off ?bytes]
  obtain k1 where k1: "backing_heap ?m1 b = Some k1" using w(5) by blast
  note t = touch_backing_step [OF w(1) k1]
  have at2: "at ?m2 q = Some r" by (simp add: t(3) w(3) r)
  have pa2: "page_at ?m2 = page_at m" by (rule page_at_cong) (simp_all add: t w)
  have p2: "page_at ?m2 q = Some p" by (simp add: pa2 p(1))
  note tp = touch_page_step [OF t(1) at2 p2] and tc = touch_page_contents [OF t(1) at2 p2]
  show "mem_ok pins m'" unfolding m' by (rule tp(1))
  show "at m' = at m" unfolding m' by (simp add: tp(2) t(3) w(3))
  show "layout m' = layout m" unfolding m' by (simp add: tp(8) layout_cong [OF pa2])
  show "shape m' = shape m" unfolding m' by (simp add: tc(1) t(5) write_backing_shape [OF k])
  show "externals m' = externals m"
    unfolding m' externals_def tp(5) using t(7) w(6) by (simp add: fun_eq_iff)
  show "heap_count m' = heap_count m" unfolding m' by (simp add: tp(6) t(4) w(4))
  have len: "length ?bytes = z" using z(2) by simp
  have cl: "cell m (a + of_nat (d + i)) = cell_of m b (off + i)" if "i < z" for i
  proof -
    have "unat ((a + of_nat d) AND 4095) + i < 4096" using that z(1) off by simp
    note ps = page_step [OF this]
    have "a + of_nat (d + i) = (a + of_nat d) + of_nat i" by simp
    then have "page_base (a + of_nat (d + i)) = q" "unat ((a + of_nat (d + i)) AND 4095) = off + i"
      using ps by (simp_all only: q off)
    then show ?thesis by (simp add: cell_def p)
  qed
  have "contents m' c = store_bytes m a buf [d..<d + z] (contents m) c" for c
  proof -
    have c': "contents m' c = contents ?m1 c" unfolding m' by (simp add: tc(2) t(6))
    show ?thesis
    proof (cases "find (\<lambda>i. cell m (a + of_nat i) = Some c) (rev [d..<d + z])")
      case None
      have "cell m (a + of_nat (d + i)) \<noteq> Some c" if "i < z" for i
      proof -
        have "d + i \<in> set (rev [d..<d + z])" using that by simp
        then show ?thesis using None unfolding find_None_iff by blast
      qed
      then have "cell_of m b (off + i) \<noteq> Some c" if "i < length ?bytes" for i
        using that cl unfolding len by auto
      moreover have "off + length ?bytes \<le> 4096" using z(1) len by simp
      ultimately have "contents ?m1 c = contents m c" by (intro write_backing_contents(2) [OF k])
      then show ?thesis using None c' by (simp add: store_bytes_eq)
    next
      case (Some j)
      then have j: "d \<le> j" "j < d + z" "cell m (a + of_nat j) = Some c"
        unfolding find_Some_iff by (metis atLeastLessThan_iff nth_mem set_rev set_upt)+
      then have "cell_of m b (off + (j - d)) = Some c" using cl [of "j - d"] by simp
      from write_backing_contents(1) [OF k _ _ this] show ?thesis
        using Some j z len c' by (simp add: store_bytes_eq)
    qed
  qed
  then show "contents m' = store_bytes m a buf [d..<d + z] (contents m)" by blast
qed

text \<open>The pieces of a range: they follow each other and cover it.\<close>

fun pieces_ok :: "u64 \<Rightarrow> nat \<Rightarrow> nat \<Rightarrow> piece list \<Rightarrow> bool" where
  "pieces_ok a d e [] \<longleftrightarrow> d = e"
| "pieces_ok a d e ((q, off, d', z) # cs) \<longleftrightarrow> d' = d \<and> q = page_base (a + of_nat d) \<and>
     off = unat ((a + of_nat d) AND 4095) \<and> 0 < z \<and> off + z \<le> 4096 \<and> d + z \<le> e \<and>
     (d + z < e \<longrightarrow> off + z = 4096) \<and> pieces_ok a (d + z) e cs"

lemma write_pieces:
  assumes "mem_ok pins m" and "\<And>b. 0 \<le> pins b" and "pieces_ok a d e cs" and "e \<le> length buf"
    and "list_all2 (\<lambda>c r. at m (fst c) = Some r \<and> (\<exists>p b. layout m (fst c) = Some p \<and> page_backing p = Some b)) cs ps"
  defines "m' \<equiv> foldl (write_piece buf) m (zip ps cs)"
  shows "mem_ok pins m' \<and> at m' = at m \<and> layout m' = layout m \<and> shape m' = shape m \<and>
    contents m' = store_bytes m a buf [d..<e] (contents m) \<and> externals m' = externals m \<and>
    heap_count m' = heap_count m"
  using assms(1,3-5) unfolding m'_def
proof (induction cs arbitrary: m d ps)
  case Nil
  then show ?case by (simp add: store_bytes_def)
next
  case (Cons c cs)
  obtain q off z where c: "c = (q, off, d, z)" "q = page_base (a + of_nat d)"
      "off = unat ((a + of_nat d) AND 4095)" "off + z \<le> 4096" "d + z \<le> e" "pieces_ok a (d + z) e cs"
    using Cons.prems(2) by (cases c) auto
  obtain r rs p b where ps: "ps = r # rs" "at m q = Some r" "layout m q = Some p" "page_backing p = Some b"
    and all: "list_all2 (\<lambda>c r. at m (fst c) = Some r \<and> (\<exists>p b. layout m (fst c) = Some p \<and> page_backing p = Some b)) cs rs"
    using Cons.prems(4) c(1) by (auto simp: list_all2_Cons1)
  obtain p' where p': "page_at m q = Some p'" "page_backing p' = Some b"
    using ps(3,4) by (auto simp: layout_def)
  have "d + z \<le> length buf" using c(5) Cons.prems(3) by simp
  note st = write_piece_step [OF Cons.prems(1) assms(2) c(2,3) ps(2) p' c(4) this]
  let ?m1 = "write_piece buf m (r, q, off, d, z)"
  have all1: "list_all2 (\<lambda>c r. at ?m1 (fst c) = Some r \<and> (\<exists>p b. layout ?m1 (fst c) = Some p \<and> page_backing p = Some b)) cs rs"
    using all by (simp add: st(2,3))
  note ih = Cons.IH [OF st(1) c(6) Cons.prems(3) all1]
  have cm: "cell ?m1 = cell m" by (intro ext cell_cong) (simp_all add: st)
  have up: "[d..<d + z] @ [d + z..<e] = [d..<e]"
    using c(5) by (metis le_add1 le_add_diff_inverse upt_add_eq_append)
  show ?case
    using ih st by (simp add: ps(1) c(1) store_bytes_cong [OF cm] up [symmetric] store_bytes_append)
qed

end
