(* ===== verification/Gem_Access_Copy.thy ===== *)
theory Gem_Access_Copy
  imports Gem_Access_Write
begin

text \<open>
  The phases of \<open>access_memory_locked\<close> before the data moves: cutting the range into pieces,
  validating the pages, and copy-on-write.
\<close>

section \<open>Pieces\<close>

lemma piece_count:
  fixes off n d :: nat
  assumes "off < 4096" and "d < n" and "z = (if 4096 - off > n - d then n - d else 4096 - off)"
    and "Suc i = (n - d + off + 4095) div 4096"
  shows "0 < z" and "off + z \<le> 4096" and "d + z \<le> n"
    and "d + z = n \<Longrightarrow> i = 0" and "d + z < n \<Longrightarrow> off + z = 4096 \<and> i = (n - (d + z) + 4095) div 4096"
proof -
  show "0 < z" "off + z \<le> 4096" "d + z \<le> n" using assms(1-3) by auto
  show "i = 0" if "d + z = n"
  proof -
    have "n - d + off \<le> 4096" using that assms(1,3) by (auto split: if_splits)
    then have "(n - d + off + 4095) div 4096 \<le> 1" by (simp add: div_le_mono less_Suc_eq_le)
    then show ?thesis using assms(4) by simp
  qed
  show "off + z = 4096 \<and> i = (n - (d + z) + 4095) div 4096" if "d + z < n"
  proof -
    have z: "z = 4096 - off" using that assms(2,3) by (auto split: if_splits)
    then have "n - d + off + 4095 = (n - (d + z) + 4095) + 4096" using that assms(1) by simp
    then have "(n - d + off + 4095) div 4096 = (n - (d + z) + 4095) div 4096 + 1" by (simp only: div_add_self2)
    then show ?thesis using z assms(1,4) by simp
  qed
qed

lemma access_pieces_ok:
  fixes a :: u64
  assumes "unat a + n < 2 ^ 64"
    and "d = n \<and> i = 0 \<or> d < n \<and> i = (n - d + unat ((a + of_nat d) AND 4095) + 4095) div 4096"
  shows "pieces_ok a d n (access_pieces i a n d)"
  using assms(2)
proof (induction i arbitrary: d)
  case 0
  then show ?case by auto
next
  case (Suc i)
  let ?off = "unat ((a + of_nat d) AND 4095)"
  let ?z = "if 4096 - ?off > n - d then n - d else 4096 - ?off"
  have d: "d < n" "Suc i = (n - d + ?off + 4095) div 4096" using Suc.prems by auto
  have off: "?off < 4096" by (simp add: unat_page_offset)
  note pc = piece_count [OF off d(1) refl d(2)]
  have un: "unat (a + of_nat j) = unat a + j" if "j \<le> n" for j
  proof -
    have "unat (of_nat j :: u64) = j" by (rule of_nat_inverse [OF refl]) (use that assms(1) in simp)
    then show ?thesis using unat_add_no_wrap [of a "of_nat j"] that assms(1) by simp
  qed
  have "pieces_ok a (d + ?z) n (access_pieces i a n (d + ?z))"
  proof (rule Suc.IH, cases "d + ?z = n")
    case True
    then show "d + ?z = n \<and> i = 0 \<or> d + ?z < n \<and>
        i = (n - (d + ?z) + unat ((a + of_nat (d + ?z)) AND 4095) + 4095) div 4096" using pc(4) by blast
  next
    case False
    then have lt: "d + ?z < n" using pc(3) by simp
    have "unat ((a + of_nat (d + ?z)) AND 4095) = (unat a + d + ?z) mod 4096"
      by (subst unat_page_offset, subst un) (use pc(3) in \<open>simp_all add: add.assoc\<close>)
    also have "\<dots> = (?off + ?z) mod 4096"
      by (subst unat_page_offset, subst un) (use d(1) in \<open>simp_all add: mod_add_left_eq\<close>)
    also have "\<dots> = 0" using pc(5) [OF lt] by simp
    finally show "d + ?z = n \<and> i = 0 \<or> d + ?z < n \<and>
        i = (n - (d + ?z) + unat ((a + of_nat (d + ?z)) AND 4095) + 4095) div 4096"
      using lt pc(5) [OF lt] by simp
  qed
  then show ?case using pc(1-3) pc(5) by (simp add: Let_def)
qed

text \<open>The page count of the C code, computed without overflow.\<close>

lemma access_pages:
  fixes a n :: u64
  assumes "a \<le> - 1 - n" and "n \<noteq> 0" and "n \<le> - 1 - (a AND 4095) - 4095"
  shows "pieces_ok a 0 (unat n) (access_pieces (unat ((n + (a AND 4095) + 4095) div 4096)) a (unat n) 0)"
proof (rule access_pieces_ok)
  show an: "unat a + unat n < 2 ^ 64" using assms(1) by (simp add: no_wrap_iff)
  have off: "unat (a AND 4095) < 4096" by (simp add: unat_page_offset)
  have s: "unat ((a AND 4095) + 4095) = unat (a AND 4095) + 4095"
    by (subst unat_add_no_wrap) (use off in simp_all)
  have "n \<le> - 1 - ((a AND 4095) + 4095)" using assms(3) by (simp only: diff_diff_eq)
  then have "unat n + (unat (a AND 4095) + 4095) < 2 ^ 64" using s unfolding no_wrap_iff by simp
  then have "unat (n + ((a AND 4095) + 4095)) = unat n + (unat (a AND 4095) + 4095)"
    using unat_add_no_wrap [of n "(a AND 4095) + 4095"] s by simp
  then have "unat ((n + (a AND 4095) + 4095) div 4096) = (unat n + unat (a AND 4095) + 4095) div 4096"
    by (simp add: unat_div add.assoc)
  then show "0 = unat n \<and> unat ((n + (a AND 4095) + 4095) div 4096) = 0 \<or>
      0 < unat n \<and> unat ((n + (a AND 4095) + 4095) div 4096) =
        (unat n - 0 + unat ((a + of_nat 0) AND 4095) + 4095) div 4096"
    using assms(2) by (simp add: unat_gt_0)
qed

text \<open>The pieces of a range lie in different pages.\<close>

lemma pieces_distinct:
  fixes a :: u64
  assumes "unat a + e < 2 ^ 64" and "pieces_ok a d e cs"
  shows "distinct (map fst cs) \<and> (\<forall>q \<in> fst ` set cs. unat (page_base (a + of_nat d)) \<le> unat q)"
  using assms(2)
proof (induction cs arbitrary: d)
  case Nil
  then show ?case by simp
next
  case (Cons c cs)
  obtain q off z where c: "c = (q, off, d, z)" "q = page_base (a + of_nat d)"
      "off = unat ((a + of_nat d) AND 4095)" "0 < z" "off + z \<le> 4096" "d + z \<le> e" "pieces_ok a (d + z) e cs"
      "d + z < e \<longrightarrow> off + z = 4096"
    using Cons.prems by (cases c) auto
  have un: "unat (a + of_nat j) = unat a + j" if "j \<le> e" for j
  proof -
    have "unat (of_nat j :: u64) = j" by (rule of_nat_inverse [OF refl]) (use that assms(1) in simp)
    then show ?thesis using unat_add_no_wrap [of a "of_nat j"] that assms(1) by simp
  qed
  have base: "unat (page_base (a + of_nat j)) = (unat a + j) - (unat a + j) mod 4096" if "j \<le> e" for j
    by (simp add: unat_page_base un [OF that])
  note ih = Cons.IH [OF c(7)]
  show ?case
  proof (cases cs)
    case Nil
    then show ?thesis using c by simp
  next
    case (Cons c' cs')
    then have more: "d + z < e" and full: "off + z = 4096"
    proof -
      show "d + z < e" using c(7) Cons by (cases c') auto
      then show "off + z = 4096" using c(8) by blast
    qed
    have o: "off = (unat a + d) mod 4096" using c(3) un [of d] c(6) by (simp add: unat_page_offset)
    have "unat (page_base (a + of_nat (d + z))) = unat q + 4096"
    proof -
      define X where "X = unat a + d - off"
      have e: "unat a + (d + z) = X + 4096" using full o by (simp add: X_def)
      have "X mod 4096 = 0" using o by (simp add: X_def minus_mod_eq_mult_div)
      then have m: "(X + 4096) mod 4096 = 0" by simp
      have "unat (page_base (a + of_nat (d + z))) = X + 4096"
        using base [OF c(6)] unfolding e m by simp
      moreover have "unat q = X" using base [of d] c(2,6) o by (simp add: X_def)
      ultimately show ?thesis by simp
    qed
    then have "unat q < unat q'" if "q' \<in> fst ` set cs" for q' using ih that by fastforce
    then show ?thesis using ih c(1,2) by (force simp: less_imp_le)
  qed
qed

section \<open>Validation\<close>

definition valid_piece :: "gem_memory \<Rightarrow> bool \<Rightarrow> bool \<Rightarrow> piece \<Rightarrow> page_ref \<Rightarrow> bool" where
  "valid_piece m w x c r \<longleftrightarrow> at m (fst c) = Some r \<and>
     (\<exists>p. page_heap m r = Some p \<and> page_backing p \<noteq> None \<and> allowed (protection p) w x)"

lemma access_check_Inr: "access_check m w x cs = Inr ps \<longleftrightarrow> list_all2 (valid_piece m w x) cs ps"
proof (induction cs arbitrary: ps)
  case (Cons c cs)
  obtain q t where c: "c = (q, t)" by (rule prod.exhaust)
  show ?case
  proof (cases "at m q")
    case (Some r)
    show ?thesis
    proof (cases "page_heap m r")
      case None
      then show ?thesis using Some c by (auto simp: list_all2_Cons1 valid_piece_def)
    next
      case (Some p)
      then show ?thesis using \<open>at m q = Some r\<close> c Cons.IH
        by (auto simp: list_all2_Cons1 valid_piece_def rbind_Inr_iff)
    qed
  qed (auto simp: c list_all2_Cons1 valid_piece_def)
qed auto

lemma access_check_Inl: "access_check m w x cs = Inl e \<Longrightarrow> e \<noteq> GEM_MEMORY_OK"
proof (induction cs)
  case (Cons c cs)
  then show ?case by (cases c) (auto simp: rbind_Inl_iff split: option.splits if_splits)
qed simp

lemma access_check_Inl_guard: "access_check m w x cs = Inl e \<Longrightarrow> e \<noteq> GEM_MEMORY_GUARD_PAGE"
proof (induction cs)
  case (Cons c cs)
  then show ?case by (cases c) (auto simp: rbind_Inl_iff split: option.splits if_splits)
qed simp

lemma at_ref_inj: "index_ok m \<Longrightarrow> at m q = Some r \<Longrightarrow> at m q' = Some r \<Longrightarrow> q = q'"
  using at_iff by fastforce

section \<open>Copy on write\<close>

definition copy_entry :: "gem_memory \<Rightarrow> gem_memory \<Rightarrow> page_ref \<Rightarrow> backing_ref option \<Rightarrow> bool" where
  "copy_entry m m' r c \<longleftrightarrow> (\<exists>p b k. page_heap m r = Some p \<and> page_backing p = Some b \<and> backing_heap m b = Some k \<and>
     (case c of None \<Rightarrow> \<not> writecopy p \<or> external k
      | Some b' \<Rightarrow> writecopy p \<and> \<not> external k \<and> heap_count m \<le> b' \<and>
          (\<exists>k'. backing_heap m' b' = Some k' \<and> bk_data k' = bk_data k \<and> \<not> external k')))"

lemma new_copy_step:
  assumes ok: "mem_ok pins m" and nb: "new_backing m None = (Some b, m1)" and d: "bk_data k = Owned d"
  defines "m2 \<equiv> upd_backing m1 b (\<lambda>k'. k'\<lparr>bk_data := Owned (data_bytes m k)\<rparr>)"
  shows "mem_ok (\<lambda>x. pins x + (if b = x then 1 else 0)) m2" and "grows m m2" and "b = heap_count m"
    and "b < heap_count m2" and "\<exists>k'. backing_heap m2 b = Some k' \<and> bk_data k' = bk_data k \<and> \<not> external k'"
proof -
  let ?pins = "\<lambda>x. pins x + (if b = x then 1 else 0)"
  have "\<And>x. ?pins x = pins x + (if Some b = Some x then 1 else 0)" by simp
  note st = new_backing_step [OF ok nb this]
  let ?k1 = "fresh_backing None (heap_garbage m b)"
  let ?k2 = "?k1\<lparr>bk_data := Owned (data_bytes m k)\<rparr>"
  have b: "b = heap_count m" "b < heap_count m1" "backing_heap m1 b = Some ?k1" using st(6-8) by simp_all
  have m2: "m2 = m1\<lparr>backing_heap := (backing_heap m1)(b := Some ?k2)\<rparr>"
    by (simp add: m2_def upd_backing_def b(3))
  show "mem_ok ?pins m2" unfolding m2
    by (rule backing_upd_step [OF st(1) b(2)]) (simp_all add: fresh_backing_def b(3))
  have "grows m m1" by (rule new_backing_grows [OF ok nb])
  then show "grows m m2" using b(1) by (auto simp: grows_def m2)
  show "b = heap_count m" "b < heap_count m2" using b by (simp_all add: m2)
  have "data_bytes m k = d" by (simp add: fun_eq_iff data_bytes_def d)
  then show "\<exists>k'. backing_heap m2 b = Some k' \<and> bk_data k' = bk_data k \<and> \<not> external k'"
    by (simp add: m2 d fresh_backing_def)
qed

lemma copy_entry_grows:
  assumes "copy_entry m1 m' r c" and "grows m m1" and "mem_ok pins m" and "\<And>b. 0 \<le> pins b"
  shows "copy_entry m m' r c"
proof -
  obtain p b k where pk: "page_heap m1 r = Some p" "page_backing p = Some b" "backing_heap m1 b = Some k"
    and c: "case c of None \<Rightarrow> \<not> writecopy p \<or> external k
      | Some b' \<Rightarrow> writecopy p \<and> \<not> external k \<and> heap_count m1 \<le> b' \<and>
          (\<exists>k'. backing_heap m' b' = Some k' \<and> bk_data k' = bk_data k \<and> \<not> external k')"
    using assms(1) by (auto simp: copy_entry_def)
  have ph: "page_heap m r = Some p" using pk(1) assms(2) by (simp add: grows_def)
  have "finite (dom (page_heap m))" using assms(3) index_on_finite unfolding mem_ok_def index_ok_def by blast
  then obtain k0 where k0: "backing_heap m b = Some k0"
    using held_alive [of pins m r p b] assms(3,4) ph pk(2) by (auto simp: mem_ok_def)
  then have "b < heap_count m" using alive_lt assms(3) unfolding mem_ok_def by blast
  then have "k0 = k" using assms(2) k0 pk(3) by (simp add: grows_def)
  then show ?thesis using ph pk(2) k0 c assms(2) unfolding copy_entry_def grows_def
    by (auto split: option.splits)
qed

lemma copy_alloc_step:
  assumes "mem_ok (\<lambda>b. pins b + held cs b) m" and "\<And>b. 0 \<le> pins b"
    and "\<And>r. r \<in> set rs \<Longrightarrow> \<exists>p. page_heap m r = Some p \<and> page_backing p \<noteq> None"
    and "copy_alloc rs m cs = (ro, cs', m')"
  shows "mem_ok (\<lambda>b. pins b + held (case ro of None \<Rightarrow> cs' | Some l \<Rightarrow> l) b) m' \<and> grows m m' \<and>
    (case ro of None \<Rightarrow> True | Some l \<Rightarrow> \<exists>news. l = rev cs @ news \<and> list_all2 (copy_entry m m') rs news)"
  using assms(1,3,4)
proof (induction rs arbitrary: m cs)
  case Nil
  then show ?case by auto
next
  case (Cons r rs)
  have nn: "\<And>b. 0 \<le> pins b + held cs b" using assms(2) by simp
  obtain p b where p: "page_heap m r = Some p" "page_backing p = Some b" using Cons.prems(2) by fastforce
  have "finite (dom (page_heap m))" using Cons.prems(1) index_on_finite unfolding mem_ok_def index_ok_def by blast
  then obtain k where k: "backing_heap m b = Some k"
    using held_alive [of "\<lambda>b. pins b + held cs b" m r p b] Cons.prems(1) nn p by (auto simp: mem_ok_def)
  show ?case
  proof (cases "writecopy p \<and> \<not> external k")
    case False
    then have "copy_alloc rs m (None # cs) = (ro, cs', m')" using Cons.prems(3) p k by (simp split: if_splits)
    from Cons.IH [OF _ _ this]
    have ih: "mem_ok (\<lambda>b. pins b + held (case ro of None \<Rightarrow> cs' | Some l \<Rightarrow> l) b) m' \<and> grows m m' \<and>
      (case ro of None \<Rightarrow> True | Some l \<Rightarrow> \<exists>news. l = rev (None # cs) @ news \<and> list_all2 (copy_entry m m') rs news)"
      using Cons.prems(1,2) by simp
    have "copy_entry m m' r None" using p k False by (auto simp: copy_entry_def)
    then show ?thesis using ih by (cases ro) auto
  next
    case True
    then obtain d where d: "bk_data k = Owned d"
      using refs_ok_host [of "\<lambda>b. pins b + held cs b" m b k] k Cons.prems(1)
      by (cases "bk_data k") (auto simp: mem_ok_def)
    obtain bo m1 where nb: "new_backing m None = (bo, m1)" by fastforce
    show ?thesis
    proof (cases bo)
      case None
      then have "ro = None" "cs' = cs" "m' = m1" using Cons.prems(3) p k True nb by auto
      moreover note new_backing_step(1) [OF Cons.prems(1) nb, of "\<lambda>b. pins b + held cs b"]
      ultimately show ?thesis using None new_backing_grows [OF Cons.prems(1) nb] by simp
    next
      case (Some c)
      let ?m2 = "upd_backing m1 c (\<lambda>k'. k'\<lparr>bk_data := Owned (data_bytes m k)\<rparr>)"
      note st = new_copy_step [OF Cons.prems(1) nb [unfolded Some] d]
      have dm: "data_bytes m1 k = data_bytes m k" by (simp add: fun_eq_iff data_bytes_def d)
      have run: "copy_alloc rs ?m2 (Some c # cs) = (ro, cs', m')"
        using Cons.prems(3) p k True nb Some dm by simp
      have "(\<lambda>b. pins b + held (Some c # cs) b) = (\<lambda>x. pins x + held cs x + (if c = x then 1 else 0))"
        by (auto simp: fun_eq_iff)
      then have ok2: "mem_ok (\<lambda>b. pins b + held (Some c # cs) b) ?m2" using st(1) by simp
      have "\<exists>p. page_heap ?m2 r = Some p \<and> page_backing p \<noteq> None" if "r \<in> set rs" for r
        using Cons.prems(2) [of r] that st(2) by (simp add: grows_def)
      from Cons.IH [OF ok2 this run]
      have ih: "mem_ok (\<lambda>b. pins b + held (case ro of None \<Rightarrow> cs' | Some l \<Rightarrow> l) b) m'" "grows ?m2 m'"
        "case ro of None \<Rightarrow> True | Some l \<Rightarrow> \<exists>news. l = rev (Some c # cs) @ news \<and> list_all2 (copy_entry ?m2 m') rs news"
        by auto
      obtain k' where "backing_heap ?m2 c = Some k'" "bk_data k' = bk_data k" "\<not> external k'" using st(5) by blast
      then have "backing_heap m' c = Some k'" using ih(2) st(4) by (simp add: grows_def)
      then have "copy_entry m m' r (Some c)"
        using p k True st(3) \<open>bk_data k' = bk_data k\<close> \<open>\<not> external k'\<close> by (auto simp: copy_entry_def)
      moreover have "list_all2 (copy_entry m m') rs news" if "list_all2 (copy_entry ?m2 m') rs news" for news
        using that by (rule list_all2_mono) (rule copy_entry_grows [OF _ st(2) Cons.prems(1) nn])
      ultimately show ?thesis using ih grows_trans [OF st(2) ih(2)] by (cases ro) auto
    qed
  qed
qed

end
