(* ===== verification/Gem_Access_Install.thy ===== *)
theory Gem_Access_Install
  imports Gem_Access_Copy
begin

text \<open>Installing the private copies, and what an access does to the page table.\<close>

section \<open>Unguarded pages\<close>

lemma clear_guard_id: "protection p AND GEM_PAGE_GUARD = 0 \<Longrightarrow> clear_guard p = p"
proof -
  assume "protection p AND GEM_PAGE_GUARD = 0"
  moreover have "(x AND NOT y) + (x AND y) = x" for x y :: u32
    by (subst disjunctive_add) (auto simp: bit_simps intro!: bit_eqI)
  from this [of "protection p" GEM_PAGE_GUARD]
  have "(protection p AND NOT GEM_PAGE_GUARD) + (protection p AND GEM_PAGE_GUARD) = protection p" .
  ultimately have "protection p AND NOT GEM_PAGE_GUARD = protection p" by (simp only: add_0_right)
  then show ?thesis by (cases p) (simp add: clear_guard_def)
qed

lemma clear_guards_id:
  assumes "\<And>r. r \<in> set ps \<Longrightarrow> \<exists>p. page_heap m r = Some p \<and> protection p AND GEM_PAGE_GUARD = 0"
  shows "foldl (\<lambda>m r. upd_page m r clear_guard) m ps = m"
  using assms
proof (induction ps)
  case (Cons r ps)
  obtain p where p: "page_heap m r = Some p" "protection p AND GEM_PAGE_GUARD = 0" using Cons.prems by auto
  have "upd_page m r clear_guard = m"
    using p by (simp add: upd_page_def clear_guard_id fun_upd_idem)
  then show ?case using Cons by simp
qed simp

section \<open>Installing copies\<close>

text \<open>What a page becomes: \<open>ext\<close> says that its backing is caller-owned.\<close>

definition installed :: "bool \<Rightarrow> backing_ref option \<Rightarrow> page \<Rightarrow> page" where
  "installed ext c p = (case c of
       Some b \<Rightarrow> p\<lparr>page_backing := Some b, protection := written_protection p\<rparr>
     | None \<Rightarrow> if ext \<and> writecopy p then p\<lparr>protection := written_protection p\<rparr> else p)"

lemma installed_generation:
  "written_protection (p\<lparr>generation := g\<rparr>) = written_protection p"
  "writecopy (p\<lparr>generation := g\<rparr>) = writecopy p"
  by (simp_all add: written_protection_def writecopy_def)

lemma install_copy_step:
  assumes ok: "mem_ok pins m" and nn: "\<And>b. 0 \<le> pins b" and pc: "\<And>b. c = Some b \<Longrightarrow> 0 < pins b"
    and r: "at m q = Some r" and p: "layout m q = Some p" "page_backing p = Some b0"
    and pins: "\<And>b. pins' b = pins b - (if c = Some b then 1 else 0)"
  shows "mem_ok pins' (install_copy m (r, c))" and "at (install_copy m (r, c)) = at m"
    and "bk_frame m (install_copy m (r, c))"
    and "layout (install_copy m (r, c)) = (layout m)(q \<mapsto> installed (externals m b0 = Some True) c p)"
proof -
  obtain r' p' where p': "at m q = Some r'" "page_heap m r' = Some p'" "p = p'\<lparr>generation := 0\<rparr>"
    using layout_at [OF ok p(1)] by metis
  then have ph: "page_heap m r = Some p'" "page_backing p' = Some b0" using r p(2) by simp_all
  obtain k0 where k0: "backing_heap m b0 = Some k0" using layout_backing_alive [OF ok nn p(1,2)] by blast
  have "mem_ok pins' (install_copy m (r, c)) \<and> at (install_copy m (r, c)) = at m \<and>
    bk_frame m (install_copy m (r, c)) \<and>
    layout (install_copy m (r, c)) = (layout m)(q \<mapsto> installed (externals m b0 = Some True) c p)"
  proof (cases c)
    case None
    have pp: "pins' = pins" using pins None by (simp add: fun_eq_iff)
    show ?thesis
    proof (cases "external k0 \<and> writecopy p'")
      case True
      let ?f = "\<lambda>p. p\<lparr>protection := written_protection p\<rparr>"
      have eq: "install_copy m (r, c) = upd_page m r ?f" by (simp add: install_copy_def ph None k0 True)
      have "mem_ok pins (upd_page m r ?f)" "layout (upd_page m r ?f) = (layout m)(q \<mapsto> ?f p)"
        "bk_frame m (upd_page m r ?f)" "at (upd_page m r ?f) = at m"
        by (rule upd_page_layout [OF ok p(1) r]; simp add: installed_generation)+
      then show ?thesis unfolding eq using True None k0 p'(3) pp
        by (simp add: installed_def externals_def installed_generation)
    next
      case False
      then have "install_copy m (r, c) = m" by (auto simp: install_copy_def ph None k0)
      then show ?thesis using ok pp False None k0 p' p(1)
        by (auto simp: installed_def externals_def installed_generation fun_upd_idem)
    qed
  next
    case (Some b)
    let ?f = "\<lambda>p. p\<lparr>page_backing := Some b, protection := written_protection p\<rparr>"
    let ?m1 = "drop_backing m (Some b0)"
    have eq: "install_copy m (r, c) = touch_page (upd_page ?m1 r ?f) r"
      by (simp add: install_copy_def ph Some)
    let ?pins1 = "\<lambda>x. pins x - (if x = b0 then 1 else 0)"
    note dr = drop_backing_step [OF ok k0, of ?pins1, OF refl]
    have la: "layout ?m1 q = Some p" "at ?m1 q = Some r"
      using p r dr(2,3) by (simp_all add: layout_def)
    have pin: "pins' x = ?pins1 x + holds (Some p) x - holds (Some (?f p)) x" for x
      using p(2) by (auto simp: pins Some)
    have u: "mem_ok pins' (upd_page ?m1 r ?f)" "layout (upd_page ?m1 r ?f) = (layout ?m1)(q \<mapsto> ?f p)"
        "bk_frame ?m1 (upd_page ?m1 r ?f)" "at (upd_page ?m1 r ?f) = at ?m1"
      by (rule upd_page_layout [OF dr(1) la, of ?f pins']; use pin in \<open>simp add: installed_generation\<close>)+
    have "at (upd_page ?m1 r ?f) q = Some r" by (simp add: u(4) la)
    note t = touch_layout [OF u(1) this]
    have "layout ?m1 = layout m" by (rule layout_cong [OF dr(3)])
    then show ?thesis unfolding eq
      using t u dr(2,4) bk_frame_trans [OF dr(4) bk_frame_trans [OF u(3) t(3)]]
      by (simp add: installed_def Some)
  qed
  then show "mem_ok pins' (install_copy m (r, c))" "at (install_copy m (r, c)) = at m"
    "bk_frame m (install_copy m (r, c))"
    "layout (install_copy m (r, c)) = (layout m)(q \<mapsto> installed (externals m b0 = Some True) c p)" by auto
qed

lemma externals_frame:
  assumes "bk_frame m m'" and "backing_heap m b = Some k" and "backing_heap m' b = Some k'" and "b < heap_count m"
  shows "externals m' b = externals m b"
proof -
  have "k'\<lparr>refs := 0\<rparr> = k\<lparr>refs := 0\<rparr>" using assms unfolding bk_frame_def by fastforce
  then have "external k' = external k" by (cases k; cases k') simp
  then show ?thesis using assms by (simp add: externals_def)
qed

lemma install_copies:
  assumes "mem_ok pins m" and "\<And>b. held cs b \<le> pins b"
    and "list_all2 (\<lambda>q r. at m q = Some r) qs ps" and "length cs = length ps" and "distinct qs"
    and "\<And>q. q \<in> set qs \<Longrightarrow> \<exists>p b. layout m q = Some p \<and> page_backing p = Some b"
  defines "m' \<equiv> foldl install_copy m (zip ps cs)"
  shows "mem_ok (\<lambda>b. pins b - held cs b) m' \<and> at m' = at m \<and> bk_frame m m' \<and>
    (\<forall>x. x \<notin> set qs \<longrightarrow> layout m' x = layout m x) \<and>
    (\<forall>i < length qs. \<exists>p b. layout m (qs ! i) = Some p \<and> page_backing p = Some b \<and>
       layout m' (qs ! i) = Some (installed (externals m b = Some True) (cs ! i) p))"
  using assms(1-6) unfolding m'_def
proof (induction qs arbitrary: m pins ps cs)
  case Nil
  then show ?case by simp
next
  case (Cons q qs)
  obtain r rs where ps: "ps = r # rs" "at m q = Some r" "list_all2 (\<lambda>q r. at m q = Some r) qs rs"
    using Cons.prems(3) by (auto simp: list_all2_Cons1)
  obtain c ds where cs: "cs = c # ds" "length ds = length rs" using Cons.prems(4) ps(1) by (cases cs) auto
  obtain p b0 where p: "layout m q = Some p" "page_backing p = Some b0" using Cons.prems(6) [of q] by auto
  let ?m1 = "install_copy m (r, c)" and ?pins1 = "\<lambda>b. pins b - (if c = Some b then 1 else 0)"
  have hc: "held cs b = (if c = Some b then 1 else 0) + held ds b" for b by (cases c) (auto simp: cs)
  have nn: "\<And>b. 0 \<le> pins b" using Cons.prems(2) held_nonneg order.trans by blast
  have pc: "0 < pins b" if "c = Some b" for b using Cons.prems(2) [of b] hc [of b] held_nonneg [of ds b] that by (simp del: held_nonneg)
  note st = install_copy_step [where pins = pins and pins' = ?pins1 and c = c, OF Cons.prems(1) nn _ ps(2) p refl]
  have st: "mem_ok ?pins1 ?m1" "at ?m1 = at m" "bk_frame m ?m1"
    "layout ?m1 = (layout m)(q \<mapsto> installed (externals m b0 = Some True) c p)"
    by (rule st, erule pc)+
  have le: "held ds b \<le> ?pins1 b" for b using Cons.prems(2) [of b] hc [of b] by simp
  have "list_all2 (\<lambda>q r. at ?m1 q = Some r) qs rs" using ps(3) by (simp add: st(2))
  moreover have dist: "distinct qs" "q \<notin> set qs" using Cons.prems(5) by simp_all
  moreover have pre: "\<exists>p b. layout ?m1 x = Some p \<and> page_backing p = Some b" if "x \<in> set qs" for x
    using Cons.prems(6) [of x] that dist(2) by (auto simp: st(4))
  ultimately have ih: "mem_ok (\<lambda>b. ?pins1 b - held ds b) (foldl install_copy ?m1 (zip rs ds)) \<and>
    at (foldl install_copy ?m1 (zip rs ds)) = at ?m1 \<and> bk_frame ?m1 (foldl install_copy ?m1 (zip rs ds)) \<and>
    (\<forall>x. x \<notin> set qs \<longrightarrow> layout (foldl install_copy ?m1 (zip rs ds)) x = layout ?m1 x) \<and>
    (\<forall>i < length qs. \<exists>p b. layout ?m1 (qs ! i) = Some p \<and> page_backing p = Some b \<and>
       layout (foldl install_copy ?m1 (zip rs ds)) (qs ! i) = Some (installed (externals ?m1 b = Some True) (ds ! i) p))"
    by (intro Cons.IH [OF st(1) le _ cs(2)]) auto
  let ?m' = "foldl install_copy ?m1 (zip rs ds)"
  have fold: "foldl install_copy m (zip ps cs) = ?m'" by (simp add: ps(1) cs(1))
  have nn1: "0 \<le> ?pins1 b" for b using le [of b] held_nonneg [of ds b] by linarith
  have ent: "\<exists>p b. layout m ((q # qs) ! i) = Some p \<and> page_backing p = Some b \<and>
       layout ?m' ((q # qs) ! i) = Some (installed (externals m b = Some True) (cs ! i) p)"
    if i: "i < length (q # qs)" for i
  proof (cases i)
    case 0
    then show ?thesis using p ih dist(2) by (simp add: st(4) cs(1))
  next
    case (Suc j)
    then obtain p b where pb: "layout ?m1 (qs ! j) = Some p" "page_backing p = Some b"
        "layout ?m' (qs ! j) = Some (installed (externals ?m1 b = Some True) (ds ! j) p)"
      using ih i by auto
    have "qs ! j \<noteq> q" using dist(2) i Suc by auto
    then have lm: "layout m (qs ! j) = Some p" using pb(1) by (simp add: st(4))
    obtain k where k: "backing_heap m b = Some k" using layout_backing_alive [OF Cons.prems(1) nn lm pb(2)] by blast
    obtain k1 where k1: "backing_heap ?m1 b = Some k1" using layout_backing_alive [OF st(1) nn1 pb(1,2)] by blast
    have "b < heap_count m" using alive_lt [OF _ k] Cons.prems(1) by (auto simp: mem_ok_def)
    from externals_frame [OF st(3) k k1 this]
    show ?thesis using lm pb Suc by (auto simp: cs(1))
  qed
  have "mem_ok (\<lambda>b. pins b - held cs b) ?m'" using ih by (simp add: hc diff_diff_eq)
  moreover have "layout ?m' x = layout m x" if "x \<notin> set (q # qs)" for x using ih that by (simp add: st(4))
  moreover have "at ?m' = at m" "bk_frame m ?m'" using ih st(2) bk_frame_trans [OF st(3)] by auto
  ultimately show ?case unfolding fold using ent by blast
qed

end
