(* ===== verification/Gem_Access_Props.thy ===== *)
theory Gem_Access_Props
  imports Gem_Access_Install
begin

text \<open>
  The effect of guest reads and writes (src/gem/memory.c, \<open>access_memory_locked\<close>) on the guest's
  bytes, over the phases of \<open>Gem_Access_Copy\<close>, \<open>Gem_Access_Install\<close> and \<open>Gem_Access_Write\<close>.
\<close>

section \<open>The branches of an access\<close>

abbreviation bump :: "gem_memory \<Rightarrow> gem_memory" where
  "bump m \<equiv> m\<lparr>heap_count := Suc (heap_count m)\<rparr>"

definition range_pieces :: "u64 \<Rightarrow> u64 \<Rightarrow> piece list" where
  "range_pieces a n = access_pieces (unat ((n + (a AND 4095) + 4095) div 4096)) a (unat n) 0"

text \<open>The prefix every access that touches pages has passed.\<close>

definition validated :: "gem_memory \<Rightarrow> u64 \<Rightarrow> u64 \<Rightarrow> bool \<Rightarrow> bool \<Rightarrow> page_ref list \<Rightarrow> bool" where
  "validated m a n w x ps \<longleftrightarrow> n \<noteq> 0 \<and> unat a + unat n < 2 ^ 64 \<and> pieces_ok a 0 (unat n) (range_pieces a n) \<and>
     list_all2 (valid_piece m w x) (range_pieces a n) ps"

lemma access_cases:
  assumes run: "access_memory_locked m a b n w x query consume = (e, b', m')"
  obtains (early) c where "e \<noteq> GEM_MEMORY_OK" "e \<noteq> GEM_MEMORY_GUARD_PAGE" "b' = b" "m' = m\<lparr>heap_count := c\<rparr>" "heap_count m \<le> c"
  | (empty) "n = 0" "e = GEM_MEMORY_OK" "b' = b" "m' = m"
  | (queried) ps where "query" "e = GEM_MEMORY_OK" "b' = b" "m' = bump m" "validated (bump m) a n w x ps"
  | (guard) ps r where "\<not> query" "e = GEM_MEMORY_GUARD_PAGE" "b' = b" "validated (bump m) a n w x ps"
      "find (guarded (bump m)) ps = Some r"
      "m' = (if consume then touch_page (upd_page (bump m) r clear_guard) r else bump m)"
  | (nocopy) ps copies m3 where "\<not> query" "w" "e = GEM_MEMORY_NO_MEMORY" "b' = b" "validated (bump m) a n w x ps"
      "copy_alloc ps (bump (bump m)) [] = (None, copies, m3)" "m' = foldl drop_backing m3 copies"
  | (finish) ps copies m3 where "\<not> query" "validated (bump m) a n w x ps" "find (guarded (bump m)) ps = None"
      "if w then \<exists>l. copy_alloc ps (bump (bump m)) [] = (Some copies, l, m3)
       else copies = map (\<lambda>_. None) ps \<and> m3 = bump m"
      "access_finish m3 b w ps copies (range_pieces a n) = (e, b', m')"
proof -
  let ?off = "a AND 4095"
  let ?cs = "range_pieces a n"
  show ?thesis
  proof (cases "((n \<noteq> 0 \<and> b = None \<and> \<not> x) \<or> a > - 1 - n) \<or> n \<noteq> 0 \<and> n > - 1 - ?off - 4095")
    case True
    show ?thesis
    proof (rule early [of "heap_count m"])
      show "m' = m\<lparr>heap_count := heap_count m\<rparr>" "e \<noteq> GEM_MEMORY_OK" "e \<noteq> GEM_MEMORY_GUARD_PAGE" "b' = b"
        using run True by (auto simp: access_memory_locked_def split: if_splits)
    qed simp
  next
    case False
    then have pre: "\<not> ((n \<noteq> 0 \<and> b = None \<and> \<not> x) \<or> a > - 1 - n)" by blast
    show ?thesis
    proof (cases "n = 0")
      case True
      then show ?thesis using run pre empty by (simp add: access_memory_locked_def)
    next
      case n0: False
      have off: "\<not> n > - 1 - ?off - 4095" using False n0 by blast
      have pk: "pieces_ok a 0 (unat n) ?cs" unfolding range_pieces_def
        by (rule access_pages) (use pre off n0 in \<open>simp_all add: not_less\<close>)
      have an: "unat a + unat n < 2 ^ 64" using pre by (simp add: not_less no_wrap_iff)
      note go = run [unfolded access_memory_locked_def Let_def if_not_P [OF pre] if_not_P [OF n0] if_not_P [OF off],
          folded range_pieces_def]
      show ?thesis
      proof (cases rule: heap_alloc_cases [of m])
        case 2
        have "(e, b', m') = (GEM_MEMORY_NO_MEMORY, b, bump m)"
          using go by (simp add: 2)
        then show ?thesis using early [of "Suc (heap_count m)"] by simp
      next
        case 1
        have body: "(e, b', m') = (case access_check (bump m) w x ?cs of
             Inl e \<Rightarrow> (e, b, bump m)
           | Inr ps \<Rightarrow> (if query then (GEM_MEMORY_OK, b, bump m)
               else (case find (guarded (bump m)) ps of
                   Some r \<Rightarrow> (GEM_MEMORY_GUARD_PAGE, b,
                     if consume then touch_page (upd_page (bump m) r clear_guard) r else bump m)
                 | None \<Rightarrow> (if w then (case heap_alloc (bump m) of
                         (None, m) \<Rightarrow> (GEM_MEMORY_NO_MEMORY, b, m)
                       | (Some _, m) \<Rightarrow> (case copy_alloc ps m [] of
                             (None, copies, m) \<Rightarrow> (GEM_MEMORY_NO_MEMORY, b, foldl drop_backing m copies)
                           | (Some copies, _, m) \<Rightarrow> access_finish m b w ps copies ?cs))
                     else access_finish (bump m) b w ps (map (\<lambda>_. None) ps) ?cs))))"
          using go [symmetric] by (simp add: 1)
        show ?thesis
        proof (cases "access_check (bump m) w x ?cs")
          case (Inl e')
          have "e' \<noteq> GEM_MEMORY_GUARD_PAGE" by (rule access_check_Inl_guard [OF Inl])
          then show ?thesis using body Inl early [of "Suc (heap_count m)"] access_check_Inl [OF Inl] by simp
        next
          case (Inr ps)
          then have v: "validated (bump m) a n w x ps"
            using an pk n0 by (simp add: validated_def access_check_Inr)
          show ?thesis
          proof (cases query)
            case True
            then show ?thesis using body Inr v queried by simp
          next
            case q: False
            show ?thesis
            proof (cases "find (guarded (bump m)) ps")
              case (Some r)
              then show ?thesis using body Inr v guard [OF q _ _ v Some] q by simp
            next
              case None
              show ?thesis
              proof (cases w)
                case False
                then show ?thesis using body Inr None q finish [OF q v None] by simp
              next
                case w: True
                show ?thesis
                proof (cases rule: heap_alloc_cases [of "bump m"])
                  case 2
                  then show ?thesis using body Inr None q w early [of "Suc (Suc (heap_count m))"] by simp
                next
                  case 1
                  obtain ro l m3 where ca: "copy_alloc ps (bump (bump m)) [] = (ro, l, m3)" by (metis prod_cases3)
                  show ?thesis
                  proof (cases ro)
                    case R: None
                    then show ?thesis using body Inr None q w 1 ca nocopy [OF q w _ _ v] by simp
                  next
                    case R: (Some copies)
                    then show ?thesis using body Inr None q w 1 ca finish [OF q v None, of copies m3] by simp
                  qed
                qed
              qed
            qed
          qed
        qed
      qed
    qed
  qed
qed

section \<open>The pages of a validated range\<close>

lemma validated_at:
  assumes "validated (bump m) a n w x ps"
  shows "list_all2 (\<lambda>q r. at m q = Some r) (map fst (range_pieces a n)) ps"
    and "distinct (map fst (range_pieces a n))"
    and "q \<in> set (map fst (range_pieces a n)) \<Longrightarrow> \<exists>p b. layout m q = Some p \<and> page_backing p = Some b \<and> allowed (protection p) w x"
    and "r \<in> set ps \<Longrightarrow> \<exists>p. page_heap m r = Some p \<and> page_backing p \<noteq> None"
proof -
  have v: "list_all2 (valid_piece (bump m) w x) (range_pieces a n) ps" using assms by (simp add: validated_def)
  then show "list_all2 (\<lambda>q r. at m q = Some r) (map fst (range_pieces a n)) ps"
    unfolding list_all2_map1 by (rule list_all2_mono) (simp add: valid_piece_def)
  show "distinct (map fst (range_pieces a n))"
    using assms pieces_distinct [of a "unat n" 0 "range_pieces a n"] by (simp add: validated_def)
  show "\<exists>p b. layout m q = Some p \<and> page_backing p = Some b \<and> allowed (protection p) w x"
    if qq: "q \<in> set (map fst (range_pieces a n))"
  proof -
    obtain i where i: "i < length (range_pieces a n)" "q = fst (range_pieces a n ! i)"
      using qq by (auto simp: in_set_conv_nth)
    then have "valid_piece (bump m) w x (range_pieces a n ! i) (ps ! i)" using v by (simp add: list_all2_conv_all_nth)
    then obtain p where "at m q = Some (ps ! i)" "page_heap m (ps ! i) = Some p" "page_backing p \<noteq> None"
        "allowed (protection p) w x" using i(2) by (auto simp: valid_piece_def)
    then show ?thesis by (simp add: layout_def page_at_def)
  qed
  show "\<exists>p. page_heap m r = Some p \<and> page_backing p \<noteq> None" if rr: "r \<in> set ps"
  proof -
    obtain i where "i < length ps" "ps ! i = r" using rr by (auto simp: in_set_conv_nth)
    then have "valid_piece (bump m) w x (range_pieces a n ! i) r" using v by (auto simp: list_all2_conv_all_nth)
    then show ?thesis by (auto simp: valid_piece_def)
  qed
qed

lemma validated_unguarded:
  assumes "validated (bump m) a n w x ps" and "find (guarded (bump m)) ps = None" and "r \<in> set ps"
  shows "\<exists>p. page_heap m r = Some p \<and> protection p AND GEM_PAGE_GUARD = 0"
proof -
  obtain p where "page_heap m r = Some p" using validated_at(4) [OF assms(1,3)] by blast
  moreover have "\<not> guarded (bump m) r" using assms(2,3) by (auto simp: find_None_iff)
  ultimately show ?thesis by (simp add: guarded_def)
qed

section \<open>Copy-on-write keeps the bytes\<close>

lemma same_data_byte:
  assumes "backing_heap m b = Some k" and "backing_heap m' b' = Some k'" and "bk_data k' = bk_data k"
    and "bk_data k = Owned d"
  shows "backing_byte m' b' i = backing_byte m b i"
  using assms by (simp add: backing_byte_def)

text \<open>
  \<open>m0\<close> is the memory before the copies are allocated, \<open>m3\<close> after it, \<open>m1\<close> when they are installed.
\<close>

lemma install_bytes:
  assumes ok0: "mem_ok pins m0" and nn: "\<And>b. 0 \<le> pins b" and ok1: "mem_ok pins m1"
    and gr: "grows m0 m3" and fr: "bk_frame m3 m1" and ok3: "mem_ok pins3 m3"
    and al: "list_all2 (\<lambda>q r. at m0 q = Some r) qs ps" and ce: "list_all2 (copy_entry m0 m3) ps cs"
    and out: "\<And>x. x \<notin> set qs \<Longrightarrow> layout m1 x = layout m3 x"
    and ins: "\<And>i. i < length qs \<Longrightarrow> \<exists>p b. layout m3 (qs ! i) = Some p \<and> page_backing p = Some b \<and>
       layout m1 (qs ! i) = Some (installed (externals m3 b = Some True) (cs ! i) p)"
  shows "byte_at m1 y = byte_at m0 y"
proof -
  have la: "layout m3 = layout m0" by (rule layout_cong [OF grows_page_at [OF gr]])
  have fr0: "bk_frame m0 m1" by (rule bk_frame_trans [OF grows_frame [OF gr] fr])
  show ?thesis
  proof (cases "\<exists>i < length qs. qs ! i = page_base y \<and> cs ! i \<noteq> None")
    case False
    have "Option.bind (layout m1 (page_base y)) page_backing = Option.bind (layout m0 (page_base y)) page_backing"
    proof (cases "page_base y \<in> set qs")
      case True
      then obtain i where i: "i < length qs" "qs ! i = page_base y" by (auto simp: in_set_conv_nth)
      then have "cs ! i = None" using False by blast
      then show ?thesis using ins [OF i(1)] i(2) by (auto simp: la installed_def)
    qed (simp add: out la)
    then show ?thesis by (rule byte_at_frame [OF ok0 ok1 fr0 nn nn])
  next
    case True
    then obtain i b' where i: "i < length qs" "qs ! i = page_base y" "cs ! i = Some b'" by auto
    obtain p b0 where p0: "layout m1 (qs ! i) = Some (installed (externals m3 b0 = Some True) (cs ! i) p)"
      using ins [OF i(1)] by blast
    have pb: "page_backing (installed ext (Some b') p) = Some b'" for ext by (simp add: installed_def)
    have p: "layout m1 (page_base y) = Some (installed (externals m3 b0 = Some True) (Some b') p)"
      using p0 i by simp
    have len: "length qs = length ps" "length ps = length cs" using al ce by (auto dest: list_all2_lengthD)
    have "copy_entry m0 m3 (ps ! i) (Some b')" using list_all2_nthD [OF ce, of i] i len by simp
    then obtain q b k k' where q: "page_heap m0 (ps ! i) = Some q" "page_backing q = Some b" "backing_heap m0 b = Some k"
        "\<not> external k" "backing_heap m3 b' = Some k'" "bk_data k' = bk_data k"
      unfolding copy_entry_def option.case by blast
    have "at m0 (page_base y) = Some (ps ! i)" using list_all2_nthD [OF al, of i] i by simp
    then have pa: "page_at m0 (page_base y) = Some q" using q(1) by (simp add: page_at_def)
    obtain d where d: "bk_data k = Owned d"
      using refs_ok_host [OF _ q(3), of pins] q(4) ok0 backing_data.exhaust [of "bk_data k"]
      unfolding mem_ok_def by blast
    obtain k1 where k1: "backing_heap m1 b' = Some k1"
      using layout_backing_alive [OF ok1 nn p pb] by blast
    have "b' < heap_count m3" using alive_lt [OF _ q(5)] ok3 by (auto simp: mem_ok_def)
    then have "k1\<lparr>refs := 0\<rparr> = k'\<lparr>refs := 0\<rparr>" using fr k1 q(5) unfolding bk_frame_def by fastforce
    then have "bk_data k1 = bk_data k" using q(6) by (cases k1; cases k') simp
    from same_data_byte [OF q(3) k1 this d]
    have "byte_at m0 y = backing_byte m1 b' (unat (y AND 4095))"
      by (simp add: byte_at_def pa q(2))
    moreover have "Option.bind (page_at m1 (page_base y)) page_backing = Some b'"
      using layout_backing [of m1 "page_base y"] p pb by simp
    ultimately show ?thesis by (simp add: byte_at_def)
  qed
qed

section \<open>Writes\<close>

lemma installed_resv [simp]:
  "reservation_base (installed ext c p) = reservation_base p" "reservation_size (installed ext c p) = reservation_size p"
  by (simp_all add: installed_def split: option.split)

text \<open>The state in which the data moves: the copies are installed and every byte is as before.\<close>

lemma prepared:
  assumes inv: "memory_inv pins m" and v: "validated (bump m) a n w x ps" and g: "find (guarded (bump m)) ps = None"
    and ok3: "mem_ok (\<lambda>b. pins b + held copies b) m3" and gr: "grows m m3"
    and ce: "list_all2 (copy_entry m m3) ps copies \<or> copies = map (\<lambda>_. None) ps \<and> m3 = bump m"
  defines "m1 \<equiv> foldl install_copy (foldl (\<lambda>m r. upd_page m r clear_guard) m3 ps) (zip ps copies)"
  shows "memory_inv pins m1" and "at m1 = at m" and "byte_at m1 y = byte_at m y"
    and "q \<in> set (map fst (range_pieces a n)) \<Longrightarrow> \<exists>p b. layout m1 q = Some p \<and> page_backing p = Some b"
    and "q \<notin> set (map fst (range_pieces a n)) \<Longrightarrow> layout m1 q = layout m q"
    and "i < length ps \<Longrightarrow> \<exists>p b k. layout m (map fst (range_pieces a n) ! i) = Some p \<and> page_backing p = Some b \<and>
       backing_heap m b = Some k \<and>
       layout m1 (map fst (range_pieces a n) ! i) = Some (installed (external k) (copies ! i) p)"
    and "bk_frame m3 m1"
proof -
  let ?qs = "map fst (range_pieces a n)"
  note nn = inv_pins [OF inv] and ok = inv_mem_ok [OF inv]
  have la: "layout m3 = layout m" by (rule layout_cong [OF grows_page_at [OF gr]])
  have at3: "at m3 = at m" and ph3: "page_heap m3 = page_heap m" using gr by (simp_all add: grows_def)
  have m1: "m1 = foldl install_copy m3 (zip ps copies)"
    unfolding m1_def
    by (subst clear_guards_id) (use validated_unguarded [OF v g] in \<open>simp_all add: ph3\<close>)
  have at: "list_all2 (\<lambda>q r. at m3 q = Some r) ?qs ps" using validated_at(1) [OF v] by (simp add: at3)
  have pages: "\<exists>p b. layout m3 q = Some p \<and> page_backing p = Some b" if "q \<in> set ?qs" for q
    using validated_at(3) [OF v that] by (auto simp: la)
  have len: "length copies = length ps" using ce by (auto dest: list_all2_lengthD)
  have lenq: "length ?qs = length ps" using at by (rule list_all2_lengthD)
  have le: "held copies b \<le> pins b + held copies b" for b using nn [of b] by simp
  note ic = install_copies [OF ok3 le at len validated_at(2) [OF v] pages, folded m1]
  have ok1: "mem_ok pins m1" using ic by simp
  show fr: "bk_frame m3 m1" using ic by blast
  show "at m1 = at m" using ic at3 by simp
  show out: "layout m1 q = layout m q" if "q \<notin> set ?qs" for q using ic that la by simp
  have ins: "\<exists>p b. layout m3 (?qs ! i) = Some p \<and> page_backing p = Some b \<and>
       layout m1 (?qs ! i) = Some (installed (externals m3 b = Some True) (copies ! i) p)" if "i < length ?qs" for i
    using ic that by blast
  show ent: "\<exists>p b k. layout m (?qs ! i) = Some p \<and> page_backing p = Some b \<and> backing_heap m b = Some k \<and>
       layout m1 (?qs ! i) = Some (installed (external k) (copies ! i) p)" if ii: "i < length ps" for i
  proof -
    obtain p b where p: "layout m (?qs ! i) = Some p" "page_backing p = Some b"
       "layout m1 (?qs ! i) = Some (installed (externals m3 b = Some True) (copies ! i) p)"
      using ins [of i] ii lenq unfolding la by auto
    obtain k where k: "backing_heap m b = Some k" using layout_backing_alive [OF ok nn p(1,2)] by blast
    have "b < heap_count m" using alive_lt [OF _ k] ok by (auto simp: mem_ok_def)
    then have "backing_heap m3 b = Some k" using gr k by (simp add: grows_def)
    then show ?thesis using p k by (auto simp: externals_def)
  qed
  show "\<exists>p b. layout m1 q = Some p \<and> page_backing p = Some b" if qq: "q \<in> set ?qs" for q
  proof -
    obtain i where i: "i < length ps" "?qs ! i = q" using qq lenq by (metis in_set_conv_nth)
    then obtain p b and k :: backing where "page_backing p = Some b" "layout m1 q = Some (installed (external k) (copies ! i) p)"
      using ent [OF i(1)] unfolding i(2) by blast
    then show ?thesis by (auto simp: installed_def split: option.splits)
  qed
  have "resv m1 = resv m"
  proof (rule resv_same)
    fix x
    show "map_option (\<lambda>p. (reservation_base p, reservation_size p)) (layout m1 x) =
      map_option (\<lambda>p. (reservation_base p, reservation_size p)) (layout m x)"
    proof (cases "x \<in> set ?qs")
      case True
      then obtain i where i: "i < length ps" "?qs ! i = x" using lenq by (metis in_set_conv_nth)
      then show ?thesis using ent [OF i(1)] by auto
    qed (simp add: out)
  qed
  then show "memory_inv pins m1" by (rule memory_inv_keep [OF inv ok1])
  show "byte_at m1 y = byte_at m y"
  proof (cases "copies = map (\<lambda>_. None) ps")
    case True
    have fr0: "bk_frame m m1" by (rule bk_frame_trans [OF grows_frame [OF gr] fr])
    have "Option.bind (layout m1 (page_base y)) page_backing = Option.bind (layout m (page_base y)) page_backing"
    proof (cases "page_base y \<in> set ?qs")
      case T: True
      then obtain i where i: "i < length ps" "?qs ! i = page_base y" using lenq by (metis in_set_conv_nth)
      then show ?thesis using ent [OF i(1)] True by (auto simp: installed_def)
    qed (simp add: out)
    then show ?thesis by (rule byte_at_frame [OF ok ok1 fr0 nn nn])
  next
    case False
    then have "list_all2 (copy_entry m m3) ps copies" using ce by blast
    then show ?thesis
      by (rule install_bytes [OF ok nn ok1 gr fr ok3 validated_at(1) [OF v]]) (use out la ins in auto)
  qed
qed

lemma fresh_copy:
  assumes ok: "mem_ok pins m" and nn: "\<And>b. 0 \<le> pins b" and inv1: "memory_inv pins m1" and gr: "grows m m3"
    and fr: "bk_frame m3 m1" and ok3: "mem_ok pins3 m3"
    and al: "list_all2 (\<lambda>q r. at m q = Some r) qs ps" and ce: "list_all2 (copy_entry m m3) ps cs"
    and ins: "\<And>i. i < length ps \<Longrightarrow> \<exists>p b k. layout m (qs ! i) = Some p \<and> page_backing p = Some b \<and>
       backing_heap m b = Some k \<and> layout m1 (qs ! i) = Some (installed (external k) (cs ! i) p)"
    and q: "q \<in> set qs" "layout m q = Some p" "writecopy p" "page_backing p = Some b" "backing_heap m b = Some k" "\<not> external k"
  shows "\<exists>b'. layout m1 q = Some (p\<lparr>page_backing := Some b', protection := written_protection p\<rparr>) \<and>
    heap_count m \<le> b' \<and> shape m1 b' = Some None"
proof -
  have len: "length qs = length ps" using al by (rule list_all2_lengthD)
  obtain i where i: "i < length ps" "qs ! i = q" using q(1) len by (metis in_set_conv_nth)
  have at: "at m q = Some (ps ! i)" using list_all2_nthD2 [OF al i(1)] i(2) by simp
  obtain p' where p': "page_heap m (ps ! i) = Some p'" "p = p'\<lparr>generation := 0\<rparr>"
    using layout_at [OF ok q(2)] at by (metis option.inject)
  have "copy_entry m m3 (ps ! i) (cs ! i)" using list_all2_nthD [OF ce i(1)] .
  moreover have "writecopy p'" "page_backing p' = Some b" using q(3,4) p'(2) by (simp_all add: installed_generation)
  ultimately obtain b' k' where b': "cs ! i = Some b'" "heap_count m \<le> b'" "backing_heap m3 b' = Some k'" "bk_data k' = bk_data k"
    using p'(1) q(5,6) by (auto simp: copy_entry_def split: option.splits)
  obtain d where d: "bk_data k = Owned d"
    using refs_ok_host [OF _ q(5), of pins] q(6) ok backing_data.exhaust [of "bk_data k"] unfolding mem_ok_def by blast
  have l1: "layout m1 q = Some (p\<lparr>page_backing := Some b', protection := written_protection p\<rparr>)"
    using ins [OF i(1)] i(2) q(2) b'(1) by (auto simp: installed_def)
  obtain k1 where k1: "backing_heap m1 b' = Some k1"
    using layout_backing_alive [OF inv_mem_ok [OF inv1] nn l1] by auto
  have "b' < heap_count m3" using alive_lt [OF _ b'(3)] ok3 by (auto simp: mem_ok_def)
  then have "k1\<lparr>refs := 0\<rparr> = k'\<lparr>refs := 0\<rparr>" using fr k1 b'(3) unfolding bk_frame_def by fastforce
  then have "bk_data k1 = Owned d" using b'(4) d by (cases k1; cases k') simp
  then show ?thesis using l1 b'(2) k1 by (auto simp: shape_def)
qed

lemma kept_page:
  assumes ok: "mem_ok pins m"
    and al: "list_all2 (\<lambda>q r. at m q = Some r) qs ps" and ce: "list_all2 (copy_entry m m3) ps cs"
    and ins: "\<And>i. i < length ps \<Longrightarrow> \<exists>p b k. layout m (qs ! i) = Some p \<and> page_backing p = Some b \<and>
       backing_heap m b = Some k \<and> layout m1 (qs ! i) = Some (installed (external k) (cs ! i) p)"
    and q: "q \<in> set qs" "layout m q = Some p" "\<not> writecopy p"
  shows "layout m1 q = Some p"
proof -
  have len: "length qs = length ps" using al by (rule list_all2_lengthD)
  obtain i where i: "i < length ps" "qs ! i = q" using q(1) len by (metis in_set_conv_nth)
  have at: "at m q = Some (ps ! i)" using list_all2_nthD2 [OF al i(1)] i(2) by simp
  obtain p' where p': "page_heap m (ps ! i) = Some p'" "p = p'\<lparr>generation := 0\<rparr>"
    using layout_at [OF ok q(2)] at by (metis option.inject)
  have "copy_entry m m3 (ps ! i) (cs ! i)" using list_all2_nthD [OF ce i(1)] .
  then have "cs ! i = None" using q(3) p' by (auto simp: copy_entry_def installed_generation split: option.splits)
  then show ?thesis using ins [OF i(1)] i(2) q(2,3) by (auto simp: installed_def)
qed

lemma write_finish:
  assumes inv: "memory_inv pins m" and run: "access_memory_locked m a (Some buf) n True x False consume = (GEM_MEMORY_OK, b', m')"
    and n: "n \<noteq> 0" and len: "length buf = unat n"
  obtains m1 where "memory_inv pins m1" "byte_at m1 = byte_at m" "memory_inv pins m'" "b' = Some buf"
    "layout m' = layout m1" "shape m' = shape m1"
    "contents m' = store_bytes m1 a buf [0..<unat n] (contents m1)"
    "\<forall>q. q \<notin> set (map fst (range_pieces a n)) \<longrightarrow> layout m1 q = layout m q"
    "\<forall>q p b k. q \<in> set (map fst (range_pieces a n)) \<and> layout m q = Some p \<and> writecopy p \<and>
       page_backing p = Some b \<and> backing_heap m b = Some k \<and> \<not> external k \<longrightarrow>
       (\<exists>b'. layout m1 q = Some (p\<lparr>page_backing := Some b', protection := written_protection p\<rparr>) \<and>
         heap_count m \<le> b' \<and> shape m1 b' = Some None)"
    "\<forall>q p. q \<in> set (map fst (range_pieces a n)) \<and> layout m q = Some p \<and> \<not> writecopy p \<longrightarrow> layout m1 q = Some p"
    "bk_frame m m1"
  using run
proof (cases rule: access_cases)
  case (finish ps copies m3)
  obtain l where ca: "copy_alloc ps (bump (bump m)) [] = (Some copies, l, m3)" using finish(4) by auto
  note nn = inv_pins [OF inv] and v = finish(2)
  have ok0: "mem_ok (\<lambda>b. pins b + held [] b) (bump (bump m))"
    using mem_ok_heap_alloc [OF mem_ok_heap_alloc [OF inv_mem_ok [OF inv]]] by simp
  have "\<And>r. r \<in> set ps \<Longrightarrow> \<exists>p. page_heap (bump (bump m)) r = Some p \<and> page_backing p \<noteq> None"
    using validated_at(4) [OF v] by simp
  from copy_alloc_step [OF ok0 nn this ca]
  have ok3: "mem_ok (\<lambda>b. pins b + held copies b) m3" and gr0: "grows (bump (bump m)) m3"
    and ce0: "list_all2 (copy_entry (bump (bump m)) m3) ps copies" by auto
  have gb: "grows m (bump (bump m))" by (simp add: grows_def)
  have gr: "grows m m3" by (rule grows_trans [OF gb gr0])
  have ce: "list_all2 (copy_entry m m3) ps copies"
    using ce0 by (rule list_all2_mono) (rule copy_entry_grows [OF _ gb inv_mem_ok [OF inv] nn])
  let ?m1 = "foldl install_copy (foldl (\<lambda>m r. upd_page m r clear_guard) m3 ps) (zip ps copies)"
  note pr = prepared [OF inv v finish(3) ok3 gr disjI1 [OF ce]]
  have m': "m' = foldl (write_piece buf) ?m1 (zip ps (range_pieces a n))" "b' = Some buf"
    using finish(5) by (auto simp: access_finish_def)
  have pk: "pieces_ok a 0 (unat n) (range_pieces a n)" using v by (simp add: validated_def)
  have lb: "unat n \<le> length buf" using len by simp
  have "list_all2 (\<lambda>c r. at ?m1 (fst c) = Some r \<and>
      (\<exists>p b. layout ?m1 (fst c) = Some p \<and> page_backing p = Some b)) (range_pieces a n) ps"
    using validated_at(1) [OF v] pr(2,4) unfolding list_all2_map1 list_all2_conv_all_nth by simp
  note wp = write_pieces [OF inv_mem_ok [OF pr(1)] nn pk lb this, folded m'(1)]
  have inv': "memory_inv pins m'"
    using wp memory_inv_keep [OF pr(1)] resv_cong [of m' ?m1] by blast
  have fc: "\<exists>b'. layout ?m1 q = Some (p\<lparr>page_backing := Some b', protection := written_protection p\<rparr>) \<and>
         heap_count m \<le> b' \<and> shape ?m1 b' = Some None"
    if q: "q \<in> set (map fst (range_pieces a n))" "layout m q = Some p" "writecopy p"
       "page_backing p = Some b" "backing_heap m b = Some k" "\<not> external k" for q p b k
    by (rule fresh_copy [OF inv_mem_ok [OF inv] nn pr(1) gr pr(7) ok3 validated_at(1) [OF v] ce pr(6) q])
  have fc': "\<forall>q p b k. q \<in> set (map fst (range_pieces a n)) \<and> layout m q = Some p \<and> writecopy p \<and>
       page_backing p = Some b \<and> backing_heap m b = Some k \<and> \<not> external k \<longrightarrow>
       (\<exists>b'. layout ?m1 q = Some (p\<lparr>page_backing := Some b', protection := written_protection p\<rparr>) \<and>
         heap_count m \<le> b' \<and> shape ?m1 b' = Some None)"
    by (intro allI impI, elim conjE) (rule fc)
  have kp: "layout ?m1 q = Some p"
    if q: "q \<in> set (map fst (range_pieces a n))" "layout m q = Some p" "\<not> writecopy p" for q p
    by (rule kept_page [OF inv_mem_ok [OF inv] validated_at(1) [OF v] ce pr(6) q])
  have kp': "\<forall>q p. q \<in> set (map fst (range_pieces a n)) \<and> layout m q = Some p \<and> \<not> writecopy p \<longrightarrow> layout ?m1 q = Some p"
    by (intro allI impI, elim conjE) (rule kp)
  have out: "\<forall>q. q \<notin> set (map fst (range_pieces a n)) \<longrightarrow> layout ?m1 q = layout m q"
    by (intro allI impI) (rule pr(5))
  have bytes: "byte_at ?m1 = byte_at m" by (intro ext) (rule pr(3))
  note w3 = conjunct2 [OF conjunct2 [OF wp]] and fr = bk_frame_trans [OF grows_frame [OF gr] pr(7)]
  from that [OF pr(1) bytes inv' m'(2) conjunct1 [OF w3] conjunct1 [OF conjunct2 [OF w3]]
      conjunct1 [OF conjunct2 [OF conjunct2 [OF w3]]] out fc' kp' fr] show ?thesis .
next
  case (early c)
  from early(1) show ?thesis by simp
next
  case empty
  from empty(1) show ?thesis using n by simp
next
  case (queried ps)
  from queried(1) show ?thesis by simp
next
  case (guard ps r)
  from guard(2) show ?thesis by simp
next
  case (nocopy ps copies m3)
  from nocopy(3) show ?thesis by simp
qed

lemma cell_eq: "layout m' = layout m1 \<Longrightarrow> shape m' = shape m1 \<Longrightarrow> cell m' = cell m1"
  by (intro ext cell_cong) simp_all

lemma write_byte_at:
  assumes "byte_at m1 = byte_at m" and "layout m' = layout m1" and "shape m' = shape m1"
    and "contents m' = store_bytes m1 a buf [0..<k] (contents m1)"
  shows "byte_at m' y = (case cell m' y of None \<Rightarrow> None
    | Some c \<Rightarrow> (case find (\<lambda>i. cell m' (a + of_nat i) = Some c) (rev [0..<k]) of
        Some i \<Rightarrow> Some (buf ! i) | None \<Rightarrow> byte_at m y))"
proof -
  have ce: "cell m' = cell m1" by (rule cell_eq [OF assms(2,3)])
  show ?thesis
  proof (cases "cell m1 y")
    case None
    then show ?thesis by (simp add: byte_at_contents ce)
  next
    case (Some c)
    have "byte_at m y = contents m1 c" using assms(1) Some by (metis byte_at_contents bind.bind_lunit)
    then show ?thesis using Some
      by (simp add: byte_at_contents [of m'] ce assms(4) store_bytes_eq split: option.split)
  qed
qed

section \<open>Reads\<close>

lemma read_pieces:
  assumes "mem_ok pins m" and "\<And>b. 0 \<le> pins b" and "pieces_ok a d e cs" and "length buf = e"
    and "list_all2 (\<lambda>c r. at m (fst c) = Some r \<and> (\<exists>p b. layout m (fst c) = Some p \<and> page_backing p = Some b)) cs ps"
  shows "\<exists>buf'. foldl (read_piece m) (Some buf) (zip ps cs) = Some buf' \<and> length buf' = e \<and>
    (\<forall>i < d. buf' ! i = buf ! i) \<and> (\<forall>i. d \<le> i \<longrightarrow> i < e \<longrightarrow> byte_at m (a + of_nat i) = Some (buf' ! i))"
  using assms(3-5)
proof (induction cs arbitrary: d ps buf)
  case Nil
  then show ?case by auto
next
  case (Cons c cs)
  obtain q off z where c: "c = (q, off, d, z)" "q = page_base (a + of_nat d)"
      "off = unat ((a + of_nat d) AND 4095)" "off + z \<le> 4096" "d + z \<le> e" "pieces_ok a (d + z) e cs"
    using Cons.prems(1) by (cases c) auto
  obtain r rs p b where ps: "ps = r # rs" "at m q = Some r" "layout m q = Some p" "page_backing p = Some b"
    and all: "list_all2 (\<lambda>c r. at m (fst c) = Some r \<and> (\<exists>p b. layout m (fst c) = Some p \<and> page_backing p = Some b)) cs rs"
    using Cons.prems(3) c(1) by (auto simp: list_all2_Cons1)
  obtain p' where p': "page_heap m r = Some p'" "page_at m q = Some p'" "page_backing p' = Some b"
    using ps(2-4) by (auto simp: layout_def page_at_def)
  obtain k where k: "backing_heap m b = Some k" using layout_backing_alive [OF assms(1,2) ps(3,4)] by blast
  let ?bytes = "map (\<lambda>i. data_bytes m k (off + i)) [0..<z]"
  let ?buf1 = "splice buf d ?bytes"
  have l1: "length ?buf1 = e" using c(5) Cons.prems(2) by (simp add: splice_def)
  have step: "read_piece m (Some buf) (r, c) = Some ?buf1"
    by (simp add: read_piece_def c(1) p' read_backing_def k)
  obtain buf' where b': "foldl (read_piece m) (Some ?buf1) (zip rs cs) = Some buf'" "length buf' = e"
      "\<forall>i < d + z. buf' ! i = ?buf1 ! i" "\<forall>i. d + z \<le> i \<longrightarrow> i < e \<longrightarrow> byte_at m (a + of_nat i) = Some (buf' ! i)"
    using Cons.IH [OF c(6) l1 all] by blast
  have low: "?buf1 ! i = buf ! i" if "i < d" for i
    using that c(5) Cons.prems(2) by (simp add: splice_def nth_append)
  have mid: "byte_at m (a + of_nat i) = Some (?buf1 ! i)" if i: "d \<le> i" "i < d + z" for i
  proof -
    obtain j where j: "i = d + j" "j < z" using i by (metis le_add_diff_inverse nat_add_left_cancel_less)
    have "unat ((a + of_nat d) AND 4095) + j < 4096" using j c(3,4) by simp
    note st = page_step [OF this]
    have "a + of_nat i = (a + of_nat d) + of_nat j" using j by simp
    then have "page_base (a + of_nat i) = q" "unat ((a + of_nat i) AND 4095) = off + j"
      using st by (simp_all only: c(2,3))
    then have "byte_at m (a + of_nat i) = Some (data_bytes m k (off + j))"
      by (simp add: byte_at_def p' backing_byte_def k data_bytes_def)
    moreover have "?buf1 ! i = data_bytes m k (off + j)"
      using j c(5) Cons.prems(2) by (simp add: splice_def nth_append)
    ultimately show ?thesis by simp
  qed
  have "byte_at m (a + of_nat i) = Some (buf' ! i)" if "d \<le> i" "i < e" for i
    using b'(3,4) mid [of i] that by (cases "i < d + z") auto
  then show ?case
    using b' low step by (intro exI [of _ buf']) (auto simp: ps(1))
qed

lemma read_finish:
  assumes inv: "memory_inv pins m" and run: "access_memory_locked m a (Some buf) n False x False consume = (GEM_MEMORY_OK, b', m')"
    and n: "n \<noteq> 0" and len: "length buf = unat n"
  shows "memory_inv pins m'" and "byte_at m' = byte_at m"
    and "\<exists>buf'. b' = Some buf' \<and> length buf' = unat n \<and> (\<forall>i < unat n. byte_at m (a + of_nat i) = Some (buf' ! i))"
proof -
  have "memory_inv pins m' \<and> byte_at m' = byte_at m \<and>
    (\<exists>buf'. b' = Some buf' \<and> length buf' = unat n \<and> (\<forall>i < unat n. byte_at m (a + of_nat i) = Some (buf' ! i)))"
    using run
  proof (cases rule: access_cases)
    case (finish ps copies m3)
    have cp: "copies = map (\<lambda>_. None) ps" "m3 = bump m" using finish(4) by auto
    note nn = inv_pins [OF inv] and v = finish(2)
    have hz: "held (map (\<lambda>_. None) ps) b = 0" for b by (induction ps) simp_all
    have ok3: "mem_ok (\<lambda>b. pins b + held copies b) m3"
      using mem_ok_heap_alloc [OF inv_mem_ok [OF inv]] by (simp add: cp hz)
    have gr: "grows m m3" by (simp add: cp grows_def)
    let ?m1 = "foldl install_copy (foldl (\<lambda>m r. upd_page m r clear_guard) m3 ps) (zip ps copies)"
    note pr = prepared [OF inv v finish(3) ok3 gr disjI2 [OF conjI [OF cp]]]
    have pk: "pieces_ok a 0 (unat n) (range_pieces a n)" using v by (simp add: validated_def)
    have "list_all2 (\<lambda>c r. at ?m1 (fst c) = Some r \<and>
        (\<exists>p b. layout ?m1 (fst c) = Some p \<and> page_backing p = Some b)) (range_pieces a n) ps"
      using validated_at(1) [OF v] pr(2,4) unfolding list_all2_map1 list_all2_conv_all_nth by simp
    from read_pieces [OF inv_mem_ok [OF pr(1)] nn pk len this]
    obtain buf' where b: "foldl (read_piece ?m1) (Some buf) (zip ps (range_pieces a n)) = Some buf'" "length buf' = unat n"
        "\<forall>i < unat n. byte_at ?m1 (a + of_nat i) = Some (buf' ! i)" by auto
    have "m' = ?m1" "b' = Some buf'" using finish(5) b(1) by (auto simp: access_finish_def Let_def)
    moreover have "byte_at ?m1 = byte_at m" by (intro ext) (rule pr(3))
    ultimately show ?thesis using b pr(1) by simp
  qed (use n in auto)
  then show "memory_inv pins m'" "byte_at m' = byte_at m"
    "\<exists>buf'. b' = Some buf' \<and> length buf' = unat n \<and> (\<forall>i < unat n. byte_at m (a + of_nat i) = Some (buf' ! i))" by auto
qed

section \<open>Failed accesses and guard pages\<close>

lemma bump_same_map: "same_map m (m\<lparr>heap_count := c\<rparr>)"
  by (simp add: same_map_def)

lemma access_fail:
  assumes inv: "memory_inv pins m" and run: "access_memory_locked m a b n w x query consume = (e, b', m')"
    and e: "e \<noteq> GEM_MEMORY_OK" "e \<noteq> GEM_MEMORY_GUARD_PAGE"
  shows "same_map m m'" and "mem_ok pins m'" and "b' = b"
proof -
  note nn = inv_pins [OF inv] and ok = inv_mem_ok [OF inv]
  have "same_map m m' \<and> mem_ok pins m' \<and> b' = b" using run
  proof (cases rule: access_cases)
    case (early c)
    have "mem_ok pins m'" by (rule mem_ok_same [OF ok]) (use early in simp_all)
    then show ?thesis using early bump_same_map by simp
  next
    case (nocopy ps copies m3)
    have ok0: "mem_ok (\<lambda>b. pins b + held [] b) (bump (bump m))"
      using mem_ok_heap_alloc [OF mem_ok_heap_alloc [OF ok]] by simp
    have "\<And>r. r \<in> set ps \<Longrightarrow> \<exists>p. page_heap (bump (bump m)) r = Some p \<and> page_backing p \<noteq> None"
      using validated_at(4) [OF nocopy(5)] by simp
    from copy_alloc_step [OF ok0 nn this nocopy(6)]
    have ok3: "mem_ok (\<lambda>b. pins b + held copies b) m3" and gr: "grows (bump (bump m)) m3" by auto
    from drop_list_step [OF ok3 nn, folded nocopy(7)]
    have d: "mem_ok pins m'" "page_heap m' = page_heap m" "at m' = at m" "bk_frame m3 m'"
      using gr by (simp_all add: grows_def)
    have "bk_frame m m3" by (rule grows_frame, rule grows_trans [OF _ gr]) (simp add: grows_def)
    then show ?thesis
      using same_mapI [OF ok d(1) bk_frame_trans [OF _ d(4)] d(2,3)] d(1) nocopy(4) by blast
  next
    case (finish ps copies m3)
    then show ?thesis using e
      by (auto simp: access_finish_def Let_def split: if_splits option.splits)
  qed (use e in auto)
  then show "same_map m m'" "mem_ok pins m'" "b' = b" by auto
qed

lemma clear_guard_simps [simp]:
  "address (clear_guard p) = address p" "page_backing (clear_guard p) = page_backing p"
  "reservation_base (clear_guard p) = reservation_base p" "reservation_size (clear_guard p) = reservation_size p"
  "(clear_guard p)\<lparr>generation := g\<rparr> = clear_guard (p\<lparr>generation := g\<rparr>)"
  by (simp_all add: clear_guard_def)

lemma access_guard:
  assumes inv: "memory_inv pins m"
    and run: "access_memory_locked m a b n w x query consume = (GEM_MEMORY_GUARD_PAGE, b', m')"
  obtains q p where "q \<in> set (map fst (range_pieces a n))" "layout m q = Some p"
    "protection p AND GEM_PAGE_GUARD \<noteq> 0" "b' = b" "memory_inv pins m'" "bk_frame m m'"
    "layout m' = (if consume then (layout m)(q \<mapsto> clear_guard p) else layout m)"
  using run
proof (cases rule: access_cases)
  case (guard ps r)
  note ok = inv_mem_ok [OF inv] and v = guard(4)
  have r: "r \<in> set ps" "guarded (bump m) r" using guard(5) by (auto simp: find_Some_iff)
  obtain i where i: "i < length ps" "ps ! i = r" using r(1) by (auto simp: in_set_conv_nth)
  have len: "length (map fst (range_pieces a n)) = length ps" using validated_at(1) [OF v] by (rule list_all2_lengthD)
  define q where "q = map fst (range_pieces a n) ! i"
  have q: "q \<in> set (map fst (range_pieces a n))" using i(1) len unfolding q_def by (metis nth_mem)
  have at: "at m q = Some r" using list_all2_nthD2 [OF validated_at(1) [OF v] i(1)] i(2) by (simp add: q_def)
  obtain p' where p': "page_heap m r = Some p'" using validated_at(4) [OF v r(1)] by blast
  define p where "p = p'\<lparr>generation := 0\<rparr>"
  have lp: "layout m q = Some p" by (simp add: layout_def page_at_def at p' p_def)
  have g: "protection p AND GEM_PAGE_GUARD \<noteq> 0" using r(2) by (simp add: guarded_def p' p_def)
  have okb: "mem_ok pins (bump m)" by (rule mem_ok_heap_alloc [OF ok])
  have atb: "at (bump m) q = Some r" and lb: "layout (bump m) q = Some p" using at lp by simp_all
  have u: "mem_ok pins (upd_page (bump m) r clear_guard)"
    "layout (upd_page (bump m) r clear_guard) = (layout (bump m))(q \<mapsto> clear_guard p)"
    "bk_frame (bump m) (upd_page (bump m) r clear_guard)" "at (upd_page (bump m) r clear_guard) = at (bump m)"
    by (rule upd_page_layout [OF okb lb atb]; simp)+
  have "at (upd_page (bump m) r clear_guard) q = Some r" using u(4) at by simp
  note t = touch_layout [OF u(1) this]
  have frb: "bk_frame m (bump m)" by (rule bk_frame_same) simp_all
  have la: "layout m' = (if consume then (layout m)(q \<mapsto> clear_guard p) else layout m)"
    using guard(6) t(2) u(2) by simp
  have "resv m' = resv m" by (rule resv_same) (use lp in \<open>auto simp: la\<close>)
  moreover have "mem_ok pins m'" using guard(6) t(1) okb by simp
  ultimately have "memory_inv pins m'" using memory_inv_keep [OF inv] by blast
  moreover have "bk_frame m m'"
    using guard(6) frb bk_frame_trans [OF frb bk_frame_trans [OF u(3) t(3)]] by simp
  ultimately show ?thesis using that [OF q lp g guard(3) _ _ la] by blast
next
  case (finish ps copies m3)
  then show ?thesis by (auto simp: access_finish_def Let_def split: if_splits option.splits)
qed simp_all

lemma fetch_inv:
  assumes inv: "memory_inv pins m" and run: "access_memory_locked m a None n False x query consume = (GEM_MEMORY_OK, b', m')"
  shows "memory_inv pins m'" and "byte_at m' = byte_at m" and "b' = None"
proof -
  have "memory_inv pins m' \<and> byte_at m' = byte_at m \<and> b' = None" using run
  proof (cases rule: access_cases)
    case (queried ps)
    have "memory_inv pins m'"
      using same_map_inv [OF inv mem_ok_heap_alloc [OF inv_mem_ok [OF inv]] bump_same_map] queried by simp
    then show ?thesis using queried same_map_views(4) [OF bump_same_map] by simp
  next
    case (finish ps copies m3)
    have cp: "copies = map (\<lambda>_. None) ps" "m3 = bump m" using finish(4) by auto
    have hz: "held (map (\<lambda>_. None) ps) b = 0" for b by (induction ps) simp_all
    have ok3: "mem_ok (\<lambda>b. pins b + held copies b) m3"
      using mem_ok_heap_alloc [OF inv_mem_ok [OF inv]] by (simp add: cp hz)
    have gr: "grows m m3" by (simp add: cp grows_def)
    note pr = prepared [OF inv finish(2,3) ok3 gr disjI2 [OF conjI [OF cp]]]
    have "m' = foldl install_copy (foldl (\<lambda>m r. upd_page m r clear_guard) m3 ps) (zip ps copies)" "b' = None"
      using finish(5) by (simp_all add: access_finish_def Let_def)
    then show ?thesis using pr(1,3) by auto
  qed (use inv in auto)
  then show "memory_inv pins m'" "byte_at m' = byte_at m" "b' = None" by auto
qed

text \<open>Whatever the outcome, an access keeps the invariant.\<close>

lemma access_inv:
  assumes inv: "memory_inv pins m" and run: "access_memory_locked m a b n w x False consume = (e, b', m')"
    and buf: "b \<noteq> None \<longrightarrow> length (the b) = unat n" "w \<longrightarrow> b \<noteq> None"
  shows "memory_inv pins m'"
proof (cases "e = GEM_MEMORY_OK")
  case False
  show ?thesis
  proof (cases "e = GEM_MEMORY_GUARD_PAGE")
    case True
    then show ?thesis using access_guard [OF inv] run by blast
  next
    case F: False
    show ?thesis using access_fail [OF inv run False F] same_map_inv [OF inv] by blast
  qed
next
  case True
  show ?thesis
  proof (cases "n = 0")
    case True': True
    then have "m' = m"
      using run True by (auto simp: access_memory_locked_def split: if_splits)
    then show ?thesis using inv by simp
  next
    case n: False
    show ?thesis
    proof (cases b)
      case None
      then show ?thesis using fetch_inv(1) [OF inv] run True buf(2) by auto
    next
      case (Some bf)
      then show ?thesis
        using write_finish [OF inv _ n, of a bf x consume b' m'] read_finish(1) [OF inv _ n, of a bf x consume b' m']
          run True buf(1) by (cases w) auto
    qed
  qed
qed

end
