(* ===== verification/Gem_Memory_Total.thy ===== *)
theory Gem_Memory_Total
  imports Gem_Memory_Api Gem_Access_Props
begin

text \<open>
  When the allocator never fails, the operations of src/gem/memory.c return success exactly where
  their arguments allow it; and the memory \<open>gem_memory_create\<close> returns satisfies the invariant and
  has the shared user data page at both of its addresses.
\<close>

section \<open>The allocator is not consumed\<close>

definition plentiful :: "gem_memory \<Rightarrow> bool" where
  "plentiful m \<longleftrightarrow> (\<forall>i. heap_ok m i)"

lemma heap_ok_frame [simp]:
  "heap_ok (snd (next_gen m)) = heap_ok m" "heap_ok (crash m) = heap_ok m"
  "heap_ok (upd_page m r f) = heap_ok m" "heap_ok (upd_backing m b g) = heap_ok m"
  "heap_ok (touch_page m r) = heap_ok m" "heap_ok (touch_backing m b) = heap_ok m"
  "heap_ok (incref m b) = heap_ok m" "heap_ok (drop_backing m bo) = heap_ok m"
  "heap_ok (index_page m r) = heap_ok m" "heap_ok (unindex_page m r) = heap_ok m"
  by (simp_all add: next_gen_def crash_def upd_page_def upd_backing_def touch_page_def touch_backing_def
      incref_def drop_backing_def index_page_def unindex_page_def Let_def split: option.split)

lemma heap_ok_new_backing: "heap_ok (snd (new_backing m host)) = heap_ok m"
  by (cases rule: new_backing_cases [of m host]) simp_all

lemma heap_ok_publish [simp]: "heap_ok (publish_pages m head) = heap_ok m"
  by (induction m head rule: publish_pages.induct) simp_all

lemma heap_ok_foldl:
  assumes "\<And>m i. heap_ok (f m i) = heap_ok m"
  shows "heap_ok (foldl f m is) = heap_ok m"
  by (induction "is" arbitrary: m) (simp_all add: assms)

lemma plentiful_alloc: "plentiful m \<Longrightarrow> heap_alloc m = (Some (heap_count m), bump m)"
  by (simp add: plentiful_def heap_alloc_def Let_def)

lemma plentiful_bump [simp]: "plentiful (m\<lparr>heap_count := c\<rparr>) = plentiful m"
  by (simp add: plentiful_def)

lemma plentiful_new_backing:
  assumes "plentiful m"
  shows "\<exists>b m'. new_backing m host = (Some b, m') \<and> plentiful m' \<and> page_at m' = page_at m"
  using assms
  by (cases host) (auto simp: new_backing_def plentiful_alloc plentiful_def page_at_def at_def fun_eq_iff
      split: prod.splits)

section \<open>Reserve, commit and alias succeed\<close>

lemma build_pages_total:
  assumes "plentiful m" and "\<And>m x. heap_ok (snd (mk m x)) = heap_ok m"
  shows "\<exists>h l m'. build_pages mk as m head = (Some h, l, m') \<and> plentiful m'"
  using assms(1)
proof (induction "as" arbitrary: m head)
  case Nil
  then show ?case by simp
next
  case (Cons a as)
  obtain p m1 where mk: "mk (bump m) a = (p, m1)" by fastforce
  have "heap_ok m1 = heap_ok m" using assms(2) [of "bump m" a] mk by simp
  then have "plentiful (snd (next_gen m1))" using Cons.prems by (simp add: plentiful_def)
  from Cons.IH [OF this] show ?case
    using Cons.prems mk by (simp add: plentiful_alloc next_gen_def Let_def)
qed

lemma reserve_total:
  assumes "plentiful m" and "a \<noteq> 0" and "range_ok a n" and "n div 4096 \<le> GEM_MEMORY_MAX_PAGES"
    and "\<And>x. x \<in> set (page_addrs a n) \<Longrightarrow> at m x = None"
  shows "\<exists>m'. reserve_locked m (Some a) n = (GEM_MEMORY_OK, Some a, m') \<and> plentiful m'"
proof -
  have n: "n \<noteq> 0" "n AND 4095 = 0" using assms(3) by (simp_all add: range_ok_def)
  have mk: "heap_ok (snd (reserved_page a n m x)) = heap_ok m" for m x by (simp add: reserved_page_def)
  obtain h l m' where "build_pages (reserved_page a n) (page_addrs a n) m [] = (Some h, l, m')" "plentiful m'"
    using build_pages_total [of m "reserved_page a n", OF assms(1) mk] by blast
  then show ?thesis using assms(2-5) n
    by (simp add: reserve_locked_def Let_def list_ex_iff not_less plentiful_def)
qed

lemma commit_alloc_total:
  assumes "plentiful m" and "\<And>a. a \<in> set as \<Longrightarrow> \<exists>p. page_at m a = Some p"
  shows "\<exists>l bs' m'. commit_alloc as m bs = (Some l, bs', m') \<and> plentiful m'"
  using assms
proof (induction "as" arbitrary: m bs)
  case (Cons a as)
  obtain p where p: "page_at m a = Some p" using Cons.prems(2) by auto
  show ?case
  proof (cases "page_backing p")
    case None
    obtain b m1 where "new_backing m None = (Some b, m1)" "plentiful m1" "page_at m1 = page_at m"
      using plentiful_new_backing [OF Cons.prems(1)] by blast
    then show ?thesis using Cons.IH [of m1 "Some b # bs"] Cons.prems(2) p None by simp
  next
    case (Some c)
    then show ?thesis using Cons.IH [OF Cons.prems(1)] Cons.prems(2) p by simp
  qed
qed simp

lemma heap_ok_commit_page: "heap_ok (commit_page prot m i) = heap_ok m"
  by (simp add: commit_page_def split: prod.split option.split)

lemma commit_total:
  assumes "plentiful m" and "check m a n False = GEM_MEMORY_OK" and "prot_ok prot"
  shows "\<exists>m'. commit_locked m a n prot = (GEM_MEMORY_OK, m') \<and> plentiful m'"
proof -
  have "\<And>x. x \<in> set (page_addrs a n) \<Longrightarrow> \<exists>p. page_at (bump m) x = Some p"
    using assms(2) by (auto simp: check_OK_iff)
  moreover have "plentiful (bump m)" using assms(1) by simp
  ultimately obtain l bs m1 where "commit_alloc (page_addrs a n) (bump m) [] = (Some l, bs, m1)" "plentiful m1"
    using commit_alloc_total by blast
  moreover from this have "plentiful (foldl (commit_page prot) m1 (zip (page_addrs a n) l))"
    by (simp add: plentiful_def heap_ok_foldl heap_ok_commit_page)
  ultimately show ?thesis using assms by (simp add: commit_locked_def plentiful_alloc)
qed

lemma alias_total:
  assumes "plentiful m" and "range_ok a n" and "prot_ok prot" and "check m s n True = GEM_MEMORY_OK"
    and "\<And>x. x \<in> set (page_addrs a n) \<Longrightarrow> at m x = None"
  shows "\<exists>m'. alias_locked m a s n prot = (GEM_MEMORY_OK, m') \<and> plentiful m'"
proof -
  have mk: "heap_ok (snd (alias_page a s n prot m x)) = heap_ok m" for m x
    by (simp add: alias_page_def split: option.split)
  obtain h l m' where "build_pages (alias_page a s n prot) (page_addrs a n) m [] = (Some h, l, m')" "plentiful m'"
    using build_pages_total [of m "alias_page a s n prot", OF assms(1) mk] by blast
  then show ?thesis using assms(2-5) by (simp add: alias_locked_def list_ex_iff plentiful_def)
qed

section \<open>Writes succeed\<close>

lemma copy_alloc_total:
  assumes "plentiful m" and "mem_ok pins m" and "\<And>b. 0 \<le> pins b"
    and "\<And>r. r \<in> set rs \<Longrightarrow> \<exists>p. page_heap m r = Some p \<and> page_backing p \<noteq> None"
  shows "\<exists>l cs' m'. copy_alloc rs m cs = (Some l, cs', m') \<and> plentiful m'"
  using assms
proof (induction rs arbitrary: m cs pins)
  case (Cons r rs)
  obtain p b where p: "page_heap m r = Some p" "page_backing p = Some b" using Cons.prems(4) by fastforce
  have "finite (dom (page_heap m))" using Cons.prems(2) index_on_finite unfolding mem_ok_def index_ok_def by blast
  then obtain k where k: "backing_heap m b = Some k"
    using held_alive [of pins m r p b] Cons.prems(2,3) p by (auto simp: mem_ok_def)
  show ?case
  proof (cases "writecopy p \<and> \<not> external k")
    case False
    then show ?thesis using Cons.IH [OF Cons.prems(1-3)] Cons.prems(4) p k by auto
  next
    case True
    obtain d where d: "bk_data k = Owned d"
      using refs_ok_host [OF _ k, of pins] True Cons.prems(2) backing_data.exhaust [of "bk_data k"]
      unfolding mem_ok_def by blast
    obtain c m1 where nb: "new_backing m None = (Some c, m1)" "plentiful m1"
      using plentiful_new_backing [OF Cons.prems(1)] by blast
    let ?m2 = "upd_backing m1 c (\<lambda>k'. k'\<lparr>bk_data := Owned (data_bytes m k)\<rparr>)"
    note st = new_copy_step [OF Cons.prems(2) nb(1) d]
    have dm: "data_bytes m1 k = data_bytes m k" by (simp add: fun_eq_iff data_bytes_def d)
    have "plentiful ?m2" using nb(2) by (simp add: plentiful_def)
    moreover have "\<exists>p. page_heap ?m2 r = Some p \<and> page_backing p \<noteq> None" if "r \<in> set rs" for r
      using Cons.prems(4) [of r] that st(2) by (simp add: grows_def)
    ultimately show ?thesis
      using Cons.IH [OF _ st(1)] Cons.prems(3) p k True nb dm by simp
  qed
qed simp

lemma write_total:
  assumes inv: "memory_inv pins m" and "plentiful m" and "n \<noteq> 0" and "a \<le> - 1 - n" and "n \<le> - 1 - (a AND 4095) - 4095"
    and check: "access_check (bump m) True False (range_pieces a n) = Inr ps"
    and guard: "find (guarded (bump m)) ps = None"
  shows "\<exists>m'. access_memory_locked m a (Some buf) n True False False consume = (GEM_MEMORY_OK, Some buf, m')"
proof -
  have c: "\<not> ((n \<noteq> 0 \<and> Some buf = None \<and> \<not> False) \<or> a > - 1 - n)" "\<not> n > - 1 - (a AND 4095) - 4095"
    using assms(4,5) by (simp_all only: not_less simp_thms option.distinct)
  have pl: "plentiful (bump m)" "plentiful (bump (bump m))" using assms(2) by simp_all
  have v: "validated (bump m) a n True False ps"
    using assms(3-5) check access_pages [of a n]
    by (simp add: validated_def access_check_Inr range_pieces_def no_wrap_iff)
  have "mem_ok pins (bump (bump m))" using mem_ok_heap_alloc [OF mem_ok_heap_alloc [OF inv_mem_ok [OF inv]]] by simp
  moreover have "\<exists>p. page_heap (bump (bump m)) r = Some p \<and> page_backing p \<noteq> None" if "r \<in> set ps" for r
    using validated_at(4) [OF v that] by simp
  ultimately obtain l cs m3 where "copy_alloc ps (bump (bump m)) [] = (Some l, cs, m3)"
    using copy_alloc_total [of _ pins, OF pl(2) _ inv_pins [OF inv]] by blast
  then show ?thesis
    unfolding access_memory_locked_def Let_def if_not_P [OF c(1)] if_not_P [OF assms(3)] if_not_P [OF c(2)]
    using plentiful_alloc [OF assms(2)] plentiful_alloc [OF pl(1)] check guard
    by (simp add: range_pieces_def access_finish_def Let_def)
qed

text \<open>An access leaves the allocator's behaviour alone.\<close>

lemma heap_ok_copy_alloc: "heap_ok (snd (snd (copy_alloc rs m cs))) = heap_ok m"
proof (induction rs arbitrary: m cs)
  case (Cons r rs)
  show ?case
  proof (cases "page_heap m r")
    case (Some p)
    show ?thesis
    proof (cases "Option.bind (page_backing p) (backing_heap m)")
      case k: (Some k)
      obtain bo m1 where nb: "new_backing m None = (bo, m1)" by (cases "new_backing m None")
      have "heap_ok m1 = heap_ok m" using heap_ok_new_backing [of m None] nb by simp
      then show ?thesis using Some k nb Cons.IH by (cases bo) simp_all
    qed (use Some in simp)
  qed simp
qed simp

lemma heap_ok_install: "heap_ok (install_copy m i) = heap_ok m"
  by (cases i) (simp add: install_copy_def split: option.split)

lemma heap_ok_write_piece: "heap_ok (write_piece buf m i) = heap_ok m"
  by (cases i) (simp add: write_piece_def write_backing_def split: option.split backing_data.split)

lemma heap_ok_finish: "heap_ok (snd (snd (access_finish m b w ps copies cs))) = heap_ok m"
  by (simp add: access_finish_def Let_def heap_ok_foldl heap_ok_install heap_ok_write_piece split: option.split)

lemma access_plentiful:
  assumes "access_memory_locked m a b n w x query consume = (e, b', m')" and "plentiful m"
  shows "plentiful m'"
proof -
  have "heap_ok m' = heap_ok m" using assms(1)
  proof (cases rule: access_cases)
    case (nocopy ps copies m3)
    then show ?thesis using heap_ok_copy_alloc [of ps "bump (bump m)" "[]"]
      by (simp add: heap_ok_foldl)
  next
    case (finish ps copies m3)
    have "heap_ok m3 = heap_ok m"
      using finish(4) heap_ok_copy_alloc [of ps "bump (bump m)" "[]"] by (auto split: if_splits)
    then show ?thesis using heap_ok_finish [of m3 b w ps copies "range_pieces a n"] finish(5) by simp
  qed (simp_all split: if_splits)
  then show ?thesis using assms(2) by (simp add: plentiful_def)
qed

section \<open>A new memory\<close>

lemma empty_memory_inv: "memory_inv no_pins (empty_memory ok g h c)"
  by (simp add: memory_inv_def mem_ok_def index_ok_def index_on_def refs_ok_def ref_count_def holders_def
      resv_wf_def resv_def page_at_def at_def empty_memory_def)

lemma empty_memory_layout [simp]: "layout (empty_memory ok g h c) = Map.empty"
  by (simp add: layout_def page_at_def at_def empty_memory_def fun_eq_iff)

lemma kuser_ranges:
  "range_ok GEM_KUSER_CANONICAL_ADDRESS GEM_GUEST_PAGE_SIZE"
  "range_ok GEM_KUSER_SHARED_DATA_ADDRESS GEM_GUEST_PAGE_SIZE"
  by (simp_all add: range_ok_unat GEM_KUSER_CANONICAL_ADDRESS_def GEM_KUSER_SHARED_DATA_ADDRESS_def
      GEM_GUEST_PAGE_SIZE_def)

lemma prot_rw: "prot_ok GEM_PAGE_READWRITE"
  by (simp add: prot_ok_def)

lemma page_addrs_one [simp]: "page_addrs a GEM_GUEST_PAGE_SIZE = [a]"
  by (simp add: page_addrs_def GEM_GUEST_PAGE_SIZE_def)

lemma reserve_base:
  "reserve_locked m (Some a) n = (GEM_MEMORY_OK, r, m') \<Longrightarrow> a \<noteq> 0 \<Longrightarrow> r = Some a"
  by (auto simp: reserve_locked_def Let_def split: if_splits prod.splits option.splits)

lemma kuser_reserved:
  assumes "reserve_locked (empty_memory ok g h c) (Some GEM_KUSER_CANONICAL_ADDRESS) GEM_GUEST_PAGE_SIZE =
    (GEM_MEMORY_OK, r, m)"
  shows "memory_inv no_pins m" and "layout m = Map.empty(GEM_KUSER_CANONICAL_ADDRESS \<mapsto>
    \<lparr>address = GEM_KUSER_CANONICAL_ADDRESS, reservation_base = GEM_KUSER_CANONICAL_ADDRESS,
     reservation_size = GEM_GUEST_PAGE_SIZE, page_backing = None, protection = 0, generation = 0\<rparr>)"
proof -
  have "0x100000000 \<le> GEM_KUSER_CANONICAL_ADDRESS" by (simp add: GEM_KUSER_CANONICAL_ADDRESS_def)
  note r = reserve_identity [OF empty_memory_inv assms this]
  show "memory_inv no_pins m" using r by blast
  show "layout m = Map.empty(GEM_KUSER_CANONICAL_ADDRESS \<mapsto>
    \<lparr>address = GEM_KUSER_CANONICAL_ADDRESS, reservation_base = GEM_KUSER_CANONICAL_ADDRESS,
     reservation_size = GEM_GUEST_PAGE_SIZE, page_backing = None, protection = 0, generation = 0\<rparr>)"
    using r by (auto simp: fun_eq_iff)
qed

lemma create_steps:
  assumes "gem_memory_create ok g h li si = Some m"
  obtains m1 m2 where
    "reserve_locked (empty_memory ok g h 2) (Some GEM_KUSER_CANONICAL_ADDRESS) GEM_GUEST_PAGE_SIZE =
       (GEM_MEMORY_OK, Some GEM_KUSER_CANONICAL_ADDRESS, m1)"
    "commit_locked m1 GEM_KUSER_CANONICAL_ADDRESS GEM_GUEST_PAGE_SIZE GEM_PAGE_READWRITE = (GEM_MEMORY_OK, m2)"
    "alias_locked m2 GEM_KUSER_SHARED_DATA_ADDRESS GEM_KUSER_CANONICAL_ADDRESS GEM_GUEST_PAGE_SIZE
       GEM_PAGE_READWRITE = (GEM_MEMORY_OK, m)"
proof -
  obtain e1 r m1 where r1: "reserve_locked (empty_memory ok g h 2) (Some GEM_KUSER_CANONICAL_ADDRESS) GEM_GUEST_PAGE_SIZE = (e1, r, m1)"
    by (metis prod_cases3)
  have e1: "e1 = GEM_MEMORY_OK" using assms r1 by (simp add: gem_memory_create_def split: if_splits)
  have r: "r = Some GEM_KUSER_CANONICAL_ADDRESS"
    using reserve_base [OF r1 [unfolded e1]] by (simp add: GEM_KUSER_CANONICAL_ADDRESS_def)
  then show ?thesis using that [of m1] assms r1 e1
    by (auto simp: gem_memory_create_def split: if_splits prod.splits)
qed

text \<open>Both addresses of the shared user data page show one zeroed, writable page.\<close>

lemma create_ok:
  assumes "gem_memory_create ok g h li si = Some m"
  shows "memory_inv no_pins m" and "\<exists>b. layout m = Map.empty(
      GEM_KUSER_CANONICAL_ADDRESS \<mapsto> \<lparr>address = GEM_KUSER_CANONICAL_ADDRESS,
        reservation_base = GEM_KUSER_CANONICAL_ADDRESS, reservation_size = GEM_GUEST_PAGE_SIZE,
        page_backing = Some b, protection = GEM_PAGE_READWRITE, generation = 0\<rparr>,
      GEM_KUSER_SHARED_DATA_ADDRESS \<mapsto> \<lparr>address = GEM_KUSER_SHARED_DATA_ADDRESS,
        reservation_base = GEM_KUSER_SHARED_DATA_ADDRESS, reservation_size = GEM_GUEST_PAGE_SIZE,
        page_backing = Some b, protection = GEM_PAGE_READWRITE, generation = 0\<rparr>) \<and>
      (\<exists>k. backing_heap m b = Some k \<and> bk_data k = Owned (\<lambda>_. 0) \<and> \<not> external k)"
proof -
  let ?A = GEM_KUSER_CANONICAL_ADDRESS and ?B = GEM_KUSER_SHARED_DATA_ADDRESS
  obtain m1 m2 where
    s1: "reserve_locked (empty_memory ok g h 2) (Some ?A) GEM_GUEST_PAGE_SIZE = (GEM_MEMORY_OK, Some ?A, m1)"
    and s2: "commit_locked m1 ?A GEM_GUEST_PAGE_SIZE GEM_PAGE_READWRITE = (GEM_MEMORY_OK, m2)"
    and s3: "alias_locked m2 ?B ?A GEM_GUEST_PAGE_SIZE GEM_PAGE_READWRITE = (GEM_MEMORY_OK, m)"
    by (rule create_steps [OF assms])
  have i1: "memory_inv no_pins m1" and l1: "layout m1 = Map.empty(?A \<mapsto> \<lparr>address = ?A, reservation_base = ?A,
      reservation_size = GEM_GUEST_PAGE_SIZE, page_backing = None, protection = 0, generation = 0\<rparr>)"
    by (rule kuser_reserved [OF s1])+
  note c = commit_ok [OF i1 s2]
  have i2: "memory_inv no_pins m2" by (rule c)
  obtain b k where b: "layout m2 ?A = Some \<lparr>address = ?A, reservation_base = ?A, reservation_size = GEM_GUEST_PAGE_SIZE,
        page_backing = Some b, protection = GEM_PAGE_READWRITE, generation = 0\<rparr>"
      "backing_heap m2 b = Some k" "bk_data k = Owned (\<lambda>_. 0)" "\<not> external k"
    using c(6) [of ?A] l1 by auto
  have l2: "layout m2 x = None" if "x \<noteq> ?A" for x using c(5) [of x] that by (simp add: l1)
  note a = alias_ok [OF i2 s3]
  show "memory_inv no_pins m" by (rule a)
  have src: "source_backing m2 ?B ?A ?B = Some b"
    using b(1) layout_backing [of m2 ?A] by (simp add: source_backing_def)
  have "layout m x = (Map.empty(?A \<mapsto> \<lparr>address = ?A, reservation_base = ?A, reservation_size = GEM_GUEST_PAGE_SIZE,
        page_backing = Some b, protection = GEM_PAGE_READWRITE, generation = 0\<rparr>,
      ?B \<mapsto> \<lparr>address = ?B, reservation_base = ?B, reservation_size = GEM_GUEST_PAGE_SIZE,
        page_backing = Some b, protection = GEM_PAGE_READWRITE, generation = 0\<rparr>)) x" for x
    using a(6) [of x] b(1) l2 [of x] src by (auto simp: aliased_page_def)
  then have la: "layout m = Map.empty(?A \<mapsto> \<lparr>address = ?A, reservation_base = ?A, reservation_size = GEM_GUEST_PAGE_SIZE,
        page_backing = Some b, protection = GEM_PAGE_READWRITE, generation = 0\<rparr>,
      ?B \<mapsto> \<lparr>address = ?B, reservation_base = ?B, reservation_size = GEM_GUEST_PAGE_SIZE,
        page_backing = Some b, protection = GEM_PAGE_READWRITE, generation = 0\<rparr>)" by blast
  then have "layout m ?B = Some \<lparr>address = ?B, reservation_base = ?B, reservation_size = GEM_GUEST_PAGE_SIZE,
        page_backing = Some b, protection = GEM_PAGE_READWRITE, generation = 0\<rparr>" by simp
  from layout_backing_alive [OF inv_mem_ok [OF a(3)] _ this]
  obtain k' where k': "backing_heap m b = Some k'" by auto
  have "b < heap_count m2" using alive_lt [OF _ b(2)] inv_mem_ok [OF i2] by (auto simp: mem_ok_def)
  then have "k'\<lparr>refs := 0\<rparr> = k\<lparr>refs := 0\<rparr>" using a(4) b(2) k' unfolding bk_frame_def by fastforce
  then have "bk_data k' = Owned (\<lambda>_. 0) \<and> \<not> external k'" using b(3,4) by (cases k; cases k') simp
  then show "\<exists>b. layout m = Map.empty(?A \<mapsto> \<lparr>address = ?A, reservation_base = ?A, reservation_size = GEM_GUEST_PAGE_SIZE,
        page_backing = Some b, protection = GEM_PAGE_READWRITE, generation = 0\<rparr>,
      ?B \<mapsto> \<lparr>address = ?B, reservation_base = ?B, reservation_size = GEM_GUEST_PAGE_SIZE,
        page_backing = Some b, protection = GEM_PAGE_READWRITE, generation = 0\<rparr>) \<and>
      (\<exists>k. backing_heap m b = Some k \<and> bk_data k = Owned (\<lambda>_. 0) \<and> \<not> external k)" using la k' by blast
qed

text \<open>With an allocator and locks that do not fail, creation succeeds.\<close>

lemma create_total:
  "\<exists>m. gem_memory_create (\<lambda>_. True) g h True (\<lambda>_. True) = Some m \<and> plentiful m"
proof -
  let ?A = GEM_KUSER_CANONICAL_ADDRESS and ?B = GEM_KUSER_SHARED_DATA_ADDRESS
  let ?m0 = "empty_memory (\<lambda>_. True) g h 2"
  have A0: "?A \<noteq> 0" by (simp add: GEM_KUSER_CANONICAL_ADDRESS_def)
  have none: "at ?m0 x = None" for x by (simp add: at_def empty_memory_def)
  have pl: "plentiful ?m0" by (simp add: plentiful_def empty_memory_def)
  have "GEM_GUEST_PAGE_SIZE div 4096 \<le> GEM_MEMORY_MAX_PAGES"
    by (simp add: GEM_GUEST_PAGE_SIZE_def GEM_MEMORY_MAX_PAGES_def)
  from reserve_total [OF pl A0 kuser_ranges(1) this none]
  obtain m1 where s1: "reserve_locked ?m0 (Some ?A) GEM_GUEST_PAGE_SIZE = (GEM_MEMORY_OK, Some ?A, m1)" "plentiful m1"
    by blast
  have i1: "memory_inv no_pins m1" and l1: "layout m1 = Map.empty(?A \<mapsto> \<lparr>address = ?A, reservation_base = ?A,
      reservation_size = GEM_GUEST_PAGE_SIZE, page_backing = None, protection = 0, generation = 0\<rparr>)"
    by (rule kuser_reserved [OF s1(1)])+
  have "\<exists>p. page_at m1 ?A = Some p" using l1 by (metis fun_upd_same layout_def map_option_eq_Some)
  then have "check m1 ?A GEM_GUEST_PAGE_SIZE False = GEM_MEMORY_OK" by (simp add: check_OK_iff kuser_ranges)
  from commit_total [OF s1(2) this prot_rw]
  obtain m2 where s2: "commit_locked m1 ?A GEM_GUEST_PAGE_SIZE GEM_PAGE_READWRITE = (GEM_MEMORY_OK, m2)" "plentiful m2"
    by blast
  note c = commit_ok [OF i1 s2(1)]
  obtain p b where "layout m2 ?A = Some p" "page_backing p = Some b" using c(6) [of ?A] by auto
  then have "\<exists>p. page_at m2 ?A = Some p \<and> page_backing p \<noteq> None" by (auto simp: layout_def)
  then have ck: "check m2 ?A GEM_GUEST_PAGE_SIZE True = GEM_MEMORY_OK" by (simp add: check_OK_iff kuser_ranges)
  have "layout m2 ?B = None" using c(5) [of ?B] kuser_addresses by (auto simp: l1)
  then have "at m2 ?B = None" using at_None_iff [OF inv_index [OF c(3)]] by (simp add: layout_def)
  then obtain m3 where s3: "alias_locked m2 ?B ?A GEM_GUEST_PAGE_SIZE GEM_PAGE_READWRITE = (GEM_MEMORY_OK, m3)" "plentiful m3"
    using alias_total [OF s2(2) kuser_ranges(2) prot_rw ck] by auto
  show ?thesis using s1 s2 s3 by (simp add: gem_memory_create_def list_all_iff)
qed

end
