(* ===== verification/Gem_Memory_Calls.thy ===== *)
theory Gem_Memory_Calls
  imports Gem_Memory_Total
begin

text \<open>
  Sequences of calls on a guest memory (src/gem/memory.c): the public entry points as one step
  function, the states a created memory can reach, and for every call what it keeps when it fails.
\<close>

section \<open>Peeking\<close>

lemma peek_pieces_ok: "d \<le> n \<Longrightarrow> pieces_ok a d n (peek_pieces a n d)"
proof (induction a n d rule: peek_pieces.induct)
  case (1 a n d)
  show ?case
  proof (cases "d < n")
    case True
    let ?off = "unat ((a + of_nat d) AND 4095)"
    let ?z = "if 4096 - ?off > n - d then n - d else 4096 - ?off"
    have off: "?off < 4096" by (simp add: unat_page_offset)
    have "pieces_ok a (d + ?z) n (peek_pieces a n (d + ?z))"
      by (rule "1.IH" [OF True refl refl refl]) (use True in auto)
    moreover have "?off + ?z \<le> 4096" "d + ?z \<le> n" "d + ?z < n \<longrightarrow> ?off + ?z = 4096" "0 < ?z"
      using True off by auto
    ultimately show ?thesis using True by (subst peek_pieces.simps) (simp only: Let_def if_True pieces_ok.simps simp_thms)
  qed (use 1 in \<open>simp add: peek_pieces.simps\<close>)
qed

lemma peek_check_ok:
  assumes "peek_check accessible m cs = GEM_MEMORY_OK"
  shows "list_all2 (\<lambda>c r. at m (fst c) = Some r \<and> (\<exists>p b. layout m (fst c) = Some p \<and> page_backing p = Some b))
    cs (map (\<lambda>c. the (at m (fst c))) cs)"
  using assms
proof (induction cs)
  case (Cons c cs)
  obtain q off d z where c: "c = (q, off, d, z)" by (cases c)
  obtain p where p: "page_at m q = Some p"
    using Cons.prems c by (auto split: option.splits)
  obtain b k where b: "page_backing p = Some b" "backing_heap m b = Some k"
    using Cons.prems c p by (cases "Option.bind (page_backing p) (backing_heap m)") (auto simp: bind_eq_Some_conv)
  have "peek_check accessible m cs = GEM_MEMORY_OK"
    using Cons.prems c p b by (auto split: backing_data.splits if_splits)
  moreover obtain r where "at m q = Some r" using p by (auto simp: page_at_def bind_eq_Some_conv)
  ultimately show ?case using Cons.IH c p b by (simp add: layout_def)
qed simp

lemma peek_fold:
  assumes "list_all2 (\<lambda>c r. at m (fst c) = Some r) cs ps"
  shows "foldl (peek_piece m) b cs = foldl (read_piece m) b (zip ps cs)"
  using assms
proof (induction arbitrary: b rule: list_all2_induct)
  case (Cons c cs r ps)
  have "peek_piece m b c = read_piece m b (r, c)"
    using Cons.hyps(1) by (cases c) (simp add: peek_piece_def read_piece_def page_at_def)
  then show ?case using Cons.IH by simp
qed simp

lemma peek_ok:
  assumes inv: "memory_inv pins m" and run: "peek_locked accessible m a b n = (GEM_MEMORY_OK, b', m')"
    and len: "b \<noteq> None \<longrightarrow> length (the b) = unat n"
  shows "m' = m" and "n \<noteq> 0 \<Longrightarrow> \<exists>buf'. b' = Some buf' \<and> length buf' = unat n \<and>
      (\<forall>i < unat n. byte_at m (a + of_nat i) = Some (buf' ! i))" and "n = 0 \<Longrightarrow> b' = b"
proof -
  have pre: "\<not> ((n \<noteq> 0 \<and> b = None) \<or> a > - 1 - n)" using run by (auto simp: peek_locked_def split: if_splits)
  have "m' = m \<and> (n \<noteq> 0 \<longrightarrow> (\<exists>buf'. b' = Some buf' \<and> length buf' = unat n \<and>
      (\<forall>i < unat n. byte_at m (a + of_nat i) = Some (buf' ! i)))) \<and> (n = 0 \<longrightarrow> b' = b)"
  proof (cases "n = 0")
    case True
    then show ?thesis using run pre by (simp add: peek_locked_def)
  next
    case False
    then obtain buf where buf: "b = Some buf" "length buf = unat n" using pre len by auto
    let ?cs = "peek_pieces a (unat n) 0"
    have ck: "peek_check accessible m ?cs = GEM_MEMORY_OK"
      using run [unfolded peek_locked_def if_not_P [OF pre] if_not_P [OF False] Let_def] by (auto split: if_splits)
    note al = peek_check_ok [OF ck]
    obtain buf' where b': "foldl (read_piece m) (Some buf) (zip (map (\<lambda>c. the (at m (fst c))) ?cs) ?cs) = Some buf'"
        "length buf' = unat n" "\<forall>i. 0 \<le> i \<longrightarrow> i < unat n \<longrightarrow> byte_at m (a + of_nat i) = Some (buf' ! i)"
      using read_pieces [OF inv_mem_ok [OF inv] inv_pins [OF inv] peek_pieces_ok [of 0 "unat n" a] buf(2) al] by auto
    have "foldl (peek_piece m) b ?cs = Some buf'"
      unfolding buf(1) b'(1) [symmetric] by (rule peek_fold [OF list_all2_mono [OF al]]) simp
    then show ?thesis using run [unfolded peek_locked_def if_not_P [OF pre] if_not_P [OF False] Let_def] ck b'(2,3) False
      by (intro conjI impI exI [of _ buf']) simp_all
  qed
  then show "m' = m" and "n \<noteq> 0 \<Longrightarrow> \<exists>buf'. b' = Some buf' \<and> length buf' = unat n \<and>
      (\<forall>i < unat n. byte_at m (a + of_nat i) = Some (buf' ! i))" and "n = 0 \<Longrightarrow> b' = b" by blast+
qed

lemma peek_fail: "peek_locked accessible m a b n = (e, b', m') \<Longrightarrow> e \<noteq> GEM_MEMORY_OK \<Longrightarrow> m' = m \<and> b' = b"
  by (auto simp: peek_locked_def Let_def split: if_splits option.splits)

section \<open>One call\<close>

datatype memory_call =
    Reserve "u64 option" u64
  | Commit u64 u64 u32
  | Commit_identity u64 u64 u64 u32
  | Commit_external u64 u64 u64 u32
  | Decommit u64 u64
  | Release u64 u64
  | Unmap u64 u64
  | Protect u64 u64 u32
  | Alias u64 u64 u64 u32
  | Map_identity u64 u64 u64 u32
  | Bind_kuser u64
  | Read u64 "byte_string option" u64
  | Write u64 "byte_string option" u64
  | Fetch u64 "byte_string option" u64
  | Peek u64 "byte_string option" u64
  | Read_deferred_guard u64 "byte_string option" u64
  | Write_deferred_guard u64 "byte_string option" u64

definition buffer_result :: "gem_memory_error \<times> byte_string option \<times> gem_memory option \<Rightarrow> gem_memory_error \<times> gem_memory option" where
  "buffer_result r = (case r of (e, _, m) \<Rightarrow> (e, m))"

text \<open>Status and memory after a call; \<open>accessible\<close> is the host query that \<open>gem_memory_peek\<close> makes.\<close>

fun memory_exec :: "(u64 \<Rightarrow> nat \<Rightarrow> bool) \<Rightarrow> memory_call \<Rightarrow> gem_memory option \<Rightarrow> gem_memory_error \<times> gem_memory option" where
  "memory_exec acc (Reserve a n) m = (case gem_memory_reserve m a n of (e, _, m) \<Rightarrow> (e, m))"
| "memory_exec acc (Commit a n p) m = gem_memory_commit m a n p"
| "memory_exec acc (Commit_identity a h n p) m = gem_memory_commit_identity m a h n p"
| "memory_exec acc (Commit_external a h n p) m = gem_memory_commit_external m a h n p"
| "memory_exec acc (Decommit a n) m = gem_memory_decommit m a n"
| "memory_exec acc (Release a n) m = gem_memory_release m a n"
| "memory_exec acc (Unmap a n) m = gem_memory_unmap m a n"
| "memory_exec acc (Protect a n p) m = (case gem_memory_protect m a n p of (e, _, m) \<Rightarrow> (e, m))"
| "memory_exec acc (Alias a s n p) m = gem_memory_alias m a s n p"
| "memory_exec acc (Map_identity a h n p) m = gem_memory_map_identity m a h n p"
| "memory_exec acc (Bind_kuser h) m = gem_memory_bind_kuser m h"
| "memory_exec acc (Read a b n) m = buffer_result (gem_memory_read m a b n)"
| "memory_exec acc (Write a b n) m = buffer_result (gem_memory_write m a b n)"
| "memory_exec acc (Fetch a b n) m = buffer_result (gem_memory_fetch m a b n)"
| "memory_exec acc (Peek a b n) m = buffer_result (gem_memory_peek acc m a b n)"
| "memory_exec acc (Read_deferred_guard a b n) m = buffer_result (gem_memory_read_deferred_guard m a b n)"
| "memory_exec acc (Write_deferred_guard a b n) m = buffer_result (gem_memory_write_deferred_guard m a b n)"

text \<open>What a caller owes: a buffer has the size passed with it.\<close>

definition buffer_sized :: "byte_string option \<Rightarrow> u64 \<Rightarrow> bool" where
  "buffer_sized b n \<longleftrightarrow> b \<noteq> None \<longrightarrow> length (the b) = unat n"

fun call_sized :: "memory_call \<Rightarrow> bool" where
  "call_sized (Read a b n) = buffer_sized b n"
| "call_sized (Write a b n) = buffer_sized b n"
| "call_sized (Fetch a b n) = buffer_sized b n"
| "call_sized (Peek a b n) = buffer_sized b n"
| "call_sized (Read_deferred_guard a b n) = buffer_sized b n"
| "call_sized (Write_deferred_guard a b n) = buffer_sized b n"
| "call_sized _ = True"

text \<open>The \<open>_locked\<close> function behind each call, with the results the calls return reduced to status and memory.\<close>

inductive locked_run :: "(u64 \<Rightarrow> nat \<Rightarrow> bool) \<Rightarrow> memory_call \<Rightarrow> gem_memory \<Rightarrow> gem_memory_error \<Rightarrow> gem_memory \<Rightarrow> bool" for acc where
  "reserve_locked m a n = (e, r, m') \<Longrightarrow> locked_run acc (Reserve a n) m e m'"
| "commit_locked m a n p = (e, m') \<Longrightarrow> locked_run acc (Commit a n p) m e m'"
| "commit_external_locked m a h n p True = (e, m') \<Longrightarrow> locked_run acc (Commit_identity a h n p) m e m'"
| "commit_external_locked m a h n p False = (e, m') \<Longrightarrow> locked_run acc (Commit_external a h n p) m e m'"
| "decommit_locked m a n = (e, m') \<Longrightarrow> locked_run acc (Decommit a n) m e m'"
| "release_locked m a n = (e, m') \<Longrightarrow> locked_run acc (Release a n) m e m'"
| "unmap_locked m a n = (e, m') \<Longrightarrow> locked_run acc (Unmap a n) m e m'"
| "protect_locked m a n p = (e, r, m') \<Longrightarrow> locked_run acc (Protect a n p) m e m'"
| "alias_locked m a s n p = (e, m') \<Longrightarrow> locked_run acc (Alias a s n p) m e m'"
| "map_identity_locked m a h n p = (e, m') \<Longrightarrow> locked_run acc (Map_identity a h n p) m e m'"
| "bind_kuser_locked m h = (e, m') \<Longrightarrow> locked_run acc (Bind_kuser h) m e m'"
| "access_memory_locked m a b n False False False True = (e, b', m') \<Longrightarrow> locked_run acc (Read a b n) m e m'"
| "access_memory_locked m a b n True False False True = (e, b', m') \<Longrightarrow> locked_run acc (Write a b n) m e m'"
| "access_memory_locked m a b n False True False True = (e, b', m') \<Longrightarrow> locked_run acc (Fetch a b n) m e m'"
| "peek_locked acc m a b n = (e, b', m') \<Longrightarrow> locked_run acc (Peek a b n) m e m'"
| "access_memory_locked m a b n False False False False = (e, b', m') \<Longrightarrow> locked_run acc (Read_deferred_guard a b n) m e m'"
| "access_memory_locked m a b n True False False False = (e, b', m') \<Longrightarrow> locked_run acc (Write_deferred_guard a b n) m e m'"

lemma memory_exec_locked:
  assumes "memory_exec acc c (Some m) = (e, mo)"
  shows "\<exists>m'. mo = Some m' \<and> locked_run acc c m e m'"
  using assms
  by (cases c) (auto simp: gem_memory_reserve_def gem_memory_commit_def gem_memory_commit_identity_def
      gem_memory_commit_external_def gem_memory_decommit_def gem_memory_release_def gem_memory_unmap_def
      gem_memory_protect_def gem_memory_alias_def gem_memory_map_identity_def gem_memory_bind_kuser_def
      gem_memory_read_def gem_memory_write_def gem_memory_fetch_def gem_memory_peek_def
      gem_memory_read_deferred_guard_def gem_memory_write_deferred_guard_def on_memory_def on_buffer_def
      buffer_result_def split: prod.splits intro: locked_run.intros)

section \<open>Failing calls\<close>

text \<open>A failed call, guard faults apart, leaves the mapping and every byte as they were.\<close>

definition unchanged :: "(backing_ref \<Rightarrow> int) \<Rightarrow> gem_memory \<Rightarrow> gem_memory \<Rightarrow> bool" where
  "unchanged pins m m' \<longleftrightarrow> memory_inv pins m' \<and> layout m' = layout m \<and> byte_at m' = byte_at m"

lemma same_map_unchanged:
  "memory_inv pins m \<Longrightarrow> mem_ok pins m' \<Longrightarrow> same_map m m' \<Longrightarrow> unchanged pins m m'"
  by (simp add: unchanged_def same_map_inv same_map_views(2,4))

lemma eq_unchanged: "memory_inv pins m \<Longrightarrow> m' = m \<Longrightarrow> unchanged pins m m'"
  by (simp add: unchanged_def)

lemma frame_unchanged:
  assumes "memory_inv pins m" and "memory_inv pins m'" and "layout m' = layout m" and "bk_frame m m'"
  shows "unchanged pins m m'"
proof -
  have "byte_at m' x = byte_at m x" for x
    by (rule byte_at_frame [OF inv_mem_ok [OF assms(1)] inv_mem_ok [OF assms(2)] assms(4)
          inv_pins [OF assms(1)] inv_pins [OF assms(2)]]) (simp add: assms(3))
  then show ?thesis using assms(2,3) by (auto simp: unchanged_def)
qed

lemma reserve_null: "reserve_locked m None n = (e, r, m') \<Longrightarrow> e \<noteq> GEM_MEMORY_OK \<and> m' = m"
  by (auto simp: reserve_locked_def)

lemma access_unchanged:
  assumes "memory_inv pins m" and "access_memory_locked m a b n w x q g = (e, b', m')"
    and "e \<noteq> GEM_MEMORY_OK" and "e \<noteq> GEM_MEMORY_GUARD_PAGE"
  shows "unchanged pins m m'"
  by (rule same_map_unchanged [OF assms(1) access_fail(2,1) [OF assms]])

lemma locked_run_fail:
  assumes "locked_run acc c m e m'" and inv: "memory_inv pins m"
    and e: "e \<noteq> GEM_MEMORY_OK" "e \<noteq> GEM_MEMORY_GUARD_PAGE"
  shows "unchanged pins m m'"
  using assms(1)
proof cases
  case (1 a n r)
  show ?thesis
  proof (cases a)
    case None
    then show ?thesis using 1 reserve_null eq_unchanged [OF inv] by blast
  next
    case (Some x)
    then show ?thesis using 1 reserve_fail [OF inv _ e(1)] same_map_unchanged [OF inv] by blast
  qed
next
  case 2
  then show ?thesis using commit_fail [OF inv _ e(1)] same_map_unchanged [OF inv] by blast
next
  case 3
  then show ?thesis using external_fail [OF inv _ e(1)] same_map_unchanged [OF inv] by blast
next
  case 4
  then show ?thesis using external_fail [OF inv _ e(1)] same_map_unchanged [OF inv] by blast
next
  case 5
  then show ?thesis using decommit_fail e(1) eq_unchanged [OF inv] by blast
next
  case 6
  then show ?thesis using release_fail e(1) eq_unchanged [OF inv] by blast
next
  case 7
  then show ?thesis using unmap_fail e(1) eq_unchanged [OF inv] by blast
next
  case 8
  then show ?thesis using protect_fail e(1) eq_unchanged [OF inv] by blast
next
  case 9
  then show ?thesis using alias_fail [OF inv _ e(1)] same_map_unchanged [OF inv] by blast
next
  case 10
  then show ?thesis using map_identity_fail [OF inv _ e(1)] frame_unchanged [OF inv] by blast
next
  case 11
  then show ?thesis using bind_kuser_fail [OF inv _ e(1)] same_map_unchanged [OF inv] by blast
next
  case 15
  then show ?thesis using peek_fail e(1) eq_unchanged [OF inv] by blast
qed (erule access_unchanged [OF inv _ e])+

section \<open>Every call keeps the invariant\<close>

lemma access_null_write:
  "access_memory_locked m a None n True False q g = (e, b', m') \<Longrightarrow> m' = m"
  by (auto simp: access_memory_locked_def split: if_splits)

lemma access_sized_inv:
  assumes inv: "memory_inv pins m" and run: "access_memory_locked m a b n w x False g = (e, b', m')"
    and "buffer_sized b n" and "w \<longrightarrow> \<not> x"
  shows "memory_inv pins m'"
proof (cases "w \<and> b = None")
  case True
  then show ?thesis using access_null_write [of m a n False g e b' m'] run inv assms(4) by simp
next
  case False
  then show ?thesis using access_inv [OF inv run] assms(3) by (simp add: buffer_sized_def)
qed

lemma external_inv:
  assumes "memory_inv pins m" and "commit_external_locked m a h n p i = (e, m')"
  shows "memory_inv pins m'"
  using assms external_ok(6) [of pins m a h n p i m'] external_fail [of pins m a h n p i e m']
    same_map_inv [OF assms(1), of m'] by (cases "e = GEM_MEMORY_OK") simp_all

lemma locked_run_inv:
  assumes "locked_run acc c m e m'" and inv: "memory_inv pins m" and sz: "call_sized c"
  shows "memory_inv pins m'"
proof (cases "e = GEM_MEMORY_OK \<or> e = GEM_MEMORY_GUARD_PAGE")
  case False
  then show ?thesis using locked_run_fail [OF assms(1,2)] by (simp add: unchanged_def)
next
  case True
  show ?thesis using assms(1)
  proof cases
    case (1 a n r)
    show ?thesis
    proof (cases "e = GEM_MEMORY_OK")
      case T: True
      then obtain x where a: "a = Some x" using 1 reserve_null [of m n e r m'] by (cases a) auto
      show ?thesis using reserve_ok [OF inv, of x n r m'] 1 a T by blast
    next
      case False
      show ?thesis
      proof (cases a)
        case None
        then show ?thesis using 1 reserve_null inv by blast
      next
        case (Some x)
        then show ?thesis using 1 reserve_fail [OF inv _ False] same_map_inv [OF inv] by blast
      qed
    qed
  next
    case 2
    then show ?thesis using commit_ok(3) [OF inv] commit_fail [OF inv] same_map_inv [OF inv] by blast
  next
    case 3
    then show ?thesis using external_inv [OF inv] by blast
  next
    case 4
    then show ?thesis using external_inv [OF inv] by blast
  next
    case 5
    then show ?thesis using decommit_ok(2) [OF inv] decommit_fail inv by blast
  next
    case 6
    then show ?thesis using release_ok(3) [OF inv] release_fail inv by blast
  next
    case (7 a n)
    then show ?thesis using unmap_ok [OF inv, of a n m'] unmap_fail inv by blast
  next
    case 8
    then show ?thesis using protect_ok(3) [OF inv] protect_fail inv by blast
  next
    case 9
    then show ?thesis using alias_ok(3) [OF inv] alias_fail [OF inv] same_map_inv [OF inv] by blast
  next
    case 10
    then show ?thesis using map_identity_ok(5) [OF inv] map_identity_fail(1) [OF inv] by blast
  next
    case 11
    then show ?thesis using bind_kuser_ok(1) [OF inv] bind_kuser_fail [OF inv] same_map_inv [OF inv] by blast
  next
    case (15 a b n b')
    then show ?thesis using peek_ok(1) [OF inv, of acc a b n b' m'] peek_fail [of acc m a b n e b' m'] inv sz
      by (cases "e = GEM_MEMORY_OK") (simp_all add: buffer_sized_def)
  qed (erule access_sized_inv [OF inv], use sz in simp, simp)+
qed

end
