(* ===== verification/Gem_Memory_Theorems.thy ===== *)
theory Gem_Memory_Theorems
  imports Gem_Memory_Calls
begin

text \<open>
  The properties of the guest memory of src/gem/memory.c. The invariant and the contracts of the
  single operations are in the theories this one imports; here they are put together for the public
  entry points, for sequences of calls, and for a memory made by \<open>gem_memory_create\<close>.
\<close>

section \<open>A concrete memory\<close>

text \<open>What \<open>gem_memory_create\<close> returns when no allocation fails and host memory is zero.\<close>

definition sample_memory :: gem_memory where
  "sample_memory = the (gem_memory_create (\<lambda>_. True) (\<lambda>_. 0) (\<lambda>_. 0) True (\<lambda>_. True))"

lemma sample_create: "gem_memory_create (\<lambda>_. True) (\<lambda>_. 0) (\<lambda>_. 0) True (\<lambda>_. True) = Some sample_memory"
  unfolding sample_memory_def using create_total [of "\<lambda>_. 0" "\<lambda>_. 0"] by auto

lemma sample_inv: "memory_inv no_pins sample_memory"
  by (rule create_ok(1) [OF sample_create])

lemma sample_plentiful: "plentiful sample_memory"
  using create_total [of "\<lambda>_. 0" "\<lambda>_. 0"] sample_create by auto

lemma sample_page:
  "\<exists>b k. layout sample_memory 0x7ffe0000 = Some \<lparr>address = 0x7ffe0000, reservation_base = 0x7ffe0000,
     reservation_size = 4096, page_backing = Some b, protection = GEM_PAGE_READWRITE, generation = 0\<rparr> \<and>
   layout sample_memory 0x1007ffe0000 = Some \<lparr>address = 0x1007ffe0000, reservation_base = 0x1007ffe0000,
     reservation_size = 4096, page_backing = Some b, protection = GEM_PAGE_READWRITE, generation = 0\<rparr> \<and>
   backing_heap sample_memory b = Some k \<and> bk_data k = Owned (\<lambda>_. 0) \<and> \<not> external k"
  using create_ok(2) [OF sample_create]
  by (auto simp: GEM_KUSER_CANONICAL_ADDRESS_def GEM_KUSER_SHARED_DATA_ADDRESS_def GEM_GUEST_PAGE_SIZE_def)

lemma sample_layout_None: "x \<noteq> 0x7ffe0000 \<Longrightarrow> x \<noteq> 0x1007ffe0000 \<Longrightarrow> layout sample_memory x = None"
  using create_ok(2) [OF sample_create]
  by (auto simp: GEM_KUSER_CANONICAL_ADDRESS_def GEM_KUSER_SHARED_DATA_ADDRESS_def)

text \<open>One byte at the start of a page, and the accesses that succeed there.\<close>

lemma one_piece [simp]: "range_pieces 0x7ffe0000 1 = [(0x7ffe0000, 0, 0, 1)]"
  by (simp add: range_pieces_def page_base_def)

lemma one_byte_check:
  assumes "mem_ok pins m" and "layout m 0x7ffe0000 = Some p" and "page_backing p = Some b"
    and "allowed (protection p) w x" and "protection p AND GEM_PAGE_GUARD = 0"
  shows "\<exists>r. access_check (bump m) w x (range_pieces 0x7ffe0000 1) = Inr [r] \<and> find (guarded (bump m)) [r] = None"
proof -
  obtain r q where r: "at m 0x7ffe0000 = Some r" "page_heap m r = Some q" "p = q\<lparr>generation := 0\<rparr>"
    using layout_at [OF assms(1,2)] by blast
  have "at (bump m) = at m" by (simp add: fun_eq_iff at_def)
  then show ?thesis using r assms(3-5) by (simp add: guarded_def rbind_def)
qed

lemma one_byte_write:
  assumes "memory_inv pins m" and "plentiful m" and "layout m 0x7ffe0000 = Some p" and "page_backing p = Some b"
    and "allowed (protection p) True False" and "protection p AND GEM_PAGE_GUARD = 0"
  shows "\<exists>m'. gem_memory_write (Some m) 0x7ffe0000 (Some [v]) 1 = (GEM_MEMORY_OK, Some [v], Some m')"
proof -
  obtain r where "access_check (bump m) True False (range_pieces 0x7ffe0000 1) = Inr [r]" "find (guarded (bump m)) [r] = None"
    using one_byte_check [OF inv_mem_ok [OF assms(1)] assms(3-6)] by blast
  moreover have "(1 :: u64) \<le> - 1 - (0x7ffe0000 AND 4095) - 4095" "(0x7ffe0000 :: u64) \<le> - 1 - 1" by code_simp+
  ultimately show ?thesis using write_total [OF assms(1,2), where n = 1 and a = "0x7ffe0000" and ps = "[r]" and buf = "[v]" and consume = True]
    by (auto simp: gem_memory_write_def on_buffer_def simp del: access_check.simps one_piece)
qed

lemma one_byte_read:
  assumes "memory_inv pins m" and "plentiful m" and "layout m 0x7ffe0000 = Some p" and "page_backing p = Some b"
    and "allowed (protection p) False False" and "protection p AND GEM_PAGE_GUARD = 0"
  shows "\<exists>b' m'. gem_memory_read (Some m) 0x7ffe0000 (Some [v]) 1 = (GEM_MEMORY_OK, b', Some m')"
proof -
  obtain r where r: "access_check (bump m) False False (range_pieces 0x7ffe0000 1) = Inr [r]" "find (guarded (bump m)) [r] = None"
    using one_byte_check [OF inv_mem_ok [OF assms(1)] assms(3-6)] by blast
  have c: "\<not> ((1 :: u64) > - 1 - (0x7ffe0000 AND 4095) - 4095)" "\<not> (0x7ffe0000 > - 1 - (1 :: u64))" by simp_all
  obtain e b' m' where run: "access_memory_locked m 0x7ffe0000 (Some [v]) 1 False False False True = (e, b', m')"
    by (metis prod_cases3)
  then have "e = GEM_MEMORY_OK"
    using r plentiful_alloc [OF assms(2)] c
    by (auto simp: access_memory_locked_def range_pieces_def access_finish_def Let_def split: option.splits)
  then show ?thesis using run by (simp add: gem_memory_read_def on_buffer_def)
qed

lemma sample_write:
  "\<exists>m'. gem_memory_write (Some sample_memory) 0x7ffe0000 (Some [v]) 1 = (GEM_MEMORY_OK, Some [v], Some m')"
proof -
  obtain b where "layout sample_memory 0x7ffe0000 = Some \<lparr>address = 0x7ffe0000, reservation_base = 0x7ffe0000,
     reservation_size = 4096, page_backing = Some b, protection = GEM_PAGE_READWRITE, generation = 0\<rparr>"
    using sample_page by blast
  from one_byte_write [OF sample_inv sample_plentiful this, of b] show ?thesis by (simp add: allowed_def)
qed

lemma sample_read:
  "\<exists>b' m'. gem_memory_read (Some sample_memory) 0x7ffe0000 (Some [v]) 1 = (GEM_MEMORY_OK, b', Some m')"
proof -
  obtain b where "layout sample_memory 0x7ffe0000 = Some \<lparr>address = 0x7ffe0000, reservation_base = 0x7ffe0000,
     reservation_size = 4096, page_backing = Some b, protection = GEM_PAGE_READWRITE, generation = 0\<rparr>"
    using sample_page by blast
  from one_byte_read [OF sample_inv sample_plentiful this, of b] show ?thesis by (simp add: allowed_def)
qed

text \<open>The same page under another protection.\<close>

lemma sample_protect:
  assumes "prot_ok prot"
  obtains m b k where "gem_memory_protect (Some sample_memory) 0x7ffe0000 4096 prot = (GEM_MEMORY_OK, Some GEM_PAGE_READWRITE, Some m)"
    "memory_inv no_pins m" "plentiful m"
    "layout m 0x7ffe0000 = Some \<lparr>address = 0x7ffe0000, reservation_base = 0x7ffe0000,
       reservation_size = 4096, page_backing = Some b, protection = prot, generation = 0\<rparr>"
    "backing_heap m b = Some k" "\<not> external k"
proof -
  obtain b k where l: "layout sample_memory 0x7ffe0000 = Some \<lparr>address = 0x7ffe0000, reservation_base = 0x7ffe0000,
     reservation_size = 4096, page_backing = Some b, protection = GEM_PAGE_READWRITE, generation = 0\<rparr>"
    and k: "backing_heap sample_memory b = Some k" "\<not> external k" using sample_page by blast
  have pa: "page_addrs 0x7ffe0000 4096 = [0x7ffe0000]" using page_addrs_one by (simp add: GEM_GUEST_PAGE_SIZE_def)
  have ro: "range_ok 0x7ffe0000 4096" using kuser_ranges(2) by (simp add: GEM_KUSER_SHARED_DATA_ADDRESS_def GEM_GUEST_PAGE_SIZE_def)
  obtain p where p: "page_at sample_memory 0x7ffe0000 = Some p" and q: "p\<lparr>generation := 0\<rparr> =
      \<lparr>address = 0x7ffe0000, reservation_base = 0x7ffe0000, reservation_size = 4096, page_backing = Some b,
        protection = GEM_PAGE_READWRITE, generation = 0\<rparr>"
    using l by (auto simp: layout_def)
  have q: "page_backing p = Some b" "protection p = GEM_PAGE_READWRITE"
    using arg_cong [OF q, of page_backing] arg_cong [OF q, of protection] by simp_all
  obtain m where run: "protect_locked sample_memory 0x7ffe0000 4096 prot = (GEM_MEMORY_OK, Some GEM_PAGE_READWRITE, m)"
    and m: "m = foldl touch_at (foldl (set_protection prot) sample_memory [0x7ffe0000]) [0x7ffe0000]"
    using p q assms ro by (simp add: protect_locked_def check_def pa)
  note ok = protect_ok [OF sample_inv run]
  have "heap_ok m = heap_ok sample_memory"
    unfolding m by (simp add: touch_at_def set_protection_def split: option.split)
  then have pl: "plentiful m" using sample_plentiful by (simp add: plentiful_def)
  have lm: "layout m 0x7ffe0000 = Some \<lparr>address = 0x7ffe0000, reservation_base = 0x7ffe0000,
       reservation_size = 4096, page_backing = Some b, protection = prot, generation = 0\<rparr>"
    using ok(6) [of "0x7ffe0000"] l by (simp add: pa)
  obtain k' where k': "backing_heap m b = Some k'"
    using layout_backing_alive [OF inv_mem_ok [OF ok(3)] inv_pins [OF ok(3)] lm] by auto
  have "b < heap_count sample_memory"
    using alive_lt [OF _ k(1)] inv_mem_ok [OF sample_inv] by (auto simp: mem_ok_def)
  then have "k'\<lparr>refs := 0\<rparr> = k\<lparr>refs := 0\<rparr>" using ok(4) k k' by (auto simp: bk_frame_def)
  from arg_cong [OF this, of external] have "\<not> external k'" using k(2) by simp
  then show thesis using that [of m b k'] run ok(3) pl lm k' by (simp add: gem_memory_protect_def)
qed

section \<open>Pieces and addresses\<close>

lemma pieces_cover:
  fixes a :: u64
  assumes "pieces_ok a d e cs" and "d \<le> i" and "i < e"
  shows "page_base (a + of_nat i) \<in> set (map fst cs)"
  using assms
proof (induction cs arbitrary: d)
  case (Cons c cs)
  obtain q off z where c: "c = (q, off, d, z)" "q = page_base (a + of_nat d)"
      "off = unat ((a + of_nat d) AND 4095)" "off + z \<le> 4096" "pieces_ok a (d + z) e cs"
    using Cons.prems(1) by (cases c) auto
  show ?case
  proof (cases "i < d + z")
    case True
    then have lt: "unat ((a + of_nat d) AND 4095) + (i - d) < 4096" using Cons.prems(2) c(3,4) by simp
    have "a + of_nat i = (a + of_nat d) + of_nat (i - d)" using Cons.prems(2) by simp
    then have "page_base (a + of_nat i) = q" using page_step(1) [OF lt] c(2) by (simp only:)
    then show ?thesis by (simp add: c(1))
  next
    case False
    then show ?thesis using Cons.IH [OF c(5)] Cons.prems(3) by simp
  qed
qed simp

lemma pieces_origin:
  assumes "pieces_ok a d e cs" and "q \<in> set (map fst cs)"
  shows "\<exists>i. d \<le> i \<and> i < e \<and> q = page_base (a + of_nat i)"
  using assms
proof (induction cs arbitrary: d)
  case (Cons c cs)
  obtain q' off z where c: "c = (q', off, d, z)" "q' = page_base (a + of_nat d)" "0 < z" "d + z \<le> e"
      "pieces_ok a (d + z) e cs"
    using Cons.prems(1) by (cases c) auto
  show ?case
  proof (cases "q = q'")
    case True
    then show ?thesis using c by (intro exI [of _ d]) simp
  next
    case False
    then have "q \<in> set (map fst cs)" using Cons.prems(2) c(1) by simp
    from Cons.IH [OF c(5) this] obtain i where "d + z \<le> i" "i < e" "q = page_base (a + of_nat i)" by blast
    then show ?thesis by (intro exI [of _ i]) simp
  qed
qed simp

text \<open>An access that went past its argument checks has well-formed pieces.\<close>

lemma access_ok_pieces:
  assumes "access_memory_locked m a b n w x query consume = (GEM_MEMORY_OK, b', m')" and "n \<noteq> 0"
  shows "pieces_ok a 0 (unat n) (range_pieces a n)"
  using assms(1)
proof (cases rule: access_cases)
  case (queried ps)
  then show ?thesis by (simp add: validated_def)
next
  case (finish ps copies m3)
  then show ?thesis by (simp add: validated_def)
qed (use assms(2) in auto)

section \<open>Reading and writing\<close>

lemma on_buffer_Some:
  "on_buffer (Some m) b f = (e, b', mo) \<longleftrightarrow> (\<exists>m'. f m = (e, b', m') \<and> mo = Some m')"
  by (auto simp: on_buffer_def split: prod.splits)

lemma write_zero:
  "access_memory_locked m a b 0 w x query consume = (GEM_MEMORY_OK, b', m') \<Longrightarrow> m' = m \<and> b' = b"
  by (auto simp: access_memory_locked_def split: if_splits)

lemma write_layout:
  assumes inv: "memory_inv pins m" and run: "access_memory_locked m a (Some buf) n True x False consume = (GEM_MEMORY_OK, b', m')"
    and n: "n \<noteq> 0" and len: "length buf = unat n"
    and q: "(\<forall>i < unat n. q \<noteq> page_base (a + of_nat i)) \<or> (\<exists>p. layout m q = Some p \<and> \<not> writecopy p)"
  shows "layout m' q = layout m q" and "memory_inv pins m'"
proof -
  obtain m1 where w: "memory_inv pins m'" "layout m' = layout m1"
      "\<forall>q. q \<notin> set (map fst (range_pieces a n)) \<longrightarrow> layout m1 q = layout m q"
      "\<forall>q p. q \<in> set (map fst (range_pieces a n)) \<and> layout m q = Some p \<and> \<not> writecopy p \<longrightarrow> layout m1 q = Some p"
    using write_finish [OF inv run n len] by blast
  show "layout m' q = layout m q"
  proof (cases "q \<in> set (map fst (range_pieces a n))")
    case True
    then have "\<exists>p. layout m q = Some p \<and> \<not> writecopy p"
      using q pieces_origin [OF access_ok_pieces [OF run n] True] by blast
    then show ?thesis using w(2,4) True by force
  qed (use w(2,3) in simp)
  show "memory_inv pins m'" by (rule w(1))
qed

lemma sample_write_more:
  "\<exists>m'. gem_memory_write (Some sample_memory) 0x7ffe0000 (Some [v]) 1 = (GEM_MEMORY_OK, Some [v], Some m') \<and>
    memory_inv no_pins m' \<and> plentiful m' \<and> layout m' 0x7ffe0000 = layout sample_memory 0x7ffe0000"
proof -
  obtain m' where w: "gem_memory_write (Some sample_memory) 0x7ffe0000 (Some [v]) 1 = (GEM_MEMORY_OK, Some [v], Some m')"
    using sample_write by blast
  then have run: "access_memory_locked sample_memory 0x7ffe0000 (Some [v]) 1 True False False True = (GEM_MEMORY_OK, Some [v], m')"
    by (simp add: gem_memory_write_def on_buffer_Some)
  obtain b where l: "layout sample_memory 0x7ffe0000 = Some \<lparr>address = 0x7ffe0000, reservation_base = 0x7ffe0000,
     reservation_size = 4096, page_backing = Some b, protection = GEM_PAGE_READWRITE, generation = 0\<rparr>"
    using sample_page by blast
  have one: "(1 :: u64) \<noteq> 0" "length [v] = unat (1 :: u64)" by simp_all
  have "layout m' 0x7ffe0000 = layout sample_memory 0x7ffe0000" "memory_inv no_pins m'"
    by (rule write_layout [OF sample_inv run one, of "0x7ffe0000"]; simp add: l writecopy_def)+
  then show ?thesis using w access_plentiful [OF run sample_plentiful] by blast
qed

text \<open>
  (C2) A successful guest write, whatever pages and aliases it crosses and whether or not it copies
  write-copy pages, is a byte-by-byte store: afterwards every guest address shows the last byte
  stored into the cell it denotes, and its old byte when the write did not touch that cell. The
  page table entries outside the range, and those inside it that are not write-copy, stay as they
  are, as do the caller's buffer and the invariant.
\<close>

theorem write_spec:
  assumes "memory_inv pins m" and "gem_memory_write (Some m) a (Some buf) n = (GEM_MEMORY_OK, b', Some m')"
    and "length buf = unat n"
  shows "memory_inv pins m' \<and> b' = Some buf \<and>
    (\<forall>q. (\<forall>i < unat n. q \<noteq> page_base (a + of_nat i)) \<or> (\<exists>p. layout m q = Some p \<and> \<not> writecopy p) \<longrightarrow>
       layout m' q = layout m q) \<and>
    (\<forall>y. byte_at m' y = (case cell m' y of None \<Rightarrow> None
      | Some c \<Rightarrow> (case find (\<lambda>i. cell m' (a + of_nat i) = Some c) (rev [0..<unat n]) of
          Some i \<Rightarrow> Some (buf ! i) | None \<Rightarrow> byte_at m y)))"
proof -
  have run: "access_memory_locked m a (Some buf) n True False False True = (GEM_MEMORY_OK, b', m')"
    using assms(2) by (simp add: gem_memory_write_def on_buffer_Some)
  show ?thesis
  proof (cases "n = 0")
    case True
    then have "m' = m" "b' = Some buf" using write_zero [OF run [unfolded True]] by auto
    then show ?thesis using assms(1) True by (simp add: byte_at_contents split: option.split)
  next
    case False
    obtain m1 where w: "byte_at m1 = byte_at m" "memory_inv pins m'" "b' = Some buf"
        "layout m' = layout m1" "shape m' = shape m1"
        "contents m' = store_bytes m1 a buf [0..<unat n] (contents m1)"
      using write_finish [OF assms(1) run False assms(3)] by blast
    show ?thesis using w(2,3) write_byte_at [OF w(1,4,5,6)] write_layout(1) [OF assms(1) run False assms(3)] by blast
  qed
qed

theorem write_spec_witness:
  "\<exists>m'. gem_memory_write (Some sample_memory) 0x7ffe0000 (Some [7]) 1 = (GEM_MEMORY_OK, Some [7], Some m') \<and>
    memory_inv no_pins m'"
proof -
  obtain m' where w: "gem_memory_write (Some sample_memory) 0x7ffe0000 (Some [7]) 1 = (GEM_MEMORY_OK, Some [7], Some m')"
    using sample_write by blast
  then show ?thesis using write_spec [OF sample_inv w] by simp
qed

text \<open>
  (C3) A successful guest read fills the buffer with exactly the bytes of its range and changes no
  byte of the guest's memory.
\<close>

theorem read_spec:
  assumes "memory_inv pins m" and "gem_memory_read (Some m) a (Some buf) n = (GEM_MEMORY_OK, b', Some m')"
    and "length buf = unat n"
  shows "memory_inv pins m' \<and> byte_at m' = byte_at m \<and>
    (\<exists>buf'. b' = Some buf' \<and> length buf' = unat n \<and> (\<forall>i < unat n. byte_at m (a + of_nat i) = Some (buf' ! i)))"
proof -
  have run: "access_memory_locked m a (Some buf) n False False False True = (GEM_MEMORY_OK, b', m')"
    using assms(2) by (simp add: gem_memory_read_def on_buffer_Some)
  show ?thesis
  proof (cases "n = 0")
    case True
    from write_zero [OF run [unfolded True]] show ?thesis using assms(1,3) True by auto
  next
    case False
    show ?thesis using read_finish [OF assms(1) run False assms(3)] by blast
  qed
qed

theorem read_spec_witness:
  "\<exists>b' m'. gem_memory_read (Some sample_memory) 0x7ffe0000 (Some [5]) 1 = (GEM_MEMORY_OK, b', Some m') \<and>
    memory_inv no_pins m' \<and> byte_at m' = byte_at sample_memory"
proof -
  obtain b' m' where r: "gem_memory_read (Some sample_memory) 0x7ffe0000 (Some [5]) 1 = (GEM_MEMORY_OK, b', Some m')"
    using sample_read by blast
  then show ?thesis using read_spec [OF sample_inv r] by simp
qed

text \<open>
  (C4) Reading back what was written returns it, when no two bytes of the range share storage.
\<close>

theorem write_read_roundtrip:
  assumes inv: "memory_inv pins m"
    and w: "gem_memory_write (Some m) a (Some buf) n = (GEM_MEMORY_OK, b1, Some m1)"
    and r: "gem_memory_read (Some m1) a (Some buf0) n = (GEM_MEMORY_OK, b2, mo)"
    and len: "length buf = unat n" "length buf0 = unat n"
    and inj: "inj_on (\<lambda>i. cell m1 (a + of_nat i)) {..<unat n}"
  shows "b2 = Some buf"
proof (cases "n = 0")
  case True
  have "access_memory_locked m1 a (Some buf0) n False False False True = (GEM_MEMORY_OK, b2, the mo)"
    using r by (auto simp: gem_memory_read_def on_buffer_Some)
  from write_zero [OF this [unfolded True]] show ?thesis using True len by simp
next
  case False
  have runw: "access_memory_locked m a (Some buf) n True False False True = (GEM_MEMORY_OK, b1, m1)"
    using w by (simp add: gem_memory_write_def on_buffer_Some)
  obtain m0 where w0: "byte_at m0 = byte_at m" "memory_inv pins m1" "layout m1 = layout m0" "shape m1 = shape m0"
      "contents m1 = store_bytes m0 a buf [0..<unat n] (contents m0)"
    using write_finish [OF inv runw False len(1)] by blast
  note wb = write_byte_at [OF w0(1,3,4,5)]
  obtain m2 where runr: "access_memory_locked m1 a (Some buf0) n False False False True = (GEM_MEMORY_OK, b2, m2)"
    using r by (auto simp: gem_memory_read_def on_buffer_Some)
  obtain buf' where b: "b2 = Some buf'" "length buf' = unat n" "\<forall>i < unat n. byte_at m1 (a + of_nat i) = Some (buf' ! i)"
    using read_finish(3) [OF w0(2) runr False len(2)] by blast
  have "buf' ! i = buf ! i" if i: "i < unat n" for i
  proof -
    obtain c where c: "cell m1 (a + of_nat i) = Some c" using b(3) i by (auto simp: byte_at_contents bind_eq_Some_conv)
    have "find (\<lambda>j. cell m1 (a + of_nat j) = Some c) (rev [0..<unat n]) = Some i"
      by (subst find_unique) (use c i inj in \<open>auto simp: inj_on_def\<close>)
    then show ?thesis using wb [of "a + of_nat i"] b(3) i c by simp
  qed
  then have "buf' = buf" using b(2) len(1) by (intro nth_equalityI) auto
  then show ?thesis using b(1) by simp
qed

theorem write_read_roundtrip_witness:
  "\<exists>m1 mo. gem_memory_write (Some sample_memory) 0x7ffe0000 (Some [7]) 1 = (GEM_MEMORY_OK, Some [7], Some m1) \<and>
    gem_memory_read (Some m1) 0x7ffe0000 (Some [0]) 1 = (GEM_MEMORY_OK, Some [7], mo)"
proof -
  obtain m1 where w: "gem_memory_write (Some sample_memory) 0x7ffe0000 (Some [7]) 1 = (GEM_MEMORY_OK, Some [7], Some m1)"
      "memory_inv no_pins m1" "plentiful m1" "layout m1 0x7ffe0000 = layout sample_memory 0x7ffe0000"
    using sample_write_more by blast
  obtain b where l: "layout m1 0x7ffe0000 = Some \<lparr>address = 0x7ffe0000, reservation_base = 0x7ffe0000,
     reservation_size = 4096, page_backing = Some b, protection = GEM_PAGE_READWRITE, generation = 0\<rparr>"
    using sample_page w(4) by auto
  obtain b2 mo where r: "gem_memory_read (Some m1) 0x7ffe0000 (Some [0]) 1 = (GEM_MEMORY_OK, b2, Some mo)"
    using one_byte_read [OF w(2,3) l, of b 0] by (auto simp: allowed_def)
  have "b2 = Some [7]" by (rule write_read_roundtrip [OF sample_inv w(1) r]) (simp_all add: inj_on_def)
  then show ?thesis using w(1) r by blast
qed

text \<open>
  (C5) Copy-on-write isolates: after a write to private write-copy pages, no byte outside the pages
  of the range has changed, however those pages were shared.
\<close>

theorem write_copy_isolation:
  assumes inv: "memory_inv pins m"
    and w: "gem_memory_write (Some m) a (Some buf) n = (GEM_MEMORY_OK, b1, Some m')"
    and len: "length buf = unat n"
    and pages: "\<forall>i < unat n. \<exists>p b k. layout m (page_base (a + of_nat i)) = Some p \<and> page_backing p = Some b \<and>
       backing_heap m b = Some k \<and> writecopy p \<and> \<not> external k"
    and y: "\<forall>i < unat n. page_base y \<noteq> page_base (a + of_nat i)"
  shows "byte_at m' y = byte_at m y"
proof (cases "n = 0")
  case True
  have "access_memory_locked m a (Some buf) n True False False True = (GEM_MEMORY_OK, b1, m')"
    using w by (simp add: gem_memory_write_def on_buffer_Some)
  from write_zero [OF this [unfolded True]] show ?thesis by simp
next
  case False
  have run: "access_memory_locked m a (Some buf) n True False False True = (GEM_MEMORY_OK, b1, m')"
    using w by (simp add: gem_memory_write_def on_buffer_Some)
  note pk = access_ok_pieces [OF run False]
  obtain m1 where "memory_inv pins m1" and m1: "byte_at m1 = byte_at m" "memory_inv pins m'" and "b1 = Some buf"
    and m1': "layout m' = layout m1" "shape m' = shape m1"
      "contents m' = store_bytes m1 a buf [0..<unat n] (contents m1)"
      "\<forall>q. q \<notin> set (map fst (range_pieces a n)) \<longrightarrow> layout m1 q = layout m q"
      "\<forall>q p b k. q \<in> set (map fst (range_pieces a n)) \<and> layout m q = Some p \<and> writecopy p \<and>
       page_backing p = Some b \<and> backing_heap m b = Some k \<and> \<not> external k \<longrightarrow>
       (\<exists>b'. layout m1 q = Some (p\<lparr>page_backing := Some b', protection := written_protection p\<rparr>) \<and>
         heap_count m \<le> b' \<and> shape m1 b' = Some None)"
    by (rule write_finish [OF inv run False len])
  note m1 = m1 m1'
  have yq: "page_base y \<notin> set (map fst (range_pieces a n))"
    using pieces_origin [OF pk] y by blast
  have ly: "layout m' (page_base y) = layout m (page_base y)" using m1(3,6) yq by simp
  have ci: "\<exists>b' j. cell m' (a + of_nat i) = Some (Owned_cell b' j) \<and> heap_count m \<le> b'" if i: "i < unat n" for i
  proof -
    have q: "page_base (a + of_nat i) \<in> set (map fst (range_pieces a n))" using pieces_cover [OF pk] i by simp
    obtain p b k where p: "layout m (page_base (a + of_nat i)) = Some p" "page_backing p = Some b"
        "backing_heap m b = Some k" "writecopy p" "\<not> external k" using pages i by blast
    obtain b' where b': "layout m1 (page_base (a + of_nat i)) =
        Some (p\<lparr>page_backing := Some b', protection := written_protection p\<rparr>)" "heap_count m \<le> b'" "shape m1 b' = Some None"
      using m1(7) q p(1,4,2,3,5) by metis
    have "Option.bind (page_at m' (page_base (a + of_nat i))) page_backing = Some b'"
      using layout_backing [of m' "page_base (a + of_nat i)"] b'(1) m1(3) by simp
    then show ?thesis using b'(2,3) m1(4) by (simp add: cell_def cell_of_shape)
  qed
  have "c = Owned_cell b j \<Longrightarrow> b < heap_count m" if "cell m' y = Some c" for c b j
  proof -
    assume c: "c = Owned_cell b j"
    have "Option.bind (layout m (page_base y)) page_backing = Some b"
      using that c ly layout_backing [of m' "page_base y"]
      by (auto simp: cell_def cell_of_shape bind_eq_Some_conv split: option.splits)
    then obtain p where "layout m (page_base y) = Some p" "page_backing p = Some b" by (auto simp: bind_eq_Some_conv)
    then obtain k where "backing_heap m b = Some k"
      using layout_backing_alive [OF inv_mem_ok [OF inv] inv_pins [OF inv]] by blast
    then show ?thesis using alive_lt inv_mem_ok [OF inv] unfolding mem_ok_def by blast
  qed
  then have "find (\<lambda>i. cell m' (a + of_nat i) = Some c) (rev [0..<unat n]) = None" if "cell m' y = Some c" for c
    unfolding find_None_iff using that ci by (metis atLeastLessThan_iff linorder_not_le option.inject set_rev set_upt)
  moreover have "byte_at m y = None" if "cell m' y = None"
  proof -
    have "cell m1 y = None" using that cell_eq [OF m1(3,4)] by simp
    then show ?thesis using m1(1) by (metis byte_at_contents bind.bind_lzero)
  qed
  ultimately show ?thesis using write_byte_at [OF m1(1,3,4,5), of y] by (cases "cell m' y") simp_all
qed

theorem write_copy_isolation_witness:
  "\<exists>m m'. memory_inv no_pins m \<and> gem_memory_write (Some m) 0x7ffe0000 (Some [7]) 1 = (GEM_MEMORY_OK, Some [7], Some m') \<and>
    byte_at m' 0x1007ffe0000 = byte_at m 0x1007ffe0000"
proof -
  have "prot_ok GEM_PAGE_WRITECOPY" by (simp add: prot_ok_def)
  then obtain m b k where m: "memory_inv no_pins m" "plentiful m" "layout m 0x7ffe0000 = Some \<lparr>address = 0x7ffe0000,
       reservation_base = 0x7ffe0000, reservation_size = 4096, page_backing = Some b, protection = GEM_PAGE_WRITECOPY,
       generation = 0\<rparr>" "backing_heap m b = Some k" "\<not> external k" by (rule sample_protect)
  obtain m' where w: "gem_memory_write (Some m) 0x7ffe0000 (Some [7]) 1 = (GEM_MEMORY_OK, Some [7], Some m')"
    using one_byte_write [OF m(1-3), of b 7] by (auto simp: allowed_def)
  have "byte_at m' 0x1007ffe0000 = byte_at m 0x1007ffe0000"
    by (rule write_copy_isolation [OF m(1) w]) (use m(3-5) in \<open>simp_all add: page_base_def writecopy_def\<close>)
  then show ?thesis using m(1) w by blast
qed

end
