(* ===== verification/Gem_Memory_Laws.thy ===== *)
theory Gem_Memory_Laws
  imports Gem_Memory_Theorems
begin

text \<open>
  The laws of the operations that change the mapping of src/gem/memory.c (reserve, commit, decommit,
  release, unmap, protect, alias, external and identity mappings, the shared user page), of the page
  index, and of whole sequences of calls.
\<close>

section \<open>Reachable memories\<close>

text \<open>
  From \<open>gem_memory_create\<close>, by public calls with buffers of the stated size, interleaved with host code
  that changes the host memory behind external mappings.
\<close>

inductive memory_reachable :: "(u64 \<Rightarrow> nat \<Rightarrow> bool) \<Rightarrow> gem_memory \<Rightarrow> bool" for acc where
  created: "gem_memory_create ok g h li si = Some m \<Longrightarrow> memory_reachable acc m"
| called: "memory_reachable acc m \<Longrightarrow> call_sized c \<Longrightarrow> memory_exec acc c (Some m) = (e, Some m') \<Longrightarrow> memory_reachable acc m'"
| queried: "memory_reachable acc m \<Longrightarrow> gem_memory_is_executable (Some m) a n = (r, Some m') \<Longrightarrow> memory_reachable acc m'"
| host_write: "memory_reachable acc m \<Longrightarrow> memory_reachable acc (m\<lparr>host_memory := h\<rparr>)"

lemma is_executable_same:
  assumes "gem_memory_is_executable (Some m) a n = (r, Some m')"
  shows "\<exists>c \<ge> heap_count m. m' = m\<lparr>heap_count := c\<rparr>"
proof -
  obtain e b' where "access_memory_locked m a None n False True True True = (e, b', m')"
    using assms by (auto simp: gem_memory_is_executable_def split: prod.splits)
  then show ?thesis
  proof (cases rule: access_cases)
    case empty
    then show ?thesis by (intro exI [of _ "heap_count m"]) simp
  next
    case (queried ps)
    then show ?thesis by (intro exI [of _ "Suc (heap_count m)"]) simp
  qed auto
qed

lemma page_at_heap_count [simp]: "page_at (m\<lparr>heap_count := c\<rparr>) = page_at m"
  by (simp add: page_at_def at_def fun_eq_iff)

lemma page_at_host [simp]: "page_at (m\<lparr>host_memory := h\<rparr>) = page_at m"
  by (simp add: page_at_def at_def fun_eq_iff)

lemma memory_inv_heap_count: "memory_inv pins m \<Longrightarrow> heap_count m \<le> c \<Longrightarrow> memory_inv pins (m\<lparr>heap_count := c\<rparr>)"
  by (rule memory_inv_keep) (auto simp: memory_inv_def mem_ok_def index_ok_def index_on_def refs_ok_def ref_count_def
      resv_def fun_eq_iff)

lemma memory_inv_host: "memory_inv pins m \<Longrightarrow> memory_inv pins (m\<lparr>host_memory := h\<rparr>)"
  by (rule memory_inv_keep) (auto simp: memory_inv_def mem_ok_def index_ok_def index_on_def refs_ok_def ref_count_def
      resv_def fun_eq_iff)

lemma reachable_inv: "memory_reachable acc m \<Longrightarrow> memory_inv no_pins m"
proof (induction rule: memory_reachable.induct)
  case (created ok g h li si m)
  then show ?case by (rule create_ok(1))
next
  case (called m c e m')
  then show ?case using memory_exec_locked locked_run_inv by blast
next
  case (queried m a n r m')
  then show ?case using is_executable_same memory_inv_heap_count by blast
next
  case (host_write m h)
  then show ?case by (simp add: memory_inv_host)
qed

text \<open>
  (C1) Whatever sequence of calls a guest memory has served, with or without allocation failures, it
  has followed no dangling or null pointer; the page index and the page list describe the same pages,
  no two of them at one address; every page belongs to a whole reservation; every backing in use is
  alive and its reference count is the number of pages that share it, and no other backing is left.
\<close>

theorem reachable_memory_sound:
  assumes "memory_reachable acc m"
  shows "memory_inv no_pins m \<and> \<not> crashed m \<and>
    (\<forall>b k. backing_heap m b = Some k \<longrightarrow>
       refs k = card {r. \<exists>p. page_heap m r = Some p \<and> page_backing p = Some b} \<and> 0 < refs k) \<and>
    (\<forall>r p b. page_heap m r = Some p \<and> page_backing p = Some b \<longrightarrow> backing_heap m b \<noteq> None) \<and>
    (\<forall>r. r \<in> set (pages m) \<longleftrightarrow> (\<exists>p. page_heap m r = Some p \<and> at m (address p) = Some r))"
proof -
  note inv = reachable_inv [OF assms]
  have ok: "index_ok m" "refs_ok no_pins m" "\<not> crashed m" using inv by (simp_all add: memory_inv_def mem_ok_def)
  have h: "holders (page_heap m) b = {r. \<exists>p. page_heap m r = Some p \<and> page_backing p = Some b}" for b
    by (auto simp: holders_def bind_eq_Some_conv)
  have cnt: "refs k = card {r. \<exists>p. page_heap m r = Some p \<and> page_backing p = Some b} \<and> 0 < refs k"
    if "backing_heap m b = Some k" for b k
  proof -
    have "int (ref_count m b) = int (card (holders (page_heap m) b)) + 0" using ok(2) unfolding refs_ok_def by blast
    moreover have "0 < refs k" using ok(2) that unfolding refs_ok_def by blast
    ultimately show ?thesis using that h by (simp add: ref_count_def)
  qed
  have "finite (dom (page_heap m))" using ok(1) by (simp add: index_ok_def index_on_def)
  then have "finite (holders (page_heap m) b)" for b
    by (rule rev_finite_subset) (auto simp: holders_def bind_eq_Some_conv)
  then have al: "backing_heap m b \<noteq> None" if "page_heap m r = Some p" "page_backing p = Some b" for r p b
    using backing_alive [OF ok(2), of b] that by (auto simp: h card_gt_0_iff)
  have "r \<in> set (pages m) \<longleftrightarrow> (\<exists>p. page_heap m r = Some p \<and> at m (address p) = Some r)" for r
  proof -
    have "r \<in> set (pages m) \<longleftrightarrow> (\<exists>p. page_heap m r = Some p)"
      using index_on_dom [OF ok(1) [unfolded index_ok_def]] by (auto simp: dom_def)
    then show ?thesis using at_iff [OF ok(1)] by auto
  qed
  then show ?thesis using inv ok(3) cnt al by blast
qed

theorem reachable_memory_sound_witness:
  "\<exists>m c. memory_reachable (\<lambda>_ _. True) m \<and> memory_exec (\<lambda>_ _. True) c (Some sample_memory) = (GEM_MEMORY_OK, Some m) \<and>
     memory_inv no_pins m \<and> \<not> crashed m"
proof -
  obtain m where w: "gem_memory_write (Some sample_memory) 0x7ffe0000 (Some [7]) 1 = (GEM_MEMORY_OK, Some [7], Some m)"
    using sample_write by blast
  have "memory_reachable (\<lambda>_ _. True) sample_memory" by (rule created [OF sample_create])
  moreover have ex: "memory_exec (\<lambda>_ _. True) (Write 0x7ffe0000 (Some [7]) 1) (Some sample_memory) = (GEM_MEMORY_OK, Some m)"
    by (simp add: w buffer_result_def)
  moreover have "call_sized (Write 0x7ffe0000 (Some [7]) 1)" by (simp add: buffer_sized_def)
  ultimately have "memory_reachable (\<lambda>_ _. True) m" by (metis called)
  then show ?thesis using ex reachable_memory_sound by blast
qed

text \<open>
  (C6) A call that fails, with any error but a guard fault, has no effect on the guest: the mapping
  and every byte stay as they were, and so does the invariant.
\<close>

theorem failed_call_atomic:
  assumes "memory_inv pins m" and "memory_exec acc c (Some m) = (e, mo)"
    and "e \<noteq> GEM_MEMORY_OK" and "e \<noteq> GEM_MEMORY_GUARD_PAGE"
  shows "\<exists>m'. mo = Some m' \<and> memory_inv pins m' \<and> layout m' = layout m \<and> byte_at m' = byte_at m"
proof -
  obtain m' where "mo = Some m'" "locked_run acc c m e m'" using memory_exec_locked [OF assms(2)] by blast
  then show ?thesis using locked_run_fail [OF _ assms(1,3,4)] by (auto simp: unchanged_def)
qed

theorem failed_call_atomic_witness:
  "\<exists>m'. memory_exec (\<lambda>_ _. True) (Release 0x7ffe0001 4096) (Some sample_memory) = (GEM_MEMORY_INVALID_ARGUMENT, Some m') \<and>
     layout m' = layout sample_memory"
proof -
  have "memory_exec (\<lambda>_ _. True) (Release 0x7ffe0001 4096) (Some sample_memory) = (GEM_MEMORY_INVALID_ARGUMENT, Some sample_memory)"
    by (simp add: gem_memory_release_def on_memory_def release_locked_def check_def range_ok_def)
  then show ?thesis using failed_call_atomic [OF sample_inv] by blast
qed

section \<open>Guard pages\<close>

text \<open>Whether the guard bit is consumed does not change the verdict.\<close>

lemma guard_indep:
  assumes "access_memory_locked m a b n w x q c = (GEM_MEMORY_GUARD_PAGE, b1, m1)"
    and "access_memory_locked m a b n w x q c' = (e, b2, m2)"
  shows "e = GEM_MEMORY_GUARD_PAGE"
  using assms(1)
proof (cases rule: access_cases)
  case (guard ps r)
  have "fst (access_memory_locked m a b n w x q c') = fst (access_memory_locked m a b n w x q c)"
    by (simp add: access_memory_locked_def Let_def split: option.split sum.split prod.split)
  then show ?thesis using assms by simp
next
  case (finish ps copies m3)
  then show ?thesis by (auto simp: access_finish_def Let_def split: if_splits option.splits)
qed simp_all

lemma guard_pieces:
  assumes "access_memory_locked m a b n w x q c = (GEM_MEMORY_GUARD_PAGE, b', m')"
  shows "pieces_ok a 0 (unat n) (range_pieces a n)"
  using assms
proof (cases rule: access_cases)
  case (guard ps r)
  then show ?thesis by (simp add: validated_def)
next
  case (finish ps copies m3)
  then show ?thesis by (simp add: validated_def)
qed simp_all

text \<open>A guard fault of an access that consumes the bit, and of the same access when the bit is left to the fault handler.\<close>

lemma guard_consumed:
  assumes inv: "memory_inv pins m" and run: "access_memory_locked m a b n w x False True = (GEM_MEMORY_GUARD_PAGE, b', m')"
  shows "b' = b \<and> memory_inv pins m' \<and> byte_at m' = byte_at m \<and>
    (\<exists>q p i. i < unat n \<and> q = page_base (a + of_nat i) \<and> layout m q = Some p \<and> protection p AND GEM_PAGE_GUARD \<noteq> 0 \<and>
       layout m' = (layout m)(q \<mapsto> p\<lparr>protection := protection p AND NOT GEM_PAGE_GUARD\<rparr>))"
proof -
  obtain q p where g: "q \<in> set (map fst (range_pieces a n))" "layout m q = Some p" "protection p AND GEM_PAGE_GUARD \<noteq> 0"
      "b' = b" "memory_inv pins m'" "bk_frame m m'" "layout m' = (if True then (layout m)(q \<mapsto> clear_guard p) else layout m)"
    by (rule access_guard [OF inv run])
  obtain i where i: "i < unat n" "q = page_base (a + of_nat i)"
    using pieces_origin [OF guard_pieces [OF run] g(1)] by blast
  have "Option.bind (layout m' x) page_backing = Option.bind (layout m x) page_backing" for x
    using g(2,7) by simp
  then have "byte_at m' = byte_at m"
    using byte_at_frame [OF inv_mem_ok [OF inv] inv_mem_ok [OF g(5)] g(6) inv_pins [OF inv] inv_pins [OF g(5)]] by blast
  then show ?thesis using g i by (auto simp: clear_guard_def)
qed

lemma guard_deferred:
  assumes inv: "memory_inv pins m" and run: "access_memory_locked m a b n w x False True = (GEM_MEMORY_GUARD_PAGE, b', m')"
    and run2: "access_memory_locked m a b n w x False False = (e, b'', m'')"
  shows "e = GEM_MEMORY_GUARD_PAGE \<and> b'' = b \<and> layout m'' = layout m \<and> byte_at m'' = byte_at m"
proof -
  have e: "e = GEM_MEMORY_GUARD_PAGE" using guard_indep [OF run run2] .
  obtain q p where g: "b'' = b" "memory_inv pins m''" "bk_frame m m''"
      "layout m'' = (if False then (layout m)(q \<mapsto> clear_guard p) else layout m)"
    by (rule access_guard [OF inv run2 [unfolded e]])
  then have "byte_at m'' = byte_at m" using frame_unchanged [OF inv g(2) _ g(3)] by (simp add: unchanged_def)
  then show ?thesis using e g by simp
qed

text \<open>
  (C7) A guard page fires once: the read, write or fetch that meets it reports the fault, transfers
  nothing, changes no byte, and clears the guard bit of exactly one guarded page of the range; the deferred
  variants of the read and the write, used by the engines, report the same fault and leave the bit for the fault handler.
\<close>

theorem guard_one_shot:
  assumes inv: "memory_inv pins m" and op: "op = gem_memory_read \<or> op = gem_memory_write \<or> op = gem_memory_fetch"
    and run: "op (Some m) a b n = (GEM_MEMORY_GUARD_PAGE, b', Some m')"
  shows "b' = b \<and> memory_inv pins m' \<and> byte_at m' = byte_at m \<and>
    (\<exists>q p i. i < unat n \<and> q = page_base (a + of_nat i) \<and> layout m q = Some p \<and> protection p AND GEM_PAGE_GUARD \<noteq> 0 \<and>
       layout m' = (layout m)(q \<mapsto> p\<lparr>protection := protection p AND NOT GEM_PAGE_GUARD\<rparr>)) \<and>
    (\<forall>e b'' m''. op = gem_memory_read \<and> gem_memory_read_deferred_guard (Some m) a b n = (e, b'', Some m'') \<or>
        op = gem_memory_write \<and> gem_memory_write_deferred_guard (Some m) a b n = (e, b'', Some m'') \<longrightarrow>
      e = GEM_MEMORY_GUARD_PAGE \<and> b'' = b \<and> layout m'' = layout m \<and> byte_at m'' = byte_at m)"
proof -
  obtain w x where wx: "access_memory_locked m a b n w x False True = (GEM_MEMORY_GUARD_PAGE, b', m')"
    using op run by (auto simp: gem_memory_read_def gem_memory_write_def gem_memory_fetch_def on_buffer_Some)
  have "e = GEM_MEMORY_GUARD_PAGE \<and> b'' = b \<and> layout m'' = layout m \<and> byte_at m'' = byte_at m"
    if "op = gem_memory_read \<and> gem_memory_read_deferred_guard (Some m) a b n = (e, b'', Some m'') \<or>
        op = gem_memory_write \<and> gem_memory_write_deferred_guard (Some m) a b n = (e, b'', Some m'')" for e b'' m''
    using that
  proof (elim disjE conjE)
    assume "op = gem_memory_read" "gem_memory_read_deferred_guard (Some m) a b n = (e, b'', Some m'')"
    then show ?thesis using guard_deferred [OF inv, of a b n False False b' m' e b'' m''] run
      by (simp add: gem_memory_read_def gem_memory_read_deferred_guard_def on_buffer_Some)
  next
    assume "op = gem_memory_write" "gem_memory_write_deferred_guard (Some m) a b n = (e, b'', Some m'')"
    then show ?thesis using guard_deferred [OF inv, of a b n True False b' m' e b'' m''] run
      by (simp add: gem_memory_write_def gem_memory_write_deferred_guard_def on_buffer_Some)
  qed
  then show ?thesis using guard_consumed [OF inv wx] by blast
qed

section \<open>The page index\<close>

text \<open>
  The hashed index is equivalent to a linear search of the page list, for every address.
\<close>

theorem at_linear_search:
  assumes "memory_inv pins m"
  shows "at m a = find (\<lambda>r. map_option address (page_heap m r) = Some a) (pages m)"
proof -
  have ix: "index_on (pages m) m" using inv_index [OF assms] by (simp add: index_ok_def)
  show ?thesis
  proof (cases "at m a")
    case None
    then have "\<not> (\<exists>p. page_heap m r = Some p \<and> address p = a)" for r using at_on_iff [OF ix, of a r] by auto
    then have "find (\<lambda>r. map_option address (page_heap m r) = Some a) (pages m) = None" by (auto simp: find_None_iff)
    then show ?thesis using None by simp
  next
    case (Some r)
    then obtain p where p: "page_heap m r = Some p" "address p = a" using at_on_iff [OF ix] by auto
    have u: "y = r" if "map_option address (page_heap m y) = Some a" for y
      using that p index_on_inj [OF ix, of y _ r p] by auto
    have "find (\<lambda>r. map_option address (page_heap m r) = Some a) (pages m) = Some r"
      using p index_on_dom [OF ix] by (subst find_unique) (auto intro: u)
    then show ?thesis using Some by simp
  qed
qed

section \<open>Reserving, committing and giving back\<close>

lemma byte_at_layout:
  assumes "layout m (page_base y) = Some p" and "page_backing p = Some b" and "backing_heap m b = Some k"
  shows "byte_at m y = Some (case bk_data k of Owned d \<Rightarrow> d (unat (y AND 4095)) | Host h \<Rightarrow> host_memory m (h + (y AND 4095)))"
proof -
  have "Option.bind (page_at m (page_base y)) page_backing = Some b"
    using assms(1,2) layout_backing [of m "page_base y"] by simp
  then show ?thesis using assms(3) by (simp add: byte_at_def backing_byte_def split: backing_data.split)
qed

lemma inv_byte_frame:
  assumes "memory_inv pins m" and "memory_inv pins m'" and "bk_frame m m'"
    and "Option.bind (layout m' (page_base y)) page_backing = Option.bind (layout m (page_base y)) page_backing"
  shows "byte_at m' y = byte_at m y"
  by (rule byte_at_frame [OF inv_mem_ok [OF assms(1)] inv_mem_ok [OF assms(2)] assms(3) inv_pins [OF assms(1)]
        inv_pins [OF assms(2)] assms(4)])

lemma byte_at_None:
  "Option.bind (layout m (page_base y)) page_backing = None \<Longrightarrow> byte_at m y = None"
  by (simp add: byte_at_def layout_backing)

lemma reserve_zero_base:
  assumes "reserve_locked m (Some 0) n = (GEM_MEMORY_OK, r, m')"
  shows "r = Some (reserve_scan m n 0x100000000)" and "n div 4096 \<le> GEM_MEMORY_MAX_PAGES"
  using assms by (auto simp: reserve_locked_def Let_def not_less split: if_splits option.splits prod.splits)

lemma reserve_scan_lowest:
  assumes "b0 \<le> x" and "x < reserve_scan m n b0" and "unat x mod 4096 = unat b0 mod 4096"
  shows "at m x \<noteq> None"
  using assms
proof (induction m n b0 rule: reserve_scan.induct)
  case (1 m n b)
  show ?case
  proof (cases "at m b \<noteq> None \<and> b \<le> - 1 - n - 4096 \<and> b \<le> - 1 - 4096")
    case True
    have s: "reserve_scan m n b = reserve_scan m n (b + 4096)" using True by (subst reserve_scan.simps) simp
    have u: "unat (b + 4096) = unat b + 4096"
      using True no_wrap_iff [of b 4096] unat_add_no_wrap [of b 4096] by simp
    show ?thesis
    proof (cases "x = b")
      case False
      then have "unat b < unat x" using "1.prems"(1) by (simp add: word_le_nat_alt word_unat_eq_iff nat_less_le)
      moreover have "unat x mod 4096 = unat b mod 4096" by (rule "1.prems"(3))
      ultimately have "unat b + 4096 \<le> unat x"
        by (metis (no_types, lifting) mod_add_self2 add_le_mono1 dvd_imp_le le_add_diff_inverse less_imp_le_nat mod_eq_dvd_iff_nat nat_add_left_cancel_le zero_less_diff)
      then have "b + 4096 \<le> x" using u by (simp add: word_le_nat_alt)
      then show ?thesis using "1.IH" [OF True] "1.prems"(2,3) s u by simp
    qed (use True in simp)
  next
    case False
    then have "reserve_scan m n b = b" by (subst reserve_scan.simps) (simp only: if_False)
    then show ?thesis using "1.prems" by simp
  qed
qed

text \<open>
  (C9) Reserving: the pages of the new reservation were all free and become reserved and
  uncommitted, no other page and no byte changes, and a request for any address gets the lowest free
  page at or above 4 GiB.
\<close>

theorem reserve_spec:
  assumes "memory_inv pins m" and "gem_memory_reserve (Some m) (Some a) n = (GEM_MEMORY_OK, r, Some m')"
  shows "memory_inv pins m' \<and> byte_at m' = byte_at m \<and> (\<exists>b. r = Some b \<and> range_ok b n \<and>
    (a \<noteq> 0 \<longrightarrow> b = a) \<and>
    (a = 0 \<longrightarrow> (\<forall>x. x AND 4095 = 0 \<and> 0x100000000 \<le> x \<and> x < b \<longrightarrow> layout m x \<noteq> None)) \<and>
    (\<forall>x. layout m' x = (if x AND 4095 = 0 \<and> b \<le> x \<and> x < b + n
       then Some \<lparr>address = x, reservation_base = b, reservation_size = n, page_backing = None,
                  protection = 0, generation = 0\<rparr> else layout m x)) \<and>
    (\<forall>x. x AND 4095 = 0 \<and> b \<le> x \<and> x < b + n \<longrightarrow> layout m x = None))"
proof -
  have run: "reserve_locked m (Some a) n = (GEM_MEMORY_OK, r, m')"
    using assms(2) by (simp add: gem_memory_reserve_def split: prod.splits)
  obtain b where b: "r = Some b" "range_ok b n" "a \<noteq> 0 \<longrightarrow> b = a" "\<forall>x \<in> set (page_addrs b n). page_at m x = None"
      "memory_inv pins m'" "bk_frame m m'"
      "layout m' = (\<lambda>x. if x \<in> set (page_addrs b n)
       then Some \<lparr>address = x, reservation_base = b, reservation_size = n, page_backing = None,
                  protection = 0, generation = 0\<rparr> else layout m x)"
    by (rule reserve_ok [OF assms(1) run])
  have bytes: "byte_at m' y = byte_at m y" for y
    by (rule inv_byte_frame [OF assms(1) b(5,6)]) (use b(4,7) in \<open>auto simp: layout_def\<close>)
  have low: "layout m x \<noteq> None" if "a = 0" "x AND 4095 = 0" "0x100000000 \<le> x" "x < b" for x
  proof -
    have "b = reserve_scan m n 0x100000000" using reserve_zero_base(1) [OF run [unfolded that(1)]] b(1) by simp
    then have "at m x \<noteq> None"
      using reserve_scan_lowest [OF that(3)] that(4) aligned_iff [of x] that(2) by simp
    then show ?thesis using at_None_iff [OF inv_index [OF assms(1)]] by (simp add: layout_def)
  qed
  show ?thesis using b(1,2,3,4,5,7) bytes low mem_page_addrs [OF b(2)]
    by (auto simp: fun_eq_iff layout_def)
qed

text \<open>
  (C10) Committing: the pages of the range take the protection; a page that had no storage shows
  zeros, a page that had some keeps its bytes, and nothing outside the range changes.
\<close>

theorem commit_spec:
  assumes inv: "memory_inv pins m" and "gem_memory_commit (Some m) a n prot = (GEM_MEMORY_OK, Some m')"
  shows "memory_inv pins m' \<and> (\<forall>y. byte_at m' y =
      (if page_base y \<in> set (page_addrs a n) \<and> byte_at m y = None then Some 0 else byte_at m y)) \<and>
    (\<forall>x \<in> set (page_addrs a n). \<exists>p p'. layout m x = Some p \<and> layout m' x = Some p' \<and> protection p' = prot \<and>
       page_backing p' \<noteq> None \<and> reservation_base p' = reservation_base p \<and> reservation_size p' = reservation_size p) \<and>
    (\<forall>x. x \<notin> set (page_addrs a n) \<longrightarrow> layout m' x = layout m x)"
proof -
  have run: "commit_locked m a n prot = (GEM_MEMORY_OK, m')"
    using assms(2) by (simp add: gem_memory_commit_def on_memory_def split: prod.splits)
  note ok = commit_ok [OF inv run]
  have alive: "byte_at m y \<noteq> None" if "layout m (page_base y) = Some p" "page_backing p = Some b" for y p b
    using layout_backing_alive [OF inv_mem_ok [OF inv] inv_pins [OF inv] that] byte_at_layout [OF that] by auto
  have "byte_at m' y = (if page_base y \<in> set (page_addrs a n) \<and> byte_at m y = None then Some 0 else byte_at m y)" for y
  proof (cases "page_base y \<in> set (page_addrs a n)")
    case False
    then show ?thesis using inv_byte_frame [OF inv ok(3,4), of y] ok(5) [of "page_base y"] by simp
  next
    case True
    then obtain p b where p: "layout m (page_base y) = Some p"
        "layout m' (page_base y) = Some (p\<lparr>page_backing := Some b, protection := prot\<rparr>)"
        "page_backing p = Some b \<or> page_backing p = None \<and>
         (\<exists>k. backing_heap m' b = Some k \<and> bk_data k = Owned (\<lambda>_. 0) \<and> \<not> external k)"
      using ok(6) by blast
    show ?thesis
    proof (cases "page_backing p")
      case (Some b')
      then show ?thesis using inv_byte_frame [OF inv ok(3,4), of y] p alive [OF p(1) Some] by simp
    next
      case None
      then obtain k where "backing_heap m' b = Some k" "bk_data k = Owned (\<lambda>_. 0)" using p(3) by auto
      then have "byte_at m' y = Some 0" using byte_at_layout [OF p(2), of b k] by simp
      moreover have "byte_at m y = None" by (rule byte_at_None) (simp add: p(1) None)
      ultimately show ?thesis using True by simp
    qed
  qed
  moreover have "\<exists>p p'. layout m x = Some p \<and> layout m' x = Some p' \<and> protection p' = prot \<and>
       page_backing p' \<noteq> None \<and> reservation_base p' = reservation_base p \<and> reservation_size p' = reservation_size p"
    if x: "x \<in> set (page_addrs a n)" for x
    using ok(6) [OF x] by fastforce
  ultimately show ?thesis using ok(3,5) by blast
qed

text \<open>What unmapping leaves of the reservation it cuts.\<close>

lemma unmap_resv:
  assumes inv: "memory_inv pins m" and R: "resv m a = Some (b, k)" and x: "x \<notin> set (page_addrs a n)"
  shows "map_option (\<lambda>p. (reservation_base p, reservation_size p))
      (if x \<in> set (page_addrs b k) then map_option (split_page b k a n x) (layout m x) else layout m x) =
    (case resv m x of None \<Rightarrow> None
     | Some (b, k) \<Rightarrow> if resv m a = Some (b, k)
       then (if x < a then Some (b, a - b) else Some (a + n, b + k - (a + n))) else Some (b, k))"
proof (cases "x \<in> set (page_addrs b k)")
  case True
  then have "resv m x = Some (b, k)" using resv_wfD(3) [OF inv_resv [OF inv] R] by blast
  then show ?thesis using True R by (auto simp: resv_layout split_page_def)
next
  case False
  have "resv m x \<noteq> Some (b, k)" using resv_wfD(2) [OF inv_resv [OF inv]] False by blast
  then show ?thesis using False R by (auto simp: resv_layout split: option.splits)
qed

text \<open>
  (C11) Giving storage back: decommitting keeps the reservation and takes the bytes away, releasing
  removes a whole reservation, and unmapping removes a part and leaves each remaining side as a
  reservation of its own. In all three, bytes outside the range are untouched.
\<close>

theorem give_back_spec:
  assumes inv: "memory_inv pins m"
    and call: "c \<in> {Decommit a n, Release a n, Unmap a n}" "memory_exec acc c (Some m) = (GEM_MEMORY_OK, Some m')"
  shows "memory_inv pins m' \<and>
    (\<forall>y. byte_at m' y = (if page_base y \<in> set (page_addrs a n) then None else byte_at m y)) \<and>
    (\<forall>x \<in> set (page_addrs a n). layout m' x = (if c = Decommit a n
       then map_option (\<lambda>p. p\<lparr>page_backing := None, protection := GEM_PAGE_NOACCESS\<rparr>) (layout m x) else None)) \<and>
    (\<forall>x. x \<notin> set (page_addrs a n) \<longrightarrow> resv m' x = (case resv m x of
       None \<Rightarrow> None
     | Some (b, k) \<Rightarrow> if c = Unmap a n \<and> resv m a = Some (b, k)
         then (if x < a then Some (b, a - b) else Some (a + n, b + k - (a + n)))
         else Some (b, k)))"
proof -
  consider (d) "c = Decommit a n" "decommit_locked m a n = (GEM_MEMORY_OK, m')"
    | (r) "c = Release a n" "release_locked m a n = (GEM_MEMORY_OK, m')"
    | (u) "c = Unmap a n" "unmap_locked m a n = (GEM_MEMORY_OK, m')"
    using call by (auto simp: gem_memory_decommit_def gem_memory_release_def gem_memory_unmap_def on_memory_def split: prod.splits)
  then show ?thesis
  proof cases
    case d
    note ok = decommit_ok [OF inv d(2)]
    have "resv m' = resv m" by (rule resv_same) (simp add: ok(4) option.map_comp comp_def)
    moreover have "byte_at m' y = (if page_base y \<in> set (page_addrs a n) then None else byte_at m y)" for y
      using inv_byte_frame [OF inv ok(2,3), of y] byte_at_None [of m' y] ok(4) [of "page_base y"]
      by (cases "layout m (page_base y)") auto
    ultimately show ?thesis using d(1) ok(2,4) by (simp split: option.split)
  next
    case r
    note ok = release_ok [OF inv r(2)]
    have "byte_at m' y = (if page_base y \<in> set (page_addrs a n) then None else byte_at m y)" for y
      using inv_byte_frame [OF inv ok(3,4), of y] byte_at_None [of m' y] ok(5) [of "page_base y"] by auto
    moreover have "resv m' x = resv m x" if "x \<notin> set (page_addrs a n)" for x
      using ok(5) [of x] that by (simp add: resv_layout)
    ultimately show ?thesis using r(1) ok(3,5) by (simp split: option.split)
  next
    case u
    obtain b k where ok: "resv m a = Some (b, k)" "range_ok a n" "b \<le> a" "a + n \<le> b + k" "memory_inv pins m'" "bk_frame m m'"
      "layout m' = (\<lambda>x. if x \<in> set (page_addrs a n) then None
       else if x \<in> set (page_addrs b k) then map_option (split_page b k a n x) (layout m x) else layout m x)"
      by (rule unmap_ok [OF inv u(2)])
    have sp: "page_backing (split_page b k a n x p) = page_backing p" for x p by (simp add: split_page_def)
    have "byte_at m' y = (if page_base y \<in> set (page_addrs a n) then None else byte_at m y)" for y
      using inv_byte_frame [OF inv ok(5,6), of y] byte_at_None [of m' y] ok(7)
      by (cases "layout m (page_base y)") (auto simp: sp)
    moreover have "resv m' x = (case resv m x of None \<Rightarrow> None
       | Some (b, k) \<Rightarrow> if resv m a = Some (b, k)
         then (if x < a then Some (b, a - b) else Some (a + n, b + k - (a + n))) else Some (b, k))"
      if x: "x \<notin> set (page_addrs a n)" for x
      using unmap_resv [OF inv ok(1) x] ok(7) x by (simp add: resv_layout)
    ultimately show ?thesis using u(1) ok(5,7) by (simp split: option.split)
  qed
qed

text \<open>
  Protecting needs every page committed, reports the old protection of the first page, sets the
  new one on exactly the pages of the range, and changes no byte.
\<close>

theorem protect_spec:
  assumes inv: "memory_inv pins m" and "gem_memory_protect (Some m) a n prot = (GEM_MEMORY_OK, old, Some m')"
  shows "memory_inv pins m' \<and> byte_at m' = byte_at m \<and> prot_ok prot \<and> old = map_option protection (layout m a) \<and>
    (\<forall>x. layout m' x = (if x \<in> set (page_addrs a n) then map_option (\<lambda>p. p\<lparr>protection := prot\<rparr>) (layout m x)
       else layout m x)) \<and>
    (\<forall>x \<in> set (page_addrs a n). \<exists>p. layout m x = Some p \<and> page_backing p \<noteq> None)"
proof -
  have run: "protect_locked m a n prot = (GEM_MEMORY_OK, old, m')"
    using assms(2) by (simp add: gem_memory_protect_def split: prod.splits)
  note ok = protect_ok [OF inv run]
  have "Option.bind (layout m' x) page_backing = Option.bind (layout m x) page_backing" for x
    using ok(6) [of x] by (cases "layout m x") simp_all
  then have "byte_at m' = byte_at m" using inv_byte_frame [OF inv ok(3,4)] by blast
  then show ?thesis using ok(2,3,5,6,7) by fastforce
qed

end
