(* ===== verification/Gem_Memory_Sharing.thy ===== *)
theory Gem_Memory_Sharing
  imports Gem_Memory_Laws
begin

text \<open>
  The laws of shared storage in src/gem/memory.c: aliases, mappings of host memory, the shared user
  page, creation and destruction, and reads that ignore protections.
\<close>

section \<open>Aliases\<close>

lemma aligned_offset:
  fixes s d :: u64
  assumes "aligned s"
  shows "(s + d) AND 4095 = d AND 4095" and "page_base (s + d) = s + page_base d"
proof -
  have s: "unat s mod 4096 = 0" using assms by (simp add: aligned_iff)
  have "unat (s + d) mod 4096 = (unat s + unat d) mod 4096"
    by (simp add: unat_word_ariths mod_mod_cancel)
  also have "\<dots> = unat d mod 4096" using s by (metis add_0 mod_add_left_eq)
  finally have "unat ((s + d) AND 4095) = unat (d AND 4095)" by (simp add: unat_page_offset)
  then show off: "(s + d) AND 4095 = d AND 4095" by (rule unsigned_word_eqI)
  show "page_base (s + d) = s + page_base d" by (simp add: page_base_eq off)
qed

lemma aligned_move:
  fixes s a y :: u64
  assumes "aligned s" and "aligned a"
  shows "(s + (y - a)) AND 4095 = y AND 4095" and "page_base (s + (y - a)) = s + (page_base y - a)"
proof -
  have o: "(s + (y - a)) AND 4095 = (y - a) AND 4095" by (rule aligned_offset(1) [OF assms(1)])
  have "(a + (y - a)) AND 4095 = (y - a) AND 4095" by (rule aligned_offset(1) [OF assms(2)])
  then have yo: "(y - a) AND 4095 = y AND 4095" by simp
  show "(s + (y - a)) AND 4095 = y AND 4095" unfolding o by (rule yo)
  show "page_base (s + (y - a)) = s + (page_base y - a)"
    unfolding aligned_offset(2) [OF assms(1)] by (simp add: page_base_eq yo)
qed

text \<open>
  (C8) An alias shares storage: it maps free pages to the very cells of the source range, so both
  show the same bytes and a store through either is seen through both; nothing else changes.
\<close>

theorem alias_shares:
  assumes inv: "memory_inv pins m" and call: "gem_memory_alias (Some m) a s n prot = (GEM_MEMORY_OK, Some m')"
  shows "memory_inv pins m' \<and>
    (\<forall>y. byte_at m' y = (if page_base y \<in> set (page_addrs a n) then byte_at m (s + (y - a)) else byte_at m y)) \<and>
    (\<forall>y. page_base y \<in> set (page_addrs a n) \<longrightarrow> layout m (page_base y) = None \<and> cell m' y \<noteq> None \<and>
       cell m' y = cell m' (s + (y - a)) \<and> map_option protection (layout m' (page_base y)) = Some prot) \<and>
    (\<forall>x. x \<notin> set (page_addrs a n) \<longrightarrow> layout m' x = layout m x)"
proof -
  have run: "alias_locked m a s n prot = (GEM_MEMORY_OK, m')"
    using call by (simp add: gem_memory_alias_def on_memory_def split: prod.splits)
  note ok = alias_ok [OF inv run]
  have al: "aligned a" using ok(1) by (simp add: range_ok_def)
  have as: "aligned s"
    using run ok(1,2) by (auto simp: alias_locked_def check_def range_ok_def Let_def split: if_splits)
  have src: "\<exists>b k. source_backing m a s (page_base y) = Some b \<and> backing_heap m b = Some k \<and>
      Option.bind (layout m (page_base (s + (y - a)))) page_backing = Some b \<and>
      Option.bind (layout m' (page_base (s + (y - a)))) page_backing = Some b"
    if y: "page_base y \<in> set (page_addrs a n)" for y
  proof -
    obtain b where b: "source_backing m a s (page_base y) = Some b" using ok(7) [OF y] by blast
    have pb: "page_base (s + (y - a)) = s + (page_base y - a)" by (rule aligned_move(2) [OF as al])
    have lb: "Option.bind (layout m (page_base (s + (y - a)))) page_backing = Some b"
      using b unfolding pb layout_backing source_backing_def .
    then obtain p where p: "layout m (page_base (s + (y - a))) = Some p" "page_backing p = Some b"
      by (auto simp: bind_eq_Some_conv)
    have "page_base (s + (y - a)) \<notin> set (page_addrs a n)" using ok(5) p(1) by (auto simp: layout_def)
    then have "Option.bind (layout m' (page_base (s + (y - a)))) page_backing = Some b" using ok(6) lb by simp
    then show ?thesis using b lb layout_backing_alive [OF inv_mem_ok [OF inv] inv_pins [OF inv] p] by blast
  qed
  have ly: "Option.bind (layout m' (page_base y)) page_backing = source_backing m a s (page_base y)"
    if "page_base y \<in> set (page_addrs a n)" for y
    using ok(6) that by (simp add: aliased_page_def)
  have cells: "cell m' y \<noteq> None \<and> cell m' y = cell m' (s + (y - a)) \<and> byte_at m' y = byte_at m' (s + (y - a))"
    if y: "page_base y \<in> set (page_addrs a n)" for y
  proof -
    obtain b where b: "Option.bind (page_at m' (page_base y)) page_backing = Some b"
        "Option.bind (page_at m' (page_base (s + (y - a)))) page_backing = Some b"
      using src [OF y] ly [OF y] by (auto simp: layout_backing)
    have "Option.bind (layout m' (page_base y)) page_backing = Some b" using b(1) by (simp add: layout_backing)
    then obtain k where "backing_heap m' b = Some k"
      using layout_backing_alive [OF inv_mem_ok [OF ok(3)] inv_pins [OF ok(3)]] by (metis bind_eq_Some_conv)
    then show ?thesis using b aligned_move(1) [OF as al, of y]
      by (simp add: cell_def byte_at_def cell_of_def)
  qed
  have keep: "byte_at m' y = byte_at m y" if "page_base y \<notin> set (page_addrs a n)" for y
    by (rule inv_byte_frame [OF inv ok(3,4)]) (simp add: ok(6) that)
  have moved: "byte_at m' (s + (y - a)) = byte_at m (s + (y - a))" if y: "page_base y \<in> set (page_addrs a n)" for y
    by (rule inv_byte_frame [OF inv ok(3,4)]) (use src [OF y] in auto)
  have "layout m (page_base y) = None" if "page_base y \<in> set (page_addrs a n)" for y
    using ok(5) that by (simp add: layout_def)
  moreover have "map_option protection (layout m' (page_base y)) = Some prot" if "page_base y \<in> set (page_addrs a n)" for y
    using ok(6) that by (simp add: aliased_page_def)
  moreover have "byte_at m' y = (if page_base y \<in> set (page_addrs a n) then byte_at m (s + (y - a)) else byte_at m y)" for y
    using cells [of y] keep [of y] moved [of y] by simp
  moreover have "layout m' x = layout m x" if "x \<notin> set (page_addrs a n)" for x using ok(6) [of x] that by simp
  ultimately show ?thesis using ok(3) cells by blast
qed

section \<open>Host memory\<close>

text \<open>What the three ways of mapping host memory have in common.\<close>

definition host_mapped :: "(backing_ref \<Rightarrow> int) \<Rightarrow> gem_memory \<Rightarrow> u64 \<Rightarrow> u64 \<Rightarrow> u64 \<Rightarrow> u32 \<Rightarrow> gem_memory \<Rightarrow> bool" where
  "host_mapped pins m a h n prot m' \<longleftrightarrow> range_ok a n \<and> memory_inv pins m' \<and> bk_frame m m' \<and> h \<noteq> 0 \<and> aligned h \<and>
     (\<forall>x. x \<notin> set (page_addrs a n) \<longrightarrow> layout m' x = layout m x) \<and>
     (\<forall>x \<in> set (page_addrs a n). \<exists>p b k. layout m' x = Some p \<and> protection p = prot \<and> page_backing p = Some b \<and>
        backing_heap m' b = Some k \<and> bk_data k = Host (h + (x - a)))"

lemma identity_host_mapped:
  assumes inv: "memory_inv pins m" and run: "map_identity_locked m a h n prot = (GEM_MEMORY_OK, m')"
  shows "host_mapped pins m a h n prot m'"
  unfolding host_mapped_def
proof (intro conjI ballI)
  note ok = map_identity_ok [OF inv run]
  show "range_ok a n" "memory_inv pins m'" "bk_frame m m'" by (rule ok(1) ok(5) ok(6))+
  show "h \<noteq> 0" using ok(3,4) by (auto simp: word_le_nat_alt)
  show "aligned h" using ok(1,3) by (simp add: range_ok_def)
  show "\<forall>x. x \<notin> set (page_addrs a n) \<longrightarrow> layout m' x = layout m x" using ok(7) by blast
  fix x
  assume x: "x \<in> set (page_addrs a n)"
  obtain b k where "layout m' x = Some \<lparr>address = x, reservation_base = a, reservation_size = n, page_backing = Some b,
         protection = prot, generation = 0\<rparr>" "backing_heap m' b = Some k" "bk_data k = Host x"
    using ok(8) [OF x] by blast
  then show "\<exists>p b k. layout m' x = Some p \<and> protection p = prot \<and> page_backing p = Some b \<and>
      backing_heap m' b = Some k \<and> bk_data k = Host (h + (x - a))" using ok(3) by simp
qed

lemma external_host_mapped:
  assumes inv: "memory_inv pins m" and run: "commit_external_locked m a h n prot i = (GEM_MEMORY_OK, m')"
  shows "host_mapped pins m a h n prot m'"
  unfolding host_mapped_def
proof (intro conjI ballI)
  note ok = external_ok [OF inv run]
  show "range_ok a n" "memory_inv pins m'" "bk_frame m m'" "h \<noteq> 0" "aligned h" by (rule ok(1) ok(6) ok(7) ok(3) ok(4))+
  show "\<forall>x. x \<notin> set (page_addrs a n) \<longrightarrow> layout m' x = layout m x" using ok(8) by blast
  fix x
  assume x: "x \<in> set (page_addrs a n)"
  obtain p b k where "layout m' x = Some (p\<lparr>page_backing := Some b, protection := prot\<rparr>)"
      "backing_heap m' b = Some k" "bk_data k = Host (h + (x - a))"
    using ok(9) [OF x] by blast
  then show "\<exists>p b k. layout m' x = Some p \<and> protection p = prot \<and> page_backing p = Some b \<and>
      backing_heap m' b = Some k \<and> bk_data k = Host (h + (x - a))" by simp
qed

lemma host_mapped_bytes:
  assumes inv: "memory_inv pins m" and hm: "host_mapped pins m a h n prot m'"
  shows "byte_at m' y = (if page_base y \<in> set (page_addrs a n) then Some (host_memory m (h + (y - a))) else byte_at m y)"
    and "page_base y \<in> set (page_addrs a n) \<Longrightarrow> map_option protection (layout m' (page_base y)) = Some prot"
proof -
  have hm': "memory_inv pins m'" "bk_frame m m'" "\<And>x. x \<notin> set (page_addrs a n) \<Longrightarrow> layout m' x = layout m x"
    using hm by (simp_all add: host_mapped_def)
  have "byte_at m' y = Some (host_memory m (h + (y - a))) \<and> map_option protection (layout m' (page_base y)) = Some prot"
    if y: "page_base y \<in> set (page_addrs a n)"
  proof -
    obtain p b k where p: "layout m' (page_base y) = Some p" "protection p = prot" "page_backing p = Some b"
        "backing_heap m' b = Some k" "bk_data k = Host (h + (page_base y - a))"
      using hm y unfolding host_mapped_def by blast
    have eq: "h + (page_base y - a) + (y AND 4095) = h + (y - a)" by (simp add: page_base_eq)
    have "byte_at m' y = Some (host_memory m (h + (page_base y - a) + (y AND 4095)))"
      using byte_at_layout [OF p(1,3,4)] p(5) hm'(2) by (simp add: bk_frame_def)
    then show ?thesis using p(1,2) unfolding eq by simp
  qed
  moreover have "byte_at m' y = byte_at m y" if "page_base y \<notin> set (page_addrs a n)"
    by (rule inv_byte_frame [OF inv hm'(1,2)]) (simp add: hm'(3) that)
  ultimately show "byte_at m' y = (if page_base y \<in> set (page_addrs a n) then Some (host_memory m (h + (y - a))) else byte_at m y)"
    and "page_base y \<in> set (page_addrs a n) \<Longrightarrow> map_option protection (layout m' (page_base y)) = Some prot"
    by simp_all
qed

text \<open>
  Pages committed to host memory, by address or at their own address, show the host's bytes:
  guest address \<open>y\<close> reads host address \<open>h + (y - a)\<close>. Other pages keep their entries and bytes.
\<close>

theorem external_shows_host:
  assumes inv: "memory_inv pins m"
    and call: "c \<in> {Commit_external a h n prot, Commit_identity a h n prot, Map_identity a h n prot}"
      "memory_exec acc c (Some m) = (GEM_MEMORY_OK, Some m')"
  shows "memory_inv pins m' \<and> h \<noteq> 0 \<and> aligned h \<and> (c \<noteq> Commit_external a h n prot \<longrightarrow> a = h \<and> 0x100000000 \<le> a) \<and>
    (\<forall>y. byte_at m' y = (if page_base y \<in> set (page_addrs a n) then Some (host_memory m (h + (y - a))) else byte_at m y)) \<and>
    (\<forall>y. page_base y \<in> set (page_addrs a n) \<longrightarrow> map_option protection (layout m' (page_base y)) = Some prot) \<and>
    (\<forall>x. x \<notin> set (page_addrs a n) \<longrightarrow> layout m' x = layout m x)"
proof -
  consider (m) "c = Map_identity a h n prot" "map_identity_locked m a h n prot = (GEM_MEMORY_OK, m')"
    | (i) "c = Commit_identity a h n prot" "commit_external_locked m a h n prot True = (GEM_MEMORY_OK, m')"
    | (e) "c = Commit_external a h n prot" "commit_external_locked m a h n prot False = (GEM_MEMORY_OK, m')"
    using call by (auto simp: gem_memory_map_identity_def gem_memory_commit_external_def gem_memory_commit_identity_def
        on_memory_def split: prod.splits)
  then have hm: "host_mapped pins m a h n prot m'" and id: "c \<noteq> Commit_external a h n prot \<longrightarrow> a = h \<and> 0x100000000 \<le> a"
    by (cases, simp_all add: identity_host_mapped [OF inv] external_host_mapped [OF inv])
      (metis map_identity_ok(3,4) [OF inv] external_ok(5) [OF inv])+
  from hm show ?thesis
    using id host_mapped_bytes [OF inv hm] unfolding host_mapped_def by blast
qed

section \<open>Creation, the shared user page, destruction\<close>

text \<open>
  A new memory satisfies the invariant and maps exactly the shared user page, at its two
  addresses with one storage, readable, writable and zero.
\<close>

theorem create_spec:
  assumes "gem_memory_create ok g h li si = Some m"
  shows "memory_inv no_pins m \<and>
    (\<forall>x. layout m x \<noteq> None \<longleftrightarrow> x = GEM_KUSER_CANONICAL_ADDRESS \<or> x = GEM_KUSER_SHARED_DATA_ADDRESS) \<and>
    (\<forall>i < 4096. cell m (GEM_KUSER_SHARED_DATA_ADDRESS + of_nat i) = cell m (GEM_KUSER_CANONICAL_ADDRESS + of_nat i) \<and>
       byte_at m (GEM_KUSER_SHARED_DATA_ADDRESS + of_nat i) = Some 0 \<and>
       map_option protection (layout m GEM_KUSER_SHARED_DATA_ADDRESS) = Some GEM_PAGE_READWRITE)"
proof -
  obtain b k where l: "layout m = Map.empty(
      GEM_KUSER_CANONICAL_ADDRESS \<mapsto> \<lparr>address = GEM_KUSER_CANONICAL_ADDRESS,
        reservation_base = GEM_KUSER_CANONICAL_ADDRESS, reservation_size = GEM_GUEST_PAGE_SIZE,
        page_backing = Some b, protection = GEM_PAGE_READWRITE, generation = 0\<rparr>,
      GEM_KUSER_SHARED_DATA_ADDRESS \<mapsto> \<lparr>address = GEM_KUSER_SHARED_DATA_ADDRESS,
        reservation_base = GEM_KUSER_SHARED_DATA_ADDRESS, reservation_size = GEM_GUEST_PAGE_SIZE,
        page_backing = Some b, protection = GEM_PAGE_READWRITE, generation = 0\<rparr>)"
    and k: "backing_heap m b = Some k" "bk_data k = Owned (\<lambda>_. 0)"
    using create_ok(2) [OF assms] by blast
  have al: "aligned GEM_KUSER_SHARED_DATA_ADDRESS" "aligned GEM_KUSER_CANONICAL_ADDRESS"
    using kuser_ranges by (simp_all add: range_ok_def)
  have small: "page_base (of_nat i :: u64) = 0" if "i < 4096" for i
  proof -
    have "unat (of_nat i :: u64) = i" by (rule of_nat_inverse [OF refl]) (use that in simp)
    then have "unat (page_base (of_nat i)) = 0" using that by (simp add: unat_page_base)
    then show ?thesis by (simp add: unat_eq_zero)
  qed
  have pb: "page_base (GEM_KUSER_SHARED_DATA_ADDRESS + of_nat i) = GEM_KUSER_SHARED_DATA_ADDRESS"
      "page_base (GEM_KUSER_CANONICAL_ADDRESS + of_nat i) = GEM_KUSER_CANONICAL_ADDRESS" if "i < 4096" for i
    using aligned_offset(2) [OF al(1)] aligned_offset(2) [OF al(2)] small [OF that] by simp_all
  have bk: "Option.bind (page_at m GEM_KUSER_SHARED_DATA_ADDRESS) page_backing = Some b"
      "Option.bind (page_at m GEM_KUSER_CANONICAL_ADDRESS) page_backing = Some b"
    unfolding layout_backing [symmetric] by (simp_all add: l kuser_addresses)
  have "cell m (GEM_KUSER_SHARED_DATA_ADDRESS + of_nat i) = cell m (GEM_KUSER_CANONICAL_ADDRESS + of_nat i) \<and>
      byte_at m (GEM_KUSER_SHARED_DATA_ADDRESS + of_nat i) = Some 0" if i: "i < 4096" for i
    using pb [OF i] bk k aligned_offset(1) [OF al(1), of "of_nat i"] aligned_offset(1) [OF al(2), of "of_nat i"]
    by (simp add: cell_def byte_at_def backing_byte_def)
  then show ?thesis using create_ok(1) [OF assms] by (simp add: l kuser_addresses)
qed

text \<open>
  Binding the shared user page replaces the storage behind both of its addresses by one host
  page, keeps their protections, and changes nothing else.
\<close>

theorem bind_kuser_spec:
  assumes inv: "memory_inv pins m" and call: "gem_memory_bind_kuser (Some m) g = (GEM_MEMORY_OK, Some m')"
  shows "memory_inv pins m' \<and>
    (\<forall>y. byte_at m' y = (if page_base y = GEM_KUSER_CANONICAL_ADDRESS \<or> page_base y = GEM_KUSER_SHARED_DATA_ADDRESS
       then Some (host_memory m (g + (y AND 4095))) else byte_at m y)) \<and>
    (\<forall>x. map_option protection (layout m' x) = map_option protection (layout m x) \<and> resv m' x = resv m x)"
proof -
  have run: "bind_kuser_locked m g = (GEM_MEMORY_OK, m')"
    using call by (simp add: gem_memory_bind_kuser_def on_memory_def split: prod.splits)
  note ok = bind_kuser_ok [OF inv run]
  obtain p1 p2 ext k where e: "layout m GEM_KUSER_CANONICAL_ADDRESS = Some p1" "layout m GEM_KUSER_SHARED_DATA_ADDRESS = Some p2"
      "backing_heap m' ext = Some k" "bk_data k = Host g"
      "layout m' = (layout m)(GEM_KUSER_CANONICAL_ADDRESS \<mapsto> p1\<lparr>page_backing := Some ext\<rparr>,
         GEM_KUSER_SHARED_DATA_ADDRESS \<mapsto> p2\<lparr>page_backing := Some ext\<rparr>)"
    using ok(3) by blast
  have "byte_at m' y = (if page_base y = GEM_KUSER_CANONICAL_ADDRESS \<or> page_base y = GEM_KUSER_SHARED_DATA_ADDRESS
       then Some (host_memory m (g + (y AND 4095))) else byte_at m y)" for y
  proof (cases "page_base y = GEM_KUSER_CANONICAL_ADDRESS \<or> page_base y = GEM_KUSER_SHARED_DATA_ADDRESS")
    case True
    then have "\<exists>p. layout m' (page_base y) = Some p \<and> page_backing p = Some ext" using e(5) by auto
    then obtain p where p: "layout m' (page_base y) = Some p" "page_backing p = Some ext" by blast
    show ?thesis using byte_at_layout [OF p e(3)] e(4) True ok(2) by (simp add: bk_frame_def)
  next
    case False
    then show ?thesis using inv_byte_frame [OF inv ok(1,2), of y] e(5) by simp
  qed
  moreover have "map_option protection (layout m' x) = map_option protection (layout m x) \<and> resv m' x = resv m x" for x
    using e(1,2,5) by (simp add: resv_layout)
  ultimately show ?thesis using ok(1) by blast
qed

text \<open>
  (C13) Destroying a memory frees every page and every backing: nothing leaks and nothing is freed twice.
\<close>

theorem destroy_frees_everything:
  assumes inv: "memory_inv no_pins m"
  shows "\<exists>m'. gem_memory_destroy (Some m) = Some m' \<and> \<not> crashed m' \<and> pages m' = [] \<and>
    (\<forall>r. page_heap m' r = None) \<and> (\<forall>b. backing_heap m' b = None)"
proof -
  let ?m = "remove_pages m 0 (- 1)"
  note st = remove_pages_step [OF inv_mem_ok [OF inv] inv_pins [OF inv], of 0 "- 1"]
  have ok: "index_ok ?m" "refs_ok no_pins ?m" "\<not> crashed ?m" using st(1) by (simp_all add: mem_ok_def)
  have "page_heap ?m r = None" for r
  proof (rule ccontr)
    assume "page_heap ?m r \<noteq> None"
    then obtain p where p: "page_heap ?m r = Some p" by blast
    then have pa: "page_at ?m (address p) = Some p" using page_at_iff [OF ok(1)] by blast
    then have nr: "\<not> in_range 0 (- 1) (address p)" and pm: "page_at m (address p) = Some p"
      using st(3) [of "address p"] by (auto split: if_splits)
    have "aligned (address p)" by (rule mapped_aligned [OF inv pm])
    then have "address p \<noteq> - 1" by auto
    then show False using nr word_order.not_eq_extremum [of "address p"] by simp
  qed
  then have ph: "page_heap ?m = Map.empty" by blast
  have "backing_heap ?m b = None" for b
  proof (rule ccontr)
    assume "backing_heap ?m b \<noteq> None"
    then obtain k where k: "backing_heap ?m b = Some k" by blast
    have "int (ref_count ?m b) = int (card (holders (page_heap ?m) b)) + 0" using ok(2) unfolding refs_ok_def by blast
    then have "refs k = 0" using k by (simp add: ph ref_count_def holders_def)
    moreover have "0 < refs k" using ok(2) k unfolding refs_ok_def by blast
    ultimately show False by simp
  qed
  moreover have "pages ?m = []" using index_on_dom [OF ok(1) [unfolded index_ok_def]] ph by simp
  ultimately show ?thesis using ok(3) ph by (simp add: gem_memory_destroy_def)
qed

text \<open>
  Peeking returns the bytes of the range whatever their protection and guard bits, and leaves
  the memory exactly as it was.
\<close>

theorem peek_spec:
  assumes inv: "memory_inv pins m" and call: "gem_memory_peek acc (Some m) a (Some buf) n = (GEM_MEMORY_OK, b', mo)"
    and len: "length buf = unat n"
  shows "mo = Some m \<and> (\<exists>buf'. b' = Some buf' \<and> length buf' = unat n \<and>
    (\<forall>i < unat n. byte_at m (a + of_nat i) = Some (buf' ! i)))"
proof -
  obtain m' where run: "peek_locked acc m a (Some buf) n = (GEM_MEMORY_OK, b', m')" "mo = Some m'"
    using call by (auto simp: gem_memory_peek_def on_buffer_Some)
  note ok = peek_ok [OF inv run(1)]
  show ?thesis using ok run(2) len by (cases "n = 0") auto
qed

end
