(* ===== verification/Gem_Memory_Witnesses.thy ===== *)
theory Gem_Memory_Witnesses
  imports Gem_Memory_Sharing
begin

text \<open>
  The laws of the guest memory applied to a new memory: each theorem below runs one call of the
  model on concrete arguments and reads off the law's conclusion.
\<close>

section \<open>States\<close>

lemma sample_range: "range_ok 0x10000 4096" "page_addrs 0x10000 4096 = [0x10000]"
    "range_ok 0x7ffe0000 4096" "page_addrs 0x7ffe0000 4096 = [0x7ffe0000]"
proof -
  show "range_ok 0x10000 4096" by (simp add: range_ok_def)
  show "range_ok 0x7ffe0000 4096" by (simp add: range_ok_def)
  show "page_addrs 0x10000 4096 = [0x10000]" "page_addrs 0x7ffe0000 4096 = [0x7ffe0000]"
    using page_addrs_one by (simp_all add: GEM_GUEST_PAGE_SIZE_def)
qed

lemma sample_at:
  obtains r p b where "at sample_memory 0x7ffe0000 = Some r" "page_heap sample_memory r = Some p"
    "page_at sample_memory 0x7ffe0000 = Some p" "page_backing p = Some b" "protection p = GEM_PAGE_READWRITE"
    "reservation_base p = 0x7ffe0000" "reservation_size p = 4096"
proof -
  obtain b where "layout sample_memory 0x7ffe0000 = Some \<lparr>address = 0x7ffe0000, reservation_base = 0x7ffe0000,
     reservation_size = 4096, page_backing = Some b, protection = GEM_PAGE_READWRITE, generation = 0\<rparr>"
    using sample_page by blast
  then obtain r p where r: "at sample_memory 0x7ffe0000 = Some r" "page_heap sample_memory r = Some p" "page_at sample_memory 0x7ffe0000 = Some p"
    and p: "\<lparr>address = 0x7ffe0000, reservation_base = 0x7ffe0000,
     reservation_size = 4096, page_backing = Some b, protection = GEM_PAGE_READWRITE, generation = 0\<rparr> = p\<lparr>generation := 0\<rparr>"
    using layout_at [OF inv_mem_ok [OF sample_inv]] by blast
  note q = arg_cong [OF p, of page_backing] arg_cong [OF p, of protection] arg_cong [OF p, of reservation_base]
    arg_cong [OF p, of reservation_size]
  show thesis by (rule that [OF r, of b]) (use q in simp_all)
qed

lemma sample_free: "at sample_memory 0x10000 = None"
  using sample_layout_None [of "0x10000"] at_None_iff [OF inv_index [OF sample_inv]] by (simp add: layout_def)

lemma sample_reserved:
  obtains m where "gem_memory_reserve (Some sample_memory) (Some 0x10000) 4096 = (GEM_MEMORY_OK, Some 0x10000, Some m)"
    "memory_inv no_pins m" "plentiful m" "layout m 0x10000 = Some \<lparr>address = 0x10000, reservation_base = 0x10000,
       reservation_size = 4096, page_backing = None, protection = 0, generation = 0\<rparr>"
proof -
  obtain m where m: "reserve_locked sample_memory (Some 0x10000) 4096 = (GEM_MEMORY_OK, Some 0x10000, m)" "plentiful m"
    using reserve_total [OF sample_plentiful _ sample_range(1)] sample_free
    by (auto simp: sample_range(2) GEM_MEMORY_MAX_PAGES_def)
  obtain b where "Some 0x10000 = Some b" "memory_inv no_pins m"
      "layout m = (\<lambda>x. if x \<in> set (page_addrs b 4096) then Some \<lparr>address = x, reservation_base = b, reservation_size = 4096,
         page_backing = None, protection = 0, generation = 0\<rparr> else layout sample_memory x)"
    by (rule reserve_ok [OF sample_inv m(1)]) blast
  then show thesis using that [of m] m by (simp add: gem_memory_reserve_def sample_range(2))
qed

section \<open>Applications\<close>

theorem guard_one_shot_witness:
  "\<exists>m m' m''. gem_memory_write (Some m) 0x7ffe0000 (Some [7]) 1 = (GEM_MEMORY_GUARD_PAGE, Some [7], Some m') \<and>
     gem_memory_write_deferred_guard (Some m) 0x7ffe0000 (Some [7]) 1 = (GEM_MEMORY_GUARD_PAGE, Some [7], Some m'') \<and>
     byte_at m' = byte_at m \<and> layout m'' = layout m"
proof -
  have "prot_ok 0x104" by (simp add: prot_ok_def)
  then obtain m b k where m: "memory_inv no_pins m" "plentiful m" "layout m 0x7ffe0000 = Some \<lparr>address = 0x7ffe0000,
       reservation_base = 0x7ffe0000, reservation_size = 4096, page_backing = Some b, protection = 0x104,
       generation = 0\<rparr>" "backing_heap m b = Some k" by (rule sample_protect)
  obtain r p where r: "at m 0x7ffe0000 = Some r" "page_heap m r = Some p" "\<lparr>address = 0x7ffe0000,
       reservation_base = 0x7ffe0000, reservation_size = 4096, page_backing = Some b, protection = 0x104,
       generation = 0\<rparr> = p\<lparr>generation := 0\<rparr>"
    using layout_at [OF inv_mem_ok [OF m(1)] m(3)] by blast
  have p: "page_backing p = Some b" "protection p = 0x104"
    using arg_cong [OF r(3), of page_backing] arg_cong [OF r(3), of protection] by simp_all
  have ck: "access_check (bump m) True False (range_pieces 0x7ffe0000 1) = Inr [r]" "find (guarded (bump m)) [r] = Some r"
    using r(1,2) p by (simp_all add: at_def guarded_def allowed_def rbind_def)
  have c: "\<not> ((1 :: u64) > - 1 - (0x7ffe0000 AND 4095) - 4095)" "\<not> (0x7ffe0000 > - 1 - (1 :: u64))" by code_simp+
  obtain e1 b1 m1 e2 b2 m2 where run:
      "access_memory_locked m 0x7ffe0000 (Some [7]) 1 True False False True = (e1, b1, m1)"
      "access_memory_locked m 0x7ffe0000 (Some [7]) 1 True False False False = (e2, b2, m2)" by (metis prod_cases3)
  then have "e1 = GEM_MEMORY_GUARD_PAGE" "b1 = Some [7]" "e2 = GEM_MEMORY_GUARD_PAGE" "b2 = Some [7]"
    using ck plentiful_alloc [OF m(2)] c by (auto simp: access_memory_locked_def range_pieces_def Let_def)
  then have w: "gem_memory_write (Some m) 0x7ffe0000 (Some [7]) 1 = (GEM_MEMORY_GUARD_PAGE, Some [7], Some m1)"
      "gem_memory_write_deferred_guard (Some m) 0x7ffe0000 (Some [7]) 1 = (GEM_MEMORY_GUARD_PAGE, Some [7], Some m2)"
    using run by (simp_all add: gem_memory_write_def gem_memory_write_deferred_guard_def on_buffer_def)
  then show ?thesis using guard_one_shot [where op = gem_memory_write, OF m(1) _ w(1)] w by blast
qed

theorem at_linear_search_witness:
  "at sample_memory 0x7ffe0000 = find (\<lambda>r. map_option address (page_heap sample_memory r) = Some 0x7ffe0000) (pages sample_memory)"
  by (rule at_linear_search [OF sample_inv])

theorem reserve_spec_witness:
  "\<exists>m. gem_memory_reserve (Some sample_memory) (Some 0x10000) 4096 = (GEM_MEMORY_OK, Some 0x10000, Some m) \<and>
     byte_at m = byte_at sample_memory"
proof -
  obtain m where m: "gem_memory_reserve (Some sample_memory) (Some 0x10000) 4096 = (GEM_MEMORY_OK, Some 0x10000, Some m)"
    by (rule sample_reserved) blast
  then show ?thesis using reserve_spec [OF sample_inv m] by blast
qed

theorem commit_spec_witness:
  "\<exists>m m'. gem_memory_commit (Some m) 0x10000 4096 GEM_PAGE_READWRITE = (GEM_MEMORY_OK, Some m') \<and> byte_at m' 0x10004 = Some 0"
proof -
  obtain m where m: "memory_inv no_pins m" "plentiful m" "layout m 0x10000 = Some \<lparr>address = 0x10000, reservation_base = 0x10000,
       reservation_size = 4096, page_backing = None, protection = 0, generation = 0\<rparr>"
    by (rule sample_reserved) blast
  have "check m 0x10000 4096 False = GEM_MEMORY_OK"
    using m(3) sample_range by (auto simp: check_def layout_def)
  from commit_total [OF m(2) this prot_rw] obtain m' where
    "commit_locked m 0x10000 4096 GEM_PAGE_READWRITE = (GEM_MEMORY_OK, m')" by blast
  then have c: "gem_memory_commit (Some m) 0x10000 4096 GEM_PAGE_READWRITE = (GEM_MEMORY_OK, Some m')"
    by (simp add: gem_memory_commit_def on_memory_def)
  have pb: "page_base 0x10004 = 0x10000" by (simp add: page_base_def)
  have "byte_at m 0x10004 = None" by (rule byte_at_None) (simp add: pb m(3))
  then have "byte_at m' 0x10004 = Some 0" using commit_spec [OF m(1) c] pb sample_range(2) by simp
  then show ?thesis using c by blast
qed

theorem give_back_spec_witness:
  "\<exists>m. memory_exec (\<lambda>_ _. True) (Release 0x7ffe0000 4096) (Some sample_memory) = (GEM_MEMORY_OK, Some m) \<and>
     byte_at m 0x7ffe0004 = None \<and> memory_inv no_pins m"
proof -
  obtain p where p: "page_at sample_memory 0x7ffe0000 = Some p" "reservation_base p = 0x7ffe0000" "reservation_size p = 4096"
    by (rule sample_at) blast
  have "release_locked sample_memory 0x7ffe0000 4096 = (GEM_MEMORY_OK, remove_pages sample_memory 0x7ffe0000 4096)"
    using p sample_range by (simp add: release_locked_def check_def)
  then have r: "memory_exec (\<lambda>_ _. True) (Release 0x7ffe0000 4096) (Some sample_memory) =
      (GEM_MEMORY_OK, Some (remove_pages sample_memory 0x7ffe0000 4096))"
    by (simp add: gem_memory_release_def on_memory_def)
  have "page_base 0x7ffe0004 = 0x7ffe0000" by (simp add: page_base_def)
  then show ?thesis using r give_back_spec [OF sample_inv _ r, of "0x7ffe0000" 4096] sample_range(4) by simp
qed

theorem protect_spec_witness:
  "\<exists>m. gem_memory_protect (Some sample_memory) 0x7ffe0000 4096 GEM_PAGE_READONLY =
     (GEM_MEMORY_OK, Some GEM_PAGE_READWRITE, Some m) \<and> byte_at m = byte_at sample_memory"
proof -
  have "prot_ok GEM_PAGE_READONLY" by (simp add: prot_ok_def)
  then obtain m where m: "gem_memory_protect (Some sample_memory) 0x7ffe0000 4096 GEM_PAGE_READONLY =
     (GEM_MEMORY_OK, Some GEM_PAGE_READWRITE, Some m)" by (rule sample_protect)
  then show ?thesis using protect_spec [OF sample_inv m] by blast
qed

theorem alias_shares_witness:
  "\<exists>m. gem_memory_alias (Some sample_memory) 0x10000 0x7ffe0000 4096 GEM_PAGE_READWRITE = (GEM_MEMORY_OK, Some m) \<and>
     cell m 0x10004 = cell m 0x7ffe0004"
proof -
  obtain p b where p: "page_at sample_memory 0x7ffe0000 = Some p" "page_backing p = Some b" by (rule sample_at) blast
  have "check sample_memory 0x7ffe0000 4096 True = GEM_MEMORY_OK" using p sample_range by (simp add: check_def)
  from alias_total [OF sample_plentiful sample_range(1) prot_rw this] obtain m
    where "alias_locked sample_memory 0x10000 0x7ffe0000 4096 GEM_PAGE_READWRITE = (GEM_MEMORY_OK, m)"
    using sample_free sample_range(2) by auto
  then have a: "gem_memory_alias (Some sample_memory) 0x10000 0x7ffe0000 4096 GEM_PAGE_READWRITE = (GEM_MEMORY_OK, Some m)"
    by (simp add: gem_memory_alias_def on_memory_def)
  have "page_base 0x10004 \<in> set (page_addrs 0x10000 4096)" by (simp add: page_base_def sample_range(2))
  then have "cell m 0x10004 = cell m (0x7ffe0000 + (0x10004 - 0x10000))" using alias_shares [OF sample_inv a] by blast
  then show ?thesis using a by auto
qed

theorem external_shows_host_witness:
  "\<exists>m m'. memory_exec (\<lambda>_ _. True) (Commit_external 0x10000 0x5000 4096 GEM_PAGE_READWRITE) (Some m) = (GEM_MEMORY_OK, Some m') \<and>
     byte_at m' 0x10004 = Some (host_memory m 0x5004)"
proof -
  obtain m where m: "memory_inv no_pins m" "plentiful m" "layout m 0x10000 = Some \<lparr>address = 0x10000, reservation_base = 0x10000,
       reservation_size = 4096, page_backing = None, protection = 0, generation = 0\<rparr>"
    by (rule sample_reserved) blast
  obtain p where p: "page_at m 0x10000 = Some p" "page_backing p = None"
  proof -
    obtain p where q: "page_at m 0x10000 = Some p" "\<lparr>address = 0x10000, reservation_base = 0x10000,
       reservation_size = 4096, page_backing = None, protection = 0, generation = 0\<rparr> = p\<lparr>generation := 0\<rparr>"
      using layout_at [OF inv_mem_ok [OF m(1)] m(3)] by blast
    show thesis by (rule that [OF q(1)]) (use arg_cong [OF q(2), of page_backing] in simp)
  qed
  obtain b m1 where nb: "new_backing (bump m) (Some 0x5000) = (Some b, m1)"
    using plentiful_new_backing [of "bump m" "Some 0x5000"] m(2) by auto
  have "page_at (bump m) 0x10000 = Some p" using p(1) by simp
  then have "commit_external_locked m 0x10000 0x5000 4096 GEM_PAGE_READWRITE False =
      (GEM_MEMORY_OK, foldl (commit_page GEM_PAGE_READWRITE) m1 (zip [0x10000] [Some b]))"
    using p nb plentiful_alloc [OF m(2)] prot_rw sample_range(1,2)
    by (simp add: commit_external_locked_def check_def GEM_GUEST_PAGE_SIZE_def)
  then obtain m' where c: "memory_exec (\<lambda>_ _. True) (Commit_external 0x10000 0x5000 4096 GEM_PAGE_READWRITE) (Some m) =
      (GEM_MEMORY_OK, Some m')"
    by (simp add: gem_memory_commit_external_def on_memory_def)
  have "page_base 0x10004 = 0x10000" by (simp add: page_base_def)
  then have "byte_at m' 0x10004 = Some (host_memory m 0x5004)" using sample_range(2)
      external_shows_host [OF m(1) _ c, of "0x10000" "0x5000" 4096 GEM_PAGE_READWRITE] by simp
  then show ?thesis using c by blast
qed

theorem create_spec_witness:
  "memory_inv no_pins sample_memory \<and> layout sample_memory GEM_KUSER_SHARED_DATA_ADDRESS \<noteq> None"
  using create_spec [OF sample_create] by blast

theorem bind_kuser_spec_witness:
  "\<exists>m. gem_memory_bind_kuser (Some sample_memory) 0x5000 = (GEM_MEMORY_OK, Some m) \<and> memory_inv no_pins m"
proof -
  obtain b where l: "layout sample_memory 0x7ffe0000 = Some \<lparr>address = 0x7ffe0000, reservation_base = 0x7ffe0000,
     reservation_size = 4096, page_backing = Some b, protection = GEM_PAGE_READWRITE, generation = 0\<rparr>"
    "layout sample_memory 0x1007ffe0000 = Some \<lparr>address = 0x1007ffe0000, reservation_base = 0x1007ffe0000,
     reservation_size = 4096, page_backing = Some b, protection = GEM_PAGE_READWRITE, generation = 0\<rparr>"
    using sample_page by blast
  obtain r1 p1 where r1: "at sample_memory 0x7ffe0000 = Some r1" "page_heap sample_memory r1 = Some p1" "page_backing p1 = Some b"
  proof -
    obtain r p where q: "at sample_memory 0x7ffe0000 = Some r" "page_heap sample_memory r = Some p"
        "\<lparr>address = 0x7ffe0000, reservation_base = 0x7ffe0000, reservation_size = 4096, page_backing = Some b,
          protection = GEM_PAGE_READWRITE, generation = 0\<rparr> = p\<lparr>generation := 0\<rparr>"
      using layout_at [OF inv_mem_ok [OF sample_inv] l(1)] by blast
    show thesis by (rule that [OF q(1,2)]) (use arg_cong [OF q(3), of page_backing] in simp)
  qed
  obtain r2 p2 where r2: "at sample_memory 0x1007ffe0000 = Some r2" "page_heap sample_memory r2 = Some p2" "page_backing p2 = Some b"
  proof -
    obtain r p where q: "at sample_memory 0x1007ffe0000 = Some r" "page_heap sample_memory r = Some p"
        "\<lparr>address = 0x1007ffe0000, reservation_base = 0x1007ffe0000, reservation_size = 4096, page_backing = Some b,
          protection = GEM_PAGE_READWRITE, generation = 0\<rparr> = p\<lparr>generation := 0\<rparr>"
      using layout_at [OF inv_mem_ok [OF sample_inv] l(2)] by blast
    show thesis by (rule that [OF q(1,2)]) (use arg_cong [OF q(3), of page_backing] in simp)
  qed
  obtain e m1 where "new_backing sample_memory (Some 0x5000) = (Some e, m1)"
    using plentiful_new_backing [OF sample_plentiful] by blast
  then obtain m where "bind_kuser_locked sample_memory 0x5000 = (GEM_MEMORY_OK, m)"
    using r1 r2 by (simp add: bind_kuser_locked_def GEM_KUSER_CANONICAL_ADDRESS_def GEM_KUSER_SHARED_DATA_ADDRESS_def
        GEM_GUEST_PAGE_SIZE_def Let_def)
  then have c: "gem_memory_bind_kuser (Some sample_memory) 0x5000 = (GEM_MEMORY_OK, Some m)"
    by (simp add: gem_memory_bind_kuser_def on_memory_def)
  then show ?thesis using bind_kuser_spec [OF sample_inv c] by blast
qed

theorem destroy_frees_everything_witness:
  "\<exists>m'. gem_memory_destroy (Some sample_memory) = Some m' \<and> pages m' = []"
  using destroy_frees_everything [OF sample_inv] by blast

theorem peek_spec_witness:
  "\<exists>b'. gem_memory_peek (\<lambda>_ _. True) (Some sample_memory) 0x7ffe0000 (Some []) 0 = (GEM_MEMORY_OK, b', Some sample_memory)"
proof -
  have p: "gem_memory_peek (\<lambda>_ _. True) (Some sample_memory) 0x7ffe0000 (Some []) 0 = (GEM_MEMORY_OK, Some [], Some sample_memory)"
    by (simp add: gem_memory_peek_def on_buffer_def peek_locked_def)
  then show ?thesis using peek_spec [OF sample_inv p] by simp
qed

end
