(* ===== verification/Gem_Pe.thy ===== *)
theory Gem_Pe
  imports Gem_Prelude
begin

text \<open>
  The ARM64X image parser of src/gem/pe_arm64x.c. A read outside the caller's buffer is an outcome
  of its own (\<open>Out_of_bounds\<close>), so that the parser's bounds checks can be proved sufficient. The
  requests to \<open>calloc\<close> and \<open>malloc\<close> may fail: a predicate on the five blocks of an image says which
  of them succeed. \<open>size_t\<close> is 64 bits wide.
\<close>

section \<open>Data\<close>

datatype gem_pe_status =
    GEM_PE_OK
  | GEM_PE_ERROR_INVALID_ARGUMENT
  | GEM_PE_ERROR_UNSUPPORTED_FORMAT
  | GEM_PE_ERROR_TRUNCATED
  | GEM_PE_ERROR_OVERFLOW
  | GEM_PE_ERROR_LIMIT_EXCEEDED
  | GEM_PE_ERROR_BAD_DOS_HEADER
  | GEM_PE_ERROR_BAD_PE_SIGNATURE
  | GEM_PE_ERROR_BAD_COFF_HEADER
  | GEM_PE_ERROR_BAD_OPTIONAL_HEADER
  | GEM_PE_ERROR_BAD_SECTION_TABLE
  | GEM_PE_ERROR_BAD_RVA
  | GEM_PE_ERROR_BAD_LOAD_CONFIG
  | GEM_PE_ERROR_NO_CHPE_METADATA
  | GEM_PE_ERROR_BAD_CHPE_METADATA
  | GEM_PE_ERROR_UNSUPPORTED_CHPE_VERSION
  | GEM_PE_ERROR_UNSORTED_RANGES
  | GEM_PE_ERROR_OVERLAPPING_RANGES

datatype gem_pe_rva_class =
    GEM_PE_RVA_INVALID
  | GEM_PE_RVA_DATA
  | GEM_PE_RVA_ARM64
  | GEM_PE_RVA_ARM64EC
  | GEM_PE_RVA_X64
  | GEM_PE_RVA_THUNK
  | GEM_PE_RVA_FAST_FORWARD

text \<open>How a parsing step can stop: with a status, or by reading past the buffer.\<close>

datatype pe_fault = Status gem_pe_status | Out_of_bounds

record gem_pe_arm64x_parse_options =
  opt_version :: u32
  max_sections :: u32
  max_code_ranges :: u32
  max_entry_ranges :: u32
  max_redirections :: u32

record gem_pe_arm64x_summary =
  machine :: u16
  section_count :: u16
  image_base :: u64
  size_of_image :: u32
  sum_size_of_headers :: u32
  address_of_entry_point :: u32
  load_config_rva :: u32
  load_config_size :: u32
  chpe_metadata_rva :: u32
  chpe_metadata_version :: u32
  code_range_count :: size_t
  entry_range_count :: size_t
  redirection_count :: size_t

record pe_section =
  virtual_address :: u32
  virtual_size :: u32
  raw_size :: u32
  raw_pointer :: u32
  characteristics :: u32

record gem_pe_arm64x_section =
  out_virtual_address :: u32
  out_virtual_size :: u32
  out_raw_size :: u32
  out_characteristics :: u32

record gem_pe_arm64x_code_range =
  code_start_rva :: u32
  code_end_rva :: u32
  code_isa :: gem_pe_rva_class

record gem_pe_arm64x_entry_range =
  entry_start_rva :: u32
  entry_end_rva :: u32
  entry_point_rva :: u32

record gem_pe_arm64x_redirection =
  source_rva :: u32
  destination_rva :: u32

record gem_pe_arm64x_image =
  summary :: gem_pe_arm64x_summary
  img_byte_count :: size_t
  size_of_headers :: u32
  sections :: "pe_section list"
  code_ranges :: "gem_pe_arm64x_code_range list"
  entry_ranges :: "gem_pe_arm64x_entry_range list"
  redirections :: "gem_pe_arm64x_redirection list"

record parser_state =
  st_bytes :: byte_string
  byte_count :: size_t
  loaded_base :: u64
  mapped_image :: bool
  options :: gem_pe_arm64x_parse_options
  image :: gem_pe_arm64x_image

record chpe_metadata_fields =
  fld_version :: u32
  code_map_rva :: u32
  code_map_count :: u32
  entry_ranges_rva :: u32
  redirections_rva :: u32
  fld_entry_range_count :: u32
  fld_redirection_count :: u32

record gem_pe_arm64x_rva_info =
  classification :: gem_pe_rva_class
  code_map_isa :: gem_pe_rva_class
  info_rva :: u32
  containing_range_start_rva :: u32
  containing_range_end_rva :: u32
  info_entry_point_rva :: u32
  redirection_destination_rva :: u32
  section_index :: u32
  has_entry_point :: bool
  has_redirection :: bool
  executable_section :: bool

datatype pe_block = Image_block | Section_block | Code_block | Entry_block | Redirection_block

definition GEM_PE_ARM64X_DEFAULT_MAX_METADATA_BYTES :: size_t where
  "GEM_PE_ARM64X_DEFAULT_MAX_METADATA_BYTES = 8388608"

definition PE_LOAD_CONFIG_CHPE_POINTER_END :: u32 where "PE_LOAD_CONFIG_CHPE_POINTER_END = 0xD0"

section \<open>Arithmetic and reads\<close>

text \<open>\<open>checked_add_size\<close>, \<open>checked_mul_size\<close> and \<open>checked_add_u32\<close> are \<open>checked_add\<close> and \<open>checked_mul\<close> of the prelude.\<close>

definition file_span_fits :: "size_t \<Rightarrow> size_t \<Rightarrow> size_t \<Rightarrow> bool" where
  "file_span_fits n offset sz = (case checked_add offset sz of None \<Rightarrow> False | Some e \<Rightarrow> e \<le> n)"

definition require_file_span :: "parser_state \<Rightarrow> size_t \<Rightarrow> size_t \<Rightarrow> gem_pe_status" where
  "require_file_span st offset sz =
    (if file_span_fits (byte_count st) offset sz then GEM_PE_OK else GEM_PE_ERROR_TRUNCATED)"

definition read_u8 :: "byte_string \<Rightarrow> size_t \<Rightarrow> pe_fault + u8" where
  "read_u8 bs offset = (if unat offset < length bs then Inr (bs ! unat offset) else Inl Out_of_bounds)"

definition read_u16le_unchecked :: "byte_string \<Rightarrow> size_t \<Rightarrow> pe_fault + u16" where
  "read_u16le_unchecked bs offset =
    rbind (read_u8 bs offset) (\<lambda>a.
    rbind (read_u8 bs (offset + 1)) (\<lambda>b.
    Inr (ucast a OR push_bit 8 (ucast b))))"

definition read_u32le_unchecked :: "byte_string \<Rightarrow> size_t \<Rightarrow> pe_fault + u32" where
  "read_u32le_unchecked bs offset =
    rbind (read_u8 bs offset) (\<lambda>a.
    rbind (read_u8 bs (offset + 1)) (\<lambda>b.
    rbind (read_u8 bs (offset + 2)) (\<lambda>c.
    rbind (read_u8 bs (offset + 3)) (\<lambda>d.
    Inr (ucast a OR push_bit 8 (ucast b) OR push_bit 16 (ucast c) OR push_bit 24 (ucast d))))))"

definition read_u64le_unchecked :: "byte_string \<Rightarrow> size_t \<Rightarrow> pe_fault + u64" where
  "read_u64le_unchecked bs offset =
    rbind (read_u32le_unchecked bs offset) (\<lambda>lo.
    rbind (read_u32le_unchecked bs (offset + 4)) (\<lambda>hi.
    Inr (ucast lo OR push_bit 32 (ucast hi))))"

section \<open>Sections and addresses\<close>

definition section_virtual_extent :: "pe_section \<Rightarrow> u32" where
  "section_virtual_extent s = (if virtual_size s > raw_size s then virtual_size s else raw_size s)"

definition section_is_executable :: "pe_section \<Rightarrow> bool" where
  "section_is_executable s \<longleftrightarrow> characteristics s AND 0x20000000 \<noteq> 0"

definition rva_add_fits_image :: "u32 \<Rightarrow> u32 \<Rightarrow> u32 \<Rightarrow> bool" where
  "rva_add_fits_image rva sz limit = (case checked_add rva sz of None \<Rightarrow> False | Some e \<Rightarrow> e \<le> limit)"

definition section_contains_span :: "pe_section \<Rightarrow> u32 \<Rightarrow> u32 \<Rightarrow> bool" where
  "section_contains_span s rva sz =
    (case (checked_add rva sz, checked_add (virtual_address s) (section_virtual_extent s)) of
       (Some e, Some section_end) \<Rightarrow> rva \<ge> virtual_address s \<and> e \<le> section_end
     | _ \<Rightarrow> False)"

text \<open>The first section that contains the span, with its index.\<close>

fun find_section_from :: "nat \<Rightarrow> pe_section list \<Rightarrow> u32 \<Rightarrow> u32 \<Rightarrow> (pe_section \<times> nat) option" where
  "find_section_from i [] rva sz = None"
| "find_section_from i (s # ss) rva sz =
    (if section_contains_span s rva sz then Some (s, i) else find_section_from (Suc i) ss rva sz)"

definition find_section_for_span :: "gem_pe_arm64x_image \<Rightarrow> u32 \<Rightarrow> u32 \<Rightarrow> (pe_section \<times> nat) option" where
  "find_section_for_span img rva sz =
    find_section_from 0 (take (unat (section_count (summary img))) (sections img)) rva sz"

definition rva_to_file_offset_internal :: "gem_pe_arm64x_image \<Rightarrow> u32 \<Rightarrow> u32 \<Rightarrow> gem_pe_status + size_t" where
  "rva_to_file_offset_internal img rva sz =
    (if sz = 0 then Inl GEM_PE_ERROR_INVALID_ARGUMENT
     else if \<not> rva_add_fits_image rva sz (size_of_image (summary img)) then Inl GEM_PE_ERROR_BAD_RVA
     else if (case checked_add rva sz of
           None \<Rightarrow> False
         | Some header_end \<Rightarrow> rva < size_of_headers img \<and> header_end \<le> size_of_headers img \<and>
             ucast header_end \<le> img_byte_count img)
     then Inr (ucast rva)
     else (case find_section_for_span img rva sz of
         None \<Rightarrow> Inl GEM_PE_ERROR_BAD_RVA
       | Some (s, _) \<Rightarrow>
          (let offset_in_section = rva - virtual_address s in
           case checked_add offset_in_section sz of
             None \<Rightarrow> Inl GEM_PE_ERROR_BAD_RVA
           | Some raw_end \<Rightarrow>
              (if raw_end > raw_size s then Inl GEM_PE_ERROR_BAD_RVA
               else (case checked_add (ucast (raw_pointer s)) (ucast offset_in_section) of
                   None \<Rightarrow> Inl GEM_PE_ERROR_BAD_RVA
                 | Some file_offset \<Rightarrow>
                    (if \<not> file_span_fits (img_byte_count img) file_offset (ucast sz)
                     then Inl GEM_PE_ERROR_BAD_RVA else Inr file_offset))))))"

definition rva_to_parser_offset :: "parser_state \<Rightarrow> u32 \<Rightarrow> u32 \<Rightarrow> gem_pe_status + size_t" where
  "rva_to_parser_offset st rva sz =
    (if \<not> mapped_image st then rva_to_file_offset_internal (image st) rva sz
     else if sz = 0 then Inl GEM_PE_ERROR_BAD_RVA
     else (case checked_add rva sz of
         None \<Rightarrow> Inl GEM_PE_ERROR_BAD_RVA
       | Some e \<Rightarrow>
          (if e > size_of_image (summary (image st)) \<or> ucast e > byte_count st
           then Inl GEM_PE_ERROR_BAD_RVA else Inr (ucast rva))))"

definition code_type_to_class :: "u32 \<Rightarrow> gem_pe_rva_class" where
  "code_type_to_class t =
    (if t = 0 then GEM_PE_RVA_ARM64
     else if t = 1 then GEM_PE_RVA_ARM64EC
     else if t = 2 then GEM_PE_RVA_X64
     else GEM_PE_RVA_INVALID)"

section \<open>Searching the metadata\<close>

fun search_code :: "gem_pe_arm64x_code_range list \<Rightarrow> u32 \<Rightarrow> gem_pe_arm64x_code_range option" where
  "search_code [] rva = None"
| "search_code (r # rs) rva =
    (if rva < code_start_rva r then None
     else if rva < code_end_rva r then Some r
     else search_code rs rva)"

fun search_entry :: "gem_pe_arm64x_entry_range list \<Rightarrow> u32 \<Rightarrow> gem_pe_arm64x_entry_range option" where
  "search_entry [] rva = None"
| "search_entry (r # rs) rva =
    (if rva < entry_start_rva r then None
     else if rva < entry_end_rva r then Some r
     else search_entry rs rva)"

fun search_redirection :: "gem_pe_arm64x_redirection list \<Rightarrow> u32 \<Rightarrow> gem_pe_arm64x_redirection option" where
  "search_redirection [] rva = None"
| "search_redirection (r # rs) rva =
    (if rva < source_rva r then None
     else if rva = source_rva r then Some r
     else search_redirection rs rva)"

definition find_code_range :: "gem_pe_arm64x_image \<Rightarrow> u32 \<Rightarrow> gem_pe_arm64x_code_range option" where
  "find_code_range img rva = search_code (take (unat (code_range_count (summary img))) (code_ranges img)) rva"

definition find_entry_range :: "gem_pe_arm64x_image \<Rightarrow> u32 \<Rightarrow> gem_pe_arm64x_entry_range option" where
  "find_entry_range img rva = search_entry (take (unat (entry_range_count (summary img))) (entry_ranges img)) rva"

definition find_redirection :: "gem_pe_arm64x_image \<Rightarrow> u32 \<Rightarrow> gem_pe_arm64x_redirection option" where
  "find_redirection img rva = search_redirection (take (unat (redirection_count (summary img))) (redirections img)) rva"

definition code_range_contains_class :: "gem_pe_arm64x_image \<Rightarrow> u32 \<Rightarrow> u32 \<Rightarrow> gem_pe_rva_class \<Rightarrow> bool" where
  "code_range_contains_class img start e c = (case find_code_range img start of
       None \<Rightarrow> False
     | Some r \<Rightarrow> code_isa r = c \<and> e \<le> code_end_rva r)"

end
