(* ===== verification/Gem_Pe_Parser.thy ===== *)
theory Gem_Pe_Parser
  imports Gem_Pe
begin

text \<open>
  The stages of \<open>parse_image\<close> in src/gem/pe_arm64x.c, the public entry points, cloning and the
  queries on a parsed image.
\<close>

text \<open>A step that replaces whatever error another function reported.\<close>

definition or_status :: "gem_pe_status + 'a \<Rightarrow> gem_pe_status \<Rightarrow> pe_fault + 'a" where
  "or_status r e = (case r of Inl _ \<Rightarrow> Inl (Status e) | Inr a \<Rightarrow> Inr a)"

definition require :: "bool \<Rightarrow> gem_pe_status \<Rightarrow> pe_fault + unit" where
  "require c e = guard_that c (Status e)"

section \<open>Options\<close>

definition gem_pe_arm64x_default_parse_options :: gem_pe_arm64x_parse_options where
  "gem_pe_arm64x_default_parse_options = \<lparr>opt_version = 1, max_sections = 96, max_code_ranges = 4096,
     max_entry_ranges = 65536, max_redirections = 65536\<rparr>"

definition copy_options :: "gem_pe_arm64x_parse_options option \<Rightarrow> pe_fault + gem_pe_arm64x_parse_options" where
  "copy_options oo = (case oo of
       None \<Rightarrow> Inr gem_pe_arm64x_default_parse_options
     | Some opts \<Rightarrow>
        (if opt_version opts \<noteq> 1 \<or> max_sections opts = 0 \<or> max_code_ranges opts = 0 \<or>
            max_entry_ranges opts = 0 \<or> max_redirections opts = 0
         then Inl (Status GEM_PE_ERROR_INVALID_ARGUMENT) else Inr opts))"

section \<open>Headers\<close>

text \<open>
  One round of the section loop. \<open>prev\<close> holds the previous section and the end of its extent, when
  there is one.
\<close>

definition parse_section ::
  "parser_state \<Rightarrow> u32 \<Rightarrow> size_t \<Rightarrow> (pe_section \<times> u32) option \<Rightarrow> pe_fault + pe_section \<times> u32" where
  "parse_section st limit offset prev =
    rbind (read_u32le_unchecked (st_bytes st) (offset + 8)) (\<lambda>vsize.
    rbind (read_u32le_unchecked (st_bytes st) (offset + 12)) (\<lambda>va.
    rbind (read_u32le_unchecked (st_bytes st) (offset + 16)) (\<lambda>rsize.
    rbind (read_u32le_unchecked (st_bytes st) (offset + 20)) (\<lambda>rptr.
    rbind (read_u32le_unchecked (st_bytes st) (offset + 36)) (\<lambda>chars.
    (let s = \<lparr>virtual_address = va, virtual_size = vsize, raw_size = rsize, raw_pointer = rptr, characteristics = chars\<rparr> in
     rbind (require (section_virtual_extent s \<noteq> 0) GEM_PE_ERROR_BAD_SECTION_TABLE) (\<lambda>_.
     (case checked_add va (section_virtual_extent s) of
        None \<Rightarrow> Inl (Status GEM_PE_ERROR_BAD_SECTION_TABLE)
      | Some section_end \<Rightarrow>
         rbind (require (section_end \<le> limit) GEM_PE_ERROR_BAD_SECTION_TABLE) (\<lambda>_.
         rbind (case prev of
                  None \<Rightarrow> Inr ()
                | Some (p, previous_end) \<Rightarrow>
                   rbind (require (\<not> va < virtual_address p) GEM_PE_ERROR_UNSORTED_RANGES) (\<lambda>_.
                   require (\<not> va < previous_end) GEM_PE_ERROR_OVERLAPPING_RANGES)) (\<lambda>_.
         rbind (require (\<not> mapped_image st \<and> rsize \<noteq> 0 \<longrightarrow>
                  (case checked_add rptr rsize of
                     None \<Rightarrow> False
                   | Some raw_end \<Rightarrow> ucast raw_end \<le> byte_count st)) GEM_PE_ERROR_BAD_SECTION_TABLE) (\<lambda>_.
         Inr (s, section_end))))))))))))"

fun parse_sections ::
  "parser_state \<Rightarrow> u32 \<Rightarrow> size_t \<Rightarrow> nat \<Rightarrow> nat \<Rightarrow> (pe_section \<times> u32) option \<Rightarrow> pe_fault + pe_section list" where
  "parse_sections st limit table i 0 prev = Inr []"
| "parse_sections st limit table i (Suc k) prev =
    rbind (parse_section st limit (table + of_nat i * 40) prev) (\<lambda>se.
    rbind (parse_sections st limit table (Suc i) k (Some se)) (\<lambda>ss.
    Inr (fst se # ss)))"

text \<open>
  DOS header, signature and COFF header: the machine, the number of sections, the size of the optional
  header and its offset.
\<close>

definition parse_coff_header :: "parser_state \<Rightarrow> pe_fault + u16 \<times> u16 \<times> u16 \<times> size_t" where
  "parse_coff_header st =
    (let bs = st_bytes st in
     rbind (require (\<not> byte_count st < 64) GEM_PE_ERROR_TRUNCATED) (\<lambda>_.
     rbind (read_u8 bs 0) (\<lambda>m.
     rbind (read_u8 bs 1) (\<lambda>z.
     rbind (require (m = 0x4D \<and> z = 0x5A) GEM_PE_ERROR_BAD_DOS_HEADER) (\<lambda>_.
     rbind (read_u32le_unchecked bs 0x3C) (\<lambda>e_lfanew.
     (let pe_offset = ucast e_lfanew :: size_t; coff_offset = pe_offset + 4 in
     rbind (require (\<not> pe_offset < 64) GEM_PE_ERROR_BAD_DOS_HEADER) (\<lambda>_.
     rbind (require (require_file_span st pe_offset 24 = GEM_PE_OK) GEM_PE_ERROR_TRUNCATED) (\<lambda>_.
     rbind (read_u32le_unchecked bs pe_offset) (\<lambda>signature.
     rbind (require (signature = 0x4550) GEM_PE_ERROR_BAD_PE_SIGNATURE) (\<lambda>_.
     rbind (read_u16le_unchecked bs coff_offset) (\<lambda>mach.
     rbind (read_u16le_unchecked bs (coff_offset + 2)) (\<lambda>count.
     rbind (read_u16le_unchecked bs (coff_offset + 16)) (\<lambda>optional_header_size.
     rbind (require (mach = 0xAA64 \<or> mach = 0xA64E \<or>
              (mapped_image st \<and> (mach = 0xA641 \<or> mach = 0x8664))) GEM_PE_ERROR_UNSUPPORTED_FORMAT) (\<lambda>_.
     rbind (require (count \<noteq> 0 \<and> ucast count \<le> max_sections (options st)) GEM_PE_ERROR_LIMIT_EXCEEDED) (\<lambda>_.
     Inr (mach, count, optional_header_size, coff_offset + 20)))))))))))))))))"

text \<open>
  The optional header: where the section table starts, the entry point, the image base, and the sizes
  of the image and of its headers.
\<close>

definition parse_optional_header :: "parser_state \<Rightarrow> size_t \<Rightarrow> u16 \<Rightarrow> pe_fault + size_t \<times> u32 \<times> u64 \<times> u32 \<times> u32" where
  "parse_optional_header st optional_offset optional_header_size =
    (let bs = st_bytes st in
     case checked_add optional_offset (ucast optional_header_size) of
        None \<Rightarrow> Inl (Status GEM_PE_ERROR_OVERFLOW)
      | Some section_table_offset \<Rightarrow>
     rbind (require (require_file_span st optional_offset (ucast optional_header_size) = GEM_PE_OK)
              GEM_PE_ERROR_TRUNCATED) (\<lambda>_.
     rbind (require (\<not> optional_header_size < 200) GEM_PE_ERROR_BAD_OPTIONAL_HEADER) (\<lambda>_.
     rbind (read_u16le_unchecked bs optional_offset) (\<lambda>optional_magic.
     rbind (require (optional_magic = 0x020B) GEM_PE_ERROR_UNSUPPORTED_FORMAT) (\<lambda>_.
     rbind (read_u32le_unchecked bs (optional_offset + 16)) (\<lambda>entry.
     rbind (read_u64le_unchecked bs (optional_offset + 24)) (\<lambda>base.
     rbind (read_u32le_unchecked bs (optional_offset + 32)) (\<lambda>section_alignment.
     rbind (read_u32le_unchecked bs (optional_offset + 36)) (\<lambda>file_alignment.
     rbind (read_u32le_unchecked bs (optional_offset + 56)) (\<lambda>image_size.
     rbind (read_u32le_unchecked bs (optional_offset + 60)) (\<lambda>header_size.
     rbind (read_u32le_unchecked bs (optional_offset + 108)) (\<lambda>number_of_rva_and_sizes.
     rbind (require (\<not> (section_alignment = 0 \<or> file_alignment = 0 \<or> section_alignment < file_alignment \<or>
              image_size = 0 \<or> header_size = 0 \<or> number_of_rva_and_sizes \<le> 10)) GEM_PE_ERROR_BAD_OPTIONAL_HEADER) (\<lambda>_.
     rbind (require (ucast header_size \<le> byte_count st) GEM_PE_ERROR_BAD_OPTIONAL_HEADER) (\<lambda>_.
     rbind (require (\<not> (mapped_image st \<and> ucast image_size > byte_count st)) GEM_PE_ERROR_BAD_OPTIONAL_HEADER) (\<lambda>_.
     Inr (section_table_offset, entry, base, image_size, header_size))))))))))))))))"

text \<open>The section table, and the header fields stored in the image.\<close>

definition parse_section_table :: "(pe_block \<Rightarrow> bool) \<Rightarrow> parser_state \<Rightarrow> u16 \<Rightarrow> u16
    \<Rightarrow> size_t \<times> u32 \<times> u64 \<times> u32 \<times> u32 \<Rightarrow> pe_fault + parser_state" where
  "parse_section_table alloc st mach count header = (case header of (table, entry, base, image_size, header_size) \<Rightarrow>
    rbind (require (case checked_mul (ucast count) 40 of
               None \<Rightarrow> False
             | Some table_size \<Rightarrow> file_span_fits (byte_count st) table table_size)
             GEM_PE_ERROR_BAD_SECTION_TABLE) (\<lambda>_.
    rbind (require (alloc Section_block) GEM_PE_ERROR_LIMIT_EXCEEDED) (\<lambda>_.
    rbind (parse_sections st image_size table 0 (unat count) None) (\<lambda>ss.
    (let img = image st;
         sm = (summary img)\<lparr>address_of_entry_point := entry, image_base := base, size_of_image := image_size,
                sum_size_of_headers := header_size, machine := mach, section_count := count\<rparr>
     in Inr (st\<lparr>image := img\<lparr>summary := sm, size_of_headers := header_size, sections := ss\<rparr>\<rparr>))))))"

definition parse_headers :: "(pe_block \<Rightarrow> bool) \<Rightarrow> parser_state \<Rightarrow> pe_fault + parser_state \<times> size_t" where
  "parse_headers alloc st =
    rbind (parse_coff_header st) (\<lambda>(mach, count, optional_header_size, optional_offset).
    rbind (parse_optional_header st optional_offset optional_header_size) (\<lambda>header.
    rbind (parse_section_table alloc st mach count header) (\<lambda>st'.
    Inr (st', optional_offset + 112 + 80))))"

section \<open>Load configuration and CHPE metadata\<close>

definition parse_load_config_and_chpe ::
  "parser_state \<Rightarrow> size_t \<Rightarrow> pe_fault + parser_state \<times> chpe_metadata_fields" where
  "parse_load_config_and_chpe st dir_offset =
    (let bs = st_bytes st; base = (if mapped_image st then loaded_base st else image_base (summary (image st))) in
     rbind (read_u32le_unchecked bs dir_offset) (\<lambda>lc_rva.
     rbind (read_u32le_unchecked bs (dir_offset + 4)) (\<lambda>lc_size.
     rbind (require (\<not> (lc_rva = 0 \<or> lc_size < PE_LOAD_CONFIG_CHPE_POINTER_END)) GEM_PE_ERROR_BAD_LOAD_CONFIG) (\<lambda>_.
     rbind (or_status (rva_to_parser_offset st lc_rva PE_LOAD_CONFIG_CHPE_POINTER_END)
              GEM_PE_ERROR_BAD_LOAD_CONFIG) (\<lambda>lc_offset.
     rbind (read_u32le_unchecked bs lc_offset) (\<lambda>internal_size.
     rbind (require (\<not> internal_size < PE_LOAD_CONFIG_CHPE_POINTER_END) GEM_PE_ERROR_BAD_LOAD_CONFIG) (\<lambda>_.
     rbind (read_u64le_unchecked bs (lc_offset + 0xC8)) (\<lambda>chpe_va.
     rbind (require (chpe_va \<noteq> 0) GEM_PE_ERROR_NO_CHPE_METADATA) (\<lambda>_.
     rbind (require (\<not> chpe_va < base) GEM_PE_ERROR_BAD_LOAD_CONFIG) (\<lambda>_.
     rbind (require (\<not> chpe_va - base > 0xFFFFFFFF) GEM_PE_ERROR_BAD_LOAD_CONFIG) (\<lambda>_.
     (let rva = ucast (chpe_va - base) :: u32 in
     rbind (or_status (rva_to_parser_offset st rva 4) GEM_PE_ERROR_BAD_CHPE_METADATA) (\<lambda>version_offset.
     rbind (read_u32le_unchecked bs version_offset) (\<lambda>version.
     rbind (require (version = 1 \<or> version = 2) GEM_PE_ERROR_UNSUPPORTED_CHPE_VERSION) (\<lambda>_.
     rbind (or_status (rva_to_parser_offset st rva (if version = 1 then 80 else 92))
              GEM_PE_ERROR_BAD_CHPE_METADATA) (\<lambda>offset.
     rbind (read_u32le_unchecked bs (offset + 4)) (\<lambda>cm_rva.
     rbind (read_u32le_unchecked bs (offset + 8)) (\<lambda>cm_count.
     rbind (read_u32le_unchecked bs (offset + 12)) (\<lambda>er_rva.
     rbind (read_u32le_unchecked bs (offset + 16)) (\<lambda>rd_rva.
     rbind (read_u32le_unchecked bs (offset + 48)) (\<lambda>er_count.
     rbind (read_u32le_unchecked bs (offset + 52)) (\<lambda>rd_count.
     (let img = image st;
          sm = (summary img)\<lparr>load_config_rva := lc_rva, load_config_size := lc_size,
                 chpe_metadata_rva := rva, chpe_metadata_version := version\<rparr>
      in Inr (st\<lparr>image := img\<lparr>summary := sm\<rparr>\<rparr>,
              \<lparr>fld_version = version, code_map_rva = cm_rva, code_map_count = cm_count,
               entry_ranges_rva = er_rva, redirections_rva = rd_rva, fld_entry_range_count = er_count,
               fld_redirection_count = rd_count\<rparr>))))))))))))))))))))))))"

text \<open>\<open>sizeof\<close> of the three records is 12, 12 and 8 bytes.\<close>

definition allocate_metadata_arrays ::
  "(pe_block \<Rightarrow> bool) \<Rightarrow> parser_state \<Rightarrow> chpe_metadata_fields \<Rightarrow> pe_fault + parser_state" where
  "allocate_metadata_arrays alloc st f =
    rbind (require (\<not> (code_map_count f > max_code_ranges (options st) \<or>
                       fld_entry_range_count f > max_entry_ranges (options st) \<or>
                       fld_redirection_count f > max_redirections (options st))) GEM_PE_ERROR_LIMIT_EXCEEDED) (\<lambda>_.
    (case (checked_mul (ucast (code_map_count f)) 12, checked_mul (ucast (fld_entry_range_count f)) 12,
           checked_mul (ucast (fld_redirection_count f)) 8) of
       (Some code_bytes, Some entry_bytes, Some redirection_bytes) \<Rightarrow>
        (case Option.bind (checked_add code_bytes entry_bytes) (\<lambda>metadata_bytes. checked_add metadata_bytes redirection_bytes) of
           None \<Rightarrow> Inl (Status GEM_PE_ERROR_OVERFLOW)
         | Some metadata_bytes \<Rightarrow>
            rbind (require (\<not> metadata_bytes > GEM_PE_ARM64X_DEFAULT_MAX_METADATA_BYTES) GEM_PE_ERROR_LIMIT_EXCEEDED) (\<lambda>_.
            rbind (require ((code_map_count f \<noteq> 0 \<longrightarrow> alloc Code_block) \<and>
                            (fld_entry_range_count f \<noteq> 0 \<longrightarrow> alloc Entry_block) \<and>
                            (fld_redirection_count f \<noteq> 0 \<longrightarrow> alloc Redirection_block)) GEM_PE_ERROR_LIMIT_EXCEEDED) (\<lambda>_.
            (let img = image st;
                 sm = (summary img)\<lparr>code_range_count := ucast (code_map_count f),
                        entry_range_count := ucast (fld_entry_range_count f),
                        redirection_count := ucast (fld_redirection_count f)\<rparr>
             in Inr (st\<lparr>image := img\<lparr>summary := sm\<rparr>\<rparr>)))))
     | _ \<Rightarrow> Inl (Status GEM_PE_ERROR_OVERFLOW)))"

section \<open>The three tables\<close>

definition table_file_span :: "parser_state \<Rightarrow> u32 \<Rightarrow> u32 \<Rightarrow> u32 \<Rightarrow> gem_pe_status + size_t" where
  "table_file_span st rva count record_size =
    (if count = 0 then Inr 0
     else if rva = 0 then Inl GEM_PE_ERROR_BAD_CHPE_METADATA
     else (case checked_mul (ucast count :: size_t) (ucast record_size) of
         None \<Rightarrow> Inl GEM_PE_ERROR_OVERFLOW
       | Some table_size \<Rightarrow>
          (if table_size > 0xFFFFFFFF then Inl GEM_PE_ERROR_OVERFLOW
           else rva_to_parser_offset st rva (ucast table_size))))"

definition table_offset :: "parser_state \<Rightarrow> u32 \<Rightarrow> u32 \<Rightarrow> u32 \<Rightarrow> pe_fault + size_t" where
  "table_offset st rva count record_size = (case table_file_span st rva count record_size of
       Inl s \<Rightarrow> Inl (Status (if s = GEM_PE_ERROR_OVERFLOW then s else GEM_PE_ERROR_BAD_CHPE_METADATA))
     | Inr offset \<Rightarrow> Inr offset)"

definition parse_code_record ::
  "parser_state \<Rightarrow> size_t \<Rightarrow> gem_pe_arm64x_code_range option \<Rightarrow> pe_fault + gem_pe_arm64x_code_range" where
  "parse_code_record st offset prev =
    rbind (read_u32le_unchecked (st_bytes st) offset) (\<lambda>start_offset.
    rbind (read_u32le_unchecked (st_bytes st) (offset + 4)) (\<lambda>len.
    (let type = start_offset AND 3; start = start_offset AND NOT 3; img = image st in
     rbind (require (\<not> (len = 0 \<or> type = 3)) GEM_PE_ERROR_BAD_CHPE_METADATA) (\<lambda>_.
     (case checked_add start len of
        None \<Rightarrow> Inl (Status GEM_PE_ERROR_BAD_CHPE_METADATA)
      | Some e \<Rightarrow>
         rbind (require (\<not> e > size_of_image (summary img)) GEM_PE_ERROR_BAD_CHPE_METADATA) (\<lambda>_.
         rbind (case prev of
                  None \<Rightarrow> Inr ()
                | Some p \<Rightarrow>
                   rbind (require (\<not> start < code_start_rva p) GEM_PE_ERROR_UNSORTED_RANGES) (\<lambda>_.
                   require (\<not> start < code_end_rva p) GEM_PE_ERROR_OVERLAPPING_RANGES)) (\<lambda>_.
         rbind (require (case (find_section_for_span img start 1, find_section_for_span img (e - 1) 1) of
                    (Some (first_section, _), Some (last_section, _)) \<Rightarrow>
                      section_is_executable first_section \<and> section_is_executable last_section
                  | _ \<Rightarrow> False) GEM_PE_ERROR_BAD_CHPE_METADATA) (\<lambda>_.
         Inr \<lparr>code_start_rva = start, code_end_rva = e, code_isa = code_type_to_class type\<rparr>))))))))"

fun parse_code_records ::
  "parser_state \<Rightarrow> size_t \<Rightarrow> nat \<Rightarrow> nat \<Rightarrow> gem_pe_arm64x_code_range option \<Rightarrow> pe_fault + gem_pe_arm64x_code_range list" where
  "parse_code_records st table i 0 prev = Inr []"
| "parse_code_records st table i (Suc k) prev =
    rbind (parse_code_record st (table + of_nat i * 8) prev) (\<lambda>r.
    rbind (parse_code_records st table (Suc i) k (Some r)) (\<lambda>rs.
    Inr (r # rs)))"

definition parse_code_map :: "parser_state \<Rightarrow> chpe_metadata_fields \<Rightarrow> pe_fault + parser_state" where
  "parse_code_map st f =
    rbind (table_offset st (code_map_rva f) (code_map_count f) 8) (\<lambda>table.
    rbind (parse_code_records st table 0 (unat (code_map_count f)) None) (\<lambda>rs.
    Inr (st\<lparr>image := (image st)\<lparr>code_ranges := rs\<rparr>\<rparr>)))"

definition parse_entry_record ::
  "parser_state \<Rightarrow> size_t \<Rightarrow> gem_pe_arm64x_entry_range option \<Rightarrow> pe_fault + gem_pe_arm64x_entry_range" where
  "parse_entry_record st offset prev =
    rbind (read_u32le_unchecked (st_bytes st) offset) (\<lambda>start.
    rbind (read_u32le_unchecked (st_bytes st) (offset + 4)) (\<lambda>e.
    rbind (read_u32le_unchecked (st_bytes st) (offset + 8)) (\<lambda>entry.
    rbind (require (\<not> (start \<ge> e \<or> e > size_of_image (summary (image st)) \<or> entry < start \<or> entry \<ge> e))
             GEM_PE_ERROR_BAD_CHPE_METADATA) (\<lambda>_.
    rbind (case prev of
             None \<Rightarrow> Inr ()
           | Some p \<Rightarrow>
              rbind (require (\<not> start < entry_start_rva p) GEM_PE_ERROR_UNSORTED_RANGES) (\<lambda>_.
              require (\<not> start < entry_end_rva p) GEM_PE_ERROR_OVERLAPPING_RANGES)) (\<lambda>_.
    rbind (require (code_range_contains_class (image st) start e GEM_PE_RVA_X64)
             GEM_PE_ERROR_BAD_CHPE_METADATA) (\<lambda>_.
    Inr \<lparr>entry_start_rva = start, entry_end_rva = e, entry_point_rva = entry\<rparr>))))))"

fun parse_entry_records ::
  "parser_state \<Rightarrow> size_t \<Rightarrow> nat \<Rightarrow> nat \<Rightarrow> gem_pe_arm64x_entry_range option \<Rightarrow> pe_fault + gem_pe_arm64x_entry_range list" where
  "parse_entry_records st table i 0 prev = Inr []"
| "parse_entry_records st table i (Suc k) prev =
    rbind (parse_entry_record st (table + of_nat i * 12) prev) (\<lambda>r.
    rbind (parse_entry_records st table (Suc i) k (Some r)) (\<lambda>rs.
    Inr (r # rs)))"

definition parse_entry_ranges :: "parser_state \<Rightarrow> chpe_metadata_fields \<Rightarrow> pe_fault + parser_state" where
  "parse_entry_ranges st f =
    rbind (table_offset st (entry_ranges_rva f) (fld_entry_range_count f) 12) (\<lambda>table.
    rbind (parse_entry_records st table 0 (unat (fld_entry_range_count f)) None) (\<lambda>rs.
    Inr (st\<lparr>image := (image st)\<lparr>entry_ranges := rs\<rparr>\<rparr>)))"

definition parse_redirection_record ::
  "parser_state \<Rightarrow> size_t \<Rightarrow> gem_pe_arm64x_redirection option \<Rightarrow> pe_fault + gem_pe_arm64x_redirection" where
  "parse_redirection_record st offset prev =
    rbind (read_u32le_unchecked (st_bytes st) offset) (\<lambda>source.
    rbind (read_u32le_unchecked (st_bytes st) (offset + 4)) (\<lambda>destination.
    rbind (require (\<not> (source \<ge> size_of_image (summary (image st)) \<or> destination \<ge> size_of_image (summary (image st))))
             GEM_PE_ERROR_BAD_CHPE_METADATA) (\<lambda>_.
    rbind (case prev of
             None \<Rightarrow> Inr ()
           | Some p \<Rightarrow>
              rbind (require (\<not> source < source_rva p) GEM_PE_ERROR_UNSORTED_RANGES) (\<lambda>_.
              require (source \<noteq> source_rva p) GEM_PE_ERROR_OVERLAPPING_RANGES)) (\<lambda>_.
    Inr \<lparr>source_rva = source, destination_rva = destination\<rparr>))))"

fun parse_redirection_records ::
  "parser_state \<Rightarrow> size_t \<Rightarrow> nat \<Rightarrow> nat \<Rightarrow> gem_pe_arm64x_redirection option \<Rightarrow> pe_fault + gem_pe_arm64x_redirection list" where
  "parse_redirection_records st table i 0 prev = Inr []"
| "parse_redirection_records st table i (Suc k) prev =
    rbind (parse_redirection_record st (table + of_nat i * 8) prev) (\<lambda>r.
    rbind (parse_redirection_records st table (Suc i) k (Some r)) (\<lambda>rs.
    Inr (r # rs)))"

definition parse_redirections :: "parser_state \<Rightarrow> chpe_metadata_fields \<Rightarrow> pe_fault + parser_state" where
  "parse_redirections st f =
    rbind (table_offset st (redirections_rva f) (fld_redirection_count f) 8) (\<lambda>table.
    rbind (parse_redirection_records st table 0 (unat (fld_redirection_count f)) None) (\<lambda>rs.
    Inr (st\<lparr>image := (image st)\<lparr>redirections := rs\<rparr>\<rparr>)))"

section \<open>Parsing an image\<close>

definition empty_image :: "size_t \<Rightarrow> gem_pe_arm64x_image" where
  "empty_image n = \<lparr>summary = \<lparr>machine = 0, section_count = 0, image_base = 0, size_of_image = 0,
      sum_size_of_headers = 0, address_of_entry_point = 0, load_config_rva = 0, load_config_size = 0,
      chpe_metadata_rva = 0, chpe_metadata_version = 0, code_range_count = 0, entry_range_count = 0,
      redirection_count = 0\<rparr>, img_byte_count = n, size_of_headers = 0, sections = [], code_ranges = [],
      entry_ranges = [], redirections = []\<rparr>"

text \<open>A null \<open>bytes\<close> pointer is \<open>None\<close>; \<open>out\<close> is false for a null \<open>out_image\<close>.\<close>

definition parse_image :: "(pe_block \<Rightarrow> bool) \<Rightarrow> byte_string option \<Rightarrow> size_t \<Rightarrow> u64 \<Rightarrow> bool
    \<Rightarrow> gem_pe_arm64x_parse_options option \<Rightarrow> bool \<Rightarrow> pe_fault + gem_pe_arm64x_image" where
  "parse_image alloc bytes n base mapped opts out =
    rbind (require out GEM_PE_ERROR_INVALID_ARGUMENT) (\<lambda>_.
    (case bytes of
       None \<Rightarrow> Inl (Status GEM_PE_ERROR_INVALID_ARGUMENT)
     | Some bs \<Rightarrow>
        rbind (require (\<not> (n = 0 \<or> (mapped \<and> base = 0))) GEM_PE_ERROR_INVALID_ARGUMENT) (\<lambda>_.
        rbind (copy_options opts) (\<lambda>opts.
        rbind (require (alloc Image_block) GEM_PE_ERROR_LIMIT_EXCEEDED) (\<lambda>_.
        rbind (parse_headers alloc \<lparr>st_bytes = bs, byte_count = n, loaded_base = base, mapped_image = mapped,
                 options = opts, image = empty_image n\<rparr>) (\<lambda>(st, dir_offset).
        rbind (parse_load_config_and_chpe st dir_offset) (\<lambda>(st, f).
        rbind (allocate_metadata_arrays alloc st f) (\<lambda>st.
        rbind (parse_code_map st f) (\<lambda>st.
        rbind (parse_entry_ranges st f) (\<lambda>st.
        rbind (parse_redirections st f) (\<lambda>st.
        Inr (image st))))))))))))"

definition gem_pe_arm64x_parse where
  "gem_pe_arm64x_parse alloc bytes n opts out = parse_image alloc bytes n 0 False opts out"

definition gem_pe_arm64x_parse_mapped where
  "gem_pe_arm64x_parse_mapped alloc bytes n base opts out = parse_image alloc bytes n base True opts out"

section \<open>Copies and queries\<close>

text \<open>One \<open>GEM_CLONE_ARRAY\<close>: \<open>k\<close> elements of \<open>w\<close> bytes.\<close>

definition clone_array :: "bool \<Rightarrow> size_t \<Rightarrow> size_t \<Rightarrow> 'a list \<Rightarrow> gem_pe_status + 'a list" where
  "clone_array ok k w xs =
    (if k = 0 then Inr []
     else (case checked_mul k w of
         None \<Rightarrow> Inl GEM_PE_ERROR_OVERFLOW
       | Some _ \<Rightarrow> if ok then Inr (take (unat k) xs) else Inl GEM_PE_ERROR_LIMIT_EXCEEDED))"

definition gem_pe_arm64x_image_clone ::
  "(pe_block \<Rightarrow> bool) \<Rightarrow> gem_pe_arm64x_image option \<Rightarrow> bool \<Rightarrow> gem_pe_status + gem_pe_arm64x_image" where
  "gem_pe_arm64x_image_clone alloc io out = (case io of
       None \<Rightarrow> Inl GEM_PE_ERROR_INVALID_ARGUMENT
     | Some img \<Rightarrow>
        (if \<not> out then Inl GEM_PE_ERROR_INVALID_ARGUMENT
         else if \<not> alloc Image_block then Inl GEM_PE_ERROR_LIMIT_EXCEEDED
         else rbind (clone_array (alloc Section_block) (ucast (section_count (summary img))) 20 (sections img)) (\<lambda>ss.
              rbind (clone_array (alloc Code_block) (code_range_count (summary img)) 12 (code_ranges img)) (\<lambda>cs.
              rbind (clone_array (alloc Entry_block) (entry_range_count (summary img)) 12 (entry_ranges img)) (\<lambda>es.
              rbind (clone_array (alloc Redirection_block) (redirection_count (summary img)) 8 (redirections img)) (\<lambda>rs.
              Inr \<lparr>summary = summary img, img_byte_count = img_byte_count img, size_of_headers = size_of_headers img,
                   sections = ss, code_ranges = cs, entry_ranges = es, redirections = rs\<rparr>))))))"

definition gem_pe_arm64x_get_summary ::
  "gem_pe_arm64x_image option \<Rightarrow> bool \<Rightarrow> gem_pe_status + gem_pe_arm64x_summary" where
  "gem_pe_arm64x_get_summary io out = (case io of
       Some img \<Rightarrow> if out then Inr (summary img) else Inl GEM_PE_ERROR_INVALID_ARGUMENT
     | None \<Rightarrow> Inl GEM_PE_ERROR_INVALID_ARGUMENT)"

definition gem_pe_arm64x_section_count :: "gem_pe_arm64x_image option \<Rightarrow> size_t" where
  "gem_pe_arm64x_section_count io = (case io of None \<Rightarrow> 0 | Some img \<Rightarrow> ucast (section_count (summary img)))"

definition gem_pe_arm64x_code_range_count :: "gem_pe_arm64x_image option \<Rightarrow> size_t" where
  "gem_pe_arm64x_code_range_count io = (case io of None \<Rightarrow> 0 | Some img \<Rightarrow> code_range_count (summary img))"

definition gem_pe_arm64x_entry_range_count :: "gem_pe_arm64x_image option \<Rightarrow> size_t" where
  "gem_pe_arm64x_entry_range_count io = (case io of None \<Rightarrow> 0 | Some img \<Rightarrow> entry_range_count (summary img))"

definition gem_pe_arm64x_redirection_count :: "gem_pe_arm64x_image option \<Rightarrow> size_t" where
  "gem_pe_arm64x_redirection_count io = (case io of None \<Rightarrow> 0 | Some img \<Rightarrow> redirection_count (summary img))"

text \<open>The array accesses of the getters; an index past the array is \<open>Out_of_bounds\<close>.\<close>

definition array_get :: "'a list \<Rightarrow> size_t \<Rightarrow> pe_fault + 'a" where
  "array_get xs i = (if unat i < length xs then Inr (xs ! unat i) else Inl Out_of_bounds)"

definition gem_pe_arm64x_get_section ::
  "gem_pe_arm64x_image option \<Rightarrow> size_t \<Rightarrow> bool \<Rightarrow> pe_fault + gem_pe_arm64x_section" where
  "gem_pe_arm64x_get_section io i out = (case io of
       None \<Rightarrow> Inl (Status GEM_PE_ERROR_INVALID_ARGUMENT)
     | Some img \<Rightarrow>
        rbind (require (out \<and> \<not> i \<ge> ucast (section_count (summary img))) GEM_PE_ERROR_INVALID_ARGUMENT) (\<lambda>_.
        rbind (array_get (sections img) i) (\<lambda>s.
        Inr \<lparr>out_virtual_address = virtual_address s, out_virtual_size = virtual_size s,
             out_raw_size = raw_size s, out_characteristics = characteristics s\<rparr>)))"

definition gem_pe_arm64x_get_code_range ::
  "gem_pe_arm64x_image option \<Rightarrow> size_t \<Rightarrow> bool \<Rightarrow> pe_fault + gem_pe_arm64x_code_range" where
  "gem_pe_arm64x_get_code_range io i out = (case io of
       None \<Rightarrow> Inl (Status GEM_PE_ERROR_INVALID_ARGUMENT)
     | Some img \<Rightarrow>
        rbind (require out GEM_PE_ERROR_INVALID_ARGUMENT) (\<lambda>_.
        rbind (require (\<not> i \<ge> code_range_count (summary img)) GEM_PE_ERROR_INVALID_ARGUMENT) (\<lambda>_.
        array_get (code_ranges img) i)))"

definition gem_pe_arm64x_get_entry_range ::
  "gem_pe_arm64x_image option \<Rightarrow> size_t \<Rightarrow> bool \<Rightarrow> pe_fault + gem_pe_arm64x_entry_range" where
  "gem_pe_arm64x_get_entry_range io i out = (case io of
       None \<Rightarrow> Inl (Status GEM_PE_ERROR_INVALID_ARGUMENT)
     | Some img \<Rightarrow>
        rbind (require out GEM_PE_ERROR_INVALID_ARGUMENT) (\<lambda>_.
        rbind (require (\<not> i \<ge> entry_range_count (summary img)) GEM_PE_ERROR_INVALID_ARGUMENT) (\<lambda>_.
        array_get (entry_ranges img) i)))"

definition gem_pe_arm64x_get_redirection ::
  "gem_pe_arm64x_image option \<Rightarrow> size_t \<Rightarrow> bool \<Rightarrow> pe_fault + gem_pe_arm64x_redirection" where
  "gem_pe_arm64x_get_redirection io i out = (case io of
       None \<Rightarrow> Inl (Status GEM_PE_ERROR_INVALID_ARGUMENT)
     | Some img \<Rightarrow>
        rbind (require out GEM_PE_ERROR_INVALID_ARGUMENT) (\<lambda>_.
        rbind (require (\<not> i \<ge> redirection_count (summary img)) GEM_PE_ERROR_INVALID_ARGUMENT) (\<lambda>_.
        array_get (redirections img) i)))"

definition gem_pe_arm64x_classify_rva ::
  "gem_pe_arm64x_image option \<Rightarrow> u32 \<Rightarrow> bool \<Rightarrow> gem_pe_status + gem_pe_arm64x_rva_info" where
  "gem_pe_arm64x_classify_rva io rva out = (case io of
       None \<Rightarrow> Inl GEM_PE_ERROR_INVALID_ARGUMENT
     | Some img \<Rightarrow>
        (if \<not> out then Inl GEM_PE_ERROR_INVALID_ARGUMENT
         else (let info = \<lparr>classification = GEM_PE_RVA_INVALID, code_map_isa = GEM_PE_RVA_INVALID, info_rva = rva,
                     containing_range_start_rva = 0, containing_range_end_rva = 0, info_entry_point_rva = 0,
                     redirection_destination_rva = 0, section_index = 0, has_entry_point = False,
                     has_redirection = False, executable_section = False\<rparr>
           in if rva \<ge> size_of_image (summary img) then Inr info
              else (let sec = find_section_for_span img rva 1;
                        code = find_code_range img rva;
                        entry = find_entry_range img rva;
                        redir = find_redirection img rva;
                        info = (case sec of None \<Rightarrow> info
                          | Some (s, i) \<Rightarrow> info\<lparr>section_index := of_nat (i + 1), executable_section := section_is_executable s\<rparr>);
                        info = (case code of None \<Rightarrow> info
                          | Some r \<Rightarrow> info\<lparr>code_map_isa := code_isa r, containing_range_start_rva := code_start_rva r,
                              containing_range_end_rva := code_end_rva r\<rparr>);
                        info = (case entry of None \<Rightarrow> info
                          | Some r \<Rightarrow>
                             (let info = info\<lparr>has_entry_point := True, info_entry_point_rva := entry_point_rva r\<rparr>
                              in if code = None then info\<lparr>containing_range_start_rva := entry_start_rva r,
                                   containing_range_end_rva := entry_end_rva r\<rparr> else info))
                    in case redir of
                         Some r \<Rightarrow> Inr (info\<lparr>has_redirection := True,
                           redirection_destination_rva := destination_rva r, classification := GEM_PE_RVA_FAST_FORWARD\<rparr>)
                       | None \<Rightarrow>
                          (if entry \<noteq> None then Inr (info\<lparr>classification := GEM_PE_RVA_THUNK\<rparr>)
                           else (case code of
                               Some r \<Rightarrow> Inr (info\<lparr>classification := code_isa r\<rparr>)
                             | None \<Rightarrow>
                                (case sec of
                                   Some (s, _) \<Rightarrow>
                                     (if \<not> section_is_executable s then Inr (info\<lparr>classification := GEM_PE_RVA_DATA\<rparr>)
                                      else Inr info)
                                 | None \<Rightarrow> Inr info)))))))"

definition gem_pe_arm64x_rva_to_file_offset ::
  "gem_pe_arm64x_image option \<Rightarrow> u32 \<Rightarrow> u32 \<Rightarrow> bool \<Rightarrow> gem_pe_status + size_t" where
  "gem_pe_arm64x_rva_to_file_offset io rva sz out = (case io of
       None \<Rightarrow> Inl GEM_PE_ERROR_INVALID_ARGUMENT
     | Some img \<Rightarrow> if out then rva_to_file_offset_internal img rva sz else Inl GEM_PE_ERROR_INVALID_ARGUMENT)"

section \<open>Names\<close>

fun gem_pe_status_name :: "gem_pe_status \<Rightarrow> string" where
  "gem_pe_status_name GEM_PE_OK = ''ok''"
| "gem_pe_status_name GEM_PE_ERROR_INVALID_ARGUMENT = ''invalid-argument''"
| "gem_pe_status_name GEM_PE_ERROR_UNSUPPORTED_FORMAT = ''unsupported-format''"
| "gem_pe_status_name GEM_PE_ERROR_TRUNCATED = ''truncated''"
| "gem_pe_status_name GEM_PE_ERROR_OVERFLOW = ''overflow''"
| "gem_pe_status_name GEM_PE_ERROR_LIMIT_EXCEEDED = ''limit-exceeded''"
| "gem_pe_status_name GEM_PE_ERROR_BAD_DOS_HEADER = ''bad-dos-header''"
| "gem_pe_status_name GEM_PE_ERROR_BAD_PE_SIGNATURE = ''bad-pe-signature''"
| "gem_pe_status_name GEM_PE_ERROR_BAD_COFF_HEADER = ''bad-coff-header''"
| "gem_pe_status_name GEM_PE_ERROR_BAD_OPTIONAL_HEADER = ''bad-optional-header''"
| "gem_pe_status_name GEM_PE_ERROR_BAD_SECTION_TABLE = ''bad-section-table''"
| "gem_pe_status_name GEM_PE_ERROR_BAD_RVA = ''bad-rva''"
| "gem_pe_status_name GEM_PE_ERROR_BAD_LOAD_CONFIG = ''bad-load-config''"
| "gem_pe_status_name GEM_PE_ERROR_NO_CHPE_METADATA = ''no-chpe-metadata''"
| "gem_pe_status_name GEM_PE_ERROR_BAD_CHPE_METADATA = ''bad-chpe-metadata''"
| "gem_pe_status_name GEM_PE_ERROR_UNSUPPORTED_CHPE_VERSION = ''unsupported-chpe-version''"
| "gem_pe_status_name GEM_PE_ERROR_UNSORTED_RANGES = ''unsorted-ranges''"
| "gem_pe_status_name GEM_PE_ERROR_OVERLAPPING_RANGES = ''overlapping-ranges''"

fun gem_pe_rva_class_name :: "gem_pe_rva_class \<Rightarrow> string" where
  "gem_pe_rva_class_name GEM_PE_RVA_INVALID = ''invalid''"
| "gem_pe_rva_class_name GEM_PE_RVA_DATA = ''data''"
| "gem_pe_rva_class_name GEM_PE_RVA_ARM64 = ''arm64''"
| "gem_pe_rva_class_name GEM_PE_RVA_ARM64EC = ''arm64ec''"
| "gem_pe_rva_class_name GEM_PE_RVA_X64 = ''x64''"
| "gem_pe_rva_class_name GEM_PE_RVA_THUNK = ''thunk''"
| "gem_pe_rva_class_name GEM_PE_RVA_FAST_FORWARD = ''fast-forward''"

end
