(* ===== verification/Gem_Pe_Props.thy ===== *)
theory Gem_Pe_Props
  imports Gem_Pe_Parser
begin

text \<open>
  What a successful parse guarantees, and that no parse reads outside the buffer. Both are
  postconditions of one kind: \<open>pe_post r P\<close> says that a step never reads out of bounds and that \<open>P\<close>
  holds of its result when it has one.
\<close>

section \<open>Postconditions\<close>

definition pe_post :: "pe_fault + 'a \<Rightarrow> ('a \<Rightarrow> bool) \<Rightarrow> bool" where
  "pe_post r P = (case r of Inl Out_of_bounds \<Rightarrow> False | Inl (Status _) \<Rightarrow> True | Inr a \<Rightarrow> P a)"

lemma post_simps [simp]:
  "pe_post (Inr a) P = P a"
  "pe_post (Inl (Status s)) P"
  "\<not> pe_post (Inl Out_of_bounds) P"
  by (simp_all add: pe_post_def)

lemma post_rbind [simp]: "pe_post (rbind r f) P = pe_post r (\<lambda>a. pe_post (f a) P)"
  by (auto simp: pe_post_def split: sum.split pe_fault.split)

lemma post_require [simp]: "pe_post (require c e) P \<longleftrightarrow> (c \<longrightarrow> P ())"
  by (simp add: require_def guard_that_def)

lemma post_or_status [simp]: "pe_post (or_status r e) P \<longleftrightarrow> (\<forall>a. r = Inr a \<longrightarrow> P a)"
  by (simp add: or_status_def split: sum.split)

lemma post_mono: "pe_post r P \<Longrightarrow> (\<And>a. P a \<Longrightarrow> Q a) \<Longrightarrow> pe_post r Q"
  by (auto simp: pe_post_def split: sum.splits pe_fault.splits)

lemma post_Inr: "pe_post r P \<Longrightarrow> r = Inr a \<Longrightarrow> P a"
  by simp

section \<open>Reads within a span\<close>

text \<open>\<open>m\<close> bytes from \<open>base\<close> lie within the first \<open>n\<close>, which the buffer has.\<close>

definition in_span :: "byte_string \<Rightarrow> size_t \<Rightarrow> size_t \<Rightarrow> nat \<Rightarrow> bool" where
  "in_span bs n base m \<longleftrightarrow> unat n \<le> length bs \<and> unat base + m \<le> unat n"

lemma in_span_offset:
  assumes "in_span bs n base m" and "unat c + k \<le> m" and "0 < k"
  shows "unat (base + c) = unat base + unat c" and "in_span bs n (base + c) k"
proof -
  have "unat n < 2 ^ 64" using unsigned_less [of n] by simp
  then have "unat base + unat c < 2 ^ 64" using assms by (simp add: in_span_def)
  then show u: "unat (base + c) = unat base + unat c" using unat_add_no_wrap [of base c] by simp
  show "in_span bs n (base + c) k" using assms by (simp add: in_span_def u)
qed

lemma read_u8_span: "in_span bs n base (Suc 0) \<Longrightarrow> \<exists>v. read_u8 bs base = Inr v"
  by (auto simp: in_span_def read_u8_def)

lemma read_u16_span:
  assumes "in_span bs n base 2"
  shows "\<exists>v. read_u16le_unchecked bs base = Inr v"
proof -
  have "\<exists>v. read_u8 bs (base + c) = Inr v" if "unat c + 1 \<le> 2" for c
    using read_u8_span [OF in_span_offset(2) [OF assms, of c 1, simplified]] that by simp
  from this [of 0] this [of 1] show ?thesis by (auto simp: read_u16le_unchecked_def)
qed

lemma read_u32_span:
  assumes "in_span bs n base 4"
  shows "\<exists>v. read_u32le_unchecked bs base = Inr v"
proof -
  have "\<exists>v. read_u8 bs (base + c) = Inr v" if "unat c + 1 \<le> 4" for c
    using read_u8_span [OF in_span_offset(2) [OF assms, of c 1, simplified]] that by simp
  from this [of 0] this [of 1] this [of 2] this [of 3] show ?thesis by (auto simp: read_u32le_unchecked_def)
qed

lemma read_u64_span:
  assumes "in_span bs n base 8"
  shows "\<exists>v. read_u64le_unchecked bs base = Inr v"
proof -
  have "\<exists>v. read_u32le_unchecked bs (base + c) = Inr v" if "unat c + 4 \<le> 8" for c
    using read_u32_span [OF in_span_offset(2) [OF assms, of c 4]] that by simp
  from this [of 0] this [of 4] show ?thesis by (auto simp: read_u64le_unchecked_def)
qed

text \<open>The reads as postconditions, at a constant distance from the start of a span.\<close>

lemma post_read_u32:
  assumes "in_span bs n base m" and "unat c + 4 \<le> m" and "\<And>v. P v"
  shows "pe_post (read_u32le_unchecked bs (base + c)) P"
  using read_u32_span [OF in_span_offset(2) [OF assms(1,2)]] assms(3) by auto

lemma post_read_u32_0:
  assumes "in_span bs n base m" and "4 \<le> m" and "\<And>v. P v"
  shows "pe_post (read_u32le_unchecked bs base) P"
  using post_read_u32 [OF assms(1), of 0] assms(2,3) by simp

lemma post_read_u16:
  assumes "in_span bs n base m" and "unat c + 2 \<le> m" and "\<And>v. P v"
  shows "pe_post (read_u16le_unchecked bs (base + c)) P"
  using read_u16_span [OF in_span_offset(2) [OF assms(1,2)]] assms(3) by auto

lemma post_read_u16_0:
  assumes "in_span bs n base m" and "2 \<le> m" and "\<And>v. P v"
  shows "pe_post (read_u16le_unchecked bs base) P"
  using post_read_u16 [OF assms(1), of 0] assms(2,3) by simp

lemma post_read_u64:
  assumes "in_span bs n base m" and "unat c + 8 \<le> m" and "\<And>v. P v"
  shows "pe_post (read_u64le_unchecked bs (base + c)) P"
  using read_u64_span [OF in_span_offset(2) [OF assms(1,2)]] assms(3) by auto

lemma post_read_u8:
  assumes "in_span bs n base m" and "unat c + 1 \<le> m" and "\<And>v. P v"
  shows "pe_post (read_u8 bs (base + c)) P"
  using read_u8_span [OF in_span_offset(2) [OF assms(1), of c 1, simplified]] assms(2,3) by auto

lemma file_span_fits_iff: "file_span_fits n off sz \<longleftrightarrow> unat off + unat sz \<le> unat n"
proof (cases "checked_add off sz")
  case None
  then have "2 ^ 64 \<le> unat off + unat sz" by (simp add: checked_add_None_iff)
  moreover have "unat n < 2 ^ 64" using unsigned_less [of n] by simp
  ultimately have "\<not> unat off + unat sz \<le> unat n" by linarith
  then show ?thesis using None by (simp add: file_span_fits_def)
next
  case (Some e)
  then have "unat e = unat off + unat sz" by (simp add: checked_add_Some_iff)
  then show ?thesis using Some by (simp add: file_span_fits_def word_le_nat_alt)
qed

lemma unat_ucast_up:
  fixes w :: "'a::len word"
  assumes "LENGTH('a) \<le> LENGTH('b)"
  shows "unat (ucast w :: 'b::len word) = unat w"
proof -
  have "unat w < 2 ^ LENGTH('a)" by (rule unsigned_less)
  also have "\<dots> \<le> 2 ^ LENGTH('b)" using assms by simp
  finally show ?thesis by (simp add: unsigned_ucast_eq take_bit_nat_eq_self)
qed

lemma ucast_unat [simp]:
  "unat (ucast (a :: u32) :: u64) = unat a" "unat (ucast (b :: u16) :: u64) = unat b" "unat (ucast (b :: u16) :: u32) = unat b"
  by (simp_all add: unat_ucast_up)

text \<open>Entry \<open>i\<close> of a table of \<open>w\<close>-byte records.\<close>

lemma table_entry_span:
  assumes t: "in_span bs n table (k * w)" and i: "i < k" and w: "w < 64" "0 < w"
  shows "in_span bs n (table + of_nat i * of_nat w) w"
proof -
  have n: "unat n < 2 ^ 64" using unsigned_less [of n] by simp
  have iw: "i * w + w \<le> k * w" using i by (metis Suc_leI mult_Suc mult_le_mono1 add.commute)
  then have lt: "i * w < 2 ^ 64" using t n by (simp add: in_span_def)
  have "i \<le> i * w" using w(2) by simp
  then have "i < 2 ^ 64" using lt by linarith
  then have "unat (of_nat i :: u64) = i" "unat (of_nat w :: u64) = w"
    using w(1) by (auto intro!: of_nat_inverse [OF refl])
  then have "unat (of_nat i * of_nat w :: u64) = i * w" using lt by (simp add: unat_word_ariths)
  then show ?thesis using in_span_offset(2) [OF t, of "of_nat i * of_nat w" w] iw w(2) by simp
qed

section \<open>Well-formed images\<close>

definition section_end :: "pe_section \<Rightarrow> nat" where
  "section_end s = unat (virtual_address s) + unat (section_virtual_extent s)"

definition section_ok :: "u32 \<Rightarrow> pe_section \<Rightarrow> bool" where
  "section_ok limit s \<longleftrightarrow> section_virtual_extent s \<noteq> 0 \<and> section_end s \<le> unat limit"

definition sections_wf :: "u32 \<Rightarrow> pe_section list \<Rightarrow> bool" where
  "sections_wf limit ss \<longleftrightarrow> (\<forall>s \<in> set ss. section_ok limit s) \<and>
     sorted_wrt (\<lambda>s t. section_end s \<le> unat (virtual_address t)) ss"

definition executable_at :: "gem_pe_arm64x_image \<Rightarrow> u32 \<Rightarrow> bool" where
  "executable_at img rva = (case find_section_for_span img rva 1 of None \<Rightarrow> False | Some (s, _) \<Rightarrow> section_is_executable s)"

definition code_ok :: "gem_pe_arm64x_image \<Rightarrow> gem_pe_arm64x_code_range \<Rightarrow> bool" where
  "code_ok img r \<longleftrightarrow> code_start_rva r < code_end_rva r \<and> code_end_rva r \<le> size_of_image (summary img) \<and>
     code_isa r \<in> {GEM_PE_RVA_ARM64, GEM_PE_RVA_ARM64EC, GEM_PE_RVA_X64} \<and>
     executable_at img (code_start_rva r) \<and> executable_at img (code_end_rva r - 1)"

definition code_wf :: "gem_pe_arm64x_image \<Rightarrow> gem_pe_arm64x_code_range list \<Rightarrow> bool" where
  "code_wf img rs \<longleftrightarrow> (\<forall>r \<in> set rs. code_ok img r) \<and> sorted_wrt (\<lambda>r t. code_end_rva r \<le> code_start_rva t) rs"

definition entry_ok :: "gem_pe_arm64x_image \<Rightarrow> gem_pe_arm64x_entry_range \<Rightarrow> bool" where
  "entry_ok img r \<longleftrightarrow> entry_start_rva r \<le> entry_point_rva r \<and> entry_point_rva r < entry_end_rva r \<and>
     entry_end_rva r \<le> size_of_image (summary img) \<and>
     code_range_contains_class img (entry_start_rva r) (entry_end_rva r) GEM_PE_RVA_X64"

definition entry_wf :: "gem_pe_arm64x_image \<Rightarrow> gem_pe_arm64x_entry_range list \<Rightarrow> bool" where
  "entry_wf img rs \<longleftrightarrow> (\<forall>r \<in> set rs. entry_ok img r) \<and> sorted_wrt (\<lambda>r t. entry_end_rva r \<le> entry_start_rva t) rs"

definition redirection_wf :: "gem_pe_arm64x_image \<Rightarrow> gem_pe_arm64x_redirection list \<Rightarrow> bool" where
  "redirection_wf img rs \<longleftrightarrow> (\<forall>r \<in> set rs. source_rva r < size_of_image (summary img) \<and>
       destination_rva r < size_of_image (summary img)) \<and> sorted_wrt (\<lambda>r t. source_rva r < source_rva t) rs"

definition image_wf :: "gem_pe_arm64x_image \<Rightarrow> bool" where
  "image_wf img \<longleftrightarrow>
     sections img \<noteq> [] \<and> length (sections img) = unat (section_count (summary img)) \<and>
     sections_wf (size_of_image (summary img)) (sections img) \<and>
     unat (size_of_headers img) \<le> unat (img_byte_count img) \<and> sum_size_of_headers (summary img) = size_of_headers img \<and>
     length (code_ranges img) = unat (code_range_count (summary img)) \<and> code_wf img (code_ranges img) \<and>
     length (entry_ranges img) = unat (entry_range_count (summary img)) \<and> entry_wf img (entry_ranges img) \<and>
     length (redirections img) = unat (redirection_count (summary img)) \<and> redirection_wf img (redirections img)"

section \<open>Sections\<close>

lemma parse_section_post:
  assumes "in_span (st_bytes st) (byte_count st) offset 40"
  shows "pe_post (parse_section st limit offset prev) (\<lambda>(s, e). section_ok limit s \<and> unat e = section_end s \<and>
    (\<forall>p pe. prev = Some (p, pe) \<longrightarrow> unat pe \<le> unat (virtual_address s)) \<and>
    (\<not> mapped_image st \<and> raw_size s \<noteq> 0 \<longrightarrow> unat (raw_pointer s) + unat (raw_size s) \<le> unat (byte_count st)))"
  unfolding parse_section_def post_rbind Let_def
  by (rule post_read_u32 [OF assms], simp)+
    (auto simp: section_ok_def section_end_def checked_add_Some_iff word_le_nat_alt not_less split: option.split prod.split)

lemma parse_sections_post:
  assumes "in_span (st_bytes st) (byte_count st) table ((i + k) * 40)"
    and "\<And>p pe. prev = Some (p, pe) \<Longrightarrow> unat pe = section_end p"
  shows "pe_post (parse_sections st limit table i k prev) (\<lambda>ss. length ss = k \<and> sections_wf limit ss \<and>
    (\<forall>p pe. prev = Some (p, pe) \<longrightarrow> (\<forall>s \<in> set ss. section_end p \<le> unat (virtual_address s))))"
  using assms
proof (induction k arbitrary: i prev)
  case (Suc k)
  have sp: "in_span (st_bytes st) (byte_count st) (table + of_nat i * 40) 40"
    using table_entry_span [OF Suc.prems(1), of i] by simp
  have ih: "pe_post (parse_sections st limit table (Suc i) k (Some (s, e))) (\<lambda>ss. length ss = k \<and> sections_wf limit ss \<and>
      (\<forall>s' \<in> set ss. section_end s \<le> unat (virtual_address s')))" if "unat (e :: u32) = section_end s" for s e
    by (rule post_mono [OF Suc.IH [of "Suc i" "Some (s, e)"]]) (use Suc.prems(1) that in auto)
  show ?case
    unfolding parse_sections.simps post_rbind
  proof (rule post_mono [OF parse_section_post [OF sp]], clarify)
    fix s :: pe_section and e :: u32
    assume s: "section_ok limit s" "unat e = section_end s"
      "\<forall>p pe. prev = Some (p, pe) \<longrightarrow> unat pe \<le> unat (virtual_address s)"
    have "unat (virtual_address s) \<le> section_end s" by (simp add: section_end_def)
    then show "pe_post (parse_sections st limit table (Suc i) k (Some (s, e))) (\<lambda>ss. pe_post (Inr (fst (s, e) # ss))
       (\<lambda>ss. length ss = Suc k \<and> sections_wf limit ss \<and>
         (\<forall>p pe. prev = Some (p, pe) \<longrightarrow> (\<forall>s \<in> set ss. section_end p \<le> unat (virtual_address s)))))"
      using s Suc.prems(2) by (intro post_mono [OF ih [OF s(2)]]) (force simp: sections_wf_def)
  qed
qed (simp add: sections_wf_def)

section \<open>Headers\<close>

lemma post_read_u8_abs:
  "in_span bs n 0 m \<Longrightarrow> unat c + 1 \<le> m \<Longrightarrow> (\<And>v. P v) \<Longrightarrow> pe_post (read_u8 bs c) P"
  using post_read_u8 [of bs n 0 m c P] by simp

lemma post_read_u32_abs:
  "in_span bs n 0 m \<Longrightarrow> unat c + 4 \<le> m \<Longrightarrow> (\<And>v. P v) \<Longrightarrow> pe_post (read_u32le_unchecked bs c) P"
  using post_read_u32 [of bs n 0 m c P] by simp

lemma post_case_option:
  "(x = None \<Longrightarrow> pe_post r P) \<Longrightarrow> (\<And>a. x = Some a \<Longrightarrow> pe_post (f a) P) \<Longrightarrow> pe_post (case x of None \<Rightarrow> r | Some a \<Rightarrow> f a) P"
  by (cases x) simp_all

lemma require_file_span_OK: "require_file_span st off sz = GEM_PE_OK \<longleftrightarrow> unat off + unat sz \<le> unat (byte_count st)"
  by (simp add: require_file_span_def file_span_fits_iff)

definition same_input :: "parser_state \<Rightarrow> parser_state \<Rightarrow> bool" where
  "same_input st st' \<longleftrightarrow> st_bytes st' = st_bytes st \<and> byte_count st' = byte_count st \<and> loaded_base st' = loaded_base st \<and>
     mapped_image st' = mapped_image st \<and> options st' = options st \<and>
     img_byte_count (image st') = img_byte_count (image st)"

lemma parse_coff_post:
  assumes bc: "unat (byte_count st) \<le> length (st_bytes st)"
  shows "pe_post (parse_coff_header st) (\<lambda>(mach, count, hsize, off). count \<noteq> 0 \<and>
    unat count \<le> unat (max_sections (options st)))"
proof -
  let ?bs = "st_bytes st" and ?n = "byte_count st"
  have h: "in_span ?bs ?n 0 64" if "\<not> ?n < 64"
    using bc that by (simp add: in_span_def not_less word_le_nat_alt)
  have c: "in_span ?bs ?n off 24" if "require_file_span st off 24 = GEM_PE_OK" for off
    using bc that by (simp add: in_span_def require_file_span_OK)
  have c4: "in_span ?bs ?n (off + 4) 20" if "require_file_span st off 24 = GEM_PE_OK" for off
    using in_span_offset(2) [OF c [OF that], of 4 20] by simp
  show ?thesis
    unfolding parse_coff_header_def Let_def post_rbind post_require
    by (intro impI, rule post_read_u8_abs [OF h], assumption, simp, rule post_read_u8_abs [OF h], assumption, simp,
        intro impI, rule post_read_u32_abs [OF h], assumption, simp,
        intro impI, rule post_read_u32_0 [OF c], assumption, simp,
        intro impI, rule post_read_u16_0 [OF c4], assumption, simp,
        rule post_read_u16 [OF c4], assumption, simp, rule post_read_u16 [OF c4], assumption, simp)
      (simp add: word_le_nat_alt)
qed

lemma parse_optional_post:
  assumes bc: "unat (byte_count st) \<le> length (st_bytes st)"
  shows "pe_post (parse_optional_header st off hsize) (\<lambda>(table, entry, base, image_size, header_size).
    200 \<le> unat hsize \<and> unat table = unat off + unat hsize \<and> unat table \<le> unat (byte_count st) \<and>
    unat header_size \<le> unat (byte_count st) \<and> (mapped_image st \<longrightarrow> unat image_size \<le> unat (byte_count st)))"
proof -
  let ?bs = "st_bytes st" and ?n = "byte_count st"
  have h: "in_span ?bs ?n off 200" if "require_file_span st off (ucast hsize) = GEM_PE_OK" "\<not> hsize < 200"
    using bc that by (simp add: in_span_def require_file_span_OK not_less word_le_nat_alt)
  show ?thesis
    unfolding parse_optional_header_def Let_def
    by (intro post_case_option, simp, unfold post_rbind post_require,
        intro impI, rule post_read_u16_0 [OF h], assumption+, simp,
        intro impI, rule post_read_u32 [OF h], assumption+, simp, rule post_read_u64 [OF h], assumption+, simp,
        rule post_read_u32 [OF h], assumption+, simp, rule post_read_u32 [OF h], assumption+, simp,
        rule post_read_u32 [OF h], assumption+, simp, rule post_read_u32 [OF h], assumption+, simp,
        rule post_read_u32 [OF h], assumption+, simp)
      (auto simp: word_le_nat_alt not_less checked_add_Some_iff require_file_span_OK)
qed

definition headers_ok :: "parser_state \<Rightarrow> bool" where
  "headers_ok st \<longleftrightarrow> (let img = image st; limit = size_of_image (summary img) in
     sections img \<noteq> [] \<and> length (sections img) = unat (section_count (summary img)) \<and> sections_wf limit (sections img) \<and>
     unat (section_count (summary img)) \<le> unat (max_sections (options st)) \<and>
     unat (size_of_headers img) \<le> unat (byte_count st) \<and> sum_size_of_headers (summary img) = size_of_headers img \<and>
     (mapped_image st \<longrightarrow> unat limit \<le> unat (byte_count st)))"

lemma parse_section_table_post:
  assumes bc: "unat (byte_count st) \<le> length (st_bytes st)"
    and count: "count \<noteq> 0" "unat count \<le> unat (max_sections (options st))"
    and size: "unat header_size \<le> unat (byte_count st)" "mapped_image st \<longrightarrow> unat image_size \<le> unat (byte_count st)"
  shows "pe_post (parse_section_table alloc st mach count (table, entry, base, image_size, header_size))
    (\<lambda>st'. same_input st st' \<and> headers_ok st')"
proof -
  have sp: "in_span (st_bytes st) (byte_count st) table ((0 + unat count) * 40)"
    if "checked_mul (ucast count) 40 = Some z" "file_span_fits (byte_count st) table z" for z
    using bc that checked_mul_Some [OF that(1)] by (simp add: in_span_def file_span_fits_iff)
  have pos: "0 < unat count" using count(1) by (simp add: unat_gt_0)
  have "pe_post (parse_sections st image_size table 0 (unat count) None) (\<lambda>ss. same_input st (st' ss) \<and> headers_ok (st' ss))"
    if "checked_mul (ucast count) 40 = Some z" "file_span_fits (byte_count st) table z"
       "\<And>ss. st' ss = st\<lparr>image := (image st)\<lparr>summary := (summary (image st))\<lparr>address_of_entry_point := entry,
          image_base := base, size_of_image := image_size, sum_size_of_headers := header_size, machine := mach,
          section_count := count\<rparr>, size_of_headers := header_size, sections := ss\<rparr>\<rparr>" for z st'
    by (rule post_mono [OF parse_sections_post [OF sp [OF that(1,2)]]])
      (use pos count(2) size in \<open>auto simp: same_input_def headers_ok_def Let_def that(3)\<close>)
  then show ?thesis by (simp add: parse_section_table_def Let_def split: option.split)
qed

lemma parse_headers_post:
  assumes bc: "unat (byte_count st) \<le> length (st_bytes st)"
  shows "pe_post (parse_headers alloc st) (\<lambda>(st', dir). same_input st st' \<and> headers_ok st' \<and>
    in_span (st_bytes st') (byte_count st') dir 8)"
proof -
  have dir: "in_span (st_bytes st) (byte_count st) (off + 112 + 80) 8"
    if "200 \<le> unat (hsize :: u16)" "unat off + unat hsize \<le> unat (byte_count st)" for off hsize
  proof -
    have "in_span (st_bytes st) (byte_count st) off 200" using bc that by (simp add: in_span_def)
    from in_span_offset(2) [OF this, of 192 8] show ?thesis by (simp add: add.assoc)
  qed
  have tail: "pe_post (rbind (parse_section_table alloc st mach count header) (\<lambda>st'. Inr (st', off + 112 + 80)))
      (\<lambda>(st', dir). same_input st st' \<and> headers_ok st' \<and> in_span (st_bytes st') (byte_count st') dir 8)"
    if "count \<noteq> 0" "unat count \<le> unat (max_sections (options st))"
      "case header of (table, entry, base, image_size, header_size) \<Rightarrow>
        200 \<le> unat (hsize :: u16) \<and> unat table = unat off + unat hsize \<and> unat table \<le> unat (byte_count st) \<and>
        unat header_size \<le> unat (byte_count st) \<and> (mapped_image st \<longrightarrow> unat image_size \<le> unat (byte_count st))"
    for mach count header off hsize
  proof -
    obtain table entry base image_size header_size where h: "header = (table, entry, base, image_size, header_size)"
      by (cases header)
    show ?thesis unfolding h post_rbind
      by (rule post_mono [OF parse_section_table_post [OF bc that(1,2)]])
        (use that(3) dir [of hsize off] h in \<open>auto simp: same_input_def\<close>)
  qed
  show ?thesis
    unfolding parse_headers_def post_rbind [where r = "parse_coff_header st"]
    by (rule post_mono [OF parse_coff_post [OF bc]], clarify, unfold post_rbind [where r = "parse_optional_header _ _ _"],
        rule post_mono [OF parse_optional_post [OF bc]], rule tail)
qed

section \<open>Addresses in the file\<close>

lemma rva_to_file_offset_span:
  assumes "rva_to_file_offset_internal img rva sz = Inr off"
  shows "sz \<noteq> 0" and "unat off + unat sz \<le> unat (img_byte_count img)" and
    "unat rva + unat sz \<le> unat (size_of_image (summary img))"
proof -
  have sz: "sz \<noteq> 0" and fit: "rva_add_fits_image rva sz (size_of_image (summary img))"
    using assms by (auto simp: rva_to_file_offset_internal_def split: if_splits)
  obtain e where e: "checked_add rva sz = Some e" "e \<le> size_of_image (summary img)"
    using fit by (auto simp: rva_add_fits_image_def split: option.splits)
  have ue: "unat e = unat rva + unat sz" using e(1) by (simp add: checked_add_Some_iff)
  show "sz \<noteq> 0" by (rule sz)
  show "unat rva + unat sz \<le> unat (size_of_image (summary img))" using e(2) ue by (simp add: word_le_nat_alt)
  show "unat off + unat sz \<le> unat (img_byte_count img)"
  proof (cases "rva < size_of_headers img \<and> e \<le> size_of_headers img \<and> ucast e \<le> img_byte_count img")
    case True
    then have "off = ucast rva" using assms sz fit e(1) by (auto simp: rva_to_file_offset_internal_def)
    then show ?thesis using True ue by (simp add: word_le_nat_alt)
  next
    case False
    then show ?thesis using assms sz fit e(1)
      by (auto simp: rva_to_file_offset_internal_def Let_def file_span_fits_iff split: option.splits if_splits)
  qed
qed

lemma rva_to_parser_offset_span:
  assumes "rva_to_parser_offset st rva sz = Inr off" and "unat (byte_count st) \<le> length (st_bytes st)"
    and "img_byte_count (image st) = byte_count st"
  shows "in_span (st_bytes st) (byte_count st) off (unat sz)"
proof (cases "mapped_image st")
  case False
  then show ?thesis using assms rva_to_file_offset_span(2) [of "image st" rva sz off]
    by (simp add: rva_to_parser_offset_def in_span_def)
next
  case True
  then obtain e where "checked_add rva sz = Some e" "ucast e \<le> byte_count st" "off = ucast rva"
    using assms(1) by (auto simp: rva_to_parser_offset_def not_less split: option.splits if_splits)
  then show ?thesis using assms(2) by (simp add: in_span_def checked_add_Some_iff word_le_nat_alt)
qed

section \<open>Metadata\<close>

definition parsing :: "parser_state \<Rightarrow> bool" where
  "parsing st \<longleftrightarrow> unat (byte_count st) \<le> length (st_bytes st) \<and> img_byte_count (image st) = byte_count st"

lemma parse_chpe_post:
  assumes st: "parsing st" and dir: "in_span (st_bytes st) (byte_count st) dir 8"
  shows "pe_post (parse_load_config_and_chpe st dir) (\<lambda>(st', f). same_input st st' \<and>
    (\<exists>a b c d. image st' = (image st)\<lparr>summary := (summary (image st))\<lparr>load_config_rva := a, load_config_size := b,
       chpe_metadata_rva := c, chpe_metadata_version := d\<rparr>\<rparr>))"
proof -
  have off: "in_span (st_bytes st) (byte_count st) off (unat sz)" if "rva_to_parser_offset st rva sz = Inr off" for rva sz off
    using rva_to_parser_offset_span [OF that] st by (simp add: parsing_def)
  have lc: "in_span (st_bytes st) (byte_count st) off 208" if "rva_to_parser_offset st rva PE_LOAD_CONFIG_CHPE_POINTER_END = Inr off" for rva off
    using off [OF that] by (simp add: PE_LOAD_CONFIG_CHPE_POINTER_END_def)
  have ver: "in_span (st_bytes st) (byte_count st) off 4" if "rva_to_parser_offset st rva 4 = Inr off" for rva off
    using off [OF that] by simp
  have md: "in_span (st_bytes st) (byte_count st) off 80"
    if "rva_to_parser_offset st rva (if v = 1 then 80 else 92) = Inr off" for rva v off
    using off [OF that] by (auto simp: in_span_def split: if_splits)
  show ?thesis
    unfolding parse_load_config_and_chpe_def Let_def post_rbind post_require post_or_status
    by (rule post_read_u32_0 [OF dir], simp, rule post_read_u32 [OF dir], simp, intro impI allI,
        rule post_read_u32_0 [OF lc], assumption, simp, intro impI, rule post_read_u64 [OF lc], assumption, simp,
        intro impI allI, rule post_read_u32_0 [OF ver], assumption, simp, intro impI allI,
        rule post_read_u32 [OF md], assumption, simp, rule post_read_u32 [OF md], assumption, simp,
        rule post_read_u32 [OF md], assumption, simp, rule post_read_u32 [OF md], assumption, simp,
        rule post_read_u32 [OF md], assumption, simp, rule post_read_u32 [OF md], assumption, simp)
      (auto simp: same_input_def)
qed

lemma allocate_post:
  "pe_post (allocate_metadata_arrays alloc st f) (\<lambda>st'. same_input st st' \<and>
    image st' = (image st)\<lparr>summary := (summary (image st))\<lparr>code_range_count := ucast (code_map_count f),
      entry_range_count := ucast (fld_entry_range_count f), redirection_count := ucast (fld_redirection_count f)\<rparr>\<rparr> \<and>
    unat (code_map_count f) \<le> unat (max_code_ranges (options st)) \<and>
    unat (fld_entry_range_count f) \<le> unat (max_entry_ranges (options st)) \<and>
    unat (fld_redirection_count f) \<le> unat (max_redirections (options st)))"
  by (auto simp: allocate_metadata_arrays_def same_input_def Let_def word_le_nat_alt not_less split: option.split)

lemma table_offset_span:
  assumes st: "parsing st" and t: "table_offset st rva count w = Inr off"
  shows "in_span (st_bytes st) (byte_count st) off (unat count * unat w)"
proof (cases "count = 0")
  case True
  then show ?thesis using t st by (auto simp: table_offset_def table_file_span_def in_span_def parsing_def)
next
  case False
  then obtain z where z: "checked_mul (ucast count :: size_t) (ucast w) = Some z" "\<not> z > 0xFFFFFFFF"
      "rva_to_parser_offset st rva (ucast z) = Inr off"
    using t by (auto simp: table_offset_def table_file_span_def split: option.splits if_splits sum.splits)
  have "unat z = unat count * unat w" using checked_mul_Some [OF z(1)] by simp
  moreover have "unat z < 2 ^ 32" using z(2) by (simp add: not_less word_le_nat_alt)
  then have "unat (ucast z :: u32) = unat z" by (simp add: unsigned_ucast_eq take_bit_nat_eq_self)
  ultimately show ?thesis using rva_to_parser_offset_span [OF z(3)] st by (simp add: parsing_def)
qed

lemma post_table_offset:
  assumes "parsing st" and "\<And>off. in_span (st_bytes st) (byte_count st) off (unat count * unat w) \<Longrightarrow> P off"
  shows "pe_post (table_offset st rva count w) P"
proof (cases "table_offset st rva count w")
  case (Inl e)
  then show ?thesis by (auto simp: table_offset_def split: sum.splits)
next
  case (Inr off)
  then show ?thesis using assms(2) table_offset_span [OF assms(1) Inr] by simp
qed

section \<open>The tables\<close>

lemma code_type_classes:
  "t AND 3 \<noteq> (3 :: u32) \<Longrightarrow> code_type_to_class (t AND 3) \<in> {GEM_PE_RVA_ARM64, GEM_PE_RVA_ARM64EC, GEM_PE_RVA_X64}"
proof -
  have "unat (t AND 3) = unat t mod 4"
  proof -
    have "t AND 3 = take_bit 2 t" by (simp add: take_bit_eq_mask mask_eq_exp_minus_1)
    then show ?thesis by (simp add: take_bit_eq_mod unat_mod)
  qed
  moreover have "unat t mod 4 = 0 \<or> unat t mod 4 = 1 \<or> unat t mod 4 = 2 \<or> unat t mod 4 = 3" by arith
  ultimately have "t AND 3 = 0 \<or> t AND 3 = 1 \<or> t AND 3 = 2 \<or> t AND 3 = 3"
    by (auto simp: word_unat_eq_iff)
  moreover assume "t AND 3 \<noteq> (3 :: u32)"
  ultimately show ?thesis by (auto simp: code_type_to_class_def)
qed

lemma checked_add_less: "checked_add a b = Some e \<Longrightarrow> b \<noteq> 0 \<Longrightarrow> a < e"
  by (simp add: checked_add_Some_iff word_less_nat_alt unat_gt_0)

lemma parse_code_record_post:
  assumes sp: "in_span (st_bytes st) (byte_count st) off 8"
  shows "pe_post (parse_code_record st off prev) (\<lambda>r. code_ok (image st) r \<and>
    (\<forall>p. prev = Some p \<longrightarrow> code_end_rva p \<le> code_start_rva r))"
  unfolding parse_code_record_def Let_def post_rbind post_require
  by (rule post_read_u32_0 [OF sp], simp, rule post_read_u32 [OF sp], simp, intro impI, rule post_case_option, simp,
      unfold post_rbind post_require, intro impI, rule post_case_option)
    (auto simp: code_ok_def executable_at_def not_less checked_add_less simp del: insert_iff
      intro!: code_type_classes split: option.splits prod.splits)

lemma parse_code_records_post:
  assumes "in_span (st_bytes st) (byte_count st) table ((i + k) * 8)"
  shows "pe_post (parse_code_records st table i k prev) (\<lambda>rs. length rs = k \<and> code_wf (image st) rs \<and>
    (\<forall>p. prev = Some p \<longrightarrow> (\<forall>r \<in> set rs. code_end_rva p \<le> code_start_rva r)))"
  using assms
proof (induction k arbitrary: i prev)
  case (Suc k)
  have sp: "in_span (st_bytes st) (byte_count st) (table + of_nat i * 8) 8"
    using table_entry_span [OF Suc.prems, of i] by simp
  have ih: "pe_post (parse_code_records st table (Suc i) k (Some r)) (\<lambda>rs. length rs = k \<and> code_wf (image st) rs \<and>
      (\<forall>t \<in> set rs. code_end_rva r \<le> code_start_rva t))" for r
    by (rule post_mono [OF Suc.IH]) (use Suc.prems in auto)
  have step: "pe_post (parse_code_records st table (Suc i) k (Some r)) (\<lambda>rs. pe_post (Inr (r # rs)) (\<lambda>rs.
      length rs = Suc k \<and> code_wf (image st) rs \<and> (\<forall>p. prev = Some p \<longrightarrow> (\<forall>r \<in> set rs. code_end_rva p \<le> code_start_rva r))))"
    if r: "code_ok (image st) r \<and> (\<forall>p. prev = Some p \<longrightarrow> code_end_rva p \<le> code_start_rva r)" for r
  proof -
    have "code_start_rva r \<le> code_end_rva r" using r by (auto simp: code_ok_def)
    then show ?thesis using r by (intro post_mono [OF ih]) (force simp: code_wf_def)
  qed
  show ?case
    unfolding parse_code_records.simps post_rbind
    by (rule post_mono [OF parse_code_record_post [OF sp]]) (rule step)
qed (simp add: code_wf_def)

lemma parse_entry_record_post:
  assumes sp: "in_span (st_bytes st) (byte_count st) off 12"
  shows "pe_post (parse_entry_record st off prev) (\<lambda>r. entry_ok (image st) r \<and>
    (\<forall>p. prev = Some p \<longrightarrow> entry_end_rva p \<le> entry_start_rva r))"
  unfolding parse_entry_record_def Let_def post_rbind post_require
  by (rule post_read_u32_0 [OF sp], simp, rule post_read_u32 [OF sp], simp, rule post_read_u32 [OF sp], simp)
    (auto simp: entry_ok_def not_less not_le split: option.splits)

lemma parse_entry_records_post:
  assumes "in_span (st_bytes st) (byte_count st) table ((i + k) * 12)"
  shows "pe_post (parse_entry_records st table i k prev) (\<lambda>rs. length rs = k \<and> entry_wf (image st) rs \<and>
    (\<forall>p. prev = Some p \<longrightarrow> (\<forall>r \<in> set rs. entry_end_rva p \<le> entry_start_rva r)))"
  using assms
proof (induction k arbitrary: i prev)
  case (Suc k)
  have sp: "in_span (st_bytes st) (byte_count st) (table + of_nat i * 12) 12"
    using table_entry_span [OF Suc.prems, of i] by simp
  have ih: "pe_post (parse_entry_records st table (Suc i) k (Some r)) (\<lambda>rs. length rs = k \<and> entry_wf (image st) rs \<and>
      (\<forall>t \<in> set rs. entry_end_rva r \<le> entry_start_rva t))" for r
    by (rule post_mono [OF Suc.IH]) (use Suc.prems in auto)
  have step: "pe_post (parse_entry_records st table (Suc i) k (Some r)) (\<lambda>rs. pe_post (Inr (r # rs)) (\<lambda>rs.
      length rs = Suc k \<and> entry_wf (image st) rs \<and> (\<forall>p. prev = Some p \<longrightarrow> (\<forall>r \<in> set rs. entry_end_rva p \<le> entry_start_rva r))))"
    if r: "entry_ok (image st) r \<and> (\<forall>p. prev = Some p \<longrightarrow> entry_end_rva p \<le> entry_start_rva r)" for r
  proof -
    have "entry_start_rva r \<le> entry_end_rva r" using r by (auto simp: entry_ok_def)
    then show ?thesis using r by (intro post_mono [OF ih]) (force simp: entry_wf_def)
  qed
  show ?case
    unfolding parse_entry_records.simps post_rbind
    by (rule post_mono [OF parse_entry_record_post [OF sp]]) (rule step)
qed (simp add: entry_wf_def)

lemma parse_redirection_records_post:
  assumes "in_span (st_bytes st) (byte_count st) table ((i + k) * 8)"
  shows "pe_post (parse_redirection_records st table i k prev) (\<lambda>rs. length rs = k \<and> redirection_wf (image st) rs \<and>
    (\<forall>p. prev = Some p \<longrightarrow> (\<forall>r \<in> set rs. source_rva p < source_rva r)))"
  using assms
proof (induction k arbitrary: i prev)
  case (Suc k)
  have sp: "in_span (st_bytes st) (byte_count st) (table + of_nat i * 8) 8"
    using table_entry_span [OF Suc.prems, of i] by simp
  have one: "pe_post (parse_redirection_record st (table + of_nat i * 8) prev) (\<lambda>r.
      source_rva r < size_of_image (summary (image st)) \<and> destination_rva r < size_of_image (summary (image st)) \<and>
      (\<forall>p. prev = Some p \<longrightarrow> source_rva p < source_rva r))"
    unfolding parse_redirection_record_def Let_def post_rbind post_require
    by (rule post_read_u32_0 [OF sp], simp, rule post_read_u32 [OF sp], simp)
      (auto simp: not_less not_le split: option.splits)
  have ih: "pe_post (parse_redirection_records st table (Suc i) k (Some r)) (\<lambda>rs. length rs = k \<and> redirection_wf (image st) rs \<and>
      (\<forall>t \<in> set rs. source_rva r < source_rva t))" for r
    by (rule post_mono [OF Suc.IH]) (use Suc.prems in auto)
  show ?case
    unfolding parse_redirection_records.simps post_rbind
    by (rule post_mono [OF one], rule post_mono [OF ih]) (force simp: redirection_wf_def)
qed (simp add: redirection_wf_def)

section \<open>The whole parse\<close>

lemma find_section_cong:
  "sections img' = sections img \<Longrightarrow> section_count (summary img') = section_count (summary img) \<Longrightarrow>
    find_section_for_span img' rva sz = find_section_for_span img rva sz"
  by (simp add: find_section_for_span_def)

lemma code_wf_cong:
  assumes "sections img' = sections img" and "section_count (summary img') = section_count (summary img)"
    and "size_of_image (summary img') = size_of_image (summary img)"
  shows "code_wf img' rs = code_wf img rs"
  using find_section_cong [OF assms(1,2)] assms(3) by (simp add: code_wf_def code_ok_def executable_at_def)

lemma entry_wf_cong:
  assumes "size_of_image (summary img') = size_of_image (summary img)" and "code_ranges img' = code_ranges img"
    and "code_range_count (summary img') = code_range_count (summary img)"
  shows "entry_wf img' rs = entry_wf img rs"
  using assms by (simp add: entry_wf_def entry_ok_def code_range_contains_class_def find_code_range_def)

definition limits_ok :: "gem_pe_arm64x_parse_options \<Rightarrow> gem_pe_arm64x_image \<Rightarrow> bool" where
  "limits_ok opts img \<longleftrightarrow> length (sections img) \<le> unat (max_sections opts) \<and>
     length (code_ranges img) \<le> unat (max_code_ranges opts) \<and>
     length (entry_ranges img) \<le> unat (max_entry_ranges opts) \<and>
     length (redirections img) \<le> unat (max_redirections opts)"

lemma parse_tables_post:
  assumes st: "parsing st" and h: "headers_ok st"
    and counts: "code_range_count (summary (image st)) = ucast (code_map_count f)"
      "entry_range_count (summary (image st)) = ucast (fld_entry_range_count f)"
      "redirection_count (summary (image st)) = ucast (fld_redirection_count f)"
    and limits: "unat (code_map_count f) \<le> unat (max_code_ranges (options st))"
      "unat (fld_entry_range_count f) \<le> unat (max_entry_ranges (options st))"
      "unat (fld_redirection_count f) \<le> unat (max_redirections (options st))"
  shows "pe_post (rbind (parse_code_map st f) (\<lambda>st. rbind (parse_entry_ranges st f) (\<lambda>st.
    rbind (parse_redirections st f) (\<lambda>st. Inr (image st))))) (\<lambda>img. image_wf img \<and> limits_ok (options st) img \<and>
      img_byte_count img = byte_count st)"
proof -
  let ?st1 = "\<lambda>cs. st\<lparr>image := (image st)\<lparr>code_ranges := cs\<rparr>\<rparr>"
  let ?st2 = "\<lambda>cs es. st\<lparr>image := (image st)\<lparr>code_ranges := cs, entry_ranges := es\<rparr>\<rparr>"
  have p1: "parsing (?st1 cs)" and p2: "parsing (?st2 cs es)" for cs es using st by (simp_all add: parsing_def)
  have code: "pe_post (parse_code_map st f) (\<lambda>st'. \<exists>cs. st' = ?st1 cs \<and> length cs = unat (code_map_count f) \<and> code_wf (image st) cs)"
    unfolding parse_code_map_def post_rbind
    by (rule post_table_offset [OF st], rule post_mono [OF parse_code_records_post]) auto
  have entry: "pe_post (parse_entry_ranges (?st1 cs) f) (\<lambda>st'. \<exists>es. st' = ?st2 cs es \<and>
      length es = unat (fld_entry_range_count f) \<and> entry_wf (image (?st1 cs)) es)" for cs
    unfolding parse_entry_ranges_def post_rbind
    by (rule post_table_offset [OF p1], rule post_mono [OF parse_entry_records_post]) auto
  have redir: "pe_post (parse_redirections (?st2 cs es) f) (\<lambda>st'. \<exists>rs. image st' = (image (?st2 cs es))\<lparr>redirections := rs\<rparr> \<and>
      length rs = unat (fld_redirection_count f) \<and> redirection_wf (image (?st2 cs es)) rs)" for cs es
    unfolding parse_redirections_def post_rbind
    by (rule post_table_offset [OF p2], rule post_mono [OF parse_redirection_records_post]) auto
  have final: "image_wf img \<and> limits_ok (options st) img \<and> img_byte_count img = byte_count st"
    if img: "img = (image (?st2 cs es))\<lparr>redirections := rs\<rparr>" and cs: "length cs = unat (code_map_count f)" "code_wf (image st) cs"
      and es: "length es = unat (fld_entry_range_count f)" "entry_wf (image (?st1 cs)) es"
      and rs: "length rs = unat (fld_redirection_count f)" "redirection_wf (image (?st2 cs es)) rs" for img cs es rs
  proof -
    have "code_wf img cs" using cs(2) code_wf_cong [of img "image st" cs] by (simp add: img)
    moreover have "entry_wf img es" using es(2) entry_wf_cong [of img "image (?st1 cs)" es] by (simp add: img)
    moreover have "redirection_wf img rs" using rs(2) by (simp add: img redirection_wf_def)
    ultimately show ?thesis using h st counts limits cs(1) es(1) rs(1)
      by (simp add: img image_wf_def limits_ok_def headers_ok_def Let_def parsing_def)
  qed
  show ?thesis
    unfolding post_rbind
    by (rule post_mono [OF code], elim exE conjE, hypsubst, rule post_mono [OF entry], elim exE conjE, hypsubst,
        rule post_mono [OF redir], elim exE conjE, simp only: post_simps, rule final, rule refl)
qed

lemma parse_image_post:
  assumes "unat n \<le> length bs"
  shows "pe_post (parse_image alloc (Some bs) n base mapped opts out) (\<lambda>img. image_wf img \<and> img_byte_count img = n \<and>
    limits_ok (case opts of None \<Rightarrow> gem_pe_arm64x_default_parse_options | Some opts \<Rightarrow> opts) img)"
proof -
  let ?o = "case opts of None \<Rightarrow> gem_pe_arm64x_default_parse_options | Some opts \<Rightarrow> opts"
  have co: "pe_post (copy_options opts) (\<lambda>o'. o' = ?o)"
    by (auto simp: copy_options_def split: option.split)
  let ?st = "\<lparr>st_bytes = bs, byte_count = n, loaded_base = base, mapped_image = mapped, options = ?o, image = empty_image n\<rparr>"
  have bc: "unat (byte_count ?st) \<le> length (st_bytes ?st)" using assms by simp
  have rest: "pe_post (rbind (parse_load_config_and_chpe st dir) (\<lambda>(st, f).
        rbind (allocate_metadata_arrays alloc st f) (\<lambda>st.
        rbind (parse_code_map st f) (\<lambda>st. rbind (parse_entry_ranges st f) (\<lambda>st.
        rbind (parse_redirections st f) (\<lambda>st. Inr (image st))))))) (\<lambda>img. image_wf img \<and> img_byte_count img = n \<and> limits_ok ?o img)"
    if st: "same_input ?st st" "headers_ok st" "in_span (st_bytes st) (byte_count st) dir 8" for st dir
  proof -
    have ps: "parsing st" using st(1) assms by (simp add: same_input_def parsing_def empty_image_def)
    have alloc: "pe_post (rbind (allocate_metadata_arrays alloc st1 f) (\<lambda>st.
        rbind (parse_code_map st f) (\<lambda>st. rbind (parse_entry_ranges st f) (\<lambda>st.
        rbind (parse_redirections st f) (\<lambda>st. Inr (image st)))))) (\<lambda>img. image_wf img \<and> img_byte_count img = n \<and> limits_ok ?o img)"
      if s1: "same_input st st1" "\<exists>a b c d. image st1 = (image st)\<lparr>summary := (summary (image st))\<lparr>load_config_rva := a,
         load_config_size := b, chpe_metadata_rva := c, chpe_metadata_version := d\<rparr>\<rparr>" for st1 f
    proof -
      have h1: "headers_ok st1" and p1: "parsing st1"
        using s1 st(2) ps by (auto simp: headers_ok_def same_input_def parsing_def Let_def)
      show ?thesis
        unfolding post_rbind [where r = "allocate_metadata_arrays _ _ _"]
      proof (rule post_mono [OF allocate_post], elim conjE)
        fix st2
        assume s2: "same_input st1 st2" "image st2 = (image st1)\<lparr>summary := (summary (image st1))\<lparr>code_range_count := ucast (code_map_count f),
            entry_range_count := ucast (fld_entry_range_count f), redirection_count := ucast (fld_redirection_count f)\<rparr>\<rparr>"
          and l: "unat (code_map_count f) \<le> unat (max_code_ranges (options st1))"
            "unat (fld_entry_range_count f) \<le> unat (max_entry_ranges (options st1))"
            "unat (fld_redirection_count f) \<le> unat (max_redirections (options st1))"
        have "headers_ok st2" "parsing st2"
          using s2 h1 p1 by (auto simp: headers_ok_def same_input_def parsing_def Let_def)
        then show "pe_post (rbind (parse_code_map st2 f) (\<lambda>st. rbind (parse_entry_ranges st f) (\<lambda>st.
            rbind (parse_redirections st f) (\<lambda>st. Inr (image st))))) (\<lambda>img. image_wf img \<and> img_byte_count img = n \<and> limits_ok ?o img)"
          by (intro post_mono [OF parse_tables_post]) (use s1 s2 l st(1) in \<open>auto simp: same_input_def\<close>)
      qed
    qed
    show ?thesis
      unfolding post_rbind [where r = "parse_load_config_and_chpe _ _"]
      by (rule post_mono [OF parse_chpe_post [OF ps st(3)]], clarify, rule alloc) auto
  qed
  have headers: "pe_post (rbind (parse_headers alloc ?st) (\<lambda>(st, dir). rbind (parse_load_config_and_chpe st dir) (\<lambda>(st, f).
        rbind (allocate_metadata_arrays alloc st f) (\<lambda>st.
        rbind (parse_code_map st f) (\<lambda>st. rbind (parse_entry_ranges st f) (\<lambda>st.
        rbind (parse_redirections st f) (\<lambda>st. Inr (image st)))))))) (\<lambda>img. image_wf img \<and> img_byte_count img = n \<and> limits_ok ?o img)"
    unfolding post_rbind [where r = "parse_headers _ _"]
    by (rule post_mono [OF parse_headers_post [OF bc]], clarify, rule rest)
  show ?thesis
    unfolding parse_image_def option.case post_rbind [where r = "require _ _"] post_require post_rbind [where r = "copy_options _"]
    by (intro impI, rule post_mono [OF co]) (use headers in simp)
qed

end
