(* ===== verification/Gem_Pe_Theorems.thy ===== *)
theory Gem_Pe_Theorems
  imports Gem_Pe_Props
begin

text \<open>The properties of the ARM64X image parser of src/gem/pe_arm64x.c.\<close>

section \<open>Parsing\<close>

text \<open>
  (C19) No parse reads outside the buffer, whatever the bytes, the options, the mapping mode and the
  allocation failures: every read is covered by the checks before it.
\<close>

theorem parse_in_bounds:
  assumes "unat n \<le> length bs"
  shows "gem_pe_arm64x_parse alloc (Some bs) n opts out \<noteq> Inl Out_of_bounds \<and>
    gem_pe_arm64x_parse_mapped alloc (Some bs) n base opts out \<noteq> Inl Out_of_bounds"
  using parse_image_post [OF assms, of alloc 0 False opts out] parse_image_post [OF assms, of alloc base True opts out]
  by (auto simp: gem_pe_arm64x_parse_def gem_pe_arm64x_parse_mapped_def)

theorem parse_in_bounds_witness:
  "gem_pe_arm64x_parse (\<lambda>_. True) (Some [0x4D, 0x5A]) 2 None True \<noteq> Inl Out_of_bounds"
  using parse_in_bounds [of 2 "[0x4D, 0x5A]"] by simp

text \<open>
  (C20) An image that parses is well formed: its sections are non-empty, sorted, disjoint and inside
  the image; its code ranges are sorted, disjoint, classified, and begin and end in executable
  sections; every entry range lies in one x64 code range and contains its entry point; redirections
  are strictly sorted and stay inside the image; all counts agree with the arrays and respect the
  caller's limits.
\<close>

theorem parse_wf:
  assumes "unat n \<le> length bs"
    and "gem_pe_arm64x_parse alloc (Some bs) n opts out = Inr img \<or>
      gem_pe_arm64x_parse_mapped alloc (Some bs) n base opts out = Inr img"
  shows "image_wf img \<and> img_byte_count img = n \<and>
    limits_ok (case opts of None \<Rightarrow> gem_pe_arm64x_default_parse_options | Some opts \<Rightarrow> opts) img"
  using assms(2) post_Inr [OF parse_image_post [OF assms(1)]]
  unfolding gem_pe_arm64x_parse_def gem_pe_arm64x_parse_mapped_def by blast

section \<open>Searching\<close>

text \<open>A scan of sorted disjoint ranges that stops at the first one beyond the address.\<close>

locale sorted_ranges =
  fixes search :: "'r list \<Rightarrow> u32 \<Rightarrow> 'r option" and lo hi :: "'r \<Rightarrow> u32"
  assumes search_Nil: "search [] x = None"
    and search_Cons: "search (r # rs) x = (if x < lo r then None else if x < hi r then Some r else search rs x)"
begin

lemma search_iff:
  assumes "\<forall>r \<in> set rs. lo r < hi r" and "sorted_wrt (\<lambda>r t. hi r \<le> lo t) rs"
  shows "search rs x = Some r \<longleftrightarrow> r \<in> set rs \<and> lo r \<le> x \<and> x < hi r"
  using assms
proof (induction rs)
  case (Cons a rs)
  have later: "hi a \<le> lo t" if "t \<in> set rs" for t using Cons.prems(2) that by simp
  have a: "lo a < hi a" using Cons.prems(1) by simp
  consider "x < lo a" | "lo a \<le> x" "x < hi a" | "hi a \<le> x" by force
  then show ?case
  proof cases
    case 1
    then have "\<not> lo t \<le> x" if "t \<in> set rs" for t using later [OF that] a by order
    then show ?thesis using 1 by (auto simp: search_Cons)
  next
    case 2
    then have "\<not> lo t \<le> x" if "t \<in> set rs" for t using later [OF that] by order
    then show ?thesis using 2 by (auto simp: search_Cons)
  next
    case 3
    then have "\<not> x < hi a" by order
    moreover have "\<not> x < lo a" using 3 a by order
    ultimately show ?thesis using Cons.IH Cons.prems by (auto simp: search_Cons)
  qed
qed (simp add: search_Nil)

end

interpretation code_search: sorted_ranges search_code code_start_rva code_end_rva
  by unfold_locales simp_all

interpretation entry_search: sorted_ranges search_entry entry_start_rva entry_end_rva
  by unfold_locales simp_all

lemma search_redirection_iff:
  assumes "sorted_wrt (\<lambda>r t. source_rva r < source_rva t) rs"
  shows "search_redirection rs x = Some r \<longleftrightarrow> r \<in> set rs \<and> source_rva r = x"
  using assms by (induction rs) (auto simp: not_less dest!: bspec)

lemma entry_ok_nonempty: "entry_ok img r \<Longrightarrow> entry_start_rva r < entry_end_rva r"
  by (auto simp: entry_ok_def)

lemma find_code_iff:
  assumes "image_wf img"
  shows "find_code_range img x = Some c \<longleftrightarrow> c \<in> set (code_ranges img) \<and> code_start_rva c \<le> x \<and> x < code_end_rva c"
proof -
  have "\<forall>r \<in> set (code_ranges img). code_start_rva r < code_end_rva r" using assms by (simp add: image_wf_def code_wf_def code_ok_def)
  moreover have "sorted_wrt (\<lambda>r t. code_end_rva r \<le> code_start_rva t) (code_ranges img)" using assms by (simp add: image_wf_def code_wf_def)
  ultimately show ?thesis using assms code_search.search_iff by (simp add: find_code_range_def image_wf_def)
qed

lemma find_entry_iff:
  assumes "image_wf img"
  shows "find_entry_range img x = Some e \<longleftrightarrow> e \<in> set (entry_ranges img) \<and> entry_start_rva e \<le> x \<and> x < entry_end_rva e"
proof -
  have "\<forall>r \<in> set (entry_ranges img). entry_start_rva r < entry_end_rva r"
    using assms entry_ok_nonempty [of img] by (simp add: image_wf_def entry_wf_def)
  moreover have "sorted_wrt (\<lambda>r t. entry_end_rva r \<le> entry_start_rva t) (entry_ranges img)" using assms by (simp add: image_wf_def entry_wf_def)
  ultimately show ?thesis using assms entry_search.search_iff by (simp add: find_entry_range_def image_wf_def)
qed

lemma find_redirection_iff:
  assumes "image_wf img"
  shows "find_redirection img x = Some d \<longleftrightarrow> d \<in> set (redirections img) \<and> source_rva d = x"
proof -
  have "sorted_wrt (\<lambda>r t. source_rva r < source_rva t) (redirections img)" using assms by (simp add: image_wf_def redirection_wf_def)
  then show ?thesis using assms search_redirection_iff by (simp add: find_redirection_def image_wf_def)
qed

text \<open>
  The searches that stop at the first range beyond the address are complete: in a well-formed
  image they return the one range, or redirection, that covers it, and nothing only when there is none.
\<close>

theorem searches_exact:
  assumes "image_wf img"
  shows "(find_code_range img x = Some c \<longleftrightarrow> c \<in> set (code_ranges img) \<and> code_start_rva c \<le> x \<and> x < code_end_rva c) \<and>
    (find_entry_range img x = Some e \<longleftrightarrow> e \<in> set (entry_ranges img) \<and> entry_start_rva e \<le> x \<and> x < entry_end_rva e) \<and>
    (find_redirection img x = Some d \<longleftrightarrow> d \<in> set (redirections img) \<and> source_rva d = x)"
  using find_code_iff [OF assms] find_entry_iff [OF assms] find_redirection_iff [OF assms] by blast

section \<open>Classifying an address\<close>

text \<open>What classification answers, read off the tables.\<close>

definition covered :: "gem_pe_arm64x_image \<Rightarrow> u32 \<Rightarrow> gem_pe_rva_class \<Rightarrow> bool" where
  "covered img x c \<longleftrightarrow> (\<exists>r \<in> set (code_ranges img). code_start_rva r \<le> x \<and> x < code_end_rva r \<and> code_isa r = c)"

definition in_entry :: "gem_pe_arm64x_image \<Rightarrow> u32 \<Rightarrow> bool" where
  "in_entry img x \<longleftrightarrow> (\<exists>r \<in> set (entry_ranges img). entry_start_rva r \<le> x \<and> x < entry_end_rva r)"

definition redirected :: "gem_pe_arm64x_image \<Rightarrow> u32 \<Rightarrow> bool" where
  "redirected img x \<longleftrightarrow> (\<exists>r \<in> set (redirections img). source_rva r = x)"

definition data_at :: "gem_pe_arm64x_image \<Rightarrow> u32 \<Rightarrow> bool" where
  "data_at img x \<longleftrightarrow> (\<exists>s i. find_section_for_span img x 1 = Some (s, i) \<and> \<not> section_is_executable s)"

lemma classify_class:
  assumes "gem_pe_arm64x_classify_rva (Some img) x True = Inr info"
  shows "classification info =
    (if x \<ge> size_of_image (summary img) then GEM_PE_RVA_INVALID
     else if find_redirection img x \<noteq> None then GEM_PE_RVA_FAST_FORWARD
     else if find_entry_range img x \<noteq> None then GEM_PE_RVA_THUNK
     else (case find_code_range img x of Some r \<Rightarrow> code_isa r
       | None \<Rightarrow> if data_at img x then GEM_PE_RVA_DATA else GEM_PE_RVA_INVALID))"
    and "x < size_of_image (summary img) \<Longrightarrow> code_map_isa info = (case find_code_range img x of None \<Rightarrow> GEM_PE_RVA_INVALID | Some r \<Rightarrow> code_isa r)"
    and "x < size_of_image (summary img) \<Longrightarrow> has_entry_point info = (find_entry_range img x \<noteq> None)"
    and "x < size_of_image (summary img) \<Longrightarrow> has_redirection info = (find_redirection img x \<noteq> None)"
  using assms
  by (auto simp: gem_pe_arm64x_classify_rva_def Let_def data_at_def not_less split: if_splits option.splits prod.splits)

lemma entry_in_x64:
  assumes wf: "image_wf img" and e: "find_entry_range img x = Some e"
  shows "\<exists>c. find_code_range img x = Some c \<and> code_isa c = GEM_PE_RVA_X64"
proof -
  have em: "e \<in> set (entry_ranges img)" "entry_start_rva e \<le> x" "x < entry_end_rva e" using e find_entry_iff [OF wf] by auto
  then have "code_range_contains_class img (entry_start_rva e) (entry_end_rva e) GEM_PE_RVA_X64"
    using wf by (simp add: image_wf_def entry_wf_def entry_ok_def)
  then obtain c where c: "find_code_range img (entry_start_rva e) = Some c" "code_isa c = GEM_PE_RVA_X64" "entry_end_rva e \<le> code_end_rva c"
    by (auto simp: code_range_contains_class_def split: option.splits)
  then have "c \<in> set (code_ranges img)" "code_start_rva c \<le> entry_start_rva e" using find_code_iff [OF wf] by auto
  then have "find_code_range img x = Some c" using em c(3) find_code_iff [OF wf, of x c] by auto
  then show ?thesis using c(2) by blast
qed

lemma classify_total: "\<exists>info. gem_pe_arm64x_classify_rva (Some img) x True = Inr info"
  by (simp add: gem_pe_arm64x_classify_rva_def Let_def split: option.split)

text \<open>
  Classification of an address inside a well-formed image: a redirection wins over an entry
  range, which wins over the code map, which wins over non-executable data; an entry thunk is always
  x64 code, and the classes of the code map are never \<open>INVALID\<close>.
\<close>

theorem classify_spec:
  assumes wf: "image_wf img" and run: "gem_pe_arm64x_classify_rva (Some img) x True = Inr info"
  shows "(classification info = GEM_PE_RVA_FAST_FORWARD \<longleftrightarrow> redirected img x) \<and>
    (classification info = GEM_PE_RVA_THUNK \<longleftrightarrow> in_entry img x \<and> \<not> redirected img x) \<and>
    (\<forall>c \<in> {GEM_PE_RVA_ARM64, GEM_PE_RVA_ARM64EC, GEM_PE_RVA_X64}.
       classification info = c \<longleftrightarrow> covered img x c \<and> \<not> in_entry img x \<and> \<not> redirected img x) \<and>
    (in_entry img x \<longrightarrow> has_entry_point info \<and> code_map_isa info = GEM_PE_RVA_X64) \<and>
    (classification info = GEM_PE_RVA_DATA \<longrightarrow> data_at img x)"
proof -
  let ?lim = "size_of_image (summary img)"
  have red: "find_redirection img x \<noteq> None \<longleftrightarrow> redirected img x"
    using find_redirection_iff [OF wf, of x] by (auto simp: redirected_def)
  have ent: "find_entry_range img x \<noteq> None \<longleftrightarrow> in_entry img x"
    using find_entry_iff [OF wf, of x] by (auto simp: in_entry_def)
  have cov: "covered img x c \<longleftrightarrow> (\<exists>r. find_code_range img x = Some r \<and> code_isa r = c)" for c
    using find_code_iff [OF wf, of x] by (auto simp: covered_def)
  have code_isa: "code_isa r \<in> {GEM_PE_RVA_ARM64, GEM_PE_RVA_ARM64EC, GEM_PE_RVA_X64}" if "find_code_range img x = Some r" for r
    using that find_code_iff [OF wf, of x r] wf by (auto simp: image_wf_def code_wf_def code_ok_def)
  have lim: "x < ?lim" if "redirected img x \<or> in_entry img x \<or> find_code_range img x \<noteq> None"
    using that wf find_code_iff [OF wf, of x]
    by (force simp: redirected_def in_entry_def image_wf_def redirection_wf_def entry_wf_def entry_ok_def code_wf_def code_ok_def)
  note cl = classify_class [OF run]
  have th: "\<exists>c. find_code_range img x = Some c \<and> code_isa c = GEM_PE_RVA_X64" if "in_entry img x"
    using entry_in_x64 [OF wf] that ent by blast
  show ?thesis
  proof (cases "x < ?lim")
    case False
    then show ?thesis using cl(1) lim cov by (auto simp: not_less)
  next
    case True
    then show ?thesis using cl red ent cov code_isa th
      by (cases "find_code_range img x") (auto simp: not_le split: if_splits)
  qed
qed

section \<open>Offsets in the file\<close>

lemma find_section_from_sound:
  "find_section_from i ss rva sz = Some (s, k) \<Longrightarrow> i \<le> k \<and> k - i < length ss \<and> ss ! (k - i) = s \<and> section_contains_span s rva sz"
proof (induction ss arbitrary: i)
  case (Cons a ss)
  show ?case
  proof (cases "section_contains_span a rva sz")
    case False
    then have "Suc i \<le> k \<and> k - Suc i < length ss \<and> ss ! (k - Suc i) = s \<and> section_contains_span s rva sz"
      using Cons by auto
    moreover from this have "k - i = Suc (k - Suc i)" by arith
    ultimately show ?thesis by auto
  qed (use Cons.prems in auto)
qed simp

text \<open>
  A translated address stays inside the file for its whole span, which lies inside the image: either
  the span lies in the headers and the offset is the address itself, or a section contains the span with
  its raw data, and the offset is the section's file position plus the distance from the section's start.
\<close>

theorem rva_to_file_offset_bounds:
  assumes "gem_pe_arm64x_rva_to_file_offset (Some img) rva sz True = Inr off"
  shows "unat off + unat sz \<le> unat (img_byte_count img) \<and> unat rva + unat sz \<le> unat (size_of_image (summary img)) \<and> sz \<noteq> 0 \<and>
    ((off = ucast rva \<and> unat rva + unat sz \<le> unat (size_of_headers img)) \<or>
     (\<exists>s \<in> set (sections img). section_contains_span s rva sz \<and> unat off = unat (raw_pointer s) + unat (rva - virtual_address s) \<and>
        unat (rva - virtual_address s) + unat sz \<le> unat (raw_size s)))"
proof -
  have run: "rva_to_file_offset_internal img rva sz = Inr off" using assms by (simp add: gem_pe_arm64x_rva_to_file_offset_def)
  note sp = rva_to_file_offset_span [OF run]
  have sz: "sz \<noteq> 0" using run by (auto simp: rva_to_file_offset_internal_def)
  show ?thesis
  proof (cases "off = ucast rva \<and> unat rva + unat sz \<le> unat (size_of_headers img)")
    case False
    then obtain s i raw_end where s: "find_section_for_span img rva sz = Some (s, i)"
        "checked_add (rva - virtual_address s) sz = Some raw_end" "raw_end \<le> raw_size s"
        "checked_add (ucast (raw_pointer s)) (ucast (rva - virtual_address s)) = Some off"
      using run by (auto simp: rva_to_file_offset_internal_def Let_def not_less checked_add_Some_iff word_le_nat_alt split: if_splits option.splits)
    have "s \<in> set (sections img)" "section_contains_span s rva sz"
      using find_section_from_sound [OF s(1) [unfolded find_section_for_span_def]] by (auto dest!: nth_mem in_set_takeD)
    moreover have "unat off = unat (raw_pointer s) + unat (rva - virtual_address s)" using s(4) by (simp add: checked_add_Some_iff)
    moreover have "unat (rva - virtual_address s) + unat sz \<le> unat (raw_size s)"
      using s(2,3) by (simp add: checked_add_Some_iff word_le_nat_alt)
    ultimately show ?thesis using sp sz by blast
  qed (use sp sz in simp)
qed

section \<open>Copies and queries\<close>

lemma checked_mul_fits:
  fixes k w :: size_t
  assumes "unat k \<le> 65536" and "w \<in> {8, 12, 20}"
  shows "checked_mul k w \<noteq> None"
proof -
  have "w \<le> (- 1) div k" if "k \<noteq> 0"
  proof -
    have "(2 ^ 64 - 1) div 65536 \<le> (2 ^ 64 - 1) div unat k"
      by (rule div_le_mono2) (use assms(1) that in \<open>simp_all add: unat_gt_0\<close>)
    then have "unat w \<le> (2 ^ 64 - 1) div unat k" using assms(2) by auto
    then show ?thesis by (simp add: word_le_nat_alt unat_div unat_all_ones)
  qed
  then show ?thesis by (auto simp: checked_mul_def)
qed

lemma clone_array_Inr:
  "clone_array ok k w xs = Inr ys \<Longrightarrow> length xs = unat k \<Longrightarrow> ys = xs"
  by (auto simp: clone_array_def split: if_splits option.splits)

lemma image_lengths:
  assumes "image_wf img"
  shows "length (sections img) = unat (ucast (section_count (summary img)) :: size_t)"
    and "length (code_ranges img) = unat (code_range_count (summary img))"
    and "length (entry_ranges img) = unat (entry_range_count (summary img))"
    and "length (redirections img) = unat (redirection_count (summary img))"
  using assms by (simp_all add: image_wf_def)

lemma clone_Inr:
  assumes "image_wf img" and "gem_pe_arm64x_image_clone alloc (Some img) True = Inr img'"
  shows "img' = img"
  using assms(2) image_lengths [OF assms(1)]
  by (auto simp: gem_pe_arm64x_image_clone_def dest!: clone_array_Inr split: if_splits)

text \<open>
  A clone of a well-formed image is equal to it, and with memory available there is one for every
  image within the default limits; the indexed getters never leave the arrays and return exactly the
  elements below the published counts.
\<close>

theorem clone_and_getters:
  assumes wf: "image_wf img"
  shows "(gem_pe_arm64x_image_clone alloc (Some img) True = Inr img' \<longrightarrow> img' = img) \<and>
    (limits_ok gem_pe_arm64x_default_parse_options img \<longrightarrow> gem_pe_arm64x_image_clone (\<lambda>_. True) (Some img) True = Inr img) \<and>
    gem_pe_arm64x_get_code_range (Some img) i True = (if i < gem_pe_arm64x_code_range_count (Some img)
      then Inr (code_ranges img ! unat i) else Inl (Status GEM_PE_ERROR_INVALID_ARGUMENT)) \<and>
    gem_pe_arm64x_get_entry_range (Some img) i True = (if i < gem_pe_arm64x_entry_range_count (Some img)
      then Inr (entry_ranges img ! unat i) else Inl (Status GEM_PE_ERROR_INVALID_ARGUMENT)) \<and>
    gem_pe_arm64x_get_redirection (Some img) i True = (if i < gem_pe_arm64x_redirection_count (Some img)
      then Inr (redirections img ! unat i) else Inl (Status GEM_PE_ERROR_INVALID_ARGUMENT)) \<and>
    gem_pe_arm64x_get_section (Some img) i True \<noteq> Inl Out_of_bounds"
proof -
  note len = image_lengths [OF wf]
  have "img' = img" if "gem_pe_arm64x_image_clone alloc (Some img) True = Inr img'"
    using wf that by (rule clone_Inr)
  moreover have "gem_pe_arm64x_image_clone (\<lambda>_. True) (Some img) True = Inr img"
    if lim: "limits_ok gem_pe_arm64x_default_parse_options img"
  proof -
    have all: "clone_array True k w xs = Inr xs"
      if "length xs = unat k" "unat k \<le> 65536" "w \<in> {8, 12, 20}" for k w and xs :: "'x list"
      using checked_mul_fits [OF that(2,3)] that(1) by (auto simp: clone_array_def)
    show ?thesis using lim len
      by (simp add: gem_pe_arm64x_image_clone_def all limits_ok_def gem_pe_arm64x_default_parse_options_def)
  qed
  moreover have "gem_pe_arm64x_get_section (Some img) i True \<noteq> Inl Out_of_bounds"
    using len(1) by (auto simp: gem_pe_arm64x_get_section_def array_get_def require_def guard_that_def
        word_less_nat_alt not_le split: if_splits)
  ultimately show ?thesis using len
    by (auto simp: gem_pe_arm64x_get_code_range_def gem_pe_arm64x_code_range_count_def gem_pe_arm64x_get_entry_range_def
        gem_pe_arm64x_entry_range_count_def gem_pe_arm64x_get_redirection_def gem_pe_arm64x_redirection_count_def
        array_get_def require_def guard_that_def word_less_nat_alt not_le)
qed

section \<open>A concrete image\<close>

text \<open>
  A file of 644 bytes: headers, one executable section with load configuration and CHPE metadata, one
  x64 code range, one entry range and one redirection.
\<close>

definition sample_pe :: byte_string where
  "sample_pe = [77, 90] @ replicate 58 0 @ [64, 0, 0, 0, 80, 69, 0, 0, 100, 170, 1] @ replicate 13 0 @ [200, 0, 0, 0,
     11, 2] @ replicate 14 0 @ [72, 1] @ replicate 7 0 @ [16] @ replicate 6 0 @ [1, 0, 0, 0, 1] @ replicate 19
     0 @ [132, 2, 0, 0, 72, 1] @ replicate 46 0 @ [16] @ replicate 83 0 @ [72, 1, 0, 0, 208] @ replicate 11 0
     @ [60, 1, 0, 0, 72, 1, 0, 0, 60, 1, 0, 0, 72, 1] @ replicate 17 0 @ [32, 208] @ replicate 199 0 @ [24,
     18] @ replicate 6 0 @ [1, 0, 0, 0, 104, 2, 0, 0, 1, 0, 0, 0, 112, 2, 0, 0, 124, 2] @ replicate 30 0 @ [1,
     0, 0, 0, 1] @ replicate 27 0 @ [74, 1, 0, 0, 60, 1, 0, 0, 84, 1, 0, 0, 104, 1, 0, 0, 88, 1, 0, 0, 144, 1,
     0, 0, 148, 1, 0, 0]"

definition sample_image :: gem_pe_arm64x_image where
  "sample_image = \<lparr>summary = \<lparr>machine = 0xAA64, section_count = 1, image_base = 4096, size_of_image = 644,
     sum_size_of_headers = 328, address_of_entry_point = 328, load_config_rva = 328, load_config_size = 208,
     chpe_metadata_rva = 536, chpe_metadata_version = 1, code_range_count = 1, entry_range_count = 1,
     redirection_count = 1\<rparr>, img_byte_count = 644, size_of_headers = 328,
     sections = [\<lparr>virtual_address = 328, virtual_size = 316, raw_size = 316, raw_pointer = 328, characteristics = 0x20000000\<rparr>],
     code_ranges = [\<lparr>code_start_rva = 328, code_end_rva = 644, code_isa = GEM_PE_RVA_X64\<rparr>],
     entry_ranges = [\<lparr>entry_start_rva = 340, entry_end_rva = 360, entry_point_rva = 344\<rparr>],
     redirections = [\<lparr>source_rva = 400, destination_rva = 404\<rparr>]\<rparr>"

lemma sample_length: "length sample_pe = 644"
  by code_simp

lemma sample_parses: "gem_pe_arm64x_parse (\<lambda>_. True) (Some sample_pe) 644 None True = Inr sample_image"
  by code_simp

lemma sample_image_wf: "image_wf sample_image"
  using post_Inr [OF parse_image_post sample_parses [unfolded gem_pe_arm64x_parse_def]] sample_length by simp

theorem parse_wf_witness:
  "gem_pe_arm64x_parse (\<lambda>_. True) (Some sample_pe) 644 None True = Inr sample_image \<and> image_wf sample_image \<and>
   limits_ok gem_pe_arm64x_default_parse_options sample_image"
  using parse_wf [OF _ disjI1 [OF sample_parses]] sample_parses sample_length by simp

theorem searches_exact_witness:
  "find_redirection sample_image 400 = Some \<lparr>source_rva = 400, destination_rva = 404\<rparr>"
  using searches_exact [OF sample_image_wf, of 400 _ _ "\<lparr>source_rva = 400, destination_rva = 404\<rparr>"]
  by (simp add: sample_image_def)

theorem classify_spec_witness:
  "\<exists>info. gem_pe_arm64x_classify_rva (Some sample_image) 350 True = Inr info \<and> classification info = GEM_PE_RVA_THUNK \<and>
     code_map_isa info = GEM_PE_RVA_X64"
proof -
  obtain info where i: "gem_pe_arm64x_classify_rva (Some sample_image) 350 True = Inr info"
    using classify_total by blast
  have "in_entry sample_image 350" "\<not> redirected sample_image 350"
    by (simp_all add: in_entry_def redirected_def sample_image_def)
  then show ?thesis using classify_spec [OF sample_image_wf i] i by blast
qed

theorem rva_to_file_offset_bounds_witness:
  "gem_pe_arm64x_rva_to_file_offset (Some sample_image) 616 8 True = Inr 616 \<and>
   unat (616 :: size_t) + unat (8 :: u32) \<le> unat (img_byte_count sample_image)"
proof -
  have "gem_pe_arm64x_rva_to_file_offset (Some sample_image) 616 8 True = Inr 616" by code_simp
  then show ?thesis using rva_to_file_offset_bounds by blast
qed

theorem clone_and_getters_witness:
  "gem_pe_arm64x_image_clone (\<lambda>_. True) (Some sample_image) True = Inr sample_image"
proof -
  have "limits_ok gem_pe_arm64x_default_parse_options sample_image"
    by (simp add: limits_ok_def sample_image_def gem_pe_arm64x_default_parse_options_def)
  then show ?thesis using clone_and_getters [OF sample_image_wf] by blast
qed

end
