(* ===== verification/Gem_Target.thy ===== *)
theory Gem_Target
  imports Gem_Pe_Theorems Gem_Context Gem_Memory_Api
begin

text \<open>
  Branch targets of ARM64EC code, src/gem/arm64ec_target.c: the map of one loaded image, the
  resolution of a virtual address through the redirections of the image, the indirect-call checker
  and the entry-thunk descriptor. The caller's policy is a function on addresses; the memory holds
  the descriptor. A zeroed \<open>kind\<close>, which is no enumerator, is \<open>None\<close>.
\<close>

datatype gem_arm64ec_target_status =
    GEM_ARM64EC_TARGET_OK
  | GEM_ARM64EC_TARGET_INVALID_ARGUMENT
  | GEM_ARM64EC_TARGET_OVERFLOW
  | GEM_ARM64EC_TARGET_OUTSIDE_IMAGE
  | GEM_ARM64EC_TARGET_NOT_EXECUTABLE
  | GEM_ARM64EC_TARGET_MALFORMED_METADATA
  | GEM_ARM64EC_TARGET_MISALIGNED
  | GEM_ARM64EC_TARGET_MEMORY_FAULT
  | GEM_ARM64EC_TARGET_CFG_DENIED
  | GEM_ARM64EC_TARGET_DESCRIPTOR_UNSUPPORTED
  | GEM_ARM64EC_TARGET_RELOCATION_UNSUPPORTED

datatype gem_arm64ec_target_kind =
    GEM_ARM64EC_TARGET_ARM64
  | GEM_ARM64EC_TARGET_ARM64EC
  | GEM_ARM64EC_TARGET_X64_BOUNDARY

record gem_arm64ec_target_result =
  requested_va :: u64
  resolved_va :: u64
  requested_rva :: u32
  resolved_rva :: u32
  kind :: "gem_arm64ec_target_kind option"
  redirection_hops :: u32

record gem_arm64ec_target_map =
  map_image :: gem_pe_arm64x_image
  map_summary :: gem_pe_arm64x_summary
  map_loaded_base :: u64
  map_loaded_end :: u64

text \<open>A policy may lack its callback.\<close>

type_synonym gem_arm64ec_cfg_policy = "(u64 \<Rightarrow> bool) option"

section \<open>The map of a loaded image\<close>

text \<open>
  \<open>alloc_map\<close> is whether the map can be allocated, \<open>alloc\<close> which blocks of the cloned image can.
\<close>

definition gem_arm64ec_target_map_create ::
  "bool \<Rightarrow> (pe_block \<Rightarrow> bool) \<Rightarrow> gem_pe_arm64x_image option \<Rightarrow> u64 \<Rightarrow> bool
    \<Rightarrow> gem_arm64ec_target_status + gem_arm64ec_target_map" where
  "gem_arm64ec_target_map_create alloc_map alloc img base out =
     (if img = None \<or> \<not> out then Inl GEM_ARM64EC_TARGET_INVALID_ARGUMENT
      else if \<not> alloc_map then Inl GEM_ARM64EC_TARGET_MALFORMED_METADATA
      else (case gem_pe_arm64x_get_summary img True of
          Inl _ \<Rightarrow> Inl GEM_ARM64EC_TARGET_MALFORMED_METADATA
        | Inr s \<Rightarrow>
           (if size_of_image s = 0 then Inl GEM_ARM64EC_TARGET_OVERFLOW
            else (case checked_add base (ucast (size_of_image s)) of
                None \<Rightarrow> Inl GEM_ARM64EC_TARGET_OVERFLOW
              | Some e \<Rightarrow>
                 (case gem_pe_arm64x_image_clone alloc img True of
                    Inl _ \<Rightarrow> Inl GEM_ARM64EC_TARGET_MALFORMED_METADATA
                  | Inr copy \<Rightarrow> Inr \<lparr>map_image = copy, map_summary = s, map_loaded_base = base,
                      map_loaded_end = e\<rparr>)))))"

section \<open>Resolving an address\<close>

text \<open>The kind that a code class selects; other classes select none.\<close>

fun class_kind :: "gem_pe_rva_class \<Rightarrow> gem_arm64ec_target_kind option" where
  "class_kind GEM_PE_RVA_ARM64 = Some GEM_ARM64EC_TARGET_ARM64"
| "class_kind GEM_PE_RVA_ARM64EC = Some GEM_ARM64EC_TARGET_ARM64EC"
| "class_kind GEM_PE_RVA_X64 = Some GEM_ARM64EC_TARGET_X64_BOUNDARY"
| "class_kind _ = None"

definition terminal_kind :: "gem_pe_arm64x_rva_info \<Rightarrow> gem_arm64ec_target_status + gem_arm64ec_target_kind" where
  "terminal_kind info =
     (case class_kind (classification info) of
        Some k \<Rightarrow> Inr k
      | None \<Rightarrow>
         (if classification info = GEM_PE_RVA_THUNK
          then (case class_kind (code_map_isa info) of
              Some k \<Rightarrow> Inr k
            | None \<Rightarrow> Inl GEM_ARM64EC_TARGET_MALFORMED_METADATA)
          else Inl GEM_ARM64EC_TARGET_NOT_EXECUTABLE))"

definition classify_terminal ::
  "gem_arm64ec_target_map \<Rightarrow> u32 \<Rightarrow> gem_arm64ec_target_result
    \<Rightarrow> gem_arm64ec_target_status + gem_arm64ec_target_result" where
  "classify_terminal tm rva result =
     (case gem_pe_arm64x_classify_rva (Some (map_image tm)) rva True of
        Inl _ \<Rightarrow> Inl GEM_ARM64EC_TARGET_MALFORMED_METADATA
      | Inr info \<Rightarrow>
         (if classification info = GEM_PE_RVA_INVALID
          then Inl (if rva \<ge> size_of_image (map_summary tm) then GEM_ARM64EC_TARGET_OUTSIDE_IMAGE
                    else GEM_ARM64EC_TARGET_NOT_EXECUTABLE)
          else if \<not> executable_section info then Inl GEM_ARM64EC_TARGET_NOT_EXECUTABLE
          else rbind (terminal_kind info) (\<lambda>k.
            if k \<noteq> GEM_ARM64EC_TARGET_X64_BOUNDARY \<and> resolved_va result AND 3 \<noteq> 0
            then Inl GEM_ARM64EC_TARGET_MISALIGNED
            else Inr (result\<lparr>kind := Some k\<rparr>))))"

text \<open>The loop over the redirections, with the hops that remain and the hops taken.\<close>

fun follow :: "gem_pe_arm64x_image \<Rightarrow> nat \<Rightarrow> u32 \<Rightarrow> u32 \<Rightarrow> gem_arm64ec_target_status + u32 \<times> u32" where
  "follow img 0 rva hops = Inl GEM_ARM64EC_TARGET_MALFORMED_METADATA"
| "follow img (Suc k) rva hops =
     (case gem_pe_arm64x_classify_rva (Some img) rva True of
        Inl _ \<Rightarrow> Inl GEM_ARM64EC_TARGET_MALFORMED_METADATA
      | Inr info \<Rightarrow>
         (if \<not> has_redirection info then Inr (rva, hops)
          else follow img k (redirection_destination_rva info) (hops + 1)))"

definition gem_arm64ec_target_resolve ::
  "gem_arm64ec_target_map option \<Rightarrow> u64 \<Rightarrow> bool \<Rightarrow> gem_arm64ec_target_status + gem_arm64ec_target_result" where
  "gem_arm64ec_target_resolve mo va out = (case mo of
       None \<Rightarrow> Inl GEM_ARM64EC_TARGET_INVALID_ARGUMENT
     | Some tm \<Rightarrow>
        (if \<not> out then Inl GEM_ARM64EC_TARGET_INVALID_ARGUMENT
         else if va < map_loaded_base tm \<or> va \<ge> map_loaded_end tm then Inl GEM_ARM64EC_TARGET_OUTSIDE_IMAGE
         else (let start = ucast (va - map_loaded_base tm);
                   hop_limit = gem_pe_arm64x_redirection_count (Some (map_image tm)) + 1
           in rbind (follow (map_image tm) (unat hop_limit) start 0) (\<lambda>(rva, hops).
              case checked_add (map_loaded_base tm) (ucast rva) of
                None \<Rightarrow> Inl GEM_ARM64EC_TARGET_OVERFLOW
              | Some target \<Rightarrow> classify_terminal tm rva
                  \<lparr>requested_va = va, resolved_va = target, requested_rva = start, resolved_rva = rva,
                   kind = None, redirection_hops = hops\<rparr>))))"

section \<open>Indirect calls and entry-thunk descriptors\<close>

definition gem_arm64ec_cfg_authorize :: "gem_arm64ec_cfg_policy option \<Rightarrow> u64 \<Rightarrow> gem_arm64ec_target_status" where
  "gem_arm64ec_cfg_authorize policy va = (case policy of
       Some (Some authorize) \<Rightarrow> if authorize va then GEM_ARM64EC_TARGET_OK else GEM_ARM64EC_TARGET_CFG_DENIED
     | _ \<Rightarrow> GEM_ARM64EC_TARGET_CFG_DENIED)"

text \<open>The status check after a call that returns only a status.\<close>

definition checked :: "gem_arm64ec_target_status \<Rightarrow> gem_arm64ec_target_status + unit" where
  "checked st = guard_that (st = GEM_ARM64EC_TARGET_OK) st"

definition checker_decide ::
  "gem_arm64ec_target_map option \<Rightarrow> gem_arm64ec_cfg_policy option \<Rightarrow> bool \<Rightarrow> gem_thread_context option \<Rightarrow> bool
    \<Rightarrow> gem_arm64ec_target_status + gem_arm64ec_target_result \<times> gem_thread_context" where
  "checker_decide tm policy require_cfg ctx out = (case (tm, ctx) of
       (Some _, Some c) \<Rightarrow>
        rbind (guard_that (out \<and> gem_context_is_valid c \<and> isa c = isa_code GEM_ISA_ARM64EC)
          GEM_ARM64EC_TARGET_INVALID_ARGUMENT) (\<lambda>_.
        rbind (gem_arm64ec_target_resolve tm (x c ! 11) True) (\<lambda>target.
        rbind (if require_cfg then checked (gem_arm64ec_cfg_authorize policy (x c ! 11)) else Inr ()) (\<lambda>_.
        if kind target = Some GEM_ARM64EC_TARGET_X64_BOUNDARY
        then rbind (gem_arm64ec_target_resolve tm (x c ! 10) True) (\<lambda>exit_thunk.
          if kind exit_thunk = Some GEM_ARM64EC_TARGET_X64_BOUNDARY then Inl GEM_ARM64EC_TARGET_NOT_EXECUTABLE
          else Inr (target, c\<lparr>x := (x c)[9 := x c ! 11, 11 := resolved_va exit_thunk]\<rparr>))
        else Inr (target, c))))
     | _ \<Rightarrow> Inl GEM_ARM64EC_TARGET_INVALID_ARGUMENT)"

text \<open>The call as its caller sees it: the status and result, and the context it is left with.\<close>

definition gem_arm64ec_checker_dispatch ::
  "gem_arm64ec_target_map option \<Rightarrow> gem_arm64ec_cfg_policy option \<Rightarrow> bool \<Rightarrow> gem_thread_context option \<Rightarrow> bool
    \<Rightarrow> (gem_arm64ec_target_status + gem_arm64ec_target_result) \<times> gem_thread_context option" where
  "gem_arm64ec_checker_dispatch tm policy require_cfg ctx out =
     (case checker_decide tm policy require_cfg ctx out of
        Inl e \<Rightarrow> (Inl e, ctx)
      | Inr (target, c) \<Rightarrow> (Inr target, Some c))"

definition descriptor_target ::
  "gem_arm64ec_target_map option \<Rightarrow> byte_string \<Rightarrow> u64 \<Rightarrow> gem_arm64ec_cfg_policy option
    \<Rightarrow> gem_arm64ec_target_status + gem_arm64ec_target_result" where
  "descriptor_target tm descriptor descriptor_va policy =
     (let encoded = ucast (descriptor ! 0) OR push_bit 8 (ucast (descriptor ! 1)) OR
            push_bit 16 (ucast (descriptor ! 2)) OR push_bit 24 (ucast (descriptor ! 3)) :: u32;
          function_va = descriptor_va + 4
      in case checked_add function_va (ucast (encoded AND NOT 3)) of
           None \<Rightarrow> Inl GEM_ARM64EC_TARGET_OVERFLOW
         | Some thunk_va \<Rightarrow>
            rbind (gem_arm64ec_target_resolve tm thunk_va True) (\<lambda>result.
            rbind (guard_that (kind result \<noteq> Some GEM_ARM64EC_TARGET_X64_BOUNDARY) GEM_ARM64EC_TARGET_NOT_EXECUTABLE) (\<lambda>_.
            rbind (if policy \<noteq> None then checked (gem_arm64ec_cfg_authorize policy (resolved_va result)) else Inr ()) (\<lambda>_.
            Inr result))))"

definition gem_arm64ec_descriptor_resolve ::
  "gem_arm64ec_target_map option \<Rightarrow> gem_memory option \<Rightarrow> u64 \<Rightarrow> gem_arm64ec_cfg_policy option \<Rightarrow> bool
    \<Rightarrow> (gem_arm64ec_target_status + gem_arm64ec_target_result) \<times> gem_memory option" where
  "gem_arm64ec_descriptor_resolve tm memory descriptor_va policy out =
     (if tm = None \<or> memory = None \<or> \<not> out then (Inl GEM_ARM64EC_TARGET_INVALID_ARGUMENT, memory)
      else if descriptor_va > - 1 - 4 then (Inl GEM_ARM64EC_TARGET_OVERFLOW, memory)
      else (case gem_memory_read memory descriptor_va (Some (replicate 4 0)) 4 of
         (e, b, memory') \<Rightarrow>
          ((if e \<noteq> GEM_MEMORY_OK then Inl GEM_ARM64EC_TARGET_MEMORY_FAULT
            else (case b of None \<Rightarrow> Inl GEM_ARM64EC_TARGET_MEMORY_FAULT
                    | Some descriptor \<Rightarrow> descriptor_target tm descriptor descriptor_va policy)), memory')))"

fun gem_arm64ec_target_status_name :: "gem_arm64ec_target_status \<Rightarrow> string" where
  "gem_arm64ec_target_status_name GEM_ARM64EC_TARGET_OK = ''ok''"
| "gem_arm64ec_target_status_name GEM_ARM64EC_TARGET_INVALID_ARGUMENT = ''invalid-argument''"
| "gem_arm64ec_target_status_name GEM_ARM64EC_TARGET_OVERFLOW = ''overflow''"
| "gem_arm64ec_target_status_name GEM_ARM64EC_TARGET_OUTSIDE_IMAGE = ''outside-image''"
| "gem_arm64ec_target_status_name GEM_ARM64EC_TARGET_NOT_EXECUTABLE = ''not-executable''"
| "gem_arm64ec_target_status_name GEM_ARM64EC_TARGET_MALFORMED_METADATA = ''malformed-metadata''"
| "gem_arm64ec_target_status_name GEM_ARM64EC_TARGET_MISALIGNED = ''misaligned''"
| "gem_arm64ec_target_status_name GEM_ARM64EC_TARGET_MEMORY_FAULT = ''memory-fault''"
| "gem_arm64ec_target_status_name GEM_ARM64EC_TARGET_CFG_DENIED = ''cfg-denied''"
| "gem_arm64ec_target_status_name GEM_ARM64EC_TARGET_DESCRIPTOR_UNSUPPORTED = ''descriptor-unsupported''"
| "gem_arm64ec_target_status_name GEM_ARM64EC_TARGET_RELOCATION_UNSUPPORTED = ''relocation-unsupported''"

end
