(* ===== verification/Gem_Target_Theorems.thy ===== *)
theory Gem_Target_Theorems
  imports Gem_Target
begin

text \<open>
  Target resolution against its specification: the chain of redirections as powers of a relation,
  where it ends, and what the checker and the descriptor do with the result.
\<close>

section \<open>Chains of redirections\<close>

definition redirect_step :: "gem_pe_arm64x_image \<Rightarrow> u32 \<Rightarrow> u32 \<Rightarrow> bool" where
  "redirect_step img a b \<longleftrightarrow> (\<exists>r \<in> set (redirections img). source_rva r = a \<and> destination_rva r = b)"

text \<open>\<open>n\<close> redirections lead from \<open>a\<close> to \<open>b\<close>, which has none.\<close>

definition forwards :: "gem_pe_arm64x_image \<Rightarrow> nat \<Rightarrow> u32 \<Rightarrow> u32 \<Rightarrow> bool" where
  "forwards img n a b \<longleftrightarrow> (redirect_step img ^^ n) a b \<and> \<not> redirected img b"

lemma redirected_iff: "redirected img a \<longleftrightarrow> (\<exists>b. redirect_step img a b)"
  by (auto simp: redirected_def redirect_step_def)

lemma redirect_step_det:
  assumes "image_wf img" and "redirect_step img a b" and "redirect_step img a c"
  shows "b = c"
proof -
  obtain r t where "r \<in> set (redirections img)" "source_rva r = a" "destination_rva r = b"
      "t \<in> set (redirections img)" "source_rva t = a" "destination_rva t = c"
    using assms(2,3) by (auto simp: redirect_step_def)
  moreover from this have "find_redirection img a = Some r" "find_redirection img a = Some t"
    by (simp_all add: find_redirection_iff [OF assms(1)])
  ultimately show ?thesis by simp
qed

lemma forwards_0 [simp]: "forwards img 0 a b \<longleftrightarrow> a = b \<and> \<not> redirected img a"
  by (auto simp: forwards_def)

lemma forwards_Suc: "forwards img (Suc n) a b \<longleftrightarrow> (\<exists>c. redirect_step img a c \<and> forwards img n c b)"
  by (auto simp: forwards_def relpowp_Suc_left simp del: relpowp.simps(2))

lemma forwards_unique:
  assumes "image_wf img"
  shows "forwards img n a b \<Longrightarrow> forwards img k a c \<Longrightarrow> n = k \<and> b = c"
proof (induction n arbitrary: a k)
  case 0
  then show ?case by (cases k) (auto simp: forwards_Suc redirected_iff)
next
  case (Suc n)
  obtain d where d: "redirect_step img a d" "forwards img n d b" using Suc.prems(1) by (auto simp: forwards_Suc)
  then have "redirected img a" by (auto simp: redirected_iff)
  with Suc.prems(2) obtain j e where k: "k = Suc j" and e: "redirect_step img a e" "forwards img j e c"
    by (cases k) (auto simp: forwards_Suc)
  have "e = d" by (rule redirect_step_det [OF assms e(1) d(1)])
  with Suc.IH [OF d(2)] e(2) k show ?case by simp
qed

lemma card_sources: "card (Collect (redirected img)) \<le> length (redirections img)"
proof -
  have "Collect (redirected img) = set (map source_rva (redirections img))" by (auto simp: redirected_def)
  then show ?thesis using card_length [of "map source_rva (redirections img)"] by simp
qed

text \<open>A chain that ends visits every source at most once.\<close>

lemma forwards_bounded:
  assumes wf: "image_wf img" and fw: "forwards img n a b"
  shows "n \<le> length (redirections img)"
proof -
  obtain f where f: "f 0 = a" "f n = b" "\<And>i. i < n \<Longrightarrow> redirect_step img (f i) (f (Suc i))"
    using fw by (auto simp: forwards_def relpowp_fun_conv)
  have tail: "forwards img (n - i) (f i) b" if "i \<le> n" for i
    using that
  proof (induction "n - i" arbitrary: i)
    case 0
    then show ?case using f(2) fw by (simp add: forwards_def)
  next
    case (Suc j)
    then have "forwards img (n - Suc i) (f (Suc i)) b" by simp
    moreover have "redirect_step img (f i) (f (Suc i))" by (rule f(3)) (use Suc.hyps(2) in simp)
    moreover have "n - i = Suc (n - Suc i)" using Suc.hyps(2) by simp
    ultimately show ?case using forwards_Suc by metis
  qed
  have "inj_on f {..<n}"
  proof (rule inj_onI)
    fix i j
    assume ij: "i \<in> {..<n}" "j \<in> {..<n}" "f i = f j"
    then have "n - i = n - j" using forwards_unique [OF wf tail [of i], of "n - j"] tail [of j] by simp
    then show "i = j" using ij by simp
  qed
  moreover have "f ` {..<n} \<subseteq> Collect (redirected img)" using f(3) by (fastforce simp: redirected_iff)
  ultimately have "card {..<n} \<le> card (Collect (redirected img))" by (intro card_inj_on_le) auto
  then show ?thesis using card_sources [of img] by simp
qed

lemma redirections_fit:
  assumes "image_wf img"
  shows "length (redirections img) \<le> 2 ^ 32"
proof -
  have "sorted_wrt (<) (map source_rva (redirections img))"
    using assms by (simp add: image_wf_def redirection_wf_def sorted_wrt_map)
  then have "distinct (map source_rva (redirections img))" by (simp add: strict_sorted_iff)
  then have "length (redirections img) = card (set (map source_rva (redirections img)))"
    using distinct_card [of "map source_rva (redirections img)"] by simp
  also have "\<dots> \<le> card (UNIV :: u32 set)" by (intro card_mono) auto
  finally show ?thesis by (simp add: card_word)
qed

section \<open>The loop follows the chain\<close>

lemma classify_fields:
  assumes "gem_pe_arm64x_classify_rva (Some img) a True = Inr info"
  shows "size_of_image (summary img) \<le> a \<Longrightarrow> \<not> has_redirection info"
    and "a < size_of_image (summary img) \<Longrightarrow> find_redirection img a = Some d \<Longrightarrow> redirection_destination_rva info = destination_rva d"
    and "a < size_of_image (summary img) \<Longrightarrow> executable_section info = executable_at img a"
  using assms
  by (auto simp: gem_pe_arm64x_classify_rva_def Let_def executable_at_def not_less split: if_splits option.splits prod.splits)

lemma classify_redirection:
  assumes wf: "image_wf img" and run: "gem_pe_arm64x_classify_rva (Some img) a True = Inr info"
  shows "has_redirection info = redirected img a"
    and "has_redirection info \<Longrightarrow> redirect_step img a (redirection_destination_rva info)"
proof -
  note f = find_redirection_iff [OF wf, of a]
  have red: "redirected img a \<longleftrightarrow> find_redirection img a \<noteq> None" using f by (auto simp: redirected_def)
  have lim: "a < size_of_image (summary img)" if "redirected img a"
    using that wf by (auto simp: redirected_def image_wf_def redirection_wf_def)
  show r: "has_redirection info = redirected img a"
  proof (cases "a < size_of_image (summary img)")
    case True
    then show ?thesis using classify_class(4) [OF run] red by simp
  next
    case False
    then have "\<not> redirected img a" using lim by blast
    moreover have "\<not> has_redirection info" using classify_fields(1) [OF run] False by (simp add: not_less)
    ultimately show ?thesis by simp
  qed
  show "redirect_step img a (redirection_destination_rva info)" if h: "has_redirection info"
  proof -
    have "redirected img a" using h r by simp
    then obtain d where d: "find_redirection img a = Some d" using red by blast
    have a: "a < size_of_image (summary img)" using h r lim by blast
    have "redirection_destination_rva info = destination_rva d"
      by (rule classify_fields(2) [OF run a d])
    moreover have "d \<in> set (redirections img)" "source_rva d = a" using f [of d] d by auto
    ultimately show ?thesis by (auto simp: redirect_step_def)
  qed
qed

lemma follow_stop: "image_wf img \<Longrightarrow> \<not> redirected img a \<Longrightarrow> follow img (Suc k) a h = Inr (a, h)"
  using classify_total [of img a] classify_redirection(1) [of img a] by auto

lemma follow_step:
  assumes wf: "image_wf img" and st: "redirect_step img a b"
  shows "follow img (Suc k) a h = follow img k b (h + 1)"
proof -
  obtain info where info: "gem_pe_arm64x_classify_rva (Some img) a True = Inr info" using classify_total by blast
  have "redirected img a" using st by (auto simp: redirected_iff)
  then have "has_redirection info" using classify_redirection(1) [OF wf info] by simp
  moreover from this have "redirection_destination_rva info = b"
    by (rule redirect_step_det [OF wf classify_redirection(2) [OF wf info] st])
  ultimately show ?thesis using info by simp
qed

lemma follow_forwards:
  assumes wf: "image_wf img"
  shows "forwards img n a b \<Longrightarrow> n < k \<Longrightarrow> follow img k a h = Inr (b, h + of_nat n)"
proof (induction n arbitrary: a k h)
  case 0
  then obtain j where "k = Suc j" by (cases k) auto
  moreover have "a = b" "\<not> redirected img b" using 0 by auto
  ultimately show ?case using follow_stop [OF wf, of b j h] by (simp del: follow.simps)
next
  case (Suc n)
  obtain d where d: "redirect_step img a d" "forwards img n d b" using Suc.prems(1) by (auto simp: forwards_Suc)
  obtain j where j: "k = Suc j" "n < j" using Suc.prems(2) by (cases k) auto
  have "follow img k a h = follow img j d (h + 1)" unfolding j(1) by (rule follow_step [OF wf d(1)])
  also have "\<dots> = Inr (b, h + 1 + of_nat n)" by (rule Suc.IH [OF d(2) j(2)])
  finally show ?case by (simp add: add.assoc)
qed

lemma follow_endless:
  assumes wf: "image_wf img"
  shows "\<forall>n b. \<not> forwards img n a b \<Longrightarrow> follow img k a h = Inl GEM_ARM64EC_TARGET_MALFORMED_METADATA"
proof (induction k arbitrary: a h)
  case (Suc k)
  from Suc.prems have "\<not> forwards img 0 a a" by blast
  then obtain d where d: "redirect_step img a d" by (auto simp: redirected_iff)
  have "\<not> forwards img n d b" for n b
  proof
    assume "forwards img n d b"
    then have "forwards img (Suc n) a b" using d forwards_Suc by blast
    with Suc.prems show False by blast
  qed
  then show ?case unfolding follow_step [OF wf d] by (intro Suc.IH) blast
qed simp

section \<open>Resolution\<close>

text \<open>What \<open>gem_arm64ec_target_map_create\<close> establishes.\<close>

definition map_wf :: "gem_arm64ec_target_map \<Rightarrow> bool" where
  "map_wf tm \<longleftrightarrow> image_wf (map_image tm) \<and> map_summary tm = summary (map_image tm) \<and>
     unat (map_loaded_end tm) = unat (map_loaded_base tm) + unat (size_of_image (map_summary tm))"

lemma map_create_wf:
  assumes "image_wf img" and "gem_arm64ec_target_map_create am al (Some img) base out = Inr tm"
  shows "map_wf tm \<and> map_image tm = img \<and> map_loaded_base tm = base"
  using assms
  by (auto simp: gem_arm64ec_target_map_create_def gem_pe_arm64x_get_summary_def map_wf_def checked_add_Some_iff
      dest!: clone_Inr [OF assms(1)] split: if_splits option.splits sum.splits)

lemma forwards_in_image:
  assumes "image_wf img" and "forwards img n a b" and "a < size_of_image (summary img)"
  shows "b < size_of_image (summary img)"
proof (cases n)
  case (Suc k)
  then obtain c where "redirect_step img c b" using assms(2) by (auto simp: forwards_def)
  then show ?thesis using assms(1) by (auto simp: redirect_step_def image_wf_def redirection_wf_def)
qed (use assms in auto)

text \<open>The class of code at an address of the image, by its code map.\<close>

definition code_class :: "gem_pe_arm64x_image \<Rightarrow> u32 \<Rightarrow> gem_pe_rva_class option" where
  "code_class img a = map_option code_isa (find_code_range img a)"

lemma code_class_range:
  assumes "image_wf img" and "code_class img a = Some c"
  shows "\<exists>k. class_kind c = Some k"
proof -
  obtain r where r: "find_code_range img a = Some r" "c = code_isa r" using assms(2) by (auto simp: code_class_def)
  then have "r \<in> set (code_ranges img)" using find_code_iff [OF assms(1)] by blast
  then have "code_isa r \<in> {GEM_PE_RVA_ARM64, GEM_PE_RVA_ARM64EC, GEM_PE_RVA_X64}"
    using assms(1) by (auto simp: image_wf_def code_wf_def code_ok_def)
  then show ?thesis using r(2) by auto
qed

text \<open>The result of resolution at the end of a chain.\<close>

definition terminal_result :: "gem_arm64ec_target_map \<Rightarrow> gem_arm64ec_target_result \<Rightarrow> gem_arm64ec_target_status + gem_arm64ec_target_result" where
  "terminal_result tm r =
     (case (if executable_at (map_image tm) (resolved_rva r) then code_class (map_image tm) (resolved_rva r) else None) of
        None \<Rightarrow> Inl GEM_ARM64EC_TARGET_NOT_EXECUTABLE
      | Some c \<Rightarrow>
         (if c \<noteq> GEM_PE_RVA_X64 \<and> resolved_va r AND 3 \<noteq> 0 then Inl GEM_ARM64EC_TARGET_MISALIGNED
          else Inr (r\<lparr>kind := class_kind c\<rparr>)))"

lemma class_kind_x64 [simp]: "class_kind c = Some GEM_ARM64EC_TARGET_X64_BOUNDARY \<longleftrightarrow> c = GEM_PE_RVA_X64"
  by (cases c) auto

lemma classify_terminal_result:
  assumes wf: "map_wf tm" and nr: "\<not> redirected (map_image tm) (resolved_rva r)"
    and lim: "resolved_rva r < size_of_image (summary (map_image tm))"
  shows "classify_terminal tm (resolved_rva r) r = terminal_result tm r"
proof -
  let ?img = "map_image tm" and ?a = "resolved_rva r"
  have iwf: "image_wf ?img" using wf by (simp add: map_wf_def)
  obtain info where info: "gem_pe_arm64x_classify_rva (Some ?img) ?a True = Inr info" using classify_total by blast
  have lim': "\<not> size_of_image (summary ?img) \<le> ?a" using lim by simp
  note cl = classify_class(1,2) [OF info] and ex = classify_fields(3) [OF info lim]
  have nf: "find_redirection ?img ?a = None"
    using nr find_redirection_iff [OF iwf, of ?a] by (cases "find_redirection ?img ?a") (auto simp: redirected_def)
  show ?thesis
  proof (cases "find_code_range ?img ?a")
    case None
    then have "find_entry_range ?img ?a = None" using entry_in_x64 [OF iwf] by fastforce
    then have "classification info \<in> {GEM_PE_RVA_INVALID, GEM_PE_RVA_DATA}" using cl(1) nf None lim' by simp
    then show ?thesis using info ex lim None wf
      by (auto simp: classify_terminal_def terminal_result_def code_class_def terminal_kind_def map_wf_def not_le)
  next
    case (Some c)
    then have cc: "code_class ?img ?a = Some (code_isa c)" by (simp add: code_class_def)
    obtain k where k: "class_kind (code_isa c) = Some k" using code_class_range [OF iwf cc] by blast
    have "terminal_kind info = Inr k \<and> classification info \<noteq> GEM_PE_RVA_INVALID"
    proof (cases "find_entry_range ?img ?a")
      case None
      then have "classification info = code_isa c" using cl(1) nf Some lim' by simp
      then show ?thesis using k by (auto simp: terminal_kind_def)
    next
      case (Some e)
      then have "classification info = GEM_PE_RVA_THUNK" using cl(1) nf lim' by simp
      moreover have "code_map_isa info = code_isa c" using cl(2) lim \<open>find_code_range ?img ?a = Some c\<close> by simp
      ultimately show ?thesis using k by (simp add: terminal_kind_def)
    qed
    moreover have "k = GEM_ARM64EC_TARGET_X64_BOUNDARY \<longleftrightarrow> code_isa c = GEM_PE_RVA_X64" using k by (cases "code_isa c") auto
    ultimately show ?thesis using info ex k cc by (auto simp: classify_terminal_def terminal_result_def)
  qed
qed

lemma requested_rva:
  assumes "map_wf tm" and "map_loaded_base tm \<le> va" and "va < map_loaded_end tm"
  shows "unat (ucast (va - map_loaded_base tm) :: u32) = unat va - unat (map_loaded_base tm)"
    and "(ucast (va - map_loaded_base tm) :: u32) < size_of_image (summary (map_image tm))"
proof -
  have d: "unat (va - map_loaded_base tm) = unat va - unat (map_loaded_base tm)" using assms(2) by (simp add: unat_sub)
  moreover have "unat va < unat (map_loaded_base tm) + unat (size_of_image (summary (map_image tm)))"
    using assms by (simp add: map_wf_def word_less_nat_alt)
  moreover have "unat (size_of_image (summary (map_image tm))) < 2 ^ 32" using unsigned_less [of "size_of_image (summary (map_image tm))"] by simp
  moreover have "unat (map_loaded_base tm) \<le> unat va" using assms(2) by (simp add: word_le_nat_alt)
  ultimately show u: "unat (ucast (va - map_loaded_base tm) :: u32) = unat va - unat (map_loaded_base tm)"
    by (simp add: unsigned_ucast_eq take_bit_nat_eq_self)
  show "(ucast (va - map_loaded_base tm) :: u32) < size_of_image (summary (map_image tm))"
    using u \<open>unat va < _\<close> \<open>unat (map_loaded_base tm) \<le> unat va\<close> by (simp add: word_less_nat_alt)
qed

lemma hop_limit:
  assumes "image_wf img"
  shows "unat (gem_pe_arm64x_redirection_count (Some img) + 1) = Suc (length (redirections img))"
proof -
  have "unat (redirection_count (summary img)) = length (redirections img)" using image_lengths(4) [OF assms] by simp
  moreover have "length (redirections img) \<le> 2 ^ 32" by (rule redirections_fit [OF assms])
  ultimately show ?thesis using unat_add_no_wrap [of "redirection_count (summary img)" 1]
    by (simp add: gem_pe_arm64x_redirection_count_def)
qed

text \<open>The result before its kind is known, for a request that ends at \<open>b\<close> after \<open>n\<close> redirections.\<close>

definition resolution :: "gem_arm64ec_target_map \<Rightarrow> u64 \<Rightarrow> nat \<Rightarrow> u32 \<Rightarrow> gem_arm64ec_target_result" where
  "resolution tm va n b = \<lparr>requested_va = va, resolved_va = map_loaded_base tm + ucast b,
     requested_rva = ucast (va - map_loaded_base tm), resolved_rva = b, kind = None, redirection_hops = of_nat n\<rparr>"

lemma resolution_simps [simp]:
  "resolved_rva (resolution tm va n b) = b"
  "resolved_va (resolution tm va n b) = map_loaded_base tm + ucast b"
  "requested_va (resolution tm va n b) = va"
  by (simp_all add: resolution_def)

lemma target_fits:
  assumes "map_wf tm" and "b < size_of_image (summary (map_image tm))"
  shows "unat (map_loaded_base tm + ucast b) = unat (map_loaded_base tm) + unat b"
    and "map_loaded_base tm + ucast b < map_loaded_end tm"
proof -
  have lim: "unat (map_loaded_base tm) + unat b < unat (map_loaded_end tm)"
    using assms by (simp add: map_wf_def word_less_nat_alt)
  moreover have "unat (map_loaded_end tm) < 2 ^ 64" using unsigned_less [of "map_loaded_end tm"] by simp
  ultimately show u: "unat (map_loaded_base tm + ucast b) = unat (map_loaded_base tm) + unat b"
    using unat_add_no_wrap [of "map_loaded_base tm" "ucast b"] by simp
  show "map_loaded_base tm + ucast b < map_loaded_end tm" using u lim by (simp add: word_less_nat_alt)
qed

lemma resolve_forwards:
  assumes wf: "map_wf tm" and va: "map_loaded_base tm \<le> va" "va < map_loaded_end tm"
    and fw: "forwards (map_image tm) n (ucast (va - map_loaded_base tm)) b"
  shows "gem_arm64ec_target_resolve (Some tm) va True = terminal_result tm (resolution tm va n b)"
proof -
  let ?img = "map_image tm"
  have iwf: "image_wf ?img" using wf by (simp add: map_wf_def)
  have b: "b < size_of_image (summary ?img)" by (rule forwards_in_image [OF iwf fw requested_rva(2) [OF wf va]])
  have "follow ?img (unat (gem_pe_arm64x_redirection_count (Some ?img) + 1)) (ucast (va - map_loaded_base tm)) 0 = Inr (b, 0 + of_nat n)"
    by (rule follow_forwards [OF iwf fw]) (use forwards_bounded [OF iwf fw] in \<open>simp add: hop_limit [OF iwf]\<close>)
  moreover have "checked_add (map_loaded_base tm) (ucast b) = Some (map_loaded_base tm + ucast b)"
    using target_fits(1) [OF wf b] by (simp add: checked_add_Some_iff)
  moreover have "classify_terminal tm b (resolution tm va n b) = terminal_result tm (resolution tm va n b)"
    using classify_terminal_result [OF wf, of "resolution tm va n b"] fw b by (simp add: forwards_def)
  moreover have "\<not> va < map_loaded_base tm" "\<not> map_loaded_end tm \<le> va" using va by auto
  ultimately show ?thesis by (simp add: gem_arm64ec_target_resolve_def resolution_def Let_def)
qed

lemma resolve_endless:
  assumes wf: "map_wf tm" and va: "map_loaded_base tm \<le> va" "va < map_loaded_end tm"
    and no: "\<forall>n b. \<not> forwards (map_image tm) n (ucast (va - map_loaded_base tm)) b"
  shows "gem_arm64ec_target_resolve (Some tm) va True = Inl GEM_ARM64EC_TARGET_MALFORMED_METADATA"
proof -
  have "image_wf (map_image tm)" using wf by (simp add: map_wf_def)
  moreover have "\<not> va < map_loaded_base tm" "\<not> map_loaded_end tm \<le> va" using va by auto
  ultimately show ?thesis using follow_endless [OF _ no] by (simp add: gem_arm64ec_target_resolve_def Let_def)
qed

lemma terminal_resultD:
  assumes "terminal_result tm r = Inr t" and "map_wf tm"
  shows "\<exists>c k. executable_at (map_image tm) (resolved_rva r) \<and> code_class (map_image tm) (resolved_rva r) = Some c \<and>
    class_kind c = Some k \<and> t = r\<lparr>kind := Some k\<rparr> \<and> (k \<noteq> GEM_ARM64EC_TARGET_X64_BOUNDARY \<longrightarrow> resolved_va r AND 3 = 0)"
proof -
  obtain c where c: "executable_at (map_image tm) (resolved_rva r)" "code_class (map_image tm) (resolved_rva r) = Some c"
      "t = r\<lparr>kind := class_kind c\<rparr>" "\<not> (c \<noteq> GEM_PE_RVA_X64 \<and> resolved_va r AND 3 \<noteq> 0)"
    using assms(1) by (auto simp: terminal_result_def split: option.splits if_splits)
  moreover obtain k where "class_kind c = Some k" using code_class_range [OF _ c(2)] assms(2) by (auto simp: map_wf_def)
  ultimately show ?thesis by auto
qed

text \<open>
  (C23) Resolving an address of the loaded image follows its chain of redirections to the end, however
  long, and answers for the address where it ends: not executable unless that address lies in an
  executable section and in a code range, misaligned for ARM64 code off a four-byte boundary, and
  otherwise the kind of the code range, an address inside the image and the number of redirections.
\<close>

theorem resolve_spec:
  assumes wf: "map_wf tm" and va: "map_loaded_base tm \<le> va" "va < map_loaded_end tm"
    and fw: "forwards (map_image tm) n (ucast (va - map_loaded_base tm)) b"
  shows "gem_arm64ec_target_resolve (Some tm) va True = terminal_result tm (resolution tm va n b) \<and>
    unat (map_loaded_base tm + ucast b) = unat (map_loaded_base tm) + unat b \<and>
    map_loaded_base tm + ucast b < map_loaded_end tm"
proof -
  have iwf: "image_wf (map_image tm)" using wf by (simp add: map_wf_def)
  have b: "b < size_of_image (summary (map_image tm))" by (rule forwards_in_image [OF iwf fw requested_rva(2) [OF wf va]])
  show ?thesis using resolve_forwards [OF assms] target_fits [OF wf b] by blast
qed

text \<open>
  (C24) The hop limit is exact: resolving an address of the loaded image reports malformed metadata
  precisely when its redirections never end, and never for a finite chain.
\<close>

theorem resolve_malformed_iff_endless:
  assumes wf: "map_wf tm" and va: "map_loaded_base tm \<le> va" "va < map_loaded_end tm"
  shows "gem_arm64ec_target_resolve (Some tm) va True = Inl GEM_ARM64EC_TARGET_MALFORMED_METADATA \<longleftrightarrow>
    \<not> (\<exists>n b. forwards (map_image tm) n (ucast (va - map_loaded_base tm)) b)"
proof (cases "\<exists>n b. forwards (map_image tm) n (ucast (va - map_loaded_base tm)) b")
  case True
  then obtain n b where "forwards (map_image tm) n (ucast (va - map_loaded_base tm)) b" by blast
  from resolve_forwards [OF wf va this] have "gem_arm64ec_target_resolve (Some tm) va True \<noteq> Inl GEM_ARM64EC_TARGET_MALFORMED_METADATA"
    by (simp add: terminal_result_def split: option.split)
  then show ?thesis using True by blast
next
  case False
  then show ?thesis using resolve_endless [OF wf va] by blast
qed

section \<open>The indirect-call checker\<close>

text \<open>ARM64 code of the image that can be entered: in range, executable, mapped as ARM64 or ARM64EC, aligned.\<close>

definition arm_entry :: "gem_arm64ec_target_map \<Rightarrow> u64 \<Rightarrow> bool" where
  "arm_entry tm va \<longleftrightarrow> map_loaded_base tm \<le> va \<and> va < map_loaded_end tm \<and> va AND 3 = 0 \<and>
     executable_at (map_image tm) (ucast (va - map_loaded_base tm)) \<and>
     code_class (map_image tm) (ucast (va - map_loaded_base tm)) \<in> {Some GEM_PE_RVA_ARM64, Some GEM_PE_RVA_ARM64EC}"

lemma resolve_Inr:
  assumes wf: "map_wf tm" and run: "gem_arm64ec_target_resolve (Some tm) va True = Inr t"
  shows "\<exists>n b. forwards (map_image tm) n (ucast (va - map_loaded_base tm)) b \<and> b < size_of_image (summary (map_image tm)) \<and>
    terminal_result tm (resolution tm va n b) = Inr t"
proof -
  have va: "map_loaded_base tm \<le> va" "va < map_loaded_end tm"
    using run by (auto simp: gem_arm64ec_target_resolve_def split: if_splits)
  have "\<exists>n b. forwards (map_image tm) n (ucast (va - map_loaded_base tm)) b"
    using resolve_endless [OF wf va] run by fastforce
  then obtain n b where fw: "forwards (map_image tm) n (ucast (va - map_loaded_base tm)) b" by blast
  have "b < size_of_image (summary (map_image tm))"
    by (rule forwards_in_image [OF _ fw requested_rva(2) [OF wf va]]) (use wf in \<open>simp add: map_wf_def\<close>)
  then show ?thesis using fw resolve_forwards [OF wf va fw] run by auto
qed

lemma rva_of_target:
  assumes "map_wf tm" and "b < size_of_image (summary (map_image tm))"
  shows "ucast (map_loaded_base tm + ucast b - map_loaded_base tm) = b" and "map_loaded_base tm \<le> map_loaded_base tm + ucast b"
proof -
  have "unat (ucast (ucast b :: u64) :: u32) = unat b"
    by (simp add: unsigned_ucast_eq take_bit_word_beyond_length_eq)
  then show "ucast (map_loaded_base tm + ucast b - map_loaded_base tm) = b" by (simp add: word_unat_eq_iff)
  show "map_loaded_base tm \<le> map_loaded_base tm + ucast b" using target_fits(1) [OF assms] by (simp add: word_le_nat_alt)
qed

lemma resolve_arm:
  assumes wf: "map_wf tm" and run: "gem_arm64ec_target_resolve (Some tm) va True = Inr t"
    and k: "kind t \<noteq> Some GEM_ARM64EC_TARGET_X64_BOUNDARY"
  shows "arm_entry tm (resolved_va t) \<and> \<not> redirected (map_image tm) (ucast (resolved_va t - map_loaded_base tm))"
proof -
  obtain n b where fw: "forwards (map_image tm) n (ucast (va - map_loaded_base tm)) b" and b: "b < size_of_image (summary (map_image tm))"
      and t: "terminal_result tm (resolution tm va n b) = Inr t"
    using resolve_Inr [OF wf run] by blast
  obtain c l where c: "executable_at (map_image tm) b" "code_class (map_image tm) b = Some c" "class_kind c = Some l"
      "t = (resolution tm va n b)\<lparr>kind := Some l\<rparr>" "l \<noteq> GEM_ARM64EC_TARGET_X64_BOUNDARY \<longrightarrow> (map_loaded_base tm + ucast b) AND 3 = 0"
    using terminal_resultD [OF t wf] by auto
  have "l \<noteq> GEM_ARM64EC_TARGET_X64_BOUNDARY" using k c(4) by simp
  then have "c \<in> {GEM_PE_RVA_ARM64, GEM_PE_RVA_ARM64EC}" using c(3) by (cases c) auto
  then show ?thesis using c \<open>l \<noteq> _\<close> rva_of_target [OF wf b] target_fits(2) [OF wf b] fw
    by (auto simp: arm_entry_def forwards_def)
qed

lemma rva_back:
  assumes "map_wf tm" and "map_loaded_base tm \<le> va" "va < map_loaded_end tm"
  shows "map_loaded_base tm + ucast (ucast (va - map_loaded_base tm) :: u32) = va"
proof -
  have "unat (map_loaded_base tm + ucast (ucast (va - map_loaded_base tm) :: u32)) = unat va"
    using target_fits(1) [OF assms(1) requested_rva(2) [OF assms]] requested_rva(1) [OF assms] assms(2) by (simp add: word_le_nat_alt)
  then show ?thesis by (simp add: word_unat_eq_iff)
qed

lemma resolve_arm_entry:
  assumes wf: "map_wf tm" and va: "arm_entry tm va" and nr: "\<not> redirected (map_image tm) (ucast (va - map_loaded_base tm))"
  shows "\<exists>t. gem_arm64ec_target_resolve (Some tm) va True = Inr t \<and> resolved_va t = va \<and> redirection_hops t = 0 \<and>
    kind t \<noteq> Some GEM_ARM64EC_TARGET_X64_BOUNDARY"
proof -
  let ?b = "ucast (va - map_loaded_base tm) :: u32"
  have r: "map_loaded_base tm \<le> va" "va < map_loaded_end tm" using va by (simp_all add: arm_entry_def)
  have fw: "forwards (map_image tm) 0 ?b ?b" using nr by simp
  note same = rva_back [OF wf r]
  have "\<exists>t. terminal_result tm (resolution tm va 0 ?b) = Inr t \<and> resolved_va t = va \<and> redirection_hops t = 0 \<and>
      kind t \<noteq> Some GEM_ARM64EC_TARGET_X64_BOUNDARY"
    using va by (auto simp: terminal_result_def same arm_entry_def resolution_def)
  then show ?thesis unfolding resolve_forwards [OF wf r fw] .
qed

lemma resolve_plain:
  assumes wf: "map_wf tm" and run: "gem_arm64ec_target_resolve (Some tm) va True = Inr t"
    and plain: "\<not> redirected (map_image tm) (ucast (va - map_loaded_base tm))"
  shows "va = resolved_va t"
proof -
  have r: "map_loaded_base tm \<le> va" "va < map_loaded_end tm" using run by (auto simp: gem_arm64ec_target_resolve_def split: if_splits)
  have "forwards (map_image tm) 0 (ucast (va - map_loaded_base tm)) (ucast (va - map_loaded_base tm))" using plain by simp
  from resolve_forwards [OF wf r this] have "terminal_result tm (resolution tm va 0 (ucast (va - map_loaded_base tm))) = Inr t" using run by simp
  from terminal_resultD [OF this wf] show ?thesis using rva_back [OF wf r] by auto
qed

lemma checker_run:
  assumes "gem_arm64ec_checker_dispatch (Some tm) policy req (Some c) out = (Inr t, Some c')"
  shows "gem_context_is_valid c \<and> isa c = isa_code GEM_ISA_ARM64EC \<and>
    gem_arm64ec_target_resolve (Some tm) (x c ! 11) True = Inr t \<and>
    (req \<longrightarrow> gem_arm64ec_cfg_authorize policy (x c ! 11) = GEM_ARM64EC_TARGET_OK) \<and>
    (if kind t = Some GEM_ARM64EC_TARGET_X64_BOUNDARY
     then \<exists>th. gem_arm64ec_target_resolve (Some tm) (x c ! 10) True = Inr th \<and> kind th \<noteq> Some GEM_ARM64EC_TARGET_X64_BOUNDARY \<and>
       c' = c\<lparr>x := (x c)[9 := x c ! 11, 11 := resolved_va th]\<rparr>
     else c' = c)"
  using assms
  by (auto simp: gem_arm64ec_checker_dispatch_def checker_decide_def checked_def split: sum.splits if_splits)

text \<open>
  (C25) The indirect-call checker of a well-formed map is transactional and keeps its contract. When it
  refuses, the context is unchanged. When it accepts, the policy, where required, has authorised the
  original target; an x64 target is left in \<open>x9\<close> with \<open>x11\<close> at executable, aligned ARM64 code of the
  image, every other register and the validity of the context kept, and checking again changes
  nothing. For any other target the context is left alone, \<open>x11\<close> included; the result names such code, and \<open>x11\<close>
  is that code unless the image redirects its address.
\<close>

theorem checker_dispatch_safe:
  assumes wf: "map_wf tm" and shape: "gem_context_shape c"
    and run: "gem_arm64ec_checker_dispatch (Some tm) policy req (Some c) out = (res, co)"
  shows "case res of
      Inl e \<Rightarrow> co = Some c
    | Inr t \<Rightarrow> \<exists>c'. co = Some c' \<and> gem_context_is_valid c' \<and>
        (req \<longrightarrow> (\<exists>f. policy = Some (Some f) \<and> f (x c ! 11))) \<and>
        (if kind t = Some GEM_ARM64EC_TARGET_X64_BOUNDARY
         then c' = c\<lparr>x := (x c)[9 := x c ! 11, 11 := x c' ! 11]\<rparr> \<and> arm_entry tm (x c' ! 11) \<and>
           (\<exists>t'. gem_arm64ec_checker_dispatch (Some tm) policy False (Some c') True = (Inr t', Some c') \<and> resolved_va t' = x c' ! 11)
         else c' = c \<and> arm_entry tm (resolved_va t) \<and>
           (\<not> redirected (map_image tm) (ucast (x c ! 11 - map_loaded_base tm)) \<longrightarrow> x c ! 11 = resolved_va t))"
proof (cases res)
  case (Inl e)
  then show ?thesis using run by (auto simp: gem_arm64ec_checker_dispatch_def split: sum.splits prod.splits)
next
  case (Inr t)
  then obtain c' where co: "co = Some c'" using run by (auto simp: gem_arm64ec_checker_dispatch_def split: sum.splits prod.splits)
  note r = checker_run [OF run [unfolded Inr co]]
  have pol: "req \<longrightarrow> (\<exists>f. policy = Some (Some f) \<and> f (x c ! 11))"
    using r by (auto simp: gem_arm64ec_cfg_authorize_def split: option.splits if_splits)
  show ?thesis
  proof (cases "kind t = Some GEM_ARM64EC_TARGET_X64_BOUNDARY")
    case False
    then show ?thesis using r resolve_arm [OF wf _ False] resolve_plain [OF wf] pol co Inr by auto
  next
    case True
    then obtain th where th: "gem_arm64ec_target_resolve (Some tm) (x c ! 10) True = Inr th" "kind th \<noteq> Some GEM_ARM64EC_TARGET_X64_BOUNDARY"
        and c': "c' = c\<lparr>x := (x c)[9 := x c ! 11, 11 := resolved_va th]\<rparr>"
      using r by auto
    have x11: "x c' ! 11 = resolved_va th" using shape by (simp add: c' gem_context_shape_def)
    have valid: "gem_context_is_valid c'" "isa c' = isa_code GEM_ISA_ARM64EC" using r by (auto simp: c' gem_context_is_valid_def)
    note a = resolve_arm [OF wf th]
    obtain t' where t': "gem_arm64ec_target_resolve (Some tm) (x c' ! 11) True = Inr t'" "resolved_va t' = x c' ! 11"
        "kind t' \<noteq> Some GEM_ARM64EC_TARGET_X64_BOUNDARY"
      using resolve_arm_entry [OF wf, of "x c' ! 11"] a x11 by auto
    have "gem_arm64ec_checker_dispatch (Some tm) policy False (Some c') True = (Inr t', Some c')"
      using t' valid by (simp add: gem_arm64ec_checker_dispatch_def checker_decide_def guard_that_def)
    then show ?thesis using True Inr co pol valid a x11 t'(2) c' by auto
  qed
qed

section \<open>A concrete map\<close>

text \<open>
  One executable section of two pages, ARM64EC code in the first and x64 code in the second, a chain
  of two redirections and a redirection to itself.
\<close>

definition target_image :: gem_pe_arm64x_image where
  "target_image = sample_image\<lparr>summary := (summary sample_image)\<lparr>size_of_image := 0x3000, code_range_count := 2,
       entry_range_count := 0, redirection_count := 3\<rparr>,
     sections := [\<lparr>virtual_address = 0x1000, virtual_size = 0x2000, raw_size = 0, raw_pointer = 0, characteristics = 0x20000000\<rparr>],
     code_ranges := [\<lparr>code_start_rva = 0x1000, code_end_rva = 0x2000, code_isa = GEM_PE_RVA_ARM64EC\<rparr>,
       \<lparr>code_start_rva = 0x2000, code_end_rva = 0x3000, code_isa = GEM_PE_RVA_X64\<rparr>],
     entry_ranges := [],
     redirections := [\<lparr>source_rva = 0x1000, destination_rva = 0x1010\<rparr>, \<lparr>source_rva = 0x1010, destination_rva = 0x2001\<rparr>,
       \<lparr>source_rva = 0x1020, destination_rva = 0x1020\<rparr>]\<rparr>"

definition target_map :: gem_arm64ec_target_map where
  "target_map = \<lparr>map_image = target_image, map_summary = summary target_image, map_loaded_base = 0x100000, map_loaded_end = 0x103000\<rparr>"

definition target_context :: gem_thread_context where
  "target_context = (gem_context_initialize 0x5000 GEM_ISA_ARM64EC)\<lparr>x := (replicate 31 0)[10 := 0x101040, 11 := 0x101000, 18 := 0x5000]\<rparr>"

lemmas target_defs = target_map_def target_image_def sample_image_def

lemma target_map_wf: "map_wf target_map"
  by (simp add: map_wf_def image_wf_def sections_wf_def section_ok_def section_end_def section_virtual_extent_def code_wf_def
      code_ok_def executable_at_def find_section_for_span_def section_contains_span_def section_is_executable_def checked_add_def
      entry_wf_def redirection_wf_def target_defs)

lemma target_chain: "forwards target_image 2 0x1000 0x2001"
proof -
  have "redirect_step target_image 0x1000 0x1010" "redirect_step target_image 0x1010 0x2001" "\<not> redirected target_image 0x2001"
    by (simp_all add: redirect_step_def redirected_def target_defs)
  then have "forwards target_image (Suc (Suc 0)) 0x1000 0x2001" unfolding forwards_Suc by auto
  then show ?thesis by (simp add: numeral_2_eq_2)
qed

theorem resolve_spec_witness:
  "gem_arm64ec_target_resolve (Some target_map) 0x101000 True =
     Inr ((resolution target_map 0x101000 2 0x2001)\<lparr>kind := Some GEM_ARM64EC_TARGET_X64_BOUNDARY\<rparr>)"
proof -
  have "forwards (map_image target_map) 2 (ucast (0x101000 - map_loaded_base target_map)) 0x2001"
    using target_chain by (simp add: target_map_def)
  moreover have "map_loaded_base target_map \<le> 0x101000" "0x101000 < map_loaded_end target_map" by (simp_all add: target_map_def)
  moreover have "terminal_result target_map (resolution target_map 0x101000 2 0x2001) =
      Inr ((resolution target_map 0x101000 2 0x2001)\<lparr>kind := Some GEM_ARM64EC_TARGET_X64_BOUNDARY\<rparr>)" by code_simp
  ultimately show ?thesis using resolve_spec [OF target_map_wf] by simp
qed

theorem resolve_malformed_iff_endless_witness:
  "gem_arm64ec_target_resolve (Some target_map) 0x101020 True = Inl GEM_ARM64EC_TARGET_MALFORMED_METADATA \<and>
   \<not> (\<exists>n b. forwards target_image n 0x1020 b)"
proof -
  have "gem_arm64ec_target_resolve (Some target_map) 0x101020 True = Inl GEM_ARM64EC_TARGET_MALFORMED_METADATA" by code_simp
  moreover have "map_loaded_base target_map \<le> 0x101020" "0x101020 < map_loaded_end target_map" by (simp_all add: target_map_def)
  ultimately show ?thesis using resolve_malformed_iff_endless [OF target_map_wf, where va = "0x101020"] by (simp add: target_map_def)
qed

theorem checker_dispatch_safe_witness:
  "\<exists>t c'. gem_arm64ec_checker_dispatch (Some target_map) None False (Some target_context) True = (Inr t, Some c') \<and>
     kind t = Some GEM_ARM64EC_TARGET_X64_BOUNDARY \<and> x c' ! 9 = 0x101000 \<and> arm_entry target_map (x c' ! 11)"
proof -
  have "case gem_arm64ec_checker_dispatch (Some target_map) None False (Some target_context) True of
      (Inr t, Some c') \<Rightarrow> kind t = Some GEM_ARM64EC_TARGET_X64_BOUNDARY | _ \<Rightarrow> False" by code_simp
  then obtain t c' where run: "gem_arm64ec_checker_dispatch (Some target_map) None False (Some target_context) True = (Inr t, Some c')"
      and k: "kind t = Some GEM_ARM64EC_TARGET_X64_BOUNDARY"
    by (auto split: prod.splits sum.splits option.splits)
  have sh: "gem_context_shape target_context" by code_simp
  note s = checker_dispatch_safe [OF target_map_wf sh run]
  have len: "length (x target_context) = 31" "x target_context ! 11 = 0x101000" by code_simp+
  from s k have c': "c' = target_context\<lparr>x := (x target_context)[9 := x target_context ! 11, 11 := x c' ! 11]\<rparr>"
    and a: "arm_entry target_map (x c' ! 11)" by simp_all
  have "x c' ! 9 = 0x101000" by (subst c') (simp add: len)
  then show ?thesis using run k a by blast
qed

end
