(* ===== verification/Gem_Loader.thy ===== *)
theory Gem_Loader
  imports Gem_Pe_Theorems Gem_Memory_Api
begin

text \<open>
  Materialising an ARM64X image in guest memory, src/gem/pe_arm64x_loader.c. The steps after the
  reservation are a state-and-status chain over the memory; the label \<open>Fail\<close> is the release that
  follows when the chain stops.
\<close>

datatype gem_pe_materialize_status =
    GEM_PE_MATERIALIZE_OK
  | GEM_PE_MATERIALIZE_INVALID_ARGUMENT
  | GEM_PE_MATERIALIZE_PARSE_ERROR
  | GEM_PE_MATERIALIZE_RELOCATION_REQUIRED
  | GEM_PE_MATERIALIZE_OVERFLOW
  | GEM_PE_MATERIALIZE_CONFLICT
  | GEM_PE_MATERIALIZE_BAD_SECTION
  | GEM_PE_MATERIALIZE_PERMISSION_CONFLICT
  | GEM_PE_MATERIALIZE_BAD_BINDING
  | GEM_PE_MATERIALIZE_MEMORY_ERROR

record gem_pe_arm64x_binding =
  slot_rva :: u32
  bind_value :: u64

text \<open>\<open>bindings\<close> is \<open>None\<close> for a null pointer.\<close>

record gem_pe_arm64x_materialize_options =
  mat_version :: u32
  mat_reserved :: u32
  mat_image_base :: u64
  bindings :: "gem_pe_arm64x_binding list option"
  binding_count :: size_t

record gem_pe_arm64x_materialized_image =
  metadata :: gem_pe_arm64x_image
  mat_base :: u64
  mat_size :: u64

datatype load_block = Result_block | Protection_block | Parse_block pe_block

definition GEM_PE_ARM64X_MATERIALIZE_OPTIONS_VERSION :: u32 where "GEM_PE_ARM64X_MATERIALIZE_OPTIONS_VERSION = 1"

definition GEM_PE_ARM64X_MAX_BINDINGS :: size_t where "GEM_PE_ARM64X_MAX_BINDINGS = 32"

definition section_protection :: "u32 \<Rightarrow> u32" where
  "section_protection ch =
     (let read = ch AND 0x40000000 \<noteq> 0; write = ch AND 0x80000000 \<noteq> 0; execute = ch AND 0x20000000 \<noteq> 0
      in if execute then (if write then GEM_PAGE_EXECUTE_READWRITE else if read then GEM_PAGE_EXECUTE_READ else GEM_PAGE_EXECUTE)
         else (if write then GEM_PAGE_READWRITE else if read then GEM_PAGE_READONLY else GEM_PAGE_NOACCESS))"

definition section_extent :: "gem_pe_arm64x_section \<Rightarrow> u32" where
  "section_extent s = (if out_virtual_size s > out_raw_size s then out_virtual_size s else out_raw_size s)"

definition section_contains :: "gem_pe_arm64x_section \<Rightarrow> u32 \<Rightarrow> u32 \<Rightarrow> bool" where
  "section_contains s rva sz \<longleftrightarrow>
     (let end = (ucast rva + ucast sz :: u64)
      in rva \<ge> out_virtual_address s \<and> end \<le> ucast (out_virtual_address s) + ucast (section_extent s))"

section \<open>Chains over the memory\<close>

type_synonym 'a loading = "gem_memory option \<Rightarrow> (gem_pe_materialize_status + 'a) \<times> gem_memory option"

definition load_then :: "'a loading \<Rightarrow> ('a \<Rightarrow> 'b loading) \<Rightarrow> 'b loading" where
  "load_then f g m = (case f m of (Inl e, m') \<Rightarrow> (Inl e, m') | (Inr a, m') \<Rightarrow> g a m')"

definition load_pure :: "gem_pe_materialize_status + 'a \<Rightarrow> 'a loading" where
  "load_pure r m = (r, m)"

definition load_require :: "bool \<Rightarrow> gem_pe_materialize_status \<Rightarrow> unit loading" where
  "load_require c e = load_pure (guard_that c e)"

text \<open>The memory calls, each with the status its failure becomes.\<close>

definition load_commit :: "u64 \<Rightarrow> u64 \<Rightarrow> u32 \<Rightarrow> gem_pe_materialize_status \<Rightarrow> unit loading" where
  "load_commit a n prot st m = (case gem_memory_commit m a n prot of
     (e, m') \<Rightarrow> (guard_that (e = GEM_MEMORY_OK) st, m'))"

definition load_write :: "u64 \<Rightarrow> byte_string \<Rightarrow> u64 \<Rightarrow> gem_pe_materialize_status \<Rightarrow> unit loading" where
  "load_write a bs n st m = (case gem_memory_write m a (Some bs) n of
     (e, _, m') \<Rightarrow> (guard_that (e = GEM_MEMORY_OK) st, m'))"

definition load_protect :: "u64 \<Rightarrow> u64 \<Rightarrow> u32 \<Rightarrow> gem_pe_materialize_status \<Rightarrow> unit loading" where
  "load_protect a n prot st m = (case gem_memory_protect m a n prot of
     (e, _, m') \<Rightarrow> (guard_that (e = GEM_MEMORY_OK) st, m'))"

section \<open>Sections, bindings and protections\<close>

text \<open>Claiming the pages \<open>page\<close> to \<open>page + k - 1\<close> for one protection.\<close>

fun claim_pages :: "u32 list \<Rightarrow> nat \<Rightarrow> nat \<Rightarrow> u32 \<Rightarrow> gem_pe_materialize_status + u32 list" where
  "claim_pages ps page 0 prot = Inr ps"
| "claim_pages ps page (Suc k) prot =
     (if page \<ge> length ps \<or> (ps ! page \<noteq> 0 \<and> ps ! page \<noteq> prot)
      then Inl GEM_PE_MATERIALIZE_PERMISSION_CONFLICT
      else claim_pages (ps[page := prot]) (Suc page) k prot)"

text \<open>The pages a section covers, from its start to its end rounded up.\<close>

definition section_pages :: "u32 list \<Rightarrow> gem_pe_arm64x_section \<Rightarrow> u64 \<Rightarrow> gem_pe_materialize_status + u32 list" where
  "section_pages ps s virtual_end =
     (let first_page = out_virtual_address s div 4096;
          final_page = ucast ((virtual_end + GEM_GUEST_PAGE_SIZE - 1) div GEM_GUEST_PAGE_SIZE) :: u32
      in claim_pages ps (unat first_page) (unat final_page - unat first_page) (section_protection (out_characteristics s)))"

text \<open>The file bytes of a section.\<close>

definition load_raw ::
  "byte_string \<Rightarrow> size_t \<Rightarrow> gem_pe_arm64x_materialized_image \<Rightarrow> gem_pe_arm64x_section \<Rightarrow> unit loading" where
  "load_raw bytes n_bytes r s =
     (if out_raw_size s = 0 then load_pure (Inr ())
      else (case gem_pe_arm64x_rva_to_file_offset (Some (metadata r)) (out_virtual_address s) (out_raw_size s) True of
          Inl _ \<Rightarrow> load_pure (Inl GEM_PE_MATERIALIZE_BAD_SECTION)
        | Inr off \<Rightarrow>
           load_then (load_require (\<not> (off > n_bytes \<or> ucast (out_raw_size s) > n_bytes - off)) GEM_PE_MATERIALIZE_BAD_SECTION) (\<lambda>_.
           load_write (mat_base r + ucast (out_virtual_address s)) (take (unat (out_raw_size s)) (drop (unat off) bytes))
             (ucast (out_raw_size s)) GEM_PE_MATERIALIZE_BAD_SECTION)))"

definition load_section ::
  "byte_string \<Rightarrow> size_t \<Rightarrow> gem_pe_arm64x_materialized_image \<Rightarrow> u32 list \<Rightarrow> size_t \<Rightarrow> u32 list loading" where
  "load_section bytes n_bytes r ps index =
     (case gem_pe_arm64x_get_section (Some (metadata r)) index True of
        Inl _ \<Rightarrow> load_pure (Inl GEM_PE_MATERIALIZE_BAD_SECTION)
      | Inr s \<Rightarrow>
         (case checked_add (ucast (out_virtual_address s) :: u64) (ucast (section_extent s)) of
            None \<Rightarrow> load_pure (Inl GEM_PE_MATERIALIZE_BAD_SECTION)
          | Some virtual_end \<Rightarrow>
             load_then (load_require (\<not> virtual_end > ucast (size_of_image (summary (metadata r)))) GEM_PE_MATERIALIZE_BAD_SECTION) (\<lambda>_.
             load_then (load_pure (section_pages ps s virtual_end)) (\<lambda>ps'.
             load_then (load_raw bytes n_bytes r s) (\<lambda>_.
             load_pure (Inr ps'))))))"

fun load_sections ::
  "byte_string \<Rightarrow> size_t \<Rightarrow> gem_pe_arm64x_materialized_image \<Rightarrow> u32 list \<Rightarrow> nat list \<Rightarrow> u32 list loading" where
  "load_sections bytes n r ps [] = load_pure (Inr ps)"
| "load_sections bytes n r ps (i # is) =
     load_then (load_section bytes n r ps (of_nat i)) (\<lambda>ps'. load_sections bytes n r ps' is)"

text \<open>The first section that contains the slot.\<close>

fun slot_section :: "gem_pe_arm64x_image \<Rightarrow> u32 \<Rightarrow> nat list \<Rightarrow> gem_pe_arm64x_section option" where
  "slot_section img rva [] = None"
| "slot_section img rva (i # is) =
     (case gem_pe_arm64x_get_section (Some img) (of_nat i) True of
        Inr s \<Rightarrow> if section_contains s rva 8 then Some s else slot_section img rva is
      | Inl _ \<Rightarrow> slot_section img rva is)"

definition binding_ok :: "gem_pe_arm64x_materialized_image \<Rightarrow> u64 \<Rightarrow> gem_pe_arm64x_binding list \<Rightarrow> gem_pe_arm64x_binding \<Rightarrow> bool" where
  "binding_ok r image_end earlier b \<longleftrightarrow>
     (case slot_section (metadata r) (slot_rva b) [0 ..< unat (gem_pe_arm64x_section_count (Some (metadata r)))] of
        None \<Rightarrow> False
      | Some s \<Rightarrow> \<not> (out_characteristics s AND 0x20000000 \<noteq> 0 \<or> bind_value b = 0 \<or>
          (bind_value b \<ge> mat_base r \<and> bind_value b < image_end))) \<and>
     \<not> (\<exists>e \<in> set earlier. slot_rva e = slot_rva b)"

text \<open>The value is written as the eight bytes of a little-endian machine.\<close>

fun load_bindings ::
  "gem_pe_arm64x_materialized_image \<Rightarrow> u64 \<Rightarrow> gem_pe_arm64x_binding list \<Rightarrow> gem_pe_arm64x_binding list \<Rightarrow> unit loading" where
  "load_bindings r image_end earlier [] = load_pure (Inr ())"
| "load_bindings r image_end earlier (b # bs) =
     load_then (load_require (binding_ok r image_end earlier b) GEM_PE_MATERIALIZE_BAD_BINDING) (\<lambda>_.
     load_then (load_write (mat_base r + ucast (slot_rva b)) (le_bytes 8 (bind_value b)) 8 GEM_PE_MATERIALIZE_MEMORY_ERROR) (\<lambda>_.
     load_bindings r image_end (earlier @ [b]) bs))"

fun load_protections :: "u64 \<Rightarrow> u32 list \<Rightarrow> nat list \<Rightarrow> unit loading" where
  "load_protections base ps [] = load_pure (Inr ())"
| "load_protections base ps (i # is) =
     load_then (load_protect (base + of_nat i * GEM_GUEST_PAGE_SIZE) GEM_GUEST_PAGE_SIZE
       (if ps ! i = 0 then GEM_PAGE_NOACCESS else ps ! i) GEM_PE_MATERIALIZE_MEMORY_ERROR) (\<lambda>_.
     load_protections base ps is)"

section \<open>The whole call\<close>

definition header_pages :: "u32 \<Rightarrow> nat \<Rightarrow> u32 list" where
  "header_pages headers page_count =
     foldl (\<lambda>ps i. ps[i := GEM_PAGE_READONLY]) (replicate page_count 0)
       [0 ..< unat ((ucast headers + GEM_GUEST_PAGE_SIZE - 1) div GEM_GUEST_PAGE_SIZE)]"

text \<open>Everything before the reservation: the parsed image and its end.\<close>

definition prepare_image ::
  "(load_block \<Rightarrow> bool) \<Rightarrow> byte_string \<Rightarrow> size_t \<Rightarrow> gem_pe_arm64x_materialize_options
    \<Rightarrow> gem_pe_materialize_status + gem_pe_arm64x_materialized_image \<times> u64" where
  "prepare_image alloc bytes n_bytes opts =
     rbind (guard_that (alloc Result_block) GEM_PE_MATERIALIZE_MEMORY_ERROR) (\<lambda>_.
     case gem_pe_arm64x_parse (\<lambda>b. alloc (Parse_block b)) (Some bytes) n_bytes None True of
       Inl _ \<Rightarrow> Inl GEM_PE_MATERIALIZE_PARSE_ERROR
     | Inr img \<Rightarrow>
        (case gem_pe_arm64x_get_summary (Some img) True of
           Inl _ \<Rightarrow> Inl GEM_PE_MATERIALIZE_PARSE_ERROR
         | Inr s \<Rightarrow>
            rbind (guard_that (mat_image_base opts = image_base s) GEM_PE_MATERIALIZE_RELOCATION_REQUIRED) (\<lambda>_.
            rbind (guard_that (image_base s AND (GEM_GUEST_PAGE_SIZE - 1) = 0 \<and> size_of_image s AND 4095 = 0 \<and>
                sum_size_of_headers s \<noteq> 0 \<and> \<not> sum_size_of_headers s > size_of_image s) GEM_PE_MATERIALIZE_OVERFLOW) (\<lambda>_.
            case checked_add (image_base s) (ucast (size_of_image s)) of
              None \<Rightarrow> Inl GEM_PE_MATERIALIZE_OVERFLOW
            | Some image_end \<Rightarrow>
               rbind (guard_that (alloc Protection_block) GEM_PE_MATERIALIZE_MEMORY_ERROR) (\<lambda>_.
               Inr (\<lparr>metadata = img, mat_base = image_base s, mat_size = ucast (size_of_image s)\<rparr>, image_end))))))"

text \<open>Everything after the reservation.\<close>

definition fill_image ::
  "byte_string \<Rightarrow> size_t \<Rightarrow> gem_pe_arm64x_binding list \<Rightarrow> gem_pe_arm64x_materialized_image \<Rightarrow> u64 \<Rightarrow> u64 \<Rightarrow> unit loading" where
  "fill_image bytes n_bytes bs r image_end reserved_base =
     (let s = summary (metadata r); page_count = unat (size_of_image s) div 4096
      in load_then (load_require (reserved_base = mat_base r) GEM_PE_MATERIALIZE_MEMORY_ERROR) (\<lambda>_.
         load_then (load_commit (mat_base r) (mat_size r) GEM_PAGE_READWRITE GEM_PE_MATERIALIZE_MEMORY_ERROR) (\<lambda>_.
         load_then (load_write (mat_base r) (take (unat (sum_size_of_headers s)) bytes) (ucast (sum_size_of_headers s))
           GEM_PE_MATERIALIZE_MEMORY_ERROR) (\<lambda>_.
         load_then (load_sections bytes n_bytes r (header_pages (sum_size_of_headers s) page_count)
           [0 ..< unat (gem_pe_arm64x_section_count (Some (metadata r)))]) (\<lambda>ps.
         load_then (load_bindings r image_end [] bs) (\<lambda>_.
         load_protections (mat_base r) ps [0 ..< page_count]))))))"

definition gem_pe_arm64x_materialize_preferred ::
  "(load_block \<Rightarrow> bool) \<Rightarrow> gem_memory option \<Rightarrow> byte_string option \<Rightarrow> size_t \<Rightarrow> gem_pe_arm64x_materialize_options option \<Rightarrow> bool
    \<Rightarrow> (gem_pe_materialize_status + gem_pe_arm64x_materialized_image) \<times> gem_memory option" where
  "gem_pe_arm64x_materialize_preferred alloc m bytes n_bytes mo out =
     (case (m, bytes, mo) of
        (Some _, Some bs, Some opts) \<Rightarrow>
         (if \<not> out \<or> n_bytes = 0 \<or> mat_version opts \<noteq> GEM_PE_ARM64X_MATERIALIZE_OPTIONS_VERSION \<or> mat_reserved opts \<noteq> 0 \<or>
             binding_count opts > GEM_PE_ARM64X_MAX_BINDINGS \<or> (binding_count opts \<noteq> 0 \<and> bindings opts = None)
          then (Inl GEM_PE_MATERIALIZE_INVALID_ARGUMENT, m)
          else (case prepare_image alloc bs n_bytes opts of
              Inl e \<Rightarrow> (Inl e, m)
            | Inr (r, image_end) \<Rightarrow>
               (case gem_memory_reserve m (Some (mat_base r)) (mat_size r) of
                  (e, reserved_base, m1) \<Rightarrow>
                   (if e \<noteq> GEM_MEMORY_OK then (Inl GEM_PE_MATERIALIZE_CONFLICT, m1)
                    else (case fill_image bs n_bytes (take (unat (binding_count opts)) (case bindings opts of None \<Rightarrow> [] | Some l \<Rightarrow> l))
                        r image_end (case reserved_base of None \<Rightarrow> 0 | Some b \<Rightarrow> b) m1 of
                        (Inl st, m2) \<Rightarrow> (Inl st, snd (gem_memory_release m2 (mat_base r) (mat_size r)))
                      | (Inr _, m2) \<Rightarrow> (Inr r, m2))))))
      | _ \<Rightarrow> (Inl GEM_PE_MATERIALIZE_INVALID_ARGUMENT, m))"

definition gem_pe_arm64x_materialized_metadata :: "gem_pe_arm64x_materialized_image option \<Rightarrow> gem_pe_arm64x_image option" where
  "gem_pe_arm64x_materialized_metadata r = (case r of None \<Rightarrow> None | Some i \<Rightarrow> Some (metadata i))"

definition gem_pe_arm64x_materialized_base :: "gem_pe_arm64x_materialized_image option \<Rightarrow> u64" where
  "gem_pe_arm64x_materialized_base r = (case r of None \<Rightarrow> 0 | Some i \<Rightarrow> mat_base i)"

definition gem_pe_arm64x_materialized_size :: "gem_pe_arm64x_materialized_image option \<Rightarrow> u64" where
  "gem_pe_arm64x_materialized_size r = (case r of None \<Rightarrow> 0 | Some i \<Rightarrow> mat_size i)"

fun gem_pe_materialize_status_name :: "gem_pe_materialize_status \<Rightarrow> string" where
  "gem_pe_materialize_status_name GEM_PE_MATERIALIZE_OK = ''ok''"
| "gem_pe_materialize_status_name GEM_PE_MATERIALIZE_INVALID_ARGUMENT = ''invalid-argument''"
| "gem_pe_materialize_status_name GEM_PE_MATERIALIZE_PARSE_ERROR = ''parse-error''"
| "gem_pe_materialize_status_name GEM_PE_MATERIALIZE_RELOCATION_REQUIRED = ''relocation-required''"
| "gem_pe_materialize_status_name GEM_PE_MATERIALIZE_OVERFLOW = ''overflow''"
| "gem_pe_materialize_status_name GEM_PE_MATERIALIZE_CONFLICT = ''conflict''"
| "gem_pe_materialize_status_name GEM_PE_MATERIALIZE_BAD_SECTION = ''bad-section''"
| "gem_pe_materialize_status_name GEM_PE_MATERIALIZE_PERMISSION_CONFLICT = ''permission-conflict''"
| "gem_pe_materialize_status_name GEM_PE_MATERIALIZE_BAD_BINDING = ''bad-binding''"
| "gem_pe_materialize_status_name GEM_PE_MATERIALIZE_MEMORY_ERROR = ''memory-error''"

end
