(* ===== verification/Gem_Memory_Private.thy ===== *)
theory Gem_Memory_Private
  imports Gem_Memory_Sharing
begin

text \<open>
  Pages whose storage nobody else maps. Freshly committed pages are private, and on a range of private
  pages the guest's bytes behave as one array: what the image loader relies on while it fills the
  reservation it owns.
\<close>

definition private_page :: "gem_memory \<Rightarrow> u64 \<Rightarrow> bool" where
  "private_page m x \<longleftrightarrow> (\<exists>p b. layout m x = Some p \<and> page_backing p = Some b \<and> shape m b = Some None \<and>
     (\<forall>x'. x' \<noteq> x \<longrightarrow> Option.bind (layout m x') page_backing \<noteq> Some b))"

section \<open>Committed pages are private\<close>

lemma held_one:
  assumes ok: "mem_ok (\<lambda>b. pins b + held news b) m1" and nn: "\<And>b. 0 \<le> pins b"
    and b: "backing_heap m1 b = Some (fresh_backing host g)"
  shows "count_list news (Some b) \<le> 1"
proof -
  have "int (ref_count m1 b) = int (card (holders (page_heap m1) b)) + (pins b + held news b)"
    using ok by (simp add: mem_ok_def refs_ok_def)
  moreover have "ref_count m1 b = 1" using b by (simp add: ref_count_def fresh_backing_def)
  ultimately show ?thesis using nn [of b] by (simp add: held_def)
qed

lemma count_zip_unique:
  assumes "length as = length bs" and "distinct as" and "count_list bs v \<le> 1"
    and "(x, v) \<in> set (zip as bs)" and "(y, v) \<in> set (zip as bs)"
  shows "x = y"
  using assms
proof (induction as bs rule: list_induct2)
  case (Cons a as b bs)
  have none: "(z, v) \<notin> set (zip as bs)" if "count_list bs v = 0" for z
    using that by (auto simp: count_list_0_iff dest: set_zip_rightD)
  show ?case using Cons none by (cases "b = v") auto
qed simp

lemma commit_entry:
  assumes ok: "mem_ok (\<lambda>b. pins b + held news b) m1" and nn: "\<And>b. 0 \<le> pins b"
    and al: "alloc_rel m m1 host as news" and dist: "distinct as" and gr: "grows m m1"
    and x: "x \<in> set as" and p: "layout m x = Some p" "page_backing p = None"
  shows "\<exists>b g. (x, Some b) \<in> set (zip as news) \<and> heap_count m \<le> b \<and> backing_heap m1 b = Some (fresh_backing (host x) g) \<and>
    Option.bind (layout (foldl (commit_page prot) m1 (zip as news)) x) page_backing = Some b"
proof -
  have len: "length as = length news" using al unfolding alloc_rel_def by (rule list_all2_lengthD)
  have la: "layout m1 = layout m" using gr by (intro layout_cong grows_page_at)
  have ent: "alloc_entry m m1 host (fst i) (snd i)" if "i \<in> set (zip as news)" for i
    using al that len unfolding alloc_rel_def list_all2_iff by (cases i) auto
  have pre: "\<exists>p. layout m1 (fst i) = Some p \<and> (page_backing p = None \<or> snd i = None)" if "i \<in> set (zip as news)" for i
    using ent [OF that] by (auto simp: alloc_entry_def la layout_def split: option.splits)
  have keys: "distinct (map fst (zip as news))" using dist len by simp
  have cost: "sum_list (map (\<lambda>i. if snd i = Some b then 1 else 0) (zip as news)) \<le> pins b + held news b" for b
    using nn [of b] by (simp add: held_zip [OF len])
  note sw = commit_sweep.sweep(2) [OF ok cost keys pre, of prot x]
  have "x \<in> fst ` set (zip as news)" using x len by (metis map_fst_zip set_map)
  then have "find (\<lambda>i. fst i = x) (zip as news) \<noteq> None" by (auto simp: find_None_iff)
  then obtain i where i: "find (\<lambda>i. fst i = x) (zip as news) = Some i" by blast
  then have mem: "i \<in> set (zip as news)" "fst i = x" by (auto simp: find_Some_iff set_zip)
  obtain b g where b: "snd i = Some b" "heap_count m \<le> b" "backing_heap m1 b = Some (fresh_backing (host x) g)"
    using ent [OF mem(1)] p by (auto simp: mem(2) alloc_entry_def layout_def split: option.splits)
  have "Option.bind (layout (foldl (commit_page prot) m1 (zip as news)) x) page_backing = Some b"
    using sw i b(1) p by (simp add: la take_backing_def)
  moreover have "(x, Some b) \<in> set (zip as news)" using mem b(1) by (metis prod.collapse)
  ultimately show ?thesis using b(2,3) by blast
qed

lemma commit_private:
  assumes inv: "memory_inv pins m" and run: "commit_locked m a n prot = (GEM_MEMORY_OK, m')"
    and empty: "\<And>x. x \<in> set (page_addrs a n) \<Longrightarrow> \<exists>p. layout m x = Some p \<and> page_backing p = None"
    and x: "x \<in> set (page_addrs a n)"
  shows "private_page m' x"
proof -
  from run obtain l bs m1 where c: "check m a n False = GEM_MEMORY_OK" "prot_ok prot"
      "commit_alloc (page_addrs a n) (m\<lparr>heap_count := Suc (heap_count m)\<rparr>) [] = (Some l, bs, m1)"
      "m' = foldl (commit_page prot) m1 (zip (page_addrs a n) l)"
    by (cases rule: commit_locked_cases) (auto split: option.splits)
  let ?m0 = "m\<lparr>heap_count := Suc (heap_count m)\<rparr>" and ?as = "page_addrs a n"
  have ra: "range_ok a n" using c(1) by (simp add: check_OK_iff)
  have ok0: "mem_ok (\<lambda>b. pins b + held [] b) ?m0" using mem_ok_heap_alloc [OF inv_mem_ok [OF inv]] by simp
  have "\<And>x. x \<in> set ?as \<Longrightarrow> \<exists>p. page_at ?m0 x = Some p" using c(1) by (auto simp: check_OK_iff)
  from commit_alloc_step [OF ok0 inv_pins [OF inv] this c(3)]
  have st: "mem_ok (\<lambda>b. pins b + held l b) m1" "grows ?m0 m1" "alloc_rel ?m0 m1 (\<lambda>_. None) ?as l" by auto
  have len: "length ?as = length l" using st(3) unfolding alloc_rel_def by (rule list_all2_lengthD)
  note ok = commit_ok [OF inv run]
  have entry: "\<exists>b g. (y, Some b) \<in> set (zip ?as l) \<and> Suc (heap_count m) \<le> b \<and> backing_heap m1 b = Some (fresh_backing None g) \<and>
      Option.bind (layout m' y) page_backing = Some b" if y: "y \<in> set ?as" for y
  proof -
    obtain p where "layout ?m0 y = Some p" "page_backing p = None" using empty [OF y] by auto
    from commit_entry [OF st(1) inv_pins [OF inv] st(3) distinct_page_addrs [OF ra] st(2) y this, of prot, folded c(4)]
    show ?thesis by simp
  qed
  obtain b g where b: "(x, Some b) \<in> set (zip ?as l)" "Suc (heap_count m) \<le> b" "backing_heap m1 b = Some (fresh_backing None g)"
      "Option.bind (layout m' x) page_backing = Some b"
    using entry [OF x] by blast
  have other: "Option.bind (layout m' y) page_backing \<noteq> Some b" if ne: "y \<noteq> x" for y
  proof (cases "y \<in> set ?as")
    case True
    then obtain d where d: "(y, Some d) \<in> set (zip ?as l)" "Option.bind (layout m' y) page_backing = Some d"
      using entry [OF True] by blast
    show ?thesis
    proof
      assume "Option.bind (layout m' y) page_backing = Some b"
      then have "(y, Some b) \<in> set (zip ?as l)" using d by simp
      from count_zip_unique [OF len distinct_page_addrs [OF ra] held_one [OF st(1) inv_pins [OF inv] b(3)] this b(1)]
      show False using ne by simp
    qed
  next
    case False
    then have "layout m' y = layout m y" by (rule ok(5))
    moreover have "Option.bind (layout m y) page_backing \<noteq> Some b"
    proof
      assume "Option.bind (layout m y) page_backing = Some b"
      then obtain p where "layout m y = Some p" "page_backing p = Some b" by (auto simp: bind_eq_Some_conv)
      then obtain k where "backing_heap m b = Some k" using layout_backing_alive [OF inv_mem_ok [OF inv] inv_pins [OF inv]] by blast
      then have "b < heap_count m" using alive_lt inv_mem_ok [OF inv] by (auto simp: mem_ok_def)
      then show False using b(2) by simp
    qed
    ultimately show ?thesis by simp
  qed
  obtain p d where p: "layout m x = Some p" "layout m' x = Some (p\<lparr>page_backing := Some d, protection := prot\<rparr>)"
      "page_backing p = Some d \<or> page_backing p = None \<and> (\<exists>k. backing_heap m' d = Some k \<and> bk_data k = Owned (\<lambda>_. 0) \<and> \<not> external k)"
    using ok(6) [OF x] by blast
  have "page_backing p = None" using empty [OF x] p(1) by auto
  then have "shape m' d = Some None" using p(3) by (auto simp: shape_def)
  moreover have "d = b" using p(2) b(4) by simp
  ultimately show ?thesis unfolding private_page_def using p(2) other by auto
qed

section \<open>Writing to private pages\<close>

lemma in_range_page:
  assumes "range_ok a n" and "j < unat n"
  shows "page_base (a + of_nat j) \<in> set (page_addrs a n)" and "unat (a + of_nat j) = unat a + j"
proof -
  have n: "unat a + unat n < 2 ^ 64" "unat a mod 4096 = 0" using assms(1) by (auto simp: range_ok_unat)
  then have j: "unat (of_nat j :: u64) = j" using assms(2) by (intro of_nat_inverse [OF refl]) simp
  then show u: "unat (a + of_nat j) = unat a + j" using n assms(2) unat_add_no_wrap [of a "of_nat j"] by simp
  have "unat a \<le> unat a + j - (unat a + j) mod 4096"
  proof -
    have "(unat a + j) mod 4096 = j mod 4096" using n(2) by (metis add_0 mod_add_left_eq)
    then show ?thesis using mod_less_eq_dividend [of j 4096] by simp
  qed
  then have "a \<le> page_base (a + of_nat j)" by (simp add: word_le_nat_alt unat_page_base u)
  moreover have "page_base (a + of_nat j) < a + n"
    using assms(2) by (simp add: word_less_nat_alt unat_page_base u range_ok_end [OF assms(1)])
  ultimately show "page_base (a + of_nat j) \<in> set (page_addrs a n)" by (simp add: mem_page_addrs [OF assms(1)])
qed

lemma private_cell:
  assumes "private_page m (page_base y)"
  shows "\<exists>b. cell m y = Some (Owned_cell b (unat (y AND 4095)))"
    and "cell m z = cell m y \<Longrightarrow> z = y"
proof -
  obtain p b where p: "layout m (page_base y) = Some p" "page_backing p = Some b" "shape m b = Some None"
      "\<forall>x'. x' \<noteq> page_base y \<longrightarrow> Option.bind (layout m x') page_backing \<noteq> Some b"
    using assms by (auto simp: private_page_def)
  have cy: "cell m y = Some (Owned_cell b (unat (y AND 4095)))"
  proof -
    have "Option.bind (page_at m (page_base y)) page_backing = Some b" using p(1,2) layout_backing [of m "page_base y"] by simp
    then show ?thesis by (simp only: cell_def bind.bind_lunit) (simp add: cell_of_shape p(3))
  qed
  then show "\<exists>b. cell m y = Some (Owned_cell b (unat (y AND 4095)))" by blast
  show "z = y" if eq: "cell m z = cell m y"
  proof -
    have cz: "cell m z = Some (Owned_cell b (unat (y AND 4095)))" using eq cy by simp
    then obtain d where d: "Option.bind (layout m (page_base z)) page_backing = Some d"
        "cell_of m d (unat (z AND 4095)) = Some (Owned_cell b (unat (y AND 4095)))"
      unfolding cell_def layout_backing [symmetric] by (cases "Option.bind (layout m (page_base z)) page_backing") auto
    then have "d = b" "unat (z AND 4095) = unat (y AND 4095)"
      by (auto simp: cell_of_shape split: option.splits)
    then have "page_base z = page_base y" "z AND 4095 = y AND 4095" using d(1) p(4) by (blast, simp add: word_unat_eq_iff)
    then show ?thesis by (simp add: page_base_eq)
  qed
qed

text \<open>
  A reservation being filled: \<open>m\<close> differs from \<open>m0\<close> only in the pages of the range, which form one
  reservation.
\<close>

definition staged :: "(backing_ref \<Rightarrow> int) \<Rightarrow> u64 \<Rightarrow> u64 \<Rightarrow> gem_memory \<Rightarrow> gem_memory \<Rightarrow> bool" where
  "staged pins a n m0 m \<longleftrightarrow> memory_inv pins m \<and> range_ok a n \<and>
     (\<forall>x. x \<notin> set (page_addrs a n) \<longrightarrow> layout m x = layout m0 x) \<and>
     (\<forall>y. page_base y \<notin> set (page_addrs a n) \<longrightarrow> byte_at m y = byte_at m0 y) \<and>
     (\<forall>x \<in> set (page_addrs a n). \<exists>p. layout m x = Some p \<and> reservation_base p = a \<and> reservation_size p = n)"

text \<open>Filled with storage: every page private, readable and writable.\<close>

definition filling :: "(backing_ref \<Rightarrow> int) \<Rightarrow> u64 \<Rightarrow> u64 \<Rightarrow> gem_memory \<Rightarrow> gem_memory \<Rightarrow> bool" where
  "filling pins a n m0 m \<longleftrightarrow> staged pins a n m0 m \<and>
     (\<forall>x \<in> set (page_addrs a n). private_page m x \<and> (\<exists>p. layout m x = Some p \<and> protection p = GEM_PAGE_READWRITE))"

lemma reserve_staged:
  assumes inv: "memory_inv pins m" and run: "reserve_locked m (Some a) n = (GEM_MEMORY_OK, r, m')" and a: "a \<noteq> 0"
  shows "staged pins a n m m'" and "r = Some a"
    and "x \<in> set (page_addrs a n) \<Longrightarrow> layout m x = None \<and> (\<exists>p. layout m' x = Some p \<and> page_backing p = None)"
    and "byte_at m' y = byte_at m y"
proof -
  obtain b where b: "r = Some b" "range_ok b n" "a \<noteq> 0 \<longrightarrow> b = a" "\<forall>x \<in> set (page_addrs b n). page_at m x = None"
      "memory_inv pins m'" "bk_frame m m'"
      "layout m' = (\<lambda>x. if x \<in> set (page_addrs b n)
       then Some \<lparr>address = x, reservation_base = b, reservation_size = n, page_backing = None,
                  protection = 0, generation = 0\<rparr> else layout m x)"
    by (rule reserve_ok [OF inv run])
  have ba: "b = a" using b(3) a by simp
  show "r = Some a" using b(1) ba by simp
  have free: "layout m x = None" if "x \<in> set (page_addrs a n)" for x using b(4) that ba by (simp add: layout_def)
  then show "layout m x = None \<and> (\<exists>p. layout m' x = Some p \<and> page_backing p = None)" if "x \<in> set (page_addrs a n)"
    using b(7) that ba by simp
  show bytes: "byte_at m' y = byte_at m y" for y
    by (rule inv_byte_frame [OF inv b(5,6)]) (use b(7) ba free in auto)
  show "staged pins a n m m'" using b(2,5,7) ba bytes by (simp add: staged_def)
qed

lemma unchanged_staged: "staged pins a n m0 m \<Longrightarrow> unchanged pins m m' \<Longrightarrow> staged pins a n m0 m'"
  by (simp add: staged_def unchanged_def)

lemma commit_filling:
  assumes st: "staged pins a n m0 m" and run: "commit_locked m a n GEM_PAGE_READWRITE = (GEM_MEMORY_OK, m')"
    and empty: "\<And>x. x \<in> set (page_addrs a n) \<Longrightarrow> \<exists>p. layout m x = Some p \<and> page_backing p = None"
  shows "filling pins a n m0 m'" and "page_base y \<in> set (page_addrs a n) \<Longrightarrow> byte_at m' y = Some 0"
proof -
  have inv: "memory_inv pins m" using st by (simp add: staged_def)
  note ok = commit_ok [OF inv run]
  have pg: "\<exists>p b k. layout m x = Some p \<and> layout m' x = Some (p\<lparr>page_backing := Some b, protection := GEM_PAGE_READWRITE\<rparr>) \<and>
      backing_heap m' b = Some k \<and> bk_data k = Owned (\<lambda>_. 0)" if "x \<in> set (page_addrs a n)" for x
    using ok(6) [OF that] empty [OF that] by fastforce
  have "byte_at m' y = byte_at m0 y" if "page_base y \<notin> set (page_addrs a n)" for y
    using inv_byte_frame [OF inv ok(3,4), of y] ok(5) [OF that] st that by (simp add: staged_def)
  moreover have "\<exists>p. layout m' x = Some p \<and> reservation_base p = a \<and> reservation_size p = n" if x: "x \<in> set (page_addrs a n)" for x
  proof -
    obtain p b where "layout m x = Some p" "layout m' x = Some (p\<lparr>page_backing := Some b, protection := GEM_PAGE_READWRITE\<rparr>)"
      using pg [OF x] by blast
    moreover have "\<exists>p. layout m x = Some p \<and> reservation_base p = a \<and> reservation_size p = n" using st x by (simp add: staged_def)
    ultimately show ?thesis by auto
  qed
  ultimately have "staged pins a n m0 m'" using ok(3,5) st by (simp add: staged_def)
  moreover have "\<exists>p. layout m' x = Some p \<and> protection p = GEM_PAGE_READWRITE" if "x \<in> set (page_addrs a n)" for x
    using pg [OF that] by auto
  moreover have "private_page m' x" if "x \<in> set (page_addrs a n)" for x by (rule commit_private [OF inv run empty that])
  ultimately show "filling pins a n m0 m'" by (simp add: filling_def)
  assume "page_base y \<in> set (page_addrs a n)"
  from pg [OF this] obtain p b k where "layout m' (page_base y) = Some (p\<lparr>page_backing := Some b, protection := GEM_PAGE_READWRITE\<rparr>)"
      "backing_heap m' b = Some k" "bk_data k = Owned (\<lambda>_. 0)" by blast
  then show "byte_at m' y = Some 0" using byte_at_layout by simp
qed

text \<open>Privacy depends on the storage of the pages and nothing else.\<close>

lemma bk_frame_shape:
  assumes "memory_inv pins m" and "memory_inv pins m'" and "bk_frame m m'"
    and "layout m' x = Some p'" and "page_backing p' = Some b" and "shape m b = Some s"
  shows "shape m' b = Some s"
proof -
  obtain k where k: "backing_heap m b = Some k" using assms(6) by (auto simp: shape_def)
  obtain k' where k': "backing_heap m' b = Some k'"
    using layout_backing_alive [OF inv_mem_ok [OF assms(2)] inv_pins [OF assms(2)] assms(4,5)] by blast
  have "b < heap_count m" using alive_lt [OF _ k] inv_mem_ok [OF assms(1)] by (auto simp: mem_ok_def)
  then have "k'\<lparr>refs := 0\<rparr> = k\<lparr>refs := 0\<rparr>" using assms(3) k k' by (auto simp: bk_frame_def)
  then have "bk_data k' = bk_data k" by (cases k; cases k'; simp)
  then show ?thesis using assms(6) k k' by (simp add: shape_def)
qed

lemma private_frame:
  assumes "private_page m x" and "memory_inv pins m" and "memory_inv pins m'" and "bk_frame m m'"
    and same: "\<And>y. Option.bind (layout m' y) page_backing = Option.bind (layout m y) page_backing"
  shows "private_page m' x"
proof -
  obtain p b where p: "layout m x = Some p" "page_backing p = Some b" "shape m b = Some None"
      "\<forall>x'. x' \<noteq> x \<longrightarrow> Option.bind (layout m x') page_backing \<noteq> Some b"
    using assms(1) by (auto simp: private_page_def)
  then obtain p' where p': "layout m' x = Some p'" "page_backing p' = Some b" using same [of x] by (auto simp: bind_eq_Some_conv)
  then show ?thesis using bk_frame_shape [OF assms(2,3,4) p' p(3)] p(4) same by (auto simp: private_page_def)
qed

lemma filling_keep:
  assumes "filling pins a n m0 m" and "memory_inv pins m'" and la: "layout m' = layout m"
    and bytes: "\<And>y. page_base y \<notin> set (page_addrs a n) \<Longrightarrow> byte_at m' y = byte_at m y"
    and "\<And>x. private_page m x \<Longrightarrow> private_page m' x"
  shows "filling pins a n m0 m'"
  using assms by (simp add: filling_def staged_def la)

lemma private_cong: "layout m' = layout m \<Longrightarrow> shape m' = shape m \<Longrightarrow> private_page m' = private_page m"
  by (simp add: private_page_def fun_eq_iff)

section \<open>Writing, protecting and releasing\<close>

lemma filling_write_pages:
  assumes fi: "filling pins a n m0 m" and fit: "d + k \<le> unat n" and i: "i < k"
  shows "page_base (a + of_nat d + of_nat i) \<in> set (page_addrs a n)" and "a + of_nat d + of_nat i = a + of_nat (d + i)"
proof -
  have ra: "range_ok a n" using fi by (simp add: filling_def staged_def)
  show e: "a + of_nat d + of_nat i = a + of_nat (d + i)" by simp
  show "page_base (a + of_nat d + of_nat i) \<in> set (page_addrs a n)"
    unfolding e by (rule in_range_page(1) [OF ra]) (use fit i in simp)
qed

lemma of_nat_inj_u64: "i < 2 ^ 64 \<Longrightarrow> j < 2 ^ 64 \<Longrightarrow> (of_nat i :: u64) = of_nat j \<longleftrightarrow> i = j"
proof -
  assume "i < 2 ^ 64" "j < 2 ^ 64"
  then have "unat (of_nat i :: u64) = i" "unat (of_nat j :: u64) = j" by (auto intro!: of_nat_inverse [OF refl])
  then show ?thesis by metis
qed

text \<open>A failed write changes nothing: the pages have no guard.\<close>

lemma write_filling_fail:
  assumes fi: "filling pins a n m0 m" and run: "access_memory_locked m (a + of_nat d) (Some buf) k True False False True = (e, b', m')"
    and fit: "d + unat k \<le> unat n" and e: "e \<noteq> GEM_MEMORY_OK"
  shows "filling pins a n m0 m'"
proof -
  have inv: "memory_inv pins m" using fi by (simp add: filling_def staged_def)
  have ng: "e \<noteq> GEM_MEMORY_GUARD_PAGE"
  proof
    assume g: "e = GEM_MEMORY_GUARD_PAGE"
    obtain q p where q: "q \<in> set (map fst (range_pieces (a + of_nat d) k))" "layout m q = Some p" "protection p AND GEM_PAGE_GUARD \<noteq> 0"
      by (rule access_guard [OF inv run [unfolded g]])
    obtain i where "i < unat k" "q = page_base (a + of_nat d + of_nat i)"
      using pieces_origin [OF guard_pieces [OF run [unfolded g]] q(1)] by blast
    then have "q \<in> set (page_addrs a n)" using filling_write_pages(1) [OF fi fit] by blast
    then have "protection p = GEM_PAGE_READWRITE" using fi q(2) by (auto simp: filling_def)
    then show False using q(3) by simp
  qed
  have sm: "same_map m m'" "mem_ok pins m'" using access_fail [OF inv run e ng] by auto
  have "shape m' = shape m" using sm(1) by (simp add: same_map_def shape_def fun_eq_iff)
  then show ?thesis
    using filling_keep [OF fi same_map_inv [OF inv sm(2,1)]] same_map_views(2,4) [OF sm(1)] private_cong [of m' m] by simp
qed

lemma write_filling:
  assumes fi: "filling pins a n m0 m" and run: "access_memory_locked m (a + of_nat d) (Some buf) k True False False True = (GEM_MEMORY_OK, b', m')"
    and len: "length buf = unat k" and fit: "d + unat k \<le> unat n"
  shows "filling pins a n m0 m'"
    and "i < unat n \<Longrightarrow> byte_at m' (a + of_nat i) =
      (if d \<le> i \<and> i < d + unat k then Some (buf ! (i - d)) else byte_at m (a + of_nat i))"
proof -
  have inv: "memory_inv pins m" and ra: "range_ok a n" using fi by (simp_all add: filling_def staged_def)
  have "filling pins a n m0 m' \<and> (\<forall>i < unat n. byte_at m' (a + of_nat i) =
      (if d \<le> i \<and> i < d + unat k then Some (buf ! (i - d)) else byte_at m (a + of_nat i)))"
  proof (cases "k = 0")
    case True
    then have "m' = m" using write_zero [OF run [unfolded True]] by simp
    then show ?thesis using fi True by auto
  next
    case False
    let ?w = "a + of_nat d"
    obtain m1 where m1: "memory_inv pins m1" "byte_at m1 = byte_at m" "memory_inv pins m'" "layout m' = layout m1" "shape m' = shape m1"
        "contents m' = store_bytes m1 ?w buf [0..<unat k] (contents m1)"
        "\<forall>q. q \<notin> set (map fst (range_pieces ?w k)) \<longrightarrow> layout m1 q = layout m q"
        "\<forall>q p. q \<in> set (map fst (range_pieces ?w k)) \<and> layout m q = Some p \<and> \<not> writecopy p \<longrightarrow> layout m1 q = Some p"
        "bk_frame m m1"
      using write_finish [OF inv run False len] by blast
    have la: "layout m1 q = layout m q" for q
    proof (cases "q \<in> set (map fst (range_pieces ?w k))")
      case True
      then obtain i where "i < unat k" "q = page_base (?w + of_nat i)"
        using pieces_origin [OF access_ok_pieces [OF run False] True] by blast
      then have "q \<in> set (page_addrs a n)" using filling_write_pages(1) [OF fi fit] by blast
      then obtain p where "layout m q = Some p" "protection p = GEM_PAGE_READWRITE" using fi by (auto simp: filling_def)
      then show ?thesis using m1(8) True by (auto simp: writecopy_def)
    qed (use m1(7) in blast)
    have f1: "filling pins a n m0 m1"
      by (rule filling_keep [OF fi m1(1)]) (use la m1(2) private_frame [OF _ inv m1(1,9)] in auto)
    have pm: "private_page m' x" if "x \<in> set (page_addrs a n)" for x
      using f1 that m1(4,5) by (auto simp: filling_def private_page_def)
    have cells: "(cell m' (?w + of_nat j) = cell m' y) = (?w + of_nat j = y)" if "j < unat k" for j y
      using private_cell(2) [OF pm [OF filling_write_pages(1) [OF fi fit that]], of y] by auto
    have alive: "cell m' (?w + of_nat j) \<noteq> None" if "j < unat k" for j
      using private_cell(1) [OF pm [OF filling_write_pages(1) [OF fi fit that]]] by auto
    note wb = write_byte_at [OF m1(2,4,5,6)]
    have big: "unat k < 2 ^ 64" using unsigned_less [of k] by simp
    have hit: "byte_at m' (?w + of_nat j) = Some (buf ! j)" if j: "j < unat k" for j
    proof -
      obtain c where c: "cell m' (?w + of_nat j) = Some c" using alive [OF j] by blast
      have "(cell m' (?w + of_nat l) = Some c) = (l = j)" if "l \<in> set (rev [0..<unat k])" for l
        using cells [of l "?w + of_nat j"] c that j of_nat_inj_u64 [of l j] big by auto
      then have "find (\<lambda>l. cell m' (?w + of_nat l) = Some c) (rev [0..<unat k]) = find (\<lambda>l. l = j) (rev [0..<unat k])"
        by (intro find_cong) auto
      then show ?thesis using wb [of "?w + of_nat j"] c j by (simp add: find_eq)
    qed
    have miss: "byte_at m' y = byte_at m y" if y: "\<And>j. j < unat k \<Longrightarrow> y \<noteq> ?w + of_nat j" for y
    proof (cases "cell m' y")
      case None
      then have "cell m1 y = None" using cell_eq [OF m1(4,5)] by simp
      then have "byte_at m1 y = None" by (simp add: byte_at_contents)
      then show ?thesis using None m1(2) by (simp add: byte_at_contents [of m'])
    next
      case (Some c)
      have "find (\<lambda>l. cell m' (?w + of_nat l) = Some c) (rev [0..<unat k]) = None"
        using cells [of _ y] y Some by (fastforce simp: find_None_iff)
      then show ?thesis using wb [of y] Some by simp
    qed
    have "byte_at m' y = byte_at m y" if out: "page_base y \<notin> set (page_addrs a n)" for y
      by (rule miss) (use filling_write_pages(1) [OF fi fit] out in blast)
    then have "filling pins a n m0 m'"
      by (intro filling_keep [OF f1 m1(3,4)]) (use m1(2) private_cong [OF m1(4,5)] in auto)
    moreover have "byte_at m' (a + of_nat i) = (if d \<le> i \<and> i < d + unat k then Some (buf ! (i - d)) else byte_at m (a + of_nat i))"
      if i: "i < unat n" for i
    proof (cases "d \<le> i \<and> i < d + unat k")
      case True
      then have e: "a + of_nat i = ?w + of_nat (i - d)" using filling_write_pages(2) [OF fi fit, of "i - d"] by simp
      show ?thesis unfolding e using hit [of "i - d"] True by auto
    next
      case False
      have "a + of_nat i \<noteq> ?w + of_nat j" if j: "j < unat k" for j
      proof
        assume "a + of_nat i = ?w + of_nat j"
        then have "unat (a + of_nat i) = unat (a + of_nat (d + j))" by simp
        then have "i = d + j" using in_range_page(2) [OF ra i] in_range_page(2) [OF ra, of "d + j"] j fit by simp
        then show False using False j by simp
      qed
      then have "byte_at m' (a + of_nat i) = byte_at m (a + of_nat i)" by (intro miss) simp_all
      then show ?thesis using False by auto
    qed
    ultimately show ?thesis by blast
  qed
  then show "filling pins a n m0 m'" and "i < unat n \<Longrightarrow> byte_at m' (a + of_nat i) =
      (if d \<le> i \<and> i < d + unat k then Some (buf ! (i - d)) else byte_at m (a + of_nat i))" by blast+
qed

lemma protect_staged:
  assumes st: "staged pins a n m0 m" and run: "protect_locked m x GEM_GUEST_PAGE_SIZE prot = (e, old, m')" and x: "x \<in> set (page_addrs a n)"
  shows "staged pins a n m0 m'" and "byte_at m' = byte_at m"
    and "e = GEM_MEMORY_OK \<Longrightarrow> layout m' = (\<lambda>y. if y = x then map_option (\<lambda>p. p\<lparr>protection := prot\<rparr>) (layout m x) else layout m y)"
proof -
  have inv: "memory_inv pins m" using st by (simp add: staged_def)
  have "staged pins a n m0 m' \<and> byte_at m' = byte_at m \<and>
    (e = GEM_MEMORY_OK \<longrightarrow> layout m' = (\<lambda>y. if y = x then map_option (\<lambda>p. p\<lparr>protection := prot\<rparr>) (layout m x) else layout m y))"
  proof (cases "e = GEM_MEMORY_OK")
    case False
    then have "m' = m" using run by (auto simp: protect_locked_def Let_def split: if_splits)
    then show ?thesis using st False by simp
  next
    case True
    note ok = protect_ok [OF inv run [unfolded True]]
    have la: "layout m' = (\<lambda>y. if y = x then map_option (\<lambda>p. p\<lparr>protection := prot\<rparr>) (layout m x) else layout m y)"
      using ok(6) by (auto simp: fun_eq_iff)
    have "Option.bind (layout m' y) page_backing = Option.bind (layout m y) page_backing" for y
      unfolding la by (cases "layout m x") auto
    then have bytes: "byte_at m' = byte_at m" using inv_byte_frame [OF inv ok(3,4)] by blast
    have "staged pins a n m0 m'"
      using st x unfolding staged_def by (auto simp: ok(3) bytes la)
    then show ?thesis using la bytes by blast
  qed
  then show "staged pins a n m0 m'" and "byte_at m' = byte_at m"
    and "e = GEM_MEMORY_OK \<Longrightarrow> layout m' = (\<lambda>y. if y = x then map_option (\<lambda>p. p\<lparr>protection := prot\<rparr>) (layout m x) else layout m y)"
    by blast+
qed

text \<open>Releasing undoes everything.\<close>

lemma release_staged:
  assumes st: "staged pins a n m0 m" and free: "\<And>x. x \<in> set (page_addrs a n) \<Longrightarrow> layout m0 x = None"
  shows "\<exists>m'. release_locked m a n = (GEM_MEMORY_OK, m') \<and> unchanged pins m0 m'"
proof -
  have inv: "memory_inv pins m" and ra: "range_ok a n" using st by (simp_all add: staged_def)
  have pages: "\<exists>p. layout m x = Some p \<and> reservation_base p = a \<and> reservation_size p = n" if "x \<in> set (page_addrs a n)" for x
    using st that by (simp add: staged_def)
  have "check m a n False = GEM_MEMORY_OK" using pages ra by (fastforce simp: check_OK_iff layout_def)
  moreover obtain p where "page_at m a = Some p" "reservation_base p = a" "reservation_size p = n"
    using pages [OF first_page [OF ra]] by (auto simp: layout_def)
  ultimately have run: "release_locked m a n = (GEM_MEMORY_OK, remove_pages m a n)" by (simp add: release_locked_def)
  note ok = release_ok [OF inv run]
  have la: "layout (remove_pages m a n) = layout m0"
  proof
    fix x
    show "layout (remove_pages m a n) x = layout m0 x"
      using ok(5) [of x] free [of x] st by (cases "x \<in> set (page_addrs a n)") (simp_all add: staged_def)
  qed
  have "byte_at (remove_pages m a n) y = byte_at m0 y" for y
  proof (cases "page_base y \<in> set (page_addrs a n)")
    case True
    then show ?thesis using free [OF True] by (simp add: byte_at_None la)
  next
    case False
    then show ?thesis using inv_byte_frame [OF inv ok(3,4), of y] ok(5) [of "page_base y"] st by (simp add: staged_def)
  qed
  then have "unchanged pins m0 (remove_pages m a n)" using ok(3) la by (auto simp: unchanged_def)
  then show ?thesis using run by blast
qed

end
