(* ===== verification/Gem_Loader_Props.thy ===== *)
theory Gem_Loader_Props
  imports Gem_Loader Gem_Memory_Private
begin

text \<open>
  What the loader writes into the reservation it owns, as postconditions of its chains: every step
  that stops leaves a reservation that releasing undoes, and the whole chain leaves the contents and
  protections of a reference image.
\<close>

section \<open>Postconditions of loading chains\<close>

definition load_post :: "gem_memory \<Rightarrow> 'a loading \<Rightarrow> ('a \<Rightarrow> gem_memory \<Rightarrow> bool) \<Rightarrow> (gem_memory \<Rightarrow> bool) \<Rightarrow> bool" where
  "load_post m f Q E \<longleftrightarrow> (\<exists>r m'. f (Some m) = (r, Some m') \<and> (case r of Inl _ \<Rightarrow> E m' | Inr a \<Rightarrow> Q a m'))"

lemma load_post_then:
  assumes "load_post m f Q' E" and "\<And>a m'. Q' a m' \<Longrightarrow> load_post m' (g a) Q E"
  shows "load_post m (load_then f g) Q E"
proof -
  obtain r m' where f: "f (Some m) = (r, Some m')" "case r of Inl _ \<Rightarrow> E m' | Inr a \<Rightarrow> Q' a m'"
    using assms(1) by (auto simp: load_post_def)
  show ?thesis
  proof (cases r)
    case (Inl e)
    then show ?thesis using f by (simp add: load_post_def load_then_def)
  next
    case (Inr a)
    then have "load_post m' (g a) Q E" using f(2) assms(2) by simp
    then show ?thesis using f Inr by (simp add: load_post_def load_then_def)
  qed
qed

lemma load_post_pure: "(case r of Inl _ \<Rightarrow> E m | Inr a \<Rightarrow> Q a m) \<Longrightarrow> load_post m (load_pure r) Q E"
  by (simp add: load_post_def load_pure_def)

lemma load_post_require: "E m \<Longrightarrow> load_post m (load_require c e) (\<lambda>_ m'. m' = m \<and> c) E"
  by (simp add: load_post_def load_require_def load_pure_def guard_that_def)

lemma load_post_mono:
  assumes "load_post m f Q E" and "\<And>a m'. Q a m' \<Longrightarrow> Q' a m'"
  shows "load_post m f Q' E"
proof -
  obtain r m' where f: "f (Some m) = (r, Some m')" "case r of Inl _ \<Rightarrow> E m' | Inr a \<Rightarrow> Q a m'"
    using assms(1) by (auto simp: load_post_def)
  then show ?thesis using assms(2) by (cases r) (auto simp: load_post_def)
qed

section \<open>Contents\<close>

definition overlay :: "nat \<Rightarrow> byte_string \<Rightarrow> (nat \<Rightarrow> u8) \<Rightarrow> nat \<Rightarrow> u8" where
  "overlay d bs f i = (if d \<le> i \<and> i < d + length bs then bs ! (i - d) else f i)"

text \<open>The reservation is being filled and its bytes are those of \<open>f\<close>.\<close>

definition filled_with :: "(backing_ref \<Rightarrow> int) \<Rightarrow> u64 \<Rightarrow> u64 \<Rightarrow> gem_memory \<Rightarrow> (nat \<Rightarrow> u8) \<Rightarrow> gem_memory \<Rightarrow> bool" where
  "filled_with pins a n m0 f m \<longleftrightarrow> filling pins a n m0 m \<and> (\<forall>i < unat n. byte_at m (a + of_nat i) = Some (f i))"

lemma filled_staged: "filled_with pins a n m0 f m \<Longrightarrow> staged pins a n m0 m"
  by (simp add: filled_with_def filling_def)

lemma load_post_commit:
  assumes st: "staged pins a n m0 m" and empty: "\<And>x. x \<in> set (page_addrs a n) \<Longrightarrow> \<exists>p. layout m x = Some p \<and> page_backing p = None"
  shows "load_post m (load_commit a n GEM_PAGE_READWRITE e) (\<lambda>_. filled_with pins a n m0 (\<lambda>_. 0)) (staged pins a n m0)"
proof -
  obtain err m' where run: "commit_locked m a n GEM_PAGE_READWRITE = (err, m')" by fastforce
  have inv: "memory_inv pins m" and ra: "range_ok a n" using st by (simp_all add: staged_def)
  have lc: "load_commit a n GEM_PAGE_READWRITE e (Some m) = (guard_that (err = GEM_MEMORY_OK) e, Some m')"
    by (simp add: load_commit_def gem_memory_commit_def on_memory_def run)
  show ?thesis
  proof (cases "err = GEM_MEMORY_OK")
    case True
    note c = commit_filling [OF st run [unfolded True] empty]
    have "filled_with pins a n m0 (\<lambda>_. 0) m'" using c in_range_page(1) [OF ra] by (simp add: filled_with_def)
    then show ?thesis using lc True by (simp add: load_post_def guard_that_def)
  next
    case False
    have "unchanged pins m m'" by (rule same_map_unchanged [OF inv commit_fail(2,1) [OF inv run False]])
    then show ?thesis using lc False unchanged_staged [OF st] by (simp add: load_post_def guard_that_def)
  qed
qed

lemma load_post_write:
  assumes f: "filled_with pins a n m0 f m" and w: "w = a + of_nat d" and len: "length bs = unat k" and fit: "d + unat k \<le> unat n"
  shows "load_post m (load_write w bs k e) (\<lambda>_. filled_with pins a n m0 (overlay d bs f)) (staged pins a n m0)"
proof -
  obtain err b' m' where run: "access_memory_locked m (a + of_nat d) (Some bs) k True False False True = (err, b', m')"
    using prod_cases3 by blast
  have fi: "filling pins a n m0 m" using f by (simp add: filled_with_def)
  have lw: "load_write w bs k e (Some m) = (guard_that (err = GEM_MEMORY_OK) e, Some m')"
    by (simp add: load_write_def gem_memory_write_def on_buffer_def run w)
  show ?thesis
  proof (cases "err = GEM_MEMORY_OK")
    case True
    note c = write_filling [OF fi run [unfolded True] len fit]
    have "filled_with pins a n m0 (overlay d bs f) m'" using c f len by (simp add: filled_with_def overlay_def)
    then show ?thesis using lw True by (simp add: load_post_def guard_that_def)
  next
    case False
    then show ?thesis using lw write_filling_fail [OF fi run fit False] by (simp add: load_post_def guard_that_def filling_def)
  qed
qed

lemma load_post_protect:
  assumes st: "staged pins a n m0 m" and x: "x \<in> set (page_addrs a n)"
  shows "load_post m (load_protect x GEM_GUEST_PAGE_SIZE prot e) (\<lambda>_ m'. staged pins a n m0 m' \<and> byte_at m' = byte_at m \<and>
    layout m' = (\<lambda>y. if y = x then map_option (\<lambda>p. p\<lparr>protection := prot\<rparr>) (layout m x) else layout m y)) (staged pins a n m0)"
proof -
  obtain err old m' where run: "protect_locked m x GEM_GUEST_PAGE_SIZE prot = (err, old, m')" using prod_cases3 by blast
  have "load_protect x GEM_GUEST_PAGE_SIZE prot e (Some m) = (guard_that (err = GEM_MEMORY_OK) e, Some m')"
    by (simp add: load_protect_def gem_memory_protect_def run)
  then show ?thesis using protect_staged [OF st run x] by (auto simp: load_post_def guard_that_def)
qed

section \<open>Claimed pages\<close>

lemma claim_pages_Inr:
  assumes "claim_pages ps page k prot = Inr ps'"
  shows "length ps' = length ps \<and> (\<forall>j. page \<le> j \<and> j < page + k \<longrightarrow> j < length ps \<and> ps' ! j = prot \<and> (ps ! j = 0 \<or> ps ! j = prot)) \<and>
    (\<forall>j. \<not> (page \<le> j \<and> j < page + k) \<longrightarrow> ps' ! j = ps ! j)"
  using assms
proof (induction k arbitrary: ps page)
  case (Suc k)
  have c: "page < length ps" "ps ! page = 0 \<or> ps ! page = prot" "claim_pages (ps[page := prot]) (Suc page) k prot = Inr ps'"
    using Suc.prems by (auto split: if_splits)
  note ih = Suc.IH [OF c(3)]
  have "ps' ! page = prot" using ih c(1) by simp
  moreover have "j < length ps \<and> ps' ! j = prot \<and> (ps ! j = 0 \<or> ps ! j = prot)" if "page \<le> j" "j < page + Suc k" "j \<noteq> page" for j
    using ih that by (auto simp: nth_list_update)
  moreover have "ps' ! j = ps ! j" if "\<not> (page \<le> j \<and> j < page + Suc k)" for j
  proof -
    have "\<not> (Suc page \<le> j \<and> j < Suc page + k)" "j \<noteq> page" using that by auto
    then show ?thesis using ih by (simp add: nth_list_update)
  qed
  ultimately show ?case using ih c(1,2) by (metis length_list_update)
qed auto

section \<open>Sections\<close>

lemma get_section_nth:
  assumes wf: "image_wf img" and i: "i < length (sections img)"
  shows "gem_pe_arm64x_get_section (Some img) (of_nat i) True =
    Inr \<lparr>out_virtual_address = virtual_address (sections img ! i), out_virtual_size = virtual_size (sections img ! i),
      out_raw_size = raw_size (sections img ! i), out_characteristics = characteristics (sections img ! i)\<rparr>"
proof -
  have len: "length (sections img) = unat (ucast (section_count (summary img)) :: size_t)" by (rule image_lengths(1) [OF wf])
  have "length (sections img) < 2 ^ 64" unfolding len by (rule order_less_le_trans [OF unsigned_less]) simp
  then have u: "unat (of_nat i :: size_t) = i" using i by (intro of_nat_inverse [OF refl]) simp
  then have "\<not> (ucast (section_count (summary img)) :: size_t) \<le> of_nat i" using i len by (simp add: word_le_nat_alt)
  then show ?thesis using u i by (simp add: gem_pe_arm64x_get_section_def require_def guard_that_def array_get_def)
qed

text \<open>The pages that a section covers.\<close>

definition covers :: "pe_section \<Rightarrow> nat \<Rightarrow> bool" where
  "covers s j \<longleftrightarrow> unat (virtual_address s) div 4096 \<le> j \<and> j < (unat (virtual_address s) + unat (section_virtual_extent s) + 4095) div 4096"

definition claimed :: "pe_section \<Rightarrow> u32 list \<Rightarrow> u32 list \<Rightarrow> bool" where
  "claimed s ps ps' \<longleftrightarrow> length ps' = length ps \<and>
     (\<forall>j. covers s j \<longrightarrow> j < length ps \<and> ps' ! j = section_protection (characteristics s) \<and>
       (ps ! j = 0 \<or> ps ! j = section_protection (characteristics s))) \<and>
     (\<forall>j. \<not> covers s j \<longrightarrow> ps' ! j = ps ! j)"

text \<open>The bytes of a section: its file bytes, over what was there.\<close>

definition section_image :: "gem_pe_arm64x_image \<Rightarrow> byte_string \<Rightarrow> pe_section \<Rightarrow> (nat \<Rightarrow> u8) \<Rightarrow> nat \<Rightarrow> u8" where
  "section_image img bytes s f =
    (if raw_size s = 0 then f
     else (case gem_pe_arm64x_rva_to_file_offset (Some img) (virtual_address s) (raw_size s) True of
         Inl _ \<Rightarrow> f
       | Inr off \<Rightarrow> overlay (unat (virtual_address s)) (take (unat (raw_size s)) (drop (unat off) bytes)) f))"

lemma ucast_of_nat: "(ucast (x :: u32) :: u64) = of_nat (unat x)"
  by simp

lemma section_pages_claimed:
  assumes "section_pages ps out ve = Inr ps'" and ve: "unat ve = unat (virtual_address s) + unat (section_virtual_extent s)" "unat ve < 2 ^ 32"
    and out: "out_virtual_address out = virtual_address s" "out_characteristics out = characteristics s"
  shows "claimed s ps ps'"
proof -
  let ?first = "virtual_address s div 4096" and ?final = "ucast ((ve + GEM_GUEST_PAGE_SIZE - 1) div GEM_GUEST_PAGE_SIZE) :: u32"
  have first: "unat ?first = unat (virtual_address s) div 4096" by (simp add: unat_div)
  have e: "ve + GEM_GUEST_PAGE_SIZE - 1 = ve + 4095" by (simp add: GEM_GUEST_PAGE_SIZE_def)
  have v5: "unat (ve + 4095) = unat ve + 4095" using ve(2) unat_add_no_wrap [of ve 4095] by simp
  have lt: "(unat ve + 4095) div 4096 < 2 ^ 32" using ve(2) by simp
  have final: "unat ?final = (unat ve + 4095) div 4096"
    unfolding e using lt by (simp add: unat_div v5 GEM_GUEST_PAGE_SIZE_def unsigned_ucast_eq take_bit_nat_eq_self)
  have le: "unat ?first \<le> unat ?final" unfolding first final by (rule div_le_mono) (simp add: ve(1))
  have run: "claim_pages ps (unat ?first) (unat ?final - unat ?first) (section_protection (characteristics s)) = Inr ps'"
    using assms(1) by (simp add: section_pages_def Let_def out)
  have cov: "covers s j \<longleftrightarrow> unat ?first \<le> j \<and> j < unat ?first + (unat ?final - unat ?first)" for j
    unfolding covers_def first [symmetric] ve(1) [symmetric] final [symmetric] using le by auto
  show ?thesis unfolding claimed_def cov using claim_pages_Inr [OF run] by blast
qed

text \<open>
  What the chains after the reservation rely on: a well-formed image of \<open>n\<close> bytes at \<open>a\<close>, and the file it
  came from.
\<close>

definition loads :: "u64 \<Rightarrow> u64 \<Rightarrow> byte_string \<Rightarrow> size_t \<Rightarrow> gem_pe_arm64x_materialized_image \<Rightarrow> bool" where
  "loads a n bytes nb r \<longleftrightarrow> image_wf (metadata r) \<and> mat_base r = a \<and> mat_size r = n \<and>
     n = ucast (size_of_image (summary (metadata r))) \<and> length bytes = unat nb \<and> img_byte_count (metadata r) = nb \<and>
     size_of_headers (metadata r) \<le> size_of_image (summary (metadata r))"

definition public_section :: "pe_section \<Rightarrow> gem_pe_arm64x_section" where
  "public_section s = \<lparr>out_virtual_address = virtual_address s, out_virtual_size = virtual_size s,
     out_raw_size = raw_size s, out_characteristics = characteristics s\<rparr>"

lemma public_section_simps [simp]:
  "out_virtual_address (public_section s) = virtual_address s" "out_raw_size (public_section s) = raw_size s"
  "out_characteristics (public_section s) = characteristics s" "section_extent (public_section s) = section_virtual_extent s"
  by (simp_all add: public_section_def section_extent_def section_virtual_extent_def)

lemma load_raw_post:
  assumes r: "loads a n bytes nb r" and f: "filled_with pins a n m0 f m"
    and fit: "unat (virtual_address s) + unat (raw_size s) \<le> unat n"
  shows "load_post m (load_raw bytes nb r (public_section s))
    (\<lambda>_. filled_with pins a n m0 (section_image (metadata r) bytes s f)) (staged pins a n m0)"
proof (cases "raw_size s = 0")
  case True
  then show ?thesis using f by (auto simp: load_raw_def section_image_def intro!: load_post_pure)
next
  case False
  note st = filled_staged [OF f]
  show ?thesis
  proof (cases "gem_pe_arm64x_rva_to_file_offset (Some (metadata r)) (virtual_address s) (raw_size s) True")
    case (Inl e)
    then show ?thesis using False st by (auto simp: load_raw_def intro!: load_post_pure)
  next
    case (Inr off)
    let ?bs = "take (unat (raw_size s)) (drop (unat off) bytes)"
    have w: "mat_base r + ucast (virtual_address s) = a + of_nat (unat (virtual_address s))" using r by (simp add: loads_def)
    have fit': "unat (virtual_address s) + unat (ucast (raw_size s) :: u64) \<le> unat n" using fit by simp
    have image: "section_image (metadata r) bytes s f = overlay (unat (virtual_address s)) ?bs f"
      using False Inr by (simp add: section_image_def)
    have "load_post m (load_then (load_require (\<not> (off > nb \<or> ucast (raw_size s) > nb - off)) GEM_PE_MATERIALIZE_BAD_SECTION) (\<lambda>_.
        load_write (mat_base r + ucast (virtual_address s)) ?bs (ucast (raw_size s)) GEM_PE_MATERIALIZE_BAD_SECTION))
      (\<lambda>_. filled_with pins a n m0 (section_image (metadata r) bytes s f)) (staged pins a n m0)"
    proof (rule load_post_then [OF load_post_require [of "staged pins a n m0", OF st]], elim conjE, hypsubst)
      assume c: "\<not> (off > nb \<or> ucast (raw_size s) > nb - off)"
      then have "unat off \<le> unat nb" "unat (raw_size s) \<le> unat nb - unat off"
        using unat_sub [of off nb] by (auto simp: word_less_nat_alt word_le_nat_alt not_less)
      then have len: "length ?bs = unat (ucast (raw_size s) :: u64)" using r by (simp add: loads_def)
      show "load_post m (load_write (mat_base r + ucast (virtual_address s)) ?bs (ucast (raw_size s)) GEM_PE_MATERIALIZE_BAD_SECTION)
        (\<lambda>_. filled_with pins a n m0 (section_image (metadata r) bytes s f)) (staged pins a n m0)"
        unfolding image by (rule load_post_write [OF f w len fit'])
    qed
    then show ?thesis using False Inr by (simp add: load_raw_def)
  qed
qed

lemma loads_size:
  assumes "loads a n bytes nb r"
  shows "unat n = unat (size_of_image (summary (metadata r)))" and "unat n < 2 ^ 32"
proof -
  show e: "unat n = unat (size_of_image (summary (metadata r)))" using assms by (simp add: loads_def)
  have "unat (size_of_image (summary (metadata r))) < 2 ^ 32" using unsigned_less [of "size_of_image (summary (metadata r))"] by simp
  then show "unat n < 2 ^ 32" by (simp only: e)
qed

lemma load_section_post:
  assumes r: "loads a n bytes nb r" and f: "filled_with pins a n m0 f m" and i: "i < length (sections (metadata r))"
  defines "s \<equiv> sections (metadata r) ! i"
  shows "load_post m (load_section bytes nb r ps (of_nat i)) (\<lambda>ps' m'. filled_with pins a n m0
      (section_image (metadata r) bytes s f) m' \<and> claimed s ps ps') (staged pins a n m0)"
proof -
  have "image_wf (metadata r)" using r by (simp add: loads_def)
  then have get: "gem_pe_arm64x_get_section (Some (metadata r)) (of_nat i) True = Inr (public_section s)"
    using get_section_nth i by (simp add: s_def public_section_def)
  note st = filled_staged [OF f] and n = loads_size [OF r]
  show ?thesis
  proof (cases "checked_add (ucast (virtual_address s) :: u64) (ucast (section_virtual_extent s))")
    case None
    then show ?thesis using get st by (auto simp: load_section_def intro!: load_post_pure)
  next
    case (Some ve)
    then have ve: "unat ve = unat (virtual_address s) + unat (section_virtual_extent s)" by (simp add: checked_add_Some_iff)
    have raw: "unat (raw_size s) \<le> unat (section_virtual_extent s)" by (simp add: section_virtual_extent_def word_less_nat_alt)
    have "load_post m (load_then (load_require (\<not> ve > ucast (size_of_image (summary (metadata r)))) GEM_PE_MATERIALIZE_BAD_SECTION) (\<lambda>_.
        load_then (load_pure (section_pages ps (public_section s) ve)) (\<lambda>ps'.
        load_then (load_raw bytes nb r (public_section s)) (\<lambda>_. load_pure (Inr ps')))))
      (\<lambda>ps' m'. filled_with pins a n m0 (section_image (metadata r) bytes s f) m' \<and> claimed s ps ps') (staged pins a n m0)"
    proof (rule load_post_then [OF load_post_require [of "staged pins a n m0", OF st]], elim conjE, hypsubst)
      assume "\<not> ve > ucast (size_of_image (summary (metadata r)))"
      then have lim: "unat ve \<le> unat n" using n(1) by (simp add: word_less_nat_alt)
      have fit: "unat (virtual_address s) + unat (raw_size s) \<le> unat n" using lim ve raw by simp
      have cl: "claimed s ps ps'" if "section_pages ps (public_section s) ve = Inr ps'" for ps'
        by (rule section_pages_claimed [OF that ve]) (use lim n(2) in simp_all)
      have pages: "load_post m (load_pure (section_pages ps (public_section s) ve)) (\<lambda>ps' m'. m' = m \<and> claimed s ps ps') (staged pins a n m0)"
        by (rule load_post_pure) (use cl st in \<open>simp split: sum.split\<close>)
      show "load_post m (load_then (load_pure (section_pages ps (public_section s) ve)) (\<lambda>ps'.
          load_then (load_raw bytes nb r (public_section s)) (\<lambda>_. load_pure (Inr ps'))))
        (\<lambda>ps' m'. filled_with pins a n m0 (section_image (metadata r) bytes s f) m' \<and> claimed s ps ps') (staged pins a n m0)"
        by (rule load_post_then [OF pages], elim conjE, hypsubst, rule load_post_then [OF load_raw_post [OF r f fit]],
            rule load_post_pure) simp
    qed
    then show ?thesis using get Some by (simp add: load_section_def)
  qed
qed

text \<open>All sections in turn.\<close>

fun claims :: "pe_section list \<Rightarrow> u32 list \<Rightarrow> u32 list \<Rightarrow> bool" where
  "claims [] ps ps' \<longleftrightarrow> ps' = ps"
| "claims (s # ss) ps ps' \<longleftrightarrow> (\<exists>qs. claimed s ps qs \<and> claims ss qs ps')"

lemma load_sections_post:
  assumes r: "loads a n bytes nb r"
  shows "filled_with pins a n m0 f m \<Longrightarrow> \<forall>i \<in> set is. i < length (sections (metadata r)) \<Longrightarrow>
    load_post m (load_sections bytes nb r ps is) (\<lambda>ps' m'. filled_with pins a n m0
      (fold (section_image (metadata r) bytes) (map (\<lambda>i. sections (metadata r) ! i) is) f) m' \<and>
      claims (map (\<lambda>i. sections (metadata r) ! i) is) ps ps') (staged pins a n m0)"
proof (induction "is" arbitrary: f m ps)
  case Nil
  then show ?case by (auto intro!: load_post_pure)
next
  case (Cons i "is")
  have i: "i < length (sections (metadata r))" using Cons.prems(2) by simp
  show ?case
    unfolding load_sections.simps
  proof (rule load_post_then [OF load_section_post [OF r Cons.prems(1) i]], elim conjE)
    fix ps1 m1
    assume c: "filled_with pins a n m0 (section_image (metadata r) bytes (sections (metadata r) ! i) f) m1" "claimed (sections (metadata r) ! i) ps ps1"
    show "load_post m1 (load_sections bytes nb r ps1 is) (\<lambda>ps' m'. filled_with pins a n m0
        (fold (section_image (metadata r) bytes) (map (\<lambda>i. sections (metadata r) ! i) (i # is)) f) m' \<and>
        claims (map (\<lambda>i. sections (metadata r) ! i) (i # is)) ps ps') (staged pins a n m0)"
      by (rule load_post_mono [OF Cons.IH [OF c(1)]]) (use Cons.prems(2) c(2) in auto)
  qed
qed

section \<open>Bindings\<close>

lemma slot_section_Some:
  "slot_section img rva is = Some out \<Longrightarrow> \<exists>i \<in> set is. gem_pe_arm64x_get_section (Some img) (of_nat i) True = Inr out \<and> section_contains out rva 8"
  by (induction "is") (auto split: sum.splits if_splits)

lemma binding_fits:
  assumes r: "loads a n bytes nb r" and b: "binding_ok r image_end earlier b"
  shows "unat (slot_rva b) + 8 \<le> unat n"
proof -
  have wf: "image_wf (metadata r)" using r by (simp add: loads_def)
  let ?is = "[0 ..< unat (gem_pe_arm64x_section_count (Some (metadata r)))]"
  obtain out where "slot_section (metadata r) (slot_rva b) ?is = Some out" using b by (auto simp: binding_ok_def split: option.splits)
  then obtain i where i: "i \<in> set ?is" "gem_pe_arm64x_get_section (Some (metadata r)) (of_nat i) True = Inr out" "section_contains out (slot_rva b) 8"
    using slot_section_Some by blast
  have len: "i < length (sections (metadata r))"
    using i(1) image_lengths(1) [OF wf] by (simp add: gem_pe_arm64x_section_count_def)
  let ?s = "sections (metadata r) ! i"
  have out: "out = public_section ?s" using get_section_nth [OF wf len] i(2) by (simp add: public_section_def)
  have "?s \<in> set (sections (metadata r))" using len by simp
  then have "section_ok (size_of_image (summary (metadata r))) ?s" using wf by (simp add: image_wf_def sections_wf_def)
  then have end_: "unat (virtual_address ?s) + unat (section_virtual_extent ?s) \<le> unat n"
    using loads_size(1) [OF r] by (simp add: section_ok_def section_end_def section_virtual_extent_def)
  have big: "unat n < 2 ^ 64" using unsigned_less [of n] by simp
  have "unat (ucast (virtual_address ?s) + ucast (section_virtual_extent ?s) :: u64) = unat (virtual_address ?s) + unat (section_virtual_extent ?s)"
    using unat_add_no_wrap [of "ucast (virtual_address ?s) :: u64" "ucast (section_virtual_extent ?s)"] end_ big by simp
  moreover have "unat (ucast (slot_rva b) + ucast (8 :: u32) :: u64) = unat (slot_rva b) + 8"
  proof -
    have "unat (slot_rva b) < 2 ^ 32" using unsigned_less [of "slot_rva b"] by simp
    then show ?thesis using unat_add_no_wrap [of "ucast (slot_rva b) :: u64" 8] by simp
  qed
  moreover have "(ucast (slot_rva b) + ucast (8 :: u32) :: u64) \<le> ucast (virtual_address ?s) + ucast (section_virtual_extent ?s)"
    using i(3) by (simp add: section_contains_def out)
  ultimately show ?thesis using end_ by (simp only: word_le_nat_alt)
qed

definition bind_slot :: "gem_pe_arm64x_binding \<Rightarrow> (nat \<Rightarrow> u8) \<Rightarrow> nat \<Rightarrow> u8" where
  "bind_slot b = overlay (unat (slot_rva b)) (le_bytes 8 (bind_value b))"

lemma load_bindings_post:
  assumes r: "loads a n bytes nb r"
  shows "filled_with pins a n m0 f m \<Longrightarrow> load_post m (load_bindings r image_end earlier bs)
    (\<lambda>_ m'. filled_with pins a n m0 (fold bind_slot bs f) m') (staged pins a n m0)"
proof (induction bs arbitrary: f m earlier)
  case Nil
  then show ?case by (auto intro!: load_post_pure)
next
  case (Cons b bs)
  have w: "mat_base r + ucast (slot_rva b) = a + of_nat (unat (slot_rva b))" using r by (simp add: loads_def)
  have len: "length (le_bytes 8 (bind_value b)) = unat (8 :: u64)" by (simp add: le_bytes_def)
  show ?case
    unfolding load_bindings.simps
  proof (rule load_post_then [OF load_post_require [of "staged pins a n m0", OF filled_staged [OF Cons.prems]]], elim conjE, hypsubst)
    assume ok: "binding_ok r image_end earlier b"
    have fit: "unat (slot_rva b) + unat (8 :: u64) \<le> unat n" using binding_fits [OF r ok] by simp
    show "load_post m (load_then (load_write (mat_base r + ucast (slot_rva b)) (le_bytes 8 (bind_value b)) 8 GEM_PE_MATERIALIZE_MEMORY_ERROR)
        (\<lambda>_. load_bindings r image_end (earlier @ [b]) bs))
      (\<lambda>_ m'. filled_with pins a n m0 (fold bind_slot (b # bs) f) m') (staged pins a n m0)"
      by (rule load_post_then [OF load_post_write [OF Cons.prems w len fit]], rule load_post_mono [OF Cons.IH])
        (simp_all add: bind_slot_def [of b])
  qed
qed

section \<open>Protections\<close>

definition final_protection :: "u32 list \<Rightarrow> nat \<Rightarrow> u32" where
  "final_protection ps i = (if ps ! i = 0 then GEM_PAGE_NOACCESS else ps ! i)"

definition page_of :: "u64 \<Rightarrow> nat \<Rightarrow> u64" where
  "page_of a i = a + of_nat (4096 * i)"

lemma page_of_mem:
  assumes "range_ok a n" and "i < unat n div 4096"
  shows "page_of a i \<in> set (page_addrs a n)" and "unat (page_of a i) = unat a + 4096 * i"
proof -
  have "i < (unat n + 4095) div 4096" using assms(2) by (simp add: order_less_le_trans div_le_mono)
  then show "page_of a i \<in> set (page_addrs a n)" and "unat (page_of a i) = unat a + 4096 * i"
    using unat_page_addr(1) [OF assms(1)] by (auto simp: page_addrs_def page_of_def)
qed

lemma load_protections_post:
  "staged pins a n m0 m \<Longrightarrow> distinct is \<Longrightarrow> \<forall>i \<in> set is. i < unat n div 4096 \<Longrightarrow>
    load_post m (load_protections a ps is) (\<lambda>_ m'. staged pins a n m0 m' \<and> byte_at m' = byte_at m \<and>
      (\<forall>i \<in> set is. map_option protection (layout m' (page_of a i)) = Some (final_protection ps i)) \<and>
      (\<forall>y. y \<notin> page_of a ` set is \<longrightarrow> layout m' y = layout m y)) (staged pins a n m0)"
proof (induction "is" arbitrary: m)
  case Nil
  then show ?case by (auto intro!: load_post_pure)
next
  case (Cons i "is")
  have ra: "range_ok a n" using Cons.prems(1) by (simp add: staged_def)
  have pg: "a + of_nat i * GEM_GUEST_PAGE_SIZE = page_of a i" by (simp add: page_of_def GEM_GUEST_PAGE_SIZE_def mult.commute)
  have i: "i < unat n div 4096" using Cons.prems(3) by simp
  note mem = page_of_mem [OF ra i]
  have new: "page_of a i \<notin> page_of a ` set is"
  proof
    assume "page_of a i \<in> page_of a ` set is"
    then obtain k where k: "k \<in> set is" "page_of a i = page_of a k" by blast
    have "k < unat n div 4096" using k(1) Cons.prems(3) by simp
    from page_of_mem(2) [OF ra this] have "i = k" using mem(2) unfolding k(2) by linarith
    then show False using Cons.prems(2) k(1) by simp
  qed
  obtain p where p: "layout m (page_of a i) = Some p" using Cons.prems(1) mem(1) by (auto simp: staged_def)
  show ?case
    unfolding load_protections.simps pg final_protection_def [symmetric]
  proof (rule load_post_then [OF load_post_protect [OF Cons.prems(1) mem(1)]], elim conjE)
    fix u m1
    assume m1: "staged pins a n m0 m1" "byte_at m1 = byte_at m"
      "layout m1 = (\<lambda>y. if y = page_of a i then map_option (\<lambda>p. p\<lparr>protection := final_protection ps i\<rparr>) (layout m (page_of a i)) else layout m y)"
    have dist: "distinct is" "\<forall>i \<in> set is. i < unat n div 4096" using Cons.prems(2,3) by simp_all
    show "load_post m1 (load_protections a ps is) (\<lambda>_ m'. staged pins a n m0 m' \<and> byte_at m' = byte_at m \<and>
      (\<forall>i \<in> set (i # is). map_option protection (layout m' (page_of a i)) = Some (final_protection ps i)) \<and>
      (\<forall>y. y \<notin> page_of a ` set (i # is) \<longrightarrow> layout m' y = layout m y)) (staged pins a n m0)"
    proof (rule load_post_mono [OF Cons.IH [OF m1(1) dist]], elim conjE)
      fix m2
      assume m2: "staged pins a n m0 m2" "byte_at m2 = byte_at m1"
        "\<forall>i \<in> set is. map_option protection (layout m2 (page_of a i)) = Some (final_protection ps i)"
        "\<forall>y. y \<notin> page_of a ` set is \<longrightarrow> layout m2 y = layout m1 y"
      have "layout m2 (page_of a i) = layout m1 (page_of a i)" using m2(4) new by blast
      then have here: "map_option protection (layout m2 (page_of a i)) = Some (final_protection ps i)" by (simp add: m1(3) p)
      have rest: "\<forall>y. y \<notin> page_of a ` set (i # is) \<longrightarrow> layout m2 y = layout m y" using m2(4) by (simp add: m1(3))
      show "staged pins a n m0 m2 \<and> byte_at m2 = byte_at m \<and>
        (\<forall>i \<in> set (i # is). map_option protection (layout m2 (page_of a i)) = Some (final_protection ps i)) \<and>
        (\<forall>y. y \<notin> page_of a ` set (i # is) \<longrightarrow> layout m2 y = layout m y)"
        using m2(1,2,3) m1(2) here rest by simp
    qed
  qed
qed

lemma claims_spec:
  "claims ss ps ps' \<Longrightarrow> length ps' = length ps \<and>
    (\<forall>s \<in> set ss. \<forall>j. covers s j \<longrightarrow> j < length ps \<and> ps' ! j = section_protection (characteristics s)) \<and>
    (\<forall>j. ps ! j \<noteq> 0 \<longrightarrow> ps' ! j = ps ! j) \<and> (\<forall>j. (\<forall>s \<in> set ss. \<not> covers s j) \<longrightarrow> ps' ! j = ps ! j)"
proof (induction ss arbitrary: ps)
  case (Cons s ss)
  obtain qs where q: "claimed s ps qs" "claims ss qs ps'" using Cons.prems by auto
  note ih = Cons.IH [OF q(2)]
  have nz: "section_protection (characteristics s) \<noteq> 0" by (simp add: section_protection_def Let_def)
  have keep: "qs ! j = ps ! j" if "ps ! j \<noteq> 0" for j using q(1) that unfolding claimed_def by (cases "covers s j") metis+
  have own: "j < length ps \<and> ps' ! j = section_protection (characteristics s)" if "covers s j" for j
  proof -
    have "j < length ps" "qs ! j = section_protection (characteristics s)" using q(1) that by (auto simp: claimed_def)
    then show ?thesis using ih nz by metis
  qed
  have "ps' ! j = ps ! j" if "ps ! j \<noteq> 0" for j using ih keep [OF that] that by metis
  moreover have "ps' ! j = ps ! j" if "\<forall>t \<in> set (s # ss). \<not> covers t j" for j
    using ih q(1) that unfolding claimed_def by (metis list.set_intros)
  moreover have "j < length ps \<and> ps' ! j = section_protection (characteristics t)" if "t \<in> set ss" "covers t j" for t j
    using ih q(1) that unfolding claimed_def by metis
  moreover have "length ps' = length ps" using ih q(1) by (simp add: claimed_def)
  ultimately show ?case using own by auto
qed simp

lemma foldl_update_nth:
  "k \<le> length ps \<Longrightarrow> length (foldl (\<lambda>ps i. ps[i := v]) ps [0..<k]) = length ps \<and>
    (\<forall>j < length ps. foldl (\<lambda>ps i. ps[i := v]) ps [0..<k] ! j = (if j < k then v else ps ! j))"
  by (induction k) (auto simp: nth_list_update less_Suc_eq)

definition header_page_count :: "u32 \<Rightarrow> nat" where
  "header_page_count h = (unat h + 4095) div 4096"

lemma header_pages_nth:
  assumes "header_page_count h \<le> k"
  shows "length (header_pages h k) = k" and "j < k \<Longrightarrow> header_pages h k ! j = (if j < header_page_count h then GEM_PAGE_READONLY else 0)"
proof -
  have "unat h < 2 ^ 32" using unsigned_less [of h] by simp
  then have v: "unat (ucast h + 4095 :: u64) = unat h + 4095" using unat_add_no_wrap [of "ucast h :: u64" 4095] by simp
  have e: "ucast h + GEM_GUEST_PAGE_SIZE - 1 = (ucast h + 4095 :: u64)" by (simp add: GEM_GUEST_PAGE_SIZE_def)
  have "unat ((ucast h + GEM_GUEST_PAGE_SIZE - 1) div GEM_GUEST_PAGE_SIZE) = header_page_count h"
    unfolding e unat_div v header_page_count_def by (simp add: GEM_GUEST_PAGE_SIZE_def)
  then show "length (header_pages h k) = k" and "j < k \<Longrightarrow> header_pages h k ! j = (if j < header_page_count h then GEM_PAGE_READONLY else 0)"
    using foldl_update_nth [of "header_page_count h" "replicate k 0" GEM_PAGE_READONLY] assms by (simp_all add: header_pages_def)
qed

section \<open>Filling the reservation\<close>

text \<open>The reference image: headers, then each section's file bytes, then the bindings, over zeros.\<close>

definition image_contents :: "gem_pe_arm64x_image \<Rightarrow> byte_string \<Rightarrow> gem_pe_arm64x_binding list \<Rightarrow> nat \<Rightarrow> u8" where
  "image_contents img bytes bs = fold bind_slot bs (fold (section_image img bytes) (sections img)
     (overlay 0 (take (unat (size_of_headers img)) bytes) (\<lambda>_. 0)))"

definition image_protection :: "gem_pe_arm64x_image \<Rightarrow> (nat \<Rightarrow> u32 option) \<Rightarrow> bool" where
  "image_protection img prot \<longleftrightarrow>
     (\<forall>s \<in> set (sections img). \<forall>j. covers s j \<longrightarrow> prot j = Some (section_protection (characteristics s))) \<and>
     (\<forall>j < header_page_count (size_of_headers img). prot j = Some GEM_PAGE_READONLY) \<and>
     (\<forall>j < unat (size_of_image (summary img)) div 4096. header_page_count (size_of_headers img) \<le> j \<and>
        (\<forall>s \<in> set (sections img). \<not> covers s j) \<longrightarrow> prot j = Some GEM_PAGE_NOACCESS)"

lemma claims_protection:
  assumes cl: "claims (sections img) (header_pages (size_of_headers img) k) ps" and k: "k = unat (size_of_image (summary img)) div 4096"
    and h: "header_page_count (size_of_headers img) \<le> k" and prot: "\<And>j. j < k \<Longrightarrow> prot j = Some (final_protection ps j)"
  shows "image_protection img prot"
proof -
  note c = claims_spec [OF cl, unfolded header_pages_nth(1) [OF h]] and hp = header_pages_nth(2) [OF h]
  have "section_protection (characteristics s) \<noteq> 0" for s by (simp add: section_protection_def Let_def)
  then have "prot j = Some (section_protection (characteristics s))" if "s \<in> set (sections img)" "covers s j" for s j
    using c prot that by (metis final_protection_def)
  moreover have "prot j = Some GEM_PAGE_READONLY" if "j < header_page_count (size_of_headers img)" for j
  proof -
    have "header_pages (size_of_headers img) k ! j = GEM_PAGE_READONLY" using hp [of j] that h by simp
    then have "ps ! j = GEM_PAGE_READONLY" using c by simp
    then show ?thesis using prot [of j] that h by (simp add: final_protection_def)
  qed
  moreover have "prot j = Some GEM_PAGE_NOACCESS"
    if "j < k" "header_page_count (size_of_headers img) \<le> j" "\<forall>s \<in> set (sections img). \<not> covers s j" for j
  proof -
    have "ps ! j = 0" using c hp [of j] that by simp
    then show ?thesis using prot that(1) by (simp add: final_protection_def)
  qed
  ultimately show ?thesis unfolding image_protection_def k by blast
qed

text \<open>The state the chain leaves behind.\<close>

definition materialized :: "(backing_ref \<Rightarrow> int) \<Rightarrow> u64 \<Rightarrow> u64 \<Rightarrow> gem_memory \<Rightarrow> gem_pe_arm64x_image \<Rightarrow> byte_string
    \<Rightarrow> gem_pe_arm64x_binding list \<Rightarrow> gem_memory \<Rightarrow> bool" where
  "materialized pins a n m0 img bytes bs m \<longleftrightarrow> staged pins a n m0 m \<and>
     (\<forall>i < unat n. byte_at m (a + of_nat i) = Some (image_contents img bytes bs i)) \<and>
     image_protection img (\<lambda>j. map_option protection (layout m (page_of a j)))"

lemma filled_protections_post:
  assumes r: "loads a n bytes nb r" and f: "filled_with pins a n m0 (image_contents (metadata r) bytes bs) m"
    and cl: "claims (sections (metadata r)) (header_pages (size_of_headers (metadata r)) (unat n div 4096)) ps"
  shows "load_post m (load_protections a ps [0 ..< unat n div 4096]) (\<lambda>_. materialized pins a n m0 (metadata r) bytes bs) (staged pins a n m0)"
proof (rule load_post_mono [OF load_protections_post [OF filled_staged [OF f]]], simp, simp, elim conjE)
  fix m'
  assume m': "staged pins a n m0 m'" "byte_at m' = byte_at m"
    "\<forall>i \<in> set [0 ..< unat n div 4096]. map_option protection (layout m' (page_of a i)) = Some (final_protection ps i)"
  have ra: "range_ok a n" using m'(1) by (simp add: staged_def)
  have "unat (size_of_headers (metadata r)) \<le> unat n" using r loads_size(1) [OF r] by (simp add: loads_def word_le_nat_alt)
  then have "header_page_count (size_of_headers (metadata r)) \<le> (unat n + 4095) div 4096"
    unfolding header_page_count_def by (intro div_le_mono) simp
  moreover have "(unat n + 4095) div 4096 = unat n div 4096"
    using ra length_page_addrs [OF ra] by (simp add: page_addrs_def)
  ultimately have h: "header_page_count (size_of_headers (metadata r)) \<le> unat n div 4096" by simp
  have "image_protection (metadata r) (\<lambda>j. map_option protection (layout m' (page_of a j)))"
    by (rule claims_protection [OF cl _ h]) (use m'(3) loads_size(1) [OF r] in auto)
  then show "materialized pins a n m0 (metadata r) bytes bs m'"
    using m'(1,2) f by (simp add: materialized_def filled_with_def)
qed

lemma fill_image_post:
  assumes r: "loads a n bytes nb r" and st: "staged pins a n m0 m"
    and empty: "\<And>x. x \<in> set (page_addrs a n) \<Longrightarrow> \<exists>p. layout m x = Some p \<and> page_backing p = None"
  shows "load_post m (fill_image bytes nb bs r image_end rb) (\<lambda>_. materialized pins a n m0 (metadata r) bytes bs) (staged pins a n m0)"
proof -
  have wf: "image_wf (metadata r)" and ab: "mat_base r = a" "mat_size r = n" using r by (simp_all add: loads_def)
  have hs: "sum_size_of_headers (summary (metadata r)) = size_of_headers (metadata r)"
      "unat (size_of_headers (metadata r)) \<le> length bytes"
    using wf r by (simp_all add: image_wf_def loads_def)
  have hn: "0 + unat (ucast (size_of_headers (metadata r)) :: u64) \<le> unat n"
    using r loads_size(1) [OF r] by (simp add: loads_def word_le_nat_alt)
  have pc: "unat (size_of_image (summary (metadata r))) div 4096 = unat n div 4096" using loads_size(1) [OF r] by simp
  have sc: "map (\<lambda>i. sections (metadata r) ! i) [0 ..< unat (gem_pe_arm64x_section_count (Some (metadata r)))] = sections (metadata r)"
    using image_lengths(1) [OF wf] map_nth [of "sections (metadata r)"] by (simp add: gem_pe_arm64x_section_count_def)
  have si: "\<forall>i \<in> set [0 ..< unat (gem_pe_arm64x_section_count (Some (metadata r)))]. i < length (sections (metadata r))"
    using image_lengths(1) [OF wf] by (simp add: gem_pe_arm64x_section_count_def)
  have len: "length (take (unat (size_of_headers (metadata r))) bytes) = unat (ucast (size_of_headers (metadata r)) :: u64)"
    using hs(2) by simp
  have w0: "a = a + of_nat 0" by simp
  show ?thesis
    unfolding fill_image_def Let_def ab hs(1) pc
    by (rule load_post_then [OF load_post_require [of "staged pins a n m0", OF st]], elim conjE, hypsubst,
        rule load_post_then [OF load_post_commit [OF st empty]], assumption,
        rule load_post_then [OF load_post_write [OF _ w0 len hn]], assumption,
        rule load_post_then [OF load_sections_post [OF r _ si, unfolded sc]], assumption, elim conjE,
        rule load_post_then [OF load_bindings_post [OF r]], assumption,
        rule filled_protections_post [OF r], simp add: image_contents_def, assumption)
qed

end
