(* ===== verification/Gem_Loader_Theorems.thy ===== *)
theory Gem_Loader_Theorems
  imports Gem_Loader_Props
begin

text \<open>
  The loader as its caller sees it: a failed call leaves the guest's memory as it was, and a
  successful one adds exactly the reference image.
\<close>

lemma prepare_image_loads:
  assumes p: "prepare_image alloc bytes nb opts = Inr (r, image_end)" and len: "length bytes = unat nb"
  shows "loads (mat_base r) (mat_size r) bytes nb r" and "mat_base r = mat_image_base opts"
    and "unat image_end = unat (mat_base r) + unat (mat_size r)"
    and "gem_pe_arm64x_parse (\<lambda>b. alloc (Parse_block b)) (Some bytes) nb None True = Inr (metadata r)"
proof -
  obtain img where img: "gem_pe_arm64x_parse (\<lambda>b. alloc (Parse_block b)) (Some bytes) nb None True = Inr img"
    and r: "r = \<lparr>metadata = img, mat_base = image_base (summary img), mat_size = ucast (size_of_image (summary img))\<rparr>"
    and c: "mat_image_base opts = image_base (summary img)" "\<not> sum_size_of_headers (summary img) > size_of_image (summary img)"
      "checked_add (image_base (summary img)) (ucast (size_of_image (summary img))) = Some image_end"
    using p by (auto simp: prepare_image_def gem_pe_arm64x_get_summary_def split: sum.splits option.splits)
  have "image_wf img \<and> img_byte_count img = nb"
    using post_Inr [OF parse_image_post img [unfolded gem_pe_arm64x_parse_def]] len by simp
  then show "loads (mat_base r) (mat_size r) bytes nb r"
    using len c(2) by (auto simp: loads_def r image_wf_def not_less)
  show "mat_base r = mat_image_base opts" using c(1) by (simp add: r)
  show "unat image_end = unat (mat_base r) + unat (mat_size r)" using c(3) by (simp add: r checked_add_Some_iff)
  show "gem_pe_arm64x_parse (\<lambda>b. alloc (Parse_block b)) (Some bytes) nb None True = Inr (metadata r)" using img by (simp add: r)
qed

definition used_bindings :: "gem_pe_arm64x_materialize_options \<Rightarrow> gem_pe_arm64x_binding list" where
  "used_bindings opts = take (unat (binding_count opts)) (case bindings opts of None \<Rightarrow> [] | Some l \<Rightarrow> l)"

text \<open>Every way the call can end.\<close>

lemma materialize_cases:
  assumes run: "gem_pe_arm64x_materialize_preferred alloc (Some m) bo nb oo out = (res, mo')" and inv: "memory_inv pins m"
  obtains (early) e where "res = Inl e" "mo' = Some m"
  | (conflict) m1 where "res = Inl GEM_PE_MATERIALIZE_CONFLICT" "mo' = Some m1" "unchanged pins m m1"
  | (filled) bytes opts r image_end b m1 where "bo = Some bytes" "oo = Some opts" "prepare_image alloc bytes nb opts = Inr (r, image_end)"
      "reserve_locked m (Some (mat_base r)) (mat_size r) = (GEM_MEMORY_OK, b, m1)"
      "(res, mo') = (case fill_image bytes nb (used_bindings opts) r image_end (case b of None \<Rightarrow> 0 | Some b \<Rightarrow> b) (Some m1) of
          (Inl st, m2) \<Rightarrow> (Inl st, snd (gem_memory_release m2 (mat_base r) (mat_size r)))
        | (Inr _, m2) \<Rightarrow> (Inr r, m2))"
proof (cases "\<exists>bytes opts r image_end. bo = Some bytes \<and> oo = Some opts \<and> prepare_image alloc bytes nb opts = Inr (r, image_end) \<and>
    \<not> (\<not> out \<or> nb = 0 \<or> mat_version opts \<noteq> GEM_PE_ARM64X_MATERIALIZE_OPTIONS_VERSION \<or> mat_reserved opts \<noteq> 0 \<or>
      binding_count opts > GEM_PE_ARM64X_MAX_BINDINGS \<or> (binding_count opts \<noteq> 0 \<and> bindings opts = None))")
  case False
  then show ?thesis using run early
    by (auto simp: gem_pe_arm64x_materialize_preferred_def split: option.splits if_splits sum.splits)
next
  case True
  then obtain bytes opts r image_end where a: "bo = Some bytes" "oo = Some opts" "prepare_image alloc bytes nb opts = Inr (r, image_end)"
    and ok: "\<not> (\<not> out \<or> nb = 0 \<or> mat_version opts \<noteq> GEM_PE_ARM64X_MATERIALIZE_OPTIONS_VERSION \<or> mat_reserved opts \<noteq> 0 \<or>
      binding_count opts > GEM_PE_ARM64X_MAX_BINDINGS \<or> (binding_count opts \<noteq> 0 \<and> bindings opts = None))" by blast
  obtain e b m1 where rv: "reserve_locked m (Some (mat_base r)) (mat_size r) = (e, b, m1)" using prod_cases3 by blast
  have run': "(res, mo') = (if e \<noteq> GEM_MEMORY_OK then (Inl GEM_PE_MATERIALIZE_CONFLICT, Some m1)
      else (case fill_image bytes nb (used_bindings opts) r image_end (case b of None \<Rightarrow> 0 | Some b \<Rightarrow> b) (Some m1) of
          (Inl st, m2) \<Rightarrow> (Inl st, snd (gem_memory_release m2 (mat_base r) (mat_size r)))
        | (Inr _, m2) \<Rightarrow> (Inr r, m2)))"
    using run ok by (simp only: gem_pe_arm64x_materialize_preferred_def a gem_memory_reserve_def rv used_bindings_def
        prod.case option.case sum.case if_False)
  show ?thesis
  proof (cases "e = GEM_MEMORY_OK")
    case True
    then show ?thesis using filled [OF a] rv run' by simp
  next
    case False
    have "unchanged pins m m1" by (rule same_map_unchanged [OF inv reserve_fail(3,1) [OF inv rv False]])
    then show ?thesis using conflict run' False by simp
  qed
qed

text \<open>
  Materialising an image (C26). Whatever \<open>gem_pe_arm64x_materialize_preferred\<close> is given with a base other than 0, when it fails (a malformed file, a
  base other than the preferred one, an occupied range, contradictory section protections, a bad binding, memory that
  runs out at any point) the guest's address space is what it was: nothing stays reserved and no byte has changed. When it
  succeeds the range was free, the file parsed, and the guest sees the reference image there and nothing else has changed:
  headers, section bytes and bindings over zeros, each page with its section's protection, the headers read-only and the
  gaps inaccessible. (At base 0 the reservation takes an address of its own choice, which a failure does not release: a finding.)
\<close>

theorem materialize_spec:
  assumes inv: "memory_inv pins m" and len: "length bytes = unat nb" and base: "mat_image_base opts \<noteq> 0"
    and run: "gem_pe_arm64x_materialize_preferred alloc (Some m) (Some bytes) nb (Some opts) out = (res, mo')"
  shows "\<exists>m'. mo' = Some m' \<and>
    (case res of
       Inl e \<Rightarrow> unchanged pins m m'
     | Inr r \<Rightarrow> gem_pe_arm64x_parse (\<lambda>b. alloc (Parse_block b)) (Some bytes) nb None True = Inr (metadata r) \<and>
         mat_base r = mat_image_base opts \<and> mat_size r = ucast (size_of_image (summary (metadata r))) \<and>
         (\<forall>x \<in> set (page_addrs (mat_base r) (mat_size r)). layout m x = None) \<and>
         materialized pins (mat_base r) (mat_size r) m (metadata r) bytes (used_bindings opts) m')"
  using run inv
proof (cases rule: materialize_cases)
  case (early e)
  then show ?thesis using eq_unchanged [OF inv] by simp
next
  case (conflict m1)
  then show ?thesis by simp
next
  case (filled bytes' opts' r image_end b m1)
  then have f: "prepare_image alloc bytes nb opts = Inr (r, image_end)"
      "reserve_locked m (Some (mat_base r)) (mat_size r) = (GEM_MEMORY_OK, b, m1)"
      "(res, mo') = (case fill_image bytes nb (used_bindings opts) r image_end (case b of None \<Rightarrow> 0 | Some b \<Rightarrow> b) (Some m1) of
          (Inl st, m2) \<Rightarrow> (Inl st, snd (gem_memory_release m2 (mat_base r) (mat_size r)))
        | (Inr _, m2) \<Rightarrow> (Inr r, m2))" by simp_all
  note prep = prepare_image_loads [OF f(1) len]
  have nz: "mat_base r \<noteq> 0" using base prep(2) by simp
  note st = reserve_staged [OF inv f(2) nz]
  have "load_post m1 (fill_image bytes nb (used_bindings opts) r image_end (case b of None \<Rightarrow> 0 | Some b \<Rightarrow> b))
      (\<lambda>_. materialized pins (mat_base r) (mat_size r) m (metadata r) bytes (used_bindings opts)) (staged pins (mat_base r) (mat_size r) m)"
    using st(3) by (intro fill_image_post [OF prep(1) st(1)]) blast
  then obtain q m2 where q: "fill_image bytes nb (used_bindings opts) r image_end (case b of None \<Rightarrow> 0 | Some b \<Rightarrow> b) (Some m1) = (q, Some m2)"
    "case q of Inl _ \<Rightarrow> staged pins (mat_base r) (mat_size r) m m2
      | Inr _ \<Rightarrow> materialized pins (mat_base r) (mat_size r) m (metadata r) bytes (used_bindings opts) m2"
    by (auto simp: load_post_def)
  show ?thesis
  proof (cases q)
    case (Inl e)
    then obtain m3 where "release_locked m2 (mat_base r) (mat_size r) = (GEM_MEMORY_OK, m3)" "unchanged pins m m3"
      using release_staged [of pins "mat_base r" "mat_size r" m m2] q(2) st(3) by fastforce
    then show ?thesis using f(3) q(1) Inl by (simp add: gem_memory_release_def on_memory_def)
  next
    case (Inr u)
    have "mat_size r = ucast (size_of_image (summary (metadata r)))" using prep(1) by (simp add: loads_def)
    then show ?thesis using f(3) q Inr prep(2,4) st(3) by simp
  qed
qed

section \<open>An instance\<close>

text \<open>
  A file whose one executable section starts in the page of the headers: the protections contradict each other
  after the range is reserved and committed, so the call goes through the release.
\<close>

definition crowded_pe :: byte_string where
  "crowded_pe = [77, 90] @ replicate 58 0 @ [64, 0, 0, 0, 80, 69, 0, 0, 100, 170, 1] @ replicate 13 0 @ [200, 0, 0, 0, 11, 2]
     @ replicate 14 0 @ [72, 1] @ replicate 7 0 @ [16] @ replicate 6 0 @ [1, 0, 0, 0, 1] @ replicate 20 0 @ [16, 0,
     0, 72, 1] @ replicate 46 0 @ [16] @ replicate 83 0 @ [72, 1, 0, 0, 208] @ replicate 11 0 @ [60, 1, 0, 0, 72,
     1, 0, 0, 60, 1, 0, 0, 72, 1] @ replicate 17 0 @ [32, 208] @ replicate 199 0 @ [24, 18] @ replicate 6 0 @ [1,
     0, 0, 0, 104, 2, 0, 0, 1, 0, 0, 0, 112, 2, 0, 0, 124, 2] @ replicate 30 0 @ [1, 0, 0, 0, 1] @ replicate 27 0 @
     [74, 1, 0, 0, 60, 1, 0, 0, 84, 1, 0, 0, 104, 1, 0, 0, 88, 1, 0, 0, 144, 1, 0, 0, 148, 1, 0, 0]"

definition crowded_options :: gem_pe_arm64x_materialize_options where
  "crowded_options = \<lparr>mat_version = 1, mat_reserved = 0, mat_image_base = 4096, bindings = None, binding_count = 0\<rparr>"

definition crowded_image :: gem_pe_arm64x_materialized_image where
  "crowded_image = \<lparr>metadata = sample_image\<lparr>summary := (summary sample_image)\<lparr>size_of_image := 4096\<rparr>\<rparr>, mat_base = 4096, mat_size = 4096\<rparr>"

lemma crowded_length: "length crowded_pe = 644"
  by code_simp

lemma crowded_prepares: "prepare_image (\<lambda>_. True) crowded_pe 644 crowded_options = Inr (crowded_image, 8192)"
  by code_simp

lemma load_then_Inr: "load_then f g m = (Inr x, m') \<Longrightarrow> \<exists>a m1. f m = (Inr a, m1) \<and> g a m1 = (Inr x, m')"
  by (auto simp: load_then_def split: prod.splits sum.splits)

lemma crowded_sections: "fst (load_section crowded_pe 644 crowded_image (header_pages 328 1) 0 m) = Inl GEM_PE_MATERIALIZE_PERMISSION_CONFLICT"
proof -
  have a: "gem_pe_arm64x_get_section (Some (metadata crowded_image)) 0 True =
      Inr \<lparr>out_virtual_address = 328, out_virtual_size = 316, out_raw_size = 316, out_characteristics = 0x20000000\<rparr>" by code_simp
  have b: "checked_add (ucast (328 :: u32) :: u64) (ucast (316 :: u32)) = Some 644" by code_simp
  have c: "section_pages (header_pages 328 1) \<lparr>out_virtual_address = 328, out_virtual_size = 316, out_raw_size = 316, out_characteristics = 0x20000000\<rparr> 644 =
      Inl GEM_PE_MATERIALIZE_PERMISSION_CONFLICT" by code_simp
  have d: "size_of_image (summary (metadata crowded_image)) = 4096" by (simp add: crowded_image_def)
  show ?thesis unfolding load_section_def a sum.case using b c d
    by (simp add: section_extent_def load_then_def load_require_def load_pure_def guard_that_def)
qed

lemma crowded_fill: "fst (fill_image crowded_pe 644 bs crowded_image 8192 rb m) \<noteq> Inr ()"
proof
  assume "fst (fill_image crowded_pe 644 bs crowded_image 8192 rb m) = Inr ()"
  then obtain m' where r: "fill_image crowded_pe 644 bs crowded_image 8192 rb m = (Inr (), m')" by (metis prod.collapse)
  have e: "sum_size_of_headers (summary (metadata crowded_image)) = 328" "unat (size_of_image (summary (metadata crowded_image))) div 4096 = 1"
      "[0 ..< unat (gem_pe_arm64x_section_count (Some (metadata crowded_image)))] = [0]"
    by (simp_all add: crowded_image_def sample_image_def gem_pe_arm64x_section_count_def)
  obtain m1 y m3 where "load_section crowded_pe 644 crowded_image (header_pages 328 (Suc 0)) 0 m1 = (Inr y, m3)"
    using r unfolding fill_image_def Let_def e by (auto dest!: load_then_Inr)
  then show False using crowded_sections [of m1] by simp
qed

theorem materialize_spec_witness:
  "\<exists>e m'. gem_pe_arm64x_materialize_preferred (\<lambda>_. True) (Some sample_memory) (Some crowded_pe) 644 (Some crowded_options) True = (Inl e, Some m') \<and>
     unchanged no_pins sample_memory m'"
proof -
  obtain res mo' where run: "gem_pe_arm64x_materialize_preferred (\<lambda>_. True) (Some sample_memory) (Some crowded_pe) 644 (Some crowded_options) True = (res, mo')"
    by fastforce
  have len: "length crowded_pe = unat (644 :: size_t)" using crowded_length by simp
  have base: "mat_image_base crowded_options \<noteq> 0" by (simp add: crowded_options_def)
  from run sample_inv have "\<exists>e. res = Inl e"
  proof (cases rule: materialize_cases)
    case (filled bytes opts r image_end b m1)
    then have "r = crowded_image" "image_end = 8192" using crowded_prepares by simp_all
    then show ?thesis using filled(5) crowded_fill [of "used_bindings opts" "case b of None \<Rightarrow> 0 | Some b \<Rightarrow> b" "Some m1"] filled(1)
      by (auto split: prod.splits sum.splits)
  qed simp_all
  then show ?thesis using materialize_spec [OF sample_inv len base run] run by auto
qed

end
