(* ===== verification/Gem_Transaction.thy ===== *)
theory Gem_Transaction
  imports Gem_Memory_Api
begin

text \<open>
  Optimistic page transactions, src/gem/memory.c 898 to 1310. A transaction records, for every page
  it has looked at, the generations and the backing it saw; \<open>finish\<close> and \<open>commit_pages\<close> compare the
  record with the page table again. A recorded page pins its backing with a reference. The \<open>struct
  gem_memory *\<close> inside the transaction is the memory the operations are given; the time spent waiting
  for locks is a statistic and has no part in the model, and which stripes are taken is in theory
  \<open>Gem_Stripes\<close>.
\<close>

definition GEM_MEMORY_TRANSACTION_PAGES :: nat where "GEM_MEMORY_TRANSACTION_PAGES = 256"

definition GEM_MEMORY_CACHE_LINE :: nat where "GEM_MEMORY_CACHE_LINE = 64"

record transaction_page =
  tx_address :: u64
  tx_generation :: u64
  tx_content_generation :: u64
  tx_content_hash :: u64
  tx_backing :: backing_ref
  tx_protection :: u32
  tx_external :: bool

record gem_memory_transaction =
  tx_pages :: "transaction_page list"

text \<open>FNV-1a over the 4096 bytes of a page.\<close>

definition content_hash :: "(nat \<Rightarrow> u8) \<Rightarrow> u64" where
  "content_hash data = foldl (\<lambda>hash i. (hash XOR ucast (data i)) * 1099511628211) 1469598103934665603 [0 ..< 4096]"

definition external_hash :: "gem_memory \<Rightarrow> backing \<Rightarrow> u64" where
  "external_hash m k = (if external k then content_hash (data_bytes m k) else 0)"

section \<open>Begin and end\<close>

definition gem_memory_transaction_begin :: "bool \<Rightarrow> gem_memory option \<Rightarrow> gem_memory_transaction option" where
  "gem_memory_transaction_begin ok m = (case m of None \<Rightarrow> None | Some _ \<Rightarrow> if ok then Some \<lparr>tx_pages = []\<rparr> else None)"

definition gem_memory_transaction_end :: "gem_memory_transaction option \<Rightarrow> gem_memory \<Rightarrow> gem_memory" where
  "gem_memory_transaction_end t m = (case t of
     None \<Rightarrow> m | Some t \<Rightarrow> foldl (\<lambda>m d. drop_backing m (Some (tx_backing d))) m (tx_pages t))"

section \<open>Recording pages\<close>

text \<open>The entry for a page and the backing it holds, with the reference that pins the backing.\<close>

definition page_dependency :: "gem_memory \<Rightarrow> page \<Rightarrow> backing_ref \<Rightarrow> backing \<Rightarrow> transaction_page" where
  "page_dependency m p b k = \<lparr>tx_address = address p, tx_generation = generation p, tx_content_generation = bk_generation k,
     tx_content_hash = external_hash m k, tx_backing = b, tx_protection = protection p, tx_external = external k\<rparr>"

definition find_dependency :: "gem_memory_transaction \<Rightarrow> u64 \<Rightarrow> transaction_page option" where
  "find_dependency t a = find (\<lambda>d. tx_address d = a) (tx_pages t)"

definition record_page :: "gem_memory_transaction \<Rightarrow> gem_memory \<Rightarrow> page \<Rightarrow> backing_ref \<Rightarrow> backing \<Rightarrow> gem_memory_transaction \<times> gem_memory" where
  "record_page t m p b k = (t\<lparr>tx_pages := tx_pages t @ [page_dependency m p b k]\<rparr>, incref m b)"

text \<open>
  The comparison made by \<open>finish\<close> and \<open>commit_pages\<close>. (A page never holds a freed backing, so the
  case of a missing one does not arise.)
\<close>

definition dependency_current :: "gem_memory \<Rightarrow> transaction_page \<Rightarrow> bool" where
  "dependency_current m d = (case page_at m (tx_address d) of
     None \<Rightarrow> False
   | Some p \<Rightarrow> page_backing p = Some (tx_backing d) \<and> generation p = tx_generation d \<and>
       (case backing_heap m (tx_backing d) of
          None \<Rightarrow> False
        | Some k \<Rightarrow> bk_generation k = tx_content_generation d \<and> protection p = tx_protection d \<and>
            (tx_external d \<longrightarrow> content_hash (data_bytes m k) = tx_content_hash d)))"

text \<open>
  \<open>snapshot_page\<close>: the status, the 4096 bytes and the protection when they were written to the
  caller's buffers, the transaction and the memory. \<open>accessible\<close> stands for \<open>external_range_accessible\<close>.
\<close>

definition gem_memory_transaction_snapshot_page ::
  "(u64 \<Rightarrow> nat \<Rightarrow> bool) \<Rightarrow> gem_memory_transaction option \<Rightarrow> gem_memory \<Rightarrow> u64 \<Rightarrow> bool
    \<Rightarrow> gem_memory_error \<times> (byte_string \<times> u32) option \<times> gem_memory_transaction option \<times> gem_memory" where
  "gem_memory_transaction_snapshot_page accessible to m a outs =
     (case to of
        None \<Rightarrow> (GEM_MEMORY_INVALID_ARGUMENT, None, to, m)
      | Some t \<Rightarrow>
         (if \<not> outs \<or> a AND 4095 \<noteq> 0 then (GEM_MEMORY_INVALID_ARGUMENT, None, to, m)
          else (case page_at m a of
             None \<Rightarrow> (GEM_MEMORY_NOT_RESERVED, None, to, m)
           | Some p \<Rightarrow>
              (case page_backing p of
                 None \<Rightarrow> (GEM_MEMORY_NOT_COMMITTED, None, to, m)
               | Some b \<Rightarrow>
                  (case backing_heap m b of
                     None \<Rightarrow> (GEM_MEMORY_OK, None, to, crash m)
                   | Some k \<Rightarrow>
                      (if external k \<and> (case bk_data k of Host h \<Rightarrow> \<not> accessible h 4096 | Owned _ \<Rightarrow> False)
                       then (GEM_MEMORY_NOT_COMMITTED, None, to, m)
                       else (let out = Some (map (data_bytes m k) [0 ..< 4096], protection p)
                             in case find_dependency t a of
                               None \<Rightarrow>
                                (if length (tx_pages t) = GEM_MEMORY_TRANSACTION_PAGES then (GEM_MEMORY_NO_MEMORY, out, to, m)
                                 else (case record_page t m p b k of (t', m') \<Rightarrow> (GEM_MEMORY_OK, out, Some t', m')))
                             | Some d \<Rightarrow>
                                (if tx_backing d \<noteq> b \<or> tx_generation d \<noteq> generation p \<or> tx_content_generation d \<noteq> bk_generation k \<or>
                                    tx_protection d \<noteq> protection p \<or>
                                    (tx_external d \<and> tx_content_hash d \<noteq> content_hash (data_bytes m k))
                                 then (GEM_MEMORY_CONFLICT, out, to, m)
                                 else (GEM_MEMORY_OK, out, to, m)))))))))"

section \<open>Validating an access\<close>

text \<open>The dependency of a page, recorded when the transaction has none yet.\<close>

definition tx_dependency :: "gem_memory_transaction \<Rightarrow> gem_memory \<Rightarrow> u64
    \<Rightarrow> (gem_memory_error + transaction_page) \<times> gem_memory_transaction \<times> gem_memory" where
  "tx_dependency t m q = (case find_dependency t q of
      Some d \<Rightarrow> (Inr d, t, m)
    | None \<Rightarrow>
       (if length (tx_pages t) = GEM_MEMORY_TRANSACTION_PAGES then (Inl GEM_MEMORY_NO_MEMORY, t, m)
        else (case page_at m q of
           None \<Rightarrow> (Inl GEM_MEMORY_NOT_RESERVED, t, m)
         | Some p \<Rightarrow>
            (case page_backing p of
               None \<Rightarrow> (Inl GEM_MEMORY_NOT_COMMITTED, t, m)
             | Some b \<Rightarrow>
                (case backing_heap m b of
                   None \<Rightarrow> (Inl GEM_MEMORY_NOT_COMMITTED, t, crash m)
                 | Some k \<Rightarrow> (Inr (page_dependency m p b k), record_page t m p b k))))))"

text \<open>The first entry for an address is rewritten.\<close>

fun upd_dependency :: "u64 \<Rightarrow> (transaction_page \<Rightarrow> transaction_page) \<Rightarrow> transaction_page list \<Rightarrow> transaction_page list" where
  "upd_dependency a f [] = []"
| "upd_dependency a f (d # ds) = (if tx_address d = a then f d # ds else d # upd_dependency a f ds)"

definition tx_consume_guard :: "gem_memory_transaction \<Rightarrow> gem_memory \<Rightarrow> u64 \<Rightarrow> transaction_page
    \<Rightarrow> gem_memory_error \<times> gem_memory_transaction \<times> gem_memory" where
  "tx_consume_guard t m q d = (case at m q of
      None \<Rightarrow> (GEM_MEMORY_CONFLICT, t, m)
    | Some r \<Rightarrow>
       (case page_heap m r of
          None \<Rightarrow> (GEM_MEMORY_CONFLICT, t, crash m)
        | Some p \<Rightarrow>
           (if page_backing p \<noteq> Some (tx_backing d) \<or> generation p \<noteq> tx_generation d \<or> protection p \<noteq> tx_protection d
            then (GEM_MEMORY_CONFLICT, t, m)
            else (let m' = touch_page (upd_page m r clear_guard) r
                  in (case (page_heap m' r, backing_heap m' (tx_backing d)) of
                     (Some p', Some k) \<Rightarrow> (GEM_MEMORY_GUARD_PAGE,
                        t\<lparr>tx_pages := upd_dependency q (\<lambda>d. d\<lparr>tx_generation := generation p', tx_protection := protection p',
                             tx_content_hash := external_hash m' k\<rparr>) (tx_pages t)\<rparr>, m')
                   | _ \<Rightarrow> (GEM_MEMORY_GUARD_PAGE, t, crash m'))))))"

fun tx_validate_pieces :: "bool \<Rightarrow> bool \<Rightarrow> piece list \<Rightarrow> gem_memory_transaction \<Rightarrow> gem_memory
    \<Rightarrow> gem_memory_error \<times> gem_memory_transaction \<times> gem_memory" where
  "tx_validate_pieces w x [] t m = (GEM_MEMORY_OK, t, m)"
| "tx_validate_pieces w x ((q, _) # cs) t m = (case tx_dependency t m q of
      (Inl e, t, m) \<Rightarrow> (e, t, m)
    | (Inr d, t, m) \<Rightarrow>
       (if \<not> allowed (tx_protection d) w x then (GEM_MEMORY_ACCESS_DENIED, t, m)
        else if tx_protection d AND GEM_PAGE_GUARD \<noteq> 0 then tx_consume_guard t m q d
        else tx_validate_pieces w x cs t m))"

definition gem_memory_transaction_validate ::
  "gem_memory_transaction option \<Rightarrow> gem_memory \<Rightarrow> u64 \<Rightarrow> size_t \<Rightarrow> bool \<Rightarrow> bool
    \<Rightarrow> gem_memory_error \<times> gem_memory_transaction option \<times> gem_memory" where
  "gem_memory_transaction_validate to m a n w x = (case to of
      None \<Rightarrow> (GEM_MEMORY_INVALID_ARGUMENT, to, m)
    | Some t \<Rightarrow>
       (if w \<and> x then (GEM_MEMORY_INVALID_ARGUMENT, to, m)
        else if n = 0 then (GEM_MEMORY_OK, to, m)
        else if a > - 1 - n then (GEM_MEMORY_OVERFLOW, to, m)
        else (case tx_validate_pieces w x (peek_pieces a (unat n) 0) t m of (e, t', m') \<Rightarrow> (e, Some t', m'))))"

section \<open>Finish\<close>

text \<open>The result is the status and \<open>*fault_address\<close> when it is written.\<close>

definition gem_memory_transaction_finish :: "gem_memory_transaction option \<Rightarrow> gem_memory \<Rightarrow> gem_memory_error \<times> u64 option" where
  "gem_memory_transaction_finish to m = (case to of
      None \<Rightarrow> (GEM_MEMORY_INVALID_ARGUMENT, None)
    | Some t \<Rightarrow> (case find (\<lambda>d. \<not> dependency_current m d) (tx_pages t) of
         Some d \<Rightarrow> (GEM_MEMORY_CONFLICT, Some (tx_address d))
       | None \<Rightarrow> (GEM_MEMORY_OK, None)))"

definition gem_memory_transaction_page_is_external :: "gem_memory_transaction option \<Rightarrow> u64 \<Rightarrow> bool" where
  "gem_memory_transaction_page_is_external to a = (case to of
      None \<Rightarrow> False
    | Some t \<Rightarrow> (case find_dependency t (page_base a) of None \<Rightarrow> False | Some d \<Rightarrow> tx_external d))"

section \<open>Committing whole pages\<close>

record gem_memory_page_write =
  wr_address :: u64
  wr_data :: "byte_string option"

text \<open>The writes are checked in order; a repeated address does not set the fault address.\<close>

fun commit_check :: "gem_memory \<Rightarrow> gem_memory_page_write list \<Rightarrow> gem_memory_page_write list \<Rightarrow> (gem_memory_error \<times> u64 option) option" where
  "commit_check m earlier [] = None"
| "commit_check m earlier (w # ws) =
     (if wr_data w = None \<or> wr_address w AND 4095 \<noteq> 0 then Some (GEM_MEMORY_INVALID_ARGUMENT, Some (wr_address w))
      else if \<exists>e \<in> set earlier. wr_address e = wr_address w then Some (GEM_MEMORY_INVALID_ARGUMENT, None)
      else (case page_at m (wr_address w) of
          None \<Rightarrow> Some (GEM_MEMORY_NOT_RESERVED, Some (wr_address w))
        | Some p \<Rightarrow>
           (if page_backing p = None then Some (GEM_MEMORY_NOT_COMMITTED, Some (wr_address w))
            else if \<not> allowed (protection p) True False then Some (GEM_MEMORY_ACCESS_DENIED, Some (wr_address w))
            else commit_check m (earlier @ [w]) ws)))"

text \<open>
  Guards and private copies. A guard page ends the call after its guard is cleared, with the
  transaction's entries for it brought up to date.
\<close>

datatype copies_result =
    Copies_made "backing_ref option list"
  | Copies_failed gem_memory_error "u64 option" "backing_ref option list"

definition refresh_guard :: "u64 \<Rightarrow> page \<Rightarrow> transaction_page list \<Rightarrow> transaction_page list" where
  "refresh_guard a p ds = map (\<lambda>d. if tx_address d = a then d\<lparr>tx_generation := generation p, tx_protection := protection p\<rparr> else d) ds"

fun commit_copies :: "gem_memory_page_write list \<Rightarrow> gem_memory_transaction \<Rightarrow> gem_memory \<Rightarrow> backing_ref option list
    \<Rightarrow> copies_result \<times> gem_memory_transaction \<times> gem_memory" where
  "commit_copies [] t m cs = (Copies_made (rev cs), t, m)"
| "commit_copies (w # ws) t m cs = (case at m (wr_address w) of
      None \<Rightarrow> (Copies_failed GEM_MEMORY_OK None (rev cs), t, crash m)
    | Some r \<Rightarrow>
       (case page_heap m r of
          None \<Rightarrow> (Copies_failed GEM_MEMORY_OK None (rev cs), t, crash m)
        | Some p \<Rightarrow>
           (if protection p AND GEM_PAGE_GUARD \<noteq> 0
            then (let m' = touch_page (upd_page m r clear_guard) r
                  in (case page_heap m' r of
                     None \<Rightarrow> (Copies_failed GEM_MEMORY_OK None (rev cs), t, crash m')
                   | Some p' \<Rightarrow> (Copies_failed GEM_MEMORY_GUARD_PAGE (Some (wr_address w)) (rev cs),
                       t\<lparr>tx_pages := refresh_guard (wr_address w) p' (tx_pages t)\<rparr>, m')))
            else (case Option.bind (page_backing p) (backing_heap m) of
               None \<Rightarrow> (Copies_failed GEM_MEMORY_OK None (rev cs), t, crash m)
             | Some k \<Rightarrow>
                (if writecopy p \<and> \<not> external k
                 then (case new_backing m None of
                    (None, m) \<Rightarrow> (Copies_failed GEM_MEMORY_NO_MEMORY None (rev cs), t, m)
                  | (Some b, m) \<Rightarrow> commit_copies ws t
                      (upd_backing m b (\<lambda>k'. k'\<lparr>bk_data := Owned (data_bytes m k)\<rparr>)) (Some b # cs))
                 else commit_copies ws t m (None # cs))))))"

text \<open>Copying a page line by line where it differs; the second result counts the bytes copied.\<close>

fun write_lines :: "backing_ref \<Rightarrow> byte_string \<Rightarrow> nat list \<Rightarrow> gem_memory \<Rightarrow> nat \<Rightarrow> gem_memory \<times> nat" where
  "write_lines b data [] m changed = (m, changed)"
| "write_lines b data (l # ls) m changed =
     (let line = take GEM_MEMORY_CACHE_LINE (drop l data)
      in if read_backing m b l GEM_MEMORY_CACHE_LINE \<noteq> Some line
         then write_lines b data ls (write_backing m b l line) (changed + GEM_MEMORY_CACHE_LINE)
         else write_lines b data ls m changed)"

definition page_lines :: "nat list" where
  "page_lines = map (\<lambda>i. i * GEM_MEMORY_CACHE_LINE) [0 ..< 4096 div GEM_MEMORY_CACHE_LINE]"

text \<open>The page takes its private copy, or the protection that replaces write-copy.\<close>

definition adopt_copy :: "gem_memory \<Rightarrow> page_ref \<Rightarrow> page \<Rightarrow> backing_ref option \<Rightarrow> gem_memory" where
  "adopt_copy m r p copy = (case copy of
      Some b \<Rightarrow> upd_page (drop_backing m (page_backing p)) r (\<lambda>p. p\<lparr>page_backing := Some b, protection := written_protection p\<rparr>)
    | None \<Rightarrow>
       (case Option.bind (page_backing p) (backing_heap m) of
          None \<Rightarrow> crash m
        | Some k \<Rightarrow> (if external k \<and> writecopy p then upd_page m r (\<lambda>p. p\<lparr>protection := written_protection p\<rparr>) else m)))"

text \<open>The transaction's entry for a page just written, moved to the page's backing.\<close>

fun rebind_dependencies :: "page \<Rightarrow> backing_ref \<Rightarrow> backing \<Rightarrow> byte_string \<Rightarrow> transaction_page list \<Rightarrow> gem_memory
    \<Rightarrow> transaction_page list \<times> gem_memory" where
  "rebind_dependencies p b k data [] m = ([], m)"
| "rebind_dependencies p b k data (d # ds) m =
     (if tx_address d \<noteq> address p then (case rebind_dependencies p b k data ds m of (ds', m') \<Rightarrow> (d # ds', m'))
      else (let m' = (if tx_backing d \<noteq> b then incref (drop_backing m (Some (tx_backing d))) b else m);
                d' = d\<lparr>tx_backing := b, tx_generation := generation p, tx_content_generation := bk_generation k,
                  tx_protection := protection p, tx_external := external k,
                  tx_content_hash := (if external k then content_hash (\<lambda>i. data ! i) else 0)\<rparr>
            in (case rebind_dependencies p b k data ds m' of (ds', m'') \<Rightarrow> (d' # ds', m''))))"

definition publish_write :: "gem_memory_page_write \<times> backing_ref option \<Rightarrow> gem_memory_transaction \<times> gem_memory \<times> nat
    \<Rightarrow> backing_ref option \<times> gem_memory_transaction \<times> gem_memory \<times> nat" where
  "publish_write wc s = (case (wc, s) of ((w, copy), (t, m, changed)) \<Rightarrow>
     (case at m (wr_address w) of
        None \<Rightarrow> (None, t, crash m, changed)
      | Some r \<Rightarrow>
         (case page_heap m r of
            None \<Rightarrow> (None, t, crash m, changed)
          | Some p \<Rightarrow>
             (let m1 = adopt_copy m r p copy
              in (case Option.bind (page_heap m1 r) page_backing of
                 None \<Rightarrow> (None, t, crash m1, changed)
               | Some b \<Rightarrow>
                  (let m2 = touch_page (touch_backing (incref m1 b) b) r; data = (case wr_data w of None \<Rightarrow> [] | Some l \<Rightarrow> l)
                   in (case (page_heap m2 r, backing_heap m2 b) of
                      (Some p', Some k) \<Rightarrow>
                       (case rebind_dependencies p' b k data (tx_pages t) m2 of (ds, m3) \<Rightarrow>
                         (if external k then (case write_lines b data page_lines m3 changed of
                              (m4, changed') \<Rightarrow> (Some b, t\<lparr>tx_pages := ds\<rparr>, m4, changed'))
                          else (Some b, t\<lparr>tx_pages := ds\<rparr>, m3, changed)))
                    | _ \<Rightarrow> (None, t, crash m2, changed))))))))"

fun publish_writes :: "(gem_memory_page_write \<times> backing_ref option) list \<Rightarrow> gem_memory_transaction \<times> gem_memory \<times> nat
    \<Rightarrow> backing_ref option list \<times> gem_memory_transaction \<times> gem_memory \<times> nat" where
  "publish_writes [] s = ([], s)"
| "publish_writes (wc # wcs) s = (case publish_write wc s of (bo, s') \<Rightarrow>
     (case publish_writes wcs s' of (bs, s'') \<Rightarrow> (bo # bs, s'')))"

text \<open>
  What runs after the metadata lock is released: the contents of the pages that own their storage,
  written while the transaction's references keep the backings alive.
\<close>

fun write_contents :: "(gem_memory_page_write \<times> backing_ref option) list \<Rightarrow> gem_memory \<times> nat \<Rightarrow> gem_memory \<times> nat" where
  "write_contents [] s = s"
| "write_contents ((w, bo) # wbs) (m, changed) = (case bo of
      None \<Rightarrow> write_contents wbs (crash m, changed)
    | Some b \<Rightarrow>
       (case backing_heap m b of
          None \<Rightarrow> write_contents wbs (crash m, changed)
        | Some k \<Rightarrow>
           (if external k then write_contents wbs (m, changed)
            else write_contents wbs (write_lines b (case wr_data w of None \<Rightarrow> [] | Some l \<Rightarrow> l) page_lines m changed))))"

text \<open>
  The call up to the release of the metadata lock: either it is over, or the backings to be
  written are pinned.
\<close>

datatype commit_stage =
    Commit_over gem_memory_error "u64 option"
  | Commit_pinned "backing_ref option list" nat

definition commit_publish :: "gem_memory_transaction \<Rightarrow> gem_memory \<Rightarrow> gem_memory_page_write list
    \<Rightarrow> commit_stage \<times> gem_memory_transaction \<times> gem_memory" where
  "commit_publish t m ws = (case find (\<lambda>d. \<not> dependency_current m d) (tx_pages t) of
      Some d \<Rightarrow> (Commit_over GEM_MEMORY_CONFLICT (Some (tx_address d)), t, m)
    | None \<Rightarrow>
       (case commit_check m [] ws of
          Some (e, f) \<Rightarrow> (Commit_over e f, t, m)
        | None \<Rightarrow>
           (case commit_copies ws t m [] of
              (Copies_failed e f cs, t', m') \<Rightarrow> (Commit_over e f, t', foldl drop_backing m' cs)
            | (Copies_made cs, t', m') \<Rightarrow>
               (case publish_writes (zip ws cs) (t', m', 0) of (bs, t'', m'', changed) \<Rightarrow>
                 (Commit_pinned bs changed, t'', m'')))))"

definition commit_unpin :: "gem_memory \<Rightarrow> backing_ref option list \<Rightarrow> gem_memory" where
  "commit_unpin m bs = foldl drop_backing m bs"

text \<open>
  The whole call without other threads between its phases: status, \<open>*fault_address\<close> when it is
  written, \<open>*bytes_committed\<close> when it is written.
\<close>

definition gem_memory_transaction_commit_pages ::
  "gem_memory_transaction option \<Rightarrow> gem_memory \<Rightarrow> gem_memory_page_write list option \<Rightarrow> size_t
    \<Rightarrow> (gem_memory_error \<times> u64 option \<times> nat option) \<times> gem_memory_transaction option \<times> gem_memory" where
  "gem_memory_transaction_commit_pages to m writes count = (case to of
      None \<Rightarrow> ((GEM_MEMORY_INVALID_ARGUMENT, None, None), to, m)
    | Some t \<Rightarrow>
       (if (count \<noteq> 0 \<and> writes = None) \<or> count > 64 then ((GEM_MEMORY_INVALID_ARGUMENT, None, None), to, m)
        else (let ws = take (unat count) (case writes of None \<Rightarrow> [] | Some l \<Rightarrow> l)
              in (case commit_publish t m ws of
                 (Commit_over e f, t', m') \<Rightarrow> ((e, f, Some 0), Some t', m')
               | (Commit_pinned bs changed, t', m') \<Rightarrow>
                  (case write_contents (zip ws bs) (m', changed) of (m'', changed') \<Rightarrow>
                    ((GEM_MEMORY_OK, None, Some changed'), Some t', commit_unpin m'' bs))))))"

end
