(* ===== verification/Gem_Stripes.thy ===== *)
theory Gem_Stripes
  imports Gem_Transaction
begin

text \<open>
  Which locks an operation of src/gem/memory.c takes and in which order: the metadata lock, then
  stripes in ascending order. A page is covered by the stripe of its address and the stripe of its
  backing; \<open>place\<close> gives the address of a backing's block.
\<close>

definition GEM_MEMORY_LOCK_STRIPES :: nat where "GEM_MEMORY_LOCK_STRIPES = 256"

definition address_stripe_index :: "u64 \<Rightarrow> nat" where
  "address_stripe_index a = unat (drop_bit 12 a AND (of_nat GEM_MEMORY_LOCK_STRIPES - 1))"

definition backing_stripe_index :: "(backing_ref \<Rightarrow> u64) \<Rightarrow> backing_ref \<Rightarrow> nat" where
  "backing_stripe_index place b = unat (drop_bit 6 (place b) AND (of_nat GEM_MEMORY_LOCK_STRIPES - 1))"

text \<open>The array \<open>stripes\<close> and its \<open>count\<close> are one list.\<close>

fun insert_stripe :: "nat list \<Rightarrow> nat \<Rightarrow> nat list" where
  "insert_stripe [] s = [s]"
| "insert_stripe (x # xs) s = (if x < s then x # insert_stripe xs s else if x = s then x # xs else s # x # xs)"

definition page_stripes :: "(backing_ref \<Rightarrow> u64) \<Rightarrow> u64 \<Rightarrow> backing_ref option \<Rightarrow> nat list \<Rightarrow> nat list" where
  "page_stripes place a bo stripes =
     (let stripes = insert_stripe stripes (address_stripe_index a)
      in case bo of None \<Rightarrow> stripes | Some b \<Rightarrow> insert_stripe stripes (backing_stripe_index place b))"

definition dependency_stripes :: "(backing_ref \<Rightarrow> u64) \<Rightarrow> gem_memory_transaction \<Rightarrow> nat list" where
  "dependency_stripes place t = foldl (\<lambda>ss d. page_stripes place (tx_address d) (Some (tx_backing d)) ss) [] (tx_pages t)"

text \<open>The stripes of a byte range: the array \<open>locked\<close>.\<close>

definition mark_page :: "(backing_ref \<Rightarrow> u64) \<Rightarrow> gem_memory \<Rightarrow> bool list \<Rightarrow> u64 \<Rightarrow> bool list" where
  "mark_page place m locked q =
     (let locked = locked[address_stripe_index q := True]
      in case Option.bind (page_at m q) page_backing of
           None \<Rightarrow> locked | Some b \<Rightarrow> locked[backing_stripe_index place b := True])"

definition range_stripes :: "(backing_ref \<Rightarrow> u64) \<Rightarrow> gem_memory \<Rightarrow> u64 \<Rightarrow> u64 \<Rightarrow> bool list" where
  "range_stripes place m a n =
     (let none = replicate GEM_MEMORY_LOCK_STRIPES False
      in if n = 0 \<or> a > - 1 - (n - 1) then none
         else (let page = page_base a; last = page_base (a + n - 1); pages = (last - page) div GEM_GUEST_PAGE_SIZE + 1
               in if pages \<ge> of_nat GEM_MEMORY_LOCK_STRIPES
                  then mark_page place m (replicate GEM_MEMORY_LOCK_STRIPES True) last
                  else foldl (mark_page place m) none (map (\<lambda>i. page + of_nat i * GEM_GUEST_PAGE_SIZE) [0 ..< unat pages])))"

definition locked_stripes :: "bool list \<Rightarrow> nat list" where
  "locked_stripes locked = filter (\<lambda>i. locked ! i) [0 ..< GEM_MEMORY_LOCK_STRIPES]"

text \<open>
  The stripes of \<open>commit_pages\<close>: those of the dependencies, and those of the pages to be written,
  which are taken for writing (\<open>stripe_modes\<close> is 2).
\<close>

definition write_stripes :: "(backing_ref \<Rightarrow> u64) \<Rightarrow> gem_memory \<Rightarrow> gem_memory_page_write \<Rightarrow> nat list" where
  "write_stripes place m w = page_stripes place (wr_address w) (Option.bind (page_at m (wr_address w)) page_backing) []"

definition take_for_writing :: "nat list \<times> (nat \<Rightarrow> bool) \<Rightarrow> nat \<Rightarrow> nat list \<times> (nat \<Rightarrow> bool)" where
  "take_for_writing p s = (insert_stripe (fst p) s, (snd p)(s := True))"

definition commit_stripes :: "(backing_ref \<Rightarrow> u64) \<Rightarrow> gem_memory \<Rightarrow> gem_memory_transaction \<Rightarrow> gem_memory_page_write list
    \<Rightarrow> nat list \<times> (nat \<Rightarrow> bool)" where
  "commit_stripes place m t ws =
     foldl (\<lambda>p w. foldl take_for_writing p (write_stripes place m w)) (dependency_stripes place t, \<lambda>_. False) ws"

section \<open>Stripe lists are strictly ascending\<close>

definition stripe_list :: "nat list \<Rightarrow> bool" where
  "stripe_list ss \<longleftrightarrow> sorted_wrt (<) ss \<and> (\<forall>s \<in> set ss. s < GEM_MEMORY_LOCK_STRIPES)"

lemma set_insert_stripe [simp]: "set (insert_stripe ss s) = insert s (set ss)"
  by (induction ss s rule: insert_stripe.induct) auto

lemma insert_stripe_sorted: "sorted_wrt (<) ss \<Longrightarrow> sorted_wrt (<) (insert_stripe ss s)"
  by (induction ss s rule: insert_stripe.induct) auto

lemma stripe_index_lt: "unat (w AND (of_nat GEM_MEMORY_LOCK_STRIPES - 1) :: u64) < GEM_MEMORY_LOCK_STRIPES"
proof -
  have "w AND 255 \<le> (255 :: u64)" by (rule word_and_le1)
  then have "unat (w AND 255) \<le> 255" by (simp add: word_le_nat_alt)
  then show ?thesis by (simp add: GEM_MEMORY_LOCK_STRIPES_def)
qed

lemma stripe_lt [simp]:
  "address_stripe_index a < GEM_MEMORY_LOCK_STRIPES" "backing_stripe_index place b < GEM_MEMORY_LOCK_STRIPES"
  unfolding address_stripe_index_def backing_stripe_index_def by (rule stripe_index_lt)+

lemma stripe_list_insert: "stripe_list ss \<Longrightarrow> s < GEM_MEMORY_LOCK_STRIPES \<Longrightarrow> stripe_list (insert_stripe ss s)"
  by (simp add: stripe_list_def insert_stripe_sorted)

lemma stripe_list_page: "stripe_list ss \<Longrightarrow> stripe_list (page_stripes place a bo ss)"
  by (cases bo) (simp_all add: page_stripes_def stripe_list_insert)

lemma stripe_list_foldl: "(\<And>ss x. stripe_list ss \<Longrightarrow> stripe_list (f ss x)) \<Longrightarrow> stripe_list ss \<Longrightarrow> stripe_list (foldl f ss xs)"
  by (induction xs arbitrary: ss) simp_all

lemma stripe_list_dependency: "stripe_list (dependency_stripes place t)"
  unfolding dependency_stripes_def by (rule stripe_list_foldl, erule stripe_list_page) (simp add: stripe_list_def)

lemma stripe_list_locked: "stripe_list (locked_stripes locked)"
  by (simp add: stripe_list_def locked_stripes_def sorted_wrt_filter)

lemma commit_stripes_list: "stripe_list (fst (commit_stripes place m t ws))"
proof -
  have ws: "\<forall>x \<in> set (write_stripes place m w). x < GEM_MEMORY_LOCK_STRIPES" for w
    using stripe_list_page [of "[]"] by (simp add: write_stripes_def stripe_list_def)
  have inner: "stripe_list (fst (foldl take_for_writing p xs))"
    if "stripe_list (fst p)" "\<forall>x \<in> set xs. x < GEM_MEMORY_LOCK_STRIPES" for p xs
    using that by (induction xs arbitrary: p) (simp_all add: stripe_list_insert take_for_writing_def)
  have "stripe_list (fst (foldl (\<lambda>p w. foldl take_for_writing p (write_stripes place m w)) p ws))" if "stripe_list (fst p)" for p
    using that by (induction ws arbitrary: p) (simp_all add: inner ws)
  then show ?thesis by (simp add: commit_stripes_def stripe_list_dependency)
qed

section \<open>Lock programs\<close>

datatype lock_id = Metadata | Stripe nat

datatype lock_mode = Reading | Writing

datatype lock_op = Acquire lock_id lock_mode | Release lock_id lock_mode

text \<open>The lock order: the metadata lock first, then the stripes by number.\<close>

instantiation lock_id :: linorder
begin

definition less_eq_lock_id :: "lock_id \<Rightarrow> lock_id \<Rightarrow> bool" where
  "less_eq_lock_id l l' \<longleftrightarrow> (case (l, l') of (Metadata, _) \<Rightarrow> True | (Stripe _, Metadata) \<Rightarrow> False | (Stripe i, Stripe j) \<Rightarrow> i \<le> j)"

definition less_lock_id :: "lock_id \<Rightarrow> lock_id \<Rightarrow> bool" where
  "less_lock_id l l' \<longleftrightarrow> l \<le> l' \<and> \<not> l' \<le> (l :: lock_id)"

instance
  by standard (auto simp: less_eq_lock_id_def less_lock_id_def split: lock_id.splits)

end

lemma lock_less_simps [simp]: "Metadata < Stripe i" "Stripe i < Stripe j \<longleftrightarrow> i < j" "\<not> l < Metadata"
  by (cases l) (auto simp: less_lock_id_def less_eq_lock_id_def)

definition acquire_stripes :: "(nat \<Rightarrow> lock_mode) \<Rightarrow> nat list \<Rightarrow> lock_op list" where
  "acquire_stripes mode ss = map (\<lambda>s. Acquire (Stripe s) (mode s)) ss"

definition release_stripes :: "(nat \<Rightarrow> lock_mode) \<Rightarrow> nat list \<Rightarrow> lock_op list" where
  "release_stripes mode ss = map (\<lambda>s. Release (Stripe s) (mode s)) (rev ss)"

definition mode_of :: "bool \<Rightarrow> lock_mode" where
  "mode_of w = (if w then Writing else Reading)"

text \<open>The locks of a public call on a range.\<close>

definition range_program :: "(backing_ref \<Rightarrow> u64) \<Rightarrow> gem_memory \<Rightarrow> u64 \<Rightarrow> u64 \<Rightarrow> bool \<Rightarrow> lock_op list" where
  "range_program place m a n w =
     (let ss = locked_stripes (range_stripes place m a n)
      in Acquire Metadata Writing # acquire_stripes (\<lambda>_. mode_of w) ss @ release_stripes (\<lambda>_. mode_of w) ss @ [Release Metadata Writing])"

text \<open>Looking at one page of a transaction, and clearing its guard.\<close>

definition page_program :: "(backing_ref \<Rightarrow> u64) \<Rightarrow> u64 \<Rightarrow> backing_ref option \<Rightarrow> bool \<Rightarrow> lock_op list" where
  "page_program place a bo w =
     (let ss = (case bo of None \<Rightarrow> [] | Some _ \<Rightarrow> page_stripes place a bo [])
      in Acquire Metadata Writing # acquire_stripes (\<lambda>_. mode_of w) ss @ release_stripes (\<lambda>_. mode_of w) ss @ [Release Metadata Writing])"

definition finish_program :: "(backing_ref \<Rightarrow> u64) \<Rightarrow> gem_memory_transaction \<Rightarrow> lock_op list" where
  "finish_program place t =
     (let ss = dependency_stripes place t
      in Acquire Metadata Writing # acquire_stripes (\<lambda>_. Reading) ss @ release_stripes (\<lambda>_. Reading) ss @ [Release Metadata Writing])"

text \<open>
  A commit that fails gives the stripes back under the metadata lock; one that succeeds keeps them
  while it writes without it, and takes the metadata lock again afterwards.
\<close>

definition commit_program :: "(backing_ref \<Rightarrow> u64) \<Rightarrow> gem_memory \<Rightarrow> gem_memory_transaction \<Rightarrow> gem_memory_page_write list \<Rightarrow> bool \<Rightarrow> lock_op list" where
  "commit_program place m t ws fails =
     (case commit_stripes place m t ws of (ss, writing) \<Rightarrow>
       (let mode = (\<lambda>s. mode_of (writing s))
        in Acquire Metadata Writing # acquire_stripes mode ss @
           (if fails then release_stripes mode ss @ [Release Metadata Writing]
            else Release Metadata Writing # release_stripes mode ss @ [Acquire Metadata Writing, Release Metadata Writing])))"

definition end_program :: "lock_op list" where
  "end_program = [Acquire Metadata Writing, Release Metadata Writing]"

end
