(* ===== verification/Gem_Lock_Order.thy ===== *)
theory Gem_Lock_Order
  imports Gem_Stripes
begin

text \<open>
  Threads that run the lock programs of src/gem/memory.c never block each other for ever: every
  program takes its locks in ascending order, so among the threads that wait the one that wants the
  greatest lock waits for a thread that can go on.
\<close>

section \<open>Programs in lock order\<close>

fun well_ordered :: "(lock_id \<times> lock_mode) list \<Rightarrow> lock_op list \<Rightarrow> bool" where
  "well_ordered owned [] = (owned = [])"
| "well_ordered owned (Acquire l md # ops) = ((\<forall>h \<in> set owned. fst h < l) \<and> well_ordered ((l, md) # owned) ops)"
| "well_ordered owned (Release l md # ops) = ((l, md) \<in> set owned \<and> well_ordered (remove1 (l, md) owned) ops)"

lemma well_ordered_append: "well_ordered owned ops \<Longrightarrow> well_ordered [] ops' \<Longrightarrow> well_ordered owned (ops @ ops')"
  by (induction owned ops rule: well_ordered.induct) auto

definition stripe_holds :: "(nat \<Rightarrow> lock_mode) \<Rightarrow> nat list \<Rightarrow> (lock_id \<times> lock_mode) list" where
  "stripe_holds mode ss = map (\<lambda>s. (Stripe s, mode s)) (rev ss)"

lemma well_ordered_acquire:
  assumes "sorted_wrt (<) ss" and "\<forall>h \<in> set owned. \<forall>s \<in> set ss. fst h < Stripe s"
  shows "well_ordered owned (acquire_stripes mode ss @ ops) = well_ordered (stripe_holds mode ss @ owned) ops"
  using assms
proof (induction ss arbitrary: owned)
  case (Cons s ss)
  then show ?case using Cons.IH [of "(Stripe s, mode s) # owned"]
    by (auto simp: acquire_stripes_def stripe_holds_def)
qed (simp_all add: acquire_stripes_def stripe_holds_def)

lemma well_ordered_release:
  assumes "sorted_wrt (<) ss"
  shows "well_ordered (stripe_holds mode ss @ owned) (release_stripes mode ss @ ops) = well_ordered owned ops"
  using assms
proof (induction ss arbitrary: ops rule: rev_induct)
  case (snoc s ss)
  then have ih: "well_ordered (stripe_holds mode ss @ owned) (release_stripes mode ss @ ops) = well_ordered owned ops"
    by (simp add: sorted_wrt_append)
  show ?case using ih by (simp add: release_stripes_def stripe_holds_def)
qed (simp add: release_stripes_def stripe_holds_def)

lemma remove1_last: "x \<notin> set xs \<Longrightarrow> remove1 x (xs @ [x]) = xs"
  by (simp add: remove1_append)

lemma metadata_not_held: "(Metadata, md) \<notin> set (stripe_holds mode ss)"
  by (auto simp: stripe_holds_def)

lemma bracket_ordered:
  assumes "sorted_wrt (<) ss"
  shows "well_ordered [] (Acquire Metadata Writing # acquire_stripes mode ss @ release_stripes mode ss @ [Release Metadata Writing])"
  using assms by (simp add: well_ordered_acquire well_ordered_release)

text \<open>The calls a thread makes: each is the lock program of one operation of the memory.\<close>

inductive lock_call :: "(backing_ref \<Rightarrow> u64) \<Rightarrow> lock_op list \<Rightarrow> bool" for place where
  range_call: "lock_call place (range_program place m a n w)"
| page_call: "lock_call place (page_program place a bo w)"
| finish_call: "lock_call place (finish_program place t)"
| commit_call: "lock_call place (commit_program place m t ws fails)"
| end_call: "lock_call place end_program"

lemma stripe_listD: "stripe_list ss \<Longrightarrow> sorted_wrt (<) ss"
  by (simp add: stripe_list_def)

lemma commit_ordered: "well_ordered [] (commit_program place m t ws fails)"
proof -
  obtain ss writing where c: "commit_stripes place m t ws = (ss, writing)" by fastforce
  then have s: "sorted_wrt (<) ss" using stripe_listD [OF commit_stripes_list [of place m t ws]] by simp
  let ?mode = "\<lambda>s. mode_of (writing s)"
  have "well_ordered [] (Acquire Metadata Writing # acquire_stripes ?mode ss @
      Release Metadata Writing # release_stripes ?mode ss @ [Acquire Metadata Writing, Release Metadata Writing])"
    using s well_ordered_release [OF s, of ?mode "[]" "[Acquire Metadata Writing, Release Metadata Writing]"]
    by (simp add: well_ordered_acquire remove1_last metadata_not_held)
  then show ?thesis using bracket_ordered [OF s, of ?mode] by (simp add: commit_program_def c Let_def)
qed

lemma lock_call_ordered: "lock_call place ops \<Longrightarrow> well_ordered [] ops"
proof (induction rule: lock_call.induct)
  case (range_call m a n w)
  show ?case by (simp add: range_program_def Let_def bracket_ordered stripe_listD stripe_list_locked del: well_ordered.simps)
next
  case (page_call a bo w)
  have "stripe_list (case bo of None \<Rightarrow> [] | Some _ \<Rightarrow> page_stripes place a bo [])"
    by (cases bo) (simp_all add: stripe_list_page stripe_list_def [of "[]"])
  then show ?case by (simp add: page_program_def Let_def bracket_ordered stripe_listD del: well_ordered.simps)
next
  case (finish_call t)
  show ?case by (simp add: finish_program_def Let_def bracket_ordered stripe_listD stripe_list_dependency del: well_ordered.simps)
next
  case (commit_call m t ws fails)
  show ?case by (rule commit_ordered)
next
  case end_call
  show ?case by (simp add: end_program_def)
qed

lemma lock_calls_ordered: "list_all (lock_call place) calls \<Longrightarrow> well_ordered [] (concat calls)"
  by (induction calls) (auto intro: well_ordered_append lock_call_ordered)

section \<open>Threads\<close>

text \<open>
  What a thread still has to do, the locks it holds, and whether it has announced itself as a
  writer to the lock it is about to take (\<open>waiting_writers\<close>).
\<close>

record lock_thread =
  to_do :: "lock_op list"
  held_locks :: "(lock_id \<times> lock_mode) list"
  queued :: bool

type_synonym lock_threads = "nat \<Rightarrow> lock_thread"

definition holds_lock :: "lock_threads \<Rightarrow> lock_id \<Rightarrow> bool" where
  "holds_lock s l \<longleftrightarrow> (\<exists>u md. (l, md) \<in> set (held_locks (s u)))"

definition holds_writing :: "lock_threads \<Rightarrow> lock_id \<Rightarrow> bool" where
  "holds_writing s l \<longleftrightarrow> (\<exists>u. (l, Writing) \<in> set (held_locks (s u)))"

definition writer_waits :: "lock_threads \<Rightarrow> lock_id \<Rightarrow> bool" where
  "writer_waits s l \<longleftrightarrow> (\<exists>u ops. queued (s u) \<and> to_do (s u) = Acquire l Writing # ops)"

definition take_lock :: "lock_thread \<Rightarrow> lock_id \<Rightarrow> lock_mode \<Rightarrow> lock_thread" where
  "take_lock th l md = \<lparr>to_do = tl (to_do th), held_locks = (l, md) # held_locks th, queued = False\<rparr>"

text \<open>A reader waits while a writer holds the lock or waits for it; a writer while anyone holds it.\<close>

inductive lock_step :: "lock_threads \<Rightarrow> lock_threads \<Rightarrow> bool" where
  announce: "to_do (s u) = Acquire l Writing # ops \<Longrightarrow> \<not> queued (s u) \<Longrightarrow> lock_step s (s(u := (s u)\<lparr>queued := True\<rparr>))"
| take_writing: "to_do (s u) = Acquire l Writing # ops \<Longrightarrow> queued (s u) \<Longrightarrow> \<not> holds_lock s l \<Longrightarrow>
    lock_step s (s(u := take_lock (s u) l Writing))"
| take_reading: "to_do (s u) = Acquire l Reading # ops \<Longrightarrow> \<not> holds_writing s l \<Longrightarrow> \<not> writer_waits s l \<Longrightarrow>
    lock_step s (s(u := take_lock (s u) l Reading))"
| give_back: "to_do (s u) = Release l md # ops \<Longrightarrow> (l, md) \<in> set (held_locks (s u)) \<Longrightarrow>
    lock_step s (s(u := (s u)\<lparr>to_do := ops, held_locks := remove1 (l, md) (held_locks (s u))\<rparr>))"

inductive_cases lock_stepE: "lock_step s s'"

definition starting :: "(nat \<Rightarrow> lock_op list) \<Rightarrow> lock_threads" where
  "starting programs u = \<lparr>to_do = programs u, held_locks = [], queued = False\<rparr>"

section \<open>Invariants\<close>

definition ordered_threads :: "nat \<Rightarrow> lock_threads \<Rightarrow> bool" where
  "ordered_threads k s \<longleftrightarrow> (\<forall>u. well_ordered (held_locks (s u)) (to_do (s u))) \<and> (\<forall>u \<ge> k. to_do (s u) = [])"

lemma ordered_upd:
  assumes "ordered_threads k s" and "to_do (s u) \<noteq> []"
    and "well_ordered (held_locks (s u)) (to_do (s u)) \<Longrightarrow> well_ordered (held_locks th) (to_do th)"
  shows "ordered_threads k (s(u := th))"
  using assms by (auto simp: ordered_threads_def)

lemma ordered_step:
  assumes "lock_step s s'" and o: "ordered_threads k s"
  shows "ordered_threads k s'"
  using assms(1) by cases (auto intro!: ordered_upd [OF o] simp: take_lock_def)

text \<open>Among the threads one whose next lock is greatest can always move, or the thread that holds that lock can.\<close>

definition wanted :: "lock_threads \<Rightarrow> nat \<Rightarrow> lock_id option" where
  "wanted s u = (case to_do (s u) of Acquire l md # _ \<Rightarrow> Some l | _ \<Rightarrow> None)"

lemma stuck_wants:
  assumes o: "ordered_threads k s" and stuck: "\<And>s'. \<not> lock_step s s'" and u: "to_do (s u) \<noteq> []"
  obtains l where "wanted s u = Some l" "holds_lock s l"
proof (cases "to_do (s u)")
  case (Cons x ops)
  show thesis
  proof (cases x)
    case (Release l md)
    then have "(l, md) \<in> set (held_locks (s u))" using o Cons by (auto simp: ordered_threads_def dest!: spec [of _ u])
    then show thesis using stuck give_back [of s u l md ops] Cons Release by blast
  next
    case (Acquire l md)
    have blocked: "holds_lock s l" if a: "to_do (s v) = Acquire l Writing # ops'" for v ops'
      using stuck announce [of s v l ops'] take_writing [of s v l ops'] a by blast
    have "holds_lock s l"
    proof (cases md)
      case Writing
      then show ?thesis using blocked [of u ops] Cons Acquire by simp
    next
      case Reading
      then have "holds_writing s l \<or> writer_waits s l" using stuck take_reading [of s u l ops] Cons Acquire by blast
      then show ?thesis using blocked by (auto simp: holds_writing_def holds_lock_def writer_waits_def)
    qed
    then show thesis using that [of l] Cons Acquire by (simp add: wanted_def)
  qed
qed (use u in simp)

lemma progress:
  assumes o: "ordered_threads k s" and u: "to_do (s u) \<noteq> []"
  shows "\<exists>s'. lock_step s s'"
proof (rule ccontr)
  assume "\<nexists>s'. lock_step s s'"
  then have stuck: "\<And>s'. \<not> lock_step s s'" by blast
  let ?W = "{v. to_do (s v) \<noteq> []}"
  have fin: "finite ?W" by (rule finite_subset [of _ "{..<k}"]) (use o in \<open>auto simp: ordered_threads_def not_le [symmetric]\<close>)
  have "finite (the ` wanted s ` ?W)" "the ` wanted s ` ?W \<noteq> {}" using fin u by auto
  then have mx: "Max (the ` wanted s ` ?W) \<in> the ` wanted s ` ?W" "\<And>x. x \<in> the ` wanted s ` ?W \<Longrightarrow> x \<le> Max (the ` wanted s ` ?W)"
    by (auto intro: Max_in)
  then obtain v where v: "to_do (s v) \<noteq> []" "\<And>w. to_do (s w) \<noteq> [] \<Longrightarrow> the (wanted s w) \<le> the (wanted s v)" by auto
  obtain l where l: "wanted s v = Some l" "holds_lock s l" by (rule stuck_wants [OF o stuck v(1)])
  then obtain h md where h: "(l, md) \<in> set (held_locks (s h))" by (auto simp: holds_lock_def)
  have wo: "well_ordered (held_locks (s h)) (to_do (s h))" using o by (simp add: ordered_threads_def)
  then have hn: "to_do (s h) \<noteq> []" using h by (cases "to_do (s h)") auto
  obtain l' where l': "wanted s h = Some l'" by (rule stuck_wants [OF o stuck hn])
  then obtain md' ops where "to_do (s h) = Acquire l' md' # ops" by (auto simp: wanted_def split: list.splits lock_op.splits)
  then have "l < l'" using wo h by auto
  then show False using v(2) [OF hn] l l' by simp
qed

section \<open>Exclusion and completion\<close>

definition exclusive_locks :: "lock_threads \<Rightarrow> bool" where
  "exclusive_locks s \<longleftrightarrow> (\<forall>u v l md. (l, Writing) \<in> set (held_locks (s u)) \<longrightarrow> (l, md) \<in> set (held_locks (s v)) \<longrightarrow> u = v)"

lemma exclusive_step:
  assumes "lock_step s s'" and ex: "exclusive_locks s"
  shows "exclusive_locks s'"
  using assms(1)
proof cases
  case (take_writing u l ops)
  then show ?thesis using ex unfolding exclusive_locks_def take_lock_def holds_lock_def
    by (simp add: fun_upd_apply) metis
next
  case (take_reading u l ops)
  then show ?thesis using ex unfolding exclusive_locks_def take_lock_def holds_writing_def
    by (simp add: fun_upd_apply) (metis lock_mode.distinct(1))
next
  case (give_back u l md ops)
  have sub: "set (held_locks (s' v)) \<subseteq> set (held_locks (s v))" for v
    using give_back(1) by (auto simp: fun_upd_apply intro: set_remove1_subset [THEN subsetD])
  then show ?thesis using ex unfolding exclusive_locks_def by blast
next
  case (announce u l ops)
  have "held_locks (s' v) = held_locks (s v)" for v using announce(1) by simp
  then show ?thesis using ex by (simp add: exclusive_locks_def)
qed

text \<open>Every step uses up part of what is left to do.\<close>

definition thread_work :: "lock_thread \<Rightarrow> nat" where
  "thread_work th = 2 * length (to_do th) - (if queued th then 1 else 0)"

lemma work_decreases:
  assumes "lock_step s s'" and o: "ordered_threads k s"
  shows "Suc (\<Sum>u<k. thread_work (s' u)) \<le> (\<Sum>u<k. thread_work (s u))"
proof -
  obtain u th where s': "s' = s(u := th)" and less: "thread_work th < thread_work (s u)" and u: "to_do (s u) \<noteq> []"
    using assms(1)
  proof cases
    case (give_back u l md ops)
    then show thesis by (intro that [OF give_back(1)]) (auto simp: thread_work_def)
  qed (auto simp: thread_work_def take_lock_def)
  have "u < k" using o u by (auto simp: ordered_threads_def not_le [symmetric])
  moreover have "(\<Sum>v<k. thread_work (s' v)) < (\<Sum>v<k. thread_work (s v))"
    using \<open>u < k\<close> less by (intro sum_strict_mono_ex1) (auto simp: s')
  ultimately show ?thesis by simp
qed

lemma run_invariants:
  assumes "(lock_step ^^ n) s s'" and "ordered_threads k s" and "exclusive_locks s"
  shows "ordered_threads k s' \<and> exclusive_locks s' \<and> n + (\<Sum>u<k. thread_work (s' u)) \<le> (\<Sum>u<k. thread_work (s u))"
  using assms(1)
proof (induction n arbitrary: s')
  case (Suc n)
  then obtain s1 where "(lock_step ^^ n) s s1" "lock_step s1 s'" by auto
  then show ?case using Suc.IH [of s1] ordered_step exclusive_step work_decreases [of s1 s' k] by fastforce
qed (use assms in simp)

lemma starting_ok:
  assumes "\<And>u. list_all (lock_call place) (calls u)" and "\<And>u. k \<le> u \<Longrightarrow> calls u = []"
  shows "ordered_threads k (starting (\<lambda>u. concat (calls u)))" and "exclusive_locks (starting programs)"
    and "(\<Sum>u<k. thread_work (starting (\<lambda>u. concat (calls u)) u)) = 2 * (\<Sum>u<k. length (concat (calls u)))"
  using assms lock_calls_ordered by (auto simp: ordered_threads_def exclusive_locks_def starting_def thread_work_def sum_distrib_left)

text \<open>
  The locks of the memory cannot deadlock (C18). Any number of threads that run the lock programs of any sequence of
  calls (reads, writes and mapping changes of any range, transaction snapshots, validations, finishes and commits, whatever the
  stripes of their pages and backings) never get stuck: a state from which no thread can move is one in which every
  thread has done all its calls and holds nothing, and it is reached after a bounded number of steps. On the way a lock held for
  writing is held by one thread only.
\<close>

theorem lock_programs_complete:
  assumes calls: "\<And>u. list_all (lock_call place) (calls u)" and k: "\<And>u. k \<le> u \<Longrightarrow> calls u = []"
    and run: "(lock_step ^^ n) (starting (\<lambda>u. concat (calls u))) s"
  shows "n \<le> 2 * (\<Sum>u<k. length (concat (calls u))) \<and> exclusive_locks s \<and>
    ((\<exists>s'. lock_step s s') \<or> (\<forall>u. to_do (s u) = [] \<and> held_locks (s u) = []))"
proof (intro conjI)
  note start = starting_ok [of place calls k, OF calls k]
  have r: "ordered_threads k s \<and> exclusive_locks s \<and> n + (\<Sum>u<k. thread_work (s u)) \<le> 2 * (\<Sum>u<k. length (concat (calls u)))"
    using run_invariants [OF run start(1,2)] start(3) by simp
  then show "n \<le> 2 * (\<Sum>u<k. length (concat (calls u)))" and "exclusive_locks s" by simp_all
  have "held_locks (s u) = []" if "to_do (s u) = []" for u
    using r that by (metis ordered_threads_def well_ordered.simps(1))
  then show "(\<exists>s'. lock_step s s') \<or> (\<forall>u. to_do (s u) = [] \<and> held_locks (s u) = [])" using progress r by blast
qed

text \<open>Two threads that end their transactions: after one step neither is stuck.\<close>

definition two_ends :: "nat \<Rightarrow> lock_op list list" where
  "two_ends u = (if u < 2 then [end_program] else [])"

theorem lock_programs_complete_witness:
  "\<exists>s. (lock_step ^^ 1) (starting (\<lambda>u. concat (two_ends u))) s \<and> (\<exists>s'. lock_step s s') \<and> exclusive_locks s"
proof -
  let ?s = "starting (\<lambda>u. concat (two_ends u))"
  let ?s1 = "?s(0 := (?s 0)\<lparr>queued := True\<rparr>)"
  have run: "(lock_step ^^ 1) ?s ?s1"
    using announce [of ?s 0 Metadata "[Release Metadata Writing]"] by (simp add: starting_def two_ends_def end_program_def OO_def)
  have calls: "list_all (lock_call (\<lambda>_. 0)) (two_ends u)" for u by (simp add: two_ends_def end_call)
  have k: "two_ends u = []" if "2 \<le> u" for u using that by (simp add: two_ends_def)
  have "to_do (?s1 0) \<noteq> []" by (simp add: starting_def two_ends_def end_program_def)
  then show ?thesis using run lock_programs_complete [of "\<lambda>_. 0" two_ends 2 1 ?s1, OF calls k run] by blast
qed

end
