(* ===== verification/Gem_Stripe_Lock.thy ===== *)
theory Gem_Stripe_Lock
  imports Gem_Prelude
begin

text \<open>
  The writer-preferring lock of a stripe, src/gem/memory.c 97 to 183. Its fields are only touched
  with its mutex held, so a thread moves in whole critical sections: up to the unlock, or up to the
  wait on \<open>readers_done\<close>, which gives the mutex up and puts the thread to sleep. A broadcast wakes
  the sleeping threads; they test their condition again when they get the mutex. A thread may also
  wake without a broadcast.
\<close>

record gem_stripe_lock =
  readers :: u32
  waiting_writers :: u32
  writer :: bool

definition gem_stripe_init :: gem_stripe_lock where
  "gem_stripe_init = \<lparr>readers = 0, waiting_writers = 0, writer = False\<rparr>"

text \<open>The loop conditions and what follows the loops.\<close>

definition read_blocked :: "gem_stripe_lock \<Rightarrow> bool" where
  "read_blocked l \<longleftrightarrow> writer l \<or> waiting_writers l \<noteq> 0"

definition read_enter :: "gem_stripe_lock \<Rightarrow> gem_stripe_lock" where
  "read_enter l = l\<lparr>readers := readers l + 1\<rparr>"

definition write_blocked :: "gem_stripe_lock \<Rightarrow> bool" where
  "write_blocked l \<longleftrightarrow> writer l \<or> readers l \<noteq> 0"

definition write_announce :: "gem_stripe_lock \<Rightarrow> gem_stripe_lock" where
  "write_announce l = l\<lparr>waiting_writers := waiting_writers l + 1\<rparr>"

definition write_enter :: "gem_stripe_lock \<Rightarrow> gem_stripe_lock" where
  "write_enter l = l\<lparr>waiting_writers := waiting_writers l - 1, writer := True\<rparr>"

text \<open>The releases, with whether they broadcast.\<close>

definition gem_stripe_read_release :: "gem_stripe_lock \<Rightarrow> gem_stripe_lock \<times> bool" where
  "gem_stripe_read_release l = (l\<lparr>readers := readers l - 1\<rparr>, readers l - 1 = 0)"

definition gem_stripe_write_release :: "gem_stripe_lock \<Rightarrow> gem_stripe_lock \<times> bool" where
  "gem_stripe_write_release l = (l\<lparr>writer := False\<rparr>, True)"

section \<open>Threads at one lock\<close>

datatype stripe_pc =
    Outside
  | Read_asleep | Read_awake | Read_inside
  | Write_asleep | Write_awake | Write_inside

record stripe_state =
  lock :: gem_stripe_lock
  pcs :: "nat \<Rightarrow> stripe_pc"

definition wake_all :: "(nat \<Rightarrow> stripe_pc) \<Rightarrow> nat \<Rightarrow> stripe_pc" where
  "wake_all p u = (case p u of Read_asleep \<Rightarrow> Read_awake | Write_asleep \<Rightarrow> Write_awake | x \<Rightarrow> x)"

definition wake_if :: "bool \<Rightarrow> (nat \<Rightarrow> stripe_pc) \<Rightarrow> nat \<Rightarrow> stripe_pc" where
  "wake_if b p = (if b then wake_all p else p)"

text \<open>The test of the reader's and of the writer's loop, from a first call or after waking.\<close>

definition gem_stripe_read_acquire :: "nat \<Rightarrow> stripe_state \<Rightarrow> stripe_state" where
  "gem_stripe_read_acquire u s =
     (if read_blocked (lock s) then s\<lparr>pcs := (pcs s)(u := Read_asleep)\<rparr>
      else \<lparr>lock = read_enter (lock s), pcs = (pcs s)(u := Read_inside)\<rparr>)"

definition gem_stripe_write_acquire :: "nat \<Rightarrow> stripe_state \<Rightarrow> stripe_state" where
  "gem_stripe_write_acquire u s =
     (if write_blocked (lock s) then s\<lparr>pcs := (pcs s)(u := Write_asleep)\<rparr>
      else \<lparr>lock = write_enter (lock s), pcs = (pcs s)(u := Write_inside)\<rparr>)"

inductive stripe_step :: "nat \<Rightarrow> stripe_state \<Rightarrow> stripe_state \<Rightarrow> bool" where
  read_call: "pcs s u = Outside \<Longrightarrow> stripe_step u s (gem_stripe_read_acquire u s)"
| read_again: "pcs s u = Read_awake \<Longrightarrow> stripe_step u s (gem_stripe_read_acquire u s)"
| read_wake: "pcs s u = Read_asleep \<Longrightarrow> stripe_step u s (s\<lparr>pcs := (pcs s)(u := Read_awake)\<rparr>)"
| read_return: "pcs s u = Read_inside \<Longrightarrow> gem_stripe_read_release (lock s) = (l, b) \<Longrightarrow>
    stripe_step u s \<lparr>lock = l, pcs = wake_if b ((pcs s)(u := Outside))\<rparr>"
| write_call: "pcs s u = Outside \<Longrightarrow> stripe_step u s (gem_stripe_write_acquire u (s\<lparr>lock := write_announce (lock s)\<rparr>))"
| write_again: "pcs s u = Write_awake \<Longrightarrow> stripe_step u s (gem_stripe_write_acquire u s)"
| write_wake: "pcs s u = Write_asleep \<Longrightarrow> stripe_step u s (s\<lparr>pcs := (pcs s)(u := Write_awake)\<rparr>)"
| write_return: "pcs s u = Write_inside \<Longrightarrow> gem_stripe_write_release (lock s) = (l, b) \<Longrightarrow>
    stripe_step u s \<lparr>lock = l, pcs = wake_if b ((pcs s)(u := Outside))\<rparr>"

text \<open>States that \<open>k\<close> threads reach.\<close>

inductive stripe_reachable :: "nat \<Rightarrow> stripe_state \<Rightarrow> bool" for k where
  init: "stripe_reachable k \<lparr>lock = gem_stripe_init, pcs = (\<lambda>_. Outside)\<rparr>"
| step: "stripe_reachable k s \<Longrightarrow> u < k \<Longrightarrow> stripe_step u s s' \<Longrightarrow> stripe_reachable k s'"

section \<open>Counting threads\<close>

definition threads :: "nat \<Rightarrow> (stripe_pc \<Rightarrow> bool) \<Rightarrow> (nat \<Rightarrow> stripe_pc) \<Rightarrow> nat" where
  "threads k P p = card {u. u < k \<and> P (p u)}"

lemma threads_upd:
  assumes "u < k"
  shows "threads k P (p(u := x)) + of_bool (P (p u)) = threads k P p + of_bool (P x)"
proof -
  let ?R = "{v. v < k \<and> v \<noteq> u \<and> P (p v)}"
  have fin: "finite ?R" "u \<notin> ?R" by simp_all
  have "{v. v < k \<and> P (p v)} = (if P (p u) then insert u ?R else ?R)"
    and "{v. v < k \<and> P ((p(u := x)) v)} = (if P x then insert u ?R else ?R)" using assms by auto
  then show ?thesis using fin by (simp add: threads_def)
qed

lemma threads_le: "threads k P p \<le> k"
  using card_mono [of "{..<k}" "{u. u < k \<and> P (p u)}"] by (auto simp: threads_def)

lemma threads_pos: "u < k \<Longrightarrow> P (p u) \<Longrightarrow> 0 < threads k P p"
  by (auto simp: threads_def card_gt_0_iff)

lemma threads_zero: "threads k P p = 0 \<longleftrightarrow> (\<forall>u < k. \<not> P (p u))"
  by (auto simp: threads_def)

lemma threads_cong: "(\<And>u. P (p' u) = P (p u)) \<Longrightarrow> threads k P p' = threads k P p"
  by (simp add: threads_def)

abbreviation waits_to_write :: "stripe_pc \<Rightarrow> bool" where
  "waits_to_write pc \<equiv> pc = Write_asleep \<or> pc = Write_awake"

lemma threads_wake [simp]:
  "threads k ((=) Read_inside) (wake_if b p) = threads k ((=) Read_inside) p"
  "threads k ((=) Write_inside) (wake_if b p) = threads k ((=) Write_inside) p"
  "threads k waits_to_write (wake_if b p) = threads k waits_to_write p"
  by (rule threads_cong, simp add: wake_if_def wake_all_def split: stripe_pc.splits)+

section \<open>The invariant\<close>

definition stripe_inv :: "nat \<Rightarrow> stripe_state \<Rightarrow> bool" where
  "stripe_inv k s \<longleftrightarrow>
     unat (readers (lock s)) = threads k ((=) Read_inside) (pcs s) \<and>
     unat (waiting_writers (lock s)) = threads k waits_to_write (pcs s) \<and>
     (if writer (lock s) then threads k ((=) Write_inside) (pcs s) = 1 \<and> threads k ((=) Read_inside) (pcs s) = 0
      else threads k ((=) Write_inside) (pcs s) = 0) \<and>
     (\<forall>u. pcs s u = Read_asleep \<longrightarrow> read_blocked (lock s)) \<and>
     (\<forall>u. pcs s u = Write_asleep \<longrightarrow> write_blocked (lock s)) \<and>
     (\<forall>u \<ge> k. pcs s u = Outside)"

lemmas stripe_lock_defs = read_blocked_def write_blocked_def read_enter_def write_enter_def write_announce_def

lemma asleep_upd: "pcs s u \<noteq> pc \<Longrightarrow> (\<forall>v. ((pcs s)(u := x)) v = pc \<longrightarrow> B) \<longleftrightarrow> (x = pc \<longrightarrow> B) \<and> (\<forall>v. pcs s v = pc \<longrightarrow> B)"
  by auto

lemma wake_if_asleep: "wake_if b p u = Read_asleep \<longleftrightarrow> \<not> b \<and> p u = Read_asleep" "wake_if b p u = Write_asleep \<longleftrightarrow> \<not> b \<and> p u = Write_asleep"
    "wake_if b p u = Outside \<longleftrightarrow> p u = Outside"
  by (simp_all add: wake_if_def wake_all_def split: stripe_pc.splits)

lemma unat_plus_one: "unat (x :: u32) + 1 < 2 ^ 32 \<Longrightarrow> unat (x + 1) = unat x + 1"
  using unat_add_lem [of x 1] by simp

lemma unat_minus_one': "0 < unat (x :: u32) \<Longrightarrow> unat (x - 1) = unat x - 1"
  by (rule unat_minus_one) auto

text \<open>How the three counts move when one thread changes its place.\<close>

lemma counts_upd:
  assumes "u < k"
  shows "threads k ((=) Read_inside) (p(u := x)) + of_bool (p u = Read_inside) = threads k ((=) Read_inside) p + of_bool (x = Read_inside)"
    and "threads k ((=) Write_inside) (p(u := x)) + of_bool (p u = Write_inside) = threads k ((=) Write_inside) p + of_bool (x = Write_inside)"
    and "threads k waits_to_write (p(u := x)) + of_bool (waits_to_write (p u)) = threads k waits_to_write p + of_bool (waits_to_write x)"
  using threads_upd [OF assms, of "(=) Read_inside" p x] threads_upd [OF assms, of "(=) Write_inside" p x]
    threads_upd [OF assms, of waits_to_write p x] by (simp_all add: eq_commute)

lemma inv_read_acquire:
  assumes inv: "stripe_inv k s" and u: "u < k" "pcs s u = Outside \<or> pcs s u = Read_awake" and k: "k < 2 ^ 32"
  shows "stripe_inv k (gem_stripe_read_acquire u s)"
proof (cases "read_blocked (lock s)")
  case True
  then show ?thesis using inv u counts_upd [OF u(1), of "pcs s" Read_asleep]
    by (auto simp: stripe_inv_def gem_stripe_read_acquire_def split: if_splits)
next
  case False
  have c: "threads k ((=) Read_inside) ((pcs s)(u := Read_inside)) = threads k ((=) Read_inside) (pcs s) + 1"
    using counts_upd(1) [OF u(1), of "pcs s" Read_inside] u(2) by auto
  then have "unat (readers (lock s)) + 1 < 2 ^ 32"
    using inv threads_le [of k "(=) Read_inside" "(pcs s)(u := Read_inside)"] k by (simp add: stripe_inv_def)
  then have r: "unat (readers (lock s) + 1) = unat (readers (lock s)) + 1" by (rule unat_plus_one)
  then have "readers (lock s) + 1 \<noteq> 0" by auto
  then show ?thesis using False inv u r c counts_upd(2,3) [OF u(1), of "pcs s" Read_inside]
    by (auto simp: stripe_inv_def gem_stripe_read_acquire_def stripe_lock_defs split: if_splits)
qed

lemma inv_write_acquire:
  assumes inv: "stripe_inv k s" and u: "u < k" "pcs s u = Write_awake"
  shows "stripe_inv k (gem_stripe_write_acquire u s)"
proof (cases "write_blocked (lock s)")
  case True
  then show ?thesis using inv u counts_upd [OF u(1), of "pcs s" Write_asleep]
    by (auto simp: stripe_inv_def gem_stripe_write_acquire_def split: if_splits)
next
  case False
  have "0 < unat (waiting_writers (lock s))"
    using inv u threads_pos [OF u(1), of waits_to_write "pcs s"] by (simp add: stripe_inv_def)
  then have w: "unat (waiting_writers (lock s) - 1) = unat (waiting_writers (lock s)) - 1" by (rule unat_minus_one')
  then show ?thesis using False inv u counts_upd [OF u(1), of "pcs s" Write_inside]
    by (auto simp: stripe_inv_def gem_stripe_write_acquire_def stripe_lock_defs split: if_splits)
qed

text \<open>A writer's call is an announcement followed by the first test of its loop.\<close>

lemma inv_write_announce:
  assumes inv: "stripe_inv k s" and u: "u < k" "pcs s u = Outside" and k: "k < 2 ^ 32"
  shows "stripe_inv k (s\<lparr>lock := write_announce (lock s), pcs := (pcs s)(u := Write_awake)\<rparr>)"
proof -
  have c: "threads k waits_to_write ((pcs s)(u := Write_awake)) = threads k waits_to_write (pcs s) + 1"
    using counts_upd(3) [OF u(1), of "pcs s" Write_awake] u(2) by auto
  then have "unat (waiting_writers (lock s)) + 1 < 2 ^ 32"
    using inv threads_le [of k waits_to_write "(pcs s)(u := Write_awake)"] k by (simp add: stripe_inv_def)
  then have w: "unat (waiting_writers (lock s) + 1) = unat (waiting_writers (lock s)) + 1" by (rule unat_plus_one)
  then have "waiting_writers (lock s) + 1 \<noteq> 0" by auto
  then show ?thesis using inv u w c counts_upd(1,2) [OF u(1), of "pcs s" Write_awake]
    by (auto simp: stripe_inv_def stripe_lock_defs split: if_splits)
qed

lemma write_call_announce:
  "gem_stripe_write_acquire u (s\<lparr>lock := write_announce (lock s)\<rparr>) =
   gem_stripe_write_acquire u (s\<lparr>lock := write_announce (lock s), pcs := (pcs s)(u := Write_awake)\<rparr>)"
  by (simp add: gem_stripe_write_acquire_def)

lemma inv_read_return:
  assumes inv: "stripe_inv k s" and u: "u < k" "pcs s u = Read_inside" and r: "gem_stripe_read_release (lock s) = (l, b)"
  shows "stripe_inv k \<lparr>lock = l, pcs = wake_if b ((pcs s)(u := Outside))\<rparr>"
proof -
  have "0 < unat (readers (lock s))" using inv u threads_pos [OF u(1), of "(=) Read_inside" "pcs s"] by (simp add: stripe_inv_def)
  then have "unat (readers (lock s) - 1) = unat (readers (lock s)) - 1" by (rule unat_minus_one')
  then show ?thesis using inv u r counts_upd [OF u(1), of "pcs s" Outside]
    by (auto simp: stripe_inv_def gem_stripe_read_release_def stripe_lock_defs wake_if_asleep split: if_splits)
qed

lemma inv_write_return:
  assumes inv: "stripe_inv k s" and u: "u < k" "pcs s u = Write_inside" and r: "gem_stripe_write_release (lock s) = (l, b)"
  shows "stripe_inv k \<lparr>lock = l, pcs = wake_if b ((pcs s)(u := Outside))\<rparr>"
proof -
  have "0 < threads k ((=) Write_inside) (pcs s)" using u threads_pos [OF u(1), of "(=) Write_inside" "pcs s"] by simp
  then show ?thesis using inv u r counts_upd [OF u(1), of "pcs s" Outside]
    by (auto simp: stripe_inv_def gem_stripe_write_release_def stripe_lock_defs wake_if_asleep split: if_splits)
qed

lemma inv_wake:
  assumes "stripe_inv k s" and "u < k" and "pcs s u = Read_asleep \<and> pc = Read_awake \<or> pcs s u = Write_asleep \<and> pc = Write_awake"
  shows "stripe_inv k (s\<lparr>pcs := (pcs s)(u := pc)\<rparr>)"
  using assms counts_upd [OF assms(2), of "pcs s" pc] by (auto simp: stripe_inv_def split: if_splits)

lemma inv_step:
  assumes "stripe_step u s s'" and "stripe_inv k s" and "u < k" and "k < 2 ^ 32"
  shows "stripe_inv k s'"
  using assms(1)
proof cases
  case write_call
  then show ?thesis
    using inv_write_acquire [OF inv_write_announce [OF assms(2,3) _ assms(4)] assms(3)] by (simp add: write_call_announce)
qed (use assms in \<open>auto intro: inv_read_acquire inv_write_acquire inv_read_return inv_write_return inv_wake\<close>)

lemma reachable_stripe_inv: "stripe_reachable k s \<Longrightarrow> k < 2 ^ 32 \<Longrightarrow> stripe_inv k s"
proof (induction rule: stripe_reachable.induct)
  case init
  show ?case by (auto simp: stripe_inv_def gem_stripe_init_def threads_def)
qed (auto intro: inv_step)

lemma threads_one:
  assumes "threads k P p = 1" and "u < k" "P (p u)" and "v < k" "P (p v)"
  shows "u = v"
proof -
  obtain w where "{u. u < k \<and> P (p u)} = {w}" using assms(1) by (auto simp: threads_def card_1_singleton_iff)
  then show ?thesis using assms(2-5) by (metis (mono_tags, lifting) mem_Collect_eq singletonD)
qed

text \<open>What the fields say about the threads.\<close>

lemma outside_lt: "stripe_inv k s \<Longrightarrow> pcs s u \<noteq> Outside \<Longrightarrow> u < k"
  unfolding stripe_inv_def by (meson not_le)

lemma nobody:
  assumes "stripe_inv k s" and "\<not> P Outside"
  shows "threads k P (pcs s) = 0 \<longleftrightarrow> (\<forall>u. \<not> P (pcs s u))"
proof -
  have "u < k" if "P (pcs s u)" for u
  proof (rule outside_lt [OF assms(1)])
    show "pcs s u \<noteq> Outside" using that assms(2) by auto
  qed
  then show ?thesis unfolding threads_zero by blast
qed

lemma nobody_at:
  assumes "stripe_inv k s" and "pc \<noteq> Outside"
  shows "threads k ((=) pc) (pcs s) = 0 \<longleftrightarrow> (\<forall>u. pcs s u \<noteq> pc)"
proof -
  have "(\<forall>u. pcs s u \<noteq> pc) \<longleftrightarrow> (\<forall>u. pc \<noteq> pcs s u)" by (rule iffI; rule allI; drule spec; erule not_sym)
  then show ?thesis using nobody [OF assms(1), of "(=) pc"] assms(2) by simp
qed

lemma stripe_fields:
  assumes "stripe_inv k s"
  shows "readers (lock s) = 0 \<longleftrightarrow> (\<forall>u. pcs s u \<noteq> Read_inside)" and "waiting_writers (lock s) = 0 \<longleftrightarrow> (\<forall>u. \<not> waits_to_write (pcs s u))"
    and "writer (lock s) \<longleftrightarrow> (\<exists>u. pcs s u = Write_inside)"
proof -
  have i: "unat (readers (lock s)) = threads k ((=) Read_inside) (pcs s)" "unat (waiting_writers (lock s)) = threads k waits_to_write (pcs s)"
    "if writer (lock s) then threads k ((=) Write_inside) (pcs s) = 1 \<and> threads k ((=) Read_inside) (pcs s) = 0
      else threads k ((=) Write_inside) (pcs s) = 0" using assms unfolding stripe_inv_def by - (elim conjE, assumption)+
  have z: "unat x = 0 \<longleftrightarrow> x = 0" for x :: u32 by (rule unat_eq_0)
  show "readers (lock s) = 0 \<longleftrightarrow> (\<forall>u. pcs s u \<noteq> Read_inside)" using nobody_at [OF assms, of Read_inside] z [of "readers (lock s)"] i(1) by auto
  show "waiting_writers (lock s) = 0 \<longleftrightarrow> (\<forall>u. \<not> waits_to_write (pcs s u))" using nobody [OF assms, of waits_to_write] z [of "waiting_writers (lock s)"] i(2) by auto
  have "writer (lock s) \<longleftrightarrow> threads k ((=) Write_inside) (pcs s) \<noteq> 0" using i(3) by (cases "writer (lock s)") simp_all
  also have "\<dots> \<longleftrightarrow> (\<exists>u. pcs s u = Write_inside)" using nobody_at [OF assms, of Write_inside] by auto
  finally show "writer (lock s) \<longleftrightarrow> (\<exists>u. pcs s u = Write_inside)" .
qed

lemma stripe_exclusion:
  assumes inv: "stripe_inv k s" and u: "pcs s u = Write_inside" and v: "pcs s v = Write_inside \<or> pcs s v = Read_inside"
  shows "v = u"
proof -
  have w: "writer (lock s)" using stripe_fields(3) [OF inv] u by blast
  then have "pcs s v \<noteq> Read_inside" using inv stripe_fields(1) [OF inv] by (auto simp: stripe_inv_def unat_eq_0)
  then have "pcs s v = Write_inside" using v by simp
  then show ?thesis using threads_one [of k "(=) Write_inside" "pcs s" v u] inv w u outside_lt [OF inv] by (simp add: stripe_inv_def)
qed

definition inside :: "stripe_pc \<Rightarrow> bool" where
  "inside pc \<longleftrightarrow> pc = Read_inside \<or> pc = Write_inside"

text \<open>A thread that has called and is not inside yet, asleep or woken.\<close>

definition woken :: "stripe_pc \<Rightarrow> bool" where
  "woken pc \<longleftrightarrow> pc = Read_awake \<or> pc = Write_awake"

definition waits :: "stripe_pc \<Rightarrow> bool" where
  "waits pc \<longleftrightarrow> pc = Read_asleep \<or> pc = Write_asleep \<or> woken pc"

text \<open>A thread sure to get in: it can move, and wherever it moves it is inside.\<close>

definition gets_in :: "stripe_state \<Rightarrow> nat \<Rightarrow> bool" where
  "gets_in s v \<longleftrightarrow> (\<exists>s'. stripe_step v s s') \<and> (\<forall>s'. stripe_step v s s' \<longrightarrow> inside (pcs s' v))"

lemma woken_writer: "pcs s v = Write_awake \<Longrightarrow> \<not> write_blocked (lock s) \<Longrightarrow> gets_in s v"
  by (auto simp: gets_in_def gem_stripe_write_acquire_def inside_def elim: stripe_step.cases intro: write_again)

lemma woken_reader: "pcs s v = Read_awake \<Longrightarrow> \<not> read_blocked (lock s) \<Longrightarrow> gets_in s v"
  by (auto simp: gets_in_def gem_stripe_read_acquire_def inside_def elim: stripe_step.cases intro: read_again)

lemma free_lock:
  assumes "stripe_inv k s" and "\<forall>v. \<not> inside (pcs s v)"
  shows "\<not> write_blocked (lock s)" and "pcs s v \<noteq> Write_asleep" and "(\<forall>v. \<not> waits_to_write (pcs s v)) \<Longrightarrow> \<not> read_blocked (lock s)"
proof -
  show free: "\<not> write_blocked (lock s)" using assms(2) stripe_fields(1,3) [OF assms(1)] by (auto simp: write_blocked_def inside_def)
  then show "pcs s v \<noteq> Write_asleep" using assms(1) by (auto simp: stripe_inv_def)
  show "(\<forall>v. \<not> waits_to_write (pcs s v)) \<Longrightarrow> \<not> read_blocked (lock s)" using free stripe_fields(2) [OF assms(1)] by (auto simp: read_blocked_def write_blocked_def)
qed

text \<open>
  The stripe lock excludes and wakes (C16). However many threads (fewer than 2^32) use the lock and however their critical
  sections interleave: a thread inside as a writer is alone inside; a writer sleeps only while a thread is inside, and a
  reader only while a writer is inside or waits, so no thread that could go in is left asleep; and whenever a thread
  waits and nobody is inside, a thread that has been woken gets in at its next step, whichever step that is.
\<close>

theorem stripe_lock_sound:
  assumes r: "stripe_reachable k s" and k: "k < 2 ^ 32"
  shows "(pcs s u = Write_inside \<and> inside (pcs s v) \<longrightarrow> v = u) \<and>
    (pcs s u = Write_asleep \<longrightarrow> (\<exists>v. inside (pcs s v))) \<and>
    (pcs s u = Read_asleep \<longrightarrow> (\<exists>v. pcs s v = Write_inside \<or> waits_to_write (pcs s v))) \<and>
    (waits (pcs s u) \<and> (\<forall>v. \<not> inside (pcs s v)) \<longrightarrow> (\<exists>v < k. woken (pcs s v) \<and> gets_in s v))"
proof (intro conjI impI; (elim conjE)?)
  note inv = reachable_stripe_inv [OF r k]
  note f = stripe_fields [OF inv]
  show "v = u" if "pcs s u = Write_inside" "inside (pcs s v)" using stripe_exclusion [OF inv that(1)] that(2) by (auto simp: inside_def)
  show "\<exists>v. inside (pcs s v)" if "pcs s u = Write_asleep" using free_lock(2) [OF inv] that by blast
  show sleeps: "\<exists>v. pcs s v = Write_inside \<or> waits_to_write (pcs s v)" if "pcs s u = Read_asleep" for u
  proof -
    have "read_blocked (lock s)" using inv that by (auto simp: stripe_inv_def)
    then show ?thesis using f(2,3) by (auto simp: read_blocked_def)
  qed
  show "\<exists>v < k. woken (pcs s v) \<and> gets_in s v" if u: "waits (pcs s u)" and none: "\<forall>v. \<not> inside (pcs s v)"
  proof (cases "\<exists>v. waits_to_write (pcs s v)")
    case True
    then obtain v where v: "pcs s v = Write_awake" using free_lock(2) [OF inv none] by blast
    then have "v < k" using outside_lt [OF inv] by simp
    then show ?thesis using woken_writer [OF v free_lock(1) [OF inv none]] v by (auto simp: woken_def)
  next
    case False
    then have "pcs s u = Read_awake" using u sleeps [of u] none by (auto simp: waits_def woken_def inside_def)
    then show ?thesis using woken_reader [OF _ free_lock(3) [OF inv none]] False outside_lt [OF inv, of u] by (auto simp: woken_def)
  qed
qed

section \<open>Refinement of a readers-writer lock\<close>

text \<open>The contract: sets of threads that read, write and have announced a write.\<close>

record rw_lock =
  reading :: "nat set"
  writing :: "nat set"
  announced :: "nat set"

text \<open>The steps of thread \<open>u\<close>: in as a reader and out, an announcement, in as a writer and out.\<close>

definition idle :: "nat \<Rightarrow> rw_lock \<Rightarrow> bool" where
  "idle u a \<longleftrightarrow> u \<notin> reading a \<and> u \<notin> writing a \<and> u \<notin> announced a"

inductive rw_step :: "nat \<Rightarrow> rw_lock \<Rightarrow> rw_lock \<Rightarrow> bool" for u where
  rw_read: "idle u a \<Longrightarrow> writing a = {} \<Longrightarrow> announced a = {} \<Longrightarrow> rw_step u a (a\<lparr>reading := insert u (reading a)\<rparr>)"
| rw_read_done: "u \<in> reading a \<Longrightarrow> rw_step u a (a\<lparr>reading := reading a - {u}\<rparr>)"
| rw_announce: "idle u a \<Longrightarrow> rw_step u a (a\<lparr>announced := insert u (announced a)\<rparr>)"
| rw_write: "u \<in> announced a \<Longrightarrow> reading a = {} \<Longrightarrow> writing a = {} \<Longrightarrow>
    rw_step u a (a\<lparr>announced := announced a - {u}, writing := {u}\<rparr>)"
| rw_write_done: "u \<in> writing a \<Longrightarrow> rw_step u a (a\<lparr>writing := writing a - {u}\<rparr>)"

definition abs_lock :: "stripe_state \<Rightarrow> rw_lock" where
  "abs_lock s = \<lparr>reading = {u. pcs s u = Read_inside}, writing = {u. pcs s u = Write_inside}, announced = {u. waits_to_write (pcs s u)}\<rparr>"

text \<open>A thread that takes a step of the contract, or takes none and waits.\<close>

definition rw_moves :: "nat \<Rightarrow> stripe_state \<Rightarrow> stripe_state \<Rightarrow> bool" where
  "rw_moves u s s' \<longleftrightarrow> rw_step u (abs_lock s) (abs_lock s') \<or> abs_lock s' = abs_lock s \<and> waits (pcs s' u)"

lemma refine_read:
  assumes inv: "stripe_inv k s" and u: "pcs s u = Outside \<or> pcs s u = Read_awake"
  shows "rw_moves u s (gem_stripe_read_acquire u s)"
proof (cases "read_blocked (lock s)")
  case True
  then show ?thesis using u by (auto simp: rw_moves_def abs_lock_def gem_stripe_read_acquire_def waits_def)
next
  case False
  then have "writing (abs_lock s) = {}" "announced (abs_lock s) = {}" "idle u (abs_lock s)"
    using stripe_fields(2,3) [OF inv] u by (auto simp: abs_lock_def read_blocked_def idle_def)
  then have "rw_step u (abs_lock s) ((abs_lock s)\<lparr>reading := insert u (reading (abs_lock s))\<rparr>)" by (intro rw_read)
  moreover have "(abs_lock s)\<lparr>reading := insert u (reading (abs_lock s))\<rparr> = abs_lock (gem_stripe_read_acquire u s)"
    using False u by (auto simp: abs_lock_def gem_stripe_read_acquire_def)
  ultimately show ?thesis by (simp add: rw_moves_def)
qed

lemma refine_write:
  assumes inv: "stripe_inv k s" and u: "pcs s u = Write_awake"
  shows "rw_moves u s (gem_stripe_write_acquire u s)"
proof (cases "write_blocked (lock s)")
  case True
  then show ?thesis using u by (auto simp: rw_moves_def abs_lock_def gem_stripe_write_acquire_def waits_def)
next
  case False
  then have e: "reading (abs_lock s) = {}" "writing (abs_lock s) = {}" "u \<in> announced (abs_lock s)"
    using stripe_fields(1,3) [OF inv] u by (simp_all add: abs_lock_def write_blocked_def)
  have "rw_step u (abs_lock s) ((abs_lock s)\<lparr>announced := announced (abs_lock s) - {u}, writing := {u}\<rparr>)" by (rule rw_write [OF e(3,1,2)])
  moreover have "(abs_lock s)\<lparr>announced := announced (abs_lock s) - {u}, writing := {u}\<rparr> = abs_lock (gem_stripe_write_acquire u s)"
    using False u e(2) by (auto simp: abs_lock_def gem_stripe_write_acquire_def)
  ultimately show ?thesis by (simp add: rw_moves_def)
qed

lemma wake_if_inside [simp]: "wake_if b p u = Read_inside \<longleftrightarrow> p u = Read_inside" "wake_if b p u = Write_inside \<longleftrightarrow> p u = Write_inside"
    "waits_to_write (wake_if b p u) \<longleftrightarrow> waits_to_write (p u)"
  by (cases "p u"; simp add: wake_if_def wake_all_def)+

lemma abs_wake: "abs_lock \<lparr>lock = l, pcs = wake_if b p\<rparr> = abs_lock \<lparr>lock = l, pcs = p\<rparr>"
  by (simp add: abs_lock_def)

text \<open>
  The stripe lock implements a readers-writer lock that prefers writers (C17). Through the abstraction that forgets the
  counters and who sleeps, a critical section of a thread is one step of that thread in the contract, or none and the thread waits,
  or, for the call of a writer, its announcement and then one of these two. In the contract a reader gets in only
  while nobody writes or has announced a write, a writer only after its announcement and while nobody is inside, and only the
  thread itself takes back what it has announced or leaves.
\<close>

theorem stripe_lock_refines:
  assumes r: "stripe_reachable k s" and k: "k < 2 ^ 32" and u: "u < k" and step: "stripe_step u s s'"
  shows "rw_moves u s s' \<or>
    pcs s u = Outside \<and> (\<exists>s1. abs_lock s1 = (abs_lock s)\<lparr>announced := insert u (announced (abs_lock s))\<rparr> \<and>
      rw_step u (abs_lock s) (abs_lock s1) \<and> rw_moves u s1 s')"
  using step
proof cases
  case (read_return l b)
  have "abs_lock s' = (abs_lock s)\<lparr>reading := reading (abs_lock s) - {u}\<rparr>"
    unfolding read_return(1) abs_wake using read_return(2) by (auto simp: abs_lock_def)
  moreover have "u \<in> reading (abs_lock s)" using read_return(2) by (simp add: abs_lock_def)
  ultimately show ?thesis using rw_read_done [of u "abs_lock s"] by (simp add: rw_moves_def)
next
  case (write_return l b)
  have "abs_lock s' = (abs_lock s)\<lparr>writing := writing (abs_lock s) - {u}\<rparr>"
    unfolding write_return(1) abs_wake using write_return(2) by (auto simp: abs_lock_def)
  moreover have "u \<in> writing (abs_lock s)" using write_return(2) by (simp add: abs_lock_def)
  ultimately show ?thesis using rw_write_done [of u "abs_lock s"] by (simp add: rw_moves_def)
next
  case write_call
  let ?s1 = "s\<lparr>lock := write_announce (lock s), pcs := (pcs s)(u := Write_awake)\<rparr>"
  have a: "abs_lock ?s1 = (abs_lock s)\<lparr>announced := insert u (announced (abs_lock s))\<rparr>" using write_call(2) by (auto simp: abs_lock_def)
  have "idle u (abs_lock s)" using write_call(2) by (simp add: idle_def abs_lock_def)
  then have "rw_step u (abs_lock s) (abs_lock ?s1)" unfolding a by (rule rw_announce)
  moreover have "rw_moves u ?s1 s'"
    using refine_write [OF inv_write_announce [OF reachable_stripe_inv [OF r k] u write_call(2) k]] by (simp add: write_call(1) write_call_announce)
  ultimately show ?thesis using a write_call(2) by blast
next
  case read_wake
  then show ?thesis by (auto simp: rw_moves_def abs_lock_def waits_def woken_def)
next
  case write_wake
  then show ?thesis by (auto simp: rw_moves_def abs_lock_def waits_def woken_def)
qed (use refine_read [OF reachable_stripe_inv [OF r k]] refine_write [OF reachable_stripe_inv [OF r k]] in auto)

section \<open>Instances\<close>

text \<open>Thread 0 is inside as a reader and thread 1 sleeps as a writer.\<close>

definition busy_stripe :: stripe_state where
  "busy_stripe = \<lparr>lock = \<lparr>readers = 1, waiting_writers = 1, writer = False\<rparr>, pcs = (\<lambda>_. Outside)(0 := Read_inside, 1 := Write_asleep)\<rparr>"

lemma busy_reachable: "stripe_reachable 2 busy_stripe"
proof -
  let ?s0 = "\<lparr>lock = gem_stripe_init, pcs = (\<lambda>_. Outside)\<rparr>"
  have "stripe_step 0 ?s0 (gem_stripe_read_acquire 0 ?s0)" by (rule read_call) simp
  then have s1: "stripe_reachable 2 (gem_stripe_read_acquire 0 ?s0)" using step [OF init, of 0 2] by simp
  let ?s1 = "gem_stripe_read_acquire 0 ?s0"
  have "stripe_step 1 ?s1 (gem_stripe_write_acquire 1 (?s1\<lparr>lock := write_announce (lock ?s1)\<rparr>))"
    by (rule write_call) (simp add: gem_stripe_read_acquire_def stripe_lock_defs gem_stripe_init_def)
  then have "stripe_reachable 2 (gem_stripe_write_acquire 1 (?s1\<lparr>lock := write_announce (lock ?s1)\<rparr>))" using step [OF s1, of 1] by simp
  moreover have "gem_stripe_write_acquire 1 (?s1\<lparr>lock := write_announce (lock ?s1)\<rparr>) = busy_stripe"
    by (simp add: gem_stripe_read_acquire_def gem_stripe_write_acquire_def stripe_lock_defs gem_stripe_init_def busy_stripe_def)
  ultimately show ?thesis by simp
qed

theorem stripe_lock_sound_witness:
  "pcs busy_stripe 1 = Write_asleep \<and> (\<exists>v. inside (pcs busy_stripe v))"
  using stripe_lock_sound [OF busy_reachable, of 1] by (auto simp: busy_stripe_def)

theorem stripe_lock_refines_witness:
  "rw_moves 0 busy_stripe \<lparr>lock = \<lparr>readers = 0, waiting_writers = 1, writer = False\<rparr>, pcs = (\<lambda>_. Outside)(1 := Write_awake)\<rparr>"
proof -
  have w: "wake_if True ((pcs busy_stripe)(0 := Outside)) = (\<lambda>_. Outside)(1 := Write_awake)"
    by (auto simp: wake_if_def wake_all_def busy_stripe_def)
  have "stripe_step 0 busy_stripe \<lparr>lock = \<lparr>readers = 0, waiting_writers = 1, writer = False\<rparr>, pcs = wake_if True ((pcs busy_stripe)(0 := Outside))\<rparr>"
    by (rule read_return) (simp_all add: busy_stripe_def gem_stripe_read_release_def)
  then show ?thesis using stripe_lock_refines [OF busy_reachable, of 0] w by (simp add: busy_stripe_def)
qed

end
