(* ===== verification/Gem_Memory_Closure.thy ===== *)
theory Gem_Memory_Closure
  imports Gem_Memory_Calls
begin

text \<open>
  Properties of the storage that survive every call. A property of the backings and the generation
  counter that is kept by the few primitives that change them (a new generation, taking and
  dropping a reference, a new backing, a store followed by the touch of its backing) is kept by every
  public operation of the memory, whatever state it starts from.
\<close>

locale memory_closure =
  fixes P :: "gem_memory \<Rightarrow> bool"
  assumes frame: "P m \<Longrightarrow> backing_heap m' = backing_heap m \<Longrightarrow> next_generation m' = next_generation m \<Longrightarrow>
      aborted m' = aborted m \<Longrightarrow> heap_count m \<le> heap_count m' \<Longrightarrow> P m'"
    and gen: "P m \<Longrightarrow> P (snd (next_gen m))"
    and give: "P m \<Longrightarrow> P (drop_backing m bo)"
    and hold: "P m \<Longrightarrow> P (incref m b)"
    and fresh: "P m \<Longrightarrow> new_backing m host = (Some b, m') \<Longrightarrow> P (upd_backing m' b f)"
    and store: "P m \<Longrightarrow> P (touch_backing (write_backing m b off bytes) b)"
begin

lemma crash: "P m \<Longrightarrow> P (crash m)"
  by (erule frame) (simp_all add: crash_def)

lemma counted: "P m \<Longrightarrow> heap_count m \<le> c \<Longrightarrow> P (m\<lparr>heap_count := c\<rparr>)"
  by (erule frame) simp_all

lemma alloc: "P m \<Longrightarrow> heap_alloc m = (bo, m') \<Longrightarrow> P m'"
  by (auto simp: heap_alloc_def Let_def intro: counted)

lemma page_upd: "P m \<Longrightarrow> P (upd_page m r f)"
  by (cases "page_heap m r") (auto simp: upd_page_def crash elim: frame)

lemma touch: "P m \<Longrightarrow> P (touch_page m r)"
  using gen [of m] page_upd by (simp add: touch_page_def next_gen_def Let_def)

lemma backing: "P m \<Longrightarrow> new_backing m host = (bo, m') \<Longrightarrow> P m'"
proof (cases bo)
  case None
  assume "P m" "new_backing m host = (bo, m')"
  then show ?thesis using None by (cases rule: new_backing_cases [of m host]) (auto intro: counted)
next
  case (Some b)
  assume m: "P m" "new_backing m host = (bo, m')"
  then have "upd_backing m' b (\<lambda>k. k) = m'"
    using Some by (cases rule: new_backing_cases [of m host]) (auto simp: upd_backing_def)
  then show ?thesis using fresh [of m host b m' "\<lambda>k. k"] m Some by simp
qed

lemma folding: "(\<And>m x. P m \<Longrightarrow> P (f m x)) \<Longrightarrow> P m \<Longrightarrow> P (foldl f m xs)"
  by (induction xs arbitrary: m) simp_all

lemma drops: "P m \<Longrightarrow> P (foldl drop_backing m bs)"
  by (rule folding) (rule give)

lemma index: "P m \<Longrightarrow> P (index_page m r)" and unindex: "P m \<Longrightarrow> P (unindex_page m r)"
  by (auto simp: index_page_def unindex_page_def Let_def crash elim: frame split: option.splits)

lemma heap_upd: "P m \<Longrightarrow> P (m\<lparr>page_heap := h\<rparr>)" and pages_upd: "P m \<Longrightarrow> P (m\<lparr>pages := l\<rparr>)"
  by (erule frame; simp)+

lemma free: "P m \<Longrightarrow> P (free_page m r p)"
  unfolding free_page_def Let_def by (intro heap_upd give unindex)

lemma removes: "P m \<Longrightarrow> P (snd (remove_walk a n rs m))"
  by (induction a n rs m rule: remove_walk.induct) (auto simp: crash free split: option.splits prod.splits)

lemma remove: "P m \<Longrightarrow> P (remove_pages m a n)"
  using removes [of m a n "pages m"] by (auto simp: remove_pages_def split: prod.splits elim: frame)

lemma build:
  assumes mk: "\<And>m x. P m \<Longrightarrow> P (snd (mk m x))"
  shows "P m \<Longrightarrow> P (snd (snd (build_pages mk as m head)))"
proof (induction as arbitrary: m head)
  case (Cons a as)
  have step: "P (snd (next_gen (snd (mk m1 a))))" if "heap_alloc m = (Some r, m1)" for r m1
    by (rule gen [OF mk [OF alloc [OF Cons.prems that]]])
  show ?case
  proof (cases "heap_alloc m")
    case (Pair bo m1)
    show ?thesis
    proof (cases bo)
      case None
      then show ?thesis using alloc [OF Cons.prems Pair] Pair by simp
    next
      case (Some r)
      then show ?thesis using Cons.IH [OF step [of r m1]] Pair by (simp add: case_prod_beta Let_def)
    qed
  qed
qed simp

lemma publish: "P m \<Longrightarrow> P (publish_pages m head)"
proof (induction m head rule: publish_pages.induct)
  case (2 m r p head)
  have "P (m\<lparr>page_heap := (page_heap m)(r \<mapsto> p), pages := r # pages m\<rparr>)" by (intro pages_upd heap_upd 2(2))
  then show ?case using 2(1) index by simp
qed simp

lemma build_result:
  assumes "P m" and "\<And>m x. P m \<Longrightarrow> P (snd (mk m x))" and "build_pages mk as m [] = (h, l, m')"
  shows "P m'"
  using build [of mk m as "[]", OF assms(2,1)] assms(3) by simp

lemma reserve:
  assumes m: "P m" and run: "reserve_locked m a n = (e, r, m')"
  shows "P m'"
proof (cases a)
  case None
  then show ?thesis using m run by (simp add: reserve_locked_def)
next
  case (Some x)
  from run [unfolded Some] show ?thesis
  proof (cases rule: reserve_locked_cases)
    case (built b ro h m1)
    have "P m1" by (rule build_result [OF m _ built(4)]) (simp add: reserved_page_def)
    then show ?thesis using built(5) publish by (cases ro) simp_all
  qed (use m in simp)
qed

lemma commit_allocs: "P m \<Longrightarrow> commit_alloc as m bs = (ro, l, m') \<Longrightarrow> P m'"
  by (induction as m bs rule: commit_alloc.induct) (auto simp: crash split: option.splits prod.splits dest: backing)

lemma commit_one: "P m \<Longrightarrow> P (commit_page prot m ab)"
  by (auto simp: commit_page_def crash touch page_upd split: prod.splits option.splits)

lemma commits: "P m \<Longrightarrow> P (foldl (commit_page prot) m cs)"
  by (rule folding) (rule commit_one)

lemma commit:
  assumes m: "P m" and run: "commit_locked m a n prot = (e, m')"
  shows "P m'"
  using run
proof (cases rule: commit_locked_cases)
  case (run ro bs m1)
  have "P m1" by (rule commit_allocs [OF counted [OF m] run(3)]) simp
  then show ?thesis using run(4) drops commits by (cases ro) simp_all
qed (use m counted in auto)

lemma decommit:
  assumes "P m" and "decommit_locked m a n = (e, m')"
  shows "P m'"
proof -
  have "P (decommit_page m x)" if "P m" for m x
    using that by (auto simp: decommit_page_def intro!: crash touch page_upd give split: option.splits)
  then show ?thesis using assms folding [of decommit_page m] by (auto simp: decommit_locked_def Let_def split: if_splits)
qed

lemma release: "P m \<Longrightarrow> release_locked m a n = (e, m') \<Longrightarrow> P m'"
  by (auto simp: release_locked_def Let_def crash remove split: if_splits option.splits)

lemma set_reservations: "P m \<Longrightarrow> P (foldl (set_reservation b n) m xs)"
  by (rule folding) (auto simp: set_reservation_def crash page_upd split: option.splits)

lemma unmap: "P m \<Longrightarrow> unmap_locked m a n = (e, m') \<Longrightarrow> P m'"
  by (auto simp: unmap_locked_def Let_def intro!: crash remove set_reservations split: if_splits option.splits)

lemma protect:
  assumes "P m" and "protect_locked m a n prot = (e, r, m')"
  shows "P m'"
proof -
  have "P (foldl (set_protection prot) m xs)" for xs
    using assms(1) by (intro folding) (auto simp: set_protection_def crash page_upd split: option.splits)
  moreover have "P (foldl touch_at m xs)" if "P m" for m xs
    using that by (intro folding) (auto simp: touch_at_def crash touch split: option.splits)
  ultimately show ?thesis using assms by (auto simp: protect_locked_def Let_def split: if_splits)
qed

lemma alias_call:
  assumes m: "P m" and run: "alias_locked m a s n prot = (e, m')"
  shows "P m'"
  using run
proof (cases rule: alias_locked_cases)
  case (built ro h m1)
  have "P m1" by (rule build_result [OF m _ built(5)]) (simp add: alias_page_def crash hold split: option.split)
  then show ?thesis using built(6) publish drops by (cases ro) simp_all
qed (use m in simp)

lemma identities: "P m \<Longrightarrow> identity_pages a h prot xs m = (okay, m') \<Longrightarrow> P m'"
  by (induction a h prot xs m rule: identity_pages.induct)
    (auto simp: crash touch page_upd split: option.splits prod.splits dest: backing)

lemma map_identity:
  assumes m: "P m" and run: "map_identity_locked m a h n prot = (e, m')"
  shows "P m'"
  using run
proof (cases rule: map_identity_cases)
  case (reserved r m1 okay m2)
  have "P m2" by (rule identities [OF reserve [OF m reserved(5)] reserved(6)])
  then show ?thesis using reserved(7) release [of m2 a n "fst (release_locked m2 a n)"] by (cases okay) simp_all
qed (use m reserve [OF m] in simp_all)

lemma externals: "P m \<Longrightarrow> external_alloc a h xs m bs = (e, l, m') \<Longrightarrow> P m'"
  by (induction a h xs m bs rule: external_alloc.induct)
    (auto simp: crash split: option.splits prod.splits if_splits dest: backing)

lemma commit_external:
  assumes m: "P m" and run: "commit_external_locked m a h n prot ident = (e, m')"
  shows "P m'"
  using run
proof (cases rule: commit_external_cases)
  case (run e1 bs m1)
  have "P m1" by (rule externals [OF counted [OF m] run(6)]) simp
  then show ?thesis using run(8) drops commits by simp
qed (use m counted in auto)

lemma bind_kuser:
  assumes m: "P m" and run: "bind_kuser_locked m g = (e, m')"
  shows "P m'"
  using run
proof (cases rule: bind_kuser_cases)
  case (run r1 r2 p1 p2 old ext m1)
  show ?thesis unfolding run(11) by (intro give touch page_upd fresh [OF m run(10)])
qed (use m counted in auto)

lemma copies: "P m \<Longrightarrow> copy_alloc rs m cs = (ro, l, m') \<Longrightarrow> P m'"
  by (induction rs m cs rule: copy_alloc.induct)
    (auto simp: crash fresh split: option.splits prod.splits if_splits dest: backing)

lemma installs: "P m \<Longrightarrow> P (foldl install_copy m rcs)"
  by (rule folding) (auto simp: install_copy_def crash touch page_upd give split: option.splits prod.splits)

lemma pieces: "P m \<Longrightarrow> P (foldl (write_piece buf) m rcs)"
  by (rule folding) (auto simp: write_piece_def crash touch store split: option.splits prod.splits)

lemma access_end: "P m \<Longrightarrow> access_finish m b w ps copies cs = (e, b', m') \<Longrightarrow> P m'"
proof -
  assume m: "P m" and run: "access_finish m b w ps copies cs = (e, b', m')"
  have "P (foldl install_copy (foldl (\<lambda>m r. upd_page m r clear_guard) m ps) (zip ps copies))"
    by (intro installs folding page_upd m)
  then show "P m'" using run by (auto simp: access_finish_def Let_def crash pieces split: if_splits option.splits)
qed

lemma access:
  assumes m: "P m" and run: "access_memory_locked m a b n w x q g = (e, b', m')"
  shows "P m'"
  using run
proof (cases rule: access_cases)
  case (guard ps r)
  have "P (bump m)" by (rule counted [OF m]) simp
  then show ?thesis using guard(6) by (simp add: touch page_upd)
next
  case (nocopy ps copies m3)
  have "P m3" by (rule copies [OF counted [OF counted [OF m]] nocopy(6)]) simp_all
  then show ?thesis using nocopy(7) drops by simp
next
  case (finish ps copies m3)
  have "P (bump m)" "P (bump (bump m))" using counted [OF m, of "Suc (heap_count m)"] counted [OF m, of "Suc (Suc (heap_count m))"] by simp_all
  then have "P m3" using finish(4) copies [of "bump (bump m)"] by (auto split: if_splits)
  then show ?thesis by (rule access_end [OF _ finish(5)])
qed (use m counted in auto)

lemma peek: "P m \<Longrightarrow> peek_locked acc m a b n = (e, b', m') \<Longrightarrow> P m'"
  by (auto simp: peek_locked_def Let_def crash split: if_splits option.splits)

lemmas every_call = reserve commit decommit release unmap protect alias_call map_identity commit_external bind_kuser access peek

lemma locked_run: "locked_run acc c m e m' \<Longrightarrow> P m \<Longrightarrow> P m'"
  by (cases rule: locked_run.cases) (auto elim: every_call)

end

end
