(* ===== verification/Gem_Transaction_Props.thy ===== *)
theory Gem_Transaction_Props
  imports Gem_Transaction Gem_Memory_Closure Gem_Memory_Sharing
begin

text \<open>
  Why optimistic validation works: a store gives its backing a generation that was never used
  before, so a backing whose generation is the recorded one still has the recorded contents.
\<close>

section \<open>Versions of a backing\<close>

text \<open>
  What every state after \<open>m0\<close> says about a backing \<open>b\<close> that was \<open>k0\<close> in \<open>m0\<close>: its generation is
  newer than \<open>m0\<close>, or its contents and generation are those of \<open>k0\<close>. Nothing is claimed once the
  generation counter has wrapped, where the program aborts.
\<close>

definition keeps_version :: "gem_memory \<Rightarrow> backing_ref \<Rightarrow> backing \<Rightarrow> gem_memory \<Rightarrow> bool" where
  "keeps_version m0 b k0 m \<longleftrightarrow> b < heap_count m \<and> (\<not> aborted m \<longrightarrow> next_generation m0 \<le> next_generation m \<and>
     (\<forall>k. backing_heap m b = Some k \<longrightarrow> next_generation m0 < bk_generation k \<or>
        (bk_data k = bk_data k0 \<and> bk_generation k = bk_generation k0)))"

lemma next_generation_less: "(x :: u64) + 1 \<noteq> 0 \<Longrightarrow> x < x + 1"
proof -
  assume "x + 1 \<noteq> 0"
  then have "unat (x + 1) = Suc (unat x)" using unatSuc [of x] by (simp add: add.commute)
  then show "x < x + 1" by (simp add: word_less_nat_alt)
qed

lemma next_gen_keeps: "keeps_version m0 b k0 m \<Longrightarrow> keeps_version m0 b k0 (snd (next_gen m))"
  using next_generation_less [of "next_generation m"] by (auto simp: keeps_version_def next_gen_def Let_def)

lemma touch_backing_eq:
  "backing_heap m b = Some k \<Longrightarrow> touch_backing m b = (snd (next_gen m))\<lparr>backing_heap := (backing_heap m)(b \<mapsto> k\<lparr>bk_generation := next_generation m + 1\<rparr>)\<rparr>"
  "backing_heap m b = None \<Longrightarrow> touch_backing m b = crash (snd (next_gen m))"
  by (simp_all add: touch_backing_def next_gen_def upd_backing_def Let_def)

lemma crash_keeps: "keeps_version m0 b k0 (crash m) = keeps_version m0 b k0 m"
  by (simp add: keeps_version_def crash_def)

lemma write_backing_heap:
  "next_generation (write_backing m b off bs) = next_generation m" "aborted (write_backing m b off bs) = aborted m"
  "heap_count (write_backing m b off bs) = heap_count m"
  "map_option bk_generation (backing_heap (write_backing m b off bs) b') = map_option bk_generation (backing_heap m b')"
  "b' \<noteq> b \<Longrightarrow> backing_heap (write_backing m b off bs) b' = backing_heap m b'"
  by (simp_all add: write_backing_def crash_def split: option.splits backing_data.splits)

lemma store_keeps:
  assumes m: "keeps_version m0 b k0 m"
  shows "keeps_version m0 b k0 (touch_backing (write_backing m b' off bs) b')"
proof -
  let ?w = "write_backing m b' off bs"
  have g: "next_generation m + 1 \<noteq> 0 \<Longrightarrow> next_generation m < next_generation m + 1" by (rule next_generation_less)
  have n: "aborted (snd (next_gen ?w)) \<longleftrightarrow> aborted m \<or> next_generation m + 1 = 0" "next_generation (snd (next_gen ?w)) = next_generation m + 1"
    by (simp_all add: next_gen_def Let_def write_backing_heap)
  have m': "keeps_version m0 b k0 (snd (next_gen ?w))" if "b' \<noteq> b \<or> backing_heap ?w b' = None"
    using m g n that write_backing_heap(5) [of b b' m off bs] write_backing_heap(4) [of m b' off bs b']
    by (cases "b' = b") (auto simp: keeps_version_def write_backing_heap)
  show ?thesis
  proof (cases "backing_heap ?w b'")
    case None
    then show ?thesis using m' by (simp add: touch_backing_eq(2) crash_keeps)
  next
    case (Some k)
    show ?thesis
    proof (cases "b' = b")
      case True
      then show ?thesis unfolding touch_backing_eq(1) [OF Some] using m g n by (auto simp: keeps_version_def write_backing_heap)
    next
      case False
      then show ?thesis unfolding touch_backing_eq(1) [OF Some] using m' by (simp add: keeps_version_def)
    qed
  qed
qed

text \<open>Every call keeps the version of every backing.\<close>

interpretation version: memory_closure "keeps_version m0 b k0" for m0 b k0
proof
  show "keeps_version m0 b k0 m'" if "keeps_version m0 b k0 m" "backing_heap m' = backing_heap m" "next_generation m' = next_generation m"
      "aborted m' = aborted m" "heap_count m \<le> heap_count m'" for m m'
    using that by (simp add: keeps_version_def)
  show "keeps_version m0 b k0 (drop_backing m bo)" if "keeps_version m0 b k0 m" for m bo
    using that by (auto simp: drop_backing_def keeps_version_def crash_def split: option.splits)
  show "keeps_version m0 b k0 (incref m b')" if "keeps_version m0 b k0 m" for m b'
    using that by (auto simp: incref_def upd_backing_def keeps_version_def crash_def split: option.splits)
  show "keeps_version m0 b k0 (upd_backing m' b' f)" if "keeps_version m0 b k0 m" "new_backing m host = (Some b', m')" for m host b' m' f
    using that by (cases rule: new_backing_cases [of m host]) (auto simp: upd_backing_def keeps_version_def)
qed (fact next_gen_keeps, fact store_keeps)

section \<open>Commits of other transactions\<close>

text \<open>A commit marks its backings before it writes them, so the later stores need no further mark.\<close>

definition newer :: "gem_memory \<Rightarrow> backing_ref \<Rightarrow> gem_memory \<Rightarrow> bool" where
  "newer m0 b m \<longleftrightarrow> (\<not> aborted m \<longrightarrow> (\<forall>k. backing_heap m b = Some k \<longrightarrow> next_generation m0 < bk_generation k))"

lemma store_newer:
  assumes n: "\<not> aborted m \<Longrightarrow> next_generation m0 \<le> next_generation m" and x: "x \<noteq> b' \<Longrightarrow> newer m0 x m"
  shows "newer m0 x (touch_backing (write_backing m b' off bs) b')"
proof -
  let ?w = "write_backing m b' off bs"
  have g: "next_generation m + 1 \<noteq> 0 \<Longrightarrow> next_generation m < next_generation m + 1" by (rule next_generation_less)
  have h: "next_generation (snd (next_gen ?w)) = next_generation m + 1" "aborted (snd (next_gen ?w)) \<longleftrightarrow> aborted m \<or> next_generation m + 1 = 0"
    by (simp_all add: next_gen_def Let_def write_backing_heap)
  show ?thesis
  proof (cases "x = b'")
    case True
    then show ?thesis using n g h
      by (cases "backing_heap ?w b'") (auto simp: newer_def touch_backing_eq crash_def write_backing_heap)
  next
    case False
    then show ?thesis using x h write_backing_heap(5) [of x b' m off bs]
      by (cases "backing_heap ?w b'") (auto simp: newer_def touch_backing_eq crash_def)
  qed
qed

lemma touch_count [simp]: "heap_count (touch_backing m b) = heap_count m"
  by (cases "backing_heap m b") (simp_all add: touch_backing_eq crash_def)

lemma write_backing_dead: "backing_heap m x = None \<Longrightarrow> backing_heap (write_backing m b off bs) x = None"
  using write_backing_heap(4) [of m b off bs x] by simp

lemma touch_backing_dead: "backing_heap m x = None \<Longrightarrow> backing_heap (touch_backing m b) x = None"
  by (cases "backing_heap m b") (auto simp: touch_backing_eq crash_def)

lemma store_bounded:
  "(\<forall>x. heap_count m \<le> x \<longrightarrow> backing_heap m x = None) \<Longrightarrow>
   (\<forall>x. heap_count m \<le> x \<longrightarrow> backing_heap (touch_backing (write_backing m b off bs) b) x = None)"
  by (simp add: touch_backing_dead write_backing_dead)

text \<open>The states during a commit: a version is kept and the backings \<open>B\<close> are marked.\<close>

definition marked :: "gem_memory \<Rightarrow> backing_ref \<Rightarrow> backing \<Rightarrow> backing_ref set \<Rightarrow> gem_memory \<Rightarrow> bool" where
  "marked m0 b k0 B m \<longleftrightarrow> keeps_version m0 b k0 m \<and> (\<forall>b' \<in> B. b' < heap_count m \<and> newer m0 b' m) \<and>
     (\<forall>x. heap_count m \<le> x \<longrightarrow> backing_heap m x = None)"

interpretation marking: memory_closure "marked m0 b k0 B" for m0 b k0 B
proof
  fix m assume m: "marked m0 b k0 B m"
  have older: "\<not> aborted m \<Longrightarrow> next_generation m0 \<le> next_generation m" using m by (simp add: marked_def keeps_version_def)
  show "marked m0 b k0 B m'" if "backing_heap m' = backing_heap m" "next_generation m' = next_generation m"
      "aborted m' = aborted m" "heap_count m \<le> heap_count m'" for m'
    using m that version.frame [of m0 b k0 m m'] by (auto simp: marked_def newer_def)
  show "marked m0 b k0 B (snd (next_gen m))"
    using m version.gen [of m0 b k0 m] by (auto simp: marked_def newer_def next_gen_def Let_def)
  show "marked m0 b k0 B (drop_backing m bo)" for bo
    using m version.give [of m0 b k0 m bo] by (auto simp: marked_def newer_def drop_backing_def crash_def split: option.splits if_splits)
  show "marked m0 b k0 B (incref m b')" for b'
    using m version.hold [of m0 b k0 m b'] by (auto simp: marked_def newer_def incref_def upd_backing_def crash_def split: option.splits if_splits)
  show "marked m0 b k0 B (upd_backing m' b' f)" if "new_backing m host = (Some b', m')" for host b' m' f
    using m version.fresh [of m0 b k0 m host b' m' f] that
    by (cases rule: new_backing_cases [of m host]) (auto simp: marked_def newer_def upd_backing_def)
  show "marked m0 b k0 B (touch_backing (write_backing m b' off bytes) b')" for b' off bytes
    using m version.store [of m0 b k0 m b' off bytes] store_newer [OF older, of _ b' off bytes]
      store_bounded [of m b' off bytes]
    by (auto simp: marked_def write_backing_heap)
qed

lemma marked_touch:
  assumes m: "marked m0 b k0 B m" and k: "backing_heap m b' = Some k"
  shows "marked m0 b k0 (insert b' B) (touch_backing m b')"
proof -
  have c: "b' < heap_count m" using m k by (auto simp: marked_def not_le [symmetric])
  have eq: "write_backing m b' 0 [] = m" using k by (cases "bk_data k") (auto simp: write_backing_def fun_upd_idem)
  have "newer m0 b' (touch_backing m b')"
    using store_newer [of m m0 b' b' 0 "[]"] m by (simp add: eq marked_def keeps_version_def)
  then show ?thesis using marking.store [OF m, of b' 0 "[]"] c by (simp add: eq marked_def)
qed

lemma marked_touch_weak: "marked m0 b k0 B m \<Longrightarrow> marked m0 b k0 B (touch_backing m b')"
proof (cases "backing_heap m b'")
  case None
  assume "marked m0 b k0 B m"
  then show ?thesis using None by (simp add: touch_backing_eq marking.crash marking.gen)
next
  case (Some k)
  assume "marked m0 b k0 B m"
  from marked_touch [OF this Some] show ?thesis by (simp add: marked_def)
qed

lemma marked_write:
  assumes m: "marked m0 b k0 B m" and b: "b' \<in> B"
  shows "marked m0 b k0 B (write_backing m b' off bs)"
proof -
  have gen: "newer m0 x (write_backing m b' off bs) = newer m0 x m" for x
    using write_backing_heap(4) [of m b' off bs x]
    by (cases "backing_heap m x"; cases "backing_heap (write_backing m b' off bs) x") (simp_all add: newer_def write_backing_heap)
  have "keeps_version m0 b k0 (write_backing m b' off bs)"
  proof (cases "b' = b")
    case True
    then show ?thesis using m b gen [of b] by (auto simp: marked_def keeps_version_def newer_def write_backing_heap)
  next
    case False
    then show ?thesis using m by (simp add: marked_def keeps_version_def write_backing_heap)
  qed
  then show ?thesis using m gen by (simp add: marked_def write_backing_heap write_backing_dead)
qed

lemma marked_lines: "marked m0 b k0 B m \<Longrightarrow> b' \<in> B \<Longrightarrow> marked m0 b k0 B (fst (write_lines b' data ls m c))"
  by (induction b' data ls m c rule: write_lines.induct) (simp_all add: Let_def marked_write)

lemma marked_rebind: "marked m0 b k0 B m \<Longrightarrow> marked m0 b k0 B (snd (rebind_dependencies p b' k data ds m))"
  by (induction p b' k data ds m rule: rebind_dependencies.induct)
    (auto simp: Let_def marking.give marking.hold split: prod.splits)

lemma marked_adopt: "marked m0 b k0 B m \<Longrightarrow> marked m0 b k0 B (adopt_copy m r p copy)"
  by (auto simp: adopt_copy_def marking.give marking.page_upd marking.crash split: option.splits)

lemma marked_mono: "marked m0 b k0 B m \<Longrightarrow> B' \<subseteq> B \<Longrightarrow> marked m0 b k0 B' m"
  by (auto simp: marked_def)

definition some_set :: "'a option list \<Rightarrow> 'a set" where
  "some_set xs = {x. Some x \<in> set xs}"

lemma touch_page_backings [simp]: "backing_heap (touch_page m r) = backing_heap m"
  by (simp add: touch_page_def next_gen_def Let_def upd_page_def crash_def split: option.splits)

text \<open>The ways through one round of the publishing loop; the first does not arise in a sound memory.\<close>

abbreviation publish_touch :: "gem_memory \<Rightarrow> backing_ref \<Rightarrow> page_ref \<Rightarrow> gem_memory" where
  "publish_touch m b r \<equiv> touch_page (touch_backing (incref m b) b) r"

abbreviation write_bytes :: "gem_memory_page_write \<Rightarrow> byte_string" where
  "write_bytes w \<equiv> (case wr_data w of None \<Rightarrow> [] | Some l \<Rightarrow> l)"

lemma publish_write_cases:
  assumes run: "publish_write (w, copy) (t, m, c) = (bo, t', m', c')"
  obtains (lost) m1 where "bo = None" "m' = crash m1"
      "m1 = m \<or> (\<exists>r p. m1 = adopt_copy m r p copy) \<or> (\<exists>r p b. m1 = publish_touch (adopt_copy m r p copy) b r)"
  | (stored) r p b p' k ds m3 where "at m (wr_address w) = Some r" "page_heap m r = Some p" "bo = Some b"
      "Option.bind (page_heap (adopt_copy m r p copy) r) page_backing = Some b"
      "page_heap (publish_touch (adopt_copy m r p copy) b r) r = Some p'" "backing_heap (publish_touch (adopt_copy m r p copy) b r) b = Some k"
      "rebind_dependencies p' b k (write_bytes w) (tx_pages t) (publish_touch (adopt_copy m r p copy) b r) = (ds, m3)" "t' = t\<lparr>tx_pages := ds\<rparr>"
      "(m', c') = (if external k then write_lines b (write_bytes w) page_lines m3 c else (m3, c))"
proof (cases "at m (wr_address w)")
  case None
  then show ?thesis using run lost [of m] by (simp add: publish_write_def)
next
  case (Some r)
  show ?thesis
  proof (cases "page_heap m r")
    case None
    then show ?thesis using run lost [of m] Some by (simp add: publish_write_def)
  next
    case p: (Some p)
    let ?m1 = "adopt_copy m r p copy"
    show ?thesis
    proof (cases "Option.bind (page_heap ?m1 r) page_backing")
      case None
      then show ?thesis using run lost [of ?m1] Some p by (auto simp: publish_write_def Let_def)
    next
      case b: (Some b)
      let ?m2 = "publish_touch ?m1 b r"
      show ?thesis
      proof (cases "page_heap ?m2 r = None \<or> backing_heap ?m2 b = None")
        case True
        then have "bo = None \<and> m' = crash ?m2" using run Some p b by (auto simp: publish_write_def Let_def split: option.splits)
        then show ?thesis using lost [of ?m2] by blast
      next
        case False
        then obtain p' k where pk: "page_heap ?m2 r = Some p'" "backing_heap ?m2 b = Some k"
          by (cases "page_heap ?m2 r"; cases "backing_heap ?m2 b") blast+
        obtain ds m3 where rd: "rebind_dependencies p' b k (write_bytes w) (tx_pages t) ?m2 = (ds, m3)" by fastforce
        have "bo = Some b" "t' = t\<lparr>tx_pages := ds\<rparr>" "(m', c') = (if external k then write_lines b (write_bytes w) page_lines m3 c else (m3, c))"
          using run Some p b pk rd by (auto simp: publish_write_def Let_def split: if_splits prod.splits)
        then show ?thesis using stored [OF Some p _ b pk rd] by blast
      qed
    qed
  qed
qed

lemma marked_publish:
  assumes m: "marked m0 b k0 B m" and run: "publish_write (w, copy) (t, m, c) = (bo, t', m', c')"
  shows "marked m0 b k0 (B \<union> some_set [bo]) m'"
  using run
proof (cases rule: publish_write_cases)
  case (lost m1)
  have "marked m0 b k0 B m1"
    using lost(3) m marked_adopt [OF m] marking.hold [of m0 b k0 B] marking.touch [of m0 b k0 B] marked_touch_weak by blast
  then show ?thesis using lost(1,2) marking.crash by (simp add: some_set_def)
next
  case (stored r p b' p' k ds m3)
  have "backing_heap (incref (adopt_copy m r p copy) b') b' \<noteq> None"
    using stored(6) touch_backing_dead [of "incref (adopt_copy m r p copy) b'" b' b'] by auto
  then obtain k1 where "backing_heap (incref (adopt_copy m r p copy) b') b' = Some k1" by blast
  from marking.touch [OF marked_touch [OF marking.hold [OF marked_adopt [OF m]] this]]
  have "marked m0 b k0 (insert b' B) (publish_touch (adopt_copy m r p copy) b' r)" .
  from marked_rebind [OF this, of p' b' k "write_bytes w" "tx_pages t"] have m3: "marked m0 b k0 (insert b' B) m3" using stored(7) by simp
  have "B \<union> some_set [bo] = insert b' B" using stored(3) by (auto simp: some_set_def)
  then show ?thesis using m3 marked_lines [OF m3, of b' "write_bytes w" page_lines c] stored(9) by (cases "external k") (simp_all add: prod_eq_iff)
qed

lemma marked_publishes:
  "marked m0 b k0 B m \<Longrightarrow> publish_writes wcs (t, m, c) = (bs, t', m', c') \<Longrightarrow> marked m0 b k0 (B \<union> some_set bs) m'"
proof (induction wcs arbitrary: B t m c bs)
  case (Cons wc wcs)
  obtain w copy where wc: "wc = (w, copy)" by fastforce
  obtain bo t1 m1 c1 where p: "publish_write (w, copy) (t, m, c) = (bo, t1, m1, c1)" using prod_cases4 by blast
  obtain bs1 where ps: "publish_writes wcs (t1, m1, c1) = (bs1, t', m', c')" "bs = bo # bs1"
    using Cons.prems(2) p by (auto simp: wc split: prod.splits)
  have "marked m0 b k0 ((B \<union> some_set [bo]) \<union> some_set bs1) m'" by (rule Cons.IH [OF marked_publish [OF Cons.prems(1) p] ps(1)])
  moreover have "(B \<union> some_set [bo]) \<union> some_set bs1 = B \<union> some_set bs" using ps(2) by (auto simp: some_set_def)
  ultimately show ?case by simp
qed (simp add: some_set_def)

lemma marked_contents:
  "marked m0 b k0 B m \<Longrightarrow> some_set bs \<subseteq> B \<Longrightarrow> marked m0 b k0 B (fst (write_contents (zip ws bs) (m, c)))"
proof (induction bs arbitrary: ws m c)
  case (Cons bo bs)
  have sub: "some_set bs \<subseteq> B" using Cons.prems(2) by (auto simp: some_set_def)
  show ?case
  proof (cases ws)
    case ws: (Cons w ws')
    have crash: "marked m0 b k0 B (fst (write_contents (zip ws' bs) (crash m, c)))"
      by (rule Cons.IH [OF marking.crash [OF Cons.prems(1)] sub])
    show ?thesis
    proof (cases bo)
      case None
      then show ?thesis using crash ws by simp
    next
      case (Some b')
      then have b': "b' \<in> B" using Cons.prems(2) by (auto simp: some_set_def)
      obtain m1 c1 where wl: "write_lines b' (write_bytes w) page_lines m c = (m1, c1)" by fastforce
      have "marked m0 b k0 B m1" using marked_lines [OF Cons.prems(1) b', of "write_bytes w" page_lines c] wl by simp
      then show ?thesis using crash Some ws wl Cons.IH [OF _ sub] Cons.prems(1) by (simp split: option.splits)
    qed
  qed (use Cons.prems in simp)
qed simp

lemma marked_copies: "marked m0 b k0 B m \<Longrightarrow> commit_copies ws t m cs = (res, t', m') \<Longrightarrow> marked m0 b k0 B m'"
  by (induction ws t m cs rule: commit_copies.induct)
    (auto simp: Let_def marking.crash marking.touch marking.page_upd marking.fresh dest: marking.backing
      split: option.splits prod.splits if_splits)

lemma marked_commit_publish:
  assumes m: "marked m0 b k0 {} m" and cp: "commit_publish t m ws = (st, t1, m1)"
  shows "marked m0 b k0 (case st of Commit_over _ _ \<Rightarrow> {} | Commit_pinned bs _ \<Rightarrow> some_set bs) m1"
proof (cases "find (\<lambda>d. \<not> dependency_current m d) (tx_pages t) = None \<and> commit_check m [] ws = None")
  case False
  then show ?thesis using m cp by (auto simp: commit_publish_def split: option.splits)
next
  case True
  obtain res t2 m2 where cc: "commit_copies ws t m [] = (res, t2, m2)" using prod_cases3 by blast
  have m2: "marked m0 b k0 {} m2" by (rule marked_copies [OF m cc])
  show ?thesis
  proof (cases res)
    case (Copies_failed e f cs)
    then show ?thesis using True cp cc marking.drops [OF m2] by (auto simp: commit_publish_def)
  next
    case (Copies_made cs)
    obtain bs t3 m3 c where pw: "publish_writes (zip ws cs) (t2, m2, 0) = (bs, t3, m3, c)" using prod_cases4 by blast
    show ?thesis using True cp cc Copies_made pw marked_publishes [OF m2 pw] by (auto simp: commit_publish_def)
  qed
qed

lemma commit_keeps:
  assumes m: "marked m0 b k0 {} m" and run: "gem_memory_transaction_commit_pages to m ws n = (r, to', m')"
  shows "marked m0 b k0 {} m'"
proof (cases "\<exists>t. to = Some t \<and> \<not> ((n \<noteq> 0 \<and> ws = None) \<or> n > 64)")
  case False
  then show ?thesis using run m by (auto simp: gem_memory_transaction_commit_pages_def split: option.splits if_splits)
next
  case True
  then obtain t where t: "to = Some t" "\<not> ((n \<noteq> 0 \<and> ws = None) \<or> n > 64)" by blast
  let ?ws = "take (unat n) (case ws of None \<Rightarrow> [] | Some l \<Rightarrow> l)"
  obtain st t1 m1 where cp: "commit_publish t m ?ws = (st, t1, m1)" using prod_cases3 by blast
  have pub: "marked m0 b k0 (case st of Commit_over _ _ \<Rightarrow> {} | Commit_pinned bs _ \<Rightarrow> some_set bs) m1"
    by (rule marked_commit_publish [OF m cp])
  show ?thesis
  proof (cases st)
    case (Commit_over e f)
    then show ?thesis using run t cp pub by (simp add: gem_memory_transaction_commit_pages_def Let_def)
  next
    case (Commit_pinned bs c)
    obtain m2 c2 where wc: "write_contents (zip ?ws bs) (m1, c) = (m2, c2)" by fastforce
    have "marked m0 b k0 (some_set bs) m2" using marked_contents [of m0 b k0 "some_set bs" m1 bs ?ws c] pub wc Commit_pinned by simp
    then have "marked m0 b k0 {} (commit_unpin m2 bs)" unfolding commit_unpin_def by (intro marking.drops) (rule marked_mono, simp_all)
    then show ?thesis using run t cp Commit_pinned wc by (simp add: gem_memory_transaction_commit_pages_def Let_def)
  qed
qed

section \<open>Interference\<close>

text \<open>What other threads may do to the memory between two operations of a transaction: public calls and whole transaction operations.\<close>

inductive memory_step :: "(u64 \<Rightarrow> nat \<Rightarrow> bool) \<Rightarrow> gem_memory \<Rightarrow> gem_memory \<Rightarrow> bool" for acc where
  call: "locked_run acc c m e m' \<Longrightarrow> memory_step acc m m'"
| snapshot: "gem_memory_transaction_snapshot_page acc to m a outs = (e, d, to', m') \<Longrightarrow> memory_step acc m m'"
| validate: "gem_memory_transaction_validate to m a n w x = (e, to', m') \<Longrightarrow> memory_step acc m m'"
| commit: "gem_memory_transaction_commit_pages to m ws n = (r, to', m') \<Longrightarrow> memory_step acc m m'"
| finish: "gem_memory_transaction_end to m = m' \<Longrightarrow> memory_step acc m m'"

lemma snapshot_marked:
  "marked m0 b k0 B m \<Longrightarrow> gem_memory_transaction_snapshot_page acc to m a outs = (e, d, to', m') \<Longrightarrow> marked m0 b k0 B m'"
  by (auto simp: gem_memory_transaction_snapshot_page_def record_page_def Let_def marking.hold marking.crash
      split: option.splits if_splits)

lemma dependency_marked:
  "marked m0 b k0 B m \<Longrightarrow> tx_dependency t m q = (r, t', m') \<Longrightarrow> marked m0 b k0 B m'"
  by (auto simp: tx_dependency_def record_page_def marking.hold marking.crash split: option.splits if_splits)

lemma guard_marked:
  "marked m0 b k0 B m \<Longrightarrow> tx_consume_guard t m q d = (e, t', m') \<Longrightarrow> marked m0 b k0 B m'"
  by (auto simp: tx_consume_guard_def Let_def marking.touch marking.page_upd marking.crash split: option.splits if_splits)

lemma validate_marked:
  "marked m0 b k0 B m \<Longrightarrow> tx_validate_pieces w x cs t m = (e, t', m') \<Longrightarrow> marked m0 b k0 B m'"
proof (induction cs arbitrary: t m)
  case (Cons c cs)
  obtain q z where c: "c = (q, z)" by (cases c)
  obtain r t1 m1 where d: "tx_dependency t m q = (r, t1, m1)" using prod_cases3 by blast
  have m1: "marked m0 b k0 B m1" by (rule dependency_marked [OF Cons.prems(1) d])
  show ?case using Cons.prems(2) d m1 guard_marked [OF m1] Cons.IH [OF m1] by (cases r) (auto simp: c split: if_splits)
qed simp

lemma step_marked:
  assumes "memory_step acc m m'" and m: "marked m0 b k0 {} m"
  shows "marked m0 b k0 {} m'"
  using assms(1)
proof cases
  case (call c e)
  then show ?thesis using marking.locked_run [OF _ m] by blast
next
  case (snapshot to a outs e d to')
  then show ?thesis using snapshot_marked [OF m] by blast
next
  case (validate to a n w x e to')
  show ?thesis
  proof (cases to)
    case (Some t)
    obtain e1 t1 m1 where v: "tx_validate_pieces w x (peek_pieces a (unat n) 0) t m = (e1, t1, m1)" using prod_cases3 by blast
    then show ?thesis using m validate_marked [OF m v] validate Some by (auto simp: gem_memory_transaction_validate_def split: if_splits)
  qed (use validate m in \<open>simp add: gem_memory_transaction_validate_def\<close>)
next
  case (commit to ws n r to')
  then show ?thesis using commit_keeps [OF m] by blast
next
  case (finish to)
  have "marked m0 b k0 {} (foldl (\<lambda>m d. drop_backing m (Some (tx_backing d))) m ds)" for ds :: "transaction_page list"
    by (rule marking.folding [OF marking.give m])
  then show ?thesis using finish m by (cases to) (auto simp: gem_memory_transaction_end_def)
qed

text \<open>The entry that a successful snapshot leaves for its page.\<close>

lemma find_dependency_new:
  "find_dependency t a = None \<Longrightarrow> find_dependency (t\<lparr>tx_pages := tx_pages t @ [d]\<rparr>) a = (if tx_address d = a then Some d else None)"
proof -
  have "find (\<lambda>d. tx_address d = a) ds = None \<Longrightarrow> find (\<lambda>d. tx_address d = a) (ds @ [d]) = (if tx_address d = a then Some d else None)" for ds
    by (induction ds) (auto split: if_splits)
  then show "find_dependency t a = None \<Longrightarrow> ?thesis" by (simp add: find_dependency_def)
qed

lemma snapshot_entry:
  assumes run: "gem_memory_transaction_snapshot_page acc (Some t) m a outs = (GEM_MEMORY_OK, Some (bytes, prot), Some t', m')"
    and adr: "\<And>p. page_at m a = Some p \<Longrightarrow> address p = a"
  obtains p b k d where "page_at m a = Some p" "page_backing p = Some b" "backing_heap m b = Some k" "a AND 4095 = 0"
    "bytes = map (data_bytes m k) [0 ..< 4096]" "prot = protection p" "m' = m \<or> m' = incref m b"
    "find_dependency t' a = Some d" "tx_backing d = b" "tx_content_generation d = bk_generation k" "tx_protection d = protection p"
proof -
  obtain p b k where p: "page_at m a = Some p" "page_backing p = Some b" "backing_heap m b = Some k" "outs" "a AND 4095 = 0"
      "\<not> (external k \<and> (case bk_data k of Host h \<Rightarrow> \<not> acc h 4096 | Owned _ \<Rightarrow> False))"
    using run by (auto simp: gem_memory_transaction_snapshot_page_def split: option.splits if_splits)
  have out: "bytes = map (data_bytes m k) [0 ..< 4096]" "prot = protection p"
    using run p by (auto simp: gem_memory_transaction_snapshot_page_def Let_def split: option.splits if_splits prod.splits)
  show ?thesis
  proof (cases "find_dependency t a")
    case None
    then have "t' = t\<lparr>tx_pages := tx_pages t @ [page_dependency m p b k]\<rparr>" "m' = incref m b"
      using run p by (auto simp: gem_memory_transaction_snapshot_page_def record_page_def Let_def split: if_splits)
    then show ?thesis using that [OF p(1,2,3,5) out] find_dependency_new [OF None, of "page_dependency m p b k"] adr [OF p(1)]
      by (simp add: page_dependency_def)
  next
    case (Some d)
    then have "t' = t" "m' = m" "tx_backing d = b" "tx_content_generation d = bk_generation k" "tx_protection d = protection p"
      using run p by (auto simp: gem_memory_transaction_snapshot_page_def Let_def split: if_splits)
    then show ?thesis using that [OF p(1,2,3,5) out] Some by simp
  qed
qed

definition owned_page :: "gem_memory \<Rightarrow> u64 \<Rightarrow> bool" where
  "owned_page m a = (case Option.bind (Option.bind (page_at m a) page_backing) (backing_heap m) of None \<Rightarrow> False | Some k \<Rightarrow> \<not> external k)"

lemma start_marked:
  assumes inv: "memory_inv pins m" and k: "backing_heap m b = Some k"
  shows "marked m b k {} m"
proof -
  have ro: "refs_ok pins m" using inv by (simp add: memory_inv_def mem_ok_def)
  show ?thesis using alive_lt [OF ro k] refs_ok_fresh [OF ro] k by (simp add: marked_def keeps_version_def)
qed

lemma steps_marked: "(memory_step acc)\<^sup>*\<^sup>* m m' \<Longrightarrow> marked m0 b k0 {} m \<Longrightarrow> marked m0 b k0 {} m'"
  by (induction rule: rtranclp_induct) (auto intro: step_marked)

lemma offset_in_page:
  assumes "a AND 4095 = (0 :: u64)" and "i < 4096"
  shows "page_base (a + of_nat i) = a" and "unat ((a + of_nat i) AND 4095) = i"
proof -
  have i: "unat (of_nat i :: u64) = i" using assms(2) by (simp add: unat_of_nat)
  have "(of_nat i :: u64) AND 4095 = of_nat i"
    using unat_page_offset [of "of_nat i"] i assms(2) by (intro word_unat_eq_iff [THEN iffD2]) simp
  then show "page_base (a + of_nat i) = a" and "unat ((a + of_nat i) AND 4095) = i"
    using aligned_offset [of a "of_nat i"] assms(1) i page_base_eq [of "of_nat i"] by simp_all
qed

text \<open>
  A validated snapshot is what memory holds (C14). A transaction takes a snapshot of a page of the guest's own storage, not of
  memory that the host lends; then other threads take any number of whole calls: read, write, map, protect, alias, release, commit
  their own transactions, each as one step. If the transaction then finishes without a conflict, the page still has the protection of the
  snapshot and its 4096 bytes are those of the snapshot, however they may have been reached in between through aliases. The conditions:
  no backing has a generation above the counter when the snapshot is taken (a finding says where the code does not see to
  it), and the program has not aborted since, as it does when the 64-bit counter wraps.
\<close>

theorem finish_validates_snapshot:
  assumes inv: "memory_inv pins m" and assigned: "\<forall>b k. backing_heap m b = Some k \<longrightarrow> bk_generation k \<le> next_generation m"
    and snap: "gem_memory_transaction_snapshot_page acc (Some t) m a outs = (GEM_MEMORY_OK, Some (bytes, prot), Some t', m')"
    and own: "owned_page m a"
    and run: "(memory_step acc)\<^sup>*\<^sup>* m' m''" and ab: "\<not> aborted m''"
    and kept: "set (tx_pages t') \<subseteq> set (tx_pages t'')"
    and fin: "gem_memory_transaction_finish (Some t'') m'' = (GEM_MEMORY_OK, fault)"
  shows "map_option protection (page_at m'' a) = Some prot \<and> (\<forall>i < 4096. byte_at m'' (a + of_nat i) = Some (bytes ! i))"
proof -
  have adr: "address p = a" if "page_at m a = Some p" for p
    using that inv page_at_iff [of m a p] by (auto simp: memory_inv_def mem_ok_def)
  obtain p b k d where e: "page_at m a = Some p" "page_backing p = Some b" "backing_heap m b = Some k" "a AND 4095 = 0"
      "bytes = map (data_bytes m k) [0 ..< 4096]" "prot = protection p" "m' = m \<or> m' = incref m b"
      "find_dependency t' a = Some d" "tx_backing d = b" "tx_content_generation d = bk_generation k" "tx_protection d = protection p"
    by (rule snapshot_entry [OF snap adr])
  have "\<not> external k" using own e(1-3) by (simp add: owned_page_def)
  then obtain f where f: "bk_data k = Owned f"
    using inv e(3) by (cases "bk_data k") (auto simp: memory_inv_def mem_ok_def refs_ok_def)
  have d: "d \<in> set (tx_pages t'')" "tx_address d = a"
    using e(8) kept by (auto simp: find_dependency_def find_Some_iff)
  have "dependency_current m'' d"
    using fin d(1) by (auto simp: gem_memory_transaction_finish_def find_None_iff split: option.splits)
  then obtain p' k' where q: "page_at m'' a = Some p'" "page_backing p' = Some b" "backing_heap m'' b = Some k'"
      "bk_generation k' = bk_generation k" "protection p' = protection p"
    using d(2) e(9-11) by (auto simp: dependency_current_def split: option.splits)
  have "marked m b k {} m''" using steps_marked [OF run] start_marked [OF inv e(3)] e(7) marking.hold by blast
  moreover have "\<not> next_generation m < bk_generation k" using assigned e(3) by (simp add: not_less)
  ultimately have "bk_data k' = Owned f" using ab q(3,4) f by (auto simp: marked_def keeps_version_def)
  then have "byte_at m'' (a + of_nat i) = Some (bytes ! i)" if "i < 4096" for i
    using that q(1-3) e(5) f offset_in_page [OF e(4) that] by (simp add: byte_at_def backing_byte_def data_bytes_def)
  then show ?thesis using q(1,5) e(6) by simp
qed

section \<open>An instance\<close>

text \<open>A memory with one committed page.\<close>

definition one_page :: gem_memory where
  "one_page = \<lparr>pages = [0], page_buckets = (\<lambda>j. if j = page_bucket 0x10000 then [0] else []), next_generation = 5,
     page_heap = [0 \<mapsto> \<lparr>address = 0x10000, reservation_base = 0x10000, reservation_size = 4096, page_backing = Some 1,
       protection = GEM_PAGE_READWRITE, generation = 4\<rparr>],
     backing_heap = [1 \<mapsto> \<lparr>bk_data = Owned (\<lambda>_. 7), refs = 1, bk_generation = 3, external = False\<rparr>],
     host_memory = (\<lambda>_. 0), heap_ok = (\<lambda>_. True), heap_garbage = (\<lambda>_. 0), heap_count = 3, crashed = False, aborted = False\<rparr>"

lemma one_page_at: "page_at one_page x = (if x = 0x10000 then page_heap one_page 0 else None)"
  by (simp add: page_at_def at_def one_page_def)

lemma one_page_inv: "memory_inv no_pins one_page"
proof -
  have "index_ok one_page" by (auto simp: index_ok_def index_on_def one_page_def split: if_splits)
  moreover have "holders (page_heap one_page) b = (if b = 1 then {0} else {})" for b
    by (auto simp: holders_def one_page_def)
  then have "refs_ok no_pins one_page" by (auto simp: refs_ok_def ref_count_def one_page_def split: if_splits)
  moreover have "resv one_page x = (if x = 0x10000 then Some (0x10000, 4096) else None)" for x
    by (simp add: resv_def one_page_at) (simp add: one_page_def)
  then have "resv_wf (resv one_page)" by (simp add: resv_wf_def page_addrs_one [unfolded GEM_GUEST_PAGE_SIZE_def] range_ok_def)
  ultimately show ?thesis by (simp add: memory_inv_def mem_ok_def one_page_def)
qed

definition one_page_entry :: transaction_page where
  "one_page_entry = \<lparr>tx_address = 0x10000, tx_generation = 4, tx_content_generation = 3, tx_content_hash = 0, tx_backing = 1,
     tx_protection = GEM_PAGE_READWRITE, tx_external = False\<rparr>"

lemma one_page_snapshot:
  "gem_memory_transaction_snapshot_page (\<lambda>_ _. True) (Some \<lparr>tx_pages = []\<rparr>) one_page 0x10000 True =
     (GEM_MEMORY_OK, Some (replicate 4096 7, GEM_PAGE_READWRITE), Some \<lparr>tx_pages = [one_page_entry]\<rparr>, incref one_page 1)"
proof -
  let ?p = "\<lparr>address = 0x10000, reservation_base = 0x10000, reservation_size = 4096, page_backing = Some 1, protection = GEM_PAGE_READWRITE, generation = 4\<rparr>"
  let ?k = "\<lparr>bk_data = Owned (\<lambda>_. 7), refs = 1, bk_generation = 3, external = False\<rparr>"
  have p: "page_at one_page 0x10000 = Some ?p" by (simp add: one_page_at) (simp add: one_page_def)
  have k: "backing_heap one_page 1 = Some ?k" by (simp add: one_page_def)
  have d: "map (data_bytes one_page ?k) [0 ..< 4096] = replicate 4096 7"
    by (rule nth_equalityI) (simp_all add: data_bytes_def nth_append)
  have f: "find_dependency \<lparr>tx_pages = []\<rparr> a = None" for a by (simp add: find_dependency_def)
  have r: "record_page \<lparr>tx_pages = []\<rparr> one_page ?p 1 ?k = (\<lparr>tx_pages = [one_page_entry]\<rparr>, incref one_page 1)"
    by (simp add: record_page_def page_dependency_def external_hash_def one_page_entry_def)
  show ?thesis unfolding gem_memory_transaction_snapshot_page_def Let_def option.case p page.simps k backing.simps d f r
    by (simp add: GEM_MEMORY_TRANSACTION_PAGES_def)
qed

theorem finish_validates_snapshot_witness:
  "map_option protection (page_at (incref one_page 1) 0x10000) = Some GEM_PAGE_READWRITE \<and> byte_at (incref one_page 1) (0x10000 + of_nat 9) = Some 7"
proof -
  have own: "owned_page one_page 0x10000" and as: "\<forall>b k. backing_heap one_page b = Some k \<longrightarrow> bk_generation k \<le> next_generation one_page"
    by (simp_all add: owned_page_def one_page_at) (simp_all add: one_page_def)
  have pa: "page_at (incref one_page 1) = page_at one_page" by (simp add: page_at_def at_def incref_def upd_backing_def one_page_def fun_eq_iff)
  have fin: "gem_memory_transaction_finish (Some \<lparr>tx_pages = [one_page_entry]\<rparr>) (incref one_page 1) = (GEM_MEMORY_OK, None)"
    by (simp add: gem_memory_transaction_finish_def dependency_current_def one_page_entry_def pa [unfolded One_nat_def] one_page_at)
      (simp add: one_page_def incref_def upd_backing_def)
  have ab: "\<not> aborted (incref one_page 1)" by (simp add: one_page_def incref_def upd_backing_def)
  from finish_validates_snapshot [OF one_page_inv as one_page_snapshot own rtranclp.rtrancl_refl ab _ fin]
  have f: "map_option protection (page_at (incref one_page 1) 0x10000) = Some GEM_PAGE_READWRITE \<and>
      (\<forall>i < 4096. byte_at (incref one_page 1) (0x10000 + of_nat i) = Some (replicate 4096 7 ! i))" by blast
  have "replicate 4096 (7 :: u8) ! 9 = 7" by (rule nth_replicate) simp
  then show ?thesis using conjunct1 [OF f] spec [OF conjunct2 [OF f], of 9] by simp
qed

end
