(* ===== verification/Gem_Transaction_Atomic.thy ===== *)
theory Gem_Transaction_Atomic
  imports Gem_Transaction_Props
begin

text \<open>
  A commit that fails leaves the guest's memory as it was. The references of a transaction are the
  \<open>pins\<close> of the memory's invariant.
\<close>

definition tx_refs :: "gem_memory_transaction \<Rightarrow> backing_ref \<Rightarrow> int" where
  "tx_refs t b = int (count_list (map tx_backing (tx_pages t)) b)"

text \<open>The invariant of a memory with an open transaction; \<open>pins\<close> are the references of the others.\<close>

definition tx_inv :: "(backing_ref \<Rightarrow> int) \<Rightarrow> gem_memory_transaction \<Rightarrow> gem_memory \<Rightarrow> bool" where
  "tx_inv pins t m \<longleftrightarrow> (\<forall>b. 0 \<le> pins b) \<and> memory_inv (\<lambda>b. pins b + tx_refs t b) m"

lemma tx_refs_nonneg [simp]: "0 \<le> tx_refs t b"
  by (simp add: tx_refs_def)

section \<open>Private copies up to the first guard\<close>

definition write_ref :: "gem_memory \<Rightarrow> gem_memory_page_write \<Rightarrow> page_ref \<Rightarrow> bool" where
  "write_ref m w r \<longleftrightarrow> at m (wr_address w) = Some r \<and> (\<exists>p. page_heap m r = Some p \<and> page_backing p \<noteq> None \<and> allowed (protection p) True False)"

lemma commit_check_refs:
  assumes "index_ok m" and "commit_check m earlier ws = None"
  shows "\<exists>rs. list_all2 (write_ref m) ws rs"
  using assms(2)
proof (induction ws arbitrary: earlier)
  case (Cons w ws)
  then obtain p where p: "page_at m (wr_address w) = Some p" "page_backing p \<noteq> None" "allowed (protection p) True False"
      "commit_check m (earlier @ [w]) ws = None"
    by (auto split: if_splits option.splits)
  obtain r where "at m (wr_address w) = Some r" "page_heap m r = Some p" using p(1) by (auto simp: page_at_def bind_eq_Some_conv)
  then have "write_ref m w r" using p(2,3) by (simp add: write_ref_def)
  moreover obtain rs where "list_all2 (write_ref m) ws rs" using Cons.IH [OF p(4)] by blast
  ultimately show ?case by (intro exI [of _ "r # rs"]) simp
qed (auto intro: exI [of _ "[]"])

text \<open>The loop of \<open>commit_pages\<close> copies as a write does, until it meets a guard page.\<close>

lemma write_ref_grows: "grows m m' \<Longrightarrow> write_ref m' = write_ref m"
  by (simp add: write_ref_def grows_def fun_eq_iff)

inductive copies_outcome :: "gem_memory_transaction \<Rightarrow> gem_memory \<Rightarrow> backing_ref option list \<Rightarrow> page_ref list
    \<Rightarrow> copies_result \<Rightarrow> gem_memory_transaction \<Rightarrow> gem_memory \<Rightarrow> bool" for t m cs where
  all_copied: "copy_alloc rs m cs = (Some l, cs', m') \<Longrightarrow> copies_outcome t m cs rs (Copies_made l) t m'"
| out_of_memory: "copy_alloc rs m cs = (None, cs', m') \<Longrightarrow>
    copies_outcome t m cs rs (Copies_failed GEM_MEMORY_NO_MEMORY None (rev cs')) t m'"
| guard_met: "write_ref m w r \<Longrightarrow> copy_alloc rs1 m cs = (Some l, cs', m1) \<Longrightarrow> guarded m1 r \<Longrightarrow>
    page_heap (touch_page (upd_page m1 r clear_guard) r) r = Some p' \<Longrightarrow>
    copies_outcome t m cs (rs1 @ r # rs2) (Copies_failed GEM_MEMORY_GUARD_PAGE (Some (wr_address w)) l)
      (t\<lparr>tx_pages := refresh_guard (wr_address w) p' (tx_pages t)\<rparr>) (touch_page (upd_page m1 r clear_guard) r)"

lemma copies_outcome_Cons:
  assumes "copies_outcome t m1 cs1 rs res t' m'" and eq: "\<And>rs'. copy_alloc (r # rs') m cs = copy_alloc rs' m1 cs1"
    and "write_ref m1 = write_ref m"
  shows "copies_outcome t m cs (r # rs) res t' m'"
  using assms(1)
proof cases
  case (all_copied l cs')
  then show ?thesis using copies_outcome.all_copied [of "r # rs" m cs] eq by simp
next
  case (out_of_memory cs')
  then show ?thesis using copies_outcome.out_of_memory [of "r # rs" m cs] eq by simp
next
  case (guard_met w r' rs1 l cs' m2 p' rs2)
  then show ?thesis using copies_outcome.guard_met [of m w r' "r # rs1" cs l cs' m2 p' t rs2] eq assms(3) by simp
qed

lemma commit_copies_outcome:
  assumes "commit_copies ws t m cs = (res, t', m')" and "list_all2 (write_ref m) ws rs"
    and "mem_ok (\<lambda>b. pins b + held cs b) m" and nn: "\<And>b. 0 \<le> pins b"
  shows "copies_outcome t m cs rs res t' m'"
  using assms(1-3)
proof (induction ws arbitrary: m cs rs)
  case Nil
  then show ?case by (auto intro: copies_outcome.all_copied)
next
  case (Cons w ws)
  obtain r rs0 where rs: "rs = r # rs0" "write_ref m w r" "list_all2 (write_ref m) ws rs0" using Cons.prems(2) by (auto simp: list_all2_Cons1)
  obtain p b where p: "at m (wr_address w) = Some r" "page_heap m r = Some p" "page_backing p = Some b" using rs(2) by (auto simp: write_ref_def)
  have fin: "finite (dom (page_heap m))" using Cons.prems(3) index_on_finite unfolding mem_ok_def index_ok_def by blast
  have nn': "0 \<le> pins x + held cs x" for x using nn [of x] by simp
  obtain k where k: "backing_heap m b = Some k"
    using held_alive [of "\<lambda>b. pins b + held cs b" m r p b] Cons.prems(3) nn' fin p by (auto simp: mem_ok_def)
  consider (guard) "protection p AND GEM_PAGE_GUARD \<noteq> 0" | (keep) "protection p AND GEM_PAGE_GUARD = 0" "\<not> (writecopy p \<and> \<not> external k)"
    | (copy) "protection p AND GEM_PAGE_GUARD = 0" "writecopy p \<and> \<not> external k" by blast
  then show ?case
  proof cases
    case guard
    then have g: "guarded m r" using p(2) by (simp add: guarded_def)
    obtain p' where p': "page_heap (touch_page (upd_page m r clear_guard) r) r = Some p'"
      using p(2) by (simp add: touch_page_def next_gen_def Let_def upd_page_def)
    then have "res = Copies_failed GEM_MEMORY_GUARD_PAGE (Some (wr_address w)) (rev cs)" "m' = touch_page (upd_page m r clear_guard) r"
        "t' = t\<lparr>tx_pages := refresh_guard (wr_address w) p' (tx_pages t)\<rparr>"
      using Cons.prems(1) p guard by (auto simp: Let_def)
    then show ?thesis using copies_outcome.guard_met [of m w r "[]" cs "rev cs" cs m p' t rs0] rs g p' by simp
  next
    case keep
    have run: "commit_copies ws t m (None # cs) = (res, t', m')" using Cons.prems(1) p k keep by auto
    have ok: "mem_ok (\<lambda>b. pins b + held (None # cs) b) m" using Cons.prems(3) by simp
    have eq: "copy_alloc (r # rs') m cs = copy_alloc rs' m (None # cs)" for rs' using p k keep(2) by auto
    show ?thesis unfolding rs(1) by (rule copies_outcome_Cons [OF Cons.IH [OF run rs(3) ok] eq refl])
  next
    case copy
    obtain d where d: "bk_data k = Owned d"
      using refs_ok_host [of "\<lambda>b. pins b + held cs b" m b k] k Cons.prems(3) copy by (cases "bk_data k") (auto simp: mem_ok_def)
    obtain bo m1 where nb: "new_backing m None = (bo, m1)" by fastforce
    show ?thesis
    proof (cases bo)
      case None
      then have "copy_alloc (r # rs0) m cs = (None, cs, m1)" "res = Copies_failed GEM_MEMORY_NO_MEMORY None (rev cs)" "t' = t" "m' = m1"
        using Cons.prems(1) p k copy nb by auto
      then show ?thesis using copies_outcome.out_of_memory [of "r # rs0" m cs cs m1 t] rs(1) by simp
    next
      case (Some c)
      let ?m2 = "upd_backing m1 c (\<lambda>k'. k'\<lparr>bk_data := Owned (data_bytes m1 k)\<rparr>)"
      have dm: "data_bytes m1 k = data_bytes m k" by (simp add: fun_eq_iff data_bytes_def d)
      note st = new_copy_step [OF Cons.prems(3) nb [unfolded Some] d, folded dm]
      have "(\<lambda>b. pins b + held (Some c # cs) b) = (\<lambda>x. pins x + held cs x + (if c = x then 1 else 0))" by (auto simp: fun_eq_iff)
      then have ok2: "mem_ok (\<lambda>b. pins b + held (Some c # cs) b) ?m2" using st(1) by simp
      have run: "commit_copies ws t ?m2 (Some c # cs) = (res, t', m')" using Cons.prems(1) p k copy nb Some by simp
      have eq: "copy_alloc (r # rs') m cs = copy_alloc rs' ?m2 (Some c # cs)" for rs' using p k copy nb Some by simp
      have wr: "write_ref ?m2 = write_ref m" by (rule write_ref_grows [OF st(2)])
      show ?thesis unfolding rs(1) by (rule copies_outcome_Cons [OF Cons.IH [OF run _ ok2] eq wr]) (use rs(3) wr in simp)
    qed
  qed
qed

section \<open>Validation survives\<close>

text \<open>An entry that was current stays current while its page keeps the backing, once its generation and protection are the page's.\<close>

lemma dependency_current_frame:
  assumes ok: "mem_ok P m" and ok': "mem_ok P m'" and fr: "bk_frame m m'" and pin: "0 < P (tx_backing d)"
    and cur: "dependency_current m d"
    and p': "page_at m' (tx_address d) = Some p'" "page_backing p' = Some (tx_backing d)"
  shows "dependency_current m' (d\<lparr>tx_generation := generation p', tx_protection := protection p'\<rparr>)"
proof -
  obtain k where k: "backing_heap m (tx_backing d) = Some k" "bk_generation k = tx_content_generation d"
      "tx_external d \<longrightarrow> content_hash (data_bytes m k) = tx_content_hash d"
    using cur by (auto simp: dependency_current_def split: option.splits)
  have lt: "tx_backing d < heap_count m" using alive_lt k(1) ok unfolding mem_ok_def by blast
  obtain k' where k': "backing_heap m' (tx_backing d) = Some k'"
    using backing_alive [of P m' "tx_backing d"] ok' pin by (auto simp: mem_ok_def)
  have e: "k'\<lparr>refs := 0\<rparr> = k\<lparr>refs := 0\<rparr>" using fr lt k(1) k' unfolding bk_frame_def by fastforce
  have "bk_generation k' = bk_generation k" "bk_data k' = bk_data k" using arg_cong [OF e, of bk_generation] arg_cong [OF e, of bk_data] by simp_all
  moreover have "host_memory m' = host_memory m" using fr by (simp add: bk_frame_def)
  ultimately have "data_bytes m' k' = data_bytes m k" "bk_generation k' = bk_generation k" by (cases "bk_data k"; simp add: data_bytes_def fun_eq_iff)+
  then show ?thesis using k p' k' by (simp add: dependency_current_def)
qed

lemma tx_refs_pos: "d \<in> set (tx_pages t) \<Longrightarrow> 0 < tx_refs t (tx_backing d)"
  by (simp add: tx_refs_def count_list_0_iff zero_less_iff_neq_zero)

lemma tx_refs_refresh [simp]: "tx_refs (t\<lparr>tx_pages := refresh_guard a p (tx_pages t)\<rparr>) = tx_refs t"
proof -
  have "map tx_backing (refresh_guard a p ds) = map tx_backing ds" for ds by (simp add: refresh_guard_def)
  then show ?thesis by (simp add: tx_refs_def fun_eq_iff)
qed

lemma dependency_current_same:
  "dependency_current m d \<Longrightarrow> page_at m (tx_address d) = Some p \<Longrightarrow>
    page_backing p = Some (tx_backing d) \<and> d\<lparr>tx_generation := generation p, tx_protection := protection p\<rparr> = d"
  by (cases d) (auto simp: dependency_current_def split: option.splits)

text \<open>The state a failed commit leaves, with the guard of at most one page cleared.\<close>

lemma clear_guard_step:
  assumes ok: "mem_ok P m" and r: "at m a = Some r" and p: "page_heap m r = Some p"
  defines "m' \<equiv> touch_page (upd_page m r clear_guard) r"
  shows "mem_ok P m'" and "at m' = at m" and "page_at m' = (page_at m)(a \<mapsto> (clear_guard p)\<lparr>generation := next_generation m + 1\<rparr>)"
    and "bk_frame m m'" and "page_heap m' r = Some ((clear_guard p)\<lparr>generation := next_generation m + 1\<rparr>)"
proof -
  have pa: "page_at m a = Some p" using r p by (simp add: page_at_def)
  have adr: "address p = a" using at_iff [of m a r] r p ok by (simp add: mem_ok_def)
  have ng: "next_generation (upd_page m r clear_guard) = next_generation m" using p by (simp add: upd_page_def)
  note u = upd_page_step [OF ok r pa, of clear_guard P]
  have u': "mem_ok P (upd_page m r clear_guard)" "at (upd_page m r clear_guard) = at m" "bk_frame m (upd_page m r clear_guard)"
      "page_at (upd_page m r clear_guard) = (page_at m)(a \<mapsto> clear_guard p)"
    using u adr by simp_all
  note t = touch_page_step [OF u'(1), of a r "clear_guard p", unfolded u'(2,4), OF r]
  show "mem_ok P m'" "at m' = at m" using t by (simp_all add: m'_def)
  show pm: "page_at m' = (page_at m)(a \<mapsto> (clear_guard p)\<lparr>generation := next_generation m + 1\<rparr>)" using t(3) by (simp add: m'_def ng)
  show "bk_frame m m'" using bk_frame_trans [OF u'(3)] t(4) by (simp add: m'_def)
  show "page_heap m' r = Some ((clear_guard p)\<lparr>generation := next_generation m + 1\<rparr>)"
    using fun_cong [OF pm, of a] t(2) r by (simp add: page_at_def m'_def)
qed

text \<open>Dropping the copies made so far; \<open>pg\<close> is the page table of the state they were made in.\<close>

lemma undo_copies:
  assumes inv: "tx_inv pins t m" and ok: "mem_ok (\<lambda>b. pins b + tx_refs t b + held cs b) m2" and fr: "bk_frame m m2"
    and pa: "page_at m2 = (page_at m)(a := map_option f (page_at m a))"
    and f: "\<And>p. page_backing (f p) = page_backing p \<and> reservation_base (f p) = reservation_base p \<and> reservation_size (f p) = reservation_size p"
  defines "m' \<equiv> foldl drop_backing m2 cs"
  shows "tx_inv pins t m'" and "byte_at m' = byte_at m" and "bk_frame m m'" and "page_at m' = page_at m2"
proof -
  let ?P = "\<lambda>b. pins b + tx_refs t b"
  have nn: "0 \<le> ?P b" for b using inv by (simp add: tx_inv_def)
  note st = drop_list_step [OF ok nn, folded m'_def]
  have ok': "mem_ok ?P m'" using st by simp
  show fr': "bk_frame m m'" using bk_frame_trans [OF fr] st by simp
  show pa': "page_at m' = page_at m2" by (rule page_at_cong) (use st in simp_all)
  have same: "map_option g (page_at m' x) = map_option g (page_at m x)" if "\<And>p. g (f p) = g p" for g :: "page \<Rightarrow> 'c" and x
    using that by (cases "page_at m a") (simp_all add: pa' pa)
  have "resv m' = resv m" using same [of "\<lambda>p. (reservation_base p, reservation_size p)"] f by (simp add: resv_def fun_eq_iff)
  then show "tx_inv pins t m'" using inv ok' by (simp add: tx_inv_def memory_inv_def)
  have bk: "Option.bind (page_at m' x) page_backing = Option.bind (page_at m x) page_backing" for x
    using same [of page_backing x] f by (cases "page_at m' x"; cases "page_at m x") simp_all
  have "byte_at m' x = byte_at m x" for x
  proof (rule byte_at_frame [OF _ ok' fr' nn nn])
    show "mem_ok ?P m" using inv by (simp add: tx_inv_def memory_inv_def)
    show "Option.bind (layout m' (page_base x)) page_backing = Option.bind (layout m (page_base x)) page_backing" by (simp add: layout_backing bk)
  qed
  then show "byte_at m' = byte_at m" by (rule ext)
qed

text \<open>What the caller and the guest see of a commit that did not succeed.\<close>

definition commit_undone :: "(backing_ref \<Rightarrow> int) \<Rightarrow> gem_memory_transaction \<Rightarrow> gem_memory \<Rightarrow> gem_memory_error \<Rightarrow> u64 option
    \<Rightarrow> gem_memory_transaction \<Rightarrow> gem_memory \<Rightarrow> bool" where
  "commit_undone pins t m e f t' m' \<longleftrightarrow> tx_inv pins t' m' \<and> byte_at m' = byte_at m \<and>
     (if e = GEM_MEMORY_GUARD_PAGE
      then \<exists>a p. f = Some a \<and> page_at m a = Some p \<and> protection p AND GEM_PAGE_GUARD \<noteq> 0 \<and>
        layout m' = (layout m)(a \<mapsto> (clear_guard p)\<lparr>generation := 0\<rparr>) \<and>
        map tx_backing (tx_pages t') = map tx_backing (tx_pages t) \<and> gem_memory_transaction_finish (Some t') m' = (GEM_MEMORY_OK, None)
      else t' = t \<and> layout m' = layout m)"

lemma undone_refl: "tx_inv pins t m \<Longrightarrow> e \<noteq> GEM_MEMORY_GUARD_PAGE \<Longrightarrow> commit_undone pins t m e f t m"
  by (simp add: commit_undone_def)

lemma undone_out_of_memory:
  assumes inv: "tx_inv pins t m" and ca: "copy_alloc rs m [] = (None, cs, m2)" and rs: "\<And>r. r \<in> set rs \<Longrightarrow> \<exists>p. page_heap m r = Some p \<and> page_backing p \<noteq> None"
  shows "commit_undone pins t m GEM_MEMORY_NO_MEMORY f t (foldl drop_backing m2 (rev cs))"
proof -
  have nn: "0 \<le> pins b + tx_refs t b" for b using inv by (simp add: tx_inv_def)
  have "mem_ok (\<lambda>b. pins b + tx_refs t b + held [] b) m" using inv by (simp add: tx_inv_def memory_inv_def)
  note st = copy_alloc_step [OF this nn rs ca]
  then have ok: "mem_ok (\<lambda>b. pins b + tx_refs t b + held (rev cs) b) m2" and gr: "grows m m2" by simp_all
  have pa: "page_at m2 = (page_at m)(0 := map_option (\<lambda>p. p) (page_at m 0))" by (simp add: grows_page_at [OF gr] option.map_ident)
  note u = undo_copies [OF inv ok grows_frame [OF gr] pa]
  show ?thesis using u grows_page_at [OF gr] by (simp add: commit_undone_def layout_def fun_eq_iff)
qed

lemma undone_guard:
  assumes inv: "tx_inv pins t m" and cur: "\<And>d. d \<in> set (tx_pages t) \<Longrightarrow> dependency_current m d"
    and ca: "copy_alloc rs m [] = (Some cs, cs0, m1)" and rs: "\<And>r. r \<in> set rs \<Longrightarrow> \<exists>p. page_heap m r = Some p \<and> page_backing p \<noteq> None"
    and r: "at m a = Some r" and g: "guarded m1 r"
    and p': "page_heap (touch_page (upd_page m1 r clear_guard) r) r = Some p'"
  shows "commit_undone pins t m GEM_MEMORY_GUARD_PAGE (Some a) (t\<lparr>tx_pages := refresh_guard a p' (tx_pages t)\<rparr>)
    (foldl drop_backing (touch_page (upd_page m1 r clear_guard) r) cs)" (is "commit_undone _ _ _ _ _ ?t ?m")
proof -
  let ?P = "\<lambda>b. pins b + tx_refs t b" and ?m2 = "touch_page (upd_page m1 r clear_guard) r"
  have nn: "0 \<le> ?P b" for b using inv by (simp add: tx_inv_def)
  have ok: "mem_ok ?P m" using inv by (simp add: tx_inv_def memory_inv_def)
  then have "mem_ok (\<lambda>b. ?P b + held [] b) m" by simp
  note st = copy_alloc_step [OF this nn rs ca]
  then have ok1: "mem_ok (\<lambda>b. ?P b + held cs b) m1" and gr: "grows m m1" by simp_all
  obtain p where p: "page_heap m1 r = Some p" "protection p AND GEM_PAGE_GUARD \<noteq> 0" using g by (auto simp: guarded_def split: option.splits)
  have r1: "at m1 a = Some r" using r gr by (simp add: grows_def)
  note c = clear_guard_step [OF ok1 r1 p(1)]
  have "page_at m1 a = Some p" by (simp add: page_at_def r1 p(1))
  then have pm: "page_at m a = Some p" by (simp add: grows_page_at [OF gr])
  have pe: "p' = (clear_guard p)\<lparr>generation := next_generation m1 + 1\<rparr>" using p' c(5) by simp
  have pa: "page_at ?m2 = (page_at m)(a := map_option (\<lambda>p. (clear_guard p)\<lparr>generation := next_generation m1 + 1\<rparr>) (page_at m a))"
    using c(3) pm by (simp add: grows_page_at [OF gr])
  note u = undo_copies [OF inv c(1) bk_frame_trans [OF grows_frame [OF gr] c(4)] pa]
  have ti: "tx_inv pins t ?m" and bs: "byte_at ?m = byte_at m" and fr: "bk_frame m ?m" and pf: "page_at ?m = (page_at m)(a \<mapsto> p')"
    using u pa pm pe by simp_all
  have ok': "mem_ok ?P ?m" using ti by (simp add: tx_inv_def memory_inv_def)
  have "dependency_current ?m (if tx_address d = a then d\<lparr>tx_generation := generation p', tx_protection := protection p'\<rparr> else d)"
    if d: "d \<in> set (tx_pages t)" for d
  proof -
    obtain q where q: "page_at m (tx_address d) = Some q" using cur [OF d] by (auto simp: dependency_current_def split: option.splits)
    note s = dependency_current_same [OF cur [OF d] q]
    have pin: "0 < ?P (tx_backing d)" using tx_refs_pos [OF d] inv by (simp add: tx_inv_def add_nonneg_pos)
    have bp: "page_backing p' = page_backing p" by (simp add: pe)
    note dc = dependency_current_frame [OF ok ok' fr pin cur [OF d]]
    show ?thesis using dc [of p'] dc [of q] q s pm bp by (cases "tx_address d = a") (simp_all add: pf)
  qed
  then have "\<forall>d \<in> set (refresh_guard a p' (tx_pages t)). dependency_current ?m d" unfolding refresh_guard_def set_map by blast
  then have "find (\<lambda>d. \<not> dependency_current ?m d) (refresh_guard a p' (tx_pages t)) = None" by (simp add: find_None_iff)
  then have "gem_memory_transaction_finish (Some ?t) ?m = (GEM_MEMORY_OK, None)" by (simp add: gem_memory_transaction_finish_def)
  moreover have "layout ?m = (layout m)(a \<mapsto> (clear_guard p)\<lparr>generation := 0\<rparr>)" by (simp add: layout_def pf pe fun_eq_iff)
  moreover have "map tx_backing (tx_pages ?t) = map tx_backing (tx_pages t)" by (simp add: refresh_guard_def)
  moreover have "tx_inv pins ?t ?m" using ti by (simp add: tx_inv_def)
  ultimately show ?thesis using bs pm p(2) by (simp add: commit_undone_def)
qed

lemma commit_check_error: "commit_check m es ws = Some (e, f) \<Longrightarrow> e \<noteq> GEM_MEMORY_GUARD_PAGE"
  by (induction m es ws rule: commit_check.induct) (auto split: if_splits option.splits)

lemma publish_undone:
  assumes inv: "tx_inv pins t m" and run: "commit_publish t m ws = (Commit_over e f, t', m')"
  shows "commit_undone pins t m e f t' m'"
proof (cases "find (\<lambda>d. \<not> dependency_current m d) (tx_pages t)")
  case (Some d)
  then show ?thesis using run undone_refl [OF inv] by (simp add: commit_publish_def)
next
  case current: None
  show ?thesis
  proof (cases "commit_check m [] ws")
    case (Some ef)
    then show ?thesis using run current undone_refl [OF inv] commit_check_error by (cases ef) (simp add: commit_publish_def)
  next
    case None
    have ok: "mem_ok (\<lambda>b. pins b + tx_refs t b) m" and nn: "\<And>b. 0 \<le> pins b + tx_refs t b" using inv by (simp_all add: tx_inv_def memory_inv_def)
    obtain rs where rs: "list_all2 (write_ref m) ws rs" using commit_check_refs [OF _ None] ok by (auto simp: mem_ok_def)
    have pg: "\<exists>p. page_heap m r = Some p \<and> page_backing p \<noteq> None" if "r \<in> set rs" for r
      using rs that by (auto simp: write_ref_def list_all2_conv_all_nth in_set_conv_nth)
    obtain res t1 m1 where cc: "commit_copies ws t m [] = (res, t1, m1)" by (metis prod_cases3)
    have "mem_ok (\<lambda>b. pins b + tx_refs t b + held [] b) m" using ok by simp
    from commit_copies_outcome [OF cc rs this nn] show ?thesis
    proof cases
      case (all_copied l cs')
      then show ?thesis using run current None cc by (auto simp: commit_publish_def split: prod.splits)
    next
      case (out_of_memory cs')
      have "copy_alloc rs m [] = (None, cs', m1)" using out_of_memory by simp
      note u = undone_out_of_memory [OF inv this pg]
      show ?thesis using run current None cc out_of_memory u by (simp add: commit_publish_def)
    next
      case (guard_met w r rs1 l cs' m2 p' rs2)
      have at: "at m (wr_address w) = Some r" using guard_met by (simp add: write_ref_def)
      have cur: "dependency_current m d" if "d \<in> set (tx_pages t)" for d using current that by (auto simp: find_None_iff)
      have ca: "copy_alloc rs1 m [] = (Some l, cs', m2)" and g: "guarded m2 r"
        and p': "page_heap (touch_page (upd_page m2 r clear_guard) r) r = Some p'" and sub: "set rs1 \<subseteq> set rs" using guard_met by auto
      note u = undone_guard [OF inv cur ca pg [OF subsetD [OF sub]] at g p']
      show ?thesis using run current None cc guard_met u by (simp add: commit_publish_def)
    qed
  qed
qed

text \<open>
  (C15) A commit of pages that does not succeed is invisible to the guest: no byte of the memory
  changes, the memory's invariant holds with the transaction's references, and nothing is reported
  as committed. Unless the status is a guard fault, the transaction and the page table are as
  before; a guard fault clears the guard of the page at the reported fault address, which had one,
  and nothing else, and the transaction still validates, so that the commit can be tried again.
\<close>

theorem commit_failure_atomic:
  assumes "tx_inv pins t m"
    and "gem_memory_transaction_commit_pages (Some t) m writes count = ((e, f, n), to', m')" and "e \<noteq> GEM_MEMORY_OK"
  shows "\<exists>t'. to' = Some t' \<and> commit_undone pins t m e f t' m' \<and> (n = None \<or> n = Some 0)"
proof (cases "(count \<noteq> 0 \<and> writes = None) \<or> count > 64")
  case True
  then have "to' = Some t \<and> m' = m \<and> e = GEM_MEMORY_INVALID_ARGUMENT \<and> n = None"
    using assms(2) unfolding gem_memory_transaction_commit_pages_def by (simp only: option.case if_True prod.inject)
  then show ?thesis using undone_refl [OF assms(1)] by simp
next
  case False
  obtain st t1 m1 where p: "commit_publish t m (take (unat count) (case writes of None \<Rightarrow> [] | Some l \<Rightarrow> l)) = (st, t1, m1)" by (metis prod_cases3)
  show ?thesis
  proof (cases st)
    case (Commit_over e' f')
    then have "e' = e" "f' = f" "to' = Some t1" "m' = m1" "n = Some 0"
      using assms(2) p by (simp_all add: gem_memory_transaction_commit_pages_def if_not_P [OF False] Let_def)
    then show ?thesis using publish_undone [OF assms(1) p [unfolded Commit_over]] by simp
  next
    case (Commit_pinned bs c)
    then show ?thesis using assms(2,3) p
      by (auto simp: gem_memory_transaction_commit_pages_def if_not_P [OF False] Let_def split: prod.splits)
  qed
qed

section \<open>An instance\<close>

text \<open>The page of \<open>one_page\<close> with a guard, and a commit that writes it.\<close>

definition guard_page :: gem_memory where
  "guard_page = upd_page one_page 0 (\<lambda>p. p\<lparr>protection := GEM_PAGE_READWRITE OR GEM_PAGE_GUARD\<rparr>)"

lemma guard_page_inv: "tx_inv no_pins \<lparr>tx_pages = []\<rparr> guard_page"
proof -
  have at: "at one_page 0x10000 = Some 0" by (simp add: at_def one_page_def)
  obtain p where p: "page_at one_page 0x10000 = Some p" "address p = 0x10000" by (simp add: one_page_at) (simp add: one_page_def)
  note u = upd_page_step [OF inv_mem_ok [OF one_page_inv] at p(1), of "\<lambda>p. p\<lparr>protection := GEM_PAGE_READWRITE OR GEM_PAGE_GUARD\<rparr>" no_pins,
    folded guard_page_def]
  have "mem_ok no_pins guard_page" using u(1) p(2) by simp
  moreover have "resv guard_page = resv one_page" using u(3) p by (simp add: resv_def fun_eq_iff)
  ultimately show ?thesis using one_page_inv by (simp add: tx_inv_def tx_refs_def memory_inv_def)
qed

theorem commit_failure_atomic_witness:
  "\<exists>t' m'. gem_memory_transaction_commit_pages (Some \<lparr>tx_pages = []\<rparr>) guard_page
      (Some [\<lparr>wr_address = 0x10000, wr_data = Some (replicate 4096 1)\<rparr>]) 1 = ((GEM_MEMORY_GUARD_PAGE, Some 0x10000, Some 0), Some t', m') \<and>
    byte_at m' = byte_at guard_page \<and> layout m' = (layout guard_page)(0x10000 \<mapsto>
      \<lparr>address = 0x10000, reservation_base = 0x10000, reservation_size = 4096, page_backing = Some 1, protection = GEM_PAGE_READWRITE, generation = 0\<rparr>)"
proof -
  let ?w = "\<lparr>wr_address = 0x10000, wr_data = Some (replicate 4096 1)\<rparr>"
  let ?p = "\<lparr>address = 0x10000, reservation_base = 0x10000, reservation_size = 4096, page_backing = Some 1,
    protection = GEM_PAGE_READWRITE OR GEM_PAGE_GUARD, generation = 4\<rparr>"
  have at: "at guard_page 0x10000 = Some 0" and ph: "page_heap guard_page 0 = Some ?p"
    by (simp_all add: guard_page_def upd_page_def at_def one_page_def)
  have pa: "page_at guard_page 0x10000 = Some ?p" by (simp add: page_at_def at ph)
  have g: "(GEM_PAGE_READWRITE OR GEM_PAGE_GUARD) AND GEM_PAGE_GUARD \<noteq> 0" "allowed (GEM_PAGE_READWRITE OR GEM_PAGE_GUARD) True False"
    "(GEM_PAGE_READWRITE OR GEM_PAGE_GUARD) AND NOT GEM_PAGE_GUARD = GEM_PAGE_READWRITE"
    by code_simp+
  have ck: "commit_check guard_page [] [?w] = None" by (simp add: pa g(2) [simplified])
  obtain t' m' where run: "gem_memory_transaction_commit_pages (Some \<lparr>tx_pages = []\<rparr>) guard_page (Some [?w]) 1 =
      ((GEM_MEMORY_GUARD_PAGE, Some 0x10000, Some 0), Some t', m')"
    by (simp add: gem_memory_transaction_commit_pages_def commit_publish_def ck [simplified] at ph g(1) Let_def
        touch_page_def next_gen_def upd_page_def)
  from commit_failure_atomic [OF guard_page_inv run] have "commit_undone no_pins \<lparr>tx_pages = []\<rparr> guard_page GEM_MEMORY_GUARD_PAGE (Some 0x10000) t' m'"
    by simp
  then have "byte_at m' = byte_at guard_page" "layout m' = (layout guard_page)(0x10000 \<mapsto> (clear_guard ?p)\<lparr>generation := 0\<rparr>)"
    by (simp_all add: commit_undone_def pa)
  then show ?thesis using run by (intro exI [of _ t'] exI [of _ m']) (simp add: clear_guard_def g(3))
qed

end
