(* ===== verification/Gem_Blink.thy ===== *)
theory Gem_Blink
  imports Gem_Transaction Gem_Context
begin

text \<open>
  What the x64 and the i386 engine share of the Blink emulator: the types of its embedding interface
  and the emulator itself as a parameter. Blink is third-party code; the engines are given a value of
  type \<open>blink\<close>, whose functions may do anything to their own state \<open>'b\<close> and to the part \<open>'w\<close> of the engine
  that the callbacks reach. What is documented of them is stated where a theorem needs it.
\<close>

section \<open>Types of the embedding interface\<close>

definition BLINK_GEM_STATE_ABI_VERSION :: u32 where "BLINK_GEM_STATE_ABI_VERSION = 2"
definition BLINK_GEM_STATE_SIZE :: u32 where "BLINK_GEM_STATE_SIZE = 680"
definition BLINK_GEM_ENGINE_STATUS_RESTARTABLE_REP :: u32 where "BLINK_GEM_ENGINE_STATUS_RESTARTABLE_REP = 0x100"
definition BLINK_GEM_EXCEPTION_ILLEGAL_INSTRUCTION :: u32 where "BLINK_GEM_EXCEPTION_ILLEGAL_INSTRUCTION = 1"
definition BLINK_GEM_EXCEPTION_DIVIDE :: u32 where "BLINK_GEM_EXCEPTION_DIVIDE = 2"
definition BLINK_GEM_EXCEPTION_OVERFLOW :: u32 where "BLINK_GEM_EXCEPTION_OVERFLOW = 3"
definition BLINK_GEM_DECODE_ATTEMPT_ABI_VERSION :: u32 where "BLINK_GEM_DECODE_ATTEMPT_ABI_VERSION = 1"
definition BLINK_GEM_DECODE_ATTEMPT_SIZE :: u32 where "BLINK_GEM_DECODE_ATTEMPT_SIZE = 64"
definition BLINK_GEM_HANDLER_OP_RET :: u32 where "BLINK_GEM_HANDLER_OP_RET = 9"
definition BLINK_GEM_HANDLER_OP_CALL_JVDS :: u32 where "BLINK_GEM_HANDLER_OP_CALL_JVDS = 11"
definition BLINK_GEM_HANDLER_OP_CALL_EQ :: u32 where "BLINK_GEM_HANDLER_OP_CALL_EQ = 13"

datatype blink_gem_access = BLINK_GEM_ACCESS_FETCH | BLINK_GEM_ACCESS_READ | BLINK_GEM_ACCESS_WRITE

datatype blink_gem_outcome =
    BLINK_GEM_RETIRED
  | BLINK_GEM_MEMORY_FAULT
  | BLINK_GEM_UNSUPPORTED
  | BLINK_GEM_INVALID
  | BLINK_GEM_EXCEPTION
  | BLINK_GEM_STOP_PC
  | BLINK_GEM_ASYNC_STOP
  | BLINK_GEM_QUANTUM_BOUNDARY

datatype blink_gem_engine = BLINK_GEM_ENGINE_INTERPRETER | BLINK_GEM_ENGINE_JIT

datatype blink_gem_guest_mode = BLINK_GEM_GUEST_LONG | BLINK_GEM_GUEST_LEGACY_32

datatype blink_gem_host_arch = BLINK_GEM_HOST_UNKNOWN | BLINK_GEM_HOST_AARCH64

record blink_gem_segment =
  selector :: u16
  seg_base :: u32
  seg_limit :: u32
  seg_attributes :: u32

text \<open>
  The sixteen-byte slots of \<open>xmm\<close> and \<open>x87\<close> are copied whole by \<open>memcpy\<close> and never looked into here.
\<close>

record blink_gem_state =
  bs_abi_version :: u32
  bs_size :: u32
  bs_gpr :: "u64 list"
  bs_rip :: u64
  bs_rflags :: u64
  bs_xmm :: "gem_u128 list"
  bs_mxcsr :: u32
  bs_fcw :: u16
  bs_fsw :: u16
  bs_x87 :: "gem_u128 list"
  bs_gs_base :: u64
  bs_fs_base :: u64
  bs_ftw :: u16
  bs_fip :: u32
  bs_fdp :: u32
  bs_fcs :: u16
  bs_fds :: u16
  bs_fop :: u16
  bs_segments :: "blink_gem_segment list"

text \<open>\<open>memset(target, 0, sizeof(*target))\<close> and the two assignments after it.\<close>

definition blank_state :: blink_gem_state where
  "blank_state = \<lparr>bs_abi_version = BLINK_GEM_STATE_ABI_VERSION, bs_size = BLINK_GEM_STATE_SIZE, bs_gpr = replicate 16 0,
     bs_rip = 0, bs_rflags = 0, bs_xmm = replicate 16 zero_u128, bs_mxcsr = 0, bs_fcw = 0, bs_fsw = 0,
     bs_x87 = replicate 8 zero_u128, bs_gs_base = 0, bs_fs_base = 0, bs_ftw = 0, bs_fip = 0, bs_fdp = 0, bs_fcs = 0,
     bs_fds = 0, bs_fop = 0, bs_segments = replicate 6 \<lparr>selector = 0, seg_base = 0, seg_limit = 0, seg_attributes = 0\<rparr>\<rparr>"

text \<open>The array lengths the C type fixes.\<close>

definition state_shape :: "blink_gem_state \<Rightarrow> bool" where
  "state_shape s \<longleftrightarrow> length (bs_gpr s) = 16 \<and> length (bs_xmm s) = 16 \<and> length (bs_x87 s) = 8 \<and> length (bs_segments s) = 6"

record blink_gem_result =
  br_outcome :: blink_gem_outcome
  br_retired :: u32
  br_fault_address :: u64
  br_access :: u32
  br_memory_error :: u32
  br_engine_status :: u32

record blink_gem_decode_attempt =
  at_abi_version :: u32
  at_size :: u32
  at_handler_id :: u32
  at_valid :: bool
  at_name :: string

record blink_gem_engine_info =
  bi_engine :: blink_gem_engine
  bi_host_arch :: blink_gem_host_arch
  bi_jit_compilations :: u64
  bi_jit_executions :: u64
  bi_jit_failures :: u64
  bi_write_xor_execute :: u32

record blink_gem_run_request =
  instruction_budget :: u32
  stop_pcs :: "u64 list"

record blink_gem_write =
  bw_address :: u64
  bw_data :: byte_string
  bw_size :: size_t

section \<open>The emulator as a parameter\<close>

text \<open>
  The functions of blink/gem_embed.h. A step or a run may call back, which changes the world \<open>'w\<close>. A
  query that returns false may still have written the record it was given.
\<close>

record ('b, 'w) blink =
  machine_create :: "blink_gem_engine \<Rightarrow> blink_gem_guest_mode \<Rightarrow> 'b option"
  machine_step :: "'b \<Rightarrow> blink_gem_state \<Rightarrow> 'w \<Rightarrow> blink_gem_result \<times> blink_gem_state \<times> 'b \<times> 'w"
  machine_run :: "'b \<Rightarrow> blink_gem_run_request \<Rightarrow> blink_gem_state \<Rightarrow> 'w \<Rightarrow> blink_gem_result \<times> blink_gem_state \<times> 'b \<times> 'w"
  machine_sync :: "'b \<Rightarrow> 'b"
  machine_decode_attempt_info :: "'b \<Rightarrow> bool \<times> blink_gem_decode_attempt"
  machine_engine_info :: "'b \<Rightarrow> bool \<times> blink_gem_engine_info"
  machine_invalidate_code :: "'b \<Rightarrow> u64 \<Rightarrow> u64 \<Rightarrow> bool \<times> 'b"
  machine_trace_reset :: "'b \<Rightarrow> 'b"
  machine_trace_info :: "'b \<Rightarrow> (u32 \<times> u32) option"
  machine_trace_read :: "'b \<Rightarrow> size_t \<Rightarrow> (u64 \<times> u32) option"
  handler_name :: "u32 \<Rightarrow> string"

section \<open>Error codes\<close>

text \<open>The enumerators of \<open>enum gem_memory_error\<close> as the callbacks return them.\<close>

fun error_code :: "gem_memory_error \<Rightarrow> u32" where
  "error_code GEM_MEMORY_OK = 0"
| "error_code GEM_MEMORY_INVALID_ARGUMENT = 1"
| "error_code GEM_MEMORY_OVERFLOW = 2"
| "error_code GEM_MEMORY_NO_MEMORY = 3"
| "error_code GEM_MEMORY_CONFLICT = 4"
| "error_code GEM_MEMORY_NOT_RESERVED = 5"
| "error_code GEM_MEMORY_NOT_COMMITTED = 6"
| "error_code GEM_MEMORY_ACCESS_DENIED = 7"
| "error_code GEM_MEMORY_GUARD_PAGE = 8"
| "error_code GEM_MEMORY_NOT_FOUND = 9"

end
