(* ===== verification/Gem_X64_Engine.thy ===== *)
theory Gem_X64_Engine
  imports Gem_Blink Gem_Conversion
begin

text \<open>
  The x64 engine: src/gem/x64_engine.c and the Blink binding src/gem/x64_blink.c. A runtime is confined
  to one thread (x64_engine.h); only the request to stop may come from another, and \<open>arrivals n\<close> says
  whether one arrives before the poll that follows \<open>n\<close> retired instructions of a run.
\<close>

section \<open>Data\<close>

definition GEM_X64_DEFAULT_HOST_RETURN_SENTINEL :: u64 where "GEM_X64_DEFAULT_HOST_RETURN_SENTINEL = 0xfffffffffffffff0"
definition GEM_X64_BOUNDARY_WINDOWS_SYSCALL :: u32 where "GEM_X64_BOUNDARY_WINDOWS_SYSCALL = 1"
definition GEM_X64_BOUNDARY_UNIX_CALL :: u32 where "GEM_X64_BOUNDARY_UNIX_CALL = 2"

text \<open>The enumerators of \<open>enum gem_x86_64_engine_mode\<close>; a configuration may hold other values.\<close>

definition GEM_X86_64_ENGINE_DEFAULT :: u32 where "GEM_X86_64_ENGINE_DEFAULT = 0"
definition GEM_X86_64_ENGINE_JIT :: u32 where "GEM_X86_64_ENGINE_JIT = 1"
definition GEM_X86_64_ENGINE_INTERPRETER :: u32 where "GEM_X86_64_ENGINE_INTERPRETER = 2"

record gem_x64_runtime_config =
  xf_host_return_sentinel :: u64
  xf_max_budget :: u64
  xf_windows_syscall_boundary :: u64
  xf_unix_call_boundary :: u64
  xf_engine_mode :: u32
  xf_reserved :: u32

record gem_x64_stop_info =
  xs_reason :: gem_stop_reason
  xs_instructions_retired :: u64
  xs_fault_address :: u64
  xs_access :: u32
  xs_memory_error :: u32
  xs_engine_status :: u32

record gem_x86_64_engine_info =
  xi_abi_version :: u32
  xi_size :: u32
  xi_engine_mode :: u32
  xi_host_arch :: u32
  xi_jit_compilations :: u64
  xi_jit_executions :: u64
  xi_jit_failures :: u64
  xi_write_xor_execute :: u32
  xi_reserved :: u32

definition zero_stop :: gem_x64_stop_info where
  "zero_stop = \<lparr>xs_reason = GEM_STOP_NONE, xs_instructions_retired = 0, xs_fault_address = 0, xs_access = 0, xs_memory_error = 0,
     xs_engine_status = 0\<rparr>"

text \<open>The memory the runtime points to is an argument of the operations.\<close>

record 'b gem_x64_runtime =
  xr_config :: gem_x64_runtime_config
  xr_last_stop :: gem_x64_stop_info
  xr_backend :: 'b
  xr_transaction :: "gem_memory_transaction option"
  xr_running :: bool
  xr_last_instruction_was_call :: bool
  xr_last_instruction_was_ret :: bool
  xr_backend_failed :: bool
  xr_async_stop_requested :: bool

section \<open>Callbacks\<close>

text \<open>What Blink reaches through the callbacks: the transaction of the runtime and its memory.\<close>

type_synonym x64_world = "gem_memory_transaction option \<times> gem_memory"

definition blink_protection :: "u32 \<Rightarrow> u32" where
  "blink_protection gp = (let b = gp AND NOT GEM_PAGE_GUARD in
     if b = GEM_PAGE_NOACCESS then 0
     else (if b \<noteq> GEM_PAGE_EXECUTE then 1 else 0) OR
          (if b = GEM_PAGE_READWRITE \<or> b = GEM_PAGE_WRITECOPY \<or> b = GEM_PAGE_EXECUTE_READWRITE \<or> b = GEM_PAGE_EXECUTE_WRITECOPY
           then 2 else 0) OR
          (if b = GEM_PAGE_EXECUTE \<or> b = GEM_PAGE_EXECUTE_READ \<or> b = GEM_PAGE_EXECUTE_READWRITE \<or> b = GEM_PAGE_EXECUTE_WRITECOPY
           then 4 else 0))"

text \<open>The status, the bytes when they were written, the protection bits, and the world after the call.\<close>

definition x64_snapshot :: "(u64 \<Rightarrow> nat \<Rightarrow> bool) \<Rightarrow> u64 \<Rightarrow> x64_world \<Rightarrow> u32 \<times> byte_string option \<times> u32 \<times> x64_world" where
  "x64_snapshot accessible a w = (case w of (t, m) \<Rightarrow>
     (case gem_memory_transaction_snapshot_page accessible t m a True of
        (e, out, t', m') \<Rightarrow> (error_code e, map_option fst out, blink_protection (case out of None \<Rightarrow> 0 | Some (_, p) \<Rightarrow> p), t', m')))"

definition x64_validate :: "u64 \<Rightarrow> size_t \<Rightarrow> blink_gem_access \<Rightarrow> x64_world \<Rightarrow> u32 \<times> x64_world" where
  "x64_validate a n acc w = (case w of (t, m) \<Rightarrow>
     (case gem_memory_transaction_validate t m a n (acc = BLINK_GEM_ACCESS_WRITE) (acc = BLINK_GEM_ACCESS_FETCH) of
        (e, t', m') \<Rightarrow> (error_code e, t', m')))"

text \<open>\<open>ok\<close> says whether the array of pages can be allocated; the second result is \<open>*fault_address\<close> when it is written.\<close>

definition x64_commit :: "bool \<Rightarrow> blink_gem_write list \<Rightarrow> x64_world \<Rightarrow> (u32 \<times> u64 option) \<times> x64_world" where
  "x64_commit ok ws w = (case w of (t, m) \<Rightarrow>
     if ws = [] then ((0, None), w)
     else if \<not> ok then ((error_code GEM_MEMORY_NO_MEMORY, None), w)
     else if \<exists>d \<in> set ws. bw_size d \<noteq> 4096 then ((error_code GEM_MEMORY_INVALID_ARGUMENT, None), w)
     else (case gem_memory_transaction_commit_pages t m
              (Some (map (\<lambda>d. \<lparr>wr_address = bw_address d, wr_data = Some (bw_data d)\<rparr>) ws)) (of_nat (length ws)) of
        ((e, f, _), t', m') \<Rightarrow> ((error_code e, f), t', m')))"

section \<open>The Blink binding\<close>

definition gem_x64_blink_create :: "('b, x64_world) blink \<Rightarrow> gem_x64_runtime_config \<Rightarrow> 'b option" where
  "gem_x64_blink_create B c = machine_create B
     (if xf_engine_mode c = GEM_X86_64_ENGINE_JIT then BLINK_GEM_ENGINE_JIT else BLINK_GEM_ENGINE_INTERPRETER) BLINK_GEM_GUEST_LONG"

definition x64_import :: "gem_x64_context \<Rightarrow> blink_gem_state" where
  "x64_import s = blank_state\<lparr>bs_gpr := gpr s, bs_rip := rip s, bs_rflags := rflags s, bs_xmm := xmm s, bs_mxcsr := mxcsr s,
     bs_fcw := fcw s, bs_fsw := fsw s, bs_x87 := xc_x87 s, bs_gs_base := xc_teb s\<rparr>"

definition x64_export :: "blink_gem_state \<Rightarrow> gem_x64_context" where
  "x64_export s = \<lparr>gpr = bs_gpr s, rip = bs_rip s, rflags = bs_rflags s, mxcsr = bs_mxcsr s, fcw = bs_fcw s, fsw = bs_fsw s,
     xmm = bs_xmm s, xc_x87 = bs_x87 s, xc_teb = bs_gs_base s\<rparr>"

text \<open>The reason, the view \<open>*out\<close> when it is written, \<open>*retired\<close>, the runtime and the memory.\<close>

definition gem_x64_blink_step :: "('b, x64_world) blink \<Rightarrow> 'b gem_x64_runtime \<Rightarrow> gem_memory \<Rightarrow> gem_x64_context
    \<Rightarrow> gem_stop_reason \<times> gem_x64_context option \<times> u32 \<times> 'b gem_x64_runtime \<times> gem_memory" where
  "gem_x64_blink_step B r m inp = (case machine_step B (xr_backend r) (x64_import inp) (xr_transaction r, m) of
     (br, bo, b, t, m') \<Rightarrow>
      (let r = r\<lparr>xr_backend := b, xr_transaction := t, xr_last_stop := (xr_last_stop r)\<lparr>xs_fault_address := br_fault_address br,
                 xs_access := br_access br, xs_memory_error := br_memory_error br, xs_engine_status := br_engine_status br\<rparr>\<rparr>;
           n = br_retired br
       in case br_outcome br of
          BLINK_GEM_RETIRED \<Rightarrow>
            (let r = (if n = 1 then (case machine_decode_attempt_info B b of (ok, attempt) \<Rightarrow>
                        (if ok \<and> at_valid attempt
                         then r\<lparr>xr_last_instruction_was_call := at_handler_id attempt = BLINK_GEM_HANDLER_OP_CALL_JVDS \<or>
                                  at_handler_id attempt = BLINK_GEM_HANDLER_OP_CALL_EQ,
                                xr_last_instruction_was_ret := at_handler_id attempt = BLINK_GEM_HANDLER_OP_RET\<rparr>
                         else r)) else r)
             in (if n = 1 then GEM_STOP_NONE else GEM_STOP_INVARIANT_VIOLATION, Some (x64_export bo), n, r, m'))
        | BLINK_GEM_MEMORY_FAULT \<Rightarrow> (GEM_STOP_MEMORY_FAULT, None, n, r, m')
        | BLINK_GEM_UNSUPPORTED \<Rightarrow>
            (case machine_decode_attempt_info B b of (ok, attempt) \<Rightarrow>
              (if ok \<and> at_valid attempt \<and> at_name attempt = ''OpInterrupt3'' then (GEM_STOP_WINDOWS_EXCEPTION, None, n, r, m')
               else if at_valid attempt \<and> at_name attempt = ''OpSyscall''
               then (GEM_STOP_SYSCALL, None, n,
                 r\<lparr>xr_last_stop := (xr_last_stop r)\<lparr>xs_engine_status := GEM_X64_BOUNDARY_WINDOWS_SYSCALL\<rparr>\<rparr>, m')
               else (GEM_STOP_UNSUPPORTED_INSTRUCTION, None, n, r, m')))
        | _ \<Rightarrow> (GEM_STOP_INVARIANT_VIOLATION, None, n, r, m')))"

definition gem_x64_blink_engine_info :: "('b, x64_world) blink \<Rightarrow> 'b gem_x64_runtime option \<Rightarrow> gem_x86_64_engine_info option
    \<Rightarrow> bool \<times> gem_x86_64_engine_info option" where
  "gem_x64_blink_engine_info B ro out = (case (ro, out) of
      (Some r, Some i) \<Rightarrow>
       (if xi_abi_version i \<noteq> 1 \<or> xi_size i \<noteq> 48 then (False, out)
        else (case machine_engine_info B (xr_backend r) of (ok, info) \<Rightarrow>
          (if \<not> ok then (False, out)
           else (True, Some (i\<lparr>xi_engine_mode := (if bi_engine info = BLINK_GEM_ENGINE_JIT then GEM_X86_64_ENGINE_JIT else GEM_X86_64_ENGINE_INTERPRETER),
                  xi_host_arch := (if bi_host_arch info = BLINK_GEM_HOST_AARCH64 then 1 else 0),
                  xi_jit_compilations := bi_jit_compilations info, xi_jit_executions := bi_jit_executions info,
                  xi_jit_failures := bi_jit_failures info, xi_write_xor_execute := bi_write_xor_execute info, xi_reserved := 0\<rparr>)))))
    | _ \<Rightarrow> (False, out))"

definition gem_x64_blink_invalidate_code :: "('b, x64_world) blink \<Rightarrow> 'b gem_x64_runtime option \<Rightarrow> u64 \<Rightarrow> u64
    \<Rightarrow> bool \<times> 'b gem_x64_runtime option" where
  "gem_x64_blink_invalidate_code B ro a n = (case ro of
      None \<Rightarrow> (False, None)
    | Some r \<Rightarrow> (case machine_invalidate_code B (xr_backend r) a n of (ok, b) \<Rightarrow> (ok, Some (r\<lparr>xr_backend := b\<rparr>))))"

section \<open>The handler trace\<close>

definition gem_x64_runtime_handler_trace_reset :: "('b, x64_world) blink \<Rightarrow> 'b gem_x64_runtime option \<Rightarrow> 'b gem_x64_runtime option" where
  "gem_x64_runtime_handler_trace_reset B ro = map_option (\<lambda>r. r\<lparr>xr_backend := machine_trace_reset B (xr_backend r)\<rparr>) ro"

text \<open>The flags say which of the two results the caller asks for.\<close>

definition gem_x64_runtime_handler_trace_info :: "('b, x64_world) blink \<Rightarrow> 'b gem_x64_runtime option \<Rightarrow> bool \<Rightarrow> bool \<Rightarrow> bool \<times> u32 option \<times> u32 option" where
  "gem_x64_runtime_handler_trace_info B ro count overflowed =
    (case Option.bind ro (\<lambda>r. machine_trace_info B (xr_backend r)) of
       None \<Rightarrow> (False, None, None)
     | Some (n, f) \<Rightarrow> (True, if count then Some n else None, if overflowed then Some f else None))"

definition gem_x64_runtime_handler_trace_read :: "('b, x64_world) blink \<Rightarrow> 'b gem_x64_runtime option \<Rightarrow> size_t \<Rightarrow> bool \<Rightarrow> bool
    \<Rightarrow> bool \<times> u64 option \<times> u32 option" where
  "gem_x64_runtime_handler_trace_read B ro i wants_rip wants_id =
    (case Option.bind ro (\<lambda>r. machine_trace_read B (xr_backend r) i) of
       None \<Rightarrow> (False, None, None)
     | Some (p, h) \<Rightarrow> (True, if wants_rip then Some p else None, if wants_id then Some h else None))"

definition gem_x64_runtime_handler_name :: "('b, x64_world) blink \<Rightarrow> u32 \<Rightarrow> string" where
  "gem_x64_runtime_handler_name B h = handler_name B h"

definition gem_x64_runtime_decode_attempt_info :: "('b, x64_world) blink \<Rightarrow> 'b gem_x64_runtime option \<Rightarrow> blink_gem_decode_attempt option
    \<Rightarrow> bool \<times> blink_gem_decode_attempt option" where
  "gem_x64_runtime_decode_attempt_info B ro out = (case (ro, out) of
      (Some r, Some a) \<Rightarrow>
       (if at_abi_version a \<noteq> BLINK_GEM_DECODE_ATTEMPT_ABI_VERSION \<or> at_size a \<noteq> BLINK_GEM_DECODE_ATTEMPT_SIZE then (False, out)
        else (case machine_decode_attempt_info B (xr_backend r) of (ok, probe) \<Rightarrow> (if ok then (True, Some probe) else (False, out))))
    | _ \<Rightarrow> (False, out))"

section \<open>Creation\<close>

definition boundary_status :: "gem_x64_runtime_config \<Rightarrow> u64 \<Rightarrow> u32" where
  "boundary_status c p =
    (if xf_windows_syscall_boundary c \<noteq> 0 \<and> p = xf_windows_syscall_boundary c then GEM_X64_BOUNDARY_WINDOWS_SYSCALL
     else if xf_unix_call_boundary c \<noteq> 0 \<and> p = xf_unix_call_boundary c then GEM_X64_BOUNDARY_UNIX_CALL else 0)"

definition x64_config_default :: gem_x64_runtime_config where
  "x64_config_default = \<lparr>xf_host_return_sentinel = 0, xf_max_budget = 0, xf_windows_syscall_boundary = 0, xf_unix_call_boundary = 0,
     xf_engine_mode = 0, xf_reserved = 0\<rparr>"

text \<open>\<open>ok\<close> says whether \<open>calloc\<close> succeeds.\<close>

definition gem_x64_runtime_create :: "('b, x64_world) blink \<Rightarrow> bool \<Rightarrow> gem_memory option \<Rightarrow> gem_x64_runtime_config option
    \<Rightarrow> 'b gem_x64_runtime option" where
  "gem_x64_runtime_create B ok mo co =
    (if mo = None \<or> \<not> ok then None
     else (let c = (case co of None \<Rightarrow> x64_config_default | Some c \<Rightarrow> c)
       in if xf_reserved c \<noteq> 0 \<or> (xf_engine_mode c \<noteq> GEM_X86_64_ENGINE_DEFAULT \<and> xf_engine_mode c \<noteq> GEM_X86_64_ENGINE_JIT \<and>
             xf_engine_mode c \<noteq> GEM_X86_64_ENGINE_INTERPRETER) then None
       else (let c = (if xf_engine_mode c = GEM_X86_64_ENGINE_DEFAULT then c\<lparr>xf_engine_mode := GEM_X86_64_ENGINE_JIT\<rparr> else c);
                 c = (if xf_host_return_sentinel c = 0 then c\<lparr>xf_host_return_sentinel := GEM_X64_DEFAULT_HOST_RETURN_SENTINEL\<rparr> else c)
         in if (xf_windows_syscall_boundary c \<noteq> 0 \<and> xf_windows_syscall_boundary c = xf_host_return_sentinel c) \<or>
               (xf_unix_call_boundary c \<noteq> 0 \<and> xf_unix_call_boundary c = xf_host_return_sentinel c) \<or>
               (xf_windows_syscall_boundary c \<noteq> 0 \<and> xf_unix_call_boundary c \<noteq> 0 \<and> xf_windows_syscall_boundary c = xf_unix_call_boundary c)
            then None
            else (case gem_x64_blink_create B c of
               None \<Rightarrow> None
             | Some b \<Rightarrow> Some \<lparr>xr_config = c, xr_last_stop = zero_stop, xr_backend = b, xr_transaction = None, xr_running = False,
                 xr_last_instruction_was_call = False, xr_last_instruction_was_ret = False, xr_backend_failed = False,
                 xr_async_stop_requested = False\<rparr>))))"

section \<open>Running\<close>

text \<open>
  The loop of \<open>gem_x64_runtime_run\<close> with \<open>left = budget - retired\<close> iterations to go and \<open>n = retired\<close>. \<open>arrivals\<close>
  are the requests of other threads, \<open>begins\<close> the allocations of transactions that succeed. The result
  is the reason the loop ends with, the instructions retired, runtime, memory and context.
\<close>

record x64_environment =
  arrivals :: "nat \<Rightarrow> bool"
  begins :: "nat \<Rightarrow> bool"

text \<open>The body of the loop: it ends with a reason, or goes on with another view and context.\<close>

type_synonym 'b x64_result = "gem_stop_reason \<times> nat \<times> 'b gem_x64_runtime \<times> gem_memory \<times> gem_thread_context"

definition x64_iteration :: "('b, x64_world) blink \<Rightarrow> x64_environment \<Rightarrow> nat \<Rightarrow> 'b gem_x64_runtime \<Rightarrow> gem_memory
    \<Rightarrow> gem_x64_context \<Rightarrow> gem_thread_context \<Rightarrow> 'b x64_result + 'b gem_x64_runtime \<times> gem_memory \<times> gem_x64_context \<times> gem_thread_context" where
  "x64_iteration B E n r m inp c =
    (if rip inp = xf_host_return_sentinel (xr_config r) then Inl (GEM_STOP_HOST_RETURN, n, r, m, c)
     else (let requested = xr_async_stop_requested r \<or> arrivals E n; r = r\<lparr>xr_async_stop_requested := False\<rparr>
     in if requested then Inl (GEM_STOP_ASYNC_REQUEST, n, r, m, c)
     else (let boundary = boundary_status (xr_config r) (rip inp)
     in if boundary \<noteq> 0 then Inl (GEM_STOP_SYSCALL, n, r\<lparr>xr_last_stop := (xr_last_stop r)\<lparr>xs_engine_status := boundary\<rparr>\<rparr>, m, c)
     else (case gem_memory_transaction_begin (begins E n) (Some m) of
        None \<Rightarrow> Inl (GEM_STOP_INVARIANT_VIOLATION, n, r, m, c)
      | Some t \<Rightarrow>
         (case gem_x64_blink_step B (r\<lparr>xr_transaction := Some t\<rparr>) m inp of
           (reason, out, one, r, m) \<Rightarrow>
            (let m = gem_memory_transaction_end (xr_transaction r) m; r = r\<lparr>xr_transaction := None\<rparr>
             in if reason \<noteq> GEM_STOP_NONE then Inl (reason, n, r, m, c)
             else (case out of
                None \<Rightarrow> Inl (GEM_STOP_INVARIANT_VIOLATION, n, r, m, c)
              | Some out \<Rightarrow>
                 (if one \<noteq> 1 then Inl (GEM_STOP_INVARIANT_VIOLATION, n, r, m, c)
                  else (case gem_context_x64_commit out c of
                     None \<Rightarrow> Inl (GEM_STOP_INVARIANT_VIOLATION, n, r, m, c)
                   | Some c \<Rightarrow>
                      (if pc c = xf_host_return_sentinel (xr_config r) then Inl (GEM_STOP_HOST_RETURN, n + 1, r, m, c)
                       else Inr (r, m, out, c)))))))))))"

fun x64_loop :: "('b, x64_world) blink \<Rightarrow> x64_environment \<Rightarrow> nat \<Rightarrow> nat \<Rightarrow> gem_stop_reason \<Rightarrow> 'b gem_x64_runtime \<Rightarrow> gem_memory
    \<Rightarrow> gem_x64_context \<Rightarrow> gem_thread_context \<Rightarrow> 'b x64_result" where
  "x64_loop B E 0 n reason r m inp c = (reason, n, r, m, c)"
| "x64_loop B E (Suc left) n reason r m inp c = (case x64_iteration B E n r m inp c of
      Inl result \<Rightarrow> result
    | Inr (r, m, inp, c) \<Rightarrow> x64_loop B E left (n + 1) GEM_STOP_NONE r m inp c)"

text \<open>A null runtime leaves everything as it is; the context may be null too.\<close>

definition gem_x64_runtime_run :: "('b, x64_world) blink \<Rightarrow> x64_environment \<Rightarrow> 'b gem_x64_runtime option \<Rightarrow> gem_memory
    \<Rightarrow> gem_thread_context option \<Rightarrow> u64 \<Rightarrow> gem_stop_reason \<times> 'b gem_x64_runtime option \<times> gem_memory \<times> gem_thread_context option" where
  "gem_x64_runtime_run B E ro m co budget = (case ro of
      None \<Rightarrow> (GEM_STOP_INVARIANT_VIOLATION, None, m, co)
    | Some r \<Rightarrow>
       (let r = r\<lparr>xr_last_stop := zero_stop, xr_last_instruction_was_call := False, xr_last_instruction_was_ret := False\<rparr>;
            view = (if xr_running r \<or> xr_backend_failed r then None
                    else case co of None \<Rightarrow> None | Some c \<Rightarrow> map_option (Pair c) (gem_context_x64_materialize c))
        in (case view of
           None \<Rightarrow> (GEM_STOP_INVARIANT_VIOLATION, Some (r\<lparr>xr_last_stop := (xr_last_stop r)\<lparr>xs_reason := GEM_STOP_INVARIANT_VIOLATION\<rparr>\<rparr>), m, co)
         | Some (c, inp) \<Rightarrow>
            (if xf_max_budget (xr_config r) \<noteq> 0 \<and> budget > xf_max_budget (xr_config r)
             then (GEM_STOP_INVARIANT_VIOLATION, Some (r\<lparr>xr_last_stop := (xr_last_stop r)\<lparr>xs_reason := GEM_STOP_INVARIANT_VIOLATION\<rparr>\<rparr>), m, co)
             else if budget = 0
             then (GEM_STOP_BUDGET_EXPIRED, Some (r\<lparr>xr_last_stop := (xr_last_stop r)\<lparr>xs_reason := GEM_STOP_BUDGET_EXPIRED\<rparr>\<rparr>), m,
               Some (c\<lparr>stop_reason := stop_code GEM_STOP_BUDGET_EXPIRED\<rparr>))
             else (case x64_loop B E (unat budget) 0 GEM_STOP_BUDGET_EXPIRED (r\<lparr>xr_running := True\<rparr>) m inp c of
               (reason, n, r, m, c) \<Rightarrow>
                (let reason = (if reason = GEM_STOP_NONE then GEM_STOP_BUDGET_EXPIRED else reason)
                 in (reason, Some (r\<lparr>xr_running := False, xr_last_stop := (xr_last_stop r)\<lparr>xs_reason := reason,
                        xs_instructions_retired := of_nat n\<rparr>\<rparr>), m,
                     Some (if reason \<noteq> GEM_STOP_INVARIANT_VIOLATION then c\<lparr>stop_reason := stop_code reason\<rparr> else c))))))))"

section \<open>Queries and requests\<close>

definition gem_x64_runtime_last_stop_info :: "'b gem_x64_runtime option \<Rightarrow> gem_x64_stop_info option \<Rightarrow> bool \<times> gem_x64_stop_info option" where
  "gem_x64_runtime_last_stop_info ro out = (case (ro, out) of (Some r, Some _) \<Rightarrow> (True, Some (xr_last_stop r)) | _ \<Rightarrow> (False, out))"

definition gem_x64_runtime_engine_info where "gem_x64_runtime_engine_info = gem_x64_blink_engine_info"

definition gem_x64_runtime_last_instruction_was_call :: "'b gem_x64_runtime option \<Rightarrow> bool" where
  "gem_x64_runtime_last_instruction_was_call ro = (case ro of
      None \<Rightarrow> False | Some r \<Rightarrow> xs_instructions_retired (xr_last_stop r) \<noteq> 0 \<and> xr_last_instruction_was_call r)"

definition gem_x64_runtime_last_instruction_was_ret :: "'b gem_x64_runtime option \<Rightarrow> bool" where
  "gem_x64_runtime_last_instruction_was_ret ro = (case ro of
      None \<Rightarrow> False | Some r \<Rightarrow> xs_instructions_retired (xr_last_stop r) \<noteq> 0 \<and> xr_last_instruction_was_ret r)"

definition gem_x64_runtime_invalidate_code :: "('b, x64_world) blink \<Rightarrow> 'b gem_x64_runtime option \<Rightarrow> u64 \<Rightarrow> u64 \<Rightarrow> 'b gem_x64_runtime option" where
  "gem_x64_runtime_invalidate_code B ro a n = (case ro of
      None \<Rightarrow> None
    | Some r \<Rightarrow>
       (if xr_running r then Some (r\<lparr>xr_backend_failed := True\<rparr>)
        else (case gem_x64_blink_invalidate_code B (Some r) a n of
           (ok, ro') \<Rightarrow> (if ok then ro' else map_option (\<lambda>r. r\<lparr>xr_backend_failed := True\<rparr>) ro'))))"

definition gem_x64_runtime_request_async_stop :: "'b gem_x64_runtime option \<Rightarrow> 'b gem_x64_runtime option" where
  "gem_x64_runtime_request_async_stop ro = map_option (\<lambda>r. r\<lparr>xr_async_stop_requested := True\<rparr>) ro"

definition gem_x64_runtime_engine_name :: "'b gem_x64_runtime option \<Rightarrow> string" where
  "gem_x64_runtime_engine_name ro = (case ro of
      None \<Rightarrow> ''unavailable''
    | Some r \<Rightarrow> (if xf_engine_mode (xr_config r) = GEM_X86_64_ENGINE_JIT then ''GEM_x86_64 Blink AArch64 JIT''
        else ''GEM_x86_64 Blink interpreter oracle''))"

end
