(* ===== verification/Gem_X64_Engine_Props.thy ===== *)
theory Gem_X64_Engine_Props
  imports Gem_X64_Engine
begin

text \<open>
  Correctness of the x64 engine's run loop: what a budget slice may change, and that running in slices
  is running at once.
\<close>

section \<open>What a run depends on\<close>

text \<open>The runtime without its diagnostics.\<close>

definition core :: "'b gem_x64_runtime \<Rightarrow> gem_x64_runtime_config \<times> 'b \<times> gem_memory_transaction option \<times> bool \<times> bool" where
  "core r = (xr_config r, xr_backend r, xr_transaction r, xr_backend_failed r, xr_async_stop_requested r)"

lemma core_eq:
  "core r = core s \<longleftrightarrow> xr_config r = xr_config s \<and> xr_backend r = xr_backend s \<and> xr_transaction r = xr_transaction s \<and>
     xr_backend_failed r = xr_backend_failed s \<and> xr_async_stop_requested r = xr_async_stop_requested s"
  by (auto simp: core_def)

text \<open>What Blink's result makes of a step, apart from the runtime.\<close>

definition step_reason :: "('b, x64_world) blink \<Rightarrow> blink_gem_result \<Rightarrow> 'b \<Rightarrow> gem_stop_reason" where
  "step_reason B br b = (case br_outcome br of
      BLINK_GEM_RETIRED \<Rightarrow> (if br_retired br = 1 then GEM_STOP_NONE else GEM_STOP_INVARIANT_VIOLATION)
    | BLINK_GEM_MEMORY_FAULT \<Rightarrow> GEM_STOP_MEMORY_FAULT
    | BLINK_GEM_UNSUPPORTED \<Rightarrow> (case machine_decode_attempt_info B b of (ok, attempt) \<Rightarrow>
        (if ok \<and> at_valid attempt \<and> at_name attempt = ''OpInterrupt3'' then GEM_STOP_WINDOWS_EXCEPTION
         else if at_valid attempt \<and> at_name attempt = ''OpSyscall'' then GEM_STOP_SYSCALL else GEM_STOP_UNSUPPORTED_INSTRUCTION))
    | _ \<Rightarrow> GEM_STOP_INVARIANT_VIOLATION)"

lemma blink_step_result:
  assumes "machine_step B (xr_backend r) (x64_import inp) (xr_transaction r, m) = (br, bo, b, t, m')"
  obtains r' where "gem_x64_blink_step B r m inp =
      (step_reason B br b, if br_outcome br = BLINK_GEM_RETIRED then Some (x64_export bo) else None, br_retired br, r', m')"
    and "core r' = (xr_config r, b, t, xr_backend_failed r, xr_async_stop_requested r)" and "xr_running r' = xr_running r"
proof -
  obtain ok attempt where a: "machine_decode_attempt_info B b = (ok, attempt)" by fastforce
  obtain e out one r' m2 where st: "gem_x64_blink_step B r m inp = (e, out, one, r', m2)" by (metis prod_cases5)
  have "e = step_reason B br b \<and> out = (if br_outcome br = BLINK_GEM_RETIRED then Some (x64_export bo) else None) \<and> one = br_retired br \<and>
      m2 = m' \<and> core r' = (xr_config r, b, t, xr_backend_failed r, xr_async_stop_requested r) \<and> xr_running r' = xr_running r"
    using st by (cases "br_outcome br")
      (auto simp: gem_x64_blink_step_def step_reason_def assms a core_def Let_def split: if_splits)
  then show thesis using st that by blast
qed

text \<open>A step only looks at the core of the runtime and never ends with the status of an exhausted budget.\<close>

lemma blink_step_core:
  assumes "core r' = core r" and "gem_x64_blink_step B r m inp = (e, out, one, r1, m1)"
  shows "\<exists>r1'. gem_x64_blink_step B r' m inp = (e, out, one, r1', m1) \<and> core r1' = core r1"
proof -
  obtain br bo b t m' where ms: "machine_step B (xr_backend r) (x64_import inp) (xr_transaction r, m) = (br, bo, b, t, m')" by (metis prod_cases5)
  have ms': "machine_step B (xr_backend r') (x64_import inp) (xr_transaction r', m) = (br, bo, b, t, m')" using ms assms(1) by (simp add: core_eq)
  obtain r2 where r2: "gem_x64_blink_step B r m inp = (step_reason B br b, if br_outcome br = BLINK_GEM_RETIRED then Some (x64_export bo) else None,
      br_retired br, r2, m')" "core r2 = (xr_config r, b, t, xr_backend_failed r, xr_async_stop_requested r)"
    by (rule blink_step_result [OF ms])
  obtain r3 where r3: "gem_x64_blink_step B r' m inp = (step_reason B br b, if br_outcome br = BLINK_GEM_RETIRED then Some (x64_export bo) else None,
      br_retired br, r3, m')" "core r3 = (xr_config r', b, t, xr_backend_failed r', xr_async_stop_requested r')"
    by (rule blink_step_result [OF ms'])
  have "core r3 = core r2" using r2(2) r3(2) assms(1) by (simp add: core_eq)
  then show ?thesis using r2(1) r3(1) assms(2) by simp
qed

lemma blink_step_facts:
  assumes "gem_x64_blink_step B r m inp = (e, out, one, r1, m1)"
  shows "e \<noteq> GEM_STOP_BUDGET_EXPIRED" and "xr_config r1 = xr_config r" and "xr_running r1 = xr_running r"
    and "xr_backend_failed r1 = xr_backend_failed r" and "xr_async_stop_requested r1 = xr_async_stop_requested r"
proof -
  obtain br bo b t m' where ms: "machine_step B (xr_backend r) (x64_import inp) (xr_transaction r, m) = (br, bo, b, t, m')" by (metis prod_cases5)
  obtain r2 where r2: "gem_x64_blink_step B r m inp = (step_reason B br b, if br_outcome br = BLINK_GEM_RETIRED then Some (x64_export bo) else None,
      br_retired br, r2, m')" "core r2 = (xr_config r, b, t, xr_backend_failed r, xr_async_stop_requested r)" "xr_running r2 = xr_running r"
    by (rule blink_step_result [OF ms])
  have "step_reason B br b \<noteq> GEM_STOP_BUDGET_EXPIRED" by (simp add: step_reason_def split: blink_gem_outcome.split prod.split)
  then show "e \<noteq> GEM_STOP_BUDGET_EXPIRED" using assms r2(1) by simp
  show "xr_config r1 = xr_config r" "xr_running r1 = xr_running r" "xr_backend_failed r1 = xr_backend_failed r"
      "xr_async_stop_requested r1 = xr_async_stop_requested r"
    using assms r2 by (simp_all add: core_def)
qed

section \<open>Contexts up to the stop reason\<close>

lemma valid_stop_reason [simp]: "gem_context_is_valid (c\<lparr>stop_reason := s\<rparr>) = gem_context_is_valid c"
  by (simp add: gem_context_is_valid_def)

lemma commit_stop_reason:
  "gem_context_x64_commit out (c\<lparr>stop_reason := s\<rparr>) = map_option (\<lambda>d. d\<lparr>stop_reason := s\<rparr>) (gem_context_x64_commit out c)"
  by (simp add: gem_context_x64_commit_def store_gprs_def Let_def gem_context_is_valid_def)

lemma materialize_stop_reason: "gem_context_x64_materialize (c\<lparr>stop_reason := s\<rparr>) = gem_context_x64_materialize c"
  by (simp add: gem_context_x64_materialize_def x64_gprs_def)

section \<open>One iteration\<close>

text \<open>The environment as seen after \<open>k\<close> instructions.\<close>

definition later :: "nat \<Rightarrow> x64_environment \<Rightarrow> x64_environment" where
  "later k E = \<lparr>arrivals = (\<lambda>n. arrivals E (k + n)), begins = (\<lambda>n. begins E (k + n))\<rparr>"

lemma later_simps [simp]: "arrivals (later k E) n = arrivals E (k + n)" "begins (later k E) n = begins E (k + n)"
  by (simp_all add: later_def)

text \<open>Two iterations that differ in the diagnostics, the stop reason of the context and the count of instructions.\<close>

fun related :: "nat \<Rightarrow> u32 \<Rightarrow> 'b x64_result + 'b gem_x64_runtime \<times> gem_memory \<times> gem_x64_context \<times> gem_thread_context
    \<Rightarrow> 'b x64_result + 'b gem_x64_runtime \<times> gem_memory \<times> gem_x64_context \<times> gem_thread_context \<Rightarrow> bool" where
  "related k s (Inl (e, n, r, m, c)) (Inl (e', n', r', m', c')) \<longleftrightarrow> e' = e \<and> n = k + n' \<and> core r' = core r \<and> m' = m \<and> c' = c\<lparr>stop_reason := s\<rparr>"
| "related k s (Inr (r, m, i, c)) (Inr (r', m', i', c')) \<longleftrightarrow> core r' = core r \<and> m' = m \<and> i' = i \<and> c' = c\<lparr>stop_reason := s\<rparr>"
| "related k s _ _ \<longleftrightarrow> False"

lemma iteration_related:
  assumes "core r' = core r"
  shows "related k s (x64_iteration B E (k + n) r m inp c) (x64_iteration B (later k E) n r' m inp (c\<lparr>stop_reason := s\<rparr>))"
proof -
  let ?r = "r\<lparr>xr_async_stop_requested := False\<rparr>" and ?r' = "r'\<lparr>xr_async_stop_requested := False\<rparr>"
  note c = assms [unfolded core_eq]
  obtain e out one r1 m1 where st: "gem_x64_blink_step B (?r\<lparr>xr_transaction := Some \<lparr>tx_pages = []\<rparr>\<rparr>) m inp = (e, out, one, r1, m1)"
    by (metis prod_cases5)
  have "core (?r'\<lparr>xr_transaction := Some \<lparr>tx_pages = []\<rparr>\<rparr>) = core (?r\<lparr>xr_transaction := Some \<lparr>tx_pages = []\<rparr>\<rparr>)" using c by (simp add: core_eq)
  from blink_step_core [OF this st] obtain r1' where
    st': "gem_x64_blink_step B (?r'\<lparr>xr_transaction := Some \<lparr>tx_pages = []\<rparr>\<rparr>) m inp = (e, out, one, r1', m1)" and c1: "core r1' = core r1" by blast
  show ?thesis
    using c c1 st st' unfolding x64_iteration_def Let_def gem_memory_transaction_begin_def
    by (cases out; cases "gem_context_x64_commit (the out) c") (simp_all add: core_eq commit_stop_reason)
qed

lemma iteration_Inl:
  assumes "x64_iteration B E n r m inp c = Inl (e, n1, r1, m1, c1)"
  shows "e \<noteq> GEM_STOP_NONE" and "e \<noteq> GEM_STOP_BUDGET_EXPIRED" and "n \<le> n1" and "n1 \<le> Suc n"
proof -
  let ?r = "r\<lparr>xr_async_stop_requested := False, xr_transaction := Some \<lparr>tx_pages = []\<rparr>\<rparr>"
  obtain f out one r2 m2 where st: "gem_x64_blink_step B ?r m inp = (f, out, one, r2, m2)" by (metis prod_cases5)
  note b = blink_step_facts(1) [OF st]
  have "e \<noteq> GEM_STOP_NONE \<and> e \<noteq> GEM_STOP_BUDGET_EXPIRED \<and> n \<le> n1 \<and> n1 \<le> Suc n"
    using assms st b unfolding x64_iteration_def Let_def gem_memory_transaction_begin_def
    by (cases out; cases "gem_context_x64_commit (the out) c") (auto split: if_split_asm)
  then show "e \<noteq> GEM_STOP_NONE" "e \<noteq> GEM_STOP_BUDGET_EXPIRED" "n \<le> n1" "n1 \<le> Suc n" by simp_all
qed

text \<open>Blink's states keep the array lengths of their C type.\<close>

definition machine_shaped :: "('b, 'w) blink \<Rightarrow> bool" where
  "machine_shaped B \<longleftrightarrow> (\<forall>b s w r s' b' w'. machine_step B b s w = (r, s', b', w') \<longrightarrow> state_shape s \<longrightarrow> state_shape s')"

text \<open>Between two iterations the view is the context's.\<close>

definition in_step :: "gem_thread_context \<Rightarrow> gem_x64_context \<Rightarrow> bool" where
  "in_step c inp \<longleftrightarrow> gem_context_shape c \<and> gem_context_x64_materialize c = Some inp"

lemma in_step_facts:
  assumes "in_step c inp"
  shows "gem_context_is_valid c" and "isa c = isa_code GEM_ISA_X64" and "gem_context_shape c" and "state_shape (x64_import inp)"
  using assms by (auto simp: in_step_def gem_context_x64_materialize_def gem_context_shape_def state_shape_def x64_import_def blank_state_def
      x64_gprs_def split: if_splits)

lemma commit_in_step:
  assumes d: "gem_context_is_valid d" "isa d = isa_code GEM_ISA_X64" "gem_context_shape d" and s: "x64_shape s"
    and "gem_context_x64_commit s d = Some c"
  shows "in_step c s"
proof -
  have c: "c = committed s d" using assms(5) by (simp add: commit_eq [OF d] split: if_splits)
  have v: "gem_context_is_valid c" using committed_valid [OF d(1,3), of s] c by simp
  have "x64_gprs c = gpr s" using d(3) s c by (simp add: x64_gprs_committed gem_context_shape_def x64_shape_def)
  moreover have "xc_teb s = teb d" using assms(5) by (simp add: commit_eq [OF d] split: if_splits)
  ultimately show ?thesis using v d s unfolding in_step_def gem_context_x64_materialize_def c
    by (simp add: committed_def Let_def store_gprs_def gem_context_shape_def x64_shape_def)
qed

lemma iteration_Inr:
  assumes B: "machine_shaped B" and inv: "in_step c inp" and it: "x64_iteration B E n r m inp c = Inr (r1, m1, out, c1)"
  shows "in_step c1 out"
proof -
  let ?r = "r\<lparr>xr_async_stop_requested := False, xr_transaction := Some \<lparr>tx_pages = []\<rparr>\<rparr>"
  obtain br bo b t m' where ms: "machine_step B (xr_backend ?r) (x64_import inp) (xr_transaction ?r, m) = (br, bo, b, t, m')" by (metis prod_cases5)
  obtain r2 where r2: "gem_x64_blink_step B ?r m inp = (step_reason B br b, if br_outcome br = BLINK_GEM_RETIRED then Some (x64_export bo) else None,
      br_retired br, r2, m')"
    by (rule blink_step_result [OF ms])
  have "gem_context_x64_commit out c = Some c1 \<and> out = x64_export bo"
    using it r2 unfolding x64_iteration_def Let_def gem_memory_transaction_begin_def
    by (auto split: if_split_asm option.split_asm)
  moreover have "state_shape bo" by (rule B [unfolded machine_shaped_def, rule_format, OF ms in_step_facts(4) [OF inv]])
  then have "x64_shape (x64_export bo)" by (simp add: state_shape_def x64_shape_def x64_export_def)
  ultimately show ?thesis using commit_in_step [OF in_step_facts(1-3) [OF inv]] by blast
qed

section \<open>The loop\<close>

lemma loop_related:
  assumes "core r' = core r" and "x64_loop B E left (k + n) e r m inp c = (e1, n1, r1, m1, c1)"
  shows "\<exists>r1'. x64_loop B (later k E) left n e r' m inp (c\<lparr>stop_reason := s\<rparr>) = (e1, n1 - k, r1', m1, c1\<lparr>stop_reason := s\<rparr>) \<and>
    core r1' = core r1 \<and> k \<le> n1"
  using assms
proof (induction left arbitrary: n e r r' m inp c)
  case (Suc left)
  note rel = iteration_related [OF Suc.prems(1), of k s B E n m inp c]
  show ?case
  proof (cases "x64_iteration B E (k + n) r m inp c")
    case (Inl x)
    then show ?thesis using rel Suc.prems(2)
      by (cases x; cases "x64_iteration B (later k E) n r' m inp (c\<lparr>stop_reason := s\<rparr>)") auto
  next
    case (Inr x)
    obtain r2 m2 i2 c2 where x: "x = (r2, m2, i2, c2)" by (metis prod_cases4)
    obtain r2' where r2': "x64_iteration B (later k E) n r' m inp (c\<lparr>stop_reason := s\<rparr>) = Inr (r2', m2, i2, c2\<lparr>stop_reason := s\<rparr>)" "core r2' = core r2"
      using rel Inr x by (cases "x64_iteration B (later k E) n r' m inp (c\<lparr>stop_reason := s\<rparr>)") auto
    have "x64_loop B E left (k + (n + 1)) GEM_STOP_NONE r2 m2 i2 c2 = (e1, n1, r1, m1, c1)" using Suc.prems(2) Inr x by simp
    from Suc.IH [OF r2'(2) this] show ?thesis using r2'(1) by simp
  qed
qed auto

lemma loop_append:
  assumes B: "machine_shaped B" and "in_step c inp" and "x64_loop B E a n GEM_STOP_NONE r m inp c = (GEM_STOP_NONE, n1, r1, m1, c1)"
  shows "n1 = n + a \<and> (\<exists>inp1. in_step c1 inp1 \<and>
    x64_loop B E (a + b) n GEM_STOP_NONE r m inp c = x64_loop B E b (n + a) GEM_STOP_NONE r1 m1 inp1 c1)"
  using assms(2,3)
proof (induction a arbitrary: n r m inp c)
  case (Suc a)
  show ?case
  proof (cases "x64_iteration B E n r m inp c")
    case (Inl x)
    then show ?thesis using Suc.prems(2) iteration_Inl(1) by (cases x) fastforce
  next
    case (Inr x)
    obtain r2 m2 i2 c2 where x: "x = (r2, m2, i2, c2)" by (metis prod_cases4)
    have "in_step c2 i2" using iteration_Inr [OF B Suc.prems(1)] Inr x by blast
    moreover have "x64_loop B E a (n + 1) GEM_STOP_NONE r2 m2 i2 c2 = (GEM_STOP_NONE, n1, r1, m1, c1)" using Suc.prems(2) Inr x by simp
    ultimately show ?thesis using Suc.IH [of c2 i2 "n + 1" r2 m2] Inr x by simp
  qed
qed auto

lemma loop_reason: "left \<noteq> 0 \<Longrightarrow> x64_loop B E left n e r m inp c = x64_loop B E left n e' r m inp c"
  by (cases left) simp_all

lemma loop_facts:
  assumes "x64_loop B E left n GEM_STOP_NONE r m inp c = (e, n1, r1, m1, c1)"
  shows "e \<noteq> GEM_STOP_BUDGET_EXPIRED" and "n \<le> n1" and "n1 \<le> n + left"
proof -
  have "e \<noteq> GEM_STOP_BUDGET_EXPIRED \<and> n \<le> n1 \<and> n1 \<le> n + left" using assms
  proof (induction left arbitrary: n r m inp c)
    case (Suc left)
    then show ?case
    proof (cases "x64_iteration B E n r m inp c")
      case (Inl x)
      then show ?thesis using Suc.prems iteration_Inl(2-4) [of B E n r m inp c e n1 r1 m1 c1] by auto
    next
      case (Inr x)
      obtain r2 m2 i2 c2 where "x = (r2, m2, i2, c2)" by (metis prod_cases4)
      then show ?thesis using Suc.prems Inr Suc.IH [of "n + 1" r2 m2 i2 c2] by auto
    qed
  qed auto
  then show "e \<noteq> GEM_STOP_BUDGET_EXPIRED" "n \<le> n1" "n1 \<le> n + left" by simp_all
qed

text \<open>Neither the configuration nor the mark of a failed backend changes in a run.\<close>

fun settings :: "'b x64_result + 'b gem_x64_runtime \<times> gem_memory \<times> gem_x64_context \<times> gem_thread_context \<Rightarrow> gem_x64_runtime_config \<times> bool \<times> bool" where
  "settings (Inl (_, _, r, _, _)) = (xr_config r, xr_backend_failed r, xr_running r)"
| "settings (Inr (r, _, _, _)) = (xr_config r, xr_backend_failed r, xr_running r)"

lemma iteration_settings: "settings (x64_iteration B E n r m inp c) = (xr_config r, xr_backend_failed r, xr_running r)"
proof -
  let ?r = "r\<lparr>xr_async_stop_requested := False, xr_transaction := Some \<lparr>tx_pages = []\<rparr>\<rparr>"
  obtain f out one r2 m2 where st: "gem_x64_blink_step B ?r m inp = (f, out, one, r2, m2)" by (metis prod_cases5)
  have "xr_config r2 = xr_config r" "xr_backend_failed r2 = xr_backend_failed r" "xr_running r2 = xr_running r"
    using blink_step_facts(2-4) [OF st] by simp_all
  then show ?thesis using st unfolding x64_iteration_def Let_def gem_memory_transaction_begin_def
    by (cases out; cases "gem_context_x64_commit (the out) c") simp_all
qed

lemma loop_settings:
  "x64_loop B E left n e r m inp c = (e1, n1, r1, m1, c1) \<Longrightarrow>
    xr_config r1 = xr_config r \<and> xr_backend_failed r1 = xr_backend_failed r \<and> xr_running r1 = xr_running r"
proof (induction left arbitrary: n e r m inp c)
  case (Suc left)
  then show ?case using iteration_settings [of B E n r m inp c] by (cases "x64_iteration B E n r m inp c") fastforce+
qed auto

section \<open>A whole run\<close>

definition run_start :: "'b gem_x64_runtime \<Rightarrow> 'b gem_x64_runtime" where
  "run_start r = r\<lparr>xr_last_stop := zero_stop, xr_last_instruction_was_call := False, xr_last_instruction_was_ret := False\<rparr>"

definition run_stop :: "gem_stop_reason \<Rightarrow> nat \<Rightarrow> 'b gem_x64_runtime \<Rightarrow> 'b gem_x64_runtime" where
  "run_stop e n r = r\<lparr>xr_running := False, xr_last_stop := (xr_last_stop r)\<lparr>xs_reason := e, xs_instructions_retired := of_nat n\<rparr>\<rparr>"

definition final_reason :: "gem_stop_reason \<Rightarrow> gem_stop_reason" where
  "final_reason e = (if e = GEM_STOP_NONE then GEM_STOP_BUDGET_EXPIRED else e)"

definition final_context :: "gem_stop_reason \<Rightarrow> gem_thread_context \<Rightarrow> gem_thread_context" where
  "final_context e c = (if e \<noteq> GEM_STOP_INVARIANT_VIOLATION then c\<lparr>stop_reason := stop_code e\<rparr> else c)"

text \<open>When a run is let in.\<close>

definition run_accepted :: "'b gem_x64_runtime \<Rightarrow> gem_thread_context \<Rightarrow> u64 \<Rightarrow> bool" where
  "run_accepted r c budget \<longleftrightarrow> \<not> xr_running r \<and> \<not> xr_backend_failed r \<and> gem_context_x64_materialize c \<noteq> None \<and>
     (xf_max_budget (xr_config r) = 0 \<or> budget \<le> xf_max_budget (xr_config r))"

lemma run_start_simps [simp]:
  "core (run_start r) = core r" "xr_running (run_start r) = xr_running r" "xr_backend_failed (run_start r) = xr_backend_failed r"
  "xr_config (run_start r) = xr_config r" "core (run_stop e n r) = core r" "core (r\<lparr>xr_running := g\<rparr>) = core r"
  "xs_instructions_retired (xr_last_stop (run_stop e n r)) = of_nat n" "xr_running (run_stop e n r) = False"
  "xr_last_stop (run_start r) = zero_stop" "core (r\<lparr>xr_last_stop := l\<rparr>) = core r"
  by (simp_all add: run_start_def run_stop_def core_def)

lemma run_rejected:
  assumes "\<not> run_accepted r c budget"
  shows "fst (gem_x64_runtime_run B E (Some r) m (Some c) budget) = GEM_STOP_INVARIANT_VIOLATION"
  using assms unfolding gem_x64_runtime_run_def option.case run_start_def [symmetric] Let_def run_accepted_def
  by (auto split: option.split)

lemma run_zero:
  assumes "run_accepted r c 0"
  shows "gem_x64_runtime_run B E (Some r) m (Some c) 0 = (GEM_STOP_BUDGET_EXPIRED,
    Some ((run_start r)\<lparr>xr_last_stop := zero_stop\<lparr>xs_reason := GEM_STOP_BUDGET_EXPIRED\<rparr>\<rparr>), m, Some (c\<lparr>stop_reason := stop_code GEM_STOP_BUDGET_EXPIRED\<rparr>))"
  using assms unfolding gem_x64_runtime_run_def option.case run_start_def [symmetric] Let_def run_accepted_def by auto

lemma run_loop:
  assumes a: "run_accepted r c budget" "budget \<noteq> 0" and i: "gem_context_x64_materialize c = Some inp"
    and l: "x64_loop B E (unat budget) 0 GEM_STOP_NONE ((run_start r)\<lparr>xr_running := True\<rparr>) m inp c = (e, n, r1, m1, c1)"
  shows "gem_x64_runtime_run B E (Some r) m (Some c) budget =
    (final_reason e, Some (run_stop (final_reason e) n r1), m1, Some (final_context (final_reason e) c1))"
proof -
  have "unat budget \<noteq> 0" using a(2) by (simp add: unat_eq_zero)
  then have l': "x64_loop B E (unat budget) 0 GEM_STOP_BUDGET_EXPIRED ((run_start r)\<lparr>xr_running := True\<rparr>) m inp c = (e, n, r1, m1, c1)"
    using l loop_reason by metis
  have "xr_running r = False" "xr_backend_failed r = False" "\<not> (xf_max_budget (xr_config r) \<noteq> 0 \<and> budget > xf_max_budget (xr_config r))"
    using a(1) by (auto simp: run_accepted_def)
  then show ?thesis
    unfolding gem_x64_runtime_run_def option.case run_start_def [symmetric] Let_def run_start_simps i
    using a(2) l' by (auto simp: final_reason_def final_context_def run_stop_def)
qed

lemma unat_sum: "unat a + unat b < 2 ^ 64 \<Longrightarrow> unat ((a :: u64) + b) = unat a + unat b"
  by (simp add: unat_word_ariths)

lemma run_result:
  assumes a: "run_accepted r c budget" and i: "gem_context_x64_materialize c = Some inp"
    and l: "x64_loop B E (unat budget) 0 GEM_STOP_NONE ((run_start r)\<lparr>xr_running := True\<rparr>) m inp c = (e, n, r1, m1, c1)"
  shows "\<exists>r'. gem_x64_runtime_run B E (Some r) m (Some c) budget =
      (final_reason e, Some r', m1, Some (final_context (final_reason e) c1)) \<and>
    core r' = core r1 \<and> \<not> xr_running r' \<and> xs_instructions_retired (xr_last_stop r') = of_nat n"
proof (cases "budget = 0")
  case True
  then have l': "e = GEM_STOP_NONE" "n = 0" "r1 = (run_start r)\<lparr>xr_running := True\<rparr>" "m1 = m" "c1 = c" using l by simp_all
  have "\<not> xr_running r" using a by (simp add: run_accepted_def)
  then show ?thesis using run_zero [OF a [unfolded True], of B E m] True l'
    by (simp add: final_reason_def final_context_def zero_stop_def)
next
  case False
  show ?thesis using run_loop [OF a False i l] by simp
qed

lemma run_expired:
  assumes run: "gem_x64_runtime_run B E (Some r) m (Some c) budget = (GEM_STOP_BUDGET_EXPIRED, Some r1, m1, Some c1)"
  obtains inp n rA cA where "run_accepted r c budget" and "gem_context_x64_materialize c = Some inp"
    and "x64_loop B E (unat budget) 0 GEM_STOP_NONE ((run_start r)\<lparr>xr_running := True\<rparr>) m inp c = (GEM_STOP_NONE, n, rA, m1, cA)"
    and "c1 = cA\<lparr>stop_reason := stop_code GEM_STOP_BUDGET_EXPIRED\<rparr>" and "core r1 = core rA" and "\<not> xr_running r1"
proof -
  have acc: "run_accepted r c budget" using run_rejected [of r c budget B E m] run by fastforce
  then obtain inp where inp: "gem_context_x64_materialize c = Some inp" by (auto simp: run_accepted_def)
  obtain e n rA mA cA where l: "x64_loop B E (unat budget) 0 GEM_STOP_NONE ((run_start r)\<lparr>xr_running := True\<rparr>) m inp c = (e, n, rA, mA, cA)"
    by (metis prod_cases5)
  from run_result [OF acc inp l] run have
    r: "final_reason e = GEM_STOP_BUDGET_EXPIRED" "mA = m1" "c1 = final_context GEM_STOP_BUDGET_EXPIRED cA" "core r1 = core rA" "\<not> xr_running r1"
    by auto
  have "e = GEM_STOP_NONE" using r(1) loop_facts(1) [OF l] by (simp add: final_reason_def split: if_splits)
  then show thesis using that [OF acc inp] l r by (simp add: final_context_def)
qed

text \<open>
  (C27) Running in slices is running at once. When a run of \<open>a\<close> instructions ends because its budget is
  used up, and a second run continues with a budget of \<open>b\<close>, then a single run with budget \<open>a + b\<close> gives the
  reason, the memory, the machine and the thread context that the second run gives, and reports \<open>a\<close>
  instructions more. (An invariant violation does not write the stop reason of the context, so there
  the two contexts may differ in that field.) Requests to stop reach both at the same instruction.
\<close>

theorem x64_run_slices:
  assumes B: "machine_shaped B" and shape: "gem_context_shape c"
    and first: "gem_x64_runtime_run B E (Some r) m (Some c) a = (GEM_STOP_BUDGET_EXPIRED, Some r1, m1, Some c1)"
    and second: "gem_x64_runtime_run B (later (unat a) E) (Some r1) m1 (Some c1) b = (e, Some r2, m2, Some c2)"
    and fits: "unat a + unat b < 2 ^ 64" and limit: "xf_max_budget (xr_config r) = 0 \<or> a + b \<le> xf_max_budget (xr_config r)"
  shows "\<exists>r' c'. gem_x64_runtime_run B E (Some r) m (Some c) (a + b) = (e, Some r', m2, Some c') \<and> core r' = core r2 \<and>
    xs_instructions_retired (xr_last_stop r') = a + xs_instructions_retired (xr_last_stop r2) \<and>
    (c' = c2 \<or> e = GEM_STOP_INVARIANT_VIOLATION \<and> c2 = c'\<lparr>stop_reason := stop_code GEM_STOP_BUDGET_EXPIRED\<rparr>)"
proof -
  let ?s = "stop_code GEM_STOP_BUDGET_EXPIRED" and ?R = "(run_start r)\<lparr>xr_running := True\<rparr>"
  obtain inp n rA cA where acc: "run_accepted r c a" and inp: "gem_context_x64_materialize c = Some inp"
    and la: "x64_loop B E (unat a) 0 GEM_STOP_NONE ?R m inp c = (GEM_STOP_NONE, n, rA, m1, cA)"
    and c1: "c1 = cA\<lparr>stop_reason := ?s\<rparr>" and r1: "core r1 = core rA" "\<not> xr_running r1" by (rule run_expired [OF first])
  have "in_step c inp" using inp shape by (simp add: in_step_def)
  from loop_append [OF B this la] obtain inp1 where n: "n = unat a" and i1: "in_step cA inp1"
    and lab: "x64_loop B E (unat a + unat b) 0 GEM_STOP_NONE ?R m inp c = x64_loop B E (unat b) (unat a) GEM_STOP_NONE rA m1 inp1 cA" by auto
  obtain e' n' rC mC cC where lb: "x64_loop B E (unat b) (unat a + 0) GEM_STOP_NONE rA m1 inp1 cA = (e', n', rC, mC, cC)" by (metis prod_cases5)
  have "core ((run_start r1)\<lparr>xr_running := True\<rparr>) = core rA" by (simp add: r1(1))
  from loop_related [OF this lb] obtain rD where
    ld: "x64_loop B (later (unat a) E) (unat b) 0 GEM_STOP_NONE ((run_start r1)\<lparr>xr_running := True\<rparr>) m1 inp1 c1 = (e', n' - unat a, rD, mC, cC\<lparr>stop_reason := ?s\<rparr>)"
    and rD: "core rD = core rC" and le: "unat a \<le> n'" unfolding c1 by blast
  have cfg: "xr_config r1 = xr_config r" "\<not> xr_backend_failed r1" using loop_settings [OF la] r1(1) acc by (auto simp: core_eq run_accepted_def)
  have max: "xf_max_budget (xr_config r) = 0 \<or> b \<le> xf_max_budget (xr_config r)"
    using limit unat_sum [OF fits] by (auto simp: word_le_nat_alt)
  have acc2: "run_accepted r1 c1 b" using r1(2) max cfg i1 by (simp add: run_accepted_def c1 materialize_stop_reason in_step_def)
  have m1': "gem_context_x64_materialize c1 = Some inp1" using i1 by (simp add: c1 materialize_stop_reason in_step_def)
  from run_result [OF acc2 m1' ld] second have e: "e = final_reason e'" "m2 = mC" "c2 = final_context e (cC\<lparr>stop_reason := ?s\<rparr>)" "core r2 = core rC"
      "xs_instructions_retired (xr_last_stop r2) = of_nat (n' - unat a)" using rD by auto
  have acc3: "run_accepted r c (a + b)" using acc limit by (simp add: run_accepted_def)
  have "x64_loop B E (unat (a + b)) 0 GEM_STOP_NONE ?R m inp c = (e', n', rC, mC, cC)" using lab lb unat_sum [OF fits] by simp
  from run_result [OF acc3 inp this] obtain r' where
    run: "gem_x64_runtime_run B E (Some r) m (Some c) (a + b) = (e, Some r', m2, Some (final_context e cC))"
    and r': "core r' = core rC" "xs_instructions_retired (xr_last_stop r') = of_nat n'" using e by auto
  have "of_nat n' = a + of_nat (n' - unat a)" using le by (simp add: of_nat_diff)
  moreover have "final_context e cC = c2 \<or> e = GEM_STOP_INVARIANT_VIOLATION \<and> c2 = (final_context e cC)\<lparr>stop_reason := ?s\<rparr>"
    using e(3) by (simp add: final_context_def)
  ultimately show ?thesis using run r' e(4,5) by auto
qed

section \<open>An instance\<close>

text \<open>A machine whose only instruction goes to the next byte.\<close>

definition nop_blink :: "(unit, x64_world) blink" where
  "nop_blink = \<lparr>machine_create = (\<lambda>_ _. Some ()),
     machine_step = (\<lambda>b s w. (\<lparr>br_outcome = BLINK_GEM_RETIRED, br_retired = 1, br_fault_address = 0, br_access = 0, br_memory_error = 0,
       br_engine_status = 0\<rparr>, s\<lparr>bs_rip := bs_rip s + 1\<rparr>, b, w)),
     machine_run = (\<lambda>b q s w. (\<lparr>br_outcome = BLINK_GEM_INVALID, br_retired = 0, br_fault_address = 0, br_access = 0, br_memory_error = 0,
       br_engine_status = 0\<rparr>, s, b, w)),
     machine_sync = (\<lambda>b. b), machine_decode_attempt_info = (\<lambda>_. (True, \<lparr>at_abi_version = 1, at_size = 64, at_handler_id = 1, at_valid = True, at_name = ''OpNop''\<rparr>)),
     machine_engine_info = (\<lambda>_. (True, \<lparr>bi_engine = BLINK_GEM_ENGINE_JIT, bi_host_arch = BLINK_GEM_HOST_AARCH64, bi_jit_compilations = 0,
       bi_jit_executions = 0, bi_jit_failures = 0, bi_write_xor_execute = 1\<rparr>)),
     machine_invalidate_code = (\<lambda>b _ _. (True, b)), machine_trace_reset = (\<lambda>b. b), machine_trace_info = (\<lambda>_. Some (0, 0)),
     machine_trace_read = (\<lambda>_ _. None), handler_name = (\<lambda>_. ''OpUnknown'')\<rparr>"

definition nop_x64_runtime :: "unit gem_x64_runtime" where
  "nop_x64_runtime = \<lparr>xr_config = x64_config_default\<lparr>xf_engine_mode := GEM_X86_64_ENGINE_JIT,
       xf_host_return_sentinel := GEM_X64_DEFAULT_HOST_RETURN_SENTINEL\<rparr>, xr_last_stop = zero_stop, xr_backend = (), xr_transaction = None,
     xr_running = False, xr_last_instruction_was_call = False, xr_last_instruction_was_ret = False, xr_backend_failed = False,
     xr_async_stop_requested = False\<rparr>"

definition quiet :: x64_environment where "quiet = \<lparr>arrivals = (\<lambda>_. False), begins = (\<lambda>_. True)\<rparr>"

lemma nop_created: "gem_x64_runtime_create nop_blink True (Some m) None = Some nop_x64_runtime"
  by (simp add: gem_x64_runtime_create_def x64_config_default_def gem_x64_blink_create_def nop_blink_def nop_x64_runtime_def
      GEM_X86_64_ENGINE_DEFAULT_def GEM_X86_64_ENGINE_JIT_def GEM_X64_DEFAULT_HOST_RETURN_SENTINEL_def Let_def)

lemma commit_next:
  assumes "in_step c inp"
  shows "gem_context_x64_commit (inp\<lparr>rip := p\<rparr>) c = Some (c\<lparr>pc := p\<rparr>)"
proof -
  note f = in_step_facts [OF assms]
  have i: "inp = \<lparr>gpr = x64_gprs c, rip = pc c, rflags = x64_rflags c, mxcsr = x64_mxcsr c, fcw = x64_fcw c, fsw = x64_fsw c, xmm = v c,
      xc_x87 = x87 c, xc_teb = teb c\<rparr>"
    using assms by (simp add: in_step_def gem_context_x64_materialize_def split: if_splits)
  have "committed inp c = c" by (rule committed_own) (use f(1) in \<open>simp_all add: i gem_context_is_valid_def\<close>)
  moreover have "committed (inp\<lparr>rip := p\<rparr>) c = (committed inp c)\<lparr>pc := p\<rparr>" by (simp add: committed_def store_gprs_def Let_def)
  ultimately show ?thesis by (simp add: commit_eq [OF f(1-3)] i)
qed

lemma nop_run:
  assumes r: "core r = core nop_x64_runtime" "\<not> xr_running r" and c: "in_step c inp" and p: "rip inp < 0x140002000"
    and E: "arrivals E 0 = False" "begins E 0 = True"
  shows "\<exists>r'. gem_x64_runtime_run nop_blink E (Some r) m (Some c) 1 =
      (GEM_STOP_BUDGET_EXPIRED, Some r', m, Some (c\<lparr>pc := rip inp + 1, stop_reason := stop_code GEM_STOP_BUDGET_EXPIRED\<rparr>)) \<and>
    core r' = core nop_x64_runtime \<and> \<not> xr_running r'"
proof -
  let ?R = "(run_start r)\<lparr>xr_running := True\<rparr>"
  have cr: "xr_config r = xr_config nop_x64_runtime" "xr_backend_failed r = False" "xr_async_stop_requested r = False" "xr_backend r = ()"
      "xr_transaction r = None"
    using r(1) by (simp_all add: core_eq nop_x64_runtime_def)
  have ne: "rip inp \<noteq> GEM_X64_DEFAULT_HOST_RETURN_SENTINEL" "rip inp + 1 \<noteq> GEM_X64_DEFAULT_HOST_RETURN_SENTINEL"
  proof -
    have "unat (rip inp) < 0x140002000" using p by (simp add: word_less_nat_alt)
    then show "rip inp \<noteq> GEM_X64_DEFAULT_HOST_RETURN_SENTINEL" "rip inp + 1 \<noteq> GEM_X64_DEFAULT_HOST_RETURN_SENTINEL"
      by (auto simp: GEM_X64_DEFAULT_HOST_RETURN_SENTINEL_def word_unat_eq_iff unat_word_ariths)
  qed
  have sen: "xf_host_return_sentinel (xr_config nop_x64_runtime) = GEM_X64_DEFAULT_HOST_RETURN_SENTINEL" by (simp add: nop_x64_runtime_def)
  have bs: "boundary_status (xr_config nop_x64_runtime) p = 0" for p by (simp add: boundary_status_def nop_x64_runtime_def x64_config_default_def)
  have "x64_export ((x64_import inp)\<lparr>bs_rip := rip inp + 1\<rparr>) = inp\<lparr>rip := rip inp + 1\<rparr>" by (simp add: x64_export_def x64_import_def)
  moreover have "bs_rip (x64_import inp) = rip inp" by (simp add: x64_import_def)
  ultimately obtain r1 where st: "gem_x64_blink_step nop_blink (?R\<lparr>xr_async_stop_requested := False, xr_transaction := Some \<lparr>tx_pages = []\<rparr>\<rparr>) m inp =
      (GEM_STOP_NONE, Some (inp\<lparr>rip := rip inp + 1\<rparr>), 1, r1, m)"
    and r1: "core r1 = (xr_config r, (), Some \<lparr>tx_pages = []\<rparr>, False, False)"
    by (simp add: gem_x64_blink_step_def nop_blink_def Let_def core_def cr)
  have ar: "xr_async_stop_requested (run_start r) = False" using cr(3) by (simp add: run_start_def)
  have it: "x64_iteration nop_blink E 0 ?R m inp c = Inr (r1\<lparr>xr_transaction := None\<rparr>, m, inp\<lparr>rip := rip inp + 1\<rparr>, c\<lparr>pc := rip inp + 1\<rparr>)"
    using r1 unfolding x64_iteration_def Let_def gem_memory_transaction_begin_def
    by (simp add: cr ar sen ne bs E st commit_next [OF c] gem_memory_transaction_end_def core_def)
  have acc: "run_accepted r c 1" using r(2) cr c by (simp add: run_accepted_def in_step_def nop_x64_runtime_def x64_config_default_def)
  have mat: "gem_context_x64_materialize c = Some inp" using c by (simp add: in_step_def)
  have "x64_loop nop_blink E (unat (1 :: u64)) 0 GEM_STOP_NONE ?R m inp c = (GEM_STOP_NONE, 1, r1\<lparr>xr_transaction := None\<rparr>, m, c\<lparr>pc := rip inp + 1\<rparr>)"
    using it by simp
  from run_result [OF acc mat this] show ?thesis using r1
    by (simp add: final_reason_def final_context_def core_def nop_x64_runtime_def cr) blast
qed

theorem x64_run_slices_witness:
  "\<forall>m. \<exists>r' c'. gem_x64_runtime_run nop_blink quiet (Some nop_x64_runtime) m (Some sample_x64_context) 2 =
      (GEM_STOP_BUDGET_EXPIRED, Some r', m, Some c') \<and> pc c' = 0x140001002"
proof
  fix m
  have v: "gem_context_is_valid sample_x64_context" "isa sample_x64_context = isa_code GEM_ISA_X64" "gem_context_shape sample_x64_context"
    by (simp_all add: sample_defs)
  obtain inp where i: "in_step sample_x64_context inp" "rip inp = 0x140001000"
    using v by (simp add: in_step_def gem_context_x64_materialize_def) (simp add: sample_x64_context_def)
  have q: "arrivals (later k quiet) n = False" "begins (later k quiet) n = True" "arrivals quiet n = False" "begins quiet n = True" for k n
    by (simp_all add: quiet_def)
  obtain r1 where first: "gem_x64_runtime_run nop_blink quiet (Some nop_x64_runtime) m (Some sample_x64_context) 1 = (GEM_STOP_BUDGET_EXPIRED, Some r1, m,
      Some (sample_x64_context\<lparr>pc := 0x140001001, stop_reason := stop_code GEM_STOP_BUDGET_EXPIRED\<rparr>))" and r1: "core r1 = core nop_x64_runtime" "\<not> xr_running r1"
    using nop_run [OF refl _ i(1), of quiet m] i(2) q by (auto simp: nop_x64_runtime_def)
  let ?c1 = "sample_x64_context\<lparr>pc := 0x140001001, stop_reason := stop_code GEM_STOP_BUDGET_EXPIRED\<rparr>"
  obtain inp1 where i1: "in_step ?c1 inp1" "rip inp1 = 0x140001001"
    using v by (simp add: in_step_def gem_context_x64_materialize_def gem_context_is_valid_def gem_context_shape_def)
  obtain r2 where second: "gem_x64_runtime_run nop_blink (later (unat (1 :: u64)) quiet) (Some r1) m (Some ?c1) 1 = (GEM_STOP_BUDGET_EXPIRED, Some r2, m,
      Some (?c1\<lparr>pc := 0x140001002, stop_reason := stop_code GEM_STOP_BUDGET_EXPIRED\<rparr>))"
    using nop_run [OF r1 i1(1), of "later (unat (1 :: u64)) quiet" m] i1(2) q by auto
  have B: "machine_shaped nop_blink" by (simp add: machine_shaped_def nop_blink_def state_shape_def)
  have "xf_max_budget (xr_config nop_x64_runtime) = 0" by (simp add: nop_x64_runtime_def x64_config_default_def)
  with x64_run_slices [OF B v(3) first second] obtain r' c' where
    "gem_x64_runtime_run nop_blink quiet (Some nop_x64_runtime) m (Some sample_x64_context) (1 + 1) = (GEM_STOP_BUDGET_EXPIRED, Some r', m, Some c')"
    "pc c' = 0x140001002" by auto
  then show "\<exists>r' c'. gem_x64_runtime_run nop_blink quiet (Some nop_x64_runtime) m (Some sample_x64_context) 2 =
      (GEM_STOP_BUDGET_EXPIRED, Some r', m, Some c') \<and> pc c' = 0x140001002" by (metis one_add_one)
qed

end
