(* ===== verification/Gem_I386.thy ===== *)
theory Gem_I386
  imports Gem_Memory_Api Gem_Context
begin

text \<open>
  The 32-bit side of the runtime: the PE32 thread context of src/gem/i386_context.c and the view of
  guest memory through the low 4 GiB of src/gem/i386_memory.c.
\<close>

section \<open>Context\<close>

definition GEM_I386_CONTEXT_LAYOUT_VERSION_V1 :: u32 where "GEM_I386_CONTEXT_LAYOUT_VERSION_V1 = 1"
definition GEM_I386_CONTEXT_LAYOUT_VERSION_V2 :: u32 where "GEM_I386_CONTEXT_LAYOUT_VERSION_V2 = 2"
definition GEM_I386_CONTEXT_LAYOUT_VERSION :: u32 where "GEM_I386_CONTEXT_LAYOUT_VERSION = GEM_I386_CONTEXT_LAYOUT_VERSION_V2"
definition GEM_I386_CONTEXT_SIZE_V1 :: u32 where "GEM_I386_CONTEXT_SIZE_V1 = 448"
definition GEM_I386_CONTEXT_SIZE_V2 :: u32 where "GEM_I386_CONTEXT_SIZE_V2 = 448"
definition GEM_I386_EFLAGS_REQUIRED :: u32 where "GEM_I386_EFLAGS_REQUIRED = 2"

text \<open>
  The union at the end of the context is its five words; the x87 environment reads \<open>fip\<close> and \<open>fdp\<close>
  from the first two, the two selectors from the halves of the third and its reserved words from the
  rest.
\<close>

record gem_i386_context =
  i386_layout_version :: u32
  i386_context_size :: u32
  i386_gpr :: "u32 list"
  eip :: u32
  eflags :: u32
  segment :: "u16 list"
  segment_base :: "u32 list"
  segment_limit :: "u32 list"
  segment_attributes :: "u32 list"
  i386_xmm :: "gem_u128 list"
  i386_x87 :: "gem_u128 list"
  i386_mxcsr :: u32
  i386_fcw :: u16
  i386_fsw :: u16
  i386_ftw :: u16
  i386_fop :: u16
  i386_teb :: u32
  i386_reserved0 :: u32
  i386_transition_cookie :: u64
  i386_stop_reason :: u32
  tail_words :: "u32 list"

definition x87_environment_reserved :: "gem_i386_context \<Rightarrow> u32 list" where
  "x87_environment_reserved c = take 2 (drop 3 (tail_words c))"

definition gem_i386_context_initialize :: "u32 \<Rightarrow> gem_i386_context" where
  "gem_i386_context_initialize t =
    \<lparr>i386_layout_version = GEM_I386_CONTEXT_LAYOUT_VERSION, i386_context_size = GEM_I386_CONTEXT_SIZE_V2,
     i386_gpr = replicate 8 0, eip = 0, eflags = GEM_I386_EFLAGS_REQUIRED, segment = replicate 6 0,
     segment_base = replicate 6 0, segment_limit = replicate 6 0, segment_attributes = replicate 6 0,
     i386_xmm = replicate 8 zero_u128, i386_x87 = replicate 8 zero_u128, i386_mxcsr = 0x1f80, i386_fcw = 0x037f,
     i386_fsw = 0, i386_ftw = 0, i386_fop = 0, i386_teb = t, i386_reserved0 = 0, i386_transition_cookie = 0,
     i386_stop_reason = 0, tail_words = replicate 5 0\<rparr>"

definition gem_i386_context_is_valid :: "gem_i386_context option \<Rightarrow> bool" where
  "gem_i386_context_is_valid p = (case p of
       None \<Rightarrow> False
     | Some c \<Rightarrow>
        (if (i386_layout_version c \<noteq> GEM_I386_CONTEXT_LAYOUT_VERSION_V1 \<and>
             i386_layout_version c \<noteq> GEM_I386_CONTEXT_LAYOUT_VERSION_V2) \<or>
            i386_context_size c \<noteq> GEM_I386_CONTEXT_SIZE_V1 \<or> i386_teb c = 0 \<or>
            eflags c AND GEM_I386_EFLAGS_REQUIRED = 0 \<or> i386_reserved0 c \<noteq> 0
         then False
         else if i386_layout_version c = GEM_I386_CONTEXT_LAYOUT_VERSION_V1 \<and> list_ex (\<lambda>w. w \<noteq> 0) (tail_words c) then False
         else if i386_layout_version c \<noteq> GEM_I386_CONTEXT_LAYOUT_VERSION_V1 \<and> list_ex (\<lambda>w. w \<noteq> 0) (x87_environment_reserved c) then False
         else i386_stop_reason c \<le> stop_code GEM_STOP_INVARIANT_VIOLATION))"

section \<open>Memory\<close>

definition GEM_I386_ADDRESS_SPACE_SIZE :: u64 where "GEM_I386_ADDRESS_SPACE_SIZE = 0x100000000"
definition GEM_I386_LOWEST_ALLOCATION :: u64 where "GEM_I386_LOWEST_ALLOCATION = 0x10000"
definition GEM_I386_ALLOCATION_GRANULARITY :: u64 where "GEM_I386_ALLOCATION_GRANULARITY = 0x10000"

definition range_error :: "u32 \<Rightarrow> u64 \<Rightarrow> gem_memory_error" where
  "range_error a n =
    (if n = 0 then GEM_MEMORY_INVALID_ARGUMENT
     else if n > GEM_I386_ADDRESS_SPACE_SIZE then GEM_MEMORY_OVERFLOW
     else if ucast a > GEM_I386_ADDRESS_SPACE_SIZE - n then GEM_MEMORY_OVERFLOW else GEM_MEMORY_OK)"

definition gem_i386_memory_range_valid :: "u32 \<Rightarrow> u64 \<Rightarrow> bool" where
  "gem_i386_memory_range_valid a n \<longleftrightarrow> n \<le> GEM_I386_ADDRESS_SPACE_SIZE \<and> range_error a n = GEM_MEMORY_OK"

text \<open>
  The search for a free range, over the multiples of the granularity that the loop visits: it leaves
  through its condition at the latest when the candidate reaches 4 GiB.
\<close>

definition i386_candidate :: "nat \<Rightarrow> u64" where
  "i386_candidate i = GEM_I386_LOWEST_ALLOCATION + of_nat i * GEM_I386_ALLOCATION_GRANULARITY"

fun search_reserve :: "gem_memory option \<Rightarrow> u64 \<Rightarrow> nat list \<Rightarrow> gem_memory_error \<times> u32 \<times> gem_memory option" where
  "search_reserve m n [] = (GEM_MEMORY_NO_MEMORY, 0, m)"
| "search_reserve m n (i # is) =
    (if \<not> i386_candidate i \<le> GEM_I386_ADDRESS_SPACE_SIZE - n then (GEM_MEMORY_NO_MEMORY, 0, m)
     else (case gem_memory_reserve m (Some (i386_candidate i)) n of
       (e, r, m') \<Rightarrow>
        (if e = GEM_MEMORY_OK then (GEM_MEMORY_OK, (case r of None \<Rightarrow> 0 | Some b \<Rightarrow> ucast b), m')
         else if e \<noteq> GEM_MEMORY_CONFLICT then (e, 0, m')
         else search_reserve m' n is)))"

text \<open>The address parameter comes back as the call leaves it.\<close>

definition gem_i386_memory_reserve ::
  "gem_memory option \<Rightarrow> u32 option \<Rightarrow> u64 \<Rightarrow> gem_memory_error \<times> u32 option \<times> gem_memory option" where
  "gem_i386_memory_reserve m ao n =
    (if m = None \<or> ao = None \<or> n = 0 \<or> n AND (GEM_GUEST_PAGE_SIZE - 1) \<noteq> 0 \<or> n > GEM_I386_ADDRESS_SPACE_SIZE
     then (GEM_MEMORY_INVALID_ARGUMENT, ao, m)
     else if the ao \<noteq> 0 then
       (if range_error (the ao) n \<noteq> GEM_MEMORY_OK then (GEM_MEMORY_OVERFLOW, ao, m)
        else (case gem_memory_reserve m (Some (ucast (the ao))) n of (e, _, m') \<Rightarrow> (e, ao, m')))
     else (case search_reserve m n [0 ..< 65536] of (e, a, m') \<Rightarrow> (e, Some a, m')))"

definition page_wrapper ::
  "(gem_memory option \<Rightarrow> u64 \<Rightarrow> u64 \<Rightarrow> gem_memory_error \<times> gem_memory option)
    \<Rightarrow> gem_memory option \<Rightarrow> u32 \<Rightarrow> u64 \<Rightarrow> gem_memory_error \<times> gem_memory option" where
  "page_wrapper target m a n =
    (let e = range_error a n in if e \<noteq> GEM_MEMORY_OK then (e, m) else target m (ucast a) n)"

definition gem_i386_memory_decommit where "gem_i386_memory_decommit = page_wrapper gem_memory_decommit"
definition gem_i386_memory_release where "gem_i386_memory_release = page_wrapper gem_memory_release"
definition gem_i386_memory_unmap where "gem_i386_memory_unmap = page_wrapper gem_memory_unmap"

definition gem_i386_memory_commit where
  "gem_i386_memory_commit m a n prot =
    (let e = range_error a n in if e = GEM_MEMORY_OK then gem_memory_commit m (ucast a) n prot else (e, m))"

definition gem_i386_memory_commit_host where
  "gem_i386_memory_commit_host m a host n prot =
    (let e = range_error a n in if e = GEM_MEMORY_OK then gem_memory_commit_external m (ucast a) host n prot else (e, m))"

definition gem_i386_memory_protect where
  "gem_i386_memory_protect m a n prot =
    (let e = range_error a n in if e = GEM_MEMORY_OK then gem_memory_protect m (ucast a) n prot else (e, None, m))"

definition gem_i386_memory_alias where
  "gem_i386_memory_alias m a s n prot =
    (let e = range_error a n; e = (if e = GEM_MEMORY_OK then range_error s n else e)
     in if e = GEM_MEMORY_OK then gem_memory_alias m (ucast a) (ucast s) n prot else (e, m))"

definition gem_i386_memory_read where
  "gem_i386_memory_read m a b n =
    (let e = range_error a n in if e = GEM_MEMORY_OK then gem_memory_read m (ucast a) b n else (e, b, m))"

definition gem_i386_memory_write where
  "gem_i386_memory_write m a b n =
    (let e = range_error a n in if e = GEM_MEMORY_OK then gem_memory_write m (ucast a) b n else (e, b, m))"

definition gem_i386_memory_fetch where
  "gem_i386_memory_fetch m a b n =
    (let e = range_error a n in if e = GEM_MEMORY_OK then gem_memory_fetch m (ucast a) b n else (e, b, m))"

end
