(* ===== verification/Gem_I386_Engine.thy ===== *)
theory Gem_I386_Engine
  imports Gem_Blink Gem_I386
begin

text \<open>
  The i386 engine: src/gem/i386_engine.c, its table of operations and the Blink binding
  src/gem/i386_blink.c. Guest threads share one memory, so the memory that a run of the emulator leaves
  includes what other threads did meanwhile.
\<close>

section \<open>Data\<close>

definition GEM_I386_DEFAULT_HOST_RETURN_SENTINEL :: u32 where "GEM_I386_DEFAULT_HOST_RETURN_SENTINEL = 0xfffffff0"
definition GEM_I386_BOUNDARY_WINDOWS_SYSCALL :: u32 where "GEM_I386_BOUNDARY_WINDOWS_SYSCALL = 1"
definition GEM_I386_BOUNDARY_UNIX_CALL :: u32 where "GEM_I386_BOUNDARY_UNIX_CALL = 2"
definition GEM_I386_EXCEPTION_ILLEGAL_INSTRUCTION :: u32 where "GEM_I386_EXCEPTION_ILLEGAL_INSTRUCTION = 1"
definition GEM_I386_EXCEPTION_BREAKPOINT :: u32 where "GEM_I386_EXCEPTION_BREAKPOINT = 2"
definition GEM_I386_EXCEPTION_INTEGER_DIVIDE_BY_ZERO :: u32 where "GEM_I386_EXCEPTION_INTEGER_DIVIDE_BY_ZERO = 3"
definition GEM_I386_EXCEPTION_INTEGER_OVERFLOW :: u32 where "GEM_I386_EXCEPTION_INTEGER_OVERFLOW = 4"
definition GEM_I386_PERFORMANCE_INFO_ABI_VERSION :: u32 where "GEM_I386_PERFORMANCE_INFO_ABI_VERSION = 1"
definition GEM_I386_ENGINE_OPS_ABI_VERSION :: u32 where "GEM_I386_ENGINE_OPS_ABI_VERSION = 1"
definition GEM_I386_ENGINE_STATUS_RESTARTABLE_REP :: u32 where "GEM_I386_ENGINE_STATUS_RESTARTABLE_REP = 0x100"

definition GEM_I386_ENGINE_DEFAULT :: u32 where "GEM_I386_ENGINE_DEFAULT = 0"
definition GEM_I386_ENGINE_JIT :: u32 where "GEM_I386_ENGINE_JIT = 1"
definition GEM_I386_ENGINE_INTERPRETER :: u32 where "GEM_I386_ENGINE_INTERPRETER = 2"

record gem_i386_runtime_config =
  if_host_return_sentinel :: u32
  if_windows_syscall_boundary :: u32
  if_unix_call_boundary :: u32
  if_engine_mode :: u32
  if_max_budget :: u64
  if_max_generated_code_bytes :: u64
  if_reserved :: "u32 list"

record gem_i386_stop_info =
  is_reason :: gem_stop_reason
  is_instructions_retired :: u32
  is_fault_address :: u32
  is_access :: u32
  is_memory_error :: u32
  is_engine_status :: u32

record gem_i386_performance_info =
  pf_abi_version :: u32
  pf_size :: u32
  pf_retired_instructions :: u64
  pf_quanta :: u64
  pf_retries :: u64
  pf_page_snapshots :: u64
  pf_bytes_copied :: u64
  pf_bytes_committed :: u64
  pf_state_imports :: u64
  pf_state_exports :: u64
  pf_decode_resets :: u64

record gem_i386_engine_info =
  ii_abi_version :: u32
  ii_size :: u32
  ii_engine_mode :: u32
  ii_host_arch :: u32
  ii_jit_compilations :: u64
  ii_jit_executions :: u64
  ii_jit_failures :: u64
  ii_write_xor_execute :: u32
  ii_reserved :: u32

definition zero_i386_stop :: gem_i386_stop_info where
  "zero_i386_stop = \<lparr>is_reason = GEM_STOP_NONE, is_instructions_retired = 0, is_fault_address = 0, is_access = 0, is_memory_error = 0,
     is_engine_status = 0\<rparr>"

definition zero_performance :: gem_i386_performance_info where
  "zero_performance = \<lparr>pf_abi_version = 0, pf_size = 0, pf_retired_instructions = 0, pf_quanta = 0, pf_retries = 0,
     pf_page_snapshots = 0, pf_bytes_copied = 0, pf_bytes_committed = 0, pf_state_imports = 0, pf_state_exports = 0,
     pf_decode_resets = 0\<rparr>"

text \<open>The memory and the table of operations are arguments of the functions.\<close>

record 'b gem_i386_runtime =
  ir_config :: gem_i386_runtime_config
  ir_last_stop :: gem_i386_stop_info
  ir_backend :: 'b
  ir_transaction :: "gem_memory_transaction option"
  ir_performance :: gem_i386_performance_info
  ir_quantum_budget :: u32
  ir_consecutive_conflicts :: u32
  ir_running :: bool
  ir_backend_failed :: bool
  ir_async_stop_requested :: bool

section \<open>Callbacks\<close>

definition i386_range :: "u64 \<Rightarrow> u64 \<Rightarrow> bool" where
  "i386_range a n \<longleftrightarrow> n \<noteq> 0 \<and> n \<le> GEM_I386_ADDRESS_SPACE_SIZE \<and> a \<le> GEM_I386_ADDRESS_SPACE_SIZE - n"

text \<open>What Blink reaches: the transaction, the memory, the counters and the request to stop.\<close>

type_synonym i386_world = "gem_memory_transaction option \<times> gem_memory \<times> gem_i386_performance_info \<times> bool"

definition i386_protection :: "bool \<Rightarrow> u32 \<Rightarrow> u32" where
  "i386_protection ext gp =
    (if gp AND GEM_PAGE_GUARD \<noteq> 0 then 8 else 0) OR (if ext then 16 else 0) OR
    (if gp AND NOT GEM_PAGE_GUARD \<noteq> GEM_PAGE_NOACCESS
     then (if gp AND NOT GEM_PAGE_GUARD \<noteq> GEM_PAGE_EXECUTE then 1 else 0) OR
          (if gp AND (GEM_PAGE_READWRITE OR GEM_PAGE_WRITECOPY OR GEM_PAGE_EXECUTE_READWRITE OR GEM_PAGE_EXECUTE_WRITECOPY) \<noteq> 0 then 2 else 0) OR
          (if gp AND (GEM_PAGE_EXECUTE OR GEM_PAGE_EXECUTE_READ OR GEM_PAGE_EXECUTE_READWRITE OR GEM_PAGE_EXECUTE_WRITECOPY) \<noteq> 0 then 4 else 0)
     else 0)"

text \<open>The status, the bytes and the protection bits when they are written, and the world after the call.\<close>

definition i386_snapshot :: "(u64 \<Rightarrow> nat \<Rightarrow> bool) \<Rightarrow> u64 \<Rightarrow> i386_world \<Rightarrow> u32 \<times> byte_string option \<times> u32 option \<times> i386_world" where
  "i386_snapshot accessible a w = (case w of (t, m, f, s) \<Rightarrow>
     if \<not> i386_range a GEM_GUEST_PAGE_SIZE then (error_code GEM_MEMORY_OVERFLOW, None, None, w)
     else (case gem_memory_transaction_snapshot_page accessible t m a True of
        (e, out, t', m') \<Rightarrow>
         (let f = (if e = GEM_MEMORY_OK then f\<lparr>pf_page_snapshots := pf_page_snapshots f + 1, pf_bytes_copied := pf_bytes_copied f + GEM_GUEST_PAGE_SIZE\<rparr>
                   else f);
              gp = (case out of None \<Rightarrow> 0 | Some (_, p) \<Rightarrow> p)
          in (error_code e, map_option fst out,
              Some (i386_protection (e = GEM_MEMORY_OK \<and> gem_memory_transaction_page_is_external t' a) gp), t', m', f, s))))"

definition i386_validate :: "u64 \<Rightarrow> size_t \<Rightarrow> blink_gem_access \<Rightarrow> i386_world \<Rightarrow> u32 \<times> i386_world" where
  "i386_validate a n acc w = (case w of (t, m, f, s) \<Rightarrow>
     if \<not> i386_range a n then (error_code GEM_MEMORY_OVERFLOW, w)
     else (case gem_memory_transaction_validate t m a n (acc = BLINK_GEM_ACCESS_WRITE) (acc = BLINK_GEM_ACCESS_FETCH) of
        (e, t', m') \<Rightarrow> (error_code e, t', m', f, s)))"

definition i386_commit :: "bool \<Rightarrow> blink_gem_write list \<Rightarrow> i386_world \<Rightarrow> (u32 \<times> u64 option) \<times> i386_world" where
  "i386_commit ok ws w = (case w of (t, m, f, s) \<Rightarrow>
     if ws = [] then ((error_code GEM_MEMORY_OK, None), w)
     else if \<not> ok then ((error_code GEM_MEMORY_NO_MEMORY, None), w)
     else if \<exists>d \<in> set ws. bw_size d \<noteq> GEM_GUEST_PAGE_SIZE \<or> \<not> i386_range (bw_address d) (bw_size d)
     then ((error_code GEM_MEMORY_OVERFLOW, None), w)
     else (case gem_memory_transaction_commit_pages t m
              (Some (map (\<lambda>d. \<lparr>wr_address = bw_address d, wr_data = Some (bw_data d)\<rparr>) ws)) (of_nat (length ws)) of
        ((e, fault, n), t', m') \<Rightarrow>
          ((error_code e, fault), t', m',
            (if e = GEM_MEMORY_OK then f\<lparr>pf_bytes_committed := pf_bytes_committed f + of_nat (case n of None \<Rightarrow> 0 | Some n \<Rightarrow> n)\<rparr> else f), s)))"

definition i386_async_stop :: "i386_world \<Rightarrow> bool \<times> i386_world" where
  "i386_async_stop w = (case w of (t, m, f, s) \<Rightarrow> (s, t, m, f, False))"

section \<open>State transfer\<close>

text \<open>The words of the x87 environment in the tail of the context.\<close>

definition env_fcs :: "gem_i386_context \<Rightarrow> u16" where "env_fcs c = ucast (tail_words c ! 2)"
definition env_fds :: "gem_i386_context \<Rightarrow> u16" where "env_fds c = ucast (drop_bit 16 (tail_words c ! 2))"

definition i386_import_state :: "gem_i386_context \<Rightarrow> blink_gem_state" where
  "i386_import_state s =
    (let d = blank_state\<lparr>bs_gpr := map ucast (take 8 (i386_gpr s)) @ replicate 8 0, bs_rip := ucast (eip s),
           bs_rflags := ucast ((eflags s AND NOT 0x3000) OR 0x200), bs_xmm := i386_xmm s @ replicate 8 zero_u128, bs_x87 := i386_x87 s,
           bs_mxcsr := i386_mxcsr s, bs_fcw := i386_fcw s, bs_fsw := i386_fsw s, bs_ftw := i386_ftw s, bs_fop := i386_fop s\<rparr>;
         d = (if i386_layout_version s \<ge> GEM_I386_CONTEXT_LAYOUT_VERSION_V2
              then d\<lparr>bs_fip := tail_words s ! 0, bs_fdp := tail_words s ! 1, bs_fcs := env_fcs s, bs_fds := env_fds s\<rparr> else d)
     in d\<lparr>bs_segments := map (\<lambda>i. \<lparr>selector = segment s ! i, seg_base = segment_base s ! i, seg_limit = segment_limit s ! i,
              seg_attributes = segment_attributes s ! i\<rparr>) [0 ..< 6],
          bs_fs_base := ucast (if segment_base s ! 4 \<noteq> 0 then segment_base s ! 4 else i386_teb s),
          bs_gs_base := ucast (segment_base s ! 5)\<rparr>)"

definition i386_export_state :: "blink_gem_state \<Rightarrow> gem_i386_context \<Rightarrow> gem_i386_context" where
  "i386_export_state s inp =
    (let d = inp\<lparr>i386_gpr := map ucast (take 8 (bs_gpr s)), eip := ucast (bs_rip s),
           eflags := ((ucast (bs_rflags s) AND NOT 0x3000) OR 0x200) OR GEM_I386_EFLAGS_REQUIRED,
           i386_xmm := take 8 (bs_xmm s), i386_x87 := bs_x87 s, i386_mxcsr := bs_mxcsr s, i386_fcw := bs_fcw s, i386_fsw := bs_fsw s,
           i386_ftw := bs_ftw s, i386_fop := bs_fop s\<rparr>;
         d = (if i386_layout_version d \<ge> GEM_I386_CONTEXT_LAYOUT_VERSION_V2
              then d\<lparr>tail_words := (tail_words d)[0 := bs_fip s, 1 := bs_fdp s, 2 := ucast (bs_fcs s) OR push_bit 16 (ucast (bs_fds s))]\<rparr> else d)
     in d\<lparr>segment := map selector (bs_segments s), segment_base := map seg_base (bs_segments s),
          segment_limit := map seg_limit (bs_segments s), segment_attributes := map seg_attributes (bs_segments s)\<rparr>)"

section \<open>The Blink binding\<close>

definition gem_i386_blink_create :: "('b, i386_world) blink \<Rightarrow> gem_i386_runtime_config \<Rightarrow> 'b option" where
  "gem_i386_blink_create B c = machine_create B
     (if if_engine_mode c = GEM_I386_ENGINE_JIT then BLINK_GEM_ENGINE_JIT else BLINK_GEM_ENGINE_INTERPRETER) BLINK_GEM_GUEST_LEGACY_32"

definition gem_i386_blink_sync :: "('b, i386_world) blink \<Rightarrow> 'b gem_i386_runtime \<Rightarrow> 'b gem_i386_runtime" where
  "gem_i386_blink_sync B r = r\<lparr>ir_backend := machine_sync B (ir_backend r)\<rparr>"

text \<open>The runtime and the memory after a call of Blink, with the result's details in \<open>last_stop\<close>.\<close>

definition i386_call :: "('b \<Rightarrow> blink_gem_state \<Rightarrow> i386_world \<Rightarrow> blink_gem_result \<times> blink_gem_state \<times> 'b \<times> i386_world)
    \<Rightarrow> 'b gem_i386_runtime \<Rightarrow> gem_memory \<Rightarrow> gem_i386_context \<Rightarrow> blink_gem_result \<times> blink_gem_state \<times> 'b gem_i386_runtime \<times> gem_memory" where
  "i386_call f r m inp =
    (let perf = ir_performance r; perf = perf\<lparr>pf_state_imports := pf_state_imports perf + 1\<rparr>
     in case f (ir_backend r) (i386_import_state inp) (ir_transaction r, m, perf, ir_async_stop_requested r) of
       (br, bo, b, t, m', perf', s) \<Rightarrow>
        (br, bo, r\<lparr>ir_backend := b, ir_transaction := t, ir_performance := perf', ir_async_stop_requested := s,
          ir_last_stop := (ir_last_stop r)\<lparr>is_fault_address := ucast (br_fault_address br), is_access := br_access br,
            is_memory_error := br_memory_error br, is_engine_status := br_engine_status br\<rparr>\<rparr>, m'))"

definition set_status :: "u32 \<Rightarrow> 'b gem_i386_runtime \<Rightarrow> 'b gem_i386_runtime" where
  "set_status st r = r\<lparr>ir_last_stop := (ir_last_stop r)\<lparr>is_engine_status := st\<rparr>\<rparr>"

definition count_export :: "'b gem_i386_runtime \<Rightarrow> 'b gem_i386_runtime" where
  "count_export r = r\<lparr>ir_performance := (ir_performance r)\<lparr>pf_state_exports := pf_state_exports (ir_performance r) + 1\<rparr>\<rparr>"

text \<open>The exception reported by Blink as the engine reports it.\<close>

definition i386_exception :: "u32 \<Rightarrow> 'b gem_i386_runtime \<Rightarrow> gem_stop_reason \<times> 'b gem_i386_runtime" where
  "i386_exception st r =
    (if st = BLINK_GEM_EXCEPTION_ILLEGAL_INSTRUCTION then (GEM_STOP_WINDOWS_EXCEPTION, set_status GEM_I386_EXCEPTION_ILLEGAL_INSTRUCTION r)
     else if st = BLINK_GEM_EXCEPTION_DIVIDE then (GEM_STOP_WINDOWS_EXCEPTION, set_status GEM_I386_EXCEPTION_INTEGER_DIVIDE_BY_ZERO r)
     else if st = BLINK_GEM_EXCEPTION_OVERFLOW then (GEM_STOP_WINDOWS_EXCEPTION, set_status GEM_I386_EXCEPTION_INTEGER_OVERFLOW r)
     else (GEM_STOP_INVARIANT_VIOLATION, r))"

text \<open>An instruction Blink does not run, told apart by its name; the step ignores a failed query for all but \<open>int3\<close>.\<close>

definition i386_unsupported :: "bool \<Rightarrow> bool \<times> blink_gem_decode_attempt \<Rightarrow> 'b gem_i386_runtime \<Rightarrow> gem_stop_reason \<times> 'b gem_i386_runtime" where
  "i386_unsupported single query r = (case query of (ok, attempt) \<Rightarrow>
    (if \<not> at_valid attempt \<or> (\<not> single \<and> \<not> ok) then (GEM_STOP_UNSUPPORTED_INSTRUCTION, r)
     else if ok \<and> at_name attempt = ''OpInterrupt3'' then (GEM_STOP_WINDOWS_EXCEPTION, set_status GEM_I386_EXCEPTION_BREAKPOINT r)
     else if at_name attempt = ''OpInto'' then (GEM_STOP_WINDOWS_EXCEPTION, set_status GEM_I386_EXCEPTION_INTEGER_OVERFLOW r)
     else if at_name attempt = ''OpUd'' then (GEM_STOP_WINDOWS_EXCEPTION, set_status GEM_I386_EXCEPTION_ILLEGAL_INSTRUCTION r)
     else if at_name attempt = ''OpInterruptImm'' \<or> at_name attempt = ''OpSysenter''
     then (GEM_STOP_SYSCALL, set_status GEM_I386_BOUNDARY_WINDOWS_SYSCALL r)
     else (GEM_STOP_UNSUPPORTED_INSTRUCTION, r)))"

text \<open>The reason, \<open>*out\<close> when it is written, \<open>*retired\<close>, the runtime and the memory.\<close>

definition gem_i386_blink_step :: "('b, i386_world) blink \<Rightarrow> 'b gem_i386_runtime \<Rightarrow> gem_memory \<Rightarrow> gem_i386_context
    \<Rightarrow> gem_stop_reason \<times> gem_i386_context option \<times> u32 \<times> 'b gem_i386_runtime \<times> gem_memory" where
  "gem_i386_blink_step B r m inp = (case i386_call (machine_step B) r m inp of (br, bo, r, m) \<Rightarrow>
     (let n = br_retired br in case br_outcome br of
        BLINK_GEM_RETIRED \<Rightarrow> (if n = 1 then GEM_STOP_NONE else GEM_STOP_INVARIANT_VIOLATION, Some (i386_export_state bo inp), n, count_export r, m)
      | BLINK_GEM_MEMORY_FAULT \<Rightarrow>
         (if br_engine_status br = BLINK_GEM_ENGINE_STATUS_RESTARTABLE_REP
          then (GEM_STOP_MEMORY_FAULT, Some (i386_export_state bo inp), n, set_status GEM_I386_ENGINE_STATUS_RESTARTABLE_REP r, m)
          else (GEM_STOP_MEMORY_FAULT, None, n, r, m))
      | BLINK_GEM_EXCEPTION \<Rightarrow> (case i386_exception (br_engine_status br) r of (e, r) \<Rightarrow> (e, None, n, r, m))
      | BLINK_GEM_UNSUPPORTED \<Rightarrow>
         (case i386_unsupported True (machine_decode_attempt_info B (ir_backend r)) r of (e, r) \<Rightarrow> (e, None, n, r, m))
      | _ \<Rightarrow> (GEM_STOP_INVARIANT_VIOLATION, None, n, r, m)))"

definition stop_points :: "gem_i386_runtime_config \<Rightarrow> u64 list" where
  "stop_points c = ucast (if_host_return_sentinel c) #
     (if if_windows_syscall_boundary c \<noteq> 0 then [ucast (if_windows_syscall_boundary c)] else []) @
     (if if_unix_call_boundary c \<noteq> 0 then [ucast (if_unix_call_boundary c)] else [])"

definition gem_i386_blink_run :: "('b, i386_world) blink \<Rightarrow> 'b gem_i386_runtime \<Rightarrow> gem_memory \<Rightarrow> gem_i386_context \<Rightarrow> u32
    \<Rightarrow> gem_stop_reason \<times> gem_i386_context option \<times> u32 \<times> 'b gem_i386_runtime \<times> gem_memory" where
  "gem_i386_blink_run B r m inp budget =
    (let conf = ir_config r
     in case i386_call (\<lambda>b. machine_run B b \<lparr>instruction_budget = budget, stop_pcs = stop_points conf\<rparr>) r m inp of (br, bo, r, m) \<Rightarrow>
     (let n = br_retired br; oc = br_outcome br;
          written = (oc = BLINK_GEM_RETIRED \<or> oc = BLINK_GEM_STOP_PC \<or> oc = BLINK_GEM_ASYNC_STOP \<or> oc = BLINK_GEM_QUANTUM_BOUNDARY \<or>
            n \<noteq> 0 \<or> br_engine_status br = BLINK_GEM_ENGINE_STATUS_RESTARTABLE_REP);
          out = (if written then Some (i386_export_state bo inp) else None);
          r = (if written then count_export r else r)
      in case oc of
        BLINK_GEM_RETIRED \<Rightarrow> (if n = budget then GEM_STOP_NONE else GEM_STOP_INVARIANT_VIOLATION, out, n, r, m)
      | BLINK_GEM_QUANTUM_BOUNDARY \<Rightarrow> (if n \<noteq> 0 \<and> n \<le> budget then GEM_STOP_NONE else GEM_STOP_INVARIANT_VIOLATION, out, n, r, m)
      | BLINK_GEM_STOP_PC \<Rightarrow>
         (let p = ucast (bs_rip bo) :: u32
          in if p = if_host_return_sentinel conf then (GEM_STOP_HOST_RETURN, out, n, r, m)
             else (let boundary = (if p = if_windows_syscall_boundary conf then GEM_I386_BOUNDARY_WINDOWS_SYSCALL
                     else if p = if_unix_call_boundary conf then GEM_I386_BOUNDARY_UNIX_CALL else 0)
               in (if boundary \<noteq> 0 then GEM_STOP_SYSCALL else GEM_STOP_INVARIANT_VIOLATION, out, n, set_status boundary r, m)))
      | BLINK_GEM_ASYNC_STOP \<Rightarrow> (GEM_STOP_ASYNC_REQUEST, out, n, r, m)
      | BLINK_GEM_MEMORY_FAULT \<Rightarrow>
         (GEM_STOP_MEMORY_FAULT, out, n, (if br_engine_status br = BLINK_GEM_ENGINE_STATUS_RESTARTABLE_REP
            then set_status GEM_I386_ENGINE_STATUS_RESTARTABLE_REP r else r), m)
      | BLINK_GEM_EXCEPTION \<Rightarrow> (case i386_exception (br_engine_status br) r of (e, r) \<Rightarrow> (e, out, n, r, m))
      | BLINK_GEM_UNSUPPORTED \<Rightarrow>
         (case i386_unsupported False (machine_decode_attempt_info B (ir_backend r)) r of (e, r) \<Rightarrow> (e, out, n, r, m))
      | BLINK_GEM_INVALID \<Rightarrow> (GEM_STOP_INVARIANT_VIOLATION, out, n, r, m)))"

definition gem_i386_blink_engine_info :: "('b, i386_world) blink \<Rightarrow> 'b gem_i386_runtime option \<Rightarrow> gem_i386_engine_info option
    \<Rightarrow> bool \<times> gem_i386_engine_info option" where
  "gem_i386_blink_engine_info B ro out = (case (ro, out) of
      (Some r, Some i) \<Rightarrow>
       (if ii_abi_version i \<noteq> 1 \<or> ii_size i \<noteq> 48 then (False, out)
        else (case machine_engine_info B (ir_backend r) of (ok, info) \<Rightarrow>
          (if \<not> ok then (False, out)
           else (True, Some (i\<lparr>ii_engine_mode := (if bi_engine info = BLINK_GEM_ENGINE_JIT then GEM_I386_ENGINE_JIT else GEM_I386_ENGINE_INTERPRETER),
                  ii_host_arch := (if bi_host_arch info = BLINK_GEM_HOST_AARCH64 then 1 else 0),
                  ii_jit_compilations := bi_jit_compilations info, ii_jit_executions := bi_jit_executions info,
                  ii_jit_failures := bi_jit_failures info, ii_write_xor_execute := bi_write_xor_execute info, ii_reserved := 0\<rparr>)))))
    | _ \<Rightarrow> (False, out))"

definition gem_i386_blink_invalidate_code :: "('b, i386_world) blink \<Rightarrow> 'b gem_i386_runtime \<Rightarrow> u32 \<Rightarrow> u64 \<Rightarrow> bool \<times> 'b gem_i386_runtime" where
  "gem_i386_blink_invalidate_code B r a n =
    (if i386_range (ucast a) n
     then (case machine_invalidate_code B (ir_backend r) (ucast a) n of (ok, b) \<Rightarrow> (ok, r\<lparr>ir_backend := b\<rparr>))
     else (False, r))"

section \<open>The table of operations\<close>

text \<open>Destroying a backend frees it: nothing is left of it.\<close>

record 'b gem_i386_engine_ops =
  op_abi_version :: u32
  op_engine_mode :: u32
  op_engine_name :: "string option"
  op_create :: "(gem_i386_runtime_config \<Rightarrow> 'b option) option"
  op_destroy :: "('b \<Rightarrow> unit) option"
  op_sync :: "('b gem_i386_runtime \<Rightarrow> 'b gem_i386_runtime) option"
  op_step :: "('b gem_i386_runtime \<Rightarrow> gem_memory \<Rightarrow> gem_i386_context
    \<Rightarrow> gem_stop_reason \<times> gem_i386_context option \<times> u32 \<times> 'b gem_i386_runtime \<times> gem_memory) option"
  op_run :: "('b gem_i386_runtime \<Rightarrow> gem_memory \<Rightarrow> gem_i386_context \<Rightarrow> u32
    \<Rightarrow> gem_stop_reason \<times> gem_i386_context option \<times> u32 \<times> 'b gem_i386_runtime \<times> gem_memory) option"
  op_engine_info :: "('b gem_i386_runtime option \<Rightarrow> gem_i386_engine_info option \<Rightarrow> bool \<times> gem_i386_engine_info option) option"
  op_invalidate_code :: "('b gem_i386_runtime \<Rightarrow> u32 \<Rightarrow> u64 \<Rightarrow> bool \<times> 'b gem_i386_runtime) option"

definition gem_i386_blink_jit_ops :: "('b, i386_world) blink \<Rightarrow> 'b gem_i386_engine_ops" where
  "gem_i386_blink_jit_ops B = \<lparr>op_abi_version = GEM_I386_ENGINE_OPS_ABI_VERSION, op_engine_mode = GEM_I386_ENGINE_JIT,
     op_engine_name = Some ''GEM_i386 Blink AArch64 JIT'', op_create = Some (gem_i386_blink_create B),
     op_destroy = Some (\<lambda>_. ()), op_sync = Some (gem_i386_blink_sync B),
     op_step = Some (gem_i386_blink_step B), op_run = Some (gem_i386_blink_run B), op_engine_info = Some (gem_i386_blink_engine_info B),
     op_invalidate_code = Some (gem_i386_blink_invalidate_code B)\<rparr>"

definition gem_i386_blink_interpreter_ops :: "('b, i386_world) blink \<Rightarrow> 'b gem_i386_engine_ops" where
  "gem_i386_blink_interpreter_ops B = (gem_i386_blink_jit_ops B)\<lparr>op_engine_mode := GEM_I386_ENGINE_INTERPRETER,
     op_engine_name := Some ''GEM_i386 Blink interpreter''\<rparr>"

section \<open>Creation\<close>

definition i386_config_default :: gem_i386_runtime_config where
  "i386_config_default = \<lparr>if_host_return_sentinel = 0, if_windows_syscall_boundary = 0, if_unix_call_boundary = 0, if_engine_mode = 0,
     if_max_budget = 0, if_max_generated_code_bytes = 0, if_reserved = replicate 4 0\<rparr>"

definition gem_i386_runtime_create_with_ops :: "bool \<Rightarrow> gem_memory option \<Rightarrow> gem_i386_runtime_config option \<Rightarrow> 'b gem_i386_engine_ops option
    \<Rightarrow> 'b gem_i386_runtime option" where
  "gem_i386_runtime_create_with_ops ok mo co oo = (case oo of
      None \<Rightarrow> None
    | Some ops \<Rightarrow>
       (if mo = None \<or> op_abi_version ops \<noteq> GEM_I386_ENGINE_OPS_ABI_VERSION \<or>
           (op_engine_mode ops \<noteq> GEM_I386_ENGINE_JIT \<and> op_engine_mode ops \<noteq> GEM_I386_ENGINE_INTERPRETER) \<or>
           op_create ops = None \<or> op_destroy ops = None \<or> op_sync ops = None \<or> op_step ops = None \<or> op_run ops = None \<or> op_engine_info ops = None \<or>
           op_invalidate_code ops = None \<or> \<not> ok then None
        else (let c = (case co of None \<Rightarrow> i386_config_default | Some c \<Rightarrow> c)
          in if (if_engine_mode c \<noteq> GEM_I386_ENGINE_DEFAULT \<and> if_engine_mode c \<noteq> GEM_I386_ENGINE_JIT \<and>
                 if_engine_mode c \<noteq> GEM_I386_ENGINE_INTERPRETER) \<or> list_ex (\<lambda>w. w \<noteq> 0) (take 4 (if_reserved c)) then None
          else (let c = (if if_engine_mode c = GEM_I386_ENGINE_DEFAULT then c\<lparr>if_engine_mode := op_engine_mode ops\<rparr> else c)
            in if if_engine_mode c \<noteq> op_engine_mode ops then None
            else (let c = (if if_host_return_sentinel c = 0 then c\<lparr>if_host_return_sentinel := GEM_I386_DEFAULT_HOST_RETURN_SENTINEL\<rparr> else c)
              in if if_windows_syscall_boundary c = if_host_return_sentinel c \<or> if_unix_call_boundary c = if_host_return_sentinel c \<or>
                    (if_windows_syscall_boundary c \<noteq> 0 \<and> if_windows_syscall_boundary c = if_unix_call_boundary c) then None
              else (case the (op_create ops) c of
                 None \<Rightarrow> None
               | Some b \<Rightarrow> Some \<lparr>ir_config = c, ir_last_stop = zero_i386_stop, ir_backend = b, ir_transaction = None,
                   ir_performance = zero_performance\<lparr>pf_abi_version := GEM_I386_PERFORMANCE_INFO_ABI_VERSION, pf_size := 88\<rparr>,
                   ir_quantum_budget = 64, ir_consecutive_conflicts = 0, ir_running = False, ir_backend_failed = False,
                   ir_async_stop_requested = False\<rparr>))))))"

definition gem_i386_runtime_create :: "('b, i386_world) blink \<Rightarrow> bool \<Rightarrow> gem_memory option \<Rightarrow> gem_i386_runtime_config option
    \<Rightarrow> 'b gem_i386_runtime option" where
  "gem_i386_runtime_create B ok mo co =
    (let mode = (case co of None \<Rightarrow> GEM_I386_ENGINE_DEFAULT | Some c \<Rightarrow> if_engine_mode c)
     in gem_i386_runtime_create_with_ops ok mo co
          (Some (if mode = GEM_I386_ENGINE_INTERPRETER then gem_i386_blink_interpreter_ops B else gem_i386_blink_jit_ops B)))"

section \<open>Running\<close>

text \<open>
  \<open>starts n\<close> says whether the transaction of the quantum that begins after \<open>n\<close> others can be allocated, and
  \<open>stale n\<close> is what the local variable \<open>output\<close> holds when that quantum begins, before anything is
  written to it.
\<close>

record i386_environment =
  starts :: "nat \<Rightarrow> bool"
  stale :: "nat \<Rightarrow> gem_i386_context"

text \<open>The quantum after a conflict is half as long, after a success twice as long, between 1 and 256.\<close>

definition after_conflict :: "'b gem_i386_runtime \<Rightarrow> 'b gem_i386_runtime" where
  "after_conflict r =
    (let perf = ir_performance r; n = ir_consecutive_conflicts r + 1
     in r\<lparr>ir_performance := perf\<lparr>pf_retries := pf_retries perf + 1\<rparr>,
          ir_quantum_budget := (if ir_quantum_budget r > 1 then ir_quantum_budget r div 2 else ir_quantum_budget r),
          ir_consecutive_conflicts := (if n \<ge> 8 then 0 else n)\<rparr>)"

definition grow_quantum :: "u32 \<Rightarrow> u32" where
  "grow_quantum q = (let q = (if q < 256 then q * 2 else q) in if q > 256 then 256 else q)"

text \<open>
  One iteration of the loop of \<open>gem_i386_runtime_run\<close>: the loop ends with a reason, goes on, or goes on
  after a conflict.
\<close>

datatype quantum_end = Quantum_stop gem_stop_reason | Quantum_next | Quantum_conflict

type_synonym 'b i386_state = "nat \<times> 'b gem_i386_runtime \<times> gem_memory \<times> gem_i386_context"

definition i386_next :: "gem_stop_reason \<Rightarrow> 'b i386_state \<Rightarrow> quantum_end \<times> 'b i386_state" where
  "i386_next reason s = (case s of (n, r, m, c) \<Rightarrow>
     if reason = GEM_STOP_MEMORY_FAULT \<and> is_memory_error (ir_last_stop r) = error_code GEM_MEMORY_CONFLICT
     then (Quantum_conflict, n, after_conflict r, m, c)
     else (let r = r\<lparr>ir_consecutive_conflicts := 0\<rparr>
       in if reason = GEM_STOP_NONE
          then (Quantum_next, n, r\<lparr>ir_quantum_budget := grow_quantum (ir_quantum_budget r)\<rparr>, m, c)
          else (Quantum_stop reason, n, r, m, c)))"

text \<open>
  The end of an iteration, after the emulator has run: the transaction is validated, the output context
  published or dropped, and the next quantum sized. \<open>old\<close> is what \<open>output\<close> holds if nothing was written.
\<close>

definition i386_settle :: "gem_i386_context \<Rightarrow> nat \<Rightarrow> gem_i386_context \<Rightarrow> gem_stop_reason \<Rightarrow> gem_i386_context option \<Rightarrow> u32
    \<Rightarrow> 'b gem_i386_runtime \<Rightarrow> gem_memory \<Rightarrow> quantum_end \<times> 'b i386_state" where
  "i386_settle old n c reason out got r m = (case gem_memory_transaction_finish (ir_transaction r) m of (e, fault) \<Rightarrow>
     (let output = (if e = GEM_MEMORY_CONFLICT then c else case out of None \<Rightarrow> old | Some d \<Rightarrow> d);
          got = (if e = GEM_MEMORY_CONFLICT then 0 else got);
          r = (if e = GEM_MEMORY_CONFLICT then r\<lparr>ir_last_stop := (ir_last_stop r)\<lparr>
                 is_fault_address := ucast (case fault of None \<Rightarrow> 0 | Some a \<Rightarrow> a), is_access := 0,
                 is_memory_error := error_code GEM_MEMORY_CONFLICT\<rparr>\<rparr> else r);
          reason = (if e = GEM_MEMORY_CONFLICT then GEM_STOP_MEMORY_FAULT
                    else if e \<noteq> GEM_MEMORY_OK then GEM_STOP_INVARIANT_VIOLATION else reason);
          publish = (got \<noteq> 0 \<or> reason = GEM_STOP_NONE \<or> reason = GEM_STOP_HOST_RETURN \<or> reason = GEM_STOP_SYSCALL \<or>
            reason = GEM_STOP_ASYNC_REQUEST \<or>
            (reason = GEM_STOP_MEMORY_FAULT \<and> is_engine_status (ir_last_stop r) = GEM_I386_ENGINE_STATUS_RESTARTABLE_REP));
          ok = gem_i386_context_is_valid (Some output);
          reason = (if publish \<and> \<not> ok then GEM_STOP_INVARIANT_VIOLATION else reason);
          c = (if publish \<and> ok then output else c);
          n = n + unat got; perf = ir_performance r;
          r = r\<lparr>ir_performance := perf\<lparr>pf_retired_instructions := pf_retired_instructions perf + ucast got\<rparr>\<rparr>;
          m = gem_memory_transaction_end (ir_transaction r) m;
          r = r\<lparr>ir_transaction := None\<rparr>
      in i386_next reason (n, r, m, c)))"

definition i386_quantum :: "'b gem_i386_engine_ops \<Rightarrow> i386_environment \<Rightarrow> nat \<Rightarrow> u64 \<Rightarrow> 'b i386_state \<Rightarrow> quantum_end \<times> 'b i386_state" where
  "i386_quantum ops E k budget s = (case s of (n, r, m, c) \<Rightarrow>
     (let remaining = budget - of_nat n;
          q = (if ucast (ir_quantum_budget r) > remaining then ucast remaining else ir_quantum_budget r)
      in case gem_memory_transaction_begin (starts E k) (Some m) of
        None \<Rightarrow> (Quantum_stop GEM_STOP_INVARIANT_VIOLATION, n, r, m, c)
      | Some t \<Rightarrow>
         (let r = the (op_sync ops) (r\<lparr>ir_transaction := Some t\<rparr>);
              perf = ir_performance r;
              r = r\<lparr>ir_performance := perf\<lparr>pf_quanta := pf_quanta perf + 1, pf_decode_resets := pf_decode_resets perf + 1\<rparr>\<rparr>
          in case the (op_run ops) r m c q of (reason, out, got, r, m) \<Rightarrow> i386_settle (stale E k) n c reason out got r m)))"

text \<open>
  The loop, for at most \<open>fuel\<close> quanta; \<open>Inl\<close> is the state in which it was still running. It may conflict with
  other threads for ever. The count of retired instructions is a number here and 64 bits wide in the source: the
  two differ only if an emulator retires more than it is asked to within 2^32 of a budget of 2^64.
\<close>

fun i386_loop :: "'b gem_i386_engine_ops \<Rightarrow> i386_environment \<Rightarrow> nat \<Rightarrow> nat \<Rightarrow> u64 \<Rightarrow> 'b i386_state
    \<Rightarrow> 'b i386_state + gem_stop_reason \<times> 'b i386_state" where
  "i386_loop ops E 0 k budget s = Inl s"
| "i386_loop ops E (Suc fuel) k budget s =
    (if \<not> fst s < unat budget then Inr (GEM_STOP_NONE, s)
     else (case i386_quantum ops E k budget s of
        (Quantum_stop reason, s') \<Rightarrow> Inr (reason, s')
      | (_, s') \<Rightarrow> i386_loop ops E fuel (k + 1) budget s'))"

definition gem_i386_runtime_run :: "'b gem_i386_engine_ops \<Rightarrow> i386_environment \<Rightarrow> nat \<Rightarrow> 'b gem_i386_runtime option \<Rightarrow> gem_memory
    \<Rightarrow> gem_i386_context option \<Rightarrow> u64 \<Rightarrow> (gem_stop_reason \<times> 'b gem_i386_runtime option \<times> gem_memory \<times> gem_i386_context option) option" where
  "gem_i386_runtime_run ops E fuel ro m co budget = (case ro of
      None \<Rightarrow> Some (GEM_STOP_INVARIANT_VIOLATION, None, m, co)
    | Some r \<Rightarrow>
       (let r = r\<lparr>ir_last_stop := zero_i386_stop\<rparr>
        in if ir_running r \<or> ir_backend_failed r \<or> \<not> gem_i386_context_is_valid co \<or>
              (if_max_budget (ir_config r) \<noteq> 0 \<and> budget > if_max_budget (ir_config r))
           then Some (GEM_STOP_INVARIANT_VIOLATION, Some (r\<lparr>ir_last_stop := (ir_last_stop r)\<lparr>is_reason := GEM_STOP_INVARIANT_VIOLATION\<rparr>\<rparr>), m, co)
           else (let c = the co in
             if budget = 0
             then Some (GEM_STOP_BUDGET_EXPIRED, Some (r\<lparr>ir_last_stop := (ir_last_stop r)\<lparr>is_reason := GEM_STOP_BUDGET_EXPIRED\<rparr>\<rparr>), m,
               Some (c\<lparr>i386_stop_reason := stop_code GEM_STOP_BUDGET_EXPIRED\<rparr>))
             else (case i386_loop ops E fuel 0 budget (0, r\<lparr>ir_running := True\<rparr>, m, c) of
                Inl _ \<Rightarrow> None
              | Inr (reason, n, r, m, c) \<Rightarrow>
                 (let reason = (if reason = GEM_STOP_NONE then GEM_STOP_BUDGET_EXPIRED else reason)
                  in Some (reason, Some (r\<lparr>ir_running := False, ir_last_stop := (ir_last_stop r)\<lparr>is_reason := reason,
                         is_instructions_retired := of_nat n\<rparr>\<rparr>), m,
                       Some (if reason \<noteq> GEM_STOP_INVARIANT_VIOLATION then c\<lparr>i386_stop_reason := stop_code reason\<rparr> else c)))))))"

section \<open>Queries and requests\<close>

definition gem_i386_runtime_last_stop_info :: "'b gem_i386_runtime option \<Rightarrow> gem_i386_stop_info option \<Rightarrow> bool \<times> gem_i386_stop_info option" where
  "gem_i386_runtime_last_stop_info ro out = (case (ro, out) of (Some r, Some _) \<Rightarrow> (True, Some (ir_last_stop r)) | _ \<Rightarrow> (False, out))"

definition gem_i386_runtime_engine_info :: "'b gem_i386_engine_ops \<Rightarrow> 'b gem_i386_runtime option \<Rightarrow> gem_i386_engine_info option
    \<Rightarrow> bool \<times> gem_i386_engine_info option" where
  "gem_i386_runtime_engine_info ops ro out = (case ro of None \<Rightarrow> (False, out) | Some _ \<Rightarrow> the (op_engine_info ops) ro out)"

definition gem_i386_runtime_performance_info :: "'b gem_i386_runtime option \<Rightarrow> gem_i386_performance_info option
    \<Rightarrow> bool \<times> gem_i386_performance_info option" where
  "gem_i386_runtime_performance_info ro out = (case (ro, out) of
      (Some r, Some i) \<Rightarrow> (if pf_abi_version i \<noteq> GEM_I386_PERFORMANCE_INFO_ABI_VERSION \<or> pf_size i \<noteq> 88 then (False, out)
        else (True, Some (ir_performance r)))
    | _ \<Rightarrow> (False, out))"

definition gem_i386_runtime_invalidate_code :: "'b gem_i386_engine_ops \<Rightarrow> 'b gem_i386_runtime option \<Rightarrow> u32 \<Rightarrow> u64 \<Rightarrow> 'b gem_i386_runtime option" where
  "gem_i386_runtime_invalidate_code ops ro a n = (case ro of
      None \<Rightarrow> None
    | Some r \<Rightarrow>
       (if ir_running r then Some (r\<lparr>ir_backend_failed := True\<rparr>)
        else (case the (op_invalidate_code ops) r a n of
           (ok, r') \<Rightarrow> Some (if ok then r' else r'\<lparr>ir_backend_failed := True\<rparr>))))"

definition gem_i386_runtime_request_async_stop :: "'b gem_i386_runtime option \<Rightarrow> 'b gem_i386_runtime option" where
  "gem_i386_runtime_request_async_stop ro = map_option (\<lambda>r. r\<lparr>ir_async_stop_requested := True\<rparr>) ro"

definition gem_i386_runtime_engine_name :: "'b gem_i386_engine_ops \<Rightarrow> 'b gem_i386_runtime option \<Rightarrow> string" where
  "gem_i386_runtime_engine_name ops ro = (case (ro, op_engine_name ops) of (Some _, Some s) \<Rightarrow> s | _ \<Rightarrow> ''unavailable'')"

end
