(* ===== verification/Gem_I386_Engine_Props.thy ===== *)
theory Gem_I386_Engine_Props
  imports Gem_I386_Engine
begin

text \<open>
  Correctness of the i386 engine's run loop: bounds on what a run may do and when it ends.
\<close>

section \<open>A run of the emulator\<close>

text \<open>The operations of both tables that the loop calls.\<close>

definition blink_ops :: "('b, i386_world) blink \<Rightarrow> 'b gem_i386_engine_ops \<Rightarrow> bool" where
  "blink_ops B ops \<longleftrightarrow> op_sync ops = Some (gem_i386_blink_sync B) \<and> op_run ops = Some (gem_i386_blink_run B)"

lemma blink_ops_tables: "blink_ops B (gem_i386_blink_jit_ops B)" "blink_ops B (gem_i386_blink_interpreter_ops B)"
  by (simp_all add: blink_ops_def gem_i386_blink_jit_ops_def gem_i386_blink_interpreter_ops_def)

text \<open>Blink retires at most the instructions it is asked to.\<close>

definition retires_within :: "('b, 'w) blink \<Rightarrow> bool" where
  "retires_within B \<longleftrightarrow> (\<forall>b q s w r s' b' w'. machine_run B b q s w = (r, s', b', w') \<longrightarrow> br_retired r \<le> instruction_budget q)"

text \<open>What the emulator cannot change of the runtime.\<close>

definition kept :: "'b gem_i386_runtime \<Rightarrow> gem_i386_runtime_config \<times> u32 \<times> bool \<times> bool" where
  "kept r = (ir_config r, ir_quantum_budget r, ir_running r, ir_backend_failed r)"

lemma kept_simps [simp]: "kept (set_status st r) = kept r" "kept (count_export r) = kept r"
  by (simp_all add: kept_def set_status_def count_export_def)

lemma kept_exception: "i386_exception st r = (e, r') \<Longrightarrow> kept r' = kept r \<and> e \<noteq> GEM_STOP_NONE \<and> e \<noteq> GEM_STOP_BUDGET_EXPIRED"
  by (auto simp: i386_exception_def split: if_splits)

lemma kept_unsupported: "i386_unsupported sg qu r = (e, r') \<Longrightarrow> kept r' = kept r \<and> e \<noteq> GEM_STOP_NONE \<and> e \<noteq> GEM_STOP_BUDGET_EXPIRED"
  by (auto simp: i386_unsupported_def split: if_splits prod.splits)

lemma blink_run_facts:
  assumes "gem_i386_blink_run B r m c q = (e, out, n, r1, m1)"
  shows "kept r1 = kept r" and "e = GEM_STOP_NONE \<Longrightarrow> n \<le> q \<and> (q \<noteq> 0 \<longrightarrow> n \<noteq> 0) \<and> out \<noteq> None" and "retires_within B \<Longrightarrow> n \<le> q"
    and "e \<noteq> GEM_STOP_BUDGET_EXPIRED"
proof -
  let ?f = "\<lambda>b. machine_run B b \<lparr>instruction_budget = q, stop_pcs = stop_points (ir_config r)\<rparr>"
  obtain br bo r2 m2 where ic: "i386_call ?f r m c = (br, bo, r2, m2)" by (metis prod_cases4)
  have k: "kept r2 = kept r" using ic by (auto simp: i386_call_def kept_def Let_def split: prod.splits)
  have w: "retires_within B \<Longrightarrow> br_retired br \<le> q"
    using ic by (fastforce simp: i386_call_def Let_def retires_within_def split: prod.splits)
  have "kept r1 = kept r \<and> (e = GEM_STOP_NONE \<longrightarrow> n \<le> q \<and> (q \<noteq> 0 \<longrightarrow> n \<noteq> 0) \<and> out \<noteq> None) \<and> n = br_retired br \<and>
      e \<noteq> GEM_STOP_BUDGET_EXPIRED"
    using assms k unfolding gem_i386_blink_run_def Let_def ic prod.case
    by (cases "br_outcome br") (auto split: if_splits prod.splits dest!: kept_exception kept_unsupported)
  then show "kept r1 = kept r" "e = GEM_STOP_NONE \<Longrightarrow> n \<le> q \<and> (q \<noteq> 0 \<longrightarrow> n \<noteq> 0) \<and> out \<noteq> None" "retires_within B \<Longrightarrow> n \<le> q"
    "e \<noteq> GEM_STOP_BUDGET_EXPIRED" using w by blast+
qed

section \<open>The size of a quantum\<close>

definition quantum_ok :: "u32 \<Rightarrow> bool" where
  "quantum_ok q \<longleftrightarrow> 1 \<le> q \<and> q \<le> 256"

lemma quantum_ok_half: "quantum_ok q \<Longrightarrow> quantum_ok (if q > 1 then q div 2 else q)"
  by (auto simp: quantum_ok_def word_le_nat_alt word_less_nat_alt unat_div)

lemma quantum_ok_grow: "quantum_ok q \<Longrightarrow> quantum_ok (grow_quantum q)"
proof -
  assume q: "quantum_ok q"
  show ?thesis
  proof (cases "q < 256")
    case True
    then have "unat (q * 2) = unat q * 2" by (simp add: unat_word_ariths word_less_nat_alt)
    then show ?thesis using q True by (auto simp: quantum_ok_def grow_quantum_def Let_def word_le_nat_alt word_less_nat_alt)
  qed (use q in \<open>auto simp: quantum_ok_def grow_quantum_def Let_def\<close>)
qed

section \<open>One iteration\<close>

lemma finish_status: "gem_memory_transaction_finish to m = (e, f) \<Longrightarrow> e = GEM_MEMORY_OK \<or> e = GEM_MEMORY_CONFLICT \<or> e = GEM_MEMORY_INVALID_ARGUMENT"
  by (auto simp: gem_memory_transaction_finish_def split: option.splits)

lemma after_conflict_simps [simp]:
  "ir_config (after_conflict r) = ir_config r" "ir_running (after_conflict r) = ir_running r" "ir_backend_failed (after_conflict r) = ir_backend_failed r"
  "ir_transaction (after_conflict r) = ir_transaction r"
  "ir_quantum_budget (after_conflict r) = (if ir_quantum_budget r > 1 then ir_quantum_budget r div 2 else ir_quantum_budget r)"
  by (simp_all add: after_conflict_def Let_def)

text \<open>What every iteration keeps: a valid context and a quantum of the allowed size.\<close>

definition loop_ok :: "'b gem_i386_runtime \<Rightarrow> gem_i386_context \<Rightarrow> bool" where
  "loop_ok r c \<longleftrightarrow> quantum_ok (ir_quantum_budget r) \<and> gem_i386_context_is_valid (Some c)"

lemma next_facts:
  assumes q: "quantum_ok (ir_quantum_budget r)" and st: "i386_next reason (n, r, m, c) = (qe, n1, r1, m1, c1)"
  shows "n1 = n \<and> c1 = c \<and> m1 = m \<and> quantum_ok (ir_quantum_budget r1) \<and> ir_config r1 = ir_config r \<and> ir_running r1 = ir_running r \<and>
    ir_backend_failed r1 = ir_backend_failed r \<and> ir_transaction r1 = ir_transaction r \<and>
    qe \<noteq> Quantum_stop GEM_STOP_NONE \<and> (qe = Quantum_next \<longrightarrow> reason = GEM_STOP_NONE) \<and> (\<forall>e. qe = Quantum_stop e \<longrightarrow> e = reason)"
  using st q quantum_ok_half [OF q] quantum_ok_grow [OF q] unfolding i386_next_def prod.case Let_def
  by (auto split: if_split_asm)

lemma settle_next:
  assumes "gem_i386_context_is_valid (Some c)"
  obtains reason' got' r' c' where "i386_settle old n c reason out got r m = i386_next reason' (n + unat got', r', gem_memory_transaction_end (ir_transaction r) m, c')"
    and "gem_i386_context_is_valid (Some c')" and "got' = 0 \<or> got' = got" and "reason' = GEM_STOP_NONE \<longrightarrow> reason = GEM_STOP_NONE \<and> got' = got"
    and "reason' = reason \<or> reason' = GEM_STOP_INVARIANT_VIOLATION \<or> reason' = GEM_STOP_MEMORY_FAULT"
    and "ir_config r' = ir_config r" and "ir_running r' = ir_running r" and "ir_backend_failed r' = ir_backend_failed r"
    and "ir_quantum_budget r' = ir_quantum_budget r" and "ir_transaction r' = None"
proof -
  obtain e fault where f: "gem_memory_transaction_finish (ir_transaction r) m = (e, fault)" by fastforce
  show thesis
  proof (cases "e = GEM_MEMORY_CONFLICT")
    case True
    let ?r = "r\<lparr>ir_last_stop := (ir_last_stop r)\<lparr>is_fault_address := ucast (case fault of None \<Rightarrow> 0 | Some a \<Rightarrow> a), is_access := 0,
      is_memory_error := error_code GEM_MEMORY_CONFLICT\<rparr>, ir_transaction := None\<rparr>"
    show thesis
      by (rule that [of GEM_STOP_MEMORY_FAULT 0 ?r c]) (simp_all add: i386_settle_def f True Let_def assms)
  next
    case False
    define published where "published = (case out of None \<Rightarrow> old | Some d \<Rightarrow> d)"
    define reason1 where "reason1 = (if e \<noteq> GEM_MEMORY_OK then GEM_STOP_INVARIANT_VIOLATION else reason)"
    define publish where "publish \<longleftrightarrow> got \<noteq> 0 \<or> reason1 = GEM_STOP_NONE \<or> reason1 = GEM_STOP_HOST_RETURN \<or> reason1 = GEM_STOP_SYSCALL \<or>
      reason1 = GEM_STOP_ASYNC_REQUEST \<or> (reason1 = GEM_STOP_MEMORY_FAULT \<and> is_engine_status (ir_last_stop r) = GEM_I386_ENGINE_STATUS_RESTARTABLE_REP)"
    define ok where "ok = gem_i386_context_is_valid (Some published)"
    let ?r = "r\<lparr>ir_performance := (ir_performance r)\<lparr>pf_retired_instructions := pf_retired_instructions (ir_performance r) + ucast got\<rparr>, ir_transaction := None\<rparr>"
    have "i386_settle old n c reason out got r m = i386_next (if publish \<and> \<not> ok then GEM_STOP_INVARIANT_VIOLATION else reason1)
        (n + unat got, ?r, gem_memory_transaction_end (ir_transaction r) m, if publish \<and> ok then published else c)"
      unfolding i386_settle_def f prod.case Let_def if_not_P [OF False] publish_def ok_def reason1_def published_def by simp
    then show thesis
      by (rule that [of _ got]) (use assms in \<open>simp_all add: ok_def reason1_def split: if_splits\<close>)
  qed
qed

lemma settle_facts:
  assumes c: "gem_i386_context_is_valid (Some c)" and q: "quantum_ok (ir_quantum_budget r)"
    and st: "i386_settle old n c reason out got r m = (qe, n1, r1, m1, c1)"
  shows "loop_ok r1 c1" and "ir_config r1 = ir_config r" and "ir_running r1 = ir_running r" and "ir_backend_failed r1 = ir_backend_failed r"
    and "ir_transaction r1 = None" and "n \<le> n1" and "n1 \<le> n + unat got"
    and "qe = Quantum_next \<Longrightarrow> reason = GEM_STOP_NONE \<and> n1 = n + unat got" and "qe \<noteq> Quantum_stop GEM_STOP_NONE"
    and "reason \<noteq> GEM_STOP_BUDGET_EXPIRED \<Longrightarrow> qe \<noteq> Quantum_stop GEM_STOP_BUDGET_EXPIRED"
proof -
  obtain reason' got' r' c' where s: "i386_settle old n c reason out got r m = i386_next reason' (n + unat got', r', gem_memory_transaction_end (ir_transaction r) m, c')"
      "gem_i386_context_is_valid (Some c')" "got' = 0 \<or> got' = got" "reason' = GEM_STOP_NONE \<longrightarrow> reason = GEM_STOP_NONE \<and> got' = got"
      "reason' = reason \<or> reason' = GEM_STOP_INVARIANT_VIOLATION \<or> reason' = GEM_STOP_MEMORY_FAULT"
      "ir_config r' = ir_config r" "ir_running r' = ir_running r" "ir_backend_failed r' = ir_backend_failed r"
      "ir_quantum_budget r' = ir_quantum_budget r" "ir_transaction r' = None"
    by (rule settle_next [OF c, of old n reason out got r m])
  have "quantum_ok (ir_quantum_budget r')" using q s(9) by simp
  note x = next_facts [OF this st [unfolded s(1)]]
  show "loop_ok r1 c1" "ir_config r1 = ir_config r" "ir_running r1 = ir_running r" "ir_backend_failed r1 = ir_backend_failed r"
    "ir_transaction r1 = None" "n \<le> n1" "qe \<noteq> Quantum_stop GEM_STOP_NONE" using x s by (simp_all add: loop_ok_def)
  show "n1 \<le> n + unat got" using x s(3) by auto
  show "qe = Quantum_next \<Longrightarrow> reason = GEM_STOP_NONE \<and> n1 = n + unat got" using x s(4) by simp
  show "reason \<noteq> GEM_STOP_BUDGET_EXPIRED \<Longrightarrow> qe \<noteq> Quantum_stop GEM_STOP_BUDGET_EXPIRED" using x s(5) by auto
qed

text \<open>The emulator is given at least one instruction and no more than are left.\<close>

lemma quantum_length:
  assumes "n < unat budget" and "quantum_ok qb"
  defines "q \<equiv> (if ucast (qb :: u32) > budget - of_nat n then ucast (budget - of_nat n) else qb)"
  shows "q \<noteq> 0" and "n + unat q \<le> unat (budget :: u64)"
proof -
  have b: "unat budget < 2 ^ 64" using unsigned_less [of budget] by simp
  then have r: "unat (budget - of_nat n) = unat budget - n" using assms(1) by (simp add: unat_sub word_le_nat_alt unat_of_nat)
  have qb: "unat qb \<noteq> 0" using assms(2) by (auto simp: quantum_ok_def word_le_nat_alt)
  have q32: "unat qb < 2 ^ 32" using unsigned_less [of qb] by simp
  then have u: "unat (ucast qb :: u64) = unat qb" by (simp add: unsigned_ucast_eq take_bit_nat_eq_self)
  have "unat q = min (unat qb) (unat budget - n)"
  proof (cases "ucast qb > budget - of_nat n")
    case True
    then have lt: "unat budget - n < unat qb" using u r by (simp add: word_less_nat_alt)
    then have "unat (ucast (budget - of_nat n) :: u32) = unat budget - n" using r q32 by (simp add: unsigned_ucast_eq take_bit_nat_eq_self)
    then show ?thesis using True lt by (simp add: q_def)
  next
    case False
    then have "unat qb \<le> unat budget - n" using u r by (simp add: word_less_nat_alt not_less)
    then show ?thesis using False by (simp add: q_def)
  qed
  then show "n + unat q \<le> unat budget" "q \<noteq> 0" using assms(1) qb by auto
qed

lemma quantum_facts:
  assumes ops: "blink_ops B ops" and ok: "loop_ok r c" and n: "n < unat budget"
    and run: "i386_quantum ops E k budget (n, r, m, c) = (qe, n1, r1, m1, c1)" and tx: "ir_transaction r = None"
  shows "loop_ok r1 c1" and "ir_config r1 = ir_config r" and "ir_running r1 = ir_running r" and "ir_backend_failed r1 = ir_backend_failed r"
    and "ir_transaction r1 = None" and "n \<le> n1" and "qe = Quantum_next \<Longrightarrow> n < n1 \<and> n1 \<le> unat budget"
    and "retires_within B \<Longrightarrow> n1 \<le> unat budget" and "qe \<noteq> Quantum_stop GEM_STOP_NONE" and "qe \<noteq> Quantum_stop GEM_STOP_BUDGET_EXPIRED"
proof -
  have q: "quantum_ok (ir_quantum_budget r)" and c: "gem_i386_context_is_valid (Some c)" using ok by (simp_all add: loop_ok_def)
  define q where "q = (if ucast (ir_quantum_budget r) > budget - of_nat n then ucast (budget - of_nat n) else ir_quantum_budget r)"
  note len = quantum_length [OF n q, folded q_def]
  have *: "loop_ok r1 c1 \<and> ir_config r1 = ir_config r \<and> ir_running r1 = ir_running r \<and> ir_backend_failed r1 = ir_backend_failed r \<and>
      ir_transaction r1 = None \<and> n \<le> n1 \<and> (qe = Quantum_next \<longrightarrow> n < n1 \<and> n1 \<le> unat budget) \<and>
      (retires_within B \<longrightarrow> n1 \<le> unat budget) \<and> qe \<noteq> Quantum_stop GEM_STOP_NONE \<and> qe \<noteq> Quantum_stop GEM_STOP_BUDGET_EXPIRED"
  proof (cases "starts E k")
    case False
    then show ?thesis using run ok n tx by (auto simp: i386_quantum_def gem_memory_transaction_begin_def Let_def)
  next
    case True
    define r2 where "r2 = gem_i386_blink_sync B (r\<lparr>ir_transaction := Some \<lparr>tx_pages = []\<rparr>\<rparr>)"
    define r3 where "r3 = r2\<lparr>ir_performance := (ir_performance r2)\<lparr>pf_quanta := pf_quanta (ir_performance r2) + 1, pf_decode_resets := pf_decode_resets (ir_performance r2) + 1\<rparr>\<rparr>"
    obtain e out got r4 m4 where br: "gem_i386_blink_run B r3 m c q = (e, out, got, r4, m4)" by (metis prod_cases5)
    have k3: "kept r3 = kept r" by (simp add: r3_def r2_def gem_i386_blink_sync_def kept_def)
    have kept: "ir_config r4 = ir_config r" "ir_quantum_budget r4 = ir_quantum_budget r" "ir_running r4 = ir_running r" "ir_backend_failed r4 = ir_backend_failed r"
      using blink_run_facts(1) [OF br] k3 by (simp_all add: kept_def)
    have s: "i386_settle (stale E k) n c e out got r4 m4 = (qe, n1, r1, m1, c1)"
      using run ops br True unfolding i386_quantum_def Let_def gem_memory_transaction_begin_def blink_ops_def
      by (simp add: q_def [symmetric] r2_def [symmetric] r3_def [symmetric])
    note f = settle_facts [OF c _ s, unfolded kept, OF q]
    have g: "e = GEM_STOP_NONE \<Longrightarrow> unat got \<le> unat q \<and> unat got \<noteq> 0" "retires_within B \<Longrightarrow> unat got \<le> unat q"
      using blink_run_facts(2,3) [OF br] len(1) by (auto simp: word_le_nat_alt unat_eq_zero)
    have "n1 \<le> unat budget" if "unat got \<le> unat q" using f(7) len(2) that by linarith
    then have "qe = Quantum_next \<Longrightarrow> n < n1 \<and> n1 \<le> unat budget" "retires_within B \<Longrightarrow> n1 \<le> unat budget" using f(8) g by auto
    then show ?thesis using f(1-6,9) f(10) [OF blink_run_facts(4) [OF br]] by blast
  qed
  then show "loop_ok r1 c1" "ir_config r1 = ir_config r" "ir_running r1 = ir_running r" "ir_backend_failed r1 = ir_backend_failed r"
    "ir_transaction r1 = None" "n \<le> n1" "qe = Quantum_next \<Longrightarrow> n < n1 \<and> n1 \<le> unat budget"
    "retires_within B \<Longrightarrow> n1 \<le> unat budget" "qe \<noteq> Quantum_stop GEM_STOP_NONE" "qe \<noteq> Quantum_stop GEM_STOP_BUDGET_EXPIRED" by blast+
qed

section \<open>The loop\<close>

text \<open>The conflicts among the first \<open>fuel\<close> quanta.\<close>

fun i386_conflicts :: "'b gem_i386_engine_ops \<Rightarrow> i386_environment \<Rightarrow> nat \<Rightarrow> nat \<Rightarrow> u64 \<Rightarrow> 'b i386_state \<Rightarrow> nat" where
  "i386_conflicts ops E 0 k budget s = 0"
| "i386_conflicts ops E (Suc fuel) k budget s =
    (if \<not> fst s < unat budget then 0
     else (case i386_quantum ops E k budget s of
        (Quantum_stop _, _) \<Rightarrow> 0
      | (Quantum_next, s') \<Rightarrow> i386_conflicts ops E fuel (k + 1) budget s'
      | (Quantum_conflict, s') \<Rightarrow> Suc (i386_conflicts ops E fuel (k + 1) budget s')))"

text \<open>Every quantum either makes progress or is a conflict.\<close>

lemma loop_ends:
  assumes ops: "blink_ops B ops" and "loop_ok r c" and "ir_transaction r = None"
    and "unat budget - n + i386_conflicts ops E fuel k budget (n, r, m, c) < fuel"
  shows "\<exists>x. i386_loop ops E fuel k budget (n, r, m, c) = Inr x"
  using assms(2-4)
proof (induction fuel arbitrary: k n r m c)
  case (Suc fuel)
  show ?case
  proof (cases "n < unat budget")
    case True
    obtain qe n1 r1 m1 c1 where q: "i386_quantum ops E k budget (n, r, m, c) = (qe, n1, r1, m1, c1)" by (metis prod_cases5)
    note f = quantum_facts [OF ops Suc.prems(1) True q Suc.prems(2)]
    show ?thesis
    proof (cases qe)
      case Quantum_next
      then have "unat budget - n1 + i386_conflicts ops E fuel (k + 1) budget (n1, r1, m1, c1) < fuel" using Suc.prems(3) q True f(7) by auto
      then show ?thesis using Suc.IH [OF f(1,5), of n1 "k + 1" m1] q True Quantum_next by simp
    next
      case Quantum_conflict
      then have "unat budget - n1 + i386_conflicts ops E fuel (k + 1) budget (n1, r1, m1, c1) < fuel" using Suc.prems(3) q True f(6) by auto
      then show ?thesis using Suc.IH [OF f(1,5), of n1 "k + 1" m1] q True Quantum_conflict by simp
    qed (use q True in simp)
  qed simp
qed simp

lemma loop_result:
  assumes ops: "blink_ops B ops" and "loop_ok r c" and "ir_transaction r = None" and "i386_loop ops E fuel k budget (n, r, m, c) = Inr (e, n1, r1, m1, c1)"
  shows "loop_ok r1 c1 \<and> ir_transaction r1 = None \<and> ir_backend_failed r1 = ir_backend_failed r \<and> ir_config r1 = ir_config r \<and> n \<le> n1 \<and>
    (e = GEM_STOP_NONE \<longrightarrow> unat budget \<le> n1) \<and> e \<noteq> GEM_STOP_BUDGET_EXPIRED \<and> (retires_within B \<and> n \<le> unat budget \<longrightarrow> n1 \<le> unat budget)"
  using assms(2-4)
proof (induction fuel arbitrary: k n r m c)
  case (Suc fuel)
  show ?case
  proof (cases "n < unat budget")
    case True
    obtain qe n2 r2 m2 c2 where q: "i386_quantum ops E k budget (n, r, m, c) = (qe, n2, r2, m2, c2)" by (metis prod_cases5)
    note f = quantum_facts [OF ops Suc.prems(1) True q Suc.prems(2)]
    show ?thesis
    proof (cases "\<exists>e'. qe = Quantum_stop e'")
      case True
      then show ?thesis using Suc.prems(3) q \<open>n < unat budget\<close> f by auto
    next
      case False
      then have "i386_loop ops E fuel (k + 1) budget (n2, r2, m2, c2) = Inr (e, n1, r1, m1, c1)" using Suc.prems(3) q True by (cases qe) simp_all
      from Suc.IH [OF f(1,5) this] show ?thesis using f(2,4,6,8) by auto
    qed
  next
    case False
    then show ?thesis using Suc.prems by auto
  qed
qed simp

lemma valid_i386_stop [simp]:
  "gem_i386_context_is_valid (Some c) \<Longrightarrow> gem_i386_context_is_valid (Some (c\<lparr>i386_stop_reason := stop_code e\<rparr>))"
  using stop_code_le [of e] by (simp add: gem_i386_context_is_valid_def x87_environment_reserved_def del: stop_code.simps split: if_splits)

section \<open>A whole run\<close>

text \<open>A runtime between two calls, as \<open>create\<close> makes it and every run leaves it.\<close>

definition i386_runtime_ok :: "'b gem_i386_runtime \<Rightarrow> bool" where
  "i386_runtime_ok r \<longleftrightarrow> \<not> ir_running r \<and> ir_transaction r = None \<and> quantum_ok (ir_quantum_budget r)"

lemma create_i386_ok: "gem_i386_runtime_create_with_ops ok mo co oo = Some r \<Longrightarrow> i386_runtime_ok r"
  by (auto simp: gem_i386_runtime_create_with_ops_def Let_def i386_runtime_ok_def quantum_ok_def split: option.splits if_split_asm)

definition i386_start :: "'b gem_i386_runtime \<Rightarrow> 'b gem_i386_runtime" where
  "i386_start r = r\<lparr>ir_last_stop := zero_i386_stop\<rparr>"

definition i386_accepted :: "'b gem_i386_runtime \<Rightarrow> gem_i386_context option \<Rightarrow> u64 \<Rightarrow> bool" where
  "i386_accepted r co budget \<longleftrightarrow> \<not> ir_running r \<and> \<not> ir_backend_failed r \<and> gem_i386_context_is_valid co \<and>
     (if_max_budget (ir_config r) = 0 \<or> budget \<le> if_max_budget (ir_config r))"

text \<open>The state in which the loop of an accepted run starts.\<close>

definition i386_entry :: "'b gem_i386_runtime \<Rightarrow> gem_memory \<Rightarrow> gem_i386_context \<Rightarrow> 'b i386_state" where
  "i386_entry r m c = (0, (i386_start r)\<lparr>ir_running := True\<rparr>, m, c)"

lemma i386_run_refused:
  assumes "\<not> i386_accepted r co budget"
  shows "gem_i386_runtime_run ops E fuel (Some r) m co budget =
    Some (GEM_STOP_INVARIANT_VIOLATION, Some ((i386_start r)\<lparr>ir_last_stop := zero_i386_stop\<lparr>is_reason := GEM_STOP_INVARIANT_VIOLATION\<rparr>\<rparr>), m, co)"
  using assms unfolding gem_i386_runtime_run_def option.case Let_def i386_start_def i386_accepted_def by (auto simp: not_le)

lemma i386_run_zero:
  assumes "i386_accepted r (Some c) 0"
  shows "gem_i386_runtime_run ops E fuel (Some r) m (Some c) 0 =
    Some (GEM_STOP_BUDGET_EXPIRED, Some ((i386_start r)\<lparr>ir_last_stop := zero_i386_stop\<lparr>is_reason := GEM_STOP_BUDGET_EXPIRED\<rparr>\<rparr>), m,
      Some (c\<lparr>i386_stop_reason := stop_code GEM_STOP_BUDGET_EXPIRED\<rparr>))"
  using assms unfolding gem_i386_runtime_run_def option.case Let_def i386_start_def i386_accepted_def by auto

definition i386_stop :: "gem_stop_reason \<Rightarrow> nat \<Rightarrow> 'b gem_i386_runtime \<Rightarrow> 'b gem_i386_runtime" where
  "i386_stop e n r = r\<lparr>ir_running := False, ir_last_stop := (ir_last_stop r)\<lparr>is_reason := e, is_instructions_retired := of_nat n\<rparr>\<rparr>"

lemma i386_run_loop:
  assumes a: "i386_accepted r (Some c) budget" "budget \<noteq> 0"
  shows "gem_i386_runtime_run ops E fuel (Some r) m (Some c) budget = (case i386_loop ops E fuel 0 budget (i386_entry r m c) of
      Inl _ \<Rightarrow> None
    | Inr (e, n, r, m, c) \<Rightarrow> (let e = (if e = GEM_STOP_NONE then GEM_STOP_BUDGET_EXPIRED else e)
        in Some (e, Some (i386_stop e n r), m, Some (if e \<noteq> GEM_STOP_INVARIANT_VIOLATION then c\<lparr>i386_stop_reason := stop_code e\<rparr> else c))))"
proof -
  have n: "\<not> (ir_running r \<or> ir_backend_failed r \<or> \<not> gem_i386_context_is_valid (Some c) \<or>
      (if_max_budget (ir_config r) \<noteq> 0 \<and> budget > if_max_budget (ir_config r)))"
    using a(1) by (auto simp: i386_accepted_def)
  then have *: "(if_max_budget (ir_config r) \<noteq> 0 \<and> if_max_budget (ir_config r) < budget) = False" "ir_running r = False" "ir_backend_failed r = False"
      "gem_i386_context_is_valid (Some c) = True" by auto
  show ?thesis
    unfolding gem_i386_runtime_run_def option.case Let_def i386_entry_def i386_start_def [symmetric] option.sel if_not_P [OF a(2)]
    by (simp add: i386_start_def i386_stop_def * split: sum.split)
qed

text \<open>
  (C28) A run of the i386 engine ends as soon as the other threads leave it alone: when it meets at most
  \<open>K\<close> conflicts, it returns after at most as many quanta as its budget has instructions and \<open>K\<close> more. Every
  quantum that is not a conflict retires an instruction.
\<close>

theorem i386_run_returns:
  assumes ops: "blink_ops B ops" and r: "i386_runtime_ok r"
    and K: "\<forall>fuel. i386_conflicts ops E fuel 0 budget (i386_entry r m c) \<le> K"
  shows "\<exists>x. gem_i386_runtime_run ops E (unat budget + K + 1) (Some r) m (Some c) budget = Some x"
proof (cases "i386_accepted r (Some c) budget")
  case acc: True
  show ?thesis
  proof (cases "budget = 0")
    case True
    then show ?thesis using i386_run_zero [of r c ops E "K + 1" m] acc by simp
  next
    case False
    let ?r = "(i386_start r)\<lparr>ir_running := True\<rparr>"
    have "loop_ok ?r c" "ir_transaction ?r = None" using r acc by (simp_all add: loop_ok_def i386_start_def i386_runtime_ok_def i386_accepted_def)
    moreover have "unat budget - 0 + i386_conflicts ops E (unat budget + K + 1) 0 budget (0, ?r, m, c) < unat budget + K + 1"
      using K [rule_format, of "unat budget + K + 1", unfolded i386_entry_def] by linarith
    ultimately have "\<exists>y. i386_loop ops E (unat budget + K + 1) 0 budget (i386_entry r m c) = Inr y"
      unfolding i386_entry_def by (rule loop_ends [OF ops])
    then obtain y where "i386_loop ops E (unat budget + K + 1) 0 budget (i386_entry r m c) = Inr y" by blast
    then show ?thesis unfolding i386_run_loop [OF acc False] by (simp add: Let_def split: prod.split)
  qed
qed (simp add: i386_run_refused)

text \<open>
  (C29) What a run of the i386 engine leaves. The runtime is ready for the next run, with a quantum
  between 1 and 256. A refused run touches neither context nor memory. An accepted run ends with a
  valid context, whatever the emulator and the other threads did, that records the reason of the stop
  unless it is an invariant violation; and if the emulator retires no more than it is asked to, the
  instructions retired are within the budget, and exactly the budget when the budget ended the run.
\<close>

theorem i386_run_leaves:
  assumes ops: "blink_ops B ops" and r: "i386_runtime_ok r"
    and run: "gem_i386_runtime_run ops E fuel (Some r) m co budget = Some (e, ro', m', co')"
  shows "\<exists>r'. ro' = Some r' \<and> i386_runtime_ok r' \<and> ir_backend_failed r' = ir_backend_failed r \<and>
    (if \<not> i386_accepted r co budget then e = GEM_STOP_INVARIANT_VIOLATION \<and> m' = m \<and> co' = co
     else (\<exists>c'. co' = Some c' \<and> gem_i386_context_is_valid (Some c') \<and> (e \<noteq> GEM_STOP_INVARIANT_VIOLATION \<longrightarrow> i386_stop_reason c' = stop_code e)) \<and>
       (retires_within B \<longrightarrow> (\<exists>n \<le> unat budget. is_instructions_retired (ir_last_stop r') = of_nat n \<and> (e = GEM_STOP_BUDGET_EXPIRED \<longrightarrow> n = unat budget))))"
proof (cases "i386_accepted r co budget")
  case acc: True
  then obtain c where c: "co = Some c" "gem_i386_context_is_valid (Some c)" by (cases co) (auto simp: i386_accepted_def gem_i386_context_is_valid_def)
  show ?thesis
  proof (cases "budget = 0")
    case True
    then show ?thesis using run i386_run_zero [of r c ops E fuel m] valid_i386_stop [OF c(2), of GEM_STOP_BUDGET_EXPIRED] acc c r by (auto simp: i386_runtime_ok_def i386_start_def zero_i386_stop_def)
  next
    case False
    let ?r = "(i386_start r)\<lparr>ir_running := True\<rparr>"
    have ok: "loop_ok ?r c" "ir_transaction ?r = None" using r c by (simp_all add: loop_ok_def i386_start_def i386_runtime_ok_def)
    obtain e1 n1 r1 m1 c1 where l: "i386_loop ops E fuel 0 budget (0, ?r, m, c) = Inr (e1, n1, r1, m1, c1)"
      and res: "e = (if e1 = GEM_STOP_NONE then GEM_STOP_BUDGET_EXPIRED else e1)" "ro' = Some (i386_stop e n1 r1)"
        "co' = Some (if e \<noteq> GEM_STOP_INVARIANT_VIOLATION then c1\<lparr>i386_stop_reason := stop_code e\<rparr> else c1)"
      using run unfolding c(1) i386_run_loop [OF acc [unfolded c(1)] False] i386_entry_def by (auto simp: Let_def split: sum.splits)
    note f = loop_result [OF ops ok l]
    have v: "gem_i386_context_is_valid (Some c1)" and "i386_runtime_ok (i386_stop e n1 r1)" "ir_backend_failed (i386_stop e n1 r1) = ir_backend_failed r"
        "is_instructions_retired (ir_last_stop (i386_stop e n1 r1)) = of_nat n1"
      using f by (simp_all add: loop_ok_def i386_runtime_ok_def i386_stop_def i386_start_def)
    moreover have "retires_within B \<longrightarrow> n1 \<le> unat budget \<and> (e = GEM_STOP_BUDGET_EXPIRED \<longrightarrow> n1 = unat budget)"
      using f res(1) by (auto split: if_splits)
    ultimately show ?thesis using res(2,3) acc by auto
  qed
next
  case False
  then show ?thesis using run r by (auto simp: i386_run_refused i386_runtime_ok_def i386_start_def)
qed

section \<open>State transfer\<close>

text \<open>The array lengths the C type fixes.\<close>

definition i386_shape :: "gem_i386_context \<Rightarrow> bool" where
  "i386_shape c \<longleftrightarrow> length (i386_gpr c) = 8 \<and> length (segment c) = 6 \<and> length (segment_base c) = 6 \<and> length (segment_limit c) = 6 \<and>
     length (segment_attributes c) = 6 \<and> length (i386_xmm c) = 8 \<and> length (i386_x87 c) = 8 \<and> length (tail_words c) = 5"

lemma halves_join: "ucast (ucast (w :: u32) :: u16) OR push_bit 16 (ucast (ucast (drop_bit 16 w) :: u16)) = w"
  by (rule bit_word_eqI) (auto simp: bit_or_iff bit_push_bit_iff bit_ucast_iff bit_drop_bit_eq not_less)

lemma map_upt_nth6: "length l = 6 \<Longrightarrow> map (\<lambda>i. l ! i) [0 ..< 6] = l"
  by (metis map_nth)

lemma ucast_up_down: "ucast (ucast (w :: u32) :: u64) = w"
  by (rule bit_word_eqI) (auto simp: bit_ucast_iff)

lemma flags_again: "((((w :: u32) AND NOT 0x3000) OR 0x200) AND NOT 0x3000 OR 0x200) OR 2 = (w AND NOT 0x3000) OR 0x202"
proof -
  have "((w AND NOT 0x3000) OR 0x200) AND NOT 0x3000 = (w AND NOT 0x3000) OR 0x200" by (simp add: bit.conj_disj_distrib2 and.assoc)
  moreover have "((x OR 0x200) OR 0x200) OR 2 = x OR (0x202 :: u32)" for x by (simp add: or.assoc)
  ultimately show ?thesis by (simp only:)
qed

text \<open>
  Giving a context to Blink and taking it back unchanged changes nothing but the flags word, in
  which the I/O privilege level is cleared and the interrupt flag and the reserved bit set, as for
  every user-mode thread.
\<close>

theorem i386_export_import:
  assumes "i386_shape c"
  shows "i386_export_state (i386_import_state c) c = c\<lparr>eflags := (eflags c AND NOT 0x3000) OR 0x202\<rparr>"
proof -
  have len: "length (i386_gpr c) = 8" "length (segment c) = 6" "length (segment_base c) = 6" "length (segment_limit c) = 6"
      "length (segment_attributes c) = 6" "length (i386_xmm c) = 8" "length (tail_words c) = 5"
    using assms by (simp_all add: i386_shape_def)
  let ?s = "i386_import_state c"
  have g: "map ucast (take 8 (bs_gpr ?s)) = i386_gpr c" using len(1) by (simp add: i386_import_state_def Let_def comp_def ucast_up_down)
  have x: "take 8 (bs_xmm ?s) = i386_xmm c" using len(6) by (simp add: i386_import_state_def Let_def)
  have fl: "((ucast (bs_rflags ?s) AND NOT 0x3000) OR 0x200) OR GEM_I386_EFLAGS_REQUIRED = (eflags c AND NOT 0x3000) OR 0x202"
    by (simp add: i386_import_state_def Let_def GEM_I386_EFLAGS_REQUIRED_def ucast_up_down flags_again [simplified])
  have sg: "map selector (bs_segments ?s) = segment c" "map seg_base (bs_segments ?s) = segment_base c" "map seg_limit (bs_segments ?s) = segment_limit c"
      "map seg_attributes (bs_segments ?s) = segment_attributes c"
    by (simp_all add: i386_import_state_def Let_def comp_def map_upt_nth6 len del: upt_Suc)
  have tw: "(tail_words c)[0 := bs_fip ?s, 1 := bs_fdp ?s, 2 := ucast (bs_fcs ?s) OR push_bit 16 (ucast (bs_fds ?s))] = tail_words c"
    if "i386_layout_version c \<ge> GEM_I386_CONTEXT_LAYOUT_VERSION_V2"
    using that by (simp add: i386_import_state_def Let_def env_fcs_def env_fds_def halves_join)
  have rest: "ucast (bs_rip ?s) = eip c" "bs_x87 ?s = i386_x87 c" "bs_mxcsr ?s = i386_mxcsr c" "bs_fcw ?s = i386_fcw c" "bs_fsw ?s = i386_fsw c"
      "bs_ftw ?s = i386_ftw c" "bs_fop ?s = i386_fop c"
    by (simp_all add: i386_import_state_def Let_def ucast_up_down)
  show ?thesis unfolding i386_export_state_def Let_def g x fl sg rest using tw by simp
qed

section \<open>Two observations on conflicts and system calls\<close>

text \<open>
  After a conflict the context and the count of instructions are those of the start of the quantum,
  but the memory is the one the emulator left: stores it had committed before the conflict stay, and
  the instructions that made them run again.
\<close>

lemma conflict_keeps_stores:
  assumes "gem_memory_transaction_finish (ir_transaction r) m = (GEM_MEMORY_CONFLICT, fault)" and "gem_i386_context_is_valid (Some c)"
  shows "\<exists>r'. i386_settle old n c reason out got r m = (Quantum_conflict, n, r', gem_memory_transaction_end (ir_transaction r) m, c)"
  unfolding i386_settle_def assms(1) prod.case Let_def i386_next_def by (simp add: assms(2))

section \<open>An instance\<close>

definition blink_result :: "blink_gem_outcome \<Rightarrow> u32 \<Rightarrow> blink_gem_result" where
  "blink_result oc n = \<lparr>br_outcome = oc, br_retired = n, br_fault_address = 0, br_access = 0, br_memory_error = 0, br_engine_status = 0\<rparr>"

text \<open>A machine that retires what it is asked to, and one that meets a software interrupt at once.\<close>

definition nop_i386 :: "(unit, i386_world) blink" where
  "nop_i386 = \<lparr>machine_create = (\<lambda>_ _. Some ()), machine_step = (\<lambda>b s w. (blink_result BLINK_GEM_RETIRED 1, s, b, w)),
     machine_run = (\<lambda>b q s w. (blink_result BLINK_GEM_RETIRED (instruction_budget q), s, b, w)), machine_sync = (\<lambda>b. b),
     machine_decode_attempt_info = (\<lambda>_. (True, \<lparr>at_abi_version = 1, at_size = 64, at_handler_id = 0, at_valid = True, at_name = ''OpInterruptImm''\<rparr>)),
     machine_engine_info = (\<lambda>_. (False, \<lparr>bi_engine = BLINK_GEM_ENGINE_JIT, bi_host_arch = BLINK_GEM_HOST_AARCH64, bi_jit_compilations = 0,
       bi_jit_executions = 0, bi_jit_failures = 0, bi_write_xor_execute = 1\<rparr>)),
     machine_invalidate_code = (\<lambda>b _ _. (True, b)), machine_trace_reset = (\<lambda>b. b), machine_trace_info = (\<lambda>_. Some (0, 0)),
     machine_trace_read = (\<lambda>_ _. None), handler_name = (\<lambda>_. ''OpUnknown'')\<rparr>"

definition int_i386 :: "(unit, i386_world) blink" where
  "int_i386 = nop_i386\<lparr>machine_run := (\<lambda>b q s w. (blink_result BLINK_GEM_UNSUPPORTED 0, s, b, w))\<rparr>"

definition nop_i386_runtime :: "unit gem_i386_runtime" where
  "nop_i386_runtime = the (gem_i386_runtime_create nop_i386 True (Some undefined) None)"

lemmas create_defs = gem_i386_runtime_create_def gem_i386_runtime_create_with_ops_def gem_i386_blink_jit_ops_def gem_i386_blink_create_def
  i386_config_default_def GEM_I386_ENGINE_OPS_ABI_VERSION_def GEM_I386_ENGINE_JIT_def GEM_I386_ENGINE_INTERPRETER_def GEM_I386_ENGINE_DEFAULT_def
  GEM_I386_DEFAULT_HOST_RETURN_SENTINEL_def

lemma nop_i386_created: "gem_i386_runtime_create nop_i386 True (Some m) None = Some nop_i386_runtime"
  by (simp add: nop_i386_runtime_def create_defs nop_i386_def Let_def list_ex_iff)

lemma nop_i386_ok: "i386_runtime_ok nop_i386_runtime" "i386_accepted nop_i386_runtime (Some (gem_i386_context_initialize 4096)) budget"
proof -
  show "i386_runtime_ok nop_i386_runtime"
    using nop_i386_created [of undefined] create_i386_ok unfolding gem_i386_runtime_create_def Let_def by blast
  have "gem_i386_context_is_valid (Some (gem_i386_context_initialize 4096))" by code_simp
  then show "i386_accepted nop_i386_runtime (Some (gem_i386_context_initialize 4096)) budget"
    by (simp add: i386_accepted_def nop_i386_runtime_def create_defs nop_i386_def Let_def list_ex_iff)
qed

lemma nop_no_conflict: "i386_conflicts (gem_i386_blink_jit_ops nop_i386) E fuel k budget s = 0"
proof (induction fuel arbitrary: k s)
  case (Suc fuel)
  obtain n r m c where s: "s = (n, r, m, c)" by (metis prod_cases4)
  have "fst (i386_quantum (gem_i386_blink_jit_ops nop_i386) E k budget s) \<noteq> Quantum_conflict"
    unfolding s i386_quantum_def Let_def gem_i386_blink_jit_ops_def gem_memory_transaction_begin_def
    by (simp add: gem_i386_blink_run_def gem_i386_blink_sync_def i386_call_def nop_i386_def blink_result_def Let_def i386_settle_def count_export_def
        gem_memory_transaction_finish_def i386_next_def)
  then show ?case using Suc by (auto split: prod.splits quantum_end.splits)
qed simp

lemma nop_i386_loop: "\<exists>x. i386_loop (gem_i386_blink_jit_ops nop_i386) E 6 0 5 (i386_entry nop_i386_runtime m (gem_i386_context_initialize 4096)) = Inr x"
  unfolding i386_entry_def
proof (rule loop_ends [OF blink_ops_tables(1)])
  let ?r = "(i386_start nop_i386_runtime)\<lparr>ir_running := True\<rparr>"
  show "loop_ok ?r (gem_i386_context_initialize 4096)" "ir_transaction ?r = None"
    using nop_i386_ok(1) nop_i386_ok(2) [of 0] by (simp_all add: loop_ok_def i386_start_def i386_runtime_ok_def i386_accepted_def)
  show "unat (5 :: u64) - 0 + i386_conflicts (gem_i386_blink_jit_ops nop_i386) E 6 0 5 (0, ?r, m, gem_i386_context_initialize 4096) < 6"
    by (simp add: nop_no_conflict)
qed

theorem i386_run_returns_witness:
  "\<forall>E m. \<exists>x. gem_i386_runtime_run (gem_i386_blink_jit_ops nop_i386) E (unat (5 :: u64) + 0 + 1) (Some nop_i386_runtime) m
     (Some (gem_i386_context_initialize 4096)) 5 = Some x"
  by (intro allI i386_run_returns [OF blink_ops_tables(1) nop_i386_ok(1)]) (simp add: nop_no_conflict)

theorem i386_run_leaves_witness:
  "\<forall>E m. \<exists>e r' m' c'. gem_i386_runtime_run (gem_i386_blink_jit_ops nop_i386) E 6 (Some nop_i386_runtime) m
      (Some (gem_i386_context_initialize 4096)) 5 = Some (e, Some r', m', Some c') \<and> i386_runtime_ok r' \<and> gem_i386_context_is_valid (Some c')"
proof (intro allI)
  fix E m
  let ?ops = "gem_i386_blink_jit_ops nop_i386" and ?c = "gem_i386_context_initialize 4096"
  obtain e ro' m' co' where run: "gem_i386_runtime_run ?ops E 6 (Some nop_i386_runtime) m (Some ?c) 5 = Some (e, ro', m', co')"
    using nop_i386_loop [of E m] i386_run_loop [OF nop_i386_ok(2), of 5 ?ops E 6 m] by (auto simp: Let_def split: prod.splits)
  from i386_run_leaves [OF blink_ops_tables(1) nop_i386_ok(1) run] nop_i386_ok(2) [of 5]
  obtain r' c' where "ro' = Some r'" "co' = Some c'" "i386_runtime_ok r'" "gem_i386_context_is_valid (Some c')" by auto
  then show "\<exists>e r' m' c'. gem_i386_runtime_run ?ops E 6 (Some nop_i386_runtime) m (Some ?c) 5 = Some (e, Some r', m', Some c') \<and>
      i386_runtime_ok r' \<and> gem_i386_context_is_valid (Some c')" using run by blast
qed

theorem i386_export_import_witness:
  "i386_export_state (i386_import_state (gem_i386_context_initialize 4096)) (gem_i386_context_initialize 4096) =
     (gem_i386_context_initialize 4096)\<lparr>eflags := 0x202\<rparr>"
  using i386_export_import [of "gem_i386_context_initialize 4096"]
  by (simp add: i386_shape_def gem_i386_context_initialize_def GEM_I386_EFLAGS_REQUIRED_def)

text \<open>
  A software interrupt that is the first instruction of a quantum: nothing is written to the local
  variable \<open>output\<close>, and what it happens to hold becomes the context of the thread if it looks valid.
\<close>

lemma syscall_publishes_stale:
  assumes "gem_i386_context_is_valid (Some (stale E 0))" and "starts E 0"
  shows "\<exists>r'. gem_i386_runtime_run (gem_i386_blink_jit_ops int_i386) E 2 (Some nop_i386_runtime) m (Some (gem_i386_context_initialize 4096)) 5 =
    Some (GEM_STOP_SYSCALL, Some r', m, Some ((stale E 0)\<lparr>i386_stop_reason := stop_code GEM_STOP_SYSCALL\<rparr>))"
proof -
  have "\<exists>r'. i386_quantum (gem_i386_blink_jit_ops int_i386) E 0 5 (0, r, m, c) = (Quantum_stop GEM_STOP_SYSCALL, 0, r', m, stale E 0)" for r c
    unfolding i386_quantum_def Let_def gem_i386_blink_jit_ops_def gem_memory_transaction_begin_def
    by (simp add: assms gem_i386_blink_run_def gem_i386_blink_sync_def i386_call_def int_i386_def nop_i386_def blink_result_def Let_def i386_settle_def
        gem_memory_transaction_finish_def gem_memory_transaction_end_def i386_next_def i386_unsupported_def set_status_def
        BLINK_GEM_ENGINE_STATUS_RESTARTABLE_REP_def)
  then obtain r' where q: "i386_quantum (gem_i386_blink_jit_ops int_i386) E 0 5 (i386_entry nop_i386_runtime m (gem_i386_context_initialize 4096)) =
      (Quantum_stop GEM_STOP_SYSCALL, 0, r', m, stale E 0)" unfolding i386_entry_def by blast
  have two: "(2 :: nat) = Suc 1" by simp
  have "i386_loop (gem_i386_blink_jit_ops int_i386) E 2 0 5 (i386_entry nop_i386_runtime m (gem_i386_context_initialize 4096)) =
      Inr (GEM_STOP_SYSCALL, 0, r', m, stale E 0)" unfolding two i386_loop.simps q by (simp add: i386_entry_def)
  then show ?thesis using i386_run_loop [OF nop_i386_ok(2), of 5 "gem_i386_blink_jit_ops int_i386" E 2 m] by (simp add: Let_def)
qed

end
