(* ===== verification/Gem_Arm64ec_Engine.thy ===== *)
theory Gem_Arm64ec_Engine
  imports Gem_Target Gem_Memory Gem_Context
begin

text \<open>
  The ARM64EC engine, src/gem/arm64ec_engine.c. The engine runs on a backend with the five operations
  of arm64ec_engine_internal.h; the backend is a parameter, and the one that stands in when Dynarmic is
  not built is defined here. Function pointers and opaque pointers are only stored and compared with
  null: they are addresses.
\<close>

section \<open>Data\<close>

definition GEM_ARM64EC_DEFAULT_HOST_RETURN_SENTINEL :: u64 where "GEM_ARM64EC_DEFAULT_HOST_RETURN_SENTINEL = 0xfffffffffffffff0"
definition GEM_ARM64EC_DEFAULT_ARCH_TRANSITION_SENTINEL :: u64 where "GEM_ARM64EC_DEFAULT_ARCH_TRANSITION_SENTINEL = 0xffffffffffffffe0"

text \<open>The enumerators of the two configuration enums; a configuration may hold other values.\<close>

definition GEM_ARM64EC_PROFILE_STRICT :: u32 where "GEM_ARM64EC_PROFILE_STRICT = 0"
definition GEM_ARM64EC_PROFILE_NATIVE_ARM64 :: u32 where "GEM_ARM64EC_PROFILE_NATIVE_ARM64 = 1"
definition GEM_ARM64EC_BOUNDARY_PRECISE :: u32 where "GEM_ARM64EC_BOUNDARY_PRECISE = 0"
definition GEM_ARM64EC_BOUNDARY_SVC_TRAP :: u32 where "GEM_ARM64EC_BOUNDARY_SVC_TRAP = 1"

record gem_arm64ec_runtime_config =
  af_host_return_sentinel :: u64
  af_arch_transition_sentinel :: u64
  af_max_budget :: u64
  af_max_transitions :: u64
  af_execution_profile :: u32
  af_boundary_delivery :: u32

record gem_arm64ec_stop_info =
  as_reason :: gem_stop_reason
  as_instructions_retired :: u64
  as_fault_address :: u64
  as_access :: u32
  as_memory_error :: u32
  as_engine_status :: u32

record 'd gem_arm64ec_runtime =
  ar_config :: gem_arm64ec_runtime_config
  ar_last_stop :: gem_arm64ec_stop_info
  ar_target_map :: "gem_arm64ec_target_map option"
  ar_target_resolver :: u64
  ar_target_resolver_opaque :: u64
  ar_boundary_broker :: u64
  ar_boundary_opaque :: u64
  ar_boundary_return_pc :: u64
  ar_transition_count :: u64
  ar_native_upper_simd :: "gem_u128 list"
  ar_running :: bool
  ar_backend :: 'd

record 'd arm64ec_backend =
  backend_create :: "gem_arm64ec_runtime_config \<Rightarrow> 'd option"
  backend_run :: "'d gem_arm64ec_runtime \<Rightarrow> gem_memory \<Rightarrow> gem_thread_context \<Rightarrow> u64
    \<Rightarrow> gem_stop_reason \<times> 'd gem_arm64ec_runtime \<times> gem_memory \<times> gem_thread_context"
  backend_invalidate_code :: "'d \<Rightarrow> u64 \<Rightarrow> u64 \<Rightarrow> 'd"
  backend_request_async_stop :: "'d \<Rightarrow> 'd"
  backend_engine_name :: string
  backend_engine_version :: string

text \<open>
  What is linked when Dynarmic is not built. (\<open>request_async_stop\<close> is declared but not defined there;
  without a runtime it cannot be called.)
\<close>

definition unavailable_backend :: "unit arm64ec_backend" where
  "unavailable_backend = \<lparr>backend_create = (\<lambda>_. None), backend_run = (\<lambda>r m c _. (GEM_STOP_INVARIANT_VIOLATION, r, m, c)),
     backend_invalidate_code = (\<lambda>d _ _. d), backend_request_async_stop = (\<lambda>d. d), backend_engine_name = ''unavailable'',
     backend_engine_version = ''unavailable''\<rparr>"

section \<open>Stops\<close>

definition zero_arm64ec_stop :: "gem_stop_reason \<Rightarrow> gem_arm64ec_stop_info" where
  "zero_arm64ec_stop e = \<lparr>as_reason = e, as_instructions_retired = 0, as_fault_address = 0, as_access = 0, as_memory_error = 0,
     as_engine_status = 0\<rparr>"

definition reset_stop :: "'d gem_arm64ec_runtime \<Rightarrow> gem_stop_reason \<Rightarrow> 'd gem_arm64ec_runtime" where
  "reset_stop r e = r\<lparr>ar_last_stop := zero_arm64ec_stop e\<rparr>"

definition stop_with :: "'d gem_arm64ec_runtime \<Rightarrow> gem_stop_reason \<Rightarrow> 'd gem_arm64ec_runtime" where
  "stop_with r e = r\<lparr>ar_last_stop := (ar_last_stop r)\<lparr>as_reason := e\<rparr>\<rparr>"

definition finish_stop :: "'d gem_arm64ec_runtime \<Rightarrow> gem_thread_context \<Rightarrow> gem_stop_reason
    \<Rightarrow> gem_stop_reason \<times> 'd gem_arm64ec_runtime \<times> gem_thread_context" where
  "finish_stop r c e = (e, stop_with r e, c\<lparr>stop_reason := stop_code e\<rparr>)"

definition context_is_arm64ec_valid :: "gem_thread_context option \<Rightarrow> bool" where
  "context_is_arm64ec_valid co = (case co of None \<Rightarrow> False | Some c \<Rightarrow> gem_context_is_valid c \<and> isa c = isa_code GEM_ISA_ARM64EC)"

section \<open>Creation and attachments\<close>

definition arm64ec_config_default :: gem_arm64ec_runtime_config where
  "arm64ec_config_default = \<lparr>af_host_return_sentinel = 0, af_arch_transition_sentinel = 0, af_max_budget = 0, af_max_transitions = 0,
     af_execution_profile = 0, af_boundary_delivery = 0\<rparr>"

definition fill_sentinels :: "gem_arm64ec_runtime_config \<Rightarrow> gem_arm64ec_runtime_config" where
  "fill_sentinels c =
    (let c = (if af_host_return_sentinel c = 0 then c\<lparr>af_host_return_sentinel := GEM_ARM64EC_DEFAULT_HOST_RETURN_SENTINEL\<rparr> else c)
     in if af_arch_transition_sentinel c = 0 then c\<lparr>af_arch_transition_sentinel := GEM_ARM64EC_DEFAULT_ARCH_TRANSITION_SENTINEL\<rparr> else c)"

text \<open>The zeroed runtime with its configuration and backend.\<close>

definition fresh_runtime :: "gem_arm64ec_runtime_config \<Rightarrow> 'd \<Rightarrow> 'd gem_arm64ec_runtime" where
  "fresh_runtime c d = \<lparr>ar_config = c, ar_last_stop = zero_arm64ec_stop GEM_STOP_NONE, ar_target_map = None, ar_target_resolver = 0,
     ar_target_resolver_opaque = 0, ar_boundary_broker = 0, ar_boundary_opaque = 0, ar_boundary_return_pc = 0,
     ar_transition_count = 0, ar_native_upper_simd = replicate 16 zero_u128, ar_running = False, ar_backend = d\<rparr>"

text \<open>\<open>ok\<close> says whether \<open>calloc\<close> succeeds.\<close>

definition gem_arm64ec_runtime_create :: "'d arm64ec_backend \<Rightarrow> bool \<Rightarrow> gem_memory option \<Rightarrow> gem_arm64ec_runtime_config option
    \<Rightarrow> 'd gem_arm64ec_runtime option" where
  "gem_arm64ec_runtime_create D ok mo co =
    (if mo = None \<or> \<not> ok then None
     else (let c = (case co of None \<Rightarrow> arm64ec_config_default | Some c \<Rightarrow> c)
       in if af_execution_profile c < GEM_ARM64EC_PROFILE_STRICT \<or> af_execution_profile c > GEM_ARM64EC_PROFILE_NATIVE_ARM64 \<or>
             af_boundary_delivery c < GEM_ARM64EC_BOUNDARY_PRECISE \<or> af_boundary_delivery c > GEM_ARM64EC_BOUNDARY_SVC_TRAP \<or>
             (af_boundary_delivery c = GEM_ARM64EC_BOUNDARY_SVC_TRAP \<and> af_execution_profile c \<noteq> GEM_ARM64EC_PROFILE_STRICT) then None
       else map_option (\<lambda>d. reset_stop (fresh_runtime (fill_sentinels c) d) GEM_STOP_NONE) (backend_create D (fill_sentinels c))))"

definition gem_arm64ec_runtime_attach_arm64x :: "'d arm64ec_backend \<Rightarrow> bool \<Rightarrow> (pe_block \<Rightarrow> bool) \<Rightarrow> 'd gem_arm64ec_runtime option
    \<Rightarrow> gem_pe_arm64x_image option \<Rightarrow> u64 \<Rightarrow> bool \<times> 'd gem_arm64ec_runtime option" where
  "gem_arm64ec_runtime_attach_arm64x D alloc_map alloc ro img base = (case ro of
      None \<Rightarrow> (False, ro)
    | Some r \<Rightarrow>
       (if img = None \<or> ar_running r \<or> af_execution_profile (ar_config r) \<noteq> GEM_ARM64EC_PROFILE_STRICT then (False, ro)
        else (case gem_arm64ec_target_map_create alloc_map alloc img base True of
           Inl _ \<Rightarrow> (False, ro)
         | Inr t \<Rightarrow> (True, Some (r\<lparr>ar_target_map := Some t, ar_backend := backend_invalidate_code D (ar_backend r) base (- 1)\<rparr>)))))"

definition gem_arm64ec_runtime_set_target_resolver :: "'d gem_arm64ec_runtime option \<Rightarrow> u64 \<Rightarrow> u64 \<Rightarrow> bool \<times> 'd gem_arm64ec_runtime option" where
  "gem_arm64ec_runtime_set_target_resolver ro f opaque = (case ro of
      None \<Rightarrow> (False, ro)
    | Some r \<Rightarrow>
       (if ar_running r \<or> af_execution_profile (ar_config r) \<noteq> GEM_ARM64EC_PROFILE_STRICT \<or> (f = 0) \<noteq> (opaque = 0) then (False, ro)
        else (True, Some (r\<lparr>ar_target_resolver := f, ar_target_resolver_opaque := opaque\<rparr>))))"

definition gem_arm64ec_runtime_set_boundary_broker :: "'d gem_arm64ec_runtime option \<Rightarrow> u64 \<Rightarrow> u64 \<Rightarrow> bool \<times> 'd gem_arm64ec_runtime option" where
  "gem_arm64ec_runtime_set_boundary_broker ro f opaque = (case ro of
      None \<Rightarrow> (False, ro)
    | Some r \<Rightarrow> (if ar_running r then (False, ro) else (True, Some (r\<lparr>ar_boundary_broker := f, ar_boundary_opaque := opaque\<rparr>))))"

definition gem_arm64ec_runtime_set_boundary_return_pc :: "'d gem_arm64ec_runtime option \<Rightarrow> u64 \<Rightarrow> bool \<times> 'd gem_arm64ec_runtime option" where
  "gem_arm64ec_runtime_set_boundary_return_pc ro p = (case ro of
      None \<Rightarrow> (False, ro)
    | Some r \<Rightarrow> (if ar_running r \<or> af_boundary_delivery (ar_config r) \<noteq> GEM_ARM64EC_BOUNDARY_SVC_TRAP then (False, ro)
        else (True, Some (r\<lparr>ar_boundary_return_pc := p\<rparr>))))"

definition gem_arm64ec_runtime_set_native_upper_simd :: "'d gem_arm64ec_runtime option \<Rightarrow> gem_u128 list option \<Rightarrow> bool \<times> 'd gem_arm64ec_runtime option" where
  "gem_arm64ec_runtime_set_native_upper_simd ro vs = (case (ro, vs) of
      (Some r, Some l) \<Rightarrow>
       (if ar_running r \<or> af_execution_profile (ar_config r) \<noteq> GEM_ARM64EC_PROFILE_NATIVE_ARM64 then (False, ro)
        else (True, Some (r\<lparr>ar_native_upper_simd := take 16 l\<rparr>)))
    | _ \<Rightarrow> (False, ro))"

definition gem_arm64ec_runtime_get_native_upper_simd :: "'d gem_arm64ec_runtime option \<Rightarrow> gem_u128 list option \<Rightarrow> bool \<times> gem_u128 list option" where
  "gem_arm64ec_runtime_get_native_upper_simd ro vs = (case (ro, vs) of
      (Some r, Some l) \<Rightarrow>
       (if ar_running r \<or> af_execution_profile (ar_config r) \<noteq> GEM_ARM64EC_PROFILE_NATIVE_ARM64 then (False, vs)
        else (True, Some (ar_native_upper_simd r)))
    | _ \<Rightarrow> (False, vs))"

section \<open>Running\<close>

definition gem_arm64ec_runtime_run :: "'d arm64ec_backend \<Rightarrow> 'd gem_arm64ec_runtime option \<Rightarrow> gem_memory \<Rightarrow> gem_thread_context option \<Rightarrow> u64
    \<Rightarrow> gem_stop_reason \<times> 'd gem_arm64ec_runtime option \<times> gem_memory \<times> gem_thread_context option" where
  "gem_arm64ec_runtime_run D ro m co budget = (case ro of
      None \<Rightarrow> (GEM_STOP_INVARIANT_VIOLATION, None, m, co)
    | Some r \<Rightarrow>
       (let r = (reset_stop r GEM_STOP_NONE)\<lparr>ar_transition_count := 0\<rparr>
        in if \<not> context_is_arm64ec_valid co \<or> (af_max_budget (ar_config r) \<noteq> 0 \<and> budget > af_max_budget (ar_config r))
           then (GEM_STOP_INVARIANT_VIOLATION, Some (stop_with r GEM_STOP_INVARIANT_VIOLATION), m, co)
           else (let c = the co in
             if budget = 0 then (case finish_stop r c GEM_STOP_BUDGET_EXPIRED of (e, r, c) \<Rightarrow> (e, Some r, m, Some c))
             else if ar_running r then (GEM_STOP_INVARIANT_VIOLATION, Some (stop_with r GEM_STOP_INVARIANT_VIOLATION), m, co)
             else (case backend_run D (r\<lparr>ar_running := True\<rparr>) m c budget of (e, r, m, c) \<Rightarrow>
               (let r = r\<lparr>ar_running := False\<rparr>; good = context_is_arm64ec_valid (Some c);
                    r = (if good then r else r\<lparr>ar_last_stop := (ar_last_stop r)\<lparr>as_instructions_retired := 0\<rparr>\<rparr>)
                in case finish_stop r c (if good then e else GEM_STOP_INVARIANT_VIOLATION) of (e, r, c) \<Rightarrow> (e, Some r, m, Some c))))))"

definition gem_arm64ec_runtime_request_async_stop :: "'d arm64ec_backend \<Rightarrow> 'd gem_arm64ec_runtime option \<Rightarrow> 'd gem_arm64ec_runtime option" where
  "gem_arm64ec_runtime_request_async_stop D ro = map_option (\<lambda>r. r\<lparr>ar_backend := backend_request_async_stop D (ar_backend r)\<rparr>) ro"

definition gem_arm64ec_runtime_last_stop_info :: "'d gem_arm64ec_runtime option \<Rightarrow> gem_arm64ec_stop_info option \<Rightarrow> bool \<times> gem_arm64ec_stop_info option" where
  "gem_arm64ec_runtime_last_stop_info ro out = (case (ro, out) of (Some r, Some _) \<Rightarrow> (True, Some (ar_last_stop r)) | _ \<Rightarrow> (False, out))"

definition gem_arm64ec_runtime_transition_count :: "'d gem_arm64ec_runtime option \<Rightarrow> u64" where
  "gem_arm64ec_runtime_transition_count ro = (case ro of None \<Rightarrow> 0 | Some r \<Rightarrow> ar_transition_count r)"

definition gem_arm64ec_runtime_invalidate_code :: "'d arm64ec_backend \<Rightarrow> 'd gem_arm64ec_runtime option \<Rightarrow> u64 \<Rightarrow> u64 \<Rightarrow> 'd gem_arm64ec_runtime option" where
  "gem_arm64ec_runtime_invalidate_code D ro a n = (case ro of
      None \<Rightarrow> None
    | Some r \<Rightarrow> Some (if n \<noteq> 0 then r\<lparr>ar_backend := backend_invalidate_code D (ar_backend r) a n\<rparr> else r))"

definition gem_arm64ec_runtime_engine_name :: "'d arm64ec_backend \<Rightarrow> string" where
  "gem_arm64ec_runtime_engine_name D = backend_engine_name D"

section \<open>The current runtime of a thread\<close>

text \<open>Runtimes by address; \<open>current\<close> is the thread-local pointer.\<close>

record 'd arm64ec_thread =
  runtimes :: "nat \<rightharpoonup> 'd gem_arm64ec_runtime"
  current :: "nat option"

definition gem_arm64ec_set_current_runtime :: "nat option \<Rightarrow> 'd arm64ec_thread \<Rightarrow> bool \<times> 'd arm64ec_thread" where
  "gem_arm64ec_set_current_runtime p t = (True, t\<lparr>current := p\<rparr>)"

definition gem_arm64ec_runtime_destroy :: "nat option \<Rightarrow> 'd arm64ec_thread \<Rightarrow> 'd arm64ec_thread" where
  "gem_arm64ec_runtime_destroy p t = (case p of
      None \<Rightarrow> t
    | Some a \<Rightarrow> t\<lparr>current := (if current t = Some a then None else current t), runtimes := (runtimes t)(a := None)\<rparr>)"

definition gem_run_arm64ec :: "'d arm64ec_backend \<Rightarrow> 'd arm64ec_thread \<Rightarrow> gem_memory \<Rightarrow> gem_thread_context option \<Rightarrow> u64
    \<Rightarrow> gem_stop_reason \<times> 'd arm64ec_thread \<times> gem_memory \<times> gem_thread_context option" where
  "gem_run_arm64ec D t m co budget = (case current t of
      None \<Rightarrow> (GEM_STOP_INVARIANT_VIOLATION, t, m, co)
    | Some a \<Rightarrow> (case gem_arm64ec_runtime_run D (runtimes t a) m co budget of
        (e, ro, m', co') \<Rightarrow> (e, t\<lparr>runtimes := (runtimes t)(a := ro)\<rparr>, m', co')))"

section \<open>Correctness\<close>

text \<open>
  The configuration of a runtime: default sentinels filled in, the trap delivery and the ARM64X
  attachments on the strict profile only, resolvers with their argument.
\<close>

definition arm64ec_wf :: "'d gem_arm64ec_runtime \<Rightarrow> bool" where
  "arm64ec_wf r \<longleftrightarrow> af_host_return_sentinel (ar_config r) \<noteq> 0 \<and> af_arch_transition_sentinel (ar_config r) \<noteq> 0 \<and>
     (af_execution_profile (ar_config r) = GEM_ARM64EC_PROFILE_STRICT \<or> af_execution_profile (ar_config r) = GEM_ARM64EC_PROFILE_NATIVE_ARM64) \<and>
     (af_boundary_delivery (ar_config r) = GEM_ARM64EC_BOUNDARY_SVC_TRAP \<or> ar_target_map r \<noteq> None \<or> ar_target_resolver r \<noteq> 0 \<longrightarrow>
        af_execution_profile (ar_config r) = GEM_ARM64EC_PROFILE_STRICT) \<and>
     (ar_target_resolver r = 0 \<longleftrightarrow> ar_target_resolver_opaque r = 0) \<and>
     (ar_boundary_return_pc r \<noteq> 0 \<longrightarrow> af_boundary_delivery (ar_config r) = GEM_ARM64EC_BOUNDARY_SVC_TRAP) \<and>
     length (ar_native_upper_simd r) = 16"

text \<open>What a backend leaves alone while it runs: the configuration and the attachments.\<close>

definition backend_keeps :: "'d arm64ec_backend \<Rightarrow> bool" where
  "backend_keeps D \<longleftrightarrow> (\<forall>r m c b e r' m' c'. backend_run D r m c b = (e, r', m', c') \<longrightarrow>
     ar_config r' = ar_config r \<and> ar_target_map r' = ar_target_map r \<and> ar_target_resolver r' = ar_target_resolver r \<and>
     ar_target_resolver_opaque r' = ar_target_resolver_opaque r \<and> ar_boundary_return_pc r' = ar_boundary_return_pc r \<and>
     length (ar_native_upper_simd r') = length (ar_native_upper_simd r))"

lemma unavailable_keeps: "backend_keeps unavailable_backend"
  by (simp add: backend_keeps_def unavailable_backend_def)

text \<open>The runtimes that a thread can come by through the interface.\<close>

inductive arm64ec_reachable :: "'d arm64ec_backend \<Rightarrow> 'd gem_arm64ec_runtime \<Rightarrow> bool" for D where
  created: "gem_arm64ec_runtime_create D ok mo co = Some r \<Longrightarrow> arm64ec_reachable D r"
| attached: "arm64ec_reachable D r \<Longrightarrow> gem_arm64ec_runtime_attach_arm64x D am al (Some r) img base = (ok, Some r') \<Longrightarrow> arm64ec_reachable D r'"
| resolver_set: "arm64ec_reachable D r \<Longrightarrow> gem_arm64ec_runtime_set_target_resolver (Some r) f opaque = (ok, Some r') \<Longrightarrow> arm64ec_reachable D r'"
| broker_set: "arm64ec_reachable D r \<Longrightarrow> gem_arm64ec_runtime_set_boundary_broker (Some r) f opaque = (ok, Some r') \<Longrightarrow> arm64ec_reachable D r'"
| return_pc_set: "arm64ec_reachable D r \<Longrightarrow> gem_arm64ec_runtime_set_boundary_return_pc (Some r) p = (ok, Some r') \<Longrightarrow> arm64ec_reachable D r'"
| simd_set: "arm64ec_reachable D r \<Longrightarrow> length vs = 16 \<Longrightarrow> gem_arm64ec_runtime_set_native_upper_simd (Some r) (Some vs) = (ok, Some r') \<Longrightarrow>
    arm64ec_reachable D r'"
| run: "arm64ec_reachable D r \<Longrightarrow> gem_arm64ec_runtime_run D (Some r) m c budget = (e, Some r', m', c') \<Longrightarrow> arm64ec_reachable D r'"
| stop_requested: "arm64ec_reachable D r \<Longrightarrow> gem_arm64ec_runtime_request_async_stop D (Some r) = Some r' \<Longrightarrow> arm64ec_reachable D r'"
| code_invalidated: "arm64ec_reachable D r \<Longrightarrow> gem_arm64ec_runtime_invalidate_code D (Some r) a n = Some r' \<Longrightarrow> arm64ec_reachable D r'"

lemmas arm64ec_constants = GEM_ARM64EC_PROFILE_STRICT_def GEM_ARM64EC_PROFILE_NATIVE_ARM64_def GEM_ARM64EC_BOUNDARY_PRECISE_def
  GEM_ARM64EC_BOUNDARY_SVC_TRAP_def GEM_ARM64EC_DEFAULT_HOST_RETURN_SENTINEL_def GEM_ARM64EC_DEFAULT_ARCH_TRANSITION_SENTINEL_def

lemma word_le_one: "\<not> (1 :: u32) < w \<Longrightarrow> w = 0 \<or> w = 1"
proof -
  assume "\<not> 1 < w"
  then have "unat w \<le> 1" by (simp add: word_less_nat_alt)
  then have "unat w = 0 \<or> unat w = 1" by arith
  then show ?thesis by (simp add: word_unat_eq_iff)
qed

lemma create_wf:
  assumes "gem_arm64ec_runtime_create D ok mo co = Some r"
  shows "arm64ec_wf r \<and> \<not> ar_running r"
proof -
  let ?c = "case co of None \<Rightarrow> arm64ec_config_default | Some c \<Rightarrow> c"
  have g: "\<not> af_execution_profile ?c > GEM_ARM64EC_PROFILE_NATIVE_ARM64"
      "\<not> (af_boundary_delivery ?c = GEM_ARM64EC_BOUNDARY_SVC_TRAP \<and> af_execution_profile ?c \<noteq> GEM_ARM64EC_PROFILE_STRICT)"
    using assms unfolding gem_arm64ec_runtime_create_def Let_def by (metis option.distinct(1))+
  obtain d where r: "r = reset_stop (fresh_runtime (fill_sentinels ?c) d) GEM_STOP_NONE"
    using assms unfolding gem_arm64ec_runtime_create_def Let_def by (metis (no_types, lifting) map_option_eq_Some option.distinct(1))
  have f: "af_host_return_sentinel (fill_sentinels c) \<noteq> 0" "af_arch_transition_sentinel (fill_sentinels c) \<noteq> 0"
      "af_execution_profile (fill_sentinels c) = af_execution_profile c" "af_boundary_delivery (fill_sentinels c) = af_boundary_delivery c" for c
    by (simp_all add: fill_sentinels_def Let_def arm64ec_constants)
  have "af_execution_profile ?c = 0 \<or> af_execution_profile ?c = 1" by (rule word_le_one) (use g(1) in \<open>simp add: arm64ec_constants\<close>)
  then show ?thesis using g(2) by (simp add: r reset_stop_def fresh_runtime_def arm64ec_wf_def f arm64ec_constants)
qed

lemma arm64ec_wf_update [simp]:
  "arm64ec_wf (r\<lparr>ar_backend := d\<rparr>) = arm64ec_wf r" "arm64ec_wf (r\<lparr>ar_boundary_broker := f, ar_boundary_opaque := a\<rparr>) = arm64ec_wf r"
  "length vs = 16 \<Longrightarrow> arm64ec_wf r \<Longrightarrow> arm64ec_wf (r\<lparr>ar_native_upper_simd := vs\<rparr>)"
  "af_boundary_delivery (ar_config r) = GEM_ARM64EC_BOUNDARY_SVC_TRAP \<Longrightarrow> arm64ec_wf r \<Longrightarrow> arm64ec_wf (r\<lparr>ar_boundary_return_pc := p\<rparr>)"
  "af_execution_profile (ar_config r) = GEM_ARM64EC_PROFILE_STRICT \<Longrightarrow> arm64ec_wf r \<Longrightarrow> arm64ec_wf (r\<lparr>ar_target_map := t\<rparr>)"
  "af_execution_profile (ar_config r) = GEM_ARM64EC_PROFILE_STRICT \<Longrightarrow> (f = 0) = (a = 0) \<Longrightarrow> arm64ec_wf r \<Longrightarrow>
    arm64ec_wf (r\<lparr>ar_target_resolver := f, ar_target_resolver_opaque := a\<rparr>)"
  by (simp_all add: arm64ec_wf_def)

text \<open>The three ways a run can go, from the runtime as the call prepares it.\<close>

definition run_entry :: "'d gem_arm64ec_runtime \<Rightarrow> 'd gem_arm64ec_runtime" where
  "run_entry r = (reset_stop r GEM_STOP_NONE)\<lparr>ar_transition_count := 0\<rparr>"

definition run_refused :: "'d gem_arm64ec_runtime \<Rightarrow> gem_thread_context option \<Rightarrow> u64 \<Rightarrow> bool" where
  "run_refused r co budget \<longleftrightarrow> \<not> context_is_arm64ec_valid co \<or>
     (af_max_budget (ar_config r) \<noteq> 0 \<and> budget > af_max_budget (ar_config r)) \<or> (ar_running r \<and> budget \<noteq> 0)"

lemma run_entry_simps [simp]:
  "ar_config (run_entry r) = ar_config r" "ar_running (run_entry r) = ar_running r" "arm64ec_wf (run_entry r) = arm64ec_wf r"
  "as_reason (ar_last_stop (run_entry r)) = GEM_STOP_NONE"
  by (simp_all add: run_entry_def reset_stop_def arm64ec_wf_def zero_arm64ec_stop_def)

lemma stop_with_simps [simp]:
  "ar_config (stop_with r e) = ar_config r" "ar_running (stop_with r e) = ar_running r" "arm64ec_wf (stop_with r e) = arm64ec_wf r"
  "as_reason (ar_last_stop (stop_with r e)) = e"
  "as_instructions_retired (ar_last_stop (stop_with r e)) = as_instructions_retired (ar_last_stop r)"
  by (simp_all add: stop_with_def arm64ec_wf_def)

lemma arm64ec_valid_stop_reason [simp]: "context_is_arm64ec_valid (Some (c\<lparr>stop_reason := s\<rparr>)) = context_is_arm64ec_valid (Some c)"
  by (simp add: context_is_arm64ec_valid_def gem_context_is_valid_def)

lemma run_refusal:
  assumes "run_refused r co budget"
  shows "gem_arm64ec_runtime_run D (Some r) m co budget =
    (GEM_STOP_INVARIANT_VIOLATION, Some (stop_with (run_entry r) GEM_STOP_INVARIANT_VIOLATION), m, co)"
  using assms unfolding gem_arm64ec_runtime_run_def run_refused_def option.case run_entry_def [symmetric] Let_def by auto

lemma run_idle:
  assumes "\<not> run_refused r (Some c) 0"
  shows "gem_arm64ec_runtime_run D (Some r) m (Some c) 0 = (GEM_STOP_BUDGET_EXPIRED, Some (stop_with (run_entry r) GEM_STOP_BUDGET_EXPIRED), m,
    Some (c\<lparr>stop_reason := stop_code GEM_STOP_BUDGET_EXPIRED\<rparr>))"
  using assms unfolding gem_arm64ec_runtime_run_def run_refused_def option.case run_entry_def [symmetric] Let_def by (auto simp: finish_stop_def)

lemma run_active:
  assumes "\<not> run_refused r (Some c) budget" and "budget \<noteq> 0"
    and b: "backend_run D ((run_entry r)\<lparr>ar_running := True\<rparr>) m c budget = (e1, r1, m1, c1)"
  defines "good \<equiv> context_is_arm64ec_valid (Some c1)"
  defines "r2 \<equiv> (if good then r1\<lparr>ar_running := False\<rparr>
     else r1\<lparr>ar_running := False, ar_last_stop := (ar_last_stop r1)\<lparr>as_instructions_retired := 0\<rparr>\<rparr>)"
    and "e \<equiv> (if good then e1 else GEM_STOP_INVARIANT_VIOLATION)"
  shows "gem_arm64ec_runtime_run D (Some r) m (Some c) budget = (e, Some (stop_with r2 e), m1, Some (c1\<lparr>stop_reason := stop_code e\<rparr>))"
proof -
  have n: "\<not> (\<not> context_is_arm64ec_valid (Some c) \<or> (af_max_budget (ar_config r) \<noteq> 0 \<and> budget > af_max_budget (ar_config r)))"
    and "\<not> ar_running r"
    using assms(1,2) by (auto simp: run_refused_def)
  then show ?thesis using assms(2) b
    unfolding gem_arm64ec_runtime_run_def option.case run_entry_def [symmetric] Let_def run_entry_simps if_not_P [OF n] option.sel
    by (simp add: finish_stop_def r2_def e_def good_def)
qed

lemma run_wf:
  assumes k: "backend_keeps D" and wf: "arm64ec_wf r" "\<not> ar_running r"
    and run: "gem_arm64ec_runtime_run D (Some r) m co budget = (e, Some r', m', co')"
  shows "arm64ec_wf r' \<and> \<not> ar_running r'"
proof (cases "run_refused r co budget")
  case True
  then show ?thesis using run wf by (simp add: run_refusal) (auto simp: run_refusal)
next
  case False
  then obtain c where c: "co = Some c" by (cases co) (auto simp: run_refused_def context_is_arm64ec_valid_def)
  show ?thesis
  proof (cases "budget = 0")
    case True
    then show ?thesis using run wf run_idle [of r c D m] False c by auto
  next
    case nz: False
    obtain e1 r1 m1 c1 where b: "backend_run D ((run_entry r)\<lparr>ar_running := True\<rparr>) m c budget = (e1, r1, m1, c1)" by (metis prod_cases4)
    have w: "arm64ec_wf r1" using k [unfolded backend_keeps_def, rule_format, OF b] wf(1) run_entry_simps(3) [of r] by (simp add: arm64ec_wf_def)
    then have "arm64ec_wf (r1\<lparr>ar_running := False\<rparr>)" "arm64ec_wf (r1\<lparr>ar_running := False, ar_last_stop := s\<rparr>)" for s
      by (simp_all add: arm64ec_wf_def)
    then show ?thesis using run run_active [OF False [unfolded c] nz b] c by (cases "context_is_arm64ec_valid (Some c1)") auto
  qed
qed

text \<open>
  (C36) Every runtime that the interface hands out is well-formed: the ARM64X attachments and the trap
  delivery are on the strict profile only, a resolver has its argument, the dynamic return boundary is
  set for trap delivery only, and no call leaves the runtime marked as running.
\<close>

theorem arm64ec_reachable_wf:
  assumes "backend_keeps D" and "arm64ec_reachable D r"
  shows "arm64ec_wf r \<and> \<not> ar_running r"
  using assms(2)
proof induction
  case (created ok mo co r)
  then show ?case by (rule create_wf)
next
  case (run r m c budget e r' m' c')
  then show ?case using run_wf [OF assms(1)] by blast
next
  case (attached r am al img base ok r')
  then show ?case
    by (simp add: gem_arm64ec_runtime_attach_arm64x_def split: if_splits sum.splits) auto
next
  case (resolver_set r f opaque ok r')
  then show ?case by (simp add: gem_arm64ec_runtime_set_target_resolver_def split: if_splits) auto
next
  case (broker_set r f opaque ok r')
  then show ?case by (simp add: gem_arm64ec_runtime_set_boundary_broker_def split: if_splits) auto
next
  case (return_pc_set r p ok r')
  then show ?case by (simp add: gem_arm64ec_runtime_set_boundary_return_pc_def split: if_splits) auto
next
  case (simd_set r vs ok r')
  then show ?case by (simp add: gem_arm64ec_runtime_set_native_upper_simd_def split: if_splits) auto
next
  case (stop_requested r r')
  then show ?case by (auto simp: gem_arm64ec_runtime_request_async_stop_def)
next
  case (code_invalidated r a n r')
  then show ?case by (simp add: gem_arm64ec_runtime_invalidate_code_def split: if_splits) auto
qed

text \<open>
  A run of the ARM64EC engine, whatever the backend does. A context that is not a valid ARM64EC
  context, a budget over the limit or a runtime that is already running is refused with neither context
  nor memory touched. Otherwise the context records the reason of the stop, which is an invariant
  violation unless the context is still a valid ARM64EC context, and no retired instructions are
  reported for an invalid one.
\<close>

theorem arm64ec_run_contract:
  assumes "gem_arm64ec_runtime_run D (Some r) m co budget = (e, ro', m', co')"
  shows "\<exists>r'. ro' = Some r' \<and> as_reason (ar_last_stop r') = e \<and>
    (if run_refused r co budget then e = GEM_STOP_INVARIANT_VIOLATION \<and> m' = m \<and> co' = co
     else \<exists>c'. co' = Some c' \<and> stop_reason c' = stop_code e \<and>
       (if context_is_arm64ec_valid co' then budget = 0 \<longrightarrow> e = GEM_STOP_BUDGET_EXPIRED \<and> m' = m
        else e = GEM_STOP_INVARIANT_VIOLATION \<and> as_instructions_retired (ar_last_stop r') = 0))"
proof (cases "run_refused r co budget")
  case True
  then show ?thesis using assms by (auto simp: run_refusal)
next
  case False
  then obtain c where c: "co = Some c" by (cases co) (auto simp: run_refused_def context_is_arm64ec_valid_def)
  have vc: "context_is_arm64ec_valid (Some c)" using False c by (simp add: run_refused_def)
  show ?thesis
  proof (cases "budget = 0")
    case True
    then show ?thesis using assms run_idle [of r c D m] False c vc by auto
  next
    case nz: False
    obtain e1 r1 m1 c1 where b: "backend_run D ((run_entry r)\<lparr>ar_running := True\<rparr>) m c budget = (e1, r1, m1, c1)" by (metis prod_cases4)
    show ?thesis using assms run_active [OF False [unfolded c] nz b] False nz c by (cases "context_is_arm64ec_valid (Some c1)") auto
  qed
qed

section \<open>An instance\<close>

text \<open>A backend that executes one instruction, and the runtime created on it with a resolver.\<close>

definition nop_backend :: "unit arm64ec_backend" where
  "nop_backend = unavailable_backend\<lparr>backend_create := (\<lambda>_. Some ()),
     backend_run := (\<lambda>r m c _. (GEM_STOP_BUDGET_EXPIRED, r, m, c\<lparr>pc := pc c + 4\<rparr>))\<rparr>"

definition nop_runtime :: "unit gem_arm64ec_runtime" where
  "nop_runtime = (reset_stop (fresh_runtime (fill_sentinels arm64ec_config_default) ()) GEM_STOP_NONE)
     \<lparr>ar_target_resolver := 5, ar_target_resolver_opaque := 7\<rparr>"

theorem arm64ec_reachable_wf_witness: "arm64ec_wf nop_runtime \<and> \<not> ar_running nop_runtime"
proof -
  let ?r = "reset_stop (fresh_runtime (fill_sentinels arm64ec_config_default) ()) GEM_STOP_NONE"
  have "gem_arm64ec_runtime_create nop_backend True (Some undefined) None = Some ?r"
    by (simp add: gem_arm64ec_runtime_create_def nop_backend_def arm64ec_config_default_def arm64ec_constants)
  then have r: "arm64ec_reachable nop_backend ?r" by (rule arm64ec_reachable.created)
  have c: "ar_running ?r = False" "af_execution_profile (ar_config ?r) = GEM_ARM64EC_PROFILE_STRICT"
    by (simp_all add: reset_stop_def fresh_runtime_def fill_sentinels_def arm64ec_config_default_def arm64ec_constants Let_def)
  have "gem_arm64ec_runtime_set_target_resolver (Some ?r) 5 7 = (True, Some nop_runtime)"
    by (simp add: gem_arm64ec_runtime_set_target_resolver_def nop_runtime_def c)
  then have "arm64ec_reachable nop_backend nop_runtime" by (rule arm64ec_reachable.resolver_set [OF r])
  moreover have "backend_keeps nop_backend" by (simp add: backend_keeps_def nop_backend_def)
  ultimately show ?thesis using arm64ec_reachable_wf by blast
qed

theorem arm64ec_run_contract_witness:
  "\<exists>r' c'. gem_arm64ec_runtime_run nop_backend (Some nop_runtime) undefined (Some (gem_context_initialize 8192 GEM_ISA_ARM64EC)) 3 =
     (GEM_STOP_BUDGET_EXPIRED, Some r', undefined, Some c') \<and> stop_reason c' = stop_code GEM_STOP_BUDGET_EXPIRED \<and> pc c' = 4"
proof -
  let ?c = "gem_context_initialize 8192 GEM_ISA_ARM64EC"
  have v: "context_is_arm64ec_valid (Some ?c)"
    by (simp add: context_is_arm64ec_valid_def initialize_valid_iff) (simp add: gem_context_initialize_def)
  have v': "context_is_arm64ec_valid (Some (?c\<lparr>pc := 4\<rparr>))" using v by (simp add: context_is_arm64ec_valid_def gem_context_is_valid_def)
  have n: "\<not> run_refused nop_runtime (Some ?c) 3"
    by (simp add: run_refused_def v) (simp add: nop_runtime_def reset_stop_def fresh_runtime_def fill_sentinels_def arm64ec_config_default_def Let_def)
  have b: "backend_run nop_backend ((run_entry nop_runtime)\<lparr>ar_running := True\<rparr>) undefined ?c 3 =
      (GEM_STOP_BUDGET_EXPIRED, (run_entry nop_runtime)\<lparr>ar_running := True\<rparr>, undefined, ?c\<lparr>pc := 4\<rparr>)"
    by (simp add: nop_backend_def) (simp add: gem_context_initialize_def)
  note run = run_active [OF n _ b, simplified v' if_True, simplified]
  from arm64ec_run_contract [OF run] have "stop_reason (?c\<lparr>pc := 4, stop_reason := stop_code GEM_STOP_BUDGET_EXPIRED\<rparr>) = stop_code GEM_STOP_BUDGET_EXPIRED"
    by (simp add: n)
  then show ?thesis using run by simp
qed

end
