(* ===== verification/Gem_Hybrid.thy ===== *)
theory Gem_Hybrid
  imports Gem_X64_Engine Gem_Arm64ec_Engine
begin

text \<open>
  The hybrid coordinator, src/gem/hybrid_runtime.c: state, boundary broker and the operations on its
  stack of at most two frames. The ARM64EC engine calls the broker while it runs, and the broker works
  on the coordinator, so the coordinator travels through a run as the second half of the state of the
  engine's backend. Both engines share the guest memory, an argument of every operation.
\<close>

section \<open>Data\<close>

definition GEM_HYBRID_INTERNAL_HOST_RETURN :: u64 where "GEM_HYBRID_INTERNAL_HOST_RETURN = 0xfffffffffffff800"
definition GEM_HYBRID_RUNTIME_CONFIG_VERSION :: u32 where "GEM_HYBRID_RUNTIME_CONFIG_VERSION = 1"

datatype gem_arm64ec_boundary_kind =
    GEM_ARM64EC_BOUNDARY_CHECK_ICALL
  | GEM_ARM64EC_BOUNDARY_CHECK_ICALL_CFG
  | GEM_ARM64EC_BOUNDARY_DISPATCH_CALL
  | GEM_ARM64EC_BOUNDARY_DISPATCH_RETURN

datatype gem_arm64ec_boundary_action =
    GEM_ARM64EC_BOUNDARY_NOT_HANDLED
  | GEM_ARM64EC_BOUNDARY_RESUME
  | GEM_ARM64EC_BOUNDARY_STOP
  | GEM_ARM64EC_BOUNDARY_FAIL

fun action_code :: "gem_arm64ec_boundary_action \<Rightarrow> u32" where
  "action_code GEM_ARM64EC_BOUNDARY_NOT_HANDLED = 0"
| "action_code GEM_ARM64EC_BOUNDARY_RESUME = 1"
| "action_code GEM_ARM64EC_BOUNDARY_STOP = 2"
| "action_code GEM_ARM64EC_BOUNDARY_FAIL = 3"

datatype hybrid_stage =
    HYBRID_STAGE_IDLE
  | HYBRID_STAGE_ARM_TO_X64
  | HYBRID_STAGE_ARM_ENTRY
  | HYBRID_STAGE_ARM_RETURN
  | HYBRID_STAGE_CALLBACK_X64
  | HYBRID_STAGE_CALLBACK_ARM_ENTRY

datatype hybrid_operation =
    HYBRID_OPERATION_NONE
  | HYBRID_OPERATION_ROUNDTRIP_RETURN
  | HYBRID_OPERATION_CALLBACK_RESUME
  | HYBRID_OPERATION_NESTED

record hybrid_frame =
  hf_arm_resume_pc :: u64
  hf_dispatch_sp :: u64
  hf_original_x64_sp :: u64
  hf_arm_entry_sp :: u64
  hf_x64_return :: u64
  hf_callback_target :: u64
  hf_callback_call_sp :: u64
  hf_callback_record_address :: u64
  hf_callback_resume_pc :: u64
  hf_callback_original_x64_sp :: u64
  hf_callback_arm_entry_sp :: u64
  hf_cookie :: u64
  hf_operation :: hybrid_operation
  hf_active :: bool

definition zero_frame :: hybrid_frame where
  "zero_frame = \<lparr>hf_arm_resume_pc = 0, hf_dispatch_sp = 0, hf_original_x64_sp = 0, hf_arm_entry_sp = 0, hf_x64_return = 0,
     hf_callback_target = 0, hf_callback_call_sp = 0, hf_callback_record_address = 0, hf_callback_resume_pc = 0,
     hf_callback_original_x64_sp = 0, hf_callback_arm_entry_sp = 0, hf_cookie = 0, hf_operation = HYBRID_OPERATION_NONE,
     hf_active = False\<rparr>"

datatype hybrid_generic_stage =
    HYBRID_GENERIC_IDLE
  | HYBRID_GENERIC_ARM
  | HYBRID_GENERIC_X64
  | HYBRID_GENERIC_ARM_CALLBACK

datatype hybrid_generic_callback =
    HYBRID_GENERIC_CALLBACK_NONE
  | HYBRID_GENERIC_CALLBACK_CALL
  | HYBRID_GENERIC_CALLBACK_TAIL

record hybrid_generic_frame =
  gf_cookie :: u64
  gf_arm_resume_pc :: u64
  gf_arm_resume_sp :: u64
  gf_prior_original_x64_sp :: u64
  gf_record_address :: u64
  gf_old_record :: u64
  gf_callback_resume_pc :: u64
  gf_callback_pre_call_sp :: u64
  gf_callback_arm_entry_sp :: u64
  gf_callback_prior_original_x64_sp :: u64
  gf_callback :: hybrid_generic_callback
  gf_record_written :: bool
  gf_resume_arm_callback :: bool
  gf_callback_nested :: bool

definition zero_generic_frame :: hybrid_generic_frame where
  "zero_generic_frame = \<lparr>gf_cookie = 0, gf_arm_resume_pc = 0, gf_arm_resume_sp = 0, gf_prior_original_x64_sp = 0, gf_record_address = 0,
     gf_old_record = 0, gf_callback_resume_pc = 0, gf_callback_pre_call_sp = 0, gf_callback_arm_entry_sp = 0,
     gf_callback_prior_original_x64_sp = 0, gf_callback = HYBRID_GENERIC_CALLBACK_NONE, gf_record_written = False,
     gf_resume_arm_callback = False, gf_callback_nested = False\<rparr>"

text \<open>\<open>gs_frames\<close> is the array of two frames.\<close>

record hybrid_generic_state =
  gs_frames :: "hybrid_generic_frame list"
  gs_stage :: hybrid_generic_stage
  gs_depth :: u32
  gs_native_return_pc :: u64
  gs_pending_x64_target :: u64
  gs_pending_arm_resume_pc :: u64
  gs_pending_arm_resume_sp :: u64
  gs_active :: bool
  gs_pending_dispatch :: bool
  gs_pending_callback_return :: bool
  gs_pending_native_return :: bool
  gs_boundary_failure :: u32

definition zero_generic_state :: hybrid_generic_state where
  "zero_generic_state = \<lparr>gs_frames = replicate 2 zero_generic_frame, gs_stage = HYBRID_GENERIC_IDLE, gs_depth = 0,
     gs_native_return_pc = 0, gs_pending_x64_target = 0, gs_pending_arm_resume_pc = 0, gs_pending_arm_resume_sp = 0,
     gs_active = False, gs_pending_dispatch = False, gs_pending_callback_return = False, gs_pending_native_return = False,
     gs_boundary_failure = 0\<rparr>"

text \<open>The resolver and its argument are addresses, null when there is none.\<close>

record gem_hybrid_runtime_config =
  hc_version :: u32
  hc_boundary_delivery :: u32
  hc_loaded_base :: u64
  hc_checker_helper :: u64
  hc_dispatch_call_helper :: u64
  hc_dispatch_jump_helper :: u64
  hc_dispatch_ret_helper :: u64
  hc_x64_return_sentinel :: u64
  hc_host_return_sentinel :: u64
  hc_max_budget :: u64
  hc_target_resolver :: u64
  hc_target_resolver_opaque :: u64

text \<open>The enumerators of the return mode; a runtime outside such a call holds 0.\<close>

definition GEM_HYBRID_RETURN_NORMAL :: u32 where "GEM_HYBRID_RETURN_NORMAL = 1"
definition GEM_HYBRID_RETURN_TAIL :: u32 where "GEM_HYBRID_RETURN_TAIL = 2"

datatype gem_hybrid_stop_source =
    GEM_HYBRID_STOP_SOURCE_BROKER
  | GEM_HYBRID_STOP_SOURCE_ARM64EC
  | GEM_HYBRID_STOP_SOURCE_X64

record gem_hybrid_stop_info =
  hs_reason :: gem_stop_reason
  hs_source :: gem_hybrid_stop_source
  hs_arm64ec :: gem_arm64ec_stop_info
  hs_x64 :: gem_x64_stop_info

definition zero_hybrid_stop :: gem_hybrid_stop_info where
  "zero_hybrid_stop = \<lparr>hs_reason = GEM_STOP_NONE, hs_source = GEM_HYBRID_STOP_SOURCE_BROKER,
     hs_arm64ec = zero_arm64ec_stop GEM_STOP_NONE, hs_x64 = zero_stop\<rparr>"

record gem_hybrid_roundtrip_stats =
  st_arm64ec_instructions_retired :: u64
  st_x64_instructions_retired :: u64
  st_checker_boundaries :: u64
  st_dispatch_call_boundaries :: u64
  st_x64_to_arm64ec_boundaries :: u64
  st_descriptor_resolutions :: u64
  st_dispatch_ret_boundaries :: u64
  st_frame_pushes :: u64
  st_frame_pops :: u64
  st_maximum_frame_depth :: u32
  st_final_frame_depth :: u32

definition zero_stats :: gem_hybrid_roundtrip_stats where
  "zero_stats = \<lparr>st_arm64ec_instructions_retired = 0, st_x64_instructions_retired = 0, st_checker_boundaries = 0,
     st_dispatch_call_boundaries = 0, st_x64_to_arm64ec_boundaries = 0, st_descriptor_resolutions = 0,
     st_dispatch_ret_boundaries = 0, st_frame_pushes = 0, st_frame_pops = 0, st_maximum_frame_depth = 0,
     st_final_frame_depth = 0\<rparr>"

text \<open>The coordinator without its memory and its two engines.\<close>

record hybrid_core =
  hr_map :: "gem_arm64ec_target_map option"
  hr_config :: gem_hybrid_runtime_config
  hr_frame :: hybrid_frame
  hr_nested_frame :: hybrid_frame
  hr_stats :: gem_hybrid_roundtrip_stats
  hr_last_stop :: gem_hybrid_stop_info
  hr_stage :: hybrid_stage
  hr_generation :: u64
  hr_running :: bool
  hr_return_mode :: u32
  hr_expected_x64_target :: u64
  hr_expected_nested_x64_target :: u64
  hr_generic :: hybrid_generic_state
  hr_async_stop_requested :: bool

text \<open>The coordinator half of \<open>hy_arm\<close> is meaningful only while that engine runs.\<close>

record ('d, 'b) gem_hybrid_runtime =
  hy_core :: hybrid_core
  hy_arm :: "('d \<times> hybrid_core) gem_arm64ec_runtime"
  hy_x64 :: "'b gem_x64_runtime"

text \<open>Counters and parts of the coordinator.\<close>

definition bump_stat :: "((u64 \<Rightarrow> u64) \<Rightarrow> gem_hybrid_roundtrip_stats \<Rightarrow> gem_hybrid_roundtrip_stats) \<Rightarrow> hybrid_core \<Rightarrow> hybrid_core" where
  "bump_stat field h = h\<lparr>hr_stats := field (\<lambda>n. n + 1) (hr_stats h)\<rparr>"

definition next_cookie :: "hybrid_core \<Rightarrow> hybrid_core" where
  "next_cookie h = h\<lparr>hr_generation := (if hr_generation h = - 1 then 1 else hr_generation h + 1)\<rparr>"

section \<open>Targets\<close>

text \<open>What is found at the address of a resolver, applied to its argument and the address to resolve.\<close>

type_synonym resolvers = "u64 \<Rightarrow> u64 \<Rightarrow> u64 \<Rightarrow> gem_arm64ec_target_status + gem_arm64ec_target_result"

definition hybrid_resolve :: "resolvers \<Rightarrow> hybrid_core \<Rightarrow> u64 \<Rightarrow> gem_arm64ec_target_status + gem_arm64ec_target_result" where
  "hybrid_resolve R h va =
    (if hc_target_resolver (hr_config h) \<noteq> 0 then R (hc_target_resolver (hr_config h)) (hc_target_resolver_opaque (hr_config h)) va
     else gem_arm64ec_target_resolve (hr_map h) va True)"

text \<open>The test \<open>resolve(va) == OK && kind == X64_BOUNDARY\<close> and its target.\<close>

definition resolve_x64 :: "resolvers \<Rightarrow> hybrid_core \<Rightarrow> u64 \<Rightarrow> gem_arm64ec_target_result option" where
  "resolve_x64 R h va = (case hybrid_resolve R h va of
      Inl _ \<Rightarrow> None | Inr t \<Rightarrow> if kind t = Some GEM_ARM64EC_TARGET_X64_BOUNDARY then Some t else None)"

definition hybrid_checker_dispatch :: "resolvers \<Rightarrow> hybrid_core \<Rightarrow> gem_thread_context
    \<Rightarrow> gem_arm64ec_target_status + gem_arm64ec_target_result \<times> gem_thread_context" where
  "hybrid_checker_dispatch R h c =
    rbind (guard_that (gem_context_is_valid c \<and> isa c = isa_code GEM_ISA_ARM64EC) GEM_ARM64EC_TARGET_INVALID_ARGUMENT) (\<lambda>_.
    rbind (hybrid_resolve R h (x c ! 11)) (\<lambda>target.
    if kind target = Some GEM_ARM64EC_TARGET_X64_BOUNDARY
    then rbind (hybrid_resolve R h (x c ! 10)) (\<lambda>exit_thunk.
      if kind exit_thunk = Some GEM_ARM64EC_TARGET_X64_BOUNDARY then Inl GEM_ARM64EC_TARGET_NOT_EXECUTABLE
      else Inr (target, c\<lparr>x := (x c)[9 := x c ! 11, 11 := resolved_va exit_thunk]\<rparr>))
    else Inr (target, c)))"

definition hybrid_descriptor_resolve :: "resolvers \<Rightarrow> hybrid_core \<Rightarrow> gem_memory \<Rightarrow> u64
    \<Rightarrow> (gem_arm64ec_target_status + gem_arm64ec_target_result) \<times> gem_memory" where
  "hybrid_descriptor_resolve R h m descriptor_va =
    (if descriptor_va > - 1 - 4 then (Inl GEM_ARM64EC_TARGET_INVALID_ARGUMENT, m)
     else (case gem_memory_read (Some m) descriptor_va (Some (replicate 4 0)) 4 of
       (e, b, mo) \<Rightarrow>
        ((if e \<noteq> GEM_MEMORY_OK then Inl GEM_ARM64EC_TARGET_MEMORY_FAULT
          else (let encoded = le_word (case b of None \<Rightarrow> [] | Some l \<Rightarrow> l) :: u32; function_va = descriptor_va + 4;
                    offset = ucast (encoded AND NOT 3)
                in if function_va > - 1 - offset then Inl GEM_ARM64EC_TARGET_OVERFLOW
                   else hybrid_resolve R h (function_va + offset))),
         case mo of None \<Rightarrow> m | Some m' \<Rightarrow> m')))"

section \<open>Frame contracts\<close>

record gem_hybrid_frame_contract =
  ct_expected_cookie :: u64
  ct_observed_cookie :: u64
  ct_expected_return_pc :: u64
  ct_observed_return_pc :: u64
  ct_expected_sp :: u64
  ct_observed_sp :: u64
  ct_expected_original_x64_sp :: u64
  ct_observed_original_x64_sp :: u64
  ct_expected_record :: u64
  ct_observed_record :: u64
  ct_depth :: u32
  ct_maximum_depth :: u32
  ct_active :: bool
  ct_require_record :: bool
  ct_record_readable :: bool

definition gem_hybrid_frame_contract_validate :: "gem_hybrid_frame_contract option \<Rightarrow> bool" where
  "gem_hybrid_frame_contract_validate co = (case co of
      None \<Rightarrow> False
    | Some k \<Rightarrow> ct_active k \<and> ct_depth k \<noteq> 0 \<and> ct_depth k \<le> ct_maximum_depth k \<and> ct_maximum_depth k = 2 \<and>
        ct_expected_cookie k \<noteq> 0 \<and> ct_observed_cookie k = ct_expected_cookie k \<and>
        ct_observed_return_pc k = ct_expected_return_pc k \<and> ct_observed_sp k = ct_expected_sp k \<and>
        ct_observed_original_x64_sp k = ct_expected_original_x64_sp k \<and>
        (\<not> ct_require_record k \<or> (ct_record_readable k \<and> ct_observed_record k = ct_expected_record k)))"

section \<open>Stack records\<close>

text \<open>A 64-bit read of guest memory into a variable that holds 0: whether it succeeds, the variable, the memory.\<close>

definition read_record :: "gem_memory \<Rightarrow> u64 \<Rightarrow> bool \<times> u64 \<times> gem_memory" where
  "read_record m a = (case gem_memory_read (Some m) a (Some (replicate 8 0)) 8 of
     (e, b, mo) \<Rightarrow> (e = GEM_MEMORY_OK, le_word (case b of None \<Rightarrow> [] | Some l \<Rightarrow> l), case mo of None \<Rightarrow> m | Some m' \<Rightarrow> m'))"

text \<open>\<open>ok\<close> says whether the transaction can be allocated.\<close>

definition stack_record_supported :: "(u64 \<Rightarrow> nat \<Rightarrow> bool) \<Rightarrow> bool \<Rightarrow> gem_memory \<Rightarrow> u64 \<Rightarrow> bool \<times> gem_memory" where
  "stack_record_supported accessible ok m a = (case gem_memory_transaction_begin ok (Some m) of
      None \<Rightarrow> (False, m)
    | Some t \<Rightarrow>
       (case gem_memory_transaction_snapshot_page accessible (Some t) m (a AND NOT 4095) True of
         (e, out, t', m') \<Rightarrow>
          (e = GEM_MEMORY_OK \<and> (case out of None \<Rightarrow> 0 | Some (_, prot) \<Rightarrow> prot) = GEM_PAGE_READWRITE,
           gem_memory_transaction_end t' m')))"

text \<open>The status, \<open>*old_value\<close> when it is written, and the memory.\<close>

definition replace_stack_record :: "(u64 \<Rightarrow> nat \<Rightarrow> bool) \<Rightarrow> bool \<Rightarrow> gem_memory \<Rightarrow> u64 \<Rightarrow> u64
    \<Rightarrow> gem_memory_error \<times> u64 option \<times> gem_memory" where
  "replace_stack_record accessible ok m a value =
    (let page_address = a AND NOT 4095; offset = unat (a - page_address)
     in if offset > 4096 - 8 then (GEM_MEMORY_INVALID_ARGUMENT, None, m)
     else (case gem_memory_transaction_begin ok (Some m) of
        None \<Rightarrow> (GEM_MEMORY_INVALID_ARGUMENT, None, m)
      | Some t \<Rightarrow>
         (case gem_memory_transaction_snapshot_page accessible (Some t) m page_address True of
           (e, out, t', m') \<Rightarrow>
            (if e \<noteq> GEM_MEMORY_OK then (e, None, gem_memory_transaction_end t' m')
             else (case out of
                None \<Rightarrow> (GEM_MEMORY_ACCESS_DENIED, None, gem_memory_transaction_end t' m')
              | Some (page, prot) \<Rightarrow>
                 (if prot \<noteq> GEM_PAGE_READWRITE then (GEM_MEMORY_ACCESS_DENIED, None, gem_memory_transaction_end t' m')
                  else (let page' = take offset page @ le_bytes 8 value @ drop (offset + 8) page
                        in case gem_memory_transaction_commit_pages t' m'
                             (Some [\<lparr>wr_address = page_address, wr_data = Some page'\<rparr>]) 1 of
                          ((e', _, _), t'', m'') \<Rightarrow>
                            (e', Some (le_word (take 8 (drop offset page))), gem_memory_transaction_end t'' m''))))))))"

section \<open>The boundary broker\<close>

definition generic_current_frame :: "hybrid_generic_state \<Rightarrow> hybrid_generic_frame option" where
  "generic_current_frame g = (if gs_depth g = 0 \<or> gs_depth g > 2 then None else Some (gs_frames g ! (unat (gs_depth g) - 1)))"

definition set_current_frame :: "hybrid_generic_frame \<Rightarrow> hybrid_generic_state \<Rightarrow> hybrid_generic_state" where
  "set_current_frame f g = g\<lparr>gs_frames := (gs_frames g)[unat (gs_depth g) - 1 := f]\<rparr>"

text \<open>What is wrong with a return to x64 code, one bit each.\<close>

definition return_failure :: "hybrid_generic_state \<Rightarrow> gem_thread_context \<Rightarrow> u32" where
  "return_failure g c =
    (if gs_stage g \<noteq> HYBRID_GENERIC_ARM_CALLBACK then 1 else 0) OR
    (if gs_pending_callback_return g then push_bit 3 1 else 0) OR
    (case generic_current_frame g of
       None \<Rightarrow> push_bit 1 1
     | Some f \<Rightarrow>
        (if gf_callback f = HYBRID_GENERIC_CALLBACK_NONE then push_bit 2 1 else 0) OR
        (if transition_cookie c \<noteq> gf_cookie f then push_bit 4 1 else 0) OR
        (if x c ! 30 \<noteq> gf_callback_resume_pc f then push_bit 5 1 else 0) OR
        (if sp c \<noteq> gf_callback_arm_entry_sp f then push_bit 6 1 else 0) OR
        (if original_x64_sp c \<noteq> gf_callback_pre_call_sp f then push_bit 7 1 else 0))"

text \<open>The action, \<open>*out_kind\<close> when it is written, the coordinator and the context.\<close>

definition generic_boundary :: "resolvers \<Rightarrow> u64 \<Rightarrow> hybrid_core \<Rightarrow> gem_thread_context
    \<Rightarrow> gem_arm64ec_boundary_action \<times> gem_arm64ec_boundary_kind option \<times> hybrid_core \<times> gem_thread_context" where
  "generic_boundary R p h c =
    (if \<not> gs_active (hr_generic h) then (GEM_ARM64EC_BOUNDARY_NOT_HANDLED, None, h, c)
     else (let g = (hr_generic h)\<lparr>gs_boundary_failure := 0\<rparr>; h = h\<lparr>hr_generic := g\<rparr>; k = hr_config h
     in if x c ! 18 \<noteq> teb c \<or> (gs_stage g \<noteq> HYBRID_GENERIC_ARM \<and> gs_stage g \<noteq> HYBRID_GENERIC_ARM_CALLBACK)
     then (GEM_ARM64EC_BOUNDARY_FAIL, None, h\<lparr>hr_generic := g\<lparr>gs_boundary_failure := 0x47420001\<rparr>\<rparr>, c)
     else if p = hc_checker_helper k
     then (case hybrid_checker_dispatch R h c of
         Inl _ \<Rightarrow> (GEM_ARM64EC_BOUNDARY_FAIL, Some GEM_ARM64EC_BOUNDARY_CHECK_ICALL, h, c)
       | Inr (_, c) \<Rightarrow> (GEM_ARM64EC_BOUNDARY_RESUME, Some GEM_ARM64EC_BOUNDARY_CHECK_ICALL, bump_stat st_checker_boundaries_update h,
           c\<lparr>pc := x c ! 30\<rparr>))
     else if p = hc_dispatch_call_helper k \<or> (hc_dispatch_jump_helper k \<noteq> 0 \<and> p = hc_dispatch_jump_helper k)
     then (case (if gs_pending_dispatch g \<or> gs_depth g \<ge> 2 then None else resolve_x64 R h (x c ! 9)) of
         None \<Rightarrow> (GEM_ARM64EC_BOUNDARY_FAIL, Some GEM_ARM64EC_BOUNDARY_DISPATCH_CALL, h, c)
       | Some target \<Rightarrow> (GEM_ARM64EC_BOUNDARY_STOP, Some GEM_ARM64EC_BOUNDARY_DISPATCH_CALL,
           bump_stat st_dispatch_call_boundaries_update (h\<lparr>hr_generic := g\<lparr>gs_pending_x64_target := resolved_va target,
             gs_pending_arm_resume_pc := x c ! 30, gs_pending_arm_resume_sp := sp c, gs_pending_dispatch := True\<rparr>\<rparr>), c))
     else if p = hc_dispatch_ret_helper k
     then (let failure = return_failure g c
       in if failure \<noteq> 0
       then (GEM_ARM64EC_BOUNDARY_FAIL, Some GEM_ARM64EC_BOUNDARY_DISPATCH_RETURN,
         h\<lparr>hr_generic := g\<lparr>gs_boundary_failure := 0x47520000 OR failure\<rparr>\<rparr>, c)
       else (GEM_ARM64EC_BOUNDARY_STOP, Some GEM_ARM64EC_BOUNDARY_DISPATCH_RETURN,
         bump_stat st_dispatch_ret_boundaries_update (h\<lparr>hr_generic := g\<lparr>gs_pending_callback_return := True\<rparr>\<rparr>), c))
     else if gs_depth g = 0 \<and> gs_stage g = HYBRID_GENERIC_ARM \<and> p = gs_native_return_pc g
     then (GEM_ARM64EC_BOUNDARY_STOP, Some GEM_ARM64EC_BOUNDARY_DISPATCH_RETURN,
       h\<lparr>hr_generic := g\<lparr>gs_pending_native_return := True\<rparr>\<rparr>, c)
     else (GEM_ARM64EC_BOUNDARY_NOT_HANDLED, None, h, c)))"

text \<open>The boundaries of the bounded operations: the checker on the way out and from a nested callback.\<close>

definition boundary_checker :: "resolvers \<Rightarrow> hybrid_core \<Rightarrow> gem_thread_context
    \<Rightarrow> gem_arm64ec_boundary_action \<times> gem_arm64ec_boundary_kind option \<times> hybrid_core \<times> gem_thread_context" where
  "boundary_checker R h c =
    (if st_checker_boundaries (hr_stats h) \<noteq> 0 then (GEM_ARM64EC_BOUNDARY_FAIL, None, h, c)
     else if hr_return_mode h \<noteq> 0
     then (case resolve_x64 R h (x c ! 11) of
         Some target \<Rightarrow>
          (if resolved_va target \<noteq> hr_expected_x64_target h
           then (GEM_ARM64EC_BOUNDARY_FAIL, Some GEM_ARM64EC_BOUNDARY_CHECK_ICALL, h, c)
           else (GEM_ARM64EC_BOUNDARY_RESUME, Some GEM_ARM64EC_BOUNDARY_CHECK_ICALL, bump_stat st_checker_boundaries_update h,
             c\<lparr>pc := x c ! 30\<rparr>))
       | None \<Rightarrow> (GEM_ARM64EC_BOUNDARY_FAIL, Some GEM_ARM64EC_BOUNDARY_CHECK_ICALL, h, c))
     else (case hybrid_checker_dispatch R h c of
         Inl _ \<Rightarrow> (GEM_ARM64EC_BOUNDARY_FAIL, Some GEM_ARM64EC_BOUNDARY_CHECK_ICALL_CFG, h, c)
       | Inr (target, c) \<Rightarrow>
          (if kind target \<noteq> Some GEM_ARM64EC_TARGET_X64_BOUNDARY \<or> x c ! 11 \<noteq> x c ! 10 \<or>
              (hr_expected_x64_target h \<noteq> 0 \<and> resolved_va target \<noteq> hr_expected_x64_target h)
           then (GEM_ARM64EC_BOUNDARY_FAIL, Some GEM_ARM64EC_BOUNDARY_CHECK_ICALL_CFG, h, c)
           else (GEM_ARM64EC_BOUNDARY_RESUME, Some GEM_ARM64EC_BOUNDARY_CHECK_ICALL_CFG, bump_stat st_checker_boundaries_update h,
             c\<lparr>pc := x c ! 30\<rparr>))))"

definition boundary_nested_checker :: "resolvers \<Rightarrow> hybrid_core \<Rightarrow> gem_thread_context
    \<Rightarrow> gem_arm64ec_boundary_action \<times> gem_arm64ec_boundary_kind option \<times> hybrid_core \<times> gem_thread_context" where
  "boundary_nested_checker R h c =
    (case (if st_checker_boundaries (hr_stats h) \<noteq> 1 \<or> hf_active (hr_nested_frame h) then None else resolve_x64 R h (x c ! 11)) of
       None \<Rightarrow> (GEM_ARM64EC_BOUNDARY_FAIL, Some GEM_ARM64EC_BOUNDARY_CHECK_ICALL, h, c)
     | Some target \<Rightarrow>
        (if resolved_va target \<noteq> hr_expected_nested_x64_target h
         then (GEM_ARM64EC_BOUNDARY_FAIL, Some GEM_ARM64EC_BOUNDARY_CHECK_ICALL, h, c)
         else (GEM_ARM64EC_BOUNDARY_RESUME, Some GEM_ARM64EC_BOUNDARY_CHECK_ICALL, bump_stat st_checker_boundaries_update h,
           c\<lparr>pc := x c ! 30\<rparr>)))"

definition boundary_dispatch_call :: "resolvers \<Rightarrow> hybrid_core \<Rightarrow> gem_thread_context
    \<Rightarrow> gem_arm64ec_boundary_action \<times> gem_arm64ec_boundary_kind option \<times> hybrid_core \<times> gem_thread_context" where
  "boundary_dispatch_call R h c =
    (case (if st_dispatch_call_boundaries (hr_stats h) \<noteq> 0 \<or> hf_active (hr_frame h) then None else resolve_x64 R h (x c ! 9)) of
       None \<Rightarrow> (GEM_ARM64EC_BOUNDARY_FAIL, Some GEM_ARM64EC_BOUNDARY_DISPATCH_CALL, h, c)
     | Some target \<Rightarrow>
        (if hr_expected_x64_target h \<noteq> 0 \<and> resolved_va target \<noteq> hr_expected_x64_target h
         then (GEM_ARM64EC_BOUNDARY_FAIL, Some GEM_ARM64EC_BOUNDARY_DISPATCH_CALL, h, c)
         else (GEM_ARM64EC_BOUNDARY_STOP, Some GEM_ARM64EC_BOUNDARY_DISPATCH_CALL,
           bump_stat st_dispatch_call_boundaries_update (h\<lparr>hr_frame := (hr_frame h)\<lparr>hf_arm_resume_pc := x c ! 30, hf_dispatch_sp := sp c,
             hf_x64_return := hc_x64_return_sentinel (hr_config h)\<rparr>\<rparr>), c)))"

text \<open>The contract of a return, from the frame and the context; \<open>readable\<close> and \<open>record\<close> come from the read of the call record.\<close>

definition return_contract :: "hybrid_core \<Rightarrow> gem_thread_context \<Rightarrow> bool \<Rightarrow> u64 \<Rightarrow> gem_hybrid_frame_contract" where
  "return_contract h c readable record =
    (let f = hr_frame h; callback = (hr_stage h = HYBRID_STAGE_CALLBACK_ARM_ENTRY) in
     \<lparr>ct_expected_cookie = hf_cookie f, ct_observed_cookie = transition_cookie c,
      ct_expected_return_pc = (if callback then hf_callback_resume_pc f else hf_x64_return f), ct_observed_return_pc = x c ! 30,
      ct_expected_sp = (if callback then hf_callback_arm_entry_sp f else hf_arm_entry_sp f), ct_observed_sp = sp c,
      ct_expected_original_x64_sp = (if callback then hf_callback_original_x64_sp f else hf_original_x64_sp f),
      ct_observed_original_x64_sp = original_x64_sp c, ct_expected_record = hf_callback_resume_pc f, ct_observed_record = record,
      ct_depth = (if hf_active (hr_nested_frame h) then 2 else if hf_active f then 1 else 0), ct_maximum_depth = 2,
      ct_active = hf_active f, ct_require_record = (callback \<and> hf_operation f = HYBRID_OPERATION_CALLBACK_RESUME),
      ct_record_readable = readable\<rparr>)"

definition boundary_dispatch_ret :: "hybrid_core \<Rightarrow> gem_memory \<Rightarrow> gem_thread_context
    \<Rightarrow> gem_arm64ec_boundary_action \<times> gem_arm64ec_boundary_kind option \<times> hybrid_core \<times> gem_memory \<times> gem_thread_context" where
  "boundary_dispatch_ret h m c =
    (let f = hr_frame h; callback = (hr_stage h = HYBRID_STAGE_CALLBACK_ARM_ENTRY)
     in case (if callback \<and> hf_operation f = HYBRID_OPERATION_CALLBACK_RESUME then read_record m (hf_callback_record_address f)
              else (False, 0, m)) of
       (readable, record, m') \<Rightarrow>
        (let operation_valid = (if callback then hf_operation f = HYBRID_OPERATION_CALLBACK_RESUME \<or> hf_operation f = HYBRID_OPERATION_NESTED
                                else hf_operation f = HYBRID_OPERATION_ROUNDTRIP_RETURN)
         in if \<not> operation_valid \<or> \<not> gem_hybrid_frame_contract_validate (Some (return_contract h c readable record)) \<or>
               st_dispatch_ret_boundaries (hr_stats h) \<noteq> 0
            then (GEM_ARM64EC_BOUNDARY_FAIL, Some GEM_ARM64EC_BOUNDARY_DISPATCH_RETURN, h, m', c)
            else (GEM_ARM64EC_BOUNDARY_STOP, Some GEM_ARM64EC_BOUNDARY_DISPATCH_RETURN, bump_stat st_dispatch_ret_boundaries_update h, m', c)))"

text \<open>The broker as the engine calls it.\<close>

type_synonym hybrid_broker = "u64 \<Rightarrow> hybrid_core \<Rightarrow> gem_memory \<Rightarrow> gem_thread_context
  \<Rightarrow> gem_arm64ec_boundary_action \<times> gem_arm64ec_boundary_kind option \<times> hybrid_core \<times> gem_memory \<times> gem_thread_context"

definition with_memory :: "gem_memory \<Rightarrow> gem_arm64ec_boundary_action \<times> gem_arm64ec_boundary_kind option \<times> hybrid_core \<times> gem_thread_context
    \<Rightarrow> gem_arm64ec_boundary_action \<times> gem_arm64ec_boundary_kind option \<times> hybrid_core \<times> gem_memory \<times> gem_thread_context" where
  "with_memory m s = (case s of (a, k, h, c) \<Rightarrow> (a, k, h, m, c))"

definition hybrid_boundary :: "resolvers \<Rightarrow> hybrid_broker" where
  "hybrid_boundary R p h m c =
    (if gs_active (hr_generic h) then with_memory m (generic_boundary R p h c)
     else if x c ! 18 \<noteq> teb c then (GEM_ARM64EC_BOUNDARY_FAIL, None, h, m, c)
     else if hr_stage h = HYBRID_STAGE_ARM_TO_X64 \<and> p = hc_checker_helper (hr_config h) then with_memory m (boundary_checker R h c)
     else if hr_stage h = HYBRID_STAGE_CALLBACK_ARM_ENTRY \<and> hf_operation (hr_frame h) = HYBRID_OPERATION_NESTED \<and>
             p = hc_checker_helper (hr_config h) then with_memory m (boundary_nested_checker R h c)
     else if hr_stage h = HYBRID_STAGE_ARM_TO_X64 \<and> p = hc_dispatch_call_helper (hr_config h)
     then with_memory m (boundary_dispatch_call R h c)
     else if (hr_stage h = HYBRID_STAGE_ARM_ENTRY \<or> hr_stage h = HYBRID_STAGE_CALLBACK_ARM_ENTRY) \<and>
             p = hc_dispatch_ret_helper (hr_config h) then boundary_dispatch_ret h m c
     else if hr_stage h = HYBRID_STAGE_ARM_RETURN \<and> p = hc_host_return_sentinel (hr_config h)
     then (GEM_ARM64EC_BOUNDARY_RESUME, Some GEM_ARM64EC_BOUNDARY_DISPATCH_RETURN, h, m, c\<lparr>pc := GEM_HYBRID_INTERNAL_HOST_RETURN\<rparr>)
     else (GEM_ARM64EC_BOUNDARY_NOT_HANDLED, None, h, m, c))"

end
