(* ===== verification/Gem_Hybrid_Run.thy ===== *)
theory Gem_Hybrid_Run
  imports Gem_Hybrid
begin

text \<open>
  The stateful coordinator of src/gem/hybrid_runtime.c: creation, frames pushed and popped between the
  engines, and the loop of \<open>gem_hybrid_runtime_run\<close>.
\<close>

section \<open>Parameters\<close>

text \<open>
  The code the coordinator is linked with: the backend of the ARM64EC engine, which is handed the
  broker it calls, Blink, the resolvers, and the host's view of external pages.
\<close>

record ('d, 'b) hybrid_parts =
  hp_backend :: "hybrid_broker \<Rightarrow> ('d \<times> hybrid_core) arm64ec_backend"
  hp_blink :: "('b, x64_world) blink"
  hp_resolver :: resolvers
  hp_accessible :: "u64 \<Rightarrow> nat \<Rightarrow> bool"

text \<open>
  What happens around a run, per iteration of its loop: whether another thread asks it to stop before
  the poll, what the x64 engine meets, and which transactions can be allocated.
\<close>

record hybrid_environment =
  hv_requests :: "nat \<Rightarrow> bool"
  hv_x64 :: "nat \<Rightarrow> x64_environment"
  hv_begins :: "nat \<Rightarrow> nat \<Rightarrow> bool"

definition arm_engine :: "('d, 'b) hybrid_parts \<Rightarrow> ('d \<times> hybrid_core) arm64ec_backend" where
  "arm_engine P = hp_backend P (hybrid_boundary (hp_resolver P))"

text \<open>A run of the ARM64EC engine with the coordinator behind its broker.\<close>

definition run_arm :: "('d, 'b) hybrid_parts \<Rightarrow> ('d, 'b) gem_hybrid_runtime \<Rightarrow> gem_memory \<Rightarrow> gem_thread_context \<Rightarrow> u64
    \<Rightarrow> gem_stop_reason \<times> ('d, 'b) gem_hybrid_runtime \<times> gem_memory \<times> gem_thread_context" where
  "run_arm P y m c budget =
    (case gem_arm64ec_runtime_run (arm_engine P)
            (Some ((hy_arm y)\<lparr>ar_backend := (fst (ar_backend (hy_arm y)), hy_core y)\<rparr>)) m (Some c) budget of
       (e, ro, m', co) \<Rightarrow>
        (e, case ro of None \<Rightarrow> y | Some r \<Rightarrow> y\<lparr>hy_arm := r, hy_core := snd (ar_backend r)\<rparr>, m', case co of None \<Rightarrow> c | Some c' \<Rightarrow> c'))"

definition run_x64 :: "('d, 'b) hybrid_parts \<Rightarrow> x64_environment \<Rightarrow> ('d, 'b) gem_hybrid_runtime \<Rightarrow> gem_memory \<Rightarrow> gem_thread_context
    \<Rightarrow> gem_stop_reason \<times> ('d, 'b) gem_hybrid_runtime \<times> gem_memory \<times> gem_thread_context" where
  "run_x64 P E y m c = (case gem_x64_runtime_run (hp_blink P) E (Some (hy_x64 y)) m (Some c) 1 of
     (e, ro, m', co) \<Rightarrow>
      (e, case ro of None \<Rightarrow> y | Some r \<Rightarrow> y\<lparr>hy_x64 := r\<rparr>, m', case co of None \<Rightarrow> c | Some c' \<Rightarrow> c'))"

section \<open>Stops\<close>

definition capture_arm_stop :: "('d \<times> hybrid_core) gem_arm64ec_runtime \<Rightarrow> hybrid_core \<Rightarrow> bool \<times> hybrid_core" where
  "capture_arm_stop arm h =
    (let stop = zero_hybrid_stop\<lparr>hs_source := GEM_HYBRID_STOP_SOURCE_ARM64EC\<rparr>
     in case gem_arm64ec_runtime_last_stop_info (Some arm) (Some (hs_arm64ec stop)) of
       (False, _) \<Rightarrow> (False, h\<lparr>hr_last_stop := stop\<rparr>)
     | (True, out) \<Rightarrow>
        (let info = (case out of None \<Rightarrow> hs_arm64ec stop | Some i \<Rightarrow> i);
             info = (if as_reason info = GEM_STOP_INVARIANT_VIOLATION \<and> as_engine_status info = action_code GEM_ARM64EC_BOUNDARY_FAIL \<and>
                        gs_boundary_failure (hr_generic h) \<noteq> 0
                     then info\<lparr>as_engine_status := gs_boundary_failure (hr_generic h)\<rparr> else info)
         in (True, h\<lparr>hr_last_stop := stop\<lparr>hs_arm64ec := info, hs_reason := as_reason info\<rparr>\<rparr>)))"

definition consume_arm_budget :: "('d \<times> hybrid_core) gem_arm64ec_runtime \<Rightarrow> hybrid_core \<Rightarrow> u64 \<Rightarrow> bool \<times> hybrid_core \<times> u64" where
  "consume_arm_budget arm h budget = (case capture_arm_stop arm h of
     (ok, h) \<Rightarrow>
      (let n = as_instructions_retired (hs_arm64ec (hr_last_stop h))
       in if \<not> ok \<or> n > budget then (False, h, budget)
          else (True, h\<lparr>hr_stats := (hr_stats h)\<lparr>st_arm64ec_instructions_retired := st_arm64ec_instructions_retired (hr_stats h) + n\<rparr>\<rparr>,
                budget - n)))"

definition capture_x64_stop :: "'b gem_x64_runtime \<Rightarrow> hybrid_core \<Rightarrow> bool \<times> hybrid_core" where
  "capture_x64_stop r h =
    (let stop = zero_hybrid_stop\<lparr>hs_source := GEM_HYBRID_STOP_SOURCE_X64\<rparr>
     in case gem_x64_runtime_last_stop_info (Some r) (Some (hs_x64 stop)) of
       (False, _) \<Rightarrow> (False, h\<lparr>hr_last_stop := stop\<rparr>)
     | (True, out) \<Rightarrow>
        (let info = (case out of None \<Rightarrow> hs_x64 stop | Some i \<Rightarrow> i)
         in (True, h\<lparr>hr_last_stop := stop\<lparr>hs_x64 := info, hs_reason := xs_reason info\<rparr>\<rparr>)))"

definition record_broker_stop :: "gem_stop_reason \<Rightarrow> hybrid_core \<Rightarrow> hybrid_core" where
  "record_broker_stop e h = h\<lparr>hr_last_stop := zero_hybrid_stop\<lparr>hs_reason := e, hs_source := GEM_HYBRID_STOP_SOURCE_BROKER\<rparr>\<rparr>"

section \<open>Creation and queries\<close>

text \<open>Which of the allocations of a creation succeed, and the addresses of the broker and the new runtime.\<close>

record hybrid_allocations =
  ha_runtime :: bool
  ha_map :: bool
  ha_map_blocks :: "pe_block \<Rightarrow> bool"
  ha_arm :: bool
  ha_attached_map :: bool
  ha_attached_blocks :: "pe_block \<Rightarrow> bool"
  ha_x64 :: bool
  ha_broker :: u64
  ha_address :: u64

definition hybrid_config_ok :: "gem_hybrid_runtime_config \<Rightarrow> bool" where
  "hybrid_config_ok k \<longleftrightarrow> hc_version k = GEM_HYBRID_RUNTIME_CONFIG_VERSION \<and>
     hc_boundary_delivery k \<ge> GEM_ARM64EC_BOUNDARY_PRECISE \<and> hc_boundary_delivery k \<le> GEM_ARM64EC_BOUNDARY_SVC_TRAP \<and>
     hc_loaded_base k \<noteq> 0 \<and> hc_checker_helper k \<noteq> 0 \<and> hc_dispatch_call_helper k \<noteq> 0 \<and> hc_dispatch_ret_helper k \<noteq> 0 \<and>
     hc_x64_return_sentinel k \<noteq> 0 \<and> hc_host_return_sentinel k \<noteq> 0 \<and>
     hc_checker_helper k \<noteq> hc_dispatch_call_helper k \<and> hc_checker_helper k \<noteq> hc_dispatch_ret_helper k \<and>
     hc_dispatch_call_helper k \<noteq> hc_dispatch_ret_helper k \<and>
     (hc_dispatch_jump_helper k = 0 \<or>
       (hc_dispatch_jump_helper k \<noteq> hc_checker_helper k \<and> hc_dispatch_jump_helper k \<noteq> hc_dispatch_call_helper k \<and>
        hc_dispatch_jump_helper k \<noteq> hc_dispatch_ret_helper k)) \<and>
     hc_x64_return_sentinel k \<noteq> hc_host_return_sentinel k \<and> hc_x64_return_sentinel k \<noteq> hc_checker_helper k \<and>
     hc_x64_return_sentinel k \<noteq> hc_dispatch_call_helper k \<and> hc_x64_return_sentinel k \<noteq> hc_dispatch_ret_helper k \<and>
     (hc_dispatch_jump_helper k = 0 \<or> hc_x64_return_sentinel k \<noteq> hc_dispatch_jump_helper k) \<and>
     hc_host_return_sentinel k \<noteq> hc_checker_helper k \<and> hc_host_return_sentinel k \<noteq> hc_dispatch_call_helper k \<and>
     hc_host_return_sentinel k \<noteq> hc_dispatch_ret_helper k \<and>
     (hc_dispatch_jump_helper k = 0 \<or> hc_host_return_sentinel k \<noteq> hc_dispatch_jump_helper k) \<and>
     hc_max_budget k \<noteq> 0 \<and> (hc_target_resolver k = 0 \<longleftrightarrow> hc_target_resolver_opaque k = 0)"

text \<open>The zeroed runtime with its configuration and map.\<close>

definition fresh_core :: "gem_hybrid_runtime_config \<Rightarrow> gem_arm64ec_target_map \<Rightarrow> hybrid_core" where
  "fresh_core k t = \<lparr>hr_map = Some t, hr_config = k, hr_frame = zero_frame, hr_nested_frame = zero_frame, hr_stats = zero_stats,
     hr_last_stop = zero_hybrid_stop, hr_stage = HYBRID_STAGE_IDLE, hr_generation = 0, hr_running = False, hr_return_mode = 0,
     hr_expected_x64_target = 0, hr_expected_nested_x64_target = 0, hr_generic = zero_generic_state,
     hr_async_stop_requested = False\<rparr>"

definition hybrid_arm_create :: "('d, 'b) hybrid_parts \<Rightarrow> hybrid_allocations \<Rightarrow> gem_memory option \<Rightarrow> gem_pe_arm64x_image option
    \<Rightarrow> gem_hybrid_runtime_config \<Rightarrow> ('d \<times> hybrid_core) gem_arm64ec_runtime option" where
  "hybrid_arm_create P A mo img k =
    (let arm = gem_arm64ec_runtime_create (arm_engine P) (ha_arm A) mo
           (Some (arm64ec_config_default\<lparr>af_host_return_sentinel := GEM_HYBRID_INTERNAL_HOST_RETURN,
              af_arch_transition_sentinel := 0xffffffffffffffe0, af_max_budget := hc_max_budget k,
              af_boundary_delivery := hc_boundary_delivery k\<rparr>))
     in if arm = None then None
     else (case gem_arm64ec_runtime_attach_arm64x (arm_engine P) (ha_attached_map A) (ha_attached_blocks A) arm img (hc_loaded_base k) of
        (False, _) \<Rightarrow> None
      | (True, arm) \<Rightarrow>
         (case (if hc_target_resolver k \<noteq> 0
                then gem_arm64ec_runtime_set_target_resolver arm (hc_target_resolver k) (hc_target_resolver_opaque k) else (True, arm)) of
            (False, _) \<Rightarrow> None
          | (True, arm) \<Rightarrow>
             (case gem_arm64ec_runtime_set_boundary_broker arm (ha_broker A) (ha_address A) of
                (False, _) \<Rightarrow> None
              | (True, arm) \<Rightarrow> arm))))"

definition gem_hybrid_runtime_create :: "('d, 'b) hybrid_parts \<Rightarrow> hybrid_allocations \<Rightarrow> gem_memory option \<Rightarrow> gem_pe_arm64x_image option
    \<Rightarrow> gem_hybrid_runtime_config option \<Rightarrow> ('d, 'b) gem_hybrid_runtime option" where
  "gem_hybrid_runtime_create P A mo img ko = (case ko of
      None \<Rightarrow> None
    | Some k \<Rightarrow>
       (if mo = None \<or> img = None \<or> \<not> hybrid_config_ok k \<or> \<not> ha_runtime A then None
        else (case gem_arm64ec_target_map_create (ha_map A) (ha_map_blocks A) img (hc_loaded_base k) True of
           Inl _ \<Rightarrow> None
         | Inr t \<Rightarrow>
            (case hybrid_arm_create P A mo img k of
               None \<Rightarrow> None
             | Some arm \<Rightarrow>
                (case gem_x64_runtime_create (hp_blink P) (ha_x64 A) mo (Some (x64_config_default\<lparr>
                        xf_host_return_sentinel := hc_x64_return_sentinel k, xf_max_budget := hc_max_budget k,
                        xf_engine_mode := GEM_X86_64_ENGINE_INTERPRETER\<rparr>)) of
                   None \<Rightarrow> None
                 | Some r \<Rightarrow> Some \<lparr>hy_core = fresh_core k t, hy_arm = arm, hy_x64 = r\<rparr>)))))"

definition gem_hybrid_runtime_last_stop_info :: "('d, 'b) gem_hybrid_runtime option \<Rightarrow> gem_hybrid_stop_info option
    \<Rightarrow> bool \<times> gem_hybrid_stop_info option" where
  "gem_hybrid_runtime_last_stop_info yo out = (case (yo, out) of
      (Some y, Some _) \<Rightarrow>
       (if hs_reason (hr_last_stop (hy_core y)) = GEM_STOP_NONE then (False, out) else (True, Some (hr_last_stop (hy_core y))))
    | _ \<Rightarrow> (False, out))"

definition gem_hybrid_runtime_coordinator_active :: "('d, 'b) gem_hybrid_runtime option \<Rightarrow> bool" where
  "gem_hybrid_runtime_coordinator_active yo = (case yo of None \<Rightarrow> False | Some y \<Rightarrow> gs_active (hr_generic (hy_core y)))"

definition gem_hybrid_runtime_request_async_stop :: "('d, 'b) gem_hybrid_runtime option \<Rightarrow> ('d, 'b) gem_hybrid_runtime option" where
  "gem_hybrid_runtime_request_async_stop yo =
    map_option (\<lambda>y. y\<lparr>hy_core := (hy_core y)\<lparr>hr_async_stop_requested := True\<rparr>\<rparr>) yo"

definition gem_hybrid_runtime_invalidate_code :: "('d, 'b) hybrid_parts \<Rightarrow> ('d, 'b) gem_hybrid_runtime option \<Rightarrow> u64 \<Rightarrow> u64
    \<Rightarrow> ('d, 'b) gem_hybrid_runtime option" where
  "gem_hybrid_runtime_invalidate_code P yo a n = (case yo of
      None \<Rightarrow> None
    | Some y \<Rightarrow>
       (if n = 0 then yo
        else (let arm = gem_arm64ec_runtime_invalidate_code (arm_engine P) (Some (hy_arm y)) a n;
                  x64 = gem_x64_runtime_invalidate_code (hp_blink P) (Some (hy_x64 y)) a n
              in Some (y\<lparr>hy_arm := (case arm of None \<Rightarrow> hy_arm y | Some r \<Rightarrow> r), hy_x64 := (case x64 of None \<Rightarrow> hy_x64 y | Some r \<Rightarrow> r)\<rparr>))))"

section \<open>Returning from the coordinator\<close>

definition fail_context :: "gem_thread_context option \<Rightarrow> gem_thread_context option" where
  "fail_context co = map_option (\<lambda>c. c\<lparr>stop_reason := stop_code GEM_STOP_INVARIANT_VIOLATION\<rparr>) co"

definition generic_context_valid :: "hybrid_core \<Rightarrow> gem_thread_context \<Rightarrow> bool" where
  "generic_context_valid h c \<longleftrightarrow> (let g = hr_generic h in
     gem_context_is_valid c \<and> x c ! 18 = teb c \<and> \<not> gs_depth g > 2 \<and> gs_stage g \<noteq> HYBRID_GENERIC_IDLE \<and>
     isa c = isa_code (if gs_stage g = HYBRID_GENERIC_X64 then GEM_ISA_X64 else GEM_ISA_ARM64EC) \<and>
     transition_cookie c = (if gs_depth g \<noteq> 0 then gf_cookie (gs_frames g ! (unat (gs_depth g) - 1)) else 0))"

definition generic_publish_stats :: "hybrid_core \<Rightarrow> hybrid_core" where
  "generic_publish_stats h = h\<lparr>hr_stats := (hr_stats h)\<lparr>st_final_frame_depth := gs_depth (hr_generic h)\<rparr>\<rparr>"

definition generic_return :: "gem_stop_reason \<Rightarrow> hybrid_core \<Rightarrow> gem_thread_context \<Rightarrow> hybrid_core \<times> gem_thread_context" where
  "generic_return e h c = (generic_publish_stats (h\<lparr>hr_running := False\<rparr>), c\<lparr>stop_reason := stop_code e\<rparr>)"

fun restore_records :: "(u64 \<Rightarrow> nat \<Rightarrow> bool) \<Rightarrow> (nat \<Rightarrow> bool) \<Rightarrow> hybrid_generic_frame list \<Rightarrow> nat \<Rightarrow> gem_memory \<Rightarrow> bool \<times> gem_memory" where
  "restore_records accessible al fs 0 m = (True, m)"
| "restore_records accessible al fs (Suc d) m =
     (if gf_record_written (fs ! d)
      then (case replace_stack_record accessible (al d) m (gf_record_address (fs ! d)) (gf_old_record (fs ! d)) of
        (e, _, m') \<Rightarrow> (case restore_records accessible al fs d m' of (ok, m'') \<Rightarrow> (ok \<and> e = GEM_MEMORY_OK, m'')))
      else restore_records accessible al fs d m)"

definition generic_restore_records :: "(u64 \<Rightarrow> nat \<Rightarrow> bool) \<Rightarrow> (nat \<Rightarrow> bool) \<Rightarrow> hybrid_core \<Rightarrow> gem_memory \<Rightarrow> bool \<times> gem_memory" where
  "generic_restore_records accessible al h m =
    restore_records accessible al (gs_frames (hr_generic h)) (unat (gs_depth (hr_generic h))) m"

text \<open>\<open>line\<close> is the line of the call in the source.\<close>

definition generic_invariant_at :: "(u64 \<Rightarrow> nat \<Rightarrow> bool) \<Rightarrow> (nat \<Rightarrow> bool) \<Rightarrow> u32 \<Rightarrow> hybrid_core \<Rightarrow> gem_memory \<Rightarrow> gem_thread_context
    \<Rightarrow> hybrid_core \<times> gem_memory \<times> gem_thread_context" where
  "generic_invariant_at accessible al line h m c =
    (let m' = snd (generic_restore_records accessible al h m);
         h = record_broker_stop GEM_STOP_INVARIANT_VIOLATION (h\<lparr>hr_generic := zero_generic_state\<rparr>);
         stop = hr_last_stop h;
         h = h\<lparr>hr_last_stop := stop\<lparr>hs_arm64ec := (hs_arm64ec stop)\<lparr>as_fault_address := pc c, as_engine_status := line\<rparr>\<rparr>\<rparr>
     in case generic_return GEM_STOP_INVARIANT_VIOLATION h (c\<lparr>transition_cookie := 0, isa := isa_code GEM_ISA_ARM64EC\<rparr>) of
          (h, c) \<Rightarrow> (h, m', c))"

section \<open>Frames\<close>

text \<open>The new frame is written before its stack record is.\<close>

definition push_frame :: "(u64 \<Rightarrow> nat \<Rightarrow> bool) \<Rightarrow> bool \<Rightarrow> hybrid_core \<Rightarrow> gem_memory \<Rightarrow> gem_thread_context \<Rightarrow> u64 \<Rightarrow> u64 \<Rightarrow> u64 \<Rightarrow> bool
    \<Rightarrow> bool \<times> hybrid_core \<times> gem_memory \<times> gem_thread_context" where
  "push_frame accessible ok h m c va resume_pc resume_sp callback =
    (let h = next_cookie h; g = hr_generic h; d = unat (gs_depth g);
         frame = zero_generic_frame\<lparr>gf_cookie := hr_generation h, gf_arm_resume_pc := resume_pc, gf_arm_resume_sp := resume_sp,
           gf_prior_original_x64_sp := original_x64_sp c, gf_record_address := sp c - 8, gf_resume_arm_callback := callback\<rparr>
     in case replace_stack_record accessible ok m (gf_record_address frame) (hc_x64_return_sentinel (hr_config h)) of
       (e, old, m) \<Rightarrow>
        (if e \<noteq> GEM_MEMORY_OK then (False, h\<lparr>hr_generic := g\<lparr>gs_frames := (gs_frames g)[d := zero_generic_frame]\<rparr>\<rparr>, m, c)
         else (let frame = frame\<lparr>gf_old_record := (case old of None \<Rightarrow> 0 | Some w \<Rightarrow> w), gf_record_written := True\<rparr>;
                   depth = gs_depth g + 1;
                   h = bump_stat st_frame_pushes_update (h\<lparr>hr_generic := g\<lparr>gs_frames := (gs_frames g)[d := frame], gs_depth := depth,
                         gs_stage := HYBRID_GENERIC_X64\<rparr>\<rparr>);
                   h = (if depth > st_maximum_frame_depth (hr_stats h)
                        then h\<lparr>hr_stats := (hr_stats h)\<lparr>st_maximum_frame_depth := depth\<rparr>\<rparr> else h)
               in (True, h, m, c\<lparr>sp := gf_record_address frame, pc := va, isa := isa_code GEM_ISA_X64,
                     transition_cookie := gf_cookie frame, stop_reason := stop_code GEM_STOP_NONE\<rparr>))))"

definition generic_push_x64 :: "('d, 'b) hybrid_parts \<Rightarrow> (nat \<Rightarrow> bool) \<Rightarrow> hybrid_core \<Rightarrow> gem_memory \<Rightarrow> gem_thread_context \<Rightarrow> u64 \<Rightarrow> u64 \<Rightarrow> u64
    \<Rightarrow> bool \<times> hybrid_core \<times> gem_memory \<times> gem_thread_context" where
  "generic_push_x64 P al h m c va resume_pc resume_sp =
    (let g = hr_generic h; callback = (gs_stage g = HYBRID_GENERIC_ARM_CALLBACK)
     in case (if gs_depth g \<ge> 2 \<or> sp c < 8 \<or> sp c \<noteq> resume_sp then None else resolve_x64 (hp_resolver P) h va) of
       None \<Rightarrow> (False, h, m, c)
     | Some target \<Rightarrow>
        (case stack_record_supported (hp_accessible P) (al 0) m (sp c - 8) of
           (supported, m) \<Rightarrow>
            (if \<not> supported then (False, h, m, c)
             else if \<not> callback then push_frame (hp_accessible P) (al 1) h m c (resolved_va target) resume_pc resume_sp False
             else (case generic_current_frame g of
                None \<Rightarrow> (False, h, m, c)
              | Some parent \<Rightarrow>
                 (if gf_callback parent = HYBRID_GENERIC_CALLBACK_NONE then (False, h, m, c)
                  else push_frame (hp_accessible P) (al 1)
                    (h\<lparr>hr_generic := set_current_frame (parent\<lparr>gf_callback_nested := True\<rparr>) g\<rparr>) m c (resolved_va target)
                    resume_pc resume_sp True)))))"

definition generic_pop_x64 :: "(u64 \<Rightarrow> nat \<Rightarrow> bool) \<Rightarrow> bool \<Rightarrow> hybrid_core \<Rightarrow> gem_memory \<Rightarrow> gem_thread_context
    \<Rightarrow> bool \<times> hybrid_core \<times> gem_memory \<times> gem_thread_context" where
  "generic_pop_x64 accessible ok h m c =
    (let g = hr_generic h; d = unat (gs_depth g) - 1; frame = gs_frames g ! d
     in if gs_depth g = 0 \<or> \<not> gf_record_written frame \<or> sp c \<noteq> gf_record_address frame + 8 then (False, h, m, c)
     else (case replace_stack_record accessible ok m (gf_record_address frame) (gf_old_record frame) of
       (e, _, m) \<Rightarrow>
        (if e \<noteq> GEM_MEMORY_OK then (False, h, m, c)
         else (let g = g\<lparr>gs_frames := (gs_frames g)[d := zero_generic_frame], gs_depth := gs_depth g - 1,
                     gs_stage := (if gf_resume_arm_callback frame then HYBRID_GENERIC_ARM_CALLBACK else HYBRID_GENERIC_ARM)\<rparr>;
                   h = bump_stat st_frame_pops_update (h\<lparr>hr_generic := g\<rparr>)
               in (True, h, m, c\<lparr>x := (x c)[0 := x c ! 8, 18 := teb c], pc := gf_arm_resume_pc frame, sp := gf_arm_resume_sp frame,
                     original_x64_sp := gf_prior_original_x64_sp frame, isa := isa_code GEM_ISA_ARM64EC,
                     transition_cookie := (case generic_current_frame g of None \<Rightarrow> 0 | Some outer \<Rightarrow> gf_cookie outer),
                     stop_reason := stop_code GEM_STOP_NONE\<rparr>)))))"

text \<open>The record a callback returns to: the frame with its kind of callback, the x64 stack pointer, memory and context.\<close>

definition callback_record :: "hybrid_core \<Rightarrow> hybrid_generic_frame \<Rightarrow> gem_memory \<Rightarrow> gem_thread_context \<Rightarrow> u64 \<Rightarrow> bool
    \<Rightarrow> (hybrid_generic_frame \<times> u64 \<times> gem_thread_context) option \<times> gem_memory" where
  "callback_record h frame m c pre_step_sp was_call =
    (if was_call
     then (if pre_step_sp < 8 \<or> sp c \<noteq> pre_step_sp - 8 then (None, m)
       else (case read_record m (sp c) of (ok, record, m) \<Rightarrow>
         (if \<not> ok then (None, m)
          else (Some (frame\<lparr>gf_callback := HYBRID_GENERIC_CALLBACK_CALL, gf_callback_resume_pc := record\<rparr>, pre_step_sp, c), m))))
     else (if sp c \<noteq> gf_record_address frame then (None, m)
       else (case read_record m (sp c) of (ok, record, m) \<Rightarrow>
         (if \<not> ok \<or> record \<noteq> hc_x64_return_sentinel (hr_config h) then (None, m)
          else (Some (frame\<lparr>gf_callback := HYBRID_GENERIC_CALLBACK_TAIL,
                 gf_callback_resume_pc := hc_x64_return_sentinel (hr_config h)\<rparr>, sp c + 8, c\<lparr>sp := sp c + 8\<rparr>), m)))))"

definition generic_enter_callback :: "resolvers \<Rightarrow> hybrid_core \<Rightarrow> gem_memory \<Rightarrow> gem_thread_context \<Rightarrow> gem_arm64ec_target_result
    \<Rightarrow> u64 \<Rightarrow> bool \<Rightarrow> bool \<times> hybrid_core \<times> gem_memory \<times> gem_thread_context" where
  "generic_enter_callback R h m c target pre_step_sp was_call =
    (let g = hr_generic h
     in case generic_current_frame g of
       None \<Rightarrow> (False, h, m, c)
     | Some frame \<Rightarrow>
        (if gf_callback frame \<noteq> HYBRID_GENERIC_CALLBACK_NONE \<or> resolved_va target < 4 then (False, h, m, c)
         else (case callback_record h frame m c pre_step_sp was_call of
            (None, m) \<Rightarrow> (False, h, m, c)
          | (Some (frame, original, c), m) \<Rightarrow>
             (case hybrid_descriptor_resolve R h m (resolved_va target - 4) of
                (thunk, m) \<Rightarrow>
                 (case (case thunk of Inl _ \<Rightarrow> None | Inr t \<Rightarrow> if kind t = Some GEM_ARM64EC_TARGET_X64_BOUNDARY then None else Some t) of
                    None \<Rightarrow> (False, h\<lparr>hr_generic := set_current_frame (frame\<lparr>gf_callback := HYBRID_GENERIC_CALLBACK_NONE\<rparr>) g\<rparr>, m, c)
                  | Some t \<Rightarrow>
                     (let frame = frame\<lparr>gf_callback_pre_call_sp := original, gf_callback_arm_entry_sp := original AND NOT 15,
                            gf_callback_prior_original_x64_sp := original_x64_sp c\<rparr>;
                          h = bump_stat st_descriptor_resolutions_update (bump_stat st_x64_to_arm64ec_boundaries_update
                            (h\<lparr>hr_generic := (set_current_frame frame g)\<lparr>gs_stage := HYBRID_GENERIC_ARM_CALLBACK\<rparr>\<rparr>))
                      in (True, h, m, c\<lparr>x := (x c)[30 := gf_callback_resume_pc frame, 4 := original, 9 := resolved_va target, 18 := teb c],
                            original_x64_sp := original, sp := gf_callback_arm_entry_sp frame, pc := resolved_va t,
                            isa := isa_code GEM_ISA_ARM64EC, stop_reason := stop_code GEM_STOP_NONE\<rparr>))))))) "

definition generic_finish_callback :: "(u64 \<Rightarrow> nat \<Rightarrow> bool) \<Rightarrow> bool \<Rightarrow> hybrid_core \<Rightarrow> gem_memory \<Rightarrow> gem_thread_context
    \<Rightarrow> bool \<times> hybrid_core \<times> gem_memory \<times> gem_thread_context" where
  "generic_finish_callback accessible ok h m c =
    (case generic_current_frame (hr_generic h) of
       None \<Rightarrow> (False, h, m, c)
     | Some frame \<Rightarrow>
        (let g = (hr_generic h)\<lparr>gs_pending_callback_return := False\<rparr>
         in case gf_callback frame of
           HYBRID_GENERIC_CALLBACK_NONE \<Rightarrow> (False, h, m, c)
         | HYBRID_GENERIC_CALLBACK_CALL \<Rightarrow>
            (True, h\<lparr>hr_generic := (set_current_frame (frame\<lparr>gf_callback := HYBRID_GENERIC_CALLBACK_NONE, gf_callback_resume_pc := 0,
                 gf_callback_pre_call_sp := 0, gf_callback_arm_entry_sp := 0, gf_callback_prior_original_x64_sp := 0\<rparr>) g)
                 \<lparr>gs_stage := HYBRID_GENERIC_X64\<rparr>\<rparr>, m,
             c\<lparr>pc := gf_callback_resume_pc frame, sp := gf_callback_pre_call_sp frame,
               original_x64_sp := gf_callback_prior_original_x64_sp frame, isa := isa_code GEM_ISA_X64,
               transition_cookie := gf_cookie frame, stop_reason := stop_code GEM_STOP_NONE\<rparr>)
         | HYBRID_GENERIC_CALLBACK_TAIL \<Rightarrow>
            generic_pop_x64 accessible ok (h\<lparr>hr_generic := g\<rparr>) m (c\<lparr>sp := gf_record_address frame + 8\<rparr>)))"

definition generic_begin :: "resolvers \<Rightarrow> hybrid_core \<Rightarrow> gem_thread_context \<Rightarrow> (hybrid_core \<times> gem_thread_context) option" where
  "generic_begin R h c =
    (if isa c \<noteq> isa_code GEM_ISA_ARM64EC \<or> transition_cookie c \<noteq> 0 \<or> x c ! 18 \<noteq> teb c \<or> x c ! 30 = 0 then None
     else (case hybrid_resolve R h (pc c) of
        Inl _ \<Rightarrow> None
      | Inr target \<Rightarrow>
         (if kind target = Some GEM_ARM64EC_TARGET_X64_BOUNDARY then None
          else Some (h\<lparr>hr_generic := zero_generic_state\<lparr>gs_active := True, gs_stage := HYBRID_GENERIC_ARM,
                  gs_native_return_pc := (if hc_boundary_delivery (hr_config h) = GEM_ARM64EC_BOUNDARY_SVC_TRAP
                                          then hc_host_return_sentinel (hr_config h) else x c ! 30)\<rparr>\<rparr>,
                c\<lparr>pc := resolved_va target\<rparr>))))"

section \<open>The loop\<close>

type_synonym ('d, 'b) hybrid_state = "('d, 'b) gem_hybrid_runtime \<times> gem_memory \<times> gem_thread_context \<times> u64"
type_synonym ('d, 'b) hybrid_result = "gem_stop_reason \<times> ('d, 'b) gem_hybrid_runtime \<times> gem_memory \<times> gem_thread_context"

text \<open>The two ways an iteration ends the run.\<close>

definition leave :: "gem_stop_reason \<Rightarrow> ('d, 'b) gem_hybrid_runtime \<Rightarrow> gem_memory \<Rightarrow> gem_thread_context
    \<Rightarrow> ('d, 'b) hybrid_result + ('d, 'b) hybrid_state" where
  "leave e y m c = (case generic_return e (hy_core y) c of (h, c) \<Rightarrow> Inl (e, y\<lparr>hy_core := h\<rparr>, m, c))"

definition violate :: "('d, 'b) hybrid_parts \<Rightarrow> (nat \<Rightarrow> bool) \<Rightarrow> u32 \<Rightarrow> ('d, 'b) gem_hybrid_runtime \<Rightarrow> gem_memory \<Rightarrow> gem_thread_context
    \<Rightarrow> ('d, 'b) hybrid_result + ('d, 'b) hybrid_state" where
  "violate P al line y m c = (case generic_invariant_at (hp_accessible P) al line (hy_core y) m c of
     (h, m, c) \<Rightarrow> Inl (GEM_STOP_INVARIANT_VIOLATION, y\<lparr>hy_core := h\<rparr>, m, c))"

text \<open>Going on after an operation on the frames, or giving up when it failed.\<close>

definition continue :: "('d, 'b) hybrid_parts \<Rightarrow> (nat \<Rightarrow> bool) \<Rightarrow> u32 \<Rightarrow> ('d, 'b) gem_hybrid_runtime \<Rightarrow> u64
    \<Rightarrow> bool \<times> hybrid_core \<times> gem_memory \<times> gem_thread_context \<Rightarrow> ('d, 'b) hybrid_result + ('d, 'b) hybrid_state" where
  "continue P al line y remaining s = (case s of (ok, h, m, c) \<Rightarrow>
     (if ok then Inr (y\<lparr>hy_core := h\<rparr>, m, c, remaining) else violate P al line (y\<lparr>hy_core := h\<rparr>) m c))"

text \<open>The allocations of an iteration: \<open>al 0\<close> and \<open>al 1\<close> for its own, \<open>al (2 + d)\<close> for restoring frame \<open>d\<close>.\<close>

definition undo_begins :: "(nat \<Rightarrow> bool) \<Rightarrow> nat \<Rightarrow> bool" where
  "undo_begins al d = al (2 + d)"

text \<open>After the ARM64EC engine stopped at a boundary.\<close>

definition arm_transition :: "('d, 'b) hybrid_parts \<Rightarrow> (nat \<Rightarrow> bool) \<Rightarrow> ('d, 'b) gem_hybrid_runtime \<Rightarrow> gem_memory \<Rightarrow> gem_thread_context \<Rightarrow> u64
    \<Rightarrow> ('d, 'b) hybrid_result + ('d, 'b) hybrid_state" where
  "arm_transition P al y m c remaining =
    (let h = hy_core y; g = hr_generic h in
     if gs_pending_native_return g
     then (if gs_depth g \<noteq> 0 \<or> pc c \<noteq> gs_native_return_pc g then violate P (undo_begins al) 879 y m c
       else leave GEM_STOP_ARCH_TRANSITION
         (y\<lparr>hy_core := record_broker_stop GEM_STOP_ARCH_TRANSITION (h\<lparr>hr_generic := zero_generic_state\<rparr>)\<rparr>) m
         (c\<lparr>transition_cookie := 0, isa := isa_code GEM_ISA_ARM64EC\<rparr>))
     else if gs_pending_callback_return g
     then continue P (undo_begins al) 888 y remaining (generic_finish_callback (hp_accessible P) (al 0) h m c)
     else if gs_pending_dispatch g
     then continue P (undo_begins al) 900 y remaining
       (generic_push_x64 P al (h\<lparr>hr_generic := g\<lparr>gs_pending_dispatch := False, gs_pending_x64_target := 0,
            gs_pending_arm_resume_pc := 0, gs_pending_arm_resume_sp := 0\<rparr>\<rparr>) m c
          (gs_pending_x64_target g) (gs_pending_arm_resume_pc g) (gs_pending_arm_resume_sp g))
     else (case resolve_x64 (hp_resolver P) h (pc c) of
         None \<Rightarrow> violate P (undo_begins al) 907 y m c
       | Some target \<Rightarrow> continue P (undo_begins al) 907 y remaining
           (generic_push_x64 P al h m c (resolved_va target) (x c ! 30) (sp c))))"

definition arm_turn :: "('d, 'b) hybrid_parts \<Rightarrow> (nat \<Rightarrow> bool) \<Rightarrow> ('d, 'b) hybrid_state \<Rightarrow> ('d, 'b) hybrid_result + ('d, 'b) hybrid_state" where
  "arm_turn P al s = (case s of (y, m, c, remaining) \<Rightarrow>
    (let h = hy_core y; g = hr_generic h; trap = (hc_boundary_delivery (hr_config h) = GEM_ARM64EC_BOUNDARY_SVC_TRAP);
         arm_budget = (if trap then remaining else if remaining < 4096 then remaining else 4096)
     in case (if trap then gem_arm64ec_runtime_set_boundary_return_pc (Some (hy_arm y))
                (if gs_stage g = HYBRID_GENERIC_ARM \<and> gs_depth g = 0 then gs_native_return_pc g else 0)
              else (True, Some (hy_arm y))) of
       (False, _) \<Rightarrow> violate P (undo_begins al) 863 y m c
     | (True, ro) \<Rightarrow>
        (case run_arm P (y\<lparr>hy_arm := (case ro of None \<Rightarrow> hy_arm y | Some r \<Rightarrow> r)\<rparr>) m c arm_budget of
          (reason, y, m, c) \<Rightarrow>
           (case consume_arm_budget (hy_arm y) (hy_core y) remaining of
             (ok, h, remaining) \<Rightarrow>
              (let y = y\<lparr>hy_core := h\<rparr>
               in if \<not> ok \<or> hs_reason (hr_last_stop h) \<noteq> reason then violate P (undo_begins al) 866 y m c
               else if reason \<noteq> GEM_STOP_ARCH_TRANSITION then leave reason y m c
               else arm_transition P al y m c remaining)))))"

text \<open>After the x64 engine retired one instruction.\<close>

definition x64_transition :: "('d, 'b) hybrid_parts \<Rightarrow> (nat \<Rightarrow> bool) \<Rightarrow> gem_stop_reason \<Rightarrow> u64 \<Rightarrow> ('d, 'b) gem_hybrid_runtime \<Rightarrow> gem_memory
    \<Rightarrow> gem_thread_context \<Rightarrow> u64 \<Rightarrow> ('d, 'b) hybrid_result + ('d, 'b) hybrid_state" where
  "x64_transition P al reason pre_step_sp y m c remaining =
    (let h = hy_core y in
     if pc c = hc_x64_return_sentinel (hr_config h)
     then (if reason \<noteq> GEM_STOP_HOST_RETURN \<or> \<not> gem_x64_runtime_last_instruction_was_ret (Some (hy_x64 y))
       then violate P (undo_begins al) 927 y m c
       else continue P (undo_begins al) 927 y remaining (generic_pop_x64 (hp_accessible P) (al 0) h m c))
     else if reason \<noteq> GEM_STOP_BUDGET_EXPIRED then violate P (undo_begins al) 932 y m c
     else (case hybrid_resolve (hp_resolver P) h (pc c) of
         Inl _ \<Rightarrow> violate P (undo_begins al) 932 y m c
       | Inr target \<Rightarrow>
          (if kind target = Some GEM_ARM64EC_TARGET_X64_BOUNDARY
           then (if resolved_va target \<noteq> pc c then violate P (undo_begins al) 935 y m c
             else Inr (y, m, c\<lparr>stop_reason := stop_code GEM_STOP_NONE\<rparr>, remaining))
           else if kind target = None then violate P (undo_begins al) 943 y m c
           else continue P (undo_begins al) 943 y remaining
             (generic_enter_callback (hp_resolver P) h m c target pre_step_sp
                (gem_x64_runtime_last_instruction_was_call (Some (hy_x64 y)))))))"

definition x64_turn :: "('d, 'b) hybrid_parts \<Rightarrow> x64_environment \<Rightarrow> (nat \<Rightarrow> bool) \<Rightarrow> ('d, 'b) hybrid_state
    \<Rightarrow> ('d, 'b) hybrid_result + ('d, 'b) hybrid_state" where
  "x64_turn P E al s = (case s of (y, m, c, remaining) \<Rightarrow>
    (case run_x64 P E y m c of
      (reason, y, m, c') \<Rightarrow>
       (case capture_x64_stop (hy_x64 y) (hy_core y) of
         (ok, h) \<Rightarrow>
          (let y = y\<lparr>hy_core := h\<rparr>; n = xs_instructions_retired (hs_x64 (hr_last_stop h))
           in if \<not> ok \<or> hs_reason (hr_last_stop h) \<noteq> reason \<or> n > remaining then violate P (undo_begins al) 916 y m c'
           else (let y = y\<lparr>hy_core := h\<lparr>hr_stats := (hr_stats h)\<lparr>st_x64_instructions_retired := st_x64_instructions_retired (hr_stats h) + n\<rparr>\<rparr>\<rparr>
             in if reason \<noteq> GEM_STOP_BUDGET_EXPIRED \<and> reason \<noteq> GEM_STOP_HOST_RETURN then leave reason y m c'
             else if n \<noteq> 1 then violate P (undo_begins al) 922 y m c'
             else x64_transition P al reason (sp c) y m c' (remaining - n))))))"

definition hybrid_iteration :: "('d, 'b) hybrid_parts \<Rightarrow> hybrid_environment \<Rightarrow> nat \<Rightarrow> ('d, 'b) hybrid_state
    \<Rightarrow> ('d, 'b) hybrid_result + ('d, 'b) hybrid_state" where
  "hybrid_iteration P V i s = (case s of (y, m, c, remaining) \<Rightarrow>
    (let requested = hr_async_stop_requested (hy_core y) \<or> hv_requests V i;
         h = (hy_core y)\<lparr>hr_async_stop_requested := False\<rparr>; y = y\<lparr>hy_core := h\<rparr>
     in if requested then leave GEM_STOP_ASYNC_REQUEST (y\<lparr>hy_core := record_broker_stop GEM_STOP_ASYNC_REQUEST h\<rparr>) m c
     else if remaining = 0
     then leave GEM_STOP_BUDGET_EXPIRED
       (if hs_reason (hr_last_stop h) \<noteq> GEM_STOP_BUDGET_EXPIRED then y\<lparr>hy_core := record_broker_stop GEM_STOP_BUDGET_EXPIRED h\<rparr> else y) m c
     else if gs_stage (hr_generic h) = HYBRID_GENERIC_ARM \<or> gs_stage (hr_generic h) = HYBRID_GENERIC_ARM_CALLBACK
     then arm_turn P (hv_begins V i) (y, m, c, remaining)
     else if gs_stage (hr_generic h) = HYBRID_GENERIC_X64 then x64_turn P (hv_x64 V i) (hv_begins V i) (y, m, c, remaining)
     else violate P (undo_begins (hv_begins V i)) 946 y m c))"

partial_function (option) hybrid_loop :: "('d, 'b) hybrid_parts \<Rightarrow> hybrid_environment \<Rightarrow> nat \<Rightarrow> ('d, 'b) hybrid_state
    \<Rightarrow> ('d, 'b) hybrid_result option" where
  "hybrid_loop P V i s = (case hybrid_iteration P V i s of Inl r \<Rightarrow> Some r | Inr s' \<Rightarrow> hybrid_loop P V (Suc i) s')"

text \<open>The checks at the entry: they may start a new coordination, which stays when a later check fails.\<close>

definition generic_entry :: "resolvers \<Rightarrow> hybrid_core \<Rightarrow> gem_thread_context \<Rightarrow> u64 \<Rightarrow> bool \<times> hybrid_core \<times> gem_thread_context" where
  "generic_entry R h c budget =
    (if hr_running h \<or> \<not> gem_context_is_valid c \<or> budget = 0 \<or> budget > hc_max_budget (hr_config h) \<or>
        stop_reason c \<noteq> stop_code GEM_STOP_NONE then (False, h, c)
     else (case (if gs_active (hr_generic h) then Some (h, c) else generic_begin R h c) of
        None \<Rightarrow> (False, h, c)
      | Some (h, c) \<Rightarrow> (generic_context_valid h c, h, c)))"

definition generic_start :: "hybrid_core \<Rightarrow> hybrid_core" where
  "generic_start h = h\<lparr>hr_stats := zero_stats\<lparr>st_maximum_frame_depth := gs_depth (hr_generic h)\<rparr>, hr_last_stop := zero_hybrid_stop,
     hr_running := True\<rparr>"

text \<open>
  The reason, runtime, memory, context and \<open>*stats\<close> of a run. The runtime and the context may be null;
  \<open>None\<close> stands for a run that does not end.
\<close>

definition gem_hybrid_runtime_run :: "('d, 'b) hybrid_parts \<Rightarrow> hybrid_environment \<Rightarrow> ('d, 'b) gem_hybrid_runtime option \<Rightarrow> gem_memory
    \<Rightarrow> gem_thread_context option \<Rightarrow> u64
    \<Rightarrow> (gem_stop_reason \<times> ('d, 'b) gem_hybrid_runtime option \<times> gem_memory \<times> gem_thread_context option \<times> gem_hybrid_roundtrip_stats) option" where
  "gem_hybrid_runtime_run P V yo m co budget = (case yo of
      None \<Rightarrow> Some (GEM_STOP_INVARIANT_VIOLATION, None, m, fail_context co, zero_stats)
    | Some y \<Rightarrow>
       (case co of
          None \<Rightarrow> Some (GEM_STOP_INVARIANT_VIOLATION, Some (y\<lparr>hy_core := record_broker_stop GEM_STOP_INVARIANT_VIOLATION (hy_core y)\<rparr>), m, None,
            zero_stats)
        | Some c \<Rightarrow>
           (case generic_entry (hp_resolver P) (hy_core y) c budget of
              (False, h, c) \<Rightarrow> Some (GEM_STOP_INVARIANT_VIOLATION, Some (y\<lparr>hy_core := record_broker_stop GEM_STOP_INVARIANT_VIOLATION h\<rparr>), m,
                fail_context (Some c), zero_stats)
            | (True, h, c) \<Rightarrow> map_option (\<lambda>(e, y, m, c). (e, Some y, m, Some c, hr_stats (hy_core y)))
                (hybrid_loop P V 0 (y\<lparr>hy_core := generic_start h\<rparr>, m, c, budget)))))"

end
