(* ===== verification/Gem_Hybrid_Broker.thy ===== *)
theory Gem_Hybrid_Broker
  imports Gem_Hybrid_Run Gem_X64_Engine_Props
begin

text \<open>
  What the coordinator's operations leave alone: the broker under the ARM64EC engine, the stops that
  are captured, and the frame operations.
\<close>

section \<open>What an engine may do through the broker\<close>

text \<open>The parts that belong to the bounded operations.\<close>

definition nested_part :: "hybrid_core \<Rightarrow> hybrid_frame \<times> u64" where
  "nested_part h = (hr_nested_frame h, hr_expected_nested_x64_target h)"

definition expectations :: "hybrid_core \<Rightarrow> u32 \<times> u64" where
  "expectations h = (hr_return_mode h, hr_expected_x64_target h)"

definition bounded_part :: "hybrid_core \<Rightarrow> hybrid_frame \<times> hybrid_stage \<times> (hybrid_frame \<times> u64) \<times> u32 \<times> u64" where
  "bounded_part h = (hr_frame h, hr_stage h, nested_part h, expectations h)"

text \<open>What no call of the broker changes; while the coordinator is active, that includes the bounded operations' part.\<close>

definition steady :: "hybrid_core \<Rightarrow> (gem_arm64ec_target_map option \<times> gem_hybrid_runtime_config \<times> u64 \<times> bool \<times> gem_hybrid_stop_info) \<times>
    (hybrid_generic_frame list \<times> hybrid_generic_stage \<times> u32 \<times> u64 \<times> bool) \<times> (u64 \<times> u64 \<times> u64 \<times> u64) \<times>
    (hybrid_frame \<times> hybrid_stage \<times> (hybrid_frame \<times> u64) \<times> u32 \<times> u64) option" where
  "steady h = ((hr_map h, hr_config h, hr_generation h, hr_running h, hr_last_stop h),
     (gs_frames (hr_generic h), gs_stage (hr_generic h), gs_depth (hr_generic h), gs_native_return_pc (hr_generic h), gs_active (hr_generic h)),
     (st_arm64ec_instructions_retired (hr_stats h), st_x64_instructions_retired (hr_stats h), st_frame_pushes (hr_stats h),
      st_frame_pops (hr_stats h)), if gs_active (hr_generic h) then Some (bounded_part h) else None)"

lemma bump_simps [simp]:
  "hr_map (bump_stat f h) = hr_map h" "hr_config (bump_stat f h) = hr_config h" "hr_generation (bump_stat f h) = hr_generation h"
  "hr_running (bump_stat f h) = hr_running h" "hr_last_stop (bump_stat f h) = hr_last_stop h" "hr_generic (bump_stat f h) = hr_generic h"
  "hr_stats (bump_stat f h) = f (\<lambda>n. n + 1) (hr_stats h)" "hr_frame (bump_stat f h) = hr_frame h"
  "hr_nested_frame (bump_stat f h) = hr_nested_frame h" "hr_stage (bump_stat f h) = hr_stage h" "nested_part (bump_stat f h) = nested_part h"
  "expectations (bump_stat f h) = expectations h" "bounded_part (bump_stat f h) = bounded_part h"
  by (simp_all add: bump_stat_def nested_part_def expectations_def bounded_part_def)

lemma parts_generic [simp]:
  "bounded_part (h\<lparr>hr_generic := g\<rparr>) = bounded_part h" "bounded_part (h\<lparr>hr_stats := st\<rparr>) = bounded_part h"
  "bounded_part (h\<lparr>hr_last_stop := l\<rparr>) = bounded_part h" "bounded_part (h\<lparr>hr_running := b\<rparr>) = bounded_part h"
  "bounded_part (next_cookie h) = bounded_part h" "bounded_part (h\<lparr>hr_async_stop_requested := b\<rparr>) = bounded_part h"
  by (simp_all add: bounded_part_def nested_part_def expectations_def next_cookie_def)

text \<open>The steps the broker takes.\<close>

lemma steady_steps [simp]:
  "gs_frames g = gs_frames (hr_generic h) \<Longrightarrow> gs_stage g = gs_stage (hr_generic h) \<Longrightarrow> gs_depth g = gs_depth (hr_generic h) \<Longrightarrow>
    gs_native_return_pc g = gs_native_return_pc (hr_generic h) \<Longrightarrow> gs_active g = gs_active (hr_generic h) \<Longrightarrow> steady (h\<lparr>hr_generic := g\<rparr>) = steady h"
  "steady (bump_stat st_checker_boundaries_update h) = steady h" "steady (bump_stat st_dispatch_call_boundaries_update h) = steady h"
  "steady (bump_stat st_dispatch_ret_boundaries_update h) = steady h"
  "\<not> gs_active (hr_generic h) \<Longrightarrow> steady (h\<lparr>hr_frame := f\<rparr>) = steady h"
  by (simp_all add: steady_def)

lemma steady_generic: "steady (fst (snd (snd (generic_boundary R p h c)))) = steady h"
  by (simp add: generic_boundary_def Let_def split: sum.split option.split)

lemma steady_checker: "steady (fst (snd (snd (boundary_checker R h c)))) = steady h"
  by (simp add: boundary_checker_def split: sum.split option.split)

lemma steady_nested: "steady (fst (snd (snd (boundary_nested_checker R h c)))) = steady h"
  by (simp add: boundary_nested_checker_def split: option.split)

lemma steady_call: "\<not> gs_active (hr_generic h) \<Longrightarrow> steady (fst (snd (snd (boundary_dispatch_call R h c)))) = steady h"
  by (simp add: boundary_dispatch_call_def split: option.split)

lemma steady_ret: "steady (fst (snd (snd (boundary_dispatch_ret h m c)))) = steady h"
  by (simp add: boundary_dispatch_ret_def Let_def split: prod.split)

lemma with_memory_core [simp]: "fst (snd (snd (with_memory m r))) = fst (snd (snd r))"
  by (simp add: with_memory_def split: prod.split)

lemma steady_boundary:
  assumes "hybrid_boundary R p h m c = (a, k, h', m', c')"
  shows "steady h' = steady h"
proof -
  have "steady (fst (snd (snd (hybrid_boundary R p h m c)))) = steady h"
    by (simp add: hybrid_boundary_def steady_generic steady_checker steady_nested steady_call steady_ret)
  then show ?thesis using assms by simp
qed

text \<open>One call of a broker, and engines that touch the coordinator in no other way.\<close>

definition broker_call :: "hybrid_broker \<Rightarrow> hybrid_core \<Rightarrow> hybrid_core \<Rightarrow> bool" where
  "broker_call B h h' \<longleftrightarrow> (\<exists>p m c a k m' c'. B p h m c = (a, k, h', m', c'))"

definition broker_only :: "('d, 'b) hybrid_parts \<Rightarrow> bool" where
  "broker_only P \<longleftrightarrow> (\<forall>B r m c n e r' m' c'. backend_run (hp_backend P B) r m c n = (e, r', m', c') \<longrightarrow>
     (broker_call B)\<^sup>*\<^sup>* (snd (ar_backend r)) (snd (ar_backend r')))"

lemma broker_onlyD:
  "broker_only P \<Longrightarrow> backend_run (hp_backend P B) r m c n = (e, r', m', c') \<Longrightarrow>
    (broker_call B)\<^sup>*\<^sup>* (snd (ar_backend r)) (snd (ar_backend r'))"
  unfolding broker_only_def by blast

lemma steady_calls: "(broker_call (hybrid_boundary R))\<^sup>*\<^sup>* h h' \<Longrightarrow> steady h' = steady h"
  by (induction rule: rtranclp_induct) (auto simp: broker_call_def dest: steady_boundary)

lemma arm_run_backend:
  assumes "gem_arm64ec_runtime_run D (Some r) m (Some c) n = (e, ro, m', co)"
  shows "\<exists>r' c'. ro = Some r' \<and> co = Some c' \<and> (ar_backend r' = ar_backend r \<or>
    (\<exists>r1 m1 c1 e1 r2. backend_run D r1 m c n = (e1, r2, m1, c1) \<and> ar_backend r1 = ar_backend r \<and> ar_backend r' = ar_backend r2))"
  using assms by (auto simp: gem_arm64ec_runtime_run_def Let_def finish_stop_def stop_with_def reset_stop_def split: if_splits prod.splits)
    (metis (no_types, lifting) gem_arm64ec_runtime.select_convs gem_arm64ec_runtime.surjective gem_arm64ec_runtime.update_convs)+

lemma run_arm_calls:
  assumes "broker_only P" and "run_arm P y m c n = (e, y', m', c')"
  shows "(broker_call (hybrid_boundary (hp_resolver P)))\<^sup>*\<^sup>* (hy_core y) (hy_core y')"
proof -
  let ?r = "(hy_arm y)\<lparr>ar_backend := (fst (ar_backend (hy_arm y)), hy_core y)\<rparr>"
  obtain ro co where run: "gem_arm64ec_runtime_run (arm_engine P) (Some ?r) m (Some c) n = (e, ro, m', co)"
      and y': "y' = (case ro of None \<Rightarrow> y | Some r \<Rightarrow> y\<lparr>hy_arm := r, hy_core := snd (ar_backend r)\<rparr>)"
    using assms(2) by (auto simp: run_arm_def split: prod.splits)
  from arm_run_backend [OF run] obtain r' where ro: "ro = Some r'" and or: "ar_backend r' = ar_backend ?r \<or>
      (\<exists>r1 m1 c1 e1 r2. backend_run (arm_engine P) r1 m c n = (e1, r2, m1, c1) \<and> ar_backend r1 = ar_backend ?r \<and> ar_backend r' = ar_backend r2)"
    by blast
  have "(broker_call (hybrid_boundary (hp_resolver P)))\<^sup>*\<^sup>* (hy_core y) (snd (ar_backend r'))"
    using or
  proof
    assume "\<exists>r1 m1 c1 e1 r2. backend_run (arm_engine P) r1 m c n = (e1, r2, m1, c1) \<and> ar_backend r1 = ar_backend ?r \<and> ar_backend r' = ar_backend r2"
    then obtain r1 m1 c1 e1 r2 where b: "backend_run (arm_engine P) r1 m c n = (e1, r2, m1, c1)" "ar_backend r1 = ar_backend ?r"
      "ar_backend r' = ar_backend r2" by blast
    then show ?thesis using broker_onlyD [OF assms(1) b(1) [unfolded arm_engine_def]] by simp
  qed simp
  then show ?thesis using y' ro by simp
qed

lemma steady_run_arm:
  assumes "broker_only P" and "run_arm P y m c n = (e, y', m', c')"
  shows "steady (hy_core y') = steady (hy_core y)"
  by (rule steady_calls [OF run_arm_calls [OF assms]])

lemma steady_run_x64: "run_x64 P E y m c = (e, y', m', c') \<Longrightarrow> hy_core y' = hy_core y \<and> hy_arm y' = hy_arm y"
  by (auto simp: run_x64_def split: prod.splits option.splits)

section \<open>Captured stops\<close>

lemma capture_arm: "\<exists>s. capture_arm_stop arm h = (True, h\<lparr>hr_last_stop := s\<rparr>)"
  by (auto simp: capture_arm_stop_def gem_arm64ec_runtime_last_stop_info_def Let_def)

lemma capture_x64: "capture_x64_stop r h = (True, h\<lparr>hr_last_stop := zero_hybrid_stop\<lparr>hs_source := GEM_HYBRID_STOP_SOURCE_X64,
    hs_x64 := xr_last_stop r, hs_reason := xs_reason (xr_last_stop r)\<rparr>\<rparr>)"
  by (simp add: capture_x64_stop_def gem_x64_runtime_last_stop_info_def Let_def)

lemma consume_facts:
  assumes "consume_arm_budget arm h budget = (ok, h', rest)"
  obtains s n where "h' = h\<lparr>hr_last_stop := s, hr_stats := (hr_stats h)\<lparr>st_arm64ec_instructions_retired := st_arm64ec_instructions_retired (hr_stats h) + n\<rparr>\<rparr>"
    and "n \<le> budget" and "rest = budget - n"
proof -
  obtain s where s: "capture_arm_stop arm h = (True, h\<lparr>hr_last_stop := s\<rparr>)" using capture_arm by blast
  let ?n = "as_instructions_retired (hs_arm64ec s)"
  show thesis
  proof (cases "?n > budget")
    case True
    then show thesis using assms s by (intro that [where s = s and n = 0]) (auto simp: consume_arm_budget_def Let_def)
  next
    case False
    then show thesis using assms s by (intro that [where s = s and n = ?n]) (auto simp: consume_arm_budget_def Let_def)
  qed
qed

section \<open>The stack of frames\<close>

definition live_frame :: "hybrid_generic_frame \<Rightarrow> bool" where
  "live_frame f \<longleftrightarrow> gf_record_written f \<and> gf_cookie f \<noteq> 0"

text \<open>The frame on top is in x64 code, or in a callback.\<close>

definition at_work :: "hybrid_generic_stage \<Rightarrow> hybrid_generic_frame \<Rightarrow> bool" where
  "at_work s f \<longleftrightarrow> (s = HYBRID_GENERIC_X64 \<and> gf_callback f = HYBRID_GENERIC_CALLBACK_NONE) \<or>
     (s = HYBRID_GENERIC_ARM_CALLBACK \<and> gf_callback f \<noteq> HYBRID_GENERIC_CALLBACK_NONE)"

text \<open>
  The frames from the outermost on: outside all of them the ARM64EC caller runs; the outer one was
  entered from it, the inner one from a callback of the outer.
\<close>

fun stack_ok :: "hybrid_generic_stage \<Rightarrow> hybrid_generic_frame list \<Rightarrow> bool" where
  "stack_ok s [] = (s = HYBRID_GENERIC_ARM)"
| "stack_ok s [a] = (live_frame a \<and> \<not> gf_resume_arm_callback a \<and> at_work s a)"
| "stack_ok s [a, b] = (live_frame a \<and> \<not> gf_resume_arm_callback a \<and> gf_callback a \<noteq> HYBRID_GENERIC_CALLBACK_NONE \<and>
     live_frame b \<and> gf_resume_arm_callback b \<and> at_work s b)"
| "stack_ok s _ = False"

definition coordinating :: "hybrid_generic_state \<Rightarrow> bool" where
  "coordinating g \<longleftrightarrow> gs_active g \<and> (\<exists>fs. gs_frames g = fs @ replicate (2 - length fs) zero_generic_frame \<and>
     gs_depth g = of_nat (length fs) \<and> stack_ok (gs_stage g) fs)"

text \<open>No coordination is going on.\<close>

definition at_rest :: "hybrid_generic_state \<Rightarrow> bool" where
  "at_rest g \<longleftrightarrow> \<not> gs_active g \<and> gs_frames g = replicate 2 zero_generic_frame \<and> gs_depth g = 0 \<and> gs_stage g = HYBRID_GENERIC_IDLE"

definition generic_inv :: "hybrid_core \<Rightarrow> bool" where
  "generic_inv h \<longleftrightarrow> at_rest (hr_generic h) \<or> coordinating (hr_generic h)"

lemma at_rest_zero [simp]: "at_rest zero_generic_state"
  by (simp add: at_rest_def zero_generic_state_def)

lemma coordinating_active [simp]: "coordinating g \<Longrightarrow> gs_active g"
  by (simp add: coordinating_def)

lemma coordinating_cases:
  assumes "coordinating g"
  obtains (none) "gs_frames g = [zero_generic_frame, zero_generic_frame]" "gs_depth g = 0" "gs_stage g = HYBRID_GENERIC_ARM"
  | (outer) a where "gs_frames g = [a, zero_generic_frame]" "gs_depth g = 1" "stack_ok (gs_stage g) [a]"
  | (inner) a b where "gs_frames g = [a, b]" "gs_depth g = 2" "stack_ok (gs_stage g) [a, b]"
proof -
  obtain fs where fs: "gs_frames g = fs @ replicate (2 - length fs) zero_generic_frame" "gs_depth g = of_nat (length fs)" "stack_ok (gs_stage g) fs"
    using assms by (auto simp: coordinating_def)
  consider "fs = []" | a where "fs = [a]" | a b where "fs = [a, b]"
    using fs(3) by (cases "(gs_stage g, fs)" rule: stack_ok.cases) auto
  then show thesis using fs by cases (auto intro: none outer inner simp: numeral_2_eq_2)
qed

lemma coordinatingI:
  "gs_active g \<Longrightarrow> gs_frames g = [zero_generic_frame, zero_generic_frame] \<Longrightarrow> gs_depth g = 0 \<Longrightarrow> gs_stage g = HYBRID_GENERIC_ARM \<Longrightarrow> coordinating g"
  "gs_active g \<Longrightarrow> gs_frames g = [a, zero_generic_frame] \<Longrightarrow> gs_depth g = 1 \<Longrightarrow> stack_ok (gs_stage g) [a] \<Longrightarrow> coordinating g"
  "gs_active g \<Longrightarrow> gs_frames g = [a, b] \<Longrightarrow> gs_depth g = 2 \<Longrightarrow> stack_ok (gs_stage g) [a, b] \<Longrightarrow> coordinating g"
  unfolding coordinating_def
  by (auto intro: exI [of _ "[]"] exI [of _ "[a]"] exI [of _ "[a, b]"] simp: numeral_2_eq_2)

lemma coordinating_steady: "steady h' = steady h \<Longrightarrow> coordinating (hr_generic h') = coordinating (hr_generic h)"
  by (simp add: steady_def coordinating_def)

end
