(* ===== verification/Gem_Hybrid_Props.thy ===== *)
theory Gem_Hybrid_Props
  imports Gem_Hybrid_Broker
begin

text \<open>
  The loop of the coordinator: it ends, its stack of frames stays well-formed, it stays within its
  budget, and it hands control back only at the caller it was entered from.
\<close>

section \<open>Operations on the frames\<close>

text \<open>What every operation on the frames leaves alone.\<close>

definition fixed :: "hybrid_core \<Rightarrow> gem_hybrid_runtime_config \<times> u64 \<times> u64 \<times> u64 \<times> bool \<times>
    (hybrid_frame \<times> hybrid_stage \<times> (hybrid_frame \<times> u64) \<times> u32 \<times> u64)" where
  "fixed h = (hr_config h, st_arm64ec_instructions_retired (hr_stats h), st_x64_instructions_retired (hr_stats h),
     gs_native_return_pc (hr_generic h), gs_active (hr_generic h), bounded_part h)"

lemma fixed_steady: "steady h' = steady h \<Longrightarrow> gs_active (hr_generic h) \<Longrightarrow> fixed h' = fixed h"
  by (auto simp: steady_def fixed_def)

lemma next_cookie_simps [simp]:
  "hr_config (next_cookie h) = hr_config h" "hr_stats (next_cookie h) = hr_stats h" "hr_generic (next_cookie h) = hr_generic h"
  by (simp_all add: next_cookie_def)

lemma next_cookie_nonzero [simp]: "hr_generation (next_cookie h) \<noteq> 0"
  by (simp add: next_cookie_def add_eq_0_iff2)

lemma push_frame_fixed: "push_frame acc ok h m c va p s cb = (b, h', m', c') \<Longrightarrow> fixed h' = fixed h"
  by (auto simp: push_frame_def Let_def fixed_def split: prod.splits if_splits)

lemma push_fixed: "generic_push_x64 P al h m c va p s = (ok, h', m', c') \<Longrightarrow> fixed h' = fixed h"
  by (auto simp: generic_push_x64_def Let_def set_current_frame_def split: prod.splits if_splits option.splits dest!: push_frame_fixed)
    (auto simp: fixed_def)

lemma pop_fixed: "generic_pop_x64 acc ok h m c = (b, h', m', c') \<Longrightarrow> fixed h' = fixed h"
  by (auto simp: generic_pop_x64_def Let_def fixed_def split: prod.splits if_splits)

lemma enter_fixed: "generic_enter_callback R h m c t s w = (b, h', m', c') \<Longrightarrow> fixed h' = fixed h"
  by (auto simp: generic_enter_callback_def Let_def fixed_def set_current_frame_def split: prod.splits if_splits option.splits)

lemma finish_fixed: "generic_finish_callback acc ok h m c = (b, h', m', c') \<Longrightarrow> fixed h' = fixed h"
  by (auto simp: generic_finish_callback_def Let_def set_current_frame_def
      split: prod.splits if_splits option.splits hybrid_generic_callback.splits dest!: pop_fixed) (auto simp: fixed_def)

lemma push_frame_stack:
  assumes "push_frame acc ok h m c va p s cb = (True, h', m', c')" and "gs_active (hr_generic h)"
    and "gs_frames (hr_generic h) = fs @ replicate (2 - length fs) zero_generic_frame" and "gs_depth (hr_generic h) = of_nat (length fs)"
    and "fs = [] \<and> \<not> cb \<or> (\<exists>a. fs = [a] \<and> stack_ok HYBRID_GENERIC_ARM_CALLBACK [a] \<and> cb)"
  shows "coordinating (hr_generic h') \<and> gs_stage (hr_generic h') = HYBRID_GENERIC_X64"
  using assms(5)
proof
  assume "fs = [] \<and> \<not> cb"
  then show ?thesis using assms
    by (auto simp: push_frame_def Let_def numeral_2_eq_2 zero_generic_frame_def live_frame_def at_work_def split: prod.splits if_splits
        intro!: coordinatingI(2))
next
  assume "\<exists>a. fs = [a] \<and> stack_ok HYBRID_GENERIC_ARM_CALLBACK [a] \<and> cb"
  then show ?thesis using assms
    by (auto simp: push_frame_def Let_def numeral_2_eq_2 zero_generic_frame_def live_frame_def at_work_def split: prod.splits if_splits
        intro!: coordinatingI(3))
qed

lemma push_stack:
  assumes "generic_push_x64 P al h m c va p s = (True, h', m', c')" and co: "coordinating (hr_generic h)"
    and "gs_stage (hr_generic h) \<noteq> HYBRID_GENERIC_X64"
  shows "coordinating (hr_generic h') \<and> gs_stage (hr_generic h') = HYBRID_GENERIC_X64"
  using co
proof (cases rule: coordinating_cases)
  case none
  obtain m1 t where "push_frame (hp_accessible P) (al 1) h m1 c t p s False = (True, h', m', c')"
    using assms(1) none by (auto simp: generic_push_x64_def Let_def split: prod.splits if_splits option.splits)
  from push_frame_stack [OF this, of "[]"] show ?thesis using none co by (simp add: numeral_2_eq_2)
next
  case (outer a)
  then have st: "gs_stage (hr_generic h) = HYBRID_GENERIC_ARM_CALLBACK" using assms(3) by (auto simp: at_work_def)
  let ?a = "a\<lparr>gf_callback_nested := True\<rparr>"
  have ok: "stack_ok HYBRID_GENERIC_ARM_CALLBACK [?a]" using outer st by (simp add: live_frame_def at_work_def)
  obtain m1 t where "push_frame (hp_accessible P) (al 1) (h\<lparr>hr_generic := set_current_frame ?a (hr_generic h)\<rparr>) m1 c t p s True = (True, h', m', c')"
    using assms(1) outer st by (auto simp: generic_push_x64_def Let_def generic_current_frame_def split: prod.splits if_splits option.splits)
  from push_frame_stack [OF this, of "[?a]"] show ?thesis using outer co ok
    by (simp add: set_current_frame_def numeral_2_eq_2)
next
  case (inner a b)
  then show ?thesis using assms(1) by (simp add: generic_push_x64_def Let_def)
qed

lemma pop_stack:
  assumes "generic_pop_x64 acc ok h m c = (True, h', m', c')" and co: "coordinating (hr_generic h)"
  shows "coordinating (hr_generic h') \<and> gs_stage (hr_generic h') \<noteq> HYBRID_GENERIC_X64 \<and>
    unat (gs_depth (hr_generic h')) < unat (gs_depth (hr_generic h))"
  using co
proof (cases rule: coordinating_cases)
  case none
  then show ?thesis using assms(1) by (simp add: generic_pop_x64_def Let_def)
next
  case (outer a)
  then show ?thesis using assms
    by (auto simp: generic_pop_x64_def Let_def split: prod.splits if_splits intro!: coordinatingI(1))
next
  case (inner a b)
  then show ?thesis using assms
    by (auto simp: generic_pop_x64_def Let_def at_work_def split: prod.splits if_splits intro!: coordinatingI(2))
qed

text \<open>The frame on top replaced by one that is at work at another stage.\<close>

lemma set_top_stack:
  assumes co: "coordinating g" and f: "generic_current_frame g = Some f"
    and f': "live_frame f' = live_frame f" "gf_resume_arm_callback f' = gf_resume_arm_callback f" "at_work s f'"
  shows "coordinating ((set_current_frame f' g)\<lparr>gs_stage := s\<rparr>)"
  using co
proof (cases rule: coordinating_cases)
  case none
  then show ?thesis using f by (simp add: generic_current_frame_def)
next
  case (outer a)
  then show ?thesis using f f' co
    by (intro coordinatingI(2) [of _ f']) (auto simp: generic_current_frame_def set_current_frame_def)
next
  case (inner a b)
  then show ?thesis using f f' co
    by (intro coordinatingI(3) [of _ a f']) (auto simp: generic_current_frame_def set_current_frame_def)
qed

lemma callback_record_frame:
  "callback_record h f m c s w = (Some (f', n, c'), m') \<Longrightarrow>
    live_frame f' = live_frame f \<and> gf_resume_arm_callback f' = gf_resume_arm_callback f \<and> gf_callback f' \<noteq> HYBRID_GENERIC_CALLBACK_NONE"
  by (auto simp: callback_record_def live_frame_def split: if_splits prod.splits)

lemma enter_stack:
  assumes "generic_enter_callback R h m c t s w = (True, h', m', c')" and co: "coordinating (hr_generic h)"
  shows "coordinating (hr_generic h')"
proof -
  obtain f where f: "generic_current_frame (hr_generic h) = Some f" using assms(1) by (auto simp: generic_enter_callback_def Let_def split: option.splits)
  obtain f' n c1 m1 where r: "callback_record h f m c s w = (Some (f', n, c1), m1)"
    using assms(1) f by (auto simp: generic_enter_callback_def Let_def split: if_splits prod.splits option.splits)
  let ?f = "f'\<lparr>gf_callback_pre_call_sp := n, gf_callback_arm_entry_sp := n AND NOT 15, gf_callback_prior_original_x64_sp := original_x64_sp c1\<rparr>"
  have "hr_generic h' = (set_current_frame ?f (hr_generic h))\<lparr>gs_stage := HYBRID_GENERIC_ARM_CALLBACK\<rparr>"
    using assms(1) f r by (auto simp: generic_enter_callback_def Let_def split: if_splits prod.splits option.splits sum.splits)
  then show ?thesis using set_top_stack [OF co f, of ?f HYBRID_GENERIC_ARM_CALLBACK] callback_record_frame [OF r]
    by (simp add: live_frame_def at_work_def)
qed

lemma coordinating_pending [simp]:
  "coordinating (g\<lparr>gs_pending_callback_return := b\<rparr>) = coordinating g"
  "coordinating (g\<lparr>gs_pending_dispatch := b, gs_pending_x64_target := p, gs_pending_arm_resume_pc := q, gs_pending_arm_resume_sp := r\<rparr>) = coordinating g"
  by (simp_all add: coordinating_def)

lemma finish_stack:
  assumes "generic_finish_callback acc ok h m c = (True, h', m', c')" and co: "coordinating (hr_generic h)"
  shows "coordinating (hr_generic h') \<and>
    (gs_stage (hr_generic h') = HYBRID_GENERIC_X64 \<or> unat (gs_depth (hr_generic h')) < unat (gs_depth (hr_generic h)))"
proof -
  let ?g = "(hr_generic h)\<lparr>gs_pending_callback_return := False\<rparr>"
  obtain f where f: "generic_current_frame (hr_generic h) = Some f" using assms(1) by (auto simp: generic_finish_callback_def split: option.splits)
  have "generic_current_frame ?g = generic_current_frame (hr_generic h)" by (simp add: generic_current_frame_def)
  then have co': "coordinating ?g" "generic_current_frame ?g = Some f" using co f by simp_all
  show ?thesis
  proof (cases "gf_callback f")
    case HYBRID_GENERIC_CALLBACK_NONE
    then show ?thesis using assms(1) f by (simp add: generic_finish_callback_def Let_def)
  next
    case HYBRID_GENERIC_CALLBACK_CALL
    let ?f = "f\<lparr>gf_callback := HYBRID_GENERIC_CALLBACK_NONE, gf_callback_resume_pc := 0, gf_callback_pre_call_sp := 0,
      gf_callback_arm_entry_sp := 0, gf_callback_prior_original_x64_sp := 0\<rparr>"
    have "hr_generic h' = (set_current_frame ?f ?g)\<lparr>gs_stage := HYBRID_GENERIC_X64\<rparr>"
      using assms(1) f HYBRID_GENERIC_CALLBACK_CALL by (auto simp: generic_finish_callback_def Let_def)
    then show ?thesis using set_top_stack [OF co', of ?f HYBRID_GENERIC_X64] by (simp add: live_frame_def at_work_def)
  next
    case HYBRID_GENERIC_CALLBACK_TAIL
    then show ?thesis using assms(1) f co' pop_stack [of acc ok "h\<lparr>hr_generic := ?g\<rparr>" m _ h' m' c']
      by (auto simp: generic_finish_callback_def Let_def)
  qed
qed

end
