(* ===== verification/Gem_Hybrid_Theorems.thy ===== *)
theory Gem_Hybrid_Theorems
  imports Gem_Hybrid_Props
begin

text \<open>
  Properties of \<open>gem_hybrid_runtime_run\<close>: the runs end, and what they leave.
\<close>

section \<open>One iteration\<close>

definition spent :: "hybrid_core \<Rightarrow> nat" where
  "spent h = unat (st_arm64ec_instructions_retired (hr_stats h)) + unat (st_x64_instructions_retired (hr_stats h))"

text \<open>What holds at the head of the loop, for the native return address \<open>n\<close> and the budget \<open>b\<close>.\<close>

definition in_loop :: "u64 \<Rightarrow> nat \<Rightarrow> (hybrid_frame \<times> hybrid_stage \<times> (hybrid_frame \<times> u64) \<times> u32 \<times> u64) \<Rightarrow> ('d, 'b) hybrid_state \<Rightarrow> bool" where
  "in_loop n b w s = (case s of (y, m, c, left) \<Rightarrow> coordinating (hr_generic (hy_core y)) \<and>
     gs_native_return_pc (hr_generic (hy_core y)) = n \<and> spent (hy_core y) + unat left = b \<and> bounded_part (hy_core y) = w)"

text \<open>What holds after the loop.\<close>

definition at_caller :: "u64 \<Rightarrow> hybrid_core \<Rightarrow> gem_thread_context \<Rightarrow> bool" where
  "at_caller n h c \<longleftrightarrow> pc c = n \<and> isa c = isa_code GEM_ISA_ARM64EC \<and> transition_cookie c = 0 \<and> hr_generic h = zero_generic_state"

definition run_over :: "u64 \<Rightarrow> nat \<Rightarrow> (hybrid_frame \<times> hybrid_stage \<times> (hybrid_frame \<times> u64) \<times> u32 \<times> u64) \<Rightarrow> ('d, 'b) hybrid_result \<Rightarrow> bool" where
  "run_over n b w r = (case r of (e, y, m, c) \<Rightarrow> bounded_part (hy_core y) = w \<and> generic_inv (hy_core y) \<and> spent (hy_core y) \<le> b \<and> \<not> hr_running (hy_core y) \<and>
     (e = GEM_STOP_ARCH_TRANSITION \<longrightarrow> at_caller n (hy_core y) c))"

definition hybrid_measure :: "('d, 'b) hybrid_state \<Rightarrow> nat" where
  "hybrid_measure s = (case s of (y, m, c, left) \<Rightarrow> unat left * 4 +
     (if gs_stage (hr_generic (hy_core y)) = HYBRID_GENERIC_X64 then 0 else 1 + unat (gs_depth (hr_generic (hy_core y)))))"

definition outcome_ok :: "u64 \<Rightarrow> nat \<Rightarrow> (hybrid_frame \<times> hybrid_stage \<times> (hybrid_frame \<times> u64) \<times> u32 \<times> u64) \<Rightarrow> nat \<Rightarrow> ('d, 'b) hybrid_result + ('d, 'b) hybrid_state \<Rightarrow> bool" where
  "outcome_ok n b w k out = (case out of Inl r \<Rightarrow> run_over n b w r | Inr s \<Rightarrow> in_loop n b w s \<and> hybrid_measure s < k)"

lemma spent_fixed: "fixed h' = fixed h \<Longrightarrow> spent h' = spent h"
  by (simp add: fixed_def spent_def)

lemma violate_ok: "spent (hy_core y) \<le> b \<Longrightarrow> bounded_part (hy_core y) = w \<Longrightarrow> outcome_ok n b w k (violate P al line y m c)"
  by (simp add: outcome_ok_def run_over_def violate_def generic_invariant_at_def generic_return_def generic_publish_stats_def
      record_broker_stop_def Let_def generic_inv_def spent_def split: prod.splits)

lemma leave_ok:
  assumes "generic_inv (hy_core y)" and "spent (hy_core y) \<le> b" and "bounded_part (hy_core y) = w" and "e = GEM_STOP_ARCH_TRANSITION \<Longrightarrow> at_caller n (hy_core y) c"
  shows "outcome_ok n b w k (leave e y m c)"
  using assms by (auto simp: outcome_ok_def run_over_def leave_def generic_return_def generic_publish_stats_def generic_inv_def spent_def at_caller_def)

lemma continue_ok:
  assumes "fixed h = fixed (hy_core y)" and "spent (hy_core y) + unat left = b" and "gs_native_return_pc (hr_generic (hy_core y)) = n"
    and w: "bounded_part (hy_core y) = w"
    and "ok \<Longrightarrow> coordinating (hr_generic h) \<and> hybrid_measure (y\<lparr>hy_core := h\<rparr>, m, c, left) < k"
  shows "outcome_ok n b w k (continue P al line y left (ok, h, m, c))"
proof (cases ok)
  case True
  then show ?thesis using assms spent_fixed [OF assms(1)]
    by (simp add: continue_def outcome_ok_def in_loop_def fixed_def)
next
  case False
  have "bounded_part h = w" using assms(1) w by (simp add: fixed_def)
  then show ?thesis using assms spent_fixed [OF assms(1)] False by (simp add: continue_def violate_ok)
qed

section \<open>The ARM64EC engine's turn\<close>

lemma coordinating_small: "coordinating g \<Longrightarrow> unat (gs_depth g) \<le> 2"
  by (erule coordinating_cases) simp_all

lemma coordinating_stage: "coordinating g \<Longrightarrow> gs_stage g \<noteq> HYBRID_GENERIC_IDLE"
  by (erule coordinating_cases) (auto simp: at_work_def)

lemma push_ok:
  assumes "fixed h = fixed (hy_core y)" and "coordinating (hr_generic h)" and st: "gs_stage (hr_generic (hy_core y)) \<noteq> HYBRID_GENERIC_X64"
    and n: "gs_native_return_pc (hr_generic (hy_core y)) = n" and b: "spent (hy_core y) + unat left = b"
    and k: "unat left * 4 + 1 + unat (gs_depth (hr_generic (hy_core y))) \<le> k" and w: "bounded_part (hy_core y) = w" and "gs_stage (hr_generic h) = gs_stage (hr_generic (hy_core y))"
  shows "outcome_ok n b w k (continue P al' line y left (generic_push_x64 P al h m c va p s))"
proof -
  obtain ok h' m' c' where f: "generic_push_x64 P al h m c va p s = (ok, h', m', c')" by (metis prod_cases4)
  have "coordinating (hr_generic h') \<and> hybrid_measure (y\<lparr>hy_core := h'\<rparr>, m', c', left) < k" if ok
    using that push_stack [of P al h m c va p s h' m' c'] f assms(2,8) st k by (auto simp: hybrid_measure_def)
  then show ?thesis using continue_ok [of h' y left b n w ok m' c' k] push_fixed [OF f] f assms(1) n b w by simp
qed

lemma arm_transition_ok:
  assumes co: "coordinating (hr_generic (hy_core y))" and st: "gs_stage (hr_generic (hy_core y)) \<noteq> HYBRID_GENERIC_X64"
    and n: "gs_native_return_pc (hr_generic (hy_core y)) = n" and b: "spent (hy_core y) + unat left = b"
    and k: "unat left * 4 + 1 + unat (gs_depth (hr_generic (hy_core y))) \<le> k" and w: "bounded_part (hy_core y) = w"
  shows "outcome_ok n b w k (arm_transition P al y m c left)"
proof -
  let ?h = "hy_core y" and ?g = "hr_generic (hy_core y)"
  note v = violate_ok [of y b w]
  consider (native) "gs_pending_native_return ?g" | (returned) "\<not> gs_pending_native_return ?g" "gs_pending_callback_return ?g"
    | (dispatch) "\<not> gs_pending_native_return ?g" "\<not> gs_pending_callback_return ?g" "gs_pending_dispatch ?g"
    | (edge) "\<not> gs_pending_native_return ?g" "\<not> gs_pending_callback_return ?g" "\<not> gs_pending_dispatch ?g" by blast
  then show ?thesis
  proof cases
    case native
    then show ?thesis using v b n w
      by (auto simp: arm_transition_def Let_def record_broker_stop_def generic_inv_def spent_def at_caller_def intro!: leave_ok)
  next
    case returned
    obtain ok h' m' c' where f: "generic_finish_callback (hp_accessible P) (al 0) ?h m c = (ok, h', m', c')" by (metis prod_cases4)
    have "outcome_ok n b w k (continue P (undo_begins al) 888 y left (ok, h', m', c'))"
    proof (rule continue_ok [OF finish_fixed [OF f] b n w])
      assume ok
      then show "coordinating (hr_generic h') \<and> hybrid_measure (y\<lparr>hy_core := h'\<rparr>, m', c', left) < k"
        using finish_stack [of "hp_accessible P" "al 0" ?h m c h' m' c'] f co k by (auto simp: hybrid_measure_def)
    qed
    then show ?thesis using returned f by (simp add: arm_transition_def Let_def)
  next
    case dispatch
    show ?thesis using push_ok [OF _ _ st n b k w, of "?h\<lparr>hr_generic := ?g\<lparr>gs_pending_dispatch := False, gs_pending_x64_target := 0,
        gs_pending_arm_resume_pc := 0, gs_pending_arm_resume_sp := 0\<rparr>\<rparr>"] dispatch co
      by (simp add: arm_transition_def Let_def fixed_def)
  next
    case edge
    then show ?thesis using v b w push_ok [OF _ co st n b k w refl] by (auto simp: arm_transition_def Let_def split: option.split)
  qed
qed

lemma unat_spend: "(n :: u64) \<le> left \<Longrightarrow> unat a + d + unat left < 2 ^ 64 \<Longrightarrow> unat (a + n) + d + unat (left - n) = unat a + d + unat left"
  by (simp add: word_le_nat_alt unat_sub unat_word_ariths)

lemma arm_turn_ok:
  assumes P: "broker_only P" and s: "in_loop n b w (y, m, c, left)" and b: "b < 2 ^ 64"
    and st: "gs_stage (hr_generic (hy_core y)) \<noteq> HYBRID_GENERIC_X64"
  shows "outcome_ok n b w (hybrid_measure (y, m, c, left)) (arm_turn P al (y, m, c, left))"
proof -
  let ?k = "hybrid_measure (y, m, c, left)" and ?trap = "hc_boundary_delivery (hr_config (hy_core y)) = GEM_ARM64EC_BOUNDARY_SVC_TRAP"
  let ?set = "if ?trap then gem_arm64ec_runtime_set_boundary_return_pc (Some (hy_arm y))
      (if gs_stage (hr_generic (hy_core y)) = HYBRID_GENERIC_ARM \<and> gs_depth (hr_generic (hy_core y)) = 0
       then gs_native_return_pc (hr_generic (hy_core y)) else 0) else (True, Some (hy_arm y))"
  let ?n = "if ?trap then left else if left < 4096 then left else 4096"
  have co: "coordinating (hr_generic (hy_core y))" and nat: "gs_native_return_pc (hr_generic (hy_core y)) = n"
    and sp: "spent (hy_core y) + unat left = b" and w: "bounded_part (hy_core y) = w" using s by (simp_all add: in_loop_def)
  obtain ok0 ro where set: "?set = (ok0, ro)" by fastforce
  let ?y = "y\<lparr>hy_arm := (case ro of None \<Rightarrow> hy_arm y | Some r \<Rightarrow> r)\<rparr>"
  obtain e y1 m1 c1 where run: "run_arm P ?y m c ?n = (e, y1, m1, c1)" by (metis prod_cases4)
  obtain ok h left1 where cons: "consume_arm_budget (hy_arm y1) (hy_core y1) left = (ok, h, left1)" by (metis prod_cases3)
  have sd: "steady (hy_core y1) = steady (hy_core y)" using steady_run_arm [OF P run] by simp
  have turn: "arm_turn P al (y, m, c, left) = (if \<not> ok0 then violate P (undo_begins al) 863 y m c
      else if \<not> ok \<or> hs_reason (hr_last_stop h) \<noteq> e then violate P (undo_begins al) 866 (y1\<lparr>hy_core := h\<rparr>) m1 c1
      else if e \<noteq> GEM_STOP_ARCH_TRANSITION then leave e (y1\<lparr>hy_core := h\<rparr>) m1 c1
      else arm_transition P al (y1\<lparr>hy_core := h\<rparr>) m1 c1 left1)"
    unfolding arm_turn_def Let_def prod.case set run cons by (cases ok0) (simp_all add: run cons)
  obtain stop k where h: "h = (hy_core y1)\<lparr>hr_last_stop := stop, hr_stats := (hr_stats (hy_core y1))\<lparr>st_arm64ec_instructions_retired :=
      st_arm64ec_instructions_retired (hr_stats (hy_core y1)) + k\<rparr>\<rparr>" "k \<le> left" "left1 = left - k"
    by (rule consume_facts [OF cons])
  have fx: "fixed (hy_core y1) = fixed (hy_core y)" using fixed_steady [OF sd] co by simp
  then have sp1: "spent (hy_core y1) = spent (hy_core y)" by (rule spent_fixed)
  have wh: "bounded_part h = w" using fx h(1) w by (simp add: fixed_def)
  have sph: "spent h + unat left1 = b"
    using unat_spend [of k left "st_arm64ec_instructions_retired (hr_stats (hy_core y1))" "unat (st_x64_instructions_retired (hr_stats (hy_core y1)))"]
      h sp sp1 b by (simp add: spent_def)
  have gen: "hr_generic h = hr_generic (hy_core y1)" using h by simp
  have co1: "coordinating (hr_generic h)" using co coordinating_steady [OF sd] gen by simp
  have g1: "gs_stage (hr_generic h) = gs_stage (hr_generic (hy_core y))" "gs_depth (hr_generic h) = gs_depth (hr_generic (hy_core y))"
      "gs_native_return_pc (hr_generic h) = n" using sd gen nat by (simp_all add: steady_def)
  have "unat left1 \<le> unat left" using h(2,3) by (simp add: word_le_nat_alt unat_sub)
  then have k: "unat left1 * 4 + 1 + unat (gs_depth (hr_generic h)) \<le> ?k" using st g1 by (simp add: hybrid_measure_def)
  show ?thesis unfolding turn
    using sp sph co1 st g1 k w wh arm_transition_ok [of "y1\<lparr>hy_core := h\<rparr>" n left1 b ?k w P al m1 c1]
    by (auto simp: generic_inv_def intro!: leave_ok violate_ok)
qed

section \<open>The x64 engine's turn\<close>

lemma step_not_transition:
  assumes "gem_x64_blink_step B r m inp = (e, out, one, r1, m1)"
  shows "e \<noteq> GEM_STOP_ARCH_TRANSITION"
proof -
  obtain br bo b t m' where ms: "machine_step B (xr_backend r) (x64_import inp) (xr_transaction r, m) = (br, bo, b, t, m')" by (metis prod_cases5)
  obtain r2 where r2: "gem_x64_blink_step B r m inp = (step_reason B br b, if br_outcome br = BLINK_GEM_RETIRED then Some (x64_export bo) else None,
      br_retired br, r2, m')"
    by (rule blink_step_result [OF ms])
  have "step_reason B br b \<noteq> GEM_STOP_ARCH_TRANSITION" by (simp add: step_reason_def split: blink_gem_outcome.split prod.split)
  then show ?thesis using assms r2 by simp
qed

lemma iteration_not_transition:
  assumes "x64_iteration B E n r m inp c = Inl (e, n1, r1, m1, c1)"
  shows "e \<noteq> GEM_STOP_ARCH_TRANSITION"
proof -
  let ?r = "r\<lparr>xr_async_stop_requested := False, xr_transaction := Some \<lparr>tx_pages = []\<rparr>\<rparr>"
  obtain f out one r2 m2 where st: "gem_x64_blink_step B ?r m inp = (f, out, one, r2, m2)" by (metis prod_cases5)
  note b = step_not_transition [OF st]
  have "x64_iteration B E n r m inp c \<noteq> Inl (GEM_STOP_ARCH_TRANSITION, n1, r1, m1, c1)"
    using b unfolding x64_iteration_def Let_def gem_memory_transaction_begin_def
    by (cases out; cases "gem_context_x64_commit (the out) c") (simp_all add: st)
  then show ?thesis using assms by blast
qed

lemma loop_not_transition:
  "x64_loop B E left n e0 r m inp c = (e, n1, r1, m1, c1) \<Longrightarrow> e0 \<noteq> GEM_STOP_ARCH_TRANSITION \<Longrightarrow> e \<noteq> GEM_STOP_ARCH_TRANSITION"
proof (induction left arbitrary: n e0 r m inp c)
  case (Suc left)
  then show ?case
    by (cases "x64_iteration B E n r m inp c") (auto dest: iteration_not_transition split: prod.splits)
qed simp

lemma run_x64_not_transition: "run_x64 P E y m c = (e, y', m', c') \<Longrightarrow> e \<noteq> GEM_STOP_ARCH_TRANSITION"
  by (auto simp: run_x64_def gem_x64_runtime_run_def Let_def simp del: x64_loop.simps
      split: prod.splits option.splits if_splits dest: loop_not_transition)

lemma x64_transition_ok:
  assumes co: "coordinating (hr_generic (hy_core y))" and n: "gs_native_return_pc (hr_generic (hy_core y)) = n"
    and b: "spent (hy_core y) + unat left = b" and k: "unat left * 4 + 3 < k" and w: "bounded_part (hy_core y) = w"
  shows "outcome_ok n b w k (x64_transition P al e s y m c left)"
proof -
  have small: "hybrid_measure (y\<lparr>hy_core := h\<rparr>, m', c', left) < k" if "coordinating (hr_generic h)" for h m' c'
    using coordinating_small [OF that] k by (simp add: hybrid_measure_def)
  have pop: "outcome_ok n b w k (continue P al' line y left (generic_pop_x64 acc ok (hy_core y) m c))" for al' line acc ok
  proof -
    obtain ok' h' m' c' where f: "generic_pop_x64 acc ok (hy_core y) m c = (ok', h', m', c')" by (metis prod_cases4)
    show ?thesis unfolding f by (rule continue_ok [OF pop_fixed [OF f] b n w]) (use pop_stack [of acc ok "hy_core y" m c h' m' c'] f co small in auto)
  qed
  have enter: "outcome_ok n b w k (continue P al' line y left (generic_enter_callback R (hy_core y) m c t s ca))" for al' line R t s ca
  proof -
    obtain ok' h' m' c' where f: "generic_enter_callback R (hy_core y) m c t s ca = (ok', h', m', c')" by (metis prod_cases4)
    show ?thesis unfolding f by (rule continue_ok [OF enter_fixed [OF f] b n w]) (use enter_stack [of R "hy_core y" m c t s ca h' m' c'] f co small in auto)
  qed
  have stay: "outcome_ok n b w k (Inr (y, m, c', left))" for c' using small [of "hy_core y" m c'] co n b w by (simp add: outcome_ok_def in_loop_def)
  show ?thesis using pop enter stay b w by (auto simp: x64_transition_def Let_def intro!: violate_ok split: sum.split)
qed

lemma x64_turn_ok:
  assumes s: "in_loop n b w (y, m, c, left)" and b: "b < 2 ^ 64"
    and st: "gs_stage (hr_generic (hy_core y)) = HYBRID_GENERIC_X64"
  shows "outcome_ok n b w (hybrid_measure (y, m, c, left)) (x64_turn P E al (y, m, c, left))"
proof -
  have co: "coordinating (hr_generic (hy_core y))" and nat: "gs_native_return_pc (hr_generic (hy_core y)) = n"
    and sp: "spent (hy_core y) + unat left = b" and w: "bounded_part (hy_core y) = w" using s by (simp_all add: in_loop_def)
  obtain e y1 m1 c1 where run: "run_x64 P E y m c = (e, y1, m1, c1)" by (metis prod_cases4)
  have y1: "hy_core y1 = hy_core y" using steady_run_x64 [OF run] by simp
  have e: "e \<noteq> GEM_STOP_ARCH_TRANSITION" by (rule run_x64_not_transition [OF run])
  let ?k = "xs_instructions_retired (xr_last_stop (hy_x64 y1))"
  define h where "h = (hy_core y)\<lparr>hr_last_stop := zero_hybrid_stop\<lparr>hs_source := GEM_HYBRID_STOP_SOURCE_X64,
    hs_x64 := xr_last_stop (hy_x64 y1), hs_reason := xs_reason (xr_last_stop (hy_x64 y1))\<rparr>\<rparr>"
  define h2 where "h2 = h\<lparr>hr_stats := (hr_stats h)\<lparr>st_x64_instructions_retired := st_x64_instructions_retired (hr_stats h) + ?k\<rparr>\<rparr>"
  have turn: "x64_turn P E al (y, m, c, left) =
    (if xs_reason (xr_last_stop (hy_x64 y1)) \<noteq> e \<or> ?k > left then violate P (undo_begins al) 916 (y1\<lparr>hy_core := h\<rparr>) m1 c1
     else if e \<noteq> GEM_STOP_BUDGET_EXPIRED \<and> e \<noteq> GEM_STOP_HOST_RETURN then leave e (y1\<lparr>hy_core := h2\<rparr>) m1 c1
     else if ?k \<noteq> 1 then violate P (undo_begins al) 922 (y1\<lparr>hy_core := h2\<rparr>) m1 c1
     else x64_transition P al e (sp c) (y1\<lparr>hy_core := h2\<rparr>) m1 c1 (left - ?k))"
    by (simp add: x64_turn_def run capture_x64 y1 Let_def h_def h2_def)
  have g: "hr_generic h2 = hr_generic (hy_core y)" "spent h = spent (hy_core y)" "bounded_part h = w" "bounded_part h2 = w"
    using w by (simp_all add: h2_def h_def spent_def)
  have sph: "spent h2 + unat (left - ?k) = b" if "?k \<le> left"
    using unat_spend [OF that, of "st_x64_instructions_retired (hr_stats (hy_core y))" "unat (st_arm64ec_instructions_retired (hr_stats (hy_core y)))"]
      sp b by (simp add: spent_def h2_def h_def)
  have k: "unat (left - ?k) * 4 + 3 < hybrid_measure (y, m, c, left)" if "?k = 1" "?k \<le> left"
  proof -
    have "unat (left - ?k) = unat left - 1" "1 \<le> unat left" using that by (simp_all add: unat_sub word_le_nat_alt)
    then show ?thesis using st by (simp add: hybrid_measure_def)
  qed
  show ?thesis unfolding turn
    using sp sph k g co nat e x64_transition_ok [of "y1\<lparr>hy_core := h2\<rparr>" n "left - ?k" b "hybrid_measure (y, m, c, left)" w P al e "sp c" m1 c1]
    by (auto simp: generic_inv_def not_less intro!: leave_ok violate_ok)
qed

section \<open>Whole runs\<close>

lemma iteration_ok:
  assumes "broker_only P" and "in_loop n b w s" and "b < 2 ^ 64"
  shows "outcome_ok n b w (hybrid_measure s) (hybrid_iteration P V i s)"
proof -
  obtain y m c left where s: "s = (y, m, c, left)" by (metis prod_cases4)
  let ?h = "(hy_core y)\<lparr>hr_async_stop_requested := False\<rparr>"
  have il: "in_loop n b w (y\<lparr>hy_core := ?h\<rparr>, m, c, left)" and ms: "hybrid_measure s = hybrid_measure (y\<lparr>hy_core := ?h\<rparr>, m, c, left)"
    using assms(2) by (simp_all add: s in_loop_def hybrid_measure_def spent_def)
  have inv: "generic_inv (hy_core y)" "spent (hy_core y) \<le> b" "bounded_part (hy_core y) = w" using assms(2) by (auto simp: s in_loop_def generic_inv_def)
  note arm = arm_turn_ok [OF assms(1) il assms(3)] and x64 = x64_turn_ok [OF il assms(3)]
  show ?thesis unfolding s ms [unfolded s]
    using arm x64 inv
    by (auto simp: hybrid_iteration_def Let_def record_broker_stop_def generic_inv_def spent_def intro!: leave_ok violate_ok)
qed

lemma loop_over:
  assumes "broker_only P" and "b < 2 ^ 64"
  shows "in_loop n b w s \<Longrightarrow> \<exists>r. hybrid_loop P V i s = Some r \<and> run_over n b w r"
proof (induction "hybrid_measure s" arbitrary: s i rule: less_induct)
  case less
  show ?case
  proof (cases "hybrid_iteration P V i s")
    case (Inl r)
    then show ?thesis using iteration_ok [OF assms(1) less.prems assms(2), of V i] by (simp add: outcome_ok_def hybrid_loop.simps [of P V i s])
  next
    case (Inr s')
    then have "in_loop n b w s'" "hybrid_measure s' < hybrid_measure s"
      using iteration_ok [OF assms(1) less.prems assms(2), of V i] by (simp_all add: outcome_ok_def)
    then show ?thesis using less.hyps [of s' "Suc i"] Inr by (simp add: hybrid_loop.simps [of P V i s])
  qed
qed

end
