(* ===== verification/Gem_Hybrid_Bounded.thy ===== *)
theory Gem_Hybrid_Bounded
  imports Gem_Hybrid_Run
begin

text \<open>
  The four bounded operations of src/gem/hybrid_runtime.c: a round trip, a return through an exit thunk,
  a callback that resumes x64 code, and the nested path of depth two. Each is a chain of segments that
  stop at a label of the source; the code after the labels is the operation's failure.
\<close>

section \<open>Segments\<close>

text \<open>The labels, with the reason the source has when it jumps there.\<close>

datatype bounded_exit =
    Budget
  | Propagate gem_stop_reason
  | Invariant
  | Failure gem_stop_reason

text \<open>The locals of an operation. A stack record that is written is its address and the value it replaced.\<close>

record ('d, 'b) bounded =
  bd_runtime :: "('d, 'b) gem_hybrid_runtime"
  bd_memory :: gem_memory
  bd_context :: gem_thread_context
  bd_budget :: u64
  bd_root :: "(u64 \<times> u64) option"
  bd_inner :: "(u64 \<times> u64) option"
  bd_pre_step_sp :: u64

type_synonym ('d, 'b, 'a) segment = "bounded_exit \<times> ('d, 'b) bounded + 'a"

definition bd_core :: "('d, 'b) bounded \<Rightarrow> hybrid_core" where
  "bd_core s = hy_core (bd_runtime s)"

definition on_core :: "(hybrid_core \<Rightarrow> hybrid_core) \<Rightarrow> ('d, 'b) bounded \<Rightarrow> ('d, 'b) bounded" where
  "on_core f s = s\<lparr>bd_runtime := (bd_runtime s)\<lparr>hy_core := f (hy_core (bd_runtime s))\<rparr>\<rparr>"

definition on_context :: "(gem_thread_context \<Rightarrow> gem_thread_context) \<Rightarrow> ('d, 'b) bounded \<Rightarrow> ('d, 'b) bounded" where
  "on_context f s = s\<lparr>bd_context := f (bd_context s)\<rparr>"

definition stop_unless :: "bool \<Rightarrow> bounded_exit \<Rightarrow> ('d, 'b) bounded \<Rightarrow> ('d, 'b, unit) segment" where
  "stop_unless ok e s = guard_that ok (e, s)"

definition clear_stop :: "gem_thread_context \<Rightarrow> gem_thread_context" where
  "clear_stop c = c\<lparr>stop_reason := stop_code GEM_STOP_NONE\<rparr>"

text \<open>\<open>reason = gem_arm64ec_runtime_run(...)\<close> and the checks that follow it everywhere.\<close>

definition bounded_arm :: "('d, 'b) hybrid_parts \<Rightarrow> ('d, 'b) bounded \<Rightarrow> ('d, 'b, gem_stop_reason \<times> ('d, 'b) bounded) segment" where
  "bounded_arm P s = (case run_arm P (bd_runtime s) (bd_memory s) (bd_context s) (bd_budget s) of
     (reason, y, m, c) \<Rightarrow>
      (case consume_arm_budget (hy_arm y) (hy_core y) (bd_budget s) of
        (ok, h, left) \<Rightarrow>
         (let s' = s\<lparr>bd_runtime := y\<lparr>hy_core := h\<rparr>, bd_memory := m, bd_context := c, bd_budget := left\<rparr>
          in if \<not> ok \<or> hs_reason (hr_last_stop h) \<noteq> reason then Inl (Invariant, s') else Inr (reason, s'))))"

definition bounded_x64 :: "('d, 'b) hybrid_parts \<Rightarrow> x64_environment \<Rightarrow> ('d, 'b) bounded
    \<Rightarrow> ('d, 'b, gem_stop_reason \<times> ('d, 'b) bounded) segment" where
  "bounded_x64 P E s = (case run_x64 P E (bd_runtime s) (bd_memory s) (bd_context s) of
     (reason, y, m, c) \<Rightarrow>
      (case capture_x64_stop (hy_x64 y) (hy_core y) of
        (ok, h) \<Rightarrow>
         (let s' = s\<lparr>bd_runtime := y\<lparr>hy_core := h\<rparr>, bd_memory := m, bd_context := c\<rparr>
          in if \<not> ok \<or> hs_reason (hr_last_stop h) \<noteq> reason then Inl (Invariant, s') else Inr (reason, s'))))"

definition x64_retired :: "('d, 'b) bounded \<Rightarrow> u64" where
  "x64_retired s = xs_instructions_retired (hs_x64 (hr_last_stop (bd_core s)))"

definition count_x64 :: "u64 \<Rightarrow> ('d, 'b) bounded \<Rightarrow> ('d, 'b) bounded" where
  "count_x64 n s = (on_core (\<lambda>h. h\<lparr>hr_stats := (hr_stats h)\<lparr>st_x64_instructions_retired := st_x64_instructions_retired (hr_stats h) + n\<rparr>\<rparr>) s)
     \<lparr>bd_budget := bd_budget s - 1\<rparr>"

text \<open>The sentinel put on the guest's stack; the flag is the transaction's allocation.\<close>

definition put_record :: "('d, 'b) hybrid_parts \<Rightarrow> bool \<Rightarrow> u64 \<Rightarrow> u64 \<Rightarrow> ('d, 'b) bounded \<Rightarrow> ('d, 'b, u64 \<times> ('d, 'b) bounded) segment" where
  "put_record P ok a value s = (case replace_stack_record (hp_accessible P) ok (bd_memory s) a value of
     (e, old, m) \<Rightarrow>
      (if e \<noteq> GEM_MEMORY_OK then Inl (Invariant, s\<lparr>bd_memory := m\<rparr>)
       else Inr (case old of None \<Rightarrow> 0 | Some w \<Rightarrow> w, s\<lparr>bd_memory := m\<rparr>)))"

definition activate_frame :: "hybrid_operation \<Rightarrow> hybrid_core \<Rightarrow> hybrid_core" where
  "activate_frame oper h = (let h = next_cookie h
     in bump_stat st_frame_pushes_update (h\<lparr>hr_frame := (hr_frame h)\<lparr>hf_cookie := hr_generation h, hf_operation := oper, hf_active := True\<rparr>,
          hr_stats := (hr_stats h)\<lparr>st_maximum_frame_depth := 1\<rparr>\<rparr>))"

definition bounded_start :: "hybrid_stage \<Rightarrow> hybrid_core \<Rightarrow> hybrid_core" where
  "bounded_start stage h = h\<lparr>hr_stats := zero_stats, hr_last_stop := zero_hybrid_stop, hr_running := True, hr_stage := stage\<rparr>"

text \<open>Control goes to the entry thunk of an ARM64EC function: \<open>link\<close> returns to x64 code, whose stack pointer is \<open>original\<close>.\<close>

definition enter_thunk :: "u64 \<Rightarrow> u64 \<Rightarrow> u64 \<Rightarrow> u64 \<Rightarrow> u64 \<Rightarrow> gem_thread_context \<Rightarrow> gem_thread_context" where
  "enter_thunk link original function arm_sp thunk c =
    c\<lparr>x := (x c)[30 := link, 4 := original, 9 := function, 18 := teb c], original_x64_sp := original, sp := arm_sp, pc := thunk,
      isa := isa_code GEM_ISA_ARM64EC, stop_reason := stop_code GEM_STOP_NONE\<rparr>"

text \<open>
  The loop \<open>while (context->pc != x64_return_sentinel)\<close> with \<open>k\<close> the budget; the x64 engine's environments are
  numbered by the budget left, which no two steps of an operation share.
\<close>

fun x64_until_return :: "('d, 'b) hybrid_parts \<Rightarrow> (nat \<Rightarrow> x64_environment) \<Rightarrow> nat \<Rightarrow> ('d, 'b) bounded \<Rightarrow> ('d, 'b, ('d, 'b) bounded) segment" where
  "x64_until_return P W k s =
    (if pc (bd_context s) = hc_x64_return_sentinel (hr_config (bd_core s)) then Inr s
     else (case k of
        0 \<Rightarrow> Inl (Budget, s)
      | Suc k' \<Rightarrow>
         (case resolve_x64 (hp_resolver P) (bd_core s) (pc (bd_context s)) of
            None \<Rightarrow> Inl (Invariant, s)
          | Some target \<Rightarrow>
             (if resolved_va target \<noteq> pc (bd_context s) then Inl (Invariant, s)
              else (case bounded_x64 P (W k) s of
                 Inl f \<Rightarrow> Inl f
               | Inr (reason, s) \<Rightarrow>
                  (if reason \<noteq> GEM_STOP_BUDGET_EXPIRED \<and> reason \<noteq> GEM_STOP_HOST_RETURN then Inl (Failure reason, s)
                   else if x64_retired s \<noteq> 1 then Inl (Invariant, s)
                   else (let s = count_x64 1 s
                     in if pc (bd_context s) = hc_x64_return_sentinel (hr_config (bd_core s))
                     then (if reason \<noteq> GEM_STOP_HOST_RETURN \<or> \<not> gem_x64_runtime_last_instruction_was_ret (Some (hy_x64 (bd_runtime s)))
                           then Inl (Invariant, s) else Inr s)
                     else if reason \<noteq> GEM_STOP_BUDGET_EXPIRED then Inl (Failure reason, s)
                     else x64_until_return P W k' (on_context clear_stop s))))))))"

declare x64_until_return.simps [simp del]

section \<open>Ends of an operation\<close>

type_synonym ('d, 'b) bounded_result =
  "gem_stop_reason \<times> ('d, 'b) gem_hybrid_runtime option \<times> gem_memory \<times> gem_thread_context option \<times> gem_hybrid_roundtrip_stats"

definition bounded_refuse :: "('d, 'b) gem_hybrid_runtime \<Rightarrow> gem_memory \<Rightarrow> gem_thread_context option \<Rightarrow> ('d, 'b) bounded_result" where
  "bounded_refuse y m co = (GEM_STOP_INVARIANT_VIOLATION,
     Some (y\<lparr>hy_core := record_broker_stop GEM_STOP_INVARIANT_VIOLATION (hy_core y)\<rparr>), m, fail_context co, zero_stats)"

definition bounded_done :: "gem_stop_reason \<Rightarrow> ('d, 'b) bounded \<Rightarrow> ('d, 'b) bounded_result" where
  "bounded_done e s = (e, Some (bd_runtime s), bd_memory s, Some (bd_context s), hr_stats (bd_core s))"

text \<open>A record taken back on failure; a failure to do so replaces the reason.\<close>

definition take_back :: "('d, 'b) hybrid_parts \<Rightarrow> bool \<Rightarrow> (u64 \<times> u64) option \<Rightarrow> gem_stop_reason \<times> ('d, 'b) bounded
    \<Rightarrow> gem_stop_reason \<times> ('d, 'b) bounded" where
  "take_back P ok record rs = (case record of
      None \<Rightarrow> rs
    | Some (a, old) \<Rightarrow>
       (case rs of (reason, s) \<Rightarrow>
         (case replace_stack_record (hp_accessible P) ok (bd_memory s) a old of
           (e, _, m) \<Rightarrow>
            (if e \<noteq> GEM_MEMORY_OK
             then (GEM_STOP_INVARIANT_VIOLATION, (on_core (record_broker_stop GEM_STOP_INVARIANT_VIOLATION) s)\<lparr>bd_memory := m\<rparr>)
             else (reason, s\<lparr>bd_memory := m\<rparr>)))))"

text \<open>The frame is dropped and the entry context comes back.\<close>

definition drop_frame :: "hybrid_core \<Rightarrow> hybrid_core" where
  "drop_frame h = (let h = (if hf_active (hr_frame h) then bump_stat st_frame_pops_update h else h)
     in h\<lparr>hr_frame := zero_frame, hr_stage := HYBRID_STAGE_IDLE, hr_running := False,
          hr_stats := (hr_stats h)\<lparr>st_final_frame_depth := 0\<rparr>\<rparr>)"

definition bounded_restore :: "gem_thread_context \<Rightarrow> (hybrid_core \<Rightarrow> hybrid_core) \<Rightarrow> gem_stop_reason \<times> ('d, 'b) bounded \<Rightarrow> ('d, 'b) bounded_result" where
  "bounded_restore entry f rs = (case rs of (reason, s) \<Rightarrow>
     bounded_done reason ((on_core f s)\<lparr>bd_context := entry\<lparr>stop_reason := stop_code reason\<rparr>\<rparr>))"

section \<open>The round trip\<close>

text \<open>Memory travels through the checks because the last one opens a transaction.\<close>

definition roundtrip_accepts :: "('d, 'b) hybrid_parts \<Rightarrow> bool \<Rightarrow> hybrid_core \<Rightarrow> gem_memory \<Rightarrow> gem_thread_context \<Rightarrow> u64 \<Rightarrow> u64 \<Rightarrow> bool \<times> gem_memory" where
  "roundtrip_accepts P ok h m c caller_va budget =
    (if hr_running h \<or> hf_active (hr_frame h) \<or> \<not> gem_context_is_valid c \<or> isa c \<noteq> isa_code GEM_ISA_ARM64EC \<or> pc c \<noteq> caller_va \<or>
        transition_cookie c \<noteq> 0 \<or> budget = 0 \<or> budget > hc_max_budget (hr_config h) \<or> x c ! 18 \<noteq> teb c \<or> sp c < 8 then (False, m)
     else stack_record_supported (hp_accessible P) ok m (sp c - 8))"

definition roundtrip_leave :: "('d, 'b) hybrid_parts \<Rightarrow> bool \<Rightarrow> ('d, 'b) bounded \<Rightarrow> ('d, 'b, ('d, 'b) bounded) segment" where
  "roundtrip_leave P ok s =
    rbind (bounded_arm P s) (\<lambda>(reason, s).
    rbind (stop_unless (reason \<noteq> GEM_STOP_BUDGET_EXPIRED) Budget s) (\<lambda>_.
    rbind (stop_unless (reason = GEM_STOP_ARCH_TRANSITION) (Propagate reason) s) (\<lambda>_.
    rbind (stop_unless (st_checker_boundaries (hr_stats (bd_core s)) = 1 \<and> st_dispatch_call_boundaries (hr_stats (bd_core s)) = 1) Invariant s) (\<lambda>_.
    rbind (stop_unless (bd_budget s \<noteq> 0) Budget s) (\<lambda>_.
    let s = on_core (activate_frame HYBRID_OPERATION_ROUNDTRIP_RETURN) s;
        s = on_context (\<lambda>c. c\<lparr>transition_cookie := hf_cookie (hr_frame (bd_core s))\<rparr>) s
    in rbind (stop_unless (sp (bd_context s) \<ge> 8) Invariant s) (\<lambda>_.
    let a = sp (bd_context s) - 8; s = on_context (\<lambda>c. c\<lparr>sp := a\<rparr>) s
    in rbind (put_record P ok a (hf_x64_return (hr_frame (bd_core s))) s) (\<lambda>(old, s).
    let s = s\<lparr>bd_root := Some (a, old)\<rparr>
    in case resolve_x64 (hp_resolver P) (bd_core s) (x (bd_context s) ! 9) of
         None \<Rightarrow> Inl (Invariant, s)
       | Some target \<Rightarrow> Inr (on_context (\<lambda>c. c\<lparr>pc := resolved_va target, isa := isa_code GEM_ISA_X64,
           stop_reason := stop_code GEM_STOP_NONE\<rparr>) s))))))))"

fun roundtrip_x64 :: "('d, 'b) hybrid_parts \<Rightarrow> (nat \<Rightarrow> x64_environment) \<Rightarrow> nat \<Rightarrow> ('d, 'b) bounded
    \<Rightarrow> ('d, 'b, gem_arm64ec_target_result \<times> ('d, 'b) bounded) segment" where
  "roundtrip_x64 P W k s = (case hybrid_resolve (hp_resolver P) (bd_core s) (pc (bd_context s)) of
      Inl _ \<Rightarrow> Inl (Invariant, s)
    | Inr target \<Rightarrow>
       (if kind target \<noteq> Some GEM_ARM64EC_TARGET_X64_BOUNDARY then Inr (target, s)
        else (case k of
           0 \<Rightarrow> Inl (Budget, s)
         | Suc k' \<Rightarrow>
            (case bounded_x64 P (W k) s of
               Inl f \<Rightarrow> Inl f
             | Inr (reason, s) \<Rightarrow>
                (if x64_retired s > 1 then Inl (Invariant, s)
                 else if reason \<noteq> GEM_STOP_BUDGET_EXPIRED then Inl (Propagate reason, s)
                 else if x64_retired s \<noteq> 1 then Inl (Invariant, s)
                 else roundtrip_x64 P W k' (on_context clear_stop (count_x64 (x64_retired s) s)))))))"

declare roundtrip_x64.simps [simp del]

definition roundtrip_enter :: "('d, 'b) hybrid_parts \<Rightarrow> u64 \<Rightarrow> gem_arm64ec_target_result \<times> ('d, 'b) bounded \<Rightarrow> ('d, 'b, ('d, 'b) bounded) segment" where
  "roundtrip_enter P finish_va = (\<lambda>(target, s).
    rbind (stop_unless (kind target = Some GEM_ARM64EC_TARGET_ARM64EC \<and> resolved_va target = finish_va) Invariant s) (\<lambda>_.
    let s = on_core (bump_stat st_x64_to_arm64ec_boundaries_update) s
    in rbind (stop_unless (sp (bd_context s) \<le> - 1 - 8) Invariant s) (\<lambda>_.
    case read_record (bd_memory s) (sp (bd_context s)) of (ok, record, m) \<Rightarrow>
    (let s = s\<lparr>bd_memory := m\<rparr>
    in rbind (stop_unless (ok \<and> record = hf_x64_return (hr_frame (bd_core s))) Invariant s) (\<lambda>_.
    let original = sp (bd_context s) + 8;
        s = on_context (\<lambda>c. c\<lparr>sp := original\<rparr>) (on_core (\<lambda>h. h\<lparr>hr_frame := (hr_frame h)\<lparr>hf_original_x64_sp := original,
              hf_arm_entry_sp := original AND NOT 15\<rparr>\<rparr>) s)
    in rbind (stop_unless (resolved_va target \<ge> 4) Invariant s) (\<lambda>_.
    case hybrid_descriptor_resolve (hp_resolver P) (bd_core s) (bd_memory s) (resolved_va target - 4) of
      (Inl _, m) \<Rightarrow> Inl (Invariant, s\<lparr>bd_memory := m\<rparr>)
    | (Inr thunk, m) \<Rightarrow>
       (let s = on_core (bump_stat st_descriptor_resolutions_update) (s\<lparr>bd_memory := m\<rparr>); f = hr_frame (bd_core s);
            s = on_core (\<lambda>h. h\<lparr>hr_stage := HYBRID_STAGE_ARM_ENTRY\<rparr>)
                  (on_context (enter_thunk (hf_x64_return f) original (resolved_va target) (hf_arm_entry_sp f) (resolved_va thunk)) s)
        in rbind (stop_unless (bd_budget s \<noteq> 0) Budget s) (\<lambda>_.
        rbind (bounded_arm P s) (\<lambda>(reason, s).
        rbind (stop_unless (reason \<noteq> GEM_STOP_BUDGET_EXPIRED) Budget s) (\<lambda>_.
        rbind (stop_unless (reason = GEM_STOP_ARCH_TRANSITION) (Propagate reason) s) (\<lambda>_.
        rbind (stop_unless (st_dispatch_ret_boundaries (hr_stats (bd_core s)) = 1 \<and> hf_active (hr_frame (bd_core s)) \<and>
          transition_cookie (bd_context s) = hf_cookie (hr_frame (bd_core s))) Invariant s) (\<lambda>_.
        rbind (stop_unless (bd_budget s \<noteq> 0) Budget s) (\<lambda>_. Inr s)))))))))))))"

definition roundtrip_return :: "('d, 'b) hybrid_parts \<Rightarrow> gem_thread_context \<Rightarrow> ('d, 'b) bounded \<Rightarrow> ('d, 'b, ('d, 'b) bounded) segment" where
  "roundtrip_return P entry s =
    (let f = hr_frame (bd_core s);
         s = on_core (\<lambda>h. h\<lparr>hr_stage := HYBRID_STAGE_ARM_RETURN\<rparr>) (on_context (\<lambda>c. c\<lparr>pc := hf_arm_resume_pc f, sp := hf_dispatch_sp f,
               x := (x c)[18 := teb c], stop_reason := stop_code GEM_STOP_NONE\<rparr>) s)
     in rbind (bounded_arm P s) (\<lambda>(reason, s).
     rbind (stop_unless (reason = GEM_STOP_HOST_RETURN) (Propagate reason) s) (\<lambda>_.
     rbind (stop_unless (pc (bd_context s) = GEM_HYBRID_INTERNAL_HOST_RETURN \<and> x (bd_context s) ! 18 = teb (bd_context s)) Invariant s) (\<lambda>_.
     Inr (on_core (\<lambda>h. record_broker_stop GEM_STOP_HOST_RETURN ((bump_stat st_frame_pops_update h)\<lparr>hr_frame := zero_frame,
            hr_stats := (hr_stats (bump_stat st_frame_pops_update h))\<lparr>st_final_frame_depth := 0\<rparr>, hr_stage := HYBRID_STAGE_IDLE, hr_running := False\<rparr>))
          (on_context (\<lambda>c. c\<lparr>pc := hc_host_return_sentinel (hr_config (bd_core s)), original_x64_sp := original_x64_sp entry,
            transition_cookie := 0\<rparr>) s))))))"

definition roundtrip_fail :: "('d, 'b) hybrid_parts \<Rightarrow> bool \<Rightarrow> gem_thread_context \<Rightarrow> bounded_exit \<times> ('d, 'b) bounded \<Rightarrow> ('d, 'b) bounded_result" where
  "roundtrip_fail P ok entry = (\<lambda>(label, s).
    (let (reason, s) = (case label of
           Budget \<Rightarrow> (GEM_STOP_BUDGET_EXPIRED,
             if hs_reason (hr_last_stop (bd_core s)) \<noteq> GEM_STOP_BUDGET_EXPIRED then on_core (record_broker_stop GEM_STOP_BUDGET_EXPIRED) s else s)
         | Propagate reason \<Rightarrow> (if reason = GEM_STOP_NONE then GEM_STOP_INVARIANT_VIOLATION else reason, s)
         | Invariant \<Rightarrow> (GEM_STOP_INVARIANT_VIOLATION, on_core (record_broker_stop GEM_STOP_INVARIANT_VIOLATION) s)
         | Failure reason \<Rightarrow> (reason, s))
     in bounded_restore entry drop_frame (take_back P ok (bd_root s) (reason, s))))"

definition roundtrip_path :: "('d, 'b) hybrid_parts \<Rightarrow> (nat \<Rightarrow> x64_environment) \<Rightarrow> (nat \<Rightarrow> bool) \<Rightarrow> u64 \<Rightarrow> u64 \<Rightarrow> ('d, 'b) gem_hybrid_runtime
    \<Rightarrow> gem_memory \<Rightarrow> gem_thread_context \<Rightarrow> ('d, 'b, ('d, 'b) bounded) segment" where
  "roundtrip_path P W al finish_va budget y m c =
    rbind (roundtrip_leave P (al 1) \<lparr>bd_runtime = y\<lparr>hy_core := bounded_start HYBRID_STAGE_ARM_TO_X64 (hy_core y)\<rparr>, bd_memory = m,
      bd_context = clear_stop c, bd_budget = budget, bd_root = None, bd_inner = None, bd_pre_step_sp = 0\<rparr>) (\<lambda>s.
    rbind (roundtrip_x64 P W (unat (bd_budget s)) s) (\<lambda>ts.
    rbind (roundtrip_enter P finish_va ts) (roundtrip_return P c)))"

text \<open>The allocations: 0 for the check at the entry, 1 for the record, 2 for taking it back.\<close>

definition gem_hybrid_runtime_run_integer_roundtrip :: "('d, 'b) hybrid_parts \<Rightarrow> (nat \<Rightarrow> x64_environment) \<Rightarrow> (nat \<Rightarrow> bool)
    \<Rightarrow> ('d, 'b) gem_hybrid_runtime option \<Rightarrow> gem_memory \<Rightarrow> gem_thread_context option \<Rightarrow> u64 \<Rightarrow> u64 \<Rightarrow> u64 \<Rightarrow> ('d, 'b) bounded_result" where
  "gem_hybrid_runtime_run_integer_roundtrip P W al yo m co caller_va finish_va budget = (case (yo, co) of
      (None, _) \<Rightarrow> (GEM_STOP_INVARIANT_VIOLATION, None, m, fail_context co, zero_stats)
    | (Some y, None) \<Rightarrow> bounded_refuse y m co
    | (Some y, Some c) \<Rightarrow>
       (case roundtrip_accepts P (al 0) (hy_core y) m c caller_va budget of
          (False, m) \<Rightarrow> bounded_refuse y m co
        | (True, m) \<Rightarrow>
           (case roundtrip_path P W al finish_va budget y m c of
              Inl f \<Rightarrow> roundtrip_fail P (al 2) c f
            | Inr s \<Rightarrow> bounded_done GEM_STOP_HOST_RETURN s)))"

section \<open>The callback that resumes x64 code\<close>

definition resolves_to :: "resolvers \<Rightarrow> hybrid_core \<Rightarrow> u64 \<Rightarrow> gem_arm64ec_target_kind \<Rightarrow> u64 \<Rightarrow> bool" where
  "resolves_to R h va k dest = (case hybrid_resolve R h va of Inl _ \<Rightarrow> False | Inr t \<Rightarrow> kind t = Some k \<and> resolved_va t = dest)"

definition callback_accepts :: "resolvers \<Rightarrow> hybrid_core \<Rightarrow> gem_thread_context \<Rightarrow> u64 \<Rightarrow> u64 \<Rightarrow> u64 \<Rightarrow> bool" where
  "callback_accepts R h c callback_va resume_va budget \<longleftrightarrow> \<not> hr_running h \<and> \<not> hf_active (hr_frame h) \<and> gem_context_is_valid c \<and>
     isa c = isa_code GEM_ISA_X64 \<and> transition_cookie c = 0 \<and> x c ! 18 = teb c \<and> budget \<noteq> 0 \<and> \<not> budget > hc_max_budget (hr_config h) \<and>
     callback_va \<ge> 4 \<and> resolves_to R h (pc c) GEM_ARM64EC_TARGET_X64_BOUNDARY (pc c) \<and>
     resolves_to R h callback_va GEM_ARM64EC_TARGET_ARM64EC callback_va \<and>
     resolves_to R h resume_va GEM_ARM64EC_TARGET_X64_BOUNDARY resume_va"

text \<open>The last x64 instruction was a call of the ARM64EC function, and pushed the address to resume at.\<close>

definition arrives_by_call :: "('d, 'b) bounded \<Rightarrow> gem_arm64ec_target_result \<Rightarrow> u64 \<Rightarrow> bool" where
  "arrives_by_call s target function \<longleftrightarrow> kind target = Some GEM_ARM64EC_TARGET_ARM64EC \<and> pc (bd_context s) = function \<and>
     resolved_va target = function \<and> gem_x64_runtime_last_instruction_was_call (Some (hy_x64 (bd_runtime s))) \<and>
     \<not> bd_pre_step_sp s < 8 \<and> sp (bd_context s) = bd_pre_step_sp s - 8"

definition check_call :: "gem_arm64ec_target_result \<Rightarrow> u64 \<Rightarrow> u64 \<Rightarrow> ('d, 'b) bounded \<Rightarrow> ('d, 'b, ('d, 'b) bounded) segment" where
  "check_call target function resume_va s =
    rbind (stop_unless (arrives_by_call s target function) Invariant s) (\<lambda>_.
    case read_record (bd_memory s) (sp (bd_context s)) of (ok, record, m) \<Rightarrow>
    (let s = s\<lparr>bd_memory := m\<rparr> in if ok \<and> record = resume_va then Inr s else Inl (Invariant, s)))"

fun callback_x64 :: "('d, 'b) hybrid_parts \<Rightarrow> (nat \<Rightarrow> x64_environment) \<Rightarrow> u64 \<Rightarrow> u64 \<Rightarrow> nat \<Rightarrow> ('d, 'b) bounded
    \<Rightarrow> ('d, 'b, ('d, 'b) bounded) segment" where
  "callback_x64 P W function resume_va 0 s = Inl (Budget, s)"
| "callback_x64 P W function resume_va (Suc k) s =
    (case bounded_x64 P (W (Suc k)) (s\<lparr>bd_pre_step_sp := sp (bd_context s)\<rparr>) of
       Inl f \<Rightarrow> Inl f
     | Inr (reason, s) \<Rightarrow>
        (if reason \<noteq> GEM_STOP_BUDGET_EXPIRED \<or> x64_retired s \<noteq> 1 then Inl (Propagate reason, s)
         else (let s = on_context clear_stop (count_x64 1 s)
           in case hybrid_resolve (hp_resolver P) (bd_core s) (pc (bd_context s)) of
             Inl _ \<Rightarrow> Inl (Invariant, s)
           | Inr target \<Rightarrow>
              (if kind target = Some GEM_ARM64EC_TARGET_X64_BOUNDARY
               then (if resolved_va target \<noteq> pc (bd_context s) then Inl (Invariant, s) else callback_x64 P W function resume_va k s)
               else check_call target function resume_va s))))"

text \<open>The callback half of a frame, for an x64 stack pointer of \<open>original\<close> before the call.\<close>

definition callback_frame :: "u64 \<Rightarrow> u64 \<Rightarrow> u64 \<Rightarrow> u64 \<Rightarrow> hybrid_core \<Rightarrow> hybrid_core" where
  "callback_frame function original record_address resume_va h =
    h\<lparr>hr_frame := (hr_frame h)\<lparr>hf_callback_target := function, hf_callback_call_sp := original, hf_callback_record_address := record_address,
       hf_callback_resume_pc := resume_va, hf_callback_original_x64_sp := original, hf_callback_arm_entry_sp := original AND NOT 15\<rparr>\<rparr>"

definition set_final_depth :: "u32 \<Rightarrow> hybrid_core \<Rightarrow> hybrid_core" where
  "set_final_depth d h = h\<lparr>hr_stats := (hr_stats h)\<lparr>st_final_frame_depth := d\<rparr>\<rparr>"

text \<open>From the call to the stop of the callback's ARM64EC code.\<close>

definition run_callback :: "('d, 'b) hybrid_parts \<Rightarrow> u64 \<Rightarrow> u64 \<Rightarrow> ('d, 'b) bounded \<Rightarrow> ('d, 'b, ('d, 'b) bounded) segment" where
  "run_callback P function resume_va s =
    (case hybrid_descriptor_resolve (hp_resolver P) (bd_core s) (bd_memory s) (function - 4) of
       (thunk, m) \<Rightarrow>
        (let s = s\<lparr>bd_memory := m\<rparr>
         in case (case thunk of Inl _ \<Rightarrow> None | Inr t \<Rightarrow> if kind t = Some GEM_ARM64EC_TARGET_ARM64EC then Some t else None) of
           None \<Rightarrow> Inl (Invariant, s)
         | Some t \<Rightarrow>
            (let s = on_core (bump_stat st_descriptor_resolutions_update) s;
                 s = on_context (enter_thunk resume_va (bd_pre_step_sp s) function (hf_callback_arm_entry_sp (hr_frame (bd_core s))) (resolved_va t)) s;
                 s = on_core (\<lambda>h. h\<lparr>hr_stage := HYBRID_STAGE_CALLBACK_ARM_ENTRY\<rparr>) s
             in rbind (stop_unless (bd_budget s \<noteq> 0) Budget s) (\<lambda>_.
             rbind (bounded_arm P s) (\<lambda>(reason, s).
             rbind (stop_unless (reason = GEM_STOP_ARCH_TRANSITION) (Failure reason) s) (\<lambda>_. Inr s))))))"

definition callback_run :: "('d, 'b) hybrid_parts \<Rightarrow> u64 \<Rightarrow> u64 \<Rightarrow> ('d, 'b) bounded \<Rightarrow> ('d, 'b, ('d, 'b) bounded) segment" where
  "callback_run P function resume_va s =
    (let s = on_core (bump_stat st_x64_to_arm64ec_boundaries_update) s;
         s = on_core (callback_frame function (bd_pre_step_sp s) (sp (bd_context s)) resume_va)
               (on_core (activate_frame HYBRID_OPERATION_CALLBACK_RESUME) s);
         s = on_context (\<lambda>c. c\<lparr>transition_cookie := hf_cookie (hr_frame (bd_core s))\<rparr>) s
     in rbind (run_callback P function resume_va (on_core (set_final_depth 1) s)) (\<lambda>s.
     rbind (stop_unless (st_dispatch_ret_boundaries (hr_stats (bd_core s)) = 1) Invariant s) (\<lambda>_. Inr s)))"

definition callback_success :: "gem_thread_context \<Rightarrow> u64 \<Rightarrow> ('d, 'b) bounded \<Rightarrow> ('d, 'b) bounded" where
  "callback_success entry resume_va s =
    on_core (\<lambda>h. record_broker_stop GEM_STOP_ARCH_TRANSITION (set_final_depth 0 (bump_stat st_frame_pops_update
      (h\<lparr>hr_frame := zero_frame, hr_stage := HYBRID_STAGE_IDLE, hr_running := False\<rparr>))))
    (on_context (\<lambda>c. c\<lparr>pc := resume_va, sp := bd_pre_step_sp s, isa := isa_code GEM_ISA_X64, original_x64_sp := original_x64_sp entry,
       x := (x c)[18 := teb c], transition_cookie := 0, stop_reason := stop_code GEM_STOP_ARCH_TRANSITION\<rparr>) s)"

text \<open>The reason and state at the label \<open>Failure\<close>; a budget stop is always the broker's.\<close>

definition exit_reason :: "bounded_exit \<times> ('d, 'b) bounded \<Rightarrow> gem_stop_reason \<times> ('d, 'b) bounded" where
  "exit_reason = (\<lambda>(label, s). case label of
      Budget \<Rightarrow> (GEM_STOP_BUDGET_EXPIRED, on_core (record_broker_stop GEM_STOP_BUDGET_EXPIRED) s)
    | Propagate reason \<Rightarrow> (if reason = GEM_STOP_NONE then GEM_STOP_INVARIANT_VIOLATION else reason, s)
    | Invariant \<Rightarrow> (GEM_STOP_INVARIANT_VIOLATION, on_core (record_broker_stop GEM_STOP_INVARIANT_VIOLATION) s)
    | Failure reason \<Rightarrow> (reason, s))"

definition callback_path :: "('d, 'b) hybrid_parts \<Rightarrow> (nat \<Rightarrow> x64_environment) \<Rightarrow> u64 \<Rightarrow> u64 \<Rightarrow> u64 \<Rightarrow> ('d, 'b) gem_hybrid_runtime
    \<Rightarrow> gem_memory \<Rightarrow> gem_thread_context \<Rightarrow> ('d, 'b, ('d, 'b) bounded) segment" where
  "callback_path P W callback_va resume_va budget y m c =
    rbind (callback_x64 P W callback_va resume_va (unat budget) \<lparr>bd_runtime = y\<lparr>hy_core := bounded_start HYBRID_STAGE_CALLBACK_X64 (hy_core y)\<rparr>,
      bd_memory = m, bd_context = clear_stop c, bd_budget = budget, bd_root = None, bd_inner = None, bd_pre_step_sp = 0\<rparr>)
    (callback_run P callback_va resume_va)"

definition gem_hybrid_runtime_run_integer_callback_resume :: "('d, 'b) hybrid_parts \<Rightarrow> (nat \<Rightarrow> x64_environment)
    \<Rightarrow> ('d, 'b) gem_hybrid_runtime option \<Rightarrow> gem_memory \<Rightarrow> gem_thread_context option \<Rightarrow> u64 \<Rightarrow> u64 \<Rightarrow> u64 \<Rightarrow> ('d, 'b) bounded_result" where
  "gem_hybrid_runtime_run_integer_callback_resume P W yo m co callback_va resume_va budget = (case (yo, co) of
      (None, _) \<Rightarrow> (GEM_STOP_INVARIANT_VIOLATION, None, m, fail_context co, zero_stats)
    | (Some y, None) \<Rightarrow> bounded_refuse y m co
    | (Some y, Some c) \<Rightarrow>
       (if \<not> callback_accepts (hp_resolver P) (hy_core y) c callback_va resume_va budget then bounded_refuse y m co
        else (case callback_path P W callback_va resume_va budget y m c of
              Inl f \<Rightarrow> bounded_restore c drop_frame (exit_reason f)
            | Inr s \<Rightarrow> bounded_done GEM_STOP_ARCH_TRANSITION (callback_success c resume_va s))))"

section \<open>The return through an exit thunk\<close>

record gem_hybrid_return_control =
  rc_mode :: u32
  rc_reserved :: u32
  rc_requested_start_va :: u64
  rc_expected_resolved_start_va :: u64
  rc_expected_x64_target_va :: u64

definition return_accepts :: "('d, 'b) hybrid_parts \<Rightarrow> bool \<Rightarrow> hybrid_core \<Rightarrow> gem_memory \<Rightarrow> gem_thread_context \<Rightarrow> gem_hybrid_return_control \<Rightarrow> u64
    \<Rightarrow> bool \<times> gem_memory" where
  "return_accepts P ok h m c k budget =
    (if rc_reserved k \<noteq> 0 \<or> hr_running h \<or> hf_active (hr_frame h) \<or> \<not> gem_context_is_valid c \<or> isa c \<noteq> isa_code GEM_ISA_ARM64EC \<or>
        pc c \<noteq> rc_requested_start_va k \<or> transition_cookie c \<noteq> 0 \<or> x c ! 18 \<noteq> teb c \<or> budget = 0 \<or> budget > hc_max_budget (hr_config h) \<or>
        (rc_mode k \<noteq> GEM_HYBRID_RETURN_NORMAL \<and> rc_mode k \<noteq> GEM_HYBRID_RETURN_TAIL) \<or> rc_expected_x64_target_va k = 0 \<or>
        \<not> resolves_to (hp_resolver P) h (rc_requested_start_va k) GEM_ARM64EC_TARGET_ARM64EC (rc_expected_resolved_start_va k) \<or> sp c < 8
     then (False, m)
     else stack_record_supported (hp_accessible P) ok m (sp c - 8))"

definition return_leave :: "('d, 'b) hybrid_parts \<Rightarrow> bool \<Rightarrow> gem_thread_context \<Rightarrow> gem_hybrid_return_control \<Rightarrow> ('d, 'b) bounded
    \<Rightarrow> ('d, 'b, ('d, 'b) bounded) segment" where
  "return_leave P ok entry k s =
    rbind (bounded_arm P s) (\<lambda>(reason, s).
    rbind (stop_unless (reason = GEM_STOP_ARCH_TRANSITION) (Failure reason) s) (\<lambda>_.
    rbind (stop_unless (st_checker_boundaries (hr_stats (bd_core s)) = 1 \<and> st_dispatch_call_boundaries (hr_stats (bd_core s)) = 0 \<and>
      x (bd_context s) ! 18 = x entry ! 18 \<and> sp (bd_context s) = sp entry \<and> x (bd_context s) ! 30 = x entry ! 30) Invariant s) (\<lambda>_.
    rbind (stop_unless (bd_budget s \<noteq> 0) Budget s) (\<lambda>_.
    let s = on_core (activate_frame HYBRID_OPERATION_ROUNDTRIP_RETURN) s;
        s = on_context (\<lambda>c. c\<lparr>transition_cookie := hf_cookie (hr_frame (bd_core s))\<rparr>) s;
        a = sp (bd_context s) - 8
    in rbind (put_record P ok a (hc_x64_return_sentinel (hr_config (bd_core s))) s) (\<lambda>(old, s).
    let s = on_context (\<lambda>c. c\<lparr>sp := a\<rparr>) (s\<lparr>bd_root := Some (a, old)\<rparr>)
    in rbind (stop_unless (resolves_to (hp_resolver P) (bd_core s) (rc_expected_x64_target_va k) GEM_ARM64EC_TARGET_X64_BOUNDARY
      (rc_expected_x64_target_va k)) Invariant s) (\<lambda>_.
    Inr (on_context (\<lambda>c. c\<lparr>pc := rc_expected_x64_target_va k, isa := isa_code GEM_ISA_X64\<rparr>) s)))))))"

text \<open>The x64 code has returned to the sentinel: its record is taken from the stack again.\<close>

definition return_record :: "('d, 'b) hybrid_parts \<Rightarrow> bool \<Rightarrow> (u64 \<times> u64) option \<Rightarrow> ('d, 'b) bounded \<Rightarrow> ('d, 'b, ('d, 'b) bounded) segment" where
  "return_record P ok record s =
    (let s = on_core (bump_stat st_x64_to_arm64ec_boundaries_update) s; (a, old) = (case record of None \<Rightarrow> (0, 0) | Some p \<Rightarrow> p)
     in rbind (stop_unless (sp (bd_context s) = a + 8) Invariant s) (\<lambda>_.
     rbind (put_record P ok a old s) (\<lambda>(_, s). Inr s)))"

text \<open>The last segment runs ARM64EC code to the host's return address.\<close>

definition arm_to_host :: "('d, 'b) hybrid_parts \<Rightarrow> ('d, 'b) bounded \<Rightarrow> ('d, 'b, ('d, 'b) bounded) segment" where
  "arm_to_host P s =
    (let s = on_core (\<lambda>h. h\<lparr>hr_stage := HYBRID_STAGE_ARM_RETURN\<rparr>) (on_context clear_stop s)
     in rbind (stop_unless (bd_budget s \<noteq> 0) Budget s) (\<lambda>_.
     rbind (bounded_arm P s) (\<lambda>(reason, s).
     rbind (stop_unless (reason = GEM_STOP_HOST_RETURN \<and> pc (bd_context s) = GEM_HYBRID_INTERNAL_HOST_RETURN) (Failure reason) s) (\<lambda>_.
     Inr s))))"

definition return_back :: "('d, 'b) hybrid_parts \<Rightarrow> bool \<Rightarrow> gem_thread_context \<Rightarrow> ('d, 'b) bounded \<Rightarrow> ('d, 'b, ('d, 'b) bounded) segment" where
  "return_back P ok entry s =
    rbind (return_record P ok (bd_root s) s) (\<lambda>s.
    let s = on_context (\<lambda>c. c\<lparr>x := (x c)[0 := x c ! 8], isa := isa_code GEM_ISA_ARM64EC\<rparr>) (s\<lparr>bd_root := None\<rparr>)
    in rbind (stop_unless (sp (bd_context s) = sp entry \<and> x (bd_context s) ! 30 = x entry ! 30) Invariant s) (\<lambda>_.
    rbind (arm_to_host P (on_context (\<lambda>c. c\<lparr>pc := x c ! 30\<rparr>) s)) (\<lambda>s.
    Inr (on_core (\<lambda>h. record_broker_stop GEM_STOP_HOST_RETURN (bump_stat st_frame_pops_update
           (h\<lparr>hr_frame := zero_frame, hr_stage := HYBRID_STAGE_IDLE, hr_running := False, hr_return_mode := 0, hr_expected_x64_target := 0\<rparr>)))
         (on_context (\<lambda>c. c\<lparr>pc := hc_host_return_sentinel (hr_config (bd_core s)), transition_cookie := 0,
           original_x64_sp := original_x64_sp entry\<rparr>) s)))))"

definition clear_expected :: "hybrid_core \<Rightarrow> hybrid_core" where
  "clear_expected h = h\<lparr>hr_return_mode := 0, hr_expected_x64_target := 0\<rparr>"

definition return_path :: "('d, 'b) hybrid_parts \<Rightarrow> (nat \<Rightarrow> x64_environment) \<Rightarrow> (nat \<Rightarrow> bool) \<Rightarrow> gem_hybrid_return_control \<Rightarrow> u64
    \<Rightarrow> ('d, 'b) gem_hybrid_runtime \<Rightarrow> gem_memory \<Rightarrow> gem_thread_context \<Rightarrow> ('d, 'b, ('d, 'b) bounded) segment" where
  "return_path P W al k budget y m c =
    rbind (return_leave P (al 1) c k \<lparr>bd_runtime = y\<lparr>hy_core := (bounded_start HYBRID_STAGE_ARM_TO_X64 (hy_core y))
        \<lparr>hr_return_mode := rc_mode k, hr_expected_x64_target := rc_expected_x64_target_va k\<rparr>\<rparr>, bd_memory = m,
      bd_context = clear_stop (c\<lparr>pc := rc_expected_resolved_start_va k\<rparr>), bd_budget = budget, bd_root = None, bd_inner = None, bd_pre_step_sp = 0\<rparr>) (\<lambda>s.
    rbind (x64_until_return P W (unat (bd_budget s)) s) (return_back P (al 2) c))"

definition gem_hybrid_runtime_run_integer_return :: "('d, 'b) hybrid_parts \<Rightarrow> (nat \<Rightarrow> x64_environment) \<Rightarrow> (nat \<Rightarrow> bool)
    \<Rightarrow> ('d, 'b) gem_hybrid_runtime option \<Rightarrow> gem_memory \<Rightarrow> gem_thread_context option \<Rightarrow> gem_hybrid_return_control option \<Rightarrow> u64
    \<Rightarrow> ('d, 'b) bounded_result" where
  "gem_hybrid_runtime_run_integer_return P W al yo m co ko budget = (case (yo, co, ko) of
      (None, _, _) \<Rightarrow> (GEM_STOP_INVARIANT_VIOLATION, None, m, fail_context co, zero_stats)
    | (Some y, Some c, Some k) \<Rightarrow>
       (case return_accepts P (al 0) (hy_core y) m c k budget of
          (False, m) \<Rightarrow> bounded_refuse y m co
        | (True, m) \<Rightarrow>
           (case return_path P W al k budget y m c of
              Inl f \<Rightarrow> (case exit_reason f of (reason, s) \<Rightarrow>
                bounded_restore c (\<lambda>h. clear_expected (drop_frame h)) (take_back P (al 3) (bd_root s) (reason, s)))
            | Inr s \<Rightarrow> bounded_done GEM_STOP_HOST_RETURN s))
    | (Some y, _, _) \<Rightarrow> bounded_refuse y m co)"

section \<open>The nested path\<close>

definition GEM_HYBRID_NESTED_CONTROL_VERSION :: u32 where "GEM_HYBRID_NESTED_CONTROL_VERSION = 1"

record gem_hybrid_nested_control =
  nc_version :: u32
  nc_reserved :: u32
  nc_requested_start_va :: u64
  nc_expected_resolved_start_va :: u64
  nc_outer_x64_target_va :: u64
  nc_callback_va :: u64
  nc_outer_resume_va :: u64
  nc_inner_x64_target_va :: u64

definition nested_accepts :: "('d, 'b) hybrid_parts \<Rightarrow> bool \<Rightarrow> hybrid_core \<Rightarrow> gem_memory \<Rightarrow> gem_thread_context \<Rightarrow> gem_hybrid_nested_control \<Rightarrow> u64
    \<Rightarrow> bool \<times> gem_memory" where
  "nested_accepts P ok h m c k budget =
    (let exact = (\<lambda>va kd. resolves_to (hp_resolver P) h va kd va)
     in if nc_version k \<noteq> GEM_HYBRID_NESTED_CONTROL_VERSION \<or> nc_reserved k \<noteq> 0 \<or> hr_running h \<or> hf_active (hr_frame h) \<or>
        hf_active (hr_nested_frame h) \<or> \<not> gem_context_is_valid c \<or> isa c \<noteq> isa_code GEM_ISA_ARM64EC \<or> pc c \<noteq> nc_requested_start_va k \<or>
        transition_cookie c \<noteq> 0 \<or> x c ! 18 \<noteq> teb c \<or> budget = 0 \<or> budget > hc_max_budget (hr_config h) \<or>
        \<not> resolves_to (hp_resolver P) h (nc_requested_start_va k) GEM_ARM64EC_TARGET_ARM64EC (nc_expected_resolved_start_va k) \<or>
        \<not> exact (nc_outer_x64_target_va k) GEM_ARM64EC_TARGET_X64_BOUNDARY \<or> \<not> exact (nc_callback_va k) GEM_ARM64EC_TARGET_ARM64EC \<or>
        nc_callback_va k < 4 \<or> \<not> exact (nc_outer_resume_va k) GEM_ARM64EC_TARGET_X64_BOUNDARY \<or>
        \<not> exact (nc_inner_x64_target_va k) GEM_ARM64EC_TARGET_X64_BOUNDARY \<or> sp c < 8
     then (False, m)
     else stack_record_supported (hp_accessible P) ok m (sp c - 8))"

definition nested_leave :: "('d, 'b) hybrid_parts \<Rightarrow> bool \<Rightarrow> gem_thread_context \<Rightarrow> gem_hybrid_nested_control \<Rightarrow> ('d, 'b) bounded
    \<Rightarrow> ('d, 'b, ('d, 'b) bounded) segment" where
  "nested_leave P ok entry k s =
    rbind (bounded_arm P s) (\<lambda>(reason, s).
    rbind (stop_unless (reason = GEM_STOP_ARCH_TRANSITION) (Failure reason) s) (\<lambda>_.
    rbind (stop_unless (st_checker_boundaries (hr_stats (bd_core s)) = 1 \<and> pc (bd_context s) = nc_outer_x64_target_va k \<and>
      sp (bd_context s) = sp entry \<and> x (bd_context s) ! 30 = x entry ! 30 \<and> x (bd_context s) ! 18 = x entry ! 18) Invariant s) (\<lambda>_.
    rbind (stop_unless (bd_budget s \<noteq> 0) Budget s) (\<lambda>_.
    let s = on_core (\<lambda>h. set_final_depth 1 (activate_frame HYBRID_OPERATION_NESTED h)) s;
        s = on_context (\<lambda>c. c\<lparr>transition_cookie := hf_cookie (hr_frame (bd_core s))\<rparr>) s;
        a = sp (bd_context s) - 8
    in rbind (put_record P ok a (hc_x64_return_sentinel (hr_config (bd_core s))) s) (\<lambda>(old, s).
    Inr (on_context (\<lambda>c. c\<lparr>sp := a, pc := nc_outer_x64_target_va k, isa := isa_code GEM_ISA_X64, stop_reason := stop_code GEM_STOP_NONE\<rparr>)
      (s\<lparr>bd_root := Some (a, old)\<rparr>)))))))"

fun nested_x64 :: "('d, 'b) hybrid_parts \<Rightarrow> (nat \<Rightarrow> x64_environment) \<Rightarrow> gem_hybrid_nested_control \<Rightarrow> nat \<Rightarrow> ('d, 'b) bounded
    \<Rightarrow> ('d, 'b, ('d, 'b) bounded) segment" where
  "nested_x64 P W ctl 0 s = Inl (Budget, s)"
| "nested_x64 P W ctl (Suc k) s =
    (case bounded_x64 P (W (Suc k)) (s\<lparr>bd_pre_step_sp := sp (bd_context s)\<rparr>) of
       Inl f \<Rightarrow> Inl f
     | Inr (reason, s) \<Rightarrow>
        (if reason \<noteq> GEM_STOP_BUDGET_EXPIRED \<and> reason \<noteq> GEM_STOP_HOST_RETURN then Inl (Failure reason, s)
         else if x64_retired s \<noteq> 1 then Inl (Invariant, s)
         else (let s = on_context clear_stop (count_x64 1 s)
           in case hybrid_resolve (hp_resolver P) (bd_core s) (pc (bd_context s)) of
             Inl _ \<Rightarrow> Inl (Invariant, s)
           | Inr target \<Rightarrow>
              (if kind target = Some GEM_ARM64EC_TARGET_X64_BOUNDARY
               then (if reason \<noteq> GEM_STOP_BUDGET_EXPIRED \<or> resolved_va target \<noteq> pc (bd_context s) then Inl (Invariant, s)
                 else nested_x64 P W ctl k s)
               else if reason \<noteq> GEM_STOP_BUDGET_EXPIRED then Inl (Invariant, s)
               else check_call target (nc_callback_va ctl) (nc_outer_resume_va ctl) s))))"

definition nested_callback :: "('d, 'b) hybrid_parts \<Rightarrow> bool \<Rightarrow> gem_hybrid_nested_control \<Rightarrow> ('d, 'b) bounded \<Rightarrow> ('d, 'b, ('d, 'b) bounded) segment" where
  "nested_callback P ok k s =
    (let s = on_core (bump_stat st_x64_to_arm64ec_boundaries_update) s;
         s = on_core (callback_frame (nc_callback_va k) (bd_pre_step_sp s) (sp (bd_context s)) (nc_outer_resume_va k)) s
     in rbind (run_callback P (nc_callback_va k) (nc_outer_resume_va k) s) (\<lambda>s.
     rbind (stop_unless (pc (bd_context s) = nc_inner_x64_target_va k \<and> st_checker_boundaries (hr_stats (bd_core s)) = 2 \<and>
       st_dispatch_ret_boundaries (hr_stats (bd_core s)) = 0 \<and> x (bd_context s) ! 18 = teb (bd_context s) \<and> \<not> sp (bd_context s) < 8) Invariant s) (\<lambda>_.
     case stack_record_supported (hp_accessible P) ok (bd_memory s) (sp (bd_context s) - 8) of (supported, m) \<Rightarrow>
     (let s = s\<lparr>bd_memory := m\<rparr>
      in rbind (stop_unless supported Invariant s) (\<lambda>_. rbind (stop_unless (bd_budget s \<noteq> 0) Budget s) (\<lambda>_. Inr s))))))"

definition nested_inner :: "('d, 'b) hybrid_parts \<Rightarrow> bool \<Rightarrow> gem_hybrid_nested_control \<Rightarrow> ('d, 'b) bounded \<Rightarrow> ('d, 'b, ('d, 'b) bounded) segment" where
  "nested_inner P ok k s =
    (let c = bd_context s; a = sp c - 8;
         s = on_core (\<lambda>h. let h = next_cookie h in bump_stat st_frame_pushes_update (h\<lparr>hr_nested_frame := (hr_nested_frame h)\<lparr>
               hf_cookie := hr_generation h, hf_operation := HYBRID_OPERATION_NESTED, hf_active := True, hf_arm_resume_pc := x c ! 30,
               hf_dispatch_sp := sp c\<rparr>, hr_stats := (hr_stats h)\<lparr>st_maximum_frame_depth := 2, st_final_frame_depth := 2\<rparr>\<rparr>)) s;
         s = on_context (\<lambda>c. c\<lparr>transition_cookie := hf_cookie (hr_nested_frame (bd_core s))\<rparr>) s
     in rbind (put_record P ok a (hc_x64_return_sentinel (hr_config (bd_core s))) s) (\<lambda>(old, s).
     Inr (on_context (\<lambda>c. c\<lparr>sp := a, pc := nc_inner_x64_target_va k, isa := isa_code GEM_ISA_X64, stop_reason := stop_code GEM_STOP_NONE\<rparr>)
       (s\<lparr>bd_inner := Some (a, old)\<rparr>))))"

definition nested_inner_back :: "('d, 'b) hybrid_parts \<Rightarrow> bool \<Rightarrow> gem_thread_context \<Rightarrow> gem_hybrid_nested_control \<Rightarrow> ('d, 'b) bounded
    \<Rightarrow> ('d, 'b, ('d, 'b) bounded) segment" where
  "nested_inner_back P ok entry k s =
    rbind (return_record P ok (bd_inner s) s) (\<lambda>s.
    let outer = hr_frame (bd_core s); inner = hr_nested_frame (bd_core s);
        s = on_context (\<lambda>c. c\<lparr>x := (x c)[0 := x c ! 8, 18 := teb c], isa := isa_code GEM_ISA_ARM64EC, pc := hf_arm_resume_pc inner,
              sp := hf_dispatch_sp inner, original_x64_sp := hf_callback_original_x64_sp outer, transition_cookie := hf_cookie outer,
              stop_reason := stop_code GEM_STOP_NONE\<rparr>) (s\<lparr>bd_inner := None\<rparr>);
        s = on_core (\<lambda>h. set_final_depth 1 (bump_stat st_frame_pops_update (h\<lparr>hr_nested_frame := zero_frame\<rparr>))) s
    in rbind (stop_unless (bd_budget s \<noteq> 0) Budget s) (\<lambda>_.
    rbind (bounded_arm P s) (\<lambda>(reason, s).
    rbind (stop_unless (reason = GEM_STOP_ARCH_TRANSITION) (Failure reason) s) (\<lambda>_.
    rbind (stop_unless (st_dispatch_ret_boundaries (hr_stats (bd_core s)) = 1 \<and>
      transition_cookie (bd_context s) = hf_cookie (hr_frame (bd_core s))) Invariant s) (\<lambda>_.
    Inr (on_context (\<lambda>c. c\<lparr>pc := nc_outer_resume_va k, sp := hf_callback_call_sp (hr_frame (bd_core s)), isa := isa_code GEM_ISA_X64,
      original_x64_sp := original_x64_sp entry, x := (x c)[18 := teb c], stop_reason := stop_code GEM_STOP_NONE\<rparr>) s))))))"

definition nested_back :: "('d, 'b) hybrid_parts \<Rightarrow> bool \<Rightarrow> gem_thread_context \<Rightarrow> ('d, 'b) bounded \<Rightarrow> ('d, 'b, ('d, 'b) bounded) segment" where
  "nested_back P ok entry s =
    rbind (return_record P ok (bd_root s) s) (\<lambda>s.
    rbind (arm_to_host P (on_context (\<lambda>c. c\<lparr>x := (x c)[0 := x c ! 8, 30 := x entry ! 30, 18 := teb c], isa := isa_code GEM_ISA_ARM64EC,
      sp := sp entry, pc := x entry ! 30, original_x64_sp := original_x64_sp entry\<rparr>) (s\<lparr>bd_root := None\<rparr>))) (\<lambda>s.
    Inr (on_core (\<lambda>h. record_broker_stop GEM_STOP_HOST_RETURN (set_final_depth 0 (bump_stat st_frame_pops_update (h\<lparr>hr_frame := zero_frame,
           hr_stage := HYBRID_STAGE_IDLE, hr_running := False, hr_return_mode := 0, hr_expected_x64_target := 0,
           hr_expected_nested_x64_target := 0\<rparr>))))
         (on_context (\<lambda>c. c\<lparr>pc := hc_host_return_sentinel (hr_config (bd_core s)), transition_cookie := 0\<rparr>) s))))"

definition nested_clear :: "hybrid_core \<Rightarrow> hybrid_core" where
  "nested_clear h = (let h = (if hf_active (hr_nested_frame h) then bump_stat st_frame_pops_update h else h)
     in clear_expected (drop_frame (h\<lparr>hr_nested_frame := zero_frame, hr_expected_nested_x64_target := 0\<rparr>)))"

definition nested_path :: "('d, 'b) hybrid_parts \<Rightarrow> (nat \<Rightarrow> x64_environment) \<Rightarrow> (nat \<Rightarrow> bool) \<Rightarrow> gem_hybrid_nested_control \<Rightarrow> u64
    \<Rightarrow> ('d, 'b) gem_hybrid_runtime \<Rightarrow> gem_memory \<Rightarrow> gem_thread_context \<Rightarrow> ('d, 'b, ('d, 'b) bounded) segment" where
  "nested_path P W al k budget y m c =
    rbind (nested_leave P (al 1) c k \<lparr>bd_runtime = y\<lparr>hy_core := (bounded_start HYBRID_STAGE_ARM_TO_X64 (hy_core y))
        \<lparr>hr_return_mode := GEM_HYBRID_RETURN_NORMAL, hr_expected_x64_target := nc_outer_x64_target_va k,
         hr_expected_nested_x64_target := nc_inner_x64_target_va k\<rparr>\<rparr>, bd_memory = m,
      bd_context = clear_stop (c\<lparr>pc := nc_expected_resolved_start_va k\<rparr>), bd_budget = budget, bd_root = None, bd_inner = None, bd_pre_step_sp = 0\<rparr>) (\<lambda>s.
    rbind (nested_x64 P W k (unat (bd_budget s)) s) (\<lambda>s.
    rbind (nested_callback P (al 3) k s) (\<lambda>s.
    rbind (nested_inner P (al 4) k s) (\<lambda>s.
    rbind (x64_until_return P W (unat (bd_budget s)) s) (\<lambda>s.
    rbind (nested_inner_back P (al 5) c k s) (\<lambda>s.
    rbind (x64_until_return P W (unat (bd_budget s)) s) (nested_back P (al 2) c)))))))"

text \<open>Transactions 0 to 2 are for the record of the outer frame, 3 to 5 for the inner, 6 and 7 for taking them back.\<close>

definition gem_hybrid_runtime_run_integer_nested :: "('d, 'b) hybrid_parts \<Rightarrow> (nat \<Rightarrow> x64_environment) \<Rightarrow> (nat \<Rightarrow> bool)
    \<Rightarrow> ('d, 'b) gem_hybrid_runtime option \<Rightarrow> gem_memory \<Rightarrow> gem_thread_context option \<Rightarrow> gem_hybrid_nested_control option \<Rightarrow> u64
    \<Rightarrow> ('d, 'b) bounded_result" where
  "gem_hybrid_runtime_run_integer_nested P W al yo m co ko budget = (case (yo, co, ko) of
      (None, _, _) \<Rightarrow> (GEM_STOP_INVARIANT_VIOLATION, None, m, fail_context co, zero_stats)
    | (Some y, Some c, Some k) \<Rightarrow>
       (case nested_accepts P (al 0) (hy_core y) m c k budget of
          (False, m) \<Rightarrow> bounded_refuse y m co
        | (True, m) \<Rightarrow>
           (case nested_path P W al k budget y m c of
              Inl f \<Rightarrow> (case exit_reason f of (reason, s) \<Rightarrow>
                bounded_restore c nested_clear (take_back P (al 7) (bd_root s) (take_back P (al 6) (bd_inner s) (reason, s))))
            | Inr s \<Rightarrow> bounded_done GEM_STOP_HOST_RETURN s))
    | (Some y, _, _) \<Rightarrow> bounded_refuse y m co)"

end
