(* ===== verification/Gem_Hybrid_Bounded_Props.thy ===== *)
theory Gem_Hybrid_Bounded_Props
  imports Gem_Hybrid_Bounded Gem_Hybrid_Broker
begin

text \<open>
  What the bounded operations leave alone of the coordinator. A view of it that the broker and the
  bookkeeping do not change is not changed by the segments either.
\<close>

section \<open>Segments\<close>

text \<open>A property of the states a segment stops in, and one of what it goes on with.\<close>

definition seg_inv :: "(('d, 'b) bounded \<Rightarrow> bool) \<Rightarrow> ('a \<Rightarrow> bool) \<Rightarrow> ('d, 'b, 'a) segment \<Rightarrow> bool" where
  "seg_inv Q Q' r = (case r of Inl (_, s) \<Rightarrow> Q s | Inr a \<Rightarrow> Q' a)"

lemma seg_inv_simps [simp]: "seg_inv Q Q' (Inl f) = Q (snd f)" "seg_inv Q Q' (Inr a) = Q' a"
  by (simp_all add: seg_inv_def split: prod.split)

lemma seg_bind:
  assumes "seg_inv Q Q1 r" and "\<And>a. Q1 a \<Longrightarrow> seg_inv Q Q2 (f a)"
  shows "seg_inv Q Q2 (rbind r f)"
  using assms by (cases r) (auto simp: seg_inv_def split: prod.splits)

lemma seg_stop: "Q s \<Longrightarrow> seg_inv Q (\<lambda>_. True) (stop_unless b l s)"
  by (simp add: stop_unless_def guard_that_def)

lemma seg_stop_bind: "Q s \<Longrightarrow> seg_inv Q Q2 (f ()) \<Longrightarrow> seg_inv Q Q2 (rbind (stop_unless b l s) f)"
  by (simp add: stop_unless_def guard_that_def)

lemma seg_case: "(\<And>l s. r = Inl (l, s) \<Longrightarrow> Q s) \<Longrightarrow> (\<And>a. r = Inr a \<Longrightarrow> Q' a) \<Longrightarrow> seg_inv Q Q' r"
  by (auto simp: seg_inv_def split: sum.splits)

section \<open>Results\<close>

lemma roundtrip_cases:
  assumes "gem_hybrid_runtime_run_integer_roundtrip P W al (Some y) m co cv fv n = (e, Some y', m', co', st)"
  obtains (refused) "hy_core y' = record_broker_stop GEM_STOP_INVARIANT_VIOLATION (hy_core y)" "e = GEM_STOP_INVARIANT_VIOLATION" "co' = fail_context co"
  | (failed) c m1 f where "co = Some c" "roundtrip_path P W al fv n y m1 c = Inl f" "roundtrip_fail P (al 2) c f = (e, Some y', m', co', st)"
  | (succeeded) c m1 s where "co = Some c" "roundtrip_path P W al fv n y m1 c = Inr s" "e = GEM_STOP_HOST_RETURN" "y' = bd_runtime s"
  using assms unfolding gem_hybrid_runtime_run_integer_roundtrip_def
  by (auto simp: bounded_refuse_def bounded_done_def split: option.splits prod.splits bool.splits sum.splits)

lemma callback_cases:
  assumes "gem_hybrid_runtime_run_integer_callback_resume P W (Some y) m co cv rv n = (e, Some y', m', co', st)"
  obtains (refused) "hy_core y' = record_broker_stop GEM_STOP_INVARIANT_VIOLATION (hy_core y)" "e = GEM_STOP_INVARIANT_VIOLATION" "co' = fail_context co"
  | (failed) c f where "co = Some c" "callback_path P W cv rv n y m c = Inl f" "bounded_restore c drop_frame (exit_reason f) = (e, Some y', m', co', st)"
  | (succeeded) c s where "co = Some c" "callback_path P W cv rv n y m c = Inr s" "e = GEM_STOP_ARCH_TRANSITION"
      "y' = bd_runtime (callback_success c rv s)"
  using assms unfolding gem_hybrid_runtime_run_integer_callback_resume_def
  by (auto simp: bounded_refuse_def bounded_done_def split: option.splits if_splits sum.splits)

lemma return_cases:
  assumes "gem_hybrid_runtime_run_integer_return P W al (Some y) m co ko n = (e, Some y', m', co', st)"
  obtains (refused) "hy_core y' = record_broker_stop GEM_STOP_INVARIANT_VIOLATION (hy_core y)" "e = GEM_STOP_INVARIANT_VIOLATION" "co' = fail_context co"
  | (failed) c k m1 f where "co = Some c" "return_path P W al k n y m1 c = Inl f"
      "bounded_restore c (\<lambda>h. clear_expected (drop_frame h)) (take_back P (al 3) (bd_root (snd (exit_reason f))) (exit_reason f)) = (e, Some y', m', co', st)"
  | (succeeded) c k m1 s where "co = Some c" "return_path P W al k n y m1 c = Inr s" "e = GEM_STOP_HOST_RETURN" "y' = bd_runtime s"
  using assms unfolding gem_hybrid_runtime_run_integer_return_def
  by (auto simp: bounded_refuse_def bounded_done_def split: option.splits prod.splits bool.splits sum.splits)

lemma nested_cases:
  assumes "gem_hybrid_runtime_run_integer_nested P W al (Some y) m co ko n = (e, Some y', m', co', st)"
  obtains (refused) "hy_core y' = record_broker_stop GEM_STOP_INVARIANT_VIOLATION (hy_core y)" "e = GEM_STOP_INVARIANT_VIOLATION" "co' = fail_context co"
  | (failed) c k m1 f where "co = Some c" "nested_path P W al k n y m1 c = Inl f"
      "bounded_restore c nested_clear (take_back P (al 7) (bd_root (snd (exit_reason f))) (take_back P (al 6) (bd_inner (snd (exit_reason f))) (exit_reason f)))
        = (e, Some y', m', co', st)"
  | (succeeded) c k m1 s where "co = Some c" "nested_path P W al k n y m1 c = Inr s" "e = GEM_STOP_HOST_RETURN" "y' = bd_runtime s"
  using assms unfolding gem_hybrid_runtime_run_integer_nested_def
  by (auto simp: bounded_refuse_def bounded_done_def split: option.splits prod.splits bool.splits sum.splits)

section \<open>Views\<close>

locale core_view =
  fixes view :: "hybrid_core \<Rightarrow> 'v"
  assumes view_stats: "view (h\<lparr>hr_stats := st\<rparr>) = view h"
    and view_last_stop: "view (h\<lparr>hr_last_stop := l\<rparr>) = view h"
    and view_frame: "view (h\<lparr>hr_frame := f\<rparr>) = view h"
    and view_stage: "view (h\<lparr>hr_stage := sg\<rparr>) = view h"
    and view_generation: "view (h\<lparr>hr_generation := w\<rparr>) = view h"
    and view_running: "view (h\<lparr>hr_running := b\<rparr>) = view h"
    and view_broker: "hybrid_boundary R p h m c = (a, k, h', m', c') \<Longrightarrow> view h' = view h"
begin

lemmas view_simps [simp] = view_stats view_last_stop view_frame view_stage view_generation view_running

lemma view_calls: "(broker_call (hybrid_boundary R))\<^sup>*\<^sup>* h h' \<Longrightarrow> view h' = view h"
  by (induction rule: rtranclp_induct) (auto simp: broker_call_def dest: view_broker)

lemma view_ops [simp]:
  "view (bump_stat fd h) = view h" "view (next_cookie h) = view h" "view (activate_frame oper h) = view h"
  "view (record_broker_stop e h) = view h" "view (callback_frame fn orig rec res h) = view h" "view (set_final_depth d h) = view h"
  "view (bounded_start sg h) = view h" "view (drop_frame h) = view h"
  by (simp_all add: bump_stat_def next_cookie_def activate_frame_def record_broker_stop_def callback_frame_def set_final_depth_def
      bounded_start_def drop_frame_def Let_def)

definition seen :: "'v \<Rightarrow> ('d, 'b) bounded \<Rightarrow> bool" where
  "seen w s \<longleftrightarrow> view (bd_core s) = w"

lemma seen_simps [simp]:
  "seen w (on_context g s) = seen w s" "seen w (s\<lparr>bd_memory := m\<rparr>) = seen w s" "seen w (s\<lparr>bd_budget := k\<rparr>) = seen w s"
  "seen w (s\<lparr>bd_root := r\<rparr>) = seen w s" "seen w (s\<lparr>bd_inner := r\<rparr>) = seen w s" "seen w (s\<lparr>bd_pre_step_sp := k\<rparr>) = seen w s"
  "seen w (s\<lparr>bd_context := c\<rparr>) = seen w s" "seen w (count_x64 n s) = seen w s"
  by (simp_all add: seen_def bd_core_def on_context_def count_x64_def on_core_def)

lemma seen_core [simp]: "(\<And>h. view (g h) = view h) \<Longrightarrow> seen w (on_core g s) = seen w s"
  by (simp add: seen_def bd_core_def on_core_def)

lemma seg_arm:
  assumes "broker_only P" and "seen w s"
  shows "seg_inv (seen w) (\<lambda>(_, s). seen w s) (bounded_arm P s)"
proof -
  obtain e y m c where run: "run_arm P (bd_runtime s) (bd_memory s) (bd_context s) (bd_budget s) = (e, y, m, c)" by (metis prod_cases4)
  obtain ok h left where cons: "consume_arm_budget (hy_arm y) (hy_core y) (bd_budget s) = (ok, h, left)" by (metis prod_cases3)
  have "view (hy_core y) = view (bd_core s)" using view_calls [OF run_arm_calls [OF assms(1) run]] by (simp add: bd_core_def)
  moreover have "view h = view (hy_core y)" by (rule consume_facts [OF cons]) simp
  ultimately show ?thesis using assms(2) by (simp add: bounded_arm_def run cons Let_def seen_def bd_core_def)
qed

lemma seg_x64: "seen w s \<Longrightarrow> seg_inv (seen w) (\<lambda>(_, s). seen w s) (bounded_x64 P E s)"
  by (auto simp: bounded_x64_def capture_x64 Let_def seen_def bd_core_def split: prod.splits dest!: steady_run_x64)

lemma seg_put: "seen w s \<Longrightarrow> seg_inv (seen w) (\<lambda>(_, s). seen w s) (put_record P ok a value s)"
  by (simp add: put_record_def split: prod.split)

lemma seg_return_record: "seen w s \<Longrightarrow> seg_inv (seen w) (seen w) (return_record P ok r s)"
  unfolding return_record_def Let_def
  by (auto intro!: seg_stop_bind seg_bind [OF seg_put] split: prod.split)

lemma seg_until_return: "seen w s \<Longrightarrow> seg_inv (seen w) (seen w) (x64_until_return P W k s)"
proof (induction k arbitrary: s)
  case 0
  then show ?case by (simp add: x64_until_return.simps)
next
  case (Suc k)
  note st = seg_x64 [OF Suc.prems, of P "W (Suc k)"]
  show ?case
    using Suc.prems Suc.IH st
    by (cases "bounded_x64 P (W (Suc k)) s") (auto simp: x64_until_return.simps [of P W "Suc k"] Let_def split: option.split prod.splits)
qed

lemma seg_check_call: "seen w s \<Longrightarrow> seg_inv (seen w) (seen w) (check_call t f r s)"
  unfolding check_call_def Let_def by (auto intro!: seg_stop_bind split: prod.split)

lemma seg_run_callback:
  assumes "broker_only P" and "seen w s"
  shows "seg_inv (seen w) (seen w) (run_callback P f r s)"
  using assms(2) unfolding run_callback_def Let_def
  by (auto intro!: seg_stop_bind seg_bind [OF seg_arm [OF assms(1)]] split: prod.split option.split)

lemma seg_arm_to_host:
  assumes "broker_only P" and "seen w s"
  shows "seg_inv (seen w) (seen w) (arm_to_host P s)"
  using assms(2) unfolding arm_to_host_def Let_def by (auto intro!: seg_stop_bind seg_bind [OF seg_arm [OF assms(1)]] split: prod.split)

text \<open>The segments of the round trip and of the callback.\<close>

lemma seg_roundtrip_leave:
  assumes "broker_only P" and "seen w s"
  shows "seg_inv (seen w) (seen w) (roundtrip_leave P ok s)"
  using assms(2) unfolding roundtrip_leave_def Let_def
  by (auto intro!: seg_stop_bind seg_bind [OF seg_arm [OF assms(1)]] seg_bind [OF seg_put] split: prod.split option.split)

lemma seg_roundtrip_x64: "seen w s \<Longrightarrow> seg_inv (seen w) (\<lambda>(_, s). seen w s) (roundtrip_x64 P W k s)"
proof (induction k arbitrary: s)
  case 0
  then show ?case by (simp add: roundtrip_x64.simps split: sum.split)
next
  case (Suc k)
  note st = seg_x64 [OF Suc.prems, of P "W (Suc k)"]
  show ?case
    using Suc.prems Suc.IH st
    by (cases "bounded_x64 P (W (Suc k)) s") (auto simp: roundtrip_x64.simps [of P W "Suc k"] split: sum.split prod.splits)
qed

lemma seg_roundtrip_enter:
  assumes "broker_only P" and "seen w (snd ts)"
  shows "seg_inv (seen w) (seen w) (roundtrip_enter P f ts)"
  using assms(2) unfolding roundtrip_enter_def Let_def
  by (auto intro!: seg_stop_bind seg_bind [OF seg_arm [OF assms(1)]] split: prod.split sum.split)

lemma seg_roundtrip_return:
  assumes "broker_only P" and "seen w s"
  shows "seg_inv (seen w) (seen w) (roundtrip_return P entry s)"
  using assms(2) unfolding roundtrip_return_def Let_def
  by (auto intro!: seg_stop_bind seg_bind [OF seg_arm [OF assms(1)]] split: prod.split)

lemma seg_callback_x64: "seen w s \<Longrightarrow> seg_inv (seen w) (seen w) (callback_x64 P W f r k s)"
proof (induction k arbitrary: s)
  case (Suc k)
  have "seen w (s\<lparr>bd_pre_step_sp := sp (bd_context s)\<rparr>)" using Suc.prems by simp
  note st = seg_x64 [OF this, of P "W (Suc k)"]
  show ?case
    using Suc.IH st
    by (cases "bounded_x64 P (W (Suc k)) (s\<lparr>bd_pre_step_sp := sp (bd_context s)\<rparr>)")
      (auto simp: Let_def intro!: seg_check_call split: sum.split prod.splits)
qed simp

lemma seg_callback_run:
  assumes "broker_only P" and "seen w s"
  shows "seg_inv (seen w) (seen w) (callback_run P f r s)"
  using assms(2) unfolding callback_run_def Let_def
  by (auto intro!: seg_stop_bind seg_bind [OF seg_run_callback [OF assms(1)]])

lemma seen_take_back: "seen w (snd rs) \<Longrightarrow> seen w (snd (take_back P ok r rs))"
  by (auto simp: take_back_def split: option.split prod.split)

lemma seen_exit_reason: "seen w (snd f) \<Longrightarrow> seen w (snd (exit_reason f))"
  by (auto simp: exit_reason_def split: bounded_exit.split prod.split)

lemma seen_restore:
  assumes "seen w (snd rs)" and "\<And>h. view (g h) = view h" and "bounded_restore entry g rs = (e, Some y, m, co, st)"
  shows "view (hy_core y) = w"
  using assms by (auto simp: bounded_restore_def bounded_done_def seen_def bd_core_def on_core_def split: prod.splits)

lemma seg_roundtrip:
  assumes "broker_only P"
  shows "seg_inv (seen (view (hy_core y))) (seen (view (hy_core y))) (roundtrip_path P W al fv n y m c)"
  unfolding roundtrip_path_def
  by (intro seg_bind [OF seg_roundtrip_leave [OF assms]] seg_bind [OF seg_roundtrip_x64] seg_bind [OF seg_roundtrip_enter [OF assms]]
      seg_roundtrip_return [OF assms]) (auto simp: seen_def bd_core_def)

lemma roundtrip_run_view:
  assumes "broker_only P" and run: "gem_hybrid_runtime_run_integer_roundtrip P W al (Some y) m co cv fv n = (e, Some y', m', co', st)"
  shows "view (hy_core y') = view (hy_core y)"
  using run
proof (cases rule: roundtrip_cases)
  case (failed c m1 f)
  obtain l s where f: "f = (l, s)" by fastforce
  then have "seen (view (hy_core y)) s" using seg_roundtrip [OF assms(1), of y W al fv n m1 c] failed(2) by simp
  then show ?thesis using failed(3) f
    by (auto simp: roundtrip_fail_def Let_def split: bounded_exit.splits if_splits dest!: seen_restore [rotated 2, where w = "view (hy_core y)"]
        intro!: seen_take_back)
next
  case (succeeded c m1 s)
  then show ?thesis using seg_roundtrip [OF assms(1), of y W al fv n m1 c] by (simp add: seen_def bd_core_def)
qed simp

lemma seg_callback:
  assumes "broker_only P"
  shows "seg_inv (seen (view (hy_core y))) (seen (view (hy_core y))) (callback_path P W cv rv n y m c)"
  unfolding callback_path_def
  by (intro seg_bind [OF seg_callback_x64] seg_callback_run [OF assms]) (simp_all add: seen_def bd_core_def)

lemma callback_run_view:
  assumes "broker_only P" and run: "gem_hybrid_runtime_run_integer_callback_resume P W (Some y) m co cv rv n = (e, Some y', m', co', st)"
  shows "view (hy_core y') = view (hy_core y)"
  using run
proof (cases rule: callback_cases)
  case (failed c f)
  then have "seen (view (hy_core y)) (snd (exit_reason f))" using seg_callback [OF assms(1), of y W cv rv n m c] seen_exit_reason by simp
  then show ?thesis using failed(3) seen_restore [of "view (hy_core y)" "exit_reason f" drop_frame c e y' m' co' st] by simp
next
  case (succeeded c s)
  then have "seen (view (hy_core y)) (callback_success c rv s)" using seg_callback [OF assms(1), of y W cv rv n m c] by (simp add: callback_success_def)
  then show ?thesis using succeeded by (simp add: seen_def bd_core_def)
qed simp

end

text \<open>Views that do not show the expectations of a return.\<close>

locale return_view = core_view +
  assumes view_mode: "view (h\<lparr>hr_return_mode := md\<rparr>) = view h"
    and view_expected: "view (h\<lparr>hr_expected_x64_target := ex\<rparr>) = view h"
begin

lemmas view_return_simps [simp] = view_mode view_expected

lemma view_clear [simp]: "view (clear_expected h) = view h"
  by (simp add: clear_expected_def)

lemma seg_return_leave:
  assumes "broker_only P" and "seen w s"
  shows "seg_inv (seen w) (seen w) (return_leave P ok entry k s)"
  using assms(2) unfolding return_leave_def Let_def
  by (auto intro!: seg_stop_bind seg_bind [OF seg_arm [OF assms(1)]] seg_bind [OF seg_put] split: prod.split)

lemma seg_return_back:
  assumes "broker_only P" and "seen w s"
  shows "seg_inv (seen w) (seen w) (return_back P ok entry s)"
  using assms(2) unfolding return_back_def Let_def
  by (auto intro!: seg_stop_bind seg_bind [OF seg_return_record] seg_bind [OF seg_arm_to_host [OF assms(1)]])

lemma seg_return:
  assumes "broker_only P"
  shows "seg_inv (seen (view (hy_core y))) (seen (view (hy_core y))) (return_path P W al k n y m c)"
  unfolding return_path_def
  by (intro seg_bind [OF seg_return_leave [OF assms]] seg_bind [OF seg_until_return] seg_return_back [OF assms]) (simp_all add: seen_def bd_core_def)

lemma return_run_view:
  assumes "broker_only P" and run: "gem_hybrid_runtime_run_integer_return P W al (Some y) m co ko n = (e, Some y', m', co', st)"
  shows "view (hy_core y') = view (hy_core y)"
  using run
proof (cases rule: return_cases)
  case (failed c k m1 f)
  then have "seen (view (hy_core y)) (snd (take_back P (al 3) (bd_root (snd (exit_reason f))) (exit_reason f)))"
    using seg_return [OF assms(1), of y W al k n m1 c] by (intro seen_take_back seen_exit_reason) simp
  from seen_restore [OF this _ failed(3)] show ?thesis by simp
next
  case (succeeded c k m1 s)
  then show ?thesis using seg_return [OF assms(1), of y W al k n m1 c] by (simp add: seen_def bd_core_def)
qed simp

end

text \<open>Views that do not show the nested frame either.\<close>

locale nested_view = return_view +
  assumes view_nested: "view (h\<lparr>hr_nested_frame := f\<rparr>) = view h"
    and view_expected_nested: "view (h\<lparr>hr_expected_nested_x64_target := ex\<rparr>) = view h"
begin

lemmas view_nested_simps [simp] = view_nested view_expected_nested

lemma view_nested_clear [simp]: "view (nested_clear h) = view h"
  by (simp add: nested_clear_def Let_def)

lemma seg_nested_leave:
  assumes "broker_only P" and "seen w s"
  shows "seg_inv (seen w) (seen w) (nested_leave P ok entry k s)"
  using assms(2) unfolding nested_leave_def Let_def
  by (auto intro!: seg_stop_bind seg_bind [OF seg_arm [OF assms(1)]] seg_bind [OF seg_put] split: prod.split)

lemma seg_nested_x64: "seen w s \<Longrightarrow> seg_inv (seen w) (seen w) (nested_x64 P W ctl k s)"
proof (induction k arbitrary: s)
  case (Suc k)
  have "seen w (s\<lparr>bd_pre_step_sp := sp (bd_context s)\<rparr>)" using Suc.prems by simp
  note st = seg_x64 [OF this, of P "W (Suc k)"]
  show ?case
    using Suc.IH st
    by (cases "bounded_x64 P (W (Suc k)) (s\<lparr>bd_pre_step_sp := sp (bd_context s)\<rparr>)")
      (auto simp: Let_def intro!: seg_check_call split: sum.split prod.splits)
qed simp

lemma seg_nested_callback:
  assumes "broker_only P" and "seen w s"
  shows "seg_inv (seen w) (seen w) (nested_callback P ok k s)"
  using assms(2) unfolding nested_callback_def Let_def
  by (auto intro!: seg_stop_bind seg_bind [OF seg_run_callback [OF assms(1)]] split: prod.split)

lemma seg_nested_inner:
  assumes "seen w s"
  shows "seg_inv (seen w) (seen w) (nested_inner P ok k s)"
  using assms unfolding nested_inner_def Let_def by (auto intro!: seg_bind [OF seg_put])

lemma seg_nested_inner_back:
  assumes "broker_only P" and "seen w s"
  shows "seg_inv (seen w) (seen w) (nested_inner_back P ok entry k s)"
  using assms(2) unfolding nested_inner_back_def Let_def
  by (auto intro!: seg_stop_bind seg_bind [OF seg_return_record] seg_bind [OF seg_arm [OF assms(1)]] split: prod.split)

lemma seg_nested_back:
  assumes "broker_only P" and "seen w s"
  shows "seg_inv (seen w) (seen w) (nested_back P ok entry s)"
  using assms(2) unfolding nested_back_def by (auto intro!: seg_bind [OF seg_return_record] seg_bind [OF seg_arm_to_host [OF assms(1)]])

lemma seg_nested:
  assumes "broker_only P"
  shows "seg_inv (seen (view (hy_core y))) (seen (view (hy_core y))) (nested_path P W al k n y m c)"
  unfolding nested_path_def
  by (intro seg_bind [OF seg_nested_leave [OF assms]] seg_bind [OF seg_nested_x64] seg_bind [OF seg_nested_callback [OF assms]]
      seg_bind [OF seg_nested_inner] seg_bind [OF seg_until_return] seg_bind [OF seg_nested_inner_back [OF assms]] seg_nested_back [OF assms])
    (simp_all add: seen_def bd_core_def)

lemma nested_run_view:
  assumes "broker_only P" and run: "gem_hybrid_runtime_run_integer_nested P W al (Some y) m co ko n = (e, Some y', m', co', st)"
  shows "view (hy_core y') = view (hy_core y)"
  using run
proof (cases rule: nested_cases)
  case (failed c k m1 f)
  then have "seen (view (hy_core y)) (snd (take_back P (al 7) (bd_root (snd (exit_reason f))) (take_back P (al 6) (bd_inner (snd (exit_reason f))) (exit_reason f))))"
    using seg_nested [OF assms(1), of y W al k n m1 c] by (intro seen_take_back seen_exit_reason) simp
  from seen_restore [OF this _ failed(3)] show ?thesis by simp
next
  case (succeeded c k m1 s)
  then show ?thesis using seg_nested [OF assms(1), of y W al k n m1 c] by (simp add: seen_def bd_core_def)
qed simp

end

section \<open>The views of the coordinator\<close>

definition generic_view :: "hybrid_core \<Rightarrow> hybrid_generic_frame list \<times> hybrid_generic_stage \<times> u32 \<times> u64 \<times> bool" where
  "generic_view h = (gs_frames (hr_generic h), gs_stage (hr_generic h), gs_depth (hr_generic h), gs_native_return_pc (hr_generic h), gs_active (hr_generic h))"

lemma parts_updates [simp]:
  "nested_part (h\<lparr>hr_generic := g\<rparr>) = nested_part h" "nested_part (h\<lparr>hr_frame := f\<rparr>) = nested_part h"
  "expectations (h\<lparr>hr_generic := g\<rparr>) = expectations h" "expectations (h\<lparr>hr_frame := f\<rparr>) = expectations h"
  by (simp_all add: nested_part_def expectations_def)

lemma boundary_parts:
  assumes "hybrid_boundary R p h m c = (a, k, h', m', c')"
  shows "nested_part h' = nested_part h" and "expectations h' = expectations h"
proof -
  let ?h = "\<lambda>r. fst (snd (snd r))"
  have "nested_part (?h (generic_boundary R p h c)) = nested_part h" "expectations (?h (generic_boundary R p h c)) = expectations h"
    by (simp_all add: generic_boundary_def Let_def split: sum.split option.split)
  moreover have "nested_part (?h (boundary_checker R h c)) = nested_part h" "expectations (?h (boundary_checker R h c)) = expectations h"
    by (simp_all add: boundary_checker_def split: sum.split option.split)
  moreover have "nested_part (?h (boundary_nested_checker R h c)) = nested_part h" "expectations (?h (boundary_nested_checker R h c)) = expectations h"
      "nested_part (?h (boundary_dispatch_call R h c)) = nested_part h" "expectations (?h (boundary_dispatch_call R h c)) = expectations h"
    by (simp_all add: boundary_nested_checker_def boundary_dispatch_call_def split: option.split)
  moreover have "nested_part (?h (boundary_dispatch_ret h m c)) = nested_part h" "expectations (?h (boundary_dispatch_ret h m c)) = expectations h"
    by (simp_all add: boundary_dispatch_ret_def Let_def split: prod.split)
  ultimately have "nested_part (?h (hybrid_boundary R p h m c)) = nested_part h" "expectations (?h (hybrid_boundary R p h m c)) = expectations h"
    by (simp_all add: hybrid_boundary_def)
  then show "nested_part h' = nested_part h" "expectations h' = expectations h" using assms by simp_all
qed

interpretation gv: nested_view generic_view
proof
  show "hybrid_boundary R p h m c = (a, k, h', m', c') \<Longrightarrow> generic_view h' = generic_view h" for R p h m c a k h' m' c'
    using steady_boundary [of R p h m c a k h' m' c'] by (simp add: steady_def generic_view_def)
qed (simp_all add: generic_view_def)

interpretation nv: return_view nested_part
proof
  show "hybrid_boundary R p h m c = (a, k, h', m', c') \<Longrightarrow> nested_part h' = nested_part h" for R p h m c a k h' m' c'
    by (rule boundary_parts)
qed (simp_all add: nested_part_def)

interpretation ev: core_view expectations
proof
  show "hybrid_boundary R p h m c = (a, k, h', m', c') \<Longrightarrow> expectations h' = expectations h" for R p h m c a k h' m' c'
    by (rule boundary_parts)
qed (simp_all add: expectations_def)

end
