(* ===== verification/Gem_Hybrid_Reachable.thy ===== *)
theory Gem_Hybrid_Reachable
  imports Gem_Hybrid_Theorems Gem_Hybrid_Bounded_Props Gem_Target_Theorems
begin

text \<open>
  The coordinators that calls can lead to, and the properties of their runs.
\<close>

section \<open>Between calls\<close>

text \<open>No bounded operation is in progress.\<close>

definition ready :: "hybrid_core \<Rightarrow> bool" where
  "ready h \<longleftrightarrow> hr_frame h = zero_frame \<and> hr_stage h = HYBRID_STAGE_IDLE \<and> \<not> hr_running h"

definition coordinator_ok :: "hybrid_core \<Rightarrow> bool" where
  "coordinator_ok h \<longleftrightarrow> generic_inv h \<and> ready h \<and> nested_part h = (zero_frame, 0) \<and> expectations h = (0, 0)"

lemma ready_simps [simp]:
  "ready (record_broker_stop e h) = ready h" "ready (drop_frame h)" "ready (clear_expected h) = ready h" "ready (nested_clear h)"
  by (simp_all add: ready_def record_broker_stop_def drop_frame_def clear_expected_def nested_clear_def Let_def)

lemma generic_inv_view: "generic_view h' = generic_view h \<Longrightarrow> generic_inv h' = generic_inv h"
  by (simp add: generic_view_def generic_inv_def at_rest_def coordinating_def)

lemma restore_core:
  "bounded_restore c g rs = (e, Some y, m, co, st) \<Longrightarrow> \<exists>h. hy_core y = g h"
  by (auto simp: bounded_restore_def bounded_done_def on_core_def split: prod.splits)

lemma seg_any: "seg_inv (\<lambda>_. True) (\<lambda>_. True) r"
  by (simp add: seg_inv_def split: sum.split)

lemma seg_weaken: "seg_inv Q Q1 r \<Longrightarrow> (\<And>a. Q1 a \<Longrightarrow> Q2 a) \<Longrightarrow> seg_inv (\<lambda>_. True) Q2 r"
  by (auto simp: seg_inv_def split: sum.splits)

section \<open>The bounded operations\<close>

lemma roundtrip_ready:
  assumes "roundtrip_path P W al fv n y m c = Inr s"
  shows "ready (bd_core s)"
proof -
  have "seg_inv (\<lambda>_. True) (\<lambda>s. ready (bd_core s)) (roundtrip_return P entry s)" for entry s
    unfolding roundtrip_return_def Let_def
    by (auto intro!: seg_bind [OF seg_any] simp: ready_def bd_core_def on_core_def record_broker_stop_def split: prod.split)
  then have "seg_inv (\<lambda>_. True) (\<lambda>s. ready (bd_core s)) (roundtrip_path P W al fv n y m c)"
    unfolding roundtrip_path_def by (auto intro!: seg_bind [OF seg_any])
  then show ?thesis using assms by simp
qed

lemma return_ready:
  assumes "return_path P W al k n y m c = Inr s"
  shows "ready (bd_core s) \<and> expectations (bd_core s) = (0, 0)"
proof -
  have "seg_inv (\<lambda>_. True) (\<lambda>s. ready (bd_core s) \<and> expectations (bd_core s) = (0, 0)) (return_back P ok entry s)" for entry s ok
    unfolding return_back_def Let_def
    by (auto intro!: seg_bind [OF seg_any] simp: ready_def bd_core_def on_core_def record_broker_stop_def expectations_def bump_stat_def split: prod.split)
  then have "seg_inv (\<lambda>_. True) (\<lambda>s. ready (bd_core s) \<and> expectations (bd_core s) = (0, 0)) (return_path P W al k n y m c)"
    unfolding return_path_def by (auto intro!: seg_bind [OF seg_any])
  then show ?thesis using assms by simp
qed

interpretation fv: core_view hr_nested_frame
proof
  show "hybrid_boundary R p h m c = (a, k, h', m', c') \<Longrightarrow> hr_nested_frame h' = hr_nested_frame h" for R p h m c a k h' m' c'
    using boundary_parts(1) by (simp add: nested_part_def)
qed simp_all

lemma nested_ready:
  assumes P: "broker_only P" and "nested_path P W al k n y m c = Inr s"
  shows "ready (bd_core s) \<and> expectations (bd_core s) = (0, 0) \<and> nested_part (bd_core s) = (zero_frame, 0)"
proof -
  let ?Q = "\<lambda>s. ready (bd_core s) \<and> expectations (bd_core s) = (0, 0) \<and> nested_part (bd_core s) = (zero_frame, 0)"
  have inner: "seg_inv (\<lambda>_. True) (fv.seen zero_frame) (nested_inner_back P ok entry k s)" for ok entry s
  proof -
    let ?t = "\<lambda>s. on_core (\<lambda>h. set_final_depth 1 (bump_stat st_frame_pops_update (h\<lparr>hr_nested_frame := zero_frame\<rparr>))) s"
    have z: "fv.seen zero_frame (?t s)" for s by (simp add: fv.seen_def bd_core_def on_core_def set_final_depth_def)
    show ?thesis unfolding nested_inner_back_def Let_def
      by (rule seg_bind [OF seg_any], rule seg_bind [OF seg_any], rule seg_bind [OF seg_weaken [OF fv.seg_arm [OF P z]]], assumption)
        (auto intro!: seg_bind [OF seg_any] split: prod.split)
  qed
  have until: "seg_inv (\<lambda>_. True) (fv.seen zero_frame) (x64_until_return P W j s)" if "fv.seen zero_frame s" for j s
    by (rule seg_weaken [OF fv.seg_until_return [OF that]])
  have outer: "seg_inv (\<lambda>_. True) ?Q (nested_back P ok entry s)" if "fv.seen zero_frame s" for ok entry s
    unfolding nested_back_def
    by (rule seg_bind [OF seg_weaken [OF fv.seg_return_record [OF that]]], assumption,
        rule seg_bind [OF seg_weaken [OF fv.seg_arm_to_host [OF P]]])
      (auto simp: ready_def bd_core_def on_core_def record_broker_stop_def set_final_depth_def bump_stat_def expectations_def nested_part_def fv.seen_def
        on_context_def)
  have "seg_inv (\<lambda>_. True) ?Q (nested_path P W al k n y m c)"
    unfolding nested_path_def
    by (rule seg_bind [OF seg_any], rule seg_bind [OF seg_any], rule seg_bind [OF seg_any], rule seg_bind [OF seg_any], rule seg_bind [OF seg_any],
        rule seg_bind [OF inner], rule seg_bind [OF until], assumption, rule outer)
  then show ?thesis using assms(2) by simp
qed

lemma roundtrip_ok:
  assumes "broker_only P" and ok: "coordinator_ok (hy_core y)"
    and run: "gem_hybrid_runtime_run_integer_roundtrip P W al (Some y) m co cv fv n = (e, Some y', m', co', st)"
  shows "coordinator_ok (hy_core y')"
proof -
  have "ready (hy_core y')" using run
  proof (cases rule: roundtrip_cases)
    case refused
    then show ?thesis using ok by (simp add: coordinator_ok_def)
  next
    case (failed c m1 f)
    then show ?thesis by (auto simp: roundtrip_fail_def Let_def split: prod.splits dest!: restore_core)
  next
    case (succeeded c m1 s)
    then show ?thesis using roundtrip_ready by (simp add: bd_core_def)
  qed
  then show ?thesis using ok generic_inv_view [OF gv.roundtrip_run_view [OF assms(1) run]] nv.roundtrip_run_view [OF assms(1) run]
      ev.roundtrip_run_view [OF assms(1) run] by (simp add: coordinator_ok_def)
qed

lemma callback_ok:
  assumes "broker_only P" and ok: "coordinator_ok (hy_core y)"
    and run: "gem_hybrid_runtime_run_integer_callback_resume P W (Some y) m co cv rv n = (e, Some y', m', co', st)"
  shows "coordinator_ok (hy_core y')"
proof -
  have "ready (hy_core y')" using run
  proof (cases rule: callback_cases)
    case refused
    then show ?thesis using ok by (simp add: coordinator_ok_def)
  next
    case (failed c f)
    then show ?thesis by (auto dest!: restore_core)
  next
    case (succeeded c s)
    then show ?thesis by (simp add: callback_success_def on_core_def on_context_def set_final_depth_def ready_def record_broker_stop_def)
  qed
  then show ?thesis using ok generic_inv_view [OF gv.callback_run_view [OF assms(1) run]] nv.callback_run_view [OF assms(1) run]
      ev.callback_run_view [OF assms(1) run] by (simp add: coordinator_ok_def)
qed

lemma clear_expected_simps [simp]: "expectations (clear_expected h) = (0, 0)" "expectations (nested_clear h) = (0, 0)"
  "nested_part (nested_clear h) = (zero_frame, 0)"
  by (simp_all add: expectations_def clear_expected_def nested_clear_def drop_frame_def nested_part_def bump_stat_def Let_def)

lemma return_ok:
  assumes "broker_only P" and ok: "coordinator_ok (hy_core y)"
    and run: "gem_hybrid_runtime_run_integer_return P W al (Some y) m co ko n = (e, Some y', m', co', st)"
  shows "coordinator_ok (hy_core y')"
proof -
  have "ready (hy_core y') \<and> expectations (hy_core y') = (0, 0)" using run
  proof (cases rule: return_cases)
    case refused
    then show ?thesis using ok by (simp add: coordinator_ok_def)
  next
    case (failed c k m1 f)
    then show ?thesis by (auto dest!: restore_core)
  next
    case (succeeded c k m1 s)
    then show ?thesis using return_ready by (simp add: bd_core_def)
  qed
  then show ?thesis using ok generic_inv_view [OF gv.return_run_view [OF assms(1) run]] nv.return_run_view [OF assms(1) run]
    by (simp add: coordinator_ok_def)
qed

lemma nested_ok:
  assumes "broker_only P" and ok: "coordinator_ok (hy_core y)"
    and run: "gem_hybrid_runtime_run_integer_nested P W al (Some y) m co ko n = (e, Some y', m', co', st)"
  shows "coordinator_ok (hy_core y')"
proof -
  have "ready (hy_core y') \<and> expectations (hy_core y') = (0, 0) \<and> nested_part (hy_core y') = (zero_frame, 0)" using run
  proof (cases rule: nested_cases)
    case refused
    then show ?thesis using ok by (simp add: coordinator_ok_def)
  next
    case (failed c k m1 f)
    then show ?thesis by (auto dest!: restore_core)
  next
    case (succeeded c k m1 s)
    then show ?thesis using nested_ready [OF assms(1)] by (simp add: bd_core_def)
  qed
  then show ?thesis using ok generic_inv_view [OF gv.nested_run_view [OF assms(1) run]] by (simp add: coordinator_ok_def)
qed

section \<open>The stateful coordinator\<close>

text \<open>The caller that a run returns to: the one captured when the coordination began.\<close>

definition native_caller :: "hybrid_core \<Rightarrow> gem_thread_context \<Rightarrow> u64" where
  "native_caller h c =
    (if gs_active (hr_generic h) then gs_native_return_pc (hr_generic h)
     else if hc_boundary_delivery (hr_config h) = GEM_ARM64EC_BOUNDARY_SVC_TRAP then hc_host_return_sentinel (hr_config h)
     else x c ! 30)"

lemma entry_accepted:
  assumes "generic_entry R h c n = (True, h', c')" and "generic_inv h"
  shows "coordinating (hr_generic h') \<and> gs_native_return_pc (hr_generic h') = native_caller h c \<and> bounded_part h' = bounded_part h"
proof (cases "gs_active (hr_generic h)")
  case True
  then have "coordinating (hr_generic h)" using assms(2) by (auto simp: generic_inv_def at_rest_def)
  then show ?thesis using assms(1) True by (auto simp: generic_entry_def native_caller_def split: if_splits)
next
  case False
  then show ?thesis using assms(1)
    by (auto simp: generic_entry_def generic_begin_def native_caller_def zero_generic_state_def numeral_2_eq_2
        split: if_splits option.splits sum.splits intro!: coordinatingI(1))
qed

lemma entry_refused:
  assumes "generic_entry R h c n = (False, h', c')" and "generic_inv h"
  shows "generic_inv h' \<and> bounded_part h' = bounded_part h \<and> hr_running h' = hr_running h"
  using assms
  by (auto simp: generic_entry_def generic_begin_def generic_inv_def zero_generic_state_def numeral_2_eq_2
      split: if_splits option.splits sum.splits prod.splits intro!: coordinatingI(1))

lemma coordinator_ok_alt:
  "coordinator_ok h \<longleftrightarrow> generic_inv h \<and> \<not> hr_running h \<and> bounded_part h = (zero_frame, HYBRID_STAGE_IDLE, (zero_frame, 0), (0, 0))"
  by (auto simp: coordinator_ok_def ready_def bounded_part_def)

lemma record_stop_ok [simp]: "coordinator_ok (record_broker_stop e h) = coordinator_ok h"
  by (simp add: coordinator_ok_alt record_broker_stop_def generic_inv_def)

definition retired_in :: "gem_hybrid_roundtrip_stats \<Rightarrow> nat" where
  "retired_in st = unat (st_arm64ec_instructions_retired st) + unat (st_x64_instructions_retired st)"

text \<open>Everything a run guarantees.\<close>

lemma run_facts:
  assumes P: "broker_only P" and ok: "coordinator_ok (hy_core y)"
  shows "\<exists>e y' m' co' st. gem_hybrid_runtime_run P V (Some y) m co n = Some (e, Some y', m', co', st) \<and> coordinator_ok (hy_core y') \<and>
    retired_in st \<le> unat n \<and>
    (e = GEM_STOP_ARCH_TRANSITION \<longrightarrow> (\<exists>c c'. co = Some c \<and> co' = Some c' \<and> at_caller (native_caller (hy_core y) c) (hy_core y') c'))"
proof (cases co)
  case None
  then show ?thesis using ok by (simp add: gem_hybrid_runtime_run_def retired_in_def zero_stats_def)
next
  case (Some c)
  obtain acc h c1 where entry: "generic_entry (hp_resolver P) (hy_core y) c n = (acc, h, c1)" by (metis prod_cases3)
  have gi: "generic_inv (hy_core y)" using ok by (simp add: coordinator_ok_def)
  show ?thesis
  proof (cases acc)
    case False
    then have "coordinator_ok h" using entry_refused [of _ _ c n h c1] entry gi ok by (simp add: coordinator_ok_alt)
    then show ?thesis using entry False Some by (simp add: gem_hybrid_runtime_run_def retired_in_def zero_stats_def)
  next
    case True
    then have "generic_entry (hp_resolver P) (hy_core y) c n = (True, h, c1)" using entry by simp
    note e = entry_accepted [OF this gi]
    let ?s = "(y\<lparr>hy_core := generic_start h\<rparr>, m, c1, n)"
    have "in_loop (native_caller (hy_core y) c) (unat n) (bounded_part (hy_core y)) ?s"
      using e by (simp add: in_loop_def generic_start_def spent_def zero_stats_def bounded_part_def nested_part_def expectations_def)
    moreover have "unat n < 2 ^ 64" by (rule order_less_le_trans [OF unsigned_less]) simp
    ultimately obtain r where r: "hybrid_loop P V 0 ?s = Some r" "run_over (native_caller (hy_core y) c) (unat n) (bounded_part (hy_core y)) r"
      using loop_over [OF P] by blast
    obtain e' y' m' c' where r': "r = (e', y', m', c')" by (metis prod_cases4)
    have "coordinator_ok (hy_core y')" using r(2) ok by (simp add: r' run_over_def coordinator_ok_alt)
    then show ?thesis using r entry True Some by (auto simp: gem_hybrid_runtime_run_def r' run_over_def retired_in_def spent_def)
  qed
qed

section \<open>Reachable coordinators\<close>

inductive hybrid_reachable :: "('d, 'b) hybrid_parts \<Rightarrow> ('d, 'b) gem_hybrid_runtime \<Rightarrow> bool" for P where
  created: "gem_hybrid_runtime_create P A mo img ko = Some y \<Longrightarrow> hybrid_reachable P y"
| ran: "hybrid_reachable P y \<Longrightarrow> gem_hybrid_runtime_run P V (Some y) m co n = Some (e, Some y', m', co', st) \<Longrightarrow> hybrid_reachable P y'"
| round_trip: "hybrid_reachable P y \<Longrightarrow> gem_hybrid_runtime_run_integer_roundtrip P W al (Some y) m co cv fv n = (e, Some y', m', co', st) \<Longrightarrow>
    hybrid_reachable P y'"
| called_back: "hybrid_reachable P y \<Longrightarrow> gem_hybrid_runtime_run_integer_callback_resume P W (Some y) m co cv rv n = (e, Some y', m', co', st) \<Longrightarrow>
    hybrid_reachable P y'"
| returned: "hybrid_reachable P y \<Longrightarrow> gem_hybrid_runtime_run_integer_return P W al (Some y) m co rk n = (e, Some y', m', co', st) \<Longrightarrow>
    hybrid_reachable P y'"
| nested: "hybrid_reachable P y \<Longrightarrow> gem_hybrid_runtime_run_integer_nested P W al (Some y) m co nk n = (e, Some y', m', co', st) \<Longrightarrow>
    hybrid_reachable P y'"
| stop_requested: "hybrid_reachable P y \<Longrightarrow> gem_hybrid_runtime_request_async_stop (Some y) = Some y' \<Longrightarrow> hybrid_reachable P y'"
| code_invalidated: "hybrid_reachable P y \<Longrightarrow> gem_hybrid_runtime_invalidate_code P (Some y) a k = Some y' \<Longrightarrow> hybrid_reachable P y'"

lemma created_ok: "gem_hybrid_runtime_create P A mo img ko = Some y \<Longrightarrow> coordinator_ok (hy_core y)"
  by (auto simp: gem_hybrid_runtime_create_def coordinator_ok_alt fresh_core_def generic_inv_def bounded_part_def nested_part_def expectations_def
      split: option.splits if_splits sum.splits)

lemma reachable_ok:
  assumes "hybrid_reachable P y" and P: "broker_only P"
  shows "coordinator_ok (hy_core y)"
  using assms(1)
proof (induction rule: hybrid_reachable.induct)
  case (created A mo img ko y)
  then show ?case by (rule created_ok)
next
  case (ran y V m co n e y' m' co' st)
  then show ?case using run_facts [OF P ran.IH, of V m co n] by auto
next
  case (stop_requested y y')
  then show ?case by (auto simp: gem_hybrid_runtime_request_async_stop_def coordinator_ok_alt generic_inv_def)
next
  case (code_invalidated y a k y')
  then show ?case by (auto simp: gem_hybrid_runtime_invalidate_code_def Let_def split: if_splits)
qed (blast intro: roundtrip_ok [OF P] callback_ok [OF P] return_ok [OF P] nested_ok [OF P])+

end
