(* ===== verification/Gem_Hybrid_Laws.thy ===== *)
theory Gem_Hybrid_Laws
  imports Gem_Hybrid_Reachable
begin

text \<open>The properties of the hybrid coordinator, and a small engine on which they are applied.\<close>

section \<open>Properties\<close>

text \<open>
  (C30) Whatever calls are made, between two of them the coordinator is in order: either it is at rest, or it
  coordinates with at most two frames of which each has its stack record written and a non-zero cookie, the outer
  entered from ARM64EC code and suspended in a callback when there is an inner one, the stage saying where
  control is; and nothing of a bounded operation is left behind.
\<close>

theorem hybrid_coordinator_ok:
  assumes "broker_only P" and "hybrid_reachable P y"
  shows "coordinator_ok (hy_core y)"
  using reachable_ok [OF assms(2,1)] .

text \<open>
  (C31) A run of the coordinator always returns: the loop between the engines ends, whatever code the engines
  execute and whatever they report.
\<close>

theorem hybrid_run_returns:
  assumes "broker_only P" and "hybrid_reachable P y"
  shows "\<exists>r. gem_hybrid_runtime_run P V (Some y) m co budget = Some r"
  using run_facts [OF assms(1) reachable_ok [OF assms(2,1)]] by blast

text \<open>(C32) The instructions that a run reports for both engines together are within the budget it was given.\<close>

theorem hybrid_run_bounded:
  assumes "broker_only P" and "hybrid_reachable P y" and "gem_hybrid_runtime_run P V (Some y) m co budget = Some (e, yo, m', co', st)"
  shows "retired_in st \<le> unat budget"
  using run_facts [OF assms(1) reachable_ok [OF assms(2,1)], of V m co budget] assms(3) by auto

text \<open>
  (C33) An architecture transition leaves the coordinator only at the caller it was entered from: the program counter
  is the return address captured when the coordination began, the context is ARM64EC without a cookie, and the
  coordinator is reset.
\<close>

theorem hybrid_transition_at_caller:
  assumes "broker_only P" and "hybrid_reachable P y"
    and "gem_hybrid_runtime_run P V (Some y) m (Some c) budget = Some (GEM_STOP_ARCH_TRANSITION, Some y', m', Some c', st)"
  shows "at_caller (native_caller (hy_core y) c) (hy_core y') c'"
  using run_facts [OF assms(1) reachable_ok [OF assms(2,1)], of V m "Some c" budget] assms(3) by auto

text \<open>A call of one of the bounded operations, with the reason that means success.\<close>

inductive bounded_call :: "('d, 'b) hybrid_parts \<Rightarrow> ('d, 'b) gem_hybrid_runtime \<Rightarrow> gem_thread_context \<Rightarrow> gem_stop_reason
    \<Rightarrow> ('d, 'b) bounded_result \<Rightarrow> bool" for P y c where
  "bounded_call P y c GEM_STOP_HOST_RETURN (gem_hybrid_runtime_run_integer_roundtrip P W al (Some y) m (Some c) cv fv n)"
| "bounded_call P y c GEM_STOP_ARCH_TRANSITION (gem_hybrid_runtime_run_integer_callback_resume P W (Some y) m (Some c) cv rv n)"
| "bounded_call P y c GEM_STOP_HOST_RETURN (gem_hybrid_runtime_run_integer_return P W al (Some y) m (Some c) rk n)"
| "bounded_call P y c GEM_STOP_HOST_RETURN (gem_hybrid_runtime_run_integer_nested P W al (Some y) m (Some c) nk n)"

lemma restore_context: "bounded_restore c g rs = (e, Some y, m, Some c', st) \<Longrightarrow> c' = c\<lparr>stop_reason := stop_code e\<rparr>"
  by (auto simp: bounded_restore_def bounded_done_def split: prod.splits)

lemma roundtrip_fail_context: "roundtrip_fail P ok c f = (e, Some y, m, Some c', st) \<Longrightarrow> c' = c\<lparr>stop_reason := stop_code e\<rparr>"
  by (auto simp: roundtrip_fail_def Let_def split: prod.splits dest!: restore_context)

text \<open>
  (C34) A bounded operation that does not succeed gives the context back as it was when it was called, but for the
  reason it stopped, and leaves the coordinator in order for the next call.
\<close>

theorem bounded_failure_restores:
  assumes "broker_only P" and "hybrid_reachable P y" and call: "bounded_call P y c good (e, Some y', m', Some c', st)" and "e \<noteq> good"
  shows "c' = c\<lparr>stop_reason := stop_code e\<rparr> \<and> coordinator_ok (hy_core y')"
proof -
  note ok = reachable_ok [OF assms(2,1)]
  from call show ?thesis
  proof cases
    case (1 W al m cv fv n)
    note run = 1(2) [symmetric]
    show ?thesis using roundtrip_ok [OF assms(1) ok run] 1(1) assms(4) roundtrip_fail_context
      by (cases rule: roundtrip_cases [OF run]) (auto simp: fail_context_def)
  next
    case (2 W m cv rv n)
    note run = 2(2) [symmetric]
    show ?thesis using callback_ok [OF assms(1) ok run] 2(1) assms(4)
      by (cases rule: callback_cases [OF run]) (auto simp: fail_context_def dest!: restore_context)
  next
    case (3 W al m rk n)
    note run = 3(2) [symmetric]
    show ?thesis using return_ok [OF assms(1) ok run] 3(1) assms(4)
      by (cases rule: return_cases [OF run]) (auto simp: fail_context_def dest!: restore_context)
  next
    case (4 W al m nk n)
    note run = 4(2) [symmetric]
    show ?thesis using nested_ok [OF assms(1) ok run] 4(1) assms(4)
      by (cases rule: nested_cases [OF run]) (auto simp: fail_context_def dest!: restore_context)
  qed
qed

text \<open>
  What entitles ARM64EC code to return to the x64 code that called it back: the thread register is the
  thread's own, a callback is running, and cookie, return address and both stack pointers are its frame's.
\<close>

definition return_entitled :: "hybrid_generic_state \<Rightarrow> gem_thread_context \<Rightarrow> bool" where
  "return_entitled g c \<longleftrightarrow> x c ! 18 = teb c \<and> gs_stage g = HYBRID_GENERIC_ARM_CALLBACK \<and> \<not> gs_pending_callback_return g \<and>
     (\<exists>f. generic_current_frame g = Some f \<and> gf_callback f \<noteq> HYBRID_GENERIC_CALLBACK_NONE \<and> transition_cookie c = gf_cookie f \<and>
       x c ! 30 = gf_callback_resume_pc f \<and> sp c = gf_callback_arm_entry_sp f \<and> original_x64_sp c = gf_callback_pre_call_sp f)"

lemma or_bits_zero: "(a :: u32) OR b = 0 \<longleftrightarrow> a = 0 \<and> b = 0"
  by (auto simp: bit_eq_iff bit_or_iff)

lemma return_failure_iff: "x c ! 18 = teb c \<Longrightarrow> return_failure g c = 0 \<longleftrightarrow> return_entitled g c"
  by (auto simp: return_failure_def return_entitled_def or_bits_zero split: option.split)

text \<open>
  (C35) At the return helper the broker of an active coordinator lets control go exactly when the return is entitled: the
  thread register included, whatever the stage. It then only marks the return as pending and counts it; otherwise it fails,
  and changes neither memory nor context and of the coordinator only the diagnosis.
\<close>

theorem broker_return_decision:
  assumes "gs_active (hr_generic h)" and "hybrid_config_ok (hr_config h)"
    and "hybrid_boundary R (hc_dispatch_ret_helper (hr_config h)) h m c = (a, k, h', m', c')"
  shows "m' = m \<and> c' = c \<and>
    (if return_entitled (hr_generic h) c
     then a = GEM_ARM64EC_BOUNDARY_STOP \<and> h' = bump_stat st_dispatch_ret_boundaries_update
       (h\<lparr>hr_generic := (hr_generic h)\<lparr>gs_boundary_failure := 0, gs_pending_callback_return := True\<rparr>\<rparr>)
     else a = GEM_ARM64EC_BOUNDARY_FAIL \<and> h' = h\<lparr>hr_generic := (hr_generic h)\<lparr>gs_boundary_failure := gs_boundary_failure (hr_generic h')\<rparr>\<rparr>)"
proof -
  let ?g = "(hr_generic h)\<lparr>gs_boundary_failure := 0\<rparr>" and ?ret = "hc_dispatch_ret_helper (hr_config h)"
  have e: "return_entitled ?g c = return_entitled (hr_generic h) c" by (simp add: return_entitled_def generic_current_frame_def)
  have k: "?ret \<noteq> hc_checker_helper (hr_config h)" "?ret \<noteq> hc_dispatch_call_helper (hr_config h)"
    "hc_dispatch_jump_helper (hr_config h) \<noteq> 0 \<Longrightarrow> ?ret \<noteq> hc_dispatch_jump_helper (hr_config h)"
    using assms(2) by (auto simp: hybrid_config_ok_def)
  show ?thesis
  proof (cases "x c ! 18 \<noteq> teb c \<or> gs_stage (hr_generic h) \<noteq> HYBRID_GENERIC_ARM \<and> gs_stage (hr_generic h) \<noteq> HYBRID_GENERIC_ARM_CALLBACK")
    case True
    then have "\<not> return_entitled (hr_generic h) c" by (auto simp: return_entitled_def)
    then show ?thesis using True assms(1,3) unfolding hybrid_boundary_def generic_boundary_def with_memory_def Let_def by auto
  next
    case False
    then show ?thesis
      using assms(3) assms(1) k unfolding hybrid_boundary_def generic_boundary_def with_memory_def Let_def
      by (cases "return_entitled (hr_generic h) c") (auto simp: return_failure_iff e split: if_splits)
  qed
qed

section \<open>Applications\<close>

definition sample_hybrid_config :: gem_hybrid_runtime_config where
  "sample_hybrid_config = \<lparr>hc_version = 1, hc_boundary_delivery = GEM_ARM64EC_BOUNDARY_PRECISE, hc_loaded_base = 0x100000,
     hc_checker_helper = 0x10, hc_dispatch_call_helper = 0x20, hc_dispatch_jump_helper = 0, hc_dispatch_ret_helper = 0x30,
     hc_x64_return_sentinel = 0x40, hc_host_return_sentinel = 0x50, hc_max_budget = 1000, hc_target_resolver = 0, hc_target_resolver_opaque = 0\<rparr>"

text \<open>A backend that executes one return and asks the broker about the address it returns to.\<close>

definition ret_backend :: "hybrid_broker \<Rightarrow> (unit \<times> hybrid_core) arm64ec_backend" where
  "ret_backend B = \<lparr>backend_create = (\<lambda>_. Some ((), fresh_core sample_hybrid_config target_map)),
     backend_run = (\<lambda>r m c n. case B (x c ! 30) (snd (ar_backend r)) m (c\<lparr>pc := x c ! 30\<rparr>) of (a, k, h, m', c') \<Rightarrow>
       (if a = GEM_ARM64EC_BOUNDARY_STOP then GEM_STOP_ARCH_TRANSITION else GEM_STOP_INVARIANT_VIOLATION,
        r\<lparr>ar_backend := ((), h), ar_last_stop := (ar_last_stop r)\<lparr>as_instructions_retired := 1\<rparr>\<rparr>, m', c')),
     backend_invalidate_code = (\<lambda>d _ _. d), backend_request_async_stop = (\<lambda>d. d), backend_engine_name = ''ret'', backend_engine_version = ''1''\<rparr>"

definition ret_parts :: "(unit, unit) hybrid_parts" where
  "ret_parts = \<lparr>hp_backend = ret_backend, hp_blink = nop_blink, hp_resolver = (\<lambda>_ _ _. Inl GEM_ARM64EC_TARGET_OUTSIDE_IMAGE), hp_accessible = (\<lambda>_ _. True)\<rparr>"

definition sample_allocations :: hybrid_allocations where
  "sample_allocations = \<lparr>ha_runtime = True, ha_map = True, ha_map_blocks = (\<lambda>_. True), ha_arm = True, ha_attached_map = True,
     ha_attached_blocks = (\<lambda>_. True), ha_x64 = True, ha_broker = 0x1000, ha_address = 0x2000\<rparr>"

definition calm :: hybrid_environment where
  "calm = \<lparr>hv_requests = (\<lambda>_. False), hv_x64 = (\<lambda>_. quiet), hv_begins = (\<lambda>_ _. True)\<rparr>"

definition sample_hybrid :: "(unit, unit) gem_hybrid_runtime" where
  "sample_hybrid = \<lparr>hy_core = fresh_core sample_hybrid_config target_map,
     hy_arm = (fresh_runtime (arm64ec_config_default\<lparr>af_host_return_sentinel := GEM_HYBRID_INTERNAL_HOST_RETURN,
         af_arch_transition_sentinel := 0xffffffffffffffe0, af_max_budget := 1000\<rparr>) ((), fresh_core sample_hybrid_config target_map))
       \<lparr>ar_target_map := Some target_map, ar_boundary_broker := 0x1000, ar_boundary_opaque := 0x2000\<rparr>,
     hy_x64 = nop_x64_runtime\<lparr>xr_config := x64_config_default\<lparr>xf_host_return_sentinel := 0x40, xf_max_budget := 1000,
         xf_engine_mode := GEM_X86_64_ENGINE_INTERPRETER\<rparr>\<rparr>\<rparr>"

definition hybrid_context :: gem_thread_context where
  "hybrid_context = (gem_context_initialize 0x5000 GEM_ISA_ARM64EC)\<lparr>pc := 0x101040, x := (replicate 31 0)[18 := 0x5000, 30 := 0x7000]\<rparr>"

lemma ret_broker_only: "broker_only ret_parts"
  by (auto simp: broker_only_def ret_parts_def ret_backend_def broker_call_def split: prod.splits intro!: r_into_rtranclp) blast

lemma target_map_created: "gem_arm64ec_target_map_create True (\<lambda>_. True) (Some target_image) 0x100000 True = Inr target_map"
  by code_simp

lemma sample_hybrid_created:
  "gem_hybrid_runtime_create ret_parts sample_allocations (Some m) (Some target_image) (Some sample_hybrid_config) = Some sample_hybrid"
  by (simp add: gem_hybrid_runtime_create_def hybrid_config_ok_def sample_hybrid_config_def GEM_HYBRID_RUNTIME_CONFIG_VERSION_def arm64ec_constants
      target_map_created hybrid_arm_create_def sample_allocations_def Let_def gem_arm64ec_runtime_create_def gem_arm64ec_runtime_attach_arm64x_def
      arm_engine_def ret_parts_def ret_backend_def gem_arm64ec_runtime_set_boundary_broker_def gem_x64_runtime_create_def arm64ec_config_default_def
      fresh_runtime_def reset_stop_def fill_sentinels_def x64_config_default_def sample_hybrid_def GEM_HYBRID_INTERNAL_HOST_RETURN_def
      GEM_X86_64_ENGINE_INTERPRETER_def GEM_X86_64_ENGINE_DEFAULT_def GEM_X86_64_ENGINE_JIT_def gem_x64_blink_create_def nop_blink_def
      nop_x64_runtime_def fresh_core_def)

lemma sample_reachable: "hybrid_reachable ret_parts sample_hybrid"
  by (rule hybrid_reachable.created [OF sample_hybrid_created])

lemma hybrid_context_simps: "gem_context_is_valid hybrid_context" "x hybrid_context ! 30 = 0x7000" "x hybrid_context ! 18 = teb hybrid_context" "isa hybrid_context = isa_code GEM_ISA_ARM64EC"
  "transition_cookie hybrid_context = 0" "stop_reason hybrid_context = 0" "pc hybrid_context = 0x101040"
  by (simp_all add: hybrid_context_def gem_context_initialize_def gem_context_is_valid_def context_constants)

lemma hybrid_context_pc: "hybrid_context\<lparr>pc := 0x101040\<rparr> = hybrid_context" by (simp add: hybrid_context_def)
lemma valid_pc [simp]: "gem_context_is_valid (c\<lparr>pc := p\<rparr>) = gem_context_is_valid c" by (simp add: gem_context_is_valid_def)
lemma sample_entry: "\<exists>t. gem_arm64ec_target_resolve (Some target_map) 0x101040 True = Inr t \<and> kind t = Some GEM_ARM64EC_TARGET_ARM64EC \<and> resolved_va t = 0x101040"
proof -
  have "case gem_arm64ec_target_resolve (Some target_map) 0x101040 True of Inl _ \<Rightarrow> False | Inr t \<Rightarrow> kind t = Some GEM_ARM64EC_TARGET_ARM64EC \<and> resolved_va t = 0x101040"
    by code_simp
  then show ?thesis by (auto split: sum.splits)
qed


definition sample_start :: hybrid_generic_state where
  "sample_start = zero_generic_state\<lparr>gs_active := True, gs_stage := HYBRID_GENERIC_ARM, gs_native_return_pc := 0x7000\<rparr>"

lemma sample_boundary: "hr_generic h = sample_start \<Longrightarrow> hr_config h = sample_hybrid_config \<Longrightarrow>
   hybrid_boundary R 0x7000 h m (hybrid_context\<lparr>pc := 0x7000\<rparr>) = (GEM_ARM64EC_BOUNDARY_STOP, Some GEM_ARM64EC_BOUNDARY_DISPATCH_RETURN,
     h\<lparr>hr_generic := sample_start\<lparr>gs_pending_native_return := True\<rparr>\<rparr>, m, hybrid_context\<lparr>pc := 0x7000\<rparr>)"
  by (simp add: hybrid_boundary_def generic_boundary_def with_memory_def Let_def sample_start_def zero_generic_state_def sample_hybrid_config_def hybrid_context_simps)

lemma sample_arm: "hr_generic h = sample_start \<Longrightarrow> hr_config h = sample_hybrid_config \<Longrightarrow>
  \<exists>y' . run_arm ret_parts (sample_hybrid\<lparr>hy_core := h\<rparr>) m hybrid_context 10 = (GEM_STOP_ARCH_TRANSITION, y', m, hybrid_context\<lparr>pc := 0x7000, stop_reason := stop_code GEM_STOP_ARCH_TRANSITION\<rparr>)
    \<and> hy_core y' = h\<lparr>hr_generic := sample_start\<lparr>gs_pending_native_return := True\<rparr>\<rparr> \<and> as_reason (ar_last_stop (hy_arm y')) = GEM_STOP_ARCH_TRANSITION
    \<and> as_instructions_retired (ar_last_stop (hy_arm y')) = 1"
  by (simp add: run_arm_def arm_engine_def ret_parts_def ret_backend_def sample_hybrid_def gem_arm64ec_runtime_run_def context_is_arm64ec_valid_def hybrid_context_simps sample_boundary Let_def
    finish_stop_def stop_with_def reset_stop_def fresh_runtime_def arm64ec_config_default_def zero_arm64ec_stop_def)

lemma consume_one:
  assumes "as_reason (ar_last_stop arm) = GEM_STOP_ARCH_TRANSITION" and "as_instructions_retired (ar_last_stop arm) = 1"
  shows "\<exists>l. hs_reason l = GEM_STOP_ARCH_TRANSITION \<and> consume_arm_budget arm h 10 = (True, h\<lparr>hr_last_stop := l,
     hr_stats := (hr_stats h)\<lparr>st_arm64ec_instructions_retired := st_arm64ec_instructions_retired (hr_stats h) + 1\<rparr>\<rparr>, 9)"
  by (rule exI [of _ "zero_hybrid_stop\<lparr>hs_source := GEM_HYBRID_STOP_SOURCE_ARM64EC, hs_arm64ec := ar_last_stop arm,
      hs_reason := GEM_STOP_ARCH_TRANSITION\<rparr>"])
    (use assms in \<open>simp add: consume_arm_budget_def capture_arm_stop_def gem_arm64ec_runtime_last_stop_info_def Let_def\<close>)

lemma sample_iteration:
  assumes "hr_generic h = sample_start" "hr_config h = sample_hybrid_config" "hr_stats h = zero_stats" "\<not> hr_async_stop_requested h"
  shows "\<exists>y c. hybrid_iteration ret_parts calm 0 (sample_hybrid\<lparr>hy_core := h\<rparr>, m, hybrid_context, 10) = Inl (GEM_STOP_ARCH_TRANSITION, y, m, c) \<and> pc c = 0x7000 \<and>
    retired_in (hr_stats (hy_core y)) = 1"
proof -
  let ?h = "h\<lparr>hr_async_stop_requested := False\<rparr>"
  have k: "hc_boundary_delivery sample_hybrid_config \<noteq> GEM_ARM64EC_BOUNDARY_SVC_TRAP" by (simp add: sample_hybrid_config_def arm64ec_constants)
  obtain y' where y': "run_arm ret_parts (sample_hybrid\<lparr>hy_core := ?h\<rparr>) m hybrid_context 10 =
        (GEM_STOP_ARCH_TRANSITION, y', m, hybrid_context\<lparr>pc := 0x7000, stop_reason := stop_code GEM_STOP_ARCH_TRANSITION\<rparr>)"
      "hy_core y' = ?h\<lparr>hr_generic := sample_start\<lparr>gs_pending_native_return := True\<rparr>\<rparr>" "as_reason (ar_last_stop (hy_arm y')) = GEM_STOP_ARCH_TRANSITION"
      "as_instructions_retired (ar_last_stop (hy_arm y')) = 1"
    using sample_arm [of ?h m] assms by auto
  obtain l where l: "hs_reason l = GEM_STOP_ARCH_TRANSITION" "consume_arm_budget (hy_arm y') (hy_core y') 10 = (True, (hy_core y')\<lparr>hr_last_stop := l,
     hr_stats := (hr_stats (hy_core y'))\<lparr>st_arm64ec_instructions_retired := st_arm64ec_instructions_retired (hr_stats (hy_core y')) + 1\<rparr>\<rparr>, 9)"
    using consume_one [OF y'(3,4)] by blast
  have g: "gs_stage sample_start = HYBRID_GENERIC_ARM" "gs_depth sample_start = 0" "gs_native_return_pc sample_start = 0x7000" by (simp_all add: sample_start_def zero_generic_state_def)
  have y0: "sample_hybrid\<lparr>hy_core := ?h, hy_arm := hy_arm sample_hybrid\<rparr> = sample_hybrid\<lparr>hy_core := ?h\<rparr>" by (simp add: sample_hybrid_def)
  have "arm_turn ret_parts (\<lambda>_. True) (sample_hybrid\<lparr>hy_core := ?h\<rparr>, m, hybrid_context, 10) =
      arm_transition ret_parts (\<lambda>_. True) (y'\<lparr>hy_core := (hy_core y')\<lparr>hr_last_stop := l,
     hr_stats := (hr_stats (hy_core y'))\<lparr>st_arm64ec_instructions_retired := st_arm64ec_instructions_retired (hr_stats (hy_core y')) + 1\<rparr>\<rparr>\<rparr>) m
       (hybrid_context\<lparr>pc := 0x7000, stop_reason := stop_code GEM_STOP_ARCH_TRANSITION\<rparr>) 9"
    unfolding arm_turn_def prod.case Let_def using k assms l y' by (simp add: y0)
  then show ?thesis using assms g y'(2)
    by (simp add: hybrid_iteration_def calm_def Let_def arm_transition_def leave_def generic_return_def generic_publish_stats_def record_broker_stop_def
      retired_in_def zero_stats_def)
qed

lemma sample_run:
  "\<exists>y' c' st. gem_hybrid_runtime_run ret_parts calm (Some sample_hybrid) m (Some hybrid_context) 10 =
     Some (GEM_STOP_ARCH_TRANSITION, Some y', m, Some c', st) \<and> pc c' = 0x7000 \<and> retired_in st = 1"
proof -
  obtain t where t: "gem_arm64ec_target_resolve (Some target_map) 0x101040 True = Inr t" "kind t = Some GEM_ARM64EC_TARGET_ARM64EC" "resolved_va t = 0x101040"
    using sample_entry by blast
  let ?h = "(fresh_core sample_hybrid_config target_map)\<lparr>hr_generic := sample_start\<rparr>"
  have e: "generic_entry (hp_resolver ret_parts) (hy_core sample_hybrid) hybrid_context 10 = (True, ?h, hybrid_context)"
    using t hybrid_context_simps hybrid_context_pc by (simp add: generic_entry_def sample_hybrid_def fresh_core_def sample_hybrid_config_def generic_begin_def zero_generic_state_def hybrid_resolve_def
     arm64ec_constants generic_context_valid_def Let_def sample_start_def)
  let ?s = "(sample_hybrid\<lparr>hy_core := generic_start ?h\<rparr>, m, hybrid_context, 10)"
  have "\<exists>y c. hybrid_iteration ret_parts calm 0 ?s = Inl (GEM_STOP_ARCH_TRANSITION, y, m, c) \<and> pc c = 0x7000 \<and> retired_in (hr_stats (hy_core y)) = 1"
    by (rule sample_iteration) (simp_all add: generic_start_def fresh_core_def sample_start_def zero_generic_state_def zero_stats_def)
  then show ?thesis using hybrid_loop.simps [of ret_parts calm 0 ?s] by (auto simp: gem_hybrid_runtime_run_def e)
qed

theorem hybrid_coordinator_ok_witness: "coordinator_ok (hy_core sample_hybrid)"
  by (rule hybrid_coordinator_ok [OF ret_broker_only sample_reachable])

theorem hybrid_run_returns_witness: "\<forall>m. \<exists>r. gem_hybrid_runtime_run ret_parts calm (Some sample_hybrid) m (Some hybrid_context) 10 = Some r"
  using hybrid_run_returns [OF ret_broker_only sample_reachable] by blast

theorem hybrid_run_bounded_witness:
  "\<forall>m. \<exists>e yo m' co st. gem_hybrid_runtime_run ret_parts calm (Some sample_hybrid) m (Some hybrid_context) 10 = Some (e, yo, m', co, st) \<and>
     retired_in st = 1 \<and> retired_in st \<le> unat (10 :: u64)"
proof
  fix m
  obtain y' c' st where run: "gem_hybrid_runtime_run ret_parts calm (Some sample_hybrid) m (Some hybrid_context) 10 =
      Some (GEM_STOP_ARCH_TRANSITION, Some y', m, Some c', st)" "retired_in st = 1" using sample_run by blast
  show "\<exists>e yo m' co st. gem_hybrid_runtime_run ret_parts calm (Some sample_hybrid) m (Some hybrid_context) 10 = Some (e, yo, m', co, st) \<and>
      retired_in st = 1 \<and> retired_in st \<le> unat (10 :: u64)"
    using run hybrid_run_bounded [OF ret_broker_only sample_reachable run(1)] by blast
qed

theorem hybrid_transition_at_caller_witness:
  "\<forall>m. \<exists>y' c' st. gem_hybrid_runtime_run ret_parts calm (Some sample_hybrid) m (Some hybrid_context) 10 =
     Some (GEM_STOP_ARCH_TRANSITION, Some y', m, Some c', st) \<and> at_caller 0x7000 (hy_core y') c'"
proof
  fix m
  obtain y' c' st where run: "gem_hybrid_runtime_run ret_parts calm (Some sample_hybrid) m (Some hybrid_context) 10 =
      Some (GEM_STOP_ARCH_TRANSITION, Some y', m, Some c', st)" using sample_run by blast
  have "native_caller (hy_core sample_hybrid) hybrid_context = 0x7000"
    by (simp add: native_caller_def sample_hybrid_def fresh_core_def zero_generic_state_def sample_hybrid_config_def arm64ec_constants hybrid_context_simps)
  then show "\<exists>y' c' st. gem_hybrid_runtime_run ret_parts calm (Some sample_hybrid) m (Some hybrid_context) 10 =
      Some (GEM_STOP_ARCH_TRANSITION, Some y', m, Some c', st) \<and> at_caller 0x7000 (hy_core y') c'"
    using run hybrid_transition_at_caller [OF ret_broker_only sample_reachable run] by auto
qed

text \<open>A round trip from another address than the context's is refused.\<close>

theorem bounded_failure_restores_witness:
  "\<forall>m. \<exists>y' m' c' st. gem_hybrid_runtime_run_integer_roundtrip ret_parts (\<lambda>_. quiet) (\<lambda>_. True) (Some sample_hybrid) m (Some hybrid_context) 0 0 10 =
     (GEM_STOP_INVARIANT_VIOLATION, Some y', m', Some c', st) \<and> c' = hybrid_context\<lparr>stop_reason := 9\<rparr> \<and> coordinator_ok (hy_core y')"
proof
  fix m
  obtain y' m' c' st where run: "gem_hybrid_runtime_run_integer_roundtrip ret_parts (\<lambda>_. quiet) (\<lambda>_. True) (Some sample_hybrid) m (Some hybrid_context) 0 0 10 =
      (GEM_STOP_INVARIANT_VIOLATION, Some y', m', Some c', st)"
    by (simp add: gem_hybrid_runtime_run_integer_roundtrip_def roundtrip_accepts_def hybrid_context_simps bounded_refuse_def fail_context_def)
  have "bounded_call ret_parts sample_hybrid hybrid_context GEM_STOP_HOST_RETURN (GEM_STOP_INVARIANT_VIOLATION, Some y', m', Some c', st)"
    unfolding run [symmetric] by (rule bounded_call.intros)
  from bounded_failure_restores [OF ret_broker_only sample_reachable this] show "\<exists>y' m' c' st. gem_hybrid_runtime_run_integer_roundtrip ret_parts
      (\<lambda>_. quiet) (\<lambda>_. True) (Some sample_hybrid) m (Some hybrid_context) 0 0 10 = (GEM_STOP_INVARIANT_VIOLATION, Some y', m', Some c', st) \<and>
      c' = hybrid_context\<lparr>stop_reason := 9\<rparr> \<and> coordinator_ok (hy_core y')" using run by simp
qed

definition called_back_core :: hybrid_core where
  "called_back_core = (fresh_core sample_hybrid_config target_map)\<lparr>hr_generic := zero_generic_state\<lparr>gs_active := True, gs_depth := 1,
     gs_stage := HYBRID_GENERIC_ARM_CALLBACK, gs_frames := [zero_generic_frame\<lparr>gf_cookie := 1, gf_record_written := True,
       gf_callback := HYBRID_GENERIC_CALLBACK_CALL, gf_callback_resume_pc := 0x7000\<rparr>, zero_generic_frame]\<rparr>\<rparr>"

theorem broker_return_decision_witness:
  "\<forall>R m. fst (hybrid_boundary R 0x30 called_back_core m (hybrid_context\<lparr>transition_cookie := 1\<rparr>)) = GEM_ARM64EC_BOUNDARY_STOP \<and>
     fst (hybrid_boundary R 0x30 called_back_core m (hybrid_context\<lparr>transition_cookie := 2\<rparr>)) = GEM_ARM64EC_BOUNDARY_FAIL \<and>
     fst (hybrid_boundary R 0x30 called_back_core m (hybrid_context\<lparr>transition_cookie := 1, teb := 1\<rparr>)) = GEM_ARM64EC_BOUNDARY_FAIL"
proof (intro allI)
  fix R m
  have k: "hr_config called_back_core = sample_hybrid_config" "gs_active (hr_generic called_back_core)" "hybrid_config_ok sample_hybrid_config"
      "hc_dispatch_ret_helper sample_hybrid_config = 0x30"
    by (simp_all add: called_back_core_def fresh_core_def sample_hybrid_config_def hybrid_config_ok_def GEM_HYBRID_RUNTIME_CONFIG_VERSION_def arm64ec_constants)
  have e: "return_entitled (hr_generic called_back_core) (hybrid_context\<lparr>transition_cookie := w\<rparr>) = (w = 1)"
      "\<not> return_entitled (hr_generic called_back_core) (hybrid_context\<lparr>transition_cookie := w, teb := 1\<rparr>)" for w
    using hybrid_context_simps(3)
    by (auto simp: return_entitled_def called_back_core_def generic_current_frame_def zero_generic_state_def zero_generic_frame_def hybrid_context_def
        gem_context_initialize_def)
  have "fst (hybrid_boundary R 0x30 called_back_core m c) =
      (if return_entitled (hr_generic called_back_core) c then GEM_ARM64EC_BOUNDARY_STOP else GEM_ARM64EC_BOUNDARY_FAIL)" for c
  proof -
    obtain a kd h' m' c' where b: "hybrid_boundary R 0x30 called_back_core m c = (a, kd, h', m', c')" by (metis prod_cases5)
    show ?thesis using broker_return_decision [of called_back_core R m c a kd h' m' c'] k b by (auto split: if_splits)
  qed
  then show "fst (hybrid_boundary R 0x30 called_back_core m (hybrid_context\<lparr>transition_cookie := 1\<rparr>)) = GEM_ARM64EC_BOUNDARY_STOP \<and>
     fst (hybrid_boundary R 0x30 called_back_core m (hybrid_context\<lparr>transition_cookie := 2\<rparr>)) = GEM_ARM64EC_BOUNDARY_FAIL \<and>
     fst (hybrid_boundary R 0x30 called_back_core m (hybrid_context\<lparr>transition_cookie := 1, teb := 1\<rparr>)) = GEM_ARM64EC_BOUNDARY_FAIL" using e by simp
qed

end
