(* ===== verification/Gem_Wine.thy ===== *)
theory Gem_Wine
  imports Gem_Hybrid_Run Gem_I386_Engine
begin

text \<open>
  The bridge that Wine loads, src/gem/wine_bridge.c: processes, images and calls on guest memory. A
  process owns the guest memory, its registered images and its threads. Images and threads are
  heap objects that are compared by address: a number stands for each address. Calls are sequential;
  which allocations succeed and which locks can be taken are arguments.
\<close>

section \<open>Data\<close>

datatype gem_wine_status =
    GEM_WINE_OK
  | GEM_WINE_INVALID_ARGUMENT
  | GEM_WINE_NO_MEMORY
  | GEM_WINE_CONFLICT
  | GEM_WINE_MEMORY_ERROR
  | GEM_WINE_ENGINE_ERROR
  | GEM_WINE_CALLBACK_ERROR
  | GEM_WINE_BUDGET_EXPIRED
  | GEM_WINE_STOPPED
  | GEM_WINE_TERMINATED

fun wine_status_code :: "gem_wine_status \<Rightarrow> u32" where
  "wine_status_code GEM_WINE_OK = 0"
| "wine_status_code GEM_WINE_INVALID_ARGUMENT = 1"
| "wine_status_code GEM_WINE_NO_MEMORY = 2"
| "wine_status_code GEM_WINE_CONFLICT = 3"
| "wine_status_code GEM_WINE_MEMORY_ERROR = 4"
| "wine_status_code GEM_WINE_ENGINE_ERROR = 5"
| "wine_status_code GEM_WINE_CALLBACK_ERROR = 6"
| "wine_status_code GEM_WINE_BUDGET_EXPIRED = 7"
| "wine_status_code GEM_WINE_STOPPED = 8"
| "wine_status_code GEM_WINE_TERMINATED = 9"

datatype gem_wine_boundary_event =
    GEM_WINE_EVENT_SYSCALL
  | GEM_WINE_EVENT_UNIX_CALL
  | GEM_WINE_EVENT_MEMORY_FAULT
  | GEM_WINE_EVENT_WINDOWS_EXCEPTION
  | GEM_WINE_EVENT_ARCH_TRANSITION
  | GEM_WINE_EVENT_ASYNC_REQUEST
  | GEM_WINE_EVENT_UNSUPPORTED_INSTRUCTION
  | GEM_WINE_EVENT_INVARIANT_VIOLATION

fun event_code :: "gem_wine_boundary_event \<Rightarrow> u32" where
  "event_code GEM_WINE_EVENT_SYSCALL = 1"
| "event_code GEM_WINE_EVENT_UNIX_CALL = 2"
| "event_code GEM_WINE_EVENT_MEMORY_FAULT = 3"
| "event_code GEM_WINE_EVENT_WINDOWS_EXCEPTION = 4"
| "event_code GEM_WINE_EVENT_ARCH_TRANSITION = 5"
| "event_code GEM_WINE_EVENT_ASYNC_REQUEST = 6"
| "event_code GEM_WINE_EVENT_UNSUPPORTED_INSTRUCTION = 7"
| "event_code GEM_WINE_EVENT_INVARIANT_VIOLATION = 8"

datatype gem_wine_run_outcome =
    GEM_WINE_RUN_COMPLETE
  | GEM_WINE_RUN_TERMINATED
  | GEM_WINE_RUN_BUDGET_EXPIRED
  | GEM_WINE_RUN_UNHANDLED_STOP
  | GEM_WINE_RUN_FAILED

text \<open>The actions of a response; a callback may answer with another value.\<close>

definition GEM_WINE_BOUNDARY_RESUME :: u32 where "GEM_WINE_BOUNDARY_RESUME = 1"
definition GEM_WINE_BOUNDARY_TERMINATE :: u32 where "GEM_WINE_BOUNDARY_TERMINATE = 2"
definition GEM_WINE_BOUNDARY_FAIL :: u32 where "GEM_WINE_BOUNDARY_FAIL = 3"

definition GEM_WINE_BRIDGE_ABI_VERSION :: u32 where "GEM_WINE_BRIDGE_ABI_VERSION = 1"
definition GEM_WINE_PROCESS_CONFIG_VERSION :: u32 where "GEM_WINE_PROCESS_CONFIG_VERSION = 1"
definition GEM_WINE_THREAD_CONFIG_VERSION :: u32 where "GEM_WINE_THREAD_CONFIG_VERSION = 1"
definition GEM_WINE_BOUNDARY_ABI_VERSION :: u32 where "GEM_WINE_BOUNDARY_ABI_VERSION = 1"
definition GEM_WINE_RUN_RESULT_VERSION :: u32 where "GEM_WINE_RUN_RESULT_VERSION = 1"
definition GEM_WINE_ARM64X_CONFIG_VERSION :: u32 where "GEM_WINE_ARM64X_CONFIG_VERSION = 1"
definition GEM_WINE_X86_64_CONFIG_VERSION :: u32 where "GEM_WINE_X86_64_CONFIG_VERSION = 1"
definition GEM_WINE_I386_CONFIG_VERSION :: u32 where "GEM_WINE_I386_CONFIG_VERSION = 1"
definition GEM_WINE_I386_THREAD_CONFIG_VERSION :: u32 where "GEM_WINE_I386_THREAD_CONFIG_VERSION = 1"
definition GEM_WINE_NATIVE_UNIX_CALL_SVC :: u32 where "GEM_WINE_NATIVE_UNIX_CALL_SVC = 0x5749"
definition GEM_WINE_ARM64X_FLAG_SVC_BOUNDARIES :: u64 where "GEM_WINE_ARM64X_FLAG_SVC_BOUNDARIES = 1"
definition GEM_WINE_ARM64X_FLAG_DEFER_ROUTING :: u64 where "GEM_WINE_ARM64X_FLAG_DEFER_ROUTING = 2"
definition GEM_WINE_X86_64_FLAG_INTERPRETER_ORACLE :: u64 where "GEM_WINE_X86_64_FLAG_INTERPRETER_ORACLE = 1"
definition GEM_WINE_I386_FLAG_INTERPRETER_ORACLE :: u32 where "GEM_WINE_I386_FLAG_INTERPRETER_ORACLE = 1"
definition GEM_WINE_GUEST_PAGE_SIZE :: u64 where "GEM_WINE_GUEST_PAGE_SIZE = 4096"
definition GEM_WINE_X86_64_SYSCALL_DISPATCH_ADDRESS :: u64 where "GEM_WINE_X86_64_SYSCALL_DISPATCH_ADDRESS = 0x7ffe1000"

record gem_wine_process_config =
  wpc_version :: u32
  wpc_struct_size :: u32
  wpc_segment_instruction_budget :: u64
  wpc_total_instruction_budget :: u64
  wpc_max_boundary_callbacks :: u64
  wpc_host_return_sentinel :: u64
  wpc_unix_call_dispatcher :: u64
  wpc_reserved :: "u64 list"

record gem_wine_arm64x_config =
  wac_version :: u32
  wac_struct_size :: u32
  wac_loaded_base :: u64
  wac_image_size :: u64
  wac_checker_helper :: u64
  wac_dispatch_call_helper :: u64
  wac_dispatch_jump_helper :: u64
  wac_dispatch_ret_helper :: u64
  wac_flags :: u64
  wac_reserved :: "u64 list"

record gem_wine_x86_64_config =
  wxc_version :: u32
  wxc_struct_size :: u32
  wxc_loaded_base :: u64
  wxc_image_size :: u64
  wxc_windows_syscall_boundary :: u64
  wxc_unix_call_boundary :: u64
  wxc_flags :: u64
  wxc_reserved :: "u64 list"

record gem_wine_i386_config =
  wic_version :: u32
  wic_struct_size :: u32
  wic_loaded_base :: u32
  wic_image_size :: u32
  wic_windows_syscall_boundary :: u32
  wic_unix_call_boundary :: u32
  wic_host_return_sentinel :: u32
  wic_flags :: u32
  wic_reserved :: "u32 list"

record gem_wine_stop_info =
  ws_reason :: u32
  ws_access :: u32
  ws_memory_error :: u32
  ws_engine_status :: u32
  ws_instructions_retired :: u64
  ws_fault_address :: u64
  ws_reserved :: u64

text \<open>The structs for i386 threads differ from the others in the type of the context only.\<close>

record 'c gem_wine_boundary_request =
  wq_version :: u32
  wq_struct_size :: u32
  wq_event :: u32
  wq_reserved :: u32
  wq_context :: 'c
  wq_stop :: gem_wine_stop_info

record 'c gem_wine_boundary_response =
  wa_version :: u32
  wa_struct_size :: u32
  wa_action :: u32
  wa_exit_status :: u32
  wa_context :: 'c

text \<open>A callback and its argument are addresses, null when there is none.\<close>

record gem_wine_thread_config =
  wtc_version :: u32
  wtc_struct_size :: u32
  wtc_teb :: u64
  wtc_boundary :: u64
  wtc_opaque :: u64
  wtc_reserved :: "u64 list"

record gem_wine_i386_thread_config =
  wjc_version :: u32
  wjc_struct_size :: u32
  wjc_teb :: u32
  wjc_reserved0 :: u32
  wjc_boundary :: u64
  wjc_opaque :: u64
  wjc_reserved :: "u64 list"

record gem_wine_run_result =
  wr_version :: u32
  wr_struct_size :: u32
  wr_outcome :: gem_wine_run_outcome
  wr_last_event :: u32
  wr_stop_reason :: u32
  wr_exit_status :: u32
  wr_instructions_retired :: u64
  wr_boundary_callbacks :: u64
  wr_reserved :: u64
  wr_stop :: gem_wine_stop_info

definition zero_wine_stop :: gem_wine_stop_info where
  "zero_wine_stop = \<lparr>ws_reason = 0, ws_access = 0, ws_memory_error = 0, ws_engine_status = 0, ws_instructions_retired = 0,
     ws_fault_address = 0, ws_reserved = 0\<rparr>"

definition zero_x86_64_config :: gem_wine_x86_64_config where
  "zero_x86_64_config = \<lparr>wxc_version = 0, wxc_struct_size = 0, wxc_loaded_base = 0, wxc_image_size = 0, wxc_windows_syscall_boundary = 0,
     wxc_unix_call_boundary = 0, wxc_flags = 0, wxc_reserved = replicate 3 0\<rparr>"

definition zero_i386_config :: gem_wine_i386_config where
  "zero_i386_config = \<lparr>wic_version = 0, wic_struct_size = 0, wic_loaded_base = 0, wic_image_size = 0, wic_windows_syscall_boundary = 0,
     wic_unix_call_boundary = 0, wic_host_return_sentinel = 0, wic_flags = 0, wic_reserved = replicate 4 0\<rparr>"

definition zero_thread_config :: gem_wine_thread_config where
  "zero_thread_config = \<lparr>wtc_version = 0, wtc_struct_size = 0, wtc_teb = 0, wtc_boundary = 0, wtc_opaque = 0, wtc_reserved = replicate 4 0\<rparr>"

definition zero_i386_thread_config :: gem_wine_i386_thread_config where
  "zero_i386_thread_config = \<lparr>wjc_version = 0, wjc_struct_size = 0, wjc_teb = 0, wjc_reserved0 = 0, wjc_boundary = 0, wjc_opaque = 0,
     wjc_reserved = replicate 4 0\<rparr>"

section \<open>Processes and threads\<close>

record gem_wine_arm64x_image =
  wi_number :: nat
  wi_metadata :: gem_pe_arm64x_image
  wi_map :: gem_arm64ec_target_map
  wi_summary :: gem_pe_arm64x_summary
  wi_config :: gem_wine_arm64x_config
  wi_loaded_end :: u64

text \<open>A binding names its image by number; a thread has at most one for an image, so the number names the binding too.\<close>

record ('d, 'b) gem_wine_hybrid_binding =
  hb_image :: nat
  hb_runtime :: "('d, 'b) gem_hybrid_runtime"

text \<open>\<open>wt_run_lock\<close> is the host thread that holds the lock and how often it took it.\<close>

record ('d, 'b) gem_wine_thread =
  wt_runtime :: "'d gem_arm64ec_runtime option"
  wt_x64_runtime :: "'b gem_x64_runtime option"
  wt_i386_runtime :: "'b gem_i386_runtime option"
  wt_hybrids :: "('d, 'b) gem_wine_hybrid_binding list"
  wt_coordinator_hybrid :: "nat option"
  wt_active_hybrid :: "nat option"
  wt_config :: gem_wine_thread_config
  wt_i386_config :: gem_wine_i386_thread_config
  wt_i386_thread :: bool
  wt_run_lock :: "(nat \<times> nat) option"

text \<open>\<open>wp_threads\<close> are the living threads with their numbers; \<open>wp_next\<close> is the number of the next one.\<close>

record ('d, 'b) gem_wine_process =
  wp_memory :: gem_memory
  wp_config :: gem_wine_process_config
  wp_threads :: "(nat \<times> ('d, 'b) gem_wine_thread) list"
  wp_images :: "gem_wine_arm64x_image list"
  wp_arm64x_routing_enabled :: bool
  wp_x86_64_routing_enabled :: bool
  wp_i386_routing_enabled :: bool
  wp_x86_64_config :: gem_wine_x86_64_config
  wp_i386_config :: gem_wine_i386_config
  wp_next :: nat

text \<open>Which locks can be taken during a call or a turn of a run.\<close>

record wine_locks =
  lk_threads :: bool
  lk_images :: bool
  lk_runtime :: "nat \<Rightarrow> bool"

text \<open>
  The engines, which are compiled with the bridge, and the addresses of the functions it passes to them. A
  backend of the native engine is a function of the broker, as for the hybrid coordinator.
\<close>

type_synonym native_broker = "u64 \<Rightarrow> gem_thread_context \<Rightarrow> gem_arm64ec_boundary_action \<times> gem_arm64ec_boundary_kind option"

record ('d, 'b) wine_parts =
  wn_native :: "native_broker \<Rightarrow> 'd arm64ec_backend"
  wn_hybrid :: "hybrid_broker \<Rightarrow> ('d \<times> hybrid_core) arm64ec_backend"
  wn_x64 :: "('b, x64_world) blink"
  wn_i386 :: "('b, i386_world) blink"
  wn_accessible :: "u64 \<Rightarrow> nat \<Rightarrow> bool"
  wn_native_image_boundary :: u64
  wn_process_target_resolve :: u64
  wn_process :: u64
  wn_thread :: "nat \<Rightarrow> u64"

definition zero_words :: "'a::len word list \<Rightarrow> bool" where
  "zero_words ws = list_all (\<lambda>w. w = 0) ws"

fun memory_status :: "gem_memory_error \<Rightarrow> gem_wine_status" where
  "memory_status GEM_MEMORY_OK = GEM_WINE_OK"
| "memory_status GEM_MEMORY_INVALID_ARGUMENT = GEM_WINE_INVALID_ARGUMENT"
| "memory_status GEM_MEMORY_OVERFLOW = GEM_WINE_INVALID_ARGUMENT"
| "memory_status GEM_MEMORY_NO_MEMORY = GEM_WINE_NO_MEMORY"
| "memory_status GEM_MEMORY_CONFLICT = GEM_WINE_CONFLICT"
| "memory_status _ = GEM_WINE_MEMORY_ERROR"

definition gem_wine_bridge_abi_version :: u32 where
  "gem_wine_bridge_abi_version = GEM_WINE_BRIDGE_ABI_VERSION"

definition gem_wine_status_name :: "u32 \<Rightarrow> string" where
  "gem_wine_status_name s =
    (let names = [''ok'', ''invalid-argument'', ''no-memory'', ''conflict'', ''memory-error'', ''engine-error'', ''callback-error'',
       ''budget-expired'', ''stopped'', ''terminated'']
     in if unat s \<ge> length names then ''invalid'' else names ! unat s)"

definition process_guest_range_valid :: "('d, 'b) gem_wine_process \<Rightarrow> u64 \<Rightarrow> u64 \<Rightarrow> bool" where
  "process_guest_range_valid p a n =
    (if n = 0 \<or> a > - 1 - n then False
     else if \<not> wp_i386_routing_enabled p then True
     else a < 0x100000000 \<and> n \<le> 0x100000000 - a)"

section \<open>Images\<close>

definition image_covers :: "gem_wine_arm64x_image \<Rightarrow> u64 \<Rightarrow> bool" where
  "image_covers i va \<longleftrightarrow> wac_loaded_base (wi_config i) \<le> va \<and> va < wi_loaded_end i"

definition find_image_for_pc :: "bool \<Rightarrow> gem_wine_arm64x_image list \<Rightarrow> u64 \<Rightarrow> gem_wine_arm64x_image option" where
  "find_image_for_pc locked images va = (if \<not> locked then None else find (\<lambda>i. image_covers i va) images)"

definition process_target_resolve :: "bool \<Rightarrow> gem_wine_arm64x_image list \<Rightarrow> u64
    \<Rightarrow> gem_arm64ec_target_status + gem_arm64ec_target_result" where
  "process_target_resolve locked images va =
    (if \<not> locked then Inl GEM_ARM64EC_TARGET_MALFORMED_METADATA
     else (case find (\<lambda>i. image_covers i va) images of
        None \<Rightarrow> Inl GEM_ARM64EC_TARGET_OUTSIDE_IMAGE
      | Some i \<Rightarrow> gem_arm64ec_target_resolve (Some (wi_map i)) va True))"

definition native_image_boundary :: "bool \<Rightarrow> gem_wine_arm64x_image list \<Rightarrow> native_broker" where
  "native_image_boundary locked images va c = (case find_image_for_pc locked images va of
      None \<Rightarrow> (GEM_ARM64EC_BOUNDARY_NOT_HANDLED, None)
    | Some i \<Rightarrow> (case gem_arm64ec_target_resolve (Some (wi_map i)) va True of
         Inl _ \<Rightarrow> (GEM_ARM64EC_BOUNDARY_FAIL, Some GEM_ARM64EC_BOUNDARY_DISPATCH_CALL)
       | Inr _ \<Rightarrow> (GEM_ARM64EC_BOUNDARY_STOP, Some GEM_ARM64EC_BOUNDARY_DISPATCH_CALL)))"

text \<open>The native engine with the broker of the process, and the parts of a hybrid coordinator.\<close>

definition native_engine :: "('d, 'b) wine_parts \<Rightarrow> wine_locks \<Rightarrow> ('d, 'b) gem_wine_process \<Rightarrow> 'd arm64ec_backend" where
  "native_engine W L p = wn_native W (native_image_boundary (lk_images L) (wp_images p))"

definition wine_hybrid_parts :: "('d, 'b) wine_parts \<Rightarrow> wine_locks \<Rightarrow> ('d, 'b) gem_wine_process \<Rightarrow> ('d, 'b) hybrid_parts" where
  "wine_hybrid_parts W L p = \<lparr>hp_backend = wn_hybrid W, hp_blink = wn_x64 W,
     hp_resolver = (\<lambda>_ _. process_target_resolve (lk_images L) (wp_images p)), hp_accessible = wn_accessible W\<rparr>"

section \<open>Creating and preparing a process\<close>

text \<open>
  The arguments that are not the source's: whether the process and its two locks can be had, and what
  \<open>gem_memory_create\<close> gives. The process comes back in \<open>out_process\<close>.
\<close>

definition gem_wine_process_create :: "bool \<Rightarrow> bool \<Rightarrow> bool \<Rightarrow> gem_memory option \<Rightarrow> gem_wine_process_config option \<Rightarrow> bool
    \<Rightarrow> gem_wine_status \<times> ('d, 'b) gem_wine_process option" where
  "gem_wine_process_create ok threads_init images_init memory co out = (case co of
      None \<Rightarrow> (GEM_WINE_INVALID_ARGUMENT, None)
    | Some k \<Rightarrow>
       (if \<not> out then (GEM_WINE_INVALID_ARGUMENT, None)
        else if wpc_version k \<noteq> GEM_WINE_PROCESS_CONFIG_VERSION \<or> wpc_struct_size k \<noteq> 80 \<or> wpc_segment_instruction_budget k = 0 \<or>
           wpc_total_instruction_budget k < wpc_segment_instruction_budget k \<or> wpc_max_boundary_callbacks k = 0 \<or>
           wpc_host_return_sentinel k = 0 \<or> wpc_host_return_sentinel k = wpc_unix_call_dispatcher k \<or> \<not> zero_words (wpc_reserved k)
        then (GEM_WINE_INVALID_ARGUMENT, None)
        else if \<not> ok then (GEM_WINE_NO_MEMORY, None)
        else if \<not> threads_init \<or> \<not> images_init then (GEM_WINE_ENGINE_ERROR, None)
        else (case memory of
           None \<Rightarrow> (GEM_WINE_NO_MEMORY, None)
         | Some m \<Rightarrow> (GEM_WINE_OK, Some \<lparr>wp_memory = m, wp_config = k, wp_threads = [], wp_images = [], wp_arm64x_routing_enabled = False,
             wp_x86_64_routing_enabled = False, wp_i386_routing_enabled = False, wp_x86_64_config = zero_x86_64_config,
             wp_i386_config = zero_i386_config, wp_next = 0\<rparr>))))"

text \<open>The process that is left, if any, and what is left of the memory of one that is gone.\<close>

definition gem_wine_process_destroy :: "wine_locks \<Rightarrow> ('d, 'b) gem_wine_process option
    \<Rightarrow> gem_wine_status \<times> ('d, 'b) gem_wine_process option \<times> gem_memory option" where
  "gem_wine_process_destroy L po = (case po of
      None \<Rightarrow> (GEM_WINE_INVALID_ARGUMENT, None, None)
    | Some p \<Rightarrow>
       (if \<not> lk_threads L then (GEM_WINE_ENGINE_ERROR, po, None)
        else if wp_threads p \<noteq> [] then (GEM_WINE_CONFLICT, po, None)
        else (GEM_WINE_OK, None, gem_memory_destroy (Some (wp_memory p)))))"

text \<open>The loop over the threads: it stops at a thread whose lock or engine refuses.\<close>

fun broker_threads :: "('d, 'b) wine_parts \<Rightarrow> wine_locks \<Rightarrow> (nat \<times> ('d, 'b) gem_wine_thread) list
    \<Rightarrow> bool \<times> (nat \<times> ('d, 'b) gem_wine_thread) list" where
  "broker_threads W L [] = (True, [])"
| "broker_threads W L ((t, th) # ts) =
    (if \<not> lk_runtime L t then (False, (t, th) # ts)
     else (case gem_arm64ec_runtime_set_boundary_broker (wt_runtime th) (wn_native_image_boundary W) (wn_thread W t) of
        (False, r) \<Rightarrow> (False, (t, th\<lparr>wt_runtime := r\<rparr>) # ts)
      | (True, r) \<Rightarrow> (case broker_threads W L ts of (ok, ts') \<Rightarrow> (ok, (t, th\<lparr>wt_runtime := r\<rparr>) # ts'))))"

definition gem_wine_process_prepare_arm64ec :: "('d, 'b) wine_parts \<Rightarrow> wine_locks \<Rightarrow> ('d, 'b) gem_wine_process option
    \<Rightarrow> gem_wine_status \<times> ('d, 'b) gem_wine_process option" where
  "gem_wine_process_prepare_arm64ec W L po = (case po of
      None \<Rightarrow> (GEM_WINE_INVALID_ARGUMENT, None)
    | Some p \<Rightarrow>
       (if wp_x86_64_routing_enabled p \<or> wp_i386_routing_enabled p then (GEM_WINE_CONFLICT, po)
        else (let p = p\<lparr>wp_arm64x_routing_enabled := True\<rparr>
          in if \<not> lk_threads L then (GEM_WINE_ENGINE_ERROR, Some p)
          else (case broker_threads W L (wp_threads p) of (ok, ts) \<Rightarrow>
            (if ok then GEM_WINE_OK else GEM_WINE_ENGINE_ERROR, Some (p\<lparr>wp_threads := ts\<rparr>))))))"

text \<open>A read into a buffer of \<open>n\<close> bytes: whether it succeeds, the buffer, the memory.\<close>

definition read_guest :: "gem_memory \<Rightarrow> u64 \<Rightarrow> nat \<Rightarrow> bool \<times> byte_string \<times> gem_memory" where
  "read_guest m a n = (case gem_memory_read (Some m) a (Some (replicate n 0)) (of_nat n) of
     (e, b, mo) \<Rightarrow> (e = GEM_MEMORY_OK, case b of None \<Rightarrow> [] | Some l \<Rightarrow> l, case mo of None \<Rightarrow> m | Some m' \<Rightarrow> m'))"

text \<open>The \<open>k\<close> bytes at an offset, as a number.\<close>

definition field_at :: "nat \<Rightarrow> byte_string \<Rightarrow> nat \<Rightarrow> 'a::len word" where
  "field_at k bs off = le_word (take k (drop off bs))"

text \<open>The test of the headers that the two validations share.\<close>

definition nt_headers_ok :: "byte_string \<Rightarrow> u16 \<Rightarrow> u16 \<Rightarrow> u16 \<Rightarrow> u64 \<Rightarrow> bool" where
  "nt_headers_ok nt machine_type optional_size magic image_size \<longleftrightarrow> field_at 4 nt 0 = (0x4550 :: u32) \<and> field_at 2 nt 4 = machine_type \<and>
     field_at 2 nt 6 \<noteq> (0 :: u16) \<and> field_at 2 nt 20 \<ge> optional_size \<and> field_at 2 nt 24 = magic \<and>
     ucast (field_at 4 nt 80 :: u32) = image_size \<and> field_at 4 nt 84 \<ge> (64 :: u32) \<and> field_at 4 nt 84 \<le> (field_at 4 nt 80 :: u32)"

text \<open>From the DOS header to the test, for an image of \<open>extent\<close> bytes at \<open>base\<close> and \<open>k\<close> bytes of headers.\<close>

definition validate_headers :: "gem_memory \<Rightarrow> u64 \<Rightarrow> u64 \<Rightarrow> nat \<Rightarrow> (byte_string \<Rightarrow> bool) \<Rightarrow> bool \<times> gem_memory" where
  "validate_headers m base extent k test = (case read_guest m base 64 of
     (ok, dos, m) \<Rightarrow>
      (if \<not> ok \<or> field_at 2 dos 0 \<noteq> (0x5a4d :: u16) then (False, m)
       else (let pe_offset = ucast (field_at 4 dos 0x3c :: u32) :: u64
         in if pe_offset < 64 \<or> pe_offset > extent - of_nat k then (False, m)
         else (case read_guest m (base + pe_offset) k of (ok, nt, m) \<Rightarrow> (ok \<and> test nt, m)))))"

definition validate_x86_64_ntdll :: "gem_memory \<Rightarrow> gem_wine_x86_64_config \<Rightarrow> bool \<times> gem_memory" where
  "validate_x86_64_ntdll m k =
    (let base = wxc_loaded_base k; extent = wxc_image_size k; image_end = base + extent
     in if base AND (GEM_WINE_GUEST_PAGE_SIZE - 1) \<noteq> 0 \<or> extent < GEM_WINE_GUEST_PAGE_SIZE \<or> extent AND (GEM_WINE_GUEST_PAGE_SIZE - 1) \<noteq> 0 \<or>
          unat base + unat extent \<ge> 2 ^ 64 \<or> wxc_windows_syscall_boundary k < base \<or> wxc_windows_syscall_boundary k \<ge> image_end \<or>
          wxc_unix_call_boundary k < base \<or> wxc_unix_call_boundary k \<ge> image_end \<or>
          wxc_windows_syscall_boundary k = wxc_unix_call_boundary k then (False, m)
     else validate_headers m base extent 264 (\<lambda>nt. nt_headers_ok nt 0x8664 0xf0 0x20b extent))"

definition validate_i386_ntdll :: "gem_memory \<Rightarrow> gem_wine_i386_config \<Rightarrow> bool \<times> gem_memory" where
  "validate_i386_ntdll m k =
    (let base = ucast (wic_loaded_base k) :: u64; extent = ucast (wic_image_size k) :: u64; image_end = base + extent
     in if base = 0 \<or> base AND (GEM_WINE_GUEST_PAGE_SIZE - 1) \<noteq> 0 \<or> extent < GEM_WINE_GUEST_PAGE_SIZE \<or>
          extent AND (GEM_WINE_GUEST_PAGE_SIZE - 1) \<noteq> 0 \<or> image_end > 0x100000000 \<or> wic_windows_syscall_boundary k = 0 \<or>
          wic_unix_call_boundary k = 0 \<or> wic_windows_syscall_boundary k = wic_unix_call_boundary k \<or> wic_host_return_sentinel k = 0 \<or>
          wic_host_return_sentinel k = wic_windows_syscall_boundary k \<or> wic_host_return_sentinel k = wic_unix_call_boundary k then (False, m)
     else validate_headers m base extent 248 (\<lambda>nt. nt_headers_ok nt 0x14c 0xe0 0x10b extent))"

text \<open>The page is filled while it is writable; \<open>old_protection\<close> is 0 until it is protected.\<close>

definition fill_dispatcher_page :: "gem_memory option \<Rightarrow> u64 \<Rightarrow> u64 \<Rightarrow> gem_memory_error \<times> u32 \<times> gem_memory option" where
  "fill_dispatcher_page mo a boundary = (case gem_memory_commit mo a GEM_WINE_GUEST_PAGE_SIZE GEM_PAGE_READWRITE of
     (e, mo) \<Rightarrow>
      (if e \<noteq> GEM_MEMORY_OK then (e, 0, mo)
       else (case gem_memory_write mo a (Some (le_bytes 8 boundary)) 8 of
         (e, _, mo) \<Rightarrow>
          (if e \<noteq> GEM_MEMORY_OK then (e, 0, mo)
           else (case gem_memory_protect mo a GEM_WINE_GUEST_PAGE_SIZE GEM_PAGE_READONLY of
              (e, old, mo) \<Rightarrow> (e, case old of None \<Rightarrow> 0 | Some w \<Rightarrow> w, mo))))))"

definition install_x86_64_dispatcher_page :: "gem_memory \<Rightarrow> gem_wine_x86_64_config \<Rightarrow> gem_wine_status \<times> gem_memory option" where
  "install_x86_64_dispatcher_page m k =
    (case gem_memory_reserve (Some m) (Some GEM_WINE_X86_64_SYSCALL_DISPATCH_ADDRESS) GEM_WINE_GUEST_PAGE_SIZE of
      (e, ao, mo) \<Rightarrow>
       (if e \<noteq> GEM_MEMORY_OK \<or> ao \<noteq> Some GEM_WINE_X86_64_SYSCALL_DISPATCH_ADDRESS
        then (if e = GEM_MEMORY_OK then GEM_WINE_MEMORY_ERROR else memory_status e, mo)
        else (case fill_dispatcher_page mo GEM_WINE_X86_64_SYSCALL_DISPATCH_ADDRESS (wxc_windows_syscall_boundary k) of
          (e, old, mo) \<Rightarrow>
           (if e \<noteq> GEM_MEMORY_OK \<or> old \<noteq> GEM_PAGE_READWRITE
            then (if e = GEM_MEMORY_OK then GEM_WINE_MEMORY_ERROR else memory_status e,
              snd (gem_memory_release mo GEM_WINE_X86_64_SYSCALL_DISPATCH_ADDRESS GEM_WINE_GUEST_PAGE_SIZE))
            else (GEM_WINE_OK, mo)))))"

definition gem_wine_process_prepare_x86_64 :: "wine_locks \<Rightarrow> ('d, 'b) gem_wine_process option \<Rightarrow> gem_wine_x86_64_config option
    \<Rightarrow> gem_wine_status \<times> ('d, 'b) gem_wine_process option" where
  "gem_wine_process_prepare_x86_64 L po ko = (case (po, ko) of
      (Some p, Some k) \<Rightarrow>
       (if wxc_version k \<noteq> GEM_WINE_X86_64_CONFIG_VERSION \<or> wxc_struct_size k \<noteq> 72 \<or>
           wxc_flags k AND NOT GEM_WINE_X86_64_FLAG_INTERPRETER_ORACLE \<noteq> 0 \<or> \<not> zero_words (wxc_reserved k)
        then (GEM_WINE_INVALID_ARGUMENT, po)
        else (case validate_x86_64_ntdll (wp_memory p) k of (valid, m) \<Rightarrow>
          (let p = p\<lparr>wp_memory := m\<rparr>
           in if \<not> valid then (GEM_WINE_INVALID_ARGUMENT, Some p)
           else if \<not> lk_threads L then (GEM_WINE_ENGINE_ERROR, Some p)
           else if wp_arm64x_routing_enabled p \<or> wp_i386_routing_enabled p then (GEM_WINE_CONFLICT, Some p)
           else if wp_x86_64_routing_enabled p then (if wp_x86_64_config p = k then GEM_WINE_OK else GEM_WINE_CONFLICT, Some p)
           else (case install_x86_64_dispatcher_page m k of (status, mo) \<Rightarrow>
             (let p = p\<lparr>wp_memory := (case mo of None \<Rightarrow> m | Some m' \<Rightarrow> m')\<rparr>
              in if status = GEM_WINE_OK then (status, Some (p\<lparr>wp_x86_64_config := k, wp_x86_64_routing_enabled := True\<rparr>))
                 else (status, Some p))))))
    | _ \<Rightarrow> (GEM_WINE_INVALID_ARGUMENT, po))"

definition gem_wine_process_prepare_i386 :: "wine_locks \<Rightarrow> ('d, 'b) gem_wine_process option \<Rightarrow> gem_wine_i386_config option
    \<Rightarrow> gem_wine_status \<times> ('d, 'b) gem_wine_process option" where
  "gem_wine_process_prepare_i386 L po ko = (case (po, ko) of
      (Some p, Some k) \<Rightarrow>
       (if wic_version k \<noteq> GEM_WINE_I386_CONFIG_VERSION \<or> wic_struct_size k \<noteq> 48 \<or>
           wic_flags k AND NOT GEM_WINE_I386_FLAG_INTERPRETER_ORACLE \<noteq> 0 \<or> \<not> zero_words (wic_reserved k)
        then (GEM_WINE_INVALID_ARGUMENT, po)
        else (case validate_i386_ntdll (wp_memory p) k of (valid, m) \<Rightarrow>
          (let p = p\<lparr>wp_memory := m\<rparr>
           in if \<not> valid then (GEM_WINE_INVALID_ARGUMENT, Some p)
           else if \<not> lk_threads L then (GEM_WINE_ENGINE_ERROR, Some p)
           else if wp_threads p \<noteq> [] \<or> wp_arm64x_routing_enabled p \<or> wp_x86_64_routing_enabled p then (GEM_WINE_CONFLICT, Some p)
           else if wp_i386_routing_enabled p then (if wp_i386_config p = k then GEM_WINE_OK else GEM_WINE_CONFLICT, Some p)
           else (GEM_WINE_OK, Some (p\<lparr>wp_i386_config := k, wp_i386_routing_enabled := True\<rparr>)))))
    | _ \<Rightarrow> (GEM_WINE_INVALID_ARGUMENT, po))"

section \<open>Registering an image\<close>

definition arm64x_config_ok :: "gem_wine_arm64x_config \<Rightarrow> bool" where
  "arm64x_config_ok k \<longleftrightarrow> wac_version k = GEM_WINE_ARM64X_CONFIG_VERSION \<and> wac_struct_size k = 88 \<and> wac_loaded_base k \<noteq> 0 \<and>
     wac_image_size k \<noteq> 0 \<and> \<not> wac_loaded_base k > - 1 - wac_image_size k \<and> wac_checker_helper k \<noteq> 0 \<and>
     wac_dispatch_call_helper k \<noteq> 0 \<and> wac_dispatch_ret_helper k \<noteq> 0 \<and> wac_checker_helper k \<noteq> wac_dispatch_call_helper k \<and>
     wac_checker_helper k \<noteq> wac_dispatch_ret_helper k \<and> wac_dispatch_call_helper k \<noteq> wac_dispatch_ret_helper k \<and>
     (wac_dispatch_jump_helper k = 0 \<or> (wac_dispatch_jump_helper k \<noteq> wac_checker_helper k \<and>
       wac_dispatch_jump_helper k \<noteq> wac_dispatch_call_helper k \<and> wac_dispatch_jump_helper k \<noteq> wac_dispatch_ret_helper k)) \<and>
     wac_flags k AND NOT (GEM_WINE_ARM64X_FLAG_SVC_BOUNDARIES OR GEM_WINE_ARM64X_FLAG_DEFER_ROUTING) = 0 \<and> zero_words (wac_reserved k)"

text \<open>The image is read where the host has it, at its own address.\<close>

definition host_bytes :: "gem_memory \<Rightarrow> u64 \<Rightarrow> nat \<Rightarrow> byte_string" where
  "host_bytes m a n = map (\<lambda>i. host_memory m (a + of_nat i)) [0..<n]"

definition parse_wine_image :: "(pe_block \<Rightarrow> bool) \<Rightarrow> bool \<Rightarrow> (pe_block \<Rightarrow> bool) \<Rightarrow> gem_memory \<Rightarrow> gem_wine_arm64x_config \<Rightarrow> nat
    \<Rightarrow> gem_wine_status + gem_wine_arm64x_image" where
  "parse_wine_image alloc map_ok map_alloc m k number =
    (case gem_pe_arm64x_parse_mapped alloc (Some (host_bytes m (wac_loaded_base k) (unat (wac_image_size k)))) (wac_image_size k)
        (wac_loaded_base k) None True of
       Inl e \<Rightarrow> Inl (if e = Status GEM_PE_ERROR_LIMIT_EXCEEDED then GEM_WINE_NO_MEMORY else GEM_WINE_INVALID_ARGUMENT)
     | Inr img \<Rightarrow>
        (case gem_pe_arm64x_get_summary (Some img) True of
           Inl _ \<Rightarrow> Inl GEM_WINE_INVALID_ARGUMENT
         | Inr s \<Rightarrow>
            (if ucast (size_of_image s) \<noteq> wac_image_size k then Inl GEM_WINE_INVALID_ARGUMENT
             else (case gem_arm64ec_target_map_create map_ok map_alloc (Some img) (wac_loaded_base k) True of
                Inl _ \<Rightarrow> Inl GEM_WINE_INVALID_ARGUMENT
              | Inr t \<Rightarrow> Inr \<lparr>wi_number = number, wi_metadata = img, wi_map = t, wi_summary = s,
                  wi_config = k\<lparr>wac_flags := wac_flags k AND NOT GEM_WINE_ARM64X_FLAG_DEFER_ROUTING\<rparr>,
                  wi_loaded_end = wac_loaded_base k + wac_image_size k\<rparr>))))"

definition overlaps :: "gem_wine_arm64x_image \<Rightarrow> gem_wine_arm64x_image \<Rightarrow> bool" where
  "overlaps i j \<longleftrightarrow> wac_loaded_base (wi_config i) < wi_loaded_end j \<and> wac_loaded_base (wi_config j) < wi_loaded_end i"

definition finish_register :: "('d, 'b) wine_parts \<Rightarrow> wine_locks \<Rightarrow> gem_wine_arm64x_config \<Rightarrow> ('d, 'b) gem_wine_process
    \<Rightarrow> gem_wine_status \<times> ('d, 'b) gem_wine_process option" where
  "finish_register W L k p = (if wac_flags k AND GEM_WINE_ARM64X_FLAG_DEFER_ROUTING \<noteq> 0 then (GEM_WINE_OK, Some p)
     else gem_wine_process_prepare_arm64ec W L (Some p))"

definition gem_wine_process_register_arm64x_mapped :: "('d, 'b) wine_parts \<Rightarrow> wine_locks \<Rightarrow> bool \<Rightarrow> (pe_block \<Rightarrow> bool) \<Rightarrow> bool
    \<Rightarrow> (pe_block \<Rightarrow> bool) \<Rightarrow> ('d, 'b) gem_wine_process option \<Rightarrow> gem_wine_arm64x_config option
    \<Rightarrow> gem_wine_status \<times> ('d, 'b) gem_wine_process option" where
  "gem_wine_process_register_arm64x_mapped W L ok alloc map_ok map_alloc po ko = (case (po, ko) of
      (Some p, Some k) \<Rightarrow>
       (if \<not> arm64x_config_ok k then (GEM_WINE_INVALID_ARGUMENT, po)
        else if \<not> ok then (GEM_WINE_NO_MEMORY, po)
        else (case parse_wine_image alloc map_ok map_alloc (wp_memory p) k (length (wp_images p)) of
           Inl status \<Rightarrow> (status, po)
         | Inr fresh \<Rightarrow>
            (if \<not> lk_images L then (GEM_WINE_ENGINE_ERROR, po)
             else (case find (overlaps fresh) (wp_images p) of
                Some old \<Rightarrow>
                 (if wac_loaded_base (wi_config old) = wac_loaded_base k \<and> wi_loaded_end old = wi_loaded_end fresh \<and>
                     wi_config old = wi_config fresh then finish_register W L k p else (GEM_WINE_CONFLICT, po))
              | None \<Rightarrow> finish_register W L k (p\<lparr>wp_images := fresh # wp_images p\<rparr>)))))
    | _ \<Rightarrow> (GEM_WINE_INVALID_ARGUMENT, po))"

section \<open>Calls on guest memory\<close>

text \<open>A call that is checked and handed to the memory.\<close>

definition on_process :: "('d, 'b) gem_wine_process option \<Rightarrow> (('d, 'b) gem_wine_process \<Rightarrow> bool)
    \<Rightarrow> (gem_memory option \<Rightarrow> gem_memory_error \<times> gem_memory option) \<Rightarrow> gem_wine_status \<times> ('d, 'b) gem_wine_process option" where
  "on_process po valid f = (case po of
      None \<Rightarrow> (GEM_WINE_INVALID_ARGUMENT, None)
    | Some p \<Rightarrow>
       (if \<not> valid p then (GEM_WINE_INVALID_ARGUMENT, po)
        else (case f (Some (wp_memory p)) of (e, mo) \<Rightarrow>
          (memory_status e, Some (p\<lparr>wp_memory := (case mo of None \<Rightarrow> wp_memory p | Some m \<Rightarrow> m)\<rparr>)))))"

definition gem_wine_process_reserve :: "('d, 'b) gem_wine_process option \<Rightarrow> u64 \<Rightarrow> u64 \<Rightarrow> gem_wine_status \<times> ('d, 'b) gem_wine_process option" where
  "gem_wine_process_reserve po a n = (case po of
      None \<Rightarrow> (GEM_WINE_INVALID_ARGUMENT, None)
    | Some p \<Rightarrow>
       (if a = 0 \<or> \<not> process_guest_range_valid p a n then (GEM_WINE_INVALID_ARGUMENT, po)
        else (case gem_memory_reserve (Some (wp_memory p)) (Some a) n of
          (e, ro, mo) \<Rightarrow>
           (let reserved = (case ro of None \<Rightarrow> a | Some r \<Rightarrow> r); keep = (\<lambda>mo. Some (p\<lparr>wp_memory := (case mo of None \<Rightarrow> wp_memory p | Some m \<Rightarrow> m)\<rparr>))
            in if e = GEM_MEMORY_OK \<and> reserved \<noteq> a then (GEM_WINE_MEMORY_ERROR, keep (snd (gem_memory_release mo reserved n)))
               else (memory_status e, keep mo)))))"

definition gem_wine_process_commit_identity :: "('d, 'b) gem_wine_process option \<Rightarrow> u64 \<Rightarrow> u64 \<Rightarrow> u64 \<Rightarrow> u32
    \<Rightarrow> gem_wine_status \<times> ('d, 'b) gem_wine_process option" where
  "gem_wine_process_commit_identity po a host n prot =
    on_process po (\<lambda>p. process_guest_range_valid p a n) (\<lambda>mo. gem_memory_commit_identity mo a host n prot)"

definition gem_wine_process_commit_i386_host :: "('d, 'b) gem_wine_process option \<Rightarrow> u32 \<Rightarrow> u64 \<Rightarrow> u64 \<Rightarrow> u32
    \<Rightarrow> gem_wine_status \<times> ('d, 'b) gem_wine_process option" where
  "gem_wine_process_commit_i386_host po a host n prot = on_process po (\<lambda>_. True) (\<lambda>mo. gem_i386_memory_commit_host mo a host n prot)"

definition gem_wine_process_decommit :: "('d, 'b) gem_wine_process option \<Rightarrow> u64 \<Rightarrow> u64 \<Rightarrow> gem_wine_status \<times> ('d, 'b) gem_wine_process option" where
  "gem_wine_process_decommit po a n = on_process po (\<lambda>p. process_guest_range_valid p a n) (\<lambda>mo. gem_memory_decommit mo a n)"

definition gem_wine_process_release :: "('d, 'b) gem_wine_process option \<Rightarrow> u64 \<Rightarrow> u64 \<Rightarrow> gem_wine_status \<times> ('d, 'b) gem_wine_process option" where
  "gem_wine_process_release po a n = on_process po (\<lambda>p. process_guest_range_valid p a n) (\<lambda>mo. gem_memory_release mo a n)"

definition gem_wine_process_map_identity :: "('d, 'b) gem_wine_process option \<Rightarrow> u64 \<Rightarrow> u64 \<Rightarrow> u64 \<Rightarrow> u32
    \<Rightarrow> gem_wine_status \<times> ('d, 'b) gem_wine_process option" where
  "gem_wine_process_map_identity po a host n prot =
    on_process po (\<lambda>p. process_guest_range_valid p a n) (\<lambda>mo. gem_memory_map_identity mo a host n prot)"

definition gem_wine_process_unmap :: "('d, 'b) gem_wine_process option \<Rightarrow> u64 \<Rightarrow> u64 \<Rightarrow> gem_wine_status \<times> ('d, 'b) gem_wine_process option" where
  "gem_wine_process_unmap po a n = on_process po (\<lambda>p. process_guest_range_valid p a n) (\<lambda>mo. gem_memory_unmap mo a n)"

text \<open>Protecting also gives \<open>*old_protection\<close> when it is written.\<close>

definition gem_wine_process_protect :: "('d, 'b) gem_wine_process option \<Rightarrow> u64 \<Rightarrow> u64 \<Rightarrow> u32
    \<Rightarrow> gem_wine_status \<times> u32 option \<times> ('d, 'b) gem_wine_process option" where
  "gem_wine_process_protect po a n prot = (case po of
      None \<Rightarrow> (GEM_WINE_INVALID_ARGUMENT, None, None)
    | Some p \<Rightarrow>
       (if \<not> process_guest_range_valid p a n then (GEM_WINE_INVALID_ARGUMENT, None, po)
        else (case gem_memory_protect (Some (wp_memory p)) a n prot of (e, old, mo) \<Rightarrow>
          (memory_status e, old, Some (p\<lparr>wp_memory := (case mo of None \<Rightarrow> wp_memory p | Some m \<Rightarrow> m)\<rparr>)))))"

definition gem_wine_process_bind_kuser :: "('d, 'b) gem_wine_process option \<Rightarrow> u64 \<Rightarrow> gem_wine_status \<times> ('d, 'b) gem_wine_process option" where
  "gem_wine_process_bind_kuser po host = on_process po (\<lambda>_. True) (\<lambda>mo. gem_memory_bind_kuser mo host)"

end
