(* ===== verification/Gem_Wine_Run.thy ===== *)
theory Gem_Wine_Run
  imports Gem_Wine
begin

text \<open>
  Threads of the bridge, src/gem/wine_bridge.c: creation and destruction, code invalidation, and the two loops
  that run a thread in segments and hand its stops to Wine's callback. The callback is code of the
  caller: a function of the environment that may call the bridge again and so returns a process.
\<close>

section \<open>Threads of a process\<close>

definition thread_at :: "('d, 'b) gem_wine_process \<Rightarrow> nat \<Rightarrow> ('d, 'b) gem_wine_thread option" where
  "thread_at p t = map_of (wp_threads p) t"

definition set_thread :: "nat \<Rightarrow> ('d, 'b) gem_wine_thread \<Rightarrow> ('d, 'b) gem_wine_process \<Rightarrow> ('d, 'b) gem_wine_process" where
  "set_thread t th p = p\<lparr>wp_threads := map (\<lambda>(u, old). (u, if u = t then th else old)) (wp_threads p)\<rparr>"

text \<open>The operations of the i386 engine go with the mode of the runtime.\<close>

definition wine_i386_ops :: "('d, 'b) wine_parts \<Rightarrow> 'b gem_i386_runtime \<Rightarrow> 'b gem_i386_engine_ops" where
  "wine_i386_ops W r = (if if_engine_mode (ir_config r) = GEM_I386_ENGINE_INTERPRETER then gem_i386_blink_interpreter_ops (wn_i386 W)
     else gem_i386_blink_jit_ops (wn_i386 W))"

definition invalidate_thread :: "('d, 'b) wine_parts \<Rightarrow> wine_locks \<Rightarrow> ('d, 'b) gem_wine_process \<Rightarrow> u64 \<Rightarrow> u64 \<Rightarrow> ('d, 'b) gem_wine_thread
    \<Rightarrow> ('d, 'b) gem_wine_thread" where
  "invalidate_thread W L p a n th =
    th\<lparr>wt_runtime := gem_arm64ec_runtime_invalidate_code (native_engine W L p) (wt_runtime th) a n,
       wt_x64_runtime := gem_x64_runtime_invalidate_code (wn_x64 W) (wt_x64_runtime th) a n,
       wt_i386_runtime := (case wt_i386_runtime th of
           None \<Rightarrow> None
         | Some r \<Rightarrow> if a \<le> 0xffffffff then gem_i386_runtime_invalidate_code (wine_i386_ops W r) (Some r) (ucast a) n else Some r),
       wt_hybrids := map (\<lambda>b. b\<lparr>hb_runtime := (case gem_hybrid_runtime_invalidate_code (wine_hybrid_parts W L p) (Some (hb_runtime b)) a n of
           None \<Rightarrow> hb_runtime b | Some y \<Rightarrow> y)\<rparr>) (wt_hybrids th)\<rparr>"

fun invalidate_threads :: "('d, 'b) wine_parts \<Rightarrow> wine_locks \<Rightarrow> ('d, 'b) gem_wine_process \<Rightarrow> u64 \<Rightarrow> u64
    \<Rightarrow> (nat \<times> ('d, 'b) gem_wine_thread) list \<Rightarrow> bool \<times> (nat \<times> ('d, 'b) gem_wine_thread) list" where
  "invalidate_threads W L p a n [] = (True, [])"
| "invalidate_threads W L p a n ((t, th) # ts) =
    (if \<not> lk_runtime L t then (False, (t, th) # ts)
     else (case invalidate_threads W L p a n ts of (ok, ts') \<Rightarrow> (ok, (t, invalidate_thread W L p a n th) # ts')))"

definition gem_wine_process_invalidate_code :: "('d, 'b) wine_parts \<Rightarrow> wine_locks \<Rightarrow> ('d, 'b) gem_wine_process option \<Rightarrow> u64 \<Rightarrow> u64
    \<Rightarrow> gem_wine_status \<times> ('d, 'b) gem_wine_process option" where
  "gem_wine_process_invalidate_code W L po a n = (case po of
      None \<Rightarrow> (GEM_WINE_INVALID_ARGUMENT, None)
    | Some p \<Rightarrow>
       (if \<not> process_guest_range_valid p a n then (GEM_WINE_INVALID_ARGUMENT, po)
        else if \<not> lk_threads L then (GEM_WINE_ENGINE_ERROR, po)
        else (case invalidate_threads W L p a n (wp_threads p) of (ok, ts) \<Rightarrow>
          (if ok then GEM_WINE_OK else GEM_WINE_ENGINE_ERROR, Some (p\<lparr>wp_threads := ts\<rparr>)))))"

definition ensure_x86_64_runtime :: "('d, 'b) wine_parts \<Rightarrow> bool \<Rightarrow> ('d, 'b) gem_wine_process \<Rightarrow> ('d, 'b) gem_wine_thread
    \<Rightarrow> bool \<times> ('d, 'b) gem_wine_thread" where
  "ensure_x86_64_runtime W ok p th =
    (if wt_x64_runtime th \<noteq> None then (True, th)
     else if \<not> wp_x86_64_routing_enabled p then (False, th)
     else (let k = wp_x86_64_config p;
               r = gem_x64_runtime_create (wn_x64 W) ok (Some (wp_memory p)) (Some (x64_config_default\<lparr>
                 xf_host_return_sentinel := wpc_host_return_sentinel (wp_config p),
                 xf_max_budget := wpc_segment_instruction_budget (wp_config p),
                 xf_windows_syscall_boundary := wxc_windows_syscall_boundary k, xf_unix_call_boundary := wxc_unix_call_boundary k,
                 xf_engine_mode := (if wxc_flags k AND GEM_WINE_X86_64_FLAG_INTERPRETER_ORACLE \<noteq> 0 then GEM_X86_64_ENGINE_INTERPRETER
                   else GEM_X86_64_ENGINE_JIT)\<rparr>))
       in (r \<noteq> None, th\<lparr>wt_x64_runtime := r\<rparr>)))"

text \<open>What a creation can get: the thread, its locks with their attribute, its engine.\<close>

record thread_allocations =
  ta_thread :: bool
  ta_attribute :: bool
  ta_run_lock :: bool
  ta_runtime_lock :: bool
  ta_runtime :: bool

definition zero_thread :: "('d, 'b) gem_wine_thread" where
  "zero_thread = \<lparr>wt_runtime = None, wt_x64_runtime = None, wt_i386_runtime = None, wt_hybrids = [], wt_coordinator_hybrid = None,
     wt_active_hybrid = None, wt_config = zero_thread_config, wt_i386_config = zero_i386_thread_config, wt_i386_thread = False,
     wt_run_lock = None\<rparr>"

definition add_thread :: "('d, 'b) gem_wine_thread \<Rightarrow> ('d, 'b) gem_wine_process \<Rightarrow> ('d, 'b) gem_wine_process" where
  "add_thread th p = p\<lparr>wp_threads := (wp_next p, th) # wp_threads p, wp_next := Suc (wp_next p)\<rparr>"

text \<open>The status, \<open>*out_thread\<close>, and the process; a null process is not distinguished from the other null arguments.\<close>

definition gem_wine_thread_create :: "('d, 'b) wine_parts \<Rightarrow> wine_locks \<Rightarrow> thread_allocations \<Rightarrow> ('d, 'b) gem_wine_process option
    \<Rightarrow> gem_wine_thread_config option \<Rightarrow> bool \<Rightarrow> gem_wine_status \<times> nat option \<times> ('d, 'b) gem_wine_process option" where
  "gem_wine_thread_create W L A po ko out = (case (po, ko) of
      (Some p, Some k) \<Rightarrow>
       (if \<not> out \<or> wp_i386_routing_enabled p \<or> wtc_version k \<noteq> GEM_WINE_THREAD_CONFIG_VERSION \<or> wtc_struct_size k \<noteq> 64 \<or> wtc_teb k = 0 \<or>
           \<not> zero_words (wtc_reserved k) then (GEM_WINE_INVALID_ARGUMENT, None, po)
        else if \<not> ta_thread A then (GEM_WINE_NO_MEMORY, None, po)
        else if \<not> ta_attribute A \<or> \<not> ta_run_lock A \<or> \<not> ta_runtime_lock A then (GEM_WINE_ENGINE_ERROR, None, po)
        else (case gem_arm64ec_runtime_create (native_engine W L p) (ta_runtime A) (Some (wp_memory p)) (Some (arm64ec_config_default\<lparr>
              af_host_return_sentinel := wpc_host_return_sentinel (wp_config p), af_max_budget := wpc_segment_instruction_budget (wp_config p),
              af_execution_profile := GEM_ARM64EC_PROFILE_NATIVE_ARM64\<rparr>)) of
           None \<Rightarrow> (GEM_WINE_ENGINE_ERROR, None, po)
         | Some r \<Rightarrow>
            (if \<not> lk_threads L then (GEM_WINE_ENGINE_ERROR, None, po)
             else (case (if wp_arm64x_routing_enabled p
                         then gem_arm64ec_runtime_set_boundary_broker (Some r) (wn_native_image_boundary W) (wn_thread W (wp_next p))
                         else (True, Some r)) of
                (False, _) \<Rightarrow> (GEM_WINE_ENGINE_ERROR, None, po)
              | (True, ro) \<Rightarrow> (GEM_WINE_OK, Some (wp_next p), Some (add_thread (zero_thread\<lparr>wt_config := k, wt_runtime := ro\<rparr>) p))))))
    | _ \<Rightarrow> (GEM_WINE_INVALID_ARGUMENT, None, po))"

definition gem_wine_i386_thread_create :: "('d, 'b) wine_parts \<Rightarrow> wine_locks \<Rightarrow> thread_allocations \<Rightarrow> ('d, 'b) gem_wine_process option
    \<Rightarrow> gem_wine_i386_thread_config option \<Rightarrow> bool \<Rightarrow> gem_wine_status \<times> nat option \<times> ('d, 'b) gem_wine_process option" where
  "gem_wine_i386_thread_create W L A po ko out = (case (po, ko) of
      (Some p, Some k) \<Rightarrow>
       (if \<not> out \<or> \<not> wp_i386_routing_enabled p \<or> wjc_version k \<noteq> GEM_WINE_I386_THREAD_CONFIG_VERSION \<or> wjc_struct_size k \<noteq> 64 \<or>
           wjc_teb k = 0 \<or> wjc_reserved0 k \<noteq> 0 \<or> \<not> zero_words (wjc_reserved k) then (GEM_WINE_INVALID_ARGUMENT, None, po)
        else if \<not> ta_thread A then (GEM_WINE_NO_MEMORY, None, po)
        else if \<not> ta_run_lock A \<or> \<not> ta_runtime_lock A then (GEM_WINE_ENGINE_ERROR, None, po)
        else (let j = wp_i386_config p
          in case gem_i386_runtime_create (wn_i386 W) (ta_runtime A) (Some (wp_memory p)) (Some (i386_config_default\<lparr>
              if_host_return_sentinel := wic_host_return_sentinel j, if_windows_syscall_boundary := wic_windows_syscall_boundary j,
              if_unix_call_boundary := wic_unix_call_boundary j, if_max_budget := wpc_segment_instruction_budget (wp_config p),
              if_engine_mode := (if wic_flags j AND GEM_WINE_I386_FLAG_INTERPRETER_ORACLE \<noteq> 0 then GEM_I386_ENGINE_INTERPRETER
                else GEM_I386_ENGINE_JIT)\<rparr>)) of
           None \<Rightarrow> (GEM_WINE_ENGINE_ERROR, None, po)
         | Some r \<Rightarrow>
            (if \<not> lk_threads L then (GEM_WINE_ENGINE_ERROR, None, po)
             else (GEM_WINE_OK, Some (wp_next p),
               Some (add_thread (zero_thread\<lparr>wt_i386_config := k, wt_i386_thread := True, wt_i386_runtime := Some r\<rparr>) p)))))
    | _ \<Rightarrow> (GEM_WINE_INVALID_ARGUMENT, None, po))"

text \<open>
  The run lock is recursive except for i386 threads. \<open>me\<close> is the calling host thread; the result is the lock
  when it could be taken.
\<close>

definition run_trylock :: "nat \<Rightarrow> ('d, 'b) gem_wine_thread \<Rightarrow> (nat \<times> nat) option" where
  "run_trylock me th = (case wt_run_lock th of
      None \<Rightarrow> Some (me, 1)
    | Some (owner, n) \<Rightarrow> if \<not> wt_i386_thread th \<and> owner = me then Some (me, Suc n) else None)"

definition unlock_run_lock :: "nat \<Rightarrow> ('d, 'b) gem_wine_process \<Rightarrow> ('d, 'b) gem_wine_process option" where
  "unlock_run_lock t p = (case thread_at p t of
      None \<Rightarrow> None
    | Some th \<Rightarrow> Some (set_thread t (th\<lparr>wt_run_lock := (case wt_run_lock th of
         None \<Rightarrow> None | Some (owner, n) \<Rightarrow> if n \<le> 1 then None else Some (owner, n - 1))\<rparr>) p))"

text \<open>A thread that is not on the list is answered with a conflict; the source reads its process first.\<close>

definition gem_wine_thread_destroy :: "wine_locks \<Rightarrow> nat \<Rightarrow> ('d, 'b) gem_wine_process \<Rightarrow> nat option
    \<Rightarrow> gem_wine_status \<times> ('d, 'b) gem_wine_process" where
  "gem_wine_thread_destroy L me p to = (case to of
      None \<Rightarrow> (GEM_WINE_INVALID_ARGUMENT, p)
    | Some t \<Rightarrow>
       (if \<not> lk_threads L then (GEM_WINE_ENGINE_ERROR, p)
        else (case thread_at p t of
           None \<Rightarrow> (GEM_WINE_CONFLICT, p)
         | Some th \<Rightarrow>
            (if run_trylock me th = None then (GEM_WINE_CONFLICT, p)
             else (GEM_WINE_OK, p\<lparr>wp_threads := filter (\<lambda>(u, _). u \<noteq> t) (wp_threads p)\<rparr>)))))"

text \<open>From here on \<open>None\<close> stands for the use of a thread that was destroyed, or for a call that does not end.\<close>

definition gem_wine_thread_set_native_upper_simd :: "wine_locks \<Rightarrow> ('d, 'b) gem_wine_process \<Rightarrow> nat option \<Rightarrow> gem_u128 list option
    \<Rightarrow> (gem_wine_status \<times> ('d, 'b) gem_wine_process) option" where
  "gem_wine_thread_set_native_upper_simd L p to vectors = (case to of
      None \<Rightarrow> Some (GEM_WINE_INVALID_ARGUMENT, p)
    | Some t \<Rightarrow>
       (case thread_at p t of
          None \<Rightarrow> None
        | Some th \<Rightarrow>
           (if vectors = None \<or> wt_i386_thread th then Some (GEM_WINE_INVALID_ARGUMENT, p)
            else if \<not> lk_runtime L t then Some (GEM_WINE_ENGINE_ERROR, p)
            else (case gem_arm64ec_runtime_set_native_upper_simd (wt_runtime th) vectors of (accepted, r) \<Rightarrow>
              Some (if accepted then GEM_WINE_OK else GEM_WINE_CONFLICT, set_thread t (th\<lparr>wt_runtime := r\<rparr>) p)))))"

definition gem_wine_thread_get_native_upper_simd :: "wine_locks \<Rightarrow> ('d, 'b) gem_wine_process \<Rightarrow> nat option \<Rightarrow> gem_u128 list option
    \<Rightarrow> (gem_wine_status \<times> gem_u128 list option) option" where
  "gem_wine_thread_get_native_upper_simd L p to vectors = (case to of
      None \<Rightarrow> Some (GEM_WINE_INVALID_ARGUMENT, vectors)
    | Some t \<Rightarrow>
       (case thread_at p t of
          None \<Rightarrow> None
        | Some th \<Rightarrow>
           (if vectors = None \<or> wt_i386_thread th then Some (GEM_WINE_INVALID_ARGUMENT, vectors)
            else if \<not> lk_runtime L t then Some (GEM_WINE_ENGINE_ERROR, vectors)
            else (case gem_arm64ec_runtime_get_native_upper_simd (wt_runtime th) vectors of (accepted, vs) \<Rightarrow>
              Some (if accepted then GEM_WINE_OK else GEM_WINE_CONFLICT, vs)))))"

definition on_binding :: "nat \<Rightarrow> (('d, 'b) gem_hybrid_runtime \<Rightarrow> ('d, 'b) gem_hybrid_runtime) \<Rightarrow> ('d, 'b) gem_wine_hybrid_binding list
    \<Rightarrow> ('d, 'b) gem_wine_hybrid_binding list" where
  "on_binding n f bs = map (\<lambda>b. if hb_image b = n then b\<lparr>hb_runtime := f (hb_runtime b)\<rparr> else b) bs"

definition gem_wine_thread_request_async_stop :: "('d, 'b) wine_parts \<Rightarrow> wine_locks \<Rightarrow> ('d, 'b) gem_wine_process \<Rightarrow> nat option
    \<Rightarrow> ('d, 'b) gem_wine_process option" where
  "gem_wine_thread_request_async_stop W L p to = (case to of
      None \<Rightarrow> Some p
    | Some t \<Rightarrow>
       (case thread_at p t of
          None \<Rightarrow> None
        | Some th \<Rightarrow> Some (set_thread t (th\<lparr>
            wt_hybrids := (case wt_active_hybrid th of
                None \<Rightarrow> wt_hybrids th
              | Some n \<Rightarrow> on_binding n (\<lambda>y. case gem_hybrid_runtime_request_async_stop (Some y) of None \<Rightarrow> y | Some y' \<Rightarrow> y') (wt_hybrids th)),
            wt_x64_runtime := gem_x64_runtime_request_async_stop (wt_x64_runtime th),
            wt_i386_runtime := gem_i386_runtime_request_async_stop (wt_i386_runtime th),
            wt_runtime := gem_arm64ec_runtime_request_async_stop (native_engine W L p) (wt_runtime th)\<rparr>) p)))"

section \<open>Stops\<close>

definition context_valid_for_thread :: "('d, 'b) gem_wine_thread \<Rightarrow> gem_thread_context option \<Rightarrow> bool" where
  "context_valid_for_thread th co = (case co of
      None \<Rightarrow> False
    | Some c \<Rightarrow> gem_context_is_valid c \<and> reserved0 c = 0 \<and> stop_reason c \<le> stop_code GEM_STOP_INVARIANT_VIOLATION \<and>
        (isa c = isa_code GEM_ISA_ARM64EC \<or> isa c = isa_code GEM_ISA_X64) \<and> teb c = wtc_teb (wt_config th) \<and>
        x c ! 18 = wtc_teb (wt_config th))"

definition initialize_result :: gem_wine_run_result where
  "initialize_result = \<lparr>wr_version = GEM_WINE_RUN_RESULT_VERSION, wr_struct_size = 88, wr_outcome = GEM_WINE_RUN_FAILED, wr_last_event = 0,
     wr_stop_reason = 0, wr_exit_status = 0, wr_instructions_retired = 0, wr_boundary_callbacks = 0, wr_reserved = 0,
     wr_stop = zero_wine_stop\<rparr>"

definition copy_stop_info :: "gem_arm64ec_stop_info \<Rightarrow> gem_wine_stop_info" where
  "copy_stop_info s = zero_wine_stop\<lparr>ws_reason := stop_code (as_reason s), ws_access := as_access s, ws_memory_error := as_memory_error s,
     ws_engine_status := as_engine_status s, ws_instructions_retired := as_instructions_retired s, ws_fault_address := as_fault_address s\<rparr>"

definition copy_x64_stop_info :: "gem_x64_stop_info \<Rightarrow> gem_wine_stop_info" where
  "copy_x64_stop_info s = zero_wine_stop\<lparr>ws_reason := stop_code (xs_reason s), ws_access := xs_access s, ws_memory_error := xs_memory_error s,
     ws_engine_status := xs_engine_status s, ws_instructions_retired := xs_instructions_retired s, ws_fault_address := xs_fault_address s\<rparr>"

definition copy_i386_stop_info :: "gem_i386_stop_info \<Rightarrow> gem_wine_stop_info" where
  "copy_i386_stop_info s = zero_wine_stop\<lparr>ws_reason := stop_code (is_reason s), ws_access := is_access s, ws_memory_error := is_memory_error s,
     ws_engine_status := is_engine_status s, ws_instructions_retired := ucast (is_instructions_retired s),
     ws_fault_address := ucast (is_fault_address s)\<rparr>"

text \<open>The three sources are all there are, so the copy always succeeds.\<close>

definition copy_hybrid_stop_info :: "gem_hybrid_stop_info \<Rightarrow> u64 \<Rightarrow> gem_wine_stop_info" where
  "copy_hybrid_stop_info s retired =
    (let d = zero_wine_stop\<lparr>ws_reason := stop_code (hs_reason s), ws_instructions_retired := retired\<rparr>
     in case hs_source s of
       GEM_HYBRID_STOP_SOURCE_ARM64EC \<Rightarrow> d\<lparr>ws_access := as_access (hs_arm64ec s), ws_memory_error := as_memory_error (hs_arm64ec s),
         ws_engine_status := as_engine_status (hs_arm64ec s), ws_fault_address := as_fault_address (hs_arm64ec s)\<rparr>
     | GEM_HYBRID_STOP_SOURCE_X64 \<Rightarrow> d\<lparr>ws_access := xs_access (hs_x64 s), ws_memory_error := xs_memory_error (hs_x64 s),
         ws_engine_status := xs_engine_status (hs_x64 s), ws_fault_address := xs_fault_address (hs_x64 s)\<rparr>
     | GEM_HYBRID_STOP_SOURCE_BROKER \<Rightarrow> d\<lparr>ws_engine_status := as_engine_status (hs_arm64ec s), ws_fault_address := as_fault_address (hs_arm64ec s)\<rparr>)"

definition GEM_ARM64EC_ACCESS_FETCH :: u32 where "GEM_ARM64EC_ACCESS_FETCH = 1"

definition classify_event :: "gem_wine_process_config \<Rightarrow> gem_stop_reason \<Rightarrow> gem_thread_context \<Rightarrow> gem_wine_stop_info
    \<Rightarrow> gem_wine_boundary_event" where
  "classify_event k reason c stop = (case reason of
      GEM_STOP_SYSCALL \<Rightarrow> (if ws_engine_status stop = GEM_WINE_NATIVE_UNIX_CALL_SVC \<or> ws_engine_status stop = GEM_X64_BOUNDARY_UNIX_CALL
         then GEM_WINE_EVENT_UNIX_CALL else GEM_WINE_EVENT_SYSCALL)
    | GEM_STOP_MEMORY_FAULT \<Rightarrow> (if wpc_unix_call_dispatcher k \<noteq> 0 \<and> pc c = wpc_unix_call_dispatcher k \<and>
           ws_fault_address stop = wpc_unix_call_dispatcher k \<and> ws_access stop = GEM_ARM64EC_ACCESS_FETCH
         then GEM_WINE_EVENT_UNIX_CALL else GEM_WINE_EVENT_MEMORY_FAULT)
    | GEM_STOP_WINDOWS_EXCEPTION \<Rightarrow> GEM_WINE_EVENT_WINDOWS_EXCEPTION
    | GEM_STOP_ARCH_TRANSITION \<Rightarrow> GEM_WINE_EVENT_ARCH_TRANSITION
    | GEM_STOP_ASYNC_REQUEST \<Rightarrow> GEM_WINE_EVENT_ASYNC_REQUEST
    | GEM_STOP_UNSUPPORTED_INSTRUCTION \<Rightarrow> GEM_WINE_EVENT_UNSUPPORTED_INSTRUCTION
    | _ \<Rightarrow> GEM_WINE_EVENT_INVARIANT_VIOLATION)"

definition classify_i386_event :: "gem_stop_reason \<Rightarrow> gem_wine_stop_info \<Rightarrow> gem_wine_boundary_event" where
  "classify_i386_event reason stop = (case reason of
      GEM_STOP_SYSCALL \<Rightarrow> (if ws_engine_status stop = GEM_I386_BOUNDARY_UNIX_CALL then GEM_WINE_EVENT_UNIX_CALL else GEM_WINE_EVENT_SYSCALL)
    | GEM_STOP_MEMORY_FAULT \<Rightarrow> GEM_WINE_EVENT_MEMORY_FAULT
    | GEM_STOP_WINDOWS_EXCEPTION \<Rightarrow> GEM_WINE_EVENT_WINDOWS_EXCEPTION
    | GEM_STOP_ASYNC_REQUEST \<Rightarrow> GEM_WINE_EVENT_ASYNC_REQUEST
    | GEM_STOP_UNSUPPORTED_INSTRUCTION \<Rightarrow> GEM_WINE_EVENT_UNSUPPORTED_INSTRUCTION
    | _ \<Rightarrow> GEM_WINE_EVENT_INVARIANT_VIOLATION)"

end
