(* ===== verification/Gem_Wine_Loop.thy ===== *)
theory Gem_Wine_Loop
  imports Gem_Wine_Run
begin

text \<open>
  The runs of src/gem/wine_bridge.c. A turn of the loop runs one segment on the engine that the program counter
  and the instruction set ask for, counts what it retired, and goes on, hands the stop to Wine, or ends.
\<close>

section \<open>The environment of a run\<close>

text \<open>
  What comes from outside, by the number of the turn: locks, allocations, what reaches the engines, the
  callback (its address and argument, the request, the response as it is set up, and the process) and the
  number of quanta that an i386 segment takes at most.
\<close>

record ('d, 'b) wine_environment =
  wv_locks :: "nat \<Rightarrow> wine_locks"
  wv_binding :: "nat \<Rightarrow> bool"
  wv_allocations :: "nat \<Rightarrow> hybrid_allocations"
  wv_x64_alloc :: "nat \<Rightarrow> bool"
  wv_hybrid :: "nat \<Rightarrow> hybrid_environment"
  wv_x64 :: "nat \<Rightarrow> x64_environment"
  wv_i386 :: "nat \<Rightarrow> i386_environment"
  wv_quanta :: "nat \<Rightarrow> nat"
  wv_callback :: "nat \<Rightarrow> u64 \<Rightarrow> u64 \<Rightarrow> gem_thread_context gem_wine_boundary_request \<Rightarrow> gem_thread_context gem_wine_boundary_response
    \<Rightarrow> ('d, 'b) gem_wine_process \<Rightarrow> gem_wine_status \<times> gem_thread_context gem_wine_boundary_response \<times> ('d, 'b) gem_wine_process"
  wv_i386_callback :: "nat \<Rightarrow> u64 \<Rightarrow> u64 \<Rightarrow> gem_i386_context gem_wine_boundary_request \<Rightarrow> gem_i386_context gem_wine_boundary_response
    \<Rightarrow> ('d, 'b) gem_wine_process \<Rightarrow> gem_wine_status \<times> gem_i386_context gem_wine_boundary_response \<times> ('d, 'b) gem_wine_process"

section \<open>Segments\<close>

definition wine_hybrid_config :: "('d, 'b) wine_parts \<Rightarrow> ('d, 'b) gem_wine_process \<Rightarrow> gem_wine_arm64x_config \<Rightarrow> gem_hybrid_runtime_config" where
  "wine_hybrid_config W p k = \<lparr>hc_version = GEM_HYBRID_RUNTIME_CONFIG_VERSION,
     hc_boundary_delivery = (if wac_flags k AND GEM_WINE_ARM64X_FLAG_SVC_BOUNDARIES \<noteq> 0 then GEM_ARM64EC_BOUNDARY_SVC_TRAP
       else GEM_ARM64EC_BOUNDARY_PRECISE),
     hc_loaded_base = wac_loaded_base k, hc_checker_helper = wac_checker_helper k, hc_dispatch_call_helper = wac_dispatch_call_helper k,
     hc_dispatch_jump_helper = wac_dispatch_jump_helper k, hc_dispatch_ret_helper = wac_dispatch_ret_helper k,
     hc_x64_return_sentinel = - 1 - 31, hc_host_return_sentinel = wpc_host_return_sentinel (wp_config p),
     hc_max_budget = wpc_segment_instruction_budget (wp_config p), hc_target_resolver = wn_process_target_resolve W,
     hc_target_resolver_opaque = wn_process W\<rparr>"

text \<open>The binding, by the number of its image.\<close>

definition find_or_create_hybrid :: "('d, 'b) wine_parts \<Rightarrow> wine_locks \<Rightarrow> bool \<Rightarrow> hybrid_allocations \<Rightarrow> ('d, 'b) gem_wine_process
    \<Rightarrow> gem_wine_arm64x_image \<Rightarrow> ('d, 'b) gem_wine_thread \<Rightarrow> nat option \<times> ('d, 'b) gem_wine_thread" where
  "find_or_create_hybrid W L ok A p i th =
    (if list_ex (\<lambda>b. hb_image b = wi_number i) (wt_hybrids th) then (Some (wi_number i), th)
     else if \<not> ok then (None, th)
     else (case gem_hybrid_runtime_create (wine_hybrid_parts W L p) A (Some (wp_memory p)) (Some (wi_metadata i))
              (Some (wine_hybrid_config W p (wi_config i))) of
        None \<Rightarrow> (None, th)
      | Some y \<Rightarrow> (Some (wi_number i), th\<lparr>wt_hybrids := \<lparr>hb_image = wi_number i, hb_runtime = y\<rparr> # wt_hybrids th\<rparr>)))"

text \<open>
  What a segment leaves: the process, the context, and the reason and stop unless the bridge gives up with an
  engine error. \<open>None\<close> is a segment that does not end.
\<close>

type_synonym ('d, 'b, 'c) segment_end = "(('d, 'b) gem_wine_process \<times> 'c \<times> (gem_stop_reason \<times> gem_wine_stop_info) option) option"

definition hybrid_segment :: "('d, 'b) wine_parts \<Rightarrow> wine_locks \<Rightarrow> hybrid_environment \<Rightarrow> ('d, 'b) gem_wine_process \<Rightarrow> nat
    \<Rightarrow> ('d, 'b) gem_wine_thread \<Rightarrow> nat \<Rightarrow> gem_thread_context \<Rightarrow> u64 \<Rightarrow> ('d, 'b, gem_thread_context) segment_end" where
  "hybrid_segment W L V p t th b c budget = (case find (\<lambda>x. hb_image x = b) (wt_hybrids th) of
      None \<Rightarrow> None
    | Some bind \<Rightarrow>
       (case gem_hybrid_runtime_run (wine_hybrid_parts W L p) V (Some (hb_runtime bind)) (wp_memory p) (Some c) budget of
          None \<Rightarrow> None
        | Some (reason, yo, m, co, st) \<Rightarrow>
           (let y = (case yo of None \<Rightarrow> hb_runtime bind | Some y \<Rightarrow> y); c = (case co of None \<Rightarrow> c | Some c \<Rightarrow> c);
                th = th\<lparr>wt_hybrids := on_binding b (\<lambda>_. y) (wt_hybrids th), wt_active_hybrid := None\<rparr>;
                retired = st_arm64ec_instructions_retired st + st_x64_instructions_retired st
            in case gem_hybrid_runtime_last_stop_info (Some y) (Some zero_hybrid_stop) of
                 (True, Some stop) \<Rightarrow> Some (set_thread t (if gem_hybrid_runtime_coordinator_active (Some y) then th
                     else th\<lparr>wt_coordinator_hybrid := None\<rparr>) (p\<lparr>wp_memory := m\<rparr>), c, Some (reason, copy_hybrid_stop_info stop retired))
               | _ \<Rightarrow> Some (set_thread t th (p\<lparr>wp_memory := m\<rparr>), c, None))))"

definition x64_segment :: "('d, 'b) wine_parts \<Rightarrow> bool \<Rightarrow> x64_environment \<Rightarrow> ('d, 'b) gem_wine_process \<Rightarrow> nat
    \<Rightarrow> ('d, 'b) gem_wine_thread \<Rightarrow> gem_thread_context \<Rightarrow> u64 \<Rightarrow> ('d, 'b, gem_thread_context) segment_end" where
  "x64_segment W ok E p t th c budget = (case ensure_x86_64_runtime W ok p th of
      (False, th) \<Rightarrow> Some (set_thread t th p, c, None)
    | (True, th) \<Rightarrow>
       (case gem_x64_runtime_run (wn_x64 W) E (wt_x64_runtime th) (wp_memory p) (Some c) budget of
          (reason, ro, m, co) \<Rightarrow>
           (let p = set_thread t (th\<lparr>wt_x64_runtime := ro\<rparr>) (p\<lparr>wp_memory := m\<rparr>); c = (case co of None \<Rightarrow> c | Some c \<Rightarrow> c)
            in case gem_x64_runtime_last_stop_info ro (Some zero_stop) of
                 (True, Some stop) \<Rightarrow> Some (p, c, Some (reason, copy_x64_stop_info stop))
               | _ \<Rightarrow> Some (p, c, None))))"

definition native_segment :: "('d, 'b) wine_parts \<Rightarrow> wine_locks \<Rightarrow> ('d, 'b) gem_wine_process \<Rightarrow> nat
    \<Rightarrow> ('d, 'b) gem_wine_thread \<Rightarrow> gem_thread_context \<Rightarrow> u64 \<Rightarrow> ('d, 'b, gem_thread_context) segment_end" where
  "native_segment W L p t th c budget =
    (if isa c \<noteq> isa_code GEM_ISA_ARM64EC then Some (set_thread t th p, c, None)
     else (case gem_arm64ec_runtime_run (native_engine W L p) (wt_runtime th) (wp_memory p) (Some c) budget of
        (reason, ro, m, co) \<Rightarrow>
         (let p = set_thread t (th\<lparr>wt_runtime := ro\<rparr>) (p\<lparr>wp_memory := m\<rparr>); c = (case co of None \<Rightarrow> c | Some c \<Rightarrow> c)
          in case gem_arm64ec_runtime_last_stop_info ro (Some (zero_arm64ec_stop GEM_STOP_NONE)) of
               (True, Some stop) \<Rightarrow> Some (p, c, Some (reason, copy_stop_info stop))
             | _ \<Rightarrow> Some (p, c, None))))"

text \<open>The binding of the segment: the coordinator's, or else that of the image at the program counter.\<close>

definition choose_hybrid :: "('d, 'b) wine_parts \<Rightarrow> ('d, 'b) wine_environment \<Rightarrow> nat \<Rightarrow> ('d, 'b) gem_wine_process
    \<Rightarrow> ('d, 'b) gem_wine_thread \<Rightarrow> gem_thread_context \<Rightarrow> nat option \<times> ('d, 'b) gem_wine_thread" where
  "choose_hybrid W V n p th c =
    (case wt_coordinator_hybrid th of
       Some b \<Rightarrow> (Some b, th)
     | None \<Rightarrow>
        (case (if wp_arm64x_routing_enabled p then find_image_for_pc (lk_images (wv_locks V n)) (wp_images p) (pc c) else None) of
           None \<Rightarrow> (None, th)
         | Some i \<Rightarrow> (case find_or_create_hybrid W (wv_locks V n) (wv_binding V n) (wv_allocations V n) p i th of
              (b, th) \<Rightarrow> (b, th\<lparr>wt_coordinator_hybrid := b\<rparr>))))"

definition wine_segment :: "('d, 'b) wine_parts \<Rightarrow> ('d, 'b) wine_environment \<Rightarrow> nat \<Rightarrow> ('d, 'b) gem_wine_process \<Rightarrow> nat
    \<Rightarrow> ('d, 'b) gem_wine_thread \<Rightarrow> gem_thread_context \<Rightarrow> u64 \<Rightarrow> bool \<times> ('d, 'b, gem_thread_context) segment_end" where
  "wine_segment W V n p t th c budget = (case choose_hybrid W V n p th c of
      (Some b, th) \<Rightarrow> (True, hybrid_segment W (wv_locks V n) (wv_hybrid V n) p t th b c budget)
    | (None, th) \<Rightarrow> (False, if isa c = isa_code GEM_ISA_X64 \<and> wp_x86_64_routing_enabled p
        then x64_segment W (wv_x64_alloc V n) (wv_x64 V n) p t th c budget
        else native_segment W (wv_locks V n) p t th c budget))"

section \<open>The callback\<close>

type_synonym ('d, 'b, 'c) wine_state = "('d, 'b) gem_wine_process \<times> 'c \<times> gem_wine_run_result"
type_synonym ('d, 'b, 'c) wine_end = "gem_wine_status \<times> ('d, 'b) gem_wine_process \<times> 'c \<times> gem_wine_run_result"

definition boundary_request :: "gem_wine_boundary_event \<Rightarrow> u32 \<Rightarrow> 'c \<Rightarrow> gem_wine_stop_info \<Rightarrow> 'c gem_wine_boundary_request" where
  "boundary_request event bytes c stop = \<lparr>wq_version = GEM_WINE_BOUNDARY_ABI_VERSION, wq_struct_size = bytes, wq_event = event_code event,
     wq_reserved = 0, wq_context = c, wq_stop = stop\<rparr>"

definition empty_response :: "u32 \<Rightarrow> 'c \<Rightarrow> 'c gem_wine_boundary_response" where
  "empty_response bytes c = \<lparr>wa_version = GEM_WINE_BOUNDARY_ABI_VERSION, wa_struct_size = bytes, wa_action = 0, wa_exit_status = 0, wa_context = c\<rparr>"

text \<open>The upper vector registers of the native engine, put back after a callback that is not accepted.\<close>

definition restore_simd :: "nat \<Rightarrow> bool \<Rightarrow> gem_u128 list option \<Rightarrow> ('d, 'b) gem_wine_process \<Rightarrow> ('d, 'b) gem_wine_process option" where
  "restore_simd t arm before p =
    (if \<not> arm then Some p
     else (case thread_at p t of
        None \<Rightarrow> None
      | Some th \<Rightarrow> Some (set_thread t (th\<lparr>wt_runtime := snd (gem_arm64ec_runtime_set_native_upper_simd (wt_runtime th) before)\<rparr>) p)))"

text \<open>The context that a response proposes, with the coordinator's own fields kept.\<close>

definition proposed_context :: "gem_thread_context \<Rightarrow> gem_thread_context gem_wine_boundary_response \<Rightarrow> gem_thread_context" where
  "proposed_context c a = (wa_context a)\<lparr>transition_cookie := transition_cookie c, original_x64_sp := original_x64_sp c\<rparr>"

definition resumes :: "('d, 'b) gem_wine_thread \<Rightarrow> gem_wine_boundary_event \<Rightarrow> gem_thread_context \<Rightarrow> gem_thread_context gem_wine_boundary_response \<Rightarrow> bool" where
  "resumes th event c a \<longleftrightarrow> (let c' = proposed_context c a in wa_action a = GEM_WINE_BOUNDARY_RESUME \<and> context_valid_for_thread th (Some c') \<and>
     stop_reason c' = stop_code GEM_STOP_NONE \<and>
     \<not> ((event = GEM_WINE_EVENT_SYSCALL \<or> event = GEM_WINE_EVENT_UNIX_CALL) \<and> pc c' = pc c))"

definition wine_boundary :: "('d, 'b) wine_environment \<Rightarrow> nat \<Rightarrow> nat \<Rightarrow> ('d, 'b) gem_wine_thread \<Rightarrow> gem_wine_boundary_event \<Rightarrow> gem_wine_stop_info
    \<Rightarrow> ('d, 'b, gem_thread_context) wine_state \<Rightarrow> (('d, 'b, gem_thread_context) wine_end + ('d, 'b, gem_thread_context) wine_state) option" where
  "wine_boundary V n t th event stop = (\<lambda>(p, c, r).
    (let arm = (isa c = isa_code GEM_ISA_ARM64EC);
         (known, before) = gem_arm64ec_runtime_get_native_upper_simd (wt_runtime th) (Some (replicate 16 zero_u128))
     in if arm \<and> \<not> known then Some (Inl (GEM_WINE_ENGINE_ERROR, p, c, r\<lparr>wr_outcome := GEM_WINE_RUN_FAILED\<rparr>))
     else (let r = r\<lparr>wr_boundary_callbacks := wr_boundary_callbacks r + 1\<rparr>
       in case wv_callback V n (wtc_boundary (wt_config th)) (wtc_opaque (wt_config th)) (boundary_request event 776 c stop)
            (empty_response 736 c) p of
          (status, a, p) \<Rightarrow>
           (let failed = map_option (\<lambda>p. Inl (GEM_WINE_CALLBACK_ERROR, p, c, r\<lparr>wr_outcome := GEM_WINE_RUN_FAILED\<rparr>)) (restore_simd t arm before p)
            in if status \<noteq> GEM_WINE_OK \<or> wa_version a \<noteq> GEM_WINE_BOUNDARY_ABI_VERSION \<or> wa_struct_size a \<noteq> 736 then failed
            else if wa_action a = GEM_WINE_BOUNDARY_TERMINATE
            then Some (Inl (GEM_WINE_TERMINATED, p, c, r\<lparr>wr_outcome := GEM_WINE_RUN_TERMINATED, wr_exit_status := wa_exit_status a\<rparr>))
            else if \<not> resumes th event c a then failed
            else Some (Inr (p, proposed_context c a, r))))))"

section \<open>The loop\<close>

text \<open>After a segment: \<open>hybrid\<close> says that a coordinator ran it, \<open>th\<close> is the thread as the segment left it.\<close>

definition wine_settle :: "('d, 'b) wine_environment \<Rightarrow> nat \<Rightarrow> nat \<Rightarrow> ('d, 'b) gem_wine_thread \<Rightarrow> bool \<Rightarrow> gem_stop_reason \<Rightarrow> gem_wine_stop_info
    \<Rightarrow> ('d, 'b, gem_thread_context) wine_state \<Rightarrow> (('d, 'b, gem_thread_context) wine_end + ('d, 'b, gem_thread_context) wine_state) option" where
  "wine_settle V n t th hybrid reason stop = (\<lambda>(p, c, r).
    (let r = r\<lparr>wr_stop := stop, wr_stop_reason := stop_code reason\<rparr>
     in if ws_instructions_retired stop > - 1 - wr_instructions_retired r then Some (Inl (GEM_WINE_ENGINE_ERROR, p, c, r))
     else (let r = r\<lparr>wr_instructions_retired := wr_instructions_retired r + ws_instructions_retired stop\<rparr>; event = classify_event (wp_config p) reason c stop
     in if \<not> context_valid_for_thread th (Some c) then Some (Inl (GEM_WINE_ENGINE_ERROR, p, c, r))
     else if reason = GEM_STOP_ARCH_TRANSITION \<and> (hybrid \<or> (wp_arm64x_routing_enabled p \<and>
             find_image_for_pc (lk_images (wv_locks V n)) (wp_images p) (pc c) \<noteq> None))
     then Some (Inr (p, c\<lparr>stop_reason := stop_code GEM_STOP_NONE\<rparr>, r))
     else if reason = GEM_STOP_HOST_RETURN then Some (Inl (GEM_WINE_OK, p, c, r\<lparr>wr_outcome := GEM_WINE_RUN_COMPLETE\<rparr>))
     else if reason = GEM_STOP_BUDGET_EXPIRED
     then (if ws_instructions_retired stop = 0 then Some (Inl (GEM_WINE_BUDGET_EXPIRED, p, c, r\<lparr>wr_outcome := GEM_WINE_RUN_BUDGET_EXPIRED\<rparr>))
       else Some (Inr (p, c\<lparr>stop_reason := stop_code GEM_STOP_NONE\<rparr>, r)))
     else (let r = r\<lparr>wr_last_event := event_code event\<rparr>
       in if event = GEM_WINE_EVENT_INVARIANT_VIOLATION then Some (Inl (GEM_WINE_ENGINE_ERROR, p, c, r\<lparr>wr_outcome := GEM_WINE_RUN_FAILED\<rparr>))
       else if wtc_boundary (wt_config th) = 0 \<or>
               (isa c \<noteq> isa_code GEM_ISA_ARM64EC \<and> \<not> (isa c = isa_code GEM_ISA_X64 \<and> wp_x86_64_routing_enabled p))
       then Some (Inl (GEM_WINE_STOPPED, p, c, r\<lparr>wr_outcome := GEM_WINE_RUN_UNHANDLED_STOP\<rparr>))
       else if wr_boundary_callbacks r \<ge> wpc_max_boundary_callbacks (wp_config p)
       then Some (Inl (GEM_WINE_BUDGET_EXPIRED, p, c, r\<lparr>wr_outcome := GEM_WINE_RUN_BUDGET_EXPIRED\<rparr>))
       else wine_boundary V n t th event stop (p, c, r)))))"

definition segment_budget :: "gem_wine_process_config \<Rightarrow> gem_wine_run_result \<Rightarrow> u64" where
  "segment_budget k r = (let remaining = wpc_total_instruction_budget k - wr_instructions_retired r
     in if remaining < wpc_segment_instruction_budget k then remaining else wpc_segment_instruction_budget k)"

definition out_of_budget :: "gem_wine_process_config \<Rightarrow> gem_wine_run_result \<Rightarrow> bool" where
  "out_of_budget k r \<longleftrightarrow> wr_instructions_retired r \<ge> wpc_total_instruction_budget k"

definition budget_end :: "('d, 'b, 'c) wine_state \<Rightarrow> ('d, 'b, 'c) wine_end" where
  "budget_end = (\<lambda>(p, c, r). (GEM_WINE_BUDGET_EXPIRED, p, c, r\<lparr>wr_outcome := GEM_WINE_RUN_BUDGET_EXPIRED,
     wr_stop_reason := stop_code GEM_STOP_BUDGET_EXPIRED\<rparr>))"

definition wine_iteration :: "('d, 'b) wine_parts \<Rightarrow> ('d, 'b) wine_environment \<Rightarrow> nat \<Rightarrow> nat \<Rightarrow> ('d, 'b, gem_thread_context) wine_state
    \<Rightarrow> (('d, 'b, gem_thread_context) wine_end + ('d, 'b, gem_thread_context) wine_state) option" where
  "wine_iteration W V n t = (\<lambda>(p, c, r). (case thread_at p t of
      None \<Rightarrow> None
    | Some th \<Rightarrow>
       (if out_of_budget (wp_config p) r then Some (Inl (budget_end (p, c, r)))
        else if \<not> lk_runtime (wv_locks V n) t then Some (Inl (GEM_WINE_ENGINE_ERROR, p, c, r))
        else (case wine_segment W V n p t th c (segment_budget (wp_config p) r) of
           (_, None) \<Rightarrow> None
         | (_, Some (p, c, None)) \<Rightarrow> Some (Inl (GEM_WINE_ENGINE_ERROR, p, c, r))
         | (hybrid, Some (p, c, Some (reason, stop))) \<Rightarrow>
            (case thread_at p t of None \<Rightarrow> None | Some th \<Rightarrow> wine_settle V n t th hybrid reason stop (p, c, r))))))"

text \<open>The loop of a run: turns, numbered, until one ends it.\<close>

partial_function (option) run_turns :: "(nat \<Rightarrow> 's \<Rightarrow> ('e + 's) option) \<Rightarrow> nat \<Rightarrow> 's \<Rightarrow> 'e option" where
  "run_turns turn n s = (case turn n s of None \<Rightarrow> None | Some (Inl e) \<Rightarrow> Some e | Some (Inr s') \<Rightarrow> run_turns turn (Suc n) s')"

definition wine_loop :: "('d, 'b) wine_parts \<Rightarrow> ('d, 'b) wine_environment \<Rightarrow> nat \<Rightarrow> ('d, 'b, gem_thread_context) wine_state
    \<Rightarrow> ('d, 'b, gem_thread_context) wine_end option" where
  "wine_loop W V t = run_turns (\<lambda>n. wine_iteration W V n t) 0"

text \<open>The status, the process, and what is published when the run began; \<open>out\<close> says that both pointers for it are given.\<close>

definition gem_wine_thread_run :: "('d, 'b) wine_parts \<Rightarrow> ('d, 'b) wine_environment \<Rightarrow> nat \<Rightarrow> ('d, 'b) gem_wine_process \<Rightarrow> nat option
    \<Rightarrow> gem_thread_context option \<Rightarrow> bool
    \<Rightarrow> (gem_wine_status \<times> ('d, 'b) gem_wine_process \<times> (gem_thread_context \<times> gem_wine_run_result) option) option" where
  "gem_wine_thread_run W V me p to co out = (case to of
      None \<Rightarrow> Some (GEM_WINE_INVALID_ARGUMENT, p, None)
    | Some t \<Rightarrow>
       (case thread_at p t of
          None \<Rightarrow> None
        | Some th \<Rightarrow>
           (case co of
              None \<Rightarrow> Some (GEM_WINE_INVALID_ARGUMENT, p, None)
            | Some c \<Rightarrow>
               (if wt_i386_thread th \<or> \<not> out \<or> \<not> context_valid_for_thread th co \<or> stop_reason c \<noteq> stop_code GEM_STOP_NONE
                then Some (GEM_WINE_INVALID_ARGUMENT, p, None)
                else (case run_trylock me th of
                   None \<Rightarrow> Some (GEM_WINE_CONFLICT, p, None)
                 | Some l \<Rightarrow>
                    (case wine_loop W V t (set_thread t (th\<lparr>wt_run_lock := Some l\<rparr>) p, c, initialize_result) of
                       None \<Rightarrow> None
                     | Some (status, p, c, r) \<Rightarrow> map_option (\<lambda>p. (status, p, Some (c, r))) (unlock_run_lock t p)))))))"

section \<open>Threads of i386 code\<close>

definition i386_segment :: "('d, 'b) wine_parts \<Rightarrow> i386_environment \<Rightarrow> nat \<Rightarrow> ('d, 'b) gem_wine_process \<Rightarrow> nat \<Rightarrow> ('d, 'b) gem_wine_thread
    \<Rightarrow> gem_i386_context \<Rightarrow> u64 \<Rightarrow> ('d, 'b, gem_i386_context) segment_end" where
  "i386_segment W E quanta p t th c budget =
    (let ops = (case wt_i386_runtime th of None \<Rightarrow> gem_i386_blink_jit_ops (wn_i386 W) | Some r \<Rightarrow> wine_i386_ops W r)
     in case gem_i386_runtime_run ops E quanta (wt_i386_runtime th) (wp_memory p) (Some c) budget of
        None \<Rightarrow> None
      | Some (reason, ro, m, co) \<Rightarrow>
         (let p = set_thread t (th\<lparr>wt_i386_runtime := ro\<rparr>) (p\<lparr>wp_memory := m\<rparr>); c = (case co of None \<Rightarrow> c | Some c \<Rightarrow> c)
          in case gem_i386_runtime_last_stop_info ro (Some zero_i386_stop) of
               (True, Some stop) \<Rightarrow> Some (p, c, Some (reason, copy_i386_stop_info stop))
             | _ \<Rightarrow> Some (p, c, None)))"

definition i386_context_for :: "('d, 'b) gem_wine_thread \<Rightarrow> gem_i386_context \<Rightarrow> bool" where
  "i386_context_for th c \<longleftrightarrow> gem_i386_context_is_valid (Some c) \<and> i386_teb c = wjc_teb (wt_i386_config th)"

definition i386_resumes :: "('d, 'b) gem_wine_thread \<Rightarrow> gem_wine_boundary_event \<Rightarrow> gem_i386_context \<Rightarrow> gem_i386_context gem_wine_boundary_response \<Rightarrow> bool" where
  "i386_resumes th event c a \<longleftrightarrow> (let c' = (wa_context a)\<lparr>i386_transition_cookie := i386_transition_cookie c\<rparr> in
     wa_action a = GEM_WINE_BOUNDARY_RESUME \<and> i386_context_for th c' \<and> i386_stop_reason c' = stop_code GEM_STOP_NONE \<and>
     \<not> ((event = GEM_WINE_EVENT_SYSCALL \<or> event = GEM_WINE_EVENT_UNIX_CALL) \<and> eip c' = eip c))"

definition i386_boundary :: "('d, 'b) wine_environment \<Rightarrow> nat \<Rightarrow> ('d, 'b) gem_wine_thread \<Rightarrow> gem_wine_boundary_event \<Rightarrow> gem_wine_stop_info
    \<Rightarrow> ('d, 'b, gem_i386_context) wine_state \<Rightarrow> ('d, 'b, gem_i386_context) wine_end + ('d, 'b, gem_i386_context) wine_state" where
  "i386_boundary V n th event stop = (\<lambda>(p, c, r).
    (let r = r\<lparr>wr_boundary_callbacks := wr_boundary_callbacks r + 1\<rparr>
     in case wv_i386_callback V n (wjc_boundary (wt_i386_config th)) (wjc_opaque (wt_i386_config th)) (boundary_request event 504 c stop)
          (empty_response 464 c) p of
        (status, a, p) \<Rightarrow>
         (let failed = Inl (GEM_WINE_CALLBACK_ERROR, p, c, r\<lparr>wr_outcome := GEM_WINE_RUN_FAILED\<rparr>)
          in if status \<noteq> GEM_WINE_OK \<or> wa_version a \<noteq> GEM_WINE_BOUNDARY_ABI_VERSION \<or> wa_struct_size a \<noteq> 464 then failed
          else if wa_action a = GEM_WINE_BOUNDARY_TERMINATE
          then Inl (GEM_WINE_TERMINATED, p, c, r\<lparr>wr_outcome := GEM_WINE_RUN_TERMINATED, wr_exit_status := wa_exit_status a\<rparr>)
          else if \<not> i386_resumes th event c a then failed
          else Inr (p, (wa_context a)\<lparr>i386_transition_cookie := i386_transition_cookie c\<rparr>, r))))"

definition i386_wine_settle :: "('d, 'b) wine_environment \<Rightarrow> nat \<Rightarrow> ('d, 'b) gem_wine_thread \<Rightarrow> gem_stop_reason \<Rightarrow> gem_wine_stop_info
    \<Rightarrow> ('d, 'b, gem_i386_context) wine_state \<Rightarrow> ('d, 'b, gem_i386_context) wine_end + ('d, 'b, gem_i386_context) wine_state" where
  "i386_wine_settle V n th reason stop = (\<lambda>(p, c, r).
    (let r = r\<lparr>wr_stop := stop, wr_stop_reason := stop_code reason,
               wr_instructions_retired := wr_instructions_retired r + ws_instructions_retired stop\<rparr>; event = classify_i386_event reason stop
     in if \<not> i386_context_for th c then Inl (GEM_WINE_ENGINE_ERROR, p, c, r)
     else if reason = GEM_STOP_HOST_RETURN then Inl (GEM_WINE_OK, p, c, r\<lparr>wr_outcome := GEM_WINE_RUN_COMPLETE\<rparr>)
     else if reason = GEM_STOP_BUDGET_EXPIRED
     then (if ws_instructions_retired stop = 0 then Inl (GEM_WINE_BUDGET_EXPIRED, p, c, r\<lparr>wr_outcome := GEM_WINE_RUN_BUDGET_EXPIRED\<rparr>)
       else Inr (p, c\<lparr>i386_stop_reason := stop_code GEM_STOP_NONE\<rparr>, r))
     else (let r = r\<lparr>wr_last_event := event_code event\<rparr>
       in if event = GEM_WINE_EVENT_INVARIANT_VIOLATION then Inl (GEM_WINE_ENGINE_ERROR, p, c, r\<lparr>wr_outcome := GEM_WINE_RUN_FAILED\<rparr>)
       else if wjc_boundary (wt_i386_config th) = 0 then Inl (GEM_WINE_STOPPED, p, c, r\<lparr>wr_outcome := GEM_WINE_RUN_UNHANDLED_STOP\<rparr>)
       else if wr_boundary_callbacks r \<ge> wpc_max_boundary_callbacks (wp_config p)
       then Inl (GEM_WINE_BUDGET_EXPIRED, p, c, r\<lparr>wr_outcome := GEM_WINE_RUN_BUDGET_EXPIRED\<rparr>)
       else i386_boundary V n th event stop (p, c, r))))"

definition i386_wine_iteration :: "('d, 'b) wine_parts \<Rightarrow> ('d, 'b) wine_environment \<Rightarrow> nat \<Rightarrow> nat \<Rightarrow> ('d, 'b, gem_i386_context) wine_state
    \<Rightarrow> (('d, 'b, gem_i386_context) wine_end + ('d, 'b, gem_i386_context) wine_state) option" where
  "i386_wine_iteration W V n t = (\<lambda>(p, c, r). (case thread_at p t of
      None \<Rightarrow> None
    | Some th \<Rightarrow>
       (if out_of_budget (wp_config p) r then Some (Inl (budget_end (p, c, r)))
        else if \<not> lk_runtime (wv_locks V n) t then Some (Inl (GEM_WINE_ENGINE_ERROR, p, c, r))
        else (case i386_segment W (wv_i386 V n) (wv_quanta V n) p t th c (segment_budget (wp_config p) r) of
           None \<Rightarrow> None
         | Some (p, c, None) \<Rightarrow> Some (Inl (GEM_WINE_ENGINE_ERROR, p, c, r))
         | Some (p, c, Some (reason, stop)) \<Rightarrow> Some (i386_wine_settle V n th reason stop (p, c, r))))))"

definition i386_wine_loop :: "('d, 'b) wine_parts \<Rightarrow> ('d, 'b) wine_environment \<Rightarrow> nat \<Rightarrow> ('d, 'b, gem_i386_context) wine_state
    \<Rightarrow> ('d, 'b, gem_i386_context) wine_end option" where
  "i386_wine_loop W V t = run_turns (\<lambda>n. i386_wine_iteration W V n t) 0"

definition gem_wine_i386_thread_run :: "('d, 'b) wine_parts \<Rightarrow> ('d, 'b) wine_environment \<Rightarrow> nat \<Rightarrow> ('d, 'b) gem_wine_process \<Rightarrow> nat option
    \<Rightarrow> gem_i386_context option \<Rightarrow> bool
    \<Rightarrow> (gem_wine_status \<times> ('d, 'b) gem_wine_process \<times> (gem_i386_context \<times> gem_wine_run_result) option) option" where
  "gem_wine_i386_thread_run W V me p to co out = (case to of
      None \<Rightarrow> Some (GEM_WINE_INVALID_ARGUMENT, p, None)
    | Some t \<Rightarrow>
       (case thread_at p t of
          None \<Rightarrow> None
        | Some th \<Rightarrow>
           (case co of
              None \<Rightarrow> Some (GEM_WINE_INVALID_ARGUMENT, p, None)
            | Some c \<Rightarrow>
               (if \<not> wt_i386_thread th \<or> \<not> out \<or> \<not> i386_context_for th c \<or> i386_stop_reason c \<noteq> stop_code GEM_STOP_NONE
                then Some (GEM_WINE_INVALID_ARGUMENT, p, None)
                else (case run_trylock me th of
                   None \<Rightarrow> Some (GEM_WINE_CONFLICT, p, None)
                 | Some l \<Rightarrow>
                    (case i386_wine_loop W V t (set_thread t (th\<lparr>wt_run_lock := Some l\<rparr>) p, c, initialize_result) of
                       None \<Rightarrow> None
                     | Some (status, p, c, r) \<Rightarrow> map_option (\<lambda>p. (status, p, Some (c, r))) (unlock_run_lock t p)))))))"

end
