(* ===== verification/Gem_Wine_Props.thy ===== *)
theory Gem_Wine_Props
  imports Gem_Wine_Loop Gem_Hybrid_Reachable
begin

text \<open>
  The order a process of the bridge is kept in: its images, its modes, its threads and their engines. Every
  call keeps it, and so does a segment of a run.
\<close>

section \<open>Threads in a process\<close>

lemma thread_at_set [simp]: "thread_at (set_thread t th p) u = (if u = t then map_option (\<lambda>_. th) (thread_at p t) else thread_at p u)"
proof -
  have "map_of (map (\<lambda>(u, old). (u, if u = t then th else old)) l) u = (if u = t then map_option (\<lambda>_. th) (map_of l t) else map_of l u)" for l
    by (induction l) auto
  then show ?thesis by (simp add: thread_at_def set_thread_def)
qed

lemma set_thread_fields [simp]:
  "wp_memory (set_thread t th p) = wp_memory p" "wp_config (set_thread t th p) = wp_config p" "wp_images (set_thread t th p) = wp_images p"
  "wp_arm64x_routing_enabled (set_thread t th p) = wp_arm64x_routing_enabled p" "wp_next (set_thread t th p) = wp_next p"
  "wp_x86_64_routing_enabled (set_thread t th p) = wp_x86_64_routing_enabled p" "wp_i386_routing_enabled (set_thread t th p) = wp_i386_routing_enabled p"
  "map fst (wp_threads (set_thread t th p)) = map fst (wp_threads p)"
  by (auto simp: set_thread_def)

lemma thread_at_memory [simp]: "thread_at (p\<lparr>wp_memory := m\<rparr>) t = thread_at p t"
  by (simp add: thread_at_def)

lemma threads_set: "(u, old) \<in> set (wp_threads (set_thread t th p)) \<Longrightarrow> old = th \<or> (u, old) \<in> set (wp_threads p)"
  by (auto simp: set_thread_def split: if_splits)

lemma thread_at_in: "thread_at p t = Some th \<Longrightarrow> (t, th) \<in> set (wp_threads p)"
  by (auto simp: thread_at_def dest: map_of_SomeD)

section \<open>Order\<close>

definition image_ok :: "gem_wine_arm64x_image \<Rightarrow> bool" where
  "image_ok i \<longleftrightarrow> wac_image_size (wi_config i) \<noteq> 0 \<and>
     unat (wi_loaded_end i) = unat (wac_loaded_base (wi_config i)) + unat (wac_image_size (wi_config i))"

text \<open>Images do not overlap, and their numbers say how many came before.\<close>

fun images_ok :: "gem_wine_arm64x_image list \<Rightarrow> bool" where
  "images_ok [] = True"
| "images_ok (i # is) \<longleftrightarrow> image_ok i \<and> wi_number i = length is \<and> (\<forall>j \<in> set is. \<not> overlaps i j) \<and> images_ok is"

text \<open>What of a process its threads depend on: the three modes and the number of images.\<close>

definition modes :: "('d, 'b) gem_wine_process \<Rightarrow> bool \<times> bool \<times> bool \<times> nat" where
  "modes p = (wp_arm64x_routing_enabled p, wp_x86_64_routing_enabled p, wp_i386_routing_enabled p, length (wp_images p))"

definition hybrids_ok :: "nat \<Rightarrow> ('d, 'b) gem_wine_hybrid_binding list \<Rightarrow> bool" where
  "hybrids_ok n bs \<longleftrightarrow> distinct (map hb_image bs) \<and> (\<forall>b \<in> set bs. hb_image b < n \<and> coordinator_ok (hy_core (hb_runtime b)))"

text \<open>The native engine of a thread: well-formed, idle, on the native profile.\<close>

definition native_ok :: "'d gem_arm64ec_runtime \<Rightarrow> bool" where
  "native_ok r \<longleftrightarrow> arm64ec_wf r \<and> \<not> ar_running r \<and> af_execution_profile (ar_config r) = GEM_ARM64EC_PROFILE_NATIVE_ARM64"

text \<open>A thread has the engine of its kind; the others only in the mode that uses them, and a coordinator it can go back to.\<close>

definition thread_ok :: "bool \<times> bool \<times> bool \<times> nat \<Rightarrow> ('d, 'b) gem_wine_thread \<Rightarrow> bool" where
  "thread_ok = (\<lambda>(arm64x, x86_64, i386, n) th.
     wt_i386_thread th = i386 \<and> (wt_i386_runtime th \<noteq> None) = i386 \<and> (wt_runtime th \<noteq> None) = (\<not> i386) \<and>
     (\<forall>r. wt_runtime th = Some r \<longrightarrow> native_ok r) \<and>
     (wt_x64_runtime th \<noteq> None \<longrightarrow> x86_64) \<and> (wt_hybrids th \<noteq> [] \<longrightarrow> arm64x) \<and> hybrids_ok n (wt_hybrids th) \<and>
     (\<forall>b. wt_coordinator_hybrid th = Some b \<longrightarrow> b \<in> hb_image ` set (wt_hybrids th)) \<and> wt_active_hybrid th = None)"

definition one_mode :: "bool \<times> bool \<times> bool \<times> nat \<Rightarrow> bool" where
  "one_mode = (\<lambda>(arm64x, x86_64, i386, _). \<not> (arm64x \<and> x86_64) \<and> \<not> (arm64x \<and> i386) \<and> \<not> (x86_64 \<and> i386))"

definition process_ok :: "('d, 'b) gem_wine_process \<Rightarrow> bool" where
  "process_ok p \<longleftrightarrow> images_ok (wp_images p) \<and> one_mode (modes p) \<and> distinct (map fst (wp_threads p)) \<and>
     (\<forall>(t, th) \<in> set (wp_threads p). t < wp_next p \<and> thread_ok (modes p) th)"

lemma modes_simps [simp]: "modes (set_thread t th p) = modes p" "modes (p\<lparr>wp_memory := m\<rparr>) = modes p" "modes (p\<lparr>wp_threads := ts\<rparr>) = modes p"
  by (simp_all add: modes_def)

lemma process_ok_memory [simp]: "process_ok (p\<lparr>wp_memory := m\<rparr>) = process_ok p"
  by (simp add: process_ok_def)

lemma process_thread: "process_ok p \<Longrightarrow> thread_at p t = Some th \<Longrightarrow> thread_ok (modes p) th"
  by (auto simp: process_ok_def dest!: thread_at_in)

lemma process_ok_set: "process_ok p \<Longrightarrow> thread_ok (modes p) th \<Longrightarrow> process_ok (set_thread t th p)"
  by (force simp: process_ok_def set_thread_def modes_def comp_def split_def)

text \<open>Changing the threads one by one keeps their numbers.\<close>

lemma process_ok_threads:
  assumes "process_ok p" and "map fst ts = map fst (wp_threads p)" and "\<forall>(t, th) \<in> set ts. thread_ok (modes p) th"
  shows "process_ok (p\<lparr>wp_threads := ts\<rparr>)"
proof -
  have "t < wp_next p" if "(t, th) \<in> set ts" for t th
  proof -
    have "t \<in> set (map fst (wp_threads p))" using that assms(2) by (metis fst_conv image_eqI set_map)
    then show ?thesis using assms(1) by (auto simp: process_ok_def)
  qed
  then show ?thesis using assms by (auto simp: process_ok_def)
qed

section \<open>Evolution\<close>

text \<open>What identifies a thread, which no call changes.\<close>

definition identity :: "('d, 'b) gem_wine_thread \<Rightarrow> gem_wine_thread_config \<times> gem_wine_i386_thread_config \<times> bool" where
  "identity th = (wt_config th, wt_i386_config th, wt_i386_thread th)"

text \<open>The configuration stays, numbers are not given twice, and a thread that is still there is the one that was.\<close>

definition follows :: "('d, 'b) gem_wine_process \<Rightarrow> ('d, 'b) gem_wine_process \<Rightarrow> bool" where
  "follows p p' \<longleftrightarrow> wp_config p' = wp_config p \<and> wp_next p \<le> wp_next p' \<and>
     (\<forall>t th'. t < wp_next p \<longrightarrow> thread_at p' t = Some th' \<longrightarrow> (\<exists>th. thread_at p t = Some th \<and> identity th' = identity th))"

definition evolves :: "('d, 'b) gem_wine_process \<Rightarrow> ('d, 'b) gem_wine_process \<Rightarrow> bool" where
  "evolves p p' \<longleftrightarrow> (process_ok p \<longrightarrow> process_ok p' \<and> follows p p')"

lemma follows_refl [simp]: "follows p p"
  by (simp add: follows_def)

lemma follows_trans: "follows p q \<Longrightarrow> follows q s \<Longrightarrow> follows p s"
  unfolding follows_def by (smt (verit) order_less_le_trans order_trans)

lemma evolves_refl [simp]: "evolves p p"
  by (simp add: evolves_def)

lemma evolves_trans [trans]: "evolves p q \<Longrightarrow> evolves q s \<Longrightarrow> evolves p s"
  unfolding evolves_def by (blast intro: follows_trans)

lemma evolves_memory [simp]: "evolves p (p\<lparr>wp_memory := m\<rparr>)"
  by (simp add: evolves_def follows_def)

lemma thread_number: "process_ok p \<Longrightarrow> thread_at p t = Some th \<Longrightarrow> t < wp_next p"
  by (auto simp: process_ok_def dest!: thread_at_in)

lemma evolves_set:
  assumes "thread_at p t = Some th" and "process_ok p \<Longrightarrow> thread_ok (modes p) th'" and "identity th' = identity th"
  shows "evolves p (set_thread t th' p)"
  using assms process_ok_set [of p th' t] by (auto simp: evolves_def follows_def split: if_splits)

text \<open>Threads that are changed in place.\<close>

definition changed :: "bool \<times> bool \<times> bool \<times> nat \<Rightarrow> nat \<times> ('d, 'b) gem_wine_thread \<Rightarrow> nat \<times> ('d, 'b) gem_wine_thread \<Rightarrow> bool" where
  "changed k = (\<lambda>(t, th) (t', th'). t' = t \<and> identity th' = identity th \<and> (thread_ok k th \<longrightarrow> thread_ok k th'))"

lemma changed_facts:
  assumes "list_all2 (changed k) l ts"
  shows "map fst ts = map fst l" "\<forall>(t, th) \<in> set l. thread_ok k th \<Longrightarrow> \<forall>(t, th) \<in> set ts. thread_ok k th"
    "map_of ts t = Some th' \<Longrightarrow> \<exists>th. map_of l t = Some th \<and> identity th' = identity th"
  using assms by (induction rule: list_all2_induct) (auto simp: changed_def split: if_splits)

lemma threads_ok: "process_ok p \<Longrightarrow> \<forall>(t, th) \<in> set (wp_threads p). thread_ok (modes p) th"
  by (auto simp: process_ok_def)

lemma evolves_threads:
  assumes "list_all2 (changed (modes p)) (wp_threads p) ts"
  shows "evolves p (p\<lparr>wp_threads := ts\<rparr>)"
proof -
  note f = changed_facts [OF assms]
  have "follows p (p\<lparr>wp_threads := ts\<rparr>)" using f(3) by (simp add: follows_def thread_at_def)
  moreover have "process_ok p \<Longrightarrow> process_ok (p\<lparr>wp_threads := ts\<rparr>)" by (rule process_ok_threads [OF _ f(1) f(2) [OF threads_ok]])
  ultimately show ?thesis by (simp add: evolves_def)
qed

lemma evolves_add: "thread_ok (modes p) th \<Longrightarrow> evolves p (add_thread th p)"
  by (auto simp: evolves_def follows_def process_ok_def add_thread_def modes_def thread_at_def)

lemma map_of_remove: "map_of (filter (\<lambda>(u, _). u \<noteq> t) l) u = (if u = t then None else map_of l u)"
  by (induction l) auto

lemma evolves_remove: "evolves p (p\<lparr>wp_threads := filter (\<lambda>(u, _). u \<noteq> t) (wp_threads p)\<rparr>)"
  by (auto simp: evolves_def follows_def process_ok_def thread_at_def map_of_remove intro: distinct_map_filter)

text \<open>Modes change when the threads there are do not mind.\<close>

lemma evolves_modes:
  fixes p q :: "('d, 'b) gem_wine_process"
  assumes "wp_threads q = wp_threads p" "wp_next q = wp_next p" "wp_config q = wp_config p"
    and "process_ok p \<Longrightarrow> images_ok (wp_images q) \<and> one_mode (modes q)"
    and "\<And>th :: ('d, 'b) gem_wine_thread. thread_ok (modes p) th \<Longrightarrow> wp_threads p \<noteq> [] \<Longrightarrow> thread_ok (modes q) th"
  shows "evolves p q"
proof -
  have "process_ok q" if "process_ok p"
  proof -
    have "t < wp_next p \<and> thread_ok (modes q) th" if "(t, th) \<in> set (wp_threads p)" for t th
      using \<open>process_ok p\<close> that assms(5) [of th] by (cases "wp_threads p") (auto simp: process_ok_def)
    then have "\<forall>(t, th) \<in> set (wp_threads q). t < wp_next q \<and> thread_ok (modes q) th" unfolding assms(1,2) by blast
    moreover have "distinct (map fst (wp_threads q))" using that unfolding assms(1) process_ok_def by blast
    ultimately show ?thesis using assms(4) [OF that] unfolding process_ok_def by blast
  qed
  then show ?thesis using assms(1-3) by (simp add: evolves_def follows_def thread_at_def)
qed

section \<open>Images\<close>

lemma overlaps_iff: "image_ok i \<Longrightarrow> image_ok j \<Longrightarrow> overlaps i j \<longleftrightarrow> (\<exists>va. image_covers i va \<and> image_covers j va)"
proof
  assume ij: "image_ok i" "image_ok j" and both: "overlaps i j"
  let ?a = "wac_loaded_base (wi_config i)" and ?b = "wac_loaded_base (wi_config j)"
  have "?a < wi_loaded_end i" "?b < wi_loaded_end j" using ij by (auto simp: image_ok_def word_less_nat_alt unat_gt_0)
  then have "image_covers i (max ?a ?b) \<and> image_covers j (max ?a ?b)" using both by (auto simp: overlaps_def image_covers_def max_def)
  then show "\<exists>va. image_covers i va \<and> image_covers j va" by blast
next
  assume "\<exists>va. image_covers i va \<and> image_covers j va"
  then show "overlaps i j" by (auto simp: overlaps_def image_covers_def)
qed

lemma images_each: "images_ok is \<Longrightarrow> i \<in> set is \<Longrightarrow> image_ok i"
  by (induction "is") auto

lemma images_unique: "images_ok is \<Longrightarrow> i \<in> set is \<Longrightarrow> j \<in> set is \<Longrightarrow> image_covers i va \<Longrightarrow> image_covers j va \<Longrightarrow> i = j"
proof (induction "is")
  case (Cons k ks)
  have "\<not> image_covers j va" if "j \<in> set ks" "image_covers k va" for j
    using Cons.prems(1) that overlaps_iff [of k j] images_each [of ks j] by auto
  then show ?case using Cons by auto
qed simp

lemma images_numbers: "images_ok is \<Longrightarrow> i \<in> set is \<Longrightarrow> wi_number i < length is"
  by (induction "is") auto

lemma find_covering: "images_ok is \<Longrightarrow> i \<in> set is \<Longrightarrow> image_covers i va \<Longrightarrow> find (\<lambda>i. image_covers i va) is = Some i"
  using images_unique [of "is"] by (cases "find (\<lambda>i. image_covers i va) is") (auto simp: find_None_iff find_Some_iff in_set_conv_nth, blast)

end
