(* ===== verification/Gem_Wine_Calls.thy ===== *)
theory Gem_Wine_Calls
  imports Gem_Wine_Props
begin

text \<open>
  Every call on a process keeps its order and leaves its threads the ones they were.
\<close>

section \<open>The engines of a thread\<close>

lemma native_broker:
  "gem_arm64ec_runtime_set_boundary_broker ro f a = (ok, ro') \<Longrightarrow> (ro' = None) = (ro = None) \<and> (\<forall>r'. ro' = Some r' \<longrightarrow> (\<exists>r. ro = Some r \<and> (native_ok r \<longrightarrow> native_ok r')))"
  by (auto simp: gem_arm64ec_runtime_set_boundary_broker_def native_ok_def arm64ec_wf_def split: option.splits if_splits)

lemma native_simd:
  assumes "gem_arm64ec_runtime_set_native_upper_simd ro vs = (ok, ro')" and "\<forall>l. vs = Some l \<longrightarrow> length l = 16"
  shows "(ro' = None) = (ro = None) \<and> (\<forall>r'. ro' = Some r' \<longrightarrow> (\<exists>r. ro = Some r \<and> (native_ok r \<longrightarrow> native_ok r')))"
  using assms by (auto simp: gem_arm64ec_runtime_set_native_upper_simd_def native_ok_def arm64ec_wf_def split: option.splits if_splits)

lemma native_backend [simp]: "native_ok (r\<lparr>ar_backend := b\<rparr>) = native_ok r"
  by (simp add: native_ok_def arm64ec_wf_def)

lemma native_requests:
  "(gem_arm64ec_runtime_invalidate_code D ro a n = None) = (ro = None)" "(gem_arm64ec_runtime_request_async_stop D ro = None) = (ro = None)"
  "gem_arm64ec_runtime_invalidate_code D ro a n = Some r' \<Longrightarrow> \<exists>r. ro = Some r \<and> native_ok r' = native_ok r"
  "gem_arm64ec_runtime_request_async_stop D ro = Some r' \<Longrightarrow> \<exists>r. ro = Some r \<and> native_ok r' = native_ok r"
  by (auto simp: gem_arm64ec_runtime_invalidate_code_def gem_arm64ec_runtime_request_async_stop_def split: option.splits if_splits)

lemma run_config:
  assumes "backend_keeps D" "gem_arm64ec_runtime_run D (Some r) m co budget = (e, ro', m', co')"
  shows "\<exists>r'. ro' = Some r' \<and> ar_config r' = ar_config r"
proof (cases "run_refused r co budget")
  case True
  then show ?thesis using assms(2) by (auto simp: run_refusal)
next
  case False
  then obtain c where c: "co = Some c" by (cases co) (auto simp: run_refused_def context_is_arm64ec_valid_def)
  show ?thesis
  proof (cases "budget = 0")
    case True
    then show ?thesis using assms(2) run_idle [of r c D m] False c by auto
  next
    case nz: False
    obtain e1 r1 m1 c1 where b: "backend_run D ((run_entry r)\<lparr>ar_running := True\<rparr>) m c budget = (e1, r1, m1, c1)" by (metis prod_cases4)
    have "ar_config r1 = ar_config r" using assms(1) [unfolded backend_keeps_def, rule_format, OF b] by simp
    then show ?thesis using assms(2) run_active [OF False [unfolded c] nz b] c by (cases "context_is_arm64ec_valid (Some c1)") auto
  qed
qed

lemma native_run:
  assumes "backend_keeps D" "native_ok r" "gem_arm64ec_runtime_run D (Some r) m co budget = (e, ro', m', co')"
  shows "\<exists>r'. ro' = Some r' \<and> native_ok r'"
  using run_config [OF assms(1,3)] run_wf [OF assms(1), of r m co budget e _ m' co'] assms by (auto simp: native_ok_def)

text \<open>A thread whose native engine was replaced by one in order.\<close>

lemma thread_native:
  "thread_ok k th \<Longrightarrow> (ro = None) = (wt_runtime th = None) \<Longrightarrow> (\<And>r. ro = Some r \<Longrightarrow> native_ok r) \<Longrightarrow> thread_ok k (th\<lparr>wt_runtime := ro\<rparr>)"
  by (auto simp: thread_ok_def split: prod.splits)

lemma identity_simps [simp]:
  "identity (th\<lparr>wt_runtime := r\<rparr>) = identity th" "identity (th\<lparr>wt_x64_runtime := xr\<rparr>) = identity th" "identity (th\<lparr>wt_i386_runtime := i\<rparr>) = identity th"
  "identity (th\<lparr>wt_hybrids := hs\<rparr>) = identity th" "identity (th\<lparr>wt_coordinator_hybrid := co\<rparr>) = identity th"
  "identity (th\<lparr>wt_active_hybrid := act\<rparr>) = identity th" "identity (th\<lparr>wt_run_lock := l\<rparr>) = identity th"
  by (simp_all add: identity_def)

lemma thread_ok_lock [simp]: "thread_ok k (th\<lparr>wt_run_lock := l\<rparr>) = thread_ok k th"
  by (simp add: thread_ok_def split: prod.split)

lemma hybrids_map:
  assumes "\<And>b. b \<in> set bs \<Longrightarrow> coordinator_ok (hy_core (hb_runtime b)) \<Longrightarrow> hb_image (f b) = hb_image b \<and> coordinator_ok (hy_core (hb_runtime (f b)))"
    and "hybrids_ok n bs"
  shows "hybrids_ok n (map f bs)" "hb_image ` set (map f bs) = hb_image ` set bs"
proof -
  have eq: "map hb_image (map f bs) = map hb_image bs" using assms by (simp add: hybrids_ok_def)
  show "hb_image ` set (map f bs) = hb_image ` set bs" using arg_cong [OF eq, of set] by (simp add: image_image)
  show "hybrids_ok n (map f bs)" using assms unfolding hybrids_ok_def eq by simp
qed

section \<open>Calls that change modes and images\<close>

lemma created_process: "gem_wine_process_create ok lt li mo ko out = (e, Some p) \<Longrightarrow> process_ok p"
  by (auto simp: gem_wine_process_create_def process_ok_def modes_def one_mode_def split: option.splits if_splits)

lemma broker_changed:
  assumes "broker_threads W L ts = (ok, ts')"
  shows "list_all2 (changed k) ts ts'"
  using assms
proof (induction W L ts arbitrary: ok ts' rule: broker_threads.induct)
  case (2 W L t th ts)
  have refl: "list_all2 (changed k) l l" for l :: "(nat \<times> ('a, 'b) gem_wine_thread) list" by (rule list_all2_refl) (auto simp: changed_def)
  obtain a r where s: "gem_arm64ec_runtime_set_boundary_broker (wt_runtime th) (wn_native_image_boundary W) (wn_thread W t) = (a, r)" by fastforce
  have "changed k (t, th) (t, th\<lparr>wt_runtime := r\<rparr>)"
    using native_broker [OF s] by (auto simp: changed_def thread_ok_def split: prod.splits)
  then show ?case using 2 refl s by (cases a) (auto split: prod.splits if_splits)
qed simp

lemma prepare_arm64ec_evolves:
  assumes "gem_wine_process_prepare_arm64ec W L (Some p) = (e, Some p')"
  shows "evolves p p'"
proof (cases "wp_x86_64_routing_enabled p \<or> wp_i386_routing_enabled p")
  case False
  let ?q = "p\<lparr>wp_arm64x_routing_enabled := True\<rparr>"
  have "evolves p ?q" by (rule evolves_modes) (use False in \<open>auto simp: process_ok_def modes_def one_mode_def thread_ok_def\<close>)
  moreover obtain ok ts where b: "broker_threads W L (wp_threads p) = (ok, ts)" by fastforce
  moreover have "evolves ?q (?q\<lparr>wp_threads := ts\<rparr>)" by (rule evolves_threads) (simp add: broker_changed [OF b])
  ultimately show ?thesis using assms False evolves_trans [of p ?q]
    by (auto simp: gem_wine_process_prepare_arm64ec_def Let_def split: if_splits)
qed (use assms in \<open>auto simp: gem_wine_process_prepare_arm64ec_def\<close>)

lemma prepare_x86_64_evolves:
  assumes "gem_wine_process_prepare_x86_64 L (Some p) ko = (e, Some p')"
  shows "evolves p p'"
proof (cases "ko = None")
  case False
  have mode: "evolves p (p\<lparr>wp_memory := m, wp_x86_64_config := k, wp_x86_64_routing_enabled := True\<rparr>)"
    if "\<not> wp_arm64x_routing_enabled p" "\<not> wp_i386_routing_enabled p" for m k
    by (rule evolves_modes) (use that in \<open>auto simp: process_ok_def modes_def one_mode_def thread_ok_def\<close>)
  show ?thesis using assms False mode
    by (auto simp: gem_wine_process_prepare_x86_64_def Let_def split: if_splits prod.splits option.splits)
qed (use assms in \<open>simp add: gem_wine_process_prepare_x86_64_def\<close>)

lemma prepare_i386_evolves:
  assumes "gem_wine_process_prepare_i386 L (Some p) ko = (e, Some p')"
  shows "evolves p p'"
proof (cases "ko = None")
  case False
  have mode: "evolves p (p\<lparr>wp_memory := m, wp_i386_config := k, wp_i386_routing_enabled := True\<rparr>)"
    if "wp_threads p = []" "\<not> wp_arm64x_routing_enabled p" "\<not> wp_x86_64_routing_enabled p" for m k
    by (rule evolves_modes) (use that in \<open>auto simp: process_ok_def modes_def one_mode_def\<close>)
  show ?thesis using assms False mode
    by (auto simp: gem_wine_process_prepare_i386_def Let_def split: if_splits prod.splits option.splits)
qed (use assms in \<open>simp add: gem_wine_process_prepare_i386_def\<close>)

lemma parsed_image:
  assumes "parse_wine_image al ok mal m k n = Inr i" and "arm64x_config_ok k"
  shows "image_ok i" "wi_number i = n" "wac_loaded_base (wi_config i) = wac_loaded_base k" "wac_image_size (wi_config i) = wac_image_size k"
proof -
  have "unat (wac_loaded_base k + wac_image_size k) = unat (wac_loaded_base k) + unat (wac_image_size k)"
    using assms(2) by (intro unat_add_no_wrap) (simp add: arm64x_config_ok_def not_less no_wrap_iff)
  then show "image_ok i" "wi_number i = n" "wac_loaded_base (wi_config i) = wac_loaded_base k" "wac_image_size (wi_config i) = wac_image_size k"
    using assms by (auto simp: parse_wine_image_def image_ok_def arm64x_config_ok_def split: sum.splits if_splits)
qed

lemma finish_evolves: "finish_register W L k p = (e, Some p') \<Longrightarrow> evolves p p'"
  by (auto simp: finish_register_def prepare_arm64ec_evolves split: if_splits)

lemma more_images: "thread_ok (a, b, c, n) th \<Longrightarrow> n \<le> n' \<Longrightarrow> thread_ok (a, b, c, n') th"
  by (auto simp: thread_ok_def hybrids_ok_def)

lemma register_evolves:
  assumes r: "gem_wine_process_register_arm64x_mapped W L ok al mok mal (Some p) ko = (e, Some p')"
  shows "evolves p p'"
proof (cases "\<exists>k i. ko = Some k \<and> arm64x_config_ok k \<and> parse_wine_image al mok mal (wp_memory p) k (length (wp_images p)) = Inr i \<and>
    find (overlaps i) (wp_images p) = None \<and> finish_register W L k (p\<lparr>wp_images := i # wp_images p\<rparr>) = (e, Some p')")
  case True
  then obtain k i where i: "arm64x_config_ok k" "parse_wine_image al mok mal (wp_memory p) k (length (wp_images p)) = Inr i"
      "find (overlaps i) (wp_images p) = None" "finish_register W L k (p\<lparr>wp_images := i # wp_images p\<rparr>) = (e, Some p')" by blast
  have "evolves p (p\<lparr>wp_images := i # wp_images p\<rparr>)"
    by (rule evolves_modes)
      (use parsed_image [OF i(2,1)] i(3) in \<open>auto simp: process_ok_def modes_def one_mode_def find_None_iff intro: more_images\<close>)
  then show ?thesis using finish_evolves [OF i(4)] evolves_trans by blast
next
  case False
  then show ?thesis using r
    by (auto simp: gem_wine_process_register_arm64x_mapped_def finish_evolves split: option.splits if_splits sum.splits)
qed

section \<open>Calls on memory\<close>

lemma on_process_evolves: "on_process (Some p) valid f = (e, Some p') \<Longrightarrow> evolves p p'"
  by (auto simp: on_process_def split: if_splits prod.splits)

lemma reserve_evolves: "gem_wine_process_reserve (Some p) a n = (e, Some p') \<Longrightarrow> evolves p p'"
  by (auto simp: gem_wine_process_reserve_def Let_def split: if_splits prod.splits)

lemma protect_evolves: "gem_wine_process_protect (Some p) a n prot = (e, old, Some p') \<Longrightarrow> evolves p p'"
  by (auto simp: gem_wine_process_protect_def split: if_splits prod.splits)

section \<open>Calls on threads\<close>

lemma created_native:
  assumes "gem_arm64ec_runtime_create D ok mo (Some k) = Some r" and "af_execution_profile k = GEM_ARM64EC_PROFILE_NATIVE_ARM64"
  shows "native_ok r"
  using create_wf [OF assms(1)] assms
  by (auto simp: native_ok_def gem_arm64ec_runtime_create_def reset_stop_def fresh_runtime_def fill_sentinels_def Let_def split: if_splits)

lemma thread_create_evolves:
  assumes "gem_wine_thread_create W L A (Some p) ko out = (e, t, Some p')"
  shows "evolves p p'"
proof -
  have add: "evolves p (add_thread (zero_thread\<lparr>wt_config := k, wt_runtime := Some r\<rparr>) p)" if "native_ok r" "\<not> wp_i386_routing_enabled p" for k r
    by (rule evolves_add) (use that in \<open>auto simp: thread_ok_def modes_def zero_thread_def hybrids_ok_def\<close>)
  show ?thesis using assms
    by (auto simp: gem_wine_thread_create_def intro!: add dest!: created_native native_broker split: option.splits if_splits prod.splits bool.splits)
qed

lemma i386_thread_create_evolves:
  assumes "gem_wine_i386_thread_create W L A (Some p) ko out = (e, t, Some p')"
  shows "evolves p p'"
proof -
  have add: "evolves p (add_thread (zero_thread\<lparr>wt_i386_config := k, wt_i386_thread := True, wt_i386_runtime := Some r\<rparr>) p)"
    if "wp_i386_routing_enabled p" for k r
    by (rule evolves_add) (use that in \<open>auto simp: thread_ok_def modes_def zero_thread_def hybrids_ok_def\<close>)
  show ?thesis using assms
    by (auto simp: gem_wine_i386_thread_create_def Let_def intro!: add split: option.splits if_splits)
qed

lemma destroy_evolves: "gem_wine_thread_destroy L me p to = (e, p') \<Longrightarrow> evolves p p'"
  by (auto simp: gem_wine_thread_destroy_def evolves_remove split: option.splits if_splits)

lemma invalidate_hybrid:
  assumes "coordinator_ok (hy_core y)"
  shows "coordinator_ok (hy_core (case gem_hybrid_runtime_invalidate_code P (Some y) a n of None \<Rightarrow> y | Some y' \<Rightarrow> y'))"
  using assms by (simp add: gem_hybrid_runtime_invalidate_code_def Let_def)

lemma stop_hybrid:
  assumes "coordinator_ok (hy_core y)"
  shows "coordinator_ok (hy_core (case gem_hybrid_runtime_request_async_stop (Some y) of None \<Rightarrow> y | Some y' \<Rightarrow> y'))"
  using assms by (simp add: gem_hybrid_runtime_request_async_stop_def coordinator_ok_alt generic_inv_def bounded_part_def nested_part_def expectations_def)

lemma invalidate_ok: "thread_ok k th \<Longrightarrow> thread_ok k (invalidate_thread W L p a n th)"
proof -
  assume ok: "thread_ok k th"
  let ?f = "\<lambda>b. b\<lparr>hb_runtime := (case gem_hybrid_runtime_invalidate_code (wine_hybrid_parts W L p) (Some (hb_runtime b)) a n of
    None \<Rightarrow> hb_runtime b | Some y \<Rightarrow> y)\<rparr>"
  have "hybrids_ok (snd (snd (snd k))) (wt_hybrids th)" using ok by (simp add: thread_ok_def split: prod.splits)
  then have "hybrids_ok (snd (snd (snd k))) (map ?f (wt_hybrids th))" "hb_image ` set (map ?f (wt_hybrids th)) = hb_image ` set (wt_hybrids th)"
    by (intro hybrids_map; simp add: invalidate_hybrid)+
  then show ?thesis using ok
    by (auto simp: thread_ok_def invalidate_thread_def native_requests gem_x64_runtime_invalidate_code_def gem_i386_runtime_invalidate_code_def
        split: prod.splits option.splits dest!: native_requests(3))
qed

lemma invalidate_changed:
  assumes "invalidate_threads W L p a n ts = (ok, ts')"
  shows "list_all2 (changed k) ts ts'"
  using assms
proof (induction W L p a n ts arbitrary: ok ts' rule: invalidate_threads.induct)
  case (2 W L p a n t th ts)
  have refl: "list_all2 (changed k) l l" for l :: "(nat \<times> ('a, 'b) gem_wine_thread) list" by (rule list_all2_refl) (auto simp: changed_def)
  have "changed k (t, th) (t, invalidate_thread W L p a n th)"
    using invalidate_ok [of k th] by (simp add: changed_def invalidate_thread_def)
  then show ?case using 2 refl by (auto split: prod.splits if_splits)
qed simp

lemma invalidate_evolves:
  assumes "gem_wine_process_invalidate_code W L (Some p) a n = (e, Some p')"
  shows "evolves p p'"
proof -
  obtain ok ts where i: "invalidate_threads W L p a n (wp_threads p) = (ok, ts)" by fastforce
  then have "evolves p (p\<lparr>wp_threads := ts\<rparr>)" by (intro evolves_threads invalidate_changed)
  then show ?thesis using assms i by (auto simp: gem_wine_process_invalidate_code_def split: if_splits)
qed

lemma set_simd_evolves:
  assumes "gem_wine_thread_set_native_upper_simd L p to vs = Some (e, p')" and "\<forall>l. vs = Some l \<longrightarrow> length l = 16"
  shows "evolves p p'"
proof (cases "\<exists>t th ok r. thread_at p t = Some th \<and> gem_arm64ec_runtime_set_native_upper_simd (wt_runtime th) vs = (ok, r) \<and>
    p' = set_thread t (th\<lparr>wt_runtime := r\<rparr>) p")
  case True
  then obtain t th ok r where t: "thread_at p t = Some th" "gem_arm64ec_runtime_set_native_upper_simd (wt_runtime th) vs = (ok, r)"
    "p' = set_thread t (th\<lparr>wt_runtime := r\<rparr>) p" by blast
  have "process_ok p \<Longrightarrow> thread_ok (modes p) (th\<lparr>wt_runtime := r\<rparr>)"
    using process_thread [OF _ t(1)] native_simd [OF t(2) assms(2)] by (auto simp: thread_ok_def split: prod.splits)
  then show ?thesis using t evolves_set [of p t th] by simp
qed (use assms in \<open>auto simp: gem_wine_thread_set_native_upper_simd_def split: option.splits if_splits prod.splits\<close>)

lemma async_stop_evolves:
  assumes "gem_wine_thread_request_async_stop W L p to = Some p'"
  shows "evolves p p'"
proof (cases to)
  case (Some t)
  then obtain th where t: "thread_at p t = Some th" using assms by (auto simp: gem_wine_thread_request_async_stop_def split: option.splits)
  let ?f = "\<lambda>y. case gem_hybrid_runtime_request_async_stop (Some y) of None \<Rightarrow> y | Some y' \<Rightarrow> y'"
  let ?th = "th\<lparr>wt_hybrids := (case wt_active_hybrid th of None \<Rightarrow> wt_hybrids th | Some n \<Rightarrow> on_binding n ?f (wt_hybrids th)),
     wt_x64_runtime := gem_x64_runtime_request_async_stop (wt_x64_runtime th),
     wt_i386_runtime := gem_i386_runtime_request_async_stop (wt_i386_runtime th),
     wt_runtime := gem_arm64ec_runtime_request_async_stop (native_engine W L p) (wt_runtime th)\<rparr>"
  have "process_ok p \<Longrightarrow> thread_ok (modes p) ?th"
    using process_thread [OF _ t]
    by (auto simp: thread_ok_def native_requests gem_x64_runtime_request_async_stop_def gem_i386_runtime_request_async_stop_def
        split: prod.splits option.splits dest!: native_requests(4))
  then have "evolves p (set_thread t ?th p)" by (intro evolves_set [OF t]) simp_all
  then show ?thesis using assms t Some by (simp add: gem_wine_thread_request_async_stop_def)
qed (use assms in \<open>simp add: gem_wine_thread_request_async_stop_def\<close>)

lemma unlock_evolves: "unlock_run_lock t p = Some p' \<Longrightarrow> evolves p p'"
  by (auto simp: unlock_run_lock_def split: option.splits intro!: evolves_set dest: process_thread)

end
