(* ===== verification/Gem_Wine_Segments.thy ===== *)
theory Gem_Wine_Segments
  imports Gem_Wine_Calls
begin

text \<open>
  A segment of a run comes back, and leaves the process and the thread in order.
\<close>

section \<open>What the bridge relies on\<close>

text \<open>
  The engine of a coordinator changes the coordinator through the broker only, and the native engine
  leaves the configuration and the attachments of its runtime alone.
\<close>

definition parts_ok :: "('d, 'b) wine_parts \<Rightarrow> bool" where
  "parts_ok W \<longleftrightarrow> (\<forall>L p. broker_only (wine_hybrid_parts W L p)) \<and> (\<forall>B. backend_keeps (wn_native W B))"

lemma parts_okD: "parts_ok W \<Longrightarrow> broker_only (wine_hybrid_parts W L p)" "parts_ok W \<Longrightarrow> backend_keeps (native_engine W L p)"
  by (simp_all add: parts_ok_def native_engine_def)

text \<open>What a segment leaves: the process in order and the thread still there.\<close>

definition segment_leaves :: "('d, 'b) gem_wine_process \<Rightarrow> nat \<Rightarrow> ('d, 'b) gem_wine_thread \<Rightarrow> ('d, 'b) gem_wine_process \<Rightarrow> bool" where
  "segment_leaves p t th p' \<longleftrightarrow> process_ok p' \<and> follows p p' \<and> (\<exists>th'. thread_at p' t = Some th' \<and> identity th' = identity th)"

lemma leaves_set:
  assumes "process_ok p" and t: "thread_at p t = Some th" and "thread_ok (modes p) th'" and "identity th' = identity th"
  shows "segment_leaves p t th (set_thread t th' (p\<lparr>wp_memory := m\<rparr>))" "segment_leaves p t th (set_thread t th' p)"
proof -
  have "evolves (p\<lparr>wp_memory := m\<rparr>) (set_thread t th' (p\<lparr>wp_memory := m\<rparr>))" "evolves p (set_thread t th' p)"
    by (rule evolves_set [of _ t th]; use assms in simp)+
  then show "segment_leaves p t th (set_thread t th' (p\<lparr>wp_memory := m\<rparr>))" "segment_leaves p t th (set_thread t th' p)"
    using assms evolves_trans [OF evolves_memory [of p m]] by (auto simp: segment_leaves_def evolves_def)
qed

section \<open>Segments\<close>

lemma bind_facts:
  assumes th: "thread_ok (modes p) th" and i: "wi_number i < length (wp_images p)" "wp_arm64x_routing_enabled p"
    and f: "find_or_create_hybrid W L ok A p i th = (bo, th1)"
  shows "thread_ok (modes p) (th1\<lparr>wt_coordinator_hybrid := bo\<rparr>) \<and> identity th1 = identity th \<and> (\<forall>b. bo = Some b \<longrightarrow> b \<in> hb_image ` set (wt_hybrids th1))"
proof (cases "th1 = th")
  case True
  then have "bo = None \<or> bo = Some (wi_number i) \<and> wi_number i \<in> hb_image ` set (wt_hybrids th)"
    using f by (auto simp: find_or_create_hybrid_def list_ex_iff split: if_splits option.splits dest: arg_cong [of _ _ wt_hybrids] intro: rev_image_eqI)
  then show ?thesis using th True by (auto simp: thread_ok_def modes_def)
next
  case False
  then obtain y where c: "gem_hybrid_runtime_create (wine_hybrid_parts W L p) A (Some (wp_memory p)) (Some (wi_metadata i))
        (Some (wine_hybrid_config W p (wi_config i))) = Some y"
    and y: "\<not> list_ex (\<lambda>b. hb_image b = wi_number i) (wt_hybrids th)" "bo = Some (wi_number i)"
      "th1 = th\<lparr>wt_hybrids := \<lparr>hb_image = wi_number i, hb_runtime = y\<rparr> # wt_hybrids th\<rparr>"
    using f by (auto simp: find_or_create_hybrid_def split: if_splits option.splits)
  have "wi_number i \<notin> hb_image ` set (wt_hybrids th)" using y(1) by (auto simp: list_ex_iff)
  then show ?thesis using th i y(2,3) created_ok [OF c] by (auto simp: thread_ok_def modes_def hybrids_ok_def)
qed

lemma choose_facts:
  assumes p: "process_ok p" and th: "thread_ok (modes p) th" and c: "choose_hybrid W V n p th c = (bo, th')"
  shows "thread_ok (modes p) th' \<and> identity th' = identity th \<and> (\<forall>b. bo = Some b \<longrightarrow> b \<in> hb_image ` set (wt_hybrids th'))"
proof (cases "wt_coordinator_hybrid th")
  case None
  let ?i = "if wp_arm64x_routing_enabled p then find_image_for_pc (lk_images (wv_locks V n)) (wp_images p) (pc c) else None"
  show ?thesis
  proof (cases ?i)
    case (Some i)
    obtain b th1 where f: "find_or_create_hybrid W (wv_locks V n) (wv_binding V n) (wv_allocations V n) p i th = (b, th1)" by fastforce
    have i: "wp_arm64x_routing_enabled p" "i \<in> set (wp_images p)"
      using Some by (auto simp: find_image_for_pc_def find_Some_iff split: if_splits)
    then have "wi_number i < length (wp_images p)" using images_numbers p by (auto simp: process_ok_def)
    from bind_facts [OF th this i(1) f] show ?thesis using c None Some f by (auto simp: choose_hybrid_def)
  qed (use c None th in \<open>auto simp: choose_hybrid_def\<close>)
next
  case (Some b)
  then show ?thesis using th c by (auto simp: choose_hybrid_def thread_ok_def split: prod.splits)
qed

lemma binding_ok:
  assumes "thread_ok k th" "find (\<lambda>h. hb_image h = b) (wt_hybrids th) = Some h" "coordinator_ok (hy_core y)"
  shows "coordinator_ok (hy_core (hb_runtime h))" "thread_ok k (th\<lparr>wt_hybrids := on_binding b (\<lambda>_. y) (wt_hybrids th), wt_active_hybrid := None\<rparr>)"
proof -
  have "h \<in> set (wt_hybrids th)" using assms(2) by (auto simp: find_Some_iff)
  then show "coordinator_ok (hy_core (hb_runtime h))" using assms(1) by (auto simp: thread_ok_def hybrids_ok_def split: prod.splits)
  have h: "hybrids_ok (snd (snd (snd k))) (wt_hybrids th)" using assms(1) by (simp add: thread_ok_def split: prod.splits)
  have "hybrids_ok (snd (snd (snd k))) (on_binding b (\<lambda>_. y) (wt_hybrids th))" "hb_image ` set (on_binding b (\<lambda>_. y) (wt_hybrids th)) = hb_image ` set (wt_hybrids th)"
    unfolding on_binding_def by (rule hybrids_map [OF _ h]; simp add: assms(3))+
  moreover have "(on_binding b (\<lambda>_. y) (wt_hybrids th) = []) = (wt_hybrids th = [])" by (simp add: on_binding_def)
  ultimately show "thread_ok k (th\<lparr>wt_hybrids := on_binding b (\<lambda>_. y) (wt_hybrids th), wt_active_hybrid := None\<rparr>)"
    using assms(1) by (auto simp: thread_ok_def split: prod.splits)
qed

text \<open>\<open>th\<close> is the thread as it was, \<open>th1\<close> as it is when the segment begins.\<close>

lemma hybrid_segment_leaves:
  assumes W: "parts_ok W" and p: "process_ok p" and t: "thread_at p t = Some th"
    and th1: "thread_ok (modes p) th1" "identity th1 = identity th" and b: "b \<in> hb_image ` set (wt_hybrids th1)"
  shows "\<exists>p' c' res. hybrid_segment W L E p t th1 b c budget = Some (p', c', res) \<and> segment_leaves p t th p' \<and>
    (\<forall>reason stop. res = Some (reason, stop) \<longrightarrow> ws_instructions_retired stop \<le> budget)"
proof -
  obtain h where h: "find (\<lambda>h. hb_image h = b) (wt_hybrids th1) = Some h"
    using b by (cases "find (\<lambda>h. hb_image h = b) (wt_hybrids th1)") (auto simp: find_None_iff)
  have ok: "coordinator_ok (hy_core (hb_runtime h))"
    using th1(1) h by (auto simp: thread_ok_def hybrids_ok_def find_Some_iff split: prod.splits)
  from run_facts [OF parts_okD(1) [OF W] this, of L p E "wp_memory p" "Some c" budget]
  obtain e y m co st where r: "gem_hybrid_runtime_run (wine_hybrid_parts W L p) E (Some (hb_runtime h)) (wp_memory p) (Some c) budget = Some (e, Some y, m, co, st)"
    and y: "coordinator_ok (hy_core y)" and st: "retired_in st \<le> unat budget" by blast
  let ?th = "th1\<lparr>wt_hybrids := on_binding b (\<lambda>_. y) (wt_hybrids th1), wt_active_hybrid := None\<rparr>"
  have q: "thread_ok (modes p) ?th" by (rule binding_ok [OF th1(1) h y])
  then have "thread_ok (modes p) (?th\<lparr>wt_coordinator_hybrid := None\<rparr>)" by (auto simp: thread_ok_def split: prod.splits)
  then have "segment_leaves p t th (set_thread t (?th\<lparr>wt_coordinator_hybrid := None\<rparr>) (p\<lparr>wp_memory := m\<rparr>))"
    by (rule leaves_set [OF p t]) (simp add: th1(2))
  moreover have "segment_leaves p t th (set_thread t ?th (p\<lparr>wp_memory := m\<rparr>))" by (rule leaves_set [OF p t q]) (simp add: th1(2))
  moreover have "unat (st_arm64ec_instructions_retired st + st_x64_instructions_retired st) \<le> unat budget"
    using st unat_plus_simple retired_in_def by (metis (no_types, lifting) order_trans unat_word_ariths(1) mod_less_eq_dividend)
  ultimately show ?thesis
    by (cases "hs_source (hr_last_stop (hy_core y))")
      (simp_all add: hybrid_segment_def h r gem_hybrid_runtime_last_stop_info_def copy_hybrid_stop_info_def Let_def word_le_nat_alt)
qed

lemma x64_run_within:
  assumes "gem_x64_runtime_run B E (Some r) m co budget = (e, ro, m', co')"
  shows "\<exists>r'. ro = Some r' \<and> xs_instructions_retired (xr_last_stop r') \<le> budget"
proof -
  have "of_nat n1 \<le> budget" if "x64_loop B E (unat budget) 0 GEM_STOP_BUDGET_EXPIRED r0 m0 inp c0 = (e1, n1, r1, m1, c1)" "budget \<noteq> 0" for n1 r0 m0 inp c0 e1 r1 m1 c1
  proof -
    have "x64_loop B E (unat budget) 0 GEM_STOP_NONE r0 m0 inp c0 = (e1, n1, r1, m1, c1)"
      using that loop_reason [of "unat budget" B E 0 GEM_STOP_BUDGET_EXPIRED r0 m0 inp c0 GEM_STOP_NONE] by (simp add: unat_eq_zero)
    then have "n1 \<le> unat budget" using loop_facts(3) by fastforce
    then show ?thesis by (simp add: word_le_nat_alt unat_of_nat order_trans [OF mod_less_eq_dividend])
  qed
  then show ?thesis using assms
    by (auto simp: gem_x64_runtime_run_def Let_def zero_stop_def split: option.splits if_splits prod.splits)
qed

lemma x64_segment_leaves:
  assumes p: "process_ok p" and t: "thread_at p t = Some th" and th1: "thread_ok (modes p) th1" "identity th1 = identity th"
    and x: "wp_x86_64_routing_enabled p"
  shows "\<exists>p' c' res. x64_segment W ok E p t th1 c budget = Some (p', c', res) \<and> segment_leaves p t th p' \<and>
    (\<forall>reason stop. res = Some (reason, stop) \<longrightarrow> ws_instructions_retired stop \<le> budget)"
proof -
  have leaves: "segment_leaves p t th (set_thread t (th1\<lparr>wt_x64_runtime := r\<rparr>) (p\<lparr>wp_memory := m\<rparr>))" "segment_leaves p t th (set_thread t (th1\<lparr>wt_x64_runtime := r\<rparr>) p)" for r m
    by (rule leaves_set [OF p t]; use th1 x in \<open>auto simp: thread_ok_def modes_def\<close>)+
  obtain okx th2 where e: "ensure_x86_64_runtime W ok p th1 = (okx, th2)" by fastforce
  then obtain ro where th2: "th2 = th1\<lparr>wt_x64_runtime := ro\<rparr>" "okx = (ro \<noteq> None)"
    using x by (cases "wt_x64_runtime th1") (force simp: ensure_x86_64_runtime_def Let_def)+
  obtain reason ro' m co where r: "gem_x64_runtime_run (wn_x64 W) E ro (wp_memory p) (Some c) budget = (reason, ro', m, co)" by (metis prod_cases4)
  show ?thesis
  proof (cases ro)
    case (Some r0)
    then show ?thesis using x64_run_within [OF r [unfolded Some]] e th2 r leaves
      by (auto simp: x64_segment_def gem_x64_runtime_last_stop_info_def copy_x64_stop_info_def Let_def)
  qed (use e th2 leaves in \<open>auto simp: x64_segment_def\<close>)
qed

text \<open>The native engine counts no more instructions than it was given, for the engines that keep to it.\<close>

definition native_within :: "('d, 'b) wine_parts \<Rightarrow> bool" where
  "native_within W \<longleftrightarrow> (\<forall>B r m c n e r' m' c'. backend_run (wn_native W B) r m c n = (e, r', m', c') \<longrightarrow>
     as_instructions_retired (ar_last_stop r') \<le> n)"

lemma native_run_within:
  assumes "native_within W" "gem_arm64ec_runtime_run (native_engine W L p) (Some r) m co budget = (e, Some r', m', co')"
  shows "as_instructions_retired (ar_last_stop r') \<le> budget"
  using assms(2) assms(1) [unfolded native_within_def, rule_format]
  by (auto simp: gem_arm64ec_runtime_run_def native_engine_def finish_stop_def stop_with_def reset_stop_def zero_arm64ec_stop_def Let_def
      split: if_splits prod.splits)

lemma native_segment_leaves:
  assumes W: "parts_ok W" and p: "process_ok p" and t: "thread_at p t = Some th" and th1: "thread_ok (modes p) th1" "identity th1 = identity th"
    and i: "\<not> wt_i386_thread th"
  shows "\<exists>p' c' res. native_segment W L p t th1 c budget = Some (p', c', res) \<and> segment_leaves p t th p' \<and>
    (native_within W \<longrightarrow> (\<forall>reason stop. res = Some (reason, stop) \<longrightarrow> ws_instructions_retired stop \<le> budget))"
proof -
  obtain r where r: "wt_runtime th1 = Some r" "native_ok r" using th1 i by (auto simp: thread_ok_def identity_def split: prod.splits)
  obtain reason ro' m co where run: "gem_arm64ec_runtime_run (native_engine W L p) (Some r) (wp_memory p) (Some c) budget = (reason, ro', m, co)" by (metis prod_cases4)
  from native_run [OF parts_okD(2) [OF W] r(2) run] obtain r' where r': "ro' = Some r'" "native_ok r'" by blast
  have "segment_leaves p t th (set_thread t (th1\<lparr>wt_runtime := Some r'\<rparr>) (p\<lparr>wp_memory := m\<rparr>))"
    by (rule leaves_set [OF p t]) (use th1 r r' in \<open>auto intro: thread_native\<close>)
  moreover have "segment_leaves p t th (set_thread t th1 p)" by (rule leaves_set [OF p t th1])
  moreover have "native_within W \<longrightarrow> as_instructions_retired (ar_last_stop r') \<le> budget" using native_run_within run r' by blast
  ultimately show ?thesis using r r' run
    by (auto simp: native_segment_def gem_arm64ec_runtime_last_stop_info_def copy_stop_info_def Let_def)
qed

lemma segment_facts:
  assumes W: "parts_ok W" and p: "process_ok p" and t: "thread_at p t = Some th" and i: "\<not> wt_i386_thread th"
  shows "\<exists>h p' c' res. wine_segment W V n p t th c budget = (h, Some (p', c', res)) \<and> segment_leaves p t th p' \<and>
    (native_within W \<longrightarrow> (\<forall>reason stop. res = Some (reason, stop) \<longrightarrow> ws_instructions_retired stop \<le> budget))"
proof -
  obtain bo th1 where c: "choose_hybrid W V n p th c = (bo, th1)" by fastforce
  note f = choose_facts [OF p process_thread [OF p t] c]
  show ?thesis
  proof (cases bo)
    case (Some b)
    then show ?thesis using hybrid_segment_leaves [OF W p t, of th1 b "wv_locks V n" "wv_hybrid V n" c budget] f c by (auto simp: wine_segment_def)
  next
    case None
    then show ?thesis
      using x64_segment_leaves [OF p t, of th1 W "wv_x64_alloc V n" "wv_x64 V n" c budget] native_segment_leaves [OF W p t _ _ i, of th1 "wv_locks V n" c budget] f c
      by (cases "isa c = isa_code GEM_ISA_X64 \<and> wp_x86_64_routing_enabled p") (auto simp: wine_segment_def)
  qed
qed

lemma i386_run_keeps: "gem_i386_runtime_run ops E q ro m co budget = Some (e, ro', m', co') \<Longrightarrow> (ro' = None) = (ro = None)"
  by (auto simp: gem_i386_runtime_run_def Let_def split: option.splits if_splits sum.splits)

lemma i386_segment_leaves:
  assumes p: "process_ok p" and t: "thread_at p t = Some th" and s: "i386_segment W E q p t th c budget = Some (p', c', res)"
  shows "segment_leaves p t th p'"
proof -
  have "segment_leaves p t th (set_thread t (th\<lparr>wt_i386_runtime := ro\<rparr>) (p\<lparr>wp_memory := m\<rparr>))" if "(ro = None) = (wt_i386_runtime th = None)" for ro m
    by (rule leaves_set [OF p t]) (use process_thread [OF p t] that in \<open>auto simp: thread_ok_def split: prod.splits\<close>)
  then show ?thesis using s
    by (auto simp: i386_segment_def gem_i386_runtime_last_stop_info_def Let_def split: option.splits prod.splits bool.splits dest!: i386_run_keeps)
qed

end
