(* ===== verification/Gem_Wine_Turns.thy ===== *)
theory Gem_Wine_Turns
  imports Gem_Wine_Segments Gem_I386_Engine_Props
begin

text \<open>
  The turns of a run. A loop of turns that keep an invariant and never raise a rank ends, is stuck in a turn
  that does not end, or goes on at one rank forever; both loops of the bridge are such loops.
\<close>

section \<open>Loops of turns\<close>

text \<open>The state after a number of turns.\<close>

primrec after_turns :: "(nat \<Rightarrow> 's \<Rightarrow> ('e + 's) option) \<Rightarrow> 's \<Rightarrow> nat \<Rightarrow> 's option" where
  "after_turns turn s 0 = Some s"
| "after_turns turn s (Suc k) = (case after_turns turn s k of
      None \<Rightarrow> None | Some u \<Rightarrow> (case turn k u of Some (Inr u') \<Rightarrow> Some u' | _ \<Rightarrow> None))"

text \<open>A turn that comes, and leaves the rank as it was.\<close>

definition stalls :: "(nat \<Rightarrow> 's \<Rightarrow> ('e + 's) option) \<Rightarrow> ('s \<Rightarrow> nat) \<Rightarrow> 's \<Rightarrow> nat \<Rightarrow> bool" where
  "stalls turn rank s k \<longleftrightarrow> (\<exists>u u'. after_turns turn s k = Some u \<and> turn k u = Some (Inr u') \<and> rank u' = rank u)"

lemma run_after: "after_turns turn s k = Some u \<Longrightarrow> run_turns turn 0 s = run_turns turn k u"
proof (induction k arbitrary: u)
  case (Suc k)
  then obtain v where v: "after_turns turn s k = Some v" "turn k v = Some (Inr u)" by (auto split: option.splits sum.splits)
  then show ?case using Suc.IH [OF v(1)] run_turns.simps [of turn k v] by simp
qed simp

text \<open>A loop without a result has all its turns or is stuck in one.\<close>

lemma run_None:
  assumes none: "run_turns turn 0 s = None" and turns: "\<And>k u. after_turns turn s k = Some u \<Longrightarrow> turn k u \<noteq> None"
  shows "\<exists>u. after_turns turn s k = Some u"
proof (induction k)
  case (Suc k)
  then obtain u where u: "after_turns turn s k = Some u" by blast
  then have "run_turns turn k u = None" using none run_after by metis
  then show ?case using turns [OF u] run_turns.simps [of turn k u] u by (auto split: option.splits sum.splits)
qed simp

lemma settles:
  assumes "\<And>k. f (Suc k) \<le> (f k :: nat)"
  shows "\<exists>N. \<forall>k \<ge> N. f (Suc k) = f k"
proof -
  obtain N where N: "\<And>k. f N \<le> f k" using ex_has_least_nat [of "\<lambda>_. True" _ f] by auto
  have "f k = f N" if "k \<ge> N" for k
    using that N [of k] lift_Suc_antimono_le [of f, OF assms] by (simp add: le_antisym)
  then show ?thesis by (metis le_Suc_eq)
qed

locale turn_loop =
  fixes turn :: "nat \<Rightarrow> 's \<Rightarrow> ('e + 's) option" and inv :: "'s \<Rightarrow> bool" and post :: "'e \<Rightarrow> bool" and rank :: "'s \<Rightarrow> nat"
  assumes ends: "inv s \<Longrightarrow> turn n s = Some (Inl e) \<Longrightarrow> post e"
    and goes_on: "inv s \<Longrightarrow> turn n s = Some (Inr s') \<Longrightarrow> inv s' \<and> rank s' \<le> rank s"
begin

lemma result:
  assumes "run_turns turn n s = Some e" and "inv s"
  shows "post e"
proof -
  have "turn = turn \<longrightarrow> inv s \<longrightarrow> post e"
  proof (rule run_turns.raw_induct [where P = "\<lambda>tn n s e. tn = turn \<longrightarrow> inv s \<longrightarrow> post e", OF _ assms(1)])
    fix run tn n s e
    assume "\<And>tn n s e. run tn n s = Some e \<Longrightarrow> tn = turn \<longrightarrow> inv s \<longrightarrow> post e"
      and "(case tn n s of None \<Rightarrow> None | Some (Inl e) \<Rightarrow> Some e | Some (Inr s') \<Rightarrow> run tn (Suc n) s') = Some e"
    then show "tn = turn \<longrightarrow> inv s \<longrightarrow> post e" using ends [of s n e] goes_on [of s n] by (auto split: option.splits sum.splits)
  qed
  then show ?thesis using assms(2) by simp
qed

lemma kept: "inv s \<Longrightarrow> after_turns turn s k = Some u \<Longrightarrow> inv u"
  by (induction k arbitrary: u) (auto split: option.splits sum.splits dest: goes_on)

lemma outcome:
  assumes s: "inv s"
  shows "(\<exists>e. run_turns turn 0 s = Some e \<and> post e) \<or> (\<exists>k u. after_turns turn s k = Some u \<and> inv u \<and> turn k u = None) \<or>
    (\<exists>N. \<forall>k \<ge> N. stalls turn rank s k)"
proof (cases "run_turns turn 0 s")
  case None
  show ?thesis
  proof (cases "\<exists>k u. after_turns turn s k = Some u \<and> turn k u = None")
    case False
    let ?u = "\<lambda>k. the (after_turns turn s k)"
    have u: "after_turns turn s k = Some (?u k)" for k using run_None [OF None] False by fastforce
    have t: "turn k (?u k) = Some (Inr (?u (Suc k)))" for k
      using u [of k] u [of "Suc k"] by (auto split: option.splits sum.splits)
    have "rank (?u (Suc k)) \<le> rank (?u k)" for k using goes_on [OF kept [OF s u] t] by blast
    from settles [of "\<lambda>k. rank (?u k)", OF this] show ?thesis using u t unfolding stalls_def by metis
  qed (use kept [OF s] in blast)
qed (use result s in blast)

end

section \<open>The loop of a thread\<close>

text \<open>Callbacks call the bridge and nothing else of it; they may leave the thread that is running alone.\<close>

definition callbacks_keep :: "('d, 'b) wine_environment \<Rightarrow> bool" where
  "callbacks_keep V \<longleftrightarrow> (\<forall>n f a q s p. evolves p (snd (snd (wv_callback V n f a q s p)))) \<and>
     (\<forall>n f a q s p. evolves p (snd (snd (wv_i386_callback V n f a q s p))))"

definition callbacks_spare :: "('d, 'b) wine_environment \<Rightarrow> nat \<Rightarrow> bool" where
  "callbacks_spare V t \<longleftrightarrow> (\<forall>n f a q s p. thread_at p t \<noteq> None \<longrightarrow> thread_at (snd (snd (wv_callback V n f a q s p))) t \<noteq> None) \<and>
     (\<forall>n f a q s p. thread_at p t \<noteq> None \<longrightarrow> thread_at (snd (snd (wv_i386_callback V n f a q s p))) t \<noteq> None)"

text \<open>What holds of the process during a run of thread \<open>t\<close> that began as \<open>th\<close> in \<open>p0\<close>.\<close>

definition on_the_way :: "('d, 'b) wine_environment \<Rightarrow> nat \<Rightarrow> ('d, 'b) gem_wine_process \<Rightarrow> ('d, 'b) gem_wine_process \<Rightarrow> bool" where
  "on_the_way V t p0 p \<longleftrightarrow> process_ok p \<and> follows p0 p \<and> (callbacks_spare V t \<longrightarrow> thread_at p t \<noteq> None)"

text \<open>The counters of a run: callbacks and instructions within their limits, if the engines keep to theirs.\<close>

definition counters_ok :: "bool \<Rightarrow> gem_wine_process_config \<Rightarrow> gem_wine_run_result \<Rightarrow> bool" where
  "counters_ok within k r \<longleftrightarrow> wr_boundary_callbacks r \<le> wpc_max_boundary_callbacks k \<and>
     (within \<longrightarrow> wr_instructions_retired r \<le> wpc_total_instruction_budget k)"

definition counters_left :: "gem_wine_run_result \<Rightarrow> nat" where
  "counters_left r = (2 ^ 64 - unat (wr_instructions_retired r)) + (2 ^ 64 - unat (wr_boundary_callbacks r))"

text \<open>How a run ends: the status with the outcome that goes with it.\<close>

fun status_outcome :: "gem_wine_status \<Rightarrow> gem_wine_run_outcome option" where
  "status_outcome GEM_WINE_OK = Some GEM_WINE_RUN_COMPLETE"
| "status_outcome GEM_WINE_TERMINATED = Some GEM_WINE_RUN_TERMINATED"
| "status_outcome GEM_WINE_BUDGET_EXPIRED = Some GEM_WINE_RUN_BUDGET_EXPIRED"
| "status_outcome GEM_WINE_STOPPED = Some GEM_WINE_RUN_UNHANDLED_STOP"
| "status_outcome GEM_WINE_CALLBACK_ERROR = Some GEM_WINE_RUN_FAILED"
| "status_outcome GEM_WINE_ENGINE_ERROR = Some GEM_WINE_RUN_FAILED"
| "status_outcome _ = None"

definition ended_well :: "bool \<Rightarrow> gem_wine_process_config \<Rightarrow> gem_wine_status \<Rightarrow> gem_wine_run_result \<Rightarrow> bool" where
  "ended_well within k e r \<longleftrightarrow> status_outcome e = Some (wr_outcome r) \<and> (e = GEM_WINE_OK \<longrightarrow> wr_stop_reason r = stop_code GEM_STOP_HOST_RETURN) \<and>
     counters_ok within k r"

text \<open>Between turns, and at the end.\<close>

definition wine_inv :: "('d, 'b) wine_parts \<Rightarrow> ('d, 'b) wine_environment \<Rightarrow> nat \<Rightarrow> ('d, 'b) gem_wine_process \<Rightarrow> ('d, 'b) gem_wine_thread
    \<Rightarrow> ('d, 'b, gem_thread_context) wine_state \<Rightarrow> bool" where
  "wine_inv W V t p0 th0 = (\<lambda>(p, c, r). parts_ok W \<and> callbacks_keep V \<and> t < wp_next p0 \<and> thread_at p0 t = Some th0 \<and> \<not> wt_i386_thread th0 \<and>
     on_the_way V t p0 p \<and> context_valid_for_thread th0 (Some c) \<and> stop_reason c = stop_code GEM_STOP_NONE \<and>
     wr_outcome r = GEM_WINE_RUN_FAILED \<and> counters_ok (native_within W) (wp_config p0) r)"

definition wine_post :: "('d, 'b) wine_parts \<Rightarrow> ('d, 'b) wine_environment \<Rightarrow> nat \<Rightarrow> ('d, 'b) gem_wine_process \<Rightarrow> ('d, 'b) gem_wine_thread
    \<Rightarrow> ('d, 'b, gem_thread_context) wine_end \<Rightarrow> bool" where
  "wine_post W V t p0 th0 = (\<lambda>(e, p, c, r). on_the_way V t p0 p \<and> (e \<noteq> GEM_WINE_ENGINE_ERROR \<longrightarrow> context_valid_for_thread th0 (Some c)) \<and>
     ended_well (native_within W) (wp_config p0) e r)"

definition wine_rank :: "('d, 'b, 'c) wine_state \<Rightarrow> nat" where
  "wine_rank = (\<lambda>(p, c, r). counters_left r)"

lemma way_trans: "on_the_way V t p0 p \<Longrightarrow> process_ok p' \<Longrightarrow> follows p p' \<Longrightarrow> (callbacks_spare V t \<Longrightarrow> thread_at p t \<noteq> None \<Longrightarrow> thread_at p' t \<noteq> None) \<Longrightarrow> on_the_way V t p0 p'"
  unfolding on_the_way_def using follows_trans by blast

lemma way_thread:
  assumes "on_the_way V t p0 p" "thread_at p t = Some th" "t < wp_next p0" "thread_at p0 t = Some th0"
  shows "identity th = identity th0"
  using assms by (auto simp: on_the_way_def follows_def)

lemma valid_identity: "identity th = identity th0 \<Longrightarrow> context_valid_for_thread th co = context_valid_for_thread th0 co"
  by (simp add: context_valid_for_thread_def identity_def split: option.split)

lemma valid_reset: "context_valid_for_thread th (Some c) \<Longrightarrow> context_valid_for_thread th (Some (c\<lparr>stop_reason := stop_code GEM_STOP_NONE\<rparr>))"
  by (simp add: context_valid_for_thread_def)

lemma segment_way: "on_the_way V t p0 p \<Longrightarrow> segment_leaves p t th p' \<Longrightarrow> on_the_way V t p0 p'"
  by (auto simp: segment_leaves_def intro: way_trans)

lemma way_evolves:
  "on_the_way V t p0 p \<Longrightarrow> evolves p p' \<Longrightarrow> (callbacks_spare V t \<Longrightarrow> thread_at p t \<noteq> None \<Longrightarrow> thread_at p' t \<noteq> None) \<Longrightarrow> on_the_way V t p0 p'"
  unfolding evolves_def on_the_way_def using follows_trans by blast

lemma callback_way:
  assumes "callbacks_keep V" "on_the_way V t p0 p" "wv_callback V n f a q s p = (e, ans, p')"
  shows "on_the_way V t p0 p'"
proof (rule way_evolves [OF assms(2)])
  show "evolves p p'" using assms(1,3) unfolding callbacks_keep_def by (metis snd_conv)
  show "callbacks_spare V t \<Longrightarrow> thread_at p t \<noteq> None \<Longrightarrow> thread_at p' t \<noteq> None" using assms(3) unfolding callbacks_spare_def by (metis snd_conv)
qed

lemma i386_callback_way:
  assumes "callbacks_keep V" "on_the_way V t p0 p" "wv_i386_callback V n f a q s p = (e, ans, p')"
  shows "on_the_way V t p0 p'"
proof (rule way_evolves [OF assms(2)])
  show "evolves p p'" using assms(1,3) unfolding callbacks_keep_def by (metis snd_conv)
  show "callbacks_spare V t \<Longrightarrow> thread_at p t \<noteq> None \<Longrightarrow> thread_at p' t \<noteq> None" using assms(3) unfolding callbacks_spare_def by (metis snd_conv)
qed

lemma restore_way:
  assumes w: "on_the_way V t p0 p" and v: "\<forall>l. vs = Some l \<longrightarrow> length l = 16" and r: "restore_simd t arm vs p = Some p'"
  shows "on_the_way V t p0 p'"
proof (cases "\<not> arm")
  case False
  then obtain th where th: "thread_at p t = Some th" "p' = set_thread t (th\<lparr>wt_runtime := snd (gem_arm64ec_runtime_set_native_upper_simd (wt_runtime th) vs)\<rparr>) p"
    using r by (auto simp: restore_simd_def split: option.splits)
  obtain ok ro where s: "gem_arm64ec_runtime_set_native_upper_simd (wt_runtime th) vs = (ok, ro)" by fastforce
  have "process_ok p \<Longrightarrow> thread_ok (modes p) (th\<lparr>wt_runtime := ro\<rparr>)"
    using process_thread [OF _ th(1)] native_simd [OF s v] by (auto simp: thread_ok_def split: prod.splits)
  then have "evolves p p'" using th s evolves_set [of p t th] by simp
  then show ?thesis using way_evolves [OF w] th by auto
qed (use w r in \<open>simp add: restore_simd_def\<close>)

lemma known_simd: "thread_ok k th \<Longrightarrow> gem_arm64ec_runtime_get_native_upper_simd (wt_runtime th) (Some (replicate 16 z)) = (ok, vs) \<Longrightarrow> \<forall>l. vs = Some l \<longrightarrow> length l = 16"
  by (auto simp: gem_arm64ec_runtime_get_native_upper_simd_def thread_ok_def native_ok_def arm64ec_wf_def split: option.splits if_splits prod.splits)

text \<open>Counting a callback.\<close>

lemma count_callback:
  assumes "counters_ok w k r" "\<not> wr_boundary_callbacks r \<ge> wpc_max_boundary_callbacks k"
  shows "counters_ok w k (r\<lparr>wr_boundary_callbacks := wr_boundary_callbacks r + 1\<rparr>)"
    "counters_left (r\<lparr>wr_boundary_callbacks := wr_boundary_callbacks r + 1\<rparr>) < counters_left r"
proof -
  have top: "unat (wpc_max_boundary_callbacks k) < 2 ^ 64" by (rule order_less_le_trans [OF unsigned_less]) simp
  have lt: "unat (wr_boundary_callbacks r) < unat (wpc_max_boundary_callbacks k)" using assms(2) by (simp add: word_less_nat_alt not_le)
  have "unat (wr_boundary_callbacks r + 1) = unat (wr_boundary_callbacks r) + 1"
    using lt top by (subst unat_add_no_wrap) simp_all
  then show "counters_ok w k (r\<lparr>wr_boundary_callbacks := wr_boundary_callbacks r + 1\<rparr>)"
    "counters_left (r\<lparr>wr_boundary_callbacks := wr_boundary_callbacks r + 1\<rparr>) < counters_left r"
    using assms(1) lt top by (auto simp: counters_ok_def counters_left_def word_le_nat_alt)
qed

lemma counters_fields [simp]:
  "counters_ok w k (r\<lparr>wr_outcome := oc\<rparr>) = counters_ok w k r" "counters_ok w k (r\<lparr>wr_last_event := ev\<rparr>) = counters_ok w k r"
  "counters_ok w k (r\<lparr>wr_stop_reason := sr\<rparr>) = counters_ok w k r" "counters_ok w k (r\<lparr>wr_exit_status := es\<rparr>) = counters_ok w k r"
  "counters_ok w k (r\<lparr>wr_stop := st\<rparr>) = counters_ok w k r"
  "counters_left (r\<lparr>wr_outcome := oc\<rparr>) = counters_left r" "counters_left (r\<lparr>wr_last_event := ev\<rparr>) = counters_left r"
  "counters_left (r\<lparr>wr_stop_reason := sr\<rparr>) = counters_left r" "counters_left (r\<lparr>wr_stop := st\<rparr>) = counters_left r"
  by (simp_all add: counters_ok_def counters_left_def)

text \<open>What a turn may leave, ended or not.\<close>

definition turn_ok :: "('s \<Rightarrow> bool) \<Rightarrow> ('e \<Rightarrow> bool) \<Rightarrow> ('e + 's) option \<Rightarrow> bool" where
  "turn_ok going over r \<longleftrightarrow> (case r of None \<Rightarrow> True | Some (Inl e) \<Rightarrow> over e | Some (Inr s) \<Rightarrow> going s)"

lemma turn_ok_simps [simp]: "turn_ok going over (Some (Inl e)) = over e" "turn_ok going over (Some (Inr s)) = going s" "turn_ok going over None"
  by (simp_all add: turn_ok_def)

lemma turn_ok_mono: "turn_ok going over r \<Longrightarrow> (\<And>s. going s \<Longrightarrow> going' s) \<Longrightarrow> turn_ok going' over r"
  by (auto simp: turn_ok_def split: option.splits sum.splits)

lemma boundary_ok:
  assumes inv: "wine_inv W V t p0 th0 (p, c\<lparr>stop_reason := stop_code GEM_STOP_NONE\<rparr>, r)" and c: "context_valid_for_thread th0 (Some c)"
    and th: "thread_at p t = Some th" and n: "\<not> wr_boundary_callbacks r \<ge> wpc_max_boundary_callbacks (wp_config p0)"
  shows "turn_ok (\<lambda>s. wine_inv W V t p0 th0 s \<and> wine_rank s < counters_left r) (wine_post W V t p0 th0) (wine_boundary V k t th event stop (p, c, r))"
proof -
  note i = inv [unfolded wine_inv_def split_def fst_conv snd_conv]
  have id: "identity th = identity th0" using way_thread [of V t p0 p th th0] i th by blast
  obtain known before where g: "gem_arm64ec_runtime_get_native_upper_simd (wt_runtime th) (Some (replicate 16 zero_u128)) = (known, before)" by fastforce
  have before: "\<forall>l. before = Some l \<longrightarrow> length l = 16" using known_simd [OF process_thread [OF _ th] g] i by (simp add: on_the_way_def)
  let ?r = "r\<lparr>wr_boundary_callbacks := wr_boundary_callbacks r + 1\<rparr>"
  obtain st a p1 where cb: "wv_callback V k (wtc_boundary (wt_config th)) (wtc_opaque (wt_config th)) (boundary_request event 776 c stop) (empty_response 736 c) p = (st, a, p1)"
    by (metis prod_cases3)
  have w: "on_the_way V t p0 p1" using callback_way [OF _ _ cb] i by blast
  note cnt = count_callback [of "native_within W" "wp_config p0" r, OF _ n]
  have cok: "counters_ok (native_within W) (wp_config p0) r" using i by blast
  show ?thesis
    unfolding wine_boundary_def Let_def split_def g fst_conv snd_conv cb turn_ok_def
    using i w cnt [OF cok] cok c before restore_way [OF w before]
    by (auto simp: wine_post_def wine_inv_def wine_rank_def ended_well_def resumes_def Let_def valid_identity [OF id] split: option.splits)
qed

lemma count_retired:
  assumes "counters_ok w k r" "\<not> out_of_budget k r" "\<not> s > - 1 - wr_instructions_retired r" "w \<longrightarrow> s \<le> segment_budget k r"
  shows "counters_ok w k (r\<lparr>wr_instructions_retired := wr_instructions_retired r + s\<rparr>)"
    "counters_left (r\<lparr>wr_instructions_retired := wr_instructions_retired r + s\<rparr>) \<le> counters_left r"
    "s \<noteq> 0 \<Longrightarrow> counters_left (r\<lparr>wr_instructions_retired := wr_instructions_retired r + s\<rparr>) < counters_left r"
proof -
  have "s \<le> - 1 - wr_instructions_retired r" using assms(3) by (simp only: not_less)
  then have "unat s + unat (wr_instructions_retired r) < 2 ^ 64" by (simp only: no_wrap_iff) simp
  then have top: "unat (wr_instructions_retired r) + unat s < 2 ^ 64" by linarith
  then have sum: "unat (wr_instructions_retired r + s) = unat (wr_instructions_retired r) + unat s" by (intro unat_add_no_wrap) simp
  show "counters_left (r\<lparr>wr_instructions_retired := wr_instructions_retired r + s\<rparr>) \<le> counters_left r"
    by (simp add: counters_left_def sum)
  show "counters_left (r\<lparr>wr_instructions_retired := wr_instructions_retired r + s\<rparr>) < counters_left r" if "s \<noteq> 0"
  proof -
    have "0 < unat s" using that by (simp add: unat_gt_0)
    then show ?thesis using top by (simp add: counters_left_def sum diff_less_mono2)
  qed
  have "wr_instructions_retired r + s \<le> wpc_total_instruction_budget k" if w
  proof -
    have "s \<le> wpc_total_instruction_budget k - wr_instructions_retired r"
      using assms(4) that by (auto simp: segment_budget_def Let_def not_less split: if_splits)
    moreover have "unat (wpc_total_instruction_budget k - wr_instructions_retired r) = unat (wpc_total_instruction_budget k) - unat (wr_instructions_retired r)"
      using assms(2) by (intro unat_sub) (simp add: out_of_budget_def)
    moreover have "unat (wr_instructions_retired r) < unat (wpc_total_instruction_budget k)" using assms(2) by (simp add: out_of_budget_def word_less_nat_alt not_le)
    ultimately show ?thesis by (simp add: word_le_nat_alt sum)
  qed
  then show "counters_ok w k (r\<lparr>wr_instructions_retired := wr_instructions_retired r + s\<rparr>)" using assms(1) by (simp add: counters_ok_def)
qed

text \<open>Before a segment is settled: as between turns, with the thread at hand and the context unchecked.\<close>

definition wine_before :: "('d, 'b) wine_parts \<Rightarrow> ('d, 'b) wine_environment \<Rightarrow> nat \<Rightarrow> ('d, 'b) gem_wine_process \<Rightarrow> ('d, 'b) gem_wine_thread
    \<Rightarrow> ('d, 'b) gem_wine_process \<Rightarrow> gem_wine_run_result \<Rightarrow> bool" where
  "wine_before W V t p0 th0 p r \<longleftrightarrow> parts_ok W \<and> callbacks_keep V \<and> t < wp_next p0 \<and> thread_at p0 t = Some th0 \<and> \<not> wt_i386_thread th0 \<and>
     on_the_way V t p0 p \<and> wr_outcome r = GEM_WINE_RUN_FAILED \<and> counters_ok (native_within W) (wp_config p0) r"

lemma before_inv:
  "wine_inv W V t p0 th0 (p, c, r) \<longleftrightarrow> wine_before W V t p0 th0 p r \<and> context_valid_for_thread th0 (Some c) \<and> stop_reason c = stop_code GEM_STOP_NONE"
  by (auto simp: wine_inv_def wine_before_def)

text \<open>A turn that lowers no counter is a transition.\<close>

definition next_ok :: "('d, 'b) wine_parts \<Rightarrow> ('d, 'b) wine_environment \<Rightarrow> nat \<Rightarrow> ('d, 'b) gem_wine_process \<Rightarrow> ('d, 'b) gem_wine_thread \<Rightarrow> nat
    \<Rightarrow> ('d, 'b, gem_thread_context) wine_state \<Rightarrow> bool" where
  "next_ok W V t p0 th0 left s \<longleftrightarrow> wine_inv W V t p0 th0 s \<and> wine_rank s \<le> left \<and>
     (wine_rank s = left \<longrightarrow> wr_stop_reason (snd (snd s)) = stop_code GEM_STOP_ARCH_TRANSITION)"

lemma settle_ok:
  assumes b: "wine_before W V t p0 th0 p r" and th: "thread_at p t = Some th"
    and o: "\<not> out_of_budget (wp_config p0) r" and s: "native_within W \<longrightarrow> ws_instructions_retired stop \<le> segment_budget (wp_config p0) r"
  shows "turn_ok (next_ok W V t p0 th0 (counters_left r)) (wine_post W V t p0 th0) (wine_settle V n t th h reason stop (p, c, r))"
proof -
  have k: "wp_config p = wp_config p0" and w: "on_the_way V t p0 p" using b by (simp_all add: wine_before_def on_the_way_def follows_def)
  have id: "identity th = identity th0" using way_thread [OF w th] b by (simp add: wine_before_def)
  let ?r1 = "r\<lparr>wr_stop := stop, wr_stop_reason := stop_code reason\<rparr>"
  define r2 where "r2 = ?r1\<lparr>wr_instructions_retired := wr_instructions_retired ?r1 + ws_instructions_retired stop\<rparr>"
  have c1: "counters_ok (native_within W) (wp_config p0) ?r1" "wr_outcome ?r1 = GEM_WINE_RUN_FAILED" using b by (simp_all add: wine_before_def)
  have ended: "wine_post W V t p0 th0 (e, p, c, q)"
    if "status_outcome e = Some (wr_outcome q)" "e = GEM_WINE_OK \<longrightarrow> wr_stop_reason q = stop_code GEM_STOP_HOST_RETURN"
      "counters_ok (native_within W) (wp_config p0) q" "e = GEM_WINE_ENGINE_ERROR \<or> context_valid_for_thread th (Some c)" for e q
    using that w by (auto simp: wine_post_def ended_well_def valid_identity [OF id])
  show ?thesis
  proof (cases "ws_instructions_retired stop > - 1 - wr_instructions_retired r")
    case True
    then show ?thesis using c1 ended by (simp add: wine_settle_def)
  next
    case nw: False
    have c2: "counters_ok (native_within W) (wp_config p0) r2" "counters_left r2 \<le> counters_left r" "wr_outcome r2 = GEM_WINE_RUN_FAILED"
        "ws_instructions_retired stop \<noteq> 0 \<Longrightarrow> counters_left r2 \<noteq> counters_left r" "wr_stop_reason r2 = stop_code reason"
      using count_retired [of "native_within W" "wp_config p0" ?r1 "ws_instructions_retired stop"] c1 o s nw
      by (simp_all add: out_of_budget_def segment_budget_def r2_def)
    show ?thesis
    proof (cases "context_valid_for_thread th (Some c)")
      case False
      then show ?thesis unfolding wine_settle_def Let_def prod.case r2_def [symmetric] using nw c2 by (simp add: ended)
    next
      case valid: True
      let ?r3 = "r2\<lparr>wr_last_event := event_code (classify_event (wp_config p0) reason c stop)\<rparr>"
      have going: "wine_inv W V t p0 th0 (p, c\<lparr>stop_reason := stop_code GEM_STOP_NONE\<rparr>, q)"
        if "counters_ok (native_within W) (wp_config p0) q" "wr_outcome q = GEM_WINE_RUN_FAILED" for q
        using that b valid valid_reset [of th0 c] by (auto simp: before_inv wine_before_def valid_identity [OF id])
      have bd: "turn_ok (next_ok W V t p0 th0 (counters_left r)) (wine_post W V t p0 th0)
          (wine_boundary V n t th (classify_event (wp_config p0) reason c stop) stop (p, c, ?r3))"
        if "\<not> wr_boundary_callbacks ?r3 \<ge> wpc_max_boundary_callbacks (wp_config p0)"
      proof (rule turn_ok_mono [OF boundary_ok [OF going [of ?r3] _ th that]])
        show "counters_ok (native_within W) (wp_config p0) ?r3" "wr_outcome ?r3 = GEM_WINE_RUN_FAILED" using c2 by simp_all
        show "context_valid_for_thread th0 (Some c)" using valid by (simp add: valid_identity [OF id])
        show "wine_inv W V t p0 th0 u \<and> wine_rank u < counters_left ?r3 \<Longrightarrow> next_ok W V t p0 th0 (counters_left r) u" for u
          using c2(2) by (simp add: next_ok_def)
      qed
      show ?thesis
        unfolding wine_settle_def Let_def prod.case k r2_def [symmetric]
        using nw valid c2 going [of r2] bd
        by (simp add: next_ok_def wine_rank_def ended)
    qed
  qed
qed

lemma boundary_some:
  assumes "callbacks_spare V t" "thread_at p t \<noteq> None"
  shows "wine_boundary V n t th event stop (p, c, r) \<noteq> None"
proof -
  have "thread_at (snd (snd (wv_callback V n f a q s p))) t \<noteq> None" for f a q s
    using assms unfolding callbacks_spare_def by blast
  moreover have "restore_simd t arm vs p' \<noteq> None" if "thread_at p' t \<noteq> None" for p' arm vs
    using that by (auto simp: restore_simd_def split: option.splits)
  ultimately have "restore_simd t arm vs (snd (snd (wv_callback V n f a q s p))) \<noteq> None" for f a q s arm vs by blast
  then show ?thesis by (simp add: wine_boundary_def Let_def split_def)
qed

lemma wine_iteration_ok:
  assumes inv: "wine_inv W V t p0 th0 (p, c, r)"
  shows "turn_ok (next_ok W V t p0 th0 (counters_left r)) (wine_post W V t p0 th0) (wine_iteration W V n t (p, c, r))"
    "callbacks_spare V t \<Longrightarrow> wine_iteration W V n t (p, c, r) \<noteq> None"
proof -
  note i = inv [unfolded wine_inv_def split_def fst_conv snd_conv]
  have k: "wp_config p = wp_config p0" and w: "on_the_way V t p0 p" and p: "process_ok p" using i by (auto simp: on_the_way_def follows_def)
  have stop: "wine_post W V t p0 th0 (GEM_WINE_ENGINE_ERROR, p', c', r)" if "on_the_way V t p0 p'" for p' c'
    using i that by (auto simp: wine_post_def ended_well_def)
  have over: "wine_post W V t p0 th0 (budget_end (p, c, r))" using i by (auto simp: wine_post_def ended_well_def budget_end_def)
  have "turn_ok (next_ok W V t p0 th0 (counters_left r)) (wine_post W V t p0 th0) (wine_iteration W V n t (p, c, r)) \<and>
      (callbacks_spare V t \<longrightarrow> wine_iteration W V n t (p, c, r) \<noteq> None)"
  proof (cases "thread_at p t")
    case None
    then show ?thesis using w by (auto simp: wine_iteration_def on_the_way_def)
  next
    case (Some th)
    show ?thesis
    proof (cases "out_of_budget (wp_config p) r \<or> \<not> lk_runtime (wv_locks V n) t")
      case True
      then show ?thesis using Some stop [OF w] over by (auto simp: wine_iteration_def)
    next
      case False
      have "\<not> wt_i386_thread th" using way_thread [OF w Some, of th0] i by (auto simp: identity_def)
      from segment_facts [OF _ p Some this, of W V n c "segment_budget (wp_config p) r"] i
      obtain h p1 c1 res where seg: "wine_segment W V n p t th c (segment_budget (wp_config p) r) = (h, Some (p1, c1, res))" and l: "segment_leaves p t th p1"
        and bound: "native_within W \<longrightarrow> (\<forall>reason stop. res = Some (reason, stop) \<longrightarrow> ws_instructions_retired stop \<le> segment_budget (wp_config p) r)" by blast
      have w1: "on_the_way V t p0 p1" by (rule segment_way [OF w l])
      obtain th1 where th1: "thread_at p1 t = Some th1" using l by (auto simp: segment_leaves_def)
      show ?thesis
      proof (cases res)
        case None
        then show ?thesis using Some False seg stop [OF w1] by (simp add: wine_iteration_def)
      next
        case res: (Some rs)
        obtain reason st where rs: "rs = (reason, st)" by fastforce
        have b: "wine_before W V t p0 th0 p1 r" using i w1 by (simp add: wine_before_def)
        have "turn_ok (next_ok W V t p0 th0 (counters_left r)) (wine_post W V t p0 th0) (wine_settle V n t th1 h reason st (p1, c1, r))"
          by (rule settle_ok [OF b th1]) (use False bound res rs k in auto)
        moreover have "callbacks_spare V t \<longrightarrow> wine_settle V n t th1 h reason st (p1, c1, r) \<noteq> None"
          using boundary_some [of V t p1] th1 by (auto simp: wine_settle_def Let_def)
        ultimately show ?thesis using Some False seg res rs th1 by (simp add: wine_iteration_def)
      qed
    qed
  qed
  then show "turn_ok (next_ok W V t p0 th0 (counters_left r)) (wine_post W V t p0 th0) (wine_iteration W V n t (p, c, r))"
    "callbacks_spare V t \<Longrightarrow> wine_iteration W V n t (p, c, r) \<noteq> None" by blast+
qed

interpretation wine: turn_loop "\<lambda>n. wine_iteration W V n t" "wine_inv W V t p0 th0" "wine_post W V t p0 th0" wine_rank
proof
  fix n e and s s' :: "('a, 'b, gem_thread_context) wine_state"
  obtain p c r where s: "s = (p, c, r)" by (metis prod_cases3)
  assume "wine_inv W V t p0 th0 s"
  note ok = wine_iteration_ok(1) [OF this [unfolded s], of n]
  show "wine_iteration W V n t s = Some (Inl e) \<Longrightarrow> wine_post W V t p0 th0 e" using ok by (simp add: s)
  show "wine_iteration W V n t s = Some (Inr s') \<Longrightarrow> wine_inv W V t p0 th0 s' \<and> wine_rank s' \<le> wine_rank s"
    using ok by (simp add: s next_ok_def wine_rank_def)
qed

section \<open>The loop of an i386 thread\<close>

definition i386_inv :: "('d, 'b) wine_environment \<Rightarrow> nat \<Rightarrow> ('d, 'b) gem_wine_process \<Rightarrow> ('d, 'b) gem_wine_thread
    \<Rightarrow> ('d, 'b, gem_i386_context) wine_state \<Rightarrow> bool" where
  "i386_inv V t p0 th0 = (\<lambda>(p, c, r). callbacks_keep V \<and> t < wp_next p0 \<and> thread_at p0 t = Some th0 \<and>
     on_the_way V t p0 p \<and> i386_context_for th0 c \<and> i386_stop_reason c = stop_code GEM_STOP_NONE \<and>
     wr_outcome r = GEM_WINE_RUN_FAILED \<and> counters_ok False (wp_config p0) r)"

definition i386_post :: "('d, 'b) wine_environment \<Rightarrow> nat \<Rightarrow> ('d, 'b) gem_wine_process \<Rightarrow> ('d, 'b) gem_wine_thread
    \<Rightarrow> ('d, 'b, gem_i386_context) wine_end \<Rightarrow> bool" where
  "i386_post V t p0 th0 = (\<lambda>(e, p, c, r). on_the_way V t p0 p \<and> (e \<noteq> GEM_WINE_ENGINE_ERROR \<longrightarrow> i386_context_for th0 c) \<and>
     ended_well False (wp_config p0) e r)"

text \<open>The count of instructions is added without a check, and the engine counts in 32 bits: it cannot wrap for budgets below this.\<close>

definition budget_small :: "gem_wine_process_config \<Rightarrow> bool" where
  "budget_small k \<longleftrightarrow> unat (wpc_total_instruction_budget k) + 2 ^ 32 \<le> 2 ^ 64"

definition i386_rank :: "gem_wine_process_config \<Rightarrow> ('d, 'b, gem_i386_context) wine_state \<Rightarrow> nat" where
  "i386_rank k = (\<lambda>(p, c, r). if budget_small k then counters_left r else 0)"

definition i386_turn_next :: "('d, 'b) wine_environment \<Rightarrow> nat \<Rightarrow> ('d, 'b) gem_wine_process \<Rightarrow> ('d, 'b) gem_wine_thread \<Rightarrow> nat
    \<Rightarrow> ('d, 'b, gem_i386_context) wine_state \<Rightarrow> bool" where
  "i386_turn_next V t p0 th0 left s \<longleftrightarrow> i386_inv V t p0 th0 s \<and> (budget_small (wp_config p0) \<longrightarrow> counters_left (snd (snd s)) < left)"

lemma i386_valid_identity: "identity th = identity th0 \<Longrightarrow> i386_context_for th c = i386_context_for th0 c"
  by (simp add: i386_context_for_def identity_def)

lemma i386_valid_reset: "i386_context_for th c \<Longrightarrow> i386_context_for th (c\<lparr>i386_stop_reason := stop_code GEM_STOP_NONE\<rparr>)"
  unfolding i386_context_for_def using valid_i386_stop [of c GEM_STOP_NONE] by (simp del: stop_code.simps)

lemma i386_boundary_ok:
  assumes inv: "i386_inv V t p0 th0 (p, c\<lparr>i386_stop_reason := stop_code GEM_STOP_NONE\<rparr>, r)" and c: "i386_context_for th0 c"
    and id: "identity th = identity th0" and n: "\<not> wr_boundary_callbacks r \<ge> wpc_max_boundary_callbacks (wp_config p0)"
  shows "turn_ok (i386_turn_next V t p0 th0 (counters_left r)) (i386_post V t p0 th0) (Some (i386_boundary V k th event stop (p, c, r)))"
proof -
  note i = inv [unfolded i386_inv_def split_def fst_conv snd_conv]
  obtain st a p1 where cb: "wv_i386_callback V k (wjc_boundary (wt_i386_config th)) (wjc_opaque (wt_i386_config th)) (boundary_request event 504 c stop)
      (empty_response 464 c) p = (st, a, p1)" by (metis prod_cases3)
  have w: "on_the_way V t p0 p1" using i386_callback_way [OF _ _ cb] i by blast
  have cok: "counters_ok False (wp_config p0) r" using i by blast
  show ?thesis
    unfolding i386_boundary_def Let_def split_def fst_conv snd_conv cb
    using i w count_callback [OF cok n] cok c
    by (auto simp: i386_post_def i386_inv_def i386_turn_next_def ended_well_def i386_resumes_def Let_def i386_valid_identity [OF id])
qed

lemma count_i386:
  assumes "counters_ok False k r" "\<not> out_of_budget k r" "unat s < 2 ^ 32" "budget_small k"
  shows "counters_left (r\<lparr>wr_instructions_retired := wr_instructions_retired r + s\<rparr>) \<le> counters_left r"
    "s \<noteq> 0 \<Longrightarrow> counters_left (r\<lparr>wr_instructions_retired := wr_instructions_retired r + s\<rparr>) < counters_left r"
proof -
  have "unat (wr_instructions_retired r) < unat (wpc_total_instruction_budget k)" using assms(2) by (simp add: out_of_budget_def word_less_nat_alt not_le)
  then have "unat s + unat (wr_instructions_retired r) < 2 ^ 64" using assms(3,4) unfolding budget_small_def by linarith
  then have "\<not> s > - 1 - wr_instructions_retired r" unfolding not_less no_wrap_iff by simp
  then show "counters_left (r\<lparr>wr_instructions_retired := wr_instructions_retired r + s\<rparr>) \<le> counters_left r"
    "s \<noteq> 0 \<Longrightarrow> counters_left (r\<lparr>wr_instructions_retired := wr_instructions_retired r + s\<rparr>) < counters_left r"
    using count_retired(2,3) [OF assms(1,2)] by blast+
qed

lemma i386_settle_ok:
  assumes inv: "i386_inv V t p0 th0 (p, c0, r)" and id: "identity th = identity th0" and out: "\<not> out_of_budget (wp_config p0) r"
    and s: "unat (ws_instructions_retired stop) < 2 ^ 32"
  shows "turn_ok (i386_turn_next V t p0 th0 (counters_left r)) (i386_post V t p0 th0) (Some (i386_wine_settle V n th reason stop (p, c, r)))"
proof -
  note i = inv [unfolded i386_inv_def split_def fst_conv snd_conv]
  have k: "wp_config p = wp_config p0" and w: "on_the_way V t p0 p" using i by (auto simp: on_the_way_def follows_def)
  let ?r1 = "r\<lparr>wr_stop := stop, wr_stop_reason := stop_code reason\<rparr>"
  define r2 where "r2 = ?r1\<lparr>wr_instructions_retired := wr_instructions_retired r + ws_instructions_retired stop\<rparr>"
  have ended: "i386_post V t p0 th0 (e, p, c, q)"
    if "status_outcome e = Some (wr_outcome q)" "e = GEM_WINE_OK \<longrightarrow> wr_stop_reason q = stop_code GEM_STOP_HOST_RETURN"
      "counters_ok False (wp_config p0) q" "e = GEM_WINE_ENGINE_ERROR \<or> i386_context_for th c" for e q
    using that w by (auto simp: i386_post_def ended_well_def i386_valid_identity [OF id])
  have c1: "counters_ok False (wp_config p0) ?r1" "\<not> out_of_budget (wp_config p0) ?r1" using i out by (simp_all add: out_of_budget_def)
  have c2: "counters_ok False (wp_config p0) r2" "wr_outcome r2 = GEM_WINE_RUN_FAILED" "wr_stop_reason r2 = stop_code reason"
    using i by (simp_all add: r2_def counters_ok_def)
  have left: "budget_small (wp_config p0) \<Longrightarrow> counters_left r2 \<le> counters_left r"
    "budget_small (wp_config p0) \<Longrightarrow> ws_instructions_retired stop \<noteq> 0 \<Longrightarrow> counters_left r2 < counters_left r"
    using count_i386 [OF c1 s] by (simp_all add: r2_def)
  show ?thesis
  proof (cases "i386_context_for th c")
    case False
    then show ?thesis unfolding i386_wine_settle_def Let_def prod.case r2_def [symmetric] using c2 by (simp add: ended)
  next
    case valid: True
    let ?r3 = "r2\<lparr>wr_last_event := event_code (classify_i386_event reason stop)\<rparr>"
    have going: "i386_inv V t p0 th0 (p, c\<lparr>i386_stop_reason := stop_code GEM_STOP_NONE\<rparr>, q)"
      if "counters_ok False (wp_config p0) q" "wr_outcome q = GEM_WINE_RUN_FAILED" for q
      using that i i386_valid_reset [OF valid] by (simp add: i386_inv_def i386_valid_identity [OF id])
    have bd: "turn_ok (i386_turn_next V t p0 th0 (counters_left r)) (i386_post V t p0 th0)
        (Some (i386_boundary V n th (classify_i386_event reason stop) stop (p, c, ?r3)))"
      if "\<not> wr_boundary_callbacks ?r3 \<ge> wpc_max_boundary_callbacks (wp_config p0)"
    proof (rule turn_ok_mono [OF i386_boundary_ok [OF going [of ?r3] _ id that]])
      show "counters_ok False (wp_config p0) ?r3" "wr_outcome ?r3 = GEM_WINE_RUN_FAILED" using c2 by simp_all
      show "i386_context_for th0 c" using valid by (simp add: i386_valid_identity [OF id])
      show "i386_turn_next V t p0 th0 (counters_left ?r3) u \<Longrightarrow> i386_turn_next V t p0 th0 (counters_left r) u" for u
        using left(1) by (auto simp: i386_turn_next_def)
    qed
    show ?thesis
      unfolding i386_wine_settle_def Let_def prod.case k r2_def [symmetric]
      using valid c2 left going [of r2] bd by (simp add: i386_turn_next_def ended)
  qed
qed

lemma i386_stop_small:
  assumes "i386_segment W E q p t th c budget = Some (p', c', Some (reason, stop))"
  shows "unat (ws_instructions_retired stop) < 2 ^ 32"
proof -
  have "unat (ws_instructions_retired (copy_i386_stop_info st)) < 2 ^ 32" for st
  proof -
    have "unat (is_instructions_retired st) < 2 ^ 32" by (rule order_less_le_trans [OF unsigned_less]) simp
    moreover have "unat (ucast w :: u64) \<le> unat w" for w :: u32 by (simp add: unsigned_ucast_eq take_bit_nat_less_eq_self)
    ultimately show ?thesis by (simp add: copy_i386_stop_info_def)
  qed
  then show ?thesis using assms by (auto simp: i386_segment_def Let_def split: option.splits prod.splits bool.splits)
qed

lemma i386_turn_good:
  assumes inv: "i386_inv V t p0 th0 (p, c, r)"
  shows "turn_ok (i386_turn_next V t p0 th0 (counters_left r)) (i386_post V t p0 th0) (i386_wine_iteration W V n t (p, c, r))"
proof -
  note i = inv [unfolded i386_inv_def split_def fst_conv snd_conv]
  have k: "wp_config p = wp_config p0" and w: "on_the_way V t p0 p" and p: "process_ok p" using i by (auto simp: on_the_way_def follows_def)
  have stop: "i386_post V t p0 th0 (GEM_WINE_ENGINE_ERROR, p', c', r)" if "on_the_way V t p0 p'" for p' c'
    using i that by (auto simp: i386_post_def ended_well_def)
  have over: "i386_post V t p0 th0 (budget_end (p, c, r))" using i by (auto simp: i386_post_def ended_well_def budget_end_def)
  show ?thesis
  proof (cases "thread_at p t")
    case (Some th)
    have id: "identity th = identity th0" using way_thread [OF w Some, of th0] i by blast
    show ?thesis
    proof (cases "out_of_budget (wp_config p) r \<or> \<not> lk_runtime (wv_locks V n) t")
      case True
      then show ?thesis using Some stop [OF w] over by (auto simp: i386_wine_iteration_def)
    next
      case False
      show ?thesis
      proof (cases "i386_segment W (wv_i386 V n) (wv_quanta V n) p t th c (segment_budget (wp_config p) r)")
        case (Some a)
        then obtain p1 c1 res where seg: "i386_segment W (wv_i386 V n) (wv_quanta V n) p t th c (segment_budget (wp_config p) r) = Some (p1, c1, res)"
          by (metis prod_cases3)
        have w1: "on_the_way V t p0 p1" by (rule segment_way [OF w i386_segment_leaves [OF p \<open>thread_at p t = Some th\<close> seg]])
        have "turn_ok (i386_turn_next V t p0 th0 (counters_left r)) (i386_post V t p0 th0) (Some (i386_wine_settle V n th reason st (p1, c1, r)))"
          if "res = Some (reason, st)" for reason st
          by (rule i386_settle_ok [of _ _ _ _ _ c, OF _ id]) (use i w1 False k i386_stop_small seg that in \<open>auto simp: i386_inv_def\<close>)
        then show ?thesis using \<open>thread_at p t = Some th\<close> False seg stop [OF w1] by (auto simp: i386_wine_iteration_def split: option.splits)
      qed (use Some False in \<open>simp add: i386_wine_iteration_def\<close>)
    qed
  qed (simp add: i386_wine_iteration_def)
qed

interpretation i386: turn_loop "\<lambda>n. i386_wine_iteration W V n t" "i386_inv V t p0 th0" "i386_post V t p0 th0" "i386_rank (wp_config p0)"
proof
  fix n e and s s' :: "('a, 'b, gem_i386_context) wine_state"
  obtain p c r where s: "s = (p, c, r)" by (metis prod_cases3)
  assume "i386_inv V t p0 th0 s"
  note ok = i386_turn_good [OF this [unfolded s], of W n]
  show "i386_wine_iteration W V n t s = Some (Inl e) \<Longrightarrow> i386_post V t p0 th0 e" using ok by (simp add: s)
  show "i386_wine_iteration W V n t s = Some (Inr s') \<Longrightarrow> i386_inv V t p0 th0 s' \<and> i386_rank (wp_config p0) s' \<le> i386_rank (wp_config p0) s"
    using ok by (auto simp: s i386_turn_next_def i386_rank_def split: prod.splits)
qed

end
