(* ===== verification/Gem_Wine_Theorems.thy ===== *)
theory Gem_Wine_Theorems
  imports Gem_Wine_Turns
begin

text \<open>
  What the bridge promises Wine: processes stay in order under every sequence of calls, and runs come back
  with a status, an outcome and a context that go together.
\<close>

section \<open>Runs\<close>

text \<open>The state a run of thread \<open>t\<close> begins with, its lock taken.\<close>

definition run_begin :: "nat \<Rightarrow> ('d, 'b) gem_wine_thread \<Rightarrow> nat \<times> nat \<Rightarrow> ('d, 'b) gem_wine_process \<Rightarrow> 'c \<Rightarrow> ('d, 'b, 'c) wine_state" where
  "run_begin t th l p c = (set_thread t (th\<lparr>wt_run_lock := Some l\<rparr>) p, c, initialize_result)"

definition run_accepted_by :: "nat \<Rightarrow> ('d, 'b) gem_wine_process \<Rightarrow> nat \<Rightarrow> ('d, 'b) gem_wine_thread \<Rightarrow> gem_thread_context \<Rightarrow> bool" where
  "run_accepted_by me p t th c \<longleftrightarrow> thread_at p t = Some th \<and> \<not> wt_i386_thread th \<and> context_valid_for_thread th (Some c) \<and>
     stop_reason c = stop_code GEM_STOP_NONE \<and> run_trylock me th \<noteq> None"

definition i386_run_accepted_by :: "nat \<Rightarrow> ('d, 'b) gem_wine_process \<Rightarrow> nat \<Rightarrow> ('d, 'b) gem_wine_thread \<Rightarrow> gem_i386_context \<Rightarrow> bool" where
  "i386_run_accepted_by me p t th c \<longleftrightarrow> thread_at p t = Some th \<and> wt_i386_thread th \<and> i386_context_for th c \<and>
     i386_stop_reason c = stop_code GEM_STOP_NONE \<and> run_trylock me th \<noteq> None"

lemma thread_run_loop:
  assumes "run_accepted_by me p t th c" and "run_trylock me th = Some l"
  shows "gem_wine_thread_run W V me p (Some t) (Some c) True = (case wine_loop W V t (run_begin t th l p c) of
      None \<Rightarrow> None | Some (e, p, c, r) \<Rightarrow> map_option (\<lambda>p. (e, p, Some (c, r))) (unlock_run_lock t p))"
  using assms by (simp add: gem_wine_thread_run_def run_accepted_by_def run_begin_def)

lemma i386_thread_run_loop:
  assumes "i386_run_accepted_by me p t th c" and "run_trylock me th = Some l"
  shows "gem_wine_i386_thread_run W V me p (Some t) (Some c) True = (case i386_wine_loop W V t (run_begin t th l p c) of
      None \<Rightarrow> None | Some (e, p, c, r) \<Rightarrow> map_option (\<lambda>p. (e, p, Some (c, r))) (unlock_run_lock t p))"
  using assms by (simp add: gem_wine_i386_thread_run_def i386_run_accepted_by_def run_begin_def)

lemma thread_run_cases:
  assumes "gem_wine_thread_run W V me p to co out = Some (e, p', pub)"
  obtains (refused) "p' = p" "pub = None" "e = GEM_WINE_INVALID_ARGUMENT \<or> e = GEM_WINE_CONFLICT"
    | (ran) t th c l p1 c' r where "to = Some t" "co = Some c" "out" "run_accepted_by me p t th c" "run_trylock me th = Some l"
      "wine_loop W V t (run_begin t th l p c) = Some (e, p1, c', r)" "unlock_run_lock t p1 = Some p'" "pub = Some (c', r)"
  using assms
  by (auto simp: gem_wine_thread_run_def run_accepted_by_def run_begin_def split: option.splits if_splits)

lemma i386_thread_run_cases:
  assumes "gem_wine_i386_thread_run W V me p to co out = Some (e, p', pub)"
  obtains (refused) "p' = p" "pub = None" "e = GEM_WINE_INVALID_ARGUMENT \<or> e = GEM_WINE_CONFLICT"
    | (ran) t th c l p1 c' r where "to = Some t" "co = Some c" "out" "i386_run_accepted_by me p t th c" "run_trylock me th = Some l"
      "i386_wine_loop W V t (run_begin t th l p c) = Some (e, p1, c', r)" "unlock_run_lock t p1 = Some p'" "pub = Some (c', r)"
  using assms
  by (auto simp: gem_wine_i386_thread_run_def i386_run_accepted_by_def run_begin_def split: option.splits if_splits)

lemma begin_way:
  assumes "process_ok p" and t: "thread_at p t = Some th"
  shows "process_ok (fst (run_begin t th l p c))" "t < wp_next (fst (run_begin t th l p c))"
    "thread_at (fst (run_begin t th l p c)) t = Some (th\<lparr>wt_run_lock := Some l\<rparr>)"
    "evolves p (fst (run_begin t th l p c))" "wp_config (fst (run_begin t th l p c)) = wp_config p"
proof -
  show "evolves p (fst (run_begin t th l p c))" unfolding run_begin_def fst_conv
    by (rule evolves_set [OF t]) (simp_all add: process_thread [OF _ t])
  then show "process_ok (fst (run_begin t th l p c))" "t < wp_next (fst (run_begin t th l p c))"
      "thread_at (fst (run_begin t th l p c)) t = Some (th\<lparr>wt_run_lock := Some l\<rparr>)" "wp_config (fst (run_begin t th l p c)) = wp_config p"
    using assms thread_number [OF assms] by (simp_all add: evolves_def run_begin_def)
qed

lemma begin_inv:
  assumes "parts_ok W" "callbacks_keep V" "process_ok p" "run_accepted_by me p t th c"
  shows "wine_inv W V t (fst (run_begin t th l p c)) (th\<lparr>wt_run_lock := Some l\<rparr>) (run_begin t th l p c)"
  using assms begin_way [OF assms(3), of t th l c] valid_identity [of "th\<lparr>wt_run_lock := Some l\<rparr>" th "Some c"]
  by (auto simp: wine_inv_def on_the_way_def run_accepted_by_def run_begin_def initialize_result_def counters_ok_def)

lemma i386_begin_inv:
  assumes "callbacks_keep V" "process_ok p" "i386_run_accepted_by me p t th c"
  shows "i386_inv V t (fst (run_begin t th l p c)) (th\<lparr>wt_run_lock := Some l\<rparr>) (run_begin t th l p c)"
  using assms begin_way [OF assms(2), of t th l c] i386_valid_identity [of "th\<lparr>wt_run_lock := Some l\<rparr>" th c]
  by (auto simp: i386_inv_def on_the_way_def i386_run_accepted_by_def run_begin_def initialize_result_def counters_ok_def)

lemma run_evolves:
  assumes W: "parts_ok W" "callbacks_keep V" and run: "gem_wine_thread_run W V me p to co out = Some (e, p', pub)"
  shows "evolves p p'"
  using run
proof (cases rule: thread_run_cases)
  case (ran t th c l p1 c' r)
  have "evolves p p1" if p: "process_ok p"
  proof -
    have "thread_at p t = Some th" using ran(4) by (simp add: run_accepted_by_def)
    note b = begin_way [OF p this, of l c]
    have "on_the_way V t (fst (run_begin t th l p c)) p1"
      using wine.result [OF ran(6) [unfolded wine_loop_def] begin_inv [OF W p ran(4)]] by (simp add: wine_post_def)
    then have "evolves (fst (run_begin t th l p c)) p1" by (simp add: on_the_way_def evolves_def)
    then show ?thesis using b(4) evolves_trans by blast
  qed
  then show ?thesis using unlock_evolves [OF ran(7)] evolves_trans unfolding evolves_def by blast
qed simp

lemma i386_run_evolves:
  assumes V: "callbacks_keep V" and run: "gem_wine_i386_thread_run W V me p to co out = Some (e, p', pub)"
  shows "evolves p p'"
  using run
proof (cases rule: i386_thread_run_cases)
  case (ran t th c l p1 c' r)
  have "evolves p p1" if p: "process_ok p"
  proof -
    have "thread_at p t = Some th" using ran(4) by (simp add: i386_run_accepted_by_def)
    note b = begin_way [OF p this, of l c]
    have "on_the_way V t (fst (run_begin t th l p c)) p1"
      using i386.result [OF ran(6) [unfolded i386_wine_loop_def] i386_begin_inv [OF V p ran(4)]] by (simp add: i386_post_def)
    then have "evolves (fst (run_begin t th l p c)) p1" by (simp add: on_the_way_def evolves_def)
    then show ?thesis using b(4) evolves_trans by blast
  qed
  then show ?thesis using unlock_evolves [OF ran(7)] evolves_trans unfolding evolves_def by blast
qed simp

section \<open>Sequences of calls\<close>

text \<open>
  Everything a process can go through, one whole call after another. The callback of a run is code that calls the bridge, so
  what it does to the process is such a sequence too.
\<close>

inductive wine_calls :: "('d, 'b) wine_parts \<Rightarrow> ('d, 'b) gem_wine_process \<Rightarrow> ('d, 'b) gem_wine_process \<Rightarrow> bool" for W where
  no_call: "wine_calls W p p"
| prepared_arm64ec: "wine_calls W p q \<Longrightarrow> gem_wine_process_prepare_arm64ec W L (Some q) = (e, Some q') \<Longrightarrow> wine_calls W p q'"
| prepared_x86_64: "wine_calls W p q \<Longrightarrow> gem_wine_process_prepare_x86_64 L (Some q) kx = (e, Some q') \<Longrightarrow> wine_calls W p q'"
| prepared_i386: "wine_calls W p q \<Longrightarrow> gem_wine_process_prepare_i386 L (Some q) ki = (e, Some q') \<Longrightarrow> wine_calls W p q'"
| registered: "wine_calls W p q \<Longrightarrow> gem_wine_process_register_arm64x_mapped W L ok al mok mal (Some q) ka = (e, Some q') \<Longrightarrow> wine_calls W p q'"
| reserved: "wine_calls W p q \<Longrightarrow> gem_wine_process_reserve (Some q) a n = (e, Some q') \<Longrightarrow> wine_calls W p q'"
| committed: "wine_calls W p q \<Longrightarrow> gem_wine_process_commit_identity (Some q) a h n prot = (e, Some q') \<Longrightarrow> wine_calls W p q'"
| committed_i386: "wine_calls W p q \<Longrightarrow> gem_wine_process_commit_i386_host (Some q) a' h n prot = (e, Some q') \<Longrightarrow> wine_calls W p q'"
| decommitted: "wine_calls W p q \<Longrightarrow> gem_wine_process_decommit (Some q) a n = (e, Some q') \<Longrightarrow> wine_calls W p q'"
| released: "wine_calls W p q \<Longrightarrow> gem_wine_process_release (Some q) a n = (e, Some q') \<Longrightarrow> wine_calls W p q'"
| mapped: "wine_calls W p q \<Longrightarrow> gem_wine_process_map_identity (Some q) a h n prot = (e, Some q') \<Longrightarrow> wine_calls W p q'"
| unmapped: "wine_calls W p q \<Longrightarrow> gem_wine_process_unmap (Some q) a n = (e, Some q') \<Longrightarrow> wine_calls W p q'"
| protected: "wine_calls W p q \<Longrightarrow> gem_wine_process_protect (Some q) a n prot = (e, old, Some q') \<Longrightarrow> wine_calls W p q'"
| bound_kuser: "wine_calls W p q \<Longrightarrow> gem_wine_process_bind_kuser (Some q) h = (e, Some q') \<Longrightarrow> wine_calls W p q'"
| invalidated: "wine_calls W p q \<Longrightarrow> gem_wine_process_invalidate_code W L (Some q) a n = (e, Some q') \<Longrightarrow> wine_calls W p q'"
| thread_made: "wine_calls W p q \<Longrightarrow> gem_wine_thread_create W L A (Some q) kt out = (e, t, Some q') \<Longrightarrow> wine_calls W p q'"
| i386_thread_made: "wine_calls W p q \<Longrightarrow> gem_wine_i386_thread_create W L A (Some q) kj out = (e, t, Some q') \<Longrightarrow> wine_calls W p q'"
| thread_gone: "wine_calls W p q \<Longrightarrow> gem_wine_thread_destroy L me q to = (e, q') \<Longrightarrow> wine_calls W p q'"
| simd_set: "wine_calls W p q \<Longrightarrow> \<forall>l. vs = Some l \<longrightarrow> length l = 16 \<Longrightarrow> gem_wine_thread_set_native_upper_simd L q to vs = Some (e, q') \<Longrightarrow> wine_calls W p q'"
| stop_requested: "wine_calls W p q \<Longrightarrow> gem_wine_thread_request_async_stop W L q to = Some q' \<Longrightarrow> wine_calls W p q'"
| ran: "wine_calls W p q \<Longrightarrow> (\<And>n f a rq rs s. wine_calls W s (snd (snd (wv_callback V n f a rq rs s)))) \<Longrightarrow>
    (\<And>n f a rq rs s. wine_calls W s (snd (snd (wv_i386_callback V n f a rq rs s)))) \<Longrightarrow>
    gem_wine_thread_run W V me q to co out = Some (e, q', pub) \<Longrightarrow> wine_calls W p q'"
| i386_ran: "wine_calls W p q \<Longrightarrow> (\<And>n f a rq rs s. wine_calls W s (snd (snd (wv_callback V n f a rq rs s)))) \<Longrightarrow>
    (\<And>n f a rq rs s. wine_calls W s (snd (snd (wv_i386_callback V n f a rq rs s)))) \<Longrightarrow>
    gem_wine_i386_thread_run W V me q to ci out = Some (e, q', pub') \<Longrightarrow> wine_calls W p q'"

lemma calls_evolve:
  assumes "wine_calls W p q" and W: "parts_ok W"
  shows "evolves p q"
  using assms(1)
proof induction
  case (committed p q a h n prot e q')
  then show ?case using on_process_evolves evolves_trans unfolding gem_wine_process_commit_identity_def by blast
next
  case (committed_i386 p q a' h n prot e q')
  then show ?case using on_process_evolves evolves_trans unfolding gem_wine_process_commit_i386_host_def by blast
next
  case (decommitted p q a n e q')
  then show ?case using on_process_evolves evolves_trans unfolding gem_wine_process_decommit_def by blast
next
  case (released p q a n e q')
  then show ?case using on_process_evolves evolves_trans unfolding gem_wine_process_release_def by blast
next
  case (mapped p q a h n prot e q')
  then show ?case using on_process_evolves evolves_trans unfolding gem_wine_process_map_identity_def by blast
next
  case (unmapped p q a n e q')
  then show ?case using on_process_evolves evolves_trans unfolding gem_wine_process_unmap_def by blast
next
  case (bound_kuser p q h e q')
  then show ?case using on_process_evolves evolves_trans unfolding gem_wine_process_bind_kuser_def by blast
next
  case (ran p q V me to co out e q' pub)
  then have "callbacks_keep V" by (simp add: callbacks_keep_def)
  then show ?case using run_evolves [OF W _ ran.hyps(4)] ran.IH evolves_trans by blast
next
  case (i386_ran p q V me to ci out e q' pub')
  then have "callbacks_keep V" by (simp add: callbacks_keep_def)
  then show ?case using i386_run_evolves [OF _ i386_ran.hyps(4)] i386_ran.IH evolves_trans by blast
qed (blast intro: evolves_refl evolves_trans prepare_arm64ec_evolves prepare_x86_64_evolves prepare_i386_evolves register_evolves reserve_evolves
    protect_evolves invalidate_evolves thread_create_evolves i386_thread_create_evolves destroy_evolves set_simd_evolves async_stop_evolves)+

end
