(* ===== verification/Gem_Wine_Laws.thy ===== *)
theory Gem_Wine_Laws
  imports Gem_Wine_Theorems
begin

text \<open>
  The properties of the bridge, with an instance: a thread whose engine executes one return to the host.
\<close>

section \<open>Processes\<close>

text \<open>
  (C12) Every process that \<open>gem_wine_process_create\<close> gives stays in order under every sequence of whole calls,
  runs and the callbacks in them included, whatever they answer, if the engines keep \<open>parts_ok\<close>: it is in one mode at
  most; its images do not overlap and the one that covers an address is found; thread numbers are distinct
  and not given again; a thread has the engine of its kind, idle and well-formed, the engines of other
  modes only in those modes, coordinators of registered images only, one for each and in order, and goes back only to
  a coordinator it has. The configuration of the process and of each thread stays as it was.
\<close>

theorem wine_process_ok:
  assumes "parts_ok W" and "gem_wine_process_create ok lt li mo ko out = (e, Some p0)" and "wine_calls W p0 p"
  shows "process_ok p \<and> follows p0 p \<and> (\<forall>i \<in> set (wp_images p). \<forall>va. image_covers i va \<longrightarrow> find_image_for_pc True (wp_images p) va = Some i)"
proof -
  have p: "process_ok p \<and> follows p0 p"
    using calls_evolve [OF assms(3,1)] created_process [OF assms(2)] by (simp add: evolves_def)
  then have "images_ok (wp_images p)" by (simp add: process_ok_def)
  then show ?thesis using p find_covering by (auto simp: find_image_for_pc_def)
qed

section \<open>Runs\<close>






text \<open>
  Runs of i386 threads in the same way. Nothing bounds what an i386 engine retires in a segment beyond 32 bits, and the sum is
  not checked, so only the callbacks are counted within their limit.
\<close>

theorem i386_run_outcome:
  assumes "callbacks_keep V" and "process_ok p" and run: "gem_wine_i386_thread_run W V me p to co out = Some (e, p', Some (c', r))"
  shows "process_ok p' \<and> follows p p' \<and> out \<and> (\<exists>t th c. to = Some t \<and> co = Some c \<and> i386_run_accepted_by me p t th c \<and>
    ended_well False (wp_config p) e r \<and> (e \<noteq> GEM_WINE_ENGINE_ERROR \<longrightarrow> i386_context_for th c'))"
  using run
proof (cases rule: i386_thread_run_cases)
  case (ran t th c l p1 d q)
  have t: "thread_at p t = Some th" using ran(4) by (simp add: i386_run_accepted_by_def)
  have "i386_post V t (fst (run_begin t th l p c)) (th\<lparr>wt_run_lock := Some l\<rparr>) (e, p1, d, q)"
    by (rule i386.result [OF ran(6) [unfolded i386_wine_loop_def] i386_begin_inv [OF assms(1,2) ran(4)]])
  then have "ended_well False (wp_config p) e r \<and> (e \<noteq> GEM_WINE_ENGINE_ERROR \<longrightarrow> i386_context_for th c')"
    using ran(8) begin_way(5) [OF assms(2) t, of l c] i386_valid_identity [of "th\<lparr>wt_run_lock := Some l\<rparr>" th c']
    by (auto simp: i386_post_def identity_def)
  then show ?thesis using ran i386_run_evolves [OF assms(1) run] assms(2) by (auto simp: evolves_def)
qed simp

section \<open>The callback\<close>

text \<open>The upper vector registers of a thread's native engine.\<close>

definition upper_simd :: "('d, 'b) gem_wine_thread \<Rightarrow> gem_u128 list option" where
  "upper_simd th = map_option ar_native_upper_simd (wt_runtime th)"

lemma known_upper:
  assumes "thread_ok k th" "\<not> wt_i386_thread th"
  shows "gem_arm64ec_runtime_get_native_upper_simd (wt_runtime th) (Some l) = (True, upper_simd th)"
    "\<exists>l. upper_simd th = Some l \<and> length l = 16"
  using assms by (auto simp: thread_ok_def gem_arm64ec_runtime_get_native_upper_simd_def upper_simd_def native_ok_def arm64ec_wf_def
      split: option.splits prod.splits)

lemma restored_upper:
  assumes p: "process_ok p" and t: "thread_at p t = Some th" "\<not> wt_i386_thread th" and l: "length l = 16"
  shows "\<exists>p'. restore_simd t True (Some l) p = Some p' \<and> process_ok p' \<and> follows p p' \<and>
    (\<exists>th'. thread_at p' t = Some th' \<and> upper_simd th' = Some l)"
proof -
  obtain r where r: "wt_runtime th = Some r" "native_ok r"
    using process_thread [OF p t(1)] t(2) by (auto simp: thread_ok_def split: prod.splits)
  let ?th = "th\<lparr>wt_runtime := Some (r\<lparr>ar_native_upper_simd := l\<rparr>)\<rparr>"
  have set: "restore_simd t True (Some l) p = Some (set_thread t ?th p)"
    using r t(1) l by (simp add: restore_simd_def gem_arm64ec_runtime_set_native_upper_simd_def native_ok_def)
  have "native_ok (r\<lparr>ar_native_upper_simd := l\<rparr>)" using r(2) l by (auto simp: native_ok_def arm64ec_wf_def)
  then have "thread_ok (modes p) ?th" using process_thread [OF p t(1)] r(1) by (auto simp: thread_ok_def split: prod.splits)
  then have "evolves p (set_thread t ?th p)" by (intro evolves_set [OF t(1)]) (simp_all add: identity_def)
  then show ?thesis using set p t(1) by (auto simp: evolves_def upper_simd_def)
qed

text \<open>
  (C22) A stop that is handed to Wine is answered in one way of three, with the process in order and one callback
  counted. The run goes on only when the callback answered OK, in the version and the size of the interface, to
  resume: in the context of the answer with the coordinator's two fields of the old one, which is valid for the
  thread, has no stop reason, and after a syscall or a unix call is at another instruction. It ends with
  TERMINATED or with CALLBACK_ERROR, and then the context is the one before the callback; after an error the thread that ran
  ARM64EC code has its upper vector registers of before as well, whatever the callback put there. (It is stuck only
  when the callback destroyed the thread.)
\<close>

theorem wine_boundary_keeps:
  assumes "callbacks_keep V" and "process_ok p" and "thread_at p t = Some th" and "\<not> wt_i386_thread th"
  shows "case wine_boundary V n t th event stop (p, c, r) of
      None \<Rightarrow> \<not> callbacks_spare V t
    | Some (Inl (e, p', c', r')) \<Rightarrow> process_ok p' \<and> follows p p' \<and> c' = c \<and> wr_boundary_callbacks r' = wr_boundary_callbacks r + 1 \<and>
        (e = GEM_WINE_TERMINATED \<or> e = GEM_WINE_CALLBACK_ERROR \<and>
          (isa c = isa_code GEM_ISA_ARM64EC \<longrightarrow> (\<exists>th'. thread_at p' t = Some th' \<and> upper_simd th' = upper_simd th)))
    | Some (Inr (p', c', r')) \<Rightarrow> process_ok p' \<and> follows p p' \<and> r' = r\<lparr>wr_boundary_callbacks := wr_boundary_callbacks r + 1\<rparr> \<and>
        context_valid_for_thread th (Some c') \<and> stop_reason c' = stop_code GEM_STOP_NONE \<and>
        (event = GEM_WINE_EVENT_SYSCALL \<or> event = GEM_WINE_EVENT_UNIX_CALL \<longrightarrow> pc c' \<noteq> pc c) \<and>
        (\<exists>a. wv_callback V n (wtc_boundary (wt_config th)) (wtc_opaque (wt_config th)) (boundary_request event 776 c stop)
            (empty_response 736 c) p = (GEM_WINE_OK, a, p') \<and> wa_version a = GEM_WINE_BOUNDARY_ABI_VERSION \<and> wa_struct_size a = 736 \<and>
          wa_action a = GEM_WINE_BOUNDARY_RESUME \<and>
          c' = (wa_context a)\<lparr>transition_cookie := transition_cookie c, original_x64_sp := original_x64_sp c\<rparr>)"
proof -
  note known = known_upper [OF process_thread [OF assms(2,3)] assms(4)]
  obtain l where l: "upper_simd th = Some l" "length l = 16" using known(2) by blast
  obtain st a p1 where cb: "wv_callback V n (wtc_boundary (wt_config th)) (wtc_opaque (wt_config th)) (boundary_request event 776 c stop)
      (empty_response 736 c) p = (st, a, p1)" by (metis prod_cases3)
  have "evolves p p1" using assms(1) cb unfolding callbacks_keep_def by (metis snd_conv)
  then have p1: "process_ok p1" "follows p p1" using assms(2) by (simp_all add: evolves_def)
  have gone: "\<not> callbacks_spare V t" if "thread_at p1 t = None"
    using that assms(3) cb unfolding callbacks_spare_def by (metis option.distinct(1) snd_conv)
  have kept: "\<not> wt_i386_thread th1" if "thread_at p1 t = Some th1" for th1
    using that p1(2) assms(3,4) thread_number [OF assms(2,3)] by (auto simp: follows_def identity_def)
  show ?thesis
  proof (cases "st = GEM_WINE_OK \<and> wa_version a = GEM_WINE_BOUNDARY_ABI_VERSION \<and> wa_struct_size a = 736 \<and>
      (wa_action a = GEM_WINE_BOUNDARY_TERMINATE \<or> resumes th event c a)")
    case True
    then show ?thesis
      using cb p1 by (auto simp: wine_boundary_def Let_def known(1) resumes_def proposed_context_def)
  next
    case False
    then have "wine_boundary V n t th event stop (p, c, r) = map_option (\<lambda>q. Inl (GEM_WINE_CALLBACK_ERROR, q, c,
        r\<lparr>wr_boundary_callbacks := wr_boundary_callbacks r + 1, wr_outcome := GEM_WINE_RUN_FAILED\<rparr>)) (restore_simd t (isa c = isa_code GEM_ISA_ARM64EC) (Some l) p1)"
      using cb by (auto simp: wine_boundary_def Let_def known(1) l(1))
    moreover have ?thesis if "isa c = isa_code GEM_ISA_ARM64EC" "thread_at p1 t = Some th1" for th1
      using calculation that restored_upper [OF p1(1) that(2) kept [OF that(2)] l(2)] follows_trans [OF p1(2)] l(1) by auto
    ultimately show ?thesis using p1 gone by (cases "thread_at p1 t") (auto simp: restore_simd_def split: option.splits)
  qed
qed

section \<open>An instance\<close>

text \<open>
  A native engine that makes a syscall at 0x1000 and returns to the host elsewhere, in a process without images, and a
  callback that answers a syscall by going on at 0x2000.
\<close>

definition syscall_backend :: "unit arm64ec_backend" where
  "syscall_backend = unavailable_backend\<lparr>backend_create := (\<lambda>_. Some ()),
     backend_run := (\<lambda>r m c n. (if pc c = 0x1000 then GEM_STOP_SYSCALL else GEM_STOP_HOST_RETURN,
       r\<lparr>ar_last_stop := (ar_last_stop r)\<lparr>as_instructions_retired := (if n = 0 then 0 else 1)\<rparr>\<rparr>, m, c))\<rparr>"

definition idle_backend :: "(unit \<times> hybrid_core) arm64ec_backend" where
  "idle_backend = \<lparr>backend_create = (\<lambda>_. None), backend_run = (\<lambda>r m c n. (GEM_STOP_INVARIANT_VIOLATION, r, m, c)),
     backend_invalidate_code = (\<lambda>d _ _. d), backend_request_async_stop = (\<lambda>d. d), backend_engine_name = ''idle'', backend_engine_version = ''1''\<rparr>"

definition wine_sample :: "(unit, unit) wine_parts" where
  "wine_sample = \<lparr>wn_native = (\<lambda>_. syscall_backend), wn_hybrid = (\<lambda>_. idle_backend), wn_x64 = nop_blink, wn_i386 = nop_i386,
     wn_accessible = (\<lambda>_ _. True), wn_native_image_boundary = 0x10, wn_process_target_resolve = 0x20, wn_process = 0x30, wn_thread = (\<lambda>_. 0x40)\<rparr>"

definition wine_config :: gem_wine_process_config where
  "wine_config = \<lparr>wpc_version = 1, wpc_struct_size = 80, wpc_segment_instruction_budget = 100, wpc_total_instruction_budget = 1000,
     wpc_max_boundary_callbacks = 10, wpc_host_return_sentinel = 0x50, wpc_unix_call_dispatcher = 0, wpc_reserved = replicate 4 0\<rparr>"

definition wine_thread_config :: gem_wine_thread_config where
  "wine_thread_config = \<lparr>wtc_version = 1, wtc_struct_size = 64, wtc_teb = 0x5000, wtc_boundary = 0x60, wtc_opaque = 0, wtc_reserved = replicate 4 0\<rparr>"

definition open_locks :: wine_locks where
  "open_locks = \<lparr>lk_threads = True, lk_images = True, lk_runtime = (\<lambda>_. True)\<rparr>"

definition wine_sample_environment :: "(unit, unit) wine_environment" where
  "wine_sample_environment = \<lparr>wv_locks = (\<lambda>_. open_locks), wv_binding = (\<lambda>_. True), wv_allocations = (\<lambda>_. undefined), wv_x64_alloc = (\<lambda>_. True),
     wv_hybrid = (\<lambda>_. undefined), wv_x64 = (\<lambda>_. quiet), wv_i386 = (\<lambda>_. undefined), wv_quanta = (\<lambda>_. 0),
     wv_callback = (\<lambda>_ _ _ _ s p. (GEM_WINE_OK, s\<lparr>wa_action := 1, wa_context := (wa_context s)\<lparr>pc := 0x2000, stop_reason := 0\<rparr>\<rparr>, p)),
     wv_i386_callback = (\<lambda>_ _ _ _ s p. (GEM_WINE_OK, s, p))\<rparr>"

definition wine_sample_context :: gem_thread_context where
  "wine_sample_context = (gem_context_initialize 0x5000 GEM_ISA_ARM64EC)\<lparr>pc := 0x1000, x := (replicate 31 0)[18 := 0x5000]\<rparr>"

text \<open>The process as it is created, and with its thread.\<close>

definition wine_sample_start :: "gem_memory \<Rightarrow> (unit, unit) gem_wine_process" where
  "wine_sample_start m = \<lparr>wp_memory = m, wp_config = wine_config, wp_threads = [], wp_images = [], wp_arm64x_routing_enabled = False,
     wp_x86_64_routing_enabled = False, wp_i386_routing_enabled = False, wp_x86_64_config = zero_x86_64_config,
     wp_i386_config = zero_i386_config, wp_next = 0\<rparr>"

definition wine_sample_thread :: "(unit, unit) gem_wine_thread" where
  "wine_sample_thread = zero_thread\<lparr>wt_config := wine_thread_config, wt_runtime := Some (reset_stop (fresh_runtime
     (fill_sentinels (arm64ec_config_default\<lparr>af_host_return_sentinel := 0x50, af_max_budget := 100, af_execution_profile := GEM_ARM64EC_PROFILE_NATIVE_ARM64\<rparr>)) ())
     GEM_STOP_NONE)\<rparr>"

lemma sample_started: "gem_wine_process_create True True True (Some m) (Some wine_config) True = (GEM_WINE_OK, Some (wine_sample_start m))"
  by (simp add: gem_wine_process_create_def wine_config_def wine_sample_start_def GEM_WINE_PROCESS_CONFIG_VERSION_def zero_words_def list_all_iff)

lemma sample_thread_made:
  "gem_wine_thread_create wine_sample open_locks \<lparr>ta_thread = True, ta_attribute = True, ta_run_lock = True, ta_runtime_lock = True, ta_runtime = True\<rparr>
     (Some (wine_sample_start m)) (Some wine_thread_config) True = (GEM_WINE_OK, Some 0, Some (add_thread wine_sample_thread (wine_sample_start m)))"
  by (simp add: gem_wine_thread_create_def wine_sample_start_def wine_thread_config_def GEM_WINE_THREAD_CONFIG_VERSION_def zero_words_def list_all_iff open_locks_def
      gem_arm64ec_runtime_create_def native_engine_def wine_sample_def syscall_backend_def wine_config_def wine_sample_thread_def arm64ec_constants
      arm64ec_config_default_def Let_def)

lemma sample_parts: "parts_ok wine_sample" "native_within wine_sample"
  by (auto simp: parts_ok_def broker_only_def backend_keeps_def native_within_def wine_sample_def wine_hybrid_parts_def syscall_backend_def idle_backend_def
      word_le_nat_alt unat_gt_0 Suc_le_eq)

lemma sample_callbacks: "callbacks_keep wine_sample_environment" "callbacks_spare wine_sample_environment t"
  by (simp_all add: callbacks_keep_def callbacks_spare_def wine_sample_environment_def)

text \<open>The two turns of the run: the syscall, and the return to the host.\<close>

abbreviation sample_begin :: "gem_memory \<Rightarrow> (unit, unit, gem_thread_context) wine_state" where
  "sample_begin m \<equiv> run_begin 0 wine_sample_thread (7, 1) (add_thread wine_sample_thread (wine_sample_start m)) wine_sample_context"

lemma sample_turns:
  "case wine_iteration wine_sample wine_sample_environment 0 0 (sample_begin m) of
     Some (Inr s) \<Rightarrow> (case wine_iteration wine_sample wine_sample_environment 1 0 s of
        Some (Inl (e, p, c, r)) \<Rightarrow> e = GEM_WINE_OK \<and> pc c = 0x2000 \<and> wr_boundary_callbacks r = 1 \<and> wr_instructions_retired r = 2 \<and>
          thread_at p 0 \<noteq> None
      | _ \<Rightarrow> False)
   | _ \<Rightarrow> False"
  by code_simp

abbreviation sample_process :: "gem_memory \<Rightarrow> (unit, unit) gem_wine_process" where
  "sample_process m \<equiv> add_thread wine_sample_thread (wine_sample_start m)"

lemma wine_sample_at: "thread_at (sample_process m) 0 = Some wine_sample_thread"
  by (simp add: thread_at_def add_thread_def wine_sample_start_def)

lemma sample_accepted: "run_accepted_by 7 (sample_process m) 0 wine_sample_thread wine_sample_context" "run_trylock 7 wine_sample_thread = Some (7, 1)"
proof -
  have "\<not> wt_i386_thread wine_sample_thread" "context_valid_for_thread wine_sample_thread (Some wine_sample_context)"
    "stop_reason wine_sample_context = stop_code GEM_STOP_NONE"
    by code_simp+
  moreover show l: "run_trylock 7 wine_sample_thread = Some (7, 1)"
    by (simp add: run_trylock_def wine_sample_thread_def zero_thread_def)
  ultimately show "run_accepted_by 7 (sample_process m) 0 wine_sample_thread wine_sample_context"
    by (simp add: run_accepted_by_def wine_sample_at)
qed

lemma turn_Inr: "(case u of Some (Inr s) \<Rightarrow> P s | _ \<Rightarrow> False) \<Longrightarrow> \<exists>s. u = Some (Inr s) \<and> P s"
  by (auto split: option.splits sum.splits)

lemma turn_Inl: "(case u of Some (Inl e) \<Rightarrow> P e | _ \<Rightarrow> False) \<Longrightarrow> \<exists>e. u = Some (Inl e) \<and> P e"
  by (auto split: option.splits sum.splits)

lemma wine_sample_run:
  "\<exists>p c r. gem_wine_thread_run wine_sample wine_sample_environment 7 (sample_process m) (Some 0) (Some wine_sample_context) True =
     Some (GEM_WINE_OK, p, Some (c, r)) \<and> pc c = 0x2000 \<and> wr_boundary_callbacks r = 1 \<and> wr_instructions_retired r = 2"
proof -
  let ?turn = "\<lambda>n. wine_iteration wine_sample wine_sample_environment n 0"
  obtain s p c r where t: "?turn 0 (sample_begin m) = Some (Inr s)" "?turn (Suc 0) s = Some (Inl (GEM_WINE_OK, p, c, r))" "thread_at p 0 \<noteq> None"
    and e: "pc c = 0x2000" "wr_boundary_callbacks r = 1" "wr_instructions_retired r = 2"
    using sample_turns [of m] unfolding One_nat_def by (auto dest!: turn_Inr turn_Inl)
  have "wine_loop wine_sample wine_sample_environment 0 (sample_begin m) = Some (GEM_WINE_OK, p, c, r)"
    using t unfolding wine_loop_def by (subst run_turns.simps, simp, subst run_turns.simps, simp)
  then show ?thesis using thread_run_loop [OF sample_accepted, of wine_sample wine_sample_environment m] t(3) e by (auto simp: unlock_run_lock_def)
qed

lemma sample_calls:
  assumes "gem_wine_thread_run wine_sample wine_sample_environment 7 (sample_process m) (Some 0) (Some wine_sample_context) True = Some (e, p, pub)"
  shows "wine_calls wine_sample (wine_sample_start m) p"
proof (rule wine_calls.ran [OF wine_calls.thread_made [OF wine_calls.no_call sample_thread_made] _ _ assms])
  show "wine_calls wine_sample s (snd (snd (wv_callback wine_sample_environment n f a rq rs s)))"
    "wine_calls wine_sample s (snd (snd (wv_i386_callback wine_sample_environment n f a rq' rs' s)))" for n f a rq rs rq' rs' s
    by (simp_all add: wine_sample_environment_def wine_calls.no_call)
qed

theorem wine_process_ok_witness:
  "\<forall>m. \<exists>p pub. gem_wine_thread_run wine_sample wine_sample_environment 7 (sample_process m) (Some 0) (Some wine_sample_context) True =
     Some (GEM_WINE_OK, p, pub) \<and> process_ok p \<and> follows (wine_sample_start m) p"
proof
  fix m
  obtain p c r where run: "gem_wine_thread_run wine_sample wine_sample_environment 7 (sample_process m) (Some 0) (Some wine_sample_context) True =
      Some (GEM_WINE_OK, p, Some (c, r))" using wine_sample_run by blast
  from wine_process_ok [OF sample_parts(1) sample_started sample_calls [OF run]]
  show "\<exists>p pub. gem_wine_thread_run wine_sample wine_sample_environment 7 (sample_process m) (Some 0) (Some wine_sample_context) True =
      Some (GEM_WINE_OK, p, pub) \<and> process_ok p \<and> follows (wine_sample_start m) p" using run by blast
qed

lemma sample_ok: "process_ok (sample_process m)"
  using calls_evolve [OF wine_calls.thread_made [OF wine_calls.no_call sample_thread_made] sample_parts(1)] created_process [OF sample_started]
  by (simp add: evolves_def)


theorem wine_boundary_keeps_witness:
  "\<forall>m r. \<exists>p c. wine_boundary wine_sample_environment 0 0 wine_sample_thread GEM_WINE_EVENT_SYSCALL zero_wine_stop
       (sample_process m, wine_sample_context, r) = Some (Inr (p, c, r\<lparr>wr_boundary_callbacks := wr_boundary_callbacks r + 1\<rparr>)) \<and>
     process_ok p \<and> pc c \<noteq> pc wine_sample_context"
proof (intro allI)
  fix m r
  let ?b = "wine_boundary wine_sample_environment 0 0 wine_sample_thread GEM_WINE_EVENT_SYSCALL zero_wine_stop (sample_process m, wine_sample_context, r)"
  have i: "\<not> wt_i386_thread wine_sample_thread" using sample_accepted(1) by (simp add: run_accepted_by_def)
  have "case ?b of Some (Inr _) \<Rightarrow> True | _ \<Rightarrow> False" by code_simp
  then obtain s where s: "?b = Some (Inr s)" by (auto split: option.splits sum.splits)
  from wine_boundary_keeps [OF sample_callbacks(1) sample_ok [of m] wine_sample_at i, where n = 0 and event = GEM_WINE_EVENT_SYSCALL and stop = zero_wine_stop and c = wine_sample_context and r = r]
  show "\<exists>p c. ?b = Some (Inr (p, c, r\<lparr>wr_boundary_callbacks := wr_boundary_callbacks r + 1\<rparr>)) \<and> process_ok p \<and> pc c \<noteq> pc wine_sample_context"
    by (cases s) (auto simp: s)
qed

end
